(* ===== verification/Prelude.thy ===== *)
theory Prelude
  imports Complex_Main "HOL-Library.Char_ord" "HOL-Library.List_Lexorder"
    "HOL-Library.Product_Lexorder"
begin

text \<open>
  Shared vocabulary of the development.

  \<^item> A Python call that may raise is a value of \<open>'a result\<close>: \<open>Inl\<close> the exception,
    \<open>Inr\<close> the returned value.  \<open>rbind\<close> sequences two such calls and \<open>guards\<close> runs a list of
    \<open>if ...: raise\<close> statements, so the first failing guard is the exception raised.
  \<^item> \<open>dedupe\<close> is the dictionary loop that every registry constructor of
    \<open>change_control/models.py\<close> runs (first binding wins, a different second binding raises,
    values are returned in sorted key order).  Its laws are proved once, here.
  \<^item> \<open>py_env\<close> holds the four library functions the code treats as opaque:
    \<open>hashlib.sha256(..).hexdigest()\<close>, \<open>unicodedata.normalize("NFKC", ..)\<close>, \<open>round\<close> and the
    \<open>repr\<close> of a float that \<open>json.dumps\<close> writes.
\<close>

named_theorems wf_simps \<open>definitions of the validity predicates\<close>
named_theorems json_simps \<open>equations of the JSON views\<close>
named_theorems env_simps \<open>facts about the concrete environment used by the examples\<close>

section \<open>Exceptions as values\<close>

datatype py_error = ValueError string | KeyError string | AssertionError

type_synonym 'a result = "py_error + 'a"

definition rbind :: "'e + 'a \<Rightarrow> ('a \<Rightarrow> 'e + 'b) \<Rightarrow> 'e + 'b" where
  "rbind r f = (case r of Inl e \<Rightarrow> Inl e | Inr x \<Rightarrow> f x)"

lemma rbind_simps [simp]:
  "rbind (Inl e) f = Inl e"
  "rbind (Inr x) f = f x"
  by (simp_all add: rbind_def)

lemma rbind_Inr_iff:
  "rbind r f = Inr y \<longleftrightarrow> (\<exists>x. r = Inr x \<and> f x = Inr y)"
  by (cases r) simp_all

lemma rbind_InrE:
  assumes "rbind r f = Inr y"
  obtains x where "r = Inr x" and "f x = Inr y"
  using assms by (auto simp: rbind_Inr_iff)

fun guards :: "(bool \<times> 'e) list \<Rightarrow> 'a \<Rightarrow> 'e + 'a" where
  "guards [] x = Inr x"
| "guards ((ok, e) # gs) x = (if ok then guards gs x else Inl e)"

lemma guards_Inr_iff [simp]:
  "guards gs x = Inr y \<longleftrightarrow> y = x \<and> list_all fst gs"
  by (induction gs x rule: guards.induct) auto

lemma guards_Inl:
  "guards gs x = Inl e \<Longrightarrow> \<not> list_all fst gs \<and> e \<in> snd ` set gs"
  by (induction gs x rule: guards.induct) (auto split: if_splits)

lemma guards_append:
  "guards (gs @ hs) x = rbind (guards gs x) (guards hs)"
  by (induction gs x rule: guards.induct) auto

declare guards.simps(2) [simp del]

text \<open>A \<open>for\<close> loop whose body may raise.\<close>

fun rmap :: "('a \<Rightarrow> 'e + 'b) \<Rightarrow> 'a list \<Rightarrow> 'e + 'b list" where
  "rmap f [] = Inr []"
| "rmap f (x # xs) = rbind (f x) (\<lambda>y. rbind (rmap f xs) (\<lambda>ys. Inr (y # ys)))"

lemma rmap_Inr_iff:
  "rmap f xs = Inr ys \<longleftrightarrow> list_all2 (\<lambda>x y. f x = Inr y) xs ys"
  by (induction xs arbitrary: ys) (auto simp: rbind_Inr_iff list_all2_Cons1)

lemma rmap_ex_iff: "(\<exists>ys. rmap f xs = Inr ys) \<longleftrightarrow> (\<forall>x \<in> set xs. \<exists>y. f x = Inr y)"
  by (induction xs) (auto simp: rbind_Inr_iff)

lemma rmap_total: "(\<And>x. x \<in> set xs \<Longrightarrow> \<exists>y. f x = Inr y) \<Longrightarrow> \<exists>ys. rmap f xs = Inr ys"
  by (simp add: rmap_ex_iff)

lemma rmap_Inr_mem: "rmap f xs = Inr ys \<Longrightarrow> y \<in> set ys \<longleftrightarrow> (\<exists>x \<in> set xs. f x = Inr y)"
proof (induction xs arbitrary: ys)
  case (Cons x xs)
  then obtain z zs where z: "f x = Inr z" and zs: "rmap f xs = Inr zs" and ys: "ys = z # zs"
    unfolding rmap.simps rbind_Inr_iff by blast
  have "y \<in> set ys \<longleftrightarrow> y = z \<or> (\<exists>x \<in> set xs. f x = Inr y)"
    using Cons.IH [OF zs] by (simp add: ys)
  also have "\<dots> \<longleftrightarrow> (\<exists>x \<in> set (x # xs). f x = Inr y)"
    by (simp add: z eq_commute)
  finally show ?case .
qed simp

lemma rmap_set_cong:
  assumes "set xs = set xs'" and "rmap f xs = Inr ys"
  shows "\<exists>ys'. rmap f xs' = Inr ys' \<and> set ys' = set ys"
proof -
  have "\<forall>x \<in> set xs. \<exists>y. f x = Inr y" 
    unfolding rmap_ex_iff [symmetric] using assms(2) by (rule exI)
  then have "\<forall>x \<in> set xs'. \<exists>y. f x = Inr y" unfolding assms(1) .
  then obtain ys' where ys': "rmap f xs' = Inr ys'" unfolding rmap_ex_iff [symmetric] ..
  have "y \<in> set ys' \<longleftrightarrow> y \<in> set ys" for y
    unfolding rmap_Inr_mem [OF assms(2)] rmap_Inr_mem [OF ys'] assms(1) ..
  then have "set ys' = set ys" by (rule set_eqI)
  with ys' show ?thesis by (intro exI conjI)
qed

lemma rmap_id: "(\<And>x. x \<in> set xs \<Longrightarrow> f x = Inr x) \<Longrightarrow> rmap f xs = Inr xs"
  by (induction xs) auto

lemma rmap_id_iff: "rmap f xs = Inr xs \<longleftrightarrow> (\<forall>x \<in> set xs. f x = Inr x)"
  by (auto simp: rmap_Inr_iff list_all2_same)

lemma rmap_length: "rmap f xs = Inr ys \<Longrightarrow> length ys = length xs"
  by (auto simp: rmap_Inr_iff dest: list_all2_lengthD)

section \<open>The interpreter's library functions taken as parameters\<close>

record py_env =
  sha256_hex :: "string \<Rightarrow> string"
  nfkc :: "string \<Rightarrow> string"
  float_repr :: "rat \<Rightarrow> string"
  py_round :: "rat \<Rightarrow> nat \<Rightarrow> rat"

section \<open>Canonical lists\<close>

text \<open>\<open>sorted(set(xs))\<close> and the check \<open>xs == tuple(sorted(set(xs)))\<close>.\<close>

definition sorted_set :: "'a::linorder list \<Rightarrow> 'a list" where
  "sorted_set xs = sort (remdups xs)"

lemma sorted_set_props [simp]:
  "sorted (sorted_set xs)" "distinct (sorted_set xs)" "set (sorted_set xs) = set xs"
  by (simp_all add: sorted_set_def)

lemma sorted_set_cong: "set xs = set ys \<Longrightarrow> sorted_set xs = sorted_set ys"
  by (simp add: sorted_distinct_set_unique)

lemma sorted_set_id_iff: "xs = sorted_set xs \<longleftrightarrow> sorted xs \<and> distinct xs"
proof
  assume "xs = sorted_set xs"
  then show "sorted xs \<and> distinct xs" by (metis sorted_set_props(1,2))
next
  assume "sorted xs \<and> distinct xs"
  then show "xs = sorted_set xs"
    by (simp add: sorted_distinct_set_unique)
qed

lemma sorted_set_Nil_iff [simp]: "sorted_set xs = [] \<longleftrightarrow> xs = []"
  by (metis set_empty sorted_set_props(3))

lemma sort_Nil_iff [simp]: "sort xs = [] \<longleftrightarrow> xs = []"
  by (metis set_empty set_sort)

lemma sorted_set_idem [simp]: "sorted_set (sorted_set xs) = sorted_set xs"
  by (metis sorted_set_id_iff sorted_set_props(1,2))

text \<open>
  \<open>by_id: dict = {}; for x in xs: ...\<close> as an association list in insertion order.
  \<open>clash previous x\<close> is what the loop raises when the key is already bound.
\<close>

fun dedupe_loop ::
  "('a \<Rightarrow> 'k) \<Rightarrow> ('a \<Rightarrow> 'a \<Rightarrow> 'e option) \<Rightarrow> ('k \<times> 'a) list \<Rightarrow> 'a list \<Rightarrow> 'e + ('k \<times> 'a) list"
where
  "dedupe_loop key clash d [] = Inr d"
| "dedupe_loop key clash d (x # xs) =
     (case map_of d (key x) of
        None \<Rightarrow> dedupe_loop key clash (d @ [(key x, x)]) xs
      | Some previous \<Rightarrow>
          (case clash previous x of
             Some e \<Rightarrow> Inl e
           | None \<Rightarrow> dedupe_loop key clash d xs))"

text \<open>\<open>tuple(by_id[key] for key in sorted(by_id))\<close>\<close>

definition sorted_values :: "('k::linorder \<times> 'a) list \<Rightarrow> 'a list" where
  "sorted_values d = map snd (sort_key fst d)"

definition dedupe :: "('a \<Rightarrow> 'k::linorder) \<Rightarrow> ('a \<Rightarrow> 'a \<Rightarrow> 'e option) \<Rightarrow> 'a list \<Rightarrow> 'e + 'a list" where
  "dedupe key clash xs = rbind (dedupe_loop key clash [] xs) (\<lambda>d. Inr (sorted_values d))"

text \<open>Equal keys belong to equal values.\<close>

definition key_inj :: "('a \<Rightarrow> 'k) \<Rightarrow> 'a list \<Rightarrow> bool" where
  "key_inj key xs \<longleftrightarrow> (\<forall>x \<in> set xs. \<forall>y \<in> set xs. key x = key y \<longrightarrow> x = y)"

lemma key_inj_inj_on: "key_inj key xs \<longleftrightarrow> inj_on key (set xs)"
  by (auto simp: key_inj_def inj_on_def)

text \<open>
  \<open>_require_consistent_..._bindings\<close>: the same loop, kept only for its exception.
\<close>

fun consistent_loop :: "('a \<Rightarrow> 'k) \<Rightarrow> ('k \<times> 'a) list \<Rightarrow> 'a list \<Rightarrow> bool" where
  "consistent_loop key d [] = True"
| "consistent_loop key d (x # xs) =
     (case map_of d (key x) of
        None \<Rightarrow> consistent_loop key (d @ [(key x, x)]) xs
      | Some previous \<Rightarrow> previous = x \<and> consistent_loop key d xs)"


definition canonical :: "('a \<Rightarrow> 'k::linorder) \<Rightarrow> 'a list \<Rightarrow> bool" where
  "canonical key xs \<longleftrightarrow> sorted (map key xs) \<and> distinct (map key xs)"

lemma canonical_key_inj: "canonical key xs \<Longrightarrow> key_inj key xs"
  by (auto simp: canonical_def key_inj_inj_on distinct_map)

lemma canonical_distinct: "canonical key xs \<Longrightarrow> distinct xs"
  by (auto simp: canonical_def distinct_map)

lemma canonical_unique:
  assumes "canonical key xs" and "canonical key ys" and "set xs = set ys"
  shows "xs = ys"
proof -
  have "map key xs = map key ys"
    using assms by (intro sorted_distinct_set_unique) (auto simp: canonical_def)
  moreover have "inj_on key (set xs \<union> set ys)"
    using assms canonical_key_inj by (metis Un_absorb key_inj_inj_on)
  ultimately show ?thesis by (rule map_inj_on)
qed

lemma canonical_map_cong: "map key xs = map key ys \<Longrightarrow> canonical key xs = canonical key ys"
  by (simp add: canonical_def)

text \<open>The dictionary loop: its invariant and its outcome.\<close>

definition dict_ok :: "('a \<Rightarrow> 'k) \<Rightarrow> ('k \<times> 'a) list \<Rightarrow> bool" where
  "dict_ok key d \<longleftrightarrow> distinct (map fst d) \<and> (\<forall>(k, x) \<in> set d. k = key x)"

lemma dict_ok_map_of: "dict_ok key d \<Longrightarrow> map_of d k = Some x \<Longrightarrow> x \<in> snd ` set d \<and> key x = k"
  by (force simp: dict_ok_def dest!: map_of_SomeD)

lemma dict_ok_mem: "dict_ok key d \<Longrightarrow> x \<in> snd ` set d \<Longrightarrow> map_of d (key x) = Some x"
  by (force simp: dict_ok_def)

lemma dict_ok_snoc: "dict_ok key d \<Longrightarrow> map_of d (key x) = None \<Longrightarrow> dict_ok key (d @ [(key x, x)])"
  by (auto simp: dict_ok_def map_of_eq_None_iff)

lemma dedupe_loop_Inr:
  assumes "\<And>x y. clash x y = None \<longleftrightarrow> x = y" and "dict_ok key d"
    and "dedupe_loop key clash d xs = Inr d'"
  shows "dict_ok key d' \<and> snd ` set d' = snd ` set d \<union> set xs"
  using assms(2,3)
proof (induction xs arbitrary: d)
  case (Cons x xs)
  show ?case
  proof (cases "map_of d (key x)")
    case None
    with Cons.IH [OF dict_ok_snoc] Cons.prems show ?thesis by auto
  next
    case (Some previous)
    with Cons.prems assms(1) [of previous x] have "previous = x"
      and rec: "dedupe_loop key clash d xs = Inr d'"
      by (auto split: option.splits)
    with Some Cons.prems have "x \<in> snd ` set d" by (auto dest: dict_ok_map_of)
    with Cons.IH [OF Cons.prems(1) rec] show ?thesis by auto
  qed
qed simp

lemma dedupe_loop_total:
  assumes "\<And>x y. clash x y = None \<longleftrightarrow> x = y" and "dict_ok key d"
    and "inj_on key (snd ` set d \<union> set xs)"
  shows "\<exists>d'. dedupe_loop key clash d xs = Inr d'"
  using assms(2,3)
proof (induction xs arbitrary: d)
  case (Cons x xs)
  show ?case
  proof (cases "map_of d (key x)")
    case None
    have "inj_on key (snd ` set (d @ [(key x, x)]) \<union> set xs)"
      using Cons.prems(2) by (rule inj_on_subset) auto
    from Cons.IH [OF dict_ok_snoc [OF Cons.prems(1) None] this] None show ?thesis by auto
  next
    case (Some previous)
    from dict_ok_map_of [OF Cons.prems(1) Some] have "previous \<in> snd ` set d" "key previous = key x"
      by auto
    with Cons.prems(2) have "previous = x" by (intro inj_onD [OF Cons.prems(2)]) auto
    moreover have "inj_on key (snd ` set d \<union> set xs)"
      using Cons.prems(2) by (rule inj_on_subset) auto
    ultimately show ?thesis
      using Cons.IH [OF Cons.prems(1)] Some assms(1) [of x x] by auto
  qed
qed simp

lemma sorted_values_canonical:
  assumes "dict_ok key d"
  shows "canonical key (sorted_values d) \<and> set (sorted_values d) = snd ` set d"
proof -
  let ?e = "sort_key fst d"
  have keys: "map key (map snd ?e) = map fst ?e"
    using assms by (auto simp: dict_ok_def)
  have "distinct (map fst ?e)"
    using assms by (metis dict_ok_def distinct_map distinct_sort set_sort)
  then have "canonical key (sorted_values d)"
    unfolding canonical_def sorted_values_def keys by simp
  then show ?thesis by (simp add: sorted_values_def)
qed

lemma dedupe_Inr:
  assumes "\<And>x y. clash x y = None \<longleftrightarrow> x = y" and "dedupe key clash xs = Inr ys"
  shows "canonical key ys \<and> set ys = set xs"
proof -
  from assms(2) obtain d where d: "dedupe_loop key clash [] xs = Inr d" "ys = sorted_values d"
    by (auto simp: dedupe_def rbind_Inr_iff)
  have "dict_ok key []" by (simp add: dict_ok_def)
  from dedupe_loop_Inr [OF assms(1) this d(1)] sorted_values_canonical d(2)
  show ?thesis by auto
qed

lemma dedupe_Inr_iff:
  assumes clash: "\<And>x y. clash x y = None \<longleftrightarrow> x = y"
  shows "dedupe key clash xs = Inr ys \<longleftrightarrow> canonical key ys \<and> set ys = set xs"
proof
  assume "dedupe key clash xs = Inr ys"
  then show "canonical key ys \<and> set ys = set xs" by (rule dedupe_Inr [OF clash])
next
  assume ys: "canonical key ys \<and> set ys = set xs"
  then have "inj_on key (set xs)" using canonical_key_inj key_inj_inj_on by metis
  then obtain d where d: "dedupe_loop key clash [] xs = Inr d"
    using dedupe_loop_total [OF clash, of key "[]" xs] by (auto simp: dict_ok_def)
  then have zs: "dedupe key clash xs = Inr (sorted_values d)" by (simp add: dedupe_def)
  from dedupe_Inr [OF clash zs] ys have "sorted_values d = ys"
    by (metis canonical_unique)
  with zs show "dedupe key clash xs = Inr ys" by simp
qed

lemma dedupe_total_iff:
  assumes clash: "\<And>x y. clash x y = None \<longleftrightarrow> x = y"
  shows "(\<exists>ys. dedupe key clash xs = Inr ys) \<longleftrightarrow> key_inj key xs"
proof
  assume "\<exists>ys. dedupe key clash xs = Inr ys"
  then show "key_inj key xs"
    using dedupe_Inr [OF clash] canonical_key_inj by (metis key_inj_inj_on)
next
  assume "key_inj key xs"
  then obtain d where "dedupe_loop key clash [] xs = Inr d"
    using dedupe_loop_total [OF clash, of key "[]" xs] by (auto simp: dict_ok_def key_inj_inj_on)
  then show "\<exists>ys. dedupe key clash xs = Inr ys" by (simp add: dedupe_def)
qed

lemma pairwise_insert_swap:
  assumes "\<And>u y. P u y \<Longrightarrow> P y u" and "P x x" and "\<And>y. y \<in> D \<Longrightarrow> P x y"
  shows "(\<forall>u \<in> S. \<forall>y \<in> insert x D \<union> S. P u y) \<longleftrightarrow>
    (\<forall>u \<in> insert x S. \<forall>y \<in> D \<union> insert x S. P u y)"
  using assms by blast

lemma consistent_loop_iff:
  "dict_ok key d \<Longrightarrow> consistent_loop key d xs \<longleftrightarrow>
     (\<forall>x \<in> set xs. \<forall>y \<in> snd ` set d \<union> set xs. key x = key y \<longrightarrow> x = y)"
proof (induction xs arbitrary: d)
  case (Cons x xs)
  show ?case
  proof (cases "map_of d (key x)")
    case None
    have fresh: "\<And>y. y \<in> snd ` set d \<Longrightarrow> key y \<noteq> key x"
      using None dict_ok_mem [OF Cons.prems] by force
    have snoc: "snd ` set (d @ [(key x, x)]) = insert x (snd ` set d)" by auto
    have "consistent_loop key d (x # xs) \<longleftrightarrow>
        (\<forall>u \<in> set xs. \<forall>y \<in> snd ` set (d @ [(key x, x)]) \<union> set xs. key u = key y \<longrightarrow> u = y)"
      using Cons.IH [OF dict_ok_snoc [OF Cons.prems None]] None by simp
    also have "\<dots> \<longleftrightarrow>
        (\<forall>u \<in> set (x # xs). \<forall>y \<in> snd ` set d \<union> set (x # xs). key u = key y \<longrightarrow> u = y)"
      unfolding snoc list.set
      by (rule pairwise_insert_swap) (metis, simp, metis fresh)
    finally show ?thesis .
  next
    case (Some previous)
    have prev: "previous \<in> snd ` set d" "key previous = key x"
      using dict_ok_map_of [OF Cons.prems Some] by auto
    have uniq: "\<And>y. y \<in> snd ` set d \<Longrightarrow> key y = key x \<Longrightarrow> y = previous"
      using dict_ok_mem [OF Cons.prems] Some by force
    have "consistent_loop key d (x # xs) \<longleftrightarrow> previous = x \<and>
        (\<forall>u \<in> set xs. \<forall>y \<in> snd ` set d \<union> set xs. key u = key y \<longrightarrow> u = y)"
      using Cons.IH [OF Cons.prems] Some by simp
    also have "\<dots> \<longleftrightarrow>
        (\<forall>u \<in> set (x # xs). \<forall>y \<in> snd ` set d \<union> set (x # xs). key u = key y \<longrightarrow> u = y)"
    proof (intro iffI conjI ballI impI)
      fix u y
      assume L: "previous = x \<and>
          (\<forall>u \<in> set xs. \<forall>y \<in> snd ` set d \<union> set xs. key u = key y \<longrightarrow> u = y)"
        and uy: "u \<in> set (x # xs)" "y \<in> snd ` set d \<union> set (x # xs)" "key u = key y"
      have x_d: "x \<in> snd ` set d" using L prev by simp
      have y: "y \<in> snd ` set d \<union> set xs" using uy(2) x_d by auto
      show "u = y"
      proof (cases "u \<in> set xs")
        case True
        with L y uy(3) show ?thesis by blast
      next
        case False
        with uy(1) have "u = x" by simp
        show ?thesis
        proof (cases "y \<in> set xs")
          case True
          then have "key y = key x \<longrightarrow> y = x" using L x_d by blast
          then show ?thesis using uy(3) \<open>u = x\<close> by simp
        next
          case False
          with y have "y \<in> snd ` set d" by simp
          then show ?thesis using uniq [of y] L uy(3) \<open>u = x\<close> by simp
        qed
      qed
    next
      assume R: "\<forall>u \<in> set (x # xs). \<forall>y \<in> snd ` set d \<union> set (x # xs). key u = key y \<longrightarrow> u = y"
      then have "key x = key previous \<longrightarrow> x = previous" using prev(1) by (meson UnI1 list.set_intros(1))
      then show "previous = x" using prev(2) by simp
    qed simp
    finally show ?thesis .
  qed
qed simp

text \<open>The same loop when every repeated key raises, as the registry validators do.\<close>

lemma dedupe_loop_strict:
  assumes "\<And>p x. clash p x \<noteq> None"
  shows "dedupe_loop key clash d xs = Inr d' \<longleftrightarrow>
    d' = d @ map (\<lambda>x. (key x, x)) xs \<and> distinct (map key xs) \<and> fst ` set d \<inter> key ` set xs = {}"
proof (induction xs arbitrary: d)
  case (Cons x xs)
  show ?case
  proof (cases "map_of d (key x)")
    case None
    then have "key x \<notin> fst ` set d" by (simp add: map_of_eq_None_iff)
    with None Cons.IH show ?thesis by auto
  next
    case (Some p)
    then have "key x \<in> fst ` set d" by (force dest: map_of_SomeD)
    with Some assms [of p x] show ?thesis by auto
  qed
qed auto

lemma canonical_keys_iff:
  "distinct (map key xs) \<and> map key xs = sort (map key xs) \<longleftrightarrow> canonical key xs"
  unfolding canonical_def by (metis sorted_sort sort_key_id_if_sorted map_ident)

corollary consistent_loop_key_inj: "consistent_loop key [] xs \<longleftrightarrow> key_inj key xs"
  by (simp add: consistent_loop_iff dict_ok_def key_inj_def)

section \<open>The registry interface\<close>

text \<open>
  Six classes of \<open>change_control/models.py\<close> share one shape: \<open>create\<close> runs the dictionary loop
  over its arguments and hands the sorted values to the constructor, whose validator insists on
  unique keys in canonical order.  The locale states that contract; every registry of the model
  interprets it.
\<close>

locale keyed_registry =
  fixes key :: "'a \<Rightarrow> 'k::linorder"
    and clash :: "'a \<Rightarrow> 'a \<Rightarrow> 'e option"
    and validate :: "'a list \<Rightarrow> 'e + 'a list"
    and create :: "'a list \<Rightarrow> 'e + 'a list"
  assumes clash_None: "clash x y = None \<longleftrightarrow> x = y"
    and create_eq: "create xs = rbind (dedupe key clash xs) validate"
    and validate_Inr: "validate xs = Inr ys \<Longrightarrow> ys = xs \<and> canonical key xs"
begin

lemma create_Inr_iff:
  "create xs = Inr ys \<longleftrightarrow> set ys = set xs \<and> validate ys = Inr ys"
  using validate_Inr by (fastforce simp: create_eq rbind_Inr_iff dedupe_Inr_iff [OF clash_None])

lemma create_canonical: "create xs = Inr ys \<Longrightarrow> canonical key ys \<and> set ys = set xs"
  using create_Inr_iff validate_Inr by blast

lemma create_set_cong:
  assumes "set xs = set zs" and "create xs = Inr ys"
  shows "create zs = Inr ys"
  using assms by (simp add: create_Inr_iff)

lemma create_idem: "create xs = Inr ys \<Longrightarrow> create ys = Inr ys"
  by (auto simp: create_Inr_iff)

lemma validated_is_create: "validate ys = Inr ys \<Longrightarrow> create ys = Inr ys"
  by (simp add: create_Inr_iff)

lemma member_by_key:
  assumes "create xs = Inr ys" and "x \<in> set xs" and "y \<in> set xs" and "key x = key y"
  shows "x = y"
  using create_canonical [OF assms(1)] assms(2-4) canonical_key_inj
  by (fastforce simp: key_inj_def)

end

text \<open>Lookup by identity: \<open>for x in xs: if key(x) == k: return x\<close>.\<close>

definition lookup_key :: "('a \<Rightarrow> 'k) \<Rightarrow> 'k \<Rightarrow> 'a list \<Rightarrow> 'a option" where
  "lookup_key key k xs = find (\<lambda>x. key x = k) xs"

lemma lookup_key_Some: "lookup_key key k xs = Some x \<Longrightarrow> x \<in> set xs \<and> key x = k"
  by (auto simp: lookup_key_def find_Some_iff)

lemma lookup_key_None: "lookup_key key k xs = None \<longleftrightarrow> (\<forall>x \<in> set xs. key x \<noteq> k)"
  by (auto simp: lookup_key_def find_None_iff)

lemma lookup_key_Some_iff:
  assumes "key_inj key xs"
  shows "lookup_key key k xs = Some x \<longleftrightarrow> x \<in> set xs \<and> key x = k"
proof
  assume "x \<in> set xs \<and> key x = k"
  moreover from this obtain y where "lookup_key key k xs = Some y"
    using lookup_key_None [of key k xs] by (cases "lookup_key key k xs") auto
  moreover from this have "y \<in> set xs \<and> key y = k" by (rule lookup_key_Some)
  ultimately show "lookup_key key k xs = Some x"
    using assms by (metis key_inj_def)
qed (rule lookup_key_Some)

lemma lookup_key_cong:
  assumes "key_inj key xs" and "key_inj key ys" and "set xs = set ys"
  shows "lookup_key key k xs = lookup_key key k ys"
proof (cases "lookup_key key k ys")
  case None
  with assms(3) have "\<not> (\<exists>x. lookup_key key k xs = Some x)"
    by (auto simp: lookup_key_None dest!: lookup_key_Some)
  with None show ?thesis by simp
next
  case (Some y)
  then have "y \<in> set xs \<and> key y = k" using assms(3) lookup_key_Some by metis
  then have "lookup_key key k xs = Some y" by (simp add: lookup_key_Some_iff [OF assms(1)])
  with Some show ?thesis by simp
qed

text \<open>\<open>{key(x): x for x in xs}.get(k)\<close>: the last binding of a key wins.\<close>

definition dict_get :: "('a \<Rightarrow> 'k) \<Rightarrow> 'a list \<Rightarrow> 'k \<Rightarrow> 'a option" where
  "dict_get key xs k = lookup_key key k (rev xs)"

lemma dict_get_Some_iff:
  assumes "key_inj key xs"
  shows "dict_get key xs k = Some x \<longleftrightarrow> x \<in> set xs \<and> key x = k"
proof -
  have "key_inj key (rev xs)" using assms by (simp add: key_inj_def)
  then show ?thesis by (simp add: dict_get_def lookup_key_Some_iff)
qed

lemma dict_get_None: "dict_get key xs k = None \<longleftrightarrow> k \<notin> key ` set xs"
  by (auto simp: dict_get_def lookup_key_None)

definition registry_get :: "('a \<Rightarrow> string) \<Rightarrow> 'a list \<Rightarrow> string \<Rightarrow> 'a result" where
  "registry_get key xs k = (case lookup_key key k xs of None \<Rightarrow> Inl (KeyError k) | Some x \<Rightarrow> Inr x)"

lemma registry_get_Inr: "registry_get key xs k = Inr x \<longleftrightarrow> lookup_key key k xs = Some x"
  by (simp add: registry_get_def split: option.splits)

text \<open>\<open>replacement if key(item) == k else item for item in xs\<close>\<close>

definition replace_key :: "('a \<Rightarrow> 'k) \<Rightarrow> 'k \<Rightarrow> 'a \<Rightarrow> 'a list \<Rightarrow> 'a list" where
  "replace_key key k r xs = map (\<lambda>x. if key x = k then r else x) xs"

lemma replace_key_keys: "key r = k \<Longrightarrow> map key (replace_key key k r xs) = map key xs"
  by (simp add: replace_key_def)

lemma replace_key_length [simp]: "length (replace_key key k r xs) = length xs"
  by (simp add: replace_key_def)

lemma lookup_replace_key_other:
  "key r = k \<Longrightarrow> k' \<noteq> k \<Longrightarrow> lookup_key key k' (replace_key key k r xs) = lookup_key key k' xs"
  by (induction xs) (auto simp: lookup_key_def replace_key_def)

lemma lookup_replace_key_same:
  "key r = k \<Longrightarrow> lookup_key key k xs \<noteq> None \<Longrightarrow>
     lookup_key key k (replace_key key k r xs) = Some r"
  by (induction xs) (auto simp: lookup_key_def replace_key_def)

end
