(* ===== verification/PyText.thy ===== *)
theory PyText
  imports Prelude
begin

text \<open>
  The string functions of Python that \<open>change_control/models.py\<close> uses, and the text
  normalisers of that file (lines 42 to 115).

  A Python \<open>str\<close> is a \<open>string\<close> whose characters are the code points 0 to 255; \<open>is_space\<close>,
  \<open>casefold\<close> and \<open>utf8_encode\<close> are exact on that range.  Code points above it only reach the
  functions below through \<open>nfkc\<close>, which is a parameter.
\<close>

section \<open>Whitespace, joining and splitting\<close>

text \<open>\<open>str.isspace\<close> on one character, also what \<open>str.split()\<close>, \<open>str.strip()\<close> and \<open>\s\<close> use.\<close>

definition is_space :: "char \<Rightarrow> bool" where
  "is_space c \<longleftrightarrow> (let n = of_char c :: nat in
     9 \<le> n \<and> n \<le> 13 \<or> 28 \<le> n \<and> n \<le> 32 \<or> n = 133 \<or> n = 160)"

definition strip :: "string \<Rightarrow> string" where
  "strip s = rev (dropWhile is_space (rev (dropWhile is_space s)))"

fun join :: "string \<Rightarrow> string list \<Rightarrow> string" where
  "join sep [] = []"
| "join sep [w] = w"
| "join sep (w # v # vs) = w @ sep @ join sep (v # vs)"

text \<open>\<open>s.split()\<close>: the maximal runs of characters that are not whitespace.\<close>

function words_of :: "string \<Rightarrow> string list" where
  "words_of [] = []"
| "words_of (c # cs) =
     (if is_space c then words_of cs
      else (c # takeWhile (\<lambda>x. \<not> is_space x) cs) # words_of (dropWhile (\<lambda>x. \<not> is_space x) cs))"
  by pat_completeness auto
termination
  by (relation "measure length") (auto simp: le_imp_less_Suc length_dropWhile_le)

text \<open>\<open>s.split(c)\<close> with an explicit one-character separator.\<close>

fun split_on :: "char \<Rightarrow> string \<Rightarrow> string list" where
  "split_on sep [] = [[]]"
| "split_on sep (c # cs) =
     (if c = sep then [] # split_on sep cs
      else (case split_on sep cs of [] \<Rightarrow> [[c]] | w # ws \<Rightarrow> (c # w) # ws))"

definition word_ok :: "string \<Rightarrow> bool" where
  "word_ok w \<longleftrightarrow> w \<noteq> [] \<and> list_all (\<lambda>c. \<not> is_space c) w"

lemma is_space_blank [simp]: "is_space (CHR '' '')"
  by (simp add: is_space_def)

lemma takeWhile_no_space: "list_all (\<lambda>c. \<not> is_space c) (takeWhile (\<lambda>x. \<not> is_space x) cs)"
  by (induction cs) auto

lemma words_of_ok: "list_all word_ok (words_of s)"
proof (induction s rule: words_of.induct)
  case (2 c cs)
  then show ?case by (cases "is_space c") (simp_all add: word_ok_def takeWhile_no_space)
qed simp

lemma words_of_word:
  assumes "word_ok w" and "cs = [] \<or> is_space (hd cs)"
  shows "words_of (w @ cs) = w # words_of cs"
proof -
  obtain c w' where w: "w = c # w'" using assms(1) by (cases w) (auto simp: word_ok_def)
  have nsp: "\<And>x. x \<in> set w' \<Longrightarrow> \<not> is_space x" "\<not> is_space c"
    using assms(1) w by (auto simp: word_ok_def list_all_iff)
  have t: "takeWhile (\<lambda>x. \<not> is_space x) (w' @ cs) = w'"
    using assms(2) nsp by (cases cs) (auto simp: takeWhile_append2)
  have d: "dropWhile (\<lambda>x. \<not> is_space x) (w' @ cs) = cs"
    using assms(2) nsp by (cases cs) (auto simp: dropWhile_append2)
  show ?thesis using nsp by (simp add: w t d)
qed

lemma words_of_join: "list_all word_ok ws \<Longrightarrow> words_of (join '' '' ws) = ws"
proof (induction ws)
  case (Cons w ws)
  then show ?case
    using words_of_word [of w "[]"] words_of_word [of w "'' '' @ join '' '' ws"]
    by (cases ws) auto
qed simp

section \<open>Character classes and patterns\<close>

definition digit_char :: "char \<Rightarrow> bool" where
  "digit_char c \<longleftrightarrow> (let n = of_char c :: nat in 48 \<le> n \<and> n \<le> 57)"

definition lower_alnum :: "char \<Rightarrow> bool" where
  "lower_alnum c \<longleftrightarrow> (let n = of_char c :: nat in 48 \<le> n \<and> n \<le> 57 \<or> 97 \<le> n \<and> n \<le> 122)"

definition ascii_alnum :: "char \<Rightarrow> bool" where
  "ascii_alnum c \<longleftrightarrow> (let n = of_char c :: nat in
     48 \<le> n \<and> n \<le> 57 \<or> 65 \<le> n \<and> n \<le> 90 \<or> 97 \<le> n \<and> n \<le> 122)"

definition hex_char :: "char \<Rightarrow> bool" where
  "hex_char c \<longleftrightarrow> (let n = of_char c :: nat in 48 \<le> n \<and> n \<le> 57 \<or> 97 \<le> n \<and> n \<le> 102)"

text \<open>\<open>SHA256_PATTERN\<close>: \<open>^[0-9a-f]{64}$\<close>\<close>

definition sha256_pattern :: "string \<Rightarrow> bool" where
  "sha256_pattern s \<longleftrightarrow> length s = 64 \<and> list_all hex_char s"

text \<open>\<open>CONTENT_ID_PATTERNS[prefix]\<close>: \<open>^prefix:[0-9a-f]{64}$\<close>\<close>

definition content_id_pattern :: "string \<Rightarrow> string \<Rightarrow> bool" where
  "content_id_pattern prefix s \<longleftrightarrow>
     take (length prefix + 1) s = prefix @ '':'' \<and> sha256_pattern (drop (length prefix + 1) s)"

text \<open>\<open>_LOGICAL_KEY_RE\<close>: \<open>^[a-z0-9]+(?:[.-][a-z0-9]+)*$\<close> as a two-state automaton.\<close>

fun logical_key_from :: "bool \<Rightarrow> string \<Rightarrow> bool" where
  "logical_key_from fresh [] = (\<not> fresh)"
| "logical_key_from fresh (c # cs) =
     (if lower_alnum c then logical_key_from False cs
      else (c = CHR ''.'' \<or> c = CHR ''-'') \<and> \<not> fresh \<and> logical_key_from True cs)"

definition logical_key_pattern :: "string \<Rightarrow> bool" where
  "logical_key_pattern s = logical_key_from True s"

text \<open>\<open>CLAIM_ID_RE\<close> of \<open>models.py\<close>: \<open>^[a-z0-9][a-z0-9-]*-\d{2}$\<close>\<close>

definition claim_id_pattern :: "string \<Rightarrow> bool" where
  "claim_id_pattern s \<longleftrightarrow> 4 \<le> length s \<and> lower_alnum (hd s) \<and>
     list_all (\<lambda>c. lower_alnum c \<or> c = CHR ''-'') (take (length s - 3) s) \<and>
     (case drop (length s - 3) s of
        [m, d, e] \<Rightarrow> m = CHR ''-'' \<and> digit_char d \<and> digit_char e
      | _ \<Rightarrow> False)"

lemma content_id_pattern_intro:
  "sha256_pattern h \<Longrightarrow> content_id_pattern prefix (prefix @ '':'' @ h)"
  by (simp add: content_id_pattern_def)

lemma content_id_prefix_determined:
  assumes "content_id_pattern p s" and "content_id_pattern q s"
  shows "p = q"
proof -
  have "length p + 65 = length s" "length q + 65 = length s"
    using assms
    by (auto simp: content_id_pattern_def sha256_pattern_def
        dest!: arg_cong [where f = length])
  then have len: "length p = length q" by simp
  then have "p @ '':'' = q @ '':''"
    using assms by (simp add: content_id_pattern_def)
  then show ?thesis by simp
qed

section \<open>Decimal numerals\<close>

definition digit_of :: "nat \<Rightarrow> char" where
  "digit_of n = char_of (48 + n)"

fun show_nat :: "nat \<Rightarrow> string" where
  "show_nat n = (if n < 10 then [digit_of n] else show_nat (n div 10) @ [digit_of (n mod 10)])"

declare show_nat.simps [simp del]

definition show_int :: "int \<Rightarrow> string" where
  "show_int i = (if i < 0 then ''-'' @ show_nat (nat (- i)) else show_nat (nat i))"

definition digit_val :: "char \<Rightarrow> nat" where
  "digit_val c = of_char c - 48"

definition read_nat :: "string \<Rightarrow> nat" where
  "read_nat s = foldl (\<lambda>acc c. 10 * acc + digit_val c) 0 s"

lemma digit_val_digit_of: "n < 10 \<Longrightarrow> digit_val (digit_of n) = n"
  by (simp add: digit_val_def digit_of_def)

lemma digit_char_digit_of: "n < 10 \<Longrightarrow> digit_char (digit_of n)"
  by (simp add: digit_char_def digit_of_def)

lemma show_nat_digits: "list_all digit_char (show_nat n) \<and> show_nat n \<noteq> []"
proof (induction n rule: show_nat.induct)
  case (1 n)
  then show ?case
    by (cases "n < 10") (auto simp: show_nat.simps [of n] digit_char_digit_of)
qed

lemma read_show_nat [simp]: "read_nat (show_nat n) = n"
proof (induction n rule: show_nat.induct)
  case (1 n)
  then show ?case
    by (cases "n < 10")
      (auto simp: show_nat.simps [of n] read_nat_def digit_val_digit_of)
qed

lemma show_nat_inj: "show_nat m = show_nat n \<longleftrightarrow> m = n"
  by (metis read_show_nat)

lemma minus_not_digit: "\<not> digit_char (CHR ''-'')"
  by (simp add: digit_char_def)

lemma show_nat_hd: "digit_char (hd (show_nat n))"
  using show_nat_digits [of n] by (cases "show_nat n") auto

lemma show_int_inj: "show_int i = show_int j \<longleftrightarrow> i = j"
proof
  assume eq: "show_int i = show_int j"
  have pos: "\<And>n m. ''-'' @ show_nat n \<noteq> show_nat m"
    using show_nat_hd minus_not_digit by (metis append_Cons list.sel(1))
  show "i = j"
    using eq pos pos [symmetric]
    by (auto simp: show_int_def show_nat_inj nat_eq_iff split: if_splits)
qed simp

section \<open>The normalisers of models.py\<close>

text \<open>
  \<open>str.casefold\<close>.  U+00B5 casefolds to U+03BC, which lies outside the modelled range; it stays
  itself here, and neither character passes \<open>_LOGICAL_KEY_RE\<close>.
\<close>

definition casefold_char :: "char \<Rightarrow> string" where
  "casefold_char c = (let n = of_char c :: nat in
     if 65 \<le> n \<and> n \<le> 90 \<or> 192 \<le> n \<and> n \<le> 222 \<and> n \<noteq> 215 then [char_of (n + 32)]
     else if n = 223 then ''ss'' else [c])"

definition casefold :: "string \<Rightarrow> string" where
  "casefold s = concat (map casefold_char s)"

text \<open>\<open>re.sub(r"[\s_]+", "-", s)\<close>; the flag says that the current run is already replaced.\<close>

fun dash_runs :: "bool \<Rightarrow> string \<Rightarrow> string" where
  "dash_runs inside [] = []"
| "dash_runs inside (c # cs) =
     (if is_space c \<or> c = CHR ''_'' then (if inside then dash_runs True cs else CHR ''-'' # dash_runs True cs)
      else c # dash_runs False cs)"

definition normalize_logical_key :: "py_env \<Rightarrow> string \<Rightarrow> string result" where
  "normalize_logical_key E value =
     (let normalized = dash_runs False (casefold (strip (nfkc E value)))
      in guards
        [(logical_key_pattern normalized, ValueError ''must normalize to lowercase dot/kebab identity'')]
        normalized)"

definition normalize_semantic_text :: "py_env \<Rightarrow> string \<Rightarrow> string" where
  "normalize_semantic_text E value = join '' '' (words_of (nfkc E value))"

definition require_normalized_text :: "py_env \<Rightarrow> string \<Rightarrow> string \<Rightarrow> nat \<Rightarrow> string result" where
  "require_normalized_text E value label min_length =
     (let normalized = normalize_semantic_text E value
      in guards
        [(min_length \<le> length normalized,
            ValueError (label @ '' must contain at least '' @ show_nat min_length @ '' non-whitespace characters'')),
         (value = normalized,
            ValueError (label @ '' must be normalized without surrounding or repeated whitespace''))]
        value)"

definition canonical_semantic_input :: "py_env \<Rightarrow> string \<Rightarrow> string \<Rightarrow> nat \<Rightarrow> string result" where
  "canonical_semantic_input E value label min_length =
     (let normalized = normalize_semantic_text E value
      in guards
        [(value = join '' '' (words_of value),
            ValueError (label @ '' must not contain surrounding or repeated whitespace'')),
         (min_length \<le> length normalized,
            ValueError (label @ '' must contain at least '' @ show_nat min_length @ '' non-whitespace characters''))]
        normalized)"

definition require_normalized_key :: "py_env \<Rightarrow> string \<Rightarrow> string \<Rightarrow> string result" where
  "require_normalized_key E value label =
     rbind (normalize_logical_key E value) (\<lambda>normalized.
       guards [(value = normalized, ValueError (label @ '' must already be normalized''))] value)"

text \<open>
  \<open>PurePosixPath(s)\<close>: empty and \<open>.\<close> components are dropped; a leading slash makes it absolute.
  \<open>PureWindowsPath(raw)\<close> has a drive when its second character is a colon or it starts with two
  separators; a Windows path is absolute only when it has a drive, so the drive test covers it.
\<close>

definition posix_parts :: "string \<Rightarrow> string list" where
  "posix_parts s = filter (\<lambda>p. p \<noteq> [] \<and> p \<noteq> ''.'') (split_on (CHR ''/'') s)"

definition posix_is_absolute :: "string \<Rightarrow> bool" where
  "posix_is_absolute s \<longleftrightarrow> s \<noteq> [] \<and> hd s = CHR ''/''"

definition backslash :: char where
  "backslash = CHR 0x5C"

definition windows_has_drive :: "string \<Rightarrow> bool" where
  "windows_has_drive s = (case s of
     c # d # _ \<Rightarrow> d = CHR '':'' \<or>
        (c = CHR ''/'' \<or> c = backslash) \<and> (d = CHR ''/'' \<or> d = backslash)
   | _ \<Rightarrow> False)"

definition safe_relative_path :: "string \<Rightarrow> string result" where
  "safe_relative_path value =
     (let raw = strip value;
          portable = map (\<lambda>c. if c = backslash then CHR ''/'' else c) raw;
          parts = posix_parts portable
      in guards
        [(raw \<noteq> [] \<and> CHR 0x00 \<notin> set raw \<and> parts \<noteq> [] \<and> \<not> posix_is_absolute portable \<and>
          \<not> windows_has_drive raw \<and> ''..'' \<notin> set parts,
            ValueError ''must be a safe relative path'')]
        (join ''/'' parts))"

section \<open>What a safe relative path is\<close>

lemma split_on_join_parts: "w \<in> set (split_on c s) \<Longrightarrow> c \<notin> set w"
  by (induction c s arbitrary: w rule: split_on.induct) (auto split: if_splits list.splits)

lemma split_on_no_sep: "c \<notin> set w \<Longrightarrow> split_on c w = [w]"
  by (induction w) auto

lemma split_on_append: "c \<notin> set w \<Longrightarrow> split_on c (w @ c # s) = w # split_on c s"
  by (induction w) auto

lemma split_on_join:
  "ws \<noteq> [] \<Longrightarrow> \<forall>w \<in> set ws. c \<notin> set w \<Longrightarrow> split_on c (join [c] ws) = ws"
proof (induction ws)
  case (Cons w ws)
  then show ?case
    by (cases ws) (simp_all add: split_on_no_sep split_on_append)
qed simp

lemma set_join: "set (join sep ws) \<subseteq> set sep \<union> \<Union> (set ` set ws)"
  by (induction sep ws rule: join.induct) auto

lemma split_on_chars: "w \<in> set (split_on c s) \<Longrightarrow> set w \<subseteq> set s"
proof (induction s arbitrary: w)
  case (Cons d s)
  show ?case
  proof (cases "split_on c s")
    case Nil
    with Cons.prems show ?thesis by (auto split: if_splits)
  next
    case (Cons v vs)
    with Cons.prems consider "w = []" | "w \<in> set (split_on c s)" | "w = d # v" "v \<in> set (split_on c s)"
      by (auto split: if_splits)
    then show ?thesis using Cons.IH by cases fastforce+
  qed
qed simp

lemma posix_parts_props:
  assumes "p \<in> set (posix_parts s)"
  shows "p \<noteq> [] \<and> p \<noteq> ''.'' \<and> CHR ''/'' \<notin> set p \<and> set p \<subseteq> set s"
  using assms split_on_join_parts [of p "CHR ''/''" s] split_on_chars [of p "CHR ''/''" s]
  by (auto simp: posix_parts_def)

lemma posix_parts_join: "posix_parts s \<noteq> [] \<Longrightarrow> posix_parts (join ''/'' (posix_parts s)) = posix_parts s"
  using posix_parts_props [of _ s]
  unfolding posix_parts_def [of "join ''/'' (posix_parts s)"]
  by (subst split_on_join) (auto intro!: filter_True)

lemma join_not_absolute:
  assumes "posix_parts s \<noteq> []"
  shows "join ''/'' (posix_parts s) \<noteq> [] \<and> \<not> posix_is_absolute (join ''/'' (posix_parts s))"
proof -
  obtain w ws where w: "posix_parts s = w # ws" using assms by (cases "posix_parts s") auto
  then have "w \<noteq> [] \<and> CHR ''/'' \<notin> set w" using posix_parts_props [of w s] by simp
  then show ?thesis using w
    by (cases w; cases ws) (auto simp: posix_is_absolute_def)
qed

text \<open>
  The value of \<open>_safe_relative_path\<close> is a non-empty relative POSIX path without
  backslashes, NUL characters, empty, \<open>.\<close> or \<open>..\<close> components, and its components are those of the
  stripped argument with backslashes read as slashes.
\<close>

theorem safe_relative_path_safe:
  assumes "safe_relative_path value = Inr path"
  shows "path \<noteq> [] \<and> \<not> posix_is_absolute path \<and> ''..'' \<notin> set (posix_parts path) \<and>
    backslash \<notin> set path \<and> CHR 0x00 \<notin> set path \<and>
    split_on (CHR ''/'') path = posix_parts (map (\<lambda>c. if c = backslash then CHR ''/'' else c) (strip value))"
proof -
  let ?raw = "strip value"
  let ?portable = "map (\<lambda>c. if c = backslash then CHR ''/'' else c) ?raw"
  let ?parts = "posix_parts ?portable"
  from assms have path: "path = join ''/'' ?parts" and ne: "?parts \<noteq> []"
    and nul: "CHR 0x00 \<notin> set ?raw" and dd: "''..'' \<notin> set ?parts"
    by (auto simp: safe_relative_path_def Let_def)
  have chars: "set path \<subseteq> insert (CHR ''/'') (set ?portable)"
    unfolding path using set_join [of "''/''" ?parts] posix_parts_props [of _ ?portable] by fastforce
  have "backslash \<noteq> CHR ''/''" "CHR 0x00 \<noteq> CHR ''/''" by (simp_all add: backslash_def)
  then have "backslash \<notin> set path" "CHR 0x00 \<notin> set path"
    using chars nul by (auto split: if_splits)
  moreover have "split_on (CHR ''/'') path = ?parts"
    unfolding path using ne posix_parts_props [of _ ?portable] by (intro split_on_join) auto
  ultimately show ?thesis
    using join_not_absolute [OF ne] posix_parts_join [OF ne] dd by (simp add: path)
qed

text \<open>
  Applying the validator to its own result is not the identity: the accepted path \<open>./C:x\<close> becomes
  the drive-qualified \<open>C:x\<close>, which the same validator rejects, and \<open>a/ / /\<close> loses one component
  per application.
\<close>

theorem safe_relative_path_not_idempotent:
  "safe_relative_path ''./C:x'' = Inr ''C:x'' \<and> windows_has_drive ''C:x'' \<and>
   safe_relative_path ''C:x'' = Inl (ValueError ''must be a safe relative path'') \<and>
   safe_relative_path ''a/ / /'' = Inr ''a/ / '' \<and> safe_relative_path ''a/ / '' = Inr ''a/ ''"
  by code_simp

section \<open>What the code relies on in NFKC\<close>

text \<open>
  Unicode normalisation form KC leaves ASCII text alone and is idempotent (Unicode Standard Annex 15).
\<close>

definition ascii_char :: "char \<Rightarrow> bool" where
  "ascii_char c \<longleftrightarrow> (of_char c :: nat) < 128"

definition nfkc_ok :: "py_env \<Rightarrow> bool" where
  "nfkc_ok E \<longleftrightarrow> (\<forall>s. (list_all ascii_char s \<longrightarrow> nfkc E s = s) \<and> nfkc E (nfkc E s) = nfkc E s)"

lemma nfkc_ascii: "nfkc_ok E \<Longrightarrow> list_all ascii_char s \<Longrightarrow> nfkc E s = s"
  by (simp add: nfkc_ok_def)

section \<open>Words of stripped, joined and split text\<close>

text \<open>\<open>str.rstrip\<close>\<close>

definition rstrip :: "string \<Rightarrow> string" where
  "rstrip s = rev (dropWhile is_space (rev s))"

lemma words_of_spaces: "list_all is_space w \<Longrightarrow> words_of (w @ s) = words_of s"
  by (induction w) auto

lemma span_split: "\<exists>a b. s = a @ b \<and> list_all P a \<and> (b = [] \<or> \<not> P (hd b))"
proof -
  have "s = takeWhile P s @ dropWhile P s" by simp
  moreover have "list_all P (takeWhile P s)" by (auto simp: list_all_iff dest: set_takeWhileD)
  moreover have "dropWhile P s = [] \<or> \<not> P (hd (dropWhile P s))" using hd_dropWhile by blast
  ultimately show ?thesis by blast
qed

lemma words_of_blank_front: "words_of (dropWhile is_space s) = words_of s"
  by (induction s) auto

lemma words_of_all_blank: "list_all is_space s \<Longrightarrow> words_of s = []"
  by (induction s) auto

lemma words_of_append_blank:
  assumes "b = [] \<or> is_space (hd b)"
  shows "words_of (a @ b) = words_of a @ words_of b"
proof (induction a rule: words_of.induct)
  case (2 c cs)
  show ?case
  proof (cases "is_space c")
    case True
    then show ?thesis using 2(1) by simp
  next
    case False
    have dw: "dropWhile (\<lambda>x. \<not> is_space x) b = b" "takeWhile (\<lambda>x. \<not> is_space x) b = []"
      using assms by (cases b; simp)+
    show ?thesis
    proof (cases "\<forall>x\<in>set cs. \<not> is_space x")
      case True
      then have "takeWhile (\<lambda>x. \<not> is_space x) (cs @ b) = cs"
        and "dropWhile (\<lambda>x. \<not> is_space x) (cs @ b) = b"
        and "takeWhile (\<lambda>x. \<not> is_space x) cs = cs" and "dropWhile (\<lambda>x. \<not> is_space x) cs = []"
        using dw by (simp_all add: takeWhile_append2 dropWhile_append2 takeWhile_eq_all_conv)
      then show ?thesis using False by (simp del: dropWhile_eq_Nil_conv takeWhile_eq_all_conv)
    next
      case t: False
      then have "takeWhile (\<lambda>x. \<not> is_space x) (cs @ b) = takeWhile (\<lambda>x. \<not> is_space x) cs"
        and "dropWhile (\<lambda>x. \<not> is_space x) (cs @ b) = dropWhile (\<lambda>x. \<not> is_space x) cs @ b"
        by (auto simp: takeWhile_append1 dropWhile_append1)
      then show ?thesis using False 2(2) by simp
    qed
  qed
qed simp

lemma words_of_space_tail: "list_all is_space b \<Longrightarrow> words_of (a @ b) = words_of a"
  by (cases b) (simp_all add: words_of_append_blank words_of_all_blank)

lemma rstrip_split: "\<exists>b. s = rstrip s @ b \<and> list_all is_space b"
proof -
  have "rev s = takeWhile is_space (rev s) @ dropWhile is_space (rev s)" by simp
  then have "s = rstrip s @ rev (takeWhile is_space (rev s))"
    unfolding rstrip_def by (metis rev_append rev_rev_ident)
  moreover have "list_all is_space (rev (takeWhile is_space (rev s)))"
    by (auto simp: list_all_iff dest: set_takeWhileD)
  ultimately show ?thesis by blast
qed

lemma words_of_rstrip [simp]: "words_of (rstrip s) = words_of s"
  using rstrip_split [of s] words_of_space_tail by metis

lemma strip_rstrip: "strip s = rstrip (dropWhile is_space s)"
  by (simp add: strip_def rstrip_def)

lemma words_of_strip [simp]: "words_of (strip s) = words_of s"
  by (simp add: strip_rstrip words_of_blank_front)

lemma words_of_join_space:
  assumes "sep \<noteq> []" and "list_all is_space sep"
  shows "words_of (join sep xs) = concat (map words_of xs)"
  using assms
proof (induction sep xs rule: join.induct)
  case (3 sep w v vs)
  then have "words_of (w @ sep @ join sep (v # vs)) = words_of w @ words_of (sep @ join sep (v # vs))"
    by (intro words_of_append_blank) (cases sep, auto)
  moreover have "words_of (sep @ t) = words_of t" for t
    using 3(3) by (induction sep) auto
  ultimately show ?case using 3 by simp
qed simp_all

lemma split_on_nonempty: "split_on c s \<noteq> []"
  by (cases s) (auto split: list.splits)

lemma join_newline_split: "join [c] (split_on c s) = s"
proof (induction s)
  case (Cons a s)
  obtain w ws where "split_on c s = w # ws"
    using split_on_nonempty [of c s] by (cases "split_on c s") auto
  with Cons show ?case by (cases ws) auto
qed simp

end
