(* ===== verification/CanonJson.thy ===== *)
theory CanonJson
  imports PyText
begin

text \<open>
  The canonical JSON profile of \<open>change_control/models.py\<close> (\<open>canonical_json_bytes\<close>) and the content
  identities built on it (\<open>stable_content_id\<close>).  The main results: the encoding is injective up to
  the order of object members, so equal digests mean equal payloads or an explicit collision of
  the hash function.
\<close>

text \<open>A JSON value.  Floats are rational numbers: the negative zero, with the text \<open>-0.0\<close>, is not a value of the model.\<close>

datatype json =
    JNull
  | JBool bool
  | JInt int
  | JFloat rat
  | JStr string
  | JArr "json list"
  | JObj "(string \<times> json) list"

section \<open>The encoder\<close>

text \<open>\<open>json.encoder\<close>: \<open>ESCAPE\<close> and \<open>ESCAPE_DCT\<close> with \<open>ensure_ascii=False\<close>.\<close>

definition hex_digit :: "nat \<Rightarrow> char" where
  "hex_digit n = char_of (if n < 10 then 48 + n else 87 + n)"

definition quote_char :: char where
  "quote_char = CHR 0x22"

definition escape_char :: "char \<Rightarrow> string" where
  "escape_char c =
    (if c = quote_char \<or> c = backslash then [backslash, c]
     else if c = CHR 0x0A then [backslash, CHR ''n'']
     else if c = CHR 0x0D then [backslash, CHR ''r'']
     else if c = CHR 0x09 then [backslash, CHR ''t'']
     else if c = CHR 0x0C then [backslash, CHR ''f'']
     else if c = CHR 0x08 then [backslash, CHR ''b'']
     else let n = of_char c :: nat in
       if n < 32 then [backslash] @ ''u00'' @ [hex_digit (n div 16), hex_digit (n mod 16)]
       else [c])"

fun escape :: "string \<Rightarrow> string" where
  "escape [] = []"
| "escape (c # cs) = escape_char c @ escape cs"

definition encode_string :: "string \<Rightarrow> string" where
  "encode_string s = quote_char # escape s @ [quote_char]"

text \<open>
  \<open>json.dumps(payload, ensure_ascii=False, separators=(",", ":"), sort_keys=True)\<close>: \<open>sort_members\<close>
  is \<open>sort_keys=True\<close>, \<open>emit\<close> the compact output.
\<close>

fun sort_members :: "json \<Rightarrow> json" where
  "sort_members (JArr vs) = JArr (map sort_members vs)"
| "sort_members (JObj kvs) = JObj (sort_key fst (map (\<lambda>kv. (fst kv, sort_members (snd kv))) kvs))"
| "sort_members v = v"

fun emit :: "py_env \<Rightarrow> json \<Rightarrow> string"
  and emit_elements :: "py_env \<Rightarrow> json list \<Rightarrow> string"
  and emit_members :: "py_env \<Rightarrow> (string \<times> json) list \<Rightarrow> string"
where
  "emit E JNull = ''null''"
| "emit E (JBool b) = (if b then ''true'' else ''false'')"
| "emit E (JInt i) = show_int i"
| "emit E (JFloat q) = float_repr E q"
| "emit E (JStr s) = encode_string s"
| "emit E (JArr vs) = ''['' @ emit_elements E vs @ '']''"
| "emit E (JObj kvs) = ''{'' @ emit_members E kvs @ ''}''"
| "emit_elements E [] = []"
| "emit_elements E [v] = emit E v"
| "emit_elements E (v # w # vs) = emit E v @ '','' @ emit_elements E (w # vs)"
| "emit_members E [] = []"
| "emit_members E [(k, v)] = encode_string k @ '':'' @ emit E v"
| "emit_members E ((k, v) # w # kvs) = encode_string k @ '':'' @ emit E v @ '','' @ emit_members E (w # kvs)"

text \<open>\<open>str.encode("utf-8")\<close> on the modelled code points.\<close>

definition utf8_char :: "char \<Rightarrow> string" where
  "utf8_char c = (let n = of_char c :: nat in
     if n < 128 then [c] else [char_of (192 + n div 64), char_of (128 + n mod 64)])"

fun utf8_encode :: "string \<Rightarrow> string" where
  "utf8_encode [] = []"
| "utf8_encode (c # cs) = utf8_char c @ utf8_encode cs"

definition canonical_json_bytes :: "py_env \<Rightarrow> json \<Rightarrow> string" where
  "canonical_json_bytes E payload = utf8_encode (emit E (sort_members payload))"

definition sha256_json :: "py_env \<Rightarrow> json \<Rightarrow> string" where
  "sha256_json E payload = sha256_hex E (canonical_json_bytes E payload)"

definition stable_content_id :: "py_env \<Rightarrow> string \<Rightarrow> json \<Rightarrow> string" where
  "stable_content_id E prefix payload = prefix @ '':'' @ sha256_json E payload"

section \<open>What the code relies on in the library functions\<close>

text \<open>
  \<open>hashlib\<close> returns 64 lowercase hexadecimal digits.  \<open>repr\<close> of a finite float is a non-empty
  token over digits, sign, point and exponent that contains a point or an exponent, and it
  determines the float (the shortest round-trip property).
\<close>

definition hash_ok :: "py_env \<Rightarrow> bool" where
  "hash_ok E \<longleftrightarrow> (\<forall>b. sha256_pattern (sha256_hex E b))"

definition number_char :: "char \<Rightarrow> bool" where
  "number_char c \<longleftrightarrow> digit_char c \<or> c = CHR ''-'' \<or> c = CHR ''+'' \<or> c = CHR ''.'' \<or> c = CHR ''e''"

definition fraction_char :: "char \<Rightarrow> bool" where
  "fraction_char c \<longleftrightarrow> c = CHR ''.'' \<or> c = CHR ''e''"

definition float_ok :: "py_env \<Rightarrow> bool" where
  "float_ok E \<longleftrightarrow> inj (float_repr E) \<and>
     (\<forall>q. list_all number_char (float_repr E q) \<and> list_ex fraction_char (float_repr E q) \<and>
       (digit_char (hd (float_repr E q)) \<or> hd (float_repr E q) = CHR ''-''))"

lemma stable_content_id_pattern:
  "hash_ok E \<Longrightarrow> content_id_pattern prefix (stable_content_id E prefix payload)"
  by (simp add: hash_ok_def stable_content_id_def sha256_json_def content_id_pattern_intro
      del: append.simps)

section \<open>Injectivity of the encoding\<close>

text \<open>
  The escape code of a character can be read back off the front of a text: \<open>unescape_one\<close> is the
  reader the proofs use.
\<close>

definition hex_val :: "char \<Rightarrow> nat" where
  "hex_val c = (let n = of_char c in if n < 58 then n - 48 else n - 87)"

definition unescape_one :: "string \<Rightarrow> (char \<times> string) option" where
  "unescape_one s = (case s of
     [] \<Rightarrow> None
   | c # r \<Rightarrow>
       if c \<noteq> backslash then Some (c, r)
       else (case r of
          [] \<Rightarrow> None
        | d # r' \<Rightarrow>
            if d = CHR ''n'' then Some (CHR 0x0A, r')
            else if d = CHR ''r'' then Some (CHR 0x0D, r')
            else if d = CHR ''t'' then Some (CHR 0x09, r')
            else if d = CHR ''f'' then Some (CHR 0x0C, r')
            else if d = CHR ''b'' then Some (CHR 0x08, r')
            else if d = CHR ''u'' then
              Some (char_of (16 * hex_val (r' ! 2) + hex_val (r' ! 3)), drop 4 r')
            else Some (d, r')))"

lemma hex_val_hex_digit: "n < 16 \<Longrightarrow> hex_val (hex_digit n) = n"
  by (simp add: hex_val_def hex_digit_def)

lemma unescape_escape_char: "unescape_one (escape_char c @ x) = Some (c, x)"
proof -
  let ?special = "{quote_char, backslash, CHR 0x0A, CHR 0x0D, CHR 0x09, CHR 0x0C, CHR 0x08}"
  let ?n = "of_char c :: nat"
  consider "c \<in> ?special" | "c \<notin> ?special" "?n < 32" | "c \<notin> ?special" "32 \<le> ?n"
    by fastforce
  then show ?thesis
  proof cases
    case 1
    then show ?thesis
      by (auto simp: escape_char_def unescape_one_def backslash_def quote_char_def)
  next
    case 2
    have "16 * (?n div 16) + ?n mod 16 = ?n" by simp
    with 2 show ?thesis
      by (simp add: escape_char_def unescape_one_def Let_def hex_val_hex_digit)
  next
    case 3
    then show ?thesis by (simp add: escape_char_def unescape_one_def Let_def)
  qed
qed

lemma escape_char_prefix_free:
  "escape_char c @ x = escape_char d @ y \<Longrightarrow> c = d \<and> x = y"
  by (metis unescape_escape_char option.inject prod.inject)

lemma escape_char_hd: "escape_char c \<noteq> [] \<and> hd (escape_char c) \<noteq> quote_char"
  by (simp add: escape_char_def Let_def backslash_def quote_char_def)

lemma escape_quote_inj:
  "escape s @ quote_char # x = escape t @ quote_char # y \<Longrightarrow> s = t \<and> x = y"
proof (induction s arbitrary: t)
  case Nil
  show ?case
  proof (cases t)
    case (Cons d t')
    with Nil have "quote_char # x = escape_char d @ escape t' @ quote_char # y" by simp
    then have "hd (escape_char d) = quote_char"
      using escape_char_hd [of d] by (metis hd_append list.sel(1))
    with escape_char_hd [of d] show ?thesis by simp
  qed (use Nil in simp)
next
  case (Cons c s)
  show ?case
  proof (cases t)
    case Nil
    with Cons.prems have "quote_char # y = escape_char c @ escape s @ quote_char # x" by simp
    then have "hd (escape_char c) = quote_char"
      using escape_char_hd [of c] by (metis hd_append list.sel(1))
    with escape_char_hd [of c] show ?thesis by simp
  next
    case t: (Cons d t')
    with Cons.prems have "c = d \<and> escape s @ quote_char # x = escape t' @ quote_char # y"
      by (intro escape_char_prefix_free) simp
    with Cons.IH [of t'] t show ?thesis by simp
  qed
qed

lemma encode_string_inj:
  "encode_string s @ x = encode_string t @ y \<Longrightarrow> s = t \<and> x = y"
  unfolding encode_string_def by (rule escape_quote_inj) simp

text \<open>Where a value can be followed by another token.\<close>

definition delimited :: "string \<Rightarrow> bool" where
  "delimited r \<longleftrightarrow> r = [] \<or> hd r = CHR '','' \<or> hd r = CHR '']'' \<or> hd r = CHR ''}''"

lemma number_token_split:
  assumes "list_all number_char a" and "list_all number_char b"
    and "delimited x" and "delimited y" and "a @ x = b @ y"
  shows "a = b \<and> x = y"
proof -
  have tok: "takeWhile number_char (u @ z) = u" if "list_all number_char u" "delimited z" for u z
    using that by (cases z)
      (auto simp: list_all_iff takeWhile_append2 delimited_def number_char_def digit_char_def)
  have "a = b" using tok [OF assms(1,3)] tok [OF assms(2,4)] assms(5) by simp
  with assms(5) show ?thesis by simp
qed

lemma digit_number: "digit_char c \<Longrightarrow> number_char c"
  by (simp add: number_char_def)

lemma show_nat_number: "list_all number_char (show_nat n)"
  using show_nat_digits [of n] by (auto simp: list_all_iff intro: digit_number)

lemma show_int_number: "list_all number_char (show_int i)"
  by (simp add: show_int_def show_nat_number number_char_def)

lemma show_int_no_fraction: "\<not> list_ex fraction_char (show_int i)"
proof -
  have "\<not> list_ex fraction_char (show_nat n)" for n
    using show_nat_digits [of n]
    by (auto simp: list_ex_iff list_all_iff fraction_char_def digit_char_def)
  then show ?thesis by (simp add: show_int_def fraction_char_def)
qed

lemma show_int_hd: "show_int i \<noteq> [] \<and> (digit_char (hd (show_int i)) \<or> hd (show_int i) = CHR ''-'')"
  using show_nat_digits show_nat_hd by (simp add: show_int_def)

text \<open>The first character tells the kinds of value apart.\<close>

definition kind_of :: "char \<Rightarrow> nat" where
  "kind_of c = (if c = CHR ''n'' then 0 else if c = CHR ''t'' then 1 else if c = CHR ''f'' then 2
     else if digit_char c \<or> c = CHR ''-'' then 3 else if c = quote_char then 4
     else if c = CHR ''['' then 5 else if c = CHR ''{'' then 6 else 7)"

fun json_kind :: "json \<Rightarrow> nat" where
  "json_kind JNull = 0"
| "json_kind (JBool b) = (if b then 1 else 2)"
| "json_kind (JInt i) = 3"
| "json_kind (JFloat q) = 3"
| "json_kind (JStr s) = 4"
| "json_kind (JArr vs) = 5"
| "json_kind (JObj kvs) = 6"

lemma kind_of_digit: "digit_char c \<Longrightarrow> kind_of c = 3"
  by (auto simp: kind_of_def digit_char_def)

lemma kind_of_simps [simp]:
  "kind_of (CHR ''n'') = 0" "kind_of (CHR ''t'') = 1" "kind_of (CHR ''f'') = 2"
  "kind_of (CHR ''-'') = 3" "kind_of quote_char = 4" "kind_of (CHR ''['') = 5"
  "kind_of (CHR ''{'') = 6"
  by (simp_all add: kind_of_def digit_char_def quote_char_def)

lemma emit_kind:
  assumes "float_ok E"
  shows "emit E v \<noteq> [] \<and> kind_of (hd (emit E v)) = json_kind v"
proof (cases v)
  case (JInt i)
  then show ?thesis using show_int_hd [of i] by (auto simp: kind_of_digit)
next
  case (JFloat q)
  have "float_repr E q \<noteq> []"
    using assms by (metis float_ok_def list_ex_iff empty_iff list.set(1))
  moreover have "digit_char (hd (float_repr E q)) \<or> hd (float_repr E q) = CHR ''-''"
    using assms by (simp add: float_ok_def)
  ultimately show ?thesis using JFloat kind_of_digit by auto
qed (simp_all add: encode_string_def)

lemma emit_not_closing: "float_ok E \<Longrightarrow> hd (emit E v @ r) \<noteq> CHR '']''"
  using emit_kind [of E v] by (cases v) (auto simp: kind_of_def digit_char_def quote_char_def)


lemma emit_kind_append:
  assumes "float_ok E" and "emit E v @ x = emit E w @ y"
  shows "json_kind v = json_kind w"
  using emit_kind [OF assms(1), of v] emit_kind [OF assms(1), of w] assms(2)
  by (metis hd_append)

lemma delimited_simps [simp]:
  "delimited []" "delimited (CHR '','' # r)" "delimited (CHR '']'' # r)" "delimited (CHR ''}'' # r)"
  by (simp_all add: delimited_def)

lemma json_kind_3: "json_kind v = 3 \<Longrightarrow> (\<exists>i. v = JInt i) \<or> (\<exists>q. v = JFloat q)"
  by (cases v) (auto split: if_splits)

lemma emit_number_inj:
  assumes "float_ok E" and "json_kind v = 3" and "json_kind w = 3"
    and "delimited x" and "delimited y" and "emit E v @ x = emit E w @ y"
  shows "v = w \<and> x = y"
proof -
  have num: "list_all number_char (emit E u)" if "json_kind u = 3" for u
    using that assms(1) show_int_number by (cases u) (auto simp: float_ok_def split: if_splits)
  have eq: "emit E v = emit E w" "x = y"
    using number_token_split [OF num [OF assms(2)] num [OF assms(3)] assms(4,5,6)] by auto
  have frac: "float_repr E q \<noteq> show_int i" for q i
    using assms(1) show_int_no_fraction by (metis float_ok_def)
  have inj: "float_repr E p = float_repr E q \<longleftrightarrow> p = q" for p q
    using assms(1) by (simp add: float_ok_def inj_eq)
  have "v = w"
    using json_kind_3 [OF assms(2)] json_kind_3 [OF assms(3)] eq(1) frac frac [symmetric]
    by (auto simp: show_int_inj inj)
  with eq(2) show ?thesis by simp
qed

lemma delimited_elements: "delimited (r :: string) \<Longrightarrow> delimited (CHR '','' # x)"
  by simp

text \<open>
  The element and member lists are compared up to their closing bracket; \<open>vs\<close> is compared with
  \<open>ws\<close> under the assumption that the elements of \<open>vs\<close> can be read back.
\<close>

lemma emit_elements_inj:
  assumes E: "float_ok E"
    and IH: "\<And>v w x y. v \<in> set vs \<Longrightarrow> delimited x \<Longrightarrow> delimited y \<Longrightarrow>
      emit E v @ x = emit E w @ y \<Longrightarrow> v = w \<and> x = y"
    and eq: "emit_elements E vs @ CHR '']'' # x = emit_elements E ws @ CHR '']'' # y"
  shows "vs = ws \<and> x = y"
  using IH eq
proof (induction vs arbitrary: ws)
  case Nil
  then show ?case
  proof (cases ws)
    case (Cons w ws')
    have "hd (emit_elements E ws @ CHR '']'' # y) \<noteq> CHR '']''"
      using emit_not_closing [OF E] Cons by (cases ws') auto
    moreover have "hd (emit_elements E ws @ CHR '']'' # y) = CHR '']''"
      using Nil(2) by (metis append_Nil emit_elements.simps(1) list.sel(1))
    ultimately show ?thesis by simp
  qed simp
next
  case (Cons v vs)
  define rest where "rest us z = (case us of [] \<Rightarrow> CHR '']'' # z
    | u # us' \<Rightarrow> CHR '','' # emit_elements E us @ CHR '']'' # z)" for us z
  have split: "emit_elements E (u # us) @ CHR '']'' # z = emit E u @ rest us z" for u us z
    by (cases us) (simp_all add: rest_def)
  have del: "delimited (rest us z)" for us z
    by (cases us) (simp_all add: rest_def)
  show ?case
  proof (cases ws)
    case Nil
    have "hd (emit_elements E (v # vs) @ CHR '']'' # x) \<noteq> CHR '']''"
      by (simp only: split emit_not_closing [OF E] simp_thms)
    with Cons.prems(2) Nil show ?thesis by simp
  next
    case w: (Cons w ws')
    have "v = w \<and> rest vs x = rest ws' y"
      using Cons.prems w by (intro Cons.prems(1) del) (simp_all only: split list.set_intros)
    moreover from this have "emit_elements E vs @ CHR '']'' # x = emit_elements E ws' @ CHR '']'' # y"
      by (cases vs; cases ws') (auto simp: rest_def)
    then have "vs = ws' \<and> x = y"
      using Cons.prems(1) by (intro Cons.IH) auto
    ultimately show ?thesis using w by simp
  qed
qed

lemma emit_members_inj:
  assumes E: "float_ok E"
    and IH: "\<And>kv w x y. kv \<in> set vs \<Longrightarrow> delimited x \<Longrightarrow> delimited y \<Longrightarrow>
      emit E (snd kv) @ x = emit E w @ y \<Longrightarrow> snd kv = w \<and> x = y"
    and eq: "emit_members E vs @ CHR ''}'' # x = emit_members E ws @ CHR ''}'' # y"
  shows "vs = ws \<and> x = y"
  using IH eq
proof (induction vs arbitrary: ws)
  case Nil
  then show ?case
  proof (cases ws)
    case (Cons w ws')
    have "hd (emit_members E ws @ CHR ''}'' # y) = quote_char"
      using Cons by (cases w; cases ws') (auto simp: encode_string_def)
    moreover have "hd (emit_members E ws @ CHR ''}'' # y) = CHR ''}''"
      using Nil(2) by (metis append_Nil emit_members.simps(1) list.sel(1))
    ultimately show ?thesis by (simp add: quote_char_def)
  qed simp
next
  case (Cons kv vs)
  define rest where "rest us z = (case us of [] \<Rightarrow> CHR ''}'' # z
    | u # us' \<Rightarrow> CHR '','' # emit_members E us @ CHR ''}'' # z)" for us z
  have split: "emit_members E ((k, u) # us) @ CHR ''}'' # z =
      encode_string k @ CHR '':'' # emit E u @ rest us z" for k u us z
    by (cases us) (simp_all add: rest_def)
  have del: "delimited (rest us z)" for us z
    by (cases us) (simp_all add: rest_def)
  obtain k v where kv: "kv = (k, v)" by force
  show ?case
  proof (cases ws)
    case Nil
    with Cons.prems(2) kv show ?thesis by (simp add: split encode_string_def quote_char_def)
  next
    case w: (Cons w ws')
    obtain l u where lu: "w = (l, u)" by force
    have "encode_string k @ CHR '':'' # emit E v @ rest vs x =
        encode_string l @ CHR '':'' # emit E u @ rest ws' y"
      using Cons.prems(2) by (simp only: w kv lu split)
    then have kl: "k = l" and vu: "emit E v @ rest vs x = emit E u @ rest ws' y"
      using encode_string_inj by blast+
    have "snd kv = u \<and> rest vs x = rest ws' y"
      using vu kv by (intro Cons.prems(1) del) simp_all
    moreover from this have "emit_members E vs @ CHR ''}'' # x = emit_members E ws' @ CHR ''}'' # y"
      by (cases vs; cases ws') (auto simp: rest_def)
    then have "vs = ws' \<and> x = y"
      by (rule Cons.IH [rotated]) (rule Cons.prems(1), simp_all)
    ultimately show ?thesis using w kv lu kl by simp
  qed
qed

lemma emit_inj_append:
  assumes E: "float_ok E"
  shows "delimited x \<Longrightarrow> delimited y \<Longrightarrow> emit E v @ x = emit E w @ y \<Longrightarrow> v = w \<and> x = y"
proof (induction v arbitrary: w x y)
  case (JInt i)
  then show ?case
    using emit_number_inj [OF E, of "JInt i" w] emit_kind_append [OF E JInt(3)] by simp
next
  case (JFloat q)
  then show ?case
    using emit_number_inj [OF E, of "JFloat q" w] emit_kind_append [OF E JFloat(3)] by simp
next
  case (JStr s)
  then show ?case
    using emit_kind_append [OF E JStr(3)] encode_string_inj [of s x _ y]
    by (cases w) (auto split: if_splits)
next
  case (JArr vs)
  from emit_kind_append [OF E JArr(4)] obtain ws where w: "w = JArr ws"
    by (cases w) (auto split: if_splits)
  have "vs = ws \<and> x = y"
    using JArr by (intro emit_elements_inj [OF E]) (auto simp: w)
  with w show ?case by simp
next
  case (JObj kvs)
  from emit_kind_append [OF E JObj(4)] obtain ws where w: "w = JObj ws"
    by (cases w) (auto split: if_splits)
  have "kvs = ws \<and> x = y"
    using JObj by (intro emit_members_inj [OF E]) (force simp: w)+
  with w show ?case by simp
next
  case JNull
  then show ?case using emit_kind_append [OF E JNull(3)] by (cases w) (auto split: if_splits)
next
  case (JBool b)
  then show ?case using emit_kind_append [OF E JBool(3)] by (cases w) (auto split: if_splits)
qed

lemma emit_inj: "float_ok E \<Longrightarrow> emit E v = emit E w \<Longrightarrow> v = w"
  using emit_inj_append [of E "[]" "[]" v w] by simp

lemma of_char_bound: "(of_char (c :: char) :: nat) < 256"
  by simp

lemma utf8_char_prefix_free:
  assumes "utf8_char c @ x = utf8_char d @ y"
  shows "c = d \<and> x = y"
proof -
  let ?m = "of_char c :: nat" and ?n = "of_char d :: nat"
  have b: "192 + k div 64 < 256 \<and> 128 + k mod 64 < 256 \<and> k = 64 * (k div 64) + k mod 64"
    if "k < 256" for k :: nat
  proof -
    have "k div 64 < 4" using that by (simp add: div_less_iff_less_mult)
    moreover have "k mod 64 < 64" by simp
    moreover have "64 * (k div 64) + k mod 64 = k" by (rule mult_div_mod_eq)
    ultimately show ?thesis by linarith
  qed
  have hd: "of_char (hd (utf8_char e)) = (let k = of_char e :: nat in if k < 128 then k else 192 + k div 64)" for e
    using b [OF of_char_bound [of e]] by (simp add: utf8_char_def Let_def)
  have ne: "utf8_char e \<noteq> []" for e by (simp add: utf8_char_def Let_def)
  have "of_char (hd (utf8_char c)) = (of_char (hd (utf8_char d)) :: nat)"
    using arg_cong [OF assms, of hd] ne by (simp add: hd_append)
  then have side: "(?m < 128 \<longleftrightarrow> ?n < 128) \<and> (?m < 128 \<longrightarrow> ?m = ?n) \<and> (\<not> ?m < 128 \<longrightarrow> ?m div 64 = ?n div 64)"
    by (auto simp: hd Let_def split: if_splits)
  show ?thesis
  proof (cases "?m < 128")
    case True
    with side have "c = d" by simp
    with assms show ?thesis by simp
  next
    case False
    with side assms have "char_of (128 + ?m mod 64) = (char_of (128 + ?n mod 64) :: char)" "x = y"
      by (auto simp: utf8_char_def Let_def)
    then have "(of_char (char_of (128 + ?m mod 64) :: char) :: nat) = of_char (char_of (128 + ?n mod 64) :: char)"
      by simp
    then have "?m mod 64 = ?n mod 64"
      using b [OF of_char_bound [of c]] b [OF of_char_bound [of d]] by simp
    then have "?m = ?n" using False side by (metis mult_div_mod_eq)
    with \<open>x = y\<close> show ?thesis by simp
  qed
qed

lemma utf8_inj: "utf8_encode s = utf8_encode t \<longleftrightarrow> s = t"
proof -
  have ne: "utf8_char c \<noteq> []" for c by (simp add: utf8_char_def Let_def)
  have "utf8_encode s = utf8_encode t \<Longrightarrow> s = t"
  proof (induction s arbitrary: t)
    case Nil
    then show ?case using ne by (cases t) auto
  next
    case (Cons c s)
    with ne show ?case by (cases t) (auto dest!: utf8_char_prefix_free)
  qed
  then show ?thesis by auto
qed

text \<open>
  The encoder determines the payload up to the order of object members, and content identities
  determine it up to a collision of the hash function, which the conclusion exhibits.
\<close>

lemma canonical_json_bytes_inj:
  assumes "float_ok E"
  shows "canonical_json_bytes E v = canonical_json_bytes E w \<longleftrightarrow> sort_members v = sort_members w"
  using emit_inj [OF assms] by (auto simp: canonical_json_bytes_def utf8_inj)

definition hash_collision :: "py_env \<Rightarrow> json \<Rightarrow> json \<Rightarrow> bool" where
  "hash_collision E v w \<longleftrightarrow>
     canonical_json_bytes E v \<noteq> canonical_json_bytes E w \<and> sha256_json E v = sha256_json E w"

lemma sha256_json_inj:
  assumes "float_ok E" and "sha256_json E v = sha256_json E w"
  shows "sort_members v = sort_members w \<or> hash_collision E v w"
  using assms canonical_json_bytes_inj [OF assms(1), of v w] by (auto simp: hash_collision_def)

lemma stable_content_id_inj:
  assumes "float_ok E" and "stable_content_id E p v = stable_content_id E p w"
  shows "sort_members v = sort_members w \<or> hash_collision E v w"
  using sha256_json_inj [OF assms(1)] assms(2) by (simp add: stable_content_id_def)

section \<open>Property\<close>

text \<open>
  A content identity binds its prefix and its payload: two equal identities have the same prefix
  and payloads that are equal up to the order of object members, or the two canonical encodings
  are different byte strings with the same SHA-256 digest.
\<close>

theorem stable_content_id_binding:
  assumes "hash_ok E" and "float_ok E"
    and "stable_content_id E p v = stable_content_id E q w"
  shows "p = q \<and> (sort_members v = sort_members w \<or> hash_collision E v w)"
proof -
  have "content_id_pattern p (stable_content_id E p v)" "content_id_pattern q (stable_content_id E p v)"
    using stable_content_id_pattern [OF assms(1)] assms(3) by metis+
  then have "p = q" by (rule content_id_prefix_determined)
  with stable_content_id_inj [OF assms(2)] assms(3) show ?thesis by simp
qed

end
