(* ===== verification/Dates.thy ===== *)
theory Dates
  imports CanonJson
begin

text \<open>
  \<open>datetime.date\<close>: a year, a month and a day, compared in that order, written by \<open>isoformat\<close>.
\<close>

datatype date = Date (date_year: nat) (date_month: nat) (date_day: nat)

instantiation date :: linorder
begin

definition less_eq_date :: "date \<Rightarrow> date \<Rightarrow> bool" where
  "less_eq_date a b \<longleftrightarrow> (date_year a, date_month a, date_day a) \<le> (date_year b, date_month b, date_day b)"

definition less_date :: "date \<Rightarrow> date \<Rightarrow> bool" where
  "less_date a b \<longleftrightarrow> (date_year a, date_month a, date_day a) < (date_year b, date_month b, date_day b)"

instance
  by standard
    (auto simp: less_eq_date_def less_date_def date.expand)

end

definition pad :: "nat \<Rightarrow> nat \<Rightarrow> string" where
  "pad k n = (let s = show_nat n in replicate (k - length s) (CHR ''0'') @ s)"

definition isoformat :: "date \<Rightarrow> string" where
  "isoformat d = pad 4 (date_year d) @ ''-'' @ pad 2 (date_month d) @ ''-'' @ pad 2 (date_day d)"

definition date_json :: "date \<Rightarrow> json" where
  "date_json d = JStr (isoformat d)"

definition opt_json :: "('a \<Rightarrow> json) \<Rightarrow> 'a option \<Rightarrow> json" where
  "opt_json f x = (case x of None \<Rightarrow> JNull | Some y \<Rightarrow> f y)"

lemma read_nat_zeros: "read_nat (replicate k (CHR ''0'') @ s) = read_nat s"
  by (induction k) (simp_all add: read_nat_def digit_val_def)

lemma pad_inj: "pad k m = pad k n \<longleftrightarrow> m = n"
  by (metis pad_def read_nat_zeros read_show_nat)

lemma pad_digits: "list_all digit_char (pad k n)"
proof -
  have "digit_char (CHR ''0'')" by (simp add: digit_char_def)
  then have "list_all digit_char (replicate m (CHR ''0''))" for m by (induction m) simp_all
  with show_nat_digits [of n] show ?thesis by (simp add: pad_def Let_def)
qed

definition leap_year :: "nat \<Rightarrow> bool" where
  "leap_year y \<longleftrightarrow> y mod 4 = 0 \<and> (y mod 100 \<noteq> 0 \<or> y mod 400 = 0)"

definition days_in_month :: "nat \<Rightarrow> nat \<Rightarrow> nat" where
  "days_in_month y m = (if m = 2 then (if leap_year y then 29 else 28)
     else if m \<in> {4, 6, 9, 11} then 30 else 31)"

text \<open>The dates that \<open>datetime.date\<close> can hold.\<close>

definition valid_date :: "date \<Rightarrow> bool" where
  "valid_date d \<longleftrightarrow> 1 \<le> date_year d \<and> date_year d \<le> 9999 \<and> 1 \<le> date_month d \<and> date_month d \<le> 12 \<and>
     1 \<le> date_day d \<and> date_day d \<le> days_in_month (date_year d) (date_month d)"

text \<open>
  \<open>date.fromisoformat\<close> on the texts \<open>YYYY-MM-DD\<close>, the only ones \<open>isoformat\<close> writes; the other ISO
  8601 spellings that Python also reads are rejected here.
\<close>

definition date_fromisoformat :: "string \<Rightarrow> date option" where
  "date_fromisoformat s =
     (let y = take 4 s; m = take 2 (drop 5 s); d = take 2 (drop 8 s);
          r = Date (read_nat y) (read_nat m) (read_nat d) in
      if length s = 10 \<and> list_all digit_char (y @ m @ d) \<and> take 1 (drop 4 s) = ''-'' \<and>
         take 1 (drop 7 s) = ''-'' \<and> valid_date r
      then Some r else None)"

lemma length_show_nat: "0 < k \<Longrightarrow> n < 10 ^ k \<Longrightarrow> length (show_nat n) \<le> k"
proof (induction n arbitrary: k rule: show_nat.induct)
  case (1 n)
  show ?case
  proof (cases "n < 10")
    case True
    with 1 show ?thesis by (simp add: show_nat.simps [of n])
  next
    case False
    from 1(2) obtain j where k: "k = Suc j" by (cases k) auto
    with 1(3) False have "j \<noteq> 0" by (cases j) auto
    with k have j: "k = Suc j" "0 < j" by auto
    with 1(3) have "n div 10 < 10 ^ j" by (simp add: div_less_iff_less_mult mult.commute)
    with 1(1) [OF False j(2)] False j(1) show ?thesis by (simp add: show_nat.simps [of n])
  qed
qed

lemma length_pad: "0 < k \<Longrightarrow> n < 10 ^ k \<Longrightarrow> length (pad k n) = k"
  using length_show_nat [of k n] by (simp add: pad_def Let_def)

lemma read_pad: "read_nat (pad k n) = n"
  by (simp add: pad_def Let_def read_nat_zeros)

lemma date_fromisoformat_isoformat:
  assumes "valid_date d"
  shows "date_fromisoformat (isoformat d) = Some d"
proof -
  obtain y m n where d: "d = Date y m n" by (cases d)
  have "days_in_month y m \<le> 31" by (simp add: days_in_month_def)
  with assms have len: "length (pad 4 y) = 4" "length (pad 2 m) = 2" "length (pad 2 n) = 2"
    by (auto simp: d valid_date_def intro!: length_pad)
  with assms show ?thesis
    by (simp add: date_fromisoformat_def isoformat_def d Let_def read_pad pad_digits)
qed

lemma digits_minus_split:
  assumes "list_all digit_char a" and "list_all digit_char b"
    and "a @ CHR ''-'' # x = b @ CHR ''-'' # y"
  shows "a = b \<and> x = y"
proof -
  have "takeWhile digit_char (u @ CHR ''-'' # z) = u" if "list_all digit_char u" for u z
    using that minus_not_digit by (simp add: list_all_iff takeWhile_append2)
  with assms have "a = b" by metis
  with assms(3) show ?thesis by simp
qed

lemma isoformat_inj: "isoformat a = isoformat b \<longleftrightarrow> a = b"
proof
  assume eq: "isoformat a = isoformat b"
  from eq have y: "pad 4 (date_year a) = pad 4 (date_year b) \<and>
      pad 2 (date_month a) @ CHR ''-'' # pad 2 (date_day a) =
      pad 2 (date_month b) @ CHR ''-'' # pad 2 (date_day b)"
    by (intro digits_minus_split pad_digits) (simp add: isoformat_def)
  then have "pad 2 (date_month a) = pad 2 (date_month b) \<and> pad 2 (date_day a) = pad 2 (date_day b)"
    by (intro digits_minus_split pad_digits) simp
  with y show "a = b" by (simp add: pad_inj date.expand)
qed simp

lemma date_json_inj [simp]: "date_json a = date_json b \<longleftrightarrow> a = b"
  by (simp add: date_json_def isoformat_inj)

lemma date_json_not_null [simp]: "date_json a \<noteq> JNull" "JNull \<noteq> date_json a"
  by (simp_all add: date_json_def)

lemma opt_json_inj:
  "(\<And>x y. f x = f y \<longleftrightarrow> x = y) \<Longrightarrow> (\<And>x. f x \<noteq> JNull) \<Longrightarrow> opt_json f a = opt_json f b \<longleftrightarrow> a = b"
  by (cases a; cases b) (simp_all add: opt_json_def, metis)

lemma opt_date_json_inj [simp]: "opt_json date_json a = opt_json date_json b \<longleftrightarrow> a = b"
  by (rule opt_json_inj) simp_all

lemma opt_str_json_inj [simp]: "opt_json JStr a = opt_json JStr b \<longleftrightarrow> a = b"
  by (rule opt_json_inj) simp_all

lemma opt_int_json_inj [simp]: "opt_json JInt a = opt_json JInt b \<longleftrightarrow> a = b"
  by (rule opt_json_inj) simp_all

text \<open>
  The JSON views below are objects with a fixed list of member names, written in sorted order, and
  every nested view is already sorted, so \<open>sort_members\<close> leaves them alone: \<open>json_sorted\<close>.
\<close>

definition json_sorted :: "json \<Rightarrow> bool" where
  "json_sorted v \<longleftrightarrow> sort_members v = v"

lemma json_sorted_base [simp]:
  "json_sorted JNull" "json_sorted (JBool b)" "json_sorted (JInt i)" "json_sorted (JFloat q)"
  "json_sorted (JStr s)"
  by (simp_all add: json_sorted_def)

lemma json_sorted_date [simp]: "json_sorted (date_json d)"
  by (simp add: date_json_def)

lemma json_sorted_opt: "(\<And>x. json_sorted (f x)) \<Longrightarrow> json_sorted (opt_json f a)"
  by (cases a) (simp_all add: opt_json_def)

lemma json_sorted_arr [simp]: "json_sorted (JArr vs) \<longleftrightarrow> list_all json_sorted vs"
  by (auto simp: json_sorted_def list_all_iff map_idI) (metis map_eq_conv map_ident)

lemma json_sorted_obj:
  assumes "sorted (map fst kvs)" and "list_all (\<lambda>kv. json_sorted (snd kv)) kvs"
  shows "json_sorted (JObj kvs)"
proof -
  have "map (\<lambda>kv. (fst kv, sort_members (snd kv))) kvs = kvs"
    using assms(2) by (intro map_idI) (simp add: list_all_iff json_sorted_def)
  with assms(1) show ?thesis by (simp add: json_sorted_def sort_key_id_if_sorted)
qed

lemma stable_id_sorted_inj:
  assumes "float_ok E" and "json_sorted v" and "json_sorted w"
    and "stable_content_id E p v = stable_content_id E p w"
  shows "v = w \<or> hash_collision E v w"
  using stable_content_id_inj [OF assms(1,4)] assms(2,3) by (simp add: json_sorted_def)

lemma sha256_sorted_inj:
  assumes "float_ok E" and "json_sorted v" and "json_sorted w"
    and "sha256_json E v = sha256_json E w"
  shows "v = w \<or> hash_collision E v w"
  using sha256_json_inj [OF assms(1,4)] assms(2,3) by (simp add: json_sorted_def)

lemma canonical_bytes_sorted_inj:
  assumes "float_ok E" and "json_sorted v" and "json_sorted w"
  shows "canonical_json_bytes E v = canonical_json_bytes E w \<longleftrightarrow> v = w"
  using canonical_json_bytes_inj [OF assms(1), of v w] assms(2,3) by (simp add: json_sorted_def)

end
