(* ===== verification/Evidence.thy ===== *)
theory Evidence
  imports Dates
begin

text \<open>
  Source evidence of \<open>document_intelligence/models.py\<close>: a quote inside a parsed PDF block
  (\<open>EvidenceRef\<close>), a quote inside a schema-v2 block or table cell (\<open>StructuralEvidenceRef\<close>), and
  the quantised bounding box.  The change-control models carry these values unchanged.

  Every class has a constructor \<open>.._new\<close> (the pydantic validators in the order they run), a JSON
  view \<open>.._json\<close> (\<open>model_dump(mode="json")\<close>, members listed in the order \<open>sort_keys\<close> writes them)
  and, where it nests other models, a deep revalidation \<open>.._revalidate\<close>
  (\<open>model_validate(x.model_dump(mode="json"))\<close>).
\<close>

definition numbered_id :: "string \<Rightarrow> string \<Rightarrow> bool" where
  "numbered_id prefix s \<longleftrightarrow> length s = length prefix + 4 \<and> take (length prefix) s = prefix \<and>
     list_all digit_char (drop (length prefix) s)"

text \<open>\<open>BLOCK_ID_RE\<close>: \<open>^page-\d{4}-block-\d{4}$\<close>\<close>

definition block_id_pattern :: "string \<Rightarrow> bool" where
  "block_id_pattern s \<longleftrightarrow> length s = 20 \<and> numbered_id ''page-'' (take 9 s) \<and>
     numbered_id ''-block-'' (drop 9 s)"

definition blank :: "string \<Rightarrow> bool" where
  "blank s \<longleftrightarrow> strip s = []"

section \<open>EvidenceRef\<close>

record evidence_ref =
  ev_asset_sha256 :: string
  ev_page_number :: int
  ev_block_id :: string
  ev_quote :: string
  ev_start_char :: int
  ev_end_char :: int

definition evidence_ref_new :: "evidence_ref \<Rightarrow> evidence_ref result" where
  "evidence_ref_new e = guards
     [(sha256_pattern (ev_asset_sha256 e), ValueError ''asset_sha256''),
      (1 \<le> ev_page_number e, ValueError ''page_number''),
      (block_id_pattern (ev_block_id e), ValueError ''block_id''),
      (1 \<le> length (ev_quote e) \<and> \<not> blank (ev_quote e),
         ValueError ''evidence quote must contain a non-whitespace character''),
      (0 \<le> ev_start_char e, ValueError ''start_char''),
      (0 < ev_end_char e, ValueError ''end_char''),
      (ev_start_char e < ev_end_char e, ValueError ''end_char must be greater than start_char'')]
     e"

definition evidence_ref_json :: "evidence_ref \<Rightarrow> json" where
  "evidence_ref_json e = JObj
     [(''asset_sha256'', JStr (ev_asset_sha256 e)),
      (''block_id'', JStr (ev_block_id e)),
      (''end_char'', JInt (ev_end_char e)),
      (''page_number'', JInt (ev_page_number e)),
      (''quote'', JStr (ev_quote e)),
      (''start_char'', JInt (ev_start_char e))]"

section \<open>NormalizedBBox\<close>

record normalized_bbox =
  bb_x0 :: rat
  bb_y0 :: rat
  bb_x1 :: rat
  bb_y1 :: rat

definition unit_coordinate :: "py_env \<Rightarrow> rat \<Rightarrow> bool" where
  "unit_coordinate E v \<longleftrightarrow> 0 \<le> v \<and> v \<le> 1 \<and> py_round E v 6 = v"

definition normalized_bbox_new :: "py_env \<Rightarrow> normalized_bbox \<Rightarrow> normalized_bbox result" where
  "normalized_bbox_new E b = guards
     [(unit_coordinate E (bb_x0 b), ValueError ''x0''),
      (unit_coordinate E (bb_y0 b), ValueError ''y0''),
      (unit_coordinate E (bb_x1 b), ValueError ''x1''),
      (unit_coordinate E (bb_y1 b), ValueError ''y1''),
      (bb_x0 b \<le> bb_x1 b \<and> bb_y0 b \<le> bb_y1 b, ValueError ''bbox maxima must not precede minima'')]
     b"

definition normalized_bbox_json :: "normalized_bbox \<Rightarrow> json" where
  "normalized_bbox_json b = JObj
     [(''origin'', JStr ''top-left''),
      (''x0'', JFloat (bb_x0 b)), (''x1'', JFloat (bb_x1 b)),
      (''y0'', JFloat (bb_y0 b)), (''y1'', JFloat (bb_y1 b))]"

section \<open>StructuralEvidenceRef\<close>

datatype target_type = BlockTarget | CellTarget

definition target_type_value :: "target_type \<Rightarrow> string" where
  "target_type_value t = (case t of BlockTarget \<Rightarrow> ''block'' | CellTarget \<Rightarrow> ''cell'')"

record structural_evidence_ref =
  se_target_type :: target_type
  se_asset_sha256 :: string
  se_page_number :: int
  se_block_id :: string
  se_table_id :: "string option"
  se_row_id :: "string option"
  se_cell_id :: "string option"
  se_row_index :: "int option"
  se_column_index :: "int option"
  se_bbox :: normalized_bbox
  se_quote :: string
  se_start_char :: int
  se_end_char :: int

definition opt_all :: "('a \<Rightarrow> bool) \<Rightarrow> 'a option \<Rightarrow> bool" where
  "opt_all p x = (case x of None \<Rightarrow> True | Some y \<Rightarrow> p y)"

definition cell_fields_none :: "structural_evidence_ref \<Rightarrow> bool" where
  "cell_fields_none s \<longleftrightarrow> se_table_id s = None \<and> se_row_id s = None \<and> se_cell_id s = None \<and>
     se_row_index s = None \<and> se_column_index s = None"

definition cell_fields_some :: "structural_evidence_ref \<Rightarrow> bool" where
  "cell_fields_some s \<longleftrightarrow> se_table_id s \<noteq> None \<and> se_row_id s \<noteq> None \<and> se_cell_id s \<noteq> None \<and>
     se_row_index s \<noteq> None \<and> se_column_index s \<noteq> None"

definition structural_evidence_ref_new ::
  "structural_evidence_ref \<Rightarrow> structural_evidence_ref result" where
  "structural_evidence_ref_new s = guards
     [(sha256_pattern (se_asset_sha256 s), ValueError ''asset_sha256''),
      (1 \<le> se_page_number s, ValueError ''page_number''),
      (numbered_id ''block-'' (se_block_id s), ValueError ''block_id''),
      (opt_all (numbered_id ''table-'') (se_table_id s), ValueError ''table_id''),
      (opt_all (numbered_id ''row-'') (se_row_id s), ValueError ''row_id''),
      (opt_all (numbered_id ''cell-'') (se_cell_id s), ValueError ''cell_id''),
      (opt_all (\<lambda>i. 0 \<le> i) (se_row_index s), ValueError ''row_index''),
      (opt_all (\<lambda>i. 0 \<le> i) (se_column_index s), ValueError ''column_index''),
      (1 \<le> length (se_quote s), ValueError ''quote''),
      (0 \<le> se_start_char s, ValueError ''start_char''),
      (0 < se_end_char s, ValueError ''end_char''),
      (se_target_type s = BlockTarget \<longrightarrow> cell_fields_none s,
         ValueError ''block evidence must not carry table/cell fields''),
      (se_target_type s = CellTarget \<longrightarrow> cell_fields_some s,
         ValueError ''cell evidence requires table, row, column, and cell identity''),
      (se_start_char s < se_end_char s, ValueError ''end_char must be greater than start_char''),
      (\<not> blank (se_quote s), ValueError ''evidence quote must contain a non-whitespace character'')]
     s"

definition structural_evidence_ref_revalidate ::
  "py_env \<Rightarrow> structural_evidence_ref \<Rightarrow> structural_evidence_ref result" where
  "structural_evidence_ref_revalidate E s =
     rbind (normalized_bbox_new E (se_bbox s)) (\<lambda>b. structural_evidence_ref_new (s\<lparr>se_bbox := b\<rparr>))"

definition structural_evidence_ref_json :: "structural_evidence_ref \<Rightarrow> json" where
  "structural_evidence_ref_json s = JObj
     [(''asset_sha256'', JStr (se_asset_sha256 s)),
      (''bbox'', normalized_bbox_json (se_bbox s)),
      (''block_id'', JStr (se_block_id s)),
      (''cell_id'', opt_json JStr (se_cell_id s)),
      (''column_index'', opt_json JInt (se_column_index s)),
      (''end_char'', JInt (se_end_char s)),
      (''page_number'', JInt (se_page_number s)),
      (''quote'', JStr (se_quote s)),
      (''row_id'', opt_json JStr (se_row_id s)),
      (''row_index'', opt_json JInt (se_row_index s)),
      (''schema_version'', JInt 2),
      (''start_char'', JInt (se_start_char s)),
      (''table_id'', opt_json JStr (se_table_id s)),
      (''target_type'', JStr (target_type_value (se_target_type s)))]"

section \<open>The union the change-control models store\<close>

datatype evidence = PdfEvidence evidence_ref | StructuralEvidence structural_evidence_ref

fun evidence_quote :: "evidence \<Rightarrow> string" where
  "evidence_quote (PdfEvidence e) = ev_quote e"
| "evidence_quote (StructuralEvidence s) = se_quote s"

fun evidence_json :: "evidence \<Rightarrow> json" where
  "evidence_json (PdfEvidence e) = evidence_ref_json e"
| "evidence_json (StructuralEvidence s) = structural_evidence_ref_json s"

fun evidence_revalidate :: "py_env \<Rightarrow> evidence \<Rightarrow> evidence result" where
  "evidence_revalidate E (PdfEvidence e) = rbind (evidence_ref_new e) (\<lambda>e'. Inr (PdfEvidence e'))"
| "evidence_revalidate E (StructuralEvidence s) =
     rbind (structural_evidence_ref_revalidate E s) (\<lambda>s'. Inr (StructuralEvidence s'))"

section \<open>The JSON views determine the values\<close>

lemma json_sorted_opt_base [simp]:
  "json_sorted (opt_json JStr a)" "json_sorted (opt_json JInt b)" "json_sorted (opt_json date_json c)"
  by (rule json_sorted_opt, simp)+

lemma target_type_value_inj [simp]: "target_type_value a = target_type_value b \<longleftrightarrow> a = b"
  by (cases a; cases b) (simp_all add: target_type_value_def)

lemma evidence_ref_json_inj [simp]: "evidence_ref_json a = evidence_ref_json b \<longleftrightarrow> a = b"
  by (auto simp: evidence_ref_json_def)

lemma normalized_bbox_json_inj [simp]: "normalized_bbox_json a = normalized_bbox_json b \<longleftrightarrow> a = b"
  by (auto simp: normalized_bbox_json_def)

lemma structural_evidence_ref_json_inj [simp]:
  "structural_evidence_ref_json a = structural_evidence_ref_json b \<longleftrightarrow> a = b"
  by (auto simp: structural_evidence_ref_json_def)

lemma evidence_json_disjoint [simp]:
  "evidence_ref_json a \<noteq> structural_evidence_ref_json b"
  "structural_evidence_ref_json b \<noteq> evidence_ref_json a"
  by (simp_all add: evidence_ref_json_def structural_evidence_ref_json_def)

lemma evidence_json_inj [simp]: "evidence_json a = evidence_json b \<longleftrightarrow> a = b"
  by (cases a; cases b) simp_all

lemma evidence_ref_json_sorted [simp]: "json_sorted (evidence_ref_json e)"
  unfolding evidence_ref_json_def by (rule json_sorted_obj) (simp_all, code_simp?)

lemma normalized_bbox_json_sorted [simp]: "json_sorted (normalized_bbox_json e)"
  unfolding normalized_bbox_json_def by (rule json_sorted_obj) (simp_all, code_simp?)

lemma structural_evidence_ref_json_sorted [simp]: "json_sorted (structural_evidence_ref_json e)"
  unfolding structural_evidence_ref_json_def by (rule json_sorted_obj) (simp_all, code_simp?)

lemma evidence_json_sorted [simp]: "json_sorted (evidence_json e)"
  by (cases e) simp_all

text \<open>Constructors that accept return the value they were given.\<close>

lemma evidence_ref_new_Inr: "evidence_ref_new e = Inr e' \<Longrightarrow> e' = e"
  by (simp add: evidence_ref_new_def)

lemma normalized_bbox_new_Inr: "normalized_bbox_new E b = Inr b' \<Longrightarrow> b' = b"
  by (simp add: normalized_bbox_new_def)

lemma structural_evidence_ref_revalidate_Inr:
  "structural_evidence_ref_revalidate E s = Inr s' \<Longrightarrow> s' = s"
  by (auto simp: structural_evidence_ref_revalidate_def rbind_Inr_iff structural_evidence_ref_new_def
      dest!: normalized_bbox_new_Inr)

lemma evidence_revalidate_Inr: "evidence_revalidate E e = Inr e' \<Longrightarrow> e' = e"
  by (cases e) (auto simp: rbind_Inr_iff dest: evidence_ref_new_Inr structural_evidence_ref_revalidate_Inr)

lemma evidence_list_revalidate_Inr: "rmap (evidence_revalidate E) es = Inr es' \<Longrightarrow> es' = es"
  by (auto simp: rmap_Inr_iff list_all2_conv_all_nth intro!: nth_equalityI dest: evidence_revalidate_Inr)

end
