(* ===== verification/Documents.thy ===== *)
theory Documents
  imports Evidence
begin

text \<open>
  \<open>DocumentVersionMetadata\<close> and \<open>DocumentVersionRegistry\<close>: the immutable binding of a logical
  document version and the registry with one binding per logical version.

  \<open>document_version_new\<close> is the constructor: pydantic's field validators in field order, then
  \<open>_integrity\<close>.  The \<open>source_path\<close> validator rewrites the path, so the constructor's value can
  differ from its argument; a value the constructor maps to itself is \<open>document_version_wf\<close>.
\<close>

datatype document_role = RolePolicy | RoleMemo | RoleFaq | RoleSop | RoleProcess | RoleProposal | RoleOther

datatype document_authority =
  AuthorityPrimary | AuthorityDelegated | AuthorityTransactional | AuthorityInformational

definition document_role_value :: "document_role \<Rightarrow> string" where
  "document_role_value r = (case r of
     RolePolicy \<Rightarrow> ''policy'' | RoleMemo \<Rightarrow> ''memo'' | RoleFaq \<Rightarrow> ''faq'' | RoleSop \<Rightarrow> ''sop''
   | RoleProcess \<Rightarrow> ''process'' | RoleProposal \<Rightarrow> ''proposal'' | RoleOther \<Rightarrow> ''other'')"

definition document_authority_value :: "document_authority \<Rightarrow> string" where
  "document_authority_value a = (case a of
     AuthorityPrimary \<Rightarrow> ''primary'' | AuthorityDelegated \<Rightarrow> ''delegated''
   | AuthorityTransactional \<Rightarrow> ''transactional'' | AuthorityInformational \<Rightarrow> ''informational'')"

record document_version =
  dv_id :: string
  dv_document_id :: string
  dv_family :: string
  dv_version_label :: string
  dv_source_path :: string
  dv_source_sha256 :: string
  dv_from :: date
  dv_to :: "date option"
  dv_role :: document_role
  dv_authority :: document_authority

definition document_identity_payload :: "string \<Rightarrow> string \<Rightarrow> json" where
  "document_identity_payload family version = JObj
     [(''document_family'', JStr family),
      (''namespace'', JStr ''mastervault.document-version.v1''),
      (''version_label'', JStr version)]"

definition closes_after :: "date option \<Rightarrow> date \<Rightarrow> bool" where
  "closes_after until from = (case until of None \<Rightarrow> True | Some d \<Rightarrow> from < d)"

definition document_version_new :: "py_env \<Rightarrow> document_version \<Rightarrow> document_version result" where
  "document_version_new E d =
     rbind (guards
        [(content_id_pattern ''docv'' (dv_id d), ValueError ''document_version_id''),
         (logical_key_pattern (dv_document_id d), ValueError ''document_id'')] ()) (\<lambda>_.
     rbind (require_normalized_key E (dv_document_id d) ''document_id'') (\<lambda>_.
     rbind (require_normalized_key E (dv_family d) ''document_family'') (\<lambda>_.
     rbind (require_normalized_key E (dv_version_label d) ''version_label'') (\<lambda>_.
     rbind (safe_relative_path (dv_source_path d)) (\<lambda>path.
     guards
        [(sha256_pattern (dv_source_sha256 d), ValueError ''source_sha256''),
         (closes_after (dv_to d) (dv_from d),
            ValueError ''declared_effective_to must follow declared_effective_from''),
         (dv_id d = stable_content_id E ''docv''
              (document_identity_payload (dv_family d) (dv_version_label d)),
            ValueError ''document_version_id does not match logical family/version identity'')]
        (d\<lparr>dv_source_path := path\<rparr>))))))"

definition document_version_create ::
  "py_env \<Rightarrow> string \<Rightarrow> string \<Rightarrow> string \<Rightarrow> string \<Rightarrow> string \<Rightarrow> date \<Rightarrow> date option \<Rightarrow>
     document_role \<Rightarrow> document_authority \<Rightarrow> document_version result" where
  "document_version_create E document_id family version_label source_path source_sha256
       effective_from effective_to role authority =
     rbind (normalize_logical_key E document_id) (\<lambda>normalized_document_id.
     rbind (normalize_logical_key E family) (\<lambda>normalized_family.
     rbind (normalize_logical_key E version_label) (\<lambda>normalized_version.
     rbind (safe_relative_path source_path) (\<lambda>path.
     document_version_new E
       \<lparr>dv_id = stable_content_id E ''docv''
            (document_identity_payload normalized_family normalized_version),
        dv_document_id = normalized_document_id, dv_family = normalized_family,
        dv_version_label = normalized_version, dv_source_path = path,
        dv_source_sha256 = source_sha256, dv_from = effective_from, dv_to = effective_to,
        dv_role = role, dv_authority = authority\<rparr>))))"

definition document_version_json :: "document_version \<Rightarrow> json" where
  "document_version_json d = JObj
     [(''authority'', JStr (document_authority_value (dv_authority d))),
      (''declared_effective_from'', date_json (dv_from d)),
      (''declared_effective_to'', opt_json date_json (dv_to d)),
      (''document_family'', JStr (dv_family d)),
      (''document_id'', JStr (dv_document_id d)),
      (''document_version_id'', JStr (dv_id d)),
      (''identity_namespace'', JStr ''mastervault.document-version.v1''),
      (''role'', JStr (document_role_value (dv_role d))),
      (''source_path'', JStr (dv_source_path d)),
      (''source_sha256'', JStr (dv_source_sha256 d)),
      (''version_label'', JStr (dv_version_label d))]"

definition document_version_wf :: "py_env \<Rightarrow> document_version \<Rightarrow> bool" where
  [wf_simps]: "document_version_wf E d \<longleftrightarrow> document_version_new E d = Inr d"

section \<open>The registry\<close>

definition document_registry_new :: "document_version list \<Rightarrow> document_version list result" where
  "document_registry_new documents =
     rbind (dedupe_loop dv_id
        (\<lambda>previous document. Some (ValueError
           (if dv_source_sha256 previous \<noteq> dv_source_sha256 document
            then ''different source bytes claim the same document family/version''
            else ''registry requires exactly one binding per document family/version'')))
        [] documents) (\<lambda>by_id.
     guards
       [(map dv_id documents = sort (map fst by_id),
           ValueError ''registry documents must use canonical document_version_id order'')]
       documents)"

definition document_clash :: "document_version \<Rightarrow> document_version \<Rightarrow> py_error option" where
  "document_clash previous document =
     (if dv_source_sha256 previous \<noteq> dv_source_sha256 document
      then Some (ValueError ''different source bytes claim the same document family/version'')
      else if previous \<noteq> document
      then Some (ValueError ''logical document version has multiple non-identical bindings'')
      else None)"

definition document_registry_create :: "document_version list \<Rightarrow> document_version list result" where
  "document_registry_create documents =
     rbind (dedupe dv_id document_clash documents) document_registry_new"

definition document_registry_get :: "document_version list \<Rightarrow> string \<Rightarrow> document_version result" where
  "document_registry_get documents document_version_id = registry_get dv_id documents document_version_id"

definition document_registry_revalidate ::
  "py_env \<Rightarrow> document_version list \<Rightarrow> document_version list result" where
  "document_registry_revalidate E documents =
     rbind (rmap (document_version_new E) documents) document_registry_new"

text \<open>\<open>_require_consistent_document_bindings\<close>\<close>

definition require_consistent_document_bindings :: "document_version list \<Rightarrow> bool" where
  "require_consistent_document_bindings documents = consistent_loop dv_id [] documents"

lemma require_consistent_document_bindings_iff:
  "require_consistent_document_bindings ds \<longleftrightarrow> key_inj dv_id ds"
  by (simp add: require_consistent_document_bindings_def consistent_loop_key_inj)

section \<open>Lemmas about one document\<close>

lemma document_role_value_inj [simp]: "document_role_value a = document_role_value b \<longleftrightarrow> a = b"
  by (cases a; cases b) (simp_all add: document_role_value_def)

lemma document_authority_value_inj [simp]:
  "document_authority_value a = document_authority_value b \<longleftrightarrow> a = b"
  by (cases a; cases b) (simp_all add: document_authority_value_def)

lemma document_version_json_inj [simp]: "document_version_json a = document_version_json b \<longleftrightarrow> a = b"
  by (auto simp: document_version_json_def)

lemma document_version_json_sorted [simp]: "json_sorted (document_version_json d)"
  unfolding document_version_json_def by (rule json_sorted_obj) (simp_all, code_simp?)

lemma document_identity_payload_inj [simp]:
  "document_identity_payload f v = document_identity_payload f' v' \<longleftrightarrow> f = f' \<and> v = v'"
  by (auto simp: document_identity_payload_def)

lemma document_identity_payload_sorted [simp]: "json_sorted (document_identity_payload f v)"
  unfolding document_identity_payload_def by (rule json_sorted_obj) (simp_all, code_simp?)

lemma require_normalized_key_Inr:
  "require_normalized_key E v l = Inr w \<longleftrightarrow> w = v \<and> normalize_logical_key E v = Inr v"
  by (auto simp: require_normalized_key_def rbind_Inr_iff)

lemma normalize_logical_key_Inr:
  "normalize_logical_key E v = Inr w \<Longrightarrow> logical_key_pattern w"
  by (auto simp: normalize_logical_key_def Let_def)

lemma document_version_new_Inr_iff:
  "document_version_new E d = Inr d' \<longleftrightarrow>
     (\<exists>path. safe_relative_path (dv_source_path d) = Inr path \<and> d' = d\<lparr>dv_source_path := path\<rparr>) \<and>
     normalize_logical_key E (dv_document_id d) = Inr (dv_document_id d) \<and>
     normalize_logical_key E (dv_family d) = Inr (dv_family d) \<and>
     normalize_logical_key E (dv_version_label d) = Inr (dv_version_label d) \<and>
     content_id_pattern ''docv'' (dv_id d) \<and> sha256_pattern (dv_source_sha256 d) \<and>
     closes_after (dv_to d) (dv_from d) \<and>
     dv_id d = stable_content_id E ''docv'' (document_identity_payload (dv_family d) (dv_version_label d))"
  unfolding document_version_new_def
  by (auto simp: rbind_Inr_iff require_normalized_key_Inr dest: normalize_logical_key_Inr
      simp del: One_nat_def)

lemma document_version_wf_iff:
  "document_version_wf E d \<longleftrightarrow>
     safe_relative_path (dv_source_path d) = Inr (dv_source_path d) \<and>
     normalize_logical_key E (dv_document_id d) = Inr (dv_document_id d) \<and>
     normalize_logical_key E (dv_family d) = Inr (dv_family d) \<and>
     normalize_logical_key E (dv_version_label d) = Inr (dv_version_label d) \<and>
     content_id_pattern ''docv'' (dv_id d) \<and> sha256_pattern (dv_source_sha256 d) \<and>
     closes_after (dv_to d) (dv_from d) \<and>
     dv_id d = stable_content_id E ''docv'' (document_identity_payload (dv_family d) (dv_version_label d))"
proof -
  have "d = d\<lparr>dv_source_path := p\<rparr> \<longleftrightarrow> p = dv_source_path d" for p
    by (cases d) auto
  then show ?thesis unfolding wf_simps document_version_new_Inr_iff by auto
qed

text \<open>The identity a constructor has checked determines family and version label.\<close>

lemma document_version_new_id:
  "document_version_new E d = Inr d' \<Longrightarrow>
     dv_id d' = stable_content_id E ''docv'' (document_identity_payload (dv_family d') (dv_version_label d'))"
  by (auto simp: document_version_new_Inr_iff)

lemma docv_id_inj:
  assumes "float_ok E"
    and "stable_content_id E ''docv'' (document_identity_payload f v) =
      stable_content_id E ''docv'' (document_identity_payload f' v')"
  shows "f = f' \<and> v = v' \<or>
    hash_collision E (document_identity_payload f v) (document_identity_payload f' v')"
  using stable_id_sorted_inj [OF assms(1) _ _ assms(2)] by simp

section \<open>Lemmas about the registry\<close>

lemma document_registry_new_Inr:
  "document_registry_new ds = Inr ds' \<longleftrightarrow> ds' = ds \<and> canonical dv_id ds"
proof -
  have "fst \<circ> (\<lambda>x :: document_version. (dv_id x, x)) = dv_id" by auto
  then show ?thesis
    unfolding document_registry_new_def canonical_keys_iff [symmetric]
    by (simp add: rbind_Inr_iff dedupe_loop_strict) metis
qed

interpretation documents: keyed_registry dv_id document_clash document_registry_new document_registry_create
  by unfold_locales
    (auto simp: document_clash_def document_registry_create_def document_registry_new_Inr)

lemma document_registry_create_iff:
  "document_registry_create ds = Inr ds' \<longleftrightarrow> canonical dv_id ds' \<and> set ds' = set ds"
  by (auto simp: documents.create_Inr_iff document_registry_new_Inr)

lemma document_registry_get_iff:
  assumes "canonical dv_id ds"
  shows "document_registry_get ds k = Inr d \<longleftrightarrow> d \<in> set ds \<and> dv_id d = k"
  using lookup_key_Some_iff [OF canonical_key_inj [OF assms]]
  by (simp add: document_registry_get_def registry_get_Inr)

section \<open>Properties\<close>

text \<open>
  A logical document identity binds family and version label: two documents that the constructor
  accepts under the same id agree on both, or their identity payloads are an explicit collision.
\<close>

theorem document_identity_binding:
  assumes "float_ok E" and "document_version_new E a = Inr a'" and "document_version_new E b = Inr b'"
    and "dv_id a' = dv_id b'"
  shows "dv_family a' = dv_family b' \<and> dv_version_label a' = dv_version_label b' \<or>
    hash_collision E
      (document_identity_payload (dv_family a') (dv_version_label a'))
      (document_identity_payload (dv_family b') (dv_version_label b'))"
proof (rule docv_id_inj [OF assms(1)])
  show "stable_content_id E ''docv'' (document_identity_payload (dv_family a') (dv_version_label a')) =
      stable_content_id E ''docv'' (document_identity_payload (dv_family b') (dv_version_label b'))"
    using document_version_new_id [OF assms(2)] document_version_new_id [OF assms(3)] assms(4) by metis
qed

text \<open>
  The document registry is a canonical set: \<open>create\<close> succeeds exactly when no two different
  bindings share an id, its value depends only on the set of its arguments, is strictly sorted by
  id, and \<open>get\<close> returns each member under its id and raises \<open>KeyError\<close> for every other key.
\<close>

theorem document_registry_create_get:
  "(\<exists>ds'. document_registry_create ds = Inr ds') = key_inj dv_id ds \<and>
   (\<forall>ds'. document_registry_create ds = Inr ds' \<longrightarrow>
      canonical dv_id ds' \<and> set ds' = set ds \<and>
      (\<forall>k. document_registry_get ds' k =
         (case lookup_key dv_id k ds of Some d \<Rightarrow> Inr d | None \<Rightarrow> Inl (KeyError k))) \<and>
      (\<forall>es. set es = set ds \<longrightarrow> document_registry_create es = Inr ds'))"
proof (intro conjI allI impI)
  show "(\<exists>ds'. document_registry_create ds = Inr ds') = key_inj dv_id ds"
  proof -
    have "document_registry_create ds = dedupe dv_id document_clash ds"
      using dedupe_Inr [OF documents.clash_None, of dv_id ds]
      by (cases "dedupe dv_id document_clash ds") (auto simp: documents.create_eq document_registry_new_Inr)
    then show ?thesis by (simp add: dedupe_total_iff [OF documents.clash_None])
  qed
next
  fix ds' assume c: "document_registry_create ds = Inr ds'"
  then show can: "canonical dv_id ds'" and set: "set ds' = set ds"
    by (simp_all add: document_registry_create_iff)
  from can have inj: "key_inj dv_id ds'" by (rule canonical_key_inj)
  with set have inj': "key_inj dv_id ds" by (simp add: key_inj_def)
  show "document_registry_get ds' k =
      (case lookup_key dv_id k ds of Some d \<Rightarrow> Inr d | None \<Rightarrow> Inl (KeyError k))" for k
    using lookup_key_cong [OF inj inj' set] by (simp add: document_registry_get_def registry_get_def split: option.splits)
  show "document_registry_create es = Inr ds'" if "set es = set ds" for es
    using documents.create_set_cong [of ds es ds'] that c by simp
qed

end
