(* ===== verification/Claims.thy ===== *)
theory Claims
  imports Documents
begin

text \<open>
  \<open>ClaimSourceReference\<close>, \<open>VersionedClaimRevision\<close>, \<open>ClaimRevisionRegistry\<close> and
  \<open>ComparableClaimPair\<close>: content-addressed claim revisions, their registry, and the direction-free
  pair of two revisions.
\<close>

section \<open>Source reference\<close>

record claim_source =
  cs_note_path :: string
  cs_note_sha256 :: string
  cs_claim_id :: string
  cs_evidence :: "evidence list"

definition claim_source_new :: "claim_source \<Rightarrow> claim_source result" where
  "claim_source_new s =
     rbind (safe_relative_path (cs_note_path s)) (\<lambda>path.
     guards
       [(sha256_pattern (cs_note_sha256 s), ValueError ''source_note_sha256''),
        (claim_id_pattern (cs_claim_id s), ValueError ''source_claim_id'')]
       (s\<lparr>cs_note_path := path\<rparr>))"

definition claim_source_revalidate :: "py_env \<Rightarrow> claim_source \<Rightarrow> claim_source result" where
  "claim_source_revalidate E s =
     rbind (rmap (evidence_revalidate E) (cs_evidence s)) (\<lambda>es. claim_source_new (s\<lparr>cs_evidence := es\<rparr>))"

definition claim_source_json :: "claim_source \<Rightarrow> json" where
  "claim_source_json s = JObj
     [(''evidence'', JArr (map evidence_json (cs_evidence s))),
      (''source_claim_id'', JStr (cs_claim_id s)),
      (''source_note_path'', JStr (cs_note_path s)),
      (''source_note_sha256'', JStr (cs_note_sha256 s))]"

definition claim_source_wf :: "py_env \<Rightarrow> claim_source \<Rightarrow> bool" where
  "claim_source_wf E s \<longleftrightarrow> claim_source_revalidate E s = Inr s"

section \<open>Claim revisions\<close>

record claim_revision =
  cr_identity_id :: string
  cr_revision_id :: string
  cr_document :: document_version
  cr_source :: claim_source
  cr_statement :: string
  cr_from :: date
  cr_to :: "date option"
  cr_scopes :: "string list"

definition claim_identity_payload :: "string \<Rightarrow> string \<Rightarrow> json" where
  "claim_identity_payload document_version_id local_key = JObj
     [(''document_version_id'', JStr document_version_id),
      (''local_key'', JStr local_key),
      (''namespace'', JStr ''mastervault.claim-identity.v1'')]"

definition revision_identity_payload ::
  "string \<Rightarrow> string \<Rightarrow> string list \<Rightarrow> date \<Rightarrow> date option \<Rightarrow> json" where
  "revision_identity_payload identity statement scopes from until = JObj
     [(''claim_identity_id'', JStr identity),
      (''declared_effective_from'', date_json from),
      (''declared_effective_to'', opt_json date_json until),
      (''namespace'', JStr ''mastervault.claim-revision.v1''),
      (''scopes'', JArr (map JStr scopes)),
      (''statement'', JStr statement)]"

definition starts_within :: "claim_revision \<Rightarrow> bool" where
  "starts_within r = (case dv_to (cr_document r) of None \<Rightarrow> True | Some d \<Rightarrow> cr_from r < d)"

definition fits_within :: "claim_revision \<Rightarrow> bool" where
  "fits_within r = (case dv_to (cr_document r) of None \<Rightarrow> True
     | Some d \<Rightarrow> (case cr_to r of None \<Rightarrow> False | Some c \<Rightarrow> c \<le> d))"

definition claim_revision_new :: "py_env \<Rightarrow> claim_revision \<Rightarrow> claim_revision result" where
  "claim_revision_new E r =
     rbind (guards
       [(content_id_pattern ''claim'' (cr_identity_id r), ValueError ''claim_identity_id''),
        (content_id_pattern ''claimrev'' (cr_revision_id r), ValueError ''claim_revision_id''),
        (8 \<le> length (cr_statement r), ValueError ''statement'')] ()) (\<lambda>_.
     rbind (require_normalized_text E (cr_statement r) ''statement'' 8) (\<lambda>_.
     rbind (guards [(cr_scopes r \<noteq> [], ValueError ''scopes'')] ()) (\<lambda>_.
     rbind (rmap (normalize_logical_key E) (cr_scopes r)) (\<lambda>normalized.
     guards
       [(cr_scopes r = normalized \<and> cr_scopes r = sorted_set (cr_scopes r),
           ValueError ''claim scopes must be normalized, sorted, and unique''),
        (closes_after (cr_to r) (cr_from r),
           ValueError ''claim declared_effective_to must follow declared_effective_from''),
        (dv_from (cr_document r) \<le> cr_from r,
           ValueError ''claim cannot become effective before its document version''),
        (starts_within r, ValueError ''claim cannot start after its document version ends''),
        (fits_within r, ValueError ''claim declared interval must fit its closed document version''),
        (cr_identity_id r = stable_content_id E ''claim''
             (claim_identity_payload (dv_id (cr_document r)) (cs_claim_id (cr_source r))),
           ValueError ''claim_identity_id does not match document/local-key identity''),
        (cr_revision_id r = stable_content_id E ''claimrev''
             (revision_identity_payload (cr_identity_id r) (cr_statement r) (cr_scopes r)
                (cr_from r) (cr_to r)),
           ValueError ''claim_revision_id does not match semantic revision identity'')]
       r))))"

definition claim_revision_create ::
  "py_env \<Rightarrow> document_version \<Rightarrow> claim_source \<Rightarrow> string \<Rightarrow> date \<Rightarrow> date option \<Rightarrow> string list \<Rightarrow>
     claim_revision result" where
  "claim_revision_create E document source statement from until scopes =
     rbind (canonical_semantic_input E statement ''statement'' 8) (\<lambda>canonical_statement.
     rbind (rmap (normalize_logical_key E) scopes) (\<lambda>keys.
     let canonical_scopes = sorted_set keys;
         identity = stable_content_id E ''claim''
           (claim_identity_payload (dv_id document) (cs_claim_id source))
     in claim_revision_new E
          \<lparr>cr_identity_id = identity,
           cr_revision_id = stable_content_id E ''claimrev''
             (revision_identity_payload identity canonical_statement canonical_scopes from until),
           cr_document = document, cr_source = source, cr_statement = canonical_statement,
           cr_from = from, cr_to = until, cr_scopes = canonical_scopes\<rparr>))"

definition claim_revision_revalidate :: "py_env \<Rightarrow> claim_revision \<Rightarrow> claim_revision result" where
  "claim_revision_revalidate E r =
     rbind (document_version_new E (cr_document r)) (\<lambda>d.
     rbind (claim_source_revalidate E (cr_source r)) (\<lambda>s.
     claim_revision_new E (r\<lparr>cr_document := d, cr_source := s\<rparr>)))"

definition claim_revision_json :: "claim_revision \<Rightarrow> json" where
  "claim_revision_json r = JObj
     [(''claim_identity_id'', JStr (cr_identity_id r)),
      (''claim_revision_id'', JStr (cr_revision_id r)),
      (''declared_effective_from'', date_json (cr_from r)),
      (''declared_effective_to'', opt_json date_json (cr_to r)),
      (''document'', document_version_json (cr_document r)),
      (''identity_namespace'', JStr ''mastervault.claim-identity.v1''),
      (''revision_namespace'', JStr ''mastervault.claim-revision.v1''),
      (''scopes'', JArr (map JStr (cr_scopes r))),
      (''source'', claim_source_json (cr_source r)),
      (''statement'', JStr (cr_statement r))]"

definition claim_revision_wf :: "py_env \<Rightarrow> claim_revision \<Rightarrow> bool" where
  "claim_revision_wf E r \<longleftrightarrow> claim_revision_revalidate E r = Inr r"

text \<open>\<open>_require_consistent_claim_bindings\<close>\<close>

definition require_consistent_claim_bindings :: "claim_revision list \<Rightarrow> bool" where
  "require_consistent_claim_bindings revisions \<longleftrightarrow>
     consistent_loop cr_revision_id [] revisions \<and>
     require_consistent_document_bindings (map cr_document revisions)"

section \<open>The claim registry\<close>

definition claim_registry_new :: "claim_revision list \<Rightarrow> claim_revision list result" where
  "claim_registry_new revisions = guards
     [(require_consistent_claim_bindings revisions,
         ValueError ''claim revision registry embeds conflicting bindings''),
      (distinct (map cr_revision_id revisions),
         ValueError ''claim registry requires one binding per claim_revision_id''),
      (map cr_revision_id revisions = sort (map cr_revision_id revisions),
         ValueError ''claim revisions must use canonical claim_revision_id order'')]
     revisions"

definition binding_clash :: "string \<Rightarrow> 'a \<Rightarrow> 'a \<Rightarrow> py_error option" where
  "binding_clash message previous x = (if previous \<noteq> x then Some (ValueError message) else None)"

definition claim_registry_create :: "claim_revision list \<Rightarrow> claim_revision list result" where
  "claim_registry_create revisions =
     rbind (dedupe cr_revision_id
       (binding_clash ''semantic claim revision has multiple source bindings'') revisions)
       claim_registry_new"

definition claim_registry_get :: "claim_revision list \<Rightarrow> string \<Rightarrow> claim_revision result" where
  "claim_registry_get revisions claim_revision_id = registry_get cr_revision_id revisions claim_revision_id"

definition claim_registry_revalidate :: "py_env \<Rightarrow> claim_revision list \<Rightarrow> claim_revision list result" where
  "claim_registry_revalidate E revisions =
     rbind (rmap (claim_revision_revalidate E) revisions) claim_registry_new"

section \<open>Comparable pairs\<close>

record claim_pair =
  cp_id :: string
  cp_first :: claim_revision
  cp_second :: claim_revision
  cp_shared_scopes :: "string list"

definition pair_identity_payload :: "string \<Rightarrow> string \<Rightarrow> json" where
  "pair_identity_payload a b = JObj
     [(''claim_revision_ids'', JArr [JStr a, JStr b]),
      (''namespace'', JStr ''mastervault.claim-pair.v1'')]"

definition scope_intersection :: "claim_revision \<Rightarrow> claim_revision \<Rightarrow> string list" where
  "scope_intersection a b = sorted_set (filter (\<lambda>s. s \<in> set (cr_scopes b)) (cr_scopes a))"

definition claim_pair_new :: "py_env \<Rightarrow> claim_pair \<Rightarrow> claim_pair result" where
  "claim_pair_new E p =
     (let a = cr_revision_id (cp_first p); b = cr_revision_id (cp_second p)
      in guards
       [(content_id_pattern ''pair'' (cp_id p), ValueError ''pair_id''),
        (a \<noteq> b, ValueError ''a comparable pair requires two distinct claim revisions''),
        (a \<le> b, ValueError ''claim pair endpoints must use canonical ID order''),
        (cp_shared_scopes p = scope_intersection (cp_first p) (cp_second p),
           ValueError ''shared_scopes must equal the endpoint scope intersection''),
        (cp_id p = stable_content_id E ''pair'' (pair_identity_payload a b),
           ValueError ''pair_id does not match its endpoint-only identity'')]
       p)"

definition claim_pair_create :: "py_env \<Rightarrow> claim_revision \<Rightarrow> claim_revision \<Rightarrow> claim_pair result" where
  "claim_pair_create E first second =
     (let (a, b) = (if cr_revision_id second < cr_revision_id first then (second, first) else (first, second))
      in rbind (guards
           [(cr_revision_id a \<noteq> cr_revision_id b,
               ValueError ''a comparable pair requires two distinct claim revisions'')] ()) (\<lambda>_.
         claim_pair_new E
           \<lparr>cp_id = stable_content_id E ''pair''
              (pair_identity_payload (cr_revision_id a) (cr_revision_id b)),
            cp_first = a, cp_second = b, cp_shared_scopes = scope_intersection a b\<rparr>))"

definition pair_revisions :: "claim_pair \<Rightarrow> claim_revision list" where
  "pair_revisions p = [cp_first p, cp_second p]"

definition pair_revision :: "claim_pair \<Rightarrow> string \<Rightarrow> claim_revision result" where
  "pair_revision p revision_id =
     (case lookup_key cr_revision_id revision_id (pair_revisions p) of
        Some r \<Rightarrow> Inr r
      | None \<Rightarrow> Inl (ValueError ''claim revision is not an endpoint''))"

definition claim_pair_revalidate :: "py_env \<Rightarrow> claim_pair \<Rightarrow> claim_pair result" where
  "claim_pair_revalidate E p =
     rbind (claim_revision_revalidate E (cp_first p)) (\<lambda>a.
     rbind (claim_revision_revalidate E (cp_second p)) (\<lambda>b.
     claim_pair_new E (p\<lparr>cp_first := a, cp_second := b\<rparr>)))"

definition claim_pair_json :: "claim_pair \<Rightarrow> json" where
  "claim_pair_json p = JObj
     [(''claim_revisions'', JArr [claim_revision_json (cp_first p), claim_revision_json (cp_second p)]),
      (''identity_namespace'', JStr ''mastervault.claim-pair.v1''),
      (''pair_id'', JStr (cp_id p)),
      (''shared_scopes'', JArr (map JStr (cp_shared_scopes p)))]"

definition claim_pair_wf :: "py_env \<Rightarrow> claim_pair \<Rightarrow> bool" where
  "claim_pair_wf E p \<longleftrightarrow> claim_pair_revalidate E p = Inr p"

section \<open>JSON views\<close>

lemma map_inj_eq: "(\<And>x y. f x = f y \<longleftrightarrow> x = y) \<Longrightarrow> map f xs = map f ys \<longleftrightarrow> xs = ys"
  by (simp add: inj_map_eq_map inj_def)

lemma map_json_inj [simp]:
  "map JStr xs = map JStr ys \<longleftrightarrow> xs = ys"
  "map evidence_json es = map evidence_json fs \<longleftrightarrow> es = fs"
  by (rule map_inj_eq, simp)+

lemma list_all_json_sorted [simp]:
  "list_all json_sorted (map JStr xs)" "list_all json_sorted (map evidence_json es)"
  by (simp_all add: list_all_iff)

lemma claim_source_json_inj [simp]: "claim_source_json a = claim_source_json b \<longleftrightarrow> a = b"
  by (auto simp: claim_source_json_def)

lemma claim_source_json_sorted [simp]: "json_sorted (claim_source_json s)"
  unfolding claim_source_json_def by (rule json_sorted_obj) (simp_all, code_simp?)

lemma claim_revision_json_inj [simp]: "claim_revision_json a = claim_revision_json b \<longleftrightarrow> a = b"
  by (auto simp: claim_revision_json_def)

lemma claim_revision_json_sorted [simp]: "json_sorted (claim_revision_json r)"
  unfolding claim_revision_json_def by (rule json_sorted_obj) (simp_all, code_simp?)

lemma claim_pair_json_inj [simp]: "claim_pair_json a = claim_pair_json b \<longleftrightarrow> a = b"
  by (auto simp: claim_pair_json_def)

lemma claim_pair_json_sorted [simp]: "json_sorted (claim_pair_json p)"
  unfolding claim_pair_json_def by (rule json_sorted_obj) (simp_all, code_simp?)

lemma claim_payloads_inj [simp]:
  "claim_identity_payload d k = claim_identity_payload d' k' \<longleftrightarrow> d = d' \<and> k = k'"
  "revision_identity_payload i s c f t = revision_identity_payload i' s' c' f' t' \<longleftrightarrow>
     i = i' \<and> s = s' \<and> c = c' \<and> f = f' \<and> t = t'"
  "pair_identity_payload a b = pair_identity_payload a' b' \<longleftrightarrow> a = a' \<and> b = b'"
  by (auto simp: claim_identity_payload_def revision_identity_payload_def pair_identity_payload_def)

lemma claim_identity_payload_sorted [simp]: "json_sorted (claim_identity_payload d k)"
  unfolding claim_identity_payload_def by (rule json_sorted_obj) (simp_all, code_simp?)

lemma revision_identity_payload_sorted [simp]: "json_sorted (revision_identity_payload i s c f t)"
  unfolding revision_identity_payload_def by (rule json_sorted_obj) (simp_all, code_simp?)

lemma pair_identity_payload_sorted [simp]: "json_sorted (pair_identity_payload a b)"
  unfolding pair_identity_payload_def by (rule json_sorted_obj) (simp_all, code_simp?)

section \<open>Lemmas about sources and revisions\<close>

lemma require_normalized_text_Inr:
  "require_normalized_text E v l n = Inr w \<longleftrightarrow> w = v \<and> normalize_semantic_text E v = v \<and> n \<le> length v"
  by (auto simp: require_normalized_text_def Let_def)

lemma canonical_semantic_input_Inr:
  "canonical_semantic_input E v l n = Inr w \<longleftrightarrow>
     w = normalize_semantic_text E v \<and> v = join '' '' (words_of v) \<and> n \<le> length w"
  by (auto simp: canonical_semantic_input_def Let_def)

lemma claim_source_new_Inr_iff:
  "claim_source_new s = Inr s' \<longleftrightarrow>
     (\<exists>path. safe_relative_path (cs_note_path s) = Inr path \<and> s' = s\<lparr>cs_note_path := path\<rparr>) \<and>
     sha256_pattern (cs_note_sha256 s) \<and> claim_id_pattern (cs_claim_id s)"
  unfolding claim_source_new_def by (auto simp: rbind_Inr_iff)

lemma claim_source_revalidate_Inr:
  "claim_source_revalidate E s = Inr s' \<longleftrightarrow>
     rmap (evidence_revalidate E) (cs_evidence s) = Inr (cs_evidence s) \<and> claim_source_new s = Inr s'"
  by (auto simp: claim_source_revalidate_def rbind_Inr_iff dest: evidence_list_revalidate_Inr)

lemma claim_source_wf_iff:
  "claim_source_wf E s \<longleftrightarrow>
     rmap (evidence_revalidate E) (cs_evidence s) = Inr (cs_evidence s) \<and>
     safe_relative_path (cs_note_path s) = Inr (cs_note_path s) \<and>
     sha256_pattern (cs_note_sha256 s) \<and> claim_id_pattern (cs_claim_id s)"
proof -
  have "s = s\<lparr>cs_note_path := p\<rparr> \<longleftrightarrow> p = cs_note_path s" for p
    by (cases s) auto
  then show ?thesis
    unfolding claim_source_wf_def claim_source_revalidate_Inr claim_source_new_Inr_iff by auto
qed

lemma claim_revision_new_Inr_iff:
  "claim_revision_new E r = Inr r' \<longleftrightarrow> r' = r \<and>
     content_id_pattern ''claim'' (cr_identity_id r) \<and>
     content_id_pattern ''claimrev'' (cr_revision_id r) \<and>
     normalize_semantic_text E (cr_statement r) = cr_statement r \<and> 8 \<le> length (cr_statement r) \<and>
     cr_scopes r \<noteq> [] \<and> rmap (normalize_logical_key E) (cr_scopes r) = Inr (cr_scopes r) \<and>
     sorted (cr_scopes r) \<and> distinct (cr_scopes r) \<and>
     closes_after (cr_to r) (cr_from r) \<and> dv_from (cr_document r) \<le> cr_from r \<and>
     starts_within r \<and> fits_within r \<and>
     cr_identity_id r = stable_content_id E ''claim''
        (claim_identity_payload (dv_id (cr_document r)) (cs_claim_id (cr_source r))) \<and>
     cr_revision_id r = stable_content_id E ''claimrev''
        (revision_identity_payload (cr_identity_id r) (cr_statement r) (cr_scopes r) (cr_from r) (cr_to r))"
  unfolding claim_revision_new_def
  by (simp add: rbind_Inr_iff require_normalized_text_Inr sorted_set_id_iff cong: conj_cong) blast

lemma claim_revision_new_Inr: "claim_revision_new E r = Inr r' \<Longrightarrow> r' = r"
  by (simp add: claim_revision_new_Inr_iff)

lemma claim_revision_wf_iff:
  "claim_revision_wf E r \<longleftrightarrow>
     document_version_wf E (cr_document r) \<and> claim_source_wf E (cr_source r) \<and>
     claim_revision_new E r = Inr r"
proof -
  have id: "r\<lparr>cr_document := d, cr_source := s\<rparr> = r \<longleftrightarrow> d = cr_document r \<and> s = cr_source r" for d s
    by (cases r) auto
  have "claim_revision_wf E r \<longleftrightarrow> (\<exists>d s. document_version_new E (cr_document r) = Inr d \<and>
      claim_source_revalidate E (cr_source r) = Inr s \<and>
      claim_revision_new E (r\<lparr>cr_document := d, cr_source := s\<rparr>) = Inr r)"
    by (simp add: claim_revision_wf_def claim_revision_revalidate_def rbind_Inr_iff)
  also have "\<dots> \<longleftrightarrow> document_version_wf E (cr_document r) \<and> claim_source_wf E (cr_source r) \<and>
      claim_revision_new E r = Inr r"
    using id unfolding document_version_wf_def claim_source_wf_def
    by (metis claim_revision_new_Inr)
  finally show ?thesis .
qed

text \<open>
  A revision that its constructor accepts carries its identity: equal revision ids mean equal
  semantics, or one of three explicit collisions.
\<close>

definition claim_identity_payload_of :: "claim_revision \<Rightarrow> json" where
  "claim_identity_payload_of r = claim_identity_payload (dv_id (cr_document r)) (cs_claim_id (cr_source r))"

definition revision_identity_payload_of :: "claim_revision \<Rightarrow> json" where
  "revision_identity_payload_of r = revision_identity_payload (cr_identity_id r) (cr_statement r)
     (cr_scopes r) (cr_from r) (cr_to r)"

lemma claim_revision_new_ids:
  assumes "claim_revision_new E r = Inr r'"
  shows "cr_identity_id r = stable_content_id E ''claim'' (claim_identity_payload_of r)"
    and "cr_revision_id r = stable_content_id E ''claimrev'' (revision_identity_payload_of r)"
  using assms unfolding claim_revision_new_Inr_iff claim_identity_payload_of_def
    revision_identity_payload_of_def by blast+

lemma claim_revision_id_inj:
  assumes "float_ok E" and "claim_revision_new E a = Inr a'" and "claim_revision_new E b = Inr b'"
    and "cr_revision_id a = cr_revision_id b"
  shows "revision_identity_payload_of a = revision_identity_payload_of b \<or>
    hash_collision E (revision_identity_payload_of a) (revision_identity_payload_of b)"
proof (rule stable_id_sorted_inj [OF assms(1)])
  show "stable_content_id E ''claimrev'' (revision_identity_payload_of a) =
      stable_content_id E ''claimrev'' (revision_identity_payload_of b)"
    using claim_revision_new_ids(2) [OF assms(2)] claim_revision_new_ids(2) [OF assms(3)] assms(4)
    by metis
qed (simp_all add: revision_identity_payload_of_def)

lemma claim_identity_id_inj:
  assumes "float_ok E" and "claim_revision_new E a = Inr a'" and "claim_revision_new E b = Inr b'"
    and "cr_identity_id a = cr_identity_id b"
  shows "claim_identity_payload_of a = claim_identity_payload_of b \<or>
    hash_collision E (claim_identity_payload_of a) (claim_identity_payload_of b)"
proof (rule stable_id_sorted_inj [OF assms(1)])
  show "stable_content_id E ''claim'' (claim_identity_payload_of a) =
      stable_content_id E ''claim'' (claim_identity_payload_of b)"
    using claim_revision_new_ids(1) [OF assms(2)] claim_revision_new_ids(1) [OF assms(3)] assms(4)
    by metis
qed (simp_all add: claim_identity_payload_of_def)

lemma claim_revision_create_Inr:
  assumes "claim_revision_create E d s statement from until scopes = Inr r"
  shows "claim_revision_new E r = Inr r \<and> cr_document r = d \<and> cr_source r = s \<and>
    cr_statement r = normalize_semantic_text E statement \<and> cr_from r = from \<and> cr_to r = until"
  using assms unfolding claim_revision_create_def
  by (auto simp: rbind_Inr_iff Let_def canonical_semantic_input_Inr dest: claim_revision_new_Inr)

section \<open>Lemmas about the registry and pairs\<close>

lemma require_consistent_claim_bindings_iff:
  "require_consistent_claim_bindings rs \<longleftrightarrow>
     key_inj cr_revision_id rs \<and> key_inj dv_id (map cr_document rs)"
  by (simp add: require_consistent_claim_bindings_def consistent_loop_key_inj
      require_consistent_document_bindings_iff)

lemma binding_clash_None [simp]: "binding_clash m a b = None \<longleftrightarrow> a = b"
  by (simp add: binding_clash_def)

lemma claim_registry_new_Inr:
  "claim_registry_new rs = Inr rs' \<longleftrightarrow>
     rs' = rs \<and> canonical cr_revision_id rs \<and> key_inj dv_id (map cr_document rs)"
  using canonical_keys_iff [of cr_revision_id rs] canonical_key_inj [of cr_revision_id rs]
  by (auto simp: claim_registry_new_def require_consistent_claim_bindings_iff)

interpretation claims: keyed_registry cr_revision_id
  "binding_clash ''semantic claim revision has multiple source bindings''"
  claim_registry_new claim_registry_create
  by unfold_locales (auto simp: claim_registry_create_def claim_registry_new_Inr)

lemma claim_pair_new_Inr_iff:
  "claim_pair_new E p = Inr p' \<longleftrightarrow> p' = p \<and> content_id_pattern ''pair'' (cp_id p) \<and>
     cr_revision_id (cp_first p) < cr_revision_id (cp_second p) \<and>
     cp_shared_scopes p = scope_intersection (cp_first p) (cp_second p) \<and>
     cp_id p = stable_content_id E ''pair''
       (pair_identity_payload (cr_revision_id (cp_first p)) (cr_revision_id (cp_second p)))"
  by (auto simp: claim_pair_new_def Let_def)

lemma claim_pair_new_Inr: "claim_pair_new E p = Inr p' \<Longrightarrow> p' = p"
  by (simp add: claim_pair_new_Inr_iff)

lemma claim_pair_wf_iff:
  "claim_pair_wf E p \<longleftrightarrow>
     claim_revision_wf E (cp_first p) \<and> claim_revision_wf E (cp_second p) \<and> claim_pair_new E p = Inr p"
proof -
  have id: "p\<lparr>cp_first := a, cp_second := b\<rparr> = p \<longleftrightarrow> a = cp_first p \<and> b = cp_second p" for a b
    by (cases p) auto
  have "claim_pair_wf E p \<longleftrightarrow> (\<exists>a b. claim_revision_revalidate E (cp_first p) = Inr a \<and>
      claim_revision_revalidate E (cp_second p) = Inr b \<and>
      claim_pair_new E (p\<lparr>cp_first := a, cp_second := b\<rparr>) = Inr p)"
    by (simp add: claim_pair_wf_def claim_pair_revalidate_def rbind_Inr_iff)
  then show ?thesis
    using id unfolding claim_revision_wf_def by (metis claim_pair_new_Inr)
qed

lemma pair_revision_Inr:
  assumes "cr_revision_id (cp_first p) \<noteq> cr_revision_id (cp_second p)"
  shows "pair_revision p k = Inr r \<longleftrightarrow> r \<in> {cp_first p, cp_second p} \<and> cr_revision_id r = k"
  using assms
  by (auto simp: pair_revision_def pair_revisions_def lookup_key_def split: if_splits)

lemma claim_pair_create_sym:
  assumes "cr_revision_id a \<noteq> cr_revision_id b"
  shows "claim_pair_create E a b = claim_pair_create E b a"
  using assms by (auto simp: claim_pair_create_def)

lemma claim_pair_create_Inr:
  assumes "claim_pair_create E a b = Inr p"
  shows "claim_pair_new E p = Inr p \<and> {cp_first p, cp_second p} = {a, b}"
  using assms unfolding claim_pair_create_def
  by (auto simp: rbind_Inr_iff Let_def split: if_splits dest: claim_pair_new_Inr)

section \<open>Properties\<close>

text \<open>
  A claim revision id binds the semantic content down to the document: two revisions that the
  constructor accepts under one id have the same statement, scopes and interval and the same
  claim identity, hence the same document id and local key, or one of the two identity payloads
  is an explicit collision.
\<close>

theorem claim_revision_binding:
  assumes E: "float_ok E" and a: "claim_revision_new E a = Inr a'" and b: "claim_revision_new E b = Inr b'"
    and id: "cr_revision_id a = cr_revision_id b"
  shows "cr_statement a = cr_statement b \<and> cr_scopes a = cr_scopes b \<and> cr_from a = cr_from b \<and>
      cr_to a = cr_to b \<and> dv_id (cr_document a) = dv_id (cr_document b) \<and>
      cs_claim_id (cr_source a) = cs_claim_id (cr_source b) \<or>
    hash_collision E (revision_identity_payload_of a) (revision_identity_payload_of b) \<or>
    hash_collision E (claim_identity_payload_of a) (claim_identity_payload_of b)"
proof (cases "revision_identity_payload_of a = revision_identity_payload_of b")
  case True
  then have "cr_identity_id a = cr_identity_id b" and rest: "cr_statement a = cr_statement b"
    "cr_scopes a = cr_scopes b" "cr_from a = cr_from b" "cr_to a = cr_to b"
    by (simp_all add: revision_identity_payload_of_def)
  with claim_identity_id_inj [OF E a b] show ?thesis
    by (auto simp: claim_identity_payload_of_def)
next
  case False
  with claim_revision_id_inj [OF E a b id] show ?thesis by simp
qed

text \<open>
  \<open>VersionedClaimRevision.create\<close> on a well-formed document and source returns a revision that
  survives \<open>model_validate(model_dump())\<close> unchanged; its scopes are the normalised argument scopes,
  sorted and without duplicates, so their order and repetition do not matter.
\<close>

theorem claim_revision_create_wf:
  assumes "document_version_wf E d" and "claim_source_wf E s"
    and "claim_revision_create E d s statement from until scopes = Inr r"
  shows "claim_revision_wf E r \<and> cr_document r = d \<and> cr_source r = s \<and>
    cr_statement r = normalize_semantic_text E statement \<and>
    (\<exists>keys. rmap (normalize_logical_key E) scopes = Inr keys \<and> cr_scopes r = sorted_set keys) \<and>
    (\<forall>scopes'. set scopes' = set scopes \<longrightarrow>
       claim_revision_create E d s statement from until scopes' = Inr r)"
proof -
  from assms(3) obtain keys where keys: "rmap (normalize_logical_key E) scopes = Inr keys"
    by (auto simp: claim_revision_create_def rbind_Inr_iff)
  have r: "claim_revision_new E r = Inr r" "cr_document r = d" "cr_source r = s"
    "cr_statement r = normalize_semantic_text E statement" "cr_scopes r = sorted_set keys"
    using assms(3) keys
    by (auto simp: claim_revision_create_def rbind_Inr_iff Let_def canonical_semantic_input_Inr
        dest: claim_revision_new_Inr)
  moreover have "claim_revision_create E d s statement from until scopes' = Inr r"
    if eq: "set scopes' = set scopes" for scopes'
  proof -
    obtain keys' where keys': "rmap (normalize_logical_key E) scopes' = Inr keys'" "set keys' = set keys"
      using rmap_set_cong [OF eq [symmetric] keys] by auto
    have "sorted_set keys' = sorted_set keys" using keys'(2) by (rule sorted_set_cong)
    with keys keys'(1) assms(3) show ?thesis by (simp add: claim_revision_create_def)
  qed
  ultimately show ?thesis
    using assms(1,2) keys by (simp add: claim_revision_wf_iff)
qed

text \<open>
  A comparable pair is direction-free: \<open>create\<close> gives the same result for both argument orders,
  and a pair it returns holds both revisions in strictly increasing id order, with exactly their
  common scopes, and resolves each endpoint id to its revision.
\<close>

theorem claim_pair_direction_free:
  assumes "cr_revision_id a \<noteq> cr_revision_id b"
  shows "claim_pair_create E a b = claim_pair_create E b a \<and>
    (\<forall>p. claim_pair_create E a b = Inr p \<longrightarrow>
       {cp_first p, cp_second p} = {a, b} \<and> cr_revision_id (cp_first p) < cr_revision_id (cp_second p) \<and>
       set (cp_shared_scopes p) = set (cr_scopes a) \<inter> set (cr_scopes b) \<and>
       pair_revision p (cr_revision_id a) = Inr a \<and> pair_revision p (cr_revision_id b) = Inr b)"
proof (intro conjI allI impI)
  show "claim_pair_create E a b = claim_pair_create E b a"
    using assms by (rule claim_pair_create_sym)
next
  fix p assume p: "claim_pair_create E a b = Inr p"
  from claim_pair_create_Inr [OF this] have new: "claim_pair_new E p = Inr p"
    and ends: "{cp_first p, cp_second p} = {a, b}" by auto
  from new have less: "cr_revision_id (cp_first p) < cr_revision_id (cp_second p)"
    and scopes: "cp_shared_scopes p = scope_intersection (cp_first p) (cp_second p)"
    by (simp_all add: claim_pair_new_Inr_iff)
  show "{cp_first p, cp_second p} = {a, b}" by (rule ends)
  show "cr_revision_id (cp_first p) < cr_revision_id (cp_second p)" by (rule less)
  show "set (cp_shared_scopes p) = set (cr_scopes a) \<inter> set (cr_scopes b)"
    using ends by (auto simp: scopes scope_intersection_def doubleton_eq_iff)
  have "a \<in> {cp_first p, cp_second p}" "b \<in> {cp_first p, cp_second p}"
    using ends by auto
  then show "pair_revision p (cr_revision_id a) = Inr a" "pair_revision p (cr_revision_id b) = Inr b"
    using less by (simp_all add: pair_revision_Inr)
qed

end
