(* ===== verification/Digraph.thy ===== *)
theory Digraph
  imports Prelude
begin

text \<open>
  The depth-first cycle check that \<open>RelationGraph._graph_integrity\<close> and
  \<open>DocumentReplacementSet._integrity\<close> both contain: \<open>edges\<close> is built with
  \<open>setdefault(..).add(..)\<close>, \<open>visit\<close> keeps the sets \<open>visiting\<close> and \<open>visited\<close>.

  The dictionary and its sets are lists in insertion order.  \<open>acyclic_check_iff\<close> shows that the
  outcome depends only on the set of edges, so Python's iteration order over a set is immaterial.
\<close>

type_synonym adjacency = "(string \<times> string list) list"

text \<open>\<open>edges.setdefault(newer, set()).add(older)\<close>\<close>

fun add_edge :: "adjacency \<Rightarrow> string \<times> string \<Rightarrow> adjacency" where
  "add_edge [] (newer, older) = [(newer, [older])]"
| "add_edge ((k, ts) # es) (newer, older) =
     (if k = newer then (k, if older \<in> set ts then ts else ts @ [older]) # es
      else (k, ts) # add_edge es (newer, older))"

definition edge_map :: "(string \<times> string) list \<Rightarrow> adjacency" where
  "edge_map ps = foldl add_edge [] ps"

definition targets :: "adjacency \<Rightarrow> string \<Rightarrow> string list" where
  "targets es n = (case map_of es n of None \<Rightarrow> [] | Some ts \<Rightarrow> ts)"

text \<open>
  \<open>for node in nodes: visit(node)\<close>.  \<open>None\<close> is the exception; otherwise the value is \<open>visited\<close>
  after the loop.  The nodes on the stack are \<open>visiting\<close>.
\<close>

function visit_all :: "adjacency \<Rightarrow> string list \<Rightarrow> string list \<Rightarrow> string list \<Rightarrow> string list option" where
  "visit_all es visiting visited [] = Some visited"
| "visit_all es visiting visited (n # ns) =
     (if n \<in> set visiting then None
      else if n \<in> set visited then visit_all es visiting visited ns
      else (case visit_all es (n # visiting) visited (targets es n) of
              None \<Rightarrow> None
            | Some visited' \<Rightarrow> visit_all es visiting (n # visited') ns))"
  by pat_completeness auto

definition open_keys :: "adjacency \<Rightarrow> string list \<Rightarrow> nat" where
  "open_keys es visiting = card (fst ` set es - set visiting)"

lemma open_keys_visit:
  assumes "n \<notin> set visiting"
  shows "open_keys es (n # visiting) < open_keys es visiting \<or>
    open_keys es (n # visiting) = open_keys es visiting \<and> targets es n = []"
proof (cases "n \<in> fst ` set es")
  case True
  then have "fst ` set es - set (n # visiting) \<subset> fst ` set es - set visiting"
    using assms by auto
  then have "open_keys es (n # visiting) < open_keys es visiting"
    unfolding open_keys_def by (intro psubset_card_mono) auto
  then show ?thesis ..
next
  case False
  then have "targets es n = []" by (simp add: targets_def map_of_eq_None_iff [THEN iffD2])
  moreover from False have "fst ` set es - set (n # visiting) = fst ` set es - set visiting" by auto
  ultimately show ?thesis by (simp add: open_keys_def)
qed

termination visit_all
proof (relation "measures [\<lambda>(es, visiting, visited, ns). open_keys es visiting,
    \<lambda>(es, visiting, visited, ns). length ns]", goal_cases)
  case (3 es visiting visited n ns)
  then show ?case using open_keys_visit [of n visiting es] by auto
qed auto

definition acyclic_check :: "(string \<times> string) list \<Rightarrow> bool" where
  "acyclic_check ps = (let es = edge_map ps in visit_all es [] [] (map fst es) \<noteq> None)"

definition adj_rel :: "adjacency \<Rightarrow> (string \<times> string) set" where
  "adj_rel es = {(a, b). b \<in> set (targets es a)}"

lemma targets_Nil: "targets [] a = []"
  by (simp add: targets_def)

lemma targets_Cons: "targets ((k, ts) # es) a = (if k = a then ts else targets es a)"
  by (simp add: targets_def)

lemma targets_add_edge:
  "set (targets (add_edge es e) a) = set (targets es a) \<union> (if a = fst e then {snd e} else {})"
proof (induction es)
  case Nil
  show ?case by (cases e) (simp add: targets_Nil targets_Cons)
next
  case (Cons x es)
  obtain k ts newer older where "x = (k, ts)" "e = (newer, older)" by (metis surj_pair)
  with Cons show ?case
    by (cases "k = newer"; cases "k = a") (simp_all add: targets_Cons insert_absorb)
qed

lemma adj_rel_edge_map: "adj_rel (edge_map ps) = set ps"
proof -
  have "adj_rel (foldl add_edge es ps) = adj_rel es \<union> set ps" for es
  proof (induction ps arbitrary: es)
    case (Cons e ps)
    have "adj_rel (add_edge es e) = insert e (adj_rel es)"
      by (cases e) (auto simp: adj_rel_def targets_add_edge split: if_splits)
    with Cons show ?case by simp
  qed simp
  moreover have "adj_rel [] = {}" by (simp add: adj_rel_def targets_def)
  ultimately show ?thesis by (simp add: edge_map_def)
qed

lemma adj_rel_keys: "(a, b) \<in> adj_rel es \<Longrightarrow> a \<in> fst ` set es"
  by (cases "map_of es a") (auto simp: adj_rel_def targets_def dest!: map_of_SomeD intro: rev_image_eqI)

definition settled :: "(string \<times> string) set \<Rightarrow> string set \<Rightarrow> bool" where
  "settled r V \<longleftrightarrow> r `` V \<subseteq> V \<and> (\<forall>v \<in> V. (v, v) \<notin> r\<^sup>+)"

lemma settled_insert:
  assumes "settled r V" and "n \<notin> V" and "r `` {n} \<subseteq> V"
  shows "settled r (insert n V)"
proof -
  have "(n, m) \<in> r\<^sup>+ \<Longrightarrow> m \<in> V" for m
    by (induction rule: trancl_induct) (use assms in \<open>auto simp: settled_def\<close>)
  with assms show ?thesis by (auto simp: settled_def)
qed

lemma visit_all_settled:
  assumes "visit_all es visiting visited ns = Some visited'"
    and "settled (adj_rel es) (set visited)" and "set visiting \<inter> set visited = {}"
  shows "settled (adj_rel es) (set visited') \<and> set visiting \<inter> set visited' = {} \<and>
    set visited \<union> set ns \<subseteq> set visited'"
  using assms
proof (induction es visiting visited ns arbitrary: visited' rule: visit_all.induct)
  case (2 es visiting visited n ns)
  show ?case
  proof (cases "n \<in> set visited")
    case True
    with 2 show ?thesis by (auto split: if_splits)
  next
    case False
    with "2.prems"(1) obtain v where n: "n \<notin> set visiting"
      and v: "visit_all es (n # visiting) visited (targets es n) = Some v"
      and rest: "visit_all es visiting (n # v) ns = Some visited'"
      by (auto split: if_splits option.splits)
    have inner: "settled (adj_rel es) (set v) \<and> set (n # visiting) \<inter> set v = {} \<and>
        set visited \<union> set (targets es n) \<subseteq> set v"
      by (rule "2.IH"(2) [OF n False v "2.prems"(2)]) (use "2.prems"(3) False in auto)
    have "settled (adj_rel es) (insert n (set v))"
      using inner by (intro settled_insert) (auto simp: adj_rel_def)
    with "2.IH"(3) [OF n False v rest] inner n show ?thesis by auto
  qed
qed simp

lemma visit_all_cycle:
  assumes "visit_all es visiting visited ns = None"
    and "\<And>v n. v \<in> set visiting \<Longrightarrow> n \<in> set ns \<Longrightarrow> (v, n) \<in> (adj_rel es)\<^sup>+"
  shows "\<exists>c. (c, c) \<in> (adj_rel es)\<^sup>+"
  using assms
proof (induction es visiting visited ns rule: visit_all.induct)
  case (2 es visiting visited n ns)
  show ?case
  proof (cases "n \<in> set visiting")
    case True
    with "2.prems"(2) show ?thesis by fastforce
  next
    case n: False
    show ?thesis
    proof (cases "n \<in> set visited")
      case True
      with 2 n show ?thesis by auto
    next
      case False
      have step: "(v, t) \<in> (adj_rel es)\<^sup>+" if "v \<in> set (n # visiting)" "t \<in> set (targets es n)" for v t
      proof -
        have nt: "(n, t) \<in> adj_rel es" using that(2) by (simp add: adj_rel_def)
        show ?thesis
        proof (cases "v = n")
          case True with nt show ?thesis by auto
        next
          case False
          with that(1) have "(v, n) \<in> (adj_rel es)\<^sup>+" using "2.prems"(2) by auto
          from trancl_into_trancl [OF this nt] show ?thesis .
        qed
      qed
      show ?thesis
      proof (cases "visit_all es (n # visiting) visited (targets es n)")
        case None
        from "2.IH"(2) [OF n False None step] show ?thesis .
      next
        case (Some v)
        with "2.prems"(1) n False have "visit_all es visiting (n # v) ns = None" by simp
        from "2.IH"(3) [OF n False Some this] "2.prems"(2) show ?thesis by simp
      qed
    qed
  qed
qed simp

lemma acyclic_check_iff: "acyclic_check ps \<longleftrightarrow> acyclic (set ps)"
proof
  let ?es = "edge_map ps"
  assume "acyclic_check ps"
  then obtain v where v: "visit_all ?es [] [] (map fst ?es) = Some v"
    by (auto simp: acyclic_check_def Let_def)
  from visit_all_settled [OF v]
  have set: "settled (set ps) (set v)" "fst ` set ?es \<subseteq> set v"
    by (auto simp: settled_def adj_rel_edge_map)
  have "(c, c) \<notin> (set ps)\<^sup>+" for c
  proof
    assume c: "(c, c) \<in> (set ps)\<^sup>+"
    then obtain d where "(c, d) \<in> adj_rel ?es" by (auto simp: adj_rel_edge_map dest: tranclD)
    with set(2) have "c \<in> set v" by (auto dest: adj_rel_keys)
    with set(1) c show False by (auto simp: settled_def)
  qed
  then show "acyclic (set ps)" by (auto simp: acyclic_def)
next
  assume "acyclic (set ps)"
  then show "acyclic_check ps"
    using visit_all_cycle [of "edge_map ps" "[]" "[]" "map fst (edge_map ps)"]
    by (auto simp: acyclic_check_def Let_def adj_rel_edge_map acyclic_def)
qed

text \<open>Edges that lead strictly downwards in a linear order cannot close a cycle.\<close>

lemma acyclic_check_rank:
  fixes rank :: "string \<Rightarrow> 'a::order"
  assumes "\<And>a b. (a, b) \<in> set ps \<Longrightarrow> rank b < rank a"
  shows "acyclic_check ps"
proof -
  have "(a, b) \<in> (set ps)\<^sup>+ \<Longrightarrow> rank b < rank a" for a b
    by (induction rule: trancl_induct) (auto dest: assms order.strict_trans)
  then show ?thesis by (auto simp: acyclic_check_iff acyclic_def)
qed

section \<open>Property\<close>

text \<open>
  C28. The depth-first check terminates and is exact: it raises precisely when the edges contain a
  cycle, whatever the order in which Python iterates over the dictionary and its sets.
\<close>

theorem acyclic_check_correct:
  "acyclic_check ps \<longleftrightarrow> (\<forall>n. (n, n) \<notin> (set ps)\<^sup>+)"
  by (simp add: acyclic_check_iff acyclic_def)

end
