(* ===== verification/Relations.thy ===== *)
theory Relations
  imports Claims Digraph
begin

text \<open>
  \<open>RelationAssessment\<close> and \<open>RelationGraph\<close>: the classification of a claim pair, the persisted
  SUPERSEDES and CONTRADICTS edges, and the graph with one assessment per pair.
\<close>

section \<open>Assessments\<close>

datatype pair_disposition = Supersedes | Contradicts | Coexists | Unrelated

datatype relation_type = RelSupersedes | RelContradicts | RelDependsOn

definition disposition_value :: "pair_disposition \<Rightarrow> string" where
  "disposition_value d = (case d of Supersedes \<Rightarrow> ''SUPERSEDES'' | Contradicts \<Rightarrow> ''CONTRADICTS''
     | Coexists \<Rightarrow> ''COEXISTS'' | Unrelated \<Rightarrow> ''UNRELATED'')"

definition relation_type_value :: "relation_type \<Rightarrow> string" where
  "relation_type_value t = (case t of RelSupersedes \<Rightarrow> ''SUPERSEDES'' | RelContradicts \<Rightarrow> ''CONTRADICTS''
     | RelDependsOn \<Rightarrow> ''DEPENDS_ON'')"

text \<open>\<open>PersistedRelationType(disposition.value)\<close>, which raises for the two unpersisted values.\<close>

definition persisted_type :: "pair_disposition \<Rightarrow> relation_type result" where
  "persisted_type d = (case d of Supersedes \<Rightarrow> Inr RelSupersedes | Contradicts \<Rightarrow> Inr RelContradicts
     | _ \<Rightarrow> Inl (ValueError ''is not a valid PersistedRelationType''))"

record relation_assessment =
  ra_pair :: claim_pair
  ra_disposition :: pair_disposition
  ra_rationale :: string
  ra_confidence :: rat
  ra_type :: "relation_type option"
  ra_id :: "string option"
  ra_endpoints :: "(string \<times> string) option"

definition relation_identity_payload :: "relation_type \<Rightarrow> string \<Rightarrow> string \<Rightarrow> json" where
  "relation_identity_payload t a b = JObj
     [(''endpoint_ids'', JArr [JStr a, JStr b]),
      (''namespace'', JStr ''mastervault.relation.v1''),
      (''relation_type'', JStr (relation_type_value t))]"

text \<open>
  \<open>Field(ge=0.0, le=1.0)\<close>.  A confidence is a rational number, so the negative zero, which the program accepts
  and whose text is \<open>-0.0\<close>, is outside the model.
\<close>

definition unit_interval :: "rat \<Rightarrow> bool" where
  "unit_interval c \<longleftrightarrow> 0 \<le> c \<and> c \<le> 1"

definition edge_direction :: "claim_pair \<Rightarrow> relation_type \<Rightarrow> string \<Rightarrow> string \<Rightarrow> unit result" where
  "edge_direction p t x y =
     (if t = RelContradicts then
        guards [(x \<le> y, ValueError ''CONTRADICTS endpoints must use canonical symmetric order'')] ()
      else if t = RelSupersedes then
        rbind (pair_revision p x) (\<lambda>newer.
        rbind (pair_revision p y) (\<lambda>older.
        guards
          [(dv_family (cr_document newer) = dv_family (cr_document older),
              ValueError ''SUPERSEDES requires revisions in the same document family''),
           (cr_from older < cr_from newer,
              ValueError ''SUPERSEDES must be directed from newer to older'')] ()))
      else Inr ())"

definition relation_semantics :: "py_env \<Rightarrow> relation_assessment \<Rightarrow> relation_assessment result" where
  "relation_semantics E a =
     (let p = ra_pair a;
          first = cr_revision_id (cp_first p);
          second = cr_revision_id (cp_second p)
      in rbind (guards
        [(ra_disposition a \<in> {Supersedes, Contradicts, Coexists} \<longrightarrow> cp_shared_scopes p \<noteq> [],
            ValueError ''requires a shared semantic scope'')] ()) (\<lambda>_.
      if ra_disposition a \<in> {Coexists, Unrelated} then
        guards [(ra_type a = None \<and> ra_id a = None \<and> ra_endpoints a = None,
          ValueError ''COEXISTS and UNRELATED are dispositions, never persisted edges'')] a
      else rbind (persisted_type (ra_disposition a)) (\<lambda>expected_type.
        case (ra_id a, ra_endpoints a) of
          (Some relation_id, Some (x, y)) \<Rightarrow>
            rbind (guards
              [(ra_type a = Some expected_type,
                  ValueError ''persisted dispositions require a matching relation type, ID, and endpoints''),
               ({x, y} = {first, second},
                  ValueError ''relation endpoints must exactly match the comparable pair'')] ()) (\<lambda>_.
            rbind (edge_direction p expected_type x y) (\<lambda>_.
            guards
              [(relation_id = stable_content_id E ''rel'' (relation_identity_payload expected_type x y),
                  ValueError ''relation_id does not match its type and endpoints'')]
              a))
        | _ \<Rightarrow> Inl (ValueError ''persisted dispositions require a matching relation type, ID, and endpoints''))))"

definition relation_assessment_new :: "py_env \<Rightarrow> relation_assessment \<Rightarrow> relation_assessment result" where
  "relation_assessment_new E a =
     rbind (guards [(1 \<le> length (ra_rationale a), ValueError ''rationale'')] ()) (\<lambda>_.
     rbind (require_normalized_text E (ra_rationale a) ''rationale'' 1) (\<lambda>_.
     rbind (guards
       [(unit_interval (ra_confidence a), ValueError ''confidence''),
        (opt_all (content_id_pattern ''rel'') (ra_id a), ValueError ''relation_id'')] ()) (\<lambda>_.
     relation_semantics E a)))"

definition relation_assessment_create ::
  "py_env \<Rightarrow> claim_pair \<Rightarrow> pair_disposition \<Rightarrow> string \<Rightarrow> rat \<Rightarrow> string option \<Rightarrow> relation_assessment result"
where
  "relation_assessment_create E p disposition rationale confidence newer_revision_id =
     rbind (canonical_semantic_input E rationale ''rationale'' 1) (\<lambda>canonical_rationale.
     if disposition \<in> {Coexists, Unrelated} then
       relation_assessment_new E
         \<lparr>ra_pair = p, ra_disposition = disposition, ra_rationale = canonical_rationale,
          ra_confidence = confidence, ra_type = None, ra_id = None, ra_endpoints = None\<rparr>
     else rbind (persisted_type disposition) (\<lambda>t.
       let first = cr_revision_id (cp_first p); second = cr_revision_id (cp_second p)
       in rbind
         (if disposition = Supersedes then
            (case newer_revision_id of
               None \<Rightarrow> Inl (ValueError ''SUPERSEDES requires a newer revision endpoint'')
             | Some newer \<Rightarrow>
                 if newer = first then Inr (newer, second)
                 else if newer = second then Inr (newer, first)
                 else Inl (ValueError ''SUPERSEDES requires a newer revision endpoint''))
          else
            guards [(newer_revision_id = None,
              ValueError ''CONTRADICTS is symmetric and does not accept a newer endpoint'')]
              (first, second)) (\<lambda>(x, y).
       relation_assessment_new E
         \<lparr>ra_pair = p, ra_disposition = disposition, ra_rationale = canonical_rationale,
          ra_confidence = confidence, ra_type = Some t,
          ra_id = Some (stable_content_id E ''rel'' (relation_identity_payload t x y)),
          ra_endpoints = Some (x, y)\<rparr>)))"

definition relation_assessment_revalidate ::
  "py_env \<Rightarrow> relation_assessment \<Rightarrow> relation_assessment result" where
  "relation_assessment_revalidate E a =
     rbind (claim_pair_revalidate E (ra_pair a)) (\<lambda>p. relation_assessment_new E (a\<lparr>ra_pair := p\<rparr>))"

definition pair_json :: "string \<times> string \<Rightarrow> json" where
  "pair_json xy = JArr [JStr (fst xy), JStr (snd xy)]"

definition relation_assessment_json :: "relation_assessment \<Rightarrow> json" where
  "relation_assessment_json a = JObj
     [(''confidence'', JFloat (ra_confidence a)),
      (''disposition'', JStr (disposition_value (ra_disposition a))),
      (''endpoint_ids'', opt_json pair_json (ra_endpoints a)),
      (''pair'', claim_pair_json (ra_pair a)),
      (''rationale'', JStr (ra_rationale a)),
      (''relation_id'', opt_json JStr (ra_id a)),
      (''relation_type'', opt_json (\<lambda>t. JStr (relation_type_value t)) (ra_type a))]"

definition relation_assessment_wf :: "py_env \<Rightarrow> relation_assessment \<Rightarrow> bool" where
  "relation_assessment_wf E a \<longleftrightarrow> relation_assessment_revalidate E a = Inr a"

section \<open>The graph\<close>

definition ra_pair_id :: "relation_assessment \<Rightarrow> string" where
  "ra_pair_id a = cp_id (ra_pair a)"

definition assessment_revisions :: "relation_assessment list \<Rightarrow> claim_revision list" where
  "assessment_revisions as = concat (map (\<lambda>a. pair_revisions (ra_pair a)) as)"

text \<open>\<open>[item.relation_id for item in self.assessments if item.relation_id]\<close>\<close>

definition persisted_relation_ids :: "relation_assessment list \<Rightarrow> string list" where
  "persisted_relation_ids as = filter (\<lambda>i. i \<noteq> []) (List.map_filter ra_id as)"

text \<open>The SUPERSEDES edges; the \<open>assert\<close> of the loop fails when an edge has no endpoints.\<close>

fun supersession_edges :: "relation_assessment list \<Rightarrow> (string \<times> string) list result" where
  "supersession_edges [] = Inr []"
| "supersession_edges (a # as) =
     (if ra_type a \<noteq> Some RelSupersedes then supersession_edges as
      else (case ra_endpoints a of
              None \<Rightarrow> Inl AssertionError
            | Some e \<Rightarrow> rbind (supersession_edges as) (\<lambda>es. Inr (e # es))))"

definition relation_graph_new :: "relation_assessment list \<Rightarrow> relation_assessment list result" where
  "relation_graph_new as =
     rbind (guards
       [(require_consistent_claim_bindings (assessment_revisions as),
           ValueError ''relation graph embeds conflicting bindings''),
        (distinct (map ra_pair_id as),
           ValueError ''relation graph requires exactly one current assessment per pair_id''),
        (map ra_pair_id as = sort (map ra_pair_id as),
           ValueError ''relation assessments must use canonical pair_id order''),
        (distinct (persisted_relation_ids as), ValueError ''persisted relation IDs must be unique'')] ()) (\<lambda>_.
     rbind (supersession_edges as) (\<lambda>edges.
     guards [(acyclic_check edges, ValueError ''SUPERSEDES relation graph must be acyclic'')] as))"

definition relation_graph_create :: "relation_assessment list \<Rightarrow> relation_assessment list result" where
  "relation_graph_create as =
     rbind (dedupe ra_pair_id (binding_clash ''claim pair has conflicting current assessments'') as)
       relation_graph_new"

definition relation_graph_revalidate ::
  "py_env \<Rightarrow> relation_assessment list \<Rightarrow> relation_assessment list result" where
  "relation_graph_revalidate E as = rbind (rmap (relation_assessment_revalidate E) as) relation_graph_new"

section \<open>JSON views\<close>

lemma disposition_value_inj [simp]: "disposition_value a = disposition_value b \<longleftrightarrow> a = b"
  by (cases a; cases b) (simp_all add: disposition_value_def)

lemma relation_type_value_inj [simp]: "relation_type_value a = relation_type_value b \<longleftrightarrow> a = b"
  by (cases a; cases b) (simp_all add: relation_type_value_def)

lemma pair_json_inj [simp]: "pair_json a = pair_json b \<longleftrightarrow> a = b"
  by (auto simp: pair_json_def prod_eq_iff)

lemma opt_pair_json_inj [simp]: "opt_json pair_json a = opt_json pair_json b \<longleftrightarrow> a = b"
  by (rule opt_json_inj) (simp_all add: pair_json_def prod_eq_iff)

lemma opt_type_json_inj [simp]:
  "opt_json (\<lambda>t. JStr (relation_type_value t)) a = opt_json (\<lambda>t. JStr (relation_type_value t)) b \<longleftrightarrow> a = b"
  by (rule opt_json_inj) simp_all

lemma relation_assessment_json_inj [simp]: "relation_assessment_json a = relation_assessment_json b \<longleftrightarrow> a = b"
  by (auto simp: relation_assessment_json_def)

lemma relation_opt_sorted [simp]:
  "json_sorted (opt_json pair_json e)" "json_sorted (opt_json (\<lambda>t. JStr (relation_type_value t)) t)"
  by (rule json_sorted_opt, simp add: pair_json_def)+

lemma relation_assessment_json_sorted [simp]: "json_sorted (relation_assessment_json a)"
  unfolding relation_assessment_json_def by (rule json_sorted_obj) (simp_all, code_simp?)

lemma relation_identity_payload_inj [simp]:
  "relation_identity_payload t a b = relation_identity_payload t' a' b' \<longleftrightarrow> t = t' \<and> a = a' \<and> b = b'"
  by (auto simp: relation_identity_payload_def)

lemma relation_identity_payload_sorted [simp]: "json_sorted (relation_identity_payload t a b)"
  unfolding relation_identity_payload_def by (rule json_sorted_obj) (simp_all, code_simp?)

section \<open>What an accepted assessment satisfies\<close>

lemma persisted_type_Inr:
  "persisted_type d = Inr t \<longleftrightarrow> d = Supersedes \<and> t = RelSupersedes \<or> d = Contradicts \<and> t = RelContradicts"
  by (cases d) (auto simp: persisted_type_def)

definition edge_ok :: "py_env \<Rightarrow> relation_assessment \<Rightarrow> relation_type \<Rightarrow> string \<Rightarrow> string \<Rightarrow> bool" where
  "edge_ok E a t x y \<longleftrightarrow>
     persisted_type (ra_disposition a) = Inr t \<and> cp_shared_scopes (ra_pair a) \<noteq> [] \<and>
     ra_type a = Some t \<and> ra_endpoints a = Some (x, y) \<and>
     {x, y} = {cr_revision_id (cp_first (ra_pair a)), cr_revision_id (cp_second (ra_pair a))} \<and>
     edge_direction (ra_pair a) t x y = Inr () \<and>
     ra_id a = Some (stable_content_id E ''rel'' (relation_identity_payload t x y))"

lemma relation_semantics_Inr_iff:
  "relation_semantics E a = Inr a' \<longleftrightarrow> a' = a \<and>
     (if ra_disposition a \<in> {Coexists, Unrelated}
      then ra_type a = None \<and> ra_id a = None \<and> ra_endpoints a = None \<and>
        (ra_disposition a = Coexists \<longrightarrow> cp_shared_scopes (ra_pair a) \<noteq> [])
      else \<exists>t x y. edge_ok E a t x y)"
proof (cases "ra_disposition a \<in> {Coexists, Unrelated}")
  case True
  then show ?thesis
    by (auto simp: relation_semantics_def Let_def rbind_Inr_iff)
next
  case False
  then have d: "ra_disposition a = Supersedes \<or> ra_disposition a = Contradicts"
    by (cases "ra_disposition a") auto
  show ?thesis
  proof (cases "ra_id a = None \<or> ra_endpoints a = None")
    case True
    with False d show ?thesis
      by (auto simp: relation_semantics_def Let_def rbind_Inr_iff edge_ok_def split: option.splits)
  next
    case some: False
    then obtain i x y where "ra_id a = Some i" "ra_endpoints a = Some (x, y)" by auto
    with False d show ?thesis
      unfolding relation_semantics_def edge_ok_def Let_def
      by (simp add: rbind_Inr_iff persisted_type_Inr) blast
  qed
qed

lemma relation_semantics_Inr: "relation_semantics E a = Inr a' \<Longrightarrow> a' = a"
  by (simp add: relation_semantics_Inr_iff)

lemma relation_assessment_new_Inr: "relation_assessment_new E a = Inr a' \<Longrightarrow> a' = a"
  by (auto simp: relation_assessment_new_def rbind_Inr_iff dest: relation_semantics_Inr)

lemma relation_assessment_new_semantics:
  "relation_assessment_new E a = Inr a' \<Longrightarrow> relation_semantics E a = Inr a"
  by (auto simp: relation_assessment_new_def rbind_Inr_iff dest: relation_semantics_Inr)

lemma relation_assessment_wf_iff:
  "relation_assessment_wf E a \<longleftrightarrow> claim_pair_wf E (ra_pair a) \<and> relation_assessment_new E a = Inr a"
proof -
  have id: "a\<lparr>ra_pair := p\<rparr> = a \<longleftrightarrow> p = ra_pair a" for p
    by (cases a) auto
  have "relation_assessment_wf E a \<longleftrightarrow> (\<exists>p. claim_pair_revalidate E (ra_pair a) = Inr p \<and>
      relation_assessment_new E (a\<lparr>ra_pair := p\<rparr>) = Inr a)"
    by (simp add: relation_assessment_wf_def relation_assessment_revalidate_def rbind_Inr_iff)
  then show ?thesis
    using id unfolding claim_pair_wf_def by (metis relation_assessment_new_Inr)
qed

lemma relation_semantics_edge:
  assumes "relation_semantics E a = Inr a'" and "ra_type a = Some t"
  obtains x y where "edge_ok E a t x y"
  using assms by (auto simp: relation_semantics_Inr_iff edge_ok_def split: if_splits)

lemma edge_ok_supersedes:
  assumes "edge_ok E a RelSupersedes x y"
    and "cr_revision_id (cp_first (ra_pair a)) \<noteq> cr_revision_id (cp_second (ra_pair a))"
  obtains newer older where "x = cr_revision_id newer" and "y = cr_revision_id older"
    and "{newer, older} = {cp_first (ra_pair a), cp_second (ra_pair a)}"
    and "pair_revision (ra_pair a) x = Inr newer" and "pair_revision (ra_pair a) y = Inr older"
    and "dv_family (cr_document newer) = dv_family (cr_document older)"
    and "cr_from older < cr_from newer"
proof -
  from assms(1) obtain newer older
    where no: "pair_revision (ra_pair a) x = Inr newer" "pair_revision (ra_pair a) y = Inr older"
      and fd: "dv_family (cr_document newer) = dv_family (cr_document older)"
        "cr_from older < cr_from newer"
    by (auto simp: edge_ok_def edge_direction_def rbind_Inr_iff)
  from no assms(2) have mem: "newer \<in> {cp_first (ra_pair a), cp_second (ra_pair a)}" "cr_revision_id newer = x"
    "older \<in> {cp_first (ra_pair a), cp_second (ra_pair a)}" "cr_revision_id older = y"
    by (auto simp: pair_revision_Inr)
  from fd(2) have "newer \<noteq> older" by auto
  with mem have "{newer, older} = {cp_first (ra_pair a), cp_second (ra_pair a)}" by auto
  with that no fd mem show ?thesis by blast
qed

section \<open>The graph\<close>

lemma supersession_edges_Inr:
  "supersession_edges as = Inr es \<Longrightarrow>
     set es = {e. \<exists>a \<in> set as. ra_type a = Some RelSupersedes \<and> ra_endpoints a = Some e}"
  by (induction as arbitrary: es) (auto simp: rbind_Inr_iff split: if_splits option.splits)

lemma supersession_edges_total:
  assumes "\<And>a. a \<in> set as \<Longrightarrow> ra_type a = Some RelSupersedes \<Longrightarrow> ra_endpoints a \<noteq> None"
  shows "\<exists>es. supersession_edges as = Inr es"
  using assms
proof (induction as)
  case (Cons a as)
  from Cons.IH [OF Cons.prems] obtain es where "supersession_edges as = Inr es" by auto
  with Cons.prems [of a] show ?case by (cases "ra_endpoints a") auto
qed simp

lemma relation_graph_new_Inr_iff:
  "relation_graph_new as = Inr as' \<longleftrightarrow> as' = as \<and> canonical ra_pair_id as \<and>
     key_inj cr_revision_id (assessment_revisions as) \<and>
     key_inj dv_id (map cr_document (assessment_revisions as)) \<and>
     distinct (persisted_relation_ids as) \<and>
     (\<exists>edges. supersession_edges as = Inr edges \<and> acyclic (set edges))"
  using canonical_keys_iff [of ra_pair_id as]
  unfolding relation_graph_new_def
  by (auto simp: rbind_Inr_iff require_consistent_claim_bindings_iff acyclic_check_iff)

interpretation relations: keyed_registry ra_pair_id
  "binding_clash ''claim pair has conflicting current assessments''"
  relation_graph_new relation_graph_create
  by unfold_locales (auto simp: relation_graph_create_def relation_graph_new_Inr_iff)

lemma pair_revisions_set [simp]: "set (pair_revisions p) = {cp_first p, cp_second p}"
  by (simp add: pair_revisions_def)

lemma assessment_revisions_set:
  "set (assessment_revisions as) = (\<Union>a \<in> set as. {cp_first (ra_pair a), cp_second (ra_pair a)})"
  by (simp add: assessment_revisions_def)

text \<open>
  An edge of well-formed assessments leads from a later to an earlier effective date, and one
  registry-consistent revision stands behind every id: the rank of the cycle check.
\<close>

definition effective_rank :: "claim_revision list \<Rightarrow> string \<Rightarrow> date" where
  "effective_rank rs i = (case lookup_key cr_revision_id i rs of Some r \<Rightarrow> cr_from r | None \<Rightarrow> Date 0 0 0)"

lemma effective_rank_mem:
  assumes "key_inj cr_revision_id rs" and "r \<in> set rs"
  shows "effective_rank rs (cr_revision_id r) = cr_from r"
proof -
  have "lookup_key cr_revision_id (cr_revision_id r) rs = Some r"
    using assms by (simp add: lookup_key_Some_iff)
  then show ?thesis by (simp add: effective_rank_def)
qed

definition assessments_ok :: "py_env \<Rightarrow> relation_assessment list \<Rightarrow> bool" where
  "assessments_ok E as \<longleftrightarrow> (\<forall>a \<in> set as. relation_assessment_new E a = Inr a \<and>
     claim_pair_new E (ra_pair a) = Inr (ra_pair a))"

lemma supersession_edges_descend:
  assumes ok: "assessments_ok E as" and inj: "key_inj cr_revision_id (assessment_revisions as)"
    and es: "supersession_edges as = Inr es" and xy: "(x, y) \<in> set es"
  shows "effective_rank (assessment_revisions as) y < effective_rank (assessment_revisions as) x"
proof -
  from supersession_edges_Inr [OF es] xy obtain a where a: "a \<in> set as"
    and t: "ra_type a = Some RelSupersedes" and e: "ra_endpoints a = Some (x, y)" by auto
  from ok a have new: "relation_semantics E a = Inr a" and p: "claim_pair_new E (ra_pair a) = Inr (ra_pair a)"
    by (auto simp: assessments_ok_def dest: relation_assessment_new_semantics)
  from p have ne: "cr_revision_id (cp_first (ra_pair a)) \<noteq> cr_revision_id (cp_second (ra_pair a))"
    by (auto simp: claim_pair_new_Inr_iff)
  from new t obtain x' y' where ok': "edge_ok E a RelSupersedes x' y'" by (rule relation_semantics_edge)
  with e have edge: "edge_ok E a RelSupersedes x y" by (auto simp: edge_ok_def)
  from edge ne obtain newer older where "x = cr_revision_id newer" "y = cr_revision_id older"
    "{newer, older} = {cp_first (ra_pair a), cp_second (ra_pair a)}" "cr_from older < cr_from newer"
    by (rule edge_ok_supersedes)
  moreover have "newer \<in> set (assessment_revisions as)" "older \<in> set (assessment_revisions as)"
    using calculation(3) a by (auto simp: assessment_revisions_set)
  ultimately show ?thesis by (simp add: effective_rank_mem [OF inj])
qed

lemma supersession_edges_ok:
  assumes "assessments_ok E as"
  shows "\<exists>es. supersession_edges as = Inr es"
proof (rule supersession_edges_total)
  fix a assume a: "a \<in> set as" and t: "ra_type a = Some RelSupersedes"
  from assms a have "relation_semantics E a = Inr a"
    by (auto simp: assessments_ok_def dest: relation_assessment_new_semantics)
  from this t show "ra_endpoints a \<noteq> None"
    by (rule relation_semantics_edge) (simp add: edge_ok_def)
qed

section \<open>Properties\<close>

text \<open>
  \<open>RelationAssessment.create\<close>: a result is accepted by its own constructor; SUPERSEDES and
  CONTRADICTS results carry a content-addressed edge over exactly the two endpoints, SUPERSEDES
  pointing from the named newer revision to a strictly earlier one of the same document family,
  and the other dispositions never carry an edge.
\<close>

theorem relation_assessment_create_edges:
  assumes "relation_assessment_create E p disposition rationale confidence newer = Inr a"
    and "cr_revision_id (cp_first p) < cr_revision_id (cp_second p)"
  shows "relation_assessment_new E a = Inr a \<and> ra_pair a = p \<and> ra_disposition a = disposition \<and>
    (disposition \<in> {Coexists, Unrelated} \<longrightarrow> ra_type a = None \<and> ra_id a = None \<and> ra_endpoints a = None) \<and>
    (disposition = Contradicts \<longrightarrow>
       ra_endpoints a = Some (cr_revision_id (cp_first p), cr_revision_id (cp_second p))) \<and>
    (disposition = Supersedes \<longrightarrow> (\<exists>n old. {n, old} = {cp_first p, cp_second p} \<and>
       newer = Some (cr_revision_id n) \<and> ra_endpoints a = Some (cr_revision_id n, cr_revision_id old) \<and>
       dv_family (cr_document n) = dv_family (cr_document old) \<and> cr_from old < cr_from n))"
proof -
  have new: "relation_assessment_new E a = Inr a"
    using assms(1) unfolding relation_assessment_create_def
    by (auto simp: rbind_Inr_iff Let_def split: if_splits option.splits dest: relation_assessment_new_Inr)
  have shape: "ra_pair a = p \<and> ra_disposition a = disposition \<and>
      (disposition \<in> {Coexists, Unrelated} \<longrightarrow> ra_type a = None \<and> ra_id a = None \<and> ra_endpoints a = None) \<and>
      (disposition = Contradicts \<longrightarrow>
        ra_endpoints a = Some (cr_revision_id (cp_first p), cr_revision_id (cp_second p))) \<and>
      (disposition = Supersedes \<longrightarrow> ra_type a = Some RelSupersedes \<and>
        (\<exists>x y. ra_endpoints a = Some (x, y) \<and> newer = Some x))"
    using assms(1) unfolding relation_assessment_create_def
    by (auto simp: rbind_Inr_iff Let_def persisted_type_Inr split: if_splits option.splits
        dest!: relation_assessment_new_Inr)
  moreover have "\<exists>n old. {n, old} = {cp_first p, cp_second p} \<and>
       newer = Some (cr_revision_id n) \<and> ra_endpoints a = Some (cr_revision_id n, cr_revision_id old) \<and>
       dv_family (cr_document n) = dv_family (cr_document old) \<and> cr_from old < cr_from n"
    if "disposition = Supersedes"
  proof -
    from that shape obtain x y where xy: "ra_endpoints a = Some (x, y)" "newer = Some x"
      and t: "ra_type a = Some RelSupersedes" by auto
    from relation_assessment_new_semantics [OF new] t obtain x' y' where "edge_ok E a RelSupersedes x' y'"
      by (rule relation_semantics_edge)
    with xy have edge: "edge_ok E a RelSupersedes x y" by (auto simp: edge_ok_def)
    have "cr_revision_id (cp_first (ra_pair a)) \<noteq> cr_revision_id (cp_second (ra_pair a))"
      using shape assms(2) by auto
    from edge this show ?thesis
      by (rule edge_ok_supersedes) (use xy shape in auto)
  qed
  ultimately show ?thesis using new by blast
qed

text \<open>
  The cycle check of the relation graph is redundant: when every assessment was accepted by its
  own constructor, neither the cycle error nor the \<open>assert\<close> of the edge loop is reachable, and the
  graph is accepted exactly when bindings are consistent, pairs unique and sorted, relation ids
  unique.  Each edge leads to a strictly earlier effective date, so no cycle can close.
\<close>

theorem relation_graph_never_cyclic:
  assumes "assessments_ok E as"
  shows "relation_graph_new as = guards
    [(require_consistent_claim_bindings (assessment_revisions as),
        ValueError ''relation graph embeds conflicting bindings''),
     (distinct (map ra_pair_id as),
        ValueError ''relation graph requires exactly one current assessment per pair_id''),
     (map ra_pair_id as = sort (map ra_pair_id as),
        ValueError ''relation assessments must use canonical pair_id order''),
     (distinct (persisted_relation_ids as), ValueError ''persisted relation IDs must be unique'')] as"
proof (cases "require_consistent_claim_bindings (assessment_revisions as)")
  case True
  then have inj: "key_inj cr_revision_id (assessment_revisions as)"
    by (simp add: require_consistent_claim_bindings_iff)
  obtain es where es: "supersession_edges as = Inr es"
    using supersession_edges_ok [OF assms] by auto
  have "acyclic_check es"
    by (rule acyclic_check_rank) (rule supersession_edges_descend [OF assms inj es])
  with es True show ?thesis by (simp add: relation_graph_new_def guards.simps)
next
  case False
  then show ?thesis by (simp add: relation_graph_new_def guards.simps)
qed

end
