(* ===== verification/Temporal.thy ===== *)
theory Temporal
  imports Relations
begin

text \<open>
  \<open>DocumentReplacementAssessment\<close>, \<open>DocumentReplacementSet\<close>, \<open>TemporalTarget\<close>,
  \<open>TemporalConstraint\<close>, \<open>TemporalConstraintSet\<close> and \<open>ValidatedTemporalConstraintSet\<close>: reviewed
  replacements, the half-open closures derived from them, and their validation against the
  current graphs.
\<close>

datatype constraint_status = Proposed | Accepted | Rejected

definition constraint_status_value :: "constraint_status \<Rightarrow> string" where
  "constraint_status_value s = (case s of Proposed \<Rightarrow> ''proposed'' | Accepted \<Rightarrow> ''accepted''
     | Rejected \<Rightarrow> ''rejected'')"

section \<open>Document replacements\<close>

record replacement =
  rp_id :: string
  rp_newer :: document_version
  rp_older :: document_version
  rp_status :: constraint_status
  rp_rationale :: string
  rp_confidence :: rat

definition replacement_identity_payload :: "string \<Rightarrow> string \<Rightarrow> json" where
  "replacement_identity_payload newer older = JObj
     [(''endpoint_ids'', JArr [JStr newer, JStr older]),
      (''namespace'', JStr ''mastervault.document-replacement.v1''),
      (''relation_type'', JStr ''SUPERSEDES'')]"

definition replacement_new :: "py_env \<Rightarrow> replacement \<Rightarrow> replacement result" where
  "replacement_new E r =
     rbind (guards
       [(content_id_pattern ''rel'' (rp_id r), ValueError ''relation_id''),
        (1 \<le> length (rp_rationale r), ValueError ''rationale'')] ()) (\<lambda>_.
     rbind (require_normalized_text E (rp_rationale r) ''rationale'' 1) (\<lambda>_.
     guards
       [(unit_interval (rp_confidence r), ValueError ''confidence''),
        (require_consistent_document_bindings [rp_newer r, rp_older r],
           ValueError ''document replacement assessment embeds conflicting bindings''),
        (dv_id (rp_newer r) \<noteq> dv_id (rp_older r),
           ValueError ''document replacement requires distinct document versions''),
        (dv_family (rp_newer r) = dv_family (rp_older r),
           ValueError ''document replacement requires one document family''),
        (dv_from (rp_older r) < dv_from (rp_newer r),
           ValueError ''document replacement must be directed from newer to older''),
        (rp_id r = stable_content_id E ''rel''
             (replacement_identity_payload (dv_id (rp_newer r)) (dv_id (rp_older r))),
           ValueError ''relation_id does not match document replacement endpoints'')]
       r))"

definition replacement_create ::
  "py_env \<Rightarrow> document_version \<Rightarrow> document_version \<Rightarrow> constraint_status \<Rightarrow> string \<Rightarrow> rat \<Rightarrow> replacement result"
where
  "replacement_create E newer older status rationale confidence =
     rbind (canonical_semantic_input E rationale ''rationale'' 1) (\<lambda>canonical_rationale.
     replacement_new E
       \<lparr>rp_id = stable_content_id E ''rel'' (replacement_identity_payload (dv_id newer) (dv_id older)),
        rp_newer = newer, rp_older = older, rp_status = status, rp_rationale = canonical_rationale,
        rp_confidence = confidence\<rparr>)"

definition replacement_revalidate :: "py_env \<Rightarrow> replacement \<Rightarrow> replacement result" where
  "replacement_revalidate E r =
     rbind (document_version_new E (rp_newer r)) (\<lambda>n.
     rbind (document_version_new E (rp_older r)) (\<lambda>old.
     replacement_new E (r\<lparr>rp_newer := n, rp_older := old\<rparr>)))"

definition replacement_with_status :: "py_env \<Rightarrow> replacement \<Rightarrow> constraint_status \<Rightarrow> replacement result" where
  "replacement_with_status E r status = replacement_revalidate E (r\<lparr>rp_status := status\<rparr>)"

definition replacement_json :: "replacement \<Rightarrow> json" where
  "replacement_json r = JObj
     [(''confidence'', JFloat (rp_confidence r)),
      (''identity_namespace'', JStr ''mastervault.document-replacement.v1''),
      (''newer_document'', document_version_json (rp_newer r)),
      (''older_document'', document_version_json (rp_older r)),
      (''rationale'', JStr (rp_rationale r)),
      (''relation_id'', JStr (rp_id r)),
      (''relation_type'', JStr ''SUPERSEDES''),
      (''status'', JStr (constraint_status_value (rp_status r)))]"

definition replacement_wf :: "py_env \<Rightarrow> replacement \<Rightarrow> bool" where
  "replacement_wf E r \<longleftrightarrow> replacement_revalidate E r = Inr r"

definition replacement_documents :: "replacement list \<Rightarrow> document_version list" where
  "replacement_documents rs = concat (map (\<lambda>r. [rp_newer r, rp_older r]) rs)"

definition replacement_edges :: "replacement list \<Rightarrow> (string \<times> string) list" where
  "replacement_edges rs = map (\<lambda>r. (dv_id (rp_newer r), dv_id (rp_older r))) rs"

definition replacement_set_new :: "replacement list \<Rightarrow> replacement list result" where
  "replacement_set_new rs = guards
     [(distinct (map rp_id rs), ValueError ''document replacements require one current row per relation_id''),
      (map rp_id rs = sort (map rp_id rs),
         ValueError ''document replacements must use canonical relation_id order''),
      (require_consistent_document_bindings (replacement_documents rs),
         ValueError ''document replacement set embeds conflicting bindings''),
      (acyclic_check (replacement_edges rs), ValueError ''document replacement graph must be acyclic'')]
     rs"

definition replacement_set_create :: "replacement list \<Rightarrow> replacement list result" where
  "replacement_set_create rs =
     rbind (dedupe rp_id (binding_clash ''document replacement has conflicting current rows'') rs)
       replacement_set_new"

definition replacement_set_get :: "replacement list \<Rightarrow> string \<Rightarrow> replacement result" where
  "replacement_set_get rs relation_id = registry_get rp_id rs relation_id"

definition replacement_transition_status ::
  "py_env \<Rightarrow> replacement list \<Rightarrow> string \<Rightarrow> constraint_status \<Rightarrow> constraint_status \<Rightarrow> replacement list result"
where
  "replacement_transition_status E rs relation_id expected_status new_status =
     rbind (replacement_set_get rs relation_id) (\<lambda>current.
     rbind (guards [(rp_status current = expected_status,
        ValueError ''document replacement status changed since the expected snapshot'')] ()) (\<lambda>_.
     rbind (replacement_with_status E current new_status) (\<lambda>r.
     replacement_set_new (replace_key rp_id relation_id r rs))))"

definition replacement_set_revalidate :: "py_env \<Rightarrow> replacement list \<Rightarrow> replacement list result" where
  "replacement_set_revalidate E rs = rbind (rmap (replacement_revalidate E) rs) replacement_set_new"

section \<open>Targets and constraints\<close>

datatype target_kind = DocumentTarget | ClaimTarget

definition target_kind_value :: "target_kind \<Rightarrow> string" where
  "target_kind_value k = (case k of DocumentTarget \<Rightarrow> ''document-version'' | ClaimTarget \<Rightarrow> ''claim-revision'')"

record temporal_target =
  tt_kind :: target_kind
  tt_id :: string

definition temporal_target_new :: "temporal_target \<Rightarrow> temporal_target result" where
  "temporal_target_new t = guards
     [(content_id_pattern (if tt_kind t = DocumentTarget then ''docv'' else ''claimrev'') (tt_id t),
         ValueError ''target has the wrong stable-ID prefix'')] t"

definition temporal_target_json :: "temporal_target \<Rightarrow> json" where
  "temporal_target_json t = JObj [(''kind'', JStr (target_kind_value (tt_kind t))), (''target_id'', JStr (tt_id t))]"

record temporal_constraint =
  tc_id :: string
  tc_target :: temporal_target
  tc_bound :: date
  tc_basis :: "string list"
  tc_status :: constraint_status
  tc_rationale :: string

definition constraint_identity_payload :: "temporal_target \<Rightarrow> date \<Rightarrow> string list \<Rightarrow> json" where
  "constraint_identity_payload target bound basis = JObj
     [(''basis_relation_ids'', JArr (map JStr basis)),
      (''inferred_valid_to_exclusive'', date_json bound),
      (''namespace'', JStr ''mastervault.temporal-constraint.v1''),
      (''resolver_version'', JStr ''temporal-resolution-v1''),
      (''target'', temporal_target_json target)]"

definition temporal_constraint_new :: "py_env \<Rightarrow> temporal_constraint \<Rightarrow> temporal_constraint result" where
  "temporal_constraint_new E c =
     rbind (guards
       [(content_id_pattern ''tempc'' (tc_id c), ValueError ''constraint_id''),
        (1 \<le> length (tc_basis c), ValueError ''basis_relation_ids''),
        (tc_basis c = sorted_set (tc_basis c), ValueError ''basis_relation_ids must be sorted and unique''),
        (list_all (content_id_pattern ''rel'') (tc_basis c),
           ValueError ''basis_relation_ids must contain stable relation IDs''),
        (1 \<le> length (tc_rationale c), ValueError ''rationale'')] ()) (\<lambda>_.
     rbind (require_normalized_text E (tc_rationale c) ''rationale'' 1) (\<lambda>_.
     guards
       [(tc_id c = stable_content_id E ''tempc''
            (constraint_identity_payload (tc_target c) (tc_bound c) (tc_basis c)),
           ValueError ''constraint_id does not match temporal constraint identity'')]
       c))"

text \<open>The shared tail of the three factories: the target, the identity and the constructor.\<close>

definition derived_constraint ::
  "py_env \<Rightarrow> target_kind \<Rightarrow> string \<Rightarrow> date \<Rightarrow> string \<Rightarrow> constraint_status \<Rightarrow> string \<Rightarrow> temporal_constraint result"
where
  "derived_constraint E kind target_id bound relation_id status canonical_rationale =
     rbind (temporal_target_new \<lparr>tt_kind = kind, tt_id = target_id\<rparr>) (\<lambda>target.
     temporal_constraint_new E
       \<lparr>tc_id = stable_content_id E ''tempc'' (constraint_identity_payload target bound [relation_id]),
        tc_target = target, tc_bound = bound, tc_basis = [relation_id], tc_status = status,
        tc_rationale = canonical_rationale\<rparr>)"

definition from_supersession ::
  "py_env \<Rightarrow> relation_assessment \<Rightarrow> constraint_status \<Rightarrow> string \<Rightarrow> temporal_constraint result" where
  "from_supersession E a status rationale =
     rbind (canonical_semantic_input E rationale ''rationale'' 1) (\<lambda>canonical_rationale.
     rbind (guards [(ra_type a = Some RelSupersedes,
        ValueError ''temporal supersession constraint requires a SUPERSEDES relation'')] ()) (\<lambda>_.
     case (ra_endpoints a, ra_id a) of
       (Some (x, y), Some relation_id) \<Rightarrow>
         rbind (pair_revision (ra_pair a) x) (\<lambda>newer.
         rbind (pair_revision (ra_pair a) y) (\<lambda>older.
         derived_constraint E ClaimTarget (cr_revision_id older) (cr_from newer) relation_id status
           canonical_rationale))
     | _ \<Rightarrow> Inl AssertionError))"

definition from_document_replacement ::
  "py_env \<Rightarrow> replacement \<Rightarrow> constraint_status \<Rightarrow> string \<Rightarrow> temporal_constraint result" where
  "from_document_replacement E r status rationale =
     rbind (canonical_semantic_input E rationale ''rationale'' 1) (\<lambda>canonical_rationale.
     rbind (guards [(rp_status r = Accepted,
        ValueError ''document temporal constraints require an accepted replacement'')] ()) (\<lambda>_.
     derived_constraint E DocumentTarget (dv_id (rp_older r)) (dv_from (rp_newer r)) (rp_id r) status
       canonical_rationale))"

definition propose_from_document_replacement ::
  "py_env \<Rightarrow> replacement \<Rightarrow> string \<Rightarrow> temporal_constraint result" where
  "propose_from_document_replacement E r rationale =
     rbind (guards [(rp_status r = Proposed,
        ValueError ''proposed document constraint requires a proposed replacement'')] ()) (\<lambda>_.
     rbind (canonical_semantic_input E rationale ''rationale'' 1) (\<lambda>canonical_rationale.
     derived_constraint E DocumentTarget (dv_id (rp_older r)) (dv_from (rp_newer r)) (rp_id r) Proposed
       canonical_rationale))"

definition temporal_constraint_revalidate :: "py_env \<Rightarrow> temporal_constraint \<Rightarrow> temporal_constraint result" where
  "temporal_constraint_revalidate E c =
     rbind (temporal_target_new (tc_target c)) (\<lambda>t. temporal_constraint_new E (c\<lparr>tc_target := t\<rparr>))"

definition temporal_constraint_with_status ::
  "py_env \<Rightarrow> temporal_constraint \<Rightarrow> constraint_status \<Rightarrow> temporal_constraint result" where
  "temporal_constraint_with_status E c status = temporal_constraint_revalidate E (c\<lparr>tc_status := status\<rparr>)"

definition temporal_constraint_json :: "temporal_constraint \<Rightarrow> json" where
  "temporal_constraint_json c = JObj
     [(''basis_relation_ids'', JArr (map JStr (tc_basis c))),
      (''constraint_id'', JStr (tc_id c)),
      (''identity_namespace'', JStr ''mastervault.temporal-constraint.v1''),
      (''inferred_valid_to_exclusive'', date_json (tc_bound c)),
      (''rationale'', JStr (tc_rationale c)),
      (''resolver_version'', JStr ''temporal-resolution-v1''),
      (''status'', JStr (constraint_status_value (tc_status c))),
      (''target'', temporal_target_json (tc_target c))]"

definition temporal_constraint_wf :: "py_env \<Rightarrow> temporal_constraint \<Rightarrow> bool" where
  "temporal_constraint_wf E c \<longleftrightarrow> temporal_constraint_revalidate E c = Inr c"

definition constraint_set_new :: "temporal_constraint list \<Rightarrow> temporal_constraint list result" where
  "constraint_set_new cs = guards
     [(distinct (map tc_id cs), ValueError ''constraint set requires one current row per constraint_id''),
      (map tc_id cs = sort (map tc_id cs), ValueError ''constraints must use canonical constraint_id order'')]
     cs"

definition constraint_set_create :: "temporal_constraint list \<Rightarrow> temporal_constraint list result" where
  "constraint_set_create cs =
     rbind (dedupe tc_id (binding_clash ''constraint ID has conflicting current rows'') cs)
       constraint_set_new"

definition constraint_transition_status ::
  "py_env \<Rightarrow> temporal_constraint list \<Rightarrow> string \<Rightarrow> constraint_status \<Rightarrow> constraint_status \<Rightarrow>
     temporal_constraint list result" where
  "constraint_transition_status E cs constraint_id expected_status new_status =
     rbind (registry_get tc_id cs constraint_id) (\<lambda>current.
     rbind (guards [(tc_status current = expected_status,
        ValueError ''temporal constraint status changed since the expected snapshot'')] ()) (\<lambda>_.
     rbind (temporal_constraint_with_status E current new_status) (\<lambda>c.
     constraint_set_new (replace_key tc_id constraint_id c cs))))"

definition constraint_set_revalidate :: "py_env \<Rightarrow> temporal_constraint list \<Rightarrow> temporal_constraint list result" where
  "constraint_set_revalidate E cs = rbind (rmap (temporal_constraint_revalidate E) cs) constraint_set_new"

section \<open>Validation against the current graphs\<close>

record validated_set =
  vs_constraints :: "temporal_constraint list"
  vs_graph :: "relation_assessment list"
  vs_replacements :: "replacement list"

text \<open>\<open>{item.relation_id: item for item in items if ...}\<close> and \<open>.get(relation_id)\<close>: the last wins.\<close>

definition claim_relation :: "relation_assessment list \<Rightarrow> string \<Rightarrow> relation_assessment option" where
  "claim_relation as i = find (\<lambda>a. ra_id a = Some i) (rev as)"

definition document_relation :: "replacement list \<Rightarrow> string \<Rightarrow> replacement option" where
  "document_relation rs i = dict_get rp_id rs i"

definition claim_basis_check :: "relation_assessment list \<Rightarrow> temporal_constraint \<Rightarrow> string \<Rightarrow> unit result" where
  "claim_basis_check as c basis_id =
     (case claim_relation as basis_id of
        None \<Rightarrow> Inl (ValueError ''accepted claim temporal constraint basis is absent from current graph'')
      | Some a \<Rightarrow>
          if ra_type a \<noteq> Some RelSupersedes
          then Inl (ValueError ''accepted claim temporal constraint requires SUPERSEDES bases'')
          else (case ra_endpoints a of
             None \<Rightarrow> Inl AssertionError
           | Some (newer_id, older_id) \<Rightarrow>
               rbind (pair_revision (ra_pair a) newer_id) (\<lambda>newer.
               guards
                 [(older_id = tt_id (tc_target c),
                     ValueError ''accepted claim temporal constraint targets the wrong older endpoint''),
                  (cr_from newer = tc_bound c,
                     ValueError ''accepted claim temporal constraint has the wrong inferred bound'')] ())))"

definition document_basis_check :: "replacement list \<Rightarrow> temporal_constraint \<Rightarrow> string \<Rightarrow> unit result" where
  "document_basis_check rs c basis_id =
     (case document_relation rs basis_id of
        None \<Rightarrow> Inl (ValueError ''accepted document temporal constraint basis is absent from current set'')
      | Some r \<Rightarrow> guards
          [(rp_status r = Accepted,
              ValueError ''accepted document temporal constraint requires an accepted replacement''),
           (dv_id (rp_older r) = tt_id (tc_target c),
              ValueError ''accepted document temporal constraint targets the wrong older endpoint''),
           (dv_from (rp_newer r) = tc_bound c,
              ValueError ''accepted document temporal constraint has the wrong inferred bound'')] ())"

definition constraint_bases_check ::
  "relation_assessment list \<Rightarrow> replacement list \<Rightarrow> temporal_constraint \<Rightarrow> unit list result" where
  "constraint_bases_check as rs c =
     (if tc_status c \<noteq> Accepted then Inr []
      else rmap (if tt_kind (tc_target c) = ClaimTarget then claim_basis_check as c
                 else document_basis_check rs c) (tc_basis c))"

definition validated_set_new :: "validated_set \<Rightarrow> validated_set result" where
  "validated_set_new v =
     rbind (guards [(require_consistent_document_bindings
          (map cr_document (assessment_revisions (vs_graph v)) @ replacement_documents (vs_replacements v)),
        ValueError ''validated temporal constraint set embeds conflicting bindings'')] ()) (\<lambda>_.
     rbind (rmap (constraint_bases_check (vs_graph v) (vs_replacements v)) (vs_constraints v)) (\<lambda>_.
     Inr v))"

text \<open>\<open>_revalidate_temporal_constraints\<close>\<close>

definition validated_set_revalidate :: "py_env \<Rightarrow> validated_set \<Rightarrow> validated_set result" where
  "validated_set_revalidate E v =
     rbind (constraint_set_revalidate E (vs_constraints v)) (\<lambda>cs.
     rbind (relation_graph_revalidate E (vs_graph v)) (\<lambda>g.
     rbind (replacement_set_revalidate E (vs_replacements v)) (\<lambda>rs.
     validated_set_new \<lparr>vs_constraints = cs, vs_graph = g, vs_replacements = rs\<rparr>)))"

section \<open>JSON views\<close>

lemma constraint_status_value_inj [simp]: "constraint_status_value a = constraint_status_value b \<longleftrightarrow> a = b"
  by (cases a; cases b) (simp_all add: constraint_status_value_def)

lemma target_kind_value_inj [simp]: "target_kind_value a = target_kind_value b \<longleftrightarrow> a = b"
  by (cases a; cases b) (simp_all add: target_kind_value_def)

lemma replacement_json_inj [simp]: "replacement_json a = replacement_json b \<longleftrightarrow> a = b"
  by (auto simp: replacement_json_def)

lemma replacement_json_sorted [simp]: "json_sorted (replacement_json r)"
  unfolding replacement_json_def by (rule json_sorted_obj) (simp_all, code_simp?)

lemma temporal_target_json_inj [simp]: "temporal_target_json a = temporal_target_json b \<longleftrightarrow> a = b"
  by (auto simp: temporal_target_json_def)

lemma temporal_target_json_sorted [simp]: "json_sorted (temporal_target_json t)"
  unfolding temporal_target_json_def by (rule json_sorted_obj) (simp_all, code_simp?)

lemma temporal_constraint_json_inj [simp]: "temporal_constraint_json a = temporal_constraint_json b \<longleftrightarrow> a = b"
  by (auto simp: temporal_constraint_json_def)

lemma temporal_constraint_json_sorted [simp]: "json_sorted (temporal_constraint_json c)"
  unfolding temporal_constraint_json_def by (rule json_sorted_obj) (simp_all, code_simp?)

lemma temporal_payloads_inj [simp]:
  "replacement_identity_payload a b = replacement_identity_payload a' b' \<longleftrightarrow> a = a' \<and> b = b'"
  "constraint_identity_payload t d is = constraint_identity_payload t' d' is' \<longleftrightarrow> t = t' \<and> d = d' \<and> is = is'"
  by (auto simp: replacement_identity_payload_def constraint_identity_payload_def)

lemma replacement_identity_payload_sorted [simp]: "json_sorted (replacement_identity_payload a b)"
  unfolding replacement_identity_payload_def by (rule json_sorted_obj) (simp_all, code_simp?)

lemma constraint_identity_payload_sorted [simp]: "json_sorted (constraint_identity_payload t d is)"
  unfolding constraint_identity_payload_def by (rule json_sorted_obj) (simp_all, code_simp?)

section \<open>Lemmas about replacements\<close>

lemma replacement_new_Inr_iff:
  "replacement_new E r = Inr r' \<longleftrightarrow> r' = r \<and> content_id_pattern ''rel'' (rp_id r) \<and>
     normalize_semantic_text E (rp_rationale r) = rp_rationale r \<and> 1 \<le> length (rp_rationale r) \<and>
     unit_interval (rp_confidence r) \<and> dv_id (rp_newer r) \<noteq> dv_id (rp_older r) \<and>
     dv_family (rp_newer r) = dv_family (rp_older r) \<and> dv_from (rp_older r) < dv_from (rp_newer r) \<and>
     rp_id r = stable_content_id E ''rel''
       (replacement_identity_payload (dv_id (rp_newer r)) (dv_id (rp_older r)))"
  unfolding replacement_new_def
  by (auto simp: rbind_Inr_iff require_normalized_text_Inr require_consistent_document_bindings_iff key_inj_def)

lemma replacement_new_Inr: "replacement_new E r = Inr r' \<Longrightarrow> r' = r"
  by (simp add: replacement_new_Inr_iff)

lemma replacement_wf_iff:
  "replacement_wf E r \<longleftrightarrow>
     document_version_wf E (rp_newer r) \<and> document_version_wf E (rp_older r) \<and> replacement_new E r = Inr r"
proof -
  have id: "r\<lparr>rp_newer := n, rp_older := d\<rparr> = r \<longleftrightarrow> n = rp_newer r \<and> d = rp_older r" for n d
    by (cases r) auto
  have "replacement_wf E r \<longleftrightarrow> (\<exists>n d. document_version_new E (rp_newer r) = Inr n \<and>
      document_version_new E (rp_older r) = Inr d \<and>
      replacement_new E (r\<lparr>rp_newer := n, rp_older := d\<rparr>) = Inr r)"
    by (simp add: replacement_wf_def replacement_revalidate_def rbind_Inr_iff)
  then show ?thesis
    using id unfolding document_version_wf_def by (metis replacement_new_Inr)
qed

lemma replacement_set_new_Inr_iff:
  "replacement_set_new rs = Inr rs' \<longleftrightarrow> rs' = rs \<and> canonical rp_id rs \<and>
     key_inj dv_id (replacement_documents rs) \<and> acyclic (set (replacement_edges rs))"
  using canonical_keys_iff [of rp_id rs]
  by (auto simp: replacement_set_new_def require_consistent_document_bindings_iff acyclic_check_iff)

interpretation replacements: keyed_registry rp_id
  "binding_clash ''document replacement has conflicting current rows''"
  replacement_set_new replacement_set_create
  by unfold_locales (auto simp: replacement_set_create_def replacement_set_new_Inr_iff)

lemma replacement_documents_set:
  "set (replacement_documents rs) = (\<Union>r \<in> set rs. {rp_newer r, rp_older r})"
  by (simp add: replacement_documents_def)

definition document_rank :: "document_version list \<Rightarrow> string \<Rightarrow> date" where
  "document_rank ds i = (case lookup_key dv_id i ds of Some d \<Rightarrow> dv_from d | None \<Rightarrow> Date 0 0 0)"

lemma document_rank_mem:
  assumes "key_inj dv_id ds" and "d \<in> set ds"
  shows "document_rank ds (dv_id d) = dv_from d"
proof -
  have "lookup_key dv_id (dv_id d) ds = Some d"
    using assms by (simp add: lookup_key_Some_iff)
  then show ?thesis by (simp add: document_rank_def)
qed

lemma replacement_edges_acyclic:
  assumes "\<And>r. r \<in> set rs \<Longrightarrow> replacement_new E r = Inr r" and "key_inj dv_id (replacement_documents rs)"
  shows "acyclic_check (replacement_edges rs)"
proof (rule acyclic_check_rank)
  fix a b assume "(a, b) \<in> set (replacement_edges rs)"
  then obtain r where r: "r \<in> set rs" "a = dv_id (rp_newer r)" "b = dv_id (rp_older r)"
    by (auto simp: replacement_edges_def)
  then have "rp_newer r \<in> set (replacement_documents rs)" "rp_older r \<in> set (replacement_documents rs)"
    by (auto simp: replacement_documents_set)
  moreover from assms(1) [OF r(1)] have "dv_from (rp_older r) < dv_from (rp_newer r)"
    by (simp add: replacement_new_Inr_iff)
  ultimately show "document_rank (replacement_documents rs) b < document_rank (replacement_documents rs) a"
    using r by (simp add: document_rank_mem [OF assms(2)])
qed

section \<open>Lemmas about constraints\<close>

lemma temporal_target_new_Inr: "temporal_target_new t = Inr t' \<Longrightarrow> t' = t"
  by (simp add: temporal_target_new_def)

lemma temporal_constraint_new_Inr: "temporal_constraint_new E c = Inr c' \<Longrightarrow> c' = c"
  by (auto simp: temporal_constraint_new_def rbind_Inr_iff)

lemma temporal_constraint_new_id:
  "temporal_constraint_new E c = Inr c' \<Longrightarrow>
     tc_id c = stable_content_id E ''tempc'' (constraint_identity_payload (tc_target c) (tc_bound c) (tc_basis c))"
  by (auto simp: temporal_constraint_new_def rbind_Inr_iff)

lemma temporal_constraint_wf_iff:
  "temporal_constraint_wf E c \<longleftrightarrow>
     temporal_target_new (tc_target c) = Inr (tc_target c) \<and> temporal_constraint_new E c = Inr c"
  by (auto simp: temporal_constraint_wf_def temporal_constraint_revalidate_def rbind_Inr_iff
      dest: temporal_target_new_Inr)

lemma constraint_set_new_Inr_iff:
  "constraint_set_new cs = Inr cs' \<longleftrightarrow> cs' = cs \<and> canonical tc_id cs"
  using canonical_keys_iff [of tc_id cs] by (auto simp: constraint_set_new_def)

interpretation constraints: keyed_registry tc_id
  "binding_clash ''constraint ID has conflicting current rows''" constraint_set_new constraint_set_create
  by unfold_locales (auto simp: constraint_set_create_def constraint_set_new_Inr_iff)

lemma temporal_constraint_with_status_Inr:
  "temporal_constraint_with_status E c s = Inr c' \<Longrightarrow> c' = c\<lparr>tc_status := s\<rparr>"
  by (auto simp: temporal_constraint_with_status_def temporal_constraint_revalidate_def rbind_Inr_iff
      dest!: temporal_target_new_Inr temporal_constraint_new_Inr)

lemma temporal_constraint_with_status_total:
  "temporal_constraint_wf E c \<Longrightarrow> temporal_constraint_with_status E c s = Inr (c\<lparr>tc_status := s\<rparr>)"
  by (auto simp: temporal_constraint_with_status_def temporal_constraint_wf_iff
      temporal_constraint_revalidate_def temporal_constraint_new_def rbind_Inr_iff)

lemma replacement_with_status_total:
  "replacement_wf E r \<Longrightarrow> replacement_with_status E r s = Inr (r\<lparr>rp_status := s\<rparr>)"
  by (auto simp: replacement_with_status_def replacement_wf_iff document_version_wf_def
      replacement_revalidate_def replacement_new_def rbind_Inr_iff)

lemma derived_constraint_Inr:
  assumes "derived_constraint E k i b rel st rat = Inr c"
  shows "tc_target c = \<lparr>tt_kind = k, tt_id = i\<rparr> \<and> tc_bound c = b \<and> tc_basis c = [rel] \<and> tc_status c = st \<and>
    temporal_constraint_wf E c"
proof -
  let ?t = "\<lparr>tt_kind = k, tt_id = i\<rparr>"
  let ?c = "\<lparr>tc_id = stable_content_id E ''tempc'' (constraint_identity_payload ?t b [rel]),
    tc_target = ?t, tc_bound = b, tc_basis = [rel], tc_status = st, tc_rationale = rat\<rparr>"
  from assms have t: "temporal_target_new ?t = Inr ?t" and c: "temporal_constraint_new E ?c = Inr c"
    by (auto simp: derived_constraint_def rbind_Inr_iff dest: temporal_target_new_Inr)
  from temporal_constraint_new_Inr [OF c] have "c = ?c" .
  with t c show ?thesis by (simp add: temporal_constraint_wf_iff)
qed

lemma persisted_relation_ids_eq:
  "persisted_relation_ids as = [i. Some i \<leftarrow> map ra_id as, i \<noteq> []]"
  by (induction as) (auto simp: persisted_relation_ids_def List.map_filter_def split: option.splits)

lemma claim_relation_unique:
  assumes "distinct (persisted_relation_ids as)" and "a \<in> set as" and "ra_id a = Some i" and "i \<noteq> []"
  shows "claim_relation as i = Some a"
proof -
  have uniq: "b = a" if "b \<in> set as" "ra_id b = Some i" for b
    using assms that
  proof (induction as)
    case (Cons x xs)
    have mem: "i \<in> set (persisted_relation_ids xs)" if "y \<in> set xs" "ra_id y = Some i" for y
      using that Cons.prems(4) by (force simp: persisted_relation_ids_def List.map_filter_def)
    have "ra_id x = Some i \<Longrightarrow> i \<notin> set (persisted_relation_ids xs)" "distinct (persisted_relation_ids xs)"
      using Cons.prems(1,4) by (auto simp: persisted_relation_ids_def List.map_filter_def split: option.splits if_splits)
    with Cons mem show ?case by auto
  qed simp
  have "claim_relation as i \<noteq> None"
    using assms(2,3) by (auto simp: claim_relation_def find_None_iff)
  then obtain b where "claim_relation as i = Some b" by auto
  then show ?thesis using uniq [of b] by (auto simp: claim_relation_def find_Some_iff) (metis nth_mem set_rev length_rev)
qed

lemma document_relation_unique:
  assumes "canonical rp_id rs" and "r \<in> set rs"
  shows "document_relation rs (rp_id r) = Some r"
  using assms by (simp add: document_relation_def dict_get_Some_iff [OF canonical_key_inj])

lemma validated_set_new_Inr_iff:
  "validated_set_new v = Inr v' \<longleftrightarrow> v' = v \<and>
     key_inj dv_id (map cr_document (assessment_revisions (vs_graph v)) @ replacement_documents (vs_replacements v)) \<and>
     (\<forall>c \<in> set (vs_constraints v). \<exists>u. constraint_bases_check (vs_graph v) (vs_replacements v) c = Inr u)"
  by (auto simp: validated_set_new_def rbind_Inr_iff require_consistent_document_bindings_iff rmap_ex_iff)

section \<open>Properties\<close>

text \<open>
  The cycle check of the replacement set is redundant: on assessments that their constructor
  accepted, a set that passes the binding check always passes the depth-first search.
\<close>

theorem replacement_set_never_cyclic:
  assumes "list_all (\<lambda>r. replacement_new E r = Inr r) rs"
  shows "replacement_set_new rs = guards
    [(distinct (map rp_id rs), ValueError ''document replacements require one current row per relation_id''),
     (map rp_id rs = sort (map rp_id rs),
        ValueError ''document replacements must use canonical relation_id order''),
     (require_consistent_document_bindings (replacement_documents rs),
        ValueError ''document replacement set embeds conflicting bindings'')] rs"
proof (cases "require_consistent_document_bindings (replacement_documents rs)")
  case True
  then have "acyclic_check (replacement_edges rs)"
    using assms by (intro replacement_edges_acyclic)
      (auto simp: list_all_iff require_consistent_document_bindings_iff)
  then show ?thesis by (simp add: replacement_set_new_def guards.simps)
next
  case False
  then show ?thesis by (simp add: replacement_set_new_def guards.simps)
qed

text \<open>
  C29. Deriving and validating agree: a constraint that \<open>from_supersession\<close> derives from an edge of an
  accepted graph with accepted pairs, and one that \<open>from_document_replacement\<close> derives from a member
  of an accepted replacement set, pass the accepted-basis checks against those graphs.
\<close>

theorem derived_constraints_validate:
  assumes g: "relation_graph_new as = Inr as" "assessments_ok E as"
    and rs: "replacement_set_new rs = Inr rs"
  shows "(\<forall>a \<in> set as. \<forall>status rationale c. from_supersession E a status rationale = Inr c \<longrightarrow>
      (\<exists>u. constraint_bases_check as rs c = Inr u)) \<and>
    (\<forall>r \<in> set rs. \<forall>status rationale c. from_document_replacement E r status rationale = Inr c \<longrightarrow>
      (\<exists>u. constraint_bases_check as rs c = Inr u))"
proof (intro conjI ballI allI impI)
  fix a status rationale c
  assume a: "a \<in> set as" and c: "from_supersession E a status rationale = Inr c"
  from c have t: "ra_type a = Some RelSupersedes" by (auto simp: from_supersession_def rbind_Inr_iff)
  from c obtain x y i where e: "ra_endpoints a = Some (x, y)" "ra_id a = Some i"
    by (cases "ra_endpoints a"; cases "ra_id a") (auto simp: from_supersession_def rbind_Inr_iff)
  from c obtain newer older r
    where n: "pair_revision (ra_pair a) x = Inr newer" "pair_revision (ra_pair a) y = Inr older"
      and d: "derived_constraint E ClaimTarget (cr_revision_id older) (cr_from newer) i status r = Inr c"
    by (auto simp: from_supersession_def rbind_Inr_iff e)
  from derived_constraint_Inr [OF d]
  have c': "tc_target c = \<lparr>tt_kind = ClaimTarget, tt_id = cr_revision_id older\<rparr>"
    "tc_bound c = cr_from newer" "tc_basis c = [i]" by simp_all
  have new: "relation_assessment_new E a = Inr a" "claim_pair_new E (ra_pair a) = Inr (ra_pair a)"
    using g(2) a by (auto simp: assessments_ok_def)
  have ne: "i \<noteq> []"
    using new(1) e(2) by (auto simp: relation_assessment_new_def rbind_Inr_iff opt_all_def
        content_id_pattern_def)
  have "claim_relation as i = Some a"
    using g(1) a e(2) ne by (intro claim_relation_unique) (auto simp: relation_graph_new_Inr_iff)
  moreover have "cr_revision_id older = y"
    using n(2) new(2) by (auto simp: pair_revision_Inr claim_pair_new_Inr_iff)
  ultimately have "claim_basis_check as c i = Inr ()"
    using t e n c' by (simp add: claim_basis_check_def)
  then show "\<exists>u. constraint_bases_check as rs c = Inr u"
    using c' by (simp add: constraint_bases_check_def)
next
  fix r status rationale c
  assume r: "r \<in> set rs" and c: "from_document_replacement E r status rationale = Inr c"
  from c obtain t where st: "rp_status r = Accepted"
    and d: "derived_constraint E DocumentTarget (dv_id (rp_older r)) (dv_from (rp_newer r)) (rp_id r) status t = Inr c"
    by (auto simp: from_document_replacement_def rbind_Inr_iff)
  from derived_constraint_Inr [OF d]
  have c': "tc_target c = \<lparr>tt_kind = DocumentTarget, tt_id = dv_id (rp_older r)\<rparr>"
    "tc_bound c = dv_from (rp_newer r)" "tc_basis c = [rp_id r]" by simp_all
  have "document_relation rs (rp_id r) = Some r"
    using rs r by (intro document_relation_unique) (auto simp: replacement_set_new_Inr_iff)
  then have "document_basis_check rs c (rp_id r) = Inr ()"
    using st c' by (simp add: document_basis_check_def)
  then show "\<exists>u. constraint_bases_check as rs c = Inr u"
    using c' by (simp add: constraint_bases_check_def)
qed

text \<open>
  Status transitions are compare-and-swap operations on one row: on a canonical set of
  well-formed rows \<open>transition_status\<close> succeeds exactly when the row exists with the expected
  status, and then changes nothing but that status.
\<close>

theorem transition_status_cas:
  assumes "canonical tc_id cs" and "list_all (temporal_constraint_wf E) cs"
  shows "constraint_transition_status E cs i expected new_status =
    (case lookup_key tc_id i cs of
       None \<Rightarrow> Inl (KeyError i)
     | Some c \<Rightarrow>
         if tc_status c \<noteq> expected
         then Inl (ValueError ''temporal constraint status changed since the expected snapshot'')
         else Inr (map (\<lambda>d. if tc_id d = i then d\<lparr>tc_status := new_status\<rparr> else d) cs))"
proof (cases "lookup_key tc_id i cs")
  case None
  then show ?thesis by (simp add: constraint_transition_status_def registry_get_def)
next
  case (Some c)
  from lookup_key_Some [OF Some] have c: "c \<in> set cs" "tc_id c = i" by simp_all
  have wf: "temporal_constraint_with_status E c new_status = Inr (c\<lparr>tc_status := new_status\<rparr>)"
    using assms(2) c(1) by (intro temporal_constraint_with_status_total) (simp add: list_all_iff)
  have rep: "replace_key tc_id i (c\<lparr>tc_status := new_status\<rparr>) cs =
      map (\<lambda>d. if tc_id d = i then d\<lparr>tc_status := new_status\<rparr> else d) cs"
    using c canonical_key_inj [OF assms(1)] by (auto simp: replace_key_def key_inj_def)
  have "canonical tc_id (replace_key tc_id i (c\<lparr>tc_status := new_status\<rparr>) cs)"
    using assms(1) c canonical_map_cong [OF replace_key_keys [of tc_id "c\<lparr>tc_status := new_status\<rparr>" i cs]]
    by simp
  then have "constraint_set_new (replace_key tc_id i (c\<lparr>tc_status := new_status\<rparr>) cs) =
      Inr (replace_key tc_id i (c\<lparr>tc_status := new_status\<rparr>) cs)"
    by (simp add: constraint_set_new_Inr_iff)
  with Some wf rep show ?thesis
    by (simp add: constraint_transition_status_def registry_get_def guards.simps)
qed

end
