(* ===== verification/Dependencies.thy ===== *)
theory Dependencies
  imports Claims "HOL-Library.AList"
begin

text \<open>
  \<open>DocumentSpanReference\<close>, \<open>DependencyAssessment\<close> and \<open>DependencyRegistry\<close>: the directed edges
  from a downstream document to an upstream claim, with the exact spans that justify them.
\<close>

section \<open>Spans\<close>

record document_span =
  sp_document_version_id :: string
  sp_note_path :: string
  sp_note_sha256 :: string
  sp_quote :: string
  sp_start_char :: int
  sp_end_char :: int
  sp_evidence :: "evidence list"

definition document_span_new :: "document_span \<Rightarrow> document_span result" where
  "document_span_new s =
     rbind (guards [(content_id_pattern ''docv'' (sp_document_version_id s), ValueError ''document_version_id'')] ()) (\<lambda>_.
     rbind (safe_relative_path (sp_note_path s)) (\<lambda>path.
     guards
       [(sha256_pattern (sp_note_sha256 s), ValueError ''source_note_sha256''),
        (1 \<le> length (sp_quote s) \<and> \<not> blank (sp_quote s),
           ValueError ''quote must contain non-whitespace evidence''),
        (0 \<le> sp_start_char s, ValueError ''start_char''),
        (0 < sp_end_char s, ValueError ''end_char''),
        (sp_start_char s < sp_end_char s, ValueError ''document evidence end_char must exceed start_char''),
        (sp_end_char s - sp_start_char s = int (length (sp_quote s)),
           ValueError ''document evidence offsets must exactly span the quote''),
        (list_all (\<lambda>e. evidence_quote e = sp_quote s) (sp_evidence s),
           ValueError ''PDF evidence quotes must exactly match the document span quote'')]
       (s\<lparr>sp_note_path := path\<rparr>)))"

definition document_span_revalidate :: "py_env \<Rightarrow> document_span \<Rightarrow> document_span result" where
  "document_span_revalidate E s =
     rbind (rmap (evidence_revalidate E) (sp_evidence s)) (\<lambda>es. document_span_new (s\<lparr>sp_evidence := es\<rparr>))"

definition document_span_json :: "document_span \<Rightarrow> json" where
  "document_span_json s = JObj
     [(''document_version_id'', JStr (sp_document_version_id s)),
      (''end_char'', JInt (sp_end_char s)),
      (''evidence'', JArr (map evidence_json (sp_evidence s))),
      (''quote'', JStr (sp_quote s)),
      (''record_id'', JNull),
      (''source_note_path'', JStr (sp_note_path s)),
      (''source_note_sha256'', JStr (sp_note_sha256 s)),
      (''start_char'', JInt (sp_start_char s))]"

definition document_span_wf :: "py_env \<Rightarrow> document_span \<Rightarrow> bool" where
  "document_span_wf E s \<longleftrightarrow> document_span_revalidate E s = Inr s"

section \<open>Dependency assessments\<close>

datatype dependency_kind = Quotes | Implements | Summarizes | HistoricalReference

definition dependency_kind_value :: "dependency_kind \<Rightarrow> string" where
  "dependency_kind_value k = (case k of Quotes \<Rightarrow> ''quotes'' | Implements \<Rightarrow> ''implements''
     | Summarizes \<Rightarrow> ''summarizes'' | HistoricalReference \<Rightarrow> ''historical-reference'')"

record dependency =
  dp_id :: string
  dp_downstream :: document_version
  dp_upstream :: claim_revision
  dp_spans :: "document_span list"
  dp_claims :: "claim_revision list"
  dp_kind :: dependency_kind
  dp_rationale :: string
  dp_confidence :: rat

definition dependency_identity_payload :: "string \<Rightarrow> string \<Rightarrow> dependency_kind \<Rightarrow> json" where
  "dependency_identity_payload source target kind = JObj
     [(''dependency_kind'', JStr (dependency_kind_value kind)),
      (''namespace'', JStr ''mastervault.dependency.v1''),
      (''source_document_version_id'', JStr source),
      (''target_claim_revision_id'', JStr target)]"

definition span_key :: "py_env \<Rightarrow> document_span \<Rightarrow> string" where
  "span_key E s = canonical_json_bytes E (document_span_json s)"

definition note_binding :: "document_span \<Rightarrow> string \<times> string" where
  "note_binding s = (sp_note_path s, sp_note_sha256 s)"

definition claim_note_binding :: "claim_revision \<Rightarrow> string \<times> string" where
  "claim_note_binding r = (cs_note_path (cr_source r), cs_note_sha256 (cr_source r))"

definition dependency_new :: "py_env \<Rightarrow> dependency \<Rightarrow> dependency result" where
  "dependency_new E a =
     rbind (guards
       [(content_id_pattern ''dep'' (dp_id a), ValueError ''dependency_id''),
        (1 \<le> length (dp_spans a), ValueError ''downstream_spans''),
        (1 \<le> length (dp_rationale a), ValueError ''rationale'')] ()) (\<lambda>_.
     rbind (require_normalized_text E (dp_rationale a) ''rationale'' 1) (\<lambda>_.
     guards
       [(0 \<le> dp_confidence a \<and> dp_confidence a \<le> 1, ValueError ''confidence''),
        (dv_id (dp_downstream a) \<noteq> dv_id (cr_document (dp_upstream a)),
           ValueError ''DEPENDS_ON requires distinct downstream and upstream documents''),
        (distinct (map (span_key E) (dp_spans a)) \<and>
         map (span_key E) (dp_spans a) = sort (map (span_key E) (dp_spans a)),
           ValueError ''downstream spans must be canonical, sorted, and unique''),
        (length (remdups (map note_binding (dp_spans a))) = 1,
           ValueError ''all downstream spans must bind the same canonical note snapshot''),
        (list_all (\<lambda>s. sp_document_version_id s = dv_id (dp_downstream a)) (dp_spans a),
           ValueError ''DEPENDS_ON evidence must name the downstream document version''),
        (distinct (map cr_revision_id (dp_claims a)) \<and>
         map cr_revision_id (dp_claims a) = sort (map cr_revision_id (dp_claims a)),
           ValueError ''downstream claim revisions must be canonical, sorted, and unique''),
        (require_consistent_claim_bindings (dp_upstream a # dp_claims a),
           ValueError ''dependency assessment embeds conflicting bindings''),
        (require_consistent_document_bindings [dp_downstream a, cr_document (dp_upstream a)],
           ValueError ''dependency assessment embeds conflicting bindings''),
        (list_all (\<lambda>c. cr_document c = dp_downstream a \<and>
             list_all (\<lambda>s. claim_note_binding c = note_binding s) (dp_spans a)) (dp_claims a),
           ValueError ''every associated downstream claim and span must bind the same note path and SHA''),
        (dp_id a = stable_content_id E ''dep''
             (dependency_identity_payload (dv_id (dp_downstream a)) (cr_revision_id (dp_upstream a)) (dp_kind a)),
           ValueError ''dependency_id does not match dependency semantics'')]
       a))"

text \<open>
  \<open>{key(span): span for span in spans}\<close> keeps the last span of equal keys; equal keys are equal
  spans (\<open>span_key_inj\<close>).
\<close>

fun dict_of :: "('a \<Rightarrow> 'k) \<Rightarrow> 'a list \<Rightarrow> ('k \<times> 'a) list \<Rightarrow> ('k \<times> 'a) list" where
  "dict_of key [] d = d"
| "dict_of key (x # xs) d = dict_of key xs (AList.update (key x) x d)"

definition canonical_spans :: "py_env \<Rightarrow> document_span list \<Rightarrow> document_span list" where
  "canonical_spans E spans = sorted_values (dict_of (span_key E) spans [])"

definition dependency_create ::
  "py_env \<Rightarrow> document_version \<Rightarrow> claim_revision \<Rightarrow> dependency_kind \<Rightarrow> document_span list \<Rightarrow>
     claim_revision list \<Rightarrow> string \<Rightarrow> rat \<Rightarrow> dependency result" where
  "dependency_create E downstream upstream kind spans claims rationale confidence =
     rbind (canonical_semantic_input E rationale ''rationale'' 1) (\<lambda>canonical_rationale.
     rbind (dedupe cr_revision_id
        (binding_clash ''downstream claim revision has conflicting source bindings'') claims) (\<lambda>canonical_claims.
     dependency_new E
       \<lparr>dp_id = stable_content_id E ''dep''
          (dependency_identity_payload (dv_id downstream) (cr_revision_id upstream) kind),
        dp_downstream = downstream, dp_upstream = upstream, dp_spans = canonical_spans E spans,
        dp_claims = canonical_claims, dp_kind = kind, dp_rationale = canonical_rationale,
        dp_confidence = confidence\<rparr>))"

definition dependency_revalidate :: "py_env \<Rightarrow> dependency \<Rightarrow> dependency result" where
  "dependency_revalidate E a =
     rbind (document_version_new E (dp_downstream a)) (\<lambda>d.
     rbind (claim_revision_revalidate E (dp_upstream a)) (\<lambda>u.
     rbind (rmap (document_span_revalidate E) (dp_spans a)) (\<lambda>ss.
     rbind (rmap (claim_revision_revalidate E) (dp_claims a)) (\<lambda>cs.
     dependency_new E (a\<lparr>dp_downstream := d, dp_upstream := u, dp_spans := ss, dp_claims := cs\<rparr>)))))"

definition dependency_json :: "dependency \<Rightarrow> json" where
  "dependency_json a = JObj
     [(''confidence'', JFloat (dp_confidence a)),
      (''dependency_id'', JStr (dp_id a)),
      (''dependency_kind'', JStr (dependency_kind_value (dp_kind a))),
      (''downstream'', document_version_json (dp_downstream a)),
      (''downstream_claim_revisions'', JArr (map claim_revision_json (dp_claims a))),
      (''downstream_spans'', JArr (map document_span_json (dp_spans a))),
      (''rationale'', JStr (dp_rationale a)),
      (''relation_type'', JStr ''DEPENDS_ON''),
      (''upstream'', claim_revision_json (dp_upstream a))]"

definition dependency_wf :: "py_env \<Rightarrow> dependency \<Rightarrow> bool" where
  "dependency_wf E a \<longleftrightarrow> dependency_revalidate E a = Inr a"

section \<open>The registry\<close>

definition dependency_revisions :: "dependency list \<Rightarrow> claim_revision list" where
  "dependency_revisions as = concat (map (\<lambda>a. dp_upstream a # dp_claims a) as)"

definition dependency_registry_new :: "dependency list \<Rightarrow> dependency list result" where
  "dependency_registry_new as = guards
     [(distinct (map dp_id as), ValueError ''dependency registry requires one binding per dependency_id''),
      (map dp_id as = sort (map dp_id as),
         ValueError ''dependency assessments must use canonical dependency_id order''),
      (require_consistent_claim_bindings (dependency_revisions as),
         ValueError ''dependency registry embeds conflicting bindings''),
      (require_consistent_document_bindings
           (map dp_downstream as @ map cr_document (dependency_revisions as)),
         ValueError ''dependency registry embeds conflicting bindings'')]
     as"

definition dependency_registry_create :: "dependency list \<Rightarrow> dependency list result" where
  "dependency_registry_create as =
     rbind (dedupe dp_id (binding_clash ''semantic dependency has multiple non-identical bindings'') as)
       dependency_registry_new"

definition dependency_registry_get :: "dependency list \<Rightarrow> string \<Rightarrow> dependency result" where
  "dependency_registry_get as dependency_id = registry_get dp_id as dependency_id"

definition replace_binding :: "dependency list \<Rightarrow> dependency \<Rightarrow> dependency \<Rightarrow> dependency list result" where
  "replace_binding as expected replacement =
     rbind (guards [(dp_id expected = dp_id replacement,
        ValueError ''replacement must preserve semantic dependency identity'')] ()) (\<lambda>_.
     rbind (dependency_registry_get as (dp_id expected)) (\<lambda>current.
     rbind (guards
       [(current = expected, ValueError ''dependency binding changed since the expected snapshot''),
        (dp_downstream replacement = dp_downstream expected \<and> dp_upstream replacement = dp_upstream expected,
           ValueError ''dependency replacement must preserve exact semantic endpoint bindings'')] ()) (\<lambda>_.
     dependency_registry_new (replace_key dp_id (dp_id expected) replacement as))))"

definition dependency_registry_revalidate :: "py_env \<Rightarrow> dependency list \<Rightarrow> dependency list result" where
  "dependency_registry_revalidate E as = rbind (rmap (dependency_revalidate E) as) dependency_registry_new"

section \<open>JSON views\<close>

lemma dependency_kind_value_inj [simp]: "dependency_kind_value a = dependency_kind_value b \<longleftrightarrow> a = b"
  by (cases a; cases b) (simp_all add: dependency_kind_value_def)

lemma document_span_json_inj [simp]: "document_span_json a = document_span_json b \<longleftrightarrow> a = b"
  by (auto simp: document_span_json_def)

lemma document_span_json_sorted [simp]: "json_sorted (document_span_json s)"
  unfolding document_span_json_def by (rule json_sorted_obj) (simp_all, code_simp?)

lemma span_key_inj: "float_ok E \<Longrightarrow> span_key E a = span_key E b \<longleftrightarrow> a = b"
  by (simp add: span_key_def canonical_bytes_sorted_inj)

lemma map_model_json_inj [simp]:
  "map claim_revision_json xs = map claim_revision_json ys \<longleftrightarrow> xs = ys"
  "map document_span_json ss = map document_span_json ts \<longleftrightarrow> ss = ts"
  "map document_version_json ds = map document_version_json es \<longleftrightarrow> ds = es"
  by (rule map_inj_eq, simp)+

lemma list_all_model_sorted [simp]:
  "list_all json_sorted (map claim_revision_json xs)" "list_all json_sorted (map document_span_json ss)"
  "list_all json_sorted (map document_version_json ds)"
  by (simp_all add: list_all_iff)

lemma dependency_json_inj [simp]: "dependency_json a = dependency_json b \<longleftrightarrow> a = b"
  by (auto simp: dependency_json_def)

lemma dependency_json_sorted [simp]: "json_sorted (dependency_json a)"
  unfolding dependency_json_def by (rule json_sorted_obj) (simp_all, code_simp?)

lemma dependency_identity_payload_inj [simp]:
  "dependency_identity_payload s t k = dependency_identity_payload s' t' k' \<longleftrightarrow> s = s' \<and> t = t' \<and> k = k'"
  by (auto simp: dependency_identity_payload_def)

lemma dependency_identity_payload_sorted [simp]: "json_sorted (dependency_identity_payload s t k)"
  unfolding dependency_identity_payload_def by (rule json_sorted_obj) (simp_all, code_simp?)

section \<open>Lemmas about spans and assessments\<close>

lemma document_span_new_Inr_iff:
  "document_span_new s = Inr s' \<longleftrightarrow>
     (\<exists>path. safe_relative_path (sp_note_path s) = Inr path \<and> s' = s\<lparr>sp_note_path := path\<rparr>) \<and>
     content_id_pattern ''docv'' (sp_document_version_id s) \<and> sha256_pattern (sp_note_sha256 s) \<and>
     \<not> blank (sp_quote s) \<and> sp_quote s \<noteq> [] \<and> 0 \<le> sp_start_char s \<and>
     sp_end_char s = sp_start_char s + int (length (sp_quote s)) \<and>
     (\<forall>e \<in> set (sp_evidence s). evidence_quote e = sp_quote s)"
proof -
  have "sp_quote s \<noteq> [] \<Longrightarrow> 0 \<le> a \<Longrightarrow> 0 < a + int (length (sp_quote s))" for a
    by (cases "sp_quote s") auto
  then show ?thesis
    unfolding document_span_new_def by (auto simp: rbind_Inr_iff list_all_iff Suc_le_eq)
qed

lemma document_span_wf_iff:
  "document_span_wf E s \<longleftrightarrow>
     rmap (evidence_revalidate E) (sp_evidence s) = Inr (sp_evidence s) \<and> document_span_new s = Inr s"
  by (auto simp: document_span_wf_def document_span_revalidate_def rbind_Inr_iff
      dest: evidence_list_revalidate_Inr)

lemma dependency_new_Inr: "dependency_new E a = Inr a' \<Longrightarrow> a' = a"
  by (auto simp: dependency_new_def rbind_Inr_iff)

lemma dependency_wf_iff:
  "dependency_wf E a \<longleftrightarrow>
     document_version_wf E (dp_downstream a) \<and> claim_revision_wf E (dp_upstream a) \<and>
     (\<forall>s \<in> set (dp_spans a). document_span_wf E s) \<and> (\<forall>c \<in> set (dp_claims a). claim_revision_wf E c) \<and>
     dependency_new E a = Inr a"
proof -
  have id: "a\<lparr>dp_downstream := d, dp_upstream := u, dp_spans := ss, dp_claims := cs\<rparr> = a \<longleftrightarrow>
      d = dp_downstream a \<and> u = dp_upstream a \<and> ss = dp_spans a \<and> cs = dp_claims a" for d u ss cs
    by (cases a) auto
  have "dependency_wf E a \<longleftrightarrow> (\<exists>d u ss cs. document_version_new E (dp_downstream a) = Inr d \<and>
      claim_revision_revalidate E (dp_upstream a) = Inr u \<and>
      rmap (document_span_revalidate E) (dp_spans a) = Inr ss \<and>
      rmap (claim_revision_revalidate E) (dp_claims a) = Inr cs \<and>
      dependency_new E (a\<lparr>dp_downstream := d, dp_upstream := u, dp_spans := ss, dp_claims := cs\<rparr>) = Inr a)"
    by (simp add: dependency_wf_def dependency_revalidate_def rbind_Inr_iff)
  also have "\<dots> \<longleftrightarrow> document_version_new E (dp_downstream a) = Inr (dp_downstream a) \<and>
      claim_revision_revalidate E (dp_upstream a) = Inr (dp_upstream a) \<and>
      rmap (document_span_revalidate E) (dp_spans a) = Inr (dp_spans a) \<and>
      rmap (claim_revision_revalidate E) (dp_claims a) = Inr (dp_claims a) \<and> dependency_new E a = Inr a"
    using id by (metis dependency_new_Inr)
  finally show ?thesis
    unfolding rmap_id_iff by (simp add: document_version_wf_def claim_revision_wf_def document_span_wf_def)
qed

lemma dependency_new_id:
  "dependency_new E a = Inr a' \<Longrightarrow> dp_id a = stable_content_id E ''dep''
     (dependency_identity_payload (dv_id (dp_downstream a)) (cr_revision_id (dp_upstream a)) (dp_kind a))"
  by (auto simp: dependency_new_def rbind_Inr_iff)

lemma dependency_registry_new_Inr_iff:
  "dependency_registry_new as = Inr as' \<longleftrightarrow> as' = as \<and> canonical dp_id as \<and>
     key_inj cr_revision_id (dependency_revisions as) \<and>
     key_inj dv_id (map dp_downstream as @ map cr_document (dependency_revisions as))"
proof -
  have "key_inj dv_id (xs @ ys) \<Longrightarrow> key_inj dv_id ys" for xs ys :: "document_version list"
    by (simp add: key_inj_def)
  then show ?thesis
    using canonical_keys_iff [of dp_id as]
    by (simp add: dependency_registry_new_def require_consistent_claim_bindings_iff
        require_consistent_document_bindings_iff) blast
qed

interpretation dependencies: keyed_registry dp_id
  "binding_clash ''semantic dependency has multiple non-identical bindings''"
  dependency_registry_new dependency_registry_create
  by unfold_locales (auto simp: dependency_registry_create_def dependency_registry_new_Inr_iff)

section \<open>Properties\<close>

lemma dict_ok_update:
  assumes inj: "\<And>a b. key a = key b \<longleftrightarrow> a = b" and "dict_ok key d"
  shows "dict_ok key (AList.update (key s) s d) \<and>
    snd ` set (AList.update (key s) s d) = insert s (snd ` set d)"
  using assms(2)
proof (induction d)
  case (Cons kx d)
  obtain k x where kx: "kx = (k, x)" by force
  from Cons.prems have k: "k = key x" and d: "dict_ok key d" by (auto simp: kx dict_ok_def)
  show ?case
  proof (cases "s = x")
    case True
    with Cons.prems show ?thesis by (simp add: kx k)
  next
    case False
    then have "key x \<noteq> key s" by (simp add: inj)
    moreover have "fst ` set (AList.update (key s) s d) = insert (key s) (fst ` set d)"
      by (metis dom_map_of_conv_image_fst update_conv' dom_fun_upd option.distinct(1))
    ultimately show ?thesis
      using Cons.IH [OF d] Cons.prems by (auto simp: kx k dict_ok_def)
  qed
qed (simp add: dict_ok_def)

lemma lookup_replace_key:
  assumes "key r = k" and "lookup_key key k xs \<noteq> None"
  shows "lookup_key key j (replace_key key k r xs) = (if j = k then Some r else lookup_key key j xs)"
  using assms lookup_replace_key_same lookup_replace_key_other by metis

text \<open>
  \<open>DependencyRegistry.replace_binding\<close> is a compare-and-swap with an exact frame: when it
  succeeds the expected binding was current, the replacement has the same identity and endpoints,
  exactly this entry changes, the ids and their order stay, and every other lookup is unchanged.
  A stale expectation raises and an unknown id raises \<open>KeyError\<close>.
\<close>

theorem replace_binding_cas:
  assumes "dp_id expected = dp_id replacement"
  shows "(lookup_key dp_id (dp_id expected) as = None \<longrightarrow>
       replace_binding as expected replacement = Inl (KeyError (dp_id expected))) \<and>
    (\<forall>current. lookup_key dp_id (dp_id expected) as = Some current \<and> current \<noteq> expected \<longrightarrow>
       replace_binding as expected replacement =
         Inl (ValueError ''dependency binding changed since the expected snapshot'')) \<and>
    (\<forall>as'. replace_binding as expected replacement = Inr as' \<longrightarrow>
       expected \<in> set as \<and> map dp_id as' = map dp_id as \<and> canonical dp_id as' \<and>
       dp_downstream replacement = dp_downstream expected \<and> dp_upstream replacement = dp_upstream expected \<and>
       (\<forall>k. lookup_key dp_id k as' =
          (if k = dp_id expected then Some replacement else lookup_key dp_id k as)))"
proof (intro conjI allI impI)
  assume "lookup_key dp_id (dp_id expected) as = None"
  then show "replace_binding as expected replacement = Inl (KeyError (dp_id expected))"
    using assms by (simp add: replace_binding_def guards.simps dependency_registry_get_def registry_get_def)
next
  fix current assume "lookup_key dp_id (dp_id expected) as = Some current \<and> current \<noteq> expected"
  then show "replace_binding as expected replacement =
      Inl (ValueError ''dependency binding changed since the expected snapshot'')"
    using assms by (simp add: replace_binding_def guards.simps dependency_registry_get_def registry_get_def)
next
  fix as' assume r: "replace_binding as expected replacement = Inr as'"
  then have cur: "lookup_key dp_id (dp_id expected) as = Some expected"
    and as': "as' = replace_key dp_id (dp_id expected) replacement as" and can: "canonical dp_id as'"
    and ends: "dp_downstream replacement = dp_downstream expected"
      "dp_upstream replacement = dp_upstream expected"
    by (auto simp: replace_binding_def rbind_Inr_iff dependency_registry_get_def registry_get_Inr
        dependency_registry_new_Inr_iff)
  show "expected \<in> set as" using cur by (auto dest: lookup_key_Some)
  show "map dp_id as' = map dp_id as" using assms by (simp add: as' replace_key_keys)
  show "canonical dp_id as'" by (rule can)
  show "dp_downstream replacement = dp_downstream expected" "dp_upstream replacement = dp_upstream expected"
    using ends .
  show "lookup_key dp_id k as' = (if k = dp_id expected then Some replacement else lookup_key dp_id k as)" for k
    using lookup_replace_key [of dp_id replacement "dp_id expected" as k] cur assms by (simp add: as')
qed

lemma dict_ok_dict_of:
  assumes inj: "\<And>a b. key a = key b \<longleftrightarrow> a = b"
  shows "dict_ok key d \<Longrightarrow> dict_ok key (dict_of key ss d) \<and>
    snd ` set (dict_of key ss d) = snd ` set d \<union> set ss"
proof (induction ss arbitrary: d)
  case (Cons s ss)
  have "dict_ok key (AList.update (key s) s d) \<and>
      snd ` set (AList.update (key s) s d) = insert s (snd ` set d)"
    using Cons.prems by (rule dict_ok_update [OF inj])
  with Cons.IH show ?case by auto
qed simp

lemma canonical_spans_props:
  assumes "float_ok E"
  shows "canonical (span_key E) (canonical_spans E ss)" and "set (canonical_spans E ss) = set ss"
proof -
  have inj: "span_key E a = span_key E b \<longleftrightarrow> a = b" for a b
    using assms by (rule span_key_inj)
  have "dict_ok (span_key E) []" by (simp add: dict_ok_def)
  note d = dict_ok_dict_of [where key = "span_key E", OF inj this, of ss]
  have "canonical (span_key E) (canonical_spans E ss) \<and> set (canonical_spans E ss) = set ss"
    using sorted_values_canonical [OF conjunct1 [OF d]] conjunct2 [OF d] by (simp add: canonical_spans_def)
  then show "canonical (span_key E) (canonical_spans E ss)" "set (canonical_spans E ss) = set ss" by auto
qed

text \<open>
  Span canonicalisation: the spans of a created dependency are exactly the given spans, strictly
  sorted by their canonical encoding, so neither order nor repetition of the arguments matters.
\<close>

theorem dependency_spans_canonical:
  assumes "float_ok E"
  shows "set (canonical_spans E spans) = set spans \<and> canonical (span_key E) (canonical_spans E spans) \<and>
    (\<forall>spans'. set spans' = set spans \<longrightarrow> canonical_spans E spans' = canonical_spans E spans)"
  using canonical_spans_props [OF assms] by (metis canonical_unique)

end
