(* ===== verification/Aggregate.thy ===== *)
theory Aggregate
  imports Temporal Dependencies
begin

text \<open>
  \<open>ChangeControlAggregate\<close>: the closed change-control state that the store persists, its
  constructor \<open>_closed_binding_graph\<close> and its digest \<open>aggregate_sha256\<close>.
\<close>

record aggregate =
  ag_id :: string
  ag_documents :: "document_version list"
  ag_claims :: "claim_revision list"
  ag_graph :: "relation_assessment list"
  ag_dependencies :: "dependency list"
  ag_replacements :: "replacement list"
  ag_constraints :: "temporal_constraint list"

section \<open>The closed binding graph\<close>

definition require_document :: "aggregate \<Rightarrow> document_version \<Rightarrow> unit result" where
  "require_document a d =
     (case dict_get dv_id (ag_documents a) (dv_id d) of
        None \<Rightarrow> Inl (ValueError ''references absent document root'')
      | Some found \<Rightarrow> guards [(found = d, ValueError ''has a binding that differs from document root'')] ())"

definition require_claim :: "aggregate \<Rightarrow> claim_revision \<Rightarrow> unit result" where
  "require_claim a r =
     (case dict_get cr_revision_id (ag_claims a) (cr_revision_id r) of
        None \<Rightarrow> Inl (ValueError ''references absent claim root'')
      | Some found \<Rightarrow>
          rbind (guards [(found = r, ValueError ''has a binding that differs from claim root'')] ()) (\<lambda>_.
          require_document a (cr_document r)))"

definition require_span :: "aggregate \<Rightarrow> dependency \<Rightarrow> document_span \<Rightarrow> unit result" where
  "require_span a d s =
     (case dict_get dv_id (ag_documents a) (sp_document_version_id s) of
        None \<Rightarrow> Inl (ValueError ''dependency span references absent document root'')
      | Some found \<Rightarrow> guards
          [(found = dp_downstream d,
              ValueError ''dependency span document root differs from its downstream binding'')] ())"

definition require_dependency :: "aggregate \<Rightarrow> dependency \<Rightarrow> unit list result" where
  "require_dependency a d =
     rbind (require_document a (dp_downstream d)) (\<lambda>_.
     rbind (require_claim a (dp_upstream d)) (\<lambda>_.
     rbind (rmap (require_claim a) (dp_claims d)) (\<lambda>_.
     rmap (require_span a d) (dp_spans d))))"

definition require_target :: "aggregate \<Rightarrow> temporal_constraint \<Rightarrow> unit result" where
  "require_target a c =
     (if tt_kind (tc_target c) = DocumentTarget then
        guards [(tt_id (tc_target c) \<in> dv_id ` set (ag_documents a),
          ValueError ''temporal constraint references absent document target'')] ()
      else
        guards [(tt_id (tc_target c) \<in> cr_revision_id ` set (ag_claims a),
          ValueError ''temporal constraint references absent claim target'')] ())"

definition validated_temporal_constraints :: "aggregate \<Rightarrow> validated_set result" where
  "validated_temporal_constraints a = validated_set_new
     \<lparr>vs_constraints = ag_constraints a, vs_graph = ag_graph a, vs_replacements = ag_replacements a\<rparr>"

definition closed_binding_graph :: "aggregate \<Rightarrow> aggregate result" where
  "closed_binding_graph a =
     rbind (rmap (\<lambda>r. require_document a (cr_document r)) (ag_claims a)) (\<lambda>_.
     rbind (rmap (require_claim a) (assessment_revisions (ag_graph a))) (\<lambda>_.
     rbind (rmap (require_dependency a) (ag_dependencies a)) (\<lambda>_.
     rbind (rmap (require_document a) (replacement_documents (ag_replacements a))) (\<lambda>_.
     rbind (rmap (require_target a) (ag_constraints a)) (\<lambda>_.
     rbind (validated_temporal_constraints a) (\<lambda>_. Inr a))))))"

definition aggregate_new :: "py_env \<Rightarrow> aggregate \<Rightarrow> aggregate result" where
  "aggregate_new E a =
     rbind (guards [(logical_key_pattern (ag_id a), ValueError ''aggregate_id'')] ()) (\<lambda>_.
     rbind (require_normalized_key E (ag_id a) ''aggregate_id'') (\<lambda>_.
     closed_binding_graph a))"

definition aggregate_create ::
  "py_env \<Rightarrow> string \<Rightarrow> document_version list \<Rightarrow> claim_revision list \<Rightarrow> relation_assessment list \<Rightarrow>
     dependency list \<Rightarrow> replacement list \<Rightarrow> temporal_constraint list \<Rightarrow> aggregate result" where
  "aggregate_create E aggregate_id documents claims graph dependencies replacements constraints =
     rbind (normalize_logical_key E aggregate_id) (\<lambda>key.
     aggregate_new E
       \<lparr>ag_id = key, ag_documents = documents, ag_claims = claims, ag_graph = graph,
        ag_dependencies = dependencies, ag_replacements = replacements, ag_constraints = constraints\<rparr>)"

text \<open>\<open>ChangeControlAggregate.model_validate(aggregate.model_dump(mode="json"))\<close>\<close>

definition aggregate_revalidate :: "py_env \<Rightarrow> aggregate \<Rightarrow> aggregate result" where
  "aggregate_revalidate E a =
     rbind (document_registry_revalidate E (ag_documents a)) (\<lambda>ds.
     rbind (claim_registry_revalidate E (ag_claims a)) (\<lambda>cs.
     rbind (relation_graph_revalidate E (ag_graph a)) (\<lambda>g.
     rbind (dependency_registry_revalidate E (ag_dependencies a)) (\<lambda>deps.
     rbind (replacement_set_revalidate E (ag_replacements a)) (\<lambda>rs.
     rbind (constraint_set_revalidate E (ag_constraints a)) (\<lambda>tcs.
     aggregate_new E
       \<lparr>ag_id = ag_id a, ag_documents = ds, ag_claims = cs, ag_graph = g,
        ag_dependencies = deps, ag_replacements = rs, ag_constraints = tcs\<rparr>))))))"

definition wrapped :: "string \<Rightarrow> ('a \<Rightarrow> json) \<Rightarrow> 'a list \<Rightarrow> json" where
  "wrapped field f xs = JObj [(field, JArr (map f xs))]"

definition aggregate_json :: "aggregate \<Rightarrow> json" where
  "aggregate_json a = JObj
     [(''aggregate_id'', JStr (ag_id a)),
      (''claims'', wrapped ''revisions'' claim_revision_json (ag_claims a)),
      (''dependencies'', wrapped ''assessments'' dependency_json (ag_dependencies a)),
      (''document_replacements'', wrapped ''assessments'' replacement_json (ag_replacements a)),
      (''documents'', wrapped ''documents'' document_version_json (ag_documents a)),
      (''relation_graph'', wrapped ''assessments'' relation_assessment_json (ag_graph a)),
      (''schema_version'', JInt 1),
      (''temporal_constraints'', wrapped ''constraints'' temporal_constraint_json (ag_constraints a))]"

definition aggregate_sha256 :: "py_env \<Rightarrow> aggregate \<Rightarrow> string result" where
  "aggregate_sha256 E a = rbind (aggregate_revalidate E a) (\<lambda>v. Inr (sha256_json E (aggregate_json v)))"

definition aggregate_wf :: "py_env \<Rightarrow> aggregate \<Rightarrow> bool" where
  "aggregate_wf E a \<longleftrightarrow> aggregate_revalidate E a = Inr a"

section \<open>JSON view\<close>

lemma wrapped_inj: "(\<And>x y. f x = f y \<longleftrightarrow> x = y) \<Longrightarrow> wrapped k f xs = wrapped k f ys \<longleftrightarrow> xs = ys"
  by (simp add: wrapped_def map_inj_eq)

lemma wrapped_sorted: "(\<And>x. json_sorted (f x)) \<Longrightarrow> json_sorted (wrapped k f xs)"
  unfolding wrapped_def by (rule json_sorted_obj) (simp_all add: list_all_iff)

lemma wrapped_models_inj [simp]:
  "wrapped k claim_revision_json cs = wrapped k claim_revision_json cs' \<longleftrightarrow> cs = cs'"
  "wrapped k dependency_json ds = wrapped k dependency_json ds' \<longleftrightarrow> ds = ds'"
  "wrapped k replacement_json rs = wrapped k replacement_json rs' \<longleftrightarrow> rs = rs'"
  "wrapped k document_version_json vs = wrapped k document_version_json vs' \<longleftrightarrow> vs = vs'"
  "wrapped k relation_assessment_json as = wrapped k relation_assessment_json as' \<longleftrightarrow> as = as'"
  "wrapped k temporal_constraint_json ts = wrapped k temporal_constraint_json ts' \<longleftrightarrow> ts = ts'"
  by (rule wrapped_inj, simp)+

lemma wrapped_models_sorted [simp]:
  "json_sorted (wrapped k claim_revision_json cs)" "json_sorted (wrapped k dependency_json ds)"
  "json_sorted (wrapped k replacement_json rs)" "json_sorted (wrapped k document_version_json vs)"
  "json_sorted (wrapped k relation_assessment_json as)" "json_sorted (wrapped k temporal_constraint_json ts)"
  by (rule wrapped_sorted, simp)+

lemma aggregate_json_inj [simp]: "aggregate_json a = aggregate_json b \<longleftrightarrow> a = b"
  by (auto simp: aggregate_json_def)

lemma aggregate_json_sorted [simp]: "json_sorted (aggregate_json a)"
  unfolding aggregate_json_def by (rule json_sorted_obj) (simp_all, code_simp?)

section \<open>What the constructor guarantees\<close>

lemma require_document_Inr:
  "require_document a d = Inr u \<longleftrightarrow> dict_get dv_id (ag_documents a) (dv_id d) = Some d"
  by (auto simp: require_document_def split: option.splits)

lemma require_claim_Inr:
  "require_claim a r = Inr u \<longleftrightarrow> dict_get cr_revision_id (ag_claims a) (cr_revision_id r) = Some r \<and>
     dict_get dv_id (ag_documents a) (dv_id (cr_document r)) = Some (cr_document r)"
  by (auto simp: require_claim_def require_document_Inr rbind_Inr_iff split: option.splits)

lemma require_span_Inr:
  "require_span a d s = Inr u \<longleftrightarrow>
     dict_get dv_id (ag_documents a) (sp_document_version_id s) = Some (dp_downstream d)"
  by (auto simp: require_span_def split: option.splits)

lemma require_dependency_Inr:
  "(\<exists>u. require_dependency a d = Inr u) \<longleftrightarrow>
     require_document a (dp_downstream d) = Inr () \<and> require_claim a (dp_upstream d) = Inr () \<and>
     (\<forall>c \<in> set (dp_claims d). require_claim a c = Inr ()) \<and>
     (\<forall>s \<in> set (dp_spans d). require_span a d s = Inr ())"
  by (simp add: require_dependency_def rbind_Inr_iff rmap_ex_iff)

lemma require_target_Inr:
  "require_target a c = Inr u \<longleftrightarrow>
     tt_id (tc_target c) \<in> (if tt_kind (tc_target c) = DocumentTarget then dv_id ` set (ag_documents a)
       else cr_revision_id ` set (ag_claims a))"
  by (simp add: require_target_def)

lemma closed_binding_graph_Inr_iff:
  "closed_binding_graph a = Inr a' \<longleftrightarrow> a' = a \<and>
     (\<forall>r \<in> set (ag_claims a). require_document a (cr_document r) = Inr ()) \<and>
     (\<forall>r \<in> set (assessment_revisions (ag_graph a)). require_claim a r = Inr ()) \<and>
     (\<forall>d \<in> set (ag_dependencies a). \<exists>u. require_dependency a d = Inr u) \<and>
     (\<forall>d \<in> set (replacement_documents (ag_replacements a)). require_document a d = Inr ()) \<and>
     (\<forall>c \<in> set (ag_constraints a). require_target a c = Inr ()) \<and>
     (\<exists>v. validated_temporal_constraints a = Inr v)"
  by (simp add: closed_binding_graph_def rbind_Inr_iff rmap_ex_iff) blast

lemma aggregate_new_Inr_iff:
  "aggregate_new E a = Inr a' \<longleftrightarrow> logical_key_pattern (ag_id a) \<and>
     normalize_logical_key E (ag_id a) = Inr (ag_id a) \<and> closed_binding_graph a = Inr a'"
  by (auto simp: aggregate_new_def rbind_Inr_iff require_normalized_key_Inr)

lemma aggregate_new_Inr: "aggregate_new E a = Inr a' \<Longrightarrow> a' = a"
  by (simp add: aggregate_new_Inr_iff closed_binding_graph_Inr_iff)

section \<open>Well-formed aggregates\<close>

lemma document_registry_revalidate_wf:
  "document_registry_revalidate E ds = Inr ds \<longleftrightarrow>
     (\<forall>d \<in> set ds. document_version_wf E d) \<and> document_registry_new ds = Inr ds"
  unfolding document_registry_revalidate_def document_version_wf_def rmap_id_iff [symmetric]
  by (auto simp: rbind_Inr_iff document_registry_new_Inr)

lemma claim_registry_revalidate_wf:
  "claim_registry_revalidate E rs = Inr rs \<longleftrightarrow>
     (\<forall>r \<in> set rs. claim_revision_wf E r) \<and> claim_registry_new rs = Inr rs"
  unfolding claim_registry_revalidate_def claim_revision_wf_def rmap_id_iff [symmetric]
  by (auto simp: rbind_Inr_iff claim_registry_new_Inr)

lemma relation_graph_revalidate_wf:
  "relation_graph_revalidate E as = Inr as \<longleftrightarrow>
     (\<forall>a \<in> set as. relation_assessment_wf E a) \<and> relation_graph_new as = Inr as"
  unfolding relation_graph_revalidate_def relation_assessment_wf_def rmap_id_iff [symmetric]
  by (auto simp: rbind_Inr_iff relation_graph_new_Inr_iff)

lemma dependency_registry_revalidate_wf:
  "dependency_registry_revalidate E as = Inr as \<longleftrightarrow>
     (\<forall>a \<in> set as. dependency_wf E a) \<and> dependency_registry_new as = Inr as"
  unfolding dependency_registry_revalidate_def dependency_wf_def rmap_id_iff [symmetric]
  by (auto simp: rbind_Inr_iff dependency_registry_new_Inr_iff)

lemma replacement_set_revalidate_wf:
  "replacement_set_revalidate E rs = Inr rs \<longleftrightarrow>
     (\<forall>r \<in> set rs. replacement_wf E r) \<and> replacement_set_new rs = Inr rs"
  unfolding replacement_set_revalidate_def replacement_wf_def rmap_id_iff [symmetric]
  by (auto simp: rbind_Inr_iff replacement_set_new_Inr_iff)

lemma constraint_set_revalidate_wf:
  "constraint_set_revalidate E cs = Inr cs \<longleftrightarrow>
     (\<forall>c \<in> set cs. temporal_constraint_wf E c) \<and> constraint_set_new cs = Inr cs"
  unfolding constraint_set_revalidate_def temporal_constraint_wf_def rmap_id_iff [symmetric]
  by (auto simp: rbind_Inr_iff constraint_set_new_Inr_iff)

lemmas revalidate_wf =
  document_registry_revalidate_wf claim_registry_revalidate_wf relation_graph_revalidate_wf
  dependency_registry_revalidate_wf replacement_set_revalidate_wf constraint_set_revalidate_wf

lemma aggregate_wf_iff:
  "aggregate_wf E a \<longleftrightarrow>
     document_registry_revalidate E (ag_documents a) = Inr (ag_documents a) \<and>
     claim_registry_revalidate E (ag_claims a) = Inr (ag_claims a) \<and>
     relation_graph_revalidate E (ag_graph a) = Inr (ag_graph a) \<and>
     dependency_registry_revalidate E (ag_dependencies a) = Inr (ag_dependencies a) \<and>
     replacement_set_revalidate E (ag_replacements a) = Inr (ag_replacements a) \<and>
     constraint_set_revalidate E (ag_constraints a) = Inr (ag_constraints a) \<and>
     aggregate_new E a = Inr a"
proof
  assume "aggregate_wf E a"
  then obtain ds cs g deps rs tcs where parts:
    "document_registry_revalidate E (ag_documents a) = Inr ds"
    "claim_registry_revalidate E (ag_claims a) = Inr cs"
    "relation_graph_revalidate E (ag_graph a) = Inr g"
    "dependency_registry_revalidate E (ag_dependencies a) = Inr deps"
    "replacement_set_revalidate E (ag_replacements a) = Inr rs"
    "constraint_set_revalidate E (ag_constraints a) = Inr tcs"
    and new: "aggregate_new E \<lparr>ag_id = ag_id a, ag_documents = ds, ag_claims = cs, ag_graph = g,
        ag_dependencies = deps, ag_replacements = rs, ag_constraints = tcs\<rparr> = Inr a"
    unfolding aggregate_wf_def aggregate_revalidate_def rbind_Inr_iff by blast
  from aggregate_new_Inr [OF new]
  have a: "a = \<lparr>ag_id = ag_id a, ag_documents = ds, ag_claims = cs, ag_graph = g,
        ag_dependencies = deps, ag_replacements = rs, ag_constraints = tcs\<rparr>" .
  then have "ag_documents a = ds" "ag_claims a = cs" "ag_graph a = g" "ag_dependencies a = deps"
    "ag_replacements a = rs" "ag_constraints a = tcs"
    by (metis aggregate.select_convs)+
  moreover from new a have "aggregate_new E a = Inr a" by metis
  ultimately show "document_registry_revalidate E (ag_documents a) = Inr (ag_documents a) \<and>
     claim_registry_revalidate E (ag_claims a) = Inr (ag_claims a) \<and>
     relation_graph_revalidate E (ag_graph a) = Inr (ag_graph a) \<and>
     dependency_registry_revalidate E (ag_dependencies a) = Inr (ag_dependencies a) \<and>
     replacement_set_revalidate E (ag_replacements a) = Inr (ag_replacements a) \<and>
     constraint_set_revalidate E (ag_constraints a) = Inr (ag_constraints a) \<and>
     aggregate_new E a = Inr a"
    using parts by simp
qed (cases a, simp add: aggregate_wf_def aggregate_revalidate_def)

section \<open>Properties\<close>

definition embedded_claims :: "aggregate \<Rightarrow> claim_revision list" where
  "embedded_claims a = ag_claims a @ assessment_revisions (ag_graph a) @
     dependency_revisions (ag_dependencies a)"

definition embedded_documents :: "aggregate \<Rightarrow> document_version list" where
  "embedded_documents a = ag_documents a @ map cr_document (embedded_claims a) @
     map dp_downstream (ag_dependencies a) @ replacement_documents (ag_replacements a)"

text \<open>
  C26. The aggregate is one closed binding graph: every claim and every document embedded anywhere in
  it (claims, relations, dependencies, replacements) is the very object its registry returns for
  that id, every span names its downstream document, every constraint targets a registered id,
  and every accepted constraint passes the basis check against the current graphs.
\<close>

theorem aggregate_closed_bindings:
  assumes "aggregate_wf E a"
  shows "(\<forall>d \<in> set (embedded_documents a). document_registry_get (ag_documents a) (dv_id d) = Inr d) \<and>
    (\<forall>r \<in> set (embedded_claims a). claim_registry_get (ag_claims a) (cr_revision_id r) = Inr r) \<and>
    (\<forall>p \<in> set (ag_dependencies a). \<forall>s \<in> set (dp_spans p).
       document_registry_get (ag_documents a) (sp_document_version_id s) = Inr (dp_downstream p)) \<and>
    (\<forall>c \<in> set (ag_constraints a). \<exists>u. require_target a c = Inr u) \<and>
    (\<forall>c \<in> set (ag_constraints a).
       \<exists>u. constraint_bases_check (ag_graph a) (ag_replacements a) c = Inr u)"
proof -
  from assms have docs: "canonical dv_id (ag_documents a)" and cls: "canonical cr_revision_id (ag_claims a)"
    and closed: "closed_binding_graph a = Inr a"
    by (auto simp: aggregate_wf_iff revalidate_wf document_registry_new_Inr claim_registry_new_Inr
        aggregate_new_Inr_iff)
  have get_d: "require_document a d = Inr () \<Longrightarrow> document_registry_get (ag_documents a) (dv_id d) = Inr d" for d
    using docs by (simp add: require_document_Inr document_registry_get_iff dict_get_Some_iff canonical_key_inj)
  have get_c: "require_claim a r = Inr () \<Longrightarrow> claim_registry_get (ag_claims a) (cr_revision_id r) = Inr r \<and>
      document_registry_get (ag_documents a) (dv_id (cr_document r)) = Inr (cr_document r)" for r
    using cls docs canonical_key_inj [OF cls] canonical_key_inj [OF docs]
    by (simp add: require_claim_Inr claim_registry_get_def registry_get_Inr dict_get_Some_iff
        lookup_key_Some_iff document_registry_get_iff)
  have own_d: "document_registry_get (ag_documents a) (dv_id d) = Inr d" if "d \<in> set (ag_documents a)" for d
    using that docs by (simp add: document_registry_get_iff)
  have own_c: "claim_registry_get (ag_claims a) (cr_revision_id r) = Inr r" if "r \<in> set (ag_claims a)" for r
    using that by (simp add: claim_registry_get_def registry_get_Inr lookup_key_Some_iff [OF canonical_key_inj [OF cls]])
  have dep: "require_document a (dp_downstream p) = Inr () \<and> require_claim a (dp_upstream p) = Inr () \<and>
      (\<forall>c \<in> set (dp_claims p). require_claim a c = Inr ()) \<and> (\<forall>s \<in> set (dp_spans p). require_span a p s = Inr ())"
    if "p \<in> set (ag_dependencies a)" for p
    using closed that by (auto simp: closed_binding_graph_Inr_iff require_dependency_Inr)
  have deps_c: "require_claim a r = Inr ()" if "r \<in> set (dependency_revisions (ag_dependencies a))" for r
    using that dep by (auto simp: dependency_revisions_def)
  have "document_registry_get (ag_documents a) (dv_id d) = Inr d" if "d \<in> set (embedded_documents a)" for d
    using that closed dep get_d get_c own_d deps_c
    by (auto simp: embedded_documents_def embedded_claims_def closed_binding_graph_Inr_iff)
  moreover have "claim_registry_get (ag_claims a) (cr_revision_id r) = Inr r" if "r \<in> set (embedded_claims a)" for r
    using that closed get_c own_c deps_c by (auto simp: embedded_claims_def closed_binding_graph_Inr_iff)
  moreover have "document_registry_get (ag_documents a) (sp_document_version_id s) = Inr (dp_downstream p)"
    if "p \<in> set (ag_dependencies a)" "s \<in> set (dp_spans p)" for p s
  proof -
    have "dict_get dv_id (ag_documents a) (sp_document_version_id s) = Some (dp_downstream p)"
      using dep [OF that(1)] that(2) by (auto simp: require_span_Inr)
    then show ?thesis
      using docs by (simp add: document_registry_get_iff dict_get_Some_iff canonical_key_inj)
  qed
  moreover have "\<exists>u. require_target a c = Inr u"
    "\<exists>u. constraint_bases_check (ag_graph a) (ag_replacements a) c = Inr u" if "c \<in> set (ag_constraints a)" for c
    using closed that
    by (auto simp: closed_binding_graph_Inr_iff validated_temporal_constraints_def validated_set_new_Inr_iff)
  ultimately show ?thesis by blast
qed

text \<open>
  C27. The aggregate digest identifies the aggregate: two well-formed aggregates with one digest are
  equal, or their canonical encodings are an explicit SHA-256 collision.
\<close>

theorem aggregate_sha256_identifies:
  assumes "float_ok E" and "aggregate_wf E a" and "aggregate_wf E b"
    and "aggregate_sha256 E a = aggregate_sha256 E b"
  shows "a = b \<or> hash_collision E (aggregate_json a) (aggregate_json b)"
proof -
  have "sha256_json E (aggregate_json a) = sha256_json E (aggregate_json b)"
    using assms(2-4) by (simp add: aggregate_sha256_def aggregate_wf_def)
  from sha256_sorted_inj [OF assms(1) _ _ this] show ?thesis by simp
qed

end
