(* ===== verification/Resolution.thy ===== *)
theory Resolution
  imports Temporal
begin

text \<open>
  \<open>TemporalResolution\<close>, \<open>_resolve_temporality\<close>, the two direct resolvers and
  \<open>TemporalResolutionContext\<close> with its caches.
\<close>

datatype temporal_state = Current | Historical | Future | Expired | Unresolved

record resolution =
  tr_target :: temporal_target
  tr_as_of :: date
  tr_state :: temporal_state
  tr_from :: date
  tr_to :: "date option"
  tr_applied :: "string list"
  tr_basis :: "string list"
  tr_conflicts :: "string list"

definition resolution_shape :: "resolution \<Rightarrow> resolution result" where
  "resolution_shape r =
     rbind (guards
       [((tr_state r = Unresolved) = (tr_conflicts r \<noteq> []),
           ValueError ''only unresolved temporal projections carry conflicts''),
        ((tr_applied r \<noteq> []) = (tr_basis r \<noteq> []),
           ValueError ''applied constraints and basis relations must be present together''),
        (closes_after (tr_to r) (tr_from r),
           ValueError ''valid_to_exclusive must follow valid_from_inclusive'')] ()) (\<lambda>_.
     case tr_state r of
       Unresolved \<Rightarrow> guards [(tr_to r = None,
          ValueError ''unresolved temporal projections cannot choose a valid-to bound'')] r
     | Future \<Rightarrow> guards [(tr_as_of r < tr_from r,
          ValueError ''future temporal state requires as_of before valid-from'')] r
     | Current \<Rightarrow> guards
         [(tr_from r \<le> tr_as_of r \<and> (case tr_to r of None \<Rightarrow> True | Some d \<Rightarrow> tr_as_of r < d),
             ValueError ''current temporal state requires as_of inside the half-open interval'')] r
     | _ \<Rightarrow> guards
         [((case tr_to r of None \<Rightarrow> False | Some d \<Rightarrow> d \<le> tr_as_of r),
             ValueError ''closed temporal state requires as_of at or after valid-to''),
          (tr_state r = Historical \<longrightarrow> tr_applied r \<noteq> [],
             ValueError ''historical state requires an accepted inferred constraint''),
          (tr_state r = Expired \<longrightarrow> tr_applied r = [],
             ValueError ''expired state is reserved for source-declared closure'')] r)"

definition resolution_new :: "py_env \<Rightarrow> resolution \<Rightarrow> resolution result" where
  "resolution_new E r =
     rbind (guards
       [(tr_applied r = sorted_set (tr_applied r), ValueError ''applied_constraint_ids must be sorted and unique''),
        (list_all (content_id_pattern ''tempc'') (tr_applied r),
           ValueError ''applied_constraint_ids must contain temporal constraint IDs''),
        (tr_basis r = sorted_set (tr_basis r), ValueError ''basis_relation_ids must be sorted and unique''),
        (list_all (content_id_pattern ''rel'') (tr_basis r),
           ValueError ''basis_relation_ids must contain relation IDs''),
        (tr_conflicts r = sorted_set (tr_conflicts r), ValueError ''conflicts must be sorted and unique'')] ()) (\<lambda>_.
     rbind (rmap (\<lambda>c. require_normalized_text E c ''temporal conflict'' 1) (tr_conflicts r)) (\<lambda>_.
     resolution_shape r))"

definition different_bounds :: string where
  "different_bounds = ''accepted constraints infer different valid-to bounds''"

definition inferred_too_early :: string where
  "inferred_too_early = ''inferred valid-to does not follow declared effective-from''"

definition bounds_disagree :: string where
  "bounds_disagree = ''declared and inferred valid-to bounds disagree''"

text \<open>The bound shared by all accepted constraints, when there is exactly one.\<close>

definition inferred_bound :: "temporal_constraint list \<Rightarrow> date option" where
  "inferred_bound accepted = (case remdups (map tc_bound accepted) of [b] \<Rightarrow> Some b | _ \<Rightarrow> None)"

definition temporal_conflicts :: "date \<Rightarrow> date option \<Rightarrow> temporal_constraint list \<Rightarrow> string list" where
  "temporal_conflicts from until accepted =
     (let inferred = inferred_bound accepted in
      (if 1 < length (remdups (map tc_bound accepted)) then [different_bounds] else []) @
      (case inferred of Some b \<Rightarrow> if b \<le> from then [inferred_too_early] else [] | None \<Rightarrow> []) @
      (case (inferred, until) of
         (Some b, Some d) \<Rightarrow> if b \<noteq> d then [bounds_disagree] else []
       | _ \<Rightarrow> []))"

definition resolve_temporality ::
  "py_env \<Rightarrow> temporal_target \<Rightarrow> date \<Rightarrow> date option \<Rightarrow> temporal_constraint list \<Rightarrow> date \<Rightarrow> resolution result"
where
  "resolve_temporality E target from until accepted as_of =
     (let conflicts = temporal_conflicts from until accepted;
          applied = sort (map tc_id accepted);
          basis = sorted_set (concat (map tc_basis accepted))
      in if conflicts \<noteq> [] then
           resolution_new E
             \<lparr>tr_target = target, tr_as_of = as_of, tr_state = Unresolved, tr_from = from, tr_to = None,
              tr_applied = applied, tr_basis = basis, tr_conflicts = sorted_set conflicts\<rparr>
         else
           let valid_to = (case inferred_bound accepted of Some b \<Rightarrow> Some b | None \<Rightarrow> until);
               state =
                 (if as_of < from then Future
                  else case valid_to of
                      Some d \<Rightarrow> if d \<le> as_of then (if accepted \<noteq> [] then Historical else Expired) else Current
                    | None \<Rightarrow> Current)
           in resolution_new E
             \<lparr>tr_target = target, tr_as_of = as_of, tr_state = state, tr_from = from, tr_to = valid_to,
              tr_applied = applied, tr_basis = basis, tr_conflicts = []\<rparr>)"

section \<open>The direct resolvers\<close>

definition accepted_for :: "temporal_constraint list \<Rightarrow> temporal_target \<Rightarrow> temporal_constraint list" where
  "accepted_for cs t = filter (\<lambda>c. tc_status c = Accepted \<and> tc_target c = t) cs"

definition document_basis_binding :: "(string \<Rightarrow> replacement result) \<Rightarrow> document_version \<Rightarrow> string \<Rightarrow> unit result" where
  "document_basis_binding get d basis_id =
     rbind (get basis_id) (\<lambda>r.
     guards [(rp_older r = d,
       ValueError ''resolution document binding differs from its accepted replacement basis'')] ())"

definition claim_basis_binding ::
  "(string \<Rightarrow> relation_assessment option) \<Rightarrow> claim_revision \<Rightarrow> string \<Rightarrow> unit result" where
  "claim_basis_binding get r basis_id =
     (case get basis_id of
        None \<Rightarrow> Inl (KeyError basis_id)
      | Some a \<Rightarrow>
          (case ra_endpoints a of
             None \<Rightarrow> Inl AssertionError
           | Some (x, y) \<Rightarrow>
               rbind (pair_revision (ra_pair a) y) (\<lambda>older.
               guards [(older = r,
                 ValueError ''resolution claim binding differs from its accepted relation basis'')] ())))"

definition bases_of :: "temporal_constraint list \<Rightarrow> string list" where
  "bases_of cs = concat (map tc_basis cs)"

definition resolve_document_temporality ::
  "py_env \<Rightarrow> document_version \<Rightarrow> validated_set \<Rightarrow> date \<Rightarrow> resolution result" where
  "resolve_document_temporality E d vs as_of =
     rbind (validated_set_revalidate E vs) (\<lambda>v.
     rbind (temporal_target_new \<lparr>tt_kind = DocumentTarget, tt_id = dv_id d\<rparr>) (\<lambda>target.
     let relevant = accepted_for (vs_constraints v) target
     in rbind (rmap (document_basis_binding (replacement_set_get (vs_replacements v)) d) (bases_of relevant)) (\<lambda>_.
        resolve_temporality E target (dv_from d) (dv_to d) relevant as_of)))"

definition resolve_claim_temporality ::
  "py_env \<Rightarrow> claim_revision \<Rightarrow> validated_set \<Rightarrow> date \<Rightarrow> resolution result" where
  "resolve_claim_temporality E r vs as_of =
     rbind (validated_set_revalidate E vs) (\<lambda>v.
     rbind (temporal_target_new \<lparr>tt_kind = ClaimTarget, tt_id = cr_revision_id r\<rparr>) (\<lambda>target.
     let relevant = accepted_for (vs_constraints v) target
     in rbind (rmap (claim_basis_binding (claim_relation (vs_graph v)) r) (bases_of relevant)) (\<lambda>_.
        resolve_temporality E target (cr_from r) (cr_to r) relevant as_of)))"

section \<open>The cached context\<close>

record resolution_context =
  rc_accepted :: "((target_kind \<times> string) \<times> temporal_constraint list) list"
  rc_graph :: "relation_assessment list"
  rc_replacements :: "replacement list"
  rc_as_of :: date
  rc_claim_cache :: "(string \<times> resolution) list"
  rc_document_cache :: "(string \<times> resolution) list"

text \<open>\<open>accepted_by_target.setdefault(key, []).append(constraint)\<close>\<close>

fun append_at :: "'k \<Rightarrow> 'v \<Rightarrow> ('k \<times> 'v list) list \<Rightarrow> ('k \<times> 'v list) list" where
  "append_at k v [] = [(k, [v])]"
| "append_at k v ((l, vs) # d) = (if l = k then (l, vs @ [v]) # d else (l, vs) # append_at k v d)"

definition index_accepted ::
  "temporal_constraint list \<Rightarrow> ((target_kind \<times> string) \<times> temporal_constraint list) list" where
  "index_accepted cs =
     foldl (\<lambda>d c. if tc_status c \<noteq> Accepted then d
              else append_at (tt_kind (tc_target c), tt_id (tc_target c)) c d) [] cs"

definition context_new :: "py_env \<Rightarrow> validated_set \<Rightarrow> date \<Rightarrow> resolution_context result" where
  "context_new E vs as_of =
     rbind (validated_set_revalidate E vs) (\<lambda>v.
     Inr \<lparr>rc_accepted = index_accepted (vs_constraints v), rc_graph = vs_graph v,
          rc_replacements = vs_replacements v, rc_as_of = as_of, rc_claim_cache = [],
          rc_document_cache = []\<rparr>)"

definition context_relevant :: "resolution_context \<Rightarrow> temporal_target \<Rightarrow> temporal_constraint list" where
  "context_relevant ctx t = (case map_of (rc_accepted ctx) (tt_kind t, tt_id t) of None \<Rightarrow> [] | Some cs \<Rightarrow> cs)"

definition context_resolve_claim ::
  "py_env \<Rightarrow> claim_revision \<Rightarrow> resolution_context \<Rightarrow> resolution result \<times> resolution_context" where
  "context_resolve_claim E r ctx =
     (let cache_key = canonical_json_bytes E (claim_revision_json r)
      in case map_of (rc_claim_cache ctx) cache_key of
           Some cached \<Rightarrow> (Inr cached, ctx)
         | None \<Rightarrow>
             (case rbind (temporal_target_new \<lparr>tt_kind = ClaimTarget, tt_id = cr_revision_id r\<rparr>) (\<lambda>target.
                let relevant = context_relevant ctx target
                in rbind (rmap (claim_basis_binding (claim_relation (rc_graph ctx)) r) (bases_of relevant)) (\<lambda>_.
                   resolve_temporality E target (cr_from r) (cr_to r) relevant (rc_as_of ctx))) of
                Inl e \<Rightarrow> (Inl e, ctx)
              | Inr res \<Rightarrow> (Inr res, ctx\<lparr>rc_claim_cache := (cache_key, res) # rc_claim_cache ctx\<rparr>)))"

definition document_replacement_at :: "replacement list \<Rightarrow> string \<Rightarrow> replacement result" where
  "document_replacement_at rs i =
     (case document_relation rs i of None \<Rightarrow> Inl (KeyError i) | Some r \<Rightarrow> Inr r)"

definition context_resolve_document ::
  "py_env \<Rightarrow> document_version \<Rightarrow> resolution_context \<Rightarrow> resolution result \<times> resolution_context" where
  "context_resolve_document E d ctx =
     (let cache_key = canonical_json_bytes E (document_version_json d)
      in case map_of (rc_document_cache ctx) cache_key of
           Some cached \<Rightarrow> (Inr cached, ctx)
         | None \<Rightarrow>
             (case rbind (temporal_target_new \<lparr>tt_kind = DocumentTarget, tt_id = dv_id d\<rparr>) (\<lambda>target.
                let relevant = context_relevant ctx target
                in rbind (rmap (document_basis_binding (document_replacement_at (rc_replacements ctx)) d)
                     (bases_of relevant)) (\<lambda>_.
                   resolve_temporality E target (dv_from d) (dv_to d) relevant (rc_as_of ctx))) of
                Inl e \<Rightarrow> (Inl e, ctx)
              | Inr res \<Rightarrow> (Inr res, ctx\<lparr>rc_document_cache := (cache_key, res) # rc_document_cache ctx\<rparr>)))"

text \<open>A run of the context: any sequence of queries, answered in order.\<close>

datatype query = QueryClaim claim_revision | QueryDocument document_version

fun context_step :: "py_env \<Rightarrow> query \<Rightarrow> resolution_context \<Rightarrow> resolution result \<times> resolution_context" where
  "context_step E (QueryClaim r) ctx = context_resolve_claim E r ctx"
| "context_step E (QueryDocument d) ctx = context_resolve_document E d ctx"

fun context_run :: "py_env \<Rightarrow> query list \<Rightarrow> resolution_context \<Rightarrow> resolution result list \<times> resolution_context" where
  "context_run E [] ctx = ([], ctx)"
| "context_run E (q # qs) ctx =
     (let (res, ctx') = context_step E q ctx;
          (rest, ctx'') = context_run E qs ctx'
      in (res # rest, ctx''))"

fun resolve_directly :: "py_env \<Rightarrow> validated_set \<Rightarrow> date \<Rightarrow> query \<Rightarrow> resolution result" where
  "resolve_directly E vs as_of (QueryClaim r) = resolve_claim_temporality E r vs as_of"
| "resolve_directly E vs as_of (QueryDocument d) = resolve_document_temporality E d vs as_of"

section \<open>The index answers like the filter\<close>

lemma map_of_append_at:
  "map_of (append_at k v d) l =
     (if l = k then Some ((case map_of d k of None \<Rightarrow> [] | Some vs \<Rightarrow> vs) @ [v]) else map_of d l)"
  by (induction k v d rule: append_at.induct) auto

lemma index_accepted_filter:
  "(case map_of (index_accepted cs) (tt_kind t, tt_id t) of None \<Rightarrow> [] | Some vs \<Rightarrow> vs) = accepted_for cs t"
proof -
  let ?get = "\<lambda>d. (case map_of d (tt_kind t, tt_id t) of None \<Rightarrow> [] | Some vs \<Rightarrow> vs)"
  let ?step = "\<lambda>d c. if tc_status c \<noteq> Accepted then d
              else append_at (tt_kind (tc_target c), tt_id (tc_target c)) c d"
  have t: "tc_target c = t \<longleftrightarrow> (tt_kind (tc_target c), tt_id (tc_target c)) = (tt_kind t, tt_id t)" for c
    by (cases "tc_target c"; cases t) auto
  have "?get (foldl ?step d cs) = ?get d @ accepted_for cs t" for d
  proof (induction cs arbitrary: d)
    case (Cons c cs)
    then show ?case using t [of c] by (auto simp: accepted_for_def map_of_append_at split: option.splits)
  qed (simp add: accepted_for_def)
  from this [of "[]"] show ?thesis by (simp add: index_accepted_def)
qed

lemma document_relation_get:
  assumes "canonical rp_id rs"
  shows "document_replacement_at rs i = replacement_set_get rs i"
proof -
  have "document_relation rs i = lookup_key rp_id i rs"
  proof (cases "lookup_key rp_id i rs")
    case None
    then have "document_relation rs i = None" by (auto simp: document_relation_def dict_get_None lookup_key_None)
    with None show ?thesis by simp
  next
    case (Some r)
    note inj = canonical_key_inj [OF assms]
    from Some have "dict_get rp_id rs i = Some r"
      unfolding dict_get_Some_iff [OF inj] lookup_key_Some_iff [OF inj] .
    with Some show ?thesis by (simp add: document_relation_def)
  qed
  then show ?thesis
    by (simp add: document_replacement_at_def replacement_set_get_def registry_get_def)
qed

text \<open>
  The context invariant: its index is the index of one validated set \<open>v\<close>, and every cached value is
  what the direct computation on \<open>v\<close> returns.
\<close>

definition claim_value :: "py_env \<Rightarrow> validated_set \<Rightarrow> date \<Rightarrow> claim_revision \<Rightarrow> resolution result" where
  "claim_value E v as_of r =
     rbind (temporal_target_new \<lparr>tt_kind = ClaimTarget, tt_id = cr_revision_id r\<rparr>) (\<lambda>target.
     let relevant = accepted_for (vs_constraints v) target
     in rbind (rmap (claim_basis_binding (claim_relation (vs_graph v)) r) (bases_of relevant)) (\<lambda>_.
        resolve_temporality E target (cr_from r) (cr_to r) relevant as_of))"

definition document_value :: "py_env \<Rightarrow> validated_set \<Rightarrow> date \<Rightarrow> document_version \<Rightarrow> resolution result" where
  "document_value E v as_of d =
     rbind (temporal_target_new \<lparr>tt_kind = DocumentTarget, tt_id = dv_id d\<rparr>) (\<lambda>target.
     let relevant = accepted_for (vs_constraints v) target
     in rbind (rmap (document_basis_binding (replacement_set_get (vs_replacements v)) d) (bases_of relevant)) (\<lambda>_.
        resolve_temporality E target (dv_from d) (dv_to d) relevant as_of))"

definition context_inv :: "py_env \<Rightarrow> validated_set \<Rightarrow> date \<Rightarrow> resolution_context \<Rightarrow> bool" where
  "context_inv E v as_of ctx \<longleftrightarrow>
     rc_accepted ctx = index_accepted (vs_constraints v) \<and> rc_graph ctx = vs_graph v \<and>
     rc_replacements ctx = vs_replacements v \<and> rc_as_of ctx = as_of \<and>
     (\<forall>r res. map_of (rc_claim_cache ctx) (canonical_json_bytes E (claim_revision_json r)) = Some res \<longrightarrow>
        claim_value E v as_of r = Inr res) \<and>
     (\<forall>d res. map_of (rc_document_cache ctx) (canonical_json_bytes E (document_version_json d)) = Some res \<longrightarrow>
        document_value E v as_of d = Inr res)"

lemma context_relevant_inv:
  "context_inv E v as_of ctx \<Longrightarrow> context_relevant ctx t = accepted_for (vs_constraints v) t"
  by (simp add: context_inv_def context_relevant_def index_accepted_filter)

lemma context_inv_fields:
  assumes "context_inv E v as_of ctx"
  shows "context_relevant ctx = accepted_for (vs_constraints v)" "rc_graph ctx = vs_graph v"
    "rc_replacements ctx = vs_replacements v" "rc_as_of ctx = as_of"
  using assms context_relevant_inv [OF assms] by (auto simp: context_inv_def)

lemma context_resolve_claim_inv:
  assumes E: "float_ok E" and inv: "context_inv E v as_of ctx"
  shows "fst (context_resolve_claim E r ctx) = claim_value E v as_of r \<and>
    context_inv E v as_of (snd (context_resolve_claim E r ctx))"
proof -
  let ?key = "canonical_json_bytes E (claim_revision_json r)"
  have step: "context_resolve_claim E r ctx =
     (case map_of (rc_claim_cache ctx) ?key of
        Some cached \<Rightarrow> (Inr cached, ctx)
      | None \<Rightarrow> (case claim_value E v as_of r of
           Inl e \<Rightarrow> (Inl e, ctx)
         | Inr res \<Rightarrow> (Inr res, ctx\<lparr>rc_claim_cache := (?key, res) # rc_claim_cache ctx\<rparr>)))"
    unfolding context_resolve_claim_def claim_value_def Let_def context_inv_fields [OF inv] ..
  have key: "canonical_json_bytes E (claim_revision_json a) = canonical_json_bytes E (claim_revision_json b) \<longleftrightarrow>
      a = b" for a b
    using canonical_bytes_sorted_inj [OF E] by simp
  show ?thesis
  proof (cases "map_of (rc_claim_cache ctx) ?key")
    case (Some cached)
    with inv show ?thesis by (auto simp: step context_inv_def)
  next
    case None
    with inv key show ?thesis
      by (cases "claim_value E v as_of r") (auto simp: step context_inv_def split: if_splits)
  qed
qed

lemma context_resolve_document_inv:
  assumes E: "float_ok E" and inv: "context_inv E v as_of ctx" and can: "canonical rp_id (vs_replacements v)"
  shows "fst (context_resolve_document E d ctx) = document_value E v as_of d \<and>
    context_inv E v as_of (snd (context_resolve_document E d ctx))"
proof -
  let ?key = "canonical_json_bytes E (document_version_json d)"
  have at: "document_replacement_at (vs_replacements v) = replacement_set_get (vs_replacements v)"
    using document_relation_get [OF can] by auto
  have step: "context_resolve_document E d ctx =
     (case map_of (rc_document_cache ctx) ?key of
        Some cached \<Rightarrow> (Inr cached, ctx)
      | None \<Rightarrow> (case document_value E v as_of d of
           Inl e \<Rightarrow> (Inl e, ctx)
         | Inr res \<Rightarrow> (Inr res, ctx\<lparr>rc_document_cache := (?key, res) # rc_document_cache ctx\<rparr>)))"
    unfolding context_resolve_document_def document_value_def Let_def context_inv_fields [OF inv] at ..
  have key: "canonical_json_bytes E (document_version_json a) = canonical_json_bytes E (document_version_json b) \<longleftrightarrow>
      a = b" for a b
    using canonical_bytes_sorted_inj [OF E] by simp
  show ?thesis
  proof (cases "map_of (rc_document_cache ctx) ?key")
    case (Some cached)
    with inv show ?thesis by (auto simp: step context_inv_def)
  next
    case None
    with inv key show ?thesis
      by (cases "document_value E v as_of d") (auto simp: step context_inv_def split: if_splits)
  qed
qed

lemma validated_set_revalidate_canonical:
  "validated_set_revalidate E vs = Inr v \<Longrightarrow>
     canonical rp_id (vs_replacements v) \<and> canonical tc_id (vs_constraints v) \<and>
     canonical ra_pair_id (vs_graph v) \<and> distinct (persisted_relation_ids (vs_graph v))"
  by (auto simp: validated_set_revalidate_def constraint_set_revalidate_def relation_graph_revalidate_def
      replacement_set_revalidate_def rbind_Inr_iff replacement_set_new_Inr_iff constraint_set_new_Inr_iff
      relation_graph_new_Inr_iff validated_set_new_Inr_iff)

lemma resolve_directly_value:
  assumes "validated_set_revalidate E vs = Inr v"
  shows "resolve_directly E vs as_of q =
    (case q of QueryClaim r \<Rightarrow> claim_value E v as_of r | QueryDocument d \<Rightarrow> document_value E v as_of d)"
  using assms
  by (cases q) (simp_all add: resolve_claim_temporality_def resolve_document_temporality_def
      claim_value_def document_value_def)

lemma context_run_values:
  assumes "float_ok E" and "validated_set_revalidate E vs = Inr v" and "context_inv E v as_of ctx"
  shows "fst (context_run E qs ctx) = map (resolve_directly E vs as_of) qs"
  using assms(3)
proof (induction qs arbitrary: ctx)
  case (Cons q qs)
  have can: "canonical rp_id (vs_replacements v)"
    using validated_set_revalidate_canonical [OF assms(2)] by simp
  have "fst (context_step E q ctx) = resolve_directly E vs as_of q \<and>
      context_inv E v as_of (snd (context_step E q ctx))"
    using context_resolve_claim_inv [OF assms(1) Cons.prems]
      context_resolve_document_inv [OF assms(1) Cons.prems can]
    by (cases q) (simp_all add: resolve_directly_value [OF assms(2)] del: resolve_directly.simps)
  with Cons.IH show ?case by (simp add: split_beta Let_def)
qed simp

lemma context_new_inv:
  "context_new E vs as_of = Inr ctx \<Longrightarrow>
     \<exists>v. validated_set_revalidate E vs = Inr v \<and> context_inv E v as_of ctx"
  by (auto simp: context_new_def rbind_Inr_iff context_inv_def)

section \<open>The constructor accepts what the resolver builds\<close>

lemma conflict_messages_normalized:
  assumes "nfkc_ok E" and "c \<in> {different_bounds, inferred_too_early, bounds_disagree}"
  shows "require_normalized_text E c l 1 = Inr c"
proof -
  have ascii: "list_all ascii_char different_bounds" "list_all ascii_char inferred_too_early"
    "list_all ascii_char bounds_disagree" by code_simp+
  have words: "join '' '' (words_of different_bounds) = different_bounds"
    "join '' '' (words_of inferred_too_early) = inferred_too_early"
    "join '' '' (words_of bounds_disagree) = bounds_disagree" by code_simp+
  have len: "1 \<le> length different_bounds" "1 \<le> length inferred_too_early" "1 \<le> length bounds_disagree"
    by (simp_all add: different_bounds_def inferred_too_early_def bounds_disagree_def)
  from assms(2) nfkc_ascii [OF assms(1)] ascii words len show ?thesis
    by (auto simp: require_normalized_text_Inr normalize_semantic_text_def simp del: One_nat_def)
qed

lemma temporal_conflicts_messages:
  "set (temporal_conflicts from until cs) \<subseteq> {different_bounds, inferred_too_early, bounds_disagree}"
  by (auto simp: temporal_conflicts_def Let_def split: option.splits if_splits)

lemma remdups_singleton_iff: "remdups xs = [b] \<longleftrightarrow> xs \<noteq> [] \<and> (\<forall>x \<in> set xs. x = b)"
proof
  assume r: "remdups xs = [b]"
  then have "set xs = {b}" using set_remdups [of xs] by simp
  with r show "xs \<noteq> [] \<and> (\<forall>x \<in> set xs. x = b)" by auto
next
  assume "xs \<noteq> [] \<and> (\<forall>x \<in> set xs. x = b)"
  then show "remdups xs = [b]"
  proof (induction xs)
    case (Cons x xs)
    then show ?case by (cases xs) auto
  qed simp
qed

text \<open>The one bound all accepted constraints agree on.\<close>

lemma inferred_bound_Some:
  "inferred_bound cs = Some b \<longleftrightarrow> cs \<noteq> [] \<and> (\<forall>c \<in> set cs. tc_bound c = b)"
  using remdups_singleton_iff [of "map tc_bound cs" b]
  by (auto simp: inferred_bound_def split: list.splits)

lemma inferred_bound_cases:
  "remdups (map tc_bound cs) = [] \<and> cs = [] \<or> (\<exists>b. inferred_bound cs = Some b \<and> length (remdups (map tc_bound cs)) = 1) \<or>
   inferred_bound cs = None \<and> 1 < length (remdups (map tc_bound cs)) \<and> cs \<noteq> []"
  by (cases "remdups (map tc_bound cs)" rule: remdups_adj.cases) (auto simp: inferred_bound_def)

definition bounds_consistent :: "date \<Rightarrow> date option \<Rightarrow> temporal_constraint list \<Rightarrow> bool" where
  "bounds_consistent from until cs \<longleftrightarrow>
     cs = [] \<or> (\<exists>b. (\<forall>c \<in> set cs. tc_bound c = b) \<and> from < b \<and> (until = None \<or> until = Some b))"

lemma temporal_conflicts_Nil: "temporal_conflicts from until cs = [] \<longleftrightarrow> bounds_consistent from until cs"
proof -
  consider "cs = []" | b where "inferred_bound cs = Some b" "length (remdups (map tc_bound cs)) = 1"
    | "inferred_bound cs = None" "1 < length (remdups (map tc_bound cs))" "cs \<noteq> []"
    using inferred_bound_cases [of cs] by auto
  then show ?thesis
  proof cases
    case 1
    then show ?thesis by (simp add: temporal_conflicts_def bounds_consistent_def inferred_bound_def)
  next
    case 2
    then have "cs \<noteq> []" "\<And>c. c \<in> set cs \<Longrightarrow> tc_bound c = b" by (auto simp: inferred_bound_Some)
    moreover from this obtain c where "c \<in> set cs" by (cases cs) auto
    ultimately have "bounds_consistent from until cs \<longleftrightarrow> from < b \<and> (until = None \<or> until = Some b)"
      by (auto simp: bounds_consistent_def)
    with 2 show ?thesis
      by (auto simp: temporal_conflicts_def Let_def not_le split: option.splits)
  next
    case 3
    then have "\<not> (\<exists>b. \<forall>c \<in> set cs. tc_bound c = b)" using inferred_bound_Some [of cs] by auto
    with 3 show ?thesis by (auto simp: temporal_conflicts_def bounds_consistent_def Let_def)
  qed
qed

lemma constraint_wf_ids:
  assumes "temporal_constraint_wf E c"
  shows "content_id_pattern ''tempc'' (tc_id c) \<and> tc_basis c \<noteq> [] \<and> list_all (content_id_pattern ''rel'') (tc_basis c)"
  using assms by (auto simp: temporal_constraint_wf_iff temporal_constraint_new_def rbind_Inr_iff)

lemma shape_basis:
  assumes "\<forall>c \<in> set cs. temporal_constraint_wf E c"
  shows "(sort (map tc_id cs) \<noteq> []) = (sorted_set (concat (map tc_basis cs)) \<noteq> [])"
  using assms constraint_wf_ids by (cases cs) auto

lemma resolution_new_intro:
  assumes "nfkc_ok E" and "\<forall>c \<in> set cs. temporal_constraint_wf E c" and "distinct (map tc_id cs)"
    and "tr_applied r = sort (map tc_id cs)" and "tr_basis r = sorted_set (concat (map tc_basis cs))"
    and "tr_conflicts r = sorted_set ms" and "set ms \<subseteq> {different_bounds, inferred_too_early, bounds_disagree}"
    and "resolution_shape r = Inr r"
  shows "resolution_new E r = Inr r"
proof -
  have ids: "\<And>c. c \<in> set cs \<Longrightarrow> content_id_pattern ''tempc'' (tc_id c)"
    "\<And>c b. c \<in> set cs \<Longrightarrow> b \<in> set (tc_basis c) \<Longrightarrow> content_id_pattern ''rel'' b"
    using assms(2) constraint_wf_ids by (auto simp: list_all_iff)
  have "rmap (\<lambda>c. require_normalized_text E c ''temporal conflict'' 1) (sorted_set ms) = Inr (sorted_set ms)"
    using assms(1,7) conflict_messages_normalized by (intro rmap_id) auto
  moreover have "sort (map tc_id cs) = sorted_set (sort (map tc_id cs))"
    using assms(3) by (subst sorted_set_id_iff) simp
  ultimately show ?thesis
    using assms(8) ids
    by (simp add: resolution_new_def assms(4-6) guards.simps list_all_iff)
qed

section \<open>Properties\<close>

text \<open>
  C24. Temporal resolution is total and exact.  For a properly ordered declared interval and
  well-formed accepted constraints \<open>_resolve_temporality\<close> never raises (its constructor accepts
  every combination it builds).  The state is UNRESOLVED exactly when the accepted bounds do not
  agree on one date after the start that also matches a declared end; otherwise exactly one of
  FUTURE, CURRENT, HISTORICAL and EXPIRED applies, by where \<open>as_of\<close> lies relative to the half-open
  interval and by whether a constraint was applied.
\<close>

theorem resolve_temporality_exact:
  assumes "nfkc_ok E" and "closes_after until from"
    and "\<forall>c \<in> set cs. temporal_constraint_wf E c" and "distinct (map tc_id cs)"
  shows "\<exists>r. resolve_temporality E target from until cs as_of = Inr r \<and>
    tr_target r = target \<and> tr_from r = from \<and>
    tr_applied r = sort (map tc_id cs) \<and> set (tr_basis r) = (\<Union>c \<in> set cs. set (tc_basis c)) \<and>
    (if \<not> bounds_consistent from until cs then tr_state r = Unresolved \<and> tr_to r = None
     else tr_to r = (if cs = [] then until else Some (tc_bound (hd cs))) \<and>
       (tr_state r = Future \<longleftrightarrow> as_of < from) \<and>
       (tr_state r = Current \<longleftrightarrow> from \<le> as_of \<and> (\<forall>d. tr_to r = Some d \<longrightarrow> as_of < d)) \<and>
       (tr_state r = Historical \<longleftrightarrow> cs \<noteq> [] \<and> (\<exists>d. tr_to r = Some d \<and> d \<le> as_of)) \<and>
       (tr_state r = Expired \<longleftrightarrow> cs = [] \<and> (\<exists>d. tr_to r = Some d \<and> d \<le> as_of)) \<and>
       tr_state r \<noteq> Unresolved)"
proof (cases "bounds_consistent from until cs")
  case False
  let ?r = "\<lparr>tr_target = target, tr_as_of = as_of, tr_state = Unresolved, tr_from = from, tr_to = None,
    tr_applied = sort (map tc_id cs), tr_basis = sorted_set (concat (map tc_basis cs)),
    tr_conflicts = sorted_set (temporal_conflicts from until cs)\<rparr>"
  from False have ne: "temporal_conflicts from until cs \<noteq> []" by (simp add: temporal_conflicts_Nil)
  have "resolution_new E ?r = Inr ?r"
    using assms(1,3,4) temporal_conflicts_messages [of "from" until cs] ne shape_basis [OF assms(3)]
    by (intro resolution_new_intro) (simp_all add: resolution_shape_def guards.simps closes_after_def)
  with False ne show ?thesis by (simp add: resolve_temporality_def Let_def)
next
  case True
  define valid_to where "valid_to = (case inferred_bound cs of Some b \<Rightarrow> Some b | None \<Rightarrow> until)"
  define state where "state = (if as_of < from then Future
     else case valid_to of
         Some d \<Rightarrow> if d \<le> as_of then (if cs \<noteq> [] then Historical else Expired) else Current
       | None \<Rightarrow> Current)"
  let ?r = "\<lparr>tr_target = target, tr_as_of = as_of, tr_state = state, tr_from = from, tr_to = valid_to,
    tr_applied = sort (map tc_id cs), tr_basis = sorted_set (concat (map tc_basis cs)), tr_conflicts = []\<rparr>"
  have vt: "valid_to = (if cs = [] then until else Some (tc_bound (hd cs)))"
  proof (cases cs)
    case Nil
    then show ?thesis by (simp add: valid_to_def inferred_bound_def)
  next
    case (Cons c cs')
    with True have "inferred_bound cs = Some (tc_bound c)"
      by (auto simp: bounds_consistent_def inferred_bound_Some)
    with Cons show ?thesis by (simp add: valid_to_def)
  qed
  have close: "closes_after valid_to from"
    using True assms(2) by (cases cs) (auto simp: vt bounds_consistent_def closes_after_def)
  have "resolution_shape ?r = Inr ?r"
    using close shape_basis [OF assms(3)]
    by (auto simp: resolution_shape_def guards.simps state_def closes_after_def not_less not_le
        split: option.splits temporal_state.splits)
  then have "resolution_new E ?r = Inr ?r"
    using assms(1,3,4) by (intro resolution_new_intro [where ms = "[]"]) (simp_all add: sorted_set_def)
  moreover have "temporal_conflicts from until cs = []" using True by (simp add: temporal_conflicts_Nil)
  ultimately have res: "resolve_temporality E target from until cs as_of = Inr ?r"
    unfolding resolve_temporality_def Let_def valid_to_def [symmetric] state_def [symmetric]
    by (simp del: One_nat_def)
  have states: "(state = Future \<longleftrightarrow> as_of < from) \<and>
      (state = Current \<longleftrightarrow> from \<le> as_of \<and> (\<forall>d. valid_to = Some d \<longrightarrow> as_of < d)) \<and>
      (state = Historical \<longleftrightarrow> cs \<noteq> [] \<and> (\<exists>d. valid_to = Some d \<and> d \<le> as_of)) \<and>
      (state = Expired \<longleftrightarrow> cs = [] \<and> (\<exists>d. valid_to = Some d \<and> d \<le> as_of)) \<and> state \<noteq> Unresolved"
    using close by (cases valid_to) (auto simp: state_def closes_after_def)
  show ?thesis
    by (rule exI [of _ ?r]) (use res True vt states in simp)
qed

text \<open>
  C25. The caching context is transparent: whatever the sequence of claim and document queries, each
  answer, exceptions included, is what the direct resolver returns for that query, so indexing
  accepted constraints by target and caching by canonical encoding change nothing.
\<close>

theorem context_transparent:
  assumes "float_ok E" and "context_new E vs as_of = Inr ctx"
  shows "fst (context_run E qs ctx) = map (resolve_directly E vs as_of) qs"
proof -
  from context_new_inv [OF assms(2)] obtain v
    where "validated_set_revalidate E vs = Inr v" "context_inv E v as_of ctx" by auto
  with assms(1) show ?thesis by (rule context_run_values)
qed

end
