(* ===== verification/Samples.thy ===== *)
theory Samples
  imports Aggregate Resolution
begin

text \<open>
  A concrete interpreter environment and a small concrete change-control state: a travel policy in
  two versions, a FAQ that quotes it, one supersession.  The witnesses of the properties evaluate
  on these values.  The environment's digest is a 64-digit checksum of the text.
\<close>

fun weigh :: "string \<Rightarrow> int" where
  "weigh [] = 0"
| "weigh (c # cs) = (of_char c + 7 * weigh cs) mod 999983"

definition digest_digit :: "int \<Rightarrow> char" where
  "digest_digit n = char_of (nat (48 + n mod 10))"

definition digest_text :: "int \<Rightarrow> string" where
  "digest_text n = ''0000000000000000000000000000000000000000000000000000000000'' @
     [digest_digit (n div 100000), digest_digit (n div 10000), digest_digit (n div 1000),
      digest_digit (n div 100), digest_digit (n div 10), digest_digit n]"

definition float_text :: "rat \<Rightarrow> string" where
  "float_text q = show_int (fst (quotient_of q)) @ ''.'' @ show_int (snd (quotient_of q))"

definition sample_env :: py_env where
  "sample_env = \<lparr>sha256_hex = (\<lambda>b. digest_text (weigh b)), nfkc = (\<lambda>s. s), float_repr = float_text,
     py_round = (\<lambda>q n. q)\<rparr>"

definition day :: "nat \<Rightarrow> nat \<Rightarrow> date" where
  "day m d = Date 2024 m d"

definition policy_v1 :: document_version where
  "policy_v1 = \<lparr>dv_id = ''docv:'' @ digest_text 251916, dv_document_id = ''travel'', dv_family = ''travel'',
     dv_version_label = ''v1'', dv_source_path = ''policies/travel-v1.md'', dv_source_sha256 = digest_text 11,
     dv_from = day 1 1, dv_to = None, dv_role = RolePolicy, dv_authority = AuthorityPrimary\<rparr>"

definition policy_v2 :: document_version where
  "policy_v2 = \<lparr>dv_id = ''docv:'' @ digest_text 802700, dv_document_id = ''travel'', dv_family = ''travel'',
     dv_version_label = ''v2'', dv_source_path = ''policies/travel-v2.md'', dv_source_sha256 = digest_text 12,
     dv_from = day 6 1, dv_to = None, dv_role = RolePolicy, dv_authority = AuthorityPrimary\<rparr>"

definition faq :: document_version where
  "faq = \<lparr>dv_id = ''docv:'' @ digest_text 495403, dv_document_id = ''faq'', dv_family = ''faq'',
     dv_version_label = ''v1'', dv_source_path = ''faq.md'', dv_source_sha256 = digest_text 13,
     dv_from = day 2 1, dv_to = None, dv_role = RoleFaq, dv_authority = AuthorityInformational\<rparr>"

definition source_v1 :: claim_source where
  "source_v1 = \<lparr>cs_note_path = ''notes/t1.md'', cs_note_sha256 = digest_text 21, cs_claim_id = ''meals-01'', cs_evidence = []\<rparr>"

definition source_v2 :: claim_source where
  "source_v2 = \<lparr>cs_note_path = ''notes/t2.md'', cs_note_sha256 = digest_text 22, cs_claim_id = ''meals-01'', cs_evidence = []\<rparr>"

definition claim_v1 :: claim_revision where
  "claim_v1 = \<lparr>cr_identity_id = ''claim:'' @ digest_text 885274, cr_revision_id = ''claimrev:'' @ digest_text 217041,
     cr_document = policy_v1, cr_source = source_v1, cr_statement = ''Meals: 40 EUR'', cr_from = day 1 1,
     cr_to = None, cr_scopes = [''meals'']\<rparr>"

definition claim_v2 :: claim_revision where
  "claim_v2 = \<lparr>cr_identity_id = ''claim:'' @ digest_text 181925, cr_revision_id = ''claimrev:'' @ digest_text 967796,
     cr_document = policy_v2, cr_source = source_v2, cr_statement = ''Meals: 60 EUR'', cr_from = day 6 1,
     cr_to = None, cr_scopes = [''meals'']\<rparr>"

definition meal_pair :: claim_pair where
  "meal_pair = \<lparr>cp_id = ''pair:'' @ digest_text 570117, cp_first = claim_v1, cp_second = claim_v2,
     cp_shared_scopes = [''meals'']\<rparr>"

definition supersession :: relation_assessment where
  "supersession = \<lparr>ra_pair = meal_pair, ra_disposition = Supersedes, ra_rationale = ''Newer version'',
     ra_confidence = 9/10, ra_type = Some RelSupersedes, ra_id = Some (''rel:'' @ digest_text 552336),
     ra_endpoints = Some (cr_revision_id claim_v2, cr_revision_id claim_v1)\<rparr>"

definition policy_replacement :: replacement where
  "policy_replacement = \<lparr>rp_id = ''rel:'' @ digest_text 950137, rp_newer = policy_v2, rp_older = policy_v1,
     rp_status = Proposed, rp_rationale = ''Newer version'', rp_confidence = 9/10\<rparr>"

definition claim_constraint :: temporal_constraint where
  "claim_constraint = \<lparr>tc_id = ''tempc:'' @ digest_text 718454,
     tc_target = \<lparr>tt_kind = ClaimTarget, tt_id = cr_revision_id claim_v1\<rparr>, tc_bound = day 6 1,
     tc_basis = [''rel:'' @ digest_text 552336], tc_status = Proposed, tc_rationale = ''Superseded''\<rparr>"

definition document_constraint :: temporal_constraint where
  "document_constraint = \<lparr>tc_id = ''tempc:'' @ digest_text 492209,
     tc_target = \<lparr>tt_kind = DocumentTarget, tt_id = dv_id policy_v1\<rparr>, tc_bound = day 6 1,
     tc_basis = [''rel:'' @ digest_text 950137], tc_status = Proposed, tc_rationale = ''Superseded''\<rparr>"

definition faq_span :: document_span where
  "faq_span = \<lparr>sp_document_version_id = dv_id faq, sp_note_path = ''notes/faq.md'', sp_note_sha256 = digest_text 23,
     sp_quote = ''40 EUR'', sp_start_char = 10, sp_end_char = 16, sp_evidence = []\<rparr>"

definition faq_dependency :: dependency where
  "faq_dependency = \<lparr>dp_id = ''dep:'' @ digest_text 549688, dp_downstream = faq, dp_upstream = claim_v1,
     dp_spans = [faq_span], dp_claims = [], dp_kind = Quotes, dp_rationale = ''Quotes the cap'', dp_confidence = 8/10\<rparr>"

definition travel :: aggregate where
  "travel = \<lparr>ag_id = ''travel'', ag_documents = [policy_v1, faq, policy_v2], ag_claims = [claim_v1, claim_v2],
     ag_graph = [supersession], ag_dependencies = [faq_dependency], ag_replacements = [policy_replacement],
     ag_constraints = [document_constraint, claim_constraint]\<rparr>"

section \<open>The environment satisfies the hypotheses\<close>

lemma digest_digit_hex: "hex_char (digest_digit n)"
proof -
  have "0 \<le> n mod 10" "n mod 10 < 10" by simp_all
  then have "48 \<le> nat (48 + n mod 10) \<and> nat (48 + n mod 10) \<le> 57" by linarith
  then show ?thesis by (simp add: hex_char_def digest_digit_def Let_def)
qed

lemma digest_pattern: "sha256_pattern (digest_text n)"
  by (simp add: sha256_pattern_def digest_text_def digest_digit_hex) (simp add: hex_char_def)

lemma sample_hash_ok: "hash_ok sample_env"
  using digest_pattern by (simp add: hash_ok_def sample_env_def)

lemma show_int_token:
  "list_all number_char (show_int i) \<and> show_int i \<noteq> [] \<and> (digit_char (hd (show_int i)) \<or> hd (show_int i) = CHR ''-'')"
proof -
  have "digit_char (hd (show_nat n))" "show_nat n \<noteq> []" for n
    using show_nat_hd show_nat_digits by auto
  then show ?thesis using show_int_number [of i] by (simp add: show_int_def)
qed

lemma show_int_no_point: "list_all (\<lambda>c. c \<noteq> CHR ''.'') (show_int i)"
proof -
  have "\<not> digit_char (CHR ''.'')" by (simp add: digit_char_def)
  then show ?thesis using show_nat_digits by (auto simp: show_int_def list_all_iff)
qed

lemma float_text_inj: "float_text p = float_text q \<Longrightarrow> p = q"
proof -
  assume eq: "float_text p = float_text q"
  have tw: "takeWhile (\<lambda>c. c \<noteq> CHR ''.'') (show_int i @ CHR ''.'' # x) = show_int i" for i x
    using show_int_no_point [of i] by (simp add: list_all_iff takeWhile_append2)
  have "show_int (fst (quotient_of p)) = show_int (fst (quotient_of q))"
    using arg_cong [OF eq, of "takeWhile (\<lambda>c. c \<noteq> CHR ''.'')"] by (simp add: float_text_def tw)
  with eq have "quotient_of p = quotient_of q"
    by (simp add: float_text_def show_int_inj prod_eq_iff)
  then show "p = q" by (metis quotient_of_inject)
qed

lemma sample_float_ok: "float_ok sample_env"
proof -
  have "list_all number_char (float_text q) \<and> list_ex fraction_char (float_text q) \<and>
      (digit_char (hd (float_text q)) \<or> hd (float_text q) = CHR ''-'')" for q
    using show_int_token [of "fst (quotient_of q)"] show_int_token [of "snd (quotient_of q)"]
    by (simp add: float_text_def number_char_def fraction_char_def)
  then show ?thesis
    using float_text_inj by (simp add: float_ok_def sample_env_def inj_def)
qed

lemma sample_nfkc_ok: "nfkc_ok sample_env"
  by (simp add: nfkc_ok_def sample_env_def)

section \<open>Evaluation of the samples\<close>

lemma digit_literals:
  "char_of (48 :: nat) = CHR ''0''"
  "char_of (49 :: nat) = CHR ''1''"
  "char_of (50 :: nat) = CHR ''2''"
  "char_of (51 :: nat) = CHR ''3''"
  "char_of (52 :: nat) = CHR ''4''"
  "char_of (53 :: nat) = CHR ''5''"
  "char_of (54 :: nat) = CHR ''6''"
  "char_of (55 :: nat) = CHR ''7''"
  "char_of (56 :: nat) = CHR ''8''"
  "char_of (57 :: nat) = CHR ''9''"
  by (simp_all add: char_of_def bit_0)

lemma digest_literals [env_simps]:
  "digest_text 11 = ''0000000000000000000000000000000000000000000000000000000000000011''"
  "digest_text 12 = ''0000000000000000000000000000000000000000000000000000000000000012''"
  "digest_text 13 = ''0000000000000000000000000000000000000000000000000000000000000013''"
  "digest_text 21 = ''0000000000000000000000000000000000000000000000000000000000000021''"
  "digest_text 22 = ''0000000000000000000000000000000000000000000000000000000000000022''"
  "digest_text 23 = ''0000000000000000000000000000000000000000000000000000000000000023''"
  "digest_text 251916 = ''0000000000000000000000000000000000000000000000000000000000251916''"
  "digest_text 802700 = ''0000000000000000000000000000000000000000000000000000000000802700''"
  "digest_text 495403 = ''0000000000000000000000000000000000000000000000000000000000495403''"
  "digest_text 885274 = ''0000000000000000000000000000000000000000000000000000000000885274''"
  "digest_text 217041 = ''0000000000000000000000000000000000000000000000000000000000217041''"
  "digest_text 181925 = ''0000000000000000000000000000000000000000000000000000000000181925''"
  "digest_text 967796 = ''0000000000000000000000000000000000000000000000000000000000967796''"
  "digest_text 570117 = ''0000000000000000000000000000000000000000000000000000000000570117''"
  "digest_text 552336 = ''0000000000000000000000000000000000000000000000000000000000552336''"
  "digest_text 950137 = ''0000000000000000000000000000000000000000000000000000000000950137''"
  "digest_text 718454 = ''0000000000000000000000000000000000000000000000000000000000718454''"
  "digest_text 492209 = ''0000000000000000000000000000000000000000000000000000000000492209''"
  "digest_text 549688 = ''0000000000000000000000000000000000000000000000000000000000549688''"
  by (simp_all add: digest_text_def digest_digit_def digit_literals)

lemmas sample_defs = policy_v1_def policy_v2_def faq_def source_v1_def source_v2_def claim_v1_def claim_v2_def
  meal_pair_def supersession_def policy_replacement_def claim_constraint_def document_constraint_def
  faq_span_def faq_dependency_def day_def

lemma sample_env_select [simp]:
  "sha256_hex sample_env = (\<lambda>b. digest_text (weigh b))" "nfkc sample_env = (\<lambda>s. s)"
  "float_repr sample_env = float_text" "py_round sample_env = (\<lambda>q n. q)"
  by (simp_all add: sample_env_def)

text \<open>The digest of a payload is a digest of its encoding: one rule per identity.\<close>

lemma stable_id_eval:
  "weigh (canonical_json_bytes sample_env p) = n \<Longrightarrow>
     stable_content_id sample_env prefix p = prefix @ '':'' @ digest_text n"
  by (simp add: stable_content_id_def sha256_json_def)

lemmas encode_eval = canonical_json_bytes_def encode_string_def escape_char_def quote_char_def backslash_def
  utf8_char_def

lemma document_ids:
  "stable_content_id sample_env ''docv'' (document_identity_payload ''travel'' ''v1'') = dv_id policy_v1"
  "stable_content_id sample_env ''docv'' (document_identity_payload ''travel'' ''v2'') = dv_id policy_v2"
  "stable_content_id sample_env ''docv'' (document_identity_payload ''faq'' ''v1'') = dv_id faq"
  by (subst stable_id_eval, simp add: encode_eval document_identity_payload_def, simp add: sample_defs)+

lemma claim_ids:
  "stable_content_id sample_env ''claim'' (claim_identity_payload (dv_id policy_v1) ''meals-01'') = cr_identity_id claim_v1"
  "stable_content_id sample_env ''claim'' (claim_identity_payload (dv_id policy_v2) ''meals-01'') = cr_identity_id claim_v2"
  by (subst stable_id_eval, simp add: encode_eval claim_identity_payload_def sample_defs env_simps,
      simp add: sample_defs)+

lemma revision_ids:
  "stable_content_id sample_env ''claimrev'' (revision_identity_payload (cr_identity_id claim_v1)
     ''Meals: 40 EUR'' [''meals''] (day 1 1) None) = cr_revision_id claim_v1"
  "stable_content_id sample_env ''claimrev'' (revision_identity_payload (cr_identity_id claim_v2)
     ''Meals: 60 EUR'' [''meals''] (day 6 1) None) = cr_revision_id claim_v2"
  by (subst stable_id_eval, simp add: encode_eval revision_identity_payload_def sample_defs env_simps
      date_json_def isoformat_def pad_def show_nat.simps digit_of_def digit_literals opt_json_def,
      simp add: sample_defs)+

lemma edge_ids:
  "stable_content_id sample_env ''pair'' (pair_identity_payload (cr_revision_id claim_v1) (cr_revision_id claim_v2))
     = cp_id meal_pair"
  "stable_content_id sample_env ''rel'' (relation_identity_payload RelSupersedes (cr_revision_id claim_v2)
     (cr_revision_id claim_v1)) = the (ra_id supersession)"
  "stable_content_id sample_env ''rel'' (replacement_identity_payload (dv_id policy_v2) (dv_id policy_v1))
     = rp_id policy_replacement"
  "stable_content_id sample_env ''dep'' (dependency_identity_payload (dv_id faq) (cr_revision_id claim_v1) Quotes)
     = dp_id faq_dependency"
  by (subst stable_id_eval, simp add: encode_eval pair_identity_payload_def relation_identity_payload_def
      replacement_identity_payload_def dependency_identity_payload_def relation_type_value_def
      dependency_kind_value_def sample_defs env_simps, simp add: sample_defs)+

lemma constraint_ids:
  "stable_content_id sample_env ''tempc'' (constraint_identity_payload (tc_target claim_constraint) (day 6 1)
     (tc_basis claim_constraint)) = tc_id claim_constraint"
  "stable_content_id sample_env ''tempc'' (constraint_identity_payload (tc_target document_constraint) (day 6 1)
     (tc_basis document_constraint)) = tc_id document_constraint"
  by (subst stable_id_eval, simp add: encode_eval constraint_identity_payload_def temporal_target_json_def
      target_kind_value_def date_json_def isoformat_def pad_def show_nat.simps digit_of_def digit_literals
      sample_defs env_simps, simp add: sample_defs)+

lemma sample_keys:
  "normalize_logical_key sample_env ''travel'' = Inr ''travel''"
  "normalize_logical_key sample_env ''faq'' = Inr ''faq''"
  "normalize_logical_key sample_env ''v1'' = Inr ''v1''"
  "normalize_logical_key sample_env ''v2'' = Inr ''v2''"
  "normalize_logical_key sample_env ''meals'' = Inr ''meals''"
  by code_simp+

lemma sample_paths:
  "safe_relative_path ''policies/travel-v1.md'' = Inr ''policies/travel-v1.md''"
  "safe_relative_path ''policies/travel-v2.md'' = Inr ''policies/travel-v2.md''"
  "safe_relative_path ''faq.md'' = Inr ''faq.md''"
  "safe_relative_path ''notes/t1.md'' = Inr ''notes/t1.md''"
  "safe_relative_path ''notes/t2.md'' = Inr ''notes/t2.md''"
  "safe_relative_path ''notes/faq.md'' = Inr ''notes/faq.md''"
  by code_simp+

lemma sample_texts:
  "normalize_semantic_text sample_env ''Meals: 40 EUR'' = ''Meals: 40 EUR''"
  "normalize_semantic_text sample_env ''Meals: 60 EUR'' = ''Meals: 60 EUR''"
  "normalize_semantic_text sample_env ''Newer version'' = ''Newer version''"
  "normalize_semantic_text sample_env ''Superseded'' = ''Superseded''"
  "normalize_semantic_text sample_env ''Quotes the cap'' = ''Quotes the cap''"
  by code_simp+

lemma sample_inputs:
  "canonical_semantic_input sample_env ''Meals: 40 EUR'' ''statement'' 8 = Inr ''Meals: 40 EUR''"
  "canonical_semantic_input sample_env ''Newer version'' ''rationale'' 1 = Inr ''Newer version''"
  "canonical_semantic_input sample_env ''Superseded'' ''rationale'' 1 = Inr ''Superseded''"
  by code_simp+

lemma claim_id_sample: "claim_id_pattern ''meals-01''"
  by code_simp

lemma id_pattern: "content_id_pattern p (p @ '':'' @ digest_text n)"
  by (simp add: content_id_pattern_intro digest_pattern del: append.simps)

lemma sample_patterns:
  "content_id_pattern ''docv'' (''docv:'' @ digest_text n)"
  "content_id_pattern ''claim'' (''claim:'' @ digest_text n)"
  "content_id_pattern ''claimrev'' (''claimrev:'' @ digest_text n)"
  "content_id_pattern ''pair'' (''pair:'' @ digest_text n)"
  "content_id_pattern ''rel'' (''rel:'' @ digest_text n)"
  "content_id_pattern ''dep'' (''dep:'' @ digest_text n)"
  "content_id_pattern ''tempc'' (''tempc:'' @ digest_text n)"
  using id_pattern [of "''docv''" n] id_pattern [of "''claim''" n] id_pattern [of "''claimrev''" n]
    id_pattern [of "''pair''" n] id_pattern [of "''rel''" n] id_pattern [of "''dep''" n]
    id_pattern [of "''tempc''" n]
  by simp_all

lemmas id_patterns = sample_patterns [unfolded append_Cons append_Nil]

lemma documents_wf:
  "document_version_wf sample_env policy_v1" "document_version_wf sample_env policy_v2"
  "document_version_wf sample_env faq"
  unfolding document_version_wf_iff
  by (simp_all add: policy_v1_def policy_v2_def faq_def sample_keys sample_paths id_patterns digest_pattern
      closes_after_def document_ids [unfolded policy_v1_def policy_v2_def faq_def document_version.select_convs])

lemma sources_wf: "claim_source_wf sample_env source_v1" "claim_source_wf sample_env source_v2"
  by (simp_all add: claim_source_wf_iff source_v1_def source_v2_def sample_paths digest_pattern claim_id_sample)

lemma day_le [simp]: "day m d \<le> day m' d' \<longleftrightarrow> (m, d) \<le> (m', d')" "day m d < day m' d' \<longleftrightarrow> (m, d) < (m', d')"
  by (simp_all add: day_def less_eq_date_def less_date_def)

lemma policy_dates [simp]:
  "dv_from policy_v1 = day 1 1" "dv_from policy_v2 = day 6 1" "dv_from faq = day 2 1"
  "dv_to policy_v1 = None" "dv_to policy_v2 = None" "dv_to faq = None"
  by (simp_all add: policy_v1_def policy_v2_def faq_def)

lemma claims_wf: "claim_revision_wf sample_env claim_v1" "claim_revision_wf sample_env claim_v2"
proof -
  have "cs_claim_id source_v1 = ''meals-01''" "cs_claim_id source_v2 = ''meals-01''"
    by (simp_all add: source_v1_def source_v2_def)
  moreover note ids = claim_ids [unfolded claim_v1_def claim_v2_def claim_revision.select_convs]
    revision_ids [unfolded claim_v1_def claim_v2_def claim_revision.select_convs]
  ultimately have "claim_revision_new sample_env claim_v1 = Inr claim_v1"
    "claim_revision_new sample_env claim_v2 = Inr claim_v2"
    unfolding claim_revision_new_Inr_iff
    by (simp_all add: claim_v1_def claim_v2_def sample_keys sample_texts id_patterns closes_after_def
        starts_within_def fits_within_def)
  then show "claim_revision_wf sample_env claim_v1" "claim_revision_wf sample_env claim_v2"
    unfolding claim_revision_wf_iff
    using documents_wf sources_wf by (simp_all add: claim_v1_def claim_v2_def)
qed

lemma revision_order: "cr_revision_id claim_v1 < cr_revision_id claim_v2"
  by (simp add: sample_defs env_simps)

lemma pair_wf: "claim_pair_wf sample_env meal_pair"
proof -
  have "scope_intersection claim_v1 claim_v2 = [''meals'']"
    by (simp add: scope_intersection_def claim_v1_def claim_v2_def sorted_set_def)
  then have "claim_pair_new sample_env meal_pair = Inr meal_pair"
    using revision_order edge_ids(1) unfolding claim_pair_new_Inr_iff
    by (simp add: meal_pair_def id_patterns)
  then show ?thesis using claims_wf by (simp add: claim_pair_wf_iff meal_pair_def)
qed

lemma supersession_ok: "edge_ok sample_env supersession RelSupersedes (cr_revision_id claim_v2) (cr_revision_id claim_v1)"
  unfolding edge_ok_def edge_direction_def
  using revision_order edge_ids(2)
  by (simp add: supersession_def meal_pair_def persisted_type_def pair_revision_def pair_revisions_def
      lookup_key_def insert_commute guards.simps)
    (simp add: claim_v1_def claim_v2_def policy_v1_def policy_v2_def)

lemma supersession_wf: "relation_assessment_wf sample_env supersession"
proof -
  have "relation_semantics sample_env supersession = Inr supersession"
    using supersession_ok unfolding relation_semantics_Inr_iff by (auto simp: supersession_def)
  then have "relation_assessment_new sample_env supersession = Inr supersession"
    by (simp add: relation_assessment_new_def require_normalized_text_Inr rbind_Inr_iff unit_interval_def
        opt_all_def sample_texts supersession_def id_patterns)
  then show ?thesis using pair_wf by (simp add: relation_assessment_wf_iff supersession_def)
qed

lemma replacement_wf_sample: "replacement_wf sample_env policy_replacement"
proof -
  have "dv_id policy_v2 \<noteq> dv_id policy_v1" "dv_family policy_v2 = dv_family policy_v1"
    by (simp_all add: sample_defs env_simps)
  then have "replacement_new sample_env policy_replacement = Inr policy_replacement"
    using edge_ids(3) unfolding replacement_new_Inr_iff
    by (simp add: policy_replacement_def id_patterns sample_texts unit_interval_def)
  then show ?thesis using documents_wf by (simp add: replacement_wf_iff policy_replacement_def)
qed

lemma constraints_wf:
  "temporal_constraint_wf sample_env claim_constraint" "temporal_constraint_wf sample_env document_constraint"
proof -
  have "temporal_target_new (tc_target claim_constraint) = Inr (tc_target claim_constraint)"
    "temporal_target_new (tc_target document_constraint) = Inr (tc_target document_constraint)"
    by (simp_all add: temporal_target_new_def claim_constraint_def document_constraint_def id_patterns
        claim_v1_def policy_v1_def)
  moreover have "temporal_constraint_new sample_env claim_constraint = Inr claim_constraint"
    "temporal_constraint_new sample_env document_constraint = Inr document_constraint"
    using constraint_ids
    by (simp_all add: temporal_constraint_new_def rbind_Inr_iff require_normalized_text_Inr
        claim_constraint_def document_constraint_def id_patterns sample_texts sorted_set_def)
  ultimately show "temporal_constraint_wf sample_env claim_constraint"
    "temporal_constraint_wf sample_env document_constraint"
    by (simp_all add: temporal_constraint_wf_iff)
qed

lemma span_wf: "document_span_wf sample_env faq_span"
proof -
  have "\<not> blank ''40 EUR''" by code_simp
  then have "document_span_new faq_span = Inr faq_span"
    unfolding document_span_new_Inr_iff
    by (simp add: faq_span_def faq_def sample_paths id_patterns digest_pattern)
  then show ?thesis by (simp add: document_span_wf_iff faq_span_def)
qed

lemma faq_ids: "dv_id faq \<noteq> dv_id policy_v1" "dv_id faq \<noteq> dv_id policy_v2" "dv_id policy_v1 \<noteq> dv_id policy_v2"
  "dv_id policy_v1 < dv_id faq" "dv_id faq < dv_id policy_v2"
  by (simp_all add: sample_defs env_simps)

lemma dependency_wf_sample: "dependency_wf sample_env faq_dependency"
proof -
  have "dependency_new sample_env faq_dependency = Inr faq_dependency"
    using faq_ids edge_ids(4) unfolding dependency_new_def
    by (simp add: rbind_Inr_iff require_normalized_text_Inr require_consistent_claim_bindings_iff
        require_consistent_document_bindings_iff key_inj_def faq_dependency_def id_patterns sample_texts)
      (simp add: claim_v1_def faq_span_def)
  then show ?thesis
    using documents_wf claims_wf span_wf by (simp add: dependency_wf_iff faq_dependency_def)
qed

lemma travel_bindings:
  "cr_document claim_v1 = policy_v1" "cr_document claim_v2 = policy_v2"
  "ra_pair supersession = meal_pair" "cp_first meal_pair = claim_v1" "cp_second meal_pair = claim_v2"
  "dp_downstream faq_dependency = faq" "dp_upstream faq_dependency = claim_v1" "dp_claims faq_dependency = []"
  "dp_spans faq_dependency = [faq_span]" "sp_document_version_id faq_span = dv_id faq"
  "rp_newer policy_replacement = policy_v2" "rp_older policy_replacement = policy_v1"
  "tc_target claim_constraint = \<lparr>tt_kind = ClaimTarget, tt_id = cr_revision_id claim_v1\<rparr>"
  "tc_target document_constraint = \<lparr>tt_kind = DocumentTarget, tt_id = dv_id policy_v1\<rparr>"
  "tc_status claim_constraint = Proposed" "tc_status document_constraint = Proposed"
  by (simp_all add: sample_defs)

lemmas travel_select = travel_def aggregate.select_convs

lemma acyclic_single: "a \<noteq> b \<Longrightarrow> acyclic {(a, b)}"
proof (rule acyclicI, intro allI notI)
  fix x assume ab: "a \<noteq> b" and "(x, x) \<in> {(a, b)}\<^sup>+"
  then have "x = a" "x = b" by (auto dest: tranclD tranclD2)
  with ab show False by simp
qed

lemma travel_registries:
  "document_registry_new (ag_documents travel) = Inr (ag_documents travel)"
  "claim_registry_new (ag_claims travel) = Inr (ag_claims travel)"
  "relation_graph_new (ag_graph travel) = Inr (ag_graph travel)"
  "dependency_registry_new (ag_dependencies travel) = Inr (ag_dependencies travel)"
  "replacement_set_new (ag_replacements travel) = Inr (ag_replacements travel)"
  "constraint_set_new (ag_constraints travel) = Inr (ag_constraints travel)"
proof -
  show "document_registry_new (ag_documents travel) = Inr (ag_documents travel)"
    using faq_ids unfolding document_registry_new_Inr travel_select
    by (auto simp: canonical_def intro: less_imp_le)
  show "claim_registry_new (ag_claims travel) = Inr (ag_claims travel)"
    using revision_order faq_ids unfolding claim_registry_new_Inr travel_select
    by (auto simp: canonical_def key_inj_def travel_bindings)
  have "acyclic {(cr_revision_id claim_v2, cr_revision_id claim_v1)}"
    using revision_order by (intro acyclic_single) auto
  then show "relation_graph_new (ag_graph travel) = Inr (ag_graph travel)"
    using revision_order faq_ids unfolding relation_graph_new_Inr_iff travel_select
    by (auto simp: canonical_def key_inj_def travel_bindings assessment_revisions_def pair_revisions_def
        persisted_relation_ids_def List.map_filter_def supersession_def)
  show "dependency_registry_new (ag_dependencies travel) = Inr (ag_dependencies travel)"
    using faq_ids unfolding dependency_registry_new_Inr_iff travel_select
    by (auto simp: canonical_def key_inj_def travel_bindings dependency_revisions_def)
  have "acyclic {(dv_id policy_v2, dv_id policy_v1)}"
    using faq_ids by (intro acyclic_single) auto
  then show "replacement_set_new (ag_replacements travel) = Inr (ag_replacements travel)"
    using faq_ids unfolding replacement_set_new_Inr_iff travel_select
    by (auto simp: canonical_def key_inj_def travel_bindings replacement_documents_def replacement_edges_def)
  have "tc_id document_constraint < tc_id claim_constraint"
    by (simp add: sample_defs env_simps)
  then show "constraint_set_new (ag_constraints travel) = Inr (ag_constraints travel)"
    unfolding constraint_set_new_Inr_iff travel_select by (auto simp: canonical_def)
qed

lemma travel_wf: "aggregate_wf sample_env travel"
proof -
  have parts: "document_registry_revalidate sample_env (ag_documents travel) = Inr (ag_documents travel)"
    "claim_registry_revalidate sample_env (ag_claims travel) = Inr (ag_claims travel)"
    "relation_graph_revalidate sample_env (ag_graph travel) = Inr (ag_graph travel)"
    "dependency_registry_revalidate sample_env (ag_dependencies travel) = Inr (ag_dependencies travel)"
    "replacement_set_revalidate sample_env (ag_replacements travel) = Inr (ag_replacements travel)"
    "constraint_set_revalidate sample_env (ag_constraints travel) = Inr (ag_constraints travel)"
    unfolding revalidate_wf using travel_registries
    by (simp_all add: travel_select documents_wf claims_wf supersession_wf dependency_wf_sample
        replacement_wf_sample constraints_wf)
  have docs: "dict_get dv_id (ag_documents travel) (dv_id d) = Some d" if "d \<in> {policy_v1, faq, policy_v2}" for d
    using that faq_ids by (auto simp: travel_select dict_get_def lookup_key_def)
  have cls: "dict_get cr_revision_id (ag_claims travel) (cr_revision_id c) = Some c" if "c \<in> {claim_v1, claim_v2}" for c
    using that revision_order by (auto simp: travel_select dict_get_def lookup_key_def)
  have "closed_binding_graph travel = Inr travel"
    unfolding closed_binding_graph_Inr_iff require_dependency_Inr require_document_Inr require_claim_Inr
      require_span_Inr require_target_Inr
    using docs cls faq_ids revision_order travel_registries
    by (simp add: travel_select travel_bindings assessment_revisions_def pair_revisions_def
        replacement_documents_def validated_temporal_constraints_def validated_set_new_Inr_iff
        constraint_bases_check_def key_inj_def)
  moreover have "logical_key_pattern ''travel''" by code_simp
  ultimately have "aggregate_new sample_env travel = Inr travel"
    unfolding aggregate_new_Inr_iff by (simp add: travel_select sample_keys)
  with parts show ?thesis unfolding aggregate_wf_iff by simp
qed

end
