(* ===== verification/DiscoveryPaths.thy ===== *)
theory DiscoveryPaths
  imports Relations "HOL-Library.AList"
begin

text \<open>
  The relation paths of \<open>change_control/discovery.py\<close>: \<open>RelationPathStep\<close> with its validator, the
  adjacency that \<open>_relation_adjacency\<close> builds from the persisted edges of a relation graph, and the
  work-list loop of \<open>_canonical_relation_paths\<close>, which labels every claim revision with its
  canonical path from a start revision or stops at the hop limit.  The loop has no fuel: it is a
  partial function, and that it returns is a theorem.
\<close>

section \<open>The code\<close>

datatype discovery_error =
    DiscoveryLimit string int int
  | DiscoveryRaise py_error

definition MAX_RELATION_HOPS_V1 :: nat where "MAX_RELATION_HOPS_V1 = 16"

datatype traversal_direction = Forward | Reverse | Symmetric

definition direction_value :: "traversal_direction \<Rightarrow> string" where
  "direction_value d = (case d of Forward \<Rightarrow> ''forward'' | Reverse \<Rightarrow> ''reverse''
     | Symmetric \<Rightarrow> ''symmetric'')"

record path_step =
  rs_relation_id :: string
  rs_type :: relation_type
  rs_endpoints :: "string \<times> string"
  rs_from :: string
  rs_to :: string
  rs_direction :: traversal_direction

text \<open>The constructor of \<open>RelationPathStep\<close>: field patterns, then \<open>_semantics\<close>.\<close>

definition path_step_new :: "py_env \<Rightarrow> path_step \<Rightarrow> path_step result" where
  "path_step_new E s =
     (let (x, y) = rs_endpoints s in
      rbind (guards
        [(content_id_pattern ''rel'' (rs_relation_id s), ValueError ''relation_id''),
         (content_id_pattern ''claimrev'' (rs_from s), ValueError ''traversed_from_claim_revision_id''),
         (content_id_pattern ''claimrev'' (rs_to s), ValueError ''traversed_to_claim_revision_id''),
         (rs_type s \<in> {RelSupersedes, RelContradicts},
            ValueError ''discovery relation paths support only canonical claim edges''),
         ({x, y} = {rs_from s, rs_to s},
            ValueError ''relation traversal must use its canonical endpoints''),
         (x \<noteq> y \<and> content_id_pattern ''claimrev'' x \<and> content_id_pattern ''claimrev'' y,
            ValueError ''canonical relation endpoints must be two distinct claim revisions'')] ()) (\<lambda>_.
      rbind (if rs_type s = RelContradicts then
               guards
                 [(x \<le> y, ValueError ''CONTRADICTS endpoints must be canonical''),
                  (rs_direction s = Symmetric, ValueError ''CONTRADICTS traversal must remain symmetric'')] ()
             else
               guards [(rs_direction s = (if rs_from s = x then Forward else Reverse),
                  ValueError ''SUPERSEDES traversal direction is inconsistent'')] ()) (\<lambda>_.
      guards [(rs_relation_id s = stable_content_id E ''rel'' (relation_identity_payload (rs_type s) x y),
         ValueError ''relation_id does not match canonical relation semantics'')] s)))"

type_synonym step_adjacency = "(string \<times> path_step list) list"

text \<open>\<open>adjacency.setdefault(source, []).append(step)\<close> and \<open>adjacency.get(source, ())\<close>.\<close>

definition steps_at :: "step_adjacency \<Rightarrow> string \<Rightarrow> path_step list" where
  "steps_at adj u = (case map_of adj u of Some ss \<Rightarrow> ss | None \<Rightarrow> [])"

definition push_step :: "path_step \<Rightarrow> step_adjacency \<Rightarrow> step_adjacency" where
  "push_step s adj = AList.update (rs_from s) (steps_at adj (rs_from s) @ [s]) adj"

definition traversals :: "relation_type \<Rightarrow> string \<Rightarrow> string \<Rightarrow> (string \<times> string \<times> traversal_direction) list" where
  "traversals t x y =
     (if t = RelContradicts then [(x, y, Symmetric), (y, x, Symmetric)]
      else [(x, y, Forward), (y, x, Reverse)])"

definition assessment_steps :: "py_env \<Rightarrow> relation_assessment \<Rightarrow> path_step list result" where
  "assessment_steps E a =
     (if ra_type a \<notin> {Some RelSupersedes, Some RelContradicts} then Inr []
      else (case (ra_type a, ra_id a, ra_endpoints a) of
        (Some t, Some i, Some (x, y)) \<Rightarrow>
          rmap (\<lambda>(u, v, d). path_step_new E
              \<lparr>rs_relation_id = i, rs_type = t, rs_endpoints = (x, y), rs_from = u, rs_to = v,
               rs_direction = d\<rparr>) (traversals t x y)
      | _ \<Rightarrow> Inl AssertionError))"

definition step_sort_key :: "path_step \<Rightarrow> string \<times> string \<times> string" where
  "step_sort_key s = (rs_relation_id s, rs_to s, direction_value (rs_direction s))"

definition relation_adjacency :: "py_env \<Rightarrow> relation_assessment list \<Rightarrow> step_adjacency result" where
  "relation_adjacency E as =
     rbind (rmap (assessment_steps E) as) (\<lambda>sss.
     Inr (map (\<lambda>(u, ss). (u, sort_key step_sort_key ss)) (fold push_step (concat sss) [])))"

text \<open>The key two paths to the same revision are compared by, and one turn of the inner loop.\<close>

type_synonym path_map = "(string \<times> path_step list) list"

definition path_key :: "path_step list \<Rightarrow> nat \<times> string list" where
  "path_key p = (length p, map rs_relation_id p)"

definition label_kept :: "path_step list option \<Rightarrow> path_step list \<Rightarrow> bool" where
  "label_kept previous candidate \<longleftrightarrow>
     (case previous of
        None \<Rightarrow> False
      | Some q \<Rightarrow> length q < length candidate \<or>
          length q = length candidate \<and> map rs_relation_id q \<le> map rs_relation_id candidate)"

definition relax_step ::
  "path_step list \<Rightarrow> path_step \<Rightarrow> path_map \<times> string list \<Rightarrow> discovery_error + path_map \<times> string list"
where
  "relax_step current_path s st =
     (let (paths, queue) = st; target = rs_to s; candidate = current_path @ [s] in
      if label_kept (map_of paths target) candidate then Inr (paths, queue)
      else if length candidate > MAX_RELATION_HOPS_V1
      then Inl (DiscoveryLimit ''relation-hops'' (int MAX_RELATION_HOPS_V1) (int (length candidate)))
      else Inr (AList.update target candidate paths, queue @ [target]))"

fun relax_steps ::
  "path_step list \<Rightarrow> path_step list \<Rightarrow> path_map \<times> string list \<Rightarrow> discovery_error + path_map \<times> string list"
where
  "relax_steps current_path [] st = Inr st"
| "relax_steps current_path (s # ss) st =
     rbind (relax_step current_path s st) (relax_steps current_path ss)"

text \<open>
  \<open>while queue\<close>: the head is popped and its steps are relaxed.  \<open>None\<close> is a run that does not end.
\<close>

partial_function (option) path_loop ::
  "step_adjacency \<Rightarrow> path_map \<Rightarrow> string list \<Rightarrow> (discovery_error + path_map) option" where
  "path_loop adj paths queue =
     (case queue of
        [] \<Rightarrow> Some (Inr paths)
      | current # rest \<Rightarrow>
          (case map_of paths current of
             None \<Rightarrow> Some (Inl (DiscoveryRaise (KeyError current)))
           | Some current_path \<Rightarrow>
               (case relax_steps current_path (steps_at adj current) (paths, rest) of
                  Inl e \<Rightarrow> Some (Inl e)
                | Inr (paths', queue') \<Rightarrow> path_loop adj paths' queue')))"

definition canonical_relation_paths ::
  "string \<Rightarrow> step_adjacency \<Rightarrow> (discovery_error + path_map) option" where
  "canonical_relation_paths start adj = path_loop adj [(start, [])] [start]"

section \<open>Walks and keys\<close>

fun walk :: "step_adjacency \<Rightarrow> string \<Rightarrow> path_step list \<Rightarrow> string \<Rightarrow> bool" where
  "walk adj u [] t \<longleftrightarrow> u = t"
| "walk adj u (s # p) t \<longleftrightarrow> s \<in> set (steps_at adj u) \<and> walk adj (rs_to s) p t"

lemma walk_snoc:
  "walk adj u (p @ [s]) t \<longleftrightarrow> (\<exists>v. walk adj u p v \<and> s \<in> set (steps_at adj v) \<and> rs_to s = t)"
  by (induction p arbitrary: u) auto

definition all_steps :: "step_adjacency \<Rightarrow> path_step set" where
  "all_steps adj = (\<Union>(u, ss) \<in> set adj. set ss)"

lemma steps_at_all: "set (steps_at adj u) \<subseteq> all_steps adj"
proof (cases "map_of adj u")
  case (Some ss)
  then show ?thesis using map_of_SomeD [OF Some] by (force simp: steps_at_def all_steps_def)
qed (simp add: steps_at_def)

lemma walk_steps: "walk adj u p t \<Longrightarrow> set p \<subseteq> all_steps adj"
  using steps_at_all by (induction p arbitrary: u) fastforce+

lemma finite_all_steps [simp]: "finite (all_steps adj)"
  by (auto simp: all_steps_def)

lemma lex_snoc: "length xs = length ys \<Longrightarrow> xs @ [x] \<le> ys @ [x] \<longleftrightarrow> xs \<le> (ys :: string list)"
  by (induction xs ys rule: list_induct2) auto

lemma path_key_snoc: "path_key p \<le> path_key q \<Longrightarrow> path_key (p @ [s]) \<le> path_key (q @ [s])"
  using lex_snoc [of "map rs_relation_id p" "map rs_relation_id q" "rs_relation_id s"]
  by (auto simp: path_key_def less_eq_prod_def)

lemma path_key_length: "path_key p \<le> path_key q \<Longrightarrow> length p \<le> length q"
  by (auto simp: path_key_def less_eq_prod_def)

lemma label_kept_iff: "label_kept x c \<longleftrightarrow> (\<exists>q. x = Some q \<and> path_key q \<le> path_key c)"
  by (cases x) (auto simp: label_kept_def path_key_def less_eq_prod_def)

section \<open>The loop invariant\<close>

definition path_len :: "path_map \<Rightarrow> string \<Rightarrow> nat" where
  "path_len paths u = (case map_of paths u of Some p \<Rightarrow> length p | None \<Rightarrow> 0)"

definition relaxed :: "path_map \<Rightarrow> string \<Rightarrow> path_step \<Rightarrow> bool" where
  "relaxed paths u s \<longleftrightarrow> (\<exists>p q. map_of paths u = Some p \<and> map_of paths (rs_to s) = Some q \<and>
     path_key q \<le> path_key (p @ [s]))"

text \<open>
  \<open>level_inv adj start d X paths queue\<close>: the labels are walks of at most \<open>d + 1\<close> hops, the queue
  holds labelled revisions of level \<open>d\<close> or \<open>d + 1\<close> in order, and every labelled revision that is
  neither queued nor in \<open>X\<close> has all its steps relaxed.
\<close>

definition level_inv ::
  "step_adjacency \<Rightarrow> string \<Rightarrow> nat \<Rightarrow> string set \<Rightarrow> path_map \<Rightarrow> string list \<Rightarrow> bool" where
  "level_inv adj start d X paths queue \<longleftrightarrow>
     map_of paths start = Some [] \<and>
     (\<forall>u p. map_of paths u = Some p \<longrightarrow>
        walk adj start p u \<and> length p \<le> MAX_RELATION_HOPS_V1 \<and> length p \<le> d + 1) \<and>
     set queue \<subseteq> dom (map_of paths) \<and>
     sorted (map (path_len paths) queue) \<and> (\<forall>u \<in> set queue. d \<le> path_len paths u) \<and>
     (\<forall>u s. u \<in> dom (map_of paths) \<longrightarrow> u \<notin> set queue \<longrightarrow> u \<notin> X \<longrightarrow>
        s \<in> set (steps_at adj u) \<longrightarrow> relaxed paths u s)"

lemma level_invD:
  assumes "level_inv adj start d X paths queue"
  shows "map_of paths start = Some []"
    and "map_of paths u = Some p \<Longrightarrow> walk adj start p u"
    and "map_of paths u = Some p \<Longrightarrow> length p \<le> MAX_RELATION_HOPS_V1"
    and "map_of paths u = Some p \<Longrightarrow> length p \<le> d + 1"
    and "u \<in> set queue \<Longrightarrow> \<exists>p. map_of paths u = Some p"
    and "sorted (map (path_len paths) queue)"
    and "u \<in> set queue \<Longrightarrow> d \<le> path_len paths u"
    and "map_of paths u = Some p \<Longrightarrow> u \<notin> set queue \<Longrightarrow> u \<notin> X \<Longrightarrow> s \<in> set (steps_at adj u) \<Longrightarrow>
           relaxed paths u s"
  using assms by (auto simp: level_inv_def)

lemma relaxed_update:
  assumes "relaxed paths u s" and "u \<noteq> t"
    and "\<And>q. map_of paths t = Some q \<Longrightarrow> path_key c \<le> path_key q"
  shows "relaxed (AList.update t c paths) u s"
proof (cases "rs_to s = t")
  case True
  from assms(1) True obtain p q where "map_of paths u = Some p" "map_of paths t = Some q"
    "path_key q \<le> path_key (p @ [s])" by (auto simp: relaxed_def)
  with assms True show ?thesis by (fastforce simp: relaxed_def update_conv)
qed (use assms in \<open>auto simp: relaxed_def update_conv\<close>)

text \<open>A walk no longer than the level ends in a labelled revision, with a label that is not worse.\<close>

lemma level_inv_short:
  assumes inv: "level_inv adj start d X paths queue" and X: "\<And>u. u \<in> X \<Longrightarrow> d \<le> path_len paths u"
    and "walk adj start w u" and "length w \<le> d \<or> queue = [] \<and> X = {}"
  shows "\<exists>q. map_of paths u = Some q \<and> path_key q \<le> path_key w"
  using assms(3,4)
proof (induction w arbitrary: u rule: rev_induct)
  case Nil
  then show ?case using level_invD(1) [OF inv] by simp
next
  case (snoc s w)
  then obtain v where v: "walk adj start w v" "s \<in> set (steps_at adj v)" "rs_to s = u"
    by (auto simp: walk_snoc)
  with snoc obtain q where q: "map_of paths v = Some q" "path_key q \<le> path_key w" by fastforce
  have "v \<notin> set queue \<and> v \<notin> X"
    using snoc.prems(2) path_key_length [OF q(2)] q(1) X [of v] level_invD(7) [OF inv, of v]
    by (auto simp: path_len_def)
  then obtain r where "map_of paths u = Some r" "path_key r \<le> path_key (q @ [s])"
    using level_invD(8) [OF inv q(1)] v q(1) by (auto simp: relaxed_def)
  moreover note path_key_snoc [OF q(2), of s]
  ultimately show ?case by (meson order_trans)
qed

definition hop_limit_error :: "step_adjacency \<Rightarrow> string \<Rightarrow> discovery_error \<Rightarrow> bool" where
  "hop_limit_error adj start e \<longleftrightarrow>
     e = DiscoveryLimit ''relation-hops'' 16 17 \<and>
     (\<exists>t w. walk adj start w t \<and> (\<forall>w'. walk adj start w' t \<longrightarrow> 16 < length w'))"

text \<open>What one relaxation does to the state.\<close>

lemma relax_step_cases:
  assumes inv: "level_inv adj start (length p) {c} paths queue" and c: "map_of paths c = Some p"
    and s: "s \<in> set (steps_at adj c)"
  obtains (kept) "relax_step p s (paths, queue) = Inr (paths, queue)" "relaxed paths c s"
  | (limit) e where "relax_step p s (paths, queue) = Inl e" "hop_limit_error adj start e"
  | (better) paths' where "paths' = AList.update (rs_to s) (p @ [s]) paths"
      "relax_step p s (paths, queue) = Inr (paths', queue @ [rs_to s])" "rs_to s \<noteq> c"
      "length p < MAX_RELATION_HOPS_V1"
      "\<And>q. map_of paths (rs_to s) = Some q \<Longrightarrow> path_key (p @ [s]) < path_key q \<and> length q = length p + 1"
proof -
  let ?t = "rs_to s"
  show thesis
  proof (cases "\<exists>q. map_of paths ?t = Some q \<and> path_key q \<le> path_key (p @ [s])")
    case True
    then obtain q where q: "map_of paths ?t = Some q" "path_key q \<le> path_key (p @ [s])" by blast
    then have "relax_step p s (paths, queue) = Inr (paths, queue)"
      by (auto simp: relax_step_def label_kept_iff)
    with q c show thesis by (intro kept) (auto simp: relaxed_def)
  next
    case False
    have better_q: "path_key (p @ [s]) < path_key q \<and> length q = length p + 1"
      if "map_of paths ?t = Some q" for q
      using that False level_invD(4) [OF inv that]
      by (auto simp: not_le path_key_def less_prod_def)
    have skip: "\<not> label_kept (map_of paths ?t) (p @ [s])"
      using False by (simp add: label_kept_iff)
    have le: "length p \<le> MAX_RELATION_HOPS_V1" using level_invD(3) [OF inv c] .
    show thesis
    proof (cases "length p < MAX_RELATION_HOPS_V1")
      case True
      have "?t \<noteq> c" using better_q c by auto
      with True better_q show thesis
        by (intro better [OF refl]) (simp_all add: relax_step_def Let_def skip)
    next
      case full: False
      with le have p16: "length p = 16" by (simp add: MAX_RELATION_HOPS_V1_def)
      have "map_of paths ?t = None"
        using better_q level_invD(3) [OF inv, of ?t] p16
        by (cases "map_of paths ?t") (auto simp: MAX_RELATION_HOPS_V1_def)
      moreover have "walk adj start (p @ [s]) ?t"
        using level_invD(2) [OF inv c] s by (auto simp: walk_snoc)
      ultimately have "\<forall>w'. walk adj start w' ?t \<longrightarrow> 16 < length w'"
        using level_inv_short [OF inv, of _ ?t] c p16 by (force simp: path_len_def not_less)
      with \<open>walk adj start (p @ [s]) ?t\<close> have "hop_limit_error adj start (DiscoveryLimit ''relation-hops'' 16 17)"
        by (auto simp: hop_limit_error_def)
      then show thesis
        using p16 by (intro limit) (simp_all add: relax_step_def Let_def skip
            MAX_RELATION_HOPS_V1_def)
    qed
  qed
qed

lemma path_len_Some: "map_of paths u = Some p \<Longrightarrow> path_len paths u = length p"
  by (simp add: path_len_def)

lemma level_inv_better:
  assumes inv: "level_inv adj start (length p) {c} paths queue" and c: "map_of paths c = Some p"
    and s: "s \<in> set (steps_at adj c)" and tc: "rs_to s \<noteq> c" and lt: "length p < MAX_RELATION_HOPS_V1"
    and old: "\<And>q. map_of paths (rs_to s) = Some q \<Longrightarrow>
      path_key (p @ [s]) < path_key q \<and> length q = length p + 1"
  defines "paths' \<equiv> AList.update (rs_to s) (p @ [s]) paths"
  shows "level_inv adj start (length p) {c} paths' (queue @ [rs_to s])"
proof -
  let ?t = "rs_to s"
  have m: "map_of paths' u = (if u = ?t then Some (p @ [s]) else map_of paths u)" for u
    by (simp add: paths'_def update_conv')
  have start: "?t \<noteq> start" using old level_invD(1) [OF inv] by auto
  have len: "path_len paths' u = path_len paths u" if "u \<in> set queue" for u
    using level_invD(5) [OF inv that] old by (auto simp: path_len_def m)
  have lens: "map (path_len paths') queue = map (path_len paths) queue"
    using len by simp
  have t: "path_len paths' ?t = length p + 1" by (simp add: path_len_def m)
  have le: "path_len paths u \<le> length p + 1" if "u \<in> set queue" for u
    using level_invD(5) [OF inv that] level_invD(4) [OF inv, of u] by (auto simp: path_len_def)
  have w: "walk adj start (p @ [s]) ?t" using level_invD(2) [OF inv c] s by (auto simp: walk_snoc)
  show ?thesis
    unfolding level_inv_def
  proof (intro conjI allI impI)
    show "map_of paths' start = Some []" using start level_invD(1) [OF inv] by (simp add: m)
  next
    fix u q assume "map_of paths' u = Some q"
    then show "walk adj start q u" "length q \<le> MAX_RELATION_HOPS_V1" "length q \<le> length p + 1"
      using w lt level_invD(2-4) [OF inv, of u q] by (auto simp: m split: if_splits)
  next
    show "set (queue @ [?t]) \<subseteq> dom (map_of paths')"
      using level_invD(5) [OF inv] by (auto simp: m)
  next
    show "sorted (map (path_len paths') (queue @ [?t]))"
      using level_invD(6) [OF inv] le t by (auto simp: lens sorted_append len)
  next
    show "\<forall>u \<in> set (queue @ [?t]). length p \<le> path_len paths' u"
      using level_invD(7) [OF inv] t len by auto
  next
    fix u s' assume u: "u \<in> dom (map_of paths')" "u \<notin> set (queue @ [?t])" "u \<notin> {c}"
      and s': "s' \<in> set (steps_at adj u)"
    then obtain q where "map_of paths u = Some q" by (auto simp: m)
    then have "relaxed paths u s'" using level_invD(8) [OF inv] u s' by auto
    then show "relaxed paths' u s'"
      unfolding paths'_def using u old by (intro relaxed_update) (auto simp: less_imp_le)
  qed
qed

section \<open>Potential of the labels\<close>

definition label_space :: "step_adjacency \<Rightarrow> path_step list set" where
  "label_space adj = {p. set p \<subseteq> all_steps adj \<and> length p \<le> MAX_RELATION_HOPS_V1}"

definition better_labels :: "step_adjacency \<Rightarrow> path_step list \<Rightarrow> path_step list set" where
  "better_labels adj q = {p \<in> label_space adj. path_key p < path_key q}"

definition label_potential :: "step_adjacency \<Rightarrow> path_map \<Rightarrow> nat" where
  "label_potential adj paths = (\<Sum>t \<in> rs_to ` all_steps adj.
     case map_of paths t of None \<Rightarrow> card (label_space adj) + 1 | Some q \<Rightarrow> card (better_labels adj q))"

lemma finite_label_space [simp]: "finite (label_space adj)"
  unfolding label_space_def by (rule finite_lists_length_le) simp

lemma label_potential_update:
  assumes "s \<in> all_steps adj" and "c \<in> label_space adj"
    and "\<And>q. map_of paths (rs_to s) = Some q \<Longrightarrow> path_key c < path_key q"
  shows "label_potential adj (AList.update (rs_to s) c paths) < label_potential adj paths"
proof -
  let ?f = "\<lambda>paths t. case map_of paths t of None \<Rightarrow> card (label_space adj) + 1
    | Some q \<Rightarrow> card (better_labels adj q)"
  have "?f (AList.update (rs_to s) c paths) (rs_to s) < ?f paths (rs_to s)"
  proof (cases "map_of paths (rs_to s)")
    case None
    have "card (better_labels adj c) \<le> card (label_space adj)"
      by (rule card_mono) (auto simp: better_labels_def)
    then show ?thesis using None by (simp add: update_conv')
  next
    case (Some q)
    have "better_labels adj c \<subset> better_labels adj q"
      using assms(2) assms(3) [OF Some] by (force simp: better_labels_def)
    then show ?thesis using Some by (simp add: update_conv' psubset_card_mono better_labels_def)
  qed
  then show ?thesis
    unfolding label_potential_def using assms(1)
    by (intro sum_strict_mono_ex1) (auto simp: update_conv' split: if_splits)
qed

section \<open>The loop\<close>

lemma relax_steps_level:
  assumes "level_inv adj start (length p) {c} paths queue" and "map_of paths c = Some p"
    and "set ss \<subseteq> set (steps_at adj c)"
  shows "case relax_steps p ss (paths, queue) of
      Inl e \<Rightarrow> hop_limit_error adj start e
    | Inr (paths', queue') \<Rightarrow> level_inv adj start (length p) {c} paths' queue' \<and>
        map_of paths' c = Some p \<and> (\<forall>s \<in> set ss. relaxed paths' c s) \<and>
        (\<forall>s. relaxed paths c s \<longrightarrow> relaxed paths' c s) \<and>
        (label_potential adj paths' < label_potential adj paths \<or> paths' = paths \<and> queue' = queue)"
  using assms
proof (induction ss arbitrary: paths queue)
  case (Cons s ss)
  have s: "s \<in> set (steps_at adj c)" using Cons.prems by simp
  from Cons.prems(1,2) s show ?case
  proof (cases rule: relax_step_cases)
    case kept
    then show ?thesis using Cons.IH [OF Cons.prems(1,2)] Cons.prems(3)
      by (auto split: sum.splits)
  next
    case (limit e)
    then show ?thesis by simp
  next
    case (better paths')
    note inv = level_inv_better [OF Cons.prems(1,2) s better(3-5), folded better(1)]
    have c: "map_of paths' c = Some p" using better(1,3) Cons.prems(2) by (simp add: update_conv')
    have sc: "relaxed paths' c s" using c better(1) by (simp add: relaxed_def update_conv')
    have mono: "relaxed paths c s' \<Longrightarrow> relaxed paths' c s'" for s'
      unfolding better(1) using better(3,5) by (intro relaxed_update) (auto simp: less_imp_le)
    have all: "s \<in> all_steps adj" using s steps_at_all by auto
    have "p @ [s] \<in> label_space adj"
      using walk_steps [OF level_invD(2) [OF Cons.prems(1,2)]] better(4) all
      by (auto simp: label_space_def)
    then have pot: "label_potential adj paths' < label_potential adj paths"
      unfolding better(1) using better(5) all by (intro label_potential_update) auto
    have "case relax_steps p ss (paths', queue @ [rs_to s]) of
        Inl e \<Rightarrow> hop_limit_error adj start e
      | Inr (paths'', queue'') \<Rightarrow> level_inv adj start (length p) {c} paths'' queue'' \<and>
          map_of paths'' c = Some p \<and> (\<forall>s \<in> set ss. relaxed paths'' c s) \<and>
          (\<forall>s. relaxed paths' c s \<longrightarrow> relaxed paths'' c s) \<and>
          (label_potential adj paths'' < label_potential adj paths' \<or>
           paths'' = paths' \<and> queue'' = queue @ [rs_to s])"
      using Cons.IH [OF inv c] Cons.prems(3) by simp
    then show ?thesis
      unfolding relax_steps.simps better(2) using sc mono pot
      by (auto split: sum.splits)
  qed
qed simp

lemma level_inv_pop:
  assumes inv: "level_inv adj start d {} paths (c # rest)" and c: "map_of paths c = Some p"
  shows "level_inv adj start (length p) {c} paths rest"
  unfolding level_inv_def
proof (intro conjI allI impI)
  have d: "d \<le> length p" using level_invD(7) [OF inv, of c] c by (simp add: path_len_Some)
  show "map_of paths start = Some []" by (rule level_invD(1) [OF inv])
  show "set rest \<subseteq> dom (map_of paths)" using level_invD(5) [OF inv] by auto
  show "sorted (map (path_len paths) rest)" using level_invD(6) [OF inv] by simp
  show "\<forall>u \<in> set rest. length p \<le> path_len paths u"
    using level_invD(6) [OF inv] c by (simp add: path_len_Some)
  fix u q assume q: "map_of paths u = Some q"
  show "walk adj start q u" "length q \<le> MAX_RELATION_HOPS_V1"
    by (rule level_invD(2,3) [OF inv q])+
  show "length q \<le> length p + 1" using level_invD(4) [OF inv q] d by simp
next
  fix u s assume "u \<in> dom (map_of paths)" "u \<notin> set rest" "u \<notin> {c}" "s \<in> set (steps_at adj u)"
  then show "relaxed paths u s" using level_invD(8) [OF inv, of u _ s] by auto
qed

lemma level_inv_done:
  assumes inv: "level_inv adj start d {c} paths queue"
    and "\<forall>s \<in> set (steps_at adj c). relaxed paths c s"
  shows "level_inv adj start d {} paths queue"
proof -
  have "relaxed paths u s" if "u \<in> dom (map_of paths)" "u \<notin> set queue" "s \<in> set (steps_at adj u)" for u s
    using that assms(2) level_invD(8) [OF inv, of u _ s] by (cases "u = c") auto
  then show ?thesis using inv unfolding level_inv_def by blast
qed

definition paths_exact :: "step_adjacency \<Rightarrow> string \<Rightarrow> path_map \<Rightarrow> bool" where
  "paths_exact adj start paths \<longleftrightarrow>
     (\<forall>t. case map_of paths t of
        None \<Rightarrow> (\<nexists>w. walk adj start w t)
      | Some p \<Rightarrow> walk adj start p t \<and> length p \<le> 16 \<and>
          (\<forall>w. walk adj start w t \<longrightarrow> path_key p \<le> path_key w))"

lemma level_inv_end:
  assumes inv: "level_inv adj start d {} paths []"
  shows "paths_exact adj start paths"
proof -
  have "\<exists>q. map_of paths t = Some q \<and> path_key q \<le> path_key w" if "walk adj start w t" for t w
    using level_inv_short [OF inv] that by simp
  then show ?thesis
    using level_invD(2,3) [OF inv]
    by (fastforce simp: paths_exact_def MAX_RELATION_HOPS_V1_def split: option.splits)
qed

lemma path_loop_total:
  assumes "level_inv adj start d {} paths queue"
  shows "\<exists>r. path_loop adj paths queue = Some r \<and>
    (case r of Inl e \<Rightarrow> hop_limit_error adj start e | Inr paths' \<Rightarrow> paths_exact adj start paths')"
  using assms
proof (induction "(paths, queue)" arbitrary: d paths queue
    rule: wf_induct_rule [OF wf_measures, of "[\<lambda>(ps, q). label_potential adj ps, \<lambda>(ps, q). length q]"])
  case 1
  show ?case
  proof (cases queue)
    case Nil
    then show ?thesis using level_inv_end 1(2) by (auto simp: path_loop.simps)
  next
    case (Cons c rest)
    then obtain p where c: "map_of paths c = Some p" using level_invD(5) [OF 1(2), of c] by auto
    note pop = level_inv_pop [OF 1(2) [unfolded Cons] c]
    note relax = relax_steps_level [OF pop c, of "steps_at adj c"]
    show ?thesis
    proof (cases "relax_steps p (steps_at adj c) (paths, rest)")
      case (Inl e)
      then show ?thesis using relax c Cons by (simp add: path_loop.simps)
    next
      case (Inr st)
      then obtain paths' queue' where st: "relax_steps p (steps_at adj c) (paths, rest) = Inr (paths', queue')"
        by (cases st) auto
      have inv: "level_inv adj start (length p) {} paths' queue'"
        using relax st by (auto intro: level_inv_done)
      have "((paths', queue'), (paths, queue))
          \<in> measures [\<lambda>(ps, q). label_potential adj ps, \<lambda>(ps, q). length q]"
        using relax st Cons by auto
      from 1(1) [OF this inv] show ?thesis
        using st c Cons by (simp add: path_loop.simps)
    qed
  qed
qed

lemma canonical_relation_paths_total:
  "\<exists>r. canonical_relation_paths start adj = Some r \<and>
    (case r of Inl e \<Rightarrow> hop_limit_error adj start e | Inr paths \<Rightarrow> paths_exact adj start paths)"
  unfolding canonical_relation_paths_def
  by (rule path_loop_total [of _ _ 0])
    (auto simp: level_inv_def path_len_def MAX_RELATION_HOPS_V1_def split: if_splits)

section \<open>The adjacency of a relation graph\<close>

text \<open>The persisted claim edges of a graph, walked in either direction.\<close>

definition graph_edge :: "relation_assessment list \<Rightarrow> string \<Rightarrow> string \<Rightarrow> string \<Rightarrow> bool" where
  "graph_edge as u i v \<longleftrightarrow>
     (\<exists>a \<in> set as. ra_type a \<in> {Some RelSupersedes, Some RelContradicts} \<and> ra_id a = Some i \<and>
        (ra_endpoints a = Some (u, v) \<or> ra_endpoints a = Some (v, u)))"

fun graph_walk :: "relation_assessment list \<Rightarrow> string \<Rightarrow> (string \<times> string) list \<Rightarrow> string \<Rightarrow> bool" where
  "graph_walk as u [] t \<longleftrightarrow> u = t"
| "graph_walk as u ((i, v) # p) t \<longleftrightarrow> graph_edge as u i v \<and> graph_walk as v p t"

definition hop :: "path_step \<Rightarrow> string \<times> string" where
  "hop s = (rs_relation_id s, rs_to s)"

lemma steps_at_push: "steps_at (push_step s adj) u = (if u = rs_from s then steps_at adj u @ [s] else steps_at adj u)"
  by (cases "map_of adj (rs_from s)") (auto simp: steps_at_def push_step_def update_conv')

lemma steps_at_fold: "steps_at (fold push_step ss adj) u = steps_at adj u @ filter (\<lambda>s. rs_from s = u) ss"
  by (induction ss arbitrary: adj) (auto simp: steps_at_push)

lemma steps_at_sorted:
  "set (steps_at (map (\<lambda>(u, ss). (u, sort_key k ss)) adj) u) = set (steps_at adj u)"
proof -
  have "map_of (map (\<lambda>(u, ss). (u, sort_key k ss)) adj) u = map_option (sort_key k) (map_of adj u)"
    by (induction adj) auto
  then show ?thesis by (auto simp: steps_at_def split: option.splits)
qed

lemma relation_adjacency_steps:
  assumes "rmap (assessment_steps E) as = Inr sss" and "relation_adjacency E as = Inr adj"
  shows "set (steps_at adj u) = {s \<in> set (concat sss). rs_from s = u}"
proof -
  have "adj = map (\<lambda>(u, ss). (u, sort_key step_sort_key ss)) (fold push_step (concat sss) [])"
    using assms by (simp add: relation_adjacency_def)
  moreover have "steps_at [] u = []" by (simp add: steps_at_def)
  ultimately show ?thesis by (auto simp: steps_at_sorted steps_at_fold)
qed

text \<open>The steps of one well-formed assessment: its edge in both directions, or none.\<close>

lemma assessment_steps_ok:
  assumes wf: "relation_assessment_wf E a"
  shows "\<exists>ss. assessment_steps E a = Inr ss \<and>
    (\<forall>u i v. (\<exists>s \<in> set ss. rs_from s = u \<and> hop s = (i, v)) \<longleftrightarrow> graph_edge [a] u i v) \<and>
    (\<forall>s \<in> set ss. path_step_new E s = Inr s)"
proof (cases "ra_type a \<in> {Some RelSupersedes, Some RelContradicts}")
  case False
  then show ?thesis by (auto simp: assessment_steps_def graph_edge_def)
next
  case True
  then obtain t where t: "ra_type a = Some t" "t = RelSupersedes \<or> t = RelContradicts" by auto
  from wf have pair: "claim_pair_wf E (ra_pair a)" and new: "relation_assessment_new E a = Inr a"
    by (simp_all add: relation_assessment_wf_iff)
  obtain x y where edge: "edge_ok E a t x y"
    using relation_semantics_edge [OF relation_assessment_new_semantics [OF new] t(1)] .
  let ?i = "stable_content_id E ''rel'' (relation_identity_payload t x y)"
  have rel: "ra_id a = Some ?i" "ra_endpoints a = Some (x, y)" using edge by (simp_all add: edge_ok_def)
  have i: "content_id_pattern ''rel'' ?i"
    using new rel(1) by (auto simp: relation_assessment_new_def rbind_Inr_iff opt_all_def)
  have revs: "content_id_pattern ''claimrev'' x" "content_id_pattern ''claimrev'' y" "x \<noteq> y"
    using pair edge by (auto simp: claim_pair_wf_iff claim_revision_wf_iff claim_revision_new_Inr_iff
        claim_pair_new_Inr_iff edge_ok_def doubleton_eq_iff)
  have xy: "t = RelContradicts \<Longrightarrow> x \<le> y"
    using edge by (auto simp: edge_ok_def edge_direction_def)
  let ?s = "\<lambda>(u, v, d). \<lparr>rs_relation_id = ?i, rs_type = t, rs_endpoints = (x, y), rs_from = u, rs_to = v,
    rs_direction = d\<rparr>"
  have ok: "path_step_new E (?s uvd) = Inr (?s uvd)" if "uvd \<in> set (traversals t x y)" for uvd
    using that t(2) i revs xy
    by (auto simp: traversals_def path_step_new_def rbind_Inr_iff insert_commute split: if_splits)
  have "rmap (\<lambda>uvd. path_step_new E (?s uvd)) uvds = Inr (map ?s uvds)"
    if "set uvds \<subseteq> set (traversals t x y)" for uvds
    using that by (induction uvds) (auto simp: ok)
  then have "assessment_steps E a = Inr (map ?s (traversals t x y))"
    using t rel by (simp add: assessment_steps_def case_prod_unfold)
  moreover have "(\<exists>s \<in> set (map ?s (traversals t x y)). rs_from s = u \<and> hop s = (i, v)) \<longleftrightarrow>
      graph_edge [a] u i v" for u i v
    using t rel by (auto simp: traversals_def hop_def graph_edge_def)
  ultimately show ?thesis using ok by auto
qed

lemma relation_adjacency_ok:
  assumes "\<forall>a \<in> set as. relation_assessment_wf E a"
  shows "\<exists>adj. relation_adjacency E as = Inr adj \<and>
    (\<forall>u i v. (\<exists>s \<in> set (steps_at adj u). hop s = (i, v)) \<longleftrightarrow> graph_edge as u i v) \<and>
    (\<forall>u. \<forall>s \<in> set (steps_at adj u). rs_from s = u \<and> path_step_new E s = Inr s)"
proof -
  have "\<exists>sss. rmap (assessment_steps E) as = Inr sss"
    using assms assessment_steps_ok by (intro rmap_total) blast
  then obtain sss where sss: "rmap (assessment_steps E) as = Inr sss" ..
  then obtain adj where adj: "relation_adjacency E as = Inr adj"
    by (simp add: relation_adjacency_def)
  have mem: "s \<in> set (concat sss) \<longleftrightarrow> (\<exists>a \<in> set as. \<exists>ss. assessment_steps E a = Inr ss \<and> s \<in> set ss)" for s
    using rmap_Inr_mem [OF sss] by (auto simp: Bex_def)
  have at: "set (steps_at adj u) = {s \<in> set (concat sss). rs_from s = u}" for u
    by (rule relation_adjacency_steps [OF sss adj])
  have "(\<exists>s \<in> set (steps_at adj u). hop s = (i, v)) \<longleftrightarrow> graph_edge as u i v" for u i v
  proof -
    have "(\<exists>s \<in> set (steps_at adj u). hop s = (i, v)) \<longleftrightarrow>
        (\<exists>a \<in> set as. \<exists>ss. assessment_steps E a = Inr ss \<and> (\<exists>s \<in> set ss. rs_from s = u \<and> hop s = (i, v)))"
      using mem by (auto simp: at)
    also have "\<dots> \<longleftrightarrow> (\<exists>a \<in> set as. graph_edge [a] u i v)"
      using assms assessment_steps_ok by fastforce
    finally show ?thesis by (simp add: graph_edge_def)
  qed
  moreover have "path_step_new E s = Inr s" if "s \<in> set (concat sss)" for s
    using that assms assessment_steps_ok unfolding mem by fastforce
  ultimately show ?thesis using adj at by auto
qed

lemma graph_walk_iff:
  assumes "\<And>u i v. (\<exists>s \<in> set (steps_at adj u). hop s = (i, v)) \<longleftrightarrow> graph_edge as u i v"
  shows "graph_walk as u w t \<longleftrightarrow> (\<exists>p. walk adj u p t \<and> map hop p = w)"
proof (induction w arbitrary: u)
  case (Cons iv w)
  obtain i v where iv: "iv = (i, v)" by force
  have "graph_walk as u (iv # w) t \<longleftrightarrow>
      (\<exists>s \<in> set (steps_at adj u). hop s = (i, v)) \<and> (\<exists>p. walk adj v p t \<and> map hop p = w)"
    by (simp add: iv Cons assms)
  also have "\<dots> \<longleftrightarrow> (\<exists>s p. s \<in> set (steps_at adj u) \<and> hop s = (i, v) \<and> walk adj (rs_to s) p t \<and> map hop p = w)"
    by (auto simp: hop_def)
  also have "\<dots> \<longleftrightarrow> (\<exists>s p. walk adj u (s # p) t \<and> map hop (s # p) = iv # w)"
    by (auto simp: iv)
  also have "\<dots> \<longleftrightarrow> (\<exists>p. walk adj u p t \<and> map hop p = iv # w)"
    by (metis list.exhaust list.distinct(1) map_is_Nil_conv)
  finally show ?case .
qed simp

lemma path_key_hops: "path_key p = (length (map hop p), map fst (map hop p))"
  by (simp add: path_key_def hop_def comp_def)

lemma graph_hop_limit:
  assumes "\<And>u i v. (\<exists>s \<in> set (steps_at adj u). hop s = (i, v)) \<longleftrightarrow> graph_edge as u i v"
    and "hop_limit_error adj start e"
  shows "e = DiscoveryLimit ''relation-hops'' 16 17 \<and>
    (\<exists>t w. graph_walk as start w t \<and> (\<forall>w'. graph_walk as start w' t \<longrightarrow> 16 < length w'))"
proof -
  obtain t w where t: "walk adj start w t" "\<forall>w'. walk adj start w' t \<longrightarrow> 16 < length w'"
    and e: "e = DiscoveryLimit ''relation-hops'' 16 17"
    using assms(2) by (auto simp: hop_limit_error_def)
  then have "graph_walk as start (map hop w) t" "\<forall>w'. graph_walk as start w' t \<longrightarrow> 16 < length w'"
    by (auto simp: graph_walk_iff [OF assms(1)])
  then show ?thesis using e by blast
qed

lemma graph_paths_exact:
  assumes "\<And>u i v. (\<exists>s \<in> set (steps_at adj u). hop s = (i, v)) \<longleftrightarrow> graph_edge as u i v"
    and "paths_exact adj start paths"
  shows "case map_of paths t of
      None \<Rightarrow> (\<nexists>w. graph_walk as start w t)
    | Some p \<Rightarrow> graph_walk as start (map hop p) t \<and> length p \<le> 16 \<and>
        (\<forall>w. graph_walk as start w t \<longrightarrow> path_key p \<le> (length w, map fst w))"
proof -
  have "case map_of paths t of None \<Rightarrow> (\<nexists>w. walk adj start w t)
      | Some p \<Rightarrow> walk adj start p t \<and> length p \<le> 16 \<and>
          (\<forall>w. walk adj start w t \<longrightarrow> path_key p \<le> path_key w)"
    using assms(2) unfolding paths_exact_def by blast
  then show ?thesis
    by (auto simp: graph_walk_iff [OF assms(1)] path_key_hops split: option.splits)
qed

section \<open>Properties\<close>

text \<open>
  C19.  The work-list loop returns, for every start and every adjacency, cyclic ones included.  It
  never misses a queued revision; it raises only the hop limit, and only when some revision can be
  reached but not within 16 hops; otherwise every reachable revision, and no other, carries a walk
  from the start that no walk undercuts in length or, at equal length, in the order of relation ids.
\<close>

theorem relation_paths_return:
  "\<exists>r. canonical_relation_paths start adj = Some r \<and>
    (case r of Inl e \<Rightarrow> hop_limit_error adj start e | Inr paths \<Rightarrow> paths_exact adj start paths)"
  by (rule canonical_relation_paths_total)

text \<open>
  C20.  On the well-formed assessments of a relation graph the adjacency is built without an error
  or failed assertion, and the canonical paths are the minimal walks over the graph's SUPERSEDES and
  CONTRADICTS edges, walked in both directions.
\<close>

theorem relation_paths_of_graph:
  assumes "\<forall>a \<in> set as. relation_assessment_wf E a"
  shows "\<exists>adj r. relation_adjacency E as = Inr adj \<and> canonical_relation_paths start adj = Some r \<and>
    (case r of
       Inl e \<Rightarrow> e = DiscoveryLimit ''relation-hops'' 16 17 \<and>
         (\<exists>t w. graph_walk as start w t \<and> (\<forall>w'. graph_walk as start w' t \<longrightarrow> 16 < length w'))
     | Inr paths \<Rightarrow> (\<forall>t. case map_of paths t of
         None \<Rightarrow> (\<nexists>w. graph_walk as start w t)
       | Some p \<Rightarrow> graph_walk as start (map hop p) t \<and> length p \<le> 16 \<and>
           (\<forall>w. graph_walk as start w t \<longrightarrow> path_key p \<le> (length w, map fst w))))"
proof -
  obtain adj where adj: "relation_adjacency E as = Inr adj"
    and edges: "\<And>u i v. (\<exists>s \<in> set (steps_at adj u). hop s = (i, v)) \<longleftrightarrow> graph_edge as u i v"
    using relation_adjacency_ok [OF assms] by blast
  obtain r where r: "canonical_relation_paths start adj = Some r"
    "case r of Inl e \<Rightarrow> hop_limit_error adj start e | Inr paths \<Rightarrow> paths_exact adj start paths"
    using canonical_relation_paths_total by blast
  show ?thesis
    using adj r graph_hop_limit [OF edges] graph_paths_exact [OF edges]
    by (intro exI [of _ adj] exI [of _ r]) (auto split: sum.splits)
qed

end
