(* ===== verification/Witnesses.thy ===== *)
theory Witnesses
  imports Samples DiscoveryPaths
begin

text \<open>
  Witnesses for the properties of the change-control models: each applies its theorem to the sample
  values and discharges the hypotheses there.
\<close>

lemma safe_relative_path_safe_witness:
  "safe_relative_path ''faq.md'' = Inr ''faq.md'' \<and> \<not> posix_is_absolute ''faq.md'' \<and>
   backslash \<notin> set ''faq.md''"
  using safe_relative_path_safe [OF sample_paths(3)] sample_paths(3) by blast

lemma stable_content_id_binding_witness:
  "let v = JObj [(''a'', JInt 1), (''b'', JNull)]; w = JObj [(''b'', JNull), (''a'', JInt 1)]
   in stable_content_id sample_env ''rel'' v = stable_content_id sample_env ''rel'' w \<and>
      (sort_members v = sort_members w \<or> hash_collision sample_env v w)"
proof -
  let ?v = "JObj [(''a'', JInt 1), (''b'', JNull)]" and ?w = "JObj [(''b'', JNull), (''a'', JInt 1)]"
  have eq: "stable_content_id sample_env ''rel'' ?v = stable_content_id sample_env ''rel'' ?w"
    by (simp add: stable_content_id_def sha256_json_def canonical_json_bytes_def)
  from stable_content_id_binding [OF sample_hash_ok sample_float_ok this] eq show ?thesis
    unfolding Let_def by (intro conjI) blast+
qed

lemma document_identity_binding_witness:
  "let d = policy_v1\<lparr>dv_source_path := ''faq.md''\<rparr>
   in document_version_new sample_env d = Inr d \<and> dv_id d = dv_id policy_v1 \<and>
      (dv_family d = dv_family policy_v1 \<and> dv_version_label d = dv_version_label policy_v1 \<or>
       hash_collision sample_env (document_identity_payload (dv_family d) (dv_version_label d))
         (document_identity_payload (dv_family policy_v1) (dv_version_label policy_v1)))"
proof -
  let ?d = "policy_v1\<lparr>dv_source_path := ''faq.md''\<rparr>"
  have d: "document_version_new sample_env ?d = Inr ?d"
    using documents_wf(1) unfolding document_version_wf_iff document_version_new_Inr_iff
    by (auto simp: sample_paths)
  have b: "document_version_new sample_env policy_v1 = Inr policy_v1"
    using documents_wf(1) by (simp add: document_version_wf_def)
  have id: "dv_id ?d = dv_id policy_v1" by simp
  from document_identity_binding [OF sample_float_ok d b id] d id show ?thesis by (simp add: Let_def)
qed

lemma document_registry_create_get_witness:
  "document_registry_create [policy_v2, policy_v1, policy_v2] = Inr [policy_v1, policy_v2] \<and>
   document_registry_get [policy_v1, policy_v2] (dv_id policy_v2) = Inr policy_v2 \<and>
   document_registry_create [policy_v1, policy_v2] = Inr [policy_v1, policy_v2]"
proof -
  have c: "document_registry_create [policy_v2, policy_v1, policy_v2] = Inr [policy_v1, policy_v2]"
    using faq_ids unfolding document_registry_create_iff by (auto simp: canonical_def)
  have s: "set [policy_v1, policy_v2] = set [policy_v2, policy_v1, policy_v2]" by auto
  have "lookup_key dv_id (dv_id policy_v2) [policy_v2, policy_v1, policy_v2] = Some policy_v2"
    by (simp add: lookup_key_def)
  with conjunct2 [OF document_registry_create_get, of "[policy_v2, policy_v1, policy_v2]", rule_format, OF c] s
  have "document_registry_get [policy_v1, policy_v2] (dv_id policy_v2) = Inr policy_v2"
    "document_registry_create [policy_v1, policy_v2] = Inr [policy_v1, policy_v2]"
    by (metis (no_types, lifting) option.simps(5))+
  with c show ?thesis by (intro conjI)
qed

lemma claim_revision_binding_witness:
  "let r = claim_v1\<lparr>cr_source := source_v2\<rparr>
   in claim_revision_new sample_env r = Inr r \<and>
      (cr_statement r = cr_statement claim_v1 \<and> cs_claim_id (cr_source r) = cs_claim_id source_v1 \<or>
       hash_collision sample_env (revision_identity_payload_of r) (revision_identity_payload_of claim_v1) \<or>
       hash_collision sample_env (claim_identity_payload_of r) (claim_identity_payload_of claim_v1))"
proof -
  let ?r = "claim_v1\<lparr>cr_source := source_v2\<rparr>"
  have b: "claim_revision_new sample_env claim_v1 = Inr claim_v1"
    using claims_wf(1) by (simp add: claim_revision_wf_iff)
  then have r: "claim_revision_new sample_env ?r = Inr ?r"
    unfolding claim_revision_new_Inr_iff
    by (auto simp: claim_v1_def source_v1_def source_v2_def starts_within_def fits_within_def)
  have "cr_source claim_v1 = source_v1" by (simp add: claim_v1_def)
  with claim_revision_binding [OF sample_float_ok r b] r show ?thesis by (auto simp: Let_def)
qed

lemma claim_create_sample:
  "claim_revision_create sample_env policy_v1 source_v1 ''Meals: 40 EUR'' (day 1 1) None [''meals''] = Inr claim_v1"
proof -
  have k: "cs_claim_id source_v1 = ''meals-01''" by (simp add: source_v1_def)
  have s: "sorted_set [''meals''] = [''meals'']" by (simp add: sorted_set_def)
  have r: "claim_v1 = \<lparr>cr_identity_id = cr_identity_id claim_v1, cr_revision_id = cr_revision_id claim_v1,
     cr_document = policy_v1, cr_source = source_v1, cr_statement = ''Meals: 40 EUR'', cr_from = day 1 1,
     cr_to = None, cr_scopes = [''meals'']\<rparr>"
    by (simp add: claim_v1_def)
  have n: "claim_revision_new sample_env claim_v1 = Inr claim_v1"
    using claims_wf(1) by (simp add: claim_revision_wf_iff)
  show ?thesis
    unfolding claim_revision_create_def
    by (simp add: sample_inputs sample_keys s k claim_ids revision_ids Let_def r [symmetric] n
        del: One_nat_def)
qed

lemma claim_revision_create_wf_witness:
  "claim_revision_wf sample_env claim_v1 \<and> cr_document claim_v1 = policy_v1 \<and>
   claim_revision_create sample_env policy_v1 source_v1 ''Meals: 40 EUR'' (day 1 1) None [''meals'', ''meals''] = Inr claim_v1"
proof -
  have s: "set [''meals'', ''meals''] = set [''meals'']" by simp
  from claim_revision_create_wf [OF documents_wf(1) sources_wf(1) claim_create_sample] s
  show ?thesis by blast
qed

lemma claim_pair_direction_free_witness:
  "claim_pair_create sample_env claim_v1 claim_v2 = claim_pair_create sample_env claim_v2 claim_v1"
proof -
  have "cr_revision_id claim_v1 \<noteq> cr_revision_id claim_v2" using revision_order by simp
  from claim_pair_direction_free [OF this] show ?thesis by simp
qed

lemma meal_pair_created: "claim_pair_create sample_env claim_v1 claim_v2 = Inr meal_pair"
proof -
  have "scope_intersection claim_v1 claim_v2 = [''meals'']"
    by (simp add: scope_intersection_def claim_v1_def claim_v2_def sorted_set_def)
  moreover have "claim_pair_new sample_env meal_pair = Inr meal_pair"
    using pair_wf by (simp add: claim_pair_wf_iff)
  moreover have "meal_pair = \<lparr>cp_id = cp_id meal_pair, cp_first = claim_v1, cp_second = claim_v2,
      cp_shared_scopes = [''meals'']\<rparr>"
    by (simp add: meal_pair_def)
  ultimately show ?thesis
    using revision_order by (auto simp: claim_pair_create_def edge_ids guards.simps)
qed

lemma supersession_created:
  "relation_assessment_create sample_env meal_pair Supersedes ''Newer version'' (9/10)
     (Some (cr_revision_id claim_v2)) = Inr supersession"
proof -
  have s: "supersession = \<lparr>ra_pair = meal_pair, ra_disposition = Supersedes, ra_rationale = ''Newer version'',
     ra_confidence = 9/10, ra_type = Some RelSupersedes, ra_id = Some (the (ra_id supersession)),
     ra_endpoints = Some (cr_revision_id claim_v2, cr_revision_id claim_v1)\<rparr>"
    by (simp add: supersession_def)
  have "relation_assessment_new sample_env supersession = Inr supersession"
    using supersession_wf by (simp add: relation_assessment_wf_iff)
  then show ?thesis
    using revision_order unfolding relation_assessment_create_def
    by (auto simp: sample_inputs persisted_type_def Let_def travel_bindings edge_ids s [symmetric]
        simp del: One_nat_def)
qed

lemma relation_assessment_create_edges_witness:
  "ra_endpoints supersession = Some (cr_revision_id claim_v2, cr_revision_id claim_v1) \<and>
   cr_from claim_v1 < cr_from claim_v2"
proof -
  have o: "cr_revision_id (cp_first meal_pair) < cr_revision_id (cp_second meal_pair)"
    using revision_order by (simp add: travel_bindings)
  from relation_assessment_create_edges [OF supersession_created o]
  obtain n old where "{n, old} = {claim_v1, claim_v2}" "cr_revision_id claim_v2 = cr_revision_id n"
    "ra_endpoints supersession = Some (cr_revision_id n, cr_revision_id old)" "cr_from old < cr_from n"
    by (auto simp: travel_bindings)
  with revision_order show ?thesis by (auto simp: doubleton_eq_iff)
qed

lemma travel_assessments_ok: "assessments_ok sample_env (ag_graph travel)"
  using supersession_wf pair_wf
  by (simp add: assessments_ok_def travel_select relation_assessment_wf_iff claim_pair_wf_iff travel_bindings)

lemma relation_graph_never_cyclic_witness:
  "relation_graph_new [supersession] = Inr [supersession]"
proof -
  from relation_graph_never_cyclic [OF travel_assessments_ok]
  have eq: "relation_graph_new (ag_graph travel) = guards
    [(require_consistent_claim_bindings (assessment_revisions (ag_graph travel)),
        ValueError ''relation graph embeds conflicting bindings''),
     (distinct (map ra_pair_id (ag_graph travel)),
        ValueError ''relation graph requires exactly one current assessment per pair_id''),
     (map ra_pair_id (ag_graph travel) = sort (map ra_pair_id (ag_graph travel)),
        ValueError ''relation assessments must use canonical pair_id order''),
     (distinct (persisted_relation_ids (ag_graph travel)), ValueError ''persisted relation IDs must be unique'')]
    (ag_graph travel)" .
  have "require_consistent_claim_bindings (assessment_revisions (ag_graph travel))"
    using travel_registries(3) by (simp add: relation_graph_new_Inr_iff require_consistent_claim_bindings_iff)
  with eq show ?thesis
    by (simp add: travel_select guards.simps persisted_relation_ids_def List.map_filter_def supersession_def)
qed

lemma replace_binding_cas_witness:
  "let d = faq_dependency\<lparr>dp_confidence := 1\<rparr>
   in replace_binding [faq_dependency] faq_dependency d = Inr [d] \<and> lookup_key dp_id (dp_id d) [d] = Some d \<and>
      replace_binding [d] faq_dependency d =
        Inl (ValueError ''dependency binding changed since the expected snapshot'')"
proof -
  let ?d = "faq_dependency\<lparr>dp_confidence := 1\<rparr>"
  have new: "dependency_registry_new [?d] = Inr [?d]"
    using travel_registries(4) unfolding dependency_registry_new_Inr_iff
    by (simp add: travel_select canonical_def key_inj_def dependency_revisions_def)
  have id: "dp_id faq_dependency = dp_id ?d" by simp
  have ne: "?d \<noteq> faq_dependency" by (simp add: faq_dependency_def)
  have r: "replace_binding [faq_dependency] faq_dependency ?d = Inr [?d]"
    using new by (simp add: replace_binding_def guards.simps dependency_registry_get_def registry_get_def
        lookup_key_def replace_key_def)
  have l: "lookup_key dp_id (dp_id faq_dependency) [?d] = Some ?d" by (simp add: lookup_key_def)
  have stale: "replace_binding [?d] faq_dependency ?d =
      Inl (ValueError ''dependency binding changed since the expected snapshot'')"
    by (rule replace_binding_cas [OF id, THEN conjunct2, THEN conjunct1, rule_format, of "[?d]" ?d])
      (use l ne in \<open>intro conjI\<close>)
  have "lookup_key dp_id (dp_id ?d) [?d] = Some ?d"
    using replace_binding_cas [OF id, THEN conjunct2, THEN conjunct2, rule_format, OF r] by simp
  with r stale show ?thesis unfolding Let_def by (intro conjI)
qed

lemma dependency_spans_canonical_witness:
  "canonical_spans sample_env [faq_span, faq_span] = canonical_spans sample_env [faq_span] \<and>
   set (canonical_spans sample_env [faq_span]) = {faq_span}"
proof
  have "set [faq_span, faq_span] = set [faq_span]" by simp
  with dependency_spans_canonical [OF sample_float_ok, of "[faq_span]"]
  show "canonical_spans sample_env [faq_span, faq_span] = canonical_spans sample_env [faq_span]" by blast
  show "set (canonical_spans sample_env [faq_span]) = {faq_span}"
    using conjunct1 [OF dependency_spans_canonical [OF sample_float_ok, of "[faq_span]"]] by simp
qed

lemma replacement_set_never_cyclic_witness:
  "replacement_set_new [policy_replacement] = Inr [policy_replacement]"
proof -
  have "list_all (\<lambda>r. replacement_new sample_env r = Inr r) [policy_replacement]"
    using replacement_wf_sample by (simp add: replacement_wf_iff)
  from replacement_set_never_cyclic [OF this] travel_registries(5) show ?thesis
    by (simp add: travel_select guards.simps require_consistent_document_bindings_iff replacement_set_new_Inr_iff)
qed

lemma claim_constraint_derived:
  "from_supersession sample_env supersession Accepted ''Superseded'' =
     Inr (claim_constraint\<lparr>tc_status := Accepted\<rparr>)"
proof -
  have wf: "temporal_constraint_wf sample_env claim_constraint" by (rule constraints_wf)
  then have t: "temporal_target_new (tc_target claim_constraint) = Inr (tc_target claim_constraint)"
    and n: "temporal_constraint_new sample_env (claim_constraint\<lparr>tc_status := Accepted\<rparr>) =
      Inr (claim_constraint\<lparr>tc_status := Accepted\<rparr>)"
    by (auto simp: temporal_constraint_wf_iff temporal_constraint_new_def rbind_Inr_iff)
  have p: "pair_revision meal_pair (cr_revision_id claim_v2) = Inr claim_v2"
    "pair_revision meal_pair (cr_revision_id claim_v1) = Inr claim_v1"
    using revision_order by (simp_all add: pair_revision_Inr travel_bindings)
  let ?r = "''rel:'' @ digest_text 552336" and ?c = "claim_constraint\<lparr>tc_status := Accepted\<rparr>"
  have edge: "ra_type supersession = Some RelSupersedes" "ra_id supersession = Some ?r"
    "ra_endpoints supersession = Some (cr_revision_id claim_v2, cr_revision_id claim_v1)"
    by (simp_all add: supersession_def)
  have newer_from: "cr_from claim_v2 = day 6 1" by (simp add: claim_v2_def)
  have fields: "?c = \<lparr>tc_id = tc_id claim_constraint, tc_target = tc_target claim_constraint, tc_bound = day 6 1,
      tc_basis = [?r], tc_status = Accepted, tc_rationale = ''Superseded''\<rparr>"
    "tc_basis claim_constraint = [?r]"
    by (simp_all add: claim_constraint_def)
  have "derived_constraint sample_env ClaimTarget (cr_revision_id claim_v1) (day 6 1) ?r Accepted ''Superseded'' = Inr ?c"
    unfolding derived_constraint_def travel_bindings(13) [symmetric] t rbind_simps
      constraint_ids(1) [unfolded fields(2)] fields(1) [symmetric] n ..
  then show ?thesis
    unfolding from_supersession_def sample_inputs edge travel_bindings(3) p newer_from
    by (simp add: guards.simps p newer_from del: append.simps)
qed

lemma derived_constraints_validate_witness:
  "\<exists>u. constraint_bases_check (ag_graph travel) (ag_replacements travel)
     (claim_constraint\<lparr>tc_status := Accepted\<rparr>) = Inr u"
proof -
  have "supersession \<in> set (ag_graph travel)" by (simp add: travel_select)
  from conjunct1 [OF derived_constraints_validate [OF travel_registries(3) travel_assessments_ok travel_registries(5)],
      rule_format, OF this claim_constraint_derived]
  show ?thesis .
qed

lemma travel_constraints_wf: "list_all (temporal_constraint_wf sample_env) (ag_constraints travel)"
  by (simp add: travel_select constraints_wf)

lemma transition_status_cas_witness:
  "constraint_transition_status sample_env (ag_constraints travel) (tc_id claim_constraint) Proposed Accepted =
     Inr [document_constraint, claim_constraint\<lparr>tc_status := Accepted\<rparr>] \<and>
   constraint_transition_status sample_env (ag_constraints travel) (tc_id claim_constraint) Accepted Rejected =
     Inl (ValueError ''temporal constraint status changed since the expected snapshot'')"
proof -
  have can: "canonical tc_id (ag_constraints travel)"
    using travel_registries(6) by (simp add: constraint_set_new_Inr_iff)
  have ne: "tc_id document_constraint \<noteq> tc_id claim_constraint" by (simp add: sample_defs env_simps)
  show ?thesis
    unfolding transition_status_cas [OF can travel_constraints_wf]
    using ne by (simp add: travel_select lookup_key_def travel_bindings)
qed

lemma resolve_temporality_exact_witness:
  "\<exists>r. resolve_temporality sample_env (tc_target claim_constraint) (day 1 1) None [claim_constraint] (day 7 1) = Inr r \<and>
     tr_state r = Historical \<and> tr_to r = Some (day 6 1) \<and> tr_applied r = [tc_id claim_constraint]"
proof -
  have wf: "\<forall>c \<in> set [claim_constraint]. temporal_constraint_wf sample_env c" by (simp add: constraints_wf)
  have close: "closes_after None (day 1 1)" by (simp add: closes_after_def)
  have dis: "distinct (map tc_id [claim_constraint])" by simp
  have b: "tc_bound claim_constraint = day 6 1" by (simp add: claim_constraint_def)
  have con: "bounds_consistent (day 1 1) None [claim_constraint]"
    by (simp add: bounds_consistent_def b)
  from resolve_temporality_exact [OF sample_nfkc_ok close wf dis, of "tc_target claim_constraint" "day 7 1"]
  obtain r where r: "resolve_temporality sample_env (tc_target claim_constraint) (day 1 1) None [claim_constraint] (day 7 1) = Inr r"
    "tr_applied r = [tc_id claim_constraint]" "tr_to r = Some (day 6 1)"
    "tr_state r = Historical \<longleftrightarrow> (\<exists>d. tr_to r = Some d \<and> d \<le> day 7 1)"
    using con b by auto
  then show ?thesis by auto
qed

definition travel_set :: validated_set where
  "travel_set = \<lparr>vs_constraints = ag_constraints travel, vs_graph = ag_graph travel,
     vs_replacements = ag_replacements travel\<rparr>"

lemma travel_set_valid: "validated_set_revalidate sample_env travel_set = Inr travel_set"
proof -
  have parts: "constraint_set_revalidate sample_env (ag_constraints travel) = Inr (ag_constraints travel)"
    "relation_graph_revalidate sample_env (ag_graph travel) = Inr (ag_graph travel)"
    "replacement_set_revalidate sample_env (ag_replacements travel) = Inr (ag_replacements travel)"
    and closed: "closed_binding_graph travel = Inr travel"
    using travel_wf by (auto simp: aggregate_wf_iff aggregate_new_Inr_iff)
  from closed obtain v where v: "validated_set_new travel_set = Inr v"
    by (auto simp: closed_binding_graph_Inr_iff validated_temporal_constraints_def travel_set_def)
  then have "v = travel_set" by (simp add: validated_set_new_Inr_iff)
  with v parts show ?thesis by (simp add: validated_set_revalidate_def travel_set_def)
qed

lemma context_transparent_witness:
  "\<exists>ctx. context_new sample_env travel_set (day 7 1) = Inr ctx \<and>
     fst (context_run sample_env [QueryClaim claim_v1, QueryDocument policy_v1, QueryClaim claim_v1] ctx) =
       map (resolve_directly sample_env travel_set (day 7 1))
         [QueryClaim claim_v1, QueryDocument policy_v1, QueryClaim claim_v1]"
proof -
  obtain ctx where ctx: "context_new sample_env travel_set (day 7 1) = Inr ctx"
    by (simp add: context_new_def travel_set_valid)
  from context_transparent [OF sample_float_ok this] ctx show ?thesis by blast
qed

lemma aggregate_closed_bindings_witness:
  "claim_registry_get (ag_claims travel) (cr_revision_id claim_v2) = Inr claim_v2 \<and>
   document_registry_get (ag_documents travel) (sp_document_version_id faq_span) = Inr faq"
proof
  have "claim_v2 \<in> set (embedded_claims travel)" by (simp add: embedded_claims_def travel_select)
  with aggregate_closed_bindings [OF travel_wf]
  show "claim_registry_get (ag_claims travel) (cr_revision_id claim_v2) = Inr claim_v2" by blast
  have "faq_dependency \<in> set (ag_dependencies travel)" "faq_span \<in> set (dp_spans faq_dependency)"
    by (simp_all add: travel_select travel_bindings)
  with aggregate_closed_bindings [OF travel_wf]
  have "document_registry_get (ag_documents travel) (sp_document_version_id faq_span) =
      Inr (dp_downstream faq_dependency)" by blast
  then show "document_registry_get (ag_documents travel) (sp_document_version_id faq_span) = Inr faq"
    by (simp add: travel_bindings)
qed

lemma aggregate_sha256_identifies_witness:
  "aggregate_wf sample_env travel \<and> aggregate_sha256 sample_env travel = aggregate_sha256 sample_env travel \<and>
   (travel = travel \<or> hash_collision sample_env (aggregate_json travel) (aggregate_json travel))"
  using aggregate_sha256_identifies [OF sample_float_ok travel_wf travel_wf refl] travel_wf by blast

lemma supersession_walks:
  "graph_walk [supersession] u w t \<Longrightarrow> u \<in> {cr_revision_id claim_v1, cr_revision_id claim_v2} \<Longrightarrow>
   t \<in> {cr_revision_id claim_v1, cr_revision_id claim_v2}"
  by (induction "[supersession]" u w t rule: graph_walk.induct)
    (auto simp: graph_edge_def supersession_def)

lemma relation_paths_of_graph_witness:
  "\<exists>adj paths p. relation_adjacency sample_env [supersession] = Inr adj \<and>
     canonical_relation_paths (cr_revision_id claim_v1) adj = Some (Inr paths) \<and>
     map_of paths (cr_revision_id claim_v2) = Some p \<and> length p = 1"
proof -
  let ?v1 = "cr_revision_id claim_v1" and ?v2 = "cr_revision_id claim_v2"
  let ?hop = "(the (ra_id supersession), ?v2)"
  have "\<forall>a \<in> set [supersession]. relation_assessment_wf sample_env a"
    using supersession_wf by simp
  from relation_paths_of_graph [OF this, of ?v1] obtain adj r
    where adj: "relation_adjacency sample_env [supersession] = Inr adj"
      and r: "canonical_relation_paths ?v1 adj = Some r"
      and post: "case r of
         Inl e \<Rightarrow> e = DiscoveryLimit ''relation-hops'' 16 17 \<and>
           (\<exists>t w. graph_walk [supersession] ?v1 w t \<and>
             (\<forall>w'. graph_walk [supersession] ?v1 w' t \<longrightarrow> 16 < length w'))
       | Inr paths \<Rightarrow> (\<forall>t. case map_of paths t of
           None \<Rightarrow> (\<nexists>w. graph_walk [supersession] ?v1 w t)
         | Some p \<Rightarrow> graph_walk [supersession] ?v1 (map hop p) t \<and> length p \<le> 16 \<and>
             (\<forall>w. graph_walk [supersession] ?v1 w t \<longrightarrow> path_key p \<le> (length w, map fst w)))"
    by blast
  have walks: "graph_walk [supersession] ?v1 [] ?v1" "graph_walk [supersession] ?v1 [?hop] ?v2"
    by (simp_all add: graph_edge_def supersession_def)
  have ne: "?v1 \<noteq> ?v2" using revision_order by auto
  show ?thesis
  proof (cases r)
    case (Inl e)
    from post Inl obtain t w where tw: "graph_walk [supersession] ?v1 w t"
      "\<forall>w'. graph_walk [supersession] ?v1 w' t \<longrightarrow> 16 < length w'" by auto
    then show ?thesis using supersession_walks [OF tw(1)] walks by fastforce
  next
    case (Inr paths)
    have "case map_of paths ?v2 of
           None \<Rightarrow> (\<nexists>w. graph_walk [supersession] ?v1 w ?v2)
         | Some p \<Rightarrow> graph_walk [supersession] ?v1 (map hop p) ?v2 \<and> length p \<le> 16 \<and>
             (\<forall>w. graph_walk [supersession] ?v1 w ?v2 \<longrightarrow> path_key p \<le> (length w, map fst w))"
      using post unfolding Inr sum.case by (rule spec)
    with walks(2) obtain p where p: "map_of paths ?v2 = Some p"
      "graph_walk [supersession] ?v1 (map hop p) ?v2" "path_key p \<le> (1, [fst ?hop])"
      by (cases "map_of paths ?v2") (auto simp del: graph_walk.simps)
    then have "length p = 1" using ne by (cases p) (auto simp: path_key_def less_eq_prod_def)
    then show ?thesis using adj r Inr p(1) by blast
  qed
qed
end
