(* ===== verification/Review.thy ===== *)
theory Review
  imports Aggregate
begin

text \<open>
  \<open>change_control/review.py\<close>: the records of human review (subjects, requests, decisions), their
  identities, and \<open>apply_human_review_decision\<close>, which turns a complete batch of outcomes into the
  next aggregate.
\<close>

section \<open>Identifiers, texts and timestamps\<close>

text \<open>\<open>_ACTOR_ID_RE\<close> and \<open>_OPERATION_ID_RE\<close>: a first ASCII letter or digit, then up to \<open>n\<close> more characters.\<close>

definition id_pattern_with :: "string \<Rightarrow> nat \<Rightarrow> string \<Rightarrow> bool" where
  "id_pattern_with extra n s \<longleftrightarrow> s \<noteq> [] \<and> ascii_alnum (hd s) \<and> length s \<le> Suc n \<and>
     list_all (\<lambda>c. ascii_alnum c \<or> c \<in> set extra) (tl s)"

definition actor_id_pattern :: "string \<Rightarrow> bool" where
  "actor_id_pattern = id_pattern_with ''._:@/-'' 127"

definition operation_id_pattern :: "string \<Rightarrow> bool" where
  "operation_id_pattern = id_pattern_with ''._:/-'' 199"

definition request_id_pattern :: "string \<Rightarrow> bool" where
  "request_id_pattern = content_id_pattern ''reviewreq''"

definition subject_id_pattern :: "string \<Rightarrow> bool" where
  "subject_id_pattern s \<longleftrightarrow> content_id_pattern ''rel'' s \<or> content_id_pattern ''tempc'' s"

definition normalize_actor_id :: "py_env \<Rightarrow> string \<Rightarrow> string result" where
  "normalize_actor_id E value =
     (let normalized = nfkc E value
      in guards [(normalized = value \<and> actor_id_pattern normalized,
           ValueError ''actor ID must be NFKC-normalized and contain 1-128 conservative ASCII characters'')]
         normalized)"

definition normalize_review_rationale :: "py_env \<Rightarrow> string \<Rightarrow> string result" where
  "normalize_review_rationale E value =
     (let normalized = normalize_semantic_text E value
      in guards
        [(value = normalized, ValueError ''review rationale must be NFKC-normalized with canonical whitespace''),
         (normalized \<noteq> [] \<and> length normalized \<le> 4000, ValueError ''review rationale must contain 1-4000 characters'')]
         normalized)"

text \<open>
  The texts \<open>t\<close> with \<open>datetime.fromisoformat(t).isoformat(timespec="seconds") == t\<close> and offset zero:
  \<open>YYYY-MM-DDThh:mm:ss+00:00\<close> with a date of the calendar and a time of the day.
\<close>

definition canonical_utc :: "string \<Rightarrow> bool" where
  "canonical_utc t \<longleftrightarrow> length t = 25 \<and>
     (let field = (\<lambda>i n. take n (drop i t)); num = (\<lambda>i n. read_nat (field i n)) in
      list_all (\<lambda>(i, n). list_all digit_char (field i n)) [(0,4), (5,2), (8,2), (11,2), (14,2), (17,2)] \<and>
      t ! 4 = CHR ''-'' \<and> t ! 7 = CHR ''-'' \<and> t ! 10 = CHR ''T'' \<and> t ! 13 = CHR '':'' \<and> t ! 16 = CHR '':'' \<and>
      field 19 6 = ''+00:00'' \<and>
      1 \<le> num 0 4 \<and> 1 \<le> num 5 2 \<and> num 5 2 \<le> 12 \<and>
      1 \<le> num 8 2 \<and> num 8 2 \<le> days_in_month (num 0 4) (num 5 2) \<and>
      num 11 2 \<le> 23 \<and> num 14 2 \<le> 59 \<and> num 17 2 \<le> 59)"

definition require_canonical_utc :: "string \<Rightarrow> string result" where
  "require_canonical_utc value =
     guards [(canonical_utc value, ValueError ''review timestamp must be canonical UTC with second precision'')] value"

section \<open>Subjects and snapshots\<close>

datatype review_kind = ReplacementKind | ConstraintKind

datatype review_disposition = OutcomeAccepted | OutcomeEdited | OutcomeRejected

datatype review_lifecycle = Open | Stale | Decided

definition review_kind_value :: "review_kind \<Rightarrow> string" where
  "review_kind_value k = (case k of ReplacementKind \<Rightarrow> ''document-replacement'' | ConstraintKind \<Rightarrow> ''temporal-constraint'')"

definition review_disposition_value :: "review_disposition \<Rightarrow> string" where
  "review_disposition_value d = (case d of OutcomeAccepted \<Rightarrow> ''accepted'' | OutcomeEdited \<Rightarrow> ''edited''
     | OutcomeRejected \<Rightarrow> ''rejected'')"

record subject_ref =
  sr_kind :: review_kind
  sr_id :: string

definition subject_prefix :: "review_kind \<Rightarrow> string" where
  "subject_prefix k = (case k of ReplacementKind \<Rightarrow> ''rel:'' | ConstraintKind \<Rightarrow> ''tempc:'')"

definition starts_with :: "string \<Rightarrow> string \<Rightarrow> bool" where
  "starts_with prefix s \<longleftrightarrow> take (length prefix) s = prefix"

definition subject_ref_new :: "subject_ref \<Rightarrow> subject_ref result" where
  "subject_ref_new r = guards
     [(subject_id_pattern (sr_id r), ValueError ''subject_id''),
      (starts_with (subject_prefix (sr_kind r)) (sr_id r),
         ValueError ''review subject ID prefix does not match its kind'')] r"

datatype review_subject = ReplacementSubject replacement | ConstraintSubject temporal_constraint

fun subject_json :: "review_subject \<Rightarrow> json" where
  "subject_json (ReplacementSubject r) = replacement_json r"
| "subject_json (ConstraintSubject c) = temporal_constraint_json c"

fun subject_own_id :: "review_subject \<Rightarrow> string" where
  "subject_own_id (ReplacementSubject r) = rp_id r"
| "subject_own_id (ConstraintSubject c) = tc_id c"

fun subject_own_kind :: "review_subject \<Rightarrow> review_kind" where
  "subject_own_kind (ReplacementSubject r) = ReplacementKind"
| "subject_own_kind (ConstraintSubject c) = ConstraintKind"

definition subject_payload :: "review_kind \<Rightarrow> review_subject \<Rightarrow> json" where
  "subject_payload kind subject = JObj
     [(''kind'', JStr (review_kind_value kind)),
      (''payload_schema_version'', JInt 1),
      (''subject'', subject_json subject)]"

definition review_subject_sha256 :: "py_env \<Rightarrow> review_kind \<Rightarrow> review_subject \<Rightarrow> string" where
  "review_subject_sha256 E kind subject = sha256_json E (subject_payload kind subject)"

record subject_snapshot =
  sn_kind :: review_kind
  sn_id :: string
  sn_subject :: review_subject
  sn_sha256 :: string

definition subject_snapshot_new :: "py_env \<Rightarrow> subject_snapshot \<Rightarrow> subject_snapshot result" where
  "subject_snapshot_new E s = guards
     [(subject_id_pattern (sn_id s), ValueError ''subject_id''),
      (sha256_pattern (sn_sha256 s), ValueError ''subject_sha256''),
      (subject_own_kind (sn_subject s) = sn_kind s, ValueError ''snapshot has the wrong payload type''),
      (sn_id s = subject_own_id (sn_subject s), ValueError ''review snapshot subject ID does not match its payload''),
      (sn_sha256 s = review_subject_sha256 E (sn_kind s) (sn_subject s),
         ValueError ''review snapshot SHA does not match its canonical payload'')] s"

definition subject_snapshot_create :: "py_env \<Rightarrow> review_kind \<Rightarrow> review_subject \<Rightarrow> subject_snapshot result" where
  "subject_snapshot_create E kind subject = subject_snapshot_new E
     \<lparr>sn_kind = kind, sn_id = subject_own_id subject, sn_subject = subject,
      sn_sha256 = review_subject_sha256 E kind subject\<rparr>"

definition snapshot_payload_json :: "py_env \<Rightarrow> subject_snapshot \<Rightarrow> string" where
  "snapshot_payload_json E s = canonical_json_bytes E (subject_json (sn_subject s))"

text \<open>The payload of a stored snapshot is parsed again; the model keeps the parsed value.\<close>

definition snapshot_from_payload ::
  "py_env \<Rightarrow> review_kind \<Rightarrow> string \<Rightarrow> int \<Rightarrow> review_subject \<Rightarrow> string \<Rightarrow> subject_snapshot result" where
  "snapshot_from_payload E kind subject_id version payload sha =
     rbind (guards [(version = 1, ValueError ''unsupported review subject snapshot schema version'')] ()) (\<lambda>_.
     rbind (case (kind, payload) of
        (ReplacementKind, ReplacementSubject r) \<Rightarrow> rbind (replacement_revalidate E r) (\<lambda>r'. Inr (ReplacementSubject r'))
      | (ConstraintKind, ConstraintSubject c) \<Rightarrow> rbind (temporal_constraint_revalidate E c) (\<lambda>c'. Inr (ConstraintSubject c'))
      | _ \<Rightarrow> Inl (ValueError ''validation error'')) (\<lambda>subject.
     subject_snapshot_new E
       \<lparr>sn_kind = kind, sn_id = subject_id, sn_subject = subject, sn_sha256 = sha\<rparr>))"

section \<open>Requests\<close>

text \<open>\<open>key=lambda item: (item.kind.value, item.subject_id)\<close>\<close>

definition ref_key :: "subject_ref \<Rightarrow> string \<times> string" where
  "ref_key r = (review_kind_value (sr_kind r), sr_id r)"

definition snapshot_key :: "subject_snapshot \<Rightarrow> string \<times> string" where
  "snapshot_key s = (review_kind_value (sn_kind s), sn_id s)"

record review_request_command =
  rc_aggregate_id :: string
  rc_expected_revision :: int
  rc_expected_sha256 :: string
  rc_subjects :: "subject_ref list"
  rc_requester :: string
  rc_rationale :: string

definition review_request_command_new ::
  "py_env \<Rightarrow> review_request_command \<Rightarrow> review_request_command result" where
  "review_request_command_new E c =
     rbind (normalize_logical_key E (rc_aggregate_id c)) (\<lambda>key.
     let ordered = sort_key ref_key (rc_subjects c) in
     rbind (guards
       [(key = rc_aggregate_id c, ValueError ''aggregate_id must already be normalized''),
        (1 \<le> rc_expected_revision c, ValueError ''expected_revision''),
        (sha256_pattern (rc_expected_sha256 c), ValueError ''expected_aggregate_sha256''),
        (rc_subjects c \<noteq> [], ValueError ''subjects''),
        (distinct ordered, ValueError ''review request subjects must be unique'')] ()) (\<lambda>_.
     rbind (normalize_actor_id E (rc_requester c)) (\<lambda>requester.
     rbind (guards [(1 \<le> length (rc_rationale c) \<and> length (rc_rationale c) \<le> 4000, ValueError ''rationale'')] ()) (\<lambda>_.
     rbind (normalize_review_rationale E (rc_rationale c)) (\<lambda>rationale.
     Inr (c\<lparr>rc_subjects := ordered\<rparr>))))))"

definition snapshot_binding_json :: "subject_snapshot \<Rightarrow> json" where
  "snapshot_binding_json s = JObj
     [(''kind'', JStr (review_kind_value (sn_kind s))),
      (''subject_id'', JStr (sn_id s)),
      (''subject_sha256'', JStr (sn_sha256 s))]"

definition request_payload :: "string \<Rightarrow> int \<Rightarrow> string \<Rightarrow> subject_snapshot list \<Rightarrow> json" where
  "request_payload aggregate_id base_revision base_sha subjects = JObj
     [(''aggregate_id'', JStr aggregate_id),
      (''base_aggregate_sha256'', JStr base_sha),
      (''base_revision'', JInt base_revision),
      (''subjects'', JArr (map snapshot_binding_json (sort_key snapshot_key subjects)))]"

definition human_review_request_id ::
  "py_env \<Rightarrow> string \<Rightarrow> int \<Rightarrow> string \<Rightarrow> subject_snapshot list \<Rightarrow> string" where
  "human_review_request_id E aggregate_id base_revision base_sha subjects =
     ''reviewreq:'' @ sha256_json E (request_payload aggregate_id base_revision base_sha subjects)"

definition human_review_request_payload_sha256 ::
  "py_env \<Rightarrow> string \<Rightarrow> string \<Rightarrow> string \<Rightarrow> string \<Rightarrow> string" where
  "human_review_request_payload_sha256 E request_id operation_id requester_id rationale =
     sha256_json E (JObj
       [(''operation_id'', JStr operation_id), (''rationale'', JStr rationale),
        (''request_id'', JStr request_id), (''requester_id'', JStr requester_id)])"

record review_request =
  hr_request_id :: string
  hr_operation_id :: string
  hr_aggregate_id :: string
  hr_base_revision :: int
  hr_base_sha256 :: string
  hr_base :: aggregate
  hr_subjects :: "subject_snapshot list"
  hr_requester :: string
  hr_rationale :: string
  hr_requested_at :: string
  hr_payload_sha256 :: string

definition review_request_new :: "py_env \<Rightarrow> review_request \<Rightarrow> review_request result" where
  "review_request_new E r =
     rbind (guards
       [(request_id_pattern (hr_request_id r), ValueError ''request_id''),
        (operation_id_pattern (hr_operation_id r), ValueError ''operation_id''),
        (1 \<le> hr_base_revision r, ValueError ''base_revision''),
        (sha256_pattern (hr_base_sha256 r), ValueError ''base_aggregate_sha256''),
        (hr_subjects r \<noteq> [], ValueError ''subjects'')] ()) (\<lambda>_.
     rbind (normalize_actor_id E (hr_requester r)) (\<lambda>_.
     rbind (normalize_review_rationale E (hr_rationale r)) (\<lambda>_.
     rbind (require_canonical_utc (hr_requested_at r)) (\<lambda>_.
     rbind (guards
       [(sha256_pattern (hr_payload_sha256 r), ValueError ''request_payload_sha256''),
        (ag_id (hr_base r) = hr_aggregate_id r,
           ValueError ''review request base aggregate does not match its binding'')] ()) (\<lambda>_.
     rbind (aggregate_sha256 E (hr_base r)) (\<lambda>base_sha.
     guards
       [(base_sha = hr_base_sha256 r, ValueError ''review request base aggregate does not match its binding''),
        (hr_subjects r = sort_key snapshot_key (hr_subjects r) \<and> distinct (map snapshot_key (hr_subjects r)),
           ValueError ''review request snapshots must be canonically ordered and unique''),
        (hr_request_id r = human_review_request_id E (hr_aggregate_id r) (hr_base_revision r)
             (hr_base_sha256 r) (hr_subjects r),
           ValueError ''review request ID does not match its immutable subject binding''),
        (hr_payload_sha256 r = human_review_request_payload_sha256 E (hr_request_id r)
             (hr_operation_id r) (hr_requester r) (hr_rationale r),
           ValueError ''review request payload SHA does not match its metadata'')]
       r))))))"

section \<open>Decisions\<close>

record subject_edit =
  ed_kind :: review_kind
  ed_id :: string
  ed_rationale :: "string option"
  ed_confidence :: "rat option"

definition subject_edit_new :: "py_env \<Rightarrow> subject_edit \<Rightarrow> subject_edit result" where
  "subject_edit_new E e =
     rbind (case ed_rationale e of None \<Rightarrow> Inr []
            | Some t \<Rightarrow> rbind (guards [(1 \<le> length t \<and> length t \<le> 4000, ValueError ''rationale'')] ())
                          (\<lambda>_. normalize_review_rationale E t)) (\<lambda>_.
     rbind (guards [(opt_all unit_interval (ed_confidence e), ValueError ''confidence'')] ()) (\<lambda>_.
     rbind (subject_ref_new \<lparr>sr_kind = ed_kind e, sr_id = ed_id e\<rparr>) (\<lambda>_.
     guards
       [(ed_kind e = ReplacementKind \<longrightarrow> ed_rationale e \<noteq> None \<or> ed_confidence e \<noteq> None,
           ValueError ''document replacement edit must change rationale or confidence''),
        (ed_kind e = ConstraintKind \<longrightarrow> ed_rationale e \<noteq> None \<and> ed_confidence e = None,
           ValueError ''temporal constraint edit may change rationale only'')]
       e)))"

record decision_item =
  it_kind :: review_kind
  it_id :: string
  it_original_sha256 :: string
  it_disposition :: review_disposition
  it_edit :: "subject_edit option"

definition decision_item_new :: "decision_item \<Rightarrow> decision_item result" where
  "decision_item_new i =
     rbind (guards [(sha256_pattern (it_original_sha256 i), ValueError ''original_subject_sha256'')] ()) (\<lambda>_.
     rbind (subject_ref_new \<lparr>sr_kind = it_kind i, sr_id = it_id i\<rparr>) (\<lambda>_.
     case it_disposition i of
       OutcomeEdited \<Rightarrow>
         (case it_edit i of
            None \<Rightarrow> Inl (ValueError ''edited review outcome requires one permitted edit'')
          | Some e \<Rightarrow> guards [((ed_kind e, ed_id e) = (it_kind i, it_id i),
              ValueError ''review outcome edit must bind the same subject'')] i)
     | _ \<Rightarrow> guards [(it_edit i = None,
          ValueError ''accepted or rejected review outcome cannot contain an edit'')] i))"

definition item_key :: "decision_item \<Rightarrow> string \<times> string" where
  "item_key i = (review_kind_value (it_kind i), it_id i)"

record decision_command =
  dc_request_id :: string
  dc_reviewer :: string
  dc_rationale :: string
  dc_items :: "decision_item list"

definition decision_command_new :: "py_env \<Rightarrow> decision_command \<Rightarrow> decision_command result" where
  "decision_command_new E c =
     rbind (guards [(request_id_pattern (dc_request_id c), ValueError ''request_id'')] ()) (\<lambda>_.
     rbind (normalize_actor_id E (dc_reviewer c)) (\<lambda>_.
     rbind (normalize_review_rationale E (dc_rationale c)) (\<lambda>_.
     guards
       [(dc_items c \<noteq> [], ValueError ''items''),
        (distinct (map item_key (sort_key item_key (dc_items c))),
           ValueError ''review decision outcomes must be unique''),
        (dc_items c = sort_key item_key (dc_items c),
           ValueError ''review decision outcomes must use canonical subject order'')]
       c)))"

definition edit_json :: "subject_edit \<Rightarrow> json" where
  "edit_json e = JObj
     [(''confidence'', opt_json JFloat (ed_confidence e)),
      (''kind'', JStr (review_kind_value (ed_kind e))),
      (''rationale'', opt_json JStr (ed_rationale e)),
      (''subject_id'', JStr (ed_id e))]"

definition item_json :: "decision_item \<Rightarrow> json" where
  "item_json i = JObj
     [(''disposition'', JStr (review_disposition_value (it_disposition i))),
      (''edit'', opt_json edit_json (it_edit i)),
      (''kind'', JStr (review_kind_value (it_kind i))),
      (''original_subject_sha256'', JStr (it_original_sha256 i)),
      (''subject_id'', JStr (it_id i))]"

definition decision_payload :: "decision_command \<Rightarrow> json" where
  "decision_payload c = JObj
     [(''items'', JArr (map item_json (dc_items c))),
      (''rationale'', JStr (dc_rationale c)),
      (''request_id'', JStr (dc_request_id c)),
      (''reviewer_id'', JStr (dc_reviewer c))]"

definition human_review_decision_payload_sha256 :: "py_env \<Rightarrow> decision_command \<Rightarrow> string" where
  "human_review_decision_payload_sha256 E c = sha256_json E (decision_payload c)"

record review_decision =
  hd_request_id :: string
  hd_operation_id :: string
  hd_reviewer :: string
  hd_rationale :: string
  hd_items :: "decision_item list"
  hd_payload_sha256 :: string
  hd_revision :: int
  hd_sha256 :: string
  hd_aggregate :: aggregate
  hd_decided_at :: string

definition decision_command_of :: "review_decision \<Rightarrow> decision_command" where
  "decision_command_of d = \<lparr>dc_request_id = hd_request_id d, dc_reviewer = hd_reviewer d,
     dc_rationale = hd_rationale d, dc_items = hd_items d\<rparr>"

definition review_decision_new :: "py_env \<Rightarrow> review_decision \<Rightarrow> review_decision result" where
  "review_decision_new E d =
     rbind (guards
       [(request_id_pattern (hd_request_id d), ValueError ''request_id''),
        (operation_id_pattern (hd_operation_id d), ValueError ''operation_id'')] ()) (\<lambda>_.
     rbind (normalize_actor_id E (hd_reviewer d)) (\<lambda>_.
     rbind (normalize_review_rationale E (hd_rationale d)) (\<lambda>_.
     rbind (guards
       [(hd_items d \<noteq> [], ValueError ''items''),
        (hd_items d = sort_key item_key (hd_items d) \<and> distinct (map item_key (hd_items d)),
           ValueError ''persisted decision outcomes must be canonically ordered and unique''),
        (sha256_pattern (hd_payload_sha256 d), ValueError ''decision_payload_sha256''),
        (2 \<le> hd_revision d, ValueError ''decided_revision''),
        (sha256_pattern (hd_sha256 d), ValueError ''decided_aggregate_sha256'')] ()) (\<lambda>_.
     rbind (require_canonical_utc (hd_decided_at d)) (\<lambda>_.
     rbind (decision_command_new E (decision_command_of d)) (\<lambda>command.
     rbind (guards [(hd_payload_sha256 d = human_review_decision_payload_sha256 E command,
        ValueError ''review decision payload SHA does not match its human metadata'')] ()) (\<lambda>_.
     rbind (aggregate_sha256 E (hd_aggregate d)) (\<lambda>sha.
     guards [(sha = hd_sha256 d, ValueError ''review decision aggregate snapshot does not match its SHA'')] d))))))))"

section \<open>Applying a decision\<close>

definition subject_from_aggregate :: "aggregate \<Rightarrow> subject_ref \<Rightarrow> review_subject option" where
  "subject_from_aggregate a ref =
     (case sr_kind ref of
        ReplacementKind \<Rightarrow> map_option ReplacementSubject (lookup_key rp_id (sr_id ref) (ag_replacements a))
      | ConstraintKind \<Rightarrow> map_option ConstraintSubject (lookup_key tc_id (sr_id ref) (ag_constraints a)))"

definition snapshot_ref :: "subject_snapshot \<Rightarrow> review_kind \<times> string" where
  "snapshot_ref s = (sn_kind s, sn_id s)"

definition item_ref :: "decision_item \<Rightarrow> review_kind \<times> string" where
  "item_ref i = (it_kind i, it_id i)"

definition outcome_status :: "decision_item \<Rightarrow> constraint_status" where
  "outcome_status i = (if it_disposition i = OutcomeRejected then Rejected else Accepted)"

definition edited_replacement :: "replacement \<Rightarrow> subject_edit \<Rightarrow> replacement" where
  "edited_replacement r e =
     r\<lparr>rp_rationale := (case ed_rationale e of None \<Rightarrow> rp_rationale r | Some t \<Rightarrow> t),
       rp_confidence := (case ed_confidence e of None \<Rightarrow> rp_confidence r | Some c \<Rightarrow> c)\<rparr>"

definition decide_replacement ::
  "py_env \<Rightarrow> subject_snapshot list \<Rightarrow> decision_item list \<Rightarrow> replacement \<Rightarrow> replacement result" where
  "decide_replacement E subjects items r =
     (case dict_get snapshot_ref subjects (ReplacementKind, rp_id r) of
        None \<Rightarrow> Inr r
      | Some snapshot \<Rightarrow>
          rbind (guards [(sn_subject snapshot = ReplacementSubject r \<and> rp_status r = Proposed,
             ValueError ''review replacement snapshot does not bind the base aggregate'')] ()) (\<lambda>_.
          case dict_get item_ref items (ReplacementKind, rp_id r) of
            None \<Rightarrow> Inl (KeyError (rp_id r))
          | Some outcome \<Rightarrow>
              rbind (case it_edit outcome of
                 None \<Rightarrow> Inr r
               | Some e \<Rightarrow>
                   guards [(edited_replacement r e \<noteq> r,
                     ValueError ''edited replacement outcome must make a real change'')]
                     (edited_replacement r e)) (\<lambda>payload.
              replacement_revalidate E (payload\<lparr>rp_status := outcome_status outcome\<rparr>))))"

definition decide_constraint ::
  "py_env \<Rightarrow> subject_snapshot list \<Rightarrow> decision_item list \<Rightarrow> temporal_constraint \<Rightarrow> temporal_constraint result" where
  "decide_constraint E subjects items c =
     (case dict_get snapshot_ref subjects (ConstraintKind, tc_id c) of
        None \<Rightarrow> Inr c
      | Some snapshot \<Rightarrow>
          rbind (guards [(sn_subject snapshot = ConstraintSubject c \<and> tc_status c = Proposed,
             ValueError ''review constraint snapshot does not bind the base aggregate'')] ()) (\<lambda>_.
          case dict_get item_ref items (ConstraintKind, tc_id c) of
            None \<Rightarrow> Inl (KeyError (tc_id c))
          | Some outcome \<Rightarrow>
              rbind (case it_edit outcome of
                 None \<Rightarrow> Inr c
               | Some e \<Rightarrow>
                   (case ed_rationale e of
                      None \<Rightarrow> Inl AssertionError
                    | Some t \<Rightarrow> guards [(t \<noteq> tc_rationale c,
                        ValueError ''edited constraint outcome must make a real change'')]
                        (c\<lparr>tc_rationale := t\<rparr>))) (\<lambda>payload.
              temporal_constraint_revalidate E (payload\<lparr>tc_status := outcome_status outcome\<rparr>))))"

definition apply_human_review_decision ::
  "py_env \<Rightarrow> review_request \<Rightarrow> decision_command \<Rightarrow> aggregate result" where
  "apply_human_review_decision E request command =
     (let subjects = hr_subjects request; items = dc_items command; base = hr_base request in
      rbind (guards
        [(dc_request_id command = hr_request_id request,
            ValueError ''review decision command does not bind this request''),
         (item_ref ` set items = snapshot_ref ` set subjects,
            ValueError ''review decision requires one outcome per requested subject''),
         (list_all (\<lambda>i. case (dict_get item_ref items (item_ref i), dict_get snapshot_ref subjects (item_ref i)) of
              (Some outcome, Some s) \<Rightarrow> it_original_sha256 outcome = sn_sha256 s | _ \<Rightarrow> False) items,
            ValueError ''review outcome does not bind the original subject SHA'')] ()) (\<lambda>_.
      rbind (rmap (decide_replacement E subjects items) (ag_replacements base)) (\<lambda>replacements.
      rbind (rmap (decide_constraint E subjects items) (ag_constraints base)) (\<lambda>constraints.
      rbind (replacement_set_create replacements) (\<lambda>replacement_set.
      rbind (constraint_set_create constraints) (\<lambda>constraint_set.
      aggregate_revalidate E
        (base\<lparr>ag_replacements := replacement_set, ag_constraints := constraint_set\<rparr>)))))))"

section \<open>Receipts and views\<close>

record request_view =
  rv_request :: review_request
  rv_lifecycle :: review_lifecycle
  rv_decision :: "review_decision option"

definition request_view_new :: "py_env \<Rightarrow> request_view \<Rightarrow> request_view result" where
  "request_view_new E v =
     rbind (guards [((rv_lifecycle v = Decided) = (rv_decision v \<noteq> None),
        ValueError ''decided lifecycle must have exactly one decision'')] ()) (\<lambda>_.
     case rv_decision v of
       None \<Rightarrow> Inr v
     | Some d \<Rightarrow>
         rbind (guards
           [(hd_request_id d = hr_request_id (rv_request v),
               ValueError ''review decision does not belong to this request''),
            (hd_revision d = hr_base_revision (rv_request v) + 1,
               ValueError ''review decision revision does not follow its request base'')] ()) (\<lambda>_.
         rbind (decision_command_new E (decision_command_of d)) (\<lambda>command.
         rbind (apply_human_review_decision E (rv_request v) command) (\<lambda>expected.
         guards [(expected = hd_aggregate d,
           ValueError ''review decision result does not match this request'')] v))))"

record decision_receipt =
  dr_decision :: review_decision
  dr_revision :: int
  dr_sha256 :: string
  dr_replayed :: bool

definition decision_receipt_new :: "decision_receipt \<Rightarrow> decision_receipt result" where
  "decision_receipt_new r = guards
     [(2 \<le> dr_revision r, ValueError ''aggregate_revision''),
      (sha256_pattern (dr_sha256 r), ValueError ''aggregate_sha256''),
      (dr_revision r = hd_revision (dr_decision r) \<and> dr_sha256 r = hd_sha256 (dr_decision r),
         ValueError ''decision receipt does not match the committed aggregate'')] r"

section \<open>What a decision changes\<close>

text \<open>
  The reference definition: a subject with a snapshot and an outcome takes the outcome's edit and
  status, every other row is left alone.
\<close>

definition decided_replacement :: "decision_item \<Rightarrow> replacement \<Rightarrow> replacement" where
  "decided_replacement i r =
     (case it_edit i of None \<Rightarrow> r | Some e \<Rightarrow> edited_replacement r e)\<lparr>rp_status := outcome_status i\<rparr>"

definition decided_constraint :: "decision_item \<Rightarrow> temporal_constraint \<Rightarrow> temporal_constraint" where
  "decided_constraint i c =
     (case it_edit i of None \<Rightarrow> c
      | Some e \<Rightarrow> (case ed_rationale e of None \<Rightarrow> c | Some t \<Rightarrow> c\<lparr>tc_rationale := t\<rparr>))
     \<lparr>tc_status := outcome_status i\<rparr>"

definition outcome_for ::
  "subject_snapshot list \<Rightarrow> decision_item list \<Rightarrow> review_kind \<times> string \<Rightarrow> decision_item option" where
  "outcome_for subjects items k =
     (case dict_get snapshot_ref subjects k of None \<Rightarrow> None | Some _ \<Rightarrow> dict_get item_ref items k)"

definition reviewed_replacement ::
  "subject_snapshot list \<Rightarrow> decision_item list \<Rightarrow> replacement \<Rightarrow> replacement" where
  "reviewed_replacement subjects items r =
     (case outcome_for subjects items (ReplacementKind, rp_id r) of
        None \<Rightarrow> r | Some i \<Rightarrow> decided_replacement i r)"

definition reviewed_constraint ::
  "subject_snapshot list \<Rightarrow> decision_item list \<Rightarrow> temporal_constraint \<Rightarrow> temporal_constraint" where
  "reviewed_constraint subjects items c =
     (case outcome_for subjects items (ConstraintKind, tc_id c) of
        None \<Rightarrow> c | Some i \<Rightarrow> decided_constraint i c)"

lemma outcome_status_not_proposed [simp]: "outcome_status i \<noteq> Proposed"
  by (simp add: outcome_status_def)

lemma decided_replacement_fixed [simp]:
  "rp_id (decided_replacement i r) = rp_id r"
  "rp_newer (decided_replacement i r) = rp_newer r"
  "rp_older (decided_replacement i r) = rp_older r"
  "rp_status (decided_replacement i r) = outcome_status i"
  by (simp_all add: decided_replacement_def edited_replacement_def split: option.splits)

lemma decided_constraint_fixed [simp]:
  "tc_id (decided_constraint i c) = tc_id c"
  "tc_target (decided_constraint i c) = tc_target c"
  "tc_bound (decided_constraint i c) = tc_bound c"
  "tc_basis (decided_constraint i c) = tc_basis c"
  "tc_status (decided_constraint i c) = outcome_status i"
  by (simp_all add: decided_constraint_def split: option.splits)

lemma reviewed_replacement_fixed [simp]:
  "rp_id (reviewed_replacement ss is r) = rp_id r"
  "rp_newer (reviewed_replacement ss is r) = rp_newer r"
  "rp_older (reviewed_replacement ss is r) = rp_older r"
  by (simp_all add: reviewed_replacement_def split: option.splits)

lemma reviewed_constraint_fixed [simp]:
  "tc_id (reviewed_constraint ss is c) = tc_id c"
  "tc_target (reviewed_constraint ss is c) = tc_target c"
  "tc_bound (reviewed_constraint ss is c) = tc_bound c"
  "tc_basis (reviewed_constraint ss is c) = tc_basis c"
  by (simp_all add: reviewed_constraint_def split: option.splits)

lemma replacement_revalidate_documents:
  assumes "document_version_wf E (rp_newer r)" and "document_version_wf E (rp_older r)"
  shows "replacement_revalidate E r = replacement_new E r"
  using assms by (simp add: replacement_revalidate_def document_version_wf_def)

lemma temporal_constraint_revalidate_target:
  assumes "temporal_target_new (tc_target c) = Inr (tc_target c)"
  shows "temporal_constraint_revalidate E c = temporal_constraint_new E c"
  using assms by (simp add: temporal_constraint_revalidate_def)

lemma decide_replacement_Inr:
  assumes wf: "replacement_wf E r" and run: "decide_replacement E ss is r = Inr r'"
  shows "r' = reviewed_replacement ss is r \<and>
    (\<forall>s. dict_get snapshot_ref ss (ReplacementKind, rp_id r) = Some s \<longrightarrow>
       sn_subject s = ReplacementSubject r \<and> rp_status r = Proposed \<and>
       rp_status r' = outcome_status (the (dict_get item_ref is (ReplacementKind, rp_id r))))"
proof (cases "dict_get snapshot_ref ss (ReplacementKind, rp_id r)")
  case None
  with run show ?thesis by (simp add: decide_replacement_def reviewed_replacement_def outcome_for_def)
next
  case (Some s)
  with run obtain i p where
    s: "sn_subject s = ReplacementSubject r" "rp_status r = Proposed" and
    i: "dict_get item_ref is (ReplacementKind, rp_id r) = Some i" and
    p: "p = (case it_edit i of None \<Rightarrow> r | Some e \<Rightarrow> edited_replacement r e)" and
    r': "replacement_revalidate E (p\<lparr>rp_status := outcome_status i\<rparr>) = Inr r'"
    by (auto simp: decide_replacement_def rbind_Inr_iff split: option.splits)
  have "p\<lparr>rp_status := outcome_status i\<rparr> = decided_replacement i r"
    by (simp add: p decided_replacement_def)
  with r' wf have "r' = decided_replacement i r"
    by (auto simp: replacement_revalidate_documents replacement_wf_iff dest: replacement_new_Inr)
  with Some s i show ?thesis by (simp add: reviewed_replacement_def outcome_for_def)
qed

lemma decide_constraint_Inr:
  assumes wf: "temporal_constraint_wf E c" and run: "decide_constraint E ss is c = Inr c'"
  shows "c' = reviewed_constraint ss is c \<and>
    (\<forall>s. dict_get snapshot_ref ss (ConstraintKind, tc_id c) = Some s \<longrightarrow>
       sn_subject s = ConstraintSubject c \<and> tc_status c = Proposed \<and>
       tc_status c' = outcome_status (the (dict_get item_ref is (ConstraintKind, tc_id c))))"
proof (cases "dict_get snapshot_ref ss (ConstraintKind, tc_id c)")
  case None
  with run show ?thesis by (simp add: decide_constraint_def reviewed_constraint_def outcome_for_def)
next
  case (Some s)
  with run obtain i where
    s: "sn_subject s = ConstraintSubject c" "tc_status c = Proposed" and
    i: "dict_get item_ref is (ConstraintKind, tc_id c) = Some i" and
    c': "temporal_constraint_revalidate E (decided_constraint i c) = Inr c'"
    by (auto simp: decide_constraint_def decided_constraint_def rbind_Inr_iff split: option.splits)
  from c' wf have "c' = decided_constraint i c"
    by (auto simp: temporal_constraint_revalidate_target temporal_constraint_wf_iff
        dest: temporal_constraint_new_Inr)
  with Some s i show ?thesis by (simp add: reviewed_constraint_def outcome_for_def)
qed

lemma canonical_map_fixed:
  assumes "\<And>x. key (f x) = key x" and "canonical key xs"
  shows "canonical key (map f xs)"
proof -
  have "map key (map f xs) = map key xs" using assms(1) by simp
  with assms(2) show ?thesis using canonical_map_cong by blast
qed

lemma replacement_set_create_canonical:
  "canonical rp_id rs \<Longrightarrow> replacement_set_create rs = Inr rs' \<Longrightarrow> rs' = rs"
  by (auto intro: canonical_unique dest: replacements.create_canonical)

lemma constraint_set_create_canonical:
  "canonical tc_id cs \<Longrightarrow> constraint_set_create cs = Inr cs' \<Longrightarrow> cs' = cs"
  by (auto intro: canonical_unique dest: constraints.create_canonical)

lemma aggregate_parts_wf:
  assumes "aggregate_wf E a"
  shows "r \<in> set (ag_replacements a) \<Longrightarrow> replacement_wf E r"
    and "c \<in> set (ag_constraints a) \<Longrightarrow> temporal_constraint_wf E c"
    and "d \<in> set (ag_documents a) \<Longrightarrow> document_version_wf E d"
    and "x \<in> set (ag_claims a) \<Longrightarrow> claim_revision_wf E x"
    and "p \<in> set (ag_graph a) \<Longrightarrow> relation_assessment_wf E p"
    and "q \<in> set (ag_dependencies a) \<Longrightarrow> dependency_wf E q"
  using assms by (simp_all add: aggregate_wf_iff revalidate_wf)

lemma aggregate_parts_canonical:
  assumes "aggregate_wf E a"
  shows "canonical rp_id (ag_replacements a)" and "canonical tc_id (ag_constraints a)"
    and "canonical dv_id (ag_documents a)" and "canonical cr_revision_id (ag_claims a)"
    and "canonical ra_pair_id (ag_graph a)" and "canonical dp_id (ag_dependencies a)"
  using assms
  by (simp_all add: aggregate_wf_iff revalidate_wf replacement_set_new_Inr_iff constraint_set_new_Inr_iff
      document_registry_new_Inr claim_registry_new_Inr relation_graph_new_Inr_iff
      dependency_registry_new_Inr_iff)

text \<open>Validating an aggregate whose two reviewed sets are the only new parts.\<close>

lemma aggregate_revalidate_reviewed:
  assumes wf: "aggregate_wf E base"
    and rs: "\<And>r. r \<in> set rs \<Longrightarrow> replacement_wf E r" and cs: "\<And>c. c \<in> set cs \<Longrightarrow> temporal_constraint_wf E c"
    and sets: "replacement_set_new rs = Inr rs" "constraint_set_new cs = Inr cs"
  shows "aggregate_revalidate E (base\<lparr>ag_replacements := rs, ag_constraints := cs\<rparr>) =
    aggregate_new E (base\<lparr>ag_replacements := rs, ag_constraints := cs\<rparr>)"
proof -
  from rs sets(1) have r: "replacement_set_revalidate E rs = Inr rs"
    by (simp add: replacement_set_revalidate_wf)
  from cs sets(2) have c: "constraint_set_revalidate E cs = Inr cs"
    by (simp add: constraint_set_revalidate_wf)
  from wf have
    "document_registry_revalidate E (ag_documents base) = Inr (ag_documents base)"
    "claim_registry_revalidate E (ag_claims base) = Inr (ag_claims base)"
    "relation_graph_revalidate E (ag_graph base) = Inr (ag_graph base)"
    "dependency_registry_revalidate E (ag_dependencies base) = Inr (ag_dependencies base)"
    by (simp_all add: aggregate_wf_iff)
  with r c show ?thesis
    by (cases base) (simp add: aggregate_revalidate_def)
qed

lemma aggregate_revalidate_reviewed_wf:
  assumes "aggregate_wf E base"
    and "\<And>r. r \<in> set rs \<Longrightarrow> replacement_wf E r" and "\<And>c. c \<in> set cs \<Longrightarrow> temporal_constraint_wf E c"
    and "replacement_set_new rs = Inr rs" "constraint_set_new cs = Inr cs"
    and "aggregate_revalidate E (base\<lparr>ag_replacements := rs, ag_constraints := cs\<rparr>) = Inr a"
  shows "a = base\<lparr>ag_replacements := rs, ag_constraints := cs\<rparr> \<and> aggregate_wf E a"
proof -
  from assms aggregate_revalidate_reviewed [OF assms(1-5)]
  have new: "aggregate_new E (base\<lparr>ag_replacements := rs, ag_constraints := cs\<rparr>) = Inr a" by simp
  from aggregate_new_Inr [OF new] have "a = base\<lparr>ag_replacements := rs, ag_constraints := cs\<rparr>" .
  with assms(6) show ?thesis by (simp add: aggregate_wf_def)
qed

lemma decide_replacements_Inr:
  assumes wf: "\<And>r. r \<in> set rs \<Longrightarrow> replacement_wf E r"
    and run: "rmap (decide_replacement E ss is) rs = Inr rs'"
  shows "rs' = map (reviewed_replacement ss is) rs" and "\<And>r. r \<in> set rs' \<Longrightarrow> replacement_wf E r"
proof -
  from run have all: "list_all2 (\<lambda>x y. decide_replacement E ss is x = Inr y) rs rs'"
    by (simp add: rmap_Inr_iff)
  then have "list_all2 (\<lambda>x y. y = reviewed_replacement ss is x) rs rs'"
    using wf decide_replacement_Inr by (auto simp: list_all2_conv_all_nth) (metis nth_mem)
  then show "rs' = map (reviewed_replacement ss is) rs"
    by (auto simp: list_all2_conv_all_nth intro: nth_equalityI)
  have "replacement_wf E y" if "decide_replacement E ss is x = Inr y" "replacement_wf E x" for x y
  proof (cases "dict_get snapshot_ref ss (ReplacementKind, rp_id x)")
    case None
    with that show ?thesis by (simp add: decide_replacement_def)
  next
    case (Some s)
    with that(1) obtain p where p: "replacement_revalidate E p = Inr y"
      by (auto simp: decide_replacement_def rbind_Inr_iff split: option.splits)
    have "y = reviewed_replacement ss is x" using decide_replacement_Inr [OF that(2,1)] by simp
    with that(2) have docs: "document_version_wf E (rp_newer y)" "document_version_wf E (rp_older y)"
      by (simp_all add: replacement_wf_iff)
    from p obtain n old where n: "document_version_new E (rp_newer p) = Inr n"
      "document_version_new E (rp_older p) = Inr old"
      and new: "replacement_new E (p\<lparr>rp_newer := n, rp_older := old\<rparr>) = Inr y"
      by (auto simp: replacement_revalidate_def rbind_Inr_iff)
    from replacement_new_Inr [OF new] new have "replacement_new E y = Inr y" by simp
    with docs show ?thesis by (simp add: replacement_wf_iff)
  qed
  with wf show "\<And>r. r \<in> set rs' \<Longrightarrow> replacement_wf E r"
    by (auto simp: rmap_Inr_mem [OF run])
qed

lemma decide_constraints_Inr:
  assumes wf: "\<And>c. c \<in> set cs \<Longrightarrow> temporal_constraint_wf E c"
    and run: "rmap (decide_constraint E ss is) cs = Inr cs'"
  shows "cs' = map (reviewed_constraint ss is) cs" and "\<And>c. c \<in> set cs' \<Longrightarrow> temporal_constraint_wf E c"
proof -
  from run have all: "list_all2 (\<lambda>x y. decide_constraint E ss is x = Inr y) cs cs'"
    by (simp add: rmap_Inr_iff)
  then have "list_all2 (\<lambda>x y. y = reviewed_constraint ss is x) cs cs'"
    using wf decide_constraint_Inr by (auto simp: list_all2_conv_all_nth) (metis nth_mem)
  then show "cs' = map (reviewed_constraint ss is) cs"
    by (auto simp: list_all2_conv_all_nth intro: nth_equalityI)
  have "temporal_constraint_wf E y" if "decide_constraint E ss is x = Inr y" "temporal_constraint_wf E x" for x y
  proof (cases "dict_get snapshot_ref ss (ConstraintKind, tc_id x)")
    case None
    with that show ?thesis by (simp add: decide_constraint_def)
  next
    case (Some s)
    with that(1) obtain p where p: "temporal_constraint_revalidate E p = Inr y"
      by (auto simp: decide_constraint_def rbind_Inr_iff split: option.splits)
    then obtain t where t: "temporal_target_new (tc_target p) = Inr t"
      and new: "temporal_constraint_new E (p\<lparr>tc_target := t\<rparr>) = Inr y"
      by (auto simp: temporal_constraint_revalidate_def rbind_Inr_iff)
    from temporal_target_new_Inr [OF t] have "t = tc_target p" .
    with t temporal_constraint_new_Inr [OF new] new show ?thesis by (simp add: temporal_constraint_wf_iff)
  qed
  with wf show "\<And>c. c \<in> set cs' \<Longrightarrow> temporal_constraint_wf E c"
    by (auto simp: rmap_Inr_mem [OF run])
qed

text \<open>The statuses and the frame of one accepted batch.\<close>

definition requested :: "review_request \<Rightarrow> review_kind \<times> string \<Rightarrow> bool" where
  "requested request k \<longleftrightarrow> k \<in> snapshot_ref ` set (hr_subjects request)"

definition decided_aggregate :: "review_request \<Rightarrow> decision_command \<Rightarrow> aggregate" where
  "decided_aggregate request command =
     (hr_base request)
       \<lparr>ag_replacements := map (reviewed_replacement (hr_subjects request) (dc_items command))
          (ag_replacements (hr_base request)),
        ag_constraints := map (reviewed_constraint (hr_subjects request) (dc_items command))
          (ag_constraints (hr_base request))\<rparr>"

lemma apply_human_review_decision_steps:
  assumes wf: "aggregate_wf E (hr_base request)"
    and run: "apply_human_review_decision E request command = Inr a"
  shows "a = decided_aggregate request command" and "aggregate_wf E a"
    and "item_ref ` set (dc_items command) = snapshot_ref ` set (hr_subjects request)"
    and "\<And>r. r \<in> set (ag_replacements (hr_base request)) \<Longrightarrow>
       requested request (ReplacementKind, rp_id r) \<Longrightarrow> rp_status r = Proposed"
    and "\<And>c. c \<in> set (ag_constraints (hr_base request)) \<Longrightarrow>
       requested request (ConstraintKind, tc_id c) \<Longrightarrow> tc_status c = Proposed"
proof -
  let ?b = "hr_base request" and ?ss = "hr_subjects request" and ?is = "dc_items command"
  from run obtain rs cs rs' cs' where
    cover: "item_ref ` set ?is = snapshot_ref ` set ?ss" and
    rs: "rmap (decide_replacement E ?ss ?is) (ag_replacements ?b) = Inr rs" and
    cs: "rmap (decide_constraint E ?ss ?is) (ag_constraints ?b) = Inr cs" and
    sets: "replacement_set_create rs = Inr rs'" "constraint_set_create cs = Inr cs'" and
    fin: "aggregate_revalidate E (?b\<lparr>ag_replacements := rs', ag_constraints := cs'\<rparr>) = Inr a"
    by (auto simp: apply_human_review_decision_def Let_def rbind_Inr_iff)
  note parts = aggregate_parts_wf [OF wf] and can = aggregate_parts_canonical [OF wf]
  have rs_eq: "rs = map (reviewed_replacement ?ss ?is) (ag_replacements ?b)"
    and rs_wf: "\<And>r. r \<in> set rs \<Longrightarrow> replacement_wf E r"
    using decide_replacements_Inr [OF parts(1) rs] by auto
  have cs_eq: "cs = map (reviewed_constraint ?ss ?is) (ag_constraints ?b)"
    and cs_wf: "\<And>c. c \<in> set cs \<Longrightarrow> temporal_constraint_wf E c"
    using decide_constraints_Inr [OF parts(2) cs] by auto
  have "canonical rp_id rs" "canonical tc_id cs"
    unfolding rs_eq cs_eq using can by (simp_all add: canonical_map_fixed)
  with sets have eq: "rs' = rs" "cs' = cs"
    by (auto dest: replacement_set_create_canonical constraint_set_create_canonical)
  have new: "replacement_set_new rs = Inr rs" "constraint_set_new cs = Inr cs"
    using sets unfolding eq
    by (auto dest: replacements.create_Inr_iff [THEN iffD1] constraints.create_Inr_iff [THEN iffD1])
  from fin have "aggregate_revalidate E (?b\<lparr>ag_replacements := rs, ag_constraints := cs\<rparr>) = Inr a"
    unfolding eq .
  with aggregate_revalidate_reviewed_wf [OF wf rs_wf cs_wf new]
  have both: "a = ?b\<lparr>ag_replacements := rs, ag_constraints := cs\<rparr> \<and> aggregate_wf E a" by blast
  from conjunct1 [OF both] show "a = decided_aggregate request command"
    unfolding decided_aggregate_def rs_eq cs_eq .
  from both show "aggregate_wf E a" by (rule conjunct2)
  show "item_ref ` set ?is = snapshot_ref ` set ?ss" by (fact cover)
  show "rp_status r = Proposed" if "r \<in> set (ag_replacements ?b)" "requested request (ReplacementKind, rp_id r)" for r
  proof -
    from rmap_ex_iff [THEN iffD1, OF exI [of _ rs], OF rs] that(1)
    obtain r' where r': "decide_replacement E ?ss ?is r = Inr r'" by auto
    from that(2) obtain s where "dict_get snapshot_ref ?ss (ReplacementKind, rp_id r) = Some s"
      by (cases "dict_get snapshot_ref ?ss (ReplacementKind, rp_id r)")
        (auto simp: requested_def dict_get_None)
    with decide_replacement_Inr [OF parts(1) r'] that(1) show ?thesis by simp
  qed
  show "tc_status c = Proposed" if "c \<in> set (ag_constraints ?b)" "requested request (ConstraintKind, tc_id c)" for c
  proof -
    from rmap_ex_iff [THEN iffD1, OF exI [of _ cs], OF cs] that(1)
    obtain c' where c': "decide_constraint E ?ss ?is c = Inr c'" by auto
    from that(2) obtain s where "dict_get snapshot_ref ?ss (ConstraintKind, tc_id c) = Some s"
      by (cases "dict_get snapshot_ref ?ss (ConstraintKind, tc_id c)")
        (auto simp: requested_def dict_get_None)
    with decide_constraint_Inr [OF parts(2) c'] that(1) show ?thesis by simp
  qed
qed

lemma outcome_for_requested:
  assumes "item_ref ` set items = snapshot_ref ` set subjects"
  shows "k \<in> snapshot_ref ` set subjects \<longleftrightarrow> (\<exists>i. outcome_for subjects items k = Some i)"
    and "outcome_for subjects items k = Some i \<Longrightarrow> i \<in> set items \<and> item_ref i = k"
proof -
  have get: "dict_get item_ref items k = Some i \<Longrightarrow> i \<in> set items \<and> item_ref i = k" for i
    unfolding dict_get_def by (auto dest: lookup_key_Some)
  then show "outcome_for subjects items k = Some i \<Longrightarrow> i \<in> set items \<and> item_ref i = k"
    by (auto simp: outcome_for_def split: option.splits)
  show "k \<in> snapshot_ref ` set subjects \<longleftrightarrow> (\<exists>i. outcome_for subjects items k = Some i)"
  proof (cases "k \<in> snapshot_ref ` set subjects")
    case True
    then have "dict_get snapshot_ref subjects k \<noteq> None" "dict_get item_ref items k \<noteq> None"
      using assms dict_get_None [of snapshot_ref subjects k] dict_get_None [of item_ref items k] by auto
    with True show ?thesis by (auto simp: outcome_for_def split: option.splits)
  next
    case False
    then show ?thesis
      using dict_get_None [of snapshot_ref subjects k] by (auto simp: outcome_for_def split: option.splits)
  qed
qed

text \<open>
  C31. A human decision changes exactly what it decides.  When \<open>apply_human_review_decision\<close> accepts
  a command on a well-formed base, the result is well-formed and equals the reference update: the
  documents, claims, relations, dependencies and the order of the rows are those of the base, every
  row that was not requested is unchanged, every requested row was PROPOSED and now carries the
  accepted or rejected status of its own outcome with at most its rationale and confidence edited.
\<close>

theorem apply_review_exact:
  assumes "aggregate_wf E (hr_base request)"
    and "apply_human_review_decision E request command = Inr a"
  shows "aggregate_wf E a \<and> a = decided_aggregate request command \<and>
    (\<forall>r \<in> set (ag_replacements (hr_base request)).
       if requested request (ReplacementKind, rp_id r)
       then rp_status r = Proposed \<and> (\<exists>i \<in> set (dc_items command).
         item_ref i = (ReplacementKind, rp_id r) \<and>
         reviewed_replacement (hr_subjects request) (dc_items command) r = decided_replacement i r)
       else reviewed_replacement (hr_subjects request) (dc_items command) r = r) \<and>
    (\<forall>c \<in> set (ag_constraints (hr_base request)).
       if requested request (ConstraintKind, tc_id c)
       then tc_status c = Proposed \<and> (\<exists>i \<in> set (dc_items command).
         item_ref i = (ConstraintKind, tc_id c) \<and>
         reviewed_constraint (hr_subjects request) (dc_items command) c = decided_constraint i c)
       else reviewed_constraint (hr_subjects request) (dc_items command) c = c)"
proof -
  note steps = apply_human_review_decision_steps [OF assms]
  note out = outcome_for_requested [OF steps(3)]
  have on: "\<exists>i \<in> set (dc_items command). item_ref i = k \<and>
      outcome_for (hr_subjects request) (dc_items command) k = Some i" if "requested request k" for k
    using out [of k] that unfolding requested_def by blast
  have off: "outcome_for (hr_subjects request) (dc_items command) k = None" if "\<not> requested request k" for k
    using out(1) [of k] that unfolding requested_def
    by (cases "outcome_for (hr_subjects request) (dc_items command) k") auto
  have "if requested request (ReplacementKind, rp_id r)
       then rp_status r = Proposed \<and> (\<exists>i \<in> set (dc_items command).
         item_ref i = (ReplacementKind, rp_id r) \<and>
         reviewed_replacement (hr_subjects request) (dc_items command) r = decided_replacement i r)
       else reviewed_replacement (hr_subjects request) (dc_items command) r = r"
    if "r \<in> set (ag_replacements (hr_base request))" for r
    using on [of "(ReplacementKind, rp_id r)"] off [of "(ReplacementKind, rp_id r)"] steps(4) [OF that]
    by (auto simp: reviewed_replacement_def) blast
  moreover have "if requested request (ConstraintKind, tc_id c)
       then tc_status c = Proposed \<and> (\<exists>i \<in> set (dc_items command).
         item_ref i = (ConstraintKind, tc_id c) \<and>
         reviewed_constraint (hr_subjects request) (dc_items command) c = decided_constraint i c)
       else reviewed_constraint (hr_subjects request) (dc_items command) c = c"
    if "c \<in> set (ag_constraints (hr_base request))" for c
    using on [of "(ConstraintKind, tc_id c)"] off [of "(ConstraintKind, tc_id c)"] steps(5) [OF that]
    by (auto simp: reviewed_constraint_def) blast
  ultimately show ?thesis using steps(1,2) by blast
qed

section \<open>Rejecting everything is always possible\<close>

fun subject_status :: "review_subject \<Rightarrow> constraint_status" where
  "subject_status (ReplacementSubject r) = rp_status r"
| "subject_status (ConstraintSubject c) = tc_status c"

definition reject_item :: "subject_snapshot \<Rightarrow> decision_item" where
  "reject_item s = \<lparr>it_kind = sn_kind s, it_id = sn_id s, it_original_sha256 = sn_sha256 s,
     it_disposition = OutcomeRejected, it_edit = None\<rparr>"

definition reject_all :: "review_request \<Rightarrow> string \<Rightarrow> string \<Rightarrow> decision_command" where
  "reject_all request reviewer rationale =
     \<lparr>dc_request_id = hr_request_id request, dc_reviewer = reviewer, dc_rationale = rationale,
      dc_items = map reject_item (hr_subjects request)\<rparr>"

definition subjects_bind_base :: "review_request \<Rightarrow> bool" where
  "subjects_bind_base request \<longleftrightarrow> list_all (\<lambda>s.
     subject_from_aggregate (hr_base request) \<lparr>sr_kind = sn_kind s, sr_id = sn_id s\<rparr> = Some (sn_subject s) \<and>
     subject_status (sn_subject s) = Proposed) (hr_subjects request)"

lemma reject_item_fields [simp]:
  "item_ref (reject_item s) = snapshot_ref s" "it_original_sha256 (reject_item s) = sn_sha256 s"
  "it_edit (reject_item s) = None" "outcome_status (reject_item s) = Rejected"
  by (simp_all add: item_ref_def snapshot_ref_def reject_item_def outcome_status_def)

lemma dict_get_reject:
  assumes "distinct (map snapshot_ref ss)"
  shows "dict_get item_ref (map reject_item ss) k = map_option reject_item (dict_get snapshot_ref ss k)"
proof -
  have "find (\<lambda>x. item_ref x = k) (map reject_item ts) = map_option reject_item (find (\<lambda>x. snapshot_ref x = k) ts)"
    for ts
    by (induction ts) auto
  then show ?thesis by (simp add: dict_get_def lookup_key_def rev_map)
qed

lemma subject_lookup:
  assumes "subjects_bind_base request" and "aggregate_wf E (hr_base request)"
    and s: "s \<in> set (hr_subjects request)"
  shows "snapshot_ref s = (ReplacementKind, rp_id r) \<Longrightarrow> r \<in> set (ag_replacements (hr_base request)) \<Longrightarrow>
      sn_subject s = ReplacementSubject r \<and> rp_status r = Proposed"
    and "snapshot_ref s = (ConstraintKind, tc_id c) \<Longrightarrow> c \<in> set (ag_constraints (hr_base request)) \<Longrightarrow>
      sn_subject s = ConstraintSubject c \<and> tc_status c = Proposed"
proof -
  note can = aggregate_parts_canonical [OF assms(2)]
  from assms(1) s have b: "subject_from_aggregate (hr_base request) \<lparr>sr_kind = sn_kind s, sr_id = sn_id s\<rparr> =
      Some (sn_subject s)" "subject_status (sn_subject s) = Proposed"
    by (auto simp: subjects_bind_base_def list_all_iff)
  show "sn_subject s = ReplacementSubject r \<and> rp_status r = Proposed"
    if "snapshot_ref s = (ReplacementKind, rp_id r)" "r \<in> set (ag_replacements (hr_base request))"
  proof -
    have "lookup_key rp_id (rp_id r) (ag_replacements (hr_base request)) = Some r"
      using lookup_key_Some_iff [OF canonical_key_inj [OF can(1)]] that(2) by simp
    with b that(1) have "sn_subject s = ReplacementSubject r"
      by (simp add: subject_from_aggregate_def snapshot_ref_def)
    with b(2) show ?thesis by simp
  qed
  show "sn_subject s = ConstraintSubject c \<and> tc_status c = Proposed"
    if "snapshot_ref s = (ConstraintKind, tc_id c)" "c \<in> set (ag_constraints (hr_base request))"
  proof -
    have "lookup_key tc_id (tc_id c) (ag_constraints (hr_base request)) = Some c"
      using lookup_key_Some_iff [OF canonical_key_inj [OF can(2)]] that(2) by simp
    with b that(1) have "sn_subject s = ConstraintSubject c"
      by (simp add: subject_from_aggregate_def snapshot_ref_def)
    with b(2) show ?thesis by simp
  qed
qed

lemma dict_get_member: "dict_get key xs k = Some x \<Longrightarrow> x \<in> set xs \<and> key x = k"
  unfolding dict_get_def by (auto dest: lookup_key_Some)

lemma decide_reject:
  assumes base: "subjects_bind_base request" "aggregate_wf E (hr_base request)"
    and dist: "distinct (map snapshot_ref (hr_subjects request))"
  shows "r \<in> set (ag_replacements (hr_base request)) \<Longrightarrow>
      \<exists>r'. decide_replacement E (hr_subjects request) (map reject_item (hr_subjects request)) r = Inr r'"
    and "c \<in> set (ag_constraints (hr_base request)) \<Longrightarrow>
      \<exists>c'. decide_constraint E (hr_subjects request) (map reject_item (hr_subjects request)) c = Inr c'"
proof -
  note parts = aggregate_parts_wf [OF base(2)]
  show "\<exists>r'. decide_replacement E (hr_subjects request) (map reject_item (hr_subjects request)) r = Inr r'"
    if r: "r \<in> set (ag_replacements (hr_base request))"
  proof (cases "dict_get snapshot_ref (hr_subjects request) (ReplacementKind, rp_id r)")
    case None
    then show ?thesis by (simp add: decide_replacement_def)
  next
    case (Some s)
    from dict_get_member [OF Some] subject_lookup(1) [OF base _ _ r]
    have "sn_subject s = ReplacementSubject r \<and> rp_status r = Proposed" by blast
    with Some replacement_with_status_total [OF parts(1) [OF r], of Rejected] show ?thesis
      by (simp add: decide_replacement_def dict_get_reject [OF dist] replacement_with_status_def rbind_Inr_iff)
  qed
  show "\<exists>c'. decide_constraint E (hr_subjects request) (map reject_item (hr_subjects request)) c = Inr c'"
    if c: "c \<in> set (ag_constraints (hr_base request))"
  proof (cases "dict_get snapshot_ref (hr_subjects request) (ConstraintKind, tc_id c)")
    case None
    then show ?thesis by (simp add: decide_constraint_def)
  next
    case (Some s)
    from dict_get_member [OF Some] subject_lookup(2) [OF base _ _ c]
    have "sn_subject s = ConstraintSubject c \<and> tc_status c = Proposed" by blast
    with Some temporal_constraint_with_status_total [OF parts(2) [OF c], of Rejected] show ?thesis
      by (simp add: decide_constraint_def dict_get_reject [OF dist] temporal_constraint_with_status_def rbind_Inr_iff)
  qed
qed

lemma require_reviewed [simp]:
  "require_document (a\<lparr>ag_replacements := rs, ag_constraints := cs\<rparr>) d = require_document a d"
  "require_claim (a\<lparr>ag_replacements := rs, ag_constraints := cs\<rparr>) c = require_claim a c"
  "require_span (a\<lparr>ag_replacements := rs, ag_constraints := cs\<rparr>) p s = require_span a p s"
  "require_dependency (a\<lparr>ag_replacements := rs, ag_constraints := cs\<rparr>) p = require_dependency a p"
  "require_target (a\<lparr>ag_replacements := rs, ag_constraints := cs\<rparr>) t = require_target a t"
proof -
  show d: "require_document (a\<lparr>ag_replacements := rs, ag_constraints := cs\<rparr>) d = require_document a d" for d
    by (simp add: require_document_def)
  show c: "require_claim (a\<lparr>ag_replacements := rs, ag_constraints := cs\<rparr>) c = require_claim a c" for c
    by (simp add: require_claim_def d cong: option.case_cong)
  show s: "require_span (a\<lparr>ag_replacements := rs, ag_constraints := cs\<rparr>) p s = require_span a p s" for p s
    by (simp add: require_span_def)
  have "require_claim (a\<lparr>ag_replacements := rs, ag_constraints := cs\<rparr>) = require_claim a"
    "require_span (a\<lparr>ag_replacements := rs, ag_constraints := cs\<rparr>) p = require_span a p"
    using c s by auto
  then show "require_dependency (a\<lparr>ag_replacements := rs, ag_constraints := cs\<rparr>) p = require_dependency a p"
    by (simp add: require_dependency_def d)
  show "require_target (a\<lparr>ag_replacements := rs, ag_constraints := cs\<rparr>) t = require_target a t"
    by (simp add: require_target_def)
qed

lemma replacement_documents_reviewed [simp]:
  "replacement_documents (map (reviewed_replacement ss is) rs) = replacement_documents rs"
  "replacement_edges (map (reviewed_replacement ss is) rs) = replacement_edges rs"
  by (simp_all add: replacement_documents_def replacement_edges_def o_def)

lemma document_relation_map:
  assumes "\<And>r. rp_id (f r) = rp_id r"
  shows "document_relation (map f rs) i = map_option f (document_relation rs i)"
proof -
  have "find (\<lambda>x. rp_id x = i) (map f ts) = map_option f (find (\<lambda>x. rp_id x = i) ts)" for ts
    using assms by (induction ts) auto
  then show ?thesis by (simp add: document_relation_def dict_get_def lookup_key_def rev_map)
qed

lemma constraint_bases_check_keep:
  assumes "\<And>i r. document_relation rs i = Some r \<Longrightarrow> rp_status r = Accepted \<Longrightarrow> document_relation rs' i = Some r"
    and "constraint_bases_check as rs c = Inr u"
  shows "\<exists>v. constraint_bases_check as rs' c = Inr v"
proof (cases "tc_status c = Accepted")
  case False
  then show ?thesis using assms(2) by (simp add: constraint_bases_check_def)
next
  case True
  have doc: "\<exists>v. document_basis_check rs' c i = Inr v" if "document_basis_check rs c i = Inr w" for i w
    using that assms(1) [of i] by (auto simp: document_basis_check_def split: option.splits)
  show ?thesis
  proof (cases "tt_kind (tc_target c) = ClaimTarget")
    case True
    then have "constraint_bases_check as rs' c = constraint_bases_check as rs c"
      by (simp add: constraint_bases_check_def)
    with assms(2) show ?thesis by auto
  next
    case False
    with assms(2) True have "rmap (document_basis_check rs c) (tc_basis c) = Inr u"
      by (simp add: constraint_bases_check_def)
    then have ex: "\<forall>i \<in> set (tc_basis c). \<exists>v. document_basis_check rs c i = Inr v"
      unfolding rmap_ex_iff [symmetric] by (rule exI)
    have "\<exists>v. rmap (document_basis_check rs' c) (tc_basis c) = Inr v"
    proof (rule rmap_total)
      fix i assume "i \<in> set (tc_basis c)"
      with ex obtain w where "document_basis_check rs c i = Inr w" by blast
      then show "\<exists>v. document_basis_check rs' c i = Inr v" by (rule doc)
    qed
    with False True show ?thesis by (simp add: constraint_bases_check_def)
  qed
qed

lemma reviewed_reject:
  assumes base: "subjects_bind_base request" "aggregate_wf E (hr_base request)"
    and dist: "distinct (map snapshot_ref (hr_subjects request))"
  shows "r \<in> set (ag_replacements (hr_base request)) \<Longrightarrow> rp_status r = Accepted \<Longrightarrow>
      reviewed_replacement (hr_subjects request) (map reject_item (hr_subjects request)) r = r"
    and "c \<in> set (ag_constraints (hr_base request)) \<Longrightarrow>
      tc_status (reviewed_constraint (hr_subjects request) (map reject_item (hr_subjects request)) c) = Accepted \<Longrightarrow>
      reviewed_constraint (hr_subjects request) (map reject_item (hr_subjects request)) c = c"
proof -
  show "reviewed_replacement (hr_subjects request) (map reject_item (hr_subjects request)) r = r"
    if r: "r \<in> set (ag_replacements (hr_base request))" "rp_status r = Accepted"
  proof (cases "dict_get snapshot_ref (hr_subjects request) (ReplacementKind, rp_id r)")
    case (Some s)
    from dict_get_member [OF Some] subject_lookup(1) [OF base _ _ r(1)] r(2) show ?thesis by auto
  qed (simp add: reviewed_replacement_def outcome_for_def)
  show "reviewed_constraint (hr_subjects request) (map reject_item (hr_subjects request)) c = c"
    if "tc_status (reviewed_constraint (hr_subjects request) (map reject_item (hr_subjects request)) c) = Accepted"
    using that
    by (auto simp: reviewed_constraint_def outcome_for_def dict_get_reject [OF dist] split: option.splits)
qed

text \<open>
  A human can always close a request by rejecting it: when the snapshots of a request are the
  PROPOSED subjects of its well-formed base, the command that rejects every one of them is applied
  without an exception, whatever else the aggregate holds (no accepted constraint loses its basis).
\<close>

lemma reject_all_applied:
  assumes base: "subjects_bind_base request" "aggregate_wf E (hr_base request)"
    and dist: "distinct (map snapshot_ref (hr_subjects request))"
  shows "\<exists>a. apply_human_review_decision E request (reject_all request reviewer rationale) = Inr a"
proof -
  let ?b = "hr_base request" and ?ss = "hr_subjects request"
  let ?is = "map reject_item ?ss"
  let ?f = "reviewed_replacement ?ss ?is" and ?g = "reviewed_constraint ?ss ?is"
  let ?rs = "map ?f (ag_replacements ?b)" and ?cs = "map ?g (ag_constraints ?b)"
  let ?a = "?b\<lparr>ag_replacements := ?rs, ag_constraints := ?cs\<rparr>"
  note parts = aggregate_parts_wf [OF base(2)] and can = aggregate_parts_canonical [OF base(2)]
  obtain rs where rs: "rmap (decide_replacement E ?ss ?is) (ag_replacements ?b) = Inr rs"
    using rmap_total [of "ag_replacements ?b" "decide_replacement E ?ss ?is"] decide_reject(1) [OF base dist] by blast
  obtain cs where cs: "rmap (decide_constraint E ?ss ?is) (ag_constraints ?b) = Inr cs"
    using rmap_total [of "ag_constraints ?b" "decide_constraint E ?ss ?is"] decide_reject(2) [OF base dist] by blast
  have rs_eq: "rs = ?rs" and rs_wf: "\<And>r. r \<in> set rs \<Longrightarrow> replacement_wf E r"
    using decide_replacements_Inr [OF parts(1) rs] by auto
  have cs_eq: "cs = ?cs" and cs_wf: "\<And>c. c \<in> set cs \<Longrightarrow> temporal_constraint_wf E c"
    using decide_constraints_Inr [OF parts(2) cs] by auto
  have old: "replacement_set_new (ag_replacements ?b) = Inr (ag_replacements ?b)" "aggregate_new E ?b = Inr ?b"
    using base(2) by (simp_all add: aggregate_wf_iff revalidate_wf)
  have new: "replacement_set_new rs = Inr rs" "constraint_set_new cs = Inr cs"
    using old(1) can unfolding rs_eq cs_eq
    by (simp_all add: replacement_set_new_Inr_iff constraint_set_new_Inr_iff canonical_map_fixed)
  have keep: "document_relation ?rs i = Some r"
    if "document_relation (ag_replacements ?b) i = Some r" "rp_status r = Accepted" for i r
  proof -
    from that(1) have "r \<in> set (ag_replacements ?b)"
      by (auto simp: document_relation_def dest: dict_get_member)
    with that reviewed_reject(1) [OF base dist] show ?thesis by (simp add: document_relation_map)
  qed
  have bases: "\<exists>u. constraint_bases_check (ag_graph ?b) ?rs (?g c) = Inr u" if c: "c \<in> set (ag_constraints ?b)" for c
  proof (cases "tc_status (?g c) = Accepted")
    case True
    with reviewed_reject(2) [OF base dist c] have "?g c = c" .
    moreover obtain u where "constraint_bases_check (ag_graph ?b) (ag_replacements ?b) c = Inr u"
      using old(2) c
      by (auto simp: aggregate_new_Inr_iff closed_binding_graph_Inr_iff validated_temporal_constraints_def
          validated_set_new_Inr_iff)
    ultimately show ?thesis using constraint_bases_check_keep [OF keep] by simp
  qed (simp add: constraint_bases_check_def)
  have "closed_binding_graph ?a = Inr ?a"
    using old(2) bases
    by (auto simp: aggregate_new_Inr_iff closed_binding_graph_Inr_iff validated_temporal_constraints_def
        validated_set_new_Inr_iff require_target_Inr)
  with old(2) have "aggregate_new E ?a = Inr ?a" by (simp add: aggregate_new_Inr_iff)
  with aggregate_revalidate_reviewed [OF base(2) rs_wf cs_wf new]
  have fin: "aggregate_revalidate E (?b\<lparr>ag_replacements := rs, ag_constraints := cs\<rparr>) = Inr ?a"
    by (simp add: rs_eq cs_eq)
  have create: "replacement_set_create rs = Inr rs" "constraint_set_create cs = Inr cs"
    using new by (simp_all add: replacements.validated_is_create constraints.validated_is_create)
  have sha: "list_all (\<lambda>i. case (dict_get item_ref ?is (item_ref i), dict_get snapshot_ref ?ss (item_ref i)) of
      (Some outcome, Some s) \<Rightarrow> it_original_sha256 outcome = sn_sha256 s | _ \<Rightarrow> False) ?is"
    by (auto simp: list_all_iff dict_get_reject [OF dist] dict_get_None split: option.splits)
  have "apply_human_review_decision E request (reject_all request reviewer rationale) = Inr ?a"
    unfolding apply_human_review_decision_def reject_all_def Let_def
    using sha rs cs create fin by (simp add: guards.simps image_image)
  then show ?thesis ..
qed

section \<open>What a request identity binds\<close>

definition snapshot_binding :: "subject_snapshot \<Rightarrow> review_kind \<times> string \<times> string" where
  "snapshot_binding s = (sn_kind s, sn_id s, sn_sha256 s)"

lemma review_kind_value_inj [simp]: "review_kind_value a = review_kind_value b \<longleftrightarrow> a = b"
  by (cases a; cases b) (simp_all add: review_kind_value_def)

lemma review_disposition_value_inj [simp]:
  "review_disposition_value a = review_disposition_value b \<longleftrightarrow> a = b"
  by (cases a; cases b) (simp_all add: review_disposition_value_def)

lemma snapshot_binding_json_eq:
  "snapshot_binding_json s = snapshot_binding_json t \<longleftrightarrow> snapshot_binding s = snapshot_binding t"
  by (auto simp: snapshot_binding_json_def snapshot_binding_def)

lemma map_snapshot_binding_eq:
  "map snapshot_binding_json ss = map snapshot_binding_json ts \<longleftrightarrow> map snapshot_binding ss = map snapshot_binding ts"
proof (induction ss arbitrary: ts)
  case (Cons s ss)
  then show ?case by (cases ts) (simp_all add: snapshot_binding_json_eq)
qed simp

lemma snapshot_binding_json_sorted [simp]: "json_sorted (snapshot_binding_json s)"
  unfolding snapshot_binding_json_def by (rule json_sorted_obj) (simp_all, code_simp?)

lemma request_payload_sorted [simp]: "json_sorted (request_payload a r h ss)"
  unfolding request_payload_def by (rule json_sorted_obj) (simp_all add: list_all_iff, code_simp?)

lemma request_payload_eq:
  "request_payload a r h ss = request_payload a' r' h' ts \<longleftrightarrow> a = a' \<and> r = r' \<and> h = h' \<and>
     map snapshot_binding (sort_key snapshot_key ss) = map snapshot_binding (sort_key snapshot_key ts)"
  by (auto simp: request_payload_def map_snapshot_binding_eq)

lemma snapshot_key_ref: "snapshot_key s = snapshot_key t \<longleftrightarrow> snapshot_ref s = snapshot_ref t"
  by (simp add: snapshot_key_def snapshot_ref_def)

lemma sort_key_set_unique:
  assumes "distinct (map key xs)" and "distinct (map key ys)" and "set xs = set ys"
  shows "sort_key key xs = sort_key key ys"
proof (rule canonical_unique)
  show "canonical key (sort_key key xs)" "canonical key (sort_key key ys)"
    using assms(1,2) by (simp_all add: canonical_def distinct_map)
  show "set (sort_key key xs) = set (sort_key key ys)" using assms(3) by simp
qed

text \<open>
  A review request id names one batch: it does not depend on the order in which the snapshots
  were collected, and equal ids bind the same aggregate, base revision, base digest and the same
  ordered snapshot bindings (kind, subject id, subject digest), or exhibit a SHA-256 collision.
\<close>

theorem review_request_identity:
  assumes "float_ok E" and "distinct (map snapshot_key ss)"
  shows "(\<forall>ts. distinct (map snapshot_key ts) \<and> set ts = set ss \<longrightarrow>
      human_review_request_id E a r h ts = human_review_request_id E a r h ss) \<and>
    (\<forall>a' r' h' ts. human_review_request_id E a r h ss = human_review_request_id E a' r' h' ts \<longrightarrow>
      a = a' \<and> r = r' \<and> h = h' \<and>
      map snapshot_binding (sort_key snapshot_key ss) = map snapshot_binding (sort_key snapshot_key ts) \<or>
      hash_collision E (request_payload a r h ss) (request_payload a' r' h' ts))"
proof (intro conjI allI impI)
  fix ts assume "distinct (map snapshot_key ts) \<and> set ts = set ss"
  then have "sort_key snapshot_key ts = sort_key snapshot_key ss"
    using assms(2) by (intro sort_key_set_unique) auto
  then show "human_review_request_id E a r h ts = human_review_request_id E a r h ss"
    by (simp add: human_review_request_id_def request_payload_def)
next
  fix a' r' h' ts
  assume "human_review_request_id E a r h ss = human_review_request_id E a' r' h' ts"
  then have "sha256_json E (request_payload a r h ss) = sha256_json E (request_payload a' r' h' ts)"
    by (simp add: human_review_request_id_def)
  from sha256_sorted_inj [OF assms(1) _ _ this]
  show "a = a' \<and> r = r' \<and> h = h' \<and>
      map snapshot_binding (sort_key snapshot_key ss) = map snapshot_binding (sort_key snapshot_key ts) \<or>
      hash_collision E (request_payload a r h ss) (request_payload a' r' h' ts)"
    by (simp add: request_payload_eq)
qed

end
