(* ===== verification/Rows.thy ===== *)
theory Rows
  imports Review
begin

text \<open>
  The normalised tables of \<open>change_control/store.py\<close>: the rows that \<open>_insert_aggregate_rows\<close> writes for
  one aggregate, the order in which \<open>_capture_rows\<close> reads them back, and the hydration of an
  aggregate from its rows.  The fourteen tables are partitioned by their \<open>aggregate_id\<close> column: a
  \<open>rows\<close> value holds the rows of one aggregate.  A JSON payload column is kept as the value its
  canonical text encodes (\<open>canonical_bytes_sorted_inj\<close>: text and value determine each other).
\<close>

section \<open>Exceptions of the store\<close>

datatype store_error =
    Conflict string
  | Idempotency string
  | Corruption string
  | ReviewMissing string
  | ReviewStale string
  | ReviewTransition string
  | ReviewAlreadyDecided string
  | IntegrityError string
  | OverflowError
  | Raised py_error

type_synonym 'a stored = "store_error + 'a"

text \<open>A call of the domain model inside the store: its exception passes through.\<close>

definition lift :: "'a result \<Rightarrow> 'a stored" where
  "lift r = (case r of Inl e \<Rightarrow> Inl (Raised e) | Inr x \<Rightarrow> Inr x)"

definition of_option :: "'e \<Rightarrow> 'a option \<Rightarrow> 'e + 'a" where
  "of_option e x = (case x of None \<Rightarrow> Inl e | Some y \<Rightarrow> Inr y)"

lemma lift_simps [simp]:
  "lift (Inl e) = Inl (Raised e)" "lift (Inr x) = Inr x"
  by (simp_all add: lift_def)

lemma lift_Inr_iff [simp]: "lift r = Inr x \<longleftrightarrow> r = Inr x"
  by (cases r) simp_all

lemma of_option_simps [simp]:
  "of_option e None = Inl e" "of_option e (Some x) = Inr x"
  by (simp_all add: of_option_def)

lemma of_option_Inr_iff [simp]: "of_option e x = Inr y \<longleftrightarrow> x = Some y"
  by (cases x) simp_all

section \<open>Columns that hold the text of a value\<close>

text \<open>A nullable column.\<close>

definition decode_column :: "(string \<Rightarrow> 'a option) \<Rightarrow> string option \<Rightarrow> 'a option option" where
  "decode_column decode c = (case c of None \<Rightarrow> Some None | Some s \<Rightarrow> map_option Some (decode s))"

text \<open>A text codec: the writer's text is read back as the value.\<close>

locale text_codec =
  fixes valid :: "'a \<Rightarrow> bool" and encode :: "'a \<Rightarrow> string" and decode :: "string \<Rightarrow> 'a option"
  assumes decode_encode: "valid x \<Longrightarrow> decode (encode x) = Some x"
begin

lemma decode_encode_column:
  "pred_option valid x \<Longrightarrow> decode_column decode (map_option encode x) = Some x"
  by (cases x) (simp_all add: decode_column_def decode_encode)

end

text \<open>\<open>Enum(text)\<close>: the member whose value is the text.\<close>

definition enum_of :: "('a \<Rightarrow> string) \<Rightarrow> 'a list \<Rightarrow> string \<Rightarrow> 'a option" where
  "enum_of value members s = find (\<lambda>m. value m = s) members"

lemma enum_of_value:
  assumes "\<And>a b. value a = value b \<Longrightarrow> a = b" and "x \<in> set members"
  shows "enum_of value members (value x) = Some x"
proof -
  have "enum_of value members (value x) \<noteq> None"
    using assms(2) by (auto simp: enum_of_def find_None_iff)
  then obtain y where y: "enum_of value members (value x) = Some y" by auto
  then have "value y = value x" by (auto simp: enum_of_def find_Some_iff)
  with assms(1) y show ?thesis by blast
qed

definition role_of :: "string \<Rightarrow> document_role option" where
  "role_of = enum_of document_role_value
     [RolePolicy, RoleMemo, RoleFaq, RoleSop, RoleProcess, RoleProposal, RoleOther]"

definition authority_of :: "string \<Rightarrow> document_authority option" where
  "authority_of = enum_of document_authority_value
     [AuthorityPrimary, AuthorityDelegated, AuthorityTransactional, AuthorityInformational]"

definition disposition_of :: "string \<Rightarrow> pair_disposition option" where
  "disposition_of = enum_of disposition_value [Supersedes, Contradicts, Coexists, Unrelated]"

definition dependency_kind_of :: "string \<Rightarrow> dependency_kind option" where
  "dependency_kind_of = enum_of dependency_kind_value [Quotes, Implements, Summarizes, HistoricalReference]"

definition status_of :: "string \<Rightarrow> constraint_status option" where
  "status_of = enum_of constraint_status_value [Proposed, Accepted, Rejected]"

definition target_kind_of :: "string \<Rightarrow> target_kind option" where
  "target_kind_of = enum_of target_kind_value [DocumentTarget, ClaimTarget]"

interpretation role_text: text_codec "\<lambda>_. True" document_role_value role_of
  by unfold_locales (unfold role_of_def, rule enum_of_value, simp, case_tac x, simp_all)

interpretation authority_text: text_codec "\<lambda>_. True" document_authority_value authority_of
  by unfold_locales (unfold authority_of_def, rule enum_of_value, simp, case_tac x, simp_all)

interpretation disposition_text: text_codec "\<lambda>_. True" disposition_value disposition_of
  by unfold_locales (unfold disposition_of_def, rule enum_of_value, simp, case_tac x, simp_all)

interpretation dependency_kind_text: text_codec "\<lambda>_. True" dependency_kind_value dependency_kind_of
  by unfold_locales (unfold dependency_kind_of_def, rule enum_of_value, simp, case_tac x, simp_all)

interpretation status_text: text_codec "\<lambda>_. True" constraint_status_value status_of
  by unfold_locales (unfold status_of_def, rule enum_of_value, simp, case_tac x, simp_all)

interpretation target_kind_text: text_codec "\<lambda>_. True" target_kind_value target_kind_of
  by unfold_locales (unfold target_kind_of_def, rule enum_of_value, simp, case_tac x, simp_all)

interpretation date_text: text_codec valid_date isoformat date_fromisoformat
  by unfold_locales (rule date_fromisoformat_isoformat)

section \<open>Rows\<close>

record document_row =
  dr_id :: string
  dr_namespace :: string
  dr_document_id :: string
  dr_family :: string
  dr_version_label :: string
  dr_source_path :: string
  dr_source_sha256 :: string
  dr_from :: string
  dr_to :: "string option"
  dr_role :: string
  dr_authority :: string

record identity_row =
  ir_id :: string
  ir_namespace :: string
  ir_document_version_id :: string
  ir_source_claim_id :: string

record claim_row =
  kr_id :: string
  kr_identity_id :: string
  kr_namespace :: string
  kr_statement :: string
  kr_note_path :: string
  kr_note_sha256 :: string
  kr_from :: string
  kr_to :: "string option"

record evidence_row =
  er_owner :: string
  er_ordinal :: nat
  er_kind :: string
  er_version :: int
  er_payload :: evidence

record pair_row =
  pr_id :: string
  pr_namespace :: string
  pr_left :: string
  pr_right :: string

text \<open>
  The REAL columns of assessments, dependencies and replacements hold the confidence.  SQLite keeps every finite
  float but the negative zero, which it stores as zero; confidences are rational numbers, so no value of the model
  is the negative zero and the columns hold what was written.
\<close>

record relation_row =
  rr_pair_id :: string
  rr_disposition :: string
  rr_rationale :: string
  rr_confidence :: rat
  rr_type :: "string option"
  rr_id :: "string option"
  rr_first :: "string option"
  rr_second :: "string option"

record dependency_row =
  dw_id :: string
  dw_relation_type :: string
  dw_downstream :: string
  dw_upstream :: string
  dw_kind :: string
  dw_rationale :: string
  dw_confidence :: rat

record span_row =
  sr_dependency_id :: string
  sr_ordinal :: nat
  sr_document_version_id :: string
  sr_note_path :: string
  sr_note_sha256 :: string
  sr_quote :: string
  sr_start_char :: int
  sr_end_char :: int

record replacement_row =
  pl_id :: string
  pl_namespace :: string
  pl_relation_type :: string
  pl_newer :: string
  pl_older :: string
  pl_status :: string
  pl_rationale :: string
  pl_confidence :: rat

record constraint_row =
  tr_id :: string
  tr_namespace :: string
  tr_resolver :: string
  tr_target_kind :: string
  tr_target_document :: "string option"
  tr_target_claim :: "string option"
  tr_bound :: string
  tr_status :: string
  tr_rationale :: string

record basis_row =
  br_constraint_id :: string
  br_target_kind :: string
  br_ordinal :: nat
  br_relation_id :: string

record rows =
  rw_documents :: "document_row list"
  rw_identities :: "identity_row list"
  rw_claims :: "claim_row list"
  rw_scopes :: "(string \<times> string) list"
  rw_claim_evidence :: "evidence_row list"
  rw_pairs :: "pair_row list"
  rw_relations :: "relation_row list"
  rw_dependencies :: "dependency_row list"
  rw_spans :: "span_row list"
  rw_span_evidence :: "(nat \<times> evidence_row) list"
  rw_dependency_claims :: "(string \<times> string) list"
  rw_replacements :: "replacement_row list"
  rw_constraints :: "constraint_row list"
  rw_bases :: "basis_row list"

section \<open>Writing an aggregate\<close>

fun evidence_kind :: "evidence \<Rightarrow> string \<times> int" where
  "evidence_kind (PdfEvidence e) = (''evidence-ref-v1'', 1)"
| "evidence_kind (StructuralEvidence s) = (''structural-evidence-ref-v2'', 2)"

text \<open>\<open>_evidence_payload\<close> for the items of one owner, numbered by \<open>enumerate\<close>.\<close>

definition evidence_rows :: "string \<Rightarrow> evidence list \<Rightarrow> evidence_row list" where
  "evidence_rows owner es = map (\<lambda>(n, e).
     \<lparr>er_owner = owner, er_ordinal = n, er_kind = fst (evidence_kind e), er_version = snd (evidence_kind e),
      er_payload = e\<rparr>) (enumerate 0 es)"

definition document_row_of :: "document_version \<Rightarrow> document_row" where
  "document_row_of d =
     \<lparr>dr_id = dv_id d, dr_namespace = ''mastervault.document-version.v1'', dr_document_id = dv_document_id d,
      dr_family = dv_family d, dr_version_label = dv_version_label d, dr_source_path = dv_source_path d,
      dr_source_sha256 = dv_source_sha256 d, dr_from = isoformat (dv_from d),
      dr_to = map_option isoformat (dv_to d), dr_role = document_role_value (dv_role d),
      dr_authority = document_authority_value (dv_authority d)\<rparr>"

definition identity_row_of :: "claim_revision \<Rightarrow> identity_row" where
  "identity_row_of c =
     \<lparr>ir_id = cr_identity_id c, ir_namespace = ''mastervault.claim-identity.v1'',
      ir_document_version_id = dv_id (cr_document c), ir_source_claim_id = cs_claim_id (cr_source c)\<rparr>"

text \<open>\<open>{revision.claim_identity_id: revision for revision in revisions}.values()\<close>\<close>

definition identity_revisions :: "claim_revision list \<Rightarrow> claim_revision list" where
  "identity_revisions cs = map snd (dict_of cr_identity_id cs [])"

definition claim_row_of :: "claim_revision \<Rightarrow> claim_row" where
  "claim_row_of c =
     \<lparr>kr_id = cr_revision_id c, kr_identity_id = cr_identity_id c,
      kr_namespace = ''mastervault.claim-revision.v1'', kr_statement = cr_statement c,
      kr_note_path = cs_note_path (cr_source c), kr_note_sha256 = cs_note_sha256 (cr_source c),
      kr_from = isoformat (cr_from c), kr_to = map_option isoformat (cr_to c)\<rparr>"

definition pair_row_of :: "relation_assessment \<Rightarrow> pair_row" where
  "pair_row_of a =
     \<lparr>pr_id = cp_id (ra_pair a), pr_namespace = ''mastervault.claim-pair.v1'',
      pr_left = cr_revision_id (cp_first (ra_pair a)), pr_right = cr_revision_id (cp_second (ra_pair a))\<rparr>"

definition relation_row_of :: "relation_assessment \<Rightarrow> relation_row" where
  "relation_row_of a =
     \<lparr>rr_pair_id = cp_id (ra_pair a), rr_disposition = disposition_value (ra_disposition a),
      rr_rationale = ra_rationale a, rr_confidence = ra_confidence a,
      rr_type = map_option relation_type_value (ra_type a), rr_id = ra_id a,
      rr_first = map_option fst (ra_endpoints a), rr_second = map_option snd (ra_endpoints a)\<rparr>"

definition dependency_row_of :: "dependency \<Rightarrow> dependency_row" where
  "dependency_row_of a =
     \<lparr>dw_id = dp_id a, dw_relation_type = relation_type_value RelDependsOn,
      dw_downstream = dv_id (dp_downstream a), dw_upstream = cr_revision_id (dp_upstream a),
      dw_kind = dependency_kind_value (dp_kind a), dw_rationale = dp_rationale a,
      dw_confidence = dp_confidence a\<rparr>"

definition span_row_of :: "string \<Rightarrow> nat \<times> document_span \<Rightarrow> span_row" where
  "span_row_of dependency_id ns = (case ns of (n, s) \<Rightarrow>
     \<lparr>sr_dependency_id = dependency_id, sr_ordinal = n, sr_document_version_id = sp_document_version_id s,
      sr_note_path = sp_note_path s, sr_note_sha256 = sp_note_sha256 s, sr_quote = sp_quote s,
      sr_start_char = sp_start_char s, sr_end_char = sp_end_char s\<rparr>)"

definition replacement_row_of :: "replacement \<Rightarrow> replacement_row" where
  "replacement_row_of r =
     \<lparr>pl_id = rp_id r, pl_namespace = ''mastervault.document-replacement.v1'',
      pl_relation_type = relation_type_value RelSupersedes, pl_newer = dv_id (rp_newer r),
      pl_older = dv_id (rp_older r), pl_status = constraint_status_value (rp_status r),
      pl_rationale = rp_rationale r, pl_confidence = rp_confidence r\<rparr>"

definition constraint_row_of :: "temporal_constraint \<Rightarrow> constraint_row" where
  "constraint_row_of c =
     \<lparr>tr_id = tc_id c, tr_namespace = ''mastervault.temporal-constraint.v1'',
      tr_resolver = ''temporal-resolution-v1'', tr_target_kind = target_kind_value (tt_kind (tc_target c)),
      tr_target_document = (if tt_kind (tc_target c) = DocumentTarget then Some (tt_id (tc_target c)) else None),
      tr_target_claim = (if tt_kind (tc_target c) = ClaimTarget then Some (tt_id (tc_target c)) else None),
      tr_bound = isoformat (tc_bound c), tr_status = constraint_status_value (tc_status c),
      tr_rationale = tc_rationale c\<rparr>"

definition basis_rows_of :: "temporal_constraint \<Rightarrow> basis_row list" where
  "basis_rows_of c = map (\<lambda>(n, i).
     \<lparr>br_constraint_id = tc_id c, br_target_kind = target_kind_value (tt_kind (tc_target c)),
      br_ordinal = n, br_relation_id = i\<rparr>) (enumerate 0 (tc_basis c))"

definition aggregate_rows :: "aggregate \<Rightarrow> rows" where
  "aggregate_rows a =
     \<lparr>rw_documents = map document_row_of (ag_documents a),
      rw_identities = map identity_row_of (identity_revisions (ag_claims a)),
      rw_claims = map claim_row_of (ag_claims a),
      rw_scopes = concat (map (\<lambda>c. map (\<lambda>s. (cr_revision_id c, s)) (cr_scopes c)) (ag_claims a)),
      rw_claim_evidence =
        concat (map (\<lambda>c. evidence_rows (cr_revision_id c) (cs_evidence (cr_source c))) (ag_claims a)),
      rw_pairs = map pair_row_of (ag_graph a),
      rw_relations = map relation_row_of (ag_graph a),
      rw_dependencies = map dependency_row_of (ag_dependencies a),
      rw_spans = concat (map (\<lambda>p. map (span_row_of (dp_id p)) (enumerate 0 (dp_spans p))) (ag_dependencies a)),
      rw_span_evidence = concat (map (\<lambda>p. concat (map (\<lambda>(n, s).
          map (Pair n) (evidence_rows (dp_id p) (sp_evidence s))) (enumerate 0 (dp_spans p)))) (ag_dependencies a)),
      rw_dependency_claims =
        concat (map (\<lambda>p. map (\<lambda>c. (dp_id p, cr_revision_id c)) (dp_claims p)) (ag_dependencies a)),
      rw_replacements = map replacement_row_of (ag_replacements a),
      rw_constraints = map constraint_row_of (ag_constraints a),
      rw_bases = concat (map basis_rows_of (ag_constraints a))\<rparr>"

section \<open>Constraints of the tables\<close>

text \<open>
  The PRIMARY KEY, UNIQUE, FOREIGN KEY and CHECK constraints of the fourteen tables
  (\<open>migrations/sqlite/001_change_control_aggregate.sql\<close>); every one of them holds the
  \<open>aggregate_id\<close> column, so they are constraints on the rows of one aggregate.
\<close>

definition rows_keys :: "rows \<Rightarrow> bool" where
  "rows_keys r \<longleftrightarrow>
     distinct (map dr_id (rw_documents r)) \<and>
     distinct (map (\<lambda>x. (dr_family x, dr_version_label x)) (rw_documents r)) \<and>
     distinct (map ir_id (rw_identities r)) \<and>
     distinct (map (\<lambda>x. (ir_document_version_id x, ir_source_claim_id x)) (rw_identities r)) \<and>
     distinct (map kr_id (rw_claims r)) \<and>
     distinct (rw_scopes r) \<and>
     distinct (map (\<lambda>x. (er_owner x, er_ordinal x)) (rw_claim_evidence r)) \<and>
     distinct (map pr_id (rw_pairs r)) \<and>
     distinct (map (\<lambda>x. (pr_left x, pr_right x)) (rw_pairs r)) \<and>
     distinct (map rr_pair_id (rw_relations r)) \<and>
     distinct (List.map_filter rr_id (rw_relations r)) \<and>
     distinct (map dw_id (rw_dependencies r)) \<and>
     distinct (map (\<lambda>x. (dw_downstream x, dw_upstream x, dw_kind x)) (rw_dependencies r)) \<and>
     distinct (map (\<lambda>x. (sr_dependency_id x, sr_ordinal x)) (rw_spans r)) \<and>
     distinct (map (\<lambda>(n, x). (er_owner x, n, er_ordinal x)) (rw_span_evidence r)) \<and>
     distinct (rw_dependency_claims r) \<and>
     distinct (map pl_id (rw_replacements r)) \<and>
     distinct (map (\<lambda>x. (pl_newer x, pl_older x)) (rw_replacements r)) \<and>
     distinct (map tr_id (rw_constraints r)) \<and>
     distinct (map (\<lambda>x. (br_constraint_id x, br_ordinal x)) (rw_bases r)) \<and>
     distinct (map (\<lambda>x. (br_constraint_id x, br_relation_id x)) (rw_bases r))"

definition rows_references :: "rows \<Rightarrow> bool" where
  "rows_references r \<longleftrightarrow>
     (let documents = dr_id ` set (rw_documents r); claims = kr_id ` set (rw_claims r) in
      list_all (\<lambda>x. ir_document_version_id x \<in> documents) (rw_identities r) \<and>
      list_all (\<lambda>x. kr_identity_id x \<in> ir_id ` set (rw_identities r)) (rw_claims r) \<and>
      list_all (\<lambda>x. fst x \<in> claims) (rw_scopes r) \<and>
      list_all (\<lambda>x. er_owner x \<in> claims) (rw_claim_evidence r) \<and>
      list_all (\<lambda>x. pr_left x \<in> claims \<and> pr_right x \<in> claims) (rw_pairs r) \<and>
      list_all (\<lambda>x. rr_pair_id x \<in> pr_id ` set (rw_pairs r) \<and>
        opt_all (\<lambda>i. i \<in> claims) (rr_first x) \<and> opt_all (\<lambda>i. i \<in> claims) (rr_second x)) (rw_relations r) \<and>
      list_all (\<lambda>x. dw_downstream x \<in> documents \<and> dw_upstream x \<in> claims) (rw_dependencies r) \<and>
      list_all (\<lambda>x. sr_dependency_id x \<in> dw_id ` set (rw_dependencies r) \<and>
        sr_document_version_id x \<in> documents) (rw_spans r) \<and>
      list_all (\<lambda>(n, x). (er_owner x, n) \<in> (\<lambda>s. (sr_dependency_id s, sr_ordinal s)) ` set (rw_spans r))
        (rw_span_evidence r) \<and>
      list_all (\<lambda>x. fst x \<in> dw_id ` set (rw_dependencies r) \<and> snd x \<in> claims) (rw_dependency_claims r) \<and>
      list_all (\<lambda>x. pl_newer x \<in> documents \<and> pl_older x \<in> documents) (rw_replacements r) \<and>
      list_all (\<lambda>x. opt_all (\<lambda>i. i \<in> documents) (tr_target_document x) \<and>
        opt_all (\<lambda>i. i \<in> claims) (tr_target_claim x)) (rw_constraints r) \<and>
      list_all (\<lambda>x. (br_constraint_id x, br_target_kind x) \<in>
        (\<lambda>c. (tr_id c, tr_target_kind c)) ` set (rw_constraints r)) (rw_bases r))"

definition relation_row_check :: "relation_row \<Rightarrow> bool" where
  "relation_row_check x \<longleftrightarrow>
     (rr_disposition x \<in> {''COEXISTS'', ''UNRELATED''} \<and> rr_type x = None \<and> rr_id x = None \<and>
        rr_first x = None \<and> rr_second x = None) \<or>
     (rr_disposition x \<in> {''SUPERSEDES'', ''CONTRADICTS''} \<and> rr_type x = Some (rr_disposition x) \<and>
        rr_id x \<noteq> None \<and> rr_first x \<noteq> None \<and> rr_second x \<noteq> None)"

definition constraint_row_check :: "constraint_row \<Rightarrow> bool" where
  "constraint_row_check x \<longleftrightarrow>
     (tr_target_kind x = ''document-version'' \<and> tr_target_document x \<noteq> None \<and> tr_target_claim x = None) \<or>
     (tr_target_kind x = ''claim-revision'' \<and> tr_target_claim x \<noteq> None \<and> tr_target_document x = None)"

definition rows_checks :: "rows \<Rightarrow> bool" where
  "rows_checks r \<longleftrightarrow>
     list_all (\<lambda>x. dr_namespace x = ''mastervault.document-version.v1'' \<and> length (dr_source_sha256 x) = 64 \<and>
       role_of (dr_role x) \<noteq> None \<and> authority_of (dr_authority x) \<noteq> None) (rw_documents r) \<and>
     list_all (\<lambda>x. ir_namespace x = ''mastervault.claim-identity.v1'') (rw_identities r) \<and>
     list_all (\<lambda>x. kr_namespace x = ''mastervault.claim-revision.v1'' \<and> length (kr_note_sha256 x) = 64)
       (rw_claims r) \<and>
     list_all (\<lambda>x. er_kind x \<in> {''evidence-ref-v1'', ''structural-evidence-ref-v2''} \<and> er_version x \<in> {1, 2})
       (rw_claim_evidence r @ map snd (rw_span_evidence r)) \<and>
     list_all (\<lambda>x. pr_namespace x = ''mastervault.claim-pair.v1'' \<and> pr_left x < pr_right x) (rw_pairs r) \<and>
     list_all (\<lambda>x. relation_row_check x \<and> 0 \<le> rr_confidence x \<and> rr_confidence x \<le> 1) (rw_relations r) \<and>
     list_all (\<lambda>x. dw_relation_type x = ''DEPENDS_ON'' \<and> dependency_kind_of (dw_kind x) \<noteq> None \<and>
       0 \<le> dw_confidence x \<and> dw_confidence x \<le> 1) (rw_dependencies r) \<and>
     list_all (\<lambda>x. length (sr_note_sha256 x) = 64 \<and> 0 \<le> sr_start_char x \<and> sr_start_char x < sr_end_char x)
       (rw_spans r) \<and>
     list_all (\<lambda>x. pl_namespace x = ''mastervault.document-replacement.v1'' \<and> pl_relation_type x = ''SUPERSEDES'' \<and>
       status_of (pl_status x) \<noteq> None \<and> 0 \<le> pl_confidence x \<and> pl_confidence x \<le> 1) (rw_replacements r) \<and>
     list_all (\<lambda>x. tr_namespace x = ''mastervault.temporal-constraint.v1'' \<and>
       tr_resolver x = ''temporal-resolution-v1'' \<and> status_of (tr_status x) \<noteq> None \<and>
       constraint_row_check x) (rw_constraints r)"

text \<open>
  An integer that \<open>sqlite3\<close> can bind: its columns have 64 bits, a wider value raises \<open>OverflowError\<close>.  The
  character offsets of spans are the integers of the rows that the models do not bound.
\<close>

definition sqlite_int :: "int \<Rightarrow> bool" where
  "sqlite_int i \<longleftrightarrow> - (2 ^ 63) \<le> i \<and> i < 2 ^ 63"

definition rows_bindable :: "rows \<Rightarrow> bool" where
  "rows_bindable r \<longleftrightarrow> list_all (\<lambda>x. sqlite_int (sr_start_char x) \<and> sqlite_int (sr_end_char x)) (rw_spans r)"

definition schema_ok :: "rows \<Rightarrow> bool" where
  "schema_ok r \<longleftrightarrow> rows_keys r \<and> rows_references r \<and> rows_checks r"

text \<open>\<open>SELECT * FROM table WHERE aggregate_id = ? ORDER BY ...\<close> for the fourteen tables.\<close>

definition capture_rows :: "rows \<Rightarrow> rows" where
  "capture_rows r =
     \<lparr>rw_documents = sort_key dr_id (rw_documents r),
      rw_identities = sort_key ir_id (rw_identities r),
      rw_claims = sort_key kr_id (rw_claims r),
      rw_scopes = sort_key (\<lambda>x. x) (rw_scopes r),
      rw_claim_evidence = sort_key (\<lambda>e. (er_owner e, er_ordinal e)) (rw_claim_evidence r),
      rw_pairs = sort_key pr_id (rw_pairs r),
      rw_relations = sort_key rr_pair_id (rw_relations r),
      rw_dependencies = sort_key dw_id (rw_dependencies r),
      rw_spans = sort_key (\<lambda>s. (sr_dependency_id s, sr_ordinal s)) (rw_spans r),
      rw_span_evidence = sort_key (\<lambda>(n, e). (er_owner e, n, er_ordinal e)) (rw_span_evidence r),
      rw_dependency_claims = sort_key (\<lambda>x. x) (rw_dependency_claims r),
      rw_replacements = sort_key pl_id (rw_replacements r),
      rw_constraints = sort_key tr_id (rw_constraints r),
      rw_bases = sort_key (\<lambda>b. (br_constraint_id b, br_ordinal b)) (rw_bases r)\<rparr>"

section \<open>Hydrating an aggregate\<close>

definition checks :: "(bool \<times> store_error) list \<Rightarrow> unit stored" where
  "checks gs = guards gs ()"

definition invalid_text :: store_error where
  "invalid_text = Raised (ValueError ''invalid column text'')"

text \<open>\<open>_require_contiguous\<close>\<close>

definition require_contiguous :: "nat list \<Rightarrow> unit stored" where
  "require_contiguous ordinals =
     checks [(ordinals = [0..<length ordinals],
       Corruption ''persisted ordered rows are not contiguous from zero'')]"

text \<open>\<open>_decode_evidence\<close>\<close>

definition decode_evidence :: "py_env \<Rightarrow> evidence_row \<Rightarrow> evidence stored" where
  "decode_evidence E r =
     (let invalid = Corruption ''persisted evidence payload is invalid'' in
      if (er_kind r, er_version r) = (''evidence-ref-v1'', 1) then
        (case er_payload r of
           PdfEvidence e \<Rightarrow> (case evidence_revalidate E (PdfEvidence e) of Inl _ \<Rightarrow> Inl invalid | Inr x \<Rightarrow> Inr x)
         | _ \<Rightarrow> Inl invalid)
      else if (er_kind r, er_version r) = (''structural-evidence-ref-v2'', 2) then
        (case er_payload r of
           StructuralEvidence s \<Rightarrow>
             (case evidence_revalidate E (StructuralEvidence s) of Inl _ \<Rightarrow> Inl invalid | Inr x \<Rightarrow> Inr x)
         | _ \<Rightarrow> Inl invalid)
      else Inl (Corruption ''persisted evidence discriminator is invalid''))"

definition hydrate_document :: "py_env \<Rightarrow> document_row \<Rightarrow> document_version stored" where
  "hydrate_document E r =
     rbind (checks [(dr_namespace r = ''mastervault.document-version.v1'', invalid_text)]) (\<lambda>_.
     rbind (of_option invalid_text (date_fromisoformat (dr_from r))) (\<lambda>from.
     rbind (of_option invalid_text (decode_column date_fromisoformat (dr_to r))) (\<lambda>until.
     rbind (of_option invalid_text (role_of (dr_role r))) (\<lambda>role.
     rbind (of_option invalid_text (authority_of (dr_authority r))) (\<lambda>authority.
     lift (document_version_new E
       \<lparr>dv_id = dr_id r, dv_document_id = dr_document_id r, dv_family = dr_family r,
        dv_version_label = dr_version_label r, dv_source_path = dr_source_path r,
        dv_source_sha256 = dr_source_sha256 r, dv_from = from, dv_to = until, dv_role = role,
        dv_authority = authority\<rparr>))))))"

definition hydrate_documents :: "py_env \<Rightarrow> document_row list \<Rightarrow> document_version list stored" where
  "hydrate_documents E rs = rmap (hydrate_document E) rs"

definition hydrate_claim :: "py_env \<Rightarrow> rows \<Rightarrow> document_version list \<Rightarrow> claim_row \<Rightarrow> claim_revision stored" where
  "hydrate_claim E rw documents r =
     rbind (of_option (Corruption ''claim revision has no identity row'')
        (dict_get ir_id (rw_identities rw) (kr_identity_id r))) (\<lambda>identity.
     rbind (of_option (Corruption ''claim identity has no document root'')
        (dict_get dv_id documents (ir_document_version_id identity))) (\<lambda>document.
     let persisted = filter (\<lambda>e. er_owner e = kr_id r) (rw_claim_evidence rw) in
     rbind (require_contiguous (map er_ordinal persisted)) (\<lambda>_.
     rbind (rmap (decode_evidence E) persisted) (\<lambda>evidence.
     rbind (lift (claim_source_new
        \<lparr>cs_note_path = kr_note_path r, cs_note_sha256 = kr_note_sha256 r,
         cs_claim_id = ir_source_claim_id identity, cs_evidence = evidence\<rparr>)) (\<lambda>source.
     rbind (of_option invalid_text (date_fromisoformat (kr_from r))) (\<lambda>from.
     rbind (of_option invalid_text (decode_column date_fromisoformat (kr_to r))) (\<lambda>until.
     rbind (lift (claim_revision_create E document source (kr_statement r) from until
        (map snd (filter (\<lambda>x. fst x = kr_id r) (rw_scopes rw))))) (\<lambda>created.
     rbind (checks
        [(cr_identity_id created = kr_identity_id r \<and> cr_revision_id created = kr_id r \<and>
            ir_namespace identity = ''mastervault.claim-identity.v1'' \<and>
            kr_namespace r = ''mastervault.claim-revision.v1'',
          Corruption ''claim stable ID or namespace is invalid'')]) (\<lambda>_.
     Inr created)))))))))"

definition hydrate_claims :: "py_env \<Rightarrow> rows \<Rightarrow> document_version list \<Rightarrow> claim_revision list stored" where
  "hydrate_claims E rw documents =
     rbind (rmap (hydrate_claim E rw documents) (rw_claims rw)) (\<lambda>revisions.
     rbind (checks
        [(kr_identity_id ` set (rw_claims rw) = ir_id ` set (rw_identities rw),
            Corruption ''unreferenced claim identity rows exist''),
         (fst ` set (rw_scopes rw) \<union> er_owner ` set (rw_claim_evidence rw) \<subseteq>
            cr_revision_id ` set revisions,
            Corruption ''claim child rows reference absent revisions'')]) (\<lambda>_.
     Inr revisions))"

text \<open>\<open>str(column)\<close> of a nullable column.\<close>

definition str_column :: "string option \<Rightarrow> string" where
  "str_column c = (case c of None \<Rightarrow> ''None'' | Some s \<Rightarrow> s)"

definition hydrate_relation ::
  "py_env \<Rightarrow> rows \<Rightarrow> claim_revision list \<Rightarrow> relation_row \<Rightarrow> relation_assessment stored" where
  "hydrate_relation E rw claims r =
     rbind (of_option (Corruption ''relation assessment has no pair row'')
        (dict_get pr_id (rw_pairs rw) (rr_pair_id r))) (\<lambda>pair_row.
     case (dict_get cr_revision_id claims (pr_left pair_row), dict_get cr_revision_id claims (pr_right pair_row)) of
       (Some first, Some second) \<Rightarrow>
         rbind (lift (claim_pair_create E first second)) (\<lambda>pair.
         rbind (checks
            [(cp_id pair = rr_pair_id r \<and> pr_namespace pair_row = ''mastervault.claim-pair.v1'',
              Corruption ''claim pair stable ID or namespace is invalid'')]) (\<lambda>_.
         rbind (of_option invalid_text (disposition_of (rr_disposition r))) (\<lambda>disposition.
         let newer = (if disposition = Supersedes then Some (str_column (rr_first r)) else None) in
         rbind (lift (relation_assessment_create E pair disposition (rr_rationale r) (rr_confidence r) newer))
           (\<lambda>created.
         let persisted_endpoints = (if rr_first r = None then None
                else Some (str_column (rr_first r), str_column (rr_second r))) in
         rbind (checks
            [(map_option relation_type_value (ra_type created) = rr_type r \<and> ra_id created = rr_id r \<and>
                ra_endpoints created = persisted_endpoints,
              Corruption ''relation assessment columns are inconsistent'')]) (\<lambda>_.
         Inr created)))))
     | _ \<Rightarrow> Inl (Corruption ''claim pair has an absent claim root''))"

definition hydrate_relations :: "py_env \<Rightarrow> rows \<Rightarrow> claim_revision list \<Rightarrow> relation_assessment list stored" where
  "hydrate_relations E rw claims =
     rbind (rmap (hydrate_relation E rw claims) (rw_relations rw)) (\<lambda>assessments.
     rbind (checks
        [(rr_pair_id ` set (rw_relations rw) = pr_id ` set (rw_pairs rw),
            Corruption ''unreferenced claim pair rows exist'')]) (\<lambda>_.
     Inr assessments))"

definition hydrate_span :: "py_env \<Rightarrow> rows \<Rightarrow> span_row \<Rightarrow> document_span stored" where
  "hydrate_span E rw r =
     (let persisted = map snd (filter (\<lambda>(n, e). er_owner e = sr_dependency_id r \<and> n = sr_ordinal r)
        (rw_span_evidence rw)) in
      rbind (require_contiguous (map er_ordinal persisted)) (\<lambda>_.
      rbind (rmap (decode_evidence E) persisted) (\<lambda>evidence.
      lift (document_span_new
        \<lparr>sp_document_version_id = sr_document_version_id r, sp_note_path = sr_note_path r,
         sp_note_sha256 = sr_note_sha256 r, sp_quote = sr_quote r, sp_start_char = sr_start_char r,
         sp_end_char = sr_end_char r, sp_evidence = evidence\<rparr>))))"

definition hydrate_dependency ::
  "py_env \<Rightarrow> rows \<Rightarrow> document_version list \<Rightarrow> claim_revision list \<Rightarrow> dependency_row \<Rightarrow> dependency stored" where
  "hydrate_dependency E rw documents claims r =
     (case (dict_get dv_id documents (dw_downstream r), dict_get cr_revision_id claims (dw_upstream r)) of
        (Some downstream, Some upstream) \<Rightarrow>
          (let persisted = filter (\<lambda>s. sr_dependency_id s = dw_id r) (rw_spans rw) in
           rbind (require_contiguous (map sr_ordinal persisted)) (\<lambda>_.
           rbind (rmap (hydrate_span E rw) persisted) (\<lambda>spans.
           rbind (rmap (\<lambda>i. of_option (Corruption ''dependency binding has an absent claim root'')
                (dict_get cr_revision_id claims i))
              (map snd (filter (\<lambda>x. fst x = dw_id r) (rw_dependency_claims rw)))) (\<lambda>downstream_claims.
           rbind (of_option invalid_text (dependency_kind_of (dw_kind r))) (\<lambda>kind.
           rbind (lift (dependency_create E downstream upstream kind spans downstream_claims
                (dw_rationale r) (dw_confidence r))) (\<lambda>created.
           rbind (checks
              [(dp_id created = dw_id r \<and> relation_type_value RelDependsOn = dw_relation_type r \<and>
                  dp_spans created = spans \<and> dp_claims created = downstream_claims,
                Corruption ''dependency columns or ordering are invalid'')]) (\<lambda>_.
           Inr created)))))))
      | _ \<Rightarrow> Inl (Corruption ''dependency has an absent endpoint root''))"

definition hydrate_dependencies ::
  "py_env \<Rightarrow> rows \<Rightarrow> document_version list \<Rightarrow> claim_revision list \<Rightarrow> dependency list stored" where
  "hydrate_dependencies E rw documents claims =
     rbind (rmap (hydrate_dependency E rw documents claims) (rw_dependencies rw)) (\<lambda>dependencies.
     rbind (checks
        [(sr_dependency_id ` set (rw_spans rw) \<union> fst ` set (rw_dependency_claims rw) \<union>
            (\<lambda>x. er_owner (snd x)) ` set (rw_span_evidence rw) \<subseteq> dw_id ` set (rw_dependencies rw),
          Corruption ''dependency child rows reference absent roots'')]) (\<lambda>_.
     Inr dependencies))"

definition hydrate_replacement ::
  "py_env \<Rightarrow> document_version list \<Rightarrow> replacement_row \<Rightarrow> replacement stored" where
  "hydrate_replacement E documents r =
     (case (dict_get dv_id documents (pl_newer r), dict_get dv_id documents (pl_older r)) of
        (Some newer, Some older) \<Rightarrow>
          rbind (of_option invalid_text (status_of (pl_status r))) (\<lambda>status.
          rbind (lift (replacement_create E newer older status (pl_rationale r) (pl_confidence r))) (\<lambda>created.
          rbind (checks
             [(rp_id created = pl_id r \<and> pl_namespace r = ''mastervault.document-replacement.v1'' \<and>
                 relation_type_value RelSupersedes = pl_relation_type r,
               Corruption ''document replacement stable columns are invalid'')]) (\<lambda>_.
          Inr created)))
      | _ \<Rightarrow> Inl (Corruption ''document replacement has an absent root''))"

definition hydrate_constraint ::
  "py_env \<Rightarrow> rows \<Rightarrow> document_version list \<Rightarrow> claim_revision list \<Rightarrow> constraint_row \<Rightarrow> temporal_constraint stored"
where
  "hydrate_constraint E rw documents claims r =
     rbind (of_option invalid_text (target_kind_of (tr_target_kind r))) (\<lambda>kind.
     rbind (if kind = DocumentTarget then
          (let i = str_column (tr_target_document r) in
           rbind (checks [(tr_target_claim r = None \<and> i \<in> dv_id ` set documents,
             Corruption ''temporal document target is invalid'')]) (\<lambda>_. Inr i))
        else
          (let i = str_column (tr_target_claim r) in
           rbind (checks [(tr_target_document r = None \<and> i \<in> cr_revision_id ` set claims,
             Corruption ''temporal claim target is invalid'')]) (\<lambda>_. Inr i))) (\<lambda>target_id.
     let persisted = filter (\<lambda>b. br_constraint_id b = tr_id r) (rw_bases rw) in
     rbind (require_contiguous (map br_ordinal persisted)) (\<lambda>_.
     rbind (checks [(list_all (\<lambda>b. br_target_kind b = target_kind_value kind) persisted,
        Corruption ''temporal basis target kind is inconsistent'')]) (\<lambda>_.
     rbind (checks
        [(tr_namespace r = ''mastervault.temporal-constraint.v1'' \<and> tr_resolver r = ''temporal-resolution-v1'',
          invalid_text)]) (\<lambda>_.
     rbind (lift (temporal_target_new \<lparr>tt_kind = kind, tt_id = target_id\<rparr>)) (\<lambda>target.
     rbind (of_option invalid_text (date_fromisoformat (tr_bound r))) (\<lambda>bound.
     rbind (of_option invalid_text (status_of (tr_status r))) (\<lambda>status.
     lift (temporal_constraint_new E
       \<lparr>tc_id = tr_id r, tc_target = target, tc_bound = bound,
        tc_basis = map br_relation_id persisted, tc_status = status, tc_rationale = tr_rationale r\<rparr>)))))))))"

definition hydrate_constraints ::
  "py_env \<Rightarrow> rows \<Rightarrow> document_version list \<Rightarrow> claim_revision list \<Rightarrow> temporal_constraint list stored" where
  "hydrate_constraints E rw documents claims =
     rbind (rmap (hydrate_constraint E rw documents claims) (rw_constraints rw)) (\<lambda>constraints.
     rbind (checks
        [(br_constraint_id ` set (rw_bases rw) \<subseteq> tr_id ` set (rw_constraints rw),
          Corruption ''temporal bases reference absent constraints'')]) (\<lambda>_.
     Inr constraints))"

record head_row =
  hw_id :: string
  hw_revision :: int
  hw_schema_version :: int
  hw_sha256 :: string
  hw_updated_at :: string

record snapshot =
  ss_aggregate :: aggregate
  ss_revision :: int
  ss_sha256 :: string

definition hydrate_parts :: "py_env \<Rightarrow> head_row \<Rightarrow> rows \<Rightarrow> snapshot stored" where
  "hydrate_parts E head rw =
     rbind (checks [(hw_schema_version head = 1, Corruption ''unsupported aggregate model schema version'')]) (\<lambda>_.
     rbind (hydrate_documents E (rw_documents rw)) (\<lambda>documents.
     rbind (hydrate_claims E rw documents) (\<lambda>claims.
     rbind (hydrate_relations E rw claims) (\<lambda>relations.
     rbind (hydrate_dependencies E rw documents claims) (\<lambda>dependencies.
     rbind (rmap (hydrate_replacement E documents) (rw_replacements rw)) (\<lambda>replacements.
     rbind (hydrate_constraints E rw documents claims) (\<lambda>constraints.
     rbind (lift (document_registry_create documents)) (\<lambda>ds.
     rbind (lift (claim_registry_create claims)) (\<lambda>cs.
     rbind (lift (relation_graph_create relations)) (\<lambda>g.
     rbind (lift (dependency_registry_create dependencies)) (\<lambda>deps.
     rbind (lift (replacement_set_create replacements)) (\<lambda>rs.
     rbind (lift (constraint_set_create constraints)) (\<lambda>tcs.
     rbind (lift (aggregate_create E (hw_id head) ds cs g deps rs tcs)) (\<lambda>aggregate.
     rbind (lift (aggregate_sha256 E aggregate)) (\<lambda>digest.
     rbind (checks
        [(digest = hw_sha256 head, Corruption ''aggregate digest does not match normalized rows''),
         (1 \<le> hw_revision head, Corruption ''aggregate revision is invalid'')]) (\<lambda>_.
     Inr \<lparr>ss_aggregate = aggregate, ss_revision = hw_revision head, ss_sha256 = digest\<rparr>))))))))))))))))"

text \<open>\<open>_hydrate_snapshot\<close>: every exception of the domain model but an assertion becomes a
  corruption error.\<close>

definition hydrate_snapshot :: "py_env \<Rightarrow> head_row \<Rightarrow> rows \<Rightarrow> snapshot stored" where
  "hydrate_snapshot E head rw =
     (case hydrate_parts E head rw of
        Inl (Raised e) \<Rightarrow> if e = AssertionError then Inl (Raised e)
          else Inl (Corruption ''persisted change-control rows violate canonical domain contracts'')
      | result \<Rightarrow> result)"

end
