(* ===== verification/Hydration.thy ===== *)
theory Hydration
  imports Rows
begin

text \<open>
  The rows of an aggregate are a faithful image of it: every factory rebuilds a well-formed value
  from its own fields, so hydrating the captured rows returns the aggregate that was written.
\<close>

section \<open>Factories rebuild well-formed values\<close>

lemma semantic_input_normalized:
  assumes "normalize_semantic_text E v = v" and "n \<le> length v"
  shows "canonical_semantic_input E v l n = Inr v"
proof -
  from assms(1) have v: "v = join '' '' (words_of (nfkc E v))" by (simp add: normalize_semantic_text_def)
  have "words_of (join '' '' (words_of (nfkc E v))) = words_of (nfkc E v)"
    by (rule words_of_join) (rule words_of_ok)
  with v have "words_of v = words_of (nfkc E v)" by metis
  with v have "v = join '' '' (words_of v)" by metis
  with assms show ?thesis by (simp add: canonical_semantic_input_Inr)
qed

lemma claim_revision_recreate:
  assumes "claim_revision_new E c = Inr c"
  shows "claim_revision_create E (cr_document c) (cr_source c) (cr_statement c) (cr_from c) (cr_to c)
    (cr_scopes c) = Inr c"
proof -
  note iff = assms [unfolded claim_revision_new_Inr_iff]
  have inp: "canonical_semantic_input E (cr_statement c) ''statement'' 8 = Inr (cr_statement c)"
    using iff by (intro semantic_input_normalized) auto
  have keys: "rmap (normalize_logical_key E) (cr_scopes c) = Inr (cr_scopes c)" using iff by blast
  have scopes: "sorted_set (cr_scopes c) = cr_scopes c"
    using iff sorted_set_id_iff [of "cr_scopes c"] by auto
  have ids: "stable_content_id E ''claim''
      (claim_identity_payload (dv_id (cr_document c)) (cs_claim_id (cr_source c))) = cr_identity_id c"
    "stable_content_id E ''claimrev''
        (revision_identity_payload (cr_identity_id c) (cr_statement c) (cr_scopes c) (cr_from c) (cr_to c)) =
      cr_revision_id c"
    using iff by metis+
  have "\<lparr>cr_identity_id = cr_identity_id c, cr_revision_id = cr_revision_id c, cr_document = cr_document c,
      cr_source = cr_source c, cr_statement = cr_statement c, cr_from = cr_from c, cr_to = cr_to c,
      cr_scopes = cr_scopes c\<rparr> = c"
    by (cases c) simp
  with assms show ?thesis
    by (simp only: claim_revision_create_def inp keys scopes ids rbind_simps Let_def)
qed

lemma claim_pair_recreate:
  assumes "claim_pair_new E p = Inr p"
  shows "claim_pair_create E (cp_first p) (cp_second p) = Inr p"
proof -
  note iff = assms [unfolded claim_pair_new_Inr_iff]
  have le: "\<not> cr_revision_id (cp_second p) < cr_revision_id (cp_first p)"
    "cr_revision_id (cp_first p) \<noteq> cr_revision_id (cp_second p)"
    using iff by auto
  have scopes: "scope_intersection (cp_first p) (cp_second p) = cp_shared_scopes p" using iff by metis
  have id: "stable_content_id E ''pair''
      (pair_identity_payload (cr_revision_id (cp_first p)) (cr_revision_id (cp_second p))) = cp_id p"
    using iff by metis
  have "\<lparr>cp_id = cp_id p, cp_first = cp_first p, cp_second = cp_second p,
      cp_shared_scopes = cp_shared_scopes p\<rparr> = p"
    by (cases p) simp
  with assms le show ?thesis
    by (simp only: claim_pair_create_def scopes id rbind_simps Let_def prod.case if_False guards.simps
        simp_thms if_True not_False_eq_True)
qed

lemma relation_recreate:
  assumes new: "relation_assessment_new E a = Inr a"
    and lt: "cr_revision_id (cp_first (ra_pair a)) < cr_revision_id (cp_second (ra_pair a))"
  shows "relation_assessment_create E (ra_pair a) (ra_disposition a) (ra_rationale a) (ra_confidence a)
    (if ra_disposition a = Supersedes then Some (str_column (map_option fst (ra_endpoints a))) else None) = Inr a"
proof -
  from new have "require_normalized_text E (ra_rationale a) ''rationale'' 1 = Inr (ra_rationale a)"
    by (auto simp: relation_assessment_new_def rbind_Inr_iff require_normalized_text_Inr)
  then have inp: "canonical_semantic_input E (ra_rationale a) ''rationale'' 1 = Inr (ra_rationale a)"
    by (intro semantic_input_normalized) (auto simp: require_normalized_text_Inr)
  from relation_assessment_new_semantics [OF new]
  have sem: "if ra_disposition a \<in> {Coexists, Unrelated}
      then ra_type a = None \<and> ra_id a = None \<and> ra_endpoints a = None
      else \<exists>t x y. edge_ok E a t x y"
    by (auto simp: relation_semantics_Inr_iff split: if_splits)
  show ?thesis
  proof (cases "ra_disposition a \<in> {Coexists, Unrelated}")
    case True
    with sem have "\<lparr>ra_pair = ra_pair a, ra_disposition = ra_disposition a, ra_rationale = ra_rationale a,
        ra_confidence = ra_confidence a, ra_type = None, ra_id = None, ra_endpoints = None\<rparr> = a"
      by (cases a) auto
    with True inp new show ?thesis by (simp add: relation_assessment_create_def)
  next
    case False
    with sem obtain t x y where e: "edge_ok E a t x y" by auto
    then have f: "ra_type a = Some t" "ra_endpoints a = Some (x, y)"
      "ra_id a = Some (stable_content_id E ''rel'' (relation_identity_payload t x y))"
      "persisted_type (ra_disposition a) = Inr t"
      "{x, y} = {cr_revision_id (cp_first (ra_pair a)), cr_revision_id (cp_second (ra_pair a))}"
      "edge_direction (ra_pair a) t x y = Inr ()"
      by (auto simp: edge_ok_def)
    from f have rec: "\<lparr>ra_pair = ra_pair a, ra_disposition = ra_disposition a, ra_rationale = ra_rationale a,
        ra_confidence = ra_confidence a, ra_type = Some t,
        ra_id = Some (stable_content_id E ''rel'' (relation_identity_payload t x y)),
        ra_endpoints = Some (x, y)\<rparr> = a"
      by (cases a) auto
    from f(4) consider "ra_disposition a = Supersedes" "t = RelSupersedes"
      | "ra_disposition a = Contradicts" "t = RelContradicts"
      by (auto simp: persisted_type_Inr)
    then show ?thesis
    proof cases
      case 1
      from f(5) lt consider "x = cr_revision_id (cp_first (ra_pair a))" "y = cr_revision_id (cp_second (ra_pair a))"
        | "x = cr_revision_id (cp_second (ra_pair a))" "y = cr_revision_id (cp_first (ra_pair a))"
        by (auto simp: doubleton_eq_iff)
      then show ?thesis
        using 1 f(2,4) inp rec new less_imp_neq [OF lt] less_imp_neq [OF lt, symmetric]
        by cases (simp_all add: relation_assessment_create_def str_column_def Let_def)
    next
      case 2
      then have "x \<le> y" using f(6) by (simp add: edge_direction_def)
      with f(5) lt have xy: "x = cr_revision_id (cp_first (ra_pair a))" "y = cr_revision_id (cp_second (ra_pair a))"
        by (auto simp: doubleton_eq_iff)
      then show ?thesis
        using 2 f(2,4) inp rec new by (simp add: relation_assessment_create_def Let_def guards.simps)
    qed
  qed
qed

lemma dependency_recreate:
  assumes E: "float_ok E" and new: "dependency_new E a = Inr a"
  shows "dependency_create E (dp_downstream a) (dp_upstream a) (dp_kind a) (dp_spans a) (dp_claims a)
    (dp_rationale a) (dp_confidence a) = Inr a"
proof -
  from new have parts: "require_normalized_text E (dp_rationale a) ''rationale'' 1 = Inr (dp_rationale a)"
    "distinct (map (span_key E) (dp_spans a)) \<and>
      map (span_key E) (dp_spans a) = sort (map (span_key E) (dp_spans a))"
    "distinct (map cr_revision_id (dp_claims a)) \<and>
      map cr_revision_id (dp_claims a) = sort (map cr_revision_id (dp_claims a))"
    by (simp_all add: dependency_new_def rbind_Inr_iff require_normalized_text_Inr)
  from parts(1) have inp: "canonical_semantic_input E (dp_rationale a) ''rationale'' 1 = Inr (dp_rationale a)"
    by (intro semantic_input_normalized) (auto simp: require_normalized_text_Inr)
  from parts(2) have "canonical (span_key E) (dp_spans a)" by (simp only: canonical_keys_iff)
  then have spans: "canonical_spans E (dp_spans a) = dp_spans a"
    using canonical_spans_props [OF E] by (intro canonical_unique [where key = "span_key E"])
  from parts(3) have "canonical cr_revision_id (dp_claims a)" by (simp only: canonical_keys_iff)
  then have claims: "dedupe cr_revision_id
      (binding_clash ''downstream claim revision has conflicting source bindings'') (dp_claims a) = Inr (dp_claims a)"
    by (subst dedupe_Inr_iff) simp_all
  have id: "stable_content_id E ''dep'' (dependency_identity_payload (dv_id (dp_downstream a))
      (cr_revision_id (dp_upstream a)) (dp_kind a)) = dp_id a"
    using dependency_new_id [OF new] by (rule sym)
  have "\<lparr>dp_id = dp_id a, dp_downstream = dp_downstream a, dp_upstream = dp_upstream a, dp_spans = dp_spans a,
      dp_claims = dp_claims a, dp_kind = dp_kind a, dp_rationale = dp_rationale a,
      dp_confidence = dp_confidence a\<rparr> = a"
    by (cases a) simp
  with new show ?thesis
    by (simp only: dependency_create_def inp claims spans id rbind_simps)
qed

lemma replacement_recreate:
  assumes new: "replacement_new E r = Inr r"
  shows "replacement_create E (rp_newer r) (rp_older r) (rp_status r) (rp_rationale r) (rp_confidence r) = Inr r"
proof -
  note iff = new [unfolded replacement_new_Inr_iff]
  have inp: "canonical_semantic_input E (rp_rationale r) ''rationale'' 1 = Inr (rp_rationale r)"
    using iff by (intro semantic_input_normalized) auto
  have id: "stable_content_id E ''rel''
      (replacement_identity_payload (dv_id (rp_newer r)) (dv_id (rp_older r))) = rp_id r"
    using iff by metis
  have "\<lparr>rp_id = rp_id r, rp_newer = rp_newer r, rp_older = rp_older r, rp_status = rp_status r,
      rp_rationale = rp_rationale r, rp_confidence = rp_confidence r\<rparr> = r"
    by (cases r) simp
  with new show ?thesis by (simp only: replacement_create_def inp id rbind_simps)
qed

section \<open>Reading ordered rows back\<close>

lemma sort_rows_canonical:
  assumes "\<And>x. k (f x) = key x" and "canonical key xs"
  shows "sort_key k (map f xs) = map f xs"
  using assms by (intro sort_key_id_if_sorted) (simp add: canonical_def o_def)

lemma filter_group:
  assumes "distinct (map key xs)" and "\<And>y r. y \<in> set xs \<Longrightarrow> r \<in> set (g y) \<Longrightarrow> gid r = key y"
    and "x \<in> set xs"
  shows "filter (\<lambda>r. gid r = key x) (concat (map g xs)) = g x"
  using assms
proof (induction xs)
  case (Cons y ys)
  have other: "filter (\<lambda>r. gid r = key x) (concat (map g zs)) = []"
    if "key x \<notin> key ` set zs" "set zs \<subseteq> set (y # ys)" for zs
  proof -
    have "gid r \<noteq> key x" if "r \<in> set (concat (map g zs))" for r
    proof -
      from that obtain z where "z \<in> set zs" "r \<in> set (g z)" by auto
      with \<open>key x \<notin> key ` set zs\<close> \<open>set zs \<subseteq> set (y # ys)\<close> Cons.prems(2) [of z r] show ?thesis by auto
    qed
    then show ?thesis by (simp add: filter_empty_conv)
  qed
  show ?case
  proof (cases "x = y")
    case True
    have "filter (\<lambda>r. gid r = key x) (g y) = g y"
      using Cons.prems(2) [of y] by (auto simp: filter_id_conv True)
    moreover have "filter (\<lambda>r. gid r = key x) (concat (map g ys)) = []"
      using Cons.prems(1) True by (intro other) auto
    ultimately show ?thesis by (simp add: True)
  next
    case False
    with Cons.prems(3) have x: "x \<in> set ys" by simp
    then have "key x \<in> key ` set ys" by (rule imageI)
    with Cons.prems(1) have "key x \<noteq> key y" by auto
    then have "filter (\<lambda>r. gid r = key x) (g y) = []"
      using Cons.prems(2) [of y] by (auto simp: filter_empty_conv)
    with Cons.IH Cons.prems x show ?thesis by simp
  qed
qed simp

lemma captured_group:
  assumes "distinct (map key xs)" and "\<And>y r. y \<in> set xs \<Longrightarrow> r \<in> set (g y) \<Longrightarrow> gid r = key y"
    and "x \<in> set xs" and "sorted (map k (g x))"
  shows "filter (\<lambda>r. gid r = key x) (sort_key k (concat (map g xs))) = g x"
  using filter_group [of key xs g gid x] assms by (simp add: filter_sort sort_key_id_if_sorted)

lemma sorted_enumerate_pairs:
  "sorted (map (\<lambda>(n, x). n) (enumerate m xs))"
proof -
  have "map (\<lambda>(n, x). n) (enumerate m xs) = [m..<m + length xs]"
    by (simp add: enumerate_eq_zip split_def)
  then show ?thesis by simp
qed

lemma rmap_map: "rmap f (map g xs) = rmap (\<lambda>x. f (g x)) xs"
  by (induction xs) simp_all

lemma checks_Inr [simp]: "checks gs = Inr u \<longleftrightarrow> list_all fst gs"
  by (simp add: checks_def)

lemma require_contiguous_upt [simp]: "require_contiguous [0..<n] = Inr ()"
  by (simp add: require_contiguous_def)

lemma map_enumerate: "map (\<lambda>(n, x). f x) (enumerate m xs) = map f xs"
  by (induction xs arbitrary: m) simp_all

lemma map_enumerate_index: "map (\<lambda>(n, x). n) (enumerate m xs) = [m..<m + length xs]"
  by (simp add: split_def)

lemma map_enumerate_pair: "map (\<lambda>x. (k, fst x)) (enumerate m xs) = map (Pair k) [m..<m + length xs]"
proof -
  have "map (\<lambda>x. (k, fst x)) (enumerate m xs) = map (Pair k) (map fst (enumerate m xs))"
    by (simp only: map_map o_def)
  then show ?thesis by simp
qed

lemma evidence_rows_owner: "r \<in> set (evidence_rows i es) \<Longrightarrow> er_owner r = i"
  by (auto simp: evidence_rows_def)

lemma evidence_rows_ordinals: "map er_ordinal (evidence_rows i es) = [0..<length es]"
proof -
  have "map er_ordinal (evidence_rows i es) = map (\<lambda>(n, x). n) (enumerate 0 es)"
    by (simp add: evidence_rows_def split_def o_def)
  then show ?thesis by (simp add: map_enumerate_index)
qed

lemma evidence_rows_sorted: "sorted (map (\<lambda>e. (er_owner e, er_ordinal e)) (evidence_rows i es))"
proof -
  have "map (\<lambda>e. (er_owner e, er_ordinal e)) (evidence_rows i es) = map (Pair i) (map er_ordinal (evidence_rows i es))"
    using evidence_rows_owner by simp
  also have "\<dots> = map (Pair i) [0..<length es]" by (simp only: evidence_rows_ordinals)
  finally show ?thesis by (simp add: sorted_map)
qed

lemma decode_evidence_row:
  assumes "evidence_revalidate E e = Inr e"
  shows "decode_evidence E \<lparr>er_owner = i, er_ordinal = n, er_kind = fst (evidence_kind e),
    er_version = snd (evidence_kind e), er_payload = e\<rparr> = Inr e"
  using assms by (cases e) (simp_all add: decode_evidence_def del: evidence_revalidate.simps)

lemma decode_evidence_rows:
  assumes "rmap (evidence_revalidate E) es = Inr es"
  shows "rmap (decode_evidence E) (evidence_rows i es) = Inr es"
proof -
  from assms have all: "\<forall>e \<in> set es. evidence_revalidate E e = Inr e" by (simp add: rmap_id_iff)
  have "rmap (\<lambda>(n, e). decode_evidence E \<lparr>er_owner = i, er_ordinal = n, er_kind = fst (evidence_kind e),
    er_version = snd (evidence_kind e), er_payload = e\<rparr>) (enumerate m es) = Inr es" for m
    using all by (induction es arbitrary: m) (simp_all add: decode_evidence_row)
  then show ?thesis by (simp add: evidence_rows_def rmap_map split_def)
qed

section \<open>Documents and claims\<close>

definition document_dates_valid :: "document_version \<Rightarrow> bool" where
  "document_dates_valid d \<longleftrightarrow> valid_date (dv_from d) \<and> pred_option valid_date (dv_to d)"

definition claim_dates_valid :: "claim_revision \<Rightarrow> bool" where
  "claim_dates_valid c \<longleftrightarrow> valid_date (cr_from c) \<and> pred_option valid_date (cr_to c)"

lemma hydrate_document_row_of:
  assumes "document_dates_valid d"
  shows "hydrate_document E (document_row_of d) = lift (document_version_new E d)"
proof -
  have "\<lparr>dv_id = dv_id d, dv_document_id = dv_document_id d, dv_family = dv_family d,
      dv_version_label = dv_version_label d, dv_source_path = dv_source_path d,
      dv_source_sha256 = dv_source_sha256 d, dv_from = dv_from d, dv_to = dv_to d, dv_role = dv_role d,
      dv_authority = dv_authority d\<rparr> = d"
    by (cases d) simp
  then show ?thesis
    using assms unfolding hydrate_document_def document_row_of_def document_dates_valid_def
    by (simp only: document_row.select_convs date_text.decode_encode date_text.decode_encode_column
        role_text.decode_encode authority_text.decode_encode of_option_simps rbind_simps checks_def
        guards.simps simp_thms if_True)
qed

lemma hydrate_document_row:
  assumes "document_version_wf E d" and "document_dates_valid d"
  shows "hydrate_document E (document_row_of d) = Inr d"
  using assms by (simp add: hydrate_document_row_of document_version_wf_def)

lemma hydrate_claim_row:
  assumes wf: "claim_revision_wf E c" and dates: "claim_dates_valid c"
    and identity: "dict_get ir_id (rw_identities rw) (cr_identity_id c) = Some (identity_row_of c)"
    and document: "dict_get dv_id documents (dv_id (cr_document c)) = Some (cr_document c)"
    and evidence: "filter (\<lambda>e. er_owner e = cr_revision_id c) (rw_claim_evidence rw) =
      evidence_rows (cr_revision_id c) (cs_evidence (cr_source c))"
    and scopes: "filter (\<lambda>x. fst x = cr_revision_id c) (rw_scopes rw) = map (Pair (cr_revision_id c)) (cr_scopes c)"
  shows "hydrate_claim E rw documents (claim_row_of c) = Inr c"
proof -
  from wf have c: "claim_revision_new E c = Inr c" and s: "claim_source_wf E (cr_source c)"
    by (simp_all add: claim_revision_wf_iff)
  from s have es: "rmap (evidence_revalidate E) (cs_evidence (cr_source c)) = Inr (cs_evidence (cr_source c))"
    and new: "claim_source_new (cr_source c) = Inr (cr_source c)"
    by (simp_all add: claim_source_wf_def claim_source_revalidate_Inr)
  have src: "\<lparr>cs_note_path = cs_note_path (cr_source c), cs_note_sha256 = cs_note_sha256 (cr_source c),
      cs_claim_id = cs_claim_id (cr_source c), cs_evidence = cs_evidence (cr_source c)\<rparr> = cr_source c"
    by (cases "cr_source c") simp
  have row: "kr_id (claim_row_of c) = cr_revision_id c" "kr_identity_id (claim_row_of c) = cr_identity_id c"
    "kr_namespace (claim_row_of c) = ''mastervault.claim-revision.v1''"
    "kr_statement (claim_row_of c) = cr_statement c"
    "kr_note_path (claim_row_of c) = cs_note_path (cr_source c)"
    "kr_note_sha256 (claim_row_of c) = cs_note_sha256 (cr_source c)"
    "kr_from (claim_row_of c) = isoformat (cr_from c)" "kr_to (claim_row_of c) = map_option isoformat (cr_to c)"
    by (simp_all add: claim_row_of_def)
  have idr: "ir_namespace (identity_row_of c) = ''mastervault.claim-identity.v1''"
    "ir_document_version_id (identity_row_of c) = dv_id (cr_document c)"
    "ir_source_claim_id (identity_row_of c) = cs_claim_id (cr_source c)"
    by (simp_all add: identity_row_of_def)
  have dt: "date_fromisoformat (isoformat (cr_from c)) = Some (cr_from c)"
    "decode_column date_fromisoformat (map_option isoformat (cr_to c)) = Some (cr_to c)"
    using dates by (simp_all add: claim_dates_valid_def date_text.decode_encode date_text.decode_encode_column)
  have snds: "map snd (map (Pair (cr_revision_id c)) (cr_scopes c)) = cr_scopes c" by (simp add: o_def)
  have "hydrate_claim E rw documents (claim_row_of c) =
      rbind (checks [(True, Corruption ''claim stable ID or namespace is invalid'')]) (\<lambda>_. Inr c)"
    unfolding hydrate_claim_def Let_def row identity of_option_simps rbind_simps idr document evidence
      evidence_rows_ordinals require_contiguous_upt decode_evidence_rows [OF es] src new lift_simps dt scopes
      snds claim_revision_recreate [OF c]
    by simp
  then show ?thesis by (simp add: checks_def guards.simps)
qed

text \<open>The dictionary comprehension keyed by the claim identity.\<close>

lemma dict_of_props:
  "distinct (map fst d) \<Longrightarrow> (\<forall>(k, x) \<in> set d. k = key x) \<Longrightarrow>
     distinct (map fst (dict_of key xs d)) \<and> (\<forall>(k, x) \<in> set (dict_of key xs d). k = key x) \<and>
     fst ` set (dict_of key xs d) = fst ` set d \<union> key ` set xs \<and>
     snd ` set (dict_of key xs d) \<subseteq> snd ` set d \<union> set xs"
proof (induction xs arbitrary: d)
  case (Cons x xs)
  let ?u = "AList.update (key x) x d"
  have keys: "fst ` set ?u = insert (key x) (fst ` set d)"
    by (metis dom_map_of_conv_image_fst update_conv' dom_fun_upd option.distinct(1))
  have dist: "distinct (map fst ?u)" using Cons.prems(1) by (rule distinct_update)
  have mem: "e = (key x, x) \<or> e \<in> set d" if "e \<in> set ?u" for e
    using that by (induction d) (auto split: if_splits)
  have "\<forall>(k, y) \<in> set ?u. k = key y" using mem Cons.prems(2) by fastforce
  note ih = Cons.IH [OF dist this]
  have "snd ` set ?u \<subseteq> insert x (snd ` set d)" using mem by force
  then have "snd ` set ?u \<union> set xs \<subseteq> snd ` set d \<union> set (x # xs)" by auto
  then have "snd ` set (dict_of key xs ?u) \<subseteq> snd ` set d \<union> set (x # xs)"
    using ih by (meson subset_trans)
  moreover have "fst ` set (dict_of key xs ?u) = fst ` set d \<union> key ` set (x # xs)"
    using ih keys by simp
  ultimately show ?case using ih by simp
qed auto

lemma identity_revisions_props:
  "distinct (map cr_identity_id (identity_revisions cs))"
  "cr_identity_id ` set (identity_revisions cs) = cr_identity_id ` set cs"
  "set (identity_revisions cs) \<subseteq> set cs"
proof -
  let ?d = "dict_of cr_identity_id cs []"
  have p: "distinct (map fst ?d)" "\<forall>(k, x) \<in> set ?d. k = cr_identity_id x"
    "fst ` set ?d = cr_identity_id ` set cs" "snd ` set ?d \<subseteq> set cs"
    using dict_of_props [of "[]" cr_identity_id cs] by auto
  have k: "map cr_identity_id (identity_revisions cs) = map fst ?d"
    using p(2) by (auto simp: identity_revisions_def)
  show "distinct (map cr_identity_id (identity_revisions cs))" unfolding k by (rule p(1))
  have "cr_identity_id ` set (identity_revisions cs) = set (map cr_identity_id (identity_revisions cs))" by simp
  also have "\<dots> = cr_identity_id ` set cs" unfolding k using p(3) by simp
  finally show "cr_identity_id ` set (identity_revisions cs) = cr_identity_id ` set cs" .
  show "set (identity_revisions cs) \<subseteq> set cs" using p(4) by (simp add: identity_revisions_def)
qed

section \<open>Relations, dependencies, replacements and constraints\<close>

lemma hydrate_relation_row:
  assumes wf: "relation_assessment_wf E a"
    and pair: "dict_get pr_id (rw_pairs rw) (cp_id (ra_pair a)) = Some (pair_row_of a)"
    and ends: "dict_get cr_revision_id claims (cr_revision_id (cp_first (ra_pair a))) = Some (cp_first (ra_pair a))"
      "dict_get cr_revision_id claims (cr_revision_id (cp_second (ra_pair a))) = Some (cp_second (ra_pair a))"
  shows "hydrate_relation E rw claims (relation_row_of a) = Inr a"
proof -
  from wf have new: "relation_assessment_new E a = Inr a" and p: "claim_pair_new E (ra_pair a) = Inr (ra_pair a)"
    by (simp_all add: relation_assessment_wf_iff claim_pair_wf_iff)
  from p have lt: "cr_revision_id (cp_first (ra_pair a)) < cr_revision_id (cp_second (ra_pair a))"
    by (simp add: claim_pair_new_Inr_iff)
  have row: "rr_pair_id (relation_row_of a) = cp_id (ra_pair a)"
    "rr_disposition (relation_row_of a) = disposition_value (ra_disposition a)"
    "rr_rationale (relation_row_of a) = ra_rationale a" "rr_confidence (relation_row_of a) = ra_confidence a"
    "rr_type (relation_row_of a) = map_option relation_type_value (ra_type a)" "rr_id (relation_row_of a) = ra_id a"
    "rr_first (relation_row_of a) = map_option fst (ra_endpoints a)"
    "rr_second (relation_row_of a) = map_option snd (ra_endpoints a)"
    "pr_left (pair_row_of a) = cr_revision_id (cp_first (ra_pair a))"
    "pr_right (pair_row_of a) = cr_revision_id (cp_second (ra_pair a))"
    "pr_namespace (pair_row_of a) = ''mastervault.claim-pair.v1''"
    by (simp_all add: relation_row_of_def pair_row_of_def)
  have endpoints: "(if map_option fst (ra_endpoints a) = None then None
      else Some (str_column (map_option fst (ra_endpoints a)), str_column (map_option snd (ra_endpoints a)))) =
    ra_endpoints a"
    by (cases "ra_endpoints a") (simp_all add: str_column_def)
  have disp: "disposition_of (disposition_value (ra_disposition a)) = Some (ra_disposition a)"
    by (simp add: disposition_text.decode_encode)
  show ?thesis
    unfolding hydrate_relation_def Let_def row pair of_option_simps rbind_simps ends option.case prod.case
      claim_pair_recreate [OF p] lift_simps disp relation_recreate [OF new lt] endpoints
    by (simp add: checks_def guards.simps)
qed

lemma hydrate_span_row:
  assumes wf: "document_span_wf E s"
    and evidence: "filter (\<lambda>r. (er_owner (snd r), fst r) = (i, n)) (rw_span_evidence rw) =
      map (Pair n) (evidence_rows i (sp_evidence s))"
  shows "hydrate_span E rw (span_row_of i (n, s)) = Inr s"
proof -
  from wf have es: "rmap (evidence_revalidate E) (sp_evidence s) = Inr (sp_evidence s)"
    and new: "document_span_new s = Inr s"
    by (simp_all add: document_span_wf_iff)
  have "filter (\<lambda>(m, e). er_owner e = i \<and> m = n) (rw_span_evidence rw) =
      filter (\<lambda>r. (er_owner (snd r), fst r) = (i, n)) (rw_span_evidence rw)"
    by (rule filter_cong) auto
  then have sel: "map snd (filter (\<lambda>(m, e). er_owner e = i \<and> m = n) (rw_span_evidence rw)) =
      evidence_rows i (sp_evidence s)"
    using evidence by (simp add: o_def)
  have row: "sr_dependency_id (span_row_of i (n, s)) = i" "sr_ordinal (span_row_of i (n, s)) = n"
    "sr_document_version_id (span_row_of i (n, s)) = sp_document_version_id s"
    "sr_note_path (span_row_of i (n, s)) = sp_note_path s"
    "sr_note_sha256 (span_row_of i (n, s)) = sp_note_sha256 s" "sr_quote (span_row_of i (n, s)) = sp_quote s"
    "sr_start_char (span_row_of i (n, s)) = sp_start_char s" "sr_end_char (span_row_of i (n, s)) = sp_end_char s"
    by (simp_all add: span_row_of_def)
  have rec: "\<lparr>sp_document_version_id = sp_document_version_id s, sp_note_path = sp_note_path s,
      sp_note_sha256 = sp_note_sha256 s, sp_quote = sp_quote s, sp_start_char = sp_start_char s,
      sp_end_char = sp_end_char s, sp_evidence = sp_evidence s\<rparr> = s"
    by (cases s) simp
  show ?thesis
    unfolding hydrate_span_def Let_def row sel evidence_rows_ordinals require_contiguous_upt rbind_simps
      decode_evidence_rows [OF es] rec new lift_simps ..
qed

lemma hydrate_dependency_row:
  assumes E: "float_ok E" and wf: "dependency_wf E p"
    and ends: "dict_get dv_id documents (dv_id (dp_downstream p)) = Some (dp_downstream p)"
      "dict_get cr_revision_id claims (cr_revision_id (dp_upstream p)) = Some (dp_upstream p)"
    and spans: "filter (\<lambda>s. sr_dependency_id s = dp_id p) (rw_spans rw) =
      map (span_row_of (dp_id p)) (enumerate 0 (dp_spans p))"
    and evidence: "\<And>n s. (n, s) \<in> set (enumerate 0 (dp_spans p)) \<Longrightarrow>
      filter (\<lambda>r. (er_owner (snd r), fst r) = (dp_id p, n)) (rw_span_evidence rw) =
        map (Pair n) (evidence_rows (dp_id p) (sp_evidence s))"
    and claim_rows: "filter (\<lambda>x. fst x = dp_id p) (rw_dependency_claims rw) =
      map (\<lambda>c. (dp_id p, cr_revision_id c)) (dp_claims p)"
    and claims: "\<And>c. c \<in> set (dp_claims p) \<Longrightarrow> dict_get cr_revision_id claims (cr_revision_id c) = Some c"
  shows "hydrate_dependency E rw documents claims (dependency_row_of p) = Inr p"
proof -
  from wf have new: "dependency_new E p = Inr p" and sw: "\<And>s. s \<in> set (dp_spans p) \<Longrightarrow> document_span_wf E s"
    by (simp_all add: dependency_wf_iff)
  have ords: "map sr_ordinal (map (span_row_of (dp_id p)) (enumerate 0 (dp_spans p))) = [0..<length (dp_spans p)]"
    by (simp add: o_def span_row_of_def split_def)
  have hyd: "rmap (hydrate_span E rw) (map (span_row_of (dp_id p)) (enumerate 0 (dp_spans p))) = Inr (dp_spans p)"
  proof -
    have "rmap (\<lambda>ns. hydrate_span E rw (span_row_of (dp_id p) ns)) xs = Inr (map snd xs)"
      if "set xs \<subseteq> set (enumerate 0 (dp_spans p))" for xs
      using that
    proof (induction xs)
      case (Cons ns xs)
      obtain n s where ns: "ns = (n, s)" by force
      with Cons.prems have mem: "(n, s) \<in> set (enumerate 0 (dp_spans p))" by simp
      then have "s \<in> set (dp_spans p)" by (auto simp: in_set_enumerate_eq)
      from hydrate_span_row [OF sw [OF this] evidence [OF mem]] Cons show ?case by (simp add: ns)
    qed simp
    from this [of "enumerate 0 (dp_spans p)"] show ?thesis by (simp add: rmap_map)
  qed
  have cl: "rmap (\<lambda>i. of_option (Corruption ''dependency binding has an absent claim root'')
        (dict_get cr_revision_id claims i)) (map snd (map (\<lambda>c. (dp_id p, cr_revision_id c)) (dp_claims p))) =
      Inr (dp_claims p)"
    using claims by (simp add: rmap_map rmap_id_iff)
  have row: "dw_id (dependency_row_of p) = dp_id p" "dw_downstream (dependency_row_of p) = dv_id (dp_downstream p)"
    "dw_relation_type (dependency_row_of p) = relation_type_value RelDependsOn"
    "dw_upstream (dependency_row_of p) = cr_revision_id (dp_upstream p)"
    "dw_kind (dependency_row_of p) = dependency_kind_value (dp_kind p)"
    "dw_rationale (dependency_row_of p) = dp_rationale p" "dw_confidence (dependency_row_of p) = dp_confidence p"
    by (simp_all add: dependency_row_of_def)
  have kind: "dependency_kind_of (dependency_kind_value (dp_kind p)) = Some (dp_kind p)"
    by (simp add: dependency_kind_text.decode_encode)
  show ?thesis
    unfolding hydrate_dependency_def Let_def row ends option.case prod.case spans ords require_contiguous_upt
      rbind_simps hyd claim_rows cl kind of_option_simps dependency_recreate [OF E new] lift_simps
    by (simp add: checks_def guards.simps)
qed

lemma hydrate_replacement_row:
  assumes wf: "replacement_wf E r"
    and ends: "dict_get dv_id documents (dv_id (rp_newer r)) = Some (rp_newer r)"
      "dict_get dv_id documents (dv_id (rp_older r)) = Some (rp_older r)"
  shows "hydrate_replacement E documents (replacement_row_of r) = Inr r"
proof -
  from wf have new: "replacement_new E r = Inr r" by (simp add: replacement_wf_iff)
  have row: "pl_id (replacement_row_of r) = rp_id r" "pl_newer (replacement_row_of r) = dv_id (rp_newer r)"
    "pl_older (replacement_row_of r) = dv_id (rp_older r)"
    "pl_status (replacement_row_of r) = constraint_status_value (rp_status r)"
    "pl_rationale (replacement_row_of r) = rp_rationale r" "pl_confidence (replacement_row_of r) = rp_confidence r"
    "pl_namespace (replacement_row_of r) = ''mastervault.document-replacement.v1''"
    "pl_relation_type (replacement_row_of r) = relation_type_value RelSupersedes"
    by (simp_all add: replacement_row_of_def)
  have st: "status_of (constraint_status_value (rp_status r)) = Some (rp_status r)"
    by (simp add: status_text.decode_encode)
  show ?thesis
    unfolding hydrate_replacement_def row ends option.case prod.case st of_option_simps rbind_simps
      replacement_recreate [OF new] lift_simps
    by (simp add: checks_def guards.simps)
qed

lemma basis_rows_fields:
  "map br_ordinal (basis_rows_of c) = [0..<length (tc_basis c)]"
  "map br_relation_id (basis_rows_of c) = tc_basis c"
  "b \<in> set (basis_rows_of c) \<Longrightarrow> br_constraint_id b = tc_id c \<and>
     br_target_kind b = target_kind_value (tt_kind (tc_target c))"
  by (auto simp: basis_rows_of_def o_def split_def)

lemma hydrate_constraint_row:
  assumes wf: "temporal_constraint_wf E c" and dates: "valid_date (tc_bound c)"
    and target: "tt_id (tc_target c) \<in> (if tt_kind (tc_target c) = DocumentTarget then dv_id ` set documents
      else cr_revision_id ` set claims)"
    and bases: "filter (\<lambda>b. br_constraint_id b = tc_id c) (rw_bases rw) = basis_rows_of c"
  shows "hydrate_constraint E rw documents claims (constraint_row_of c) = Inr c"
proof -
  from wf have t: "temporal_target_new (tc_target c) = Inr (tc_target c)"
    and new: "temporal_constraint_new E c = Inr c"
    by (simp_all add: temporal_constraint_wf_iff)
  have row: "tr_id (constraint_row_of c) = tc_id c"
    "tr_target_kind (constraint_row_of c) = target_kind_value (tt_kind (tc_target c))"
    "tr_bound (constraint_row_of c) = isoformat (tc_bound c)"
    "tr_status (constraint_row_of c) = constraint_status_value (tc_status c)"
    "tr_rationale (constraint_row_of c) = tc_rationale c"
    "tr_namespace (constraint_row_of c) = ''mastervault.temporal-constraint.v1''"
    "tr_resolver (constraint_row_of c) = ''temporal-resolution-v1''"
    by (simp_all add: constraint_row_of_def)
  have k: "target_kind_of (target_kind_value (tt_kind (tc_target c))) = Some (tt_kind (tc_target c))"
    by (simp add: target_kind_text.decode_encode)
  have target_id: "(if tt_kind (tc_target c) = DocumentTarget then
      (let i = str_column (tr_target_document (constraint_row_of c)) in
       rbind (checks [(tr_target_claim (constraint_row_of c) = None \<and> i \<in> dv_id ` set documents,
         Corruption ''temporal document target is invalid'')]) (\<lambda>_. Inr i))
    else
      (let i = str_column (tr_target_claim (constraint_row_of c)) in
       rbind (checks [(tr_target_document (constraint_row_of c) = None \<and> i \<in> cr_revision_id ` set claims,
         Corruption ''temporal claim target is invalid'')]) (\<lambda>_. Inr i))) = Inr (tt_id (tc_target c))"
    using target
    by (cases "tt_kind (tc_target c)")
      (simp_all add: constraint_row_of_def str_column_def checks_def guards.simps)
  have rec: "\<lparr>tt_kind = tt_kind (tc_target c), tt_id = tt_id (tc_target c)\<rparr> = tc_target c"
    "\<lparr>tc_id = tc_id c, tc_target = tc_target c, tc_bound = tc_bound c, tc_basis = tc_basis c,
      tc_status = tc_status c, tc_rationale = tc_rationale c\<rparr> = c"
    by (cases "tc_target c", simp) (cases c, simp)
  have d: "date_fromisoformat (isoformat (tc_bound c)) = Some (tc_bound c)"
    using dates by (rule date_text.decode_encode)
  have st: "status_of (constraint_status_value (tc_status c)) = Some (tc_status c)"
    by (simp add: status_text.decode_encode)
  have kinds: "checks [(list_all (\<lambda>b. br_target_kind b = target_kind_value (tt_kind (tc_target c)))
      (basis_rows_of c), Corruption ''temporal basis target kind is inconsistent'')] = Inr ()"
    using basis_rows_fields(3) by (auto simp: list_all_iff)
  have ns: "checks [(True \<and> True, invalid_text)] = Inr ()" by simp
  show ?thesis
    unfolding hydrate_constraint_def row k of_option_simps rbind_simps target_id
    unfolding Let_def bases basis_rows_fields(1,2) require_contiguous_upt rbind_simps kinds
    unfolding rec(1) t lift_simps d st of_option_simps rbind_simps rec(2) new
    by (simp add: checks_def guards.simps)
qed

section \<open>The captured tables of one aggregate\<close>

definition aggregate_dates_valid :: "aggregate \<Rightarrow> bool" where
  "aggregate_dates_valid a \<longleftrightarrow> list_all document_dates_valid (ag_documents a) \<and>
     list_all claim_dates_valid (ag_claims a) \<and> list_all (\<lambda>c. valid_date (tc_bound c)) (ag_constraints a)"

text \<open>One claim identity per document and local key: true unless two identity payloads collide.\<close>

definition identities_functional :: "aggregate \<Rightarrow> bool" where
  "identities_functional a \<longleftrightarrow> (\<forall>x \<in> set (ag_claims a). \<forall>y \<in> set (ag_claims a).
     cr_identity_id x = cr_identity_id y \<longrightarrow> claim_identity_payload_of x = claim_identity_payload_of y)"

lemma identities_functional_or_collision:
  assumes "float_ok E" and "aggregate_wf E a"
  shows "identities_functional a \<or> (\<exists>x \<in> set (ag_claims a). \<exists>y \<in> set (ag_claims a).
     hash_collision E (claim_identity_payload_of x) (claim_identity_payload_of y))"
  using claim_identity_id_inj [OF assms(1)] aggregate_parts_wf(4) [OF assms(2)]
  unfolding identities_functional_def claim_revision_wf_iff by blast

lemma captured_identity:
  assumes "identities_functional a" and c: "c \<in> set (ag_claims a)"
  shows "dict_get ir_id (rw_identities (capture_rows (aggregate_rows a))) (cr_identity_id c) = Some (identity_row_of c)"
proof -
  let ?is = "identity_revisions (ag_claims a)"
  let ?rs = "rw_identities (capture_rows (aggregate_rows a))"
  have rs: "?rs = sort_key ir_id (map identity_row_of ?is)"
    by (simp add: capture_rows_def aggregate_rows_def)
  have key: "map ir_id (map identity_row_of ?is) = map cr_identity_id ?is"
    by (simp add: identity_row_of_def)
  have "distinct (map ir_id (map identity_row_of ?is))"
    unfolding key by (rule identity_revisions_props(1))
  then have inj: "key_inj ir_id ?rs"
    unfolding rs key_inj_inj_on by (simp add: distinct_map del: map_map)
  have "cr_identity_id c \<in> cr_identity_id ` set ?is"
    using c identity_revisions_props(2) by blast
  then obtain x where x: "x \<in> set ?is" "cr_identity_id x = cr_identity_id c" by force
  then have "x \<in> set (ag_claims a)" using identity_revisions_props(3) by blast
  with assms x(2) have "claim_identity_payload_of x = claim_identity_payload_of c"
    unfolding identities_functional_def by blast
  with x(2) have "identity_row_of x = identity_row_of c"
    by (simp add: identity_row_of_def claim_identity_payload_of_def)
  with x(1) have "identity_row_of c \<in> set ?rs" unfolding rs by (metis imageI list.set_map set_sort)
  moreover have "ir_id (identity_row_of c) = cr_identity_id c" by (simp add: identity_row_of_def)
  ultimately show ?thesis using dict_get_Some_iff [OF inj] by blast
qed

lemma captured_canonical:
  assumes "aggregate_wf E a"
  shows "rw_documents (capture_rows (aggregate_rows a)) = map document_row_of (ag_documents a)"
    and "rw_claims (capture_rows (aggregate_rows a)) = map claim_row_of (ag_claims a)"
    and "rw_pairs (capture_rows (aggregate_rows a)) = map pair_row_of (ag_graph a)"
    and "rw_relations (capture_rows (aggregate_rows a)) = map relation_row_of (ag_graph a)"
    and "rw_dependencies (capture_rows (aggregate_rows a)) = map dependency_row_of (ag_dependencies a)"
    and "rw_replacements (capture_rows (aggregate_rows a)) = map replacement_row_of (ag_replacements a)"
    and "rw_constraints (capture_rows (aggregate_rows a)) = map constraint_row_of (ag_constraints a)"
proof -
  note can = aggregate_parts_canonical [OF assms]
  show "rw_documents (capture_rows (aggregate_rows a)) = map document_row_of (ag_documents a)"
    using sort_rows_canonical [OF _ can(3), of dr_id document_row_of]
    by (simp add: capture_rows_def aggregate_rows_def document_row_of_def)
  show "rw_claims (capture_rows (aggregate_rows a)) = map claim_row_of (ag_claims a)"
    using sort_rows_canonical [OF _ can(4), of kr_id claim_row_of]
    by (simp add: capture_rows_def aggregate_rows_def claim_row_of_def)
  show "rw_pairs (capture_rows (aggregate_rows a)) = map pair_row_of (ag_graph a)"
    using sort_rows_canonical [OF _ can(5), of pr_id pair_row_of]
    by (simp add: capture_rows_def aggregate_rows_def pair_row_of_def ra_pair_id_def)
  show "rw_relations (capture_rows (aggregate_rows a)) = map relation_row_of (ag_graph a)"
    using sort_rows_canonical [OF _ can(5), of rr_pair_id relation_row_of]
    by (simp add: capture_rows_def aggregate_rows_def relation_row_of_def ra_pair_id_def)
  show "rw_dependencies (capture_rows (aggregate_rows a)) = map dependency_row_of (ag_dependencies a)"
    using sort_rows_canonical [OF _ can(6), of dw_id dependency_row_of]
    by (simp add: capture_rows_def aggregate_rows_def dependency_row_of_def)
  show "rw_replacements (capture_rows (aggregate_rows a)) = map replacement_row_of (ag_replacements a)"
    using sort_rows_canonical [OF _ can(1), of pl_id replacement_row_of]
    by (simp add: capture_rows_def aggregate_rows_def replacement_row_of_def)
  show "rw_constraints (capture_rows (aggregate_rows a)) = map constraint_row_of (ag_constraints a)"
    using sort_rows_canonical [OF _ can(2), of tr_id constraint_row_of]
    by (simp add: capture_rows_def aggregate_rows_def constraint_row_of_def)
qed

lemma canonical_distinct_keys: "canonical key xs \<Longrightarrow> distinct (map key xs)"
  by (simp add: canonical_def)

lemma captured_claim_children:
  assumes wf: "aggregate_wf E a" and c: "c \<in> set (ag_claims a)"
  shows "filter (\<lambda>e. er_owner e = cr_revision_id c) (rw_claim_evidence (capture_rows (aggregate_rows a))) =
      evidence_rows (cr_revision_id c) (cs_evidence (cr_source c))"
    and "filter (\<lambda>x. fst x = cr_revision_id c) (rw_scopes (capture_rows (aggregate_rows a))) =
      map (Pair (cr_revision_id c)) (cr_scopes c)"
proof -
  note dist = canonical_distinct_keys [OF aggregate_parts_canonical(4) [OF wf]]
  show "filter (\<lambda>e. er_owner e = cr_revision_id c) (rw_claim_evidence (capture_rows (aggregate_rows a))) =
      evidence_rows (cr_revision_id c) (cs_evidence (cr_source c))"
    using captured_group [OF dist, of "\<lambda>c. evidence_rows (cr_revision_id c) (cs_evidence (cr_source c))"
        er_owner c "\<lambda>e. (er_owner e, er_ordinal e)"] c evidence_rows_owner evidence_rows_sorted
    by (simp add: capture_rows_def aggregate_rows_def)
  from aggregate_parts_wf(4) [OF wf c] have "sorted (cr_scopes c)"
    by (simp add: claim_revision_wf_iff claim_revision_new_Inr_iff)
  then have "sorted (map (\<lambda>x. x) (map (Pair (cr_revision_id c)) (cr_scopes c)))"
    by (simp add: sorted_map sorted_wrt_mono_rel)
  moreover have "fst r = cr_revision_id y" if "r \<in> set (map (Pair (cr_revision_id y)) (cr_scopes y))" for y r
    using that by auto
  ultimately have "filter (\<lambda>r. fst r = cr_revision_id c)
      (sort (concat (map (\<lambda>c. map (Pair (cr_revision_id c)) (cr_scopes c)) (ag_claims a)))) =
      map (Pair (cr_revision_id c)) (cr_scopes c)"
    by (intro captured_group [OF dist _ c])
  then show "filter (\<lambda>x. fst x = cr_revision_id c) (rw_scopes (capture_rows (aggregate_rows a))) =
      map (Pair (cr_revision_id c)) (cr_scopes c)"
    by (simp add: capture_rows_def aggregate_rows_def)
qed

lemma captured_bases:
  assumes wf: "aggregate_wf E a" and c: "c \<in> set (ag_constraints a)"
  shows "filter (\<lambda>b. br_constraint_id b = tc_id c) (rw_bases (capture_rows (aggregate_rows a))) = basis_rows_of c"
proof -
  note dist = canonical_distinct_keys [OF aggregate_parts_canonical(2) [OF wf]]
  have "map (\<lambda>b. (br_constraint_id b, br_ordinal b)) (basis_rows_of c) =
      map (Pair (tc_id c)) (map br_ordinal (basis_rows_of c))"
    using basis_rows_fields(3) by simp
  then have "sorted (map (\<lambda>b. (br_constraint_id b, br_ordinal b)) (basis_rows_of c))"
    by (simp add: basis_rows_fields(1) sorted_map del: map_map)
  then show ?thesis
    using captured_group [OF dist, of basis_rows_of br_constraint_id c
        "\<lambda>b. (br_constraint_id b, br_ordinal b)"] c basis_rows_fields(3)
    by (simp add: capture_rows_def aggregate_rows_def)
qed

text \<open>One entry per span, with its owner and its position.\<close>

definition owned_spans :: "dependency list \<Rightarrow> (string \<times> nat \<times> document_span) list" where
  "owned_spans ps = concat (map (\<lambda>p. map (\<lambda>(n, s). (dp_id p, n, s)) (enumerate 0 (dp_spans p))) ps)"

definition owned_key :: "string \<times> nat \<times> document_span \<Rightarrow> string \<times> nat" where
  "owned_key t = (fst t, fst (snd t))"

definition owned_evidence :: "string \<times> nat \<times> document_span \<Rightarrow> (nat \<times> evidence_row) list" where
  "owned_evidence t = map (Pair (fst (snd t))) (evidence_rows (fst t) (sp_evidence (snd (snd t))))"

lemma owned_spans_keys:
  assumes "distinct (map dp_id ps)"
  shows "distinct (map owned_key (owned_spans ps))"
  using assms
proof (induction ps)
  case (Cons p ps)
  have own: "map owned_key (owned_spans (p # ps)) =
      map (Pair (dp_id p)) [0..<length (dp_spans p)] @ map owned_key (owned_spans ps)"
    using map_enumerate_pair [of "dp_id p" 0 "dp_spans p"]
    by (simp add: owned_spans_def owned_key_def o_def split_def)
  have rest: "fst k \<in> dp_id ` set ps" if "k \<in> set (map owned_key (owned_spans ps))" for k
    using that by (auto simp: owned_spans_def owned_key_def)
  have fresh: "dp_id p \<notin> dp_id ` set ps" using Cons.prems by simp
  have "k \<notin> set (map owned_key (owned_spans ps))" if "k \<in> set (map (Pair (dp_id p)) [0..<length (dp_spans p)])" for k
  proof -
    from that have "fst k = dp_id p" by auto
    with rest [of k] fresh show ?thesis by metis
  qed
  then have "set (map (Pair (dp_id p)) [0..<length (dp_spans p)]) \<inter> set (map owned_key (owned_spans ps)) = {}"
    by blast
  then show ?case
    unfolding own distinct_append using Cons by (simp add: distinct_map inj_on_def)
qed (simp add: owned_spans_def)

lemma span_evidence_flat:
  "concat (map (\<lambda>p. concat (map (\<lambda>(n, s). map (Pair n) (evidence_rows (dp_id p) (sp_evidence s)))
      (enumerate 0 (dp_spans p)))) ps) = concat (map owned_evidence (owned_spans ps))"
  by (induction ps) (simp_all add: owned_spans_def owned_evidence_def o_def split_def)

lemma captured_dependency_children:
  assumes wf: "aggregate_wf E a" and p: "p \<in> set (ag_dependencies a)"
  shows "filter (\<lambda>s. sr_dependency_id s = dp_id p) (rw_spans (capture_rows (aggregate_rows a))) =
      map (span_row_of (dp_id p)) (enumerate 0 (dp_spans p))"
    and "(n, s) \<in> set (enumerate 0 (dp_spans p)) \<Longrightarrow>
      filter (\<lambda>r. (er_owner (snd r), fst r) = (dp_id p, n)) (rw_span_evidence (capture_rows (aggregate_rows a))) =
        map (Pair n) (evidence_rows (dp_id p) (sp_evidence s))"
    and "filter (\<lambda>x. fst x = dp_id p) (rw_dependency_claims (capture_rows (aggregate_rows a))) =
      map (\<lambda>c. (dp_id p, cr_revision_id c)) (dp_claims p)"
proof -
  note dist = canonical_distinct_keys [OF aggregate_parts_canonical(6) [OF wf]]
  have own: "sr_dependency_id r = dp_id q"
    if "r \<in> set (map (span_row_of (dp_id q)) (enumerate 0 (dp_spans q)))" for q r
    using that by (auto simp: span_row_of_def)
  have "map (\<lambda>s. (sr_dependency_id s, sr_ordinal s)) (map (span_row_of (dp_id p)) (enumerate 0 (dp_spans p))) =
      map (Pair (dp_id p)) [0..<length (dp_spans p)]"
    using map_enumerate_pair [of "dp_id p" 0 "dp_spans p"] by (simp add: o_def span_row_of_def split_def)
  then have "sorted (map (\<lambda>s. (sr_dependency_id s, sr_ordinal s))
      (map (span_row_of (dp_id p)) (enumerate 0 (dp_spans p))))"
    by (simp add: sorted_map del: map_map)
  with own have "filter (\<lambda>s. sr_dependency_id s = dp_id p)
      (sort_key (\<lambda>s. (sr_dependency_id s, sr_ordinal s))
        (concat (map (\<lambda>p. map (span_row_of (dp_id p)) (enumerate 0 (dp_spans p))) (ag_dependencies a)))) =
      map (span_row_of (dp_id p)) (enumerate 0 (dp_spans p))"
    by (intro captured_group [OF dist _ p])
  then show "filter (\<lambda>s. sr_dependency_id s = dp_id p) (rw_spans (capture_rows (aggregate_rows a))) =
      map (span_row_of (dp_id p)) (enumerate 0 (dp_spans p))"
    by (simp add: capture_rows_def aggregate_rows_def)
  from aggregate_parts_wf(6) [OF wf p] have "sorted (map cr_revision_id (dp_claims p))"
    by (simp add: dependency_wf_iff dependency_new_def rbind_Inr_iff) (metis sorted_sort)
  then have "sorted (map (\<lambda>x. x) (map (\<lambda>c. (dp_id p, cr_revision_id c)) (dp_claims p)))"
    by (simp add: sorted_map sorted_wrt_mono_rel)
  moreover have "fst r = dp_id q" if "r \<in> set (map (\<lambda>c. (dp_id q, cr_revision_id c)) (dp_claims q))" for q r
    using that by auto
  ultimately have "filter (\<lambda>r. fst r = dp_id p)
      (sort (concat (map (\<lambda>p. map (\<lambda>c. (dp_id p, cr_revision_id c)) (dp_claims p)) (ag_dependencies a)))) =
      map (\<lambda>c. (dp_id p, cr_revision_id c)) (dp_claims p)"
    by (intro captured_group [OF dist _ p])
  then show "filter (\<lambda>x. fst x = dp_id p) (rw_dependency_claims (capture_rows (aggregate_rows a))) =
      map (\<lambda>c. (dp_id p, cr_revision_id c)) (dp_claims p)"
    by (simp add: capture_rows_def aggregate_rows_def)
  show "filter (\<lambda>r. (er_owner (snd r), fst r) = (dp_id p, n)) (rw_span_evidence (capture_rows (aggregate_rows a))) =
      map (Pair n) (evidence_rows (dp_id p) (sp_evidence s))"
    if s: "(n, s) \<in> set (enumerate 0 (dp_spans p))"
  proof -
    let ?t = "(dp_id p, n, s)"
    let ?k = "\<lambda>(n, e). (er_owner e, n :: nat, er_ordinal e)"
    have t: "?t \<in> set (owned_spans (ag_dependencies a))"
      using s p by (auto simp: owned_spans_def intro!: bexI [of _ p] image_eqI [of _ _ "(n, s)"])
    have gid: "(er_owner (snd r), fst r) = owned_key q" if "r \<in> set (owned_evidence q)" for q r
      using that evidence_rows_owner by (auto simp: owned_evidence_def owned_key_def)
    have "map ?k (owned_evidence ?t) = map (\<lambda>m. (dp_id p, n, m)) (map er_ordinal (evidence_rows (dp_id p) (sp_evidence s)))"
      using evidence_rows_owner [of _ "dp_id p" "sp_evidence s"] by (simp add: owned_evidence_def o_def)
    then have "sorted (map ?k (owned_evidence ?t))"
      by (simp add: evidence_rows_ordinals sorted_map del: map_map)
    with gid have "filter (\<lambda>r. (er_owner (snd r), fst r) = owned_key ?t)
        (sort_key ?k (concat (map owned_evidence (owned_spans (ag_dependencies a))))) = owned_evidence ?t"
      by (intro captured_group [OF owned_spans_keys [OF dist] _ t])
    then show ?thesis
      by (simp add: capture_rows_def aggregate_rows_def span_evidence_flat owned_key_def owned_evidence_def)
  qed
qed

section \<open>The round trip\<close>

definition head_of :: "py_env \<Rightarrow> aggregate \<Rightarrow> int \<Rightarrow> string \<Rightarrow> head_row" where
  "head_of E a revision updated_at =
     \<lparr>hw_id = ag_id a, hw_revision = revision, hw_schema_version = 1,
      hw_sha256 = sha256_json E (aggregate_json a), hw_updated_at = updated_at\<rparr>"

definition snapshot_of :: "py_env \<Rightarrow> aggregate \<Rightarrow> int \<Rightarrow> snapshot" where
  "snapshot_of E a revision =
     \<lparr>ss_aggregate = a, ss_revision = revision, ss_sha256 = sha256_json E (aggregate_json a)\<rparr>"

lemma closed_bindings:
  assumes "aggregate_wf E a"
  shows "c \<in> set (ag_claims a) \<Longrightarrow>
      dict_get dv_id (ag_documents a) (dv_id (cr_document c)) = Some (cr_document c)"
    and "x \<in> set (ag_graph a) \<Longrightarrow> r \<in> {cp_first (ra_pair x), cp_second (ra_pair x)} \<Longrightarrow>
      dict_get cr_revision_id (ag_claims a) (cr_revision_id r) = Some r"
    and "p \<in> set (ag_dependencies a) \<Longrightarrow>
      dict_get dv_id (ag_documents a) (dv_id (dp_downstream p)) = Some (dp_downstream p) \<and>
      dict_get cr_revision_id (ag_claims a) (cr_revision_id (dp_upstream p)) = Some (dp_upstream p) \<and>
      (\<forall>q \<in> set (dp_claims p). dict_get cr_revision_id (ag_claims a) (cr_revision_id q) = Some q)"
    and "u \<in> set (ag_replacements a) \<Longrightarrow>
      dict_get dv_id (ag_documents a) (dv_id (rp_newer u)) = Some (rp_newer u) \<and>
      dict_get dv_id (ag_documents a) (dv_id (rp_older u)) = Some (rp_older u)"
    and "t \<in> set (ag_constraints a) \<Longrightarrow>
      tt_id (tc_target t) \<in> (if tt_kind (tc_target t) = DocumentTarget then dv_id ` set (ag_documents a)
        else cr_revision_id ` set (ag_claims a))"
proof -
  from assms have closed: "closed_binding_graph a = Inr a"
    by (auto simp: aggregate_wf_iff aggregate_new_Inr_iff)
  note iff = closed [unfolded closed_binding_graph_Inr_iff]
  show "dict_get dv_id (ag_documents a) (dv_id (cr_document c)) = Some (cr_document c)"
    if "c \<in> set (ag_claims a)"
    using iff that by (simp add: require_document_Inr)
  show "dict_get cr_revision_id (ag_claims a) (cr_revision_id r) = Some r"
    if "x \<in> set (ag_graph a)" "r \<in> {cp_first (ra_pair x), cp_second (ra_pair x)}"
  proof -
    from that have "r \<in> set (assessment_revisions (ag_graph a))" by (auto simp: assessment_revisions_def)
    with iff show ?thesis by (simp add: require_claim_Inr)
  qed
  show "dict_get dv_id (ag_documents a) (dv_id (dp_downstream p)) = Some (dp_downstream p) \<and>
      dict_get cr_revision_id (ag_claims a) (cr_revision_id (dp_upstream p)) = Some (dp_upstream p) \<and>
      (\<forall>q \<in> set (dp_claims p). dict_get cr_revision_id (ag_claims a) (cr_revision_id q) = Some q)"
    if "p \<in> set (ag_dependencies a)"
  proof -
    from iff that have "\<exists>v. require_dependency a p = Inr v" by blast
    then show ?thesis by (simp add: require_dependency_Inr require_document_Inr require_claim_Inr)
  qed
  show "dict_get dv_id (ag_documents a) (dv_id (rp_newer u)) = Some (rp_newer u) \<and>
      dict_get dv_id (ag_documents a) (dv_id (rp_older u)) = Some (rp_older u)"
    if "u \<in> set (ag_replacements a)"
    using iff that by (auto simp: require_document_Inr replacement_documents_set)
  show "tt_id (tc_target t) \<in> (if tt_kind (tc_target t) = DocumentTarget then dv_id ` set (ag_documents a)
        else cr_revision_id ` set (ag_claims a))" if "t \<in> set (ag_constraints a)"
    using iff that by (simp only: require_target_Inr)
qed

lemma pair_dict:
  assumes "canonical ra_pair_id as" and "a \<in> set as"
  shows "dict_get pr_id (map pair_row_of as) (cp_id (ra_pair a)) = Some (pair_row_of a)"
proof -
  have "map pr_id (map pair_row_of as) = map ra_pair_id as"
    by (simp add: pair_row_of_def ra_pair_id_def)
  then have "distinct (map pr_id (map pair_row_of as))" using assms(1) by (simp only: canonical_def)
  then have "key_inj pr_id (map pair_row_of as)"
    unfolding key_inj_inj_on by (simp add: distinct_map del: map_map)
  then show ?thesis using assms(2) by (subst dict_get_Some_iff) (auto simp: pair_row_of_def)
qed

lemma hydrate_children:
  assumes E: "float_ok E" and wf: "aggregate_wf E a" and fn: "identities_functional a"
    and dates: "aggregate_dates_valid a"
  defines "rw \<equiv> capture_rows (aggregate_rows a)"
  shows "hydrate_documents E (rw_documents rw) = Inr (ag_documents a)"
    and "hydrate_claims E rw (ag_documents a) = Inr (ag_claims a)"
    and "hydrate_relations E rw (ag_claims a) = Inr (ag_graph a)"
    and "hydrate_dependencies E rw (ag_documents a) (ag_claims a) = Inr (ag_dependencies a)"
    and "rmap (hydrate_replacement E (ag_documents a)) (rw_replacements rw) = Inr (ag_replacements a)"
    and "hydrate_constraints E rw (ag_documents a) (ag_claims a) = Inr (ag_constraints a)"
proof -
  note parts = aggregate_parts_wf [OF wf] and can = aggregate_parts_canonical [OF wf]
  note cap = captured_canonical [OF wf] and closed = closed_bindings [OF wf]
  note d = dates [unfolded aggregate_dates_valid_def list_all_iff]
  show "hydrate_documents E (rw_documents rw) = Inr (ag_documents a)"
    unfolding hydrate_documents_def rw_def cap rmap_map rmap_id_iff
    using hydrate_document_row parts(3) d by blast
  have claims: "rmap (hydrate_claim E rw (ag_documents a)) (rw_claims rw) = Inr (ag_claims a)"
    unfolding rw_def cap rmap_map rmap_id_iff
    using hydrate_claim_row [OF parts(4) _ captured_identity [OF fn] closed(1) captured_claim_children [OF wf]] d
    by blast
  have ids: "kr_identity_id ` set (rw_claims rw) = ir_id ` set (rw_identities rw)"
    unfolding rw_def cap
    by (simp add: capture_rows_def aggregate_rows_def image_image claim_row_of_def identity_row_of_def
        identity_revisions_props(2))
  have kids: "fst ` set (rw_scopes rw) \<union> er_owner ` set (rw_claim_evidence rw) \<subseteq> cr_revision_id ` set (ag_claims a)"
    unfolding rw_def by (auto simp: capture_rows_def aggregate_rows_def dest: evidence_rows_owner)
  show "hydrate_claims E rw (ag_documents a) = Inr (ag_claims a)"
    unfolding hydrate_claims_def claims using ids kids by (simp add: checks_def guards.simps)
  have relations: "rmap (hydrate_relation E rw (ag_claims a)) (rw_relations rw) = Inr (ag_graph a)"
    unfolding rw_def cap(4) rmap_map rmap_id_iff
  proof
    fix x assume x: "x \<in> set (ag_graph a)"
    show "hydrate_relation E (capture_rows (aggregate_rows a)) (ag_claims a) (relation_row_of x) = Inr x"
      by (rule hydrate_relation_row [OF parts(5) [OF x]])
        (simp_all add: cap pair_dict [OF can(5) x] closed(2) [OF x])
  qed
  have pairs: "rr_pair_id ` set (rw_relations rw) = pr_id ` set (rw_pairs rw)"
    unfolding rw_def cap by (simp add: image_image relation_row_of_def pair_row_of_def)
  show "hydrate_relations E rw (ag_claims a) = Inr (ag_graph a)"
    unfolding hydrate_relations_def relations using pairs by (simp add: checks_def guards.simps)
  have deps: "rmap (hydrate_dependency E rw (ag_documents a) (ag_claims a)) (rw_dependencies rw) = Inr (ag_dependencies a)"
    unfolding rw_def cap(5) rmap_map rmap_id_iff
  proof
    fix p assume p: "p \<in> set (ag_dependencies a)"
    show "hydrate_dependency E (capture_rows (aggregate_rows a)) (ag_documents a) (ag_claims a) (dependency_row_of p) = Inr p"
      using closed(3) [OF p] captured_dependency_children [OF wf p]
      by (intro hydrate_dependency_row [OF E parts(6) [OF p]]) blast+
  qed
  have dkids: "sr_dependency_id ` set (rw_spans rw) \<union> fst ` set (rw_dependency_claims rw) \<union>
      (\<lambda>x. er_owner (snd x)) ` set (rw_span_evidence rw) \<subseteq> dw_id ` set (rw_dependencies rw)"
    unfolding rw_def
    by (auto simp: capture_rows_def aggregate_rows_def dependency_row_of_def span_row_of_def image_iff
        dest!: evidence_rows_owner)
  show "hydrate_dependencies E rw (ag_documents a) (ag_claims a) = Inr (ag_dependencies a)"
    unfolding hydrate_dependencies_def deps using dkids by (simp add: checks_def guards.simps)
  show "rmap (hydrate_replacement E (ag_documents a)) (rw_replacements rw) = Inr (ag_replacements a)"
    unfolding rw_def cap(6) rmap_map rmap_id_iff
    using hydrate_replacement_row parts(1) closed(4) by blast
  have cons: "rmap (hydrate_constraint E rw (ag_documents a) (ag_claims a)) (rw_constraints rw) = Inr (ag_constraints a)"
    unfolding rw_def cap(7) rmap_map rmap_id_iff
  proof
    fix c assume c: "c \<in> set (ag_constraints a)"
    show "hydrate_constraint E (capture_rows (aggregate_rows a)) (ag_documents a) (ag_claims a) (constraint_row_of c) = Inr c"
      by (rule hydrate_constraint_row [OF parts(2) [OF c] _ closed(5) [OF c] captured_bases [OF wf c]])
        (use d c in blast)
  qed
  have bkids: "br_constraint_id ` set (rw_bases rw) \<subseteq> tr_id ` set (rw_constraints rw)"
    unfolding rw_def
    by (auto simp: capture_rows_def aggregate_rows_def constraint_row_of_def image_iff dest!: basis_rows_fields(3))
  show "hydrate_constraints E rw (ag_documents a) (ag_claims a) = Inr (ag_constraints a)"
    unfolding hydrate_constraints_def cons using bkids by (simp add: checks_def guards.simps)
qed

lemma hydrate_written:
  assumes E: "float_ok E" and wf: "aggregate_wf E a" and fn: "identities_functional a"
    and dates: "aggregate_dates_valid a" and revision: "1 \<le> revision"
  shows "hydrate_snapshot E (head_of E a revision t) (capture_rows (aggregate_rows a)) =
    Inr (snapshot_of E a revision)"
proof -
  note kids = hydrate_children [OF E wf fn dates]
  from wf have reg:
    "document_registry_create (ag_documents a) = Inr (ag_documents a)"
    "claim_registry_create (ag_claims a) = Inr (ag_claims a)"
    "relation_graph_create (ag_graph a) = Inr (ag_graph a)"
    "dependency_registry_create (ag_dependencies a) = Inr (ag_dependencies a)"
    "replacement_set_create (ag_replacements a) = Inr (ag_replacements a)"
    "constraint_set_create (ag_constraints a) = Inr (ag_constraints a)"
    by (simp_all add: aggregate_wf_iff revalidate_wf documents.validated_is_create claims.validated_is_create
        relations.validated_is_create dependencies.validated_is_create replacements.validated_is_create
        constraints.validated_is_create)
  from wf have new: "aggregate_new E a = Inr a" by (simp add: aggregate_wf_iff)
  then have key: "normalize_logical_key E (ag_id a) = Inr (ag_id a)" by (simp add: aggregate_new_Inr_iff)
  have rec: "\<lparr>ag_id = ag_id a, ag_documents = ag_documents a, ag_claims = ag_claims a, ag_graph = ag_graph a,
      ag_dependencies = ag_dependencies a, ag_replacements = ag_replacements a,
      ag_constraints = ag_constraints a\<rparr> = a"
    by (cases a) simp
  have create: "aggregate_create E (ag_id a) (ag_documents a) (ag_claims a) (ag_graph a) (ag_dependencies a)
      (ag_replacements a) (ag_constraints a) = Inr a"
    unfolding aggregate_create_def key rbind_simps rec by (rule new)
  have sha: "aggregate_sha256 E a = Inr (sha256_json E (aggregate_json a))"
    using wf by (simp add: aggregate_sha256_def aggregate_wf_def)
  have head: "hw_schema_version (head_of E a revision t) = 1" "hw_id (head_of E a revision t) = ag_id a"
    "hw_revision (head_of E a revision t) = revision"
    "hw_sha256 (head_of E a revision t) = sha256_json E (aggregate_json a)"
    by (simp_all add: head_of_def)
  have "hydrate_parts E (head_of E a revision t) (capture_rows (aggregate_rows a)) = Inr (snapshot_of E a revision)"
    unfolding hydrate_parts_def head kids rbind_simps reg lift_simps create sha
    using revision by (simp add: checks_def guards.simps snapshot_of_def)
  then show ?thesis by (simp add: hydrate_snapshot_def)
qed

text \<open>
  C32. Normalising an aggregate into the fourteen tables and hydrating it back is the identity: for an
  aggregate that is stable under revalidation, has valid dates and no confidence that is the negative
  zero, the rows that the store writes, read in the order of their keys, hydrate to exactly that
  aggregate with its revision and digest.  No row shape, ordinal or column text the writer produces is
  ever rejected, unless two different claim identity payloads of the aggregate have the same digest.
\<close>

theorem rows_roundtrip:
  assumes "float_ok E" and "aggregate_wf E a" and "aggregate_dates_valid a" and "1 \<le> revision"
  shows "hydrate_snapshot E (head_of E a revision t) (capture_rows (aggregate_rows a)) =
      Inr (snapshot_of E a revision) \<or>
    (\<exists>x \<in> set (ag_claims a). \<exists>y \<in> set (ag_claims a).
       hash_collision E (claim_identity_payload_of x) (claim_identity_payload_of y))"
  using hydrate_written [OF assms(1,2) _ assms(3,4)] identities_functional_or_collision [OF assms(1,2)]
  by blast

end
