(* ===== verification/Store.thy ===== *)
theory Store
  imports Hydration
begin

text \<open>
  \<open>SqliteChangeControlStore\<close> of \<open>change_control/store.py\<close>: the tables as a record, and every public
  operation as one transaction on it.  A transaction body returns the new tables or an exception;
  \<open>transact\<close> is BEGIN IMMEDIATE, COMMIT and ROLLBACK.  The clock is the argument \<open>now\<close>.
\<close>

section \<open>Tables\<close>

record receipt_row =
  op_id :: string
  op_aggregate_id :: string
  op_expected :: "int option"
  op_sha256 :: string
  op_revision :: int
  op_changed :: bool
  op_committed_at :: string
  op_receipt_sha256 :: string

record request_row =
  qr_request_id :: string
  qr_operation_id :: string
  qr_aggregate_id :: string
  qr_base_revision :: int
  qr_base_sha256 :: string
  qr_schema_version :: int
  qr_base :: aggregate
  qr_requester :: string
  qr_rationale :: string
  qr_requested_at :: string
  qr_payload_sha256 :: string

record subject_row =
  sj_request_id :: string
  sj_aggregate_id :: string
  sj_base_revision :: int
  sj_ordinal :: nat
  sj_kind :: string
  sj_id :: string
  sj_version :: int
  sj_payload :: review_subject
  sj_sha256 :: string

record decision_row =
  qd_request_id :: string
  qd_operation_id :: string
  qd_aggregate_id :: string
  qd_base_revision :: int
  qd_reviewer :: string
  qd_rationale :: string
  qd_payload_sha256 :: string
  qd_revision :: int
  qd_sha256 :: string
  qd_schema_version :: int
  qd_aggregate :: aggregate
  qd_decided_at :: string

record item_row =
  im_request_id :: string
  im_ordinal :: nat
  im_kind :: string
  im_id :: string
  im_original_sha256 :: string
  im_disposition :: string
  im_rationale :: "string option"
  im_confidence :: "rat option"

text \<open>
  \<open>st_foreign\<close> holds the (owner, operation id, identity) columns of the tables other write
  authorities own (managed reviews, generations, bootstrap, admissions); this store only reads them.
\<close>

record store =
  st_heads :: "head_row list"
  st_rows :: "string \<Rightarrow> rows"
  st_operations :: "receipt_row list"
  st_requests :: "request_row list"
  st_subjects :: "subject_row list"
  st_decisions :: "decision_row list"
  st_items :: "item_row list"
  st_foreign :: "(string \<times> string \<times> string) list"

definition empty_rows :: rows where
  "empty_rows = \<lparr>rw_documents = [], rw_identities = [], rw_claims = [], rw_scopes = [],
     rw_claim_evidence = [], rw_pairs = [], rw_relations = [], rw_dependencies = [], rw_spans = [],
     rw_span_evidence = [], rw_dependency_claims = [], rw_replacements = [], rw_constraints = [],
     rw_bases = []\<rparr>"

definition empty_store :: store where
  "empty_store = \<lparr>st_heads = [], st_rows = (\<lambda>_. empty_rows), st_operations = [], st_requests = [],
     st_subjects = [], st_decisions = [], st_items = [], st_foreign = []\<rparr>"

definition append_rows :: "rows \<Rightarrow> rows \<Rightarrow> rows" where
  "append_rows r s = \<lparr>rw_documents = rw_documents r @ rw_documents s,
     rw_identities = rw_identities r @ rw_identities s, rw_claims = rw_claims r @ rw_claims s,
     rw_scopes = rw_scopes r @ rw_scopes s, rw_claim_evidence = rw_claim_evidence r @ rw_claim_evidence s,
     rw_pairs = rw_pairs r @ rw_pairs s, rw_relations = rw_relations r @ rw_relations s,
     rw_dependencies = rw_dependencies r @ rw_dependencies s, rw_spans = rw_spans r @ rw_spans s,
     rw_span_evidence = rw_span_evidence r @ rw_span_evidence s,
     rw_dependency_claims = rw_dependency_claims r @ rw_dependency_claims s,
     rw_replacements = rw_replacements r @ rw_replacements s,
     rw_constraints = rw_constraints r @ rw_constraints s, rw_bases = rw_bases r @ rw_bases s\<rparr>"

definition find_head :: "store \<Rightarrow> string \<Rightarrow> head_row option" where
  "find_head s aggregate_id = lookup_key hw_id aggregate_id (st_heads s)"

definition find_operation :: "store \<Rightarrow> string \<Rightarrow> receipt_row option" where
  "find_operation s operation_id = lookup_key op_id operation_id (st_operations s)"

text \<open>BEGIN IMMEDIATE ... COMMIT, with ROLLBACK when the body raises.\<close>

definition transact :: "(store \<Rightarrow> ('a \<times> store) stored) \<Rightarrow> store \<Rightarrow> 'a stored \<times> store" where
  "transact body s = (case body s of Inl e \<Rightarrow> (Inl e, s) | Inr (x, s') \<Rightarrow> (Inr x, s'))"

section \<open>Receipts and operation ownership\<close>

definition receipt_sha256 ::
  "py_env \<Rightarrow> string \<Rightarrow> string \<Rightarrow> int option \<Rightarrow> string \<Rightarrow> int \<Rightarrow> bool \<Rightarrow> string \<Rightarrow> string" where
  "receipt_sha256 E operation_id aggregate_id expected digest revision changed committed_at =
     sha256_json E (JObj
       [(''aggregate_id'', JStr aggregate_id), (''aggregate_sha256'', JStr digest),
        (''changed'', JBool changed), (''committed_at'', JStr committed_at),
        (''committed_revision'', JInt revision), (''expected_revision'', opt_json JInt expected),
        (''operation_id'', JStr operation_id)])"

definition new_receipt ::
  "py_env \<Rightarrow> string \<Rightarrow> string \<Rightarrow> string \<Rightarrow> int option \<Rightarrow> string \<Rightarrow> int \<Rightarrow> bool \<Rightarrow> receipt_row" where
  "new_receipt E now operation_id aggregate_id expected digest revision changed =
     \<lparr>op_id = operation_id, op_aggregate_id = aggregate_id, op_expected = expected, op_sha256 = digest,
      op_revision = revision, op_changed = changed, op_committed_at = now,
      op_receipt_sha256 = receipt_sha256 E operation_id aggregate_id expected digest revision changed now\<rparr>"

text \<open>\<open>_insert_receipt\<close>; the primary key of the table rejects a second row.\<close>

definition insert_receipt :: "receipt_row \<Rightarrow> store \<Rightarrow> store stored" where
  "insert_receipt r s =
     rbind (checks [(find_operation s (op_id r) = None, IntegrityError ''change_control_operations'')]) (\<lambda>_.
     Inr (s\<lparr>st_operations := st_operations s @ [r]\<rparr>))"

definition review_operation_owner :: "store \<Rightarrow> string \<Rightarrow> string option stored" where
  "review_operation_owner s operation_id =
     (case (lookup_key qr_operation_id operation_id (st_requests s),
            lookup_key qd_operation_id operation_id (st_decisions s)) of
        (Some _, Some _) \<Rightarrow> Inl (Corruption ''review operation ID has multiple owners'')
      | (Some _, None) \<Rightarrow> Inr (Some ''request'')
      | (None, Some _) \<Rightarrow> Inr (Some ''decision'')
      | (None, None) \<Rightarrow> Inr None)"

definition foreign_owners :: "string list" where
  "foreign_owners = [''generation-zero'', ''managed-request'', ''managed-decision'', ''managed-activation'',
     ''workspace-bootstrap-intent'', ''workspace-inventory'', ''legacy-index-readiness'', ''operator-run'',
     ''operator-run-link'', ''synchronous-application'', ''synchronous-run-lock'', ''incoming-admission'',
     ''regression-suite-admission'', ''generation-zero-baseline'', ''activation-baseline'']"

definition owner_matches :: "store \<Rightarrow> string \<Rightarrow> (string \<times> string) list" where
  "owner_matches s operation_id =
     (case find_operation s operation_id of None \<Rightarrow> [] | Some r \<Rightarrow> [(''legacy'', op_aggregate_id r)]) @
     List.map_filter (\<lambda>owner. map_option (\<lambda>(_, _, identity). (owner, identity))
        (find (\<lambda>(o', i, _). o' = owner \<and> i = operation_id) (st_foreign s))) foreign_owners"

definition global_operation_owner :: "store \<Rightarrow> string \<Rightarrow> (string \<times> string) option stored" where
  "global_operation_owner s operation_id =
     (case owner_matches s operation_id of
        [] \<Rightarrow> Inr None
      | [m] \<Rightarrow> Inr (Some m)
      | _ \<Rightarrow> Inl (Corruption ''operation_id has multiple authoritative owners''))"

definition owned_operations :: "store \<Rightarrow> string list" where
  "owned_operations s = map op_id (st_operations s) @ map (\<lambda>x. fst (snd x)) (st_foreign s)"

text \<open>
  The loop of \<open>_validate_global_operation_ownership\<close> over the ids in order: \<open>_require_operation_id\<close> raises its own
  error, a repeated id is a corruption.
\<close>

fun owner_scan :: "string list \<Rightarrow> string list \<Rightarrow> unit stored" where
  "owner_scan seen [] = Inr ()"
| "owner_scan seen (i # is) =
     (if \<not> operation_id_pattern i then Inl (Raised (ValueError ''operation_id''))
      else if i \<in> set seen
      then Inl (Corruption ''operation ownership is invalid or non-unique across authorities'')
      else owner_scan (i # seen) is)"

definition validate_global_operation_ownership :: "store \<Rightarrow> unit stored" where
  "validate_global_operation_ownership s = owner_scan [] (sort (owned_operations s))"

lemma owner_scan_Inr:
  "owner_scan seen is = Inr u \<longleftrightarrow> list_all operation_id_pattern is \<and> distinct is \<and> set is \<inter> set seen = {}"
  by (induction seen "is" rule: owner_scan.induct) auto

lemma validate_ownership_Inr:
  "validate_global_operation_ownership s = Inr u \<longleftrightarrow>
     list_all operation_id_pattern (owned_operations s) \<and> distinct (owned_operations s)"
  by (simp add: validate_global_operation_ownership_def owner_scan_Inr list_all_iff)

definition receipt_shape :: "receipt_row \<Rightarrow> bool" where
  "receipt_shape r = (case op_expected r of
     None \<Rightarrow> op_changed r \<and> op_revision r = 1
   | Some expected \<Rightarrow> if op_changed r then op_revision r = expected + 1 else op_revision r = expected)"

definition receipt_valid :: "py_env \<Rightarrow> store \<Rightarrow> receipt_row \<Rightarrow> bool" where
  "receipt_valid E s r \<longleftrightarrow>
     operation_id_pattern (op_id r) \<and>
     normalize_logical_key E (op_aggregate_id r) = Inr (op_aggregate_id r) \<and>
     sha256_pattern (op_sha256 r) \<and> sha256_pattern (op_receipt_sha256 r) \<and>
     canonical_utc (op_committed_at r) \<and>
     (case find_head s (op_aggregate_id r) of None \<Rightarrow> False | Some h \<Rightarrow> op_revision r \<le> hw_revision h) \<and>
     receipt_shape r \<and>
     op_receipt_sha256 r = receipt_sha256 E (op_id r) (op_aggregate_id r) (op_expected r) (op_sha256 r)
       (op_revision r) (op_changed r) (op_committed_at r)"

definition validate_receipts :: "py_env \<Rightarrow> store \<Rightarrow> unit stored" where
  "validate_receipts E s = checks
     [(list_all (receipt_valid E s) (st_operations s), Corruption ''persisted operation receipt is invalid'')]"

section \<open>Reading snapshots, requests and decisions\<close>

definition snapshot_in_transaction :: "py_env \<Rightarrow> store \<Rightarrow> string \<Rightarrow> snapshot option stored" where
  "snapshot_in_transaction E s aggregate_id =
     (let rw = capture_rows (st_rows s aggregate_id) in
      case find_head s aggregate_id of
        None \<Rightarrow> rbind (checks [(rw = empty_rows, Corruption ''aggregate children exist without a head'')]) (\<lambda>_.
          Inr None)
      | Some h \<Rightarrow> rbind (hydrate_snapshot E h rw) (\<lambda>x. Inr (Some x)))"

text \<open>\<open>_decode_aggregate_json\<close>: the stored text must be the canonical text of a validated aggregate.\<close>

definition decode_aggregate :: "py_env \<Rightarrow> aggregate \<Rightarrow> aggregate stored" where
  "decode_aggregate E a =
     rbind (lift (aggregate_revalidate E a)) (\<lambda>v.
     rbind (checks [(v = a,
       Raised (ValueError ''persisted aggregate audit snapshot is not typed-canonical JSON''))]) (\<lambda>_. Inr v))"

definition review_kind_of :: "string \<Rightarrow> review_kind option" where
  "review_kind_of = enum_of review_kind_value [ReplacementKind, ConstraintKind]"

definition review_disposition_of :: "string \<Rightarrow> review_disposition option" where
  "review_disposition_of = enum_of review_disposition_value [OutcomeAccepted, OutcomeEdited, OutcomeRejected]"

definition read_subject :: "py_env \<Rightarrow> subject_row \<Rightarrow> subject_snapshot stored" where
  "read_subject E r =
     rbind (of_option invalid_text (review_kind_of (sj_kind r))) (\<lambda>kind.
     rbind (lift (snapshot_from_payload E kind (sj_id r) (sj_version r) (sj_payload r) (sj_sha256 r))) (\<lambda>x.
     rbind (checks [(sn_subject x = sj_payload r,
       Raised (ValueError ''review subject snapshot is not typed-canonical JSON''))]) (\<lambda>_. Inr x)))"

definition subject_rows_of :: "store \<Rightarrow> string \<Rightarrow> subject_row list" where
  "subject_rows_of s request_id =
     sort_key sj_ordinal (filter (\<lambda>r. sj_request_id r = request_id) (st_subjects s))"

definition read_review_request :: "py_env \<Rightarrow> store \<Rightarrow> string \<Rightarrow> review_request option stored" where
  "read_review_request E s request_id =
     (case lookup_key qr_request_id request_id (st_requests s) of
        None \<Rightarrow> Inr None
      | Some row \<Rightarrow>
          (let subject_rows = subject_rows_of s request_id in
           rbind (require_contiguous (map sj_ordinal subject_rows)) (\<lambda>_.
           rbind (rmap (read_subject E) subject_rows) (\<lambda>subjects.
           rbind (decode_aggregate E (qr_base row)) (\<lambda>base.
           rbind (lift (require_canonical_utc (qr_requested_at row))) (\<lambda>requested_at.
           rbind (lift (review_request_new E
             \<lparr>hr_request_id = qr_request_id row, hr_operation_id = qr_operation_id row,
              hr_aggregate_id = qr_aggregate_id row, hr_base_revision = qr_base_revision row,
              hr_base_sha256 = qr_base_sha256 row, hr_base = base, hr_subjects = subjects,
              hr_requester = qr_requester row, hr_rationale = qr_rationale row,
              hr_requested_at = requested_at, hr_payload_sha256 = qr_payload_sha256 row\<rparr>)) (\<lambda>request.
           Inr (Some request))))))))"

definition read_item :: "py_env \<Rightarrow> item_row \<Rightarrow> decision_item stored" where
  "read_item E r =
     rbind (of_option invalid_text (review_kind_of (im_kind r))) (\<lambda>kind.
     rbind (of_option invalid_text (review_disposition_of (im_disposition r))) (\<lambda>disposition.
     rbind (if im_disposition r = review_disposition_value OutcomeEdited
            then rbind (lift (subject_edit_new E
              \<lparr>ed_kind = kind, ed_id = im_id r, ed_rationale = im_rationale r, ed_confidence = im_confidence r\<rparr>))
              (\<lambda>e. Inr (Some e))
            else Inr None) (\<lambda>edit.
     lift (decision_item_new
       \<lparr>it_kind = kind, it_id = im_id r, it_original_sha256 = im_original_sha256 r,
        it_disposition = disposition, it_edit = edit\<rparr>))))"

definition item_rows_of :: "store \<Rightarrow> string \<Rightarrow> item_row list" where
  "item_rows_of s request_id = sort_key im_ordinal (filter (\<lambda>r. im_request_id r = request_id) (st_items s))"

definition read_review_decision :: "py_env \<Rightarrow> store \<Rightarrow> string \<Rightarrow> review_decision option stored" where
  "read_review_decision E s request_id =
     (case lookup_key qd_request_id request_id (st_decisions s) of
        None \<Rightarrow> Inr None
      | Some row \<Rightarrow>
          (let item_rows = item_rows_of s request_id in
           rbind (require_contiguous (map im_ordinal item_rows)) (\<lambda>_.
           rbind (rmap (read_item E) item_rows) (\<lambda>items.
           rbind (decode_aggregate E (qd_aggregate row)) (\<lambda>decided.
           rbind (lift (require_canonical_utc (qd_decided_at row))) (\<lambda>decided_at.
           rbind (lift (review_decision_new E
             \<lparr>hd_request_id = qd_request_id row, hd_operation_id = qd_operation_id row,
              hd_reviewer = qd_reviewer row, hd_rationale = qd_rationale row, hd_items = items,
              hd_payload_sha256 = qd_payload_sha256 row, hd_revision = qd_revision row,
              hd_sha256 = qd_sha256 row, hd_aggregate = decided, hd_decided_at = decided_at\<rparr>)) (\<lambda>decision.
           Inr (Some decision))))))))"

definition lifecycle_of :: "store \<Rightarrow> review_request \<Rightarrow> review_lifecycle" where
  "lifecycle_of s request =
     (if lookup_key qd_request_id (hr_request_id request) (st_decisions s) \<noteq> None then Decided
      else case find_head s (hr_aggregate_id request) of
        None \<Rightarrow> Stale
      | Some h \<Rightarrow> if hw_revision h = hr_base_revision request \<and> hw_sha256 h = hr_base_sha256 request
                then Open else Stale)"

section \<open>Review audit\<close>

definition apply_review_decision :: "py_env \<Rightarrow> review_request \<Rightarrow> decision_command \<Rightarrow> aggregate stored" where
  "apply_review_decision E request command =
     (case apply_human_review_decision E request command of
        Inl (ValueError _) \<Rightarrow>
          Inl (ReviewTransition ''review outcomes do not form one valid final aggregate'')
      | Inl e \<Rightarrow> Inl (Raised e)
      | Inr a \<Rightarrow> Inr a)"

definition head_binding :: "store \<Rightarrow> string \<Rightarrow> (int \<times> string) option" where
  "head_binding s aggregate_id = map_option (\<lambda>h. (hw_revision h, hw_sha256 h)) (find_head s aggregate_id)"

definition live_check :: "py_env \<Rightarrow> store \<Rightarrow> string \<Rightarrow> aggregate \<Rightarrow> unit stored" where
  "live_check E s aggregate_id expected =
     rbind (snapshot_in_transaction E s aggregate_id) (\<lambda>loaded.
     case loaded of
       None \<Rightarrow> Inl (Raised (ValueError ''review live aggregate is absent''))
     | Some live \<Rightarrow> checks [(ss_aggregate live = expected,
         Raised (ValueError ''review snapshot differs from the live aggregate''))])"

definition receipt_matches :: "receipt_row \<Rightarrow> string \<Rightarrow> int \<Rightarrow> string \<Rightarrow> int \<Rightarrow> bool \<Rightarrow> string \<Rightarrow> bool" where
  "receipt_matches r aggregate_id expected digest revision changed committed_at \<longleftrightarrow>
     op_aggregate_id r = aggregate_id \<and> op_expected r = Some expected \<and> op_sha256 r = digest \<and>
     op_revision r = revision \<and> op_changed r = changed \<and> op_committed_at r = committed_at"

definition check_subject :: "aggregate \<Rightarrow> subject_snapshot \<Rightarrow> unit stored" where
  "check_subject base x =
     rbind (lift (subject_ref_new \<lparr>sr_kind = sn_kind x, sr_id = sn_id x\<rparr>)) (\<lambda>ref.
     checks
       [(subject_from_aggregate base ref = Some (sn_subject x),
           Raised (ValueError ''review subject snapshot does not match the base aggregate'')),
        (subject_status (sn_subject x) = Proposed,
           Raised (ValueError ''review request snapshot is not proposed''))])"

definition validate_review :: "py_env \<Rightarrow> store \<Rightarrow> request_row \<Rightarrow> unit stored" where
  "validate_review E s row =
     rbind (checks [(qr_schema_version row = 1,
        Raised (ValueError ''unsupported review request aggregate schema version''))]) (\<lambda>_.
     rbind (read_review_request E s (qr_request_id row)) (\<lambda>read.
     case read of
       None \<Rightarrow> Inl (Raised (ValueError ''review request disappeared during validation''))
     | Some request \<Rightarrow>
         rbind (rmap (check_subject (hr_base request)) (hr_subjects request)) (\<lambda>_.
         rbind (checks
           [(case find_operation s (hr_operation_id request) of None \<Rightarrow> False
             | Some r \<Rightarrow> receipt_matches r (hr_aggregate_id request) (hr_base_revision request)
                 (hr_base_sha256 request) (hr_base_revision request) False (hr_requested_at request),
             Raised (ValueError ''review request does not match its generic receipt''))]) (\<lambda>_.
         rbind (read_review_decision E s (qr_request_id row)) (\<lambda>read_decision.
         case read_decision of
           None \<Rightarrow>
             if head_binding s (hr_aggregate_id request) = Some (hr_base_revision request, hr_base_sha256 request)
             then live_check E s (hr_aggregate_id request) (hr_base request) else Inr ()
         | Some decision \<Rightarrow>
             rbind (checks
               [(case lookup_key qd_request_id (qr_request_id row) (st_decisions s) of None \<Rightarrow> False
                 | Some d \<Rightarrow> qd_schema_version d = 1,
                   Raised (ValueError ''unsupported review decision aggregate schema version'')),
                (ag_id (hd_aggregate decision) = hr_aggregate_id request,
                   Raised (ValueError ''review decision aggregate ID differs from its request''))]) (\<lambda>_.
             rbind (lift (decision_command_new E (decision_command_of decision))) (\<lambda>command.
             rbind (apply_review_decision E request command) (\<lambda>expected.
             rbind (checks
               [(expected = hd_aggregate decision,
                   Raised (ValueError ''review decision aggregate contains an unrelated or missing mutation'')),
                (hd_revision decision = hr_base_revision request + 1,
                   Raised (ValueError ''review decision revision transition is invalid'')),
                (case find_operation s (hd_operation_id decision) of None \<Rightarrow> False
                 | Some r \<Rightarrow> receipt_matches r (hr_aggregate_id request) (hr_base_revision request)
                     (hd_sha256 decision) (hd_revision decision) True (hd_decided_at decision),
                   Raised (ValueError ''review decision does not match its generic receipt''))]) (\<lambda>_.
             if head_binding s (hr_aggregate_id request) = Some (hd_revision decision, hd_sha256 decision)
             then live_check E s (hr_aggregate_id request) (hd_aggregate decision) else Inr ())))))))))"

text \<open>The handlers of \<open>_validate_reviews\<close>: everything but an assertion becomes a corruption error.\<close>

definition as_corruption :: "string \<Rightarrow> 'a stored \<Rightarrow> 'a stored" where
  "as_corruption message r =
     (case r of
        Inl (Corruption m) \<Rightarrow> Inl (Corruption m)
      | Inl (Raised AssertionError) \<Rightarrow> Inl (Raised AssertionError)
      | Inl _ \<Rightarrow> Inl (Corruption message)
      | Inr x \<Rightarrow> Inr x)"

definition validate_reviews :: "py_env \<Rightarrow> store \<Rightarrow> unit stored" where
  "validate_reviews E s =
     as_corruption ''persisted authoritative review audit is invalid''
       (rbind (rmap (validate_review E s) (sort_key qr_request_id (st_requests s))) (\<lambda>_. Inr ()))"

text \<open>The validations every operation runs before it reads or writes.\<close>

definition preamble :: "py_env \<Rightarrow> store \<Rightarrow> unit stored" where
  "preamble E s =
     rbind (validate_receipts E s) (\<lambda>_.
     rbind (validate_reviews E s) (\<lambda>_.
     validate_global_operation_ownership s))"

section \<open>Reading operations\<close>

definition load :: "py_env \<Rightarrow> string \<Rightarrow> store \<Rightarrow> (snapshot option \<times> store) stored" where
  "load E aggregate_id s =
     rbind (preamble E s) (\<lambda>_.
     rbind (snapshot_in_transaction E s aggregate_id) (\<lambda>x. Inr (x, s)))"

record commit =
  cm_aggregate_id :: string
  cm_revision :: int
  cm_sha256 :: string
  cm_changed :: bool
  cm_committed_at :: string
  cm_replayed :: bool

definition commit_of_receipt :: "receipt_row \<Rightarrow> commit" where
  "commit_of_receipt r = \<lparr>cm_aggregate_id = op_aggregate_id r, cm_revision = op_revision r,
     cm_sha256 = op_sha256 r, cm_changed = op_changed r, cm_committed_at = op_committed_at r,
     cm_replayed = True\<rparr>"

definition require_operation_id :: "string \<Rightarrow> unit stored" where
  "require_operation_id i = checks [(operation_id_pattern i, Raised (ValueError ''operation_id''))]"

definition get_operation_commit :: "py_env \<Rightarrow> string \<Rightarrow> store \<Rightarrow> (commit option \<times> store) stored" where
  "get_operation_commit E operation_id s =
     rbind (require_operation_id operation_id) (\<lambda>_.
     rbind (preamble E s) (\<lambda>_.
     Inr (map_option commit_of_receipt (find_operation s operation_id), s)))"

definition get_operation_receipt_sha256 :: "py_env \<Rightarrow> string \<Rightarrow> store \<Rightarrow> (string option \<times> store) stored" where
  "get_operation_receipt_sha256 E operation_id s =
     rbind (require_operation_id operation_id) (\<lambda>_.
     rbind (preamble E s) (\<lambda>_.
     Inr (map_option op_receipt_sha256 (find_operation s operation_id), s)))"

definition get_review_request :: "py_env \<Rightarrow> string \<Rightarrow> store \<Rightarrow> (request_view \<times> store) stored" where
  "get_review_request E request_id s =
     rbind (validate_receipts E s) (\<lambda>_.
     rbind (validate_reviews E s) (\<lambda>_.
     rbind (read_review_request E s request_id) (\<lambda>read.
     case read of
       None \<Rightarrow> Inl (ReviewMissing ''review request does not exist'')
     | Some request \<Rightarrow>
         rbind (read_review_decision E s request_id) (\<lambda>decision.
         rbind (lift (request_view_new E \<lparr>rv_request = request,
            rv_lifecycle = lifecycle_of s request, rv_decision = decision\<rparr>)) (\<lambda>view.
         Inr (view, s))))))"

section \<open>Compare and swap\<close>

text \<open>\<open>_review_subject_map\<close>, keyed by the kind's text and the subject id.\<close>

definition review_subject_map :: "aggregate \<Rightarrow> ((string \<times> string) \<times> review_subject) list" where
  "review_subject_map a =
     map (\<lambda>r. ((review_kind_value ReplacementKind, rp_id r), ReplacementSubject r)) (ag_replacements a) @
     map (\<lambda>c. ((review_kind_value ConstraintKind, tc_id c), ConstraintSubject c)) (ag_constraints a)"

definition subject_at :: "aggregate \<Rightarrow> string \<times> string \<Rightarrow> review_subject option" where
  "subject_at a k = map_option snd (dict_get fst (review_subject_map a) k)"

definition assert_generic_proposed_only :: "aggregate \<Rightarrow> unit stored" where
  "assert_generic_proposed_only a = checks
     [(list_all (\<lambda>(_, x). subject_status x = Proposed) (review_subject_map a),
       ReviewTransition ''generic aggregate writes may contain proposed review subjects only'')]"

definition open_bound :: "store \<Rightarrow> string \<Rightarrow> int \<Rightarrow> (string \<times> string) list" where
  "open_bound s aggregate_id revision =
     [(sj_kind x, sj_id x). x \<leftarrow> st_subjects s, r \<leftarrow> st_requests s,
        qr_request_id r = sj_request_id x \<and> qr_aggregate_id r = aggregate_id \<and> qr_base_revision r = revision \<and>
        lookup_key qd_request_id (qr_request_id r) (st_decisions s) = None]"

definition assert_non_review_transition :: "store \<Rightarrow> aggregate \<Rightarrow> aggregate \<Rightarrow> int \<Rightarrow> unit stored" where
  "assert_non_review_transition s current replacement revision = checks
     [(list_all (\<lambda>(k, x). subject_status x \<noteq> Proposed \<longrightarrow> subject_at replacement k = Some x)
          (review_subject_map current) \<and>
       list_all (\<lambda>(k, x). subject_status x = Proposed \<longrightarrow>
            (case subject_at replacement k of None \<Rightarrow> True | Some y \<Rightarrow> subject_status y = Proposed))
          (review_subject_map current),
         ReviewTransition ''reviewed subjects are immutable outside an authoritative decision''),
      (list_all (\<lambda>(k, x). subject_at current k = None \<longrightarrow> subject_status x = Proposed)
          (review_subject_map replacement),
         ReviewTransition ''new reviewed-state subjects require an authoritative decision''),
      (list_all (\<lambda>k. subject_at current k = subject_at replacement k) (open_bound s (ag_id replacement) revision),
         ReviewTransition ''an open review subject cannot be modified or removed by ordinary CAS'')]"

text \<open>\<open>_insert_aggregate_rows\<close> after the DELETE of the fourteen tables, and the head update.\<close>

definition insert_aggregate_rows :: "aggregate \<Rightarrow> store \<Rightarrow> store stored" where
  "insert_aggregate_rows a s =
     (let rw = append_rows (st_rows s (ag_id a)) (aggregate_rows a) in
      rbind (checks [(rows_bindable (aggregate_rows a), OverflowError),
        (schema_ok rw, IntegrityError ''aggregate tables'')]) (\<lambda>_.
      Inr (s\<lparr>st_rows := (st_rows s)(ag_id a := rw)\<rparr>)))"

definition delete_aggregate_rows :: "string \<Rightarrow> store \<Rightarrow> store" where
  "delete_aggregate_rows aggregate_id s = s\<lparr>st_rows := (st_rows s)(aggregate_id := empty_rows)\<rparr>"

definition insert_head :: "head_row \<Rightarrow> store \<Rightarrow> store stored" where
  "insert_head h s =
     rbind (checks [(find_head s (hw_id h) = None, IntegrityError ''change_control_aggregates'')]) (\<lambda>_.
     Inr (s\<lparr>st_heads := st_heads s @ [h]\<rparr>))"

definition update_head :: "string \<Rightarrow> int \<Rightarrow> head_row \<Rightarrow> store \<Rightarrow> store stored" where
  "update_head aggregate_id expected h s =
     rbind (checks
       [(case find_head s aggregate_id of None \<Rightarrow> False | Some old \<Rightarrow> hw_revision old = expected,
         Conflict ''aggregate revision changed during CAS'')]) (\<lambda>_.
     Inr (s\<lparr>st_heads := replace_key hw_id aggregate_id h (st_heads s)\<rparr>))"

definition head_row_for :: "string \<Rightarrow> aggregate \<Rightarrow> int \<Rightarrow> string \<Rightarrow> head_row" where
  "head_row_for now a revision digest =
     \<lparr>hw_id = ag_id a, hw_revision = revision, hw_schema_version = 1, hw_sha256 = digest, hw_updated_at = now\<rparr>"

text \<open>\<open>_replace_aggregate_in_transaction\<close>\<close>

definition replace_aggregate :: "string \<Rightarrow> aggregate \<Rightarrow> int \<Rightarrow> string \<Rightarrow> store \<Rightarrow> store stored" where
  "replace_aggregate now a expected digest s =
     rbind (insert_aggregate_rows a (delete_aggregate_rows (ag_id a) s)) (\<lambda>s1.
     update_head (ag_id a) expected (head_row_for now a (expected + 1) digest) s1)"

definition replay_commit :: "store \<Rightarrow> aggregate \<Rightarrow> int option \<Rightarrow> string \<Rightarrow> receipt_row \<Rightarrow> commit stored" where
  "replay_commit s replacement expected digest receipt =
     rbind (review_operation_owner s (op_id receipt)) (\<lambda>owner.
     rbind (checks
       [(owner = None, Idempotency ''operation_id is owned by an authoritative review write''),
        (op_aggregate_id receipt = ag_id replacement \<and> op_expected receipt = expected \<and>
           op_sha256 receipt = digest,
         Idempotency ''operation_id was already used for different aggregate inputs'')]) (\<lambda>_.
     Inr (commit_of_receipt receipt)))"

definition commit_for :: "string \<Rightarrow> aggregate \<Rightarrow> int \<Rightarrow> string \<Rightarrow> bool \<Rightarrow> commit" where
  "commit_for now a revision digest changed = \<lparr>cm_aggregate_id = ag_id a, cm_revision = revision,
     cm_sha256 = digest, cm_changed = changed, cm_committed_at = now, cm_replayed = False\<rparr>"

definition swap_body ::
  "py_env \<Rightarrow> string \<Rightarrow> aggregate \<Rightarrow> string \<Rightarrow> int option \<Rightarrow> string \<Rightarrow> store \<Rightarrow> (commit \<times> store) stored" where
  "swap_body E now replacement digest expected operation_id s =
     rbind (preamble E s) (\<lambda>_.
     rbind (global_operation_owner s operation_id) (\<lambda>owner.
     rbind (checks [(case owner of None \<Rightarrow> True | Some (o', _) \<Rightarrow> o' = ''legacy'',
        Idempotency ''operation_id is already owned by another authority'')]) (\<lambda>_.
     rbind (case find_head s (ag_id replacement) of None \<Rightarrow> Inr None
        | Some h \<Rightarrow> rbind (hydrate_snapshot E h (capture_rows (st_rows s (ag_id replacement)))) (\<lambda>x. Inr (Some x)))
       (\<lambda>current.
     case find_operation s operation_id of
       Some receipt \<Rightarrow>
         rbind (replay_commit s replacement expected digest receipt) (\<lambda>c. Inr (c, s))
     | None \<Rightarrow>
         (case (find_head s (ag_id replacement), current) of
            (Some h, Some live) \<Rightarrow>
              rbind (checks [(Some (hw_revision h) = expected, Conflict ''expected revision differs'')]) (\<lambda>_.
              rbind (assert_non_review_transition s (ss_aggregate live) replacement (hw_revision h)) (\<lambda>_.
              if ss_sha256 live = digest then
                rbind (insert_receipt (new_receipt E now operation_id (ag_id replacement) expected digest
                   (hw_revision h) False) s) (\<lambda>s1.
                Inr (commit_for now replacement (hw_revision h) digest False, s1))
              else
                rbind (replace_aggregate now replacement (hw_revision h) digest s) (\<lambda>s1.
                rbind (insert_receipt (new_receipt E now operation_id (ag_id replacement) expected digest
                   (hw_revision h + 1) True) s1) (\<lambda>s2.
                Inr (commit_for now replacement (hw_revision h + 1) digest True, s2)))))
          | _ \<Rightarrow>
              rbind (checks [(expected = None, Conflict ''aggregate does not exist'')]) (\<lambda>_.
              rbind (assert_generic_proposed_only replacement) (\<lambda>_.
              rbind (insert_head (head_row_for now replacement 1 digest) s) (\<lambda>s1.
              rbind (insert_aggregate_rows replacement s1) (\<lambda>s2.
              rbind (insert_receipt (new_receipt E now operation_id (ag_id replacement) None digest 1 True) s2) (\<lambda>s3.
              Inr (commit_for now replacement 1 digest True, s3)))))))))))"

definition compare_and_swap ::
  "py_env \<Rightarrow> string \<Rightarrow> aggregate \<Rightarrow> int option \<Rightarrow> string \<Rightarrow> store \<Rightarrow> commit stored \<times> store" where
  "compare_and_swap E now replacement expected operation_id s =
     (case rbind (require_operation_id operation_id) (\<lambda>_.
           rbind (checks [(opt_all (\<lambda>r. 1 \<le> r) expected,
             Raised (ValueError ''expected_revision must be positive or None''))]) (\<lambda>_.
           rbind (lift (aggregate_revalidate E replacement)) (\<lambda>a.
           rbind (lift (aggregate_sha256 E a)) (\<lambda>digest. Inr (a, digest))))) of
        Inl e \<Rightarrow> (Inl e, s)
      | Inr (a, digest) \<Rightarrow> transact (swap_body E now a digest expected operation_id) s)"

definition create :: "py_env \<Rightarrow> string \<Rightarrow> aggregate \<Rightarrow> string \<Rightarrow> store \<Rightarrow> commit stored \<times> store" where
  "create E now a operation_id s = compare_and_swap E now a None operation_id s"

section \<open>Review requests\<close>

text \<open>\<open>model_validate_json(command.model_dump_json())\<close>: the nested models are validated first.\<close>

definition request_command_revalidate :: "py_env \<Rightarrow> review_request_command \<Rightarrow> review_request_command result" where
  "request_command_revalidate E c =
     rbind (rmap subject_ref_new (rc_subjects c)) (\<lambda>subjects.
     review_request_command_new E (c\<lparr>rc_subjects := subjects\<rparr>))"

definition request_matches_command :: "review_request \<Rightarrow> review_request_command \<Rightarrow> bool" where
  "request_matches_command request c \<longleftrightarrow>
     hr_aggregate_id request = rc_aggregate_id c \<and> hr_base_revision request = rc_expected_revision c \<and>
     hr_base_sha256 request = rc_expected_sha256 c \<and> hr_requester request = rc_requester c \<and>
     hr_rationale request = rc_rationale c \<and>
     map snapshot_ref (hr_subjects request) = map (\<lambda>r. (sr_kind r, sr_id r)) (rc_subjects c)"

record request_receipt =
  qc_request :: review_request
  qc_lifecycle :: review_lifecycle
  qc_replayed :: bool

text \<open>One iteration of the loop over \<open>command.subjects\<close>.\<close>

definition take_snapshot :: "py_env \<Rightarrow> aggregate \<Rightarrow> subject_ref \<Rightarrow> subject_snapshot stored" where
  "take_snapshot E a ref =
     rbind (of_option (ReviewMissing ''review subject does not exist'') (subject_from_aggregate a ref)) (\<lambda>x.
     rbind (checks [(subject_status x = Proposed, ReviewTransition
       ''only proposed document replacements and temporal constraints are reviewable'')]) (\<lambda>_.
     lift (subject_snapshot_create E (sr_kind ref) x)))"

definition subject_taken :: "store \<Rightarrow> string \<Rightarrow> int \<Rightarrow> subject_snapshot \<Rightarrow> bool" where
  "subject_taken s aggregate_id revision x \<longleftrightarrow> list_ex (\<lambda>r. sj_aggregate_id r = aggregate_id \<and>
     sj_base_revision r = revision \<and> (sj_kind r, sj_id r) = snapshot_key x) (st_subjects s)"

definition request_row_of :: "review_request \<Rightarrow> request_row" where
  "request_row_of r =
     \<lparr>qr_request_id = hr_request_id r, qr_operation_id = hr_operation_id r,
      qr_aggregate_id = hr_aggregate_id r, qr_base_revision = hr_base_revision r,
      qr_base_sha256 = hr_base_sha256 r, qr_schema_version = 1, qr_base = hr_base r,
      qr_requester = hr_requester r, qr_rationale = hr_rationale r, qr_requested_at = hr_requested_at r,
      qr_payload_sha256 = hr_payload_sha256 r\<rparr>"

definition subject_rows_for :: "review_request \<Rightarrow> subject_row list" where
  "subject_rows_for r = map (\<lambda>(n, x).
     \<lparr>sj_request_id = hr_request_id r, sj_aggregate_id = hr_aggregate_id r,
      sj_base_revision = hr_base_revision r, sj_ordinal = n, sj_kind = review_kind_value (sn_kind x),
      sj_id = sn_id x, sj_version = 1, sj_payload = sn_subject x, sj_sha256 = sn_sha256 x\<rparr>)
     (enumerate 0 (hr_subjects r))"

text \<open>\<open>length\<close> of SQLite on a text: the characters before the first NUL.\<close>

definition sql_length :: "string \<Rightarrow> nat" where
  "sql_length t = length (takeWhile (\<lambda>c. c \<noteq> CHR 0x00) t)"

definition sql_between :: "string \<Rightarrow> nat \<Rightarrow> nat \<Rightarrow> bool" where
  "sql_between t lo hi \<longleftrightarrow> lo \<le> sql_length t \<and> sql_length t \<le> hi"

text \<open>The CHECK and FOREIGN KEY constraints of the request tables, for a new row.\<close>

definition request_row_check :: "store \<Rightarrow> request_row \<Rightarrow> bool" where
  "request_row_check s x \<longleftrightarrow>
     find_operation s (qr_operation_id x) \<noteq> None \<and> find_head s (qr_aggregate_id x) \<noteq> None \<and>
     1 \<le> qr_base_revision x \<and> sql_length (qr_base_sha256 x) = 64 \<and> qr_schema_version x = 1 \<and>
     sql_between (qr_requester x) 1 128 \<and> sql_between (qr_rationale x) 1 4000 \<and>
     sql_length (qr_payload_sha256 x) = 64"

definition subject_row_check :: "request_row list \<Rightarrow> subject_row \<Rightarrow> bool" where
  "subject_row_check requests x \<longleftrightarrow>
     1 \<le> sj_base_revision x \<and> sj_kind x \<in> {''document-replacement'', ''temporal-constraint''} \<and>
     sj_version x = 1 \<and> sql_length (sj_sha256 x) = 64 \<and>
     (\<exists>r \<in> set requests. qr_request_id r = sj_request_id x \<and> qr_aggregate_id r = sj_aggregate_id x \<and>
        qr_base_revision r = sj_base_revision x)"

text \<open>The two INSERT statements; a violated constraint of the tables raises.\<close>

definition insert_request :: "review_request \<Rightarrow> store \<Rightarrow> store stored" where
  "insert_request r s =
     (let requests = st_requests s @ [request_row_of r]; subjects = st_subjects s @ subject_rows_for r in
      rbind (checks
        [(request_row_check s (request_row_of r) \<and>
            distinct (map qr_request_id requests) \<and> distinct (map qr_operation_id requests),
            IntegrityError ''change_control_review_requests''),
         (list_all (subject_row_check requests) (subject_rows_for r) \<and>
            distinct (map (\<lambda>x. (sj_request_id x, sj_ordinal x)) subjects) \<and>
            distinct (map (\<lambda>x. (sj_request_id x, sj_kind x, sj_id x)) subjects) \<and>
            distinct (map (\<lambda>x. (sj_aggregate_id x, sj_base_revision x, sj_kind x, sj_id x)) subjects),
            IntegrityError ''change_control_review_request_subjects'')]) (\<lambda>_.
      Inr (s\<lparr>st_requests := requests, st_subjects := subjects\<rparr>)))"

definition new_request ::
  "py_env \<Rightarrow> string \<Rightarrow> review_request_command \<Rightarrow> string \<Rightarrow> snapshot \<Rightarrow> subject_snapshot list \<Rightarrow> review_request" where
  "new_request E now c operation_id current ordered =
     (let request_id = human_review_request_id E (rc_aggregate_id c) (ss_revision current)
            (ss_sha256 current) ordered in
      \<lparr>hr_request_id = request_id, hr_operation_id = operation_id, hr_aggregate_id = rc_aggregate_id c,
       hr_base_revision = ss_revision current, hr_base_sha256 = ss_sha256 current,
       hr_base = ss_aggregate current, hr_subjects = ordered, hr_requester = rc_requester c,
       hr_rationale = rc_rationale c, hr_requested_at = now,
       hr_payload_sha256 = human_review_request_payload_sha256 E request_id operation_id
         (rc_requester c) (rc_rationale c)\<rparr>)"

definition request_replay ::
  "py_env \<Rightarrow> review_request_command \<Rightarrow> string \<Rightarrow> store \<Rightarrow> request_receipt stored" where
  "request_replay E c operation_id s =
     rbind (review_operation_owner s operation_id) (\<lambda>owner.
     rbind (checks [(owner = Some ''request'',
        Idempotency ''operation_id is already owned by another write'')]) (\<lambda>_.
     rbind (of_option (Raised AssertionError) (lookup_key qr_operation_id operation_id (st_requests s))) (\<lambda>row.
     rbind (read_review_request E s (qr_request_id row)) (\<lambda>read.
     rbind (of_option (Raised AssertionError) read) (\<lambda>existing.
     rbind (checks [(request_matches_command existing c,
        Idempotency ''review request operation_id was reused for different inputs'')]) (\<lambda>_.
     Inr \<lparr>qc_request = existing, qc_lifecycle = lifecycle_of s existing, qc_replayed = True\<rparr>))))))"

definition request_fresh ::
  "py_env \<Rightarrow> string \<Rightarrow> review_request_command \<Rightarrow> string \<Rightarrow> store \<Rightarrow> (request_receipt \<times> store) stored" where
  "request_fresh E now c operation_id s =
     rbind (snapshot_in_transaction E s (rc_aggregate_id c)) (\<lambda>loaded.
     rbind (of_option (ReviewMissing ''review aggregate does not exist'') loaded) (\<lambda>current.
     rbind (checks [(ss_revision current = rc_expected_revision c \<and> ss_sha256 current = rc_expected_sha256 c,
        Conflict ''review request base revision or aggregate SHA differs from the live head'')]) (\<lambda>_.
     rbind (rmap (take_snapshot E (ss_aggregate current)) (rc_subjects c)) (\<lambda>snapshots.
     let ordered = sort_key snapshot_key snapshots;
         request = new_request E now c operation_id current ordered in
     rbind (checks
       [(lookup_key qr_request_id (hr_request_id request) (st_requests s) = None,
           Idempotency ''logical review request already exists under another operation_id''),
        (list_all (\<lambda>x. \<not> subject_taken s (rc_aggregate_id c) (ss_revision current) x) ordered,
           ReviewTransition ''review request overlaps an existing subject at the same revision'')]) (\<lambda>_.
     rbind (insert_receipt (new_receipt E now operation_id (rc_aggregate_id c) (Some (ss_revision current))
        (ss_sha256 current) (ss_revision current) False) s) (\<lambda>s1.
     rbind (insert_request request s1) (\<lambda>s2.
     rbind (lift (review_request_new E request)) (\<lambda>built.
     Inr (\<lparr>qc_request = built, qc_lifecycle = Open, qc_replayed = False\<rparr>, s2)))))))))"

definition request_body ::
  "py_env \<Rightarrow> string \<Rightarrow> review_request_command \<Rightarrow> string \<Rightarrow> store \<Rightarrow> (request_receipt \<times> store) stored" where
  "request_body E now c operation_id s =
     rbind (preamble E s) (\<lambda>_.
     rbind (global_operation_owner s operation_id) (\<lambda>owner.
     rbind (checks [(case owner of None \<Rightarrow> True | Some (o', _) \<Rightarrow> o' = ''legacy'',
        Idempotency ''operation_id is already owned by another authority'')]) (\<lambda>_.
     if find_operation s operation_id \<noteq> None
     then rbind (request_replay E c operation_id s) (\<lambda>r. Inr (r, s))
     else request_fresh E now c operation_id s)))"

definition create_review_request ::
  "py_env \<Rightarrow> string \<Rightarrow> review_request_command \<Rightarrow> string \<Rightarrow> store \<Rightarrow> request_receipt stored \<times> store" where
  "create_review_request E now c operation_id s =
     (case rbind (require_operation_id operation_id) (\<lambda>_. lift (request_command_revalidate E c)) of
        Inl e \<Rightarrow> (Inl e, s)
      | Inr command \<Rightarrow> transact (request_body E now command operation_id) s)"

section \<open>Review decisions\<close>

definition decision_item_revalidate :: "py_env \<Rightarrow> decision_item \<Rightarrow> decision_item result" where
  "decision_item_revalidate E i =
     rbind (case it_edit i of None \<Rightarrow> Inr None | Some e \<Rightarrow> rbind (subject_edit_new E e) (\<lambda>e'. Inr (Some e')))
       (\<lambda>edit. decision_item_new (i\<lparr>it_edit := edit\<rparr>))"

definition decision_command_revalidate :: "py_env \<Rightarrow> decision_command \<Rightarrow> decision_command result" where
  "decision_command_revalidate E c =
     rbind (rmap (decision_item_revalidate E) (dc_items c)) (\<lambda>items.
     decision_command_new E (c\<lparr>dc_items := items\<rparr>))"

definition new_decision ::
  "string \<Rightarrow> decision_command \<Rightarrow> string \<Rightarrow> string \<Rightarrow> int \<Rightarrow> string \<Rightarrow> aggregate \<Rightarrow> review_decision" where
  "new_decision now c operation_id payload_sha revision digest a =
     \<lparr>hd_request_id = dc_request_id c, hd_operation_id = operation_id, hd_reviewer = dc_reviewer c,
      hd_rationale = dc_rationale c, hd_items = dc_items c, hd_payload_sha256 = payload_sha,
      hd_revision = revision, hd_sha256 = digest, hd_aggregate = a, hd_decided_at = now\<rparr>"

definition decision_row_of :: "review_request \<Rightarrow> review_decision \<Rightarrow> decision_row" where
  "decision_row_of r d =
     \<lparr>qd_request_id = hr_request_id r, qd_operation_id = hd_operation_id d,
      qd_aggregate_id = hr_aggregate_id r, qd_base_revision = hr_base_revision r,
      qd_reviewer = hd_reviewer d, qd_rationale = hd_rationale d, qd_payload_sha256 = hd_payload_sha256 d,
      qd_revision = hd_revision d, qd_sha256 = hd_sha256 d, qd_schema_version = 1,
      qd_aggregate = hd_aggregate d, qd_decided_at = hd_decided_at d\<rparr>"

definition item_rows_for :: "string \<Rightarrow> decision_item list \<Rightarrow> item_row list" where
  "item_rows_for request_id items = map (\<lambda>(n, i).
     \<lparr>im_request_id = request_id, im_ordinal = n, im_kind = review_kind_value (it_kind i), im_id = it_id i,
      im_original_sha256 = it_original_sha256 i,
      im_disposition = review_disposition_value (it_disposition i),
      im_rationale = (case it_edit i of None \<Rightarrow> None | Some e \<Rightarrow> ed_rationale e),
      im_confidence = (case it_edit i of None \<Rightarrow> None | Some e \<Rightarrow> ed_confidence e)\<rparr>) (enumerate 0 items)"

text \<open>The CHECK and FOREIGN KEY constraints of the decision tables, for a new row.\<close>

definition decision_row_check :: "store \<Rightarrow> decision_row \<Rightarrow> bool" where
  "decision_row_check s x \<longleftrightarrow>
     find_operation s (qd_operation_id x) \<noteq> None \<and> 1 \<le> qd_base_revision x \<and>
     sql_between (qd_reviewer x) 1 128 \<and> sql_between (qd_rationale x) 1 4000 \<and>
     sql_length (qd_payload_sha256 x) = 64 \<and> qd_revision x = qd_base_revision x + 1 \<and>
     sql_length (qd_sha256 x) = 64 \<and> qd_schema_version x = 1 \<and>
     (\<exists>r \<in> set (st_requests s). qr_request_id r = qd_request_id x \<and> qr_aggregate_id r = qd_aggregate_id x \<and>
        qr_base_revision r = qd_base_revision x)"

definition item_edit_check :: "item_row \<Rightarrow> bool" where
  "item_edit_check x \<longleftrightarrow>
     im_disposition x \<in> {''accepted'', ''rejected''} \<and> im_rationale x = None \<and> im_confidence x = None \<or>
     im_disposition x = ''edited'' \<and> im_kind x = ''document-replacement'' \<and>
       (im_rationale x \<noteq> None \<or> im_confidence x \<noteq> None) \<or>
     im_disposition x = ''edited'' \<and> im_kind x = ''temporal-constraint'' \<and>
       im_rationale x \<noteq> None \<and> im_confidence x = None"

definition item_row_check :: "store \<Rightarrow> decision_row list \<Rightarrow> item_row \<Rightarrow> bool" where
  "item_row_check s decisions x \<longleftrightarrow>
     im_request_id x \<in> qd_request_id ` set decisions \<and>
     im_kind x \<in> {''document-replacement'', ''temporal-constraint''} \<and> sql_length (im_original_sha256 x) = 64 \<and>
     im_disposition x \<in> {''accepted'', ''edited'', ''rejected''} \<and>
     opt_all (\<lambda>t. sql_between t 1 4000) (im_rationale x) \<and> opt_all unit_interval (im_confidence x) \<and>
     (\<exists>y \<in> set (st_subjects s). sj_request_id y = im_request_id x \<and> sj_kind y = im_kind x \<and> sj_id y = im_id x) \<and>
     item_edit_check x"

definition insert_decision :: "review_request \<Rightarrow> review_decision \<Rightarrow> store \<Rightarrow> store stored" where
  "insert_decision r d s =
     (let decisions = st_decisions s @ [decision_row_of r d];
          new_items = item_rows_for (hr_request_id r) (hd_items d);
          items = st_items s @ new_items in
      rbind (checks
        [(decision_row_check s (decision_row_of r d) \<and>
            distinct (map qd_request_id decisions) \<and> distinct (map qd_operation_id decisions),
            IntegrityError ''change_control_review_decisions''),
         (list_all (item_row_check s decisions) new_items \<and>
            distinct (map (\<lambda>x. (im_request_id x, im_ordinal x)) items) \<and>
            distinct (map (\<lambda>x. (im_request_id x, im_kind x, im_id x)) items),
            IntegrityError ''change_control_review_decision_items'')]) (\<lambda>_.
      Inr (s\<lparr>st_decisions := decisions, st_items := items\<rparr>)))"

definition decision_replay ::
  "py_env \<Rightarrow> decision_command \<Rightarrow> string \<Rightarrow> string \<Rightarrow> store \<Rightarrow> decision_receipt stored" where
  "decision_replay E c payload_sha operation_id s =
     rbind (review_operation_owner s operation_id) (\<lambda>owner.
     rbind (checks [(owner = Some ''decision'',
        Idempotency ''operation_id is already owned by another write'')]) (\<lambda>_.
     rbind (of_option (Raised AssertionError) (lookup_key qd_operation_id operation_id (st_decisions s))) (\<lambda>row.
     rbind (read_review_decision E s (qd_request_id row)) (\<lambda>read.
     rbind (of_option (Raised AssertionError) read) (\<lambda>decision.
     rbind (checks [(hd_request_id decision = dc_request_id c \<and> hd_payload_sha256 decision = payload_sha,
        Idempotency ''review decision operation_id was reused for different human inputs'')]) (\<lambda>_.
     lift (decision_receipt_new \<lparr>dr_decision = decision, dr_revision = hd_revision decision,
       dr_sha256 = hd_sha256 decision, dr_replayed = True\<rparr>)))))))"

definition decision_fresh ::
  "py_env \<Rightarrow> string \<Rightarrow> decision_command \<Rightarrow> string \<Rightarrow> string \<Rightarrow> store \<Rightarrow> (decision_receipt \<times> store) stored" where
  "decision_fresh E now c payload_sha operation_id s =
     rbind (read_review_request E s (dc_request_id c)) (\<lambda>read.
     rbind (of_option (ReviewMissing ''review request does not exist'') read) (\<lambda>request.
     rbind (read_review_decision E s (dc_request_id c)) (\<lambda>earlier.
     rbind (checks [(earlier = None,
        ReviewAlreadyDecided ''review request already has an immutable decision'')]) (\<lambda>_.
     rbind (snapshot_in_transaction E s (hr_aggregate_id request)) (\<lambda>current.
     rbind (checks [(case current of None \<Rightarrow> False | Some live \<Rightarrow>
         ss_revision live = hr_base_revision request \<and> ss_sha256 live = hr_base_sha256 request,
        ReviewStale ''review request base no longer matches the live aggregate head'')]) (\<lambda>_.
     rbind (apply_review_decision E request c) (\<lambda>applied.
     rbind (lift (aggregate_revalidate E applied)) (\<lambda>replacement.
     rbind (lift (aggregate_sha256 E replacement)) (\<lambda>digest.
     rbind (replace_aggregate now replacement (hr_base_revision request) digest s) (\<lambda>s1.
     let revision = hr_base_revision request + 1;
         built = new_decision now c operation_id payload_sha revision digest replacement in
     rbind (insert_receipt (new_receipt E now operation_id (hr_aggregate_id request)
        (Some (hr_base_revision request)) digest revision True) s1) (\<lambda>s2.
     rbind (insert_decision request built s2) (\<lambda>s3.
     rbind (lift (review_decision_new E built)) (\<lambda>decision.
     rbind (lift (decision_receipt_new \<lparr>dr_decision = decision, dr_revision = revision,
        dr_sha256 = digest, dr_replayed = False\<rparr>)) (\<lambda>receipt.
     Inr (receipt, s3)))))))))))))))"

definition decision_body ::
  "py_env \<Rightarrow> string \<Rightarrow> decision_command \<Rightarrow> string \<Rightarrow> string \<Rightarrow> store \<Rightarrow> (decision_receipt \<times> store) stored" where
  "decision_body E now c payload_sha operation_id s =
     rbind (preamble E s) (\<lambda>_.
     rbind (global_operation_owner s operation_id) (\<lambda>owner.
     rbind (checks [(case owner of None \<Rightarrow> True | Some (o', _) \<Rightarrow> o' = ''legacy'',
        Idempotency ''operation_id is already owned by another authority'')]) (\<lambda>_.
     if find_operation s operation_id \<noteq> None
     then rbind (decision_replay E c payload_sha operation_id s) (\<lambda>r. Inr (r, s))
     else decision_fresh E now c payload_sha operation_id s)))"

definition decide_review ::
  "py_env \<Rightarrow> string \<Rightarrow> decision_command \<Rightarrow> string \<Rightarrow> store \<Rightarrow> decision_receipt stored \<times> store" where
  "decide_review E now c operation_id s =
     (case rbind (require_operation_id operation_id) (\<lambda>_. lift (decision_command_revalidate E c)) of
        Inl e \<Rightarrow> (Inl e, s)
      | Inr command \<Rightarrow>
          transact (decision_body E now command (human_review_decision_payload_sha256 E command) operation_id) s)"

end
