(* ===== verification/StoreInv.thy ===== *)
theory StoreInv
  imports Store
begin

text \<open>
  The invariant of the change-control store.  A store is consistent when every head's tables are the
  image of one well-formed aggregate, every receipt is valid, and the review tables are the image of
  requests and decisions that bind the aggregates they were made on.  Consistency makes every
  validation of the store succeed; the operations preserve it.
\<close>

section \<open>Heads and their tables\<close>

text \<open>
  The aggregates that can be written and read back: stable under revalidation, one identity payload per claim
  identity, dates of the calendar, offsets that fit a column.
\<close>

definition storable :: "py_env \<Rightarrow> aggregate \<Rightarrow> bool" where
  "storable E a \<longleftrightarrow> aggregate_wf E a \<and> identities_functional a \<and> aggregate_dates_valid a \<and>
     rows_bindable (aggregate_rows a)"

definition live :: "py_env \<Rightarrow> store \<Rightarrow> head_row \<Rightarrow> aggregate \<Rightarrow> bool" where
  "live E s h a \<longleftrightarrow> storable E a \<and> 1 \<le> hw_revision h \<and>
     h = head_of E a (hw_revision h) (hw_updated_at h) \<and> st_rows s (hw_id h) = aggregate_rows a"

definition heads_ok :: "py_env \<Rightarrow> store \<Rightarrow> bool" where
  "heads_ok E s \<longleftrightarrow> distinct (map hw_id (st_heads s)) \<and> (\<forall>h \<in> set (st_heads s). \<exists>a. live E s h a) \<and>
     (\<forall>i. find_head s i = None \<longrightarrow> st_rows s i = empty_rows)"

lemma head_of_fields [simp]:
  "hw_id (head_of E a n t) = ag_id a" "hw_revision (head_of E a n t) = n"
  "hw_updated_at (head_of E a n t) = t" "hw_sha256 (head_of E a n t) = sha256_json E (aggregate_json a)"
  by (simp_all add: head_of_def)

lemma snapshot_of_fields [simp]:
  "ss_aggregate (snapshot_of E a n) = a" "ss_revision (snapshot_of E a n) = n"
  "ss_sha256 (snapshot_of E a n) = sha256_json E (aggregate_json a)"
  by (simp_all add: snapshot_of_def)

lemma live_fields:
  assumes "live E s h a"
  shows "hw_id h = ag_id a" "hw_sha256 h = sha256_json E (aggregate_json a)" "st_rows s (ag_id a) = aggregate_rows a"
    "storable E a" "1 \<le> hw_revision h"
proof -
  from assms have h: "h = head_of E a (hw_revision h) (hw_updated_at h)" by (simp add: live_def)
  show id: "hw_id h = ag_id a" by (subst h) simp
  show "hw_sha256 h = sha256_json E (aggregate_json a)" by (subst h) simp
  show "st_rows s (ag_id a) = aggregate_rows a" "storable E a" "1 \<le> hw_revision h"
    using assms id by (auto simp: live_def)
qed

lemma storable_sha: "storable E a \<Longrightarrow> aggregate_sha256 E a = Inr (sha256_json E (aggregate_json a))"
  by (simp add: storable_def aggregate_wf_def aggregate_sha256_def)

lemma storable_id: "storable E a \<Longrightarrow> normalize_logical_key E (ag_id a) = Inr (ag_id a)"
  by (auto simp: storable_def aggregate_wf_iff aggregate_new_Inr_iff)

lemma capture_empty [simp]: "capture_rows empty_rows = empty_rows"
  by (simp add: capture_rows_def empty_rows_def)

lemma append_empty_rows [simp]: "append_rows empty_rows r = r"
  by (simp add: append_rows_def empty_rows_def)

lemma find_head_Some: "find_head s i = Some h \<Longrightarrow> h \<in> set (st_heads s) \<and> hw_id h = i"
  unfolding find_head_def by (rule lookup_key_Some)

lemma find_head_mem: "heads_ok E s \<Longrightarrow> h \<in> set (st_heads s) \<Longrightarrow> find_head s (hw_id h) = Some h"
  unfolding find_head_def heads_ok_def
  by (subst lookup_key_Some_iff) (auto simp: key_inj_inj_on distinct_map)

lemma live_hydrate:
  assumes "float_ok E" and "live E s h a"
  shows "hydrate_snapshot E h (capture_rows (st_rows s (ag_id a))) = Inr (snapshot_of E a (hw_revision h))"
proof -
  note f = live_fields [OF assms(2)]
  from assms(2) have h: "h = head_of E a (hw_revision h) (hw_updated_at h)" by (simp add: live_def)
  show ?thesis
    unfolding f(3) by (subst h) (use hydrate_written [OF assms(1)] f(4,5) in \<open>simp add: storable_def\<close>)
qed

lemma heads_live:
  assumes "heads_ok E s" and "find_head s i = Some h"
  obtains a where "live E s h a" and "ag_id a = i"
  using assms find_head_Some live_fields(1) unfolding heads_ok_def by metis

lemma live_unique:
  assumes "float_ok E" and "live E s h a" and "live E s h b"
  shows "a = b"
  using live_hydrate [OF assms(1,2)] live_hydrate [OF assms(1,3)] live_fields(1) [OF assms(2)]
    live_fields(1) [OF assms(3)]
  by (metis Inr_inject snapshot_of_fields(1))

lemma snapshot_live:
  assumes "float_ok E" and "find_head s (ag_id a) = Some h" and "live E s h a"
  shows "snapshot_in_transaction E s (ag_id a) = Inr (Some (snapshot_of E a (hw_revision h)))"
  by (simp add: snapshot_in_transaction_def assms live_hydrate [OF assms(1,3)])

lemma snapshot_absent:
  assumes "heads_ok E s" and "find_head s i = None"
  shows "snapshot_in_transaction E s i = Inr None"
  using assms by (simp add: snapshot_in_transaction_def heads_ok_def checks_def guards.simps)

section \<open>Elementary updates\<close>

definition set_live :: "head_row \<Rightarrow> aggregate \<Rightarrow> store \<Rightarrow> store" where
  "set_live h a s = s\<lparr>st_heads := (if find_head s (hw_id h) = None then st_heads s @ [h]
       else replace_key hw_id (hw_id h) h (st_heads s)),
     st_rows := (st_rows s)(hw_id h := aggregate_rows a)\<rparr>"

definition log_receipt :: "receipt_row \<Rightarrow> store \<Rightarrow> store" where
  "log_receipt p s = s\<lparr>st_operations := st_operations s @ [p]\<rparr>"

lemma lookup_key_append:
  "lookup_key key k (xs @ ys) = (case lookup_key key k xs of None \<Rightarrow> lookup_key key k ys | Some x \<Rightarrow> Some x)"
  by (induction xs) (simp_all add: lookup_key_def)

lemma lookup_key_single: "lookup_key key k [x] = (if key x = k then Some x else None)"
  by (simp add: lookup_key_def)

lemma find_head_set_live: "find_head (set_live h a s) i = (if i = hw_id h then Some h else find_head s i)"
  by (auto simp: find_head_def set_live_def lookup_key_append lookup_key_single lookup_replace_key_same
      lookup_replace_key_other split: option.split)

lemma set_live_simps [simp]:
  "st_rows (set_live h a s) = (st_rows s)(hw_id h := aggregate_rows a)"
  "st_operations (set_live h a s) = st_operations s" "st_requests (set_live h a s) = st_requests s"
  "st_subjects (set_live h a s) = st_subjects s" "st_decisions (set_live h a s) = st_decisions s"
  "st_items (set_live h a s) = st_items s" "st_foreign (set_live h a s) = st_foreign s"
  by (simp_all add: set_live_def)

lemma log_receipt_simps [simp]:
  "st_heads (log_receipt p s) = st_heads s" "st_rows (log_receipt p s) = st_rows s"
  "st_operations (log_receipt p s) = st_operations s @ [p]" "st_requests (log_receipt p s) = st_requests s"
  "st_subjects (log_receipt p s) = st_subjects s" "st_decisions (log_receipt p s) = st_decisions s"
  "st_items (log_receipt p s) = st_items s" "st_foreign (log_receipt p s) = st_foreign s"
  "find_head (log_receipt p s) = find_head s"
  by (simp_all add: log_receipt_def find_head_def fun_eq_iff)

lemma find_operation_log:
  "find_operation (log_receipt p s) i = (case find_operation s i of None \<Rightarrow> if op_id p = i then Some p else None
     | Some q \<Rightarrow> Some q)"
  by (simp add: find_operation_def log_receipt_def lookup_key_append lookup_key_single split: option.split)

lemma find_operation_set_live [simp]: "find_operation (set_live h a s) = find_operation s"
  by (simp add: find_operation_def fun_eq_iff)

lemma live_cong:
  assumes "st_rows s' (hw_id h) = st_rows s (hw_id h)"
  shows "live E s' h a = live E s h a"
  using assms by (simp add: live_def)

lemma heads_ok_set_live:
  assumes "heads_ok E s" and "storable E a" and h: "h = head_of E a n t" and "1 \<le> n"
  shows "heads_ok E (set_live h a s)"
proof -
  let ?s = "set_live h a s"
  from assms have new: "live E ?s h a" by (simp add: live_def)
  have keys: "distinct (map hw_id (st_heads ?s))"
  proof (cases "find_head s (hw_id h)")
    case None
    then have "hw_id h \<notin> hw_id ` set (st_heads s)" by (auto simp: find_head_def lookup_key_None)
    with None assms(1) show ?thesis by (simp add: set_live_def heads_ok_def)
  next
    case (Some g)
    with assms(1) show ?thesis by (simp add: set_live_def heads_ok_def replace_key_keys)
  qed
  have "\<exists>b. live E ?s g b" if "g \<in> set (st_heads ?s)" for g
  proof (cases "hw_id g = hw_id h")
    case True
    from that have "g = h \<or> g \<in> set (st_heads s) \<and> (find_head s (hw_id h) = None \<or> hw_id g \<noteq> hw_id h)"
      by (auto simp: set_live_def replace_key_def split: if_splits)
    with True have "g = h" by (auto simp: find_head_def lookup_key_None)
    with new show ?thesis by blast
  next
    case False
    with that have "g \<in> set (st_heads s)"
      by (auto simp: set_live_def replace_key_def split: if_splits)
    with assms(1) obtain b where "live E s g b" by (auto simp: heads_ok_def)
    with False show ?thesis by (auto simp: live_def)
  qed
  with keys assms(1) show ?thesis
    by (auto simp: heads_ok_def find_head_set_live)
qed

lemma heads_ok_log [simp]: "heads_ok E (log_receipt p s) = heads_ok E s"
proof -
  have "live E (log_receipt p s) h a = live E s h a" for h a by (rule live_cong) simp
  then show ?thesis by (simp add: heads_ok_def)
qed

text \<open>Receipts persist, and a head either stays with its tables or its revision grows.\<close>

definition advances :: "store \<Rightarrow> store \<Rightarrow> bool" where
  "advances s s' \<longleftrightarrow>
     (\<forall>i p. find_operation s i = Some p \<longrightarrow> find_operation s' i = Some p) \<and>
     (\<forall>i h. find_head s i = Some h \<longrightarrow> (\<exists>h'. find_head s' i = Some h' \<and>
        (h' = h \<and> st_rows s' i = st_rows s i \<or> hw_revision h < hw_revision h')))"

lemma advances_refl [simp]: "advances s s"
  by (simp add: advances_def)

lemma advances_head:
  assumes "advances s s'" and "find_head s i = Some h"
  obtains h' where "find_head s' i = Some h'"
    and "h' = h \<and> st_rows s' i = st_rows s i \<or> hw_revision h < hw_revision h'"
  using assms unfolding advances_def by blast

lemma advances_trans:
  assumes st: "advances s t" and tu: "advances t u"
  shows "advances s u"
proof -
  have "\<exists>h'. find_head u i = Some h' \<and>
      (h' = h \<and> st_rows u i = st_rows s i \<or> hw_revision h < hw_revision h')"
    if h: "find_head s i = Some h" for i h
  proof -
    obtain g where g: "find_head t i = Some g" "g = h \<and> st_rows t i = st_rows s i \<or> hw_revision h < hw_revision g"
      using advances_head [OF st h] .
    obtain k where k: "find_head u i = Some k" "k = g \<and> st_rows u i = st_rows t i \<or> hw_revision g < hw_revision k"
      using advances_head [OF tu g(1)] .
    from g(2) k(2) have "k = h \<and> st_rows u i = st_rows s i \<or> hw_revision h < hw_revision k" by auto
    with k(1) show ?thesis by blast
  qed
  with st tu show ?thesis unfolding advances_def by blast
qed

lemma advances_same:
  assumes "find_operation s' = find_operation s" and "find_head s' = find_head s" and "st_rows s' = st_rows s"
  shows "advances s s'"
  using assms by (simp add: advances_def)

lemma advances_log: "advances s (log_receipt p s)"
  by (simp add: advances_def find_operation_log)

lemma advances_set_live:
  assumes "\<And>g. find_head s (hw_id h) = Some g \<Longrightarrow> hw_revision g < hw_revision h"
  shows "advances s (set_live h a s)"
  using assms by (simp add: advances_def find_head_set_live)

section \<open>Receipts\<close>

definition receipts_ok :: "py_env \<Rightarrow> store \<Rightarrow> bool" where
  "receipts_ok E s \<longleftrightarrow> list_all (receipt_valid E s) (st_operations s) \<and>
     list_all operation_id_pattern (owned_operations s) \<and> distinct (owned_operations s) \<and>
     fst ` set (st_foreign s) \<subseteq> set foreign_owners"

lemma receipt_valid_advances:
  assumes "advances s s'" and "receipt_valid E s p"
  shows "receipt_valid E s' p"
proof -
  from assms(2) obtain h where h: "find_head s (op_aggregate_id p) = Some h" "op_revision p \<le> hw_revision h"
    by (auto simp: receipt_valid_def split: option.splits)
  obtain h' where h': "find_head s' (op_aggregate_id p) = Some h'"
    "h' = h \<and> st_rows s' (op_aggregate_id p) = st_rows s (op_aggregate_id p) \<or> hw_revision h < hw_revision h'"
    using advances_head [OF assms(1) h(1)] .
  from h'(2) h(2) have "op_revision p \<le> hw_revision h'" by auto
  with h'(1) have "case find_head s' (op_aggregate_id p) of None \<Rightarrow> False | Some h \<Rightarrow> op_revision p \<le> hw_revision h"
    by simp
  with assms(2) show ?thesis unfolding receipt_valid_def by blast
qed

lemma receipts_ok_advances:
  assumes "advances s s'" and "receipts_ok E s" and "st_operations s' = st_operations s" and "st_foreign s' = st_foreign s"
  shows "receipts_ok E s'"
proof -
  have "owned_operations s' = owned_operations s" using assms(3,4) by (simp add: owned_operations_def)
  moreover have "list_all (receipt_valid E s') (st_operations s)"
    using assms(2) receipt_valid_advances [OF assms(1)] by (simp add: receipts_ok_def list_all_iff)
  ultimately show ?thesis using assms(2-4) by (simp only: receipts_ok_def)
qed

lemma receipts_ok_log:
  assumes "receipts_ok E s" and "receipt_valid E s p" and "op_id p \<notin> set (owned_operations s)"
  shows "receipts_ok E (log_receipt p s)"
proof -
  have same: "receipt_valid E (log_receipt p s) = receipt_valid E s"
    by (simp add: receipt_valid_def fun_eq_iff)
  have "operation_id_pattern (op_id p)" using assms(2) unfolding receipt_valid_def by blast
  then show ?thesis
    using assms unfolding receipts_ok_def same by (auto simp: owned_operations_def list_all_iff)
qed

lemma fresh_operation:
  assumes "receipts_ok E s" and "global_operation_owner s i = Inr owner"
    and "case owner of None \<Rightarrow> True | Some (o', _) \<Rightarrow> o' = ''legacy''" and "find_operation s i = None"
  shows "i \<notin> set (owned_operations s)"
proof
  assume "i \<in> set (owned_operations s)"
  moreover have "i \<notin> op_id ` set (st_operations s)"
    using assms(4) by (auto simp: find_operation_def lookup_key_None)
  ultimately obtain o' x where f: "(o', i, x) \<in> set (st_foreign s)"
    by (auto simp: owned_operations_def)
  with assms(1) have o': "o' \<in> set foreign_owners" by (force simp: receipts_ok_def)
  have "find (\<lambda>(o'', j, _). o'' = o' \<and> j = i) (st_foreign s) \<noteq> None"
    using f by (auto simp: find_None_iff)
  then have "\<exists>y. (o', y) \<in> set (owner_matches s i)"
    using o' by (force simp: owner_matches_def map_filter_def)
  moreover from assms(2) have "set (owner_matches s i) = set_option owner"
    by (auto simp: global_operation_owner_def split: list.splits)
  ultimately have "o' = ''legacy''" using assms(3) by (auto split: option.splits)
  with o' show False by (simp add: foreign_owners_def)
qed

lemma new_receipt_valid:
  assumes E: "hash_ok E" and a: "storable E a" and h: "find_head s (ag_id a) = Some h"
    and le: "n \<le> hw_revision h" and i: "operation_id_pattern i" and now: "canonical_utc now"
    and shape: "receipt_shape (new_receipt E now i (ag_id a) expected (sha256_json E (aggregate_json a)) n changed)"
  shows "receipt_valid E s
    (new_receipt E now i (ag_id a) expected (sha256_json E (aggregate_json a)) n changed)"
  using assms storable_id [OF a]
  by (simp add: receipt_valid_def new_receipt_def receipt_sha256_def sha256_json_def hash_ok_def)

end
