(* ===== verification/StoreAudit.thy ===== *)
theory StoreAudit
  imports StoreInv
begin

text \<open>
  The review tables of a consistent store: they are the image of a list of requests and a list of
  decisions, each bound to the aggregate it was made on.  Reading a row back returns the request or
  decision that was written, and the audit of \<open>_validate_reviews\<close> succeeds.
\<close>

interpretation kind_text: text_codec "\<lambda>_. True" review_kind_value review_kind_of
  by unfold_locales (unfold review_kind_of_def, rule enum_of_value, simp, case_tac x, simp_all)

interpretation outcome_text: text_codec "\<lambda>_. True" review_disposition_value review_disposition_of
  by unfold_locales (unfold review_disposition_of_def, rule enum_of_value, simp, case_tac x, simp_all)

section \<open>Requests and decisions of a consistent store\<close>

text \<open>The aggregate's head is at least at revision \<open>n\<close>, and at revision \<open>n\<close> it is \<open>a\<close>.\<close>

definition anchored :: "py_env \<Rightarrow> store \<Rightarrow> int \<Rightarrow> aggregate \<Rightarrow> bool" where
  "anchored E s n a \<longleftrightarrow> (\<exists>h. find_head s (ag_id a) = Some h \<and> n \<le> hw_revision h \<and>
     (hw_revision h = n \<longrightarrow> live E s h a))"

definition snapshot_readable :: "py_env \<Rightarrow> subject_snapshot \<Rightarrow> bool" where
  "snapshot_readable E x \<longleftrightarrow>
     snapshot_from_payload E (sn_kind x) (sn_id x) 1 (sn_subject x) (sn_sha256 x) = Inr x \<and>
     subject_ref_new \<lparr>sr_kind = sn_kind x, sr_id = sn_id x\<rparr> = Inr \<lparr>sr_kind = sn_kind x, sr_id = sn_id x\<rparr>"

definition request_ok :: "py_env \<Rightarrow> store \<Rightarrow> review_request \<Rightarrow> bool" where
  "request_ok E s r \<longleftrightarrow> review_request_new E r = Inr r \<and> storable E (hr_base r) \<and> subjects_bind_base r \<and>
     list_all (snapshot_readable E) (hr_subjects r) \<and>
     (\<exists>p. find_operation s (hr_operation_id r) = Some p \<and> receipt_matches p (hr_aggregate_id r)
        (hr_base_revision r) (hr_base_sha256 r) (hr_base_revision r) False (hr_requested_at r)) \<and>
     anchored E s (hr_base_revision r) (hr_base r)"

definition decision_ok :: "py_env \<Rightarrow> store \<Rightarrow> review_request \<Rightarrow> review_decision \<Rightarrow> bool" where
  "decision_ok E s r d \<longleftrightarrow> hd_request_id d = hr_request_id r \<and> review_decision_new E d = Inr d \<and>
     list_all (\<lambda>i. decision_item_revalidate E i = Inr i) (hd_items d) \<and>
     apply_human_review_decision E r (decision_command_of d) = Inr (hd_aggregate d) \<and>
     storable E (hd_aggregate d) \<and> hd_revision d = hr_base_revision r + 1 \<and>
     (\<exists>p. find_operation s (hd_operation_id d) = Some p \<and> receipt_matches p (hr_aggregate_id r)
        (hr_base_revision r) (hd_sha256 d) (hd_revision d) True (hd_decided_at d)) \<and>
     anchored E s (hd_revision d) (hd_aggregate d)"

definition audit :: "py_env \<Rightarrow> store \<Rightarrow> review_request list \<Rightarrow> (review_request \<times> review_decision) list \<Rightarrow> bool" where
  "audit E s rs ds \<longleftrightarrow>
     st_requests s = map request_row_of rs \<and> st_subjects s = concat (map subject_rows_for rs) \<and>
     st_decisions s = map (\<lambda>x. decision_row_of (fst x) (snd x)) ds \<and>
     st_items s = concat (map (\<lambda>x. item_rows_for (hr_request_id (fst x)) (hd_items (snd x))) ds) \<and>
     distinct (map hr_request_id rs) \<and> distinct (map hr_operation_id rs) \<and>
     distinct (map (\<lambda>x. hr_request_id (fst x)) ds) \<and> distinct (map (\<lambda>x. hd_operation_id (snd x)) ds) \<and>
     (\<forall>r \<in> set rs. request_ok E s r) \<and> (\<forall>x \<in> set ds. fst x \<in> set rs \<and> decision_ok E s (fst x) (snd x))"

definition store_inv :: "py_env \<Rightarrow> store \<Rightarrow> bool" where
  "store_inv E s \<longleftrightarrow> heads_ok E s \<and> receipts_ok E s \<and> (\<exists>rs ds. audit E s rs ds)"

lemma anchored_advances:
  assumes "advances s s'" and "anchored E s n a"
  shows "anchored E s' n a"
proof -
  from assms(2) obtain h where h: "find_head s (ag_id a) = Some h" "n \<le> hw_revision h"
    "hw_revision h = n \<Longrightarrow> live E s h a"
    by (auto simp: anchored_def)
  obtain h' where h': "find_head s' (ag_id a) = Some h'"
    "h' = h \<and> st_rows s' (ag_id a) = st_rows s (ag_id a) \<or> hw_revision h < hw_revision h'"
    using advances_head [OF assms(1) h(1)] .
  from h'(2) show ?thesis
  proof
    assume same: "h' = h \<and> st_rows s' (ag_id a) = st_rows s (ag_id a)"
    have "hw_id h = ag_id a" using find_head_Some [OF h(1)] by simp
    with same have "live E s' h a = live E s h a" by (intro live_cong) simp
    with same h h'(1) show ?thesis by (auto simp: anchored_def)
  next
    assume "hw_revision h < hw_revision h'"
    with h h'(1) show ?thesis by (auto simp: anchored_def)
  qed
qed

lemma request_ok_advances:
  assumes "advances s s'" and "request_ok E s r"
  shows "request_ok E s' r"
  using assms anchored_advances [OF assms(1)] unfolding request_ok_def advances_def by blast

lemma decision_ok_advances:
  assumes "advances s s'" and "decision_ok E s r d"
  shows "decision_ok E s' r d"
  using assms anchored_advances [OF assms(1)] unfolding decision_ok_def advances_def by blast

lemma audit_advances:
  assumes "advances s s'" and "audit E s rs ds" and "st_requests s' = st_requests s"
    and "st_subjects s' = st_subjects s" and "st_decisions s' = st_decisions s" and "st_items s' = st_items s"
  shows "audit E s' rs ds"
  using assms(2-) request_ok_advances [OF assms(1)] decision_ok_advances [OF assms(1)]
  unfolding audit_def by simp

section \<open>Fields of accepted requests and decisions\<close>

lemma review_request_new_fields:
  assumes "review_request_new E r = Inr r" and "storable E (hr_base r)"
  shows "request_id_pattern (hr_request_id r)" "operation_id_pattern (hr_operation_id r)"
    "1 \<le> hr_base_revision r" "canonical_utc (hr_requested_at r)" "ag_id (hr_base r) = hr_aggregate_id r"
    "hr_base_sha256 r = sha256_json E (aggregate_json (hr_base r))"
    "distinct (map snapshot_key (hr_subjects r))" "hr_subjects r = sort_key snapshot_key (hr_subjects r)"
    "hr_subjects r \<noteq> []"
  using assms storable_sha [OF assms(2)] unfolding review_request_new_def require_canonical_utc_def
  by (auto simp: rbind_Inr_iff)

lemma review_decision_new_fields:
  assumes "review_decision_new E d = Inr d" and "storable E (hd_aggregate d)"
  shows "request_id_pattern (hd_request_id d)" "operation_id_pattern (hd_operation_id d)"
    "canonical_utc (hd_decided_at d)" "decision_command_new E (decision_command_of d) = Inr (decision_command_of d)"
    "hd_sha256 d = sha256_json E (aggregate_json (hd_aggregate d))" "distinct (map item_key (hd_items d))"
    "hd_payload_sha256 d = human_review_decision_payload_sha256 E (decision_command_of d)"
proof -
  have cmd: "c = decision_command_of d" if "decision_command_new E (decision_command_of d) = Inr c" for c
    using that by (auto simp: decision_command_new_def rbind_Inr_iff)
  show "request_id_pattern (hd_request_id d)" "operation_id_pattern (hd_operation_id d)"
    "canonical_utc (hd_decided_at d)" "decision_command_new E (decision_command_of d) = Inr (decision_command_of d)"
    "hd_sha256 d = sha256_json E (aggregate_json (hd_aggregate d))" "distinct (map item_key (hd_items d))"
    "hd_payload_sha256 d = human_review_decision_payload_sha256 E (decision_command_of d)"
    using assms(1) storable_sha [OF assms(2)] unfolding review_decision_new_def require_canonical_utc_def
    by (auto simp: rbind_Inr_iff dest: cmd)
qed

lemma decided_base:
  assumes "request_ok E s r" and "apply_human_review_decision E r c = Inr a"
  shows "ag_id a = hr_aggregate_id r"
proof -
  have base: "aggregate_wf E (hr_base r)" "ag_id (hr_base r) = hr_aggregate_id r"
    using assms(1) review_request_new_fields(5) by (auto simp: request_ok_def storable_def)
  show ?thesis
    using apply_human_review_decision_steps(1) [OF base(1) assms(2)] base(2) by (simp add: decided_aggregate_def)
qed

section \<open>Reading back what was written\<close>

lemma rmap_enumerate:
  assumes "\<And>n x. x \<in> set xs \<Longrightarrow> g (f (n, x)) = Inr x"
  shows "rmap g (map f (enumerate m xs)) = Inr xs"
  using assms by (induction xs arbitrary: m) simp_all

lemma map_index_enumerate:
  assumes "\<And>n x. key (f (n, x)) = n"
  shows "map key (map f (enumerate m xs)) = [m..<m + length xs]"
  using assms by (induction xs arbitrary: m) (simp_all add: upt_conv_Cons del: upt_Suc)

lemma sort_key_enumerate:
  assumes "\<And>n x. key (f (n, x)) = n"
  shows "sort_key key (map f (enumerate 0 xs)) = map f (enumerate 0 xs)"
  by (rule sort_key_id_if_sorted) (use map_index_enumerate [of key f 0 xs, OF assms] in simp)

lemma lookup_key_map: "lookup_key k i (map f xs) = map_option f (lookup_key (\<lambda>x. k (f x)) i xs)"
  by (induction xs) (simp_all add: lookup_key_def)

lemma lookup_key_distinct:
  assumes "distinct (map key xs)" and "x \<in> set xs"
  shows "lookup_key key (key x) xs = Some x"
  using assms by (subst lookup_key_Some_iff) (auto simp: key_inj_inj_on distinct_map)

lemma request_row_select [simp]:
  "qr_request_id (request_row_of r) = hr_request_id r" "qr_operation_id (request_row_of r) = hr_operation_id r"
  "qr_aggregate_id (request_row_of r) = hr_aggregate_id r" "qr_base_revision (request_row_of r) = hr_base_revision r"
  "qr_schema_version (request_row_of r) = 1" "qr_base (request_row_of r) = hr_base r"
  "qr_requested_at (request_row_of r) = hr_requested_at r"
  by (simp_all add: request_row_of_def)

lemma decision_row_select [simp]:
  "qd_request_id (decision_row_of r d) = hr_request_id r" "qd_operation_id (decision_row_of r d) = hd_operation_id d"
  "qd_schema_version (decision_row_of r d) = 1" "qd_aggregate (decision_row_of r d) = hd_aggregate d"
  "qd_decided_at (decision_row_of r d) = hd_decided_at d"
  by (simp_all add: decision_row_of_def)

lemma decode_aggregate_storable: "storable E a \<Longrightarrow> decode_aggregate E a = Inr a"
  by (simp add: decode_aggregate_def storable_def aggregate_wf_def checks_def guards.simps)

lemma subject_rows_written:
  assumes "audit E s rs ds" and "r \<in> set rs"
  shows "subject_rows_of s (hr_request_id r) = subject_rows_for r"
proof -
  have "filter (\<lambda>x. sj_request_id x = hr_request_id r) (concat (map subject_rows_for rs)) = subject_rows_for r"
    using assms by (intro filter_group) (auto simp: audit_def subject_rows_for_def)
  moreover have "sort_key sj_ordinal (subject_rows_for r) = subject_rows_for r"
    unfolding subject_rows_for_def by (rule sort_key_enumerate) simp
  moreover have "st_subjects s = concat (map subject_rows_for rs)" using assms(1) by (simp add: audit_def)
  ultimately show ?thesis by (simp add: subject_rows_of_def)
qed

lemma item_rows_written:
  assumes "audit E s rs ds" and "x \<in> set ds"
  shows "item_rows_of s (hr_request_id (fst x)) = item_rows_for (hr_request_id (fst x)) (hd_items (snd x))"
proof -
  let ?f = "\<lambda>x. item_rows_for (hr_request_id (fst x)) (hd_items (snd x))"
  have "filter (\<lambda>i. im_request_id i = hr_request_id (fst x)) (concat (map ?f ds)) = ?f x"
    using assms by (intro filter_group) (auto simp: audit_def item_rows_for_def)
  moreover have "sort_key im_ordinal (?f x) = ?f x"
    unfolding item_rows_for_def by (rule sort_key_enumerate) simp
  moreover have "st_items s = concat (map ?f ds)" using assms(1) by (simp add: audit_def)
  ultimately show ?thesis by (simp add: item_rows_of_def)
qed

lemma read_request_present:
  assumes a: "audit E s rs ds" and r: "r \<in> set rs"
  shows "read_review_request E s (hr_request_id r) = Inr (Some r)"
proof -
  from a r have ok: "request_ok E s r" and dist: "distinct (map hr_request_id rs)"
    and rows: "st_requests s = map request_row_of rs"
    by (auto simp: audit_def)
  note f = ok [unfolded request_ok_def]
  from f have new: "review_request_new E r = Inr r" and st: "storable E (hr_base r)" by blast+
  have look: "lookup_key qr_request_id (hr_request_id r) (st_requests s) = Some (request_row_of r)"
    unfolding rows lookup_key_map using lookup_key_distinct [OF dist r] by simp
  have ords: "map sj_ordinal (subject_rows_for r) = [0..<0 + length (hr_subjects r)]"
    unfolding subject_rows_for_def by (rule map_index_enumerate) simp
  have subs: "rmap (read_subject E) (subject_rows_for r) = Inr (hr_subjects r)"
    unfolding subject_rows_for_def
    by (rule rmap_enumerate)
      (use f in \<open>auto simp: read_subject_def kind_text.decode_encode snapshot_readable_def list_all_iff checks_def guards.simps\<close>)
  have rec: "\<lparr>hr_request_id = qr_request_id (request_row_of r), hr_operation_id = qr_operation_id (request_row_of r),
      hr_aggregate_id = qr_aggregate_id (request_row_of r), hr_base_revision = qr_base_revision (request_row_of r),
      hr_base_sha256 = qr_base_sha256 (request_row_of r), hr_base = hr_base r, hr_subjects = hr_subjects r,
      hr_requester = qr_requester (request_row_of r), hr_rationale = qr_rationale (request_row_of r),
      hr_requested_at = qr_requested_at (request_row_of r), hr_payload_sha256 = qr_payload_sha256 (request_row_of r)\<rparr> = r"
    by (cases r) (simp add: request_row_of_def)
  have utc: "require_canonical_utc (qr_requested_at (request_row_of r)) = Inr (qr_requested_at (request_row_of r))"
    using review_request_new_fields(4) [OF new st] by (simp add: require_canonical_utc_def guards.simps)
  have base: "decode_aggregate E (qr_base (request_row_of r)) = Inr (hr_base r)"
    using st by (simp add: decode_aggregate_storable)
  show ?thesis
    unfolding read_review_request_def look option.case subject_rows_written [OF a r] Let_def ords subs base utc
      rbind_simps add_0 require_contiguous_upt lift_simps rec new ..
qed

lemma read_request_absent:
  assumes "audit E s rs ds" and "i \<notin> hr_request_id ` set rs"
  shows "read_review_request E s i = Inr None"
proof -
  have "lookup_key qr_request_id i (st_requests s) = None"
    using assms by (auto simp: audit_def lookup_key_None)
  then show ?thesis by (simp add: read_review_request_def)
qed

lemma read_item_row:
  assumes "decision_item_revalidate E i = Inr i"
  shows "read_item E \<lparr>im_request_id = q, im_ordinal = n, im_kind = review_kind_value (it_kind i), im_id = it_id i,
      im_original_sha256 = it_original_sha256 i, im_disposition = review_disposition_value (it_disposition i),
      im_rationale = (case it_edit i of None \<Rightarrow> None | Some e \<Rightarrow> ed_rationale e),
      im_confidence = (case it_edit i of None \<Rightarrow> None | Some e \<Rightarrow> ed_confidence e)\<rparr> = Inr i"
proof -
  have i: "decision_item_new i = Inr i" "it_edit i = Some e \<Longrightarrow> subject_edit_new E e = Inr e" for e
    using assms
    by (auto simp: decision_item_revalidate_def rbind_Inr_iff decision_item_new_def subject_edit_new_def
        split: option.splits review_disposition.splits)
  have rec: "\<lparr>it_kind = it_kind i, it_id = it_id i, it_original_sha256 = it_original_sha256 i,
      it_disposition = it_disposition i, it_edit = it_edit i\<rparr> = i"
    by (cases i) simp
  show ?thesis
  proof (cases "it_disposition i = OutcomeEdited")
    case True
    with i(1) obtain e where e: "it_edit i = Some e" "ed_kind e = it_kind i" "ed_id e = it_id i"
      by (auto simp: decision_item_new_def rbind_Inr_iff split: option.splits)
    have "\<lparr>ed_kind = it_kind i, ed_id = it_id i, ed_rationale = ed_rationale e, ed_confidence = ed_confidence e\<rparr> = e"
      using e by (cases e) simp
    then have "subject_edit_new E \<lparr>ed_kind = it_kind i, ed_id = it_id i, ed_rationale = ed_rationale e,
        ed_confidence = ed_confidence e\<rparr> = Inr e"
      using i(2) [OF e(1)] by (simp only:)
    moreover have "decision_item_new \<lparr>it_kind = it_kind i, it_id = it_id i, it_original_sha256 = it_original_sha256 i,
        it_disposition = OutcomeEdited, it_edit = Some e\<rparr> = Inr i"
      using i(1) rec unfolding e(1) True by (simp only:)
    ultimately show ?thesis
      by (simp add: read_item_def kind_text.decode_encode outcome_text.decode_encode True e(1))
  next
    case False
    with i(1) have none: "it_edit i = None"
      by (cases "it_disposition i") (auto simp: decision_item_new_def rbind_Inr_iff)
    have "decision_item_new \<lparr>it_kind = it_kind i, it_id = it_id i, it_original_sha256 = it_original_sha256 i,
        it_disposition = it_disposition i, it_edit = None\<rparr> = Inr i"
      using i(1) rec unfolding none by (simp only:)
    moreover have "review_disposition_value (it_disposition i) \<noteq> review_disposition_value OutcomeEdited"
      using False by simp
    ultimately show ?thesis
      by (simp add: read_item_def kind_text.decode_encode outcome_text.decode_encode del: review_disposition_value_inj)
  qed
qed

lemma read_decision_present:
  assumes a: "audit E s rs ds" and x: "x \<in> set ds"
  shows "read_review_decision E s (hr_request_id (fst x)) = Inr (Some (snd x))"
proof -
  obtain r d where rd: "x = (r, d)" by (cases x)
  from a x have ok: "decision_ok E s r d" and dist: "distinct (map (\<lambda>x. hr_request_id (fst x)) ds)"
    and rows: "st_decisions s = map (\<lambda>x. decision_row_of (fst x) (snd x)) ds"
    by (auto simp: audit_def rd)
  note f = ok [unfolded decision_ok_def]
  from f have new: "review_decision_new E d = Inr d" and st: "storable E (hd_aggregate d)" by blast+
  have look: "lookup_key qd_request_id (hr_request_id r) (st_decisions s) = Some (decision_row_of r d)"
    unfolding rows lookup_key_map using lookup_key_distinct [OF dist x] by (simp add: rd)
  have ords: "map im_ordinal (item_rows_for (hr_request_id r) (hd_items d)) = [0..<0 + length (hd_items d)]"
    unfolding item_rows_for_def by (rule map_index_enumerate) simp
  have items: "rmap (read_item E) (item_rows_for (hr_request_id r) (hd_items d)) = Inr (hd_items d)"
    unfolding item_rows_for_def
    by (rule rmap_enumerate) (use f in \<open>simp add: read_item_row list_all_iff\<close>)
  have rec: "\<lparr>hd_request_id = qd_request_id (decision_row_of r d), hd_operation_id = qd_operation_id (decision_row_of r d),
      hd_reviewer = qd_reviewer (decision_row_of r d), hd_rationale = qd_rationale (decision_row_of r d),
      hd_items = hd_items d, hd_payload_sha256 = qd_payload_sha256 (decision_row_of r d),
      hd_revision = qd_revision (decision_row_of r d), hd_sha256 = qd_sha256 (decision_row_of r d),
      hd_aggregate = hd_aggregate d, hd_decided_at = qd_decided_at (decision_row_of r d)\<rparr> = d"
    using f by (cases d) (simp add: decision_row_of_def)
  have utc: "require_canonical_utc (qd_decided_at (decision_row_of r d)) = Inr (qd_decided_at (decision_row_of r d))"
    using review_decision_new_fields(3) [OF new st] by (simp add: require_canonical_utc_def guards.simps)
  have agg: "decode_aggregate E (qd_aggregate (decision_row_of r d)) = Inr (hd_aggregate d)"
    using st by (simp add: decode_aggregate_storable)
  have irows: "item_rows_of s (hr_request_id r) = item_rows_for (hr_request_id r) (hd_items d)"
    using item_rows_written [OF a x] by (simp add: rd)
  show ?thesis
    unfolding rd fst_conv snd_conv read_review_decision_def look option.case irows Let_def ords items agg utc
      rbind_simps add_0 require_contiguous_upt lift_simps rec new ..
qed

lemma read_decision_absent:
  assumes "audit E s rs ds" and "i \<notin> (\<lambda>x. hr_request_id (fst x)) ` set ds"
  shows "read_review_decision E s i = Inr None"
proof -
  have "lookup_key qd_request_id i (st_decisions s) = None"
    using assms by (auto simp: audit_def lookup_key_None)
  then show ?thesis by (simp add: read_review_decision_def)
qed

section \<open>The audit of a consistent store succeeds\<close>

lemma live_check_anchored:
  assumes "float_ok E" and "anchored E s n a" and "head_binding s (ag_id a) = Some (n, x)"
  shows "live_check E s (ag_id a) a = Inr ()"
proof -
  from assms(2,3) obtain h where h: "find_head s (ag_id a) = Some h" "live E s h a"
    by (auto simp: anchored_def head_binding_def)
  show ?thesis
    by (simp add: live_check_def snapshot_live [OF assms(1) h] checks_def guards.simps)
qed

lemma check_subjects_ok:
  assumes "subjects_bind_base r" and "list_all (snapshot_readable E) (hr_subjects r)"
  shows "\<exists>us. rmap (check_subject (hr_base r)) (hr_subjects r) = Inr us"
proof (rule rmap_total)
  fix x assume x: "x \<in> set (hr_subjects r)"
  with assms have "subject_ref_new \<lparr>sr_kind = sn_kind x, sr_id = sn_id x\<rparr> = Inr \<lparr>sr_kind = sn_kind x, sr_id = sn_id x\<rparr>"
    "subject_from_aggregate (hr_base r) \<lparr>sr_kind = sn_kind x, sr_id = sn_id x\<rparr> = Some (sn_subject x)"
    "subject_status (sn_subject x) = Proposed"
    by (auto simp: list_all_iff snapshot_readable_def subjects_bind_base_def)
  then show "\<exists>u. check_subject (hr_base r) x = Inr u"
    by (simp add: check_subject_def checks_def guards.simps)
qed

lemma receipt_case:
  "(\<exists>p. f = Some p \<and> P p) \<Longrightarrow> (case f of None \<Rightarrow> False | Some p \<Rightarrow> P p)"
  by auto

lemma validate_review_ok:
  assumes E: "float_ok E" and a: "audit E s rs ds" and r: "r \<in> set rs"
  shows "validate_review E s (request_row_of r) = Inr ()"
proof -
  from a r have ok: "request_ok E s r" by (simp add: audit_def)
  note f = ok [unfolded request_ok_def]
  from f have id: "ag_id (hr_base r) = hr_aggregate_id r" using review_request_new_fields(5) by blast
  from f obtain us where subs: "rmap (check_subject (hr_base r)) (hr_subjects r) = Inr us"
    using check_subjects_ok by blast
  have receipt: "case find_operation s (hr_operation_id r) of None \<Rightarrow> False
      | Some p \<Rightarrow> receipt_matches p (hr_aggregate_id r) (hr_base_revision r) (hr_base_sha256 r)
          (hr_base_revision r) False (hr_requested_at r)"
    using f by (intro receipt_case) blast
  note prefix = validate_review_def request_row_select read_request_present [OF a r] subs receipt
  show ?thesis
  proof (cases "hr_request_id r \<in> (\<lambda>x. hr_request_id (fst x)) ` set ds")
    case False
    from f have anchor: "anchored E s (hr_base_revision r) (hr_base r)" by blast
    have "live_check E s (hr_aggregate_id r) (hr_base r) = Inr ()"
      if "head_binding s (hr_aggregate_id r) = Some (hr_base_revision r, hr_base_sha256 r)"
      using live_check_anchored [OF E anchor, of "hr_base_sha256 r"] that by (simp add: id)
    then show ?thesis
      using receipt by (simp add: prefix read_decision_absent [OF a False] checks_def guards.simps)
  next
    case True
    then obtain x where x: "x \<in> set ds" "hr_request_id (fst x) = hr_request_id r" by auto
    from a x(1) have "fst x \<in> set rs" "distinct (map hr_request_id rs)" and okd: "decision_ok E s (fst x) (snd x)"
      by (auto simp: audit_def)
    with x(2) r have rx: "fst x = r" by (auto simp: distinct_map dest: inj_onD)
    define d where "d = snd x"
    from okd have g: "decision_ok E s r d" by (simp add: rx d_def)
    note g = g [unfolded decision_ok_def]
    have read: "read_review_decision E s (hr_request_id r) = Inr (Some d)"
      using read_decision_present [OF a x(1)] by (simp add: rx d_def)
    have dist: "distinct (map (\<lambda>x. hr_request_id (fst x)) ds)"
      and rows: "st_decisions s = map (\<lambda>x. decision_row_of (fst x) (snd x)) ds"
      using a by (auto simp: audit_def)
    have look: "lookup_key qd_request_id (hr_request_id r) (st_decisions s) = Some (decision_row_of r d)"
      unfolding rows lookup_key_map using lookup_key_distinct [OF dist x(1)] by (simp add: rx d_def)
    from g have new: "review_decision_new E d = Inr d" and st: "storable E (hd_aggregate d)"
      and run: "apply_human_review_decision E r (decision_command_of d) = Inr (hd_aggregate d)"
      and anchor: "anchored E s (hd_revision d) (hd_aggregate d)"
      and revision: "hd_revision d = hr_base_revision r + 1" by blast+
    have did: "ag_id (hd_aggregate d) = hr_aggregate_id r" by (rule decided_base [OF ok run])
    have cmd: "decision_command_new E (decision_command_of d) = Inr (decision_command_of d)"
      by (rule review_decision_new_fields(4) [OF new st])
    have receipt2: "case find_operation s (hd_operation_id d) of None \<Rightarrow> False
        | Some p \<Rightarrow> receipt_matches p (hr_aggregate_id r) (hr_base_revision r) (hd_sha256 d)
            (hd_revision d) True (hd_decided_at d)"
      using g by (intro receipt_case) blast
    have livec: "live_check E s (hr_aggregate_id r) (hd_aggregate d) = Inr ()"
      if "head_binding s (hr_aggregate_id r) = Some (hd_revision d, hd_sha256 d)"
      using live_check_anchored [OF E anchor, of "hd_sha256 d"] that by (simp add: did)
    show ?thesis
      using receipt receipt2 livec
      by (simp add: prefix read look did cmd apply_review_decision_def run revision checks_def guards.simps)
  qed
qed

lemma preamble_ok:
  assumes "float_ok E" and "store_inv E s"
  shows "preamble E s = Inr ()" "validate_receipts E s = Inr ()" "validate_reviews E s = Inr ()"
proof -
  from assms(2) obtain rs ds where a: "audit E s rs ds" and rc: "receipts_ok E s" by (auto simp: store_inv_def)
  show 1: "validate_receipts E s = Inr ()"
    using rc by (simp add: validate_receipts_def receipts_ok_def checks_def guards.simps)
  have "\<exists>us. rmap (validate_review E s) (sort_key qr_request_id (st_requests s)) = Inr us"
  proof (rule rmap_total)
    fix x assume "x \<in> set (sort_key qr_request_id (st_requests s))"
    with a obtain r where "r \<in> set rs" "x = request_row_of r" by (auto simp: audit_def)
    with validate_review_ok [OF assms(1) a] show "\<exists>u. validate_review E s x = Inr u" by blast
  qed
  then show 2: "validate_reviews E s = Inr ()" by (auto simp: validate_reviews_def as_corruption_def)
  have "validate_global_operation_ownership s = Inr ()"
    using rc by (simp add: validate_ownership_Inr receipts_ok_def)
  with 1 2 show "preamble E s = Inr ()" by (simp add: preamble_def)
qed

end
