(* ===== verification/StoreSteps.thy ===== *)
theory StoreSteps
  imports StoreAudit
begin

text \<open>
  The store as a transition system.  \<open>store_step\<close> says what one committed operation may do to the
  tables; every public operation of \<open>Store\<close> is such a step or leaves the tables alone, and every
  step preserves the invariant \<open>store_inv\<close>.
\<close>

section \<open>Steps\<close>

definition add_request :: "review_request \<Rightarrow> store \<Rightarrow> store" where
  "add_request r s = s\<lparr>st_requests := st_requests s @ [request_row_of r],
     st_subjects := st_subjects s @ subject_rows_for r\<rparr>"

definition add_decision :: "review_request \<Rightarrow> review_decision \<Rightarrow> store \<Rightarrow> store" where
  "add_decision r d s = s\<lparr>st_decisions := st_decisions s @ [decision_row_of r d],
     st_items := st_items s @ item_rows_for (hr_request_id r) (hd_items d)\<rparr>"

definition add_foreign :: "string \<times> string \<times> string \<Rightarrow> store \<Rightarrow> store" where
  "add_foreign x s = s\<lparr>st_foreign := st_foreign s @ [x]\<rparr>"

definition digest_of :: "py_env \<Rightarrow> aggregate \<Rightarrow> string" where
  "digest_of E a = sha256_json E (aggregate_json a)"

definition unused :: "store \<Rightarrow> string \<Rightarrow> bool" where
  "unused s i \<longleftrightarrow> operation_id_pattern i \<and> i \<notin> set (owned_operations s)"

text \<open>A receipt of one write, and the head it leaves.\<close>

definition receipt_for ::
  "py_env \<Rightarrow> string \<Rightarrow> string \<Rightarrow> aggregate \<Rightarrow> int option \<Rightarrow> int \<Rightarrow> bool \<Rightarrow> receipt_row" where
  "receipt_for E now i a expected n changed = new_receipt E now i (ag_id a) expected (digest_of E a) n changed"

definition write_at :: "py_env \<Rightarrow> string \<Rightarrow> string \<Rightarrow> aggregate \<Rightarrow> int option \<Rightarrow> int \<Rightarrow> store \<Rightarrow> store" where
  "write_at E now i a expected n s =
     log_receipt (receipt_for E now i a expected n True) (set_live (head_of E a n now) a s)"

inductive store_step :: "py_env \<Rightarrow> store \<Rightarrow> store \<Rightarrow> bool" for E where
  stutter: "store_step E s s"
| created: "\<lbrakk>storable E a; find_head s (ag_id a) = None; assert_generic_proposed_only a = Inr ();
     unused s i; canonical_utc now\<rbrakk> \<Longrightarrow>
     store_step E s (write_at E now i a None 1 s)"
| written: "\<lbrakk>storable E a; find_head s (ag_id a) = Some h; live E s h b;
     assert_non_review_transition s b a (hw_revision h) = Inr (); unused s i; canonical_utc now\<rbrakk> \<Longrightarrow>
     store_step E s (write_at E now i a (Some (hw_revision h)) (hw_revision h + 1) s)"
| kept: "\<lbrakk>storable E a; find_head s (ag_id a) = Some h; hw_sha256 h = digest_of E a;
     unused s i; canonical_utc now\<rbrakk> \<Longrightarrow>
     store_step E s (log_receipt (receipt_for E now i a (Some (hw_revision h)) (hw_revision h) False) s)"
| requested: "\<lbrakk>find_head s (ag_id (hr_base r)) = Some h; live E s h (hr_base r); hr_base_revision r = hw_revision h;
     review_request_new E r = Inr r; subjects_bind_base r; list_all (snapshot_readable E) (hr_subjects r);
     lookup_key qr_request_id (hr_request_id r) (st_requests s) = None;
     unused s (hr_operation_id r); canonical_utc (hr_requested_at r);
     list_all (\<lambda>x. \<not> subject_taken s (hr_aggregate_id r) (hr_base_revision r) x) (hr_subjects r)\<rbrakk> \<Longrightarrow>
     store_step E s (add_request r (log_receipt
       (receipt_for E (hr_requested_at r) (hr_operation_id r) (hr_base r) (Some (hw_revision h)) (hw_revision h) False) s))"
| decided: "\<lbrakk>read_review_request E s (hr_request_id r) = Inr (Some r);
     lookup_key qd_request_id (hr_request_id r) (st_decisions s) = None;
     find_head s (ag_id (hr_base r)) = Some h; live E s h (hr_base r); hr_base_revision r = hw_revision h;
     hd_request_id d = hr_request_id r; hd_revision d = hw_revision h + 1; review_decision_new E d = Inr d;
     list_all (\<lambda>i. decision_item_revalidate E i = Inr i) (hd_items d);
     apply_human_review_decision E r (decision_command_of d) = Inr (hd_aggregate d); storable E (hd_aggregate d);
     unused s (hd_operation_id d); canonical_utc (hd_decided_at d)\<rbrakk> \<Longrightarrow>
     store_step E s (add_decision r d
       (write_at E (hd_decided_at d) (hd_operation_id d) (hd_aggregate d) (Some (hw_revision h)) (hw_revision h + 1) s))"
| elsewhere: "\<lbrakk>fst x \<in> set foreign_owners; unused s (fst (snd x))\<rbrakk> \<Longrightarrow> store_step E s (add_foreign x s)"

inductive_cases store_stepE: "store_step E s t"

lemma add_request_simps [simp]:
  "st_heads (add_request r s) = st_heads s" "st_rows (add_request r s) = st_rows s"
  "st_operations (add_request r s) = st_operations s"
  "st_requests (add_request r s) = st_requests s @ [request_row_of r]"
  "st_subjects (add_request r s) = st_subjects s @ subject_rows_for r"
  "st_decisions (add_request r s) = st_decisions s" "st_items (add_request r s) = st_items s"
  "st_foreign (add_request r s) = st_foreign s"
  "find_head (add_request r s) = find_head s" "find_operation (add_request r s) = find_operation s"
  by (simp_all add: add_request_def find_head_def find_operation_def fun_eq_iff)

lemma add_decision_simps [simp]:
  "st_heads (add_decision r d s) = st_heads s" "st_rows (add_decision r d s) = st_rows s"
  "st_operations (add_decision r d s) = st_operations s" "st_requests (add_decision r d s) = st_requests s"
  "st_subjects (add_decision r d s) = st_subjects s"
  "st_decisions (add_decision r d s) = st_decisions s @ [decision_row_of r d]"
  "st_items (add_decision r d s) = st_items s @ item_rows_for (hr_request_id r) (hd_items d)"
  "st_foreign (add_decision r d s) = st_foreign s"
  "find_head (add_decision r d s) = find_head s" "find_operation (add_decision r d s) = find_operation s"
  by (simp_all add: add_decision_def find_head_def find_operation_def fun_eq_iff)

lemma add_foreign_simps [simp]:
  "st_heads (add_foreign x s) = st_heads s" "st_rows (add_foreign x s) = st_rows s"
  "st_operations (add_foreign x s) = st_operations s" "st_requests (add_foreign x s) = st_requests s"
  "st_subjects (add_foreign x s) = st_subjects s" "st_decisions (add_foreign x s) = st_decisions s"
  "st_items (add_foreign x s) = st_items s" "st_foreign (add_foreign x s) = st_foreign s @ [x]"
  "find_head (add_foreign x s) = find_head s" "find_operation (add_foreign x s) = find_operation s"
  by (simp_all add: add_foreign_def find_head_def find_operation_def fun_eq_iff)

section \<open>Every step preserves the invariant\<close>

lemma heads_ok_cong:
  assumes "st_heads t = st_heads s" and "st_rows t = st_rows s"
  shows "heads_ok E t = heads_ok E s"
  using assms live_cong [of t _ s E] by (simp add: heads_ok_def find_head_def)

lemma receipts_ok_cong:
  assumes "st_heads t = st_heads s" and "st_operations t = st_operations s" and "st_foreign t = st_foreign s"
  shows "receipts_ok E t = receipts_ok E s"
proof -
  have "receipt_valid E t = receipt_valid E s" using assms(1) by (simp add: receipt_valid_def find_head_def fun_eq_iff)
  then show ?thesis using assms by (simp add: receipts_ok_def owned_operations_def)
qed

lemma unused_operation: "unused s i \<Longrightarrow> find_operation s i = None"
  by (auto simp: unused_def owned_operations_def find_operation_def lookup_key_None)

lemma unused_set_live [simp]: "unused (set_live h a s) i = unused s i"
  by (simp add: unused_def owned_operations_def)

lemma receipt_for_select [simp]:
  "op_id (receipt_for E now i a expected n changed) = i"
  "receipt_shape (receipt_for E now i a expected n changed) = (case expected of None \<Rightarrow> changed \<and> n = 1
     | Some e \<Rightarrow> if changed then n = e + 1 else n = e)"
  "receipt_matches (receipt_for E now i a expected n changed) k e x m ch t \<longleftrightarrow>
     ag_id a = k \<and> expected = Some e \<and> digest_of E a = x \<and> n = m \<and> changed = ch \<and> now = t"
  by (simp_all add: receipt_for_def new_receipt_def receipt_shape_def receipt_matches_def split: option.split)

lemma receipts_ok_new:
  assumes E: "hash_ok E" and ok: "receipts_ok E s" and a: "storable E a" and h: "find_head s (ag_id a) = Some h"
    and le: "n \<le> hw_revision h" and u: "unused s i" and now: "canonical_utc now"
    and shape: "receipt_shape (receipt_for E now i a expected n changed)"
  shows "receipts_ok E (log_receipt (receipt_for E now i a expected n changed) s)"
proof (rule receipts_ok_log [OF ok])
  show "receipt_valid E s (receipt_for E now i a expected n changed)"
    using new_receipt_valid [OF E a h le _ now] u shape by (simp add: receipt_for_def digest_of_def unused_def)
  show "op_id (receipt_for E now i a expected n changed) \<notin> set (owned_operations s)"
    using u by (simp add: unused_def)
qed

definition env_ok :: "py_env \<Rightarrow> bool" where
  "env_ok E \<longleftrightarrow> float_ok E \<and> hash_ok E"

lemma advances_write:
  assumes "\<And>h. find_head s (ag_id a) = Some h \<Longrightarrow> hw_revision h < n"
  shows "advances s (write_at E now i a expected n s)"
  unfolding write_at_def
  by (rule advances_trans [OF advances_set_live advances_log]) (use assms in simp)

lemma heads_ok_write:
  assumes "heads_ok E s" and "storable E a" and "1 \<le> n"
  shows "heads_ok E (write_at E now i a expected n s)"
  unfolding write_at_def heads_ok_log by (rule heads_ok_set_live [OF assms(1,2) refl assms(3)])

lemma live_write:
  assumes "storable E a" and "1 \<le> n"
  shows "live E (write_at E now i a expected n s) (head_of E a n now) a"
    "find_head (write_at E now i a expected n s) (ag_id a) = Some (head_of E a n now)"
  using assms by (simp_all add: write_at_def live_def find_head_set_live)

lemma receipts_ok_write:
  assumes "hash_ok E" and "receipts_ok E s" and "storable E a" and "unused s i" and "canonical_utc now"
    and lt: "\<And>h. find_head s (ag_id a) = Some h \<Longrightarrow> hw_revision h < n"
    and shape: "receipt_shape (receipt_for E now i a expected n True)"
  shows "receipts_ok E (write_at E now i a expected n s)"
  unfolding write_at_def
proof (rule receipts_ok_new [OF assms(1) _ assms(3)])
  show "receipts_ok E (set_live (head_of E a n now) a s)"
    by (rule receipts_ok_advances [OF advances_set_live assms(2)]) (use lt in simp_all)
  show "find_head (set_live (head_of E a n now) a s) (ag_id a) = Some (head_of E a n now)"
    by (simp add: find_head_set_live)
qed (use assms in simp_all)

lemma write_at_simps [simp]:
  "st_requests (write_at E now i a expected n s) = st_requests s"
  "st_subjects (write_at E now i a expected n s) = st_subjects s"
  "st_decisions (write_at E now i a expected n s) = st_decisions s"
  "st_items (write_at E now i a expected n s) = st_items s"
  "st_foreign (write_at E now i a expected n s) = st_foreign s"
  "st_operations (write_at E now i a expected n s) = st_operations s @ [receipt_for E now i a expected n True]"
  by (simp_all add: write_at_def)

lemma find_operation_write:
  "unused s i \<Longrightarrow> find_operation (write_at E now i a expected n s) i = Some (receipt_for E now i a expected n True)"
  by (simp add: write_at_def find_operation_log unused_operation)

lemma inv_write:
  assumes E: "env_ok E" and inv: "store_inv E s" and a: "storable E a" and u: "unused s i" and now: "canonical_utc now"
    and lt: "\<And>h. find_head s (ag_id a) = Some h \<Longrightarrow> hw_revision h < n" and n: "1 \<le> n"
    and shape: "receipt_shape (receipt_for E now i a expected n True)"
  shows "store_inv E (write_at E now i a expected n s)"
proof -
  let ?t = "write_at E now i a expected n s"
  from inv obtain rs ds where au: "audit E s rs ds" and h: "heads_ok E s" and r: "receipts_ok E s"
    by (auto simp: store_inv_def)
  have "audit E ?t rs ds" by (rule audit_advances [OF advances_write au]) (use lt in simp_all)
  moreover have "receipts_ok E ?t" using E by (intro receipts_ok_write [OF _ r a u now lt shape]) (simp add: env_ok_def)
  ultimately show ?thesis using heads_ok_write [OF h a n] by (auto simp: store_inv_def)
qed

lemma inv_log:
  assumes E: "env_ok E" and inv: "store_inv E s" and a: "storable E a" and h: "find_head s (ag_id a) = Some h"
    and u: "unused s i" and now: "canonical_utc now"
  shows "store_inv E (log_receipt (receipt_for E now i a (Some (hw_revision h)) (hw_revision h) False) s)"
proof -
  let ?t = "log_receipt (receipt_for E now i a (Some (hw_revision h)) (hw_revision h) False) s"
  from inv obtain rs ds where au: "audit E s rs ds" and hs: "heads_ok E s" and r: "receipts_ok E s"
    by (auto simp: store_inv_def)
  have "audit E ?t rs ds" by (rule audit_advances [OF advances_log au]) simp_all
  moreover have "receipts_ok E ?t"
    using E by (intro receipts_ok_new [OF _ r a h order_refl u now]) (simp_all add: env_ok_def)
  ultimately show ?thesis using hs by (auto simp: store_inv_def)
qed

lemma request_ok_cong:
  assumes "st_heads t = st_heads s" and "st_rows t = st_rows s" and "st_operations t = st_operations s"
  shows "request_ok E t r = request_ok E s r" "decision_ok E t r d = decision_ok E s r d"
  using assms live_cong [of t _ s E]
  by (simp_all add: request_ok_def decision_ok_def anchored_def find_head_def find_operation_def)

lemma audit_request:
  assumes au: "audit E s rs ds"
    and h: "find_head s (ag_id (hr_base r)) = Some h" "live E s h (hr_base r)" "hr_base_revision r = hw_revision h"
    and new: "review_request_new E r = Inr r" "subjects_bind_base r" "list_all (snapshot_readable E) (hr_subjects r)"
    and fresh: "lookup_key qr_request_id (hr_request_id r) (st_requests s) = None"
    and u: "unused s (hr_operation_id r)"
  shows "audit E (add_request r (log_receipt
    (receipt_for E (hr_requested_at r) (hr_operation_id r) (hr_base r) (Some (hw_revision h)) (hw_revision h) False) s))
    (rs @ [r]) ds"
proof -
  let ?p = "receipt_for E (hr_requested_at r) (hr_operation_id r) (hr_base r) (Some (hw_revision h)) (hw_revision h) False"
  let ?t = "log_receipt ?p s" and ?u = "add_request r (log_receipt ?p s)"
  note st = live_fields(4) [OF h(2)]
  have aut: "audit E ?t rs ds" by (rule audit_advances [OF advances_log au]) simp_all
  have "request_ok E ?t r"
    using new st h unused_operation [OF u] review_request_new_fields(5,6) [OF new(1) st] live_cong [of ?t h s E]
    by (auto simp: request_ok_def anchored_def find_operation_log digest_of_def)
  moreover have "hr_request_id r \<notin> hr_request_id ` set rs"
    using fresh au by (auto simp: audit_def lookup_key_None)
  moreover have "hr_operation_id r \<notin> hr_operation_id ` set rs"
    using unused_operation [OF u] au by (auto simp: audit_def request_ok_def)
  ultimately show ?thesis
    using aut unfolding audit_def request_ok_cong [of ?u ?t, OF add_request_simps(1-3)] by auto
qed

lemma inv_request:
  assumes E: "env_ok E" and inv: "store_inv E s"
    and h: "find_head s (ag_id (hr_base r)) = Some h" "live E s h (hr_base r)" "hr_base_revision r = hw_revision h"
    and new: "review_request_new E r = Inr r" "subjects_bind_base r" "list_all (snapshot_readable E) (hr_subjects r)"
    and fresh: "lookup_key qr_request_id (hr_request_id r) (st_requests s) = None"
    and u: "unused s (hr_operation_id r)" and now: "canonical_utc (hr_requested_at r)"
  shows "store_inv E (add_request r (log_receipt
    (receipt_for E (hr_requested_at r) (hr_operation_id r) (hr_base r) (Some (hw_revision h)) (hw_revision h) False) s))"
proof -
  let ?p = "receipt_for E (hr_requested_at r) (hr_operation_id r) (hr_base r) (Some (hw_revision h)) (hw_revision h) False"
  let ?t = "log_receipt ?p s" and ?u = "add_request r (log_receipt ?p s)"
  have inv': "store_inv E ?t" by (rule inv_log [OF E inv live_fields(4) [OF h(2)] h(1) u now])
  from inv obtain rs ds where au: "audit E s rs ds" by (auto simp: store_inv_def)
  note audit_request [OF au h new fresh u]
  with inv' show ?thesis
    using heads_ok_cong [of ?u ?t E] receipts_ok_cong [of ?u ?t E] by (auto simp: store_inv_def)
qed

lemma inv_decision:
  assumes E: "env_ok E" and inv: "store_inv E s"
    and read: "read_review_request E s (hr_request_id r) = Inr (Some r)"
    and fresh: "lookup_key qd_request_id (hr_request_id r) (st_decisions s) = None"
    and h: "find_head s (ag_id (hr_base r)) = Some h" "live E s h (hr_base r)" "hr_base_revision r = hw_revision h"
    and d: "hd_request_id d = hr_request_id r" "hd_revision d = hw_revision h + 1" "review_decision_new E d = Inr d"
      "list_all (\<lambda>i. decision_item_revalidate E i = Inr i) (hd_items d)"
      "apply_human_review_decision E r (decision_command_of d) = Inr (hd_aggregate d)" "storable E (hd_aggregate d)"
    and u: "unused s (hd_operation_id d)" and now: "canonical_utc (hd_decided_at d)"
  shows "store_inv E (add_decision r d
    (write_at E (hd_decided_at d) (hd_operation_id d) (hd_aggregate d) (Some (hw_revision h)) (hw_revision h + 1) s))"
proof -
  let ?a = "hd_aggregate d" and ?n = "hw_revision h + 1"
  let ?t = "write_at E (hd_decided_at d) (hd_operation_id d) ?a (Some (hw_revision h)) ?n s"
  let ?u = "add_decision r d ?t"
  from inv obtain rs ds where au: "audit E s rs ds" by (auto simp: store_inv_def)
  have r: "r \<in> set rs"
  proof (cases "hr_request_id r \<in> hr_request_id ` set rs")
    case True
    then obtain q where q: "hr_request_id r = hr_request_id q" "q \<in> set rs" by (rule imageE)
    have "Inr (Some q) = (Inr (Some r) :: review_request option stored)"
      using read unfolding q(1) read_request_present [OF au q(2)] .
    with q(2) show ?thesis by simp
  next
    case False
    from read show ?thesis unfolding read_request_absent [OF au False] by simp
  qed
  with au have ok: "request_ok E s r" by (simp add: audit_def)
  have id: "ag_id ?a = ag_id (hr_base r)" "ag_id ?a = hr_aggregate_id r"
    using decided_base [OF ok d(5)] ok review_request_new_fields(5) by (auto simp: request_ok_def)
  have lt: "\<And>g. find_head s (ag_id ?a) = Some g \<Longrightarrow> hw_revision g < ?n" using h(1) id by simp
  have n: "1 \<le> ?n" using live_fields(5) [OF h(2)] by simp
  have inv': "store_inv E ?t" by (rule inv_write [OF E inv d(6) u now lt n]) simp_all
  have adv: "advances s ?t" by (rule advances_write) (use lt in simp)
  have aut: "audit E ?t rs ds" by (rule audit_advances [OF adv au]) simp_all
  have "anchored E ?t ?n ?a" using live_write [OF d(6) n] by (auto simp: anchored_def)
  then have "decision_ok E ?t r d"
    using d find_operation_write [OF u] h(3) id review_decision_new_fields(5) [OF d(3,6)]
    by (simp add: decision_ok_def digest_of_def)
  moreover have "hr_request_id r \<notin> (\<lambda>x. hr_request_id (fst x)) ` set ds"
    using fresh au by (auto simp: audit_def lookup_key_None)
  moreover have "hd_operation_id d \<notin> (\<lambda>x. hd_operation_id (snd x)) ` set ds"
    using unused_operation [OF u] au by (auto simp: audit_def decision_ok_def)
  ultimately have "audit E ?u rs (ds @ [(r, d)])"
    using aut r unfolding audit_def request_ok_cong [of ?u ?t, OF add_decision_simps(1-3)] by auto
  with inv' show ?thesis
    using heads_ok_cong [of ?u ?t E] receipts_ok_cong [of ?u ?t E] by (auto simp: store_inv_def)
qed

lemma step_inv:
  assumes "env_ok E" and "store_step E s t" and "store_inv E s"
  shows "store_inv E t"
  using assms(2,3)
proof cases
  case (created a i now)
  then show ?thesis by (auto intro!: inv_write [OF assms(1,3)])
next
  case (written a h b i now)
  then have "1 \<le> hw_revision h + 1" using live_fields(5) [OF written(4)] by simp
  with written show ?thesis by (auto intro!: inv_write [OF assms(1,3)])
next
  case (kept a h i now)
  then show ?thesis by (auto intro!: inv_log [OF assms(1,3)])
next
  case (requested r h)
  then show ?thesis by (auto intro!: inv_request [OF assms(1,3)])
next
  case (decided r h d)
  then show ?thesis by (auto intro!: inv_decision [OF assms(1,3)])
next
  case (elsewhere x)
  have "receipt_valid E t = receipt_valid E s" using elsewhere by (simp add: receipt_valid_def fun_eq_iff)
  then have "receipts_ok E t"
    using assms(3) elsewhere by (auto simp: store_inv_def receipts_ok_def owned_operations_def unused_def list_all_iff)
  moreover have "heads_ok E t = heads_ok E s" by (rule heads_ok_cong) (simp_all add: elsewhere)
  moreover have "audit E t rs ds" if "audit E s rs ds" for rs ds
    by (rule audit_advances [OF advances_same that]) (simp_all add: elsewhere)
  ultimately show ?thesis using assms(3) by (auto simp: store_inv_def)
qed simp

end
