(* ===== verification/Schema.thy ===== *)
theory Schema
  imports Hydration
begin

text \<open>
  The tables accept every well-formed aggregate: the rows that the store writes satisfy each PRIMARY
  KEY, UNIQUE, FOREIGN KEY and CHECK constraint of the schema.
\<close>

section \<open>Keys\<close>

lemma distinct_determined:
  assumes "distinct (map key xs)" and "\<And>x. x \<in> set xs \<Longrightarrow> key x = F (k x)"
  shows "distinct (map k xs)"
proof -
  have "inj_on key (set xs)" "distinct xs" using assms(1) by (simp_all add: distinct_map)
  moreover have "inj_on k (set xs)"
  proof (rule inj_onI)
    fix x y assume "x \<in> set xs" "y \<in> set xs" "k x = k y"
    with assms(2) [of x] assms(2) [of y] calculation(1) show "x = y" by (simp add: inj_on_def)
  qed
  ultimately show ?thesis by (simp add: distinct_map)
qed

lemma distinct_children:
  assumes "distinct (map key xs)" and "\<And>x. x \<in> set xs \<Longrightarrow> distinct (map sub (g x))"
    and "\<And>x r. x \<in> set xs \<Longrightarrow> r \<in> set (g x) \<Longrightarrow> gid r = key x"
  shows "distinct (map (\<lambda>r. (gid r, sub r)) (concat (map g xs)))"
  using assms
proof (induction xs)
  case (Cons x xs)
  have "gid r = key x" if "r \<in> set (g x)" for r using that by (intro Cons.prems(3)) simp_all
  then have "map (\<lambda>r. (gid r, sub r)) (g x) = map (Pair (key x)) (map sub (g x))" by simp
  moreover have "distinct (map (Pair (key x)) (map sub (g x)))"
    using Cons.prems(2) [of x] by (simp add: distinct_map inj_on_def del: map_map)
  ultimately have head: "distinct (map (\<lambda>r. (gid r, sub r)) (g x))" by (simp only:)
  have tail: "distinct (map (\<lambda>r. (gid r, sub r)) (concat (map g xs)))"
    using Cons.prems by (intro Cons.IH) auto
  have "gid r \<noteq> gid r'" if "r \<in> set (g x)" "r' \<in> set (concat (map g xs))" for r r'
  proof -
    from that(2) obtain y where y: "y \<in> set xs" "r' \<in> set (g y)" by auto
    then have "gid r' = key y" by (intro Cons.prems(3)) simp_all
    moreover have "gid r = key x" using that(1) by (intro Cons.prems(3)) simp_all
    moreover have "key x \<noteq> key y" using Cons.prems(1) y(1) by auto
    ultimately show ?thesis by simp
  qed
  then have "(\<lambda>r. (gid r, sub r)) ` set (g x) \<inter> (\<lambda>r. (gid r, sub r)) ` set (concat (map g xs)) = {}"
    by fastforce
  with head tail show ?case by simp
qed simp

lemma distinct_ordinals:
  assumes "\<And>n x. ord (f (n, x)) = n"
  shows "distinct (map ord (map f (enumerate m xs)))"
proof -
  have "map ord (map f (enumerate m xs)) = [m..<m + length xs]"
    using assms by (induction xs arbitrary: m) (simp_all add: upt_conv_Cons del: upt_Suc)
  then show ?thesis by simp
qed

lemma relation_identity:
  "dependency_new E p = Inr p \<Longrightarrow> dp_id p = stable_content_id E ''dep''
     (dependency_identity_payload (dv_id (dp_downstream p)) (cr_revision_id (dp_upstream p)) (dp_kind p))"
  "replacement_new E r = Inr r \<Longrightarrow>
     rp_id r = stable_content_id E ''rel'' (replacement_identity_payload (dv_id (rp_newer r)) (dv_id (rp_older r)))"
  by (auto simp: dependency_new_def replacement_new_def rbind_Inr_iff)

lemma relation_id_nonempty: "relation_assessment_wf E x \<Longrightarrow> ra_id x \<noteq> Some []"
  by (auto simp: relation_assessment_wf_iff relation_assessment_new_def rbind_Inr_iff opt_all_def content_id_pattern_def)

lemma map_filter_relation_ids:
  "(\<And>x. x \<in> set xs \<Longrightarrow> ra_id x \<noteq> Some []) \<Longrightarrow>
     List.map_filter rr_id (map relation_row_of xs) = persisted_relation_ids xs"
proof (induction xs)
  case (Cons x xs)
  from Cons.prems [of x] Cons.IH Cons.prems show ?case
    by (auto simp: persisted_relation_ids_def map_filter_simps relation_row_of_def split: option.splits)
qed (simp add: persisted_relation_ids_def map_filter_simps)

lemma rows_keys_written:
  assumes wf: "aggregate_wf E a"
  shows "rows_keys (aggregate_rows a)"
proof -
  note parts = aggregate_parts_wf [OF wf] and can = aggregate_parts_canonical [OF wf, unfolded canonical_def, THEN conjunct2]
  let ?is = "identity_revisions (ag_claims a)"
  have pid: "ra_pair_id = (\<lambda>x. cp_id (ra_pair x))" by (simp add: ra_pair_id_def fun_eq_iff)
  have claim: "claim_revision_new E c = Inr c" if "c \<in> set (ag_claims a)" for c
    using parts(4) [OF that] by (simp add: claim_revision_wf_iff)
  have assess: "claim_pair_new E (ra_pair x) = Inr (ra_pair x)" if "x \<in> set (ag_graph a)" for x
    using parts(5) [OF that] by (simp add: relation_assessment_wf_iff claim_pair_wf_iff)
  have dep: "dependency_new E p = Inr p" if "p \<in> set (ag_dependencies a)" for p
    using parts(6) [OF that] by (simp add: dependency_wf_iff)
  have rep: "replacement_new E r = Inr r" if "r \<in> set (ag_replacements a)" for r
    using parts(1) [OF that] by (simp add: replacement_wf_iff)
  have con: "temporal_constraint_new E c = Inr c" if "c \<in> set (ag_constraints a)" for c
    using parts(2) [OF that] by (simp add: temporal_constraint_wf_iff)
  have "distinct (map (\<lambda>d. (dv_family d, dv_version_label d)) (ag_documents a))"
    by (rule distinct_determined [OF can(3), where F = "\<lambda>(f, v). stable_content_id E ''docv'' (document_identity_payload f v)"])
      (use parts(3) document_version_wf_iff in auto)
  moreover have "distinct (map (\<lambda>c. (dv_id (cr_document c), cs_claim_id (cr_source c))) ?is)"
    by (rule distinct_determined [OF identity_revisions_props(1), where F = "\<lambda>(d, k). stable_content_id E ''claim'' (claim_identity_payload d k)"])
      (use claim identity_revisions_props(3) claim_revision_new_Inr_iff in fastforce)
  moreover have "distinct (map (\<lambda>x. (fst x, snd x)) (rw_scopes (aggregate_rows a)))"
    unfolding aggregate_rows_def rows.select_convs
    by (rule distinct_children [OF can(4)]) (use claim claim_revision_new_Inr_iff in \<open>auto simp: o_def\<close>)
  moreover have "distinct (map (\<lambda>e. (er_owner e, er_ordinal e)) (rw_claim_evidence (aggregate_rows a)))"
    unfolding aggregate_rows_def rows.select_convs
    by (rule distinct_children [OF can(4)]) (auto simp: evidence_rows_ordinals dest: evidence_rows_owner)
  moreover have "distinct (map cp_id (map ra_pair (ag_graph a)))"
    using can(5) unfolding pid by (simp add: o_def)
  then have "distinct (map (\<lambda>x. (cr_revision_id (cp_first x), cr_revision_id (cp_second x))) (map ra_pair (ag_graph a)))"
    by (rule distinct_determined [where F = "\<lambda>(l, r). stable_content_id E ''pair'' (pair_identity_payload l r)"])
      (use assess claim_pair_new_Inr_iff in fastforce)
  moreover have "distinct (persisted_relation_ids (ag_graph a))"
    using wf by (simp add: aggregate_wf_iff revalidate_wf relation_graph_new_Inr_iff)
  moreover have "distinct (map (\<lambda>p. (dv_id (dp_downstream p), cr_revision_id (dp_upstream p), dp_kind p)) (ag_dependencies a))"
    by (rule distinct_determined [OF can(6), where F = "\<lambda>(d, u, k). stable_content_id E ''dep'' (dependency_identity_payload d u k)"])
      (use dep relation_identity(1) in auto)
  moreover have "distinct (map (\<lambda>s. (sr_dependency_id s, sr_ordinal s)) (rw_spans (aggregate_rows a)))"
    unfolding aggregate_rows_def rows.select_convs
    by (rule distinct_children [OF can(6)], rule distinct_ordinals) (auto simp: span_row_of_def)
  moreover have "distinct (map (\<lambda>x. ((er_owner (snd x), fst x), er_ordinal (snd x))) (rw_span_evidence (aggregate_rows a)))"
    unfolding aggregate_rows_def rows.select_convs span_evidence_flat
    by (rule distinct_children [OF owned_spans_keys [OF can(6)]])
      (auto simp: owned_evidence_def owned_key_def o_def evidence_rows_ordinals dest: evidence_rows_owner)
  then have "distinct (map (\<lambda>(n, x). (er_owner x, n, er_ordinal x)) (rw_span_evidence (aggregate_rows a)))"
    by (rule distinct_determined [where F = "\<lambda>(o', n, k). ((o', n), k)"]) auto
  moreover have "distinct (map (\<lambda>x. (fst x, snd x)) (rw_dependency_claims (aggregate_rows a)))"
    unfolding aggregate_rows_def rows.select_convs
  proof (rule distinct_children [OF can(6)])
    fix p assume "p \<in> set (ag_dependencies a)"
    from dep [OF this] have "distinct (map cr_revision_id (dp_claims p))"
      by (auto simp: dependency_new_def rbind_Inr_iff)
    then show "distinct (map snd (map (\<lambda>c. (dp_id p, cr_revision_id c)) (dp_claims p)))" by (simp add: o_def)
  qed auto
  moreover have "distinct (map (\<lambda>r. (dv_id (rp_newer r), dv_id (rp_older r))) (ag_replacements a))"
    by (rule distinct_determined [OF can(1), where F = "\<lambda>(n, o'). stable_content_id E ''rel'' (replacement_identity_payload n o')"])
      (use rep relation_identity(2) in auto)
  moreover have "distinct (map (\<lambda>b. (br_constraint_id b, br_ordinal b)) (rw_bases (aggregate_rows a)))"
    unfolding aggregate_rows_def rows.select_convs
    by (rule distinct_children [OF can(2)]) (auto simp: basis_rows_fields(1) dest: basis_rows_fields(3))
  moreover have "distinct (map (\<lambda>b. (br_constraint_id b, br_relation_id b)) (rw_bases (aggregate_rows a)))"
    unfolding aggregate_rows_def rows.select_convs
  proof (rule distinct_children [OF can(2)])
    fix c assume "c \<in> set (ag_constraints a)"
    from con [OF this] have "tc_basis c = sorted_set (tc_basis c)"
      by (auto simp: temporal_constraint_new_def rbind_Inr_iff)
    then show "distinct (map br_relation_id (basis_rows_of c))"
      unfolding basis_rows_fields(2) by (simp add: sorted_set_id_iff)
  qed (auto dest: basis_rows_fields(3))
  moreover have "List.map_filter rr_id (map relation_row_of (ag_graph a)) = persisted_relation_ids (ag_graph a)"
    by (rule map_filter_relation_ids) (use relation_id_nonempty parts(5) in blast)
  moreover have "distinct (map (\<lambda>p. (dv_id (dp_downstream p), cr_revision_id (dp_upstream p), dependency_kind_value (dp_kind p)))
      (ag_dependencies a))"
    if "distinct (map (\<lambda>p. (dv_id (dp_downstream p), cr_revision_id (dp_upstream p), dp_kind p)) (ag_dependencies a))"
    by (rule distinct_determined [OF that, where F = "\<lambda>(d, u, k). (d, u, the (dependency_kind_of k))"])
      (simp add: dependency_kind_text.decode_encode)
  ultimately show ?thesis
    using can [unfolded pid] identity_revisions_props(1) [of "ag_claims a"]
    unfolding rows_keys_def
    by (simp add: aggregate_rows_def document_row_of_def identity_row_of_def claim_row_of_def pair_row_of_def
        relation_row_of_def dependency_row_of_def replacement_row_of_def constraint_row_of_def o_def)
qed

section \<open>References and value checks\<close>

lemma relation_endpoints:
  assumes "relation_assessment_wf E x" and "ra_endpoints x = Some e"
  shows "fst e \<in> {cr_revision_id (cp_first (ra_pair x)), cr_revision_id (cp_second (ra_pair x))} \<and>
    snd e \<in> {cr_revision_id (cp_first (ra_pair x)), cr_revision_id (cp_second (ra_pair x))}"
proof -
  from assms(1) have "relation_semantics E x = Inr x"
    using relation_assessment_new_semantics by (auto simp: relation_assessment_wf_iff)
  with assms(2) obtain t u v where "edge_ok E x t u v"
    by (auto simp: relation_semantics_Inr_iff split: if_splits)
  with assms(2) show ?thesis by (auto simp: edge_ok_def)
qed

lemma relation_row_checked:
  assumes "relation_assessment_wf E x"
  shows "relation_row_check (relation_row_of x) \<and> 0 \<le> ra_confidence x \<and> ra_confidence x \<le> 1"
proof -
  from assms have new: "relation_assessment_new E x = Inr x" by (simp add: relation_assessment_wf_iff)
  then have sem: "relation_semantics E x = Inr x" by (rule relation_assessment_new_semantics)
  from new have conf: "0 \<le> ra_confidence x \<and> ra_confidence x \<le> 1"
    by (auto simp: relation_assessment_new_def rbind_Inr_iff unit_interval_def)
  show ?thesis
  proof (cases "ra_disposition x \<in> {Coexists, Unrelated}")
    case True
    with sem conf show ?thesis
      by (auto simp: relation_semantics_Inr_iff relation_row_check_def relation_row_of_def disposition_value_def)
  next
    case False
    with sem obtain t u v where e: "edge_ok E x t u v" by (auto simp: relation_semantics_Inr_iff)
    then have "persisted_type (ra_disposition x) = Inr t" "ra_type x = Some t" "ra_id x \<noteq> None" "ra_endpoints x \<noteq> None"
      by (auto simp: edge_ok_def)
    then show ?thesis
      using conf
      by (auto simp: relation_row_check_def relation_row_of_def disposition_value_def relation_type_value_def persisted_type_Inr)
  qed
qed

lemma written_span:
  assumes "x \<in> set (rw_spans (aggregate_rows a))"
  shows "\<exists>p \<in> set (ag_dependencies a). \<exists>n. \<exists>s \<in> set (dp_spans p). x = span_row_of (dp_id p) (n, s)"
proof -
  from assms obtain p ns where p: "p \<in> set (ag_dependencies a)" and ns: "ns \<in> set (enumerate 0 (dp_spans p))"
    "x = span_row_of (dp_id p) ns"
    by (auto simp: aggregate_rows_def)
  from ns(1) have "snd ns \<in> set (map snd (enumerate 0 (dp_spans p)))" by (metis imageI list.set_map)
  then have "snd ns \<in> set (dp_spans p)" by simp
  with p ns(2) show ?thesis by (metis prod.collapse)
qed

lemma rows_references_written:
  assumes wf: "aggregate_wf E a"
  shows "rows_references (aggregate_rows a)"
proof -
  note closed = closed_bindings [OF wf] and parts = aggregate_parts_wf [OF wf]
  have doc: "dv_id d \<in> dv_id ` set (ag_documents a)" if "dict_get dv_id (ag_documents a) (dv_id d) = Some d" for d
    using dict_get_member [OF that] by blast
  have cl: "cr_revision_id c \<in> cr_revision_id ` set (ag_claims a)"
    if "dict_get cr_revision_id (ag_claims a) (cr_revision_id c) = Some c" for c
    using dict_get_member [OF that] by blast
  have documents: "dr_id ` set (rw_documents (aggregate_rows a)) = dv_id ` set (ag_documents a)"
    by (simp add: aggregate_rows_def image_image document_row_of_def)
  have claims: "kr_id ` set (rw_claims (aggregate_rows a)) = cr_revision_id ` set (ag_claims a)"
    by (simp add: aggregate_rows_def image_image claim_row_of_def)
  have ids: "ir_id ` set (rw_identities (aggregate_rows a)) = cr_identity_id ` set (ag_claims a)"
    by (simp add: aggregate_rows_def image_image identity_row_of_def identity_revisions_props(2))
  have "list_all (\<lambda>x. ir_document_version_id x \<in> dv_id ` set (ag_documents a)) (rw_identities (aggregate_rows a))"
    using identity_revisions_props(3) [of "ag_claims a"] doc [OF closed(1)]
    by (auto simp: aggregate_rows_def list_all_iff identity_row_of_def)
  moreover have "list_all (\<lambda>x. kr_identity_id x \<in> cr_identity_id ` set (ag_claims a)) (rw_claims (aggregate_rows a))"
    by (auto simp: aggregate_rows_def list_all_iff claim_row_of_def)
  moreover have "list_all (\<lambda>x. fst x \<in> cr_revision_id ` set (ag_claims a)) (rw_scopes (aggregate_rows a))"
    by (auto simp: aggregate_rows_def list_all_iff)
  moreover have "list_all (\<lambda>x. er_owner x \<in> cr_revision_id ` set (ag_claims a)) (rw_claim_evidence (aggregate_rows a))"
    by (auto simp: aggregate_rows_def list_all_iff dest!: evidence_rows_owner)
  moreover have "list_all (\<lambda>x. pr_left x \<in> cr_revision_id ` set (ag_claims a) \<and>
      pr_right x \<in> cr_revision_id ` set (ag_claims a)) (rw_pairs (aggregate_rows a))"
    using cl [OF closed(2)] by (auto simp: aggregate_rows_def list_all_iff pair_row_of_def)
  moreover have "list_all (\<lambda>x. rr_pair_id x \<in> pr_id ` set (rw_pairs (aggregate_rows a)) \<and>
      opt_all (\<lambda>i. i \<in> cr_revision_id ` set (ag_claims a)) (rr_first x) \<and>
      opt_all (\<lambda>i. i \<in> cr_revision_id ` set (ag_claims a)) (rr_second x)) (rw_relations (aggregate_rows a))"
  proof -
    have "opt_all (\<lambda>i. i \<in> cr_revision_id ` set (ag_claims a)) (map_option fst (ra_endpoints x)) \<and>
        opt_all (\<lambda>i. i \<in> cr_revision_id ` set (ag_claims a)) (map_option snd (ra_endpoints x))"
      if x: "x \<in> set (ag_graph a)" for x
    proof (cases "ra_endpoints x")
      case (Some e)
      have "fst e \<in> {cr_revision_id (cp_first (ra_pair x)), cr_revision_id (cp_second (ra_pair x))} \<and>
          snd e \<in> {cr_revision_id (cp_first (ra_pair x)), cr_revision_id (cp_second (ra_pair x))}"
        using relation_endpoints [OF parts(5) [OF x] Some] .
      with Some cl [OF closed(2) [OF x]] show ?thesis by (auto simp: opt_all_def)
    qed (simp add: opt_all_def)
    then show ?thesis
      by (auto simp: aggregate_rows_def list_all_iff relation_row_of_def pair_row_of_def image_image)
  qed
  moreover have "list_all (\<lambda>x. dw_downstream x \<in> dv_id ` set (ag_documents a) \<and>
      dw_upstream x \<in> cr_revision_id ` set (ag_claims a)) (rw_dependencies (aggregate_rows a))"
    using closed(3) doc cl by (auto simp: aggregate_rows_def list_all_iff dependency_row_of_def)
  moreover have "list_all (\<lambda>x. sr_dependency_id x \<in> dw_id ` set (rw_dependencies (aggregate_rows a)) \<and>
      sr_document_version_id x \<in> dv_id ` set (ag_documents a)) (rw_spans (aggregate_rows a))"
  proof -
    have "sp_document_version_id s = dv_id (dp_downstream p)" if "p \<in> set (ag_dependencies a)" "s \<in> set (dp_spans p)" for p s
      using parts(6) [OF that(1)] that(2)
      by (auto simp: dependency_wf_iff dependency_new_def rbind_Inr_iff list_all_iff)
    then have "sr_dependency_id x \<in> dp_id ` set (ag_dependencies a) \<and>
        sr_document_version_id x \<in> dv_id ` set (ag_documents a)" if "x \<in> set (rw_spans (aggregate_rows a))" for x
      using written_span [OF that] closed(3) doc by (auto simp: span_row_of_def)
    moreover have "dw_id ` set (rw_dependencies (aggregate_rows a)) = dp_id ` set (ag_dependencies a)"
      by (simp add: aggregate_rows_def image_image dependency_row_of_def)
    ultimately show ?thesis by (simp add: list_all_iff)
  qed
  moreover have "list_all (\<lambda>(n, x). (er_owner x, n) \<in> (\<lambda>s. (sr_dependency_id s, sr_ordinal s)) ` set (rw_spans (aggregate_rows a)))
      (rw_span_evidence (aggregate_rows a))"
  proof -
    have "(er_owner (snd y), fst y) \<in> (\<lambda>s. (sr_dependency_id s, sr_ordinal s)) ` set (rw_spans (aggregate_rows a))"
      if "y \<in> set (rw_span_evidence (aggregate_rows a))" for y
    proof -
      from that obtain p m s where p: "p \<in> set (ag_dependencies a)" and ms: "(m, s) \<in> set (enumerate 0 (dp_spans p))"
        and y: "fst y = m" "snd y \<in> set (evidence_rows (dp_id p) (sp_evidence s))"
        by (auto simp: aggregate_rows_def)
      have "span_row_of (dp_id p) (m, s) \<in> set (rw_spans (aggregate_rows a))"
        using p ms by (auto simp: aggregate_rows_def)
      moreover have "(er_owner (snd y), fst y) =
          (sr_dependency_id (span_row_of (dp_id p) (m, s)), sr_ordinal (span_row_of (dp_id p) (m, s)))"
        using y evidence_rows_owner by (simp add: span_row_of_def)
      ultimately show ?thesis by (rule rev_image_eqI)
    qed
    then show ?thesis unfolding list_all_iff by (auto simp: split_def)
  qed
  moreover have "list_all (\<lambda>x. fst x \<in> dw_id ` set (rw_dependencies (aggregate_rows a)) \<and>
      snd x \<in> cr_revision_id ` set (ag_claims a)) (rw_dependency_claims (aggregate_rows a))"
    using closed(3) cl by (auto simp: aggregate_rows_def list_all_iff dependency_row_of_def image_image)
  moreover have "list_all (\<lambda>x. pl_newer x \<in> dv_id ` set (ag_documents a) \<and> pl_older x \<in> dv_id ` set (ag_documents a))
      (rw_replacements (aggregate_rows a))"
    using closed(4) doc by (auto simp: aggregate_rows_def list_all_iff replacement_row_of_def)
  moreover have "list_all (\<lambda>x. opt_all (\<lambda>i. i \<in> dv_id ` set (ag_documents a)) (tr_target_document x) \<and>
      opt_all (\<lambda>i. i \<in> cr_revision_id ` set (ag_claims a)) (tr_target_claim x)) (rw_constraints (aggregate_rows a))"
  proof -
    have "opt_all (\<lambda>i. i \<in> dv_id ` set (ag_documents a)) (tr_target_document (constraint_row_of c)) \<and>
        opt_all (\<lambda>i. i \<in> cr_revision_id ` set (ag_claims a)) (tr_target_claim (constraint_row_of c))"
      if "c \<in> set (ag_constraints a)" for c
      using closed(5) [OF that] by (cases "tt_kind (tc_target c)") (simp_all add: constraint_row_of_def opt_all_def)
    then show ?thesis by (auto simp: aggregate_rows_def list_all_iff)
  qed
  moreover have "list_all (\<lambda>x. (br_constraint_id x, br_target_kind x) \<in>
      (\<lambda>c. (tr_id c, tr_target_kind c)) ` set (rw_constraints (aggregate_rows a))) (rw_bases (aggregate_rows a))"
    by (auto simp: aggregate_rows_def list_all_iff constraint_row_of_def basis_rows_of_def image_image)
  ultimately show ?thesis
    unfolding rows_references_def Let_def documents claims ids by (intro conjI)
qed

lemma sha256_length: "sha256_pattern s \<Longrightarrow> length s = 64"
  by (simp add: sha256_pattern_def)

lemma rows_checks_written:
  assumes wf: "aggregate_wf E a"
  shows "rows_checks (aggregate_rows a)"
proof -
  note parts = aggregate_parts_wf [OF wf]
  have "list_all (\<lambda>x. dr_namespace x = ''mastervault.document-version.v1'' \<and> length (dr_source_sha256 x) = 64 \<and>
       role_of (dr_role x) \<noteq> None \<and> authority_of (dr_authority x) \<noteq> None) (rw_documents (aggregate_rows a))"
    using parts(3)
    by (auto simp: aggregate_rows_def list_all_iff document_row_of_def document_version_wf_iff sha256_length
        role_text.decode_encode authority_text.decode_encode)
  moreover have "list_all (\<lambda>x. ir_namespace x = ''mastervault.claim-identity.v1'') (rw_identities (aggregate_rows a))"
    by (auto simp: aggregate_rows_def list_all_iff identity_row_of_def)
  moreover have "list_all (\<lambda>x. kr_namespace x = ''mastervault.claim-revision.v1'' \<and> length (kr_note_sha256 x) = 64)
       (rw_claims (aggregate_rows a))"
    using parts(4)
    by (auto simp: aggregate_rows_def list_all_iff claim_row_of_def claim_revision_wf_iff claim_source_wf_iff sha256_length)
  moreover have "list_all (\<lambda>x. er_kind x \<in> {''evidence-ref-v1'', ''structural-evidence-ref-v2''} \<and> er_version x \<in> {1, 2})
       (rw_claim_evidence (aggregate_rows a) @ map snd (rw_span_evidence (aggregate_rows a)))"
  proof -
    have kind: "fst (evidence_kind e) \<in> {''evidence-ref-v1'', ''structural-evidence-ref-v2''} \<and> snd (evidence_kind e) \<in> {1, 2}" for e
      by (cases e) simp_all
    have "er_kind x \<in> {''evidence-ref-v1'', ''structural-evidence-ref-v2''} \<and> er_version x \<in> {1, 2}"
      if "x \<in> set (evidence_rows i es)" for x i es
    proof -
      from that obtain e where "er_kind x = fst (evidence_kind e)" "er_version x = snd (evidence_kind e)"
        by (auto simp: evidence_rows_def)
      with kind [of e] show ?thesis by simp
    qed
    moreover have "\<exists>i es. x \<in> set (evidence_rows i es)"
      if "x \<in> set (rw_claim_evidence (aggregate_rows a) @ map snd (rw_span_evidence (aggregate_rows a)))" for x
      using that by (auto simp: aggregate_rows_def) blast
    ultimately show ?thesis unfolding list_all_iff by blast
  qed
  moreover have "list_all (\<lambda>x. pr_namespace x = ''mastervault.claim-pair.v1'' \<and> pr_left x < pr_right x)
       (rw_pairs (aggregate_rows a))"
    using parts(5)
    by (auto simp: aggregate_rows_def list_all_iff pair_row_of_def relation_assessment_wf_iff claim_pair_wf_iff
        claim_pair_new_Inr_iff)
  moreover have "list_all (\<lambda>x. relation_row_check x \<and> 0 \<le> rr_confidence x \<and> rr_confidence x \<le> 1)
       (rw_relations (aggregate_rows a))"
  proof -
    have "rr_confidence (relation_row_of x) = ra_confidence x" for x by (simp add: relation_row_of_def)
    then show ?thesis using relation_row_checked [OF parts(5)] by (auto simp: aggregate_rows_def list_all_iff)
  qed
  moreover have "list_all (\<lambda>x. dw_relation_type x = ''DEPENDS_ON'' \<and> dependency_kind_of (dw_kind x) \<noteq> None \<and>
       0 \<le> dw_confidence x \<and> dw_confidence x \<le> 1) (rw_dependencies (aggregate_rows a))"
    using parts(6)
    by (auto simp: aggregate_rows_def list_all_iff dependency_row_of_def relation_type_value_def dependency_wf_iff
        dependency_new_def rbind_Inr_iff dependency_kind_text.decode_encode)
  moreover have "list_all (\<lambda>x. length (sr_note_sha256 x) = 64 \<and> 0 \<le> sr_start_char x \<and> sr_start_char x < sr_end_char x)
       (rw_spans (aggregate_rows a))"
  proof -
    have "length (sp_note_sha256 s) = 64 \<and> 0 \<le> sp_start_char s \<and> sp_start_char s < sp_end_char s"
      if "p \<in> set (ag_dependencies a)" "s \<in> set (dp_spans p)" for p s
      using parts(6) [OF that(1)] that(2)
      by (auto simp: dependency_wf_iff document_span_wf_iff document_span_new_def rbind_Inr_iff sha256_length)
    then have "length (sr_note_sha256 x) = 64 \<and> 0 \<le> sr_start_char x \<and> sr_start_char x < sr_end_char x"
      if "x \<in> set (rw_spans (aggregate_rows a))" for x
      using written_span [OF that] by (auto simp: span_row_of_def)
    then show ?thesis unfolding list_all_iff by blast
  qed
  moreover have "list_all (\<lambda>x. pl_namespace x = ''mastervault.document-replacement.v1'' \<and> pl_relation_type x = ''SUPERSEDES'' \<and>
       status_of (pl_status x) \<noteq> None \<and> 0 \<le> pl_confidence x \<and> pl_confidence x \<le> 1) (rw_replacements (aggregate_rows a))"
    using parts(1)
    by (auto simp: aggregate_rows_def list_all_iff replacement_row_of_def relation_type_value_def replacement_wf_iff
        replacement_new_def rbind_Inr_iff status_text.decode_encode unit_interval_def)
  moreover have "list_all (\<lambda>x. tr_namespace x = ''mastervault.temporal-constraint.v1'' \<and>
       tr_resolver x = ''temporal-resolution-v1'' \<and> status_of (tr_status x) \<noteq> None \<and>
       constraint_row_check x) (rw_constraints (aggregate_rows a))"
  proof -
    have "constraint_row_check (constraint_row_of c)" for c
      by (cases "tt_kind (tc_target c)") (simp_all add: constraint_row_check_def constraint_row_of_def target_kind_value_def)
    then show ?thesis
      by (auto simp: aggregate_rows_def list_all_iff status_text.decode_encode) (simp_all add: constraint_row_of_def status_text.decode_encode)
  qed
  ultimately show ?thesis unfolding rows_checks_def by (intro conjI)
qed

lemma schema_ok_written:
  assumes "aggregate_wf E a"
  shows "schema_ok (aggregate_rows a)"
  using rows_keys_written [OF assms] rows_references_written [OF assms] rows_checks_written [OF assms]
  by (simp add: schema_ok_def)

end
