(* ===== verification/StoreOps.thy ===== *)
theory StoreOps
  imports StoreSteps Schema
begin

text \<open>
  The operations of \<open>Store\<close> on a consistent store: which arguments each of them accepts, what it
  returns, and the step of \<open>store_step\<close> it takes.
\<close>

section \<open>Primitive writes\<close>

lemma insert_receipt_Inr:
  "insert_receipt p s = Inr t \<longleftrightarrow> find_operation s (op_id p) = None \<and> t = log_receipt p s"
  by (auto simp: insert_receipt_def rbind_Inr_iff log_receipt_def)

lemma insert_rows_Inr:
  assumes "st_rows s (ag_id a) = empty_rows"
  shows "insert_aggregate_rows a s = Inr t \<longleftrightarrow>
    rows_bindable (aggregate_rows a) \<and> schema_ok (aggregate_rows a) \<and>
      t = s\<lparr>st_rows := (st_rows s)(ag_id a := aggregate_rows a)\<rparr>"
  using assms by (auto simp: insert_aggregate_rows_def rbind_Inr_iff Let_def)

lemma head_row_for_digest: "head_row_for now a n (digest_of E a) = head_of E a n now"
  by (simp add: head_row_for_def head_of_def digest_of_def)

lemma replace_aggregate_Inr:
  assumes "find_head s (ag_id a) = Some h"
  shows "replace_aggregate now a n (digest_of E a) s = Inr t \<longleftrightarrow>
    hw_revision h = n \<and> rows_bindable (aggregate_rows a) \<and> schema_ok (aggregate_rows a) \<and>
      t = set_live (head_of E a (n + 1) now) a s"
proof -
  let ?d = "delete_aggregate_rows (ag_id a) s" and ?rows = "(st_rows s)(ag_id a := aggregate_rows a)"
  have d: "st_rows ?d (ag_id a) = empty_rows" by (simp add: delete_aggregate_rows_def)
  have eq: "?d\<lparr>st_rows := (st_rows ?d)(ag_id a := aggregate_rows a)\<rparr> = s\<lparr>st_rows := ?rows\<rparr>"
    by (simp add: delete_aggregate_rows_def)
  have upd: "update_head (ag_id a) n (head_of E a (n + 1) now) (s\<lparr>st_rows := ?rows\<rparr>) = Inr t \<longleftrightarrow>
      hw_revision h = n \<and> t = set_live (head_of E a (n + 1) now) a s"
    using assms by (auto simp: update_head_def rbind_Inr_iff set_live_def find_head_def)
  show ?thesis
    unfolding replace_aggregate_def rbind_Inr_iff insert_rows_Inr [OF d] eq head_row_for_digest
    using upd by blast
qed

section \<open>Ownership of operation ids\<close>

lemma owner_receipt:
  assumes "receipts_ok E s" and "find_operation s i = Some p"
  shows "global_operation_owner s i = Inr (Some (''legacy'', op_aggregate_id p))"
proof -
  from assms(2) have "i \<in> op_id ` set (st_operations s)"
    by (auto simp: find_operation_def dest: lookup_key_Some)
  with assms(1) have "i \<notin> (\<lambda>x. fst (snd x)) ` set (st_foreign s)"
    by (auto simp: receipts_ok_def owned_operations_def)
  then have none: "find (\<lambda>(o'', j, _). o'' = o' \<and> j = i) (st_foreign s) = None" for o'
    by (force simp: find_None_iff)
  have "List.map_filter (\<lambda>o'. map_option (\<lambda>(_, _, x). (o', x))
      (find (\<lambda>(o'', j, _). o'' = o' \<and> j = i) (st_foreign s))) os = []" for os
    unfolding none by (induction os) (simp_all add: map_filter_simps)
  then show ?thesis by (simp add: global_operation_owner_def owner_matches_def assms(2))
qed

lemma owner_unused:
  assumes "i \<notin> set (owned_operations s)"
  shows "global_operation_owner s i = Inr None"
proof -
  from assms have none: "find (\<lambda>(o'', j, _). o'' = o' \<and> j = i) (st_foreign s) = None" for o'
    by (force simp: find_None_iff owned_operations_def)
  have "List.map_filter (\<lambda>o'. map_option (\<lambda>(_, _, x). (o', x))
      (find (\<lambda>(o'', j, _). o'' = o' \<and> j = i) (st_foreign s))) os = []" for os
    unfolding none by (induction os) (simp_all add: map_filter_simps)
  moreover from assms have "find_operation s i = None"
    by (auto simp: owned_operations_def find_operation_def lookup_key_None)
  ultimately show ?thesis by (simp add: global_operation_owner_def owner_matches_def)
qed

text \<open>The shared prefix of the three writing operations.\<close>

lemma owner_guard_Inr:
  assumes ok: "receipts_ok E s" and i: "operation_id_pattern i"
  shows "rbind (global_operation_owner s i) (\<lambda>owner. rbind (checks [(case owner of None \<Rightarrow> True
      | Some (o', _) \<Rightarrow> o' = ''legacy'', e)]) (\<lambda>_. k)) = Inr x \<longleftrightarrow>
    (find_operation s i \<noteq> None \<or> unused s i) \<and> k = Inr x"
proof (cases "find_operation s i")
  case (Some p)
  then show ?thesis by (simp add: owner_receipt [OF ok Some] checks_def guards.simps)
next
  case None
  show ?thesis
  proof (cases "unused s i")
    case True
    then have "i \<notin> set (owned_operations s)" by (simp add: unused_def)
    with True show ?thesis by (simp add: owner_unused checks_def guards.simps)
  next
    case False
    with i have owned: "i \<in> set (owned_operations s)" by (simp add: unused_def)
    have "rbind (global_operation_owner s i) (\<lambda>owner. rbind (checks [(case owner of None \<Rightarrow> True
        | Some (o', _) \<Rightarrow> o' = ''legacy'', e)]) (\<lambda>_. k)) \<noteq> Inr x"
    proof
      assume "rbind (global_operation_owner s i) (\<lambda>owner. rbind (checks [(case owner of None \<Rightarrow> True
        | Some (o', _) \<Rightarrow> o' = ''legacy'', e)]) (\<lambda>_. k)) = Inr x"
      then obtain owner where "global_operation_owner s i = Inr owner"
        "case owner of None \<Rightarrow> True | Some (o', _) \<Rightarrow> o' = ''legacy''"
        by (auto simp: rbind_Inr_iff)
      from fresh_operation [OF ok this None] owned show False by simp
    qed
    with False None show ?thesis by simp
  qed
qed

section \<open>Compare and swap\<close>

text \<open>The outcomes of an accepted \<open>compare_and_swap\<close>.\<close>

inductive swapped ::
  "py_env \<Rightarrow> string \<Rightarrow> aggregate \<Rightarrow> string \<Rightarrow> store \<Rightarrow> int option \<Rightarrow> commit \<Rightarrow> store \<Rightarrow> bool"
  for E now a i s
where
  replayed: "\<lbrakk>find_operation s i = Some p; op_aggregate_id p = ag_id a; op_expected p = expected;
     op_sha256 p = digest_of E a; review_operation_owner s i = Inr None\<rbrakk> \<Longrightarrow>
     swapped E now a i s expected (commit_of_receipt p) s"
| created: "\<lbrakk>unused s i; find_head s (ag_id a) = None; assert_generic_proposed_only a = Inr ()\<rbrakk> \<Longrightarrow>
     swapped E now a i s None (commit_for now a 1 (digest_of E a) True) (write_at E now i a None 1 s)"
| kept: "\<lbrakk>unused s i; find_head s (ag_id a) = Some h; live E s h b;
     assert_non_review_transition s b a (hw_revision h) = Inr (); digest_of E b = digest_of E a\<rbrakk> \<Longrightarrow>
     swapped E now a i s (Some (hw_revision h)) (commit_for now a (hw_revision h) (digest_of E a) False)
       (log_receipt (receipt_for E now i a (Some (hw_revision h)) (hw_revision h) False) s)"
| written: "\<lbrakk>unused s i; find_head s (ag_id a) = Some h; live E s h b;
     assert_non_review_transition s b a (hw_revision h) = Inr (); digest_of E b \<noteq> digest_of E a\<rbrakk> \<Longrightarrow>
     swapped E now a i s (Some (hw_revision h)) (commit_for now a (hw_revision h + 1) (digest_of E a) True)
       (write_at E now i a (Some (hw_revision h)) (hw_revision h + 1) s)"

inductive_cases swappedE: "swapped E now a i s expected c t"

lemma swapped_step:
  assumes "swapped E now a i s expected c t" and "storable E a" and "canonical_utc now"
  shows "store_step E s t"
  using assms(1)
proof cases
  case (kept h b)
  from live_fields(2) [OF kept(6)] kept(8) have "hw_sha256 h = digest_of E a" by (simp add: digest_of_def)
  with kept assms(2,3) show ?thesis by (auto intro: store_step.kept)
qed (use assms(2,3) in \<open>auto intro: store_step.intros\<close>)

lemma swap_body_Inr:
  assumes E: "env_ok E" and inv: "store_inv E s" and a: "storable E a"
    and i: "operation_id_pattern i"
  shows "swap_body E now a (digest_of E a) expected i s = Inr (c, t) \<longleftrightarrow> swapped E now a i s expected c t"
proof -
  have fl: "float_ok E" using E by (simp add: env_ok_def)
  have schema: "rows_bindable (aggregate_rows a)" "schema_ok (aggregate_rows a)"
    using schema_ok_written [of E a] a by (simp_all add: storable_def)
  have ok: "receipts_ok E s" "heads_ok E s" using inv by (auto simp: store_inv_def)
  note prefix = preamble_ok(1) [OF fl inv] rbind_simps owner_guard_Inr [OF ok(1) i]
  show ?thesis
  proof (cases "find_head s (ag_id a)")
    case None
    then have rows: "st_rows s (ag_id a) = empty_rows" using ok(2) by (simp add: heads_ok_def)
    let ?h = "head_of E a 1 now"
    have ins: "insert_head ?h s = Inr u \<longleftrightarrow> u = s\<lparr>st_heads := st_heads s @ [?h]\<rparr>" for u
      using None by (auto simp: insert_head_def rbind_Inr_iff)
    have rows': "st_rows (s\<lparr>st_heads := st_heads s @ [?h]\<rparr>) (ag_id a) = empty_rows" using rows by simp
    have live: "s\<lparr>st_heads := st_heads s @ [?h], st_rows := (st_rows s)(ag_id a := aggregate_rows a)\<rparr> =
        set_live ?h a s"
      using None by (simp add: set_live_def)
    show ?thesis
    proof (cases "find_operation s i")
      case (Some p)
      then have id: "op_id p = i" by (auto simp: find_operation_def dest: lookup_key_Some)
      have "swapped E now a i s expected c t \<longleftrightarrow> op_aggregate_id p = ag_id a \<and> op_expected p = expected \<and>
          op_sha256 p = digest_of E a \<and> review_operation_owner s i = Inr None \<and> c = commit_of_receipt p \<and> t = s"
        using Some unused_operation by (auto elim!: swappedE intro: swapped.replayed)
      then show ?thesis
        unfolding swap_body_def prefix None option.case Some
        by (auto simp: replay_commit_def rbind_Inr_iff id)
    next
      case none: None
      have "swapped E now a i s expected c t \<longleftrightarrow> unused s i \<and> expected = None \<and>
          assert_generic_proposed_only a = Inr () \<and> c = commit_for now a 1 (digest_of E a) True \<and>
          t = write_at E now i a None 1 s"
        using none None by (auto elim!: swappedE intro: swapped.created)
      then show ?thesis
        unfolding swap_body_def prefix None none option.case prod.case head_row_for_digest
        using none schema live
        by (auto simp: rbind_Inr_iff ins insert_rows_Inr [OF rows'] insert_receipt_Inr new_receipt_def
            write_at_def receipt_for_def)
    qed
  next
    case (Some h)
    from heads_live [OF ok(2) Some] obtain b where b: "live E s h b" "ag_id b = ag_id a" .
    have hyd: "hydrate_snapshot E h (capture_rows (st_rows s (ag_id a))) = Inr (snapshot_of E b (hw_revision h))"
      using live_hydrate [OF fl b(1)] by (simp add: b(2))
    have uniq: "live E s h b' \<longleftrightarrow> b' = b" for b' using live_unique [OF fl] b(1) by blast
    show ?thesis
    proof (cases "find_operation s i")
      case op: (Some p)
      then have id: "op_id p = i" by (auto simp: find_operation_def dest: lookup_key_Some)
      have "swapped E now a i s expected c t \<longleftrightarrow> op_aggregate_id p = ag_id a \<and> op_expected p = expected \<and>
          op_sha256 p = digest_of E a \<and> review_operation_owner s i = Inr None \<and> c = commit_of_receipt p \<and> t = s"
        using op unused_operation by (auto elim!: swappedE intro: swapped.replayed)
      then show ?thesis
        unfolding swap_body_def prefix Some option.case hyd op
        by (auto simp: replay_commit_def rbind_Inr_iff id)
    next
      case none: None
      let ?n = "hw_revision h"
      have "swapped E now a i s expected c t \<longleftrightarrow> unused s i \<and> expected = Some ?n \<and>
          assert_non_review_transition s b a ?n = Inr () \<and>
          (if digest_of E b = digest_of E a
           then c = commit_for now a ?n (digest_of E a) False \<and>
             t = log_receipt (receipt_for E now i a (Some ?n) ?n False) s
           else c = commit_for now a (?n + 1) (digest_of E a) True \<and> t = write_at E now i a (Some ?n) (?n + 1) s)"
        using none Some uniq by (auto elim!: swappedE intro: swapped.kept swapped.written)
      moreover have "sha256_json E (aggregate_json b) = digest_of E b" by (simp add: digest_of_def)
      ultimately show ?thesis
        unfolding swap_body_def prefix Some option.case hyd none prod.case
        using none schema
        by (auto simp: rbind_Inr_iff insert_receipt_Inr replace_aggregate_Inr [OF Some] new_receipt_def
            write_at_def receipt_for_def)
    qed
  qed
qed

section \<open>Review requests\<close>

lemma review_request_new_Inr: "review_request_new E r = Inr b \<Longrightarrow> b = r"
  by (auto simp: review_request_new_def rbind_Inr_iff)

lemma subject_snapshot_create_Inr:
  "subject_snapshot_create E k x = Inr y \<Longrightarrow> sn_kind y = k \<and> sn_id y = subject_own_id x \<and> sn_subject y = x \<and>
     subject_own_kind x = k \<and> subject_snapshot_new E y = Inr y"
  by (auto simp: subject_snapshot_create_def subject_snapshot_new_def)

lemma subject_from_aggregate_own:
  assumes "subject_from_aggregate a ref = Some x"
  shows "subject_own_kind x = sr_kind ref" "subject_own_id x = sr_id ref"
  using assms by (auto simp: subject_from_aggregate_def split: review_kind.splits dest!: lookup_key_Some)

lemma snapshot_taken_readable:
  assumes wf: "aggregate_wf E a" and ref: "subject_ref_new ref = Inr ref"
    and y: "take_snapshot E a ref = Inr y"
  shows "snapshot_readable E y" "subject_from_aggregate a \<lparr>sr_kind = sn_kind y, sr_id = sn_id y\<rparr> = Some (sn_subject y)"
    "subject_status (sn_subject y) = Proposed" "snapshot_ref y = (sr_kind ref, sr_id ref)"
proof -
  from y obtain x where x: "subject_from_aggregate a ref = Some x" "subject_status x = Proposed"
    "subject_snapshot_create E (sr_kind ref) x = Inr y"
    by (auto simp: take_snapshot_def rbind_Inr_iff)
  note own = subject_from_aggregate_own [OF x(1)] and f = subject_snapshot_create_Inr [OF x(3)]
  have r: "\<lparr>sr_kind = sn_kind y, sr_id = sn_id y\<rparr> = ref" using f own by simp
  show "subject_from_aggregate a \<lparr>sr_kind = sn_kind y, sr_id = sn_id y\<rparr> = Some (sn_subject y)"
    unfolding r using x f by simp
  show "subject_status (sn_subject y) = Proposed" "snapshot_ref y = (sr_kind ref, sr_id ref)"
    using x f own by (simp_all add: snapshot_ref_def)
  have rec: "\<lparr>sn_kind = sn_kind y, sn_id = sn_id y, sn_subject = sn_subject y, sn_sha256 = sn_sha256 y\<rparr> = y" by simp
  have new: "subject_snapshot_new E \<lparr>sn_kind = sn_kind y, sn_id = sn_id y, sn_subject = sn_subject y,
      sn_sha256 = sn_sha256 y\<rparr> = Inr y"
    unfolding rec using f by blast
  have "snapshot_from_payload E (sn_kind y) (sn_id y) 1 (sn_subject y) (sn_sha256 y) = Inr y"
  proof (cases x)
    case (ReplacementSubject q)
    with x(1) have "q \<in> set (ag_replacements a)"
      by (auto simp: subject_from_aggregate_def split: review_kind.splits dest!: lookup_key_Some)
    then have "replacement_revalidate E q = Inr q"
      using aggregate_parts_wf(1) [OF wf] by (simp add: replacement_wf_def)
    moreover have sel: "sn_subject y = ReplacementSubject q" "sn_kind y = ReplacementKind" using f own ReplacementSubject by auto
    ultimately show ?thesis using new unfolding sel by (simp add: snapshot_from_payload_def guards.simps)
  next
    case (ConstraintSubject q)
    with x(1) have "q \<in> set (ag_constraints a)"
      by (auto simp: subject_from_aggregate_def split: review_kind.splits dest!: lookup_key_Some)
    then have "temporal_constraint_revalidate E q = Inr q"
      using aggregate_parts_wf(2) [OF wf] by (simp add: temporal_constraint_wf_def)
    moreover have sel: "sn_subject y = ConstraintSubject q" "sn_kind y = ConstraintKind" using f own ConstraintSubject by auto
    ultimately show ?thesis using new unfolding sel by (simp add: snapshot_from_payload_def guards.simps)
  qed
  with r ref show "snapshot_readable E y" by (simp add: snapshot_readable_def)
qed

lemma request_command_revalidate_validated:
  assumes "request_command_revalidate E c = Inr c'"
  shows "list_all (\<lambda>r. subject_ref_new r = Inr r) (rc_subjects c')"
proof -
  from assms obtain refs where refs: "rmap subject_ref_new (rc_subjects c) = Inr refs"
    and c': "review_request_command_new E (c\<lparr>rc_subjects := refs\<rparr>) = Inr c'"
    by (auto simp: request_command_revalidate_def rbind_Inr_iff)
  from refs have "\<forall>r \<in> set refs. subject_ref_new r = Inr r"
    by (auto simp: rmap_Inr_mem [OF refs] subject_ref_new_def)
  moreover have "set (rc_subjects c') = set refs"
    using c' by (auto simp: review_request_command_new_def rbind_Inr_iff Let_def)
  ultimately show ?thesis by (simp add: list_all_iff)
qed

text \<open>What a fresh request leaves behind.\<close>

definition request_added :: "py_env \<Rightarrow> review_request \<Rightarrow> head_row \<Rightarrow> store \<Rightarrow> store" where
  "request_added E r h s = add_request r (log_receipt (receipt_for E (hr_requested_at r) (hr_operation_id r)
     (hr_base r) (Some (hw_revision h)) (hw_revision h) False) s)"

lemma insert_request_Inr:
  "insert_request r s = Inr t \<Longrightarrow> t = add_request r s"
  by (auto simp: insert_request_def rbind_Inr_iff Let_def add_request_def)

lemma request_fresh_Inr:
  assumes E: "env_ok E" and inv: "store_inv E s" and refs: "list_all (\<lambda>r. subject_ref_new r = Inr r) (rc_subjects c)"
    and u: "unused s i" and now: "canonical_utc now"
    and run: "request_fresh E now c i s = Inr (q, t)"
  shows "\<exists>h r. find_head s (rc_aggregate_id c) = Some h \<and> live E s h (hr_base r) \<and>
    hw_revision h = rc_expected_revision c \<and> hw_sha256 h = rc_expected_sha256 c \<and>
    q = \<lparr>qc_request = r, qc_lifecycle = Open, qc_replayed = False\<rparr> \<and> hr_operation_id r = i \<and>
    hr_requested_at r = now \<and> hr_aggregate_id r = rc_aggregate_id c \<and> hr_base_revision r = hw_revision h \<and>
    snapshot_ref ` set (hr_subjects r) = (\<lambda>x. (sr_kind x, sr_id x)) ` set (rc_subjects c) \<and>
    t = request_added E r h s \<and> store_step E s t"
proof -
  have fl: "float_ok E" using E by (simp add: env_ok_def)
  have ok: "heads_ok E s" using inv by (simp add: store_inv_def)
  obtain h where h: "find_head s (rc_aggregate_id c) = Some h"
  proof (cases "find_head s (rc_aggregate_id c)")
    case None
    with run show ?thesis by (simp add: request_fresh_def snapshot_absent [OF ok None])
  qed (use that in blast)
  from heads_live [OF ok h] obtain a where a: "live E s h a" "ag_id a = rc_aggregate_id c" .
  note f = live_fields [OF a(1)]
  have snap: "snapshot_in_transaction E s (rc_aggregate_id c) = Inr (Some (snapshot_of E a (hw_revision h)))"
    using snapshot_live [OF fl _ a(1)] h a(2) by simp
  let ?r = "\<lambda>xs. new_request E now c i (snapshot_of E a (hw_revision h)) (sort_key snapshot_key xs)"
  let ?p = "new_receipt E now i (rc_aggregate_id c) (Some (hw_revision h)) (digest_of E a) (hw_revision h) False"
  have d: "sha256_json E (aggregate_json a) = digest_of E a" by (simp add: digest_of_def)
  from run obtain xs t1 b where
    rev: "hw_revision h = rc_expected_revision c" "digest_of E a = rc_expected_sha256 c" and
    xs: "rmap (take_snapshot E a) (rc_subjects c) = Inr xs" and
    fresh: "lookup_key qr_request_id (hr_request_id (?r xs)) (st_requests s) = None" and
    untaken: "list_all (\<lambda>x. \<not> subject_taken s (rc_aggregate_id c) (hw_revision h) x) (sort_key snapshot_key xs)" and
    t1: "insert_receipt ?p s = Inr t1" and t: "insert_request (?r xs) t1 = Inr t" and
    new: "review_request_new E (?r xs) = Inr b" and
    q: "q = \<lparr>qc_request = b, qc_lifecycle = Open, qc_replayed = False\<rparr>"
    unfolding request_fresh_def snap
    by (auto simp: rbind_Inr_iff Let_def d)
  have wf: "aggregate_wf E a" using f(4) by (simp add: storable_def)
  note taken = snapshot_taken_readable [OF wf]
  have all: "\<exists>ref \<in> set (rc_subjects c). take_snapshot E a ref = Inr y" if "y \<in> set xs" for y
    using that rmap_Inr_mem [OF xs] by blast
  have good: "snapshot_readable E y \<and> subject_from_aggregate a \<lparr>sr_kind = sn_kind y, sr_id = sn_id y\<rparr> = Some (sn_subject y)
      \<and> subject_status (sn_subject y) = Proposed" if "y \<in> set xs" for y
    using all [OF that] taken refs by (auto simp: list_all_iff)
  have keys: "snapshot_ref ` set xs = (\<lambda>x. (sr_kind x, sr_id x)) ` set (rc_subjects c)"
  proof -
    have "list_all2 (\<lambda>ref y. take_snapshot E a ref = Inr y) (rc_subjects c) xs" using xs by (simp add: rmap_Inr_iff)
    then have "map snapshot_ref xs = map (\<lambda>x. (sr_kind x, sr_id x)) (rc_subjects c)"
      using refs by (induction rule: list_all2_induct) (use taken(4) in auto)
    then show ?thesis by (metis list.set_map)
  qed
  have r: "hr_base (?r xs) = a" "hr_base_revision (?r xs) = hw_revision h" "hr_subjects (?r xs) = sort_key snapshot_key xs"
    "hr_operation_id (?r xs) = i" "hr_requested_at (?r xs) = now" "hr_aggregate_id (?r xs) = rc_aggregate_id c"
    by (simp_all add: new_request_def Let_def)
  have b: "b = ?r xs" by (rule review_request_new_Inr [OF new])
  have p: "?p = receipt_for E now i a (Some (hw_revision h)) (hw_revision h) False"
    by (simp add: receipt_for_def a(2))
  have t': "t = request_added E (?r xs) h s"
    using insert_request_Inr [OF t] t1 unfolding p insert_receipt_Inr request_added_def r by simp
  have "store_step E s t"
    unfolding t' request_added_def
  proof (rule store_step.requested)
    show "subjects_bind_base (?r xs)" "list_all (snapshot_readable E) (hr_subjects (?r xs))"
      unfolding subjects_bind_base_def r by (auto simp: list_all_iff good)
  qed (use h a(1) new b u now fresh untaken in \<open>simp_all add: r a(2)\<close>)
  moreover define built where "built = ?r xs"
  note rb = r [folded built_def] and b = b [folded built_def] and t' = t' [folded built_def]
  have "q = \<lparr>qc_request = built, qc_lifecycle = Open, qc_replayed = False\<rparr>" using q b by simp
  ultimately show ?thesis
    using h a(1) rev t' keys f(2) d by (intro exI [of _ h] exI [of _ built]) (simp add: rb)
qed

section \<open>Review decisions\<close>

lemma read_request_Some:
  assumes "audit E s rs ds" and "read_review_request E s i = Inr (Some r)"
  shows "r \<in> set rs \<and> hr_request_id r = i"
proof (cases "i \<in> hr_request_id ` set rs")
  case True
  then obtain q where q: "i = hr_request_id q" "q \<in> set rs" by (rule imageE)
  from assms(2) have "r = q" unfolding q(1) read_request_present [OF assms(1) q(2)] by simp
  with q show ?thesis by simp
next
  case False
  from assms(2) show ?thesis unfolding read_request_absent [OF assms(1) False] by simp
qed

lemma read_decision_None:
  assumes "audit E s rs ds" and "read_review_decision E s i = Inr None"
  shows "lookup_key qd_request_id i (st_decisions s) = None"
proof (cases "i \<in> (\<lambda>x. hr_request_id (fst x)) ` set ds")
  case True
  then obtain x where x: "i = hr_request_id (fst x)" "x \<in> set ds" by (rule imageE)
  from assms(2) show ?thesis unfolding x(1) read_decision_present [OF assms(1) x(2)] by simp
next
  case False
  with assms(1) show ?thesis by (auto simp: audit_def lookup_key_None)
qed

lemma review_decision_new_Inr: "review_decision_new E d = Inr b \<Longrightarrow> b = d"
  by (auto simp: review_decision_new_def rbind_Inr_iff)

lemma decision_receipt_new_Inr: "decision_receipt_new r = Inr b \<Longrightarrow> b = r"
  by (auto simp: decision_receipt_new_def)

lemma decision_item_revalidate_Inr:
  "decision_item_revalidate E i = Inr j \<Longrightarrow> decision_item_revalidate E j = Inr j"
proof -
  have edit: "subject_edit_new E e = Inr e' \<Longrightarrow> e' = e" for e e'
    by (auto simp: subject_edit_new_def rbind_Inr_iff)
  have item: "decision_item_new i = Inr j \<Longrightarrow> j = i" for i j
    by (auto simp: decision_item_new_def rbind_Inr_iff split: review_disposition.splits option.splits)
  assume run: "decision_item_revalidate E i = Inr j"
  show ?thesis
  proof (cases "it_edit i")
    case None
    then have "i\<lparr>it_edit := None\<rparr> = i" by (cases i) simp
    with run None have "decision_item_new i = Inr j" by (simp add: decision_item_revalidate_def)
    then have "j = i" by (rule item)
    with run show ?thesis by simp
  next
    case (Some e)
    then have same: "i\<lparr>it_edit := Some e\<rparr> = i" by (cases i) simp
    from run Some obtain e' where e': "subject_edit_new E e = Inr e'" "decision_item_new (i\<lparr>it_edit := Some e'\<rparr>) = Inr j"
      by (auto simp: decision_item_revalidate_def rbind_Inr_iff)
    from e'(2) have "decision_item_new i = Inr j" unfolding edit [OF e'(1)] same .
    then have "j = i" by (rule item)
    with run show ?thesis by simp
  qed
qed

lemma decision_command_revalidate_validated:
  assumes "decision_command_revalidate E c = Inr c'"
  shows "list_all (\<lambda>i. decision_item_revalidate E i = Inr i) (dc_items c')" "decision_command_new E c' = Inr c'"
proof -
  from assms obtain items where items: "rmap (decision_item_revalidate E) (dc_items c) = Inr items"
    and c': "decision_command_new E (c\<lparr>dc_items := items\<rparr>) = Inr c'"
    by (auto simp: decision_command_revalidate_def rbind_Inr_iff)
  from c' have eq: "c' = c\<lparr>dc_items := items\<rparr>" by (auto simp: decision_command_new_def rbind_Inr_iff)
  with c' show "decision_command_new E c' = Inr c'" by simp
  show "list_all (\<lambda>i. decision_item_revalidate E i = Inr i) (dc_items c')"
    unfolding eq using rmap_Inr_mem [OF items] decision_item_revalidate_Inr by (auto simp: list_all_iff)
qed

lemma decided_storable:
  assumes st: "storable E (hr_base r)" and run: "apply_human_review_decision E r c = Inr a"
  shows "storable E a" "ag_id a = ag_id (hr_base r)"
proof -
  have wf: "aggregate_wf E (hr_base r)" using st by (simp add: storable_def)
  note steps = apply_human_review_decision_steps [OF wf run]
  have parts: "ag_id a = ag_id (hr_base r)" "ag_claims a = ag_claims (hr_base r)"
    "ag_documents a = ag_documents (hr_base r)" "map tc_bound (ag_constraints a) = map tc_bound (ag_constraints (hr_base r))"
    by (simp_all add: steps(1) decided_aggregate_def)
  show "ag_id a = ag_id (hr_base r)" by (rule parts)
  have bounds: "list_all (\<lambda>c. valid_date (tc_bound c)) cs = list_all valid_date (map tc_bound cs)" for cs
    by (induction cs) simp_all
  have "identities_functional a"
    using st unfolding storable_def identities_functional_def parts by blast
  moreover have "aggregate_dates_valid a"
    using st unfolding storable_def aggregate_dates_valid_def bounds parts by blast
  moreover have "rows_bindable (aggregate_rows a)"
    using st unfolding storable_def by (simp add: rows_bindable_def aggregate_rows_def steps(1) decided_aggregate_def)
  ultimately show "storable E a" using steps(2) by (simp add: storable_def)
qed

lemma insert_decision_Inr: "insert_decision r d s = Inr t \<Longrightarrow> t = add_decision r d s"
  by (auto simp: insert_decision_def rbind_Inr_iff Let_def add_decision_def)

definition decision_added :: "py_env \<Rightarrow> review_request \<Rightarrow> review_decision \<Rightarrow> head_row \<Rightarrow> store \<Rightarrow> store" where
  "decision_added E r d h s = add_decision r d
     (write_at E (hd_decided_at d) (hd_operation_id d) (hd_aggregate d) (Some (hw_revision h)) (hw_revision h + 1) s)"

lemma decision_fresh_Inr:
  assumes E: "env_ok E" and inv: "store_inv E s" and u: "unused s i" and now: "canonical_utc now"
    and items: "list_all (\<lambda>i. decision_item_revalidate E i = Inr i) (dc_items c)"
    and run: "decision_fresh E now c (human_review_decision_payload_sha256 E c) i s = Inr (q, t)"
  shows "\<exists>h r d. read_review_request E s (dc_request_id c) = Inr (Some r) \<and> hr_request_id r = dc_request_id c \<and>
    find_head s (ag_id (hr_base r)) = Some h \<and> live E s h (hr_base r) \<and> hr_base_revision r = hw_revision h \<and>
    decision_command_of d = c \<and> hd_operation_id d = i \<and> hd_decided_at d = now \<and>
    apply_human_review_decision E r c = Inr (hd_aggregate d) \<and>
    q = \<lparr>dr_decision = d, dr_revision = hw_revision h + 1, dr_sha256 = digest_of E (hd_aggregate d), dr_replayed = False\<rparr> \<and>
    t = decision_added E r d h s \<and> store_step E s t"
proof -
  have fl: "float_ok E" using E by (simp add: env_ok_def)
  have hs: "heads_ok E s" using inv by (simp add: store_inv_def)
  from inv obtain rs ds where au: "audit E s rs ds" by (auto simp: store_inv_def)
  from run obtain r live_now a0 a dg t1 t2 b where
    read: "read_review_request E s (dc_request_id c) = Inr (Some r)" and
    none: "read_review_decision E s (dc_request_id c) = Inr None" and
    cur: "snapshot_in_transaction E s (hr_aggregate_id r) = Inr (Some live_now)" and
    rev: "ss_revision live_now = hr_base_revision r" and
    app: "apply_review_decision E r c = Inr a0" and
    reval: "aggregate_revalidate E a0 = Inr a" and
    sha: "aggregate_sha256 E a = Inr dg" and
    t1: "replace_aggregate now a (hr_base_revision r) dg s = Inr t1" and
    t2: "insert_receipt (new_receipt E now i (hr_aggregate_id r) (Some (hr_base_revision r)) dg
      (hr_base_revision r + 1) True) t1 = Inr t2" and
    t: "insert_decision r (new_decision now c i (human_review_decision_payload_sha256 E c)
      (hr_base_revision r + 1) dg a) t2 = Inr t" and
    b: "review_decision_new E (new_decision now c i (human_review_decision_payload_sha256 E c)
      (hr_base_revision r + 1) dg a) = Inr b" and
    q: "decision_receipt_new \<lparr>dr_decision = b, dr_revision = hr_base_revision r + 1,
      dr_sha256 = dg, dr_replayed = False\<rparr> = Inr q"
    unfolding decision_fresh_def
    by (auto simp: rbind_Inr_iff Let_def split: option.splits)
  from read_request_Some [OF au read] have r: "r \<in> set rs" "hr_request_id r = dc_request_id c" by auto
  with au have ok: "request_ok E s r" by (simp add: audit_def)
  then have new: "review_request_new E r = Inr r" and st: "storable E (hr_base r)"
    and anchor: "anchored E s (hr_base_revision r) (hr_base r)"
    by (auto simp: request_ok_def)
  have id: "ag_id (hr_base r) = hr_aggregate_id r" by (rule review_request_new_fields(5) [OF new st])
  from anchor obtain h where h: "find_head s (ag_id (hr_base r)) = Some h"
    "hw_revision h = hr_base_revision r \<Longrightarrow> live E s h (hr_base r)"
    by (auto simp: anchored_def)
  from heads_live [OF hs h(1)] obtain a' where a': "live E s h a'" "ag_id a' = ag_id (hr_base r)" .
  have "snapshot_in_transaction E s (hr_aggregate_id r) = Inr (Some (snapshot_of E a' (hw_revision h)))"
    using snapshot_live [OF fl _ a'(1)] h(1) a'(2) by (simp add: id)
  with cur have "live_now = snapshot_of E a' (hw_revision h)" by simp
  with rev have n: "hw_revision h = hr_base_revision r" by simp
  from app have run: "apply_human_review_decision E r c = Inr a0"
    by (auto simp: apply_review_decision_def split: sum.splits py_error.splits)
  note dec = decided_storable [OF st run]
  from reval dec(1) have a: "a = a0" by (simp add: storable_def aggregate_wf_def)
  have dg: "dg = digest_of E a" using sha storable_sha [OF dec(1)] by (simp add: a digest_of_def)
  note t1 = t1 [unfolded dg] and t2 = t2 [unfolded dg] and t = t [unfolded dg] and b = b [unfolded dg]
    and q = q [unfolded dg]
  define d where "d = new_decision now c i (human_review_decision_payload_sha256 E c)
      (hr_base_revision r + 1) (digest_of E a) a"
  have f: "decision_command_of d = c" "hd_operation_id d = i" "hd_decided_at d = now" "hd_aggregate d = a"
    "hd_revision d = hw_revision h + 1" "hd_request_id d = hr_request_id r" "hd_items d = dc_items c"
    by (simp_all add: d_def new_decision_def decision_command_of_def n r)
  have bd: "b = d" using review_decision_new_Inr [OF b] by (simp add: d_def)
  have newd: "review_decision_new E d = Inr d" using b [folded d_def] unfolding bd .
  have aid: "hr_aggregate_id r = ag_id a" using dec(2) id by (simp add: a)
  then have ha: "find_head s (ag_id a) = Some h" using h(1) id by simp
  have t1: "t1 = set_live (head_of E a (hr_base_revision r + 1) now) a s"
    using t1 unfolding replace_aggregate_Inr [OF ha] by blast
  have t2: "t2 = log_receipt (receipt_for E now i a (Some (hr_base_revision r)) (hr_base_revision r + 1) True) t1"
    using t2 unfolding insert_receipt_Inr receipt_for_def aid by blast
  have t': "t = decision_added E r d h s"
    using insert_decision_Inr [OF t, folded d_def] unfolding t2 t1 decision_added_def write_at_def f n .
  have "store_step E s t"
    unfolding t' decision_added_def
    by (rule store_step.decided)
      (use read r h n items u now run dec newd read_decision_None [OF au none] in \<open>simp_all add: f a\<close>)
  with read r h n f run q bd t' show ?thesis
    by (intro exI [of _ h] exI [of _ r] exI [of _ d]) (simp add: a decision_receipt_new_Inr)
qed

section \<open>Every operation is a step\<close>

lemma transact_step:
  assumes "\<And>x t. body s = Inr (x, t) \<Longrightarrow> store_step E s t"
  shows "store_step E s (snd (transact body s))"
  using assms by (auto simp: transact_def store_step.stutter split: sum.splits)

lemma request_replay_state:
  "rbind f (\<lambda>r. Inr (r, s)) = Inr (x, t) \<Longrightarrow> t = s"
  by (auto simp: rbind_Inr_iff)

text \<open>Events: a call of a writing operation, or a write of another authority.\<close>

datatype event =
    Swap string aggregate "int option" string
  | Request string review_request_command string
  | Decide string decision_command string
  | Foreign "string \<times> string \<times> string"

fun apply_event :: "py_env \<Rightarrow> event \<Rightarrow> store \<Rightarrow> store" where
  "apply_event E (Swap now a expected i) s = snd (compare_and_swap E now a expected i s)"
| "apply_event E (Request now c i) s = snd (create_review_request E now c i s)"
| "apply_event E (Decide now c i) s = snd (decide_review E now c i s)"
| "apply_event E (Foreign x) s = add_foreign x s"

text \<open>
  The contract of the callers: the clock is canonical, a committed aggregate is stable under
  revalidation with valid dates, and another authority claims unused operation ids only.
\<close>

fun event_ok :: "py_env \<Rightarrow> event \<Rightarrow> store \<Rightarrow> bool" where
  "event_ok E (Swap now a expected i) s \<longleftrightarrow> canonical_utc now \<and>
     (case aggregate_revalidate E a of Inl _ \<Rightarrow> True
      | Inr b \<Rightarrow> storable E b)"
| "event_ok E (Request now c i) s \<longleftrightarrow> canonical_utc now"
| "event_ok E (Decide now c i) s \<longleftrightarrow> canonical_utc now"
| "event_ok E (Foreign x) s \<longleftrightarrow> fst x \<in> set foreign_owners \<and> unused s (fst (snd x))"

lemma swap_step:
  assumes E: "env_ok E" and inv: "store_inv E s" and ok: "event_ok E (Swap now a expected i) s"
  shows "store_step E s (snd (compare_and_swap E now a expected i s))"
proof (cases "rbind (require_operation_id i) (\<lambda>_. rbind (checks [(opt_all (\<lambda>r. 1 \<le> r) expected,
      Raised (ValueError ''expected_revision must be positive or None''))]) (\<lambda>_.
      rbind (lift (aggregate_revalidate E a)) (\<lambda>a. rbind (lift (aggregate_sha256 E a)) (\<lambda>digest. Inr (a, digest)))))")
  case (Inl e)
  then show ?thesis by (simp add: compare_and_swap_def store_step.stutter)
next
  case (Inr x)
  then obtain b where b: "aggregate_revalidate E a = Inr b" and i: "operation_id_pattern i"
    and sha: "aggregate_sha256 E b = Inr (snd x)" "fst x = b"
    by (auto simp: rbind_Inr_iff require_operation_id_def)
  from ok b have st: "storable E b" and now: "canonical_utc now" by auto
  have x': "x = (b, digest_of E b)" using sha storable_sha [OF st] by (cases x) (simp add: digest_of_def)
  have "store_step E s (snd (transact (swap_body E now b (digest_of E b) expected i) s))"
    by (rule transact_step) (simp add: swap_body_Inr [OF E inv st i] swapped_step [OF _ st now])
  then show ?thesis using Inr by (simp add: compare_and_swap_def x')
qed

lemma request_step:
  assumes E: "env_ok E" and inv: "store_inv E s" and now: "canonical_utc now"
  shows "store_step E s (snd (create_review_request E now c i s))"
proof (cases "rbind (require_operation_id i) (\<lambda>_. lift (request_command_revalidate E c))")
  case (Inl e)
  then show ?thesis by (simp add: create_review_request_def store_step.stutter)
next
  case (Inr k)
  then have i: "operation_id_pattern i" and k: "request_command_revalidate E c = Inr k"
    by (auto simp: rbind_Inr_iff require_operation_id_def)
  note refs = request_command_revalidate_validated [OF k]
  have fl: "float_ok E" using E by (simp add: env_ok_def)
  have rok: "receipts_ok E s" using inv by (simp add: store_inv_def)
  have "store_step E s (snd (transact (request_body E now k i) s))"
  proof (rule transact_step)
    fix x t assume run: "request_body E now k i s = Inr (x, t)"
    note run = run [unfolded request_body_def preamble_ok(1) [OF fl inv] rbind_simps owner_guard_Inr [OF rok i]]
    show "store_step E s t"
    proof (cases "find_operation s i = None")
      case True
      with run have "unused s i" "request_fresh E now k i s = Inr (x, t)" by simp_all
      from request_fresh_Inr [OF E inv refs this(1) now this(2)] show ?thesis by blast
    next
      case False
      with run have "t = s" by (simp add: request_replay_state)
      then show ?thesis by (simp add: store_step.stutter)
    qed
  qed
  with Inr show ?thesis by (simp add: create_review_request_def)
qed

lemma decision_step:
  assumes E: "env_ok E" and inv: "store_inv E s" and now: "canonical_utc now"
  shows "store_step E s (snd (decide_review E now c i s))"
proof (cases "rbind (require_operation_id i) (\<lambda>_. lift (decision_command_revalidate E c))")
  case (Inl e)
  then show ?thesis by (simp add: decide_review_def store_step.stutter)
next
  case (Inr k)
  then have i: "operation_id_pattern i" and k: "decision_command_revalidate E c = Inr k"
    by (auto simp: rbind_Inr_iff require_operation_id_def)
  note items = decision_command_revalidate_validated(1) [OF k]
  have fl: "float_ok E" using E by (simp add: env_ok_def)
  have rok: "receipts_ok E s" using inv by (simp add: store_inv_def)
  have "store_step E s (snd (transact (decision_body E now k (human_review_decision_payload_sha256 E k) i) s))"
  proof (rule transact_step)
    fix x t assume run: "decision_body E now k (human_review_decision_payload_sha256 E k) i s = Inr (x, t)"
    note run = run [unfolded decision_body_def preamble_ok(1) [OF fl inv] rbind_simps owner_guard_Inr [OF rok i]]
    show "store_step E s t"
    proof (cases "find_operation s i = None")
      case True
      with run have "unused s i"
        "decision_fresh E now k (human_review_decision_payload_sha256 E k) i s = Inr (x, t)" by simp_all
      from decision_fresh_Inr [OF E inv this(1) now items this(2)] show ?thesis by blast
    next
      case False
      with run have "t = s" by (simp add: request_replay_state)
      then show ?thesis by (simp add: store_step.stutter)
    qed
  qed
  with Inr show ?thesis by (simp add: decide_review_def)
qed

lemma event_step:
  assumes "env_ok E" and "store_inv E s" and "event_ok E e s"
  shows "store_step E s (apply_event E e s)"
proof (cases e)
  case (Swap now a expected i)
  with swap_step [OF assms(1,2)] assms(3) show ?thesis by simp
next
  case (Request now c i)
  with request_step [OF assms(1,2)] assms(3) show ?thesis by simp
next
  case (Decide now c i)
  with decision_step [OF assms(1,2)] assms(3) show ?thesis by simp
next
  case (Foreign x)
  with assms(3) show ?thesis by (auto intro: store_step.elsewhere)
qed

end
