(* ===== verification/Histories.thy ===== *)
theory Histories
  imports Main
begin

text \<open>
  Histories of a state under events, shared by the store and the review queue: the reachable states, and
  the rules that an invariant and a preorder which every admissible event respects hold along every history.
\<close>

section \<open>Histories\<close>

text \<open>The states that admissible events lead to.\<close>

inductive reaches :: "('e \<Rightarrow> 's \<Rightarrow> bool) \<Rightarrow> ('e \<Rightarrow> 's \<Rightarrow> 's) \<Rightarrow> 's \<Rightarrow> 's \<Rightarrow> bool" for ok app where
  here: "reaches ok app s s"
| there: "reaches ok app s t \<Longrightarrow> ok e t \<Longrightarrow> reaches ok app s (app e t)"

text \<open>A relation between states that every admissible event preserves under an invariant.\<close>

locale history =
  fixes ok :: "'e \<Rightarrow> 's \<Rightarrow> bool" and app :: "'e \<Rightarrow> 's \<Rightarrow> 's" and inv :: "'s \<Rightarrow> bool"
  assumes inv_app: "inv s \<Longrightarrow> ok e s \<Longrightarrow> inv (app e s)"
begin

lemma inv_reaches:
  assumes "reaches ok app s t" and "inv s"
  shows "inv t"
  using assms by (induction rule: reaches.induct) (simp_all add: inv_app)

end

locale monotone_history = history ok app inv
  for ok :: "'e \<Rightarrow> 's \<Rightarrow> bool" and app :: "'e \<Rightarrow> 's \<Rightarrow> 's" and inv :: "'s \<Rightarrow> bool" +
  fixes rel :: "'s \<Rightarrow> 's \<Rightarrow> bool"
  assumes rel_refl: "rel s s" and rel_trans: "rel s t \<Longrightarrow> rel t u \<Longrightarrow> rel s u"
    and rel_app: "inv s \<Longrightarrow> ok e s \<Longrightarrow> rel s (app e s)"
begin

lemma rel_reaches:
  assumes "reaches ok app s t" and "inv s"
  shows "rel s t"
  using assms
proof (induction rule: reaches.induct)
  case (here s)
  show ?case by (rule rel_refl)
next
  case (there s t e)
  then have "inv t" by (blast intro: inv_reaches)
  with there show ?case by (blast intro: rel_trans rel_app)
qed

end

end
