(* ===== verification/StoreHistory.thy ===== *)
theory StoreHistory
  imports StoreOps Histories
begin

text \<open>
  Histories of the change-control store: what holds of every store that the writing operations can
  reach from the empty one, and what two stores of one history have in common.
\<close>

section \<open>Histories of the store\<close>

definition store_reaches :: "py_env \<Rightarrow> store \<Rightarrow> store \<Rightarrow> bool" where
  "store_reaches E = reaches (event_ok E) (apply_event E)"

lemma store_reaches_refl: "store_reaches E s s"
  unfolding store_reaches_def by (rule reaches.here)

lemma store_reaches_step:
  "store_reaches E s t \<Longrightarrow> event_ok E e t \<Longrightarrow> store_reaches E s (apply_event E e t)"
  unfolding store_reaches_def by (rule reaches.there)

lemma store_reaches_trans:
  assumes "store_reaches E s t" and "store_reaches E t u"
  shows "store_reaches E s u"
proof -
  have "reaches ok app t u \<Longrightarrow> reaches ok app s t \<Longrightarrow> reaches ok app s u"
    for ok :: "event \<Rightarrow> store \<Rightarrow> bool" and app
    by (induction rule: reaches.induct) (auto intro: reaches.there)
  with assms show ?thesis unfolding store_reaches_def by blast
qed

definition consistent :: "py_env \<Rightarrow> store \<Rightarrow> bool" where
  "consistent E s \<longleftrightarrow> env_ok E \<and> store_inv E s"

lemma consistent_event_step: "consistent E s \<Longrightarrow> event_ok E e s \<Longrightarrow> store_step E s (apply_event E e s)"
  by (auto simp: consistent_def intro: event_step)

interpretation store_history: history "event_ok E" "apply_event E" "consistent E" for E
  by unfold_locales (auto simp: consistent_def intro: step_inv event_step)

lemma consistent_empty: "env_ok E \<Longrightarrow> consistent E empty_store"
  by (auto simp: consistent_def store_inv_def heads_ok_def receipts_ok_def audit_def empty_store_def
      find_head_def lookup_key_def owned_operations_def intro!: exI [of _ "[]"])

lemma consistent_reached:
  "env_ok E \<Longrightarrow> store_reaches E empty_store s \<Longrightarrow> consistent E s"
  using store_history.inv_reaches consistent_empty by (auto simp: store_reaches_def)

section \<open>The committed aggregates\<close>

text \<open>The abstract state of a store: the revision and the aggregate under each id.\<close>

definition committed :: "py_env \<Rightarrow> store \<Rightarrow> string \<Rightarrow> (int \<times> aggregate) option" where
  "committed E s i = (case find_head s i of None \<Rightarrow> None
     | Some h \<Rightarrow> (case hydrate_snapshot E h (capture_rows (st_rows s i)) of Inl _ \<Rightarrow> None
         | Inr x \<Rightarrow> Some (ss_revision x, ss_aggregate x)))"

lemma committed_absent: "find_head s i = None \<Longrightarrow> committed E s i = None"
  by (simp add: committed_def)

lemma committed_live:
  assumes "float_ok E" and "find_head s (ag_id a) = Some h" and "live E s h a"
  shows "committed E s (ag_id a) = Some (hw_revision h, a)"
  by (simp add: committed_def assms(2) live_hydrate [OF assms(1,3)])

lemma committed_cases:
  assumes c: "consistent E s"
  obtains (absent) "find_head s i = None" and "committed E s i = None" and "st_rows s i = empty_rows"
  | (present) h a where "find_head s i = Some h" and "live E s h a" and "ag_id a = i"
      and "committed E s i = Some (hw_revision h, a)"
proof (cases "find_head s i")
  case None
  with c show ?thesis by (intro absent) (auto simp: committed_def consistent_def store_inv_def heads_ok_def)
next
  case (Some h)
  from c have fl: "float_ok E" and hs: "heads_ok E s" by (auto simp: consistent_def env_ok_def store_inv_def)
  obtain b where b: "live E s h b" "ag_id b = i" by (rule heads_live [OF hs Some])
  with committed_live [OF fl _ b(1)] Some show ?thesis by (intro present) auto
qed

lemma committed_Some:
  assumes "consistent E s" and "committed E s i = Some (n, a)"
  obtains h where "find_head s i = Some h" and "live E s h a" and "hw_revision h = n" and "ag_id a = i"
  using assms(2) by (cases rule: committed_cases [OF assms(1), of i]) (auto intro: that)

lemma committed_cong:
  assumes "find_head t = find_head s" and "st_rows t = st_rows s"
  shows "committed E t = committed E s"
  by (rule ext) (simp only: committed_def assms)

lemma committed_log [simp]: "committed E (log_receipt p s) = committed E s"
  by (rule committed_cong) simp_all

lemma committed_add [simp]:
  "committed E (add_request r s) = committed E s" "committed E (add_decision r d s) = committed E s"
  "committed E (add_foreign x s) = committed E s"
  by (rule committed_cong; simp)+

lemma committed_write:
  assumes "float_ok E" and "storable E a" and "1 \<le> n"
  shows "committed E (write_at E now i a expected n s) = (committed E s)(ag_id a \<mapsto> (n, a))"
proof
  fix j
  let ?t = "write_at E now i a expected n s"
  note new = live_write [OF assms(2,3), of now i expected s]
  show "committed E ?t j = ((committed E s)(ag_id a \<mapsto> (n, a))) j"
  proof (cases "j = ag_id a")
    case True
    with committed_live [OF assms(1) new(2,1)] show ?thesis by simp
  next
    case False
    then show ?thesis
      by (cases "find_head s j") (simp_all add: committed_def write_at_def find_head_set_live)
  qed
qed

end
