(* ===== verification/StoreProps.thy ===== *)
theory StoreProps
  imports StoreHistory
begin

text \<open>
  The properties of the change-control store: what every history of the writing operations
  guarantees to a reader.
\<close>

section \<open>A reachable store is never corrupt\<close>

lemma decision_lookup:
  assumes "audit E s rs ds"
  shows "lookup_key qd_request_id i (st_decisions s) = None \<longleftrightarrow> i \<notin> (\<lambda>x. hr_request_id (fst x)) ` set ds"
proof -
  have "st_decisions s = map (\<lambda>x. decision_row_of (fst x) (snd x)) ds" using assms by (simp add: audit_def)
  then show ?thesis by (force simp: lookup_key_None)
qed

lemma lifecycle_decided:
  "lifecycle_of s r = Decided \<longleftrightarrow> lookup_key qd_request_id (hr_request_id r) (st_decisions s) \<noteq> None"
  by (simp add: lifecycle_of_def split: option.splits)

lemma read_decision_total:
  assumes "audit E s rs ds"
  shows "\<exists>d. read_review_decision E s i = Inr d"
proof (cases "i \<in> (\<lambda>x. hr_request_id (fst x)) ` set ds")
  case True
  then obtain x where x: "i = hr_request_id (fst x)" "x \<in> set ds" by (rule imageE)
  show ?thesis unfolding x(1) read_decision_present [OF assms x(2)] by blast
next
  case False
  show ?thesis unfolding read_decision_absent [OF assms False] by blast
qed

lemma request_view_ok:
  assumes c: "consistent E s" and row: "row \<in> set (st_requests s)"
  shows "\<exists>v. get_review_request E (qr_request_id row) s = Inr (v, s)"
proof -
  from c have fl: "float_ok E" and inv: "store_inv E s" by (auto simp: consistent_def env_ok_def)
  from inv obtain rs ds where au: "audit E s rs ds" by (auto simp: store_inv_def)
  from row au obtain r where r: "r \<in> set rs" and id: "qr_request_id row = hr_request_id r" by (auto simp: audit_def)
  from au r have ok: "request_ok E s r" by (simp add: audit_def)
  note read = read_request_present [OF au r]
  have "\<exists>v. request_view_new E \<lparr>rv_request = r, rv_lifecycle = lifecycle_of s r, rv_decision = d\<rparr> = Inr v"
    if d: "read_review_decision E s (hr_request_id r) = Inr d" for d
  proof (cases "hr_request_id r \<in> (\<lambda>x. hr_request_id (fst x)) ` set ds")
    case False
    then have "d = None" "lifecycle_of s r \<noteq> Decided"
      using d read_decision_absent [OF au False] decision_lookup [OF au] False by (auto simp: lifecycle_decided)
    then show ?thesis by (simp add: request_view_new_def guards.simps)
  next
    case True
    then obtain x where x: "hr_request_id r = hr_request_id (fst x)" "x \<in> set ds" by (rule imageE)
    from au x(2) have xr: "fst x \<in> set rs" "decision_ok E s (fst x) (snd x)" and dist: "distinct (map hr_request_id rs)"
      by (auto simp: audit_def)
    with x(1) r have fx: "fst x = r" by (auto simp: distinct_map dest: inj_onD)
    have dx: "d = Some (snd x)" using d read_decision_present [OF au x(2)] by (simp add: fx)
    from xr(2) have g: "decision_ok E s r (snd x)" by (simp add: fx)
    have life: "lifecycle_of s r = Decided" unfolding lifecycle_decided decision_lookup [OF au] using True by simp
    have "decision_command_new E (decision_command_of (snd x)) = Inr (decision_command_of (snd x))"
      using g review_decision_new_fields(4) by (auto simp: decision_ok_def)
    with g show ?thesis
      unfolding dx life by (simp add: request_view_new_def decision_ok_def guards.simps)
  qed
  moreover obtain d where "read_review_decision E s (hr_request_id r) = Inr d"
    using read_decision_total [OF au] by blast
  ultimately show ?thesis
    by (auto simp: get_review_request_def preamble_ok [OF fl inv] id read)
qed

lemma load_committed:
  assumes c: "consistent E s"
  shows "case committed E s i of
      None \<Rightarrow> load E i s = Inr (None, s)
    | Some (n, a) \<Rightarrow> ag_id a = i \<and> storable E a \<and> 1 \<le> n \<and> load E i s = Inr (Some (snapshot_of E a n), s)"
proof -
  from c have fl: "float_ok E" and inv: "store_inv E s" by (auto simp: consistent_def env_ok_def)
  then have hs: "heads_ok E s" by (simp add: store_inv_def)
  show ?thesis
  proof (cases rule: committed_cases [OF c, of i])
    case 1
  note absent = this
    then show ?thesis by (simp add: load_def preamble_ok(1) [OF fl inv] snapshot_absent [OF hs])
  next
    case (2 h a)
  note present = this
    then show ?thesis
      using snapshot_live [OF fl _ present(2)] live_fields(4,5) [OF present(2)]
      by (simp add: load_def preamble_ok(1) [OF fl inv])
  qed
qed

text \<open>
  C1. No history of storable writes corrupts the store: in every store that the writing operations reach
  from the empty one, when every aggregate given to \<open>compare_and_swap\<close> that validates can be stored
  (stable under revalidation, valid dates, one identity payload per claim identity, span offsets below
  2^63; confidences other than the negative zero) and the clock is canonical, the receipt, review and
  ownership validations succeed, every id loads to exactly the committed well-formed aggregate (or to
  nothing), and every review request, decided, open or stale, can be read.
\<close>

theorem store_never_corrupt:
  assumes "env_ok E" and "store_reaches E empty_store s"
  shows "preamble E s = Inr () \<and>
    (\<forall>i. case committed E s i of
        None \<Rightarrow> load E i s = Inr (None, s)
      | Some (n, a) \<Rightarrow> ag_id a = i \<and> storable E a \<and> 1 \<le> n \<and> load E i s = Inr (Some (snapshot_of E a n), s)) \<and>
    (\<forall>row \<in> set (st_requests s). \<exists>v. get_review_request E (qr_request_id row) s = Inr (v, s))"
proof -
  note c = consistent_reached [OF assms]
  then have "preamble E s = Inr ()" using preamble_ok(1) by (auto simp: consistent_def env_ok_def)
  with load_committed [OF c] request_view_ok [OF c] show ?thesis by blast
qed

section \<open>The subjects of an aggregate\<close>

text \<open>The document replacements and temporal constraints of an aggregate, and those a reviewer has decided.\<close>

definition subjects_of :: "aggregate \<Rightarrow> review_subject set" where
  "subjects_of a = ReplacementSubject ` set (ag_replacements a) \<union> ConstraintSubject ` set (ag_constraints a)"

definition reviewed_of :: "aggregate \<Rightarrow> review_subject set" where
  "reviewed_of a = {x \<in> subjects_of a. subject_status x \<noteq> Proposed}"

text \<open>The subjects that the open review requests of an aggregate show to their reviewers.\<close>

definition under_review :: "py_env \<Rightarrow> store \<Rightarrow> string \<Rightarrow> review_subject set" where
  "under_review E s i = {sn_subject y | r y. read_review_request E s (hr_request_id r) = Inr (Some r) \<and>
     hr_aggregate_id r = i \<and> lifecycle_of s r = Open \<and> y \<in> set (hr_subjects r)}"

definition subject_key :: "review_subject \<Rightarrow> string \<times> string" where
  "subject_key x = (review_kind_value (subject_own_kind x), subject_own_id x)"

lemma subject_at_member:
  assumes "subject_at a k = Some x"
  shows "(k, x) \<in> set (review_subject_map a)" "k = (review_kind_value (subject_own_kind x), subject_own_id x)"
    "case x of ReplacementSubject r \<Rightarrow> r \<in> set (ag_replacements a) | ConstraintSubject c \<Rightarrow> c \<in> set (ag_constraints a)"
proof -
  from assms obtain k' where "dict_get fst (review_subject_map a) k = Some (k', x)" by (auto simp: subject_at_def)
  from dict_get_member [OF this] show m: "(k, x) \<in> set (review_subject_map a)" by auto
  then show "k = (review_kind_value (subject_own_kind x), subject_own_id x)"
    "case x of ReplacementSubject r \<Rightarrow> r \<in> set (ag_replacements a) | ConstraintSubject c \<Rightarrow> c \<in> set (ag_constraints a)"
    by (auto simp: review_subject_map_def)
qed

lemma review_subject_map_eq:
  "set (review_subject_map a) = (\<lambda>x. (subject_key x, x)) ` subjects_of a"
  by (auto simp: review_subject_map_def subjects_of_def subject_key_def image_Un image_image)

lemma subject_key_inj:
  assumes "aggregate_wf E a" and "x \<in> subjects_of a" and "y \<in> subjects_of a" and "subject_key x = subject_key y"
  shows "x = y"
proof -
  have r: "rp_id p = rp_id q \<Longrightarrow> p = q" if "p \<in> set (ag_replacements a)" "q \<in> set (ag_replacements a)" for p q
    using canonical_key_inj [OF aggregate_parts_canonical(1) [OF assms(1)]] that unfolding key_inj_def by blast
  have c: "tc_id p = tc_id q \<Longrightarrow> p = q" if "p \<in> set (ag_constraints a)" "q \<in> set (ag_constraints a)" for p q
    using canonical_key_inj [OF aggregate_parts_canonical(2) [OF assms(1)]] that unfolding key_inj_def by blast
  show ?thesis
    using assms(2-4) unfolding subjects_of_def subject_key_def by (elim UnE imageE) (simp_all add: r c)
qed

lemma subject_at_iff:
  assumes "aggregate_wf E a"
  shows "subject_at a k = Some x \<longleftrightarrow> x \<in> subjects_of a \<and> subject_key x = k"
proof -
  have "key_inj fst (review_subject_map a)"
    unfolding key_inj_def review_subject_map_eq using subject_key_inj [OF assms] by auto
  from dict_get_Some_iff [OF this] show ?thesis
    by (auto simp: subject_at_def review_subject_map_eq)
qed

text \<open>The guard of an ordinary write, in terms of these sets.\<close>

lemma subject_at_None:
  "subject_at a k = None \<longleftrightarrow> k \<notin> subject_key ` subjects_of a"
  by (auto simp: subject_at_def dict_get_None review_subject_map_eq image_image)

lemma reviewed_guard:
  assumes a: "aggregate_wf E a" and b: "aggregate_wf E b"
  shows "assert_non_review_transition s b a n = Inr () \<longleftrightarrow> reviewed_of a = reviewed_of b \<and>
    (\<forall>k \<in> set (open_bound s (ag_id a) n). subject_at b k = subject_at a k)"
proof -
  note at = subject_at_iff [OF a] subject_at_iff [OF b] and inj = subject_key_inj [OF a] subject_key_inj [OF b]
  have "(\<forall>x \<in> subjects_of b. subject_status x \<noteq> Proposed \<longrightarrow> subject_at a (subject_key x) = Some x) \<and>
      (\<forall>x \<in> subjects_of b. subject_status x = Proposed \<longrightarrow>
        (case subject_at a (subject_key x) of None \<Rightarrow> True | Some y \<Rightarrow> subject_status y = Proposed)) \<and>
      (\<forall>x \<in> subjects_of a. subject_at b (subject_key x) = None \<longrightarrow> subject_status x = Proposed) \<longleftrightarrow>
    reviewed_of a = reviewed_of b" (is "?guard \<longleftrightarrow> _")
  proof
    assume g: ?guard
    from g have g1: "\<And>y. y \<in> subjects_of b \<Longrightarrow> subject_status y \<noteq> Proposed \<Longrightarrow> subject_at a (subject_key y) = Some y"
      by blast
    show "reviewed_of a = reviewed_of b"
    proof (intro equalityI subsetI)
      fix x assume "x \<in> reviewed_of b"
      with g show "x \<in> reviewed_of a" by (auto simp: reviewed_of_def at)
    next
      fix x assume x: "x \<in> reviewed_of a"
      then have xa: "subject_at a (subject_key x) = Some x" by (simp add: at reviewed_of_def)
      have "subject_at b (subject_key x) \<noteq> None" using x g unfolding reviewed_of_def by blast
      then obtain y where y: "subject_at b (subject_key x) = Some y" by blast
      then have "y \<in> subjects_of b" "subject_key y = subject_key x" by (simp_all add: at)
      have "subject_status y \<noteq> Proposed"
      proof
        assume "subject_status y = Proposed"
        with g \<open>y \<in> subjects_of b\<close> have "case subject_at a (subject_key y) of None \<Rightarrow> True | Some z \<Rightarrow> subject_status z = Proposed"
          by blast
        then have "subject_status x = Proposed" by (simp add: \<open>subject_key y = subject_key x\<close> xa)
        with x show False by (simp add: reviewed_of_def)
      qed
      have "subject_at a (subject_key y) = Some y" by (rule g1) fact+
      then have "y = x" using xa unfolding \<open>subject_key y = subject_key x\<close> by simp
      with \<open>subject_status y \<noteq> Proposed\<close> \<open>y \<in> subjects_of b\<close> show "x \<in> reviewed_of b" unfolding reviewed_of_def by blast
    qed
  next
    assume eq: "reviewed_of a = reviewed_of b"
    have mem: "x \<in> subjects_of a \<and> subject_status x \<noteq> Proposed \<longleftrightarrow> x \<in> subjects_of b \<and> subject_status x \<noteq> Proposed" for x
      using eq by (auto simp: reviewed_of_def set_eq_iff)
    show ?guard
    proof (intro conjI ballI impI)
      fix x assume "x \<in> subjects_of b" "subject_status x \<noteq> Proposed"
      with mem have "x \<in> subjects_of a" by blast
      then show "subject_at a (subject_key x) = Some x" by (simp add: at)
    next
      fix x assume x: "x \<in> subjects_of b" "subject_status x = Proposed"
      show "case subject_at a (subject_key x) of None \<Rightarrow> True | Some y \<Rightarrow> subject_status y = Proposed"
      proof (cases "subject_at a (subject_key x)")
        case (Some y)
        then have y: "y \<in> subjects_of a" "subject_key y = subject_key x" by (simp_all add: at)
        have "subject_status y = Proposed"
        proof (rule ccontr)
          assume "subject_status y \<noteq> Proposed"
          with mem y(1) have "y \<in> subjects_of b" by blast
          from inj(2) [OF this x(1) y(2)] x(2) \<open>subject_status y \<noteq> Proposed\<close> show False by simp
        qed
        with Some show ?thesis by simp
      qed simp
    next
      fix x assume x: "x \<in> subjects_of a" "subject_at b (subject_key x) = None"
      show "subject_status x = Proposed"
      proof (rule ccontr)
        assume "subject_status x \<noteq> Proposed"
        with mem x(1) have "x \<in> subjects_of b" by blast
        with x(2) show False by (simp add: subject_at_None)
      qed
    qed
  qed
  then show ?thesis
    unfolding assert_non_review_transition_def checks_def guards_Inr_iff
    by (simp add: list_all_iff review_subject_map_eq case_prod_beta) blast
qed

lemma subject_row_refs:
  "map (\<lambda>x. (sj_request_id x, sj_kind x, sj_id x)) (subject_rows_for r) =
     map (\<lambda>y. (hr_request_id r, snapshot_key y)) (hr_subjects r)"
proof -
  have "map (\<lambda>x. (sj_request_id x, sj_kind x, sj_id x)) (subject_rows_for r) =
      map (\<lambda>(n, y). (hr_request_id r, snapshot_key y)) (enumerate 0 (hr_subjects r))"
    unfolding subject_rows_for_def by (simp add: snapshot_key_def case_prod_beta comp_def)
  then show ?thesis by (simp only: map_enumerate)
qed

lemma open_bound_keys:
  assumes "audit E s rs ds"
  shows "set (open_bound s i n) = {snapshot_key y | r y. r \<in> set rs \<and> y \<in> set (hr_subjects r) \<and>
    hr_aggregate_id r = i \<and> hr_base_revision r = n \<and>
    lookup_key qd_request_id (hr_request_id r) (st_decisions s) = None}"
proof -
  have rows: "st_requests s = map request_row_of rs" "st_subjects s = concat (map subject_rows_for rs)"
    and dist: "distinct (map hr_request_id rs)" using assms by (simp_all add: audit_def)
  let ?ref = "\<lambda>x. (sj_request_id x, sj_kind x, sj_id x)"
  let ?undecided = "\<lambda>r. hr_aggregate_id r = i \<and> hr_base_revision r = n \<and>
      lookup_key qd_request_id (hr_request_id r) (st_decisions s) = None"
  from arg_cong [where f = set, OF subject_row_refs]
  have subs: "?ref ` set (subject_rows_for r) = (\<lambda>y. (hr_request_id r, snapshot_key y)) ` set (hr_subjects r)" for r
    by simp
  have "k \<in> set (open_bound s i n) \<longleftrightarrow> (\<exists>q. (q, k) \<in> ?ref ` set (st_subjects s) \<and>
      (\<exists>r \<in> set rs. hr_request_id r = q \<and> ?undecided r))" for k
    unfolding open_bound_def rows(1) by (cases k) (auto simp: request_row_of_def image_iff)
  moreover have "?ref ` set (st_subjects s) = (\<Union>r \<in> set rs. (\<lambda>y. (hr_request_id r, snapshot_key y)) ` set (hr_subjects r))"
    unfolding rows(2) subs [symmetric] by auto
  ultimately have mem: "k \<in> set (open_bound s i n) \<longleftrightarrow> (\<exists>r' \<in> set rs. \<exists>y \<in> set (hr_subjects r'). k = snapshot_key y \<and>
      (\<exists>r \<in> set rs. hr_request_id r = hr_request_id r' \<and> ?undecided r))" for k
    by auto
  have same: "r = r'" if "r' \<in> set rs" "r \<in> set rs" "hr_request_id r = hr_request_id r'" for r r'
    using dist that by (auto simp: distinct_map dest: inj_onD)
  show ?thesis
  proof (intro set_eqI iffI)
    fix k assume "k \<in> set (open_bound s i n)"
    with mem same show "k \<in> {snapshot_key y | r y. r \<in> set rs \<and> y \<in> set (hr_subjects r) \<and> ?undecided r}" by blast
  next
    fix k assume "k \<in> {snapshot_key y | r y. r \<in> set rs \<and> y \<in> set (hr_subjects r) \<and> ?undecided r}"
    then show "k \<in> set (open_bound s i n)" unfolding mem by blast
  qed
qed

lemma open_guard:
  assumes c: "consistent E s" and h: "find_head s (ag_id a) = Some h" "live E s h b" and a: "aggregate_wf E a"
  shows "(\<forall>k \<in> set (open_bound s (ag_id a) (hw_revision h)). subject_at b k = subject_at a k) \<longleftrightarrow>
    under_review E s (ag_id a) \<subseteq> subjects_of a"
proof -
  from c have fl: "float_ok E" and inv: "store_inv E s" by (auto simp: consistent_def env_ok_def)
  from inv obtain rs ds where au: "audit E s rs ds" by (auto simp: store_inv_def)
  have b: "aggregate_wf E b" using live_fields(4) [OF h(2)] by (simp add: storable_def)
  let ?keyed = "\<lambda>r. hr_aggregate_id r = ag_id a \<and> hr_base_revision r = hw_revision h \<and>
      lookup_key qd_request_id (hr_request_id r) (st_decisions s) = None"
  let ?open = "\<lambda>r. hr_aggregate_id r = ag_id a \<and> lifecycle_of s r = Open"
  have key: "(?keyed r \<longleftrightarrow> ?open r) \<and>
      (?keyed r \<longrightarrow> (\<forall>y \<in> set (hr_subjects r). sn_subject y \<in> subjects_of b \<and> subject_key (sn_subject y) = snapshot_key y))"
    if r: "r \<in> set rs" for r
  proof -
    from au r have ok: "request_ok E s r" by (simp add: audit_def)
    then have new: "review_request_new E r = Inr r" and st: "storable E (hr_base r)" and bind: "subjects_bind_base r"
      and anchor: "anchored E s (hr_base_revision r) (hr_base r)" by (auto simp: request_ok_def)
    note f = review_request_new_fields [OF new st]
    have base: "hr_base r = b" if "?keyed r"
    proof -
      have "find_head s (ag_id (hr_base r)) = Some h" using h(1) that f(5) by simp
      with anchor that have "live E s h (hr_base r)" by (auto simp: anchored_def)
      then show ?thesis by (rule live_unique [OF fl _ h(2)])
    qed
    have "?open r" if k: "?keyed r"
      using k h(1) f(6) live_fields(2) [OF h(2)] by (simp add: lifecycle_of_def base [OF k])
    moreover have "?keyed r" if "?open r"
      using that h(1) by (auto simp: lifecycle_of_def split: option.splits if_splits)
    moreover have "sn_subject y \<in> subjects_of b \<and> subject_key (sn_subject y) = snapshot_key y"
      if k: "?keyed r" and y: "y \<in> set (hr_subjects r)" for y
    proof -
      from bind y have from_b: "subject_from_aggregate b \<lparr>sr_kind = sn_kind y, sr_id = sn_id y\<rparr> = Some (sn_subject y)"
        unfolding base [OF k, symmetric] by (auto simp: subjects_bind_base_def list_all_iff)
      from subject_from_aggregate_own [OF this] have "subject_key (sn_subject y) = snapshot_key y"
        by (simp add: subject_key_def snapshot_key_def)
      moreover from from_b have "sn_subject y \<in> subjects_of b"
        by (auto simp: subject_from_aggregate_def subjects_of_def image_iff eq_commute [of _ "sn_subject y"]
            split: review_kind.splits dest!: lookup_key_Some)
      ultimately show ?thesis by blast
    qed
    ultimately show ?thesis by blast
  qed
  have seen: "under_review E s (ag_id a) = {sn_subject y | r y. r \<in> set rs \<and> y \<in> set (hr_subjects r) \<and> ?keyed r}"
  proof -
    have "read_review_request E s (hr_request_id r) = Inr (Some r) \<longleftrightarrow> r \<in> set rs" for r
      using read_request_present [OF au] read_request_Some [OF au] by blast
    with key show ?thesis unfolding under_review_def by blast
  qed
  have "subject_at b (snapshot_key y) = subject_at a (snapshot_key y) \<longleftrightarrow> sn_subject y \<in> subjects_of a"
    if "r \<in> set rs" "y \<in> set (hr_subjects r)" "?keyed r" for r y
  proof -
    from key that have y: "sn_subject y \<in> subjects_of b" "subject_key (sn_subject y) = snapshot_key y" by blast+
    then have "subject_at b (snapshot_key y) = Some (sn_subject y)" by (simp add: subject_at_iff [OF b])
    then show ?thesis using subject_at_iff [OF a, of "snapshot_key y" "sn_subject y"] y(2) by auto
  qed
  then show ?thesis unfolding open_bound_keys [OF au] seen by blast
qed

section \<open>Compare and swap refines a map of aggregates\<close>

text \<open>
  The abstract operation on the map from ids to revision and aggregate: an ordinary write may neither add,
  change nor remove a reviewed subject, and keeps every subject that is under an open review.
\<close>

definition spec_swap ::
  "py_env \<Rightarrow> (string \<Rightarrow> review_subject set) \<Rightarrow> (string \<Rightarrow> (int \<times> aggregate) option) \<Rightarrow> aggregate \<Rightarrow> int option \<Rightarrow>
     (int \<times> bool \<times> (string \<Rightarrow> (int \<times> aggregate) option)) option" where
  "spec_swap E watched m a expected = (case m (ag_id a) of
     None \<Rightarrow>
       if expected = None \<and> reviewed_of a = {}
       then Some (1, True, m(ag_id a \<mapsto> (1, a))) else None
   | Some (n, b) \<Rightarrow>
       if expected = Some n \<and> reviewed_of a = reviewed_of b \<and> watched (ag_id a) \<subseteq> subjects_of a
       then if digest_of E b = digest_of E a then Some (n, False, m)
         else Some (n + 1, True, m(ag_id a \<mapsto> (n + 1, a)))
       else None)"

lemma compare_and_swap_eq:
  assumes "storable E a" and "operation_id_pattern i" and "opt_all (\<lambda>r. 1 \<le> r) expected"
  shows "compare_and_swap E now a expected i s = transact (swap_body E now a (digest_of E a) expected i) s"
  using assms storable_sha [OF assms(1)]
  by (simp add: compare_and_swap_def require_operation_id_def checks_def guards.simps storable_def
      aggregate_wf_def digest_of_def)

lemma commit_for_fields [simp]:
  "cm_revision (commit_for now a n d ch) = n" "cm_changed (commit_for now a n d ch) = ch"
  "cm_sha256 (commit_for now a n d ch) = d" "cm_replayed (commit_for now a n d ch) = False"
  "cm_aggregate_id (commit_for now a n d ch) = ag_id a" "cm_committed_at (commit_for now a n d ch) = now"
  by (simp_all add: commit_for_def)

lemma swapped_spec:
  assumes c: "consistent E s" and a: "storable E a" and u: "unused s i"
  shows "swapped E now a i s expected k t \<longleftrightarrow>
    spec_swap E (under_review E s) (committed E s) a expected = Some (cm_revision k, cm_changed k, committed E t) \<and>
    (if cm_changed k then t = write_at E now i a expected (cm_revision k) s
     else t = log_receipt (receipt_for E now i a expected (cm_revision k) False) s) \<and>
    k = commit_for now a (cm_revision k) (digest_of E a) (cm_changed k)"
    (is "_ \<longleftrightarrow> ?spec")
proof (cases rule: committed_cases [OF c, of "ag_id a"])
  case 1
  note absent = this
  have fl: "float_ok E" using c by (simp add: consistent_def env_ok_def)
  have "swapped E now a i s expected k t \<longleftrightarrow> expected = None \<and> assert_generic_proposed_only a = Inr () \<and>
      k = commit_for now a 1 (digest_of E a) True \<and> t = write_at E now i a None 1 s"
    using u absent(1) unused_operation [OF u] by (auto elim!: swappedE intro: swapped.created)
  also have "assert_generic_proposed_only a = Inr () \<longleftrightarrow> reviewed_of a = {}"
    by (auto simp: assert_generic_proposed_only_def list_all_iff review_subject_map_eq reviewed_of_def)
  also have "(expected = None \<and> reviewed_of a = {} \<and> k = commit_for now a 1 (digest_of E a) True \<and>
      t = write_at E now i a None 1 s) \<longleftrightarrow> ?spec"
    using committed_write [OF fl a, of 1]
    by (auto simp: spec_swap_def absent(2) split: if_splits)
  finally show ?thesis .
next
  case (2 h b)
  note present = this
  have fl: "float_ok E" using c by (simp add: consistent_def env_ok_def)
  let ?n = "hw_revision h"
  have wf: "aggregate_wf E a" "aggregate_wf E b" using a live_fields(4) [OF present(2)] by (simp_all add: storable_def)
  have n: "1 \<le> ?n + 1" using live_fields(5) [OF present(2)] by simp
  have uniq: "live E s h b' \<longleftrightarrow> b' = b" for b' using live_unique [OF fl] present(2) by blast
  have "swapped E now a i s expected k t \<longleftrightarrow> expected = Some ?n \<and>
      assert_non_review_transition s b a ?n = Inr () \<and>
      (if digest_of E b = digest_of E a
       then k = commit_for now a ?n (digest_of E a) False \<and>
         t = log_receipt (receipt_for E now i a (Some ?n) ?n False) s
       else k = commit_for now a (?n + 1) (digest_of E a) True \<and> t = write_at E now i a (Some ?n) (?n + 1) s)"
    using u present(1) uniq unused_operation [OF u]
    by (auto elim!: swappedE intro: swapped.kept swapped.written)
  also have "assert_non_review_transition s b a ?n = Inr () \<longleftrightarrow>
      reviewed_of a = reviewed_of b \<and> under_review E s (ag_id a) \<subseteq> subjects_of a"
    using reviewed_guard [OF wf] open_guard [OF c present(1,2) wf(1)] by simp
  also have "(expected = Some ?n \<and> (reviewed_of a = reviewed_of b \<and> under_review E s (ag_id a) \<subseteq> subjects_of a) \<and>
      (if digest_of E b = digest_of E a
       then k = commit_for now a ?n (digest_of E a) False \<and>
         t = log_receipt (receipt_for E now i a (Some ?n) ?n False) s
       else k = commit_for now a (?n + 1) (digest_of E a) True \<and> t = write_at E now i a (Some ?n) (?n + 1) s)) \<longleftrightarrow> ?spec"
    using committed_write [OF fl a n]
    by (auto simp: spec_swap_def present(4) split: if_splits)
  finally show ?thesis .
qed

text \<open>
  C2. \<open>compare_and_swap\<close> refines the abstract operation on a map from aggregate ids to (revision,
  aggregate).  For an aggregate that can be stored (stable under revalidation, valid dates, one identity
  payload per claim identity, span offsets below 2^63; confidences other than the negative zero), a
  positive or absent expected revision, an unused operation id and a canonical clock: the call succeeds
  exactly when the expected revision is the committed one (none, when the id is new), the reviewed
  subjects are exactly those of the committed aggregate (none, when the id is new) and every subject
  under an open review is kept as it is; then its revision, its changed flag (whether the digest
  differs) and what every id loads to are those of the abstract operation; when it raises, no table has
  changed.
\<close>

theorem swap_refines:
  assumes "env_ok E" and "store_reaches E empty_store s" and "storable E a"
    and "opt_all (\<lambda>r. 1 \<le> r) expected" and "unused s i" and "canonical_utc now"
  shows "case compare_and_swap E now a expected i s of
      (Inl e, t) \<Rightarrow> t = s \<and> spec_swap E (under_review E s) (committed E s) a expected = None
    | (Inr k, t) \<Rightarrow>
        spec_swap E (under_review E s) (committed E s) a expected =
          Some (cm_revision k, cm_changed k, committed E t) \<and>
        (\<forall>j. load E j t = Inr (map_option (\<lambda>(n, b). snapshot_of E b n) (committed E t j), t)) \<and>
        k = commit_for now a (cm_revision k) (digest_of E a) (cm_changed k)"
proof -
  note c = consistent_reached [OF assms(1,2)]
  have i: "operation_id_pattern i" using assms(5) by (simp add: unused_def)
  have inv: "store_inv E s" using c by (simp add: consistent_def)
  note body = swap_body_Inr [OF assms(1) inv assms(3) i, of now expected] swapped_spec [OF c assms(3,5), of now expected]
  let ?spec = "spec_swap E (under_review E s) (committed E s) a expected"
  show ?thesis
  proof (cases "swap_body E now a (digest_of E a) expected i s")
    case (Inl e)
    have "?spec = None"
    proof (rule ccontr)
      assume "?spec \<noteq> None"
      then obtain n ch m where sp: "?spec = Some (n, ch, m)" by auto
      let ?k = "commit_for now a n (digest_of E a) ch"
      let ?t = "if ch then write_at E now i a expected n s else log_receipt (receipt_for E now i a expected n False) s"
      have m: "m = committed E ?t"
      proof (cases "committed E s (ag_id a)")
        case None
        with sp show ?thesis
          using committed_write [OF _ assms(3), of 1] assms(1)
          by (auto simp: spec_swap_def env_ok_def split: if_splits)
      next
        case (Some x)
        then obtain n0 b where x: "committed E s (ag_id a) = Some (n0, b)" by (cases x) auto
        then obtain h where "live E s h b" "hw_revision h = n0" by (rule committed_Some [OF c])
        then have "1 \<le> n0 + 1" using live_fields(5) by fastforce
        with sp x show ?thesis
          using committed_write [OF _ assms(3), of "n0 + 1"] assms(1)
          by (auto simp: spec_swap_def env_ok_def split: if_splits)
      qed
      have "swapped E now a i s expected ?k ?t" using body(2) [of ?k ?t] sp m by simp
      with body(1) Inl show False by simp
    qed
    then show ?thesis
      using Inl by (simp add: compare_and_swap_eq [OF assms(3) i assms(4)] transact_def)
  next
    case (Inr kt)
    then obtain k t where kt: "swap_body E now a (digest_of E a) expected i s = Inr (k, t)" by (cases kt) auto
    with body have sw: "swapped E now a i s expected k t"
      and sp: "?spec = Some (cm_revision k, cm_changed k, committed E t)"
      "k = commit_for now a (cm_revision k) (digest_of E a) (cm_changed k)" by blast+
    have "store_step E s t" by (rule swapped_step [OF sw assms(3,6)])
    then have ct: "consistent E t" using c step_inv by (auto simp: consistent_def)
    have "load E j t = Inr (map_option (\<lambda>(n, b). snapshot_of E b n) (committed E t j), t)" for j
      using load_committed [OF ct, of j] by (auto split: option.splits)
    with kt sp show ?thesis
      by (simp add: compare_and_swap_eq [OF assms(3) i assms(4)] transact_def)
  qed
qed

section \<open>Replays\<close>

definition settles :: "store \<Rightarrow> store \<Rightarrow> bool" where
  "settles s t \<longleftrightarrow> (\<forall>i p. find_operation s i = Some p \<longrightarrow>
     find_operation t i = Some p \<and> review_operation_owner t i = review_operation_owner s i)"

lemma review_owner_cong:
  assumes "lookup_key qr_operation_id i (st_requests t) = lookup_key qr_operation_id i (st_requests s)"
    and "lookup_key qd_operation_id i (st_decisions t) = lookup_key qd_operation_id i (st_decisions s)"
  shows "review_operation_owner t i = review_operation_owner s i"
  using assms by (simp add: review_operation_owner_def)

lemma advances_operation: "advances s t \<Longrightarrow> find_operation s i = Some p \<Longrightarrow> find_operation t i = Some p"
  by (simp add: advances_def)

lemma step_advances:
  assumes "store_step E s t"
  shows "advances s t"
  using assms
proof cases
  case (created a i now)
  then show ?thesis by (auto intro: advances_write)
next
  case (written a h b i now)
  then show ?thesis by (auto intro: advances_write)
next
  case (kept a h i now)
  then show ?thesis by (auto intro: advances_log)
next
  case (requested r h)
  let ?t = "log_receipt (receipt_for E (hr_requested_at r) (hr_operation_id r) (hr_base r) (Some (hw_revision h)) (hw_revision h) False) s"
  have "advances ?t (add_request r ?t)" by (rule advances_same) simp_all
  then show ?thesis unfolding requested(1) by (rule advances_trans [OF advances_log])
next
  case (decided r h d)
  let ?t = "write_at E (hd_decided_at d) (hd_operation_id d) (hd_aggregate d) (Some (hw_revision h)) (hw_revision h + 1) s"
  have base: "storable E (hr_base r)" by (rule live_fields(4) [OF decided(5)])
  have "ag_id (hd_aggregate d) = ag_id (hr_base r)" by (rule decided_storable(2) [OF base decided(11)])
  with decided(4) have "advances s ?t" by (intro advances_write) simp
  moreover have "advances ?t (add_decision r d ?t)" by (rule advances_same) simp_all
  ultimately show ?thesis unfolding decided(1) by (rule advances_trans)
next
  case (elsewhere x)
  show ?thesis unfolding elsewhere(1) by (rule advances_same) simp_all
qed simp

lemma step_settles:
  assumes "store_step E s t"
  shows "settles s t"
  unfolding settles_def
proof (intro allI impI conjI)
  fix i p assume p: "find_operation s i = Some p"
  show "find_operation t i = Some p" by (rule advances_operation [OF step_advances [OF assms] p])
  show "review_operation_owner t i = review_operation_owner s i"
    using assms
  proof cases
    case (requested r h)
    have "hr_operation_id r \<noteq> i" using unused_operation [OF requested(9)] p by auto
    then show ?thesis
      unfolding requested(1) by (intro review_owner_cong) (simp_all add: lookup_key_append lookup_key_single split: option.split)
  next
    case (decided r h d)
    have "hd_operation_id d \<noteq> i" using unused_operation [OF decided(13)] p by auto
    then show ?thesis
      unfolding decided(1) by (intro review_owner_cong) (simp_all add: lookup_key_append lookup_key_single split: option.split)
  qed (auto intro: review_owner_cong)
qed

interpretation settled: monotone_history "event_ok E" "apply_event E" "consistent E" settles for E
  by unfold_locales (auto simp: settles_def dest: consistent_event_step step_settles [unfolded settles_def])

interpretation advanced: monotone_history "event_ok E" "apply_event E" "consistent E" advances for E
  by unfold_locales (auto intro: advances_trans step_advances consistent_event_step)

lemma unowned_unused:
  assumes "consistent E s" and "unused s i"
  shows "review_operation_owner s i = Inr None"
proof -
  from assms(1) obtain rs ds where au: "audit E s rs ds" by (auto simp: consistent_def store_inv_def)
  note none = unused_operation [OF assms(2)]
  have "lookup_key qr_operation_id i (st_requests s) = None"
    using au none by (auto simp: audit_def lookup_key_None request_ok_def)
  moreover have "lookup_key qd_operation_id i (st_decisions s) = None"
    using au none by (force simp: audit_def lookup_key_None decision_ok_def)
  ultimately show ?thesis by (simp add: review_operation_owner_def)
qed

text \<open>An accepted call leaves a receipt that answers the same call again.\<close>

lemma swapped_receipt:
  assumes c: "consistent E s" and sw: "swapped E now a i s expected k t"
  shows "\<exists>p. find_operation t i = Some p \<and> op_aggregate_id p = ag_id a \<and> op_expected p = expected \<and>
    op_sha256 p = digest_of E a \<and> review_operation_owner t i = Inr None \<and> commit_of_receipt p = k\<lparr>cm_replayed := True\<rparr>"
  using sw
proof cases
  case (replayed p)
  then show ?thesis by (auto simp: commit_of_receipt_def)
next
  case created
  have "review_operation_owner t i = review_operation_owner s i" unfolding created(3) by (rule review_owner_cong) simp_all
  with created show ?thesis
    by (auto simp: find_operation_write unowned_unused [OF c] commit_of_receipt_def receipt_for_def new_receipt_def commit_for_def)
next
  case (kept h b)
  have "review_operation_owner t i = review_operation_owner s i" unfolding kept(3) by (rule review_owner_cong) simp_all
  with kept show ?thesis
    by (auto simp: find_operation_log unused_operation unowned_unused [OF c] commit_of_receipt_def receipt_for_def
        new_receipt_def commit_for_def)
next
  case (written h b)
  have "review_operation_owner t i = review_operation_owner s i" unfolding written(3) by (rule review_owner_cong) simp_all
  with written show ?thesis
    by (auto simp: find_operation_write unowned_unused [OF c] commit_of_receipt_def receipt_for_def new_receipt_def commit_for_def)
qed

text \<open>
  C8. Writes are idempotent for ever: once \<open>compare_and_swap\<close> has accepted a call for an aggregate that
  can be stored (stable under revalidation, valid dates, one identity payload per claim identity, span
  offsets below 2^63; confidences other than the negative zero), repeating it with the same operation id,
  aggregate and expected revision in any later store that writes of storable aggregates, requests,
  decisions and other authorities reach, at whatever time, returns the first commit marked as replayed
  and changes nothing.
\<close>

theorem swap_idempotent:
  assumes "env_ok E" and "store_reaches E empty_store s" and "storable E a" and "canonical_utc now"
    and run: "compare_and_swap E now a expected i s = (Inr k, t)" and later: "store_reaches E t u"
  shows "compare_and_swap E now' a expected i u = (Inr (k\<lparr>cm_replayed := True\<rparr>), u)"
proof -
  note c = consistent_reached [OF assms(1,2)]
  from run have i: "operation_id_pattern i" and ex: "opt_all (\<lambda>r. 1 \<le> r) expected"
    by (auto simp: compare_and_swap_def require_operation_id_def rbind_Inr_iff split: sum.splits)
  have inv: "store_inv E s" using c by (simp add: consistent_def)
  from run have "swap_body E now a (digest_of E a) expected i s = Inr (k, t)"
    by (auto simp: compare_and_swap_eq [OF assms(3) i ex] transact_def split: sum.splits)
  then have sw: "swapped E now a i s expected k t" by (simp add: swap_body_Inr [OF assms(1) inv assms(3) i])
  from swapped_receipt [OF c sw] obtain p where p: "find_operation t i = Some p" "op_aggregate_id p = ag_id a"
    "op_expected p = expected" "op_sha256 p = digest_of E a" "review_operation_owner t i = Inr None"
    "commit_of_receipt p = k\<lparr>cm_replayed := True\<rparr>" by blast
  have "store_step E s t" by (rule swapped_step [OF sw assms(3,4)])
  then have ct: "consistent E t" using c step_inv by (auto simp: consistent_def)
  have "settles t u" using later ct settled.rel_reaches by (auto simp: store_reaches_def)
  with p have pu: "find_operation u i = Some p" "review_operation_owner u i = Inr None" by (auto simp: settles_def)
  have cu: "consistent E u" using later ct store_history.inv_reaches by (auto simp: store_reaches_def)
  have "swapped E now' a i u expected (commit_of_receipt p) u"
    by (rule swapped.replayed [OF pu(1) p(2-4) pu(2)])
  then have "swap_body E now' a (digest_of E a) expected i u = Inr (k\<lparr>cm_replayed := True\<rparr>, u)"
    using swap_body_Inr [OF assms(1) _ assms(3) i] cu p(6) by (simp add: consistent_def)
  then show ?thesis by (simp add: compare_and_swap_eq [OF assms(3) i ex] transact_def)
qed

section \<open>Reviewed subjects\<close>

definition reviewed_subject ::
  "subject_snapshot list \<Rightarrow> decision_item list \<Rightarrow> review_subject \<Rightarrow> review_subject" where
  "reviewed_subject ss is x = (case x of
     ReplacementSubject r \<Rightarrow> ReplacementSubject (reviewed_replacement ss is r)
   | ConstraintSubject c \<Rightarrow> ConstraintSubject (reviewed_constraint ss is c))"

lemma dict_get_map_values:
  "dict_get fst (map (\<lambda>(k, x). (k, f x)) m) k = map_option (\<lambda>(k, x). (k, f x)) (dict_get fst m k)"
proof -
  have "find (\<lambda>y. fst y = k) (map (\<lambda>(k, x). (k, f x)) xs) =
      map_option (\<lambda>(k, x). (k, f x)) (find (\<lambda>y. fst y = k) xs)" for xs
    by (induction xs) auto
  then show ?thesis by (simp add: dict_get_def lookup_key_def rev_map)
qed

lemma subject_at_decided:
  "subject_at (decided_aggregate r c) k =
     map_option (reviewed_subject (hr_subjects r) (dc_items c)) (subject_at (hr_base r) k)"
proof -
  have "review_subject_map (decided_aggregate r c) =
      map (\<lambda>(k, x). (k, reviewed_subject (hr_subjects r) (dc_items c) x)) (review_subject_map (hr_base r))"
    by (simp add: review_subject_map_def decided_aggregate_def reviewed_subject_def)
  then show ?thesis
    unfolding subject_at_def by (simp only: dict_get_map_values) (simp add: option.map_comp comp_def case_prod_beta)
qed

lemma outcome_for_item:
  "outcome_for ss is k = Some i \<Longrightarrow> i \<in> set is \<and> item_ref i = k"
  by (auto simp: outcome_for_def split: option.splits dest: dict_get_member)

lemma status_reviewed:
  assumes "subject_own_kind x = k" and "subject_own_id x = j"
  shows "(case outcome_for ss is (k, j) of
      None \<Rightarrow> reviewed_subject ss is x = x
    | Some i \<Rightarrow> subject_status (reviewed_subject ss is x) = outcome_status i)"
  using assms
  by (cases x) (auto simp: reviewed_subject_def reviewed_replacement_def reviewed_constraint_def split: option.split)

lemma reviewed_fixed:
  assumes wf: "aggregate_wf E (hr_base r)" and run: "apply_human_review_decision E r c = Inr a"
    and x: "subject_at (hr_base r) k = Some x" and st: "subject_status x \<noteq> Proposed"
  shows "reviewed_subject (hr_subjects r) (dc_items c) x = x"
proof -
  note steps = apply_human_review_decision_steps [OF wf run] and m = subject_at_member [OF x]
  have "\<not> requested r (subject_own_kind x, subject_own_id x)"
    using m(3) st steps(4,5) by (cases x) (auto simp: requested_def)
  then have "outcome_for (hr_subjects r) (dc_items c) (subject_own_kind x, subject_own_id x) = None"
    using outcome_for_requested(1) [OF steps(3), of "(subject_own_kind x, subject_own_id x)"]
    unfolding requested_def
    by (cases "outcome_for (hr_subjects r) (dc_items c) (subject_own_kind x, subject_own_id x)") auto
  then show ?thesis using status_reviewed [OF refl refl, of "hr_subjects r" "dc_items c" x] by simp
qed

text \<open>What a step does to the committed aggregates.\<close>

lemma step_committed:
  assumes c: "consistent E s" and st: "store_step E s t"
  shows "committed E t = committed E s \<or>
    (\<exists>a. committed E s (ag_id a) = None \<and> assert_generic_proposed_only a = Inr () \<and>
       committed E t = (committed E s)(ag_id a \<mapsto> (1, a)) \<and> st_decisions t = st_decisions s \<and> st_items t = st_items s) \<or>
    (\<exists>a n b. committed E s (ag_id a) = Some (n, b) \<and> assert_non_review_transition s b a n = Inr () \<and>
       committed E t = (committed E s)(ag_id a \<mapsto> (n + 1, a)) \<and> st_decisions t = st_decisions s \<and> st_items t = st_items s) \<or>
    (\<exists>r d n. committed E s (ag_id (hr_base r)) = Some (n, hr_base r) \<and> aggregate_wf E (hr_base r) \<and>
       hr_base_revision r = n \<and> request_row_of r \<in> set (st_requests s) \<and> ag_id (hr_base r) = hr_aggregate_id r \<and>
       apply_human_review_decision E r (decision_command_of d) = Inr (hd_aggregate d) \<and>
       committed E t = (committed E s)(ag_id (hr_base r) \<mapsto> (n + 1, hd_aggregate d)) \<and>
       st_decisions t = st_decisions s @ [decision_row_of r d] \<and>
       st_items t = st_items s @ item_rows_for (hr_request_id r) (hd_items d) \<and> hd_revision d = n + 1)"
proof -
  have fl: "float_ok E" using c by (simp add: consistent_def env_ok_def)
  from st show ?thesis
  proof cases
    case (created a i now)
    show ?thesis
      unfolding created(1)
      by (intro disjI2 disjI1 exI [of _ a])
        (simp add: committed_write [OF fl created(2)] committed_absent [OF created(3)] created)
  next
    case (written a h b i now)
    have id: "ag_id b = ag_id a" using live_fields(1) [OF written(4)] find_head_Some [OF written(3)] by simp
    have "committed E s (ag_id a) = Some (hw_revision h, b)"
      using committed_live [OF fl _ written(4)] written(3) by (simp add: id)
    moreover have "1 \<le> hw_revision h + 1" using live_fields(5) [OF written(4)] by simp
    ultimately show ?thesis
      unfolding written(1)
      by (intro disjI2 disjI1 exI [of _ a] exI [of _ "hw_revision h"] exI [of _ b])
        (simp add: committed_write [OF fl written(2)] written)
  next
    case (decided r h d)
    have cs: "committed E s (ag_id (hr_base r)) = Some (hw_revision h, hr_base r)"
      by (rule committed_live [OF fl decided(4,5)])
    have base: "storable E (hr_base r)" by (rule live_fields(4) [OF decided(5)])
    have id: "ag_id (hd_aggregate d) = ag_id (hr_base r)" by (rule decided_storable(2) [OF base decided(11)])
    have n: "1 \<le> hw_revision h + 1" using live_fields(5) [OF decided(5)] by simp
    from c obtain rs ds where au: "audit E s rs ds" by (auto simp: consistent_def store_inv_def)
    from read_request_Some [OF au decided(2)] au have row: "request_row_of r \<in> set (st_requests s)"
      and rk: "request_ok E s r" by (auto simp: audit_def)
    then have aid: "ag_id (hr_base r) = hr_aggregate_id r" using review_request_new_fields(5) by (auto simp: request_ok_def)
    have wf: "aggregate_wf E (hr_base r)" using base by (simp add: storable_def)
    show ?thesis
      unfolding decided(1)
      by (intro disjI2 exI [of _ r] exI [of _ d] exI [of _ "hw_revision h"])
        (simp add: committed_write [OF fl decided(12) n] cs [unfolded aid] wf decided(6,8,11) row aid id)
  qed auto
qed

text \<open>Reviewed subjects, once committed, stay as they are.\<close>

definition freezes :: "py_env \<Rightarrow> store \<Rightarrow> store \<Rightarrow> bool" where
  "freezes E s t \<longleftrightarrow> (\<forall>i n a. committed E s i = Some (n, a) \<longrightarrow>
     (\<exists>m b. committed E t i = Some (m, b) \<and> n \<le> m \<and>
        (\<forall>k x. subject_at a k = Some x \<and> subject_status x \<noteq> Proposed \<longrightarrow> subject_at b k = Some x)))"

lemma transition_keeps:
  assumes "assert_non_review_transition s b a n = Inr ()" and "subject_at b k = Some x"
  shows "subject_status x \<noteq> Proposed \<Longrightarrow> subject_at a k = Some x"
    and "subject_status x = Proposed \<Longrightarrow> subject_at a k = Some y \<Longrightarrow> subject_status y = Proposed"
  using assms(1) subject_at_member(1) [OF assms(2)]
  by (force simp: assert_non_review_transition_def list_all_iff)+

lemma transition_new:
  assumes "assert_non_review_transition s b a n = Inr ()" and "subject_at a k = Some x" and "subject_at b k = None"
  shows "subject_status x = Proposed"
  using assms(1,3) subject_at_member(1) [OF assms(2)]
  by (force simp: assert_non_review_transition_def list_all_iff)

lemma step_freezes:
  assumes c: "consistent E s" and st: "store_step E s t"
  shows "freezes E s t"
  unfolding freezes_def
proof (intro allI impI)
  fix i n a assume i: "committed E s i = Some (n, a)"
  from step_committed [OF c st]
  show "\<exists>m b. committed E t i = Some (m, b) \<and> n \<le> m \<and>
      (\<forall>k x. subject_at a k = Some x \<and> subject_status x \<noteq> Proposed \<longrightarrow> subject_at b k = Some x)"
  proof (elim disjE exE conjE)
    assume "committed E t = committed E s"
    with i show ?thesis by auto
  next
    fix b assume "committed E s (ag_id b) = None" "committed E t = (committed E s)(ag_id b \<mapsto> (1, b))"
    with i show ?thesis by (intro exI [of _ n] exI [of _ a]) auto
  next
    fix b m old assume b: "committed E s (ag_id b) = Some (m, old)" "assert_non_review_transition s old b m = Inr ()"
      "committed E t = (committed E s)(ag_id b \<mapsto> (m + 1, b))"
    show ?thesis
    proof (cases "i = ag_id b")
      case True
      with b i transition_keeps(1) [OF b(2)] show ?thesis by auto
    next
      case False
      with b i show ?thesis by (intro exI [of _ n] exI [of _ a]) auto
    qed
  next
    fix r d m assume d: "committed E s (ag_id (hr_base r)) = Some (m, hr_base r)" "aggregate_wf E (hr_base r)"
      "apply_human_review_decision E r (decision_command_of d) = Inr (hd_aggregate d)"
      "committed E t = (committed E s)(ag_id (hr_base r) \<mapsto> (m + 1, hd_aggregate d))"
    show ?thesis
    proof (cases "i = ag_id (hr_base r)")
      case True
      with i d(1) have a: "a = hr_base r" "n = m" by auto
      have eq: "hd_aggregate d = decided_aggregate r (decision_command_of d)"
        by (rule apply_human_review_decision_steps(1) [OF d(2,3)])
      have "subject_at (hd_aggregate d) k = Some x" if "subject_at a k = Some x" "subject_status x \<noteq> Proposed" for k x
        using that reviewed_fixed [OF d(2,3)] unfolding a eq subject_at_decided by simp
      then show ?thesis using d(4) True a by auto
    next
      case False
      with d i show ?thesis by (intro exI [of _ n] exI [of _ a]) auto
    qed
  qed
qed

end
