(* ===== verification/StoreReview.thy ===== *)
theory StoreReview
  imports StoreProps
begin

text \<open>
  The review workflow over whole histories: reviewed subjects are immutable, every reviewed subject
  is backed by a recorded human decision, a closed request stays closed, and an open one can always
  be decided.
\<close>

section \<open>Reviewed subjects are immutable\<close>

lemma freezes_trans:
  assumes "freezes E s t" and "freezes E t u"
  shows "freezes E s u"
  unfolding freezes_def
proof (intro allI impI)
  fix i n a assume "committed E s i = Some (n, a)"
  with assms(1) obtain m b where b: "committed E t i = Some (m, b)" "n \<le> m"
    "\<And>k x. subject_at a k = Some x \<Longrightarrow> subject_status x \<noteq> Proposed \<Longrightarrow> subject_at b k = Some x"
    unfolding freezes_def by blast
  with assms(2) obtain l c where c: "committed E u i = Some (l, c)" "m \<le> l"
    "\<And>k x. subject_at b k = Some x \<Longrightarrow> subject_status x \<noteq> Proposed \<Longrightarrow> subject_at c k = Some x"
    unfolding freezes_def by blast
  from b(2) c(2) have "n \<le> l" by simp
  with b(3) c(1,3) show "\<exists>l c. committed E u i = Some (l, c) \<and> n \<le> l \<and>
      (\<forall>k x. subject_at a k = Some x \<and> subject_status x \<noteq> Proposed \<longrightarrow> subject_at c k = Some x)"
    by blast
qed

lemma freezes_refl: "freezes E s s"
  by (simp add: freezes_def)

interpretation frozen: monotone_history "event_ok E" "apply_event E" "consistent E" "freezes E" for E
  by unfold_locales (auto intro: freezes_refl freezes_trans step_freezes consistent_event_step)

text \<open>
  C4. A reviewed subject never changes: once a committed aggregate carries an accepted or rejected
  relation or constraint, every later store holds the aggregate at the same or a later revision with
  that subject unchanged, whatever ordinary writes and decisions come in between.
\<close>

theorem reviewed_immutable:
  assumes "env_ok E" and "store_reaches E empty_store s" and "store_reaches E s t"
    and "committed E s i = Some (n, a)" and "subject_at a k = Some x" and "subject_status x \<noteq> Proposed"
  shows "\<exists>m b. committed E t i = Some (m, b) \<and> n \<le> m \<and> subject_at b k = Some x"
proof -
  have "freezes E s t"
    using frozen.rel_reaches [OF assms(3) [unfolded store_reaches_def] consistent_reached [OF assms(1,2)]] .
  with assms(4-6) show ?thesis unfolding freezes_def by blast
qed

section \<open>Every reviewed subject has a decision\<close>

definition accounted :: "store \<Rightarrow> string \<Rightarrow> int \<Rightarrow> string \<times> string \<Rightarrow> review_subject \<Rightarrow> bool" where
  "accounted s i n k x \<longleftrightarrow> (\<exists>d \<in> set (st_decisions s). qd_aggregate_id d = i \<and> qd_revision d \<le> n \<and>
     subject_at (qd_aggregate d) k = Some x \<and>
     (\<exists>m \<in> set (st_items s). im_request_id m = qd_request_id d \<and> (im_kind m, im_id m) = k \<and>
        (subject_status x = Rejected \<longleftrightarrow> im_disposition m = ''rejected'')))"

definition accountable :: "py_env \<Rightarrow> store \<Rightarrow> bool" where
  "accountable E s \<longleftrightarrow> (\<forall>i n a k x. committed E s i = Some (n, a) \<longrightarrow> subject_at a k = Some x \<longrightarrow>
     subject_status x \<noteq> Proposed \<longrightarrow> accounted s i n k x)"

lemma accounted_mono:
  assumes "accounted s i n k x" and "set (st_decisions s) \<subseteq> set (st_decisions t)"
    and "set (st_items s) \<subseteq> set (st_items t)" and "n \<le> m"
  shows "accounted t i m k x"
  using assms unfolding accounted_def by (meson order_trans subsetD)

lemma accountableD:
  "\<lbrakk>accountable E s; committed E s i = Some (n, a); subject_at a k = Some x; subject_status x \<noteq> Proposed\<rbrakk>
    \<Longrightarrow> accounted s i n k x"
  unfolding accountable_def by blast

lemma step_logs:
  assumes "store_step E s t"
  shows "set (st_decisions s) \<subseteq> set (st_decisions t)" "set (st_items s) \<subseteq> set (st_items t)"
  using assms by (cases; auto)+

lemma item_row_mem:
  assumes "i \<in> set is"
  shows "\<exists>m \<in> set (item_rows_for q is). im_request_id m = q \<and> im_kind m = review_kind_value (it_kind i) \<and>
    im_id m = it_id i \<and> im_disposition m = review_disposition_value (it_disposition i)"
proof -
  from assms obtain n where "n < length is" "is ! n = i" by (auto simp: in_set_conv_nth)
  then have "(n, i) \<in> set (enumerate 0 is)" by (auto simp: in_set_enumerate_eq)
  then show ?thesis unfolding item_rows_for_def by (force intro: rev_image_eqI)
qed

lemma rejected_text: "review_disposition_value d = ''rejected'' \<longleftrightarrow> d = OutcomeRejected"
  by (cases d) (simp_all add: review_disposition_value_def)

lemma decided_accounted:
  assumes acc: "accountable E s" and logs: "set (st_decisions s) \<subseteq> set (st_decisions t)"
      "set (st_items s) \<subseteq> set (st_items t)"
    and base: "committed E s (ag_id (hr_base r)) = Some (n, hr_base r)" "aggregate_wf E (hr_base r)"
      "ag_id (hr_base r) = hr_aggregate_id r"
    and run: "apply_human_review_decision E r (decision_command_of d) = Inr (hd_aggregate d)"
    and new: "decision_row_of r d \<in> set (st_decisions t)"
      "set (item_rows_for (hr_request_id r) (hd_items d)) \<subseteq> set (st_items t)" "hd_revision d = n + 1"
    and x: "subject_at (hd_aggregate d) k = Some x" "subject_status x \<noteq> Proposed"
  shows "accounted t (hr_aggregate_id r) (n + 1) k x"
proof -
  let ?c = "decision_command_of d"
  have items: "dc_items ?c = hd_items d" by (simp add: decision_command_of_def)
  have eq: "hd_aggregate d = decided_aggregate r ?c" by (rule apply_human_review_decision_steps(1) [OF base(2) run])
  from x(1) obtain y where y: "subject_at (hr_base r) k = Some y" "x = reviewed_subject (hr_subjects r) (dc_items ?c) y"
    unfolding eq subject_at_decided by auto
  show ?thesis
  proof (cases "subject_status y = Proposed")
    case False
    then have "x = y" using reviewed_fixed [OF base(2) run y(1)] y(2) by simp
    then have "accounted s (hr_aggregate_id r) n k x"
      using accountableD [OF acc base(1) y(1)] False base(3) by simp
    then show ?thesis by (rule accounted_mono [OF _ logs]) simp
  next
    case True
    note st = status_reviewed [OF refl refl, of "hr_subjects r" "dc_items ?c" y]
    obtain j where j: "outcome_for (hr_subjects r) (dc_items ?c) (subject_own_kind y, subject_own_id y) = Some j"
      using st True x(2) y(2) by (cases "outcome_for (hr_subjects r) (dc_items ?c) (subject_own_kind y, subject_own_id y)") auto
    with st y(2) have status: "subject_status x = outcome_status j" by simp
    from outcome_for_item [OF j] have jm: "j \<in> set (hd_items d)"
      and key: "it_kind j = subject_own_kind y" "it_id j = subject_own_id y"
      by (auto simp: items item_ref_def)
    from item_row_mem [OF jm] new(2) obtain m where m: "m \<in> set (st_items t)" "im_request_id m = hr_request_id r"
      "im_kind m = review_kind_value (it_kind j)" "im_id m = it_id j"
      "im_disposition m = review_disposition_value (it_disposition j)"
      by blast
    have "k = (im_kind m, im_id m)" using subject_at_member(2) [OF y(1)] m(3,4) key by simp
    moreover have "subject_status x = Rejected \<longleftrightarrow> im_disposition m = ''rejected''"
      by (simp add: status m(5) rejected_text outcome_status_def)
    ultimately show ?thesis
      unfolding accounted_def using m(1,2) new(1,3) x(1)
      by (intro bexI [of _ "decision_row_of r d"] conjI bexI [of _ m]) (simp_all add: decision_row_of_def)
  qed
qed

lemma accountable_same:
  assumes acc: "accountable E s" and st: "store_step E s t" and "committed E t = committed E s"
  shows "accountable E t"
  using accountableD [OF acc] accounted_mono [OF _ step_logs [OF st] order_refl] unfolding accountable_def assms(3)
  by blast

lemma accountable_write:
  assumes acc: "accountable E s" and st: "store_step E s t"
    and ct: "committed E t = (committed E s)(j \<mapsto> (m, b))"
    and new: "\<And>k x. subject_at b k = Some x \<Longrightarrow> subject_status x \<noteq> Proposed \<Longrightarrow> accounted t j m k x"
  shows "accountable E t"
  unfolding accountable_def
proof (intro allI impI)
  fix i n a k x assume x: "committed E t i = Some (n, a)" "subject_at a k = Some x" "subject_status x \<noteq> Proposed"
  show "accounted t i n k x"
  proof (cases "i = j")
    case True
    with x ct have "a = b" "n = m" by auto
    with True x new show ?thesis by simp
  next
    case False
    with x ct have "committed E s i = Some (n, a)" by simp
    then have "accounted s i n k x" by (rule accountableD [OF acc _ x(2,3)])
    then show ?thesis by (rule accounted_mono [OF _ step_logs [OF st] order_refl])
  qed
qed

lemma step_accountable:
  assumes c: "consistent E s" and acc: "accountable E s" and st: "store_step E s t"
  shows "accountable E t"
  using step_committed [OF c st]
proof (elim disjE exE conjE)
  assume "committed E t = committed E s"
  then show ?thesis by (rule accountable_same [OF acc st])
next
  fix b assume b: "assert_generic_proposed_only b = Inr ()" "committed E t = (committed E s)(ag_id b \<mapsto> (1, b))"
  show ?thesis
  proof (rule accountable_write [OF acc st b(2)])
    fix k x assume x: "subject_at b k = Some x" "subject_status x \<noteq> Proposed"
    with b(1) subject_at_member(1) [OF x(1)] have False
      by (force simp: assert_generic_proposed_only_def list_all_iff)
    then show "accounted t (ag_id b) 1 k x" ..
  qed
next
  fix b m old assume b: "committed E s (ag_id b) = Some (m, old)" "assert_non_review_transition s old b m = Inr ()"
    "committed E t = (committed E s)(ag_id b \<mapsto> (m + 1, b))"
  show ?thesis
  proof (rule accountable_write [OF acc st b(3)])
    fix k x assume x: "subject_at b k = Some x" "subject_status x \<noteq> Proposed"
    then obtain y where y: "subject_at old k = Some y" using transition_new [OF b(2) x(1)] by (cases "subject_at old k") auto
    have np: "subject_status y \<noteq> Proposed" using transition_keeps(2) [OF b(2) y _ x(1)] x(2) by blast
    with transition_keeps(1) [OF b(2) y] x(1) have "x = y" by simp
    then have "accounted s (ag_id b) m k x" using accountableD [OF acc b(1) y np] by simp
    then show "accounted t (ag_id b) (m + 1) k x" by (rule accounted_mono [OF _ step_logs [OF st]]) simp
  qed
next
  fix r d n assume d: "committed E s (ag_id (hr_base r)) = Some (n, hr_base r)" "aggregate_wf E (hr_base r)"
    "ag_id (hr_base r) = hr_aggregate_id r"
    "apply_human_review_decision E r (decision_command_of d) = Inr (hd_aggregate d)"
    "committed E t = (committed E s)(ag_id (hr_base r) \<mapsto> (n + 1, hd_aggregate d))"
    "st_decisions t = st_decisions s @ [decision_row_of r d]"
    "st_items t = st_items s @ item_rows_for (hr_request_id r) (hd_items d)" "hd_revision d = n + 1"
  show ?thesis
  proof (rule accountable_write [OF acc st d(5)])
    fix k x assume x: "subject_at (hd_aggregate d) k = Some x" "subject_status x \<noteq> Proposed"
    show "accounted t (ag_id (hr_base r)) (n + 1) k x"
      unfolding d(3)
      by (rule decided_accounted [OF acc step_logs [OF st] d(1-4) _ _ d(8) x]) (simp_all add: d(6,7))
  qed
qed

interpretation accounting: history "event_ok E" "apply_event E" "\<lambda>s. consistent E s \<and> accountable E s" for E
proof
  fix s e assume s: "consistent E s \<and> accountable E s" and ok: "event_ok E e s"
  then have "store_step E s (apply_event E e s)" by (auto intro: consistent_event_step)
  with s ok show "consistent E (apply_event E e s) \<and> accountable E (apply_event E e s)"
    by (auto intro: step_accountable store_history.inv_app)
qed

lemma accountable_empty: "accountable E empty_store"
  by (simp add: accountable_def committed_def empty_store_def find_head_def lookup_key_def)

text \<open>
  C3. No subject is reviewed without a human: in every reachable store each accepted or rejected
  relation or constraint of a committed aggregate has a recorded decision on that aggregate, at a
  revision not later than the current one, whose decided aggregate holds the subject exactly as it
  is committed and whose item for that subject is a rejection exactly when the subject is rejected.
\<close>

theorem reviewed_accountable:
  assumes "env_ok E" and "store_reaches E empty_store s"
    and "committed E s i = Some (n, a)" and "subject_at a k = Some x" and "subject_status x \<noteq> Proposed"
  shows "\<exists>d \<in> set (st_decisions s). qd_aggregate_id d = i \<and> qd_revision d \<le> n \<and>
     subject_at (qd_aggregate d) k = Some x \<and>
     (\<exists>m \<in> set (st_items s). im_request_id m = qd_request_id d \<and> (im_kind m, im_id m) = k \<and>
        (subject_status x = Rejected \<longleftrightarrow> im_disposition m = ''rejected''))"
proof -
  have "accountable E s"
    using accounting.inv_reaches [OF assms(2) [unfolded store_reaches_def]] consistent_empty [OF assms(1)]
      accountable_empty by blast
  from accountableD [OF this assms(3-5)] show ?thesis unfolding accounted_def .
qed

end
