(* ===== verification/StoreLifecycle.thy ===== *)
theory StoreLifecycle
  imports StoreReview
begin

text \<open>
  The life of a review request: what closes it, that it stays closed, and that an open request can
  always be decided.
\<close>

section \<open>Requests and decisions persist\<close>

lemma request_known:
  assumes "consistent E s" and "read_review_request E s i = Inr (Some r)"
  shows "hr_request_id r = i" "request_ok E s r" "lookup_key qr_request_id i (st_requests s) \<noteq> None"
    "storable E (hr_base r)" "ag_id (hr_base r) = hr_aggregate_id r"
proof -
  from assms(1) obtain rs ds where au: "audit E s rs ds" by (auto simp: consistent_def store_inv_def)
  from read_request_Some [OF au assms(2)] have r: "r \<in> set rs" "hr_request_id r = i" by auto
  then show "hr_request_id r = i" by simp
  from au r(1) show ok: "request_ok E s r" by (simp add: audit_def)
  then show "storable E (hr_base r)" "ag_id (hr_base r) = hr_aggregate_id r"
    using review_request_new_fields(5) by (auto simp: request_ok_def)
  show "lookup_key qr_request_id i (st_requests s) \<noteq> None"
    using assms(2) by (auto simp: read_review_request_def split: option.splits)
qed

lemma request_anchor:
  assumes "consistent E s" and "read_review_request E s i = Inr (Some r)"
  shows "\<exists>h. find_head s (hr_aggregate_id r) = Some h \<and> hr_base_revision r \<le> hw_revision h \<and>
    (hw_revision h = hr_base_revision r \<longrightarrow> live E s h (hr_base r) \<and> hw_sha256 h = hr_base_sha256 r)"
proof -
  note k = request_known [OF assms]
  from k(2) have "anchored E s (hr_base_revision r) (hr_base r)" and new: "review_request_new E r = Inr r"
    by (auto simp: request_ok_def)
  then show ?thesis
    using review_request_new_fields(6) [OF new k(4)] live_fields(2) unfolding anchored_def k(5) by fastforce
qed

lemma stale_revision:
  assumes "consistent E s" and "read_review_request E s i = Inr (Some r)"
  shows "lifecycle_of s r = Stale \<longleftrightarrow> lookup_key qd_request_id i (st_decisions s) = None \<and>
    (\<exists>h. find_head s (hr_aggregate_id r) = Some h \<and> hr_base_revision r < hw_revision h)"
proof -
  obtain h where h: "find_head s (hr_aggregate_id r) = Some h" "hr_base_revision r \<le> hw_revision h"
    "hw_revision h = hr_base_revision r \<Longrightarrow> hw_sha256 h = hr_base_sha256 r"
    using request_anchor [OF assms] by blast
  then show ?thesis using request_known(1) [OF assms] by (auto simp: lifecycle_of_def)
qed

lemma lookup_key_stable:
  "lookup_key key k xs = Some x \<Longrightarrow> lookup_key key k (xs @ ys) = Some x"
  by (simp add: lookup_key_append)

lemma step_request_read:
  assumes st: "store_step E s t" and known: "lookup_key qr_request_id i (st_requests s) \<noteq> None"
  shows "read_review_request E t i = read_review_request E s i"
proof -
  have "lookup_key qr_request_id i (st_requests t) = lookup_key qr_request_id i (st_requests s) \<and>
      subject_rows_of t i = subject_rows_of s i"
    using st
  proof cases
    case (requested r h)
    have "hr_request_id r \<noteq> i" using requested(8) known by auto
    then have "filter (\<lambda>x. sj_request_id x = i) (subject_rows_for r) = []"
      by (auto simp: subject_rows_for_def filter_empty_conv)
    then show ?thesis using requested(1) known
      by (auto simp: subject_rows_of_def lookup_key_append split: option.split)
  qed (simp_all add: subject_rows_of_def)
  then have a: "lookup_key qr_request_id i (st_requests t) = lookup_key qr_request_id i (st_requests s)"
    and b: "subject_rows_of t i = subject_rows_of s i" by blast+
  show ?thesis unfolding read_review_request_def a b ..
qed

lemma step_decision_read:
  assumes st: "store_step E s t" and known: "lookup_key qd_request_id i (st_decisions s) \<noteq> None"
  shows "read_review_decision E t i = read_review_decision E s i"
    "lookup_key qd_request_id i (st_decisions t) \<noteq> None"
proof -
  have same: "lookup_key qd_request_id i (st_decisions t) = lookup_key qd_request_id i (st_decisions s) \<and>
      item_rows_of t i = item_rows_of s i"
    using st
  proof cases
    case (decided r h d)
    have "hr_request_id r \<noteq> i" using decided(3) known by auto
    then have "filter (\<lambda>x. im_request_id x = i) (item_rows_for (hr_request_id r) (hd_items d)) = []"
      by (auto simp: item_rows_for_def filter_empty_conv)
    then show ?thesis using decided(1) known
      by (auto simp: item_rows_of_def lookup_key_append split: option.split)
  qed (simp_all add: item_rows_of_def)
  then have a: "lookup_key qd_request_id i (st_decisions t) = lookup_key qd_request_id i (st_decisions s)"
    and b: "item_rows_of t i = item_rows_of s i" by blast+
  show "read_review_decision E t i = read_review_decision E s i" unfolding read_review_decision_def a b ..
  show "lookup_key qd_request_id i (st_decisions t) \<noteq> None" using same known by simp
qed

lemma step_stale:
  assumes c: "consistent E s" and st: "store_step E s t" and ct: "consistent E t"
    and r: "read_review_request E s i = Inr (Some r)" and stale: "lifecycle_of s r = Stale"
  shows "lifecycle_of t r = Stale"
proof -
  note k = request_known [OF c r]
  have rt: "read_review_request E t i = Inr (Some r)" using step_request_read [OF st k(3)] r by simp
  from stale obtain h where h: "find_head s (hr_aggregate_id r) = Some h" "hr_base_revision r < hw_revision h"
    and none: "lookup_key qd_request_id i (st_decisions s) = None"
    unfolding stale_revision [OF c r] by blast
  obtain h' where h': "find_head t (hr_aggregate_id r) = Some h'"
    "h' = h \<and> st_rows t (hr_aggregate_id r) = st_rows s (hr_aggregate_id r) \<or> hw_revision h < hw_revision h'"
    using advances_head [OF step_advances [OF st] h(1)] .
  then have "hr_base_revision r < hw_revision h'" using h(2) by auto
  moreover have "lookup_key qd_request_id i (st_decisions t) = None"
    using st
  proof cases
    case (decided q g d)
    have "hr_request_id q \<noteq> i"
    proof
      assume "hr_request_id q = i"
      then have q: "q = r" using decided(2) r by simp
      with decided(4,6) h k(5) show False by simp
    qed
    then show ?thesis using decided(1) none by (simp add: lookup_key_append lookup_key_single)
  qed (use none in simp_all)
  ultimately show ?thesis unfolding stale_revision [OF ct rt] using h'(1) by blast
qed

definition closes :: "py_env \<Rightarrow> store \<Rightarrow> store \<Rightarrow> bool" where
  "closes E s t \<longleftrightarrow> (\<forall>i r. read_review_request E s i = Inr (Some r) \<longrightarrow>
     read_review_request E t i = Inr (Some r) \<and>
     (lifecycle_of s r = Stale \<longrightarrow> lifecycle_of t r = Stale) \<and>
     (lifecycle_of s r = Decided \<longrightarrow> lifecycle_of t r = Decided \<and>
        read_review_decision E t i = read_review_decision E s i))"

lemma step_closes:
  assumes c: "consistent E s" and st: "store_step E s t" and ct: "consistent E t"
  shows "closes E s t"
  unfolding closes_def
proof (intro allI impI)
  fix i r assume r: "read_review_request E s i = Inr (Some r)"
  note k = request_known [OF c r]
  have "read_review_request E t i = Inr (Some r)" using step_request_read [OF st k(3)] r by simp
  moreover have "lifecycle_of s r = Decided \<longrightarrow> lifecycle_of t r = Decided \<and>
      read_review_decision E t i = read_review_decision E s i"
    unfolding lifecycle_decided k(1) using step_decision_read [OF st] by blast
  ultimately show "read_review_request E t i = Inr (Some r) \<and>
     (lifecycle_of s r = Stale \<longrightarrow> lifecycle_of t r = Stale) \<and>
     (lifecycle_of s r = Decided \<longrightarrow> lifecycle_of t r = Decided \<and>
        read_review_decision E t i = read_review_decision E s i)"
    using step_stale [OF c st ct r] by blast
qed

interpretation closed: monotone_history "event_ok E" "apply_event E" "consistent E" "closes E" for E
proof
  fix s t u e
  show "closes E s s" by (simp add: closes_def)
  show "closes E s u" if "closes E s t" "closes E t u" using that unfolding closes_def by metis
  assume c: "consistent E s" and ok: "event_ok E e s"
  show "closes E s (apply_event E e s)"
    by (rule step_closes [OF c consistent_event_step [OF c ok] store_history.inv_app [OF c ok]])
qed

text \<open>
  C7. A review closes once: a request that can be read stays readable with the same content in every
  later store; if it was stale it is stale for ever and never gets a decision, and if it was decided
  it stays decided with the same decision.
\<close>

theorem review_closed_for_good:
  assumes "env_ok E" and "store_reaches E empty_store s" and "store_reaches E s t"
    and "read_review_request E s i = Inr (Some r)"
  shows "read_review_request E t i = Inr (Some r) \<and>
    (lifecycle_of s r = Stale \<longrightarrow> lifecycle_of t r = Stale \<and> read_review_decision E t i = Inr None) \<and>
    (lifecycle_of s r = Decided \<longrightarrow> lifecycle_of t r = Decided \<and>
       read_review_decision E t i = read_review_decision E s i)"
proof -
  note c = consistent_reached [OF assms(1,2)]
  have cl: "closes E s t" using closed.rel_reaches [OF assms(3) [unfolded store_reaches_def] c] .
  have ct: "consistent E t" using store_history.inv_reaches [OF assms(3) [unfolded store_reaches_def] c] .
  from cl assms(4) have rt: "read_review_request E t i = Inr (Some r)" unfolding closes_def by blast
  have "read_review_decision E t i = Inr None" if "lifecycle_of t r = Stale"
    using that unfolding stale_revision [OF ct rt] by (simp add: read_review_decision_def)
  with cl assms(4) show ?thesis unfolding closes_def by blast
qed

section \<open>An open request can always be decided\<close>

lemma distinct_groups:
  assumes "distinct (map g xs)" and "\<And>x y. x \<in> set xs \<Longrightarrow> y \<in> set (f x) \<Longrightarrow> key y = (g x, k y)"
    and "\<And>x. x \<in> set xs \<Longrightarrow> distinct (map k (f x))"
  shows "distinct (map key (concat (map f xs)))"
  using assms
proof (induction xs)
  case (Cons x xs)
  have "map key (f x) = map (\<lambda>y. (g x, k y)) (f x)" using Cons.prems(2) by simp
  then have "distinct (map key (f x))"
    using Cons.prems(3) [of x] by (simp add: distinct_map inj_on_def)
  moreover have "distinct (map key (concat (map f xs)))" using Cons.IH Cons.prems by simp
  moreover have "key y \<noteq> key z" if "y \<in> set (f x)" "x' \<in> set xs" "z \<in> set (f x')" for y z x'
  proof -
    have "g x \<noteq> g x'" using Cons.prems(1) that(2) by auto
    with Cons.prems(2) [of x y] Cons.prems(2) [of x' z] that show ?thesis by simp
  qed
  ultimately show ?case by fastforce
qed simp

lemma item_rows_keys:
  "map im_ordinal (item_rows_for q is) = [0..<length is]"
  "map (\<lambda>m. (im_kind m, im_id m)) (item_rows_for q is) = map item_key is"
  "m \<in> set (item_rows_for q is) \<Longrightarrow> im_request_id m = q"
proof -
  have "map im_ordinal (item_rows_for q is) = [0..<0 + length is]"
    unfolding item_rows_for_def by (rule map_index_enumerate) simp
  then show "map im_ordinal (item_rows_for q is) = [0..<length is]" by simp
  have "map (\<lambda>m. (im_kind m, im_id m)) (item_rows_for q is) = map (\<lambda>(n, i). item_key i) (enumerate 0 is)"
    unfolding item_rows_for_def by (simp add: item_key_def case_prod_beta comp_def)
  then show "map (\<lambda>m. (im_kind m, im_id m)) (item_rows_for q is) = map item_key is"
    by (simp only: map_enumerate)
  show "m \<in> set (item_rows_for q is) \<Longrightarrow> im_request_id m = q" by (auto simp: item_rows_for_def)
qed

text \<open>Which texts pass the length constraints of the review tables.\<close>

lemma sql_length_plain: "CHR 0x00 \<notin> set t \<Longrightarrow> sql_length t = length t"
  unfolding sql_length_def by (subst takeWhile_eq_all_conv [THEN iffD2]) auto

lemma sha256_sql: "sha256_pattern t \<Longrightarrow> sql_length t = 64"
proof -
  assume t: "sha256_pattern t"
  have "\<not> hex_char (CHR 0x00)" by (simp add: hex_char_def)
  with t have "CHR 0x00 \<notin> set t" by (auto simp: sha256_pattern_def list_all_iff)
  with t show ?thesis by (simp add: sql_length_plain sha256_pattern_def)
qed

lemma actor_sql:
  assumes "normalize_actor_id E t = Inr u"
  shows "sql_between t 1 128"
proof -
  have "\<not> ascii_alnum (CHR 0x00)" by (simp add: ascii_alnum_def)
  moreover from assms have p: "actor_id_pattern t" by (auto simp: normalize_actor_id_def Let_def)
  ultimately have "CHR 0x00 \<notin> set t"
    by (cases t) (auto simp: actor_id_pattern_def id_pattern_with_def list_all_iff)
  moreover have "1 \<le> length t" "length t \<le> 128" using p by (cases t; simp add: actor_id_pattern_def id_pattern_with_def)+
  ultimately show ?thesis by (simp add: sql_between_def sql_length_plain)
qed

lemma rationale_sql:
  assumes "normalize_review_rationale E t = Inr u" and "take 1 t \<noteq> [CHR 0x00]"
  shows "sql_between t 1 4000"
proof -
  from assms(1) have "t \<noteq> []" "length t \<le> 4000" by (auto simp: normalize_review_rationale_def Let_def)
  moreover have "sql_length t \<le> length t" unfolding sql_length_def by (rule length_takeWhile_le)
  ultimately show ?thesis using assms(2) by (cases t) (auto simp: sql_between_def sql_length_def)
qed

lemma insert_decision_ok:
  assumes au: "audit E s rs ds" and q: "hr_request_id r \<notin> (\<lambda>x. hr_request_id (fst x)) ` set ds"
    and i: "hd_operation_id d \<notin> (\<lambda>x. hd_operation_id (snd x)) ` set ds" and k: "distinct (map item_key (hd_items d))"
    and row: "decision_row_check s (decision_row_of r d)"
    and items: "list_all (item_row_check s (st_decisions s @ [decision_row_of r d]))
      (item_rows_for (hr_request_id r) (hd_items d))"
  shows "insert_decision r d s = Inr (add_decision r d s)"
proof -
  let ?ds = "ds @ [(r, d)]" and ?f = "\<lambda>x. item_rows_for (hr_request_id (fst x)) (hd_items (snd x))"
  have rows: "st_decisions s @ [decision_row_of r d] = map (\<lambda>x. decision_row_of (fst x) (snd x)) ?ds"
    "st_items s @ item_rows_for (hr_request_id r) (hd_items d) = concat (map ?f ?ds)"
    and dist: "distinct (map (\<lambda>x. hr_request_id (fst x)) ?ds)" "distinct (map (\<lambda>x. hd_operation_id (snd x)) ?ds)"
    using au q i by (simp_all add: audit_def)
  have keys: "distinct (map item_key (hd_items (snd x)))" if "x \<in> set ?ds" for x
    using that au k review_decision_new_fields(6) by (fastforce simp: audit_def decision_ok_def)
  let ?items = "st_items s @ item_rows_for (hr_request_id r) (hd_items d)"
  have "distinct (map (\<lambda>m. (im_request_id m, im_ordinal m)) ?items)"
    unfolding rows by (rule distinct_groups [OF dist(1)]) (auto simp: item_rows_keys)
  moreover have "distinct (map (\<lambda>m. (im_request_id m, im_kind m, im_id m)) ?items)"
    unfolding rows by (rule distinct_groups [OF dist(1), where k = "\<lambda>m. (im_kind m, im_id m)"])
      (use keys in \<open>auto simp: item_rows_keys\<close>)
  moreover have "distinct (map qd_request_id (st_decisions s @ [decision_row_of r d]))"
    "distinct (map qd_operation_id (st_decisions s @ [decision_row_of r d]))"
    unfolding rows using dist by (simp_all add: comp_def)
  ultimately show ?thesis
    using row items by (simp add: insert_decision_def checks_def guards.simps add_decision_def Let_def)
qed

lemma decision_row_fits:
  assumes "request_row_of r \<in> set (st_requests s)" and "find_operation s (hd_operation_id d) \<noteq> None"
    and "1 \<le> hr_base_revision r" and "hd_revision d = hr_base_revision r + 1"
    and "sql_between (hd_reviewer d) 1 128" and "sql_between (hd_rationale d) 1 4000"
    and "sha256_pattern (hd_payload_sha256 d)" and "sha256_pattern (hd_sha256 d)"
  shows "decision_row_check s (decision_row_of r d)"
  using assms
  by (auto simp: decision_row_check_def decision_row_of_def request_row_of_def sha256_sql intro!: bexI [of _ "request_row_of r"])

text \<open>The edits of a command whose rationales do not begin with a NUL.\<close>

definition edits_plain :: "decision_item list \<Rightarrow> bool" where
  "edits_plain items \<longleftrightarrow> (\<forall>i \<in> set items. \<forall>e t. it_edit i = Some e \<longrightarrow> ed_rationale e = Some t \<longrightarrow> take 1 t \<noteq> [CHR 0x00])"

lemma item_rows_fit:
  assumes items: "list_all (\<lambda>i. decision_item_revalidate E i = Inr i) items" and plain: "edits_plain items"
    and refs: "item_ref ` set items \<subseteq> snapshot_ref ` set (hr_subjects r)"
    and subs: "set (subject_rows_for r) \<subseteq> set (st_subjects s)" and dec: "hr_request_id r \<in> qd_request_id ` set decisions"
  shows "list_all (item_row_check s decisions) (item_rows_for (hr_request_id r) items)"
  unfolding list_all_iff
proof
  fix m assume "m \<in> set (item_rows_for (hr_request_id r) items)"
  then obtain n i where i: "i \<in> set items" and m: "m = \<lparr>im_request_id = hr_request_id r, im_ordinal = n,
      im_kind = review_kind_value (it_kind i), im_id = it_id i, im_original_sha256 = it_original_sha256 i,
      im_disposition = review_disposition_value (it_disposition i),
      im_rationale = (case it_edit i of None \<Rightarrow> None | Some e \<Rightarrow> ed_rationale e),
      im_confidence = (case it_edit i of None \<Rightarrow> None | Some e \<Rightarrow> ed_confidence e)\<rparr>"
    unfolding item_rows_for_def using nth_mem by (fastforce simp: in_set_enumerate_eq)
  from items i have iv: "decision_item_revalidate E i = Inr i" by (simp add: list_all_iff)
  from refs i obtain y where y: "y \<in> set (hr_subjects r)" "item_ref i = snapshot_ref y" by blast
  have "(hr_request_id r, snapshot_key y) \<in> set (map (\<lambda>y. (hr_request_id r, snapshot_key y)) (hr_subjects r))"
    using y(1) by simp
  then obtain x where x: "x \<in> set (st_subjects s)" "sj_request_id x = hr_request_id r" "snapshot_key y = (sj_kind x, sj_id x)"
    unfolding subject_row_refs [symmetric] using subs by auto
  then have fk: "\<exists>x \<in> set (st_subjects s). sj_request_id x = im_request_id m \<and> sj_kind x = im_kind m \<and> sj_id x = im_id m"
    using y(2) by (intro bexI [of _ x]) (simp_all add: m item_ref_def snapshot_ref_def snapshot_key_def)
  have sha: "sql_length (it_original_sha256 i) = 64"
    using iv by (auto simp: decision_item_revalidate_def decision_item_new_def rbind_Inr_iff intro!: sha256_sql)

  show "item_row_check s decisions m"
  proof (cases "it_edit i")
    case None
    then have "it_disposition i \<noteq> OutcomeEdited"
      using iv by (auto simp: decision_item_revalidate_def decision_item_new_def rbind_Inr_iff)
    with None fk sha dec show ?thesis
      by (cases "it_disposition i"; cases "it_kind i")
        (simp_all add: item_row_check_def item_edit_check_def m review_kind_value_def review_disposition_value_def opt_all_def)
  next
    case (Some e)
    with iv have e: "subject_edit_new E e = Inr e" "it_disposition i = OutcomeEdited" "ed_kind e = it_kind i"
      by (auto simp: decision_item_revalidate_def decision_item_new_def rbind_Inr_iff subject_edit_new_def
          split: review_disposition.splits option.splits)
    have "opt_all (\<lambda>t. sql_between t 1 4000) (ed_rationale e)"
    proof (cases "ed_rationale e")
      case t: (Some t)
      with e(1) have "\<exists>u. normalize_review_rationale E t = Inr u" by (auto simp: subject_edit_new_def rbind_Inr_iff)
      moreover have "take 1 t \<noteq> [CHR 0x00]" using plain i Some t by (auto simp: edits_plain_def)
      ultimately show ?thesis using rationale_sql t by (auto simp: opt_all_def)
    qed (simp add: opt_all_def)
    moreover have "opt_all unit_interval (ed_confidence e)"
      "it_kind i = ReplacementKind \<longrightarrow> ed_rationale e \<noteq> None \<or> ed_confidence e \<noteq> None"
      "it_kind i = ConstraintKind \<longrightarrow> ed_rationale e \<noteq> None \<and> ed_confidence e = None"
      using e(1,3) by (auto simp: subject_edit_new_def rbind_Inr_iff)
    ultimately show ?thesis
      using Some e(2) fk sha dec
      by (cases "it_kind i") (simp_all add: item_row_check_def item_edit_check_def m review_kind_value_def review_disposition_value_def)
  qed
qed

lemma receipt_fresh: "unused s i \<Longrightarrow> op_id p = i \<Longrightarrow> insert_receipt p s = Inr (log_receipt p s)"
  by (simp add: insert_receipt_Inr unused_operation)

lemma decide_open:
  assumes c: "consistent E s" and read: "read_review_request E s (dc_request_id c) = Inr (Some r)"
    and life: "lifecycle_of s r = Open" and cmd: "decision_command_revalidate E c = Inr c"
    and run: "apply_human_review_decision E r c = Inr a" and u: "unused s i" and now: "canonical_utc now"
    and plain: "take 1 (dc_rationale c) \<noteq> [CHR 0x00]" "edits_plain (dc_items c)"
  shows "\<exists>h. find_head s (hr_aggregate_id r) = Some h \<and> decide_review E now c i s =
    (Inr \<lparr>dr_decision = new_decision now c i (human_review_decision_payload_sha256 E c) (hr_base_revision r + 1)
        (digest_of E a) a, dr_revision = hr_base_revision r + 1, dr_sha256 = digest_of E a, dr_replayed = False\<rparr>,
     decision_added E r (new_decision now c i (human_review_decision_payload_sha256 E c) (hr_base_revision r + 1)
        (digest_of E a) a) h s)"
proof -
  let ?sha = "human_review_decision_payload_sha256 E c"
  define d where "d = new_decision now c i ?sha (hr_base_revision r + 1) (digest_of E a) a"
  from c have fl: "float_ok E" and hk: "hash_ok E" and inv: "store_inv E s"
    by (auto simp: consistent_def env_ok_def)
  from inv obtain rs ds where au: "audit E s rs ds" and rok: "receipts_ok E s" by (auto simp: store_inv_def)
  note k = request_known [OF c read]
  from k(2) have new: "review_request_new E r = Inr r" by (simp add: request_ok_def)
  note rf = review_request_new_fields [OF new k(4)]
  from life obtain h where h: "find_head s (hr_aggregate_id r) = Some h" "hw_revision h = hr_base_revision r"
    "hw_sha256 h = hr_base_sha256 r" and none: "lookup_key qd_request_id (hr_request_id r) (st_decisions s) = None"
    by (auto simp: lifecycle_of_def split: if_splits option.splits)
  have lv: "live E s h (hr_base r)" using request_anchor [OF c read] h by auto
  have hb: "find_head s (ag_id (hr_base r)) = Some h" using h(1) k(5) by simp
  have q: "hr_request_id r \<notin> (\<lambda>x. hr_request_id (fst x)) ` set ds"
    using none unfolding decision_lookup [OF au] .
  have op: "i \<notin> (\<lambda>x. hd_operation_id (snd x)) ` set ds"
    using unused_operation [OF u] au by (auto simp: audit_def decision_ok_def)
  note st = decided_storable [OF k(4) run]
  have ha: "find_head s (ag_id a) = Some h" using hb st(2) by simp
  note cv = decision_command_revalidate_validated [OF cmd]
  have f: "decision_command_of d = c" "hd_operation_id d = i" "hd_decided_at d = now" "hd_aggregate d = a"
    "hd_revision d = hr_base_revision r + 1" "hd_request_id d = hr_request_id r" "hd_items d = dc_items c"
    "hd_sha256 d = digest_of E a" "hd_payload_sha256 d = ?sha" "hd_reviewer d = dc_reviewer c" "hd_rationale d = dc_rationale c"
    by (simp_all add: d_def new_decision_def decision_command_of_def k(1))
  have sha: "sha256_pattern ?sha" "sha256_pattern (digest_of E a)"
    using hk by (simp_all add: hash_ok_def human_review_decision_payload_sha256_def digest_of_def sha256_json_def)
  have asha: "aggregate_sha256 E a = Inr (digest_of E a)" using storable_sha [OF st(1)] by (simp add: digest_of_def)
  have i: "operation_id_pattern i" using u by (simp add: unused_def)
  have newd: "review_decision_new E d = Inr d"
    using cv(2) rf(1,3) i now sha asha
    by (auto simp: review_decision_new_def f k(1) decision_command_new_def require_canonical_utc_def rbind_Inr_iff)
  have schema: "schema_ok (aggregate_rows a)" "rows_bindable (aggregate_rows a)"
    using st(1) by (auto simp: storable_def intro: schema_ok_written)
  let ?t1 = "set_live (head_of E a (hr_base_revision r + 1) now) a s"
  let ?p = "receipt_for E now i a (Some (hr_base_revision r)) (hr_base_revision r + 1) True"
  have t1: "replace_aggregate now a (hr_base_revision r) (digest_of E a) s = Inr ?t1"
    unfolding replace_aggregate_Inr [OF ha] using h(2) schema by simp
  have p: "new_receipt E now i (hr_aggregate_id r) (Some (hr_base_revision r)) (digest_of E a)
      (hr_base_revision r + 1) True = ?p"
    using st(2) k(5) by (simp add: receipt_for_def)
  have t2: "insert_receipt (new_receipt E now i (hr_aggregate_id r) (Some (hr_base_revision r)) (digest_of E a)
      (hr_base_revision r + 1) True) ?t1 = Inr (log_receipt ?p ?t1)"
    unfolding p by (rule receipt_fresh [of _ i]) (use u in simp_all)
  let ?t2 = "log_receipt ?p ?t1"
  have t2w: "?t2 = write_at E now i a (Some (hr_base_revision r)) (hr_base_revision r + 1) s"
    by (simp add: write_at_def)
  have lt: "\<And>g. find_head s (ag_id a) = Some g \<Longrightarrow> hw_revision g < hr_base_revision r + 1" using ha h(2) by simp
  have au2: "audit E ?t2 rs ds"
    unfolding t2w by (rule audit_advances [OF advances_write au]) (use lt in simp_all)
  from read_request_Some [OF au read] have r: "r \<in> set rs" by simp
  have cf: "sql_between (dc_reviewer c) 1 128" "sql_between (dc_rationale c) 1 4000"
    using cv(2) actor_sql rationale_sql [OF _ plain(1)] by (auto simp: decision_command_new_def rbind_Inr_iff)
  have op2: "find_operation ?t2 i \<noteq> None"
    using u by (simp add: t2w find_operation_write)
  have row: "decision_row_check ?t2 (decision_row_of r d)"
    by (rule decision_row_fits) (use au2 r op2 rf(3) cf sha in \<open>simp_all add: f audit_def\<close>)
  have its: "list_all (item_row_check ?t2 (st_decisions ?t2 @ [decision_row_of r d])) (item_rows_for (hr_request_id r) (hd_items d))"
    unfolding f by (rule item_rows_fit [OF cv(1) plain(2)])
      (use apply_human_review_decision_steps(3) [OF _ run] k(4) au2 r in
        \<open>auto simp: audit_def storable_def decision_row_of_def\<close>)
  have t3: "insert_decision r d ?t2 = Inr (add_decision r d ?t2)"
    by (rule insert_decision_ok [OF au2 q _ _ row its])
      (use op review_decision_new_fields(6) [OF newd] st(1) in \<open>simp_all add: f\<close>)
  have fresh: "decision_fresh E now c ?sha i s =
      Inr (\<lparr>dr_decision = d, dr_revision = hr_base_revision r + 1, dr_sha256 = digest_of E a, dr_replayed = False\<rparr>,
        add_decision r d ?t2)"
  proof -
    have rd: "read_review_decision E s (dc_request_id c) = Inr None"
      using none by (simp add: read_review_decision_def k(1))
    have snap: "snapshot_in_transaction E s (hr_aggregate_id r) = Inr (Some (snapshot_of E (hr_base r) (hr_base_revision r)))"
      using snapshot_live [OF fl hb lv] by (simp add: k(5) h(2))
    have ap: "apply_review_decision E r c = Inr a" by (simp add: apply_review_decision_def run)
    have rv: "aggregate_revalidate E a = Inr a" using st(1) by (simp add: storable_def aggregate_wf_def)
    have rc: "decision_receipt_new \<lparr>dr_decision = d, dr_revision = hr_base_revision r + 1, dr_sha256 = digest_of E a,
        dr_replayed = False\<rparr> = Inr \<lparr>dr_decision = d, dr_revision = hr_base_revision r + 1, dr_sha256 = digest_of E a,
        dr_replayed = False\<rparr>"
      using sha(2) rf(3) by (simp add: decision_receipt_new_def f)
    have base: "checks [(case Some (snapshot_of E (hr_base r) (hr_base_revision r)) of None \<Rightarrow> False | Some x \<Rightarrow>
         ss_revision x = hr_base_revision r \<and> ss_sha256 x = hr_base_sha256 r, e)] = Inr ()" for e
      using rf(6) by (simp add: checks_def guards.simps)
    have ck: "checks [(None = None, e)] = Inr ()" for e by (simp add: checks_def guards.simps)
    show ?thesis
      unfolding decision_fresh_def read rd snap rbind_simps of_option_simps ck base ap rv lift_simps asha t1 Let_def
        d_def [symmetric] t2 t3 newd rc ..
  qed
  have "decision_body E now c ?sha i s = Inr (\<lparr>dr_decision = d, dr_revision = hr_base_revision r + 1,
      dr_sha256 = digest_of E a, dr_replayed = False\<rparr>, add_decision r d ?t2)"
    unfolding decision_body_def preamble_ok(1) [OF fl inv] rbind_simps owner_guard_Inr [OF rok i]
    using u unused_operation [OF u] fresh by simp
  moreover have "decision_added E r d h s = add_decision r d ?t2"
    unfolding decision_added_def f t2w h(2) ..
  ultimately have "decide_review E now c i s = (Inr \<lparr>dr_decision = d, dr_revision = hr_base_revision r + 1,
      dr_sha256 = digest_of E a, dr_replayed = False\<rparr>, decision_added E r d h s)"
    using cmd i by (simp add: decide_review_def require_operation_id_def checks_def guards.simps transact_def)
  with h(1) show ?thesis unfolding d_def by blast
qed

lemma snapshot_readable_fields:
  assumes "snapshot_readable E x"
  shows "sha256_pattern (sn_sha256 x)"
    "subject_ref_new \<lparr>sr_kind = sn_kind x, sr_id = sn_id x\<rparr> = Inr \<lparr>sr_kind = sn_kind x, sr_id = sn_id x\<rparr>"
  using assms by (auto simp: snapshot_readable_def snapshot_from_payload_def subject_snapshot_new_def rbind_Inr_iff)

lemma reject_item_revalidate:
  assumes "snapshot_readable E x"
  shows "decision_item_revalidate E (reject_item x) = Inr (reject_item x)"
  using snapshot_readable_fields [OF assms]
  by (simp add: decision_item_revalidate_def decision_item_new_def reject_item_def guards.simps)

lemma reject_item_key [simp]: "item_key (reject_item x) = snapshot_key x"
  by (simp add: item_key_def reject_item_def snapshot_key_def)

lemma reject_all_revalidate:
  assumes r: "request_ok E s r" and actor: "normalize_actor_id E reviewer = Inr u"
    and rationale: "normalize_review_rationale E rationale = Inr v"
  shows "decision_command_revalidate E (reject_all r reviewer rationale) = Inr (reject_all r reviewer rationale)"
proof -
  from r have new: "review_request_new E r = Inr r" and st: "storable E (hr_base r)"
    and ok: "list_all (snapshot_readable E) (hr_subjects r)" by (auto simp: request_ok_def)
  note f = review_request_new_fields [OF new st]
  have keys: "map item_key (map reject_item (hr_subjects r)) = map snapshot_key (hr_subjects r)" by simp
  have sorted: "sorted (map snapshot_key (hr_subjects r))"
    using f(8) by (metis sorted_sort_key)
  then have order: "sort_key item_key (map reject_item (hr_subjects r)) = map reject_item (hr_subjects r)"
    using sort_key_id_if_sorted [of item_key "map reject_item (hr_subjects r)"] unfolding keys by blast
  have items: "rmap (decision_item_revalidate E) (map reject_item (hr_subjects r)) = Inr (map reject_item (hr_subjects r))"
  proof -
    have "rmap (decision_item_revalidate E) (map reject_item xs) = Inr (map reject_item xs)"
      if "list_all (snapshot_readable E) xs" for xs
      using that by (induction xs) (simp_all add: reject_item_revalidate)
    from this [OF ok] show ?thesis .
  qed
  have cmd: "decision_command_new E (reject_all r reviewer rationale) = Inr (reject_all r reviewer rationale)"
    using f(1,7,9) actor rationale order
    by (simp add: decision_command_new_def reject_all_def guards.simps comp_def)
  have same: "(reject_all r reviewer rationale)\<lparr>dc_items := map reject_item (hr_subjects r)\<rparr> = reject_all r reviewer rationale"
    "dc_items (reject_all r reviewer rationale) = map reject_item (hr_subjects r)"
    by (simp_all add: reject_all_def)
  show ?thesis unfolding decision_command_revalidate_def same items rbind_simps cmd ..
qed

lemma subject_present:
  assumes "subject_from_aggregate a \<lparr>sr_kind = k, sr_id = j\<rparr> = Some x"
  shows "subject_at a (review_kind_value k, j) \<noteq> None"
proof -
  have "(review_kind_value k, j) \<in> fst ` set (review_subject_map a)"
    using assms by (cases k) (force simp: subject_from_aggregate_def review_subject_map_def dest: lookup_key_Some)+
  then show ?thesis by (auto simp: subject_at_def dict_get_None)
qed

lemma rejected_subjects:
  assumes r: "request_ok E s r" and run: "apply_human_review_decision E r (reject_all r reviewer rationale) = Inr a"
    and x: "x \<in> set (hr_subjects r)"
  shows "\<exists>y. subject_at a (snapshot_key x) = Some y \<and> subject_status y = Rejected"
proof -
  let ?c = "reject_all r reviewer rationale"
  from r have wf: "aggregate_wf E (hr_base r)" and bind: "subjects_bind_base r" by (auto simp: request_ok_def storable_def)
  note steps = apply_human_review_decision_steps [OF wf run]
  from bind x have "subject_from_aggregate (hr_base r) \<lparr>sr_kind = sn_kind x, sr_id = sn_id x\<rparr> = Some (sn_subject x)"
    by (simp add: subjects_bind_base_def list_all_iff)
  then obtain z where z: "subject_at (hr_base r) (snapshot_key x) = Some z"
    using subject_present by (force simp: snapshot_key_def)
  have "snapshot_key x = (review_kind_value (subject_own_kind z), subject_own_id z)" by (rule subject_at_member(2) [OF z])
  then have ref: "(subject_own_kind z, subject_own_id z) = snapshot_ref x" by (simp add: snapshot_key_def snapshot_ref_def)
  have "(subject_own_kind z, subject_own_id z) \<in> snapshot_ref ` set (hr_subjects r)" using x ref by simp
  then obtain j where j: "outcome_for (hr_subjects r) (dc_items ?c) (subject_own_kind z, subject_own_id z) = Some j"
    using outcome_for_requested(1) [OF steps(3)] by blast
  from outcome_for_item [OF j] have "j \<in> reject_item ` set (hr_subjects r)" by (simp add: reject_all_def)
  then have "outcome_status j = Rejected" by auto
  with status_reviewed [OF refl refl, of "hr_subjects r" "dc_items ?c" z] j
  have "subject_status (reviewed_subject (hr_subjects r) (dc_items ?c) z) = Rejected" by simp
  then show ?thesis unfolding steps(1) subject_at_decided z by simp
qed

text \<open>
  C5. An open review can always be closed: in every reachable store, for every open request, a reviewer
  that \<open>normalize_actor_id\<close> accepts, a rationale that \<open>normalize_review_rationale\<close> accepts and that does
  not begin with a NUL character (the CHECK of the table refuses such a text), an unused operation id and
  a canonical clock, \<open>decide_review\<close> accepts the rejection of the whole batch; it commits the next
  revision of the aggregate with every requested subject rejected, and the request is then decided.
\<close>

theorem open_request_decidable:
  assumes "env_ok E" and "store_reaches E empty_store s"
    and "read_review_request E s q = Inr (Some r)" and "lifecycle_of s r = Open" and "unused s i" and "canonical_utc now"
    and "normalize_actor_id E reviewer = Inr reviewer'" and "normalize_review_rationale E rationale = Inr rationale'"
    and "take 1 rationale \<noteq> [CHR 0x00]"
  shows "\<exists>p t. decide_review E now (reject_all r reviewer rationale) i s = (Inr p, t) \<and> lifecycle_of t r = Decided \<and>
    committed E t (hr_aggregate_id r) = Some (hr_base_revision r + 1, hd_aggregate (dr_decision p)) \<and>
    (\<forall>x \<in> set (hr_subjects r). \<exists>y. subject_at (hd_aggregate (dr_decision p)) (snapshot_key x) = Some y \<and>
       subject_status y = Rejected)"
proof -
  let ?c = "reject_all r reviewer rationale"
  note c = consistent_reached [OF assms(1,2)]
  note k = request_known [OF c assms(3)]
  from k(2) have new: "review_request_new E r = Inr r" and wf: "aggregate_wf E (hr_base r)"
    and bind: "subjects_bind_base r" by (auto simp: request_ok_def storable_def)
  note f = review_request_new_fields [OF new k(4)]
  have "distinct (map snapshot_ref (hr_subjects r))"
    using f(7) snapshot_key_ref by (auto simp: distinct_map inj_on_def)
  from reject_all_applied [OF bind wf this] obtain a where run: "apply_human_review_decision E r ?c = Inr a" by blast
  have id: "dc_request_id ?c = q" by (simp add: reject_all_def k(1))
  note st = decided_storable [OF k(4) run]
  have n: "1 \<le> hr_base_revision r + 1" using f(3) by simp
  let ?d = "new_decision now ?c i (human_review_decision_payload_sha256 E ?c) (hr_base_revision r + 1) (digest_of E a) a"
  have d: "hd_aggregate ?d = a" by (simp add: new_decision_def)
  have plain: "take 1 (dc_rationale ?c) \<noteq> [CHR 0x00]" "edits_plain (dc_items ?c)"
    using assms(9) by (auto simp: reject_all_def edits_plain_def reject_item_def)
  from decide_open [OF c _ assms(4) reject_all_revalidate [OF k(2) assms(7,8)] run assms(5,6) plain] assms(3) obtain h
    where h: "decide_review E now ?c i s = (Inr \<lparr>dr_decision = ?d, dr_revision = hr_base_revision r + 1,
      dr_sha256 = digest_of E a, dr_replayed = False\<rparr>, decision_added E r ?d h s)"
      and head: "find_head s (hr_aggregate_id r) = Some h"
    unfolding id by blast
  have rev: "hw_revision h = hr_base_revision r"
    using assms(4) head by (auto simp: lifecycle_of_def split: if_splits)
  have "lifecycle_of (decision_added E r ?d h s) r = Decided"
    by (simp add: lifecycle_decided decision_added_def lookup_key_append lookup_key_single split: option.split)
  moreover have "committed E (decision_added E r ?d h s) (hr_aggregate_id r) = Some (hr_base_revision r + 1, a)"
    using committed_write [OF _ st(1) n] assms(1) st(2) k(5) rev by (simp add: decision_added_def d env_ok_def)
  ultimately show ?thesis using h d rejected_subjects [OF k(2) run] by (metis decision_receipt.select_convs(1))
qed

end
