(* ===== verification/StoreRequests.thy ===== *)
theory StoreRequests
  imports StoreLifecycle
begin

text \<open>
  Which review requests are accepted: a request for proposed subjects of the live aggregate that no
  earlier request took at this revision opens a review.
\<close>

section \<open>Subject rows are unique\<close>

definition subject_slot :: "subject_row \<Rightarrow> string \<times> int \<times> string \<times> string" where
  "subject_slot x = (sj_aggregate_id x, sj_base_revision x, sj_kind x, sj_id x)"

definition slots_unique :: "store \<Rightarrow> bool" where
  "slots_unique s \<longleftrightarrow> distinct (map subject_slot (st_subjects s))"

lemma new_slots:
  "map subject_slot (subject_rows_for r) =
     map (\<lambda>x. (hr_aggregate_id r, hr_base_revision r, snapshot_key x)) (hr_subjects r)"
proof -
  have "map subject_slot (subject_rows_for r) =
      map (\<lambda>(n, x). (hr_aggregate_id r, hr_base_revision r, snapshot_key x)) (enumerate 0 (hr_subjects r))"
    unfolding subject_rows_for_def by (simp add: subject_slot_def snapshot_key_def case_prod_beta comp_def)
  then show ?thesis by (simp only: map_enumerate)
qed

lemma slots_unique_add:
  assumes "slots_unique s" and "distinct (map snapshot_key (hr_subjects r))"
    and "list_all (\<lambda>x. \<not> subject_taken s (hr_aggregate_id r) (hr_base_revision r) x) (hr_subjects r)"
  shows "distinct (map subject_slot (st_subjects s @ subject_rows_for r))"
proof -
  have "distinct (map subject_slot (subject_rows_for r))"
    using assms(2) unfolding new_slots by (simp add: distinct_map inj_on_def)
  moreover have "subject_slot y \<notin> set (map subject_slot (subject_rows_for r))" if "y \<in> set (st_subjects s)" for y
    using that assms(3) unfolding new_slots
    by (auto simp: subject_slot_def subject_taken_def list_all_iff list_ex_iff)
  then have "subject_slot ` set (st_subjects s) \<subseteq> - set (map subject_slot (subject_rows_for r))"
    by (intro image_subsetI) simp
  then have "set (map subject_slot (st_subjects s)) \<inter> set (map subject_slot (subject_rows_for r)) = {}"
    unfolding set_map by blast
  ultimately show ?thesis using assms(1) unfolding slots_unique_def map_append distinct_append by blast
qed

lemma step_slots:
  assumes "store_step E s t" and "slots_unique s"
  shows "slots_unique t"
  using assms(1)
proof cases
  case (requested r h)
  have "distinct (map snapshot_key (hr_subjects r))"
    using review_request_new_fields(7) [OF requested(5) live_fields(4) [OF requested(3)]] .
  from slots_unique_add [OF assms(2) this requested(11)] show ?thesis
    unfolding requested(1) slots_unique_def by simp
qed (use assms(2) in \<open>simp_all add: slots_unique_def\<close>)

interpretation slots: history "event_ok E" "apply_event E" "\<lambda>s. consistent E s \<and> slots_unique s" for E
  by unfold_locales (blast intro: step_slots consistent_event_step store_history.inv_app)

lemma slots_reached:
  assumes "env_ok E" and "store_reaches E empty_store s"
  shows "slots_unique s"
proof -
  have "slots_unique empty_store" by (simp add: slots_unique_def empty_store_def)
  then show ?thesis
    using slots.inv_reaches [OF assms(2) [unfolded store_reaches_def]] consistent_empty [OF assms(1)] by blast
qed

section \<open>Accepted requests\<close>

lemma insert_request_ok:
  assumes au: "audit E s rs ds" and slots: "slots_unique s"
    and q: "lookup_key qr_request_id (hr_request_id r) (st_requests s) = None"
    and i: "hr_operation_id r \<notin> hr_operation_id ` set rs" and k: "distinct (map snapshot_key (hr_subjects r))"
    and taken: "list_all (\<lambda>x. \<not> subject_taken s (hr_aggregate_id r) (hr_base_revision r) x) (hr_subjects r)"
    and row: "request_row_check s (request_row_of r)"
    and digests: "list_all (\<lambda>x. sha256_pattern (sn_sha256 x)) (hr_subjects r)"
  shows "insert_request r s = Inr (add_request r s)"
proof -
  let ?subjects = "st_subjects s @ subject_rows_for r"
  have rows: "st_requests s @ [request_row_of r] = map request_row_of (rs @ [r])"
    "?subjects = concat (map subject_rows_for (rs @ [r]))" using au by (simp_all add: audit_def)
  have dist: "distinct (map hr_request_id (rs @ [r]))" "distinct (map hr_operation_id (rs @ [r]))"
    using au q i by (auto simp: audit_def lookup_key_None)
  have "distinct (map (\<lambda>x. (sj_request_id x, sj_ordinal x)) ?subjects)"
    unfolding rows
  proof (rule distinct_groups [OF dist(1)])
    fix x
    have "map sj_ordinal (subject_rows_for x) = [0..<0 + length (hr_subjects x)]"
      unfolding subject_rows_for_def by (rule map_index_enumerate) simp
    then show "distinct (map sj_ordinal (subject_rows_for x))" by simp
  qed (auto simp: subject_rows_for_def)
  moreover have "distinct (map (\<lambda>x. (sj_request_id x, sj_kind x, sj_id x)) ?subjects)"
    unfolding rows
  proof (rule distinct_groups [OF dist(1), where k = "\<lambda>x. (sj_kind x, sj_id x)"])
    fix x assume x: "x \<in> set (rs @ [r])"
    have "request_ok E s x" if "x \<noteq> r" using that x au by (simp add: audit_def)
    then have "distinct (map snapshot_key (hr_subjects x))"
      using review_request_new_fields(7) k by (cases "x = r") (auto simp: request_ok_def)
    moreover have "map snd (map (\<lambda>y. (sj_request_id y, sj_kind y, sj_id y)) (subject_rows_for x)) =
        map snd (map (\<lambda>y. (hr_request_id x, snapshot_key y)) (hr_subjects x))"
      unfolding subject_row_refs ..
    ultimately show "distinct (map (\<lambda>y. (sj_kind y, sj_id y)) (subject_rows_for x))" by (simp add: comp_def)
  qed (auto simp: subject_rows_for_def)
  moreover have "distinct (map (\<lambda>x. (sj_aggregate_id x, sj_base_revision x, sj_kind x, sj_id x)) ?subjects)"
    using slots_unique_add [OF slots k taken] unfolding subject_slot_def [abs_def] .
  moreover have "distinct (map qr_request_id (st_requests s @ [request_row_of r]))"
    "distinct (map qr_operation_id (st_requests s @ [request_row_of r]))"
    unfolding rows using dist by (simp_all add: comp_def)
  moreover have "list_all (subject_row_check (st_requests s @ [request_row_of r])) (subject_rows_for r)"
    using row digests
    by (auto simp: list_all_iff subject_rows_for_def subject_row_check_def request_row_check_def request_row_of_def
        in_set_enumerate_eq review_kind_value_def sha256_sql split: review_kind.split)
  ultimately show ?thesis
    using row by (simp add: insert_request_def checks_def guards.simps add_request_def Let_def)
qed

lemma request_row_fits:
  assumes "find_operation s (hr_operation_id r) \<noteq> None" and "find_head s (hr_aggregate_id r) \<noteq> None"
    and "review_request_new E r = Inr r" and "take 1 (hr_rationale r) \<noteq> [CHR 0x00]"
  shows "request_row_check s (request_row_of r)"
proof -
  from assms(3) have "1 \<le> hr_base_revision r" "sha256_pattern (hr_base_sha256 r)" "sha256_pattern (hr_payload_sha256 r)"
    "\<exists>u. normalize_actor_id E (hr_requester r) = Inr u" "\<exists>u. normalize_review_rationale E (hr_rationale r) = Inr u"
    by (auto simp: review_request_new_def rbind_Inr_iff)
  then show ?thesis
    using assms(1,2,4) actor_sql rationale_sql by (auto simp: request_row_check_def request_row_of_def sha256_sql)
qed

lemma subject_id_of:
  assumes "aggregate_wf E a" and "subject_ref_new ref = Inr ref" and "subject_from_aggregate a ref = Some x"
    and "subject_status x = Proposed" and "hash_ok E"
  shows "\<exists>y. take_snapshot E a ref = Inr y"
proof -
  note own = subject_from_aggregate_own [OF assms(3)]
  have "subject_id_pattern (subject_own_id x)" using assms(2) own(2) by (auto simp: subject_ref_new_def)
  moreover have "sha256_pattern (review_subject_sha256 E (sr_kind ref) x)"
    using assms(5) by (simp add: hash_ok_def review_subject_sha256_def sha256_json_def)
  ultimately show ?thesis
    using assms(3,4) own(1)
    by (simp add: take_snapshot_def subject_snapshot_create_def subject_snapshot_new_def checks_def guards.simps)
qed

lemma request_command_fields:
  assumes "request_command_revalidate E c = Inr c"
  shows "distinct (rc_subjects c)" "rc_subjects c \<noteq> []" "\<exists>u. normalize_actor_id E (rc_requester c) = Inr u"
    "\<exists>v. normalize_review_rationale E (rc_rationale c) = Inr v" "normalize_logical_key E (rc_aggregate_id c) = Inr (rc_aggregate_id c)"
    "rc_subjects c = sort_key ref_key (rc_subjects c)"
proof -
  from assms obtain refs where refs: "rmap subject_ref_new (rc_subjects c) = Inr refs"
    and c: "review_request_command_new E (c\<lparr>rc_subjects := refs\<rparr>) = Inr c"
    by (auto simp: request_command_revalidate_def rbind_Inr_iff)
  have "subject_ref_new x = Inr y \<Longrightarrow> y = x" for x y by (auto simp: subject_ref_new_def)
  then have "rmap subject_ref_new xs = Inr ys \<Longrightarrow> ys = xs" for xs ys
    by (induction xs arbitrary: ys) (auto simp: rbind_Inr_iff)
  from this [OF refs] have "refs = rc_subjects c" .
  with c show "distinct (rc_subjects c)" "rc_subjects c \<noteq> []" "\<exists>u. normalize_actor_id E (rc_requester c) = Inr u"
    "\<exists>v. normalize_review_rationale E (rc_rationale c) = Inr v" "normalize_logical_key E (rc_aggregate_id c) = Inr (rc_aggregate_id c)"
    "rc_subjects c = sort_key ref_key (rc_subjects c)"
    by (auto simp: review_request_command_new_def rbind_Inr_iff Let_def) (metis review_request_command.select_convs(4) review_request_command.surjective review_request_command.update_convs(4))
qed

lemma snapshots_taken:
  assumes wf: "aggregate_wf E a" and cmd: "request_command_revalidate E c = Inr c" and hk: "hash_ok E"
    and subs: "\<forall>ref \<in> set (rc_subjects c). \<exists>x. subject_from_aggregate a ref = Some x \<and> subject_status x = Proposed"
  shows "\<exists>xs. rmap (take_snapshot E a) (rc_subjects c) = Inr xs \<and> map snapshot_key xs = map ref_key (rc_subjects c) \<and>
    sort_key snapshot_key xs = xs \<and> distinct (map snapshot_key xs) \<and> xs \<noteq> [] \<and>
    map snapshot_ref xs = map (\<lambda>x. (sr_kind x, sr_id x)) (rc_subjects c)"
proof -
  note f = request_command_fields [OF cmd]
  have refs: "\<forall>ref \<in> set (rc_subjects c). subject_ref_new ref = Inr ref"
    using request_command_revalidate_validated [OF cmd] by (simp add: list_all_iff)
  have "\<exists>xs. rmap (take_snapshot E a) (rc_subjects c) = Inr xs"
  proof (rule rmap_total)
    fix ref assume "ref \<in> set (rc_subjects c)"
    with subs refs subject_id_of [OF wf _ _ _ hk] show "\<exists>y. take_snapshot E a ref = Inr y" by blast
  qed
  then obtain xs where xs: "rmap (take_snapshot E a) (rc_subjects c) = Inr xs" ..
  then have "list_all2 (\<lambda>ref y. take_snapshot E a ref = Inr y) (rc_subjects c) xs" by (simp add: rmap_Inr_iff)
  then have keys: "map snapshot_ref xs = map (\<lambda>x. (sr_kind x, sr_id x)) (rc_subjects c)"
    using refs by (induction rule: list_all2_induct) (use snapshot_taken_readable(4) [OF wf] in auto)
  then have "map (\<lambda>(k, j). (review_kind_value k, j)) (map snapshot_ref xs) =
      map (\<lambda>(k, j). (review_kind_value k, j)) (map (\<lambda>x. (sr_kind x, sr_id x)) (rc_subjects c))" by (rule arg_cong)
  then have kk: "map snapshot_key xs = map ref_key (rc_subjects c)"
    by (simp add: comp_def snapshot_ref_def snapshot_key_def [abs_def] ref_key_def [abs_def])
  have "sorted (map ref_key (rc_subjects c))" using f(6) by (metis sorted_sort_key)
  then have "sort_key snapshot_key xs = xs" unfolding kk [symmetric] by (rule sort_key_id_if_sorted)
  moreover have "inj ref_key" by (rule injI) (simp add: ref_key_def)
  then have "distinct (map ref_key (rc_subjects c))" using f(1) by (simp add: distinct_map inj_on_subset [OF _ subset_UNIV])
  moreover have "xs \<noteq> []" using kk f(2) by auto
  ultimately show ?thesis using xs kk keys by auto
qed

definition opens :: "py_env \<Rightarrow> store \<Rightarrow> string \<Rightarrow> review_request_command \<Rightarrow> string \<Rightarrow> aggregate \<Rightarrow> review_request \<Rightarrow> store \<Rightarrow> bool" where
  "opens E s now c i a r t \<longleftrightarrow>
     create_review_request E now c i s = (Inr \<lparr>qc_request = r, qc_lifecycle = Open, qc_replayed = False\<rparr>, t) \<and>
     hr_base r = a \<and> hr_aggregate_id r = rc_aggregate_id c \<and> hr_base_revision r = rc_expected_revision c \<and>
     map snapshot_ref (hr_subjects r) = map (\<lambda>x. (sr_kind x, sr_id x)) (rc_subjects c) \<and>
     read_review_request E t (hr_request_id r) = Inr (Some r) \<and> lifecycle_of t r = Open \<and>
     committed E t = committed E s \<and> set (owned_operations t) = insert i (set (owned_operations s))"

lemma request_accept:
  assumes c: "consistent E s" and slots: "slots_unique s"
    and live: "committed E s (rc_aggregate_id c) = Some (rc_expected_revision c, a)" "rc_expected_sha256 c = digest_of E a"
    and cmd: "request_command_revalidate E c = Inr c"
    and subs: "\<forall>ref \<in> set (rc_subjects c). \<exists>x. subject_from_aggregate a ref = Some x \<and> subject_status x = Proposed"
    and untaken: "\<forall>ref \<in> set (rc_subjects c). (rc_aggregate_id c, rc_expected_revision c, ref_key ref) \<notin>
      subject_slot ` set (st_subjects s)"
    and xs: "rmap (take_snapshot E a) (rc_subjects c) = Inr xs"
    and fresh: "lookup_key qr_request_id (human_review_request_id E (rc_aggregate_id c) (rc_expected_revision c)
      (digest_of E a) xs) (st_requests s) = None"
    and u: "unused s i" and now: "canonical_utc now" and plain: "take 1 (rc_rationale c) \<noteq> [CHR 0x00]"
  shows "\<exists>r t. opens E s now c i a r t"
proof -
  from c have fl: "float_ok E" and hk: "hash_ok E" and inv: "store_inv E s" by (auto simp: consistent_def env_ok_def)
  from inv obtain rs ds where au: "audit E s rs ds" and rok: "receipts_ok E s" by (auto simp: store_inv_def)
  from live(1) obtain h where h: "find_head s (rc_aggregate_id c) = Some h" "live E s h a"
    "hw_revision h = rc_expected_revision c" "ag_id a = rc_aggregate_id c" by (rule committed_Some [OF c])
  note lf = live_fields [OF h(2)] and f = request_command_fields [OF cmd]
  have wf: "aggregate_wf E a" using lf(4) by (simp add: storable_def)
  have refs: "\<forall>ref \<in> set (rc_subjects c). subject_ref_new ref = Inr ref"
    using request_command_revalidate_validated [OF cmd] by (simp add: list_all_iff)
  from snapshots_taken [OF wf cmd hk subs] xs have kk: "map snapshot_key xs = map ref_key (rc_subjects c)"
    and sorted: "sort_key snapshot_key xs = xs" and dist: "distinct (map snapshot_key xs)" and ne: "xs \<noteq> []"
    and keys: "map snapshot_ref xs = map (\<lambda>x. (sr_kind x, sr_id x)) (rc_subjects c)" by auto
  define snap where "snap = snapshot_of E a (hw_revision h)"
  define r where "r = new_request E now c i snap xs"
  have r: "hr_base r = a" "hr_base_revision r = hw_revision h" "hr_subjects r = xs" "hr_operation_id r = i"
    "hr_requested_at r = now" "hr_aggregate_id r = rc_aggregate_id c" "hr_base_sha256 r = digest_of E a"
    "hr_requester r = rc_requester c" "hr_rationale r = rc_rationale c"
    "hr_request_id r = human_review_request_id E (rc_aggregate_id c) (rc_expected_revision c) (digest_of E a) xs"
    "hr_payload_sha256 r = human_review_request_payload_sha256 E (hr_request_id r) i (rc_requester c) (rc_rationale c)"
    by (simp_all add: r_def new_request_def Let_def snap_def digest_of_def h(3))
  have i: "operation_id_pattern i" using u by (simp add: unused_def)
  have sha: "sha256_pattern (digest_of E a)" "sha256_pattern (hr_payload_sha256 r)" "request_id_pattern (hr_request_id r)"
    using hk unfolding r(10,11)
    by (simp_all add: hash_ok_def digest_of_def sha256_json_def human_review_request_payload_sha256_def
        human_review_request_id_def request_id_pattern_def content_id_pattern_def)
  have asha: "aggregate_sha256 E a = Inr (digest_of E a)" using storable_sha [OF lf(4)] by (simp add: digest_of_def)
  have new: "review_request_new E r = Inr r"
    using f(3,4) sha i lf(5) now asha sorted dist ne h(3,4)
    by (auto simp: review_request_new_def r(1-9) require_canonical_utc_def rbind_Inr_iff) (simp_all add: r(10,11))
  let ?p = "receipt_for E now i a (Some (hw_revision h)) (hw_revision h) False"
  let ?t1 = "log_receipt ?p s" and ?t = "request_added E r h s"
  have p: "new_receipt E now i (rc_aggregate_id c) (Some (hw_revision h)) (digest_of E a) (hw_revision h) False = ?p"
    by (simp add: receipt_for_def h(4))
  have free: "list_all (\<lambda>x. \<not> subject_taken s (rc_aggregate_id c) (hw_revision h) x) xs"
    unfolding list_all_iff
  proof (intro ballI notI)
    fix x assume "x \<in> set xs" and taken: "subject_taken s (rc_aggregate_id c) (hw_revision h) x"
    then have "snapshot_key x \<in> set (map ref_key (rc_subjects c))" unfolding kk [symmetric] by simp
    then obtain ref where "ref \<in> set (rc_subjects c)" "snapshot_key x = ref_key ref" by auto
    with untaken taken h(3) show False
      by (force simp: subject_taken_def list_ex_iff subject_slot_def image_iff)
  qed
  have none: "lookup_key qr_request_id (hr_request_id r) (st_requests s) = None" using fresh r(10) by simp
  have op: "hr_operation_id r \<notin> hr_operation_id ` set rs"
    using unused_operation [OF u] au by (auto simp: audit_def request_ok_def r(4))
  have at: "audit E ?t1 rs ds" by (rule audit_advances [OF advances_log au]) simp_all
  have row: "request_row_check ?t1 (request_row_of r)"
  proof (rule request_row_fits [OF _ _ new])
    show "find_operation ?t1 (hr_operation_id r) \<noteq> None"
      using unused_operation [OF u] by (simp add: r find_operation_log)
  qed (use h(1) plain in \<open>simp_all add: r\<close>)
  have digests: "list_all (\<lambda>x. sha256_pattern (sn_sha256 x)) (hr_subjects r)"
    using rmap_Inr_mem [OF xs] snapshot_taken_readable(1) [OF wf] refs snapshot_readable_fields(1)
    unfolding r(3) list_all_iff by blast
  have ins: "insert_request r ?t1 = Inr (add_request r ?t1)"
    by (rule insert_request_ok [OF at _ _ op _ _ row digests])
      (use slots none dist free in \<open>simp_all add: slots_unique_def r subject_taken_def\<close>)
  have snapt: "snapshot_in_transaction E s (rc_aggregate_id c) = Inr (Some snap)"
    using snapshot_live [OF fl _ h(2)] h(1,4) by (simp add: snap_def)
  have rec: "insert_receipt ?p s = Inr ?t1" by (rule receipt_fresh [OF u]) simp
  have sel: "ss_revision snap = hw_revision h" "ss_sha256 snap = digest_of E a" "ss_aggregate snap = a"
    by (simp_all add: snap_def digest_of_def)
  have tt: "add_request r ?t1 = ?t" by (simp add: request_added_def r)
  have fr: "request_fresh E now c i s = Inr (\<lparr>qc_request = r, qc_lifecycle = Open, qc_replayed = False\<rparr>, ?t)"
    unfolding request_fresh_def snapt rbind_simps of_option_simps sel xs Let_def sorted r_def [symmetric] p
    using live(2) h(3) none free by (simp add: checks_def guards.simps rec [unfolded h(3)] ins [unfolded h(3)] new tt [unfolded h(3)])
  have "request_body E now c i s = Inr (\<lparr>qc_request = r, qc_lifecycle = Open, qc_replayed = False\<rparr>, ?t)"
    unfolding request_body_def preamble_ok(1) [OF fl inv] rbind_simps owner_guard_Inr [OF rok i]
    using u unused_operation [OF u] fr by simp
  then have run: "create_review_request E now c i s =
      (Inr \<lparr>qc_request = r, qc_lifecycle = Open, qc_replayed = False\<rparr>, ?t)"
    using cmd i by (simp add: create_review_request_def require_operation_id_def checks_def guards.simps transact_def)
  have ready: "snapshot_readable E y \<and> subject_from_aggregate a \<lparr>sr_kind = sn_kind y, sr_id = sn_id y\<rparr> = Some (sn_subject y)
      \<and> subject_status (sn_subject y) = Proposed" if "y \<in> set xs" for y
  proof -
    from rmap_Inr_mem [OF xs] that obtain ref where "ref \<in> set (rc_subjects c)" "take_snapshot E a ref = Inr y" by blast
    with refs snapshot_taken_readable [OF wf] show ?thesis by blast
  qed
  have aut: "audit E ?t (rs @ [r]) ds"
    unfolding request_added_def
    by (rule audit_request [OF au _ _ _ new])
      (use h(1,2,4) none u ready in \<open>simp_all add: r(1-6) subjects_bind_base_def list_all_iff\<close>)
  have "read_review_request E ?t (hr_request_id r) = Inr (Some r)"
    by (rule read_request_present [OF aut]) simp
  moreover have "lifecycle_of ?t r = Open"
  proof -
    have "hr_request_id r \<notin> hr_request_id ` set rs" using none au by (auto simp: audit_def lookup_key_None)
    then have "lookup_key qd_request_id (hr_request_id r) (st_decisions s) = None"
      unfolding decision_lookup [OF au] using au by (auto simp: audit_def)
    then show ?thesis
      using h(1) lf(2) by (simp add: lifecycle_of_def request_added_def r(2,6,7) digest_of_def)
  qed
  moreover have "committed E ?t = committed E s" by (simp add: request_added_def)
  moreover have "set (owned_operations ?t) = insert i (set (owned_operations s))"
    by (auto simp: owned_operations_def request_added_def r(4))
  ultimately have "opens E s now c i a r ?t" using run r keys h(3) by (simp add: opens_def)
  then show ?thesis by blast
qed

text \<open>
  C6. Reviews can be opened: in every reachable store, a valid command whose rationale does not begin
  with a NUL character (the CHECK of the table refuses such a text), that binds the committed revision
  and digest of an aggregate and names proposed subjects that no request took at this revision, with an
  unused operation id and a canonical clock, is accepted.  The new request binds the committed aggregate
  and exactly the named subjects, is open and readable, and leaves every aggregate alone.  The one
  exception is a request that the store already holds whose own binding payload differs from the new one
  and has the same SHA-256 digest.
\<close>

theorem request_opens:
  assumes "env_ok E" and "store_reaches E empty_store s" and "request_command_revalidate E c = Inr c"
    and "committed E s (rc_aggregate_id c) = Some (rc_expected_revision c, a)" and "rc_expected_sha256 c = digest_of E a"
    and "\<forall>ref \<in> set (rc_subjects c). \<exists>x. subject_from_aggregate a ref = Some x \<and> subject_status x = Proposed"
    and "\<forall>ref \<in> set (rc_subjects c). (rc_aggregate_id c, rc_expected_revision c, ref_key ref) \<notin>
      subject_slot ` set (st_subjects s)"
    and "unused s i" and "canonical_utc now" and "take 1 (rc_rationale c) \<noteq> [CHR 0x00]"
  shows "(\<exists>r t. create_review_request E now c i s =
        (Inr \<lparr>qc_request = r, qc_lifecycle = Open, qc_replayed = False\<rparr>, t) \<and>
      hr_base r = a \<and> hr_aggregate_id r = rc_aggregate_id c \<and> hr_base_revision r = rc_expected_revision c \<and>
      map snapshot_ref (hr_subjects r) = map (\<lambda>x. (sr_kind x, sr_id x)) (rc_subjects c) \<and>
      read_review_request E t (hr_request_id r) = Inr (Some r) \<and> lifecycle_of t r = Open \<and>
      committed E t = committed E s) \<or>
    (\<exists>r xs. read_review_request E s (hr_request_id r) = Inr (Some r) \<and>
      rmap (take_snapshot E a) (rc_subjects c) = Inr xs \<and>
      hash_collision E (request_payload (rc_aggregate_id c) (rc_expected_revision c) (rc_expected_sha256 c) xs)
        (request_payload (hr_aggregate_id r) (hr_base_revision r) (hr_base_sha256 r) (hr_subjects r)))"
proof -
  note c = consistent_reached [OF assms(1,2)] and slots = slots_reached [OF assms(1,2)]
  from c have fl: "float_ok E" and hk: "hash_ok E" by (auto simp: consistent_def env_ok_def)
  from c obtain rs ds where au: "audit E s rs ds" by (auto simp: consistent_def store_inv_def)
  have wf: "aggregate_wf E a"
    using assms(4) live_fields(4) by (rule_tac committed_Some [OF c assms(4)]) (auto simp: storable_def)
  from snapshots_taken [OF wf assms(3) hk assms(6)] obtain xs where xs: "rmap (take_snapshot E a) (rc_subjects c) = Inr xs"
    and kk: "map snapshot_key xs = map ref_key (rc_subjects c)" and sorted: "sort_key snapshot_key xs = xs" and ne: "xs \<noteq> []"
    by auto
  let ?q = "human_review_request_id E (rc_aggregate_id c) (rc_expected_revision c) (digest_of E a) xs"
  show ?thesis
  proof (cases "lookup_key qr_request_id ?q (st_requests s)")
    case None
    from request_accept [OF c slots assms(4,5,3,6,7) xs None assms(8-10)] show ?thesis unfolding opens_def by blast
  next
    case (Some row)
    then obtain r where r: "r \<in> set rs" "hr_request_id r = ?q"
      using au by (fastforce simp: audit_def dest!: lookup_key_Some)
    with au have new: "review_request_new E r = Inr r" and st: "storable E (hr_base r)"
      by (auto simp: audit_def request_ok_def)
    note rf = review_request_new_fields [OF new st]
    have id: "hr_request_id r = human_review_request_id E (hr_aggregate_id r) (hr_base_revision r) (hr_base_sha256 r) (hr_subjects r)"
      using new by (auto simp: review_request_new_def rbind_Inr_iff)
    have "\<not> (rc_aggregate_id c = hr_aggregate_id r \<and> rc_expected_revision c = hr_base_revision r \<and>
        map snapshot_binding xs = map snapshot_binding (hr_subjects r))"
    proof
      assume same: "rc_aggregate_id c = hr_aggregate_id r \<and> rc_expected_revision c = hr_base_revision r \<and>
        map snapshot_binding xs = map snapshot_binding (hr_subjects r)"
      then have "map (\<lambda>(k, j, _). (review_kind_value k, j)) (map snapshot_binding xs) =
          map (\<lambda>(k, j, _). (review_kind_value k, j)) (map snapshot_binding (hr_subjects r))" by simp
      then have "map snapshot_key xs = map snapshot_key (hr_subjects r)"
        by (simp add: comp_def snapshot_binding_def snapshot_key_def [abs_def])
      then have keys: "map ref_key (rc_subjects c) = map snapshot_key (hr_subjects r)" unfolding kk .
      have "set (map subject_slot (subject_rows_for r)) \<subseteq> subject_slot ` set (st_subjects s)"
        using au r(1) by (auto simp: audit_def)
      then have slot: "(rc_aggregate_id c, rc_expected_revision c, k) \<in> subject_slot ` set (st_subjects s)"
        if "k \<in> set (map ref_key (rc_subjects c))" for k
        using that same unfolding new_slots keys by auto
      obtain ref where "ref \<in> set (rc_subjects c)" using kk ne by (cases "rc_subjects c") auto
      with slot [of "ref_key ref"] assms(7) show False by simp
    qed
    moreover have "sha256_json E (request_payload (rc_aggregate_id c) (rc_expected_revision c) (digest_of E a) xs) =
        sha256_json E (request_payload (hr_aggregate_id r) (hr_base_revision r) (hr_base_sha256 r) (hr_subjects r))"
      using r(2) id by (simp add: human_review_request_id_def)
    from sha256_sorted_inj [OF fl _ _ this] have "request_payload (rc_aggregate_id c) (rc_expected_revision c) (digest_of E a) xs =
        request_payload (hr_aggregate_id r) (hr_base_revision r) (hr_base_sha256 r) (hr_subjects r) \<or>
      hash_collision E (request_payload (rc_aggregate_id c) (rc_expected_revision c) (digest_of E a) xs)
        (request_payload (hr_aggregate_id r) (hr_base_revision r) (hr_base_sha256 r) (hr_subjects r))" by auto
    ultimately have "hash_collision E (request_payload (rc_aggregate_id c) (rc_expected_revision c) (rc_expected_sha256 c) xs)
        (request_payload (hr_aggregate_id r) (hr_base_revision r) (hr_base_sha256 r) (hr_subjects r))"
      unfolding request_payload_eq sorted rf(8) [symmetric] assms(5) by blast
    with read_request_present [OF au r(1)] xs show ?thesis by blast
  qed
qed

end
