(* ===== verification/StoreLog.thy ===== *)
theory StoreLog
  imports StoreRequests
begin

text \<open>
  What the receipts and the loads of the store tell: the receipts number the revisions, the schema of
  the tables accepts every well-formed aggregate, and a load validates what it returns.
\<close>

section \<open>Receipts number the revisions\<close>

definition changed_receipts :: "store \<Rightarrow> string \<Rightarrow> receipt_row list" where
  "changed_receipts s i = filter (\<lambda>p. op_aggregate_id p = i \<and> op_changed p) (st_operations s)"

definition numbered :: "store \<Rightarrow> bool" where
  "numbered s \<longleftrightarrow> (\<forall>i. map op_revision (changed_receipts s i) =
     (case find_head s i of None \<Rightarrow> [] | Some h \<Rightarrow> [1..hw_revision h]))"

lemma receipt_for_fields [simp]:
  "op_aggregate_id (receipt_for E now i a expected n changed) = ag_id a"
  "op_changed (receipt_for E now i a expected n changed) = changed"
  "op_revision (receipt_for E now i a expected n changed) = n"
  by (simp_all add: receipt_for_def new_receipt_def)

lemma changed_receipts_log [simp]:
  "changed_receipts (log_receipt p s) i =
     changed_receipts s i @ (if op_aggregate_id p = i \<and> op_changed p then [p] else [])"
  by (simp add: changed_receipts_def)

lemma changed_receipts_same [simp]:
  "changed_receipts (add_request r s) = changed_receipts s" "changed_receipts (add_decision r d s) = changed_receipts s"
  "changed_receipts (add_foreign x s) = changed_receipts s" "changed_receipts (set_live h a s) = changed_receipts s"
  by (simp_all add: changed_receipts_def fun_eq_iff)

lemma numbered_write:
  assumes "numbered s" and "(case find_head s (ag_id a) of None \<Rightarrow> n = 1 | Some h \<Rightarrow> n = hw_revision h + 1 \<and> 1 \<le> hw_revision h)"
  shows "numbered (write_at E now i a expected n s)"
  unfolding numbered_def
proof
  fix j
  have head: "find_head (write_at E now i a expected n s) j = (if j = ag_id a then Some (head_of E a n now) else find_head s j)"
    by (simp add: write_at_def find_head_set_live)
  have old: "map op_revision (changed_receipts s j) = (case find_head s j of None \<Rightarrow> [] | Some h \<Rightarrow> [1..hw_revision h])"
    using assms(1) by (simp add: numbered_def)
  show "map op_revision (changed_receipts (write_at E now i a expected n s) j) =
      (case find_head (write_at E now i a expected n s) j of None \<Rightarrow> [] | Some h \<Rightarrow> [1..hw_revision h])"
  proof (cases "j = ag_id a")
    case True
    have "map op_revision (changed_receipts s j) @ [n] = [1..n]"
    proof (cases "find_head s j")
      case None
      then show ?thesis using old assms(2) True by simp
    next
      case (Some h)
      then have "n = hw_revision h + 1" "1 \<le> hw_revision h" using assms(2) True by auto
      then show ?thesis using old Some upto_rec2 [of 1 "hw_revision h + 1"] by simp
    qed
    then show ?thesis unfolding head using True by (simp add: write_at_def)
  next
    case False
    then show ?thesis unfolding head using old by (simp add: write_at_def)
  qed
qed

lemma step_numbered:
  assumes "store_step E s t" and n: "numbered s"
  shows "numbered t"
  using assms(1)
proof cases
  case (created a i now)
  then show ?thesis using numbered_write [OF n] by simp
next
  case (written a h b i now)
  then show ?thesis using numbered_write [OF n] live_fields(5) [OF written(4)] by simp
next
  case (decided r h d)
  have "ag_id (hd_aggregate d) = ag_id (hr_base r)"
    by (rule decided_storable(2) [OF live_fields(4) [OF decided(5)] decided(11)])
  then have "numbered (write_at E (hd_decided_at d) (hd_operation_id d) (hd_aggregate d) (Some (hw_revision h)) (hw_revision h + 1) s)"
    using numbered_write [OF n] decided(4) live_fields(5) [OF decided(5)] by simp
  then show ?thesis unfolding decided(1) numbered_def by simp
qed (use n in \<open>simp_all add: numbered_def\<close>)

interpretation numbering: history "event_ok E" "apply_event E" "\<lambda>s. consistent E s \<and> numbered s" for E
  by unfold_locales (blast intro: step_numbered consistent_event_step store_history.inv_app)

text \<open>
  C30. Revisions are gap-free and receipted: in every reachable store the receipts of the writes that
  changed an aggregate carry, in the order of the log, exactly the revisions 1, 2, ..., n, where n is
  its current revision (none, when it was never created); no other receipt names a later revision, and
  no operation id was used twice.
\<close>

theorem receipts_number_revisions:
  assumes "env_ok E" and "store_reaches E empty_store s"
  shows "map op_revision (filter (\<lambda>p. op_aggregate_id p = i \<and> op_changed p) (st_operations s)) =
      (case committed E s i of None \<Rightarrow> [] | Some (n, _) \<Rightarrow> [1..n]) \<and>
    (\<forall>p \<in> set (st_operations s). \<exists>n a. committed E s (op_aggregate_id p) = Some (n, a) \<and> op_revision p \<le> n) \<and>
    distinct (map op_id (st_operations s))"
proof -
  note c = consistent_reached [OF assms]
  then have rok: "receipts_ok E s" by (simp add: consistent_def store_inv_def)
  have "numbered empty_store"
    by (simp add: numbered_def changed_receipts_def empty_store_def find_head_def lookup_key_def)
  then have "numbered s"
    using numbering.inv_reaches [OF assms(2) [unfolded store_reaches_def]] consistent_empty [OF assms(1)] by blast
  then have "map op_revision (changed_receipts s i) = (case committed E s i of None \<Rightarrow> [] | Some (n, _) \<Rightarrow> [1..n])"
    by (cases rule: committed_cases [OF c, of i]) (simp_all add: numbered_def)
  moreover have "\<exists>n a. committed E s (op_aggregate_id p) = Some (n, a) \<and> op_revision p \<le> n"
    if "p \<in> set (st_operations s)" for p
  proof -
    have "case find_head s (op_aggregate_id p) of None \<Rightarrow> False | Some h \<Rightarrow> op_revision p \<le> hw_revision h"
      using that rok unfolding receipts_ok_def list_all_iff receipt_valid_def by blast
    then show ?thesis by (cases rule: committed_cases [OF c, of "op_aggregate_id p"]) auto
  qed
  moreover have "distinct (map op_id (st_operations s))"
    using rok by (simp add: receipts_ok_def owned_operations_def)
  ultimately show ?thesis unfolding changed_receipts_def by blast
qed

section \<open>The schema accepts every well-formed aggregate\<close>

lemma enumerate_values: "list_all (\<lambda>x. P (snd x)) (enumerate n xs) = list_all P xs"
  by (induction xs arbitrary: n) simp_all

lemma bindable_offsets:
  assumes "aggregate_wf E a"
  shows "rows_bindable (aggregate_rows a) \<longleftrightarrow>
    list_all (\<lambda>p. list_all (\<lambda>x. sp_end_char x < 2 ^ 63) (dp_spans p)) (ag_dependencies a)"
proof -
  have "list_all (\<lambda>x. 0 \<le> sr_start_char x \<and> sr_start_char x < sr_end_char x) (rw_spans (aggregate_rows a))"
    using schema_ok_written [OF assms] by (simp add: schema_ok_def rows_checks_def list_all_iff)
  then have "rows_bindable (aggregate_rows a) \<longleftrightarrow> list_all (\<lambda>x. sr_end_char x < 2 ^ 63) (rw_spans (aggregate_rows a))"
    by (fastforce simp: rows_bindable_def sqlite_int_def list_all_iff)
  also have "\<dots> \<longleftrightarrow> list_all (\<lambda>p. list_all (\<lambda>x. sp_end_char (snd x) < 2 ^ 63) (enumerate 0 (dp_spans p))) (ag_dependencies a)"
    by (simp add: aggregate_rows_def list_all_iff span_row_of_def case_prod_beta)
  finally show ?thesis by (simp only: enumerate_values [of "\<lambda>x. sp_end_char x < 2 ^ 63"])
qed

text \<open>
  C33. No well-formed aggregate is refused by the schema: whatever the fourteen tables hold for other
  aggregates, inserting the rows of a well-formed aggregate after its old rows are deleted violates no
  primary key, UNIQUE, CHECK or foreign key constraint.  The rows are the aggregate's own, unless a span
  offset does not fit the 64 bits of its column: then, and only then, binding it raises \<open>OverflowError\<close>.
\<close>

theorem schema_accepts:
  assumes "aggregate_wf E a"
  shows "insert_aggregate_rows a (delete_aggregate_rows (ag_id a) s) =
    (if list_all (\<lambda>p. list_all (\<lambda>x. sp_end_char x < 2 ^ 63) (dp_spans p)) (ag_dependencies a)
     then Inr (s\<lparr>st_rows := (st_rows s)(ag_id a := aggregate_rows a)\<rparr>) else Inl OverflowError)"
proof -
  have d: "st_rows (delete_aggregate_rows (ag_id a) s) (ag_id a) = empty_rows" by (simp add: delete_aggregate_rows_def)
  then show ?thesis
    unfolding bindable_offsets [OF assms, symmetric] insert_aggregate_rows_def
    using schema_ok_written [OF assms] by (simp add: delete_aggregate_rows_def checks_def guards.simps Let_def)
qed

section \<open>A load validates what it returns\<close>

lemma hydrate_snapshot_valid:
  assumes "hydrate_snapshot E h rw = Inr x"
  shows "aggregate_new E (ss_aggregate x) = Inr (ss_aggregate x)" "aggregate_sha256 E (ss_aggregate x) = Inr (ss_sha256 x)"
    "1 \<le> ss_revision x" "ss_revision x = hw_revision h" "ss_sha256 x = hw_sha256 h"
    "normalize_logical_key E (hw_id h) = Inr (ag_id (ss_aggregate x))"
proof -
  from assms have "hydrate_parts E h rw = Inr x"
    by (auto simp: hydrate_snapshot_def split: sum.splits store_error.splits if_splits)
  then obtain ds cs g deps rs tcs a digest where
    run: "aggregate_create E (hw_id h) ds cs g deps rs tcs = Inr a" and
    digest: "aggregate_sha256 E a = Inr digest" and ok: "digest = hw_sha256 h" "1 \<le> hw_revision h" and
    x: "x = \<lparr>ss_aggregate = a, ss_revision = hw_revision h, ss_sha256 = digest\<rparr>"
    unfolding hydrate_parts_def by (auto simp: rbind_Inr_iff)
  from run obtain k where k: "normalize_logical_key E (hw_id h) = Inr k"
    "aggregate_new E \<lparr>ag_id = k, ag_documents = ds, ag_claims = cs, ag_graph = g, ag_dependencies = deps,
      ag_replacements = rs, ag_constraints = tcs\<rparr> = Inr a"
    by (auto simp: aggregate_create_def rbind_Inr_iff)
  from k(2) have a: "a = \<lparr>ag_id = k, ag_documents = ds, ag_claims = cs, ag_graph = g, ag_dependencies = deps,
      ag_replacements = rs, ag_constraints = tcs\<rparr>"
    by (auto simp: aggregate_new_def closed_binding_graph_def rbind_Inr_iff)
  show "aggregate_new E (ss_aggregate x) = Inr (ss_aggregate x)" "aggregate_sha256 E (ss_aggregate x) = Inr (ss_sha256 x)"
    "1 \<le> ss_revision x" "ss_revision x = hw_revision h" "ss_sha256 x = hw_sha256 h"
    "normalize_logical_key E (hw_id h) = Inr (ag_id (ss_aggregate x))"
    using k digest ok by (simp_all add: x a)
qed

text \<open>
  C34. A load never hands out unvalidated data, whatever the tables hold (also tables this store did
  not write): when it returns a snapshot, every validation of receipts, reviews and ownership has
  succeeded, the aggregate satisfies all constructor checks and the closed binding graph, its digest is
  the one of the head row, the revision is positive, and no table has changed.
\<close>

theorem load_validates:
  assumes "load E i s = Inr (Some x, t)"
  shows "t = s \<and> preamble E s = Inr () \<and> aggregate_new E (ss_aggregate x) = Inr (ss_aggregate x) \<and>
    aggregate_sha256 E (ss_aggregate x) = Inr (ss_sha256 x) \<and> 1 \<le> ss_revision x \<and>
    normalize_logical_key E i = Inr (ag_id (ss_aggregate x)) \<and>
    head_binding s i = Some (ss_revision x, ss_sha256 x)"
proof -
  from assms have pre: "preamble E s = Inr ()" "t = s" and snap: "snapshot_in_transaction E s i = Inr (Some x)"
    by (auto simp: load_def rbind_Inr_iff)
  obtain h where h: "find_head s i = Some h" "hydrate_snapshot E h (capture_rows (st_rows s i)) = Inr x"
  proof (cases "find_head s i")
    case None
    then show ?thesis using snap by (simp add: snapshot_in_transaction_def Let_def rbind_Inr_iff)
  next
    case (Some h)
    then show ?thesis using snap that by (simp add: snapshot_in_transaction_def Let_def rbind_Inr_iff)
  qed
  have "hw_id h = i" using find_head_Some [OF h(1)] by simp
  with hydrate_snapshot_valid [OF h(2)] pre h(1) show ?thesis by (simp add: head_binding_def)
qed

end
