(* ===== verification/StoreWitnesses.thy ===== *)
theory StoreWitnesses
  imports Samples StoreLog
begin

text \<open>
  A concrete history of the change-control store: the travel aggregate is created, a review of its
  proposed document replacement is requested and a human rejects it.  The witnesses of the store's
  properties apply their theorems to the states of this history.
\<close>

section \<open>The history\<close>

definition clock :: string where
  "clock = ''2024-01-01T00:00:00+00:00''"

definition travel_store :: store where
  "travel_store = write_at sample_env clock ''op-1'' travel None 1 empty_store"

definition replacement_ref :: subject_ref where
  "replacement_ref = \<lparr>sr_kind = ReplacementKind, sr_id = rp_id policy_replacement\<rparr>"

definition review_command :: review_request_command where
  "review_command = \<lparr>rc_aggregate_id = ''travel'', rc_expected_revision = 1,
     rc_expected_sha256 = digest_of sample_env travel, rc_subjects = [replacement_ref],
     rc_requester = ''ann'', rc_rationale = ''Please check''\<rparr>"

lemma sample_env_ok: "env_ok sample_env"
  by (simp add: env_ok_def sample_float_ok sample_hash_ok)

lemma clock_utc: "canonical_utc clock"
  unfolding clock_def by code_simp

lemma operation_ids: "operation_id_pattern ''op-1''" "operation_id_pattern ''op-2''" "operation_id_pattern ''op-3''"
  by code_simp+

lemma travel_storable: "storable sample_env travel"
proof -
  have "cr_identity_id claim_v1 \<noteq> cr_identity_id claim_v2" by (simp add: sample_defs env_simps)
  then have "identities_functional travel" by (auto simp: identities_functional_def travel_select)
  moreover have "aggregate_dates_valid travel" 
    by (simp add: aggregate_dates_valid_def document_dates_valid_def claim_dates_valid_def travel_select sample_defs
        valid_date_def days_in_month_def leap_year_def)
  moreover have "rows_bindable (aggregate_rows travel)"
    by (simp add: rows_bindable_def aggregate_rows_def travel_select faq_dependency_def faq_span_def span_row_of_def
        sqlite_int_def enumerate_eq_zip)
  ultimately show ?thesis using travel_wf by (simp add: storable_def)
qed

lemma travel_id [simp]: "ag_id travel = ''travel''"
  by (simp add: travel_select)

lemma empty_store_simps [simp]:
  "find_head empty_store i = None" "unused empty_store i = operation_id_pattern i" "st_operations empty_store = []"
  "st_requests empty_store = []" "st_subjects empty_store = []" "st_decisions empty_store = []" "st_items empty_store = []"
  by (simp_all add: empty_store_def find_head_def lookup_key_def unused_def owned_operations_def)

lemma travel_created:
  "compare_and_swap sample_env clock travel None ''op-1'' empty_store =
    (Inr (commit_for clock travel 1 (digest_of sample_env travel) True), travel_store)"
proof -
  have "assert_generic_proposed_only travel = Inr ()"
    by (simp add: assert_generic_proposed_only_def review_subject_map_def travel_select travel_bindings policy_replacement_def
        checks_def guards.simps)
  then have "swapped sample_env clock travel ''op-1'' empty_store None
      (commit_for clock travel 1 (digest_of sample_env travel) True) travel_store"
    unfolding travel_store_def by (intro swapped.created) (simp_all add: operation_ids)
  moreover have "store_inv sample_env empty_store" using consistent_empty [OF sample_env_ok] by (simp add: consistent_def)
  ultimately have "swap_body sample_env clock travel (digest_of sample_env travel) None ''op-1'' empty_store =
      Inr (commit_for clock travel 1 (digest_of sample_env travel) True, travel_store)"
    using swap_body_Inr [OF sample_env_ok _ travel_storable operation_ids(1)] by simp
  moreover have "opt_all (\<lambda>r. 1 \<le> r) (None :: int option)" by (simp add: opt_all_def)
  ultimately show ?thesis
    by (simp add: compare_and_swap_eq [OF travel_storable operation_ids(1)] transact_def)
qed

lemma travel_reached: "store_reaches sample_env empty_store travel_store"
proof -
  have "event_ok sample_env (Swap clock travel None ''op-1'') empty_store"
    using travel_storable travel_wf by (simp add: clock_utc aggregate_wf_def)
  from store_reaches_step [OF store_reaches_refl this] show ?thesis by (simp add: travel_created)
qed

lemma travel_committed: "committed sample_env travel_store ''travel'' = Some (1, travel)"
  using committed_write [OF sample_float_ok travel_storable, of 1] by (simp add: travel_store_def)

lemma travel_unused: "unused travel_store ''op-2''" "unused travel_store ''op-3''"
  by (simp_all add: travel_store_def unused_def owned_operations_def operation_ids empty_store_def)

lemma review_command_valid: "request_command_revalidate sample_env review_command = Inr review_command"
proof -
  have ref: "subject_ref_new replacement_ref = Inr replacement_ref"
    using sample_patterns(5) [of 950137]
    by (simp add: subject_ref_new_def replacement_ref_def subject_id_pattern_def policy_replacement_def starts_with_def
        subject_prefix_def guards.simps)
  have "normalize_actor_id sample_env ''ann'' = Inr ''ann''"
    by (simp add: normalize_actor_id_def Let_def actor_id_pattern_def) code_simp
  moreover have "normalize_review_rationale sample_env ''Please check'' = Inr ''Please check''" by code_simp
  moreover have "sha256_pattern (digest_of sample_env travel)"
    using sample_hash_ok by (simp add: hash_ok_def digest_of_def sha256_json_def)
  ultimately show ?thesis
    using ref by (simp add: request_command_revalidate_def review_command_def review_request_command_new_def sample_keys guards.simps)
qed

lemma replacement_proposed:
  "\<forall>ref \<in> set (rc_subjects review_command). \<exists>x. subject_from_aggregate travel ref = Some x \<and> subject_status x = Proposed"
  by (simp add: review_command_def subject_from_aggregate_def replacement_ref_def travel_select lookup_key_def policy_replacement_def)

lemma travel_untaken:
  "\<forall>ref \<in> set (rc_subjects review_command). (rc_aggregate_id review_command, rc_expected_revision review_command,
     ref_key ref) \<notin> subject_slot ` set (st_subjects travel_store)"
  by (simp add: travel_store_def)

lemma review_opened: "\<exists>r t. opens sample_env travel_store clock review_command ''op-2'' travel r t"
proof -
  have c: "consistent sample_env travel_store" by (rule consistent_reached [OF sample_env_ok travel_reached])
  have live: "committed sample_env travel_store (rc_aggregate_id review_command) = Some (rc_expected_revision review_command, travel)"
    "rc_expected_sha256 review_command = digest_of sample_env travel"
    using travel_committed by (simp_all add: review_command_def)
  obtain xs where xs: "rmap (take_snapshot sample_env travel) (rc_subjects review_command) = Inr xs"
    using snapshots_taken [OF travel_wf review_command_valid sample_hash_ok replacement_proposed] by blast
  show ?thesis
    by (rule request_accept [OF c slots_reached [OF sample_env_ok travel_reached] live review_command_valid
        replacement_proposed travel_untaken xs _ travel_unused(1) clock_utc])
      (simp_all add: travel_store_def lookup_key_def review_command_def)
qed

text \<open>The store with the open review, and the store in which it is rejected.\<close>

lemma opens_reaches:
  assumes "opens sample_env travel_store clock review_command ''op-2'' travel r t"
  shows "store_reaches sample_env empty_store t" "read_review_request sample_env t (hr_request_id r) = Inr (Some r)"
    "lifecycle_of t r = Open" "unused t ''op-3''" "committed sample_env t ''travel'' = Some (1, travel)"
    "hr_base r = travel" "hr_base_revision r = 1" "hr_aggregate_id r = ''travel''"
    "map snapshot_ref (hr_subjects r) = [(ReplacementKind, rp_id policy_replacement)]"
proof -
  note o = assms [unfolded opens_def]
  have "event_ok sample_env (Request clock review_command ''op-2'') travel_store" by (simp add: clock_utc)
  from store_reaches_step [OF travel_reached this] o show "store_reaches sample_env empty_store t" by simp
  show "read_review_request sample_env t (hr_request_id r) = Inr (Some r)" "lifecycle_of t r = Open"
    "committed sample_env t ''travel'' = Some (1, travel)" "hr_base r = travel" "hr_base_revision r = 1"
    "hr_aggregate_id r = ''travel''" "map snapshot_ref (hr_subjects r) = [(ReplacementKind, rp_id policy_replacement)]"
    using o travel_committed by (auto simp: review_command_def replacement_ref_def)
  show "unused t ''op-3''" using o travel_unused(2) by (simp add: unused_def operation_ids)
qed

lemma reviewer_texts:
  "normalize_actor_id sample_env ''bob'' = Inr ''bob''" "normalize_review_rationale sample_env ''No'' = Inr ''No''"
  by (simp add: normalize_actor_id_def Let_def actor_id_pattern_def, code_simp) code_simp

lemma review_rejected:
  assumes o: "opens sample_env travel_store clock review_command ''op-2'' travel r t"
  shows "\<exists>a u x. store_reaches sample_env t u \<and> lifecycle_of u r = Decided \<and>
    committed sample_env u ''travel'' = Some (2, a) \<and>
    subject_at a (''document-replacement'', rp_id policy_replacement) = Some x \<and> subject_status x = Rejected"
proof -
  note f = opens_reaches [OF o]
  let ?c = "reject_all r ''bob'' ''No''"
  note c = consistent_reached [OF sample_env_ok f(1)]
  note k = request_known [OF c f(2)]
  have dist: "distinct (map snapshot_ref (hr_subjects r))" unfolding f(9) by simp
  have bind: "subjects_bind_base r" "aggregate_wf sample_env (hr_base r)"
    using k(2) by (auto simp: request_ok_def storable_def)
  from reject_all_applied [OF bind dist] obtain a where run: "apply_human_review_decision sample_env r ?c = Inr a" by blast
  note st = decided_storable [OF k(4) run]
  have id: "dc_request_id ?c = hr_request_id r" by (simp add: reject_all_def)
  have plain: "take 1 (dc_rationale ?c) \<noteq> [CHR 0x00]" "edits_plain (dc_items ?c)"
    by (auto simp: reject_all_def edits_plain_def reject_item_def)
  from decide_open [OF c _ f(3) reject_all_revalidate [OF k(2) reviewer_texts] run f(4) clock_utc plain] f(2) obtain h d p
    where h: "decide_review sample_env clock ?c ''op-3'' t = (Inr p, decision_added sample_env r d h t)"
      "find_head t (hr_aggregate_id r) = Some h" and d: "hd_aggregate d = a"
    unfolding id by (auto simp: new_decision_def)
  let ?u = "decision_added sample_env r d h t"
  have rev: "hw_revision h = 1" using f(3,7) h(2) by (auto simp: lifecycle_of_def split: if_splits)
  have "event_ok sample_env (Decide clock ?c ''op-3'') t" by (simp add: clock_utc)
  from store_reaches_step [OF store_reaches_refl this] have reach: "store_reaches sample_env t ?u" by (simp add: h(1))
  have "lifecycle_of ?u r = Decided"
    by (simp add: lifecycle_decided decision_added_def lookup_key_append lookup_key_single split: option.split)
  moreover have "committed sample_env ?u ''travel'' = Some (2, a)"
    using committed_write [OF sample_float_ok st(1), of 2] st(2) by (simp add: decision_added_def d rev f(6))
  moreover obtain y where y: "y \<in> set (hr_subjects r)" "snapshot_ref y = (ReplacementKind, rp_id policy_replacement)"
    using f(9) by (cases "hr_subjects r") auto
  from rejected_subjects [OF k(2) run y(1)] y(2) obtain x where
    "subject_at a (''document-replacement'', rp_id policy_replacement) = Some x" "subject_status x = Rejected"
    by (auto simp: snapshot_key_def snapshot_ref_def review_kind_value_def)
  ultimately show ?thesis using reach by blast
qed

section \<open>Witnesses\<close>

lemma store_never_corrupt_witness:
  "store_reaches sample_env empty_store travel_store \<and> preamble sample_env travel_store = Inr () \<and>
   load sample_env ''travel'' travel_store = Inr (Some (snapshot_of sample_env travel 1), travel_store)"
  using store_never_corrupt [OF sample_env_ok travel_reached] travel_reached travel_committed by (auto split: option.splits)

lemma swap_refines_witness:
  "case compare_and_swap sample_env clock travel (Some 1) ''op-2'' travel_store of
      (Inl e, t) \<Rightarrow> t = travel_store \<and>
        spec_swap sample_env (under_review sample_env travel_store) (committed sample_env travel_store) travel (Some 1) = None
    | (Inr k, t) \<Rightarrow>
        spec_swap sample_env (under_review sample_env travel_store) (committed sample_env travel_store) travel (Some 1) =
          Some (cm_revision k, cm_changed k, committed sample_env t) \<and>
        (\<forall>j. load sample_env j t = Inr (map_option (\<lambda>(n, b). snapshot_of sample_env b n) (committed sample_env t j), t)) \<and>
        k = commit_for clock travel (cm_revision k) (digest_of sample_env travel) (cm_changed k)"
  by (rule swap_refines [OF sample_env_ok travel_reached travel_storable _ travel_unused(1) clock_utc]) (simp add: opt_all_def)

lemma swap_idempotent_witness:
  "compare_and_swap sample_env ''2025-01-01T00:00:00+00:00'' travel None ''op-1'' travel_store =
    (Inr ((commit_for clock travel 1 (digest_of sample_env travel) True)\<lparr>cm_replayed := True\<rparr>), travel_store)"
  by (rule swap_idempotent [OF sample_env_ok store_reaches_refl travel_storable clock_utc travel_created store_reaches_refl])

lemma request_opens_witness:
  "(\<exists>r t. create_review_request sample_env clock review_command ''op-2'' travel_store =
        (Inr \<lparr>qc_request = r, qc_lifecycle = Open, qc_replayed = False\<rparr>, t) \<and>
      hr_base r = travel \<and> hr_aggregate_id r = rc_aggregate_id review_command \<and>
      hr_base_revision r = rc_expected_revision review_command \<and>
      map snapshot_ref (hr_subjects r) = map (\<lambda>x. (sr_kind x, sr_id x)) (rc_subjects review_command) \<and>
      read_review_request sample_env t (hr_request_id r) = Inr (Some r) \<and> lifecycle_of t r = Open \<and>
      committed sample_env t = committed sample_env travel_store)"
proof -
  have live: "committed sample_env travel_store (rc_aggregate_id review_command) = Some (rc_expected_revision review_command, travel)"
    "rc_expected_sha256 review_command = digest_of sample_env travel"
    using travel_committed by (simp_all add: review_command_def)
  have none: "read_review_request sample_env travel_store q = Inr None" for q
    by (simp add: read_review_request_def travel_store_def lookup_key_def)
  show ?thesis
    using request_opens [OF sample_env_ok travel_reached review_command_valid live replacement_proposed travel_untaken
        travel_unused(1) clock_utc] none by (auto simp: review_command_def)
qed

lemma open_request_decidable_witness:
  "\<exists>s r. store_reaches sample_env empty_store s \<and> lifecycle_of s r = Open \<and>
    (\<exists>p t. decide_review sample_env clock (reject_all r ''bob'' ''No'') ''op-3'' s = (Inr p, t) \<and> lifecycle_of t r = Decided)"
proof -
  from review_opened obtain r s where "opens sample_env travel_store clock review_command ''op-2'' travel r s" by blast
  note f = opens_reaches [OF this]
  have "take 1 ''No'' \<noteq> [CHR 0x00]" by simp
  from open_request_decidable [OF sample_env_ok f(1-4) clock_utc reviewer_texts this] f(1,3) show ?thesis by blast
qed

lemma reviewed_immutable_witness:
  "\<exists>s n a x. store_reaches sample_env empty_store s \<and> committed sample_env s ''travel'' = Some (n, a) \<and>
    subject_at a (''document-replacement'', rp_id policy_replacement) = Some x \<and> subject_status x = Rejected \<and>
    (\<exists>m b. committed sample_env (apply_event sample_env (Swap clock travel (Some 2) ''op-4'') s) ''travel'' = Some (m, b) \<and>
       n \<le> m \<and> subject_at b (''document-replacement'', rp_id policy_replacement) = Some x)"
proof -
  from review_opened obtain r t where o: "opens sample_env travel_store clock review_command ''op-2'' travel r t" by blast
  from review_rejected [OF o] obtain a u x where u: "store_reaches sample_env t u"
    "committed sample_env u ''travel'' = Some (2, a)"
    "subject_at a (''document-replacement'', rp_id policy_replacement) = Some x" "subject_status x = Rejected" by blast
  have su: "store_reaches sample_env empty_store u" by (rule store_reaches_trans [OF opens_reaches(1) [OF o] u(1)])
  have "event_ok sample_env (Swap clock travel (Some 2) ''op-4'') u"
    using travel_storable travel_wf by (simp add: clock_utc aggregate_wf_def)
  from reviewed_immutable [OF sample_env_ok su store_reaches_step [OF store_reaches_refl this] u(2,3)] u su
  show ?thesis by (intro exI [of _ u] exI [of _ "2 :: int"] exI [of _ a] exI [of _ x]) simp
qed

lemma reviewed_accountable_witness:
  "\<exists>s a x. store_reaches sample_env empty_store s \<and> committed sample_env s ''travel'' = Some (2, a) \<and>
    (\<exists>d \<in> set (st_decisions s). qd_aggregate_id d = ''travel'' \<and> qd_revision d \<le> 2 \<and>
       subject_at (qd_aggregate d) (''document-replacement'', rp_id policy_replacement) = Some x \<and>
       (\<exists>m \<in> set (st_items s). im_request_id m = qd_request_id d \<and> im_disposition m = ''rejected''))"
proof -
  from review_opened obtain r t where o: "opens sample_env travel_store clock review_command ''op-2'' travel r t" by blast
  from review_rejected [OF o] obtain a u x where u: "store_reaches sample_env t u"
    "committed sample_env u ''travel'' = Some (2, a)"
    "subject_at a (''document-replacement'', rp_id policy_replacement) = Some x" "subject_status x = Rejected" by blast
  have su: "store_reaches sample_env empty_store u" by (rule store_reaches_trans [OF opens_reaches(1) [OF o] u(1)])
  have "subject_status x \<noteq> Proposed" using u(4) by simp
  from reviewed_accountable [OF sample_env_ok su u(2,3) this] u su show ?thesis by blast
qed

lemma review_closed_for_good_witness:
  "\<exists>t u r. store_reaches sample_env t u \<and> lifecycle_of t r = Open \<and> lifecycle_of u r = Decided \<and>
    read_review_request sample_env u (hr_request_id r) = Inr (Some r)"
proof -
  from review_opened obtain r t where o: "opens sample_env travel_store clock review_command ''op-2'' travel r t" by blast
  note f = opens_reaches [OF o]
  from review_rejected [OF o] obtain u where u: "store_reaches sample_env t u" "lifecycle_of u r = Decided" by blast
  from review_closed_for_good [OF sample_env_ok f(1) u(1) f(2)] f(3) u show ?thesis by blast
qed

lemma receipts_number_revisions_witness:
  "map op_revision (filter (\<lambda>p. op_aggregate_id p = ''travel'' \<and> op_changed p) (st_operations travel_store)) = [1]"
  using receipts_number_revisions [OF sample_env_ok travel_reached, of "''travel''"] travel_committed by simp

lemma schema_accepts_witness:
  "insert_aggregate_rows travel (delete_aggregate_rows ''travel'' travel_store) =
    Inr (travel_store\<lparr>st_rows := (st_rows travel_store)(''travel'' := aggregate_rows travel)\<rparr>)"
  using schema_accepts [OF travel_wf, of travel_store] by (simp add: travel_select faq_dependency_def faq_span_def)

lemma load_validates_witness:
  "aggregate_new sample_env travel = Inr travel \<and>
   head_binding travel_store ''travel'' = Some (1, digest_of sample_env travel)"
proof -
  have c: "consistent sample_env travel_store" by (rule consistent_reached [OF sample_env_ok travel_reached])
  have "load sample_env ''travel'' travel_store = Inr (Some (snapshot_of sample_env travel 1), travel_store)"
    using load_committed [OF c, of "''travel''"] travel_committed by simp
  from load_validates [OF this] show ?thesis by (simp add: digest_of_def)
qed

lemma apply_review_exact_witness:
  "\<exists>r a. hr_base r = travel \<and> apply_human_review_decision sample_env r (reject_all r ''bob'' ''No'') = Inr a \<and>
     aggregate_wf sample_env a \<and> a = decided_aggregate r (reject_all r ''bob'' ''No'')"
proof -
  from review_opened obtain r t where o: "opens sample_env travel_store clock review_command ''op-2'' travel r t" by blast
  note f = opens_reaches [OF o]
  have ok: "request_ok sample_env t r" by (rule request_known(2) [OF consistent_reached [OF sample_env_ok f(1)] f(2)])
  have dist: "distinct (map snapshot_ref (hr_subjects r))" unfolding f(9) by simp
  have bind: "subjects_bind_base r" "aggregate_wf sample_env (hr_base r)"
    using ok by (auto simp: request_ok_def storable_def)
  from reject_all_applied [OF bind dist] obtain a where
    run: "apply_human_review_decision sample_env r (reject_all r ''bob'' ''No'') = Inr a" by blast
  from apply_review_exact [OF bind(2) run] f(6) run show ?thesis by blast
qed

lemma review_request_identity_witness:
  "let x = \<lparr>sn_kind = ReplacementKind, sn_id = rp_id policy_replacement, sn_subject = ReplacementSubject policy_replacement,
       sn_sha256 = digest_text 1\<rparr>;
       y = \<lparr>sn_kind = ConstraintKind, sn_id = tc_id claim_constraint, sn_subject = ConstraintSubject claim_constraint,
       sn_sha256 = digest_text 2\<rparr>
   in human_review_request_id sample_env ''travel'' 1 (digest_text 3) [y, x] =
      human_review_request_id sample_env ''travel'' 1 (digest_text 3) [x, y]"
proof -
  let ?x = "\<lparr>sn_kind = ReplacementKind, sn_id = rp_id policy_replacement, sn_subject = ReplacementSubject policy_replacement,
       sn_sha256 = digest_text 1\<rparr>"
  let ?y = "\<lparr>sn_kind = ConstraintKind, sn_id = tc_id claim_constraint, sn_subject = ConstraintSubject claim_constraint,
       sn_sha256 = digest_text 2\<rparr>"
  have d: "distinct (map snapshot_key [?x, ?y])" by (simp add: snapshot_key_def review_kind_value_def)
  then have "distinct (map snapshot_key [?y, ?x]) \<and> set [?y, ?x] = set [?x, ?y]" by auto
  with conjunct1 [OF review_request_identity [OF sample_float_ok d]] show ?thesis unfolding Let_def by blast
qed

lemma rows_roundtrip_witness:
  "hydrate_snapshot sample_env (head_of sample_env travel 1 clock) (capture_rows (aggregate_rows travel)) =
      Inr (snapshot_of sample_env travel 1) \<or>
    (\<exists>x \<in> set (ag_claims travel). \<exists>y \<in> set (ag_claims travel).
       hash_collision sample_env (claim_identity_payload_of x) (claim_identity_payload_of y))"
  by (rule rows_roundtrip [OF sample_float_ok travel_wf]) (use travel_storable in \<open>simp_all add: storable_def\<close>)

text \<open>
  Why rationales do not begin with a NUL: the models accept such a text, and its length in SQLite is zero, which
  the CHECK constraints of the review tables refuse.
\<close>

lemma nul_rationale_refused:
  "normalize_review_rationale sample_env (CHR 0x00 # ''x'') = Inr (CHR 0x00 # ''x'') \<and>
   \<not> sql_between (CHR 0x00 # ''x'') 1 4000"
  by code_simp

end
