(* ===== verification/StoreUnstable.thy ===== *)
theory StoreUnstable
  imports StoreWitnesses
begin

text \<open>
  A flaw of the code: \<open>_safe_relative_path\<close> is not idempotent, and each validation of a stored record
  normalises its path again.  An aggregate with such a path is committed but cannot be loaded.
\<close>

definition lone :: "string \<Rightarrow> aggregate" where
  "lone path = \<lparr>ag_id = ''travel'', ag_documents = [policy_v1\<lparr>dv_source_path := path\<rparr>], ag_claims = [],
     ag_graph = [], ag_dependencies = [], ag_replacements = [], ag_constraints = []\<rparr>"

lemma unstable_paths:
  "safe_relative_path ''a/ / / '' = Inr ''a/ / ''" "safe_relative_path ''a/ / '' = Inr ''a/ ''"
  "safe_relative_path ''a/ '' = Inr ''a''" "safe_relative_path ''a'' = Inr ''a''"
  by code_simp+

lemma lone_select [simp]:
  "ag_id (lone p) = ''travel''" "ag_documents (lone p) = [policy_v1\<lparr>dv_source_path := p\<rparr>]" "ag_claims (lone p) = []"
  "ag_graph (lone p) = []" "ag_dependencies (lone p) = []" "ag_replacements (lone p) = []" "ag_constraints (lone p) = []"
  by (simp_all add: lone_def)

lemma lone_document:
  assumes "safe_relative_path p = Inr q"
  shows "document_version_new sample_env (policy_v1\<lparr>dv_source_path := p\<rparr>) = Inr (policy_v1\<lparr>dv_source_path := q\<rparr>)"
  using documents_wf(1) unfolding document_version_wf_iff document_version_new_Inr_iff by (auto simp: assms)

lemma lone_new: "aggregate_new sample_env (lone p) = Inr (lone p)"
proof -
  have "closed_binding_graph (lone p) = Inr (lone p)"
    unfolding closed_binding_graph_Inr_iff by (simp add: validated_temporal_constraints_def validated_set_new_Inr_iff assessment_revisions_def replacement_documents_def key_inj_def)
  moreover have "logical_key_pattern ''travel''" by code_simp
  ultimately show ?thesis unfolding aggregate_new_Inr_iff by (simp add: sample_keys)
qed

lemma empty_registries:
  "claim_registry_revalidate E [] = Inr []" "relation_graph_revalidate E [] = Inr []"
  "dependency_registry_revalidate E [] = Inr []" "replacement_set_revalidate E [] = Inr []"
  "constraint_set_revalidate E [] = Inr []"
  unfolding revalidate_wf
  by (simp_all add: claim_registry_new_Inr relation_graph_new_Inr_iff dependency_registry_new_Inr_iff
      replacement_set_new_Inr_iff constraint_set_new_Inr_iff canonical_def key_inj_def assessment_revisions_def
      pair_revisions_def persisted_relation_ids_def List.map_filter_def dependency_revisions_def
      replacement_documents_def replacement_edges_def acyclic_def)

lemma lone_revalidate:
  assumes "safe_relative_path p = Inr q"
  shows "aggregate_revalidate sample_env (lone p) = Inr (lone q)"
proof -
  have "document_registry_revalidate sample_env (ag_documents (lone p)) = Inr (ag_documents (lone q))"
    unfolding lone_select by (simp add: document_registry_revalidate_def lone_document [OF assms] document_registry_new_def dedupe_loop.simps guards.simps)
  then show ?thesis
    using lone_new [of q]
    by (simp add: aggregate_revalidate_def empty_registries) (simp add: lone_def)
qed

definition lone_digest :: "string \<Rightarrow> string" where
  "lone_digest path = sha256_json sample_env (aggregate_json (lone path))"

lemma lone_sha:
  "safe_relative_path p = Inr q \<Longrightarrow> aggregate_sha256 sample_env (lone p) = Inr (lone_digest q)"
  by (simp add: aggregate_sha256_def lone_revalidate lone_digest_def)

lemma lone_rows:
  "aggregate_rows (lone p) = empty_rows\<lparr>rw_documents := [document_row_of (policy_v1\<lparr>dv_source_path := p\<rparr>)]\<rparr>"
  by (simp add: aggregate_rows_def lone_def empty_rows_def identity_revisions_def dict_of.simps)

lemma lone_schema: "schema_ok (aggregate_rows (lone p))"
proof -
  have "safe_relative_path ''a'' = Inr ''a''" by (rule unstable_paths(4))
  then have "aggregate_wf sample_env (lone ''a'')" by (simp add: aggregate_wf_def lone_revalidate)
  then have "schema_ok (aggregate_rows (lone ''a''))" by (rule schema_ok_written)
  then show ?thesis
    unfolding lone_rows schema_ok_def rows_keys_def rows_references_def rows_checks_def
    by (simp add: document_row_of_def empty_rows_def)
qed

definition lone_store :: store where
  "lone_store = \<lparr>st_heads = [head_row_for clock (lone ''a/ / '') 1 (lone_digest ''a/ '')],
     st_rows = (\<lambda>_. empty_rows)(''travel'' := aggregate_rows (lone ''a/ / '')),
     st_operations = [new_receipt sample_env clock ''op-1'' ''travel'' None (lone_digest ''a/ '') 1 True],
     st_requests = [], st_subjects = [], st_decisions = [], st_items = [], st_foreign = []\<rparr>"

lemma lone_committed:
  "compare_and_swap sample_env clock (lone ''a/ / / '') None ''op-1'' empty_store =
    (Inr (commit_for clock (lone ''a/ / '') 1 (lone_digest ''a/ '') True), lone_store)"
proof -
  let ?a = "lone ''a/ / ''" and ?d = "lone_digest ''a/ ''"
  let ?s1 = "empty_store\<lparr>st_heads := [head_row_for clock ?a 1 ?d]\<rparr>"
  let ?s2 = "?s1\<lparr>st_rows := (st_rows empty_store)(''travel'' := aggregate_rows ?a)\<rparr>"
  have inv: "store_inv sample_env empty_store" using consistent_empty [OF sample_env_ok] by (simp add: consistent_def)
  have pre: "preamble sample_env empty_store = Inr ()" by (rule preamble_ok(1) [OF sample_float_ok inv])
  have owner: "global_operation_owner empty_store ''op-1'' = Inr None"
    by (rule owner_unused) (simp add: owned_operations_def empty_store_def)
  have op: "find_operation empty_store ''op-1'' = None" by (simp add: find_operation_def lookup_key_def)
  have gen: "assert_generic_proposed_only ?a = Inr ()"
    by (simp add: assert_generic_proposed_only_def review_subject_map_def checks_def guards.simps)
  have head: "insert_head (head_row_for clock ?a 1 ?d) empty_store = Inr ?s1"
    by (simp add: insert_head_def checks_def guards.simps) (simp add: empty_store_def)
  have "st_rows ?s1 (ag_id ?a) = empty_rows" by (simp add: empty_store_def)
  have "rows_bindable (aggregate_rows ?a)" by (simp add: rows_bindable_def lone_rows empty_rows_def)
  with insert_rows_Inr [OF \<open>st_rows ?s1 (ag_id ?a) = empty_rows\<close>, of ?s2] lone_schema have rows: "insert_aggregate_rows ?a ?s1 = Inr ?s2" by simp
  have rec: "insert_receipt (new_receipt sample_env clock ''op-1'' ''travel'' None ?d 1 True) ?s2 = Inr lone_store"
    by (simp add: insert_receipt_Inr new_receipt_def find_operation_def lookup_key_def log_receipt_def lone_store_def)
      (simp add: empty_store_def)
  have "swap_body sample_env clock ?a ?d None ''op-1'' empty_store = Inr (commit_for clock ?a 1 ?d True, lone_store)"
    unfolding swap_body_def pre owner op
    by (simp add: checks_def guards.simps gen head rows rec)
  then show ?thesis
    using operation_ids(1) lone_revalidate [OF unstable_paths(1)] lone_sha [OF unstable_paths(2)]
    by (simp add: compare_and_swap_def require_operation_id_def opt_all_def checks_def guards.simps transact_def)
qed

lemma lone_preamble: "preamble sample_env lone_store = Inr ()"
proof -
  have sha: "sha256_pattern (lone_digest p)" "sha256_pattern (receipt_sha256 sample_env i k e d n c t)" for p i k e d n c t
    using sample_hash_ok by (simp_all add: hash_ok_def lone_digest_def receipt_sha256_def sha256_json_def)
  have "receipt_valid sample_env lone_store (new_receipt sample_env clock ''op-1'' ''travel'' None (lone_digest ''a/ '') 1 True)"
    by (simp add: receipt_valid_def new_receipt_def receipt_shape_def lone_store_def find_head_def lookup_key_def
        head_row_for_def sha operation_ids clock_utc sample_keys)
  then have "validate_receipts sample_env lone_store = Inr ()"
    by (simp add: validate_receipts_def checks_def guards.simps) (simp add: lone_store_def)
  moreover have "validate_reviews sample_env lone_store = Inr ()"
    by (simp add: validate_reviews_def as_corruption_def lone_store_def)
  moreover have "validate_global_operation_ownership lone_store = Inr ()"
    by (simp add: validate_ownership_Inr owned_operations_def lone_store_def new_receipt_def operation_ids)
  ultimately show ?thesis by (simp add: preamble_def)
qed

lemma lone_captured: "capture_rows (aggregate_rows (lone p)) = aggregate_rows (lone p)"
  unfolding lone_rows by (simp add: capture_rows_def empty_rows_def)

lemma lone_hydrated:
  assumes "safe_relative_path p = Inr q" and "safe_relative_path q = Inr r"
  shows "hydrate_snapshot sample_env (head_row_for clock (lone p) 1 digest) (aggregate_rows (lone p)) =
     (if lone_digest r = digest
      then Inr \<lparr>ss_aggregate = lone q, ss_revision = 1, ss_sha256 = digest\<rparr>
      else Inl (Corruption ''aggregate digest does not match normalized rows''))"
proof -
  have "document_dates_valid (policy_v1\<lparr>dv_source_path := p\<rparr>)"
    by (simp add: document_dates_valid_def sample_defs valid_date_def days_in_month_def)
  from hydrate_document_row_of [OF this, of sample_env] lone_document [OF assms(1)]
  have doc: "hydrate_document sample_env (document_row_of (policy_v1\<lparr>dv_source_path := p\<rparr>)) =
      Inr (policy_v1\<lparr>dv_source_path := q\<rparr>)" by simp
  have reg: "document_registry_create [policy_v1\<lparr>dv_source_path := q\<rparr>] = Inr [policy_v1\<lparr>dv_source_path := q\<rparr>]"
    unfolding document_registry_create_iff by (simp add: canonical_def key_inj_def)
  have none: "claim_registry_create [] = Inr []" "relation_graph_create [] = Inr []"
    "dependency_registry_create [] = Inr []" "replacement_set_create [] = Inr []" "constraint_set_create [] = Inr []"
    by code_simp+
  have agg: "aggregate_create sample_env ''travel'' [policy_v1\<lparr>dv_source_path := q\<rparr>] [] [] [] [] [] = Inr (lone q)"
    using lone_new [of q] unfolding aggregate_create_def by (simp add: sample_keys) (simp add: lone_def)
  have parts: "hydrate_parts sample_env (head_row_for clock (lone p) 1 digest) (aggregate_rows (lone p)) =
     (if lone_digest r = digest then Inr \<lparr>ss_aggregate = lone q, ss_revision = 1, ss_sha256 = digest\<rparr>
      else Inl (Corruption ''aggregate digest does not match normalized rows''))"
    unfolding lone_rows hydrate_parts_def head_row_for_def hydrate_documents_def hydrate_claims_def hydrate_relations_def
      hydrate_dependencies_def hydrate_constraints_def empty_rows_def
    by (simp add: checks_def guards.simps doc reg none agg lone_sha [OF assms(2)])
  show ?thesis unfolding hydrate_snapshot_def parts by simp
qed

text \<open>
  Why the histories of the store write storable aggregates only.  In the sample environment, an aggregate
  whose only document has the source path \<open>a/ / / \<close> is accepted by \<open>compare_and_swap\<close>, and the \<open>load\<close> that
  follows raises a corruption error (unless the texts of the aggregates with the paths \<open>a\<close> and \<open>a/ \<close> share
  a digest): the digest is taken after one application of \<open>_safe_relative_path\<close> more than the rows it is
  committed with, and a load applies it twice more to the rows.
\<close>

lemma unstable_path_unreadable:
  "hash_collision sample_env (aggregate_json (lone ''a'')) (aggregate_json (lone ''a/ '')) \<or>
   (case compare_and_swap sample_env clock (lone ''a/ / / '') None ''op-1'' empty_store of (r, t) \<Rightarrow>
      (\<exists>k. r = Inr k \<and> cm_changed k \<and> cm_revision k = 1) \<and>
      load sample_env ''travel'' t = Inl (Corruption ''aggregate digest does not match normalized rows''))"
proof (cases "lone_digest ''a'' = lone_digest ''a/ ''")
  case True
  then have "sha256_json sample_env (aggregate_json (lone ''a'')) = sha256_json sample_env (aggregate_json (lone ''a/ ''))"
    by (simp add: lone_digest_def)
  from sha256_sorted_inj [OF sample_float_ok _ _ this] show ?thesis by (simp add: lone_def sample_defs)
next
  case False
  have "find_head lone_store ''travel'' = Some (head_row_for clock (lone ''a/ / '') 1 (lone_digest ''a/ ''))"
    by (simp add: find_head_def lookup_key_def lone_store_def head_row_for_def)
  moreover have "st_rows lone_store ''travel'' = aggregate_rows (lone ''a/ / '')" by (simp add: lone_store_def)
  ultimately have "load sample_env ''travel'' lone_store =
      Inl (Corruption ''aggregate digest does not match normalized rows'')"
    using lone_hydrated [OF unstable_paths(2,3)] False
    by (simp add: load_def lone_preamble snapshot_in_transaction_def lone_captured)
  then show ?thesis by (simp add: lone_committed)
qed

end
