(* ===== verification/Segmenter.thy ===== *)
theory Segmenter
  imports PyText
begin

text \<open>
  The body segmenter of \<open>vaultfs/segmenter.py\<close>: the line loop of \<open>_parse_sections\<close> with its state
  (sections, heading, paragraphs, paragraph lines, fence flag), the units of a section and the
  greedy merge of \<open>segment\<close>.  The lemmas show that segmentation loses no word of the body, which
  lines become headings, and that the merge of a section is the greedy grouping of its units.
\<close>

section \<open>The code\<close>

abbreviation newline :: char where "newline \<equiv> CHR 0x0A"

abbreviation blank_line :: string where "blank_line \<equiv> [newline, newline]"

definition TARGET_CHARS :: int where "TARGET_CHARS = 1200"

record chunk =
  ordinal :: nat
  chunk_text :: string

record segment_section =
  section_heading :: "string option"
  section_paragraphs :: "string list"

text \<open>\<open>_FENCE_RE\<close>: \<open>^(```|~~~)\<close> and \<open>_SECTION_HEADING_RE\<close>: \<open>^#{2,3}\s\<close>, both by \<open>match\<close>.\<close>

definition fence_re :: "string \<Rightarrow> bool" where
  "fence_re line \<longleftrightarrow> take 3 line = ''```'' \<or> take 3 line = ''~~~''"

definition section_heading_re :: "string \<Rightarrow> bool" where
  "section_heading_re line \<longleftrightarrow>
     (case line of
        a # b # c # cs \<Rightarrow> a = CHR ''#'' \<and> b = CHR ''#'' \<and>
          (is_space c \<or> c = CHR ''#'' \<and> cs \<noteq> [] \<and> is_space (hd cs))
      | _ \<Rightarrow> False)"

record parse_state =
  ps_sections :: "segment_section list"
  ps_heading :: "string option"
  ps_paragraphs :: "string list"
  ps_para_lines :: "string list"
  ps_in_fence :: bool

definition parse_start :: parse_state where
  "parse_start = \<lparr>ps_sections = [], ps_heading = None, ps_paragraphs = [], ps_para_lines = [],
                  ps_in_fence = False\<rparr>"

definition flush_paragraph :: "parse_state \<Rightarrow> parse_state" where
  "flush_paragraph s =
     (let t = strip (join [newline] (ps_para_lines s)) in
      s\<lparr>ps_paragraphs := (if t \<noteq> [] then ps_paragraphs s @ [t] else ps_paragraphs s),
        ps_para_lines := []\<rparr>)"

definition flush_section :: "parse_state \<Rightarrow> parse_state" where
  "flush_section s0 =
     (let s = flush_paragraph s0 in
      s\<lparr>ps_sections :=
          (if ps_heading s \<noteq> None \<or> ps_paragraphs s \<noteq> []
           then ps_sections s @
             [\<lparr>section_heading = ps_heading s, section_paragraphs = ps_paragraphs s\<rparr>]
           else ps_sections s),
        ps_heading := None, ps_paragraphs := []\<rparr>)"

text \<open>One turn of the loop \<open>for line in body.split("\n")\<close>.\<close>

definition parse_line :: "string \<Rightarrow> parse_state \<Rightarrow> parse_state" where
  "parse_line line s =
     (if fence_re line
      then s\<lparr>ps_in_fence := \<not> ps_in_fence s, ps_para_lines := ps_para_lines s @ [line]\<rparr>
      else if ps_in_fence s then s\<lparr>ps_para_lines := ps_para_lines s @ [line]\<rparr>
      else if section_heading_re line then (flush_section s)\<lparr>ps_heading := Some (rstrip line)\<rparr>
      else if strip line = [] then flush_paragraph s
      else s\<lparr>ps_para_lines := ps_para_lines s @ [line]\<rparr>)"

definition parse_sections :: "string \<Rightarrow> segment_section list" where
  "parse_sections body =
     ps_sections (flush_section (fold parse_line (split_on newline body) parse_start))"

definition section_units :: "segment_section \<Rightarrow> string list" where
  "section_units s =
     (case section_paragraphs s of
        [] \<Rightarrow> (case section_heading s of Some h \<Rightarrow> [h] | None \<Rightarrow> [])
      | p # ps \<Rightarrow>
          (case section_heading s of Some h \<Rightarrow> (h @ blank_line @ p) # ps | None \<Rightarrow> p # ps))"

text \<open>One turn of the inner loop of \<open>segment\<close>, on \<open>(chunks, buffer)\<close>.\<close>

definition merge_unit :: "int \<Rightarrow> string \<Rightarrow> string list \<times> string \<Rightarrow> string list \<times> string" where
  "merge_unit target unit_text cb =
     (let (chunks, buffer) = cb in
      if buffer = [] then (chunks, unit_text)
      else if int (length buffer) + 2 + int (length unit_text) \<le> target
      then (chunks, buffer @ blank_line @ unit_text)
      else (chunks @ [buffer], unit_text))"

definition segment_section_step :: "int \<Rightarrow> segment_section \<Rightarrow> string list \<Rightarrow> string list" where
  "segment_section_step target sec chunks =
     (let (chunks', buffer) = fold (merge_unit target) (section_units sec) (chunks, []) in
      if buffer \<noteq> [] then chunks' @ [buffer] else chunks')"

definition segment :: "string \<Rightarrow> int \<Rightarrow> chunk list" where
  "segment body target =
     map (\<lambda>(i, t). \<lparr>ordinal = i, chunk_text = t\<rparr>)
       (enumerate 0 (fold (segment_section_step target) (parse_sections body) []))"

section \<open>No word of the body is lost\<close>

definition heading_words :: "string option \<Rightarrow> string list" where
  "heading_words h = (case h of Some t \<Rightarrow> words_of t | None \<Rightarrow> [])"

definition section_words :: "segment_section \<Rightarrow> string list" where
  "section_words sec =
     heading_words (section_heading sec) @ concat (map words_of (section_paragraphs sec))"

definition state_words :: "parse_state \<Rightarrow> string list" where
  "state_words s = concat (map section_words (ps_sections s)) @ heading_words (ps_heading s)
     @ concat (map words_of (ps_paragraphs s)) @ concat (map words_of (ps_para_lines s))"

lemma flush_paragraph_words:
  "state_words (flush_paragraph s) = state_words s"
proof -
  have "words_of (strip (join [newline] (ps_para_lines s)))
      = concat (map words_of (ps_para_lines s))"
    by (simp add: words_of_join_space is_space_def)
  then show ?thesis
    by (cases "strip (join [newline] (ps_para_lines s)) = []")
      (auto simp: state_words_def flush_paragraph_def Let_def simp del: words_of_strip)
qed

lemma flush_paragraph_fields [simp]:
  "ps_para_lines (flush_paragraph s) = []" "ps_heading (flush_paragraph s) = ps_heading s"
  "ps_sections (flush_paragraph s) = ps_sections s" "ps_in_fence (flush_paragraph s) = ps_in_fence s"
  by (simp_all add: flush_paragraph_def Let_def)

lemma flush_section_fields [simp]:
  "ps_para_lines (flush_section s) = []" "ps_heading (flush_section s) = None"
  "ps_paragraphs (flush_section s) = []" "ps_in_fence (flush_section s) = ps_in_fence s"
  by (simp_all add: flush_section_def Let_def)

lemma flush_section_words:
  "concat (map section_words (ps_sections (flush_section s))) = state_words s"
  unfolding flush_paragraph_words [of s, symmetric]
  by (auto simp: flush_section_def Let_def state_words_def section_words_def heading_words_def)

lemma parse_line_words: "state_words (parse_line line s) = state_words s @ words_of line"
proof -
  have "strip line = [] \<Longrightarrow> words_of line = []"
    using words_of_strip [of line] by (simp del: words_of_strip)
  moreover have "state_words ((flush_section s)\<lparr>ps_heading := Some (rstrip line)\<rparr>)
      = state_words s @ words_of line"
    by (simp add: state_words_def [of "_\<lparr>ps_heading := _\<rparr>"] flush_section_words heading_words_def)
  ultimately show ?thesis
    by (auto simp: parse_line_def flush_paragraph_words) (simp_all add: state_words_def)
qed

lemma parse_sections_words: "concat (map section_words (parse_sections body)) = words_of body"
proof -
  have "state_words (fold parse_line ls s) = state_words s @ concat (map words_of ls)" for ls s
    by (induction ls arbitrary: s) (simp_all add: parse_line_words)
  moreover have "state_words parse_start = []"
    by (simp add: state_words_def parse_start_def heading_words_def)
  moreover have "concat (map words_of (split_on newline body)) = words_of body"
    using words_of_join_space [of "[newline]" "split_on newline body"]
    by (simp add: join_newline_split is_space_def)
  ultimately show ?thesis by (simp add: parse_sections_def flush_section_words)
qed

lemma words_of_blank_join: "words_of (a @ blank_line @ b) = words_of a @ words_of b"
  using words_of_append_blank [of "blank_line @ b" a] by (simp add: is_space_def)

lemma section_units_words: "concat (map words_of (section_units sec)) = section_words sec"
  using words_of_blank_join
  by (auto simp: section_units_def section_words_def heading_words_def split: list.splits option.splits)

lemma merge_units_words:
  "fold (merge_unit t) us (cs, b) = (cs', b') \<Longrightarrow>
   concat (map words_of cs') @ words_of b'
     = concat (map words_of cs) @ words_of b @ concat (map words_of us)"
proof (induction us arbitrary: cs b)
  case (Cons u us)
  then show ?case
    using words_of_blank_join [of b u] by (auto simp: merge_unit_def split: if_splits)
qed simp

lemma segment_section_step_words:
  "concat (map words_of (segment_section_step t sec cs))
     = concat (map words_of cs) @ section_words sec"
  using merge_units_words [of t "section_units sec" cs "[]"]
  by (auto simp: segment_section_step_def section_units_words split: prod.splits)

lemma segment_texts:
  "map chunk_text (segment body t) = fold (segment_section_step t) (parse_sections body) []"
  by (simp add: segment_def case_prod_unfold comp_def)

lemma segment_words:
  "concat (map words_of (map chunk_text (segment body t))) = words_of body"
proof -
  have "concat (map words_of (fold (segment_section_step t) secs cs))
      = concat (map words_of cs) @ concat (map section_words secs)" for secs cs
    by (induction secs arbitrary: cs) (simp_all add: segment_section_step_words)
  then show ?thesis unfolding segment_texts by (simp add: parse_sections_words)
qed

section \<open>Which lines are headings\<close>

fun heading_lines :: "bool \<Rightarrow> string list \<Rightarrow> string list" where
  "heading_lines fenced [] = []"
| "heading_lines fenced (line # ls) =
     (if fence_re line then heading_lines (\<not> fenced) ls
      else if \<not> fenced \<and> section_heading_re line then line # heading_lines fenced ls
      else heading_lines fenced ls)"

definition headings_of :: "segment_section list \<Rightarrow> string list" where
  "headings_of secs = List.map_filter section_heading secs"

definition state_headings :: "parse_state \<Rightarrow> string list" where
  "state_headings s = headings_of (ps_sections s) @ (case ps_heading s of Some h \<Rightarrow> [h] | None \<Rightarrow> [])"

lemma headings_of_append [simp]: "headings_of (xs @ ys) = headings_of xs @ headings_of ys"
  by (simp add: headings_of_def List.map_filter_def)

lemma flush_section_headings: "headings_of (ps_sections (flush_section s)) = state_headings s"
  by (auto simp: flush_section_def Let_def state_headings_def headings_of_def List.map_filter_def
      split: option.splits)

lemma flush_paragraph_headings [simp]: "state_headings (flush_paragraph s) = state_headings s"
  by (simp add: state_headings_def)

lemma parse_lines_headings:
  "state_headings (fold parse_line ls s)
     = state_headings s @ map rstrip (heading_lines (ps_in_fence s) ls)"
proof (induction ls arbitrary: s)
  case (Cons line ls)
  have "state_headings ((flush_section s)\<lparr>ps_heading := Some (rstrip line)\<rparr>)
      = state_headings s @ [rstrip line]"
    by (simp add: state_headings_def [of "_\<lparr>ps_heading := _\<rparr>"] flush_section_headings)
  moreover have "state_headings (s\<lparr>ps_para_lines := xs\<rparr>) = state_headings s"
    "state_headings (s\<lparr>ps_in_fence := f, ps_para_lines := xs\<rparr>) = state_headings s" for xs f
    by (simp_all add: state_headings_def)
  moreover have "fold parse_line (line # ls) s = fold parse_line ls (parse_line line s)" by simp
  ultimately show ?case by (simp only: Cons.IH) (simp add: parse_line_def)
qed simp

lemma parse_sections_headings:
  "headings_of (parse_sections body) = map rstrip (heading_lines False (split_on newline body))"
  by (simp add: parse_sections_def flush_section_headings parse_lines_headings)
    (simp add: state_headings_def parse_start_def headings_of_def List.map_filter_def)

section \<open>Units are never empty\<close>

definition section_ok :: "segment_section \<Rightarrow> bool" where
  "section_ok sec \<longleftrightarrow> section_heading sec \<noteq> Some [] \<and> [] \<notin> set (section_paragraphs sec)"

definition parse_ok :: "parse_state \<Rightarrow> bool" where
  "parse_ok s \<longleftrightarrow> list_all section_ok (ps_sections s) \<and> ps_heading s \<noteq> Some [] \<and>
     [] \<notin> set (ps_paragraphs s)"

lemma parse_ok_upd [simp]:
  "parse_ok (s\<lparr>ps_para_lines := xs\<rparr>) = parse_ok s" "parse_ok (s\<lparr>ps_in_fence := f\<rparr>) = parse_ok s"
  by (simp_all add: parse_ok_def)

lemma flush_paragraph_ok: "parse_ok s \<Longrightarrow> parse_ok (flush_paragraph s)"
  by (auto simp: parse_ok_def flush_paragraph_def Let_def)

lemma flush_section_ok: "parse_ok s \<Longrightarrow> parse_ok (flush_section s)"
  using flush_paragraph_ok [of s]
  by (auto simp: parse_ok_def [of "flush_section s"] flush_section_def Let_def section_ok_def)
    (auto simp: parse_ok_def section_ok_def)

lemma rstrip_heading: "section_heading_re line \<Longrightarrow> rstrip line \<noteq> []"
proof -
  assume "section_heading_re line"
  then have "\<not> list_all is_space line"
    by (auto simp: section_heading_re_def is_space_def split: list.splits)
  then show ?thesis using rstrip_split [of line] by auto
qed

lemma parse_line_ok: "parse_ok s \<Longrightarrow> parse_ok (parse_line line s)"
  using flush_paragraph_ok [of s] flush_section_ok [of s] rstrip_heading [of line]
  by (auto simp: parse_line_def) (simp_all add: parse_ok_def)

lemma parse_sections_ok: "list_all section_ok (parse_sections body)"
proof -
  have "parse_ok s \<Longrightarrow> parse_ok (fold parse_line ls s)" for ls s
    by (induction ls arbitrary: s) (simp_all add: parse_line_ok)
  moreover have "parse_ok parse_start" by (simp add: parse_ok_def parse_start_def)
  ultimately have "parse_ok (flush_section (fold parse_line (split_on newline body) parse_start))"
    by (intro flush_section_ok)
  then show ?thesis by (simp add: parse_ok_def parse_sections_def)
qed

lemma section_units_nonempty: "section_ok sec \<Longrightarrow> [] \<notin> set (section_units sec)"
  by (auto simp: section_units_def section_ok_def split: list.splits option.splits)

section \<open>The merge is the greedy grouping\<close>

text \<open>
  A grouping of a section's units is greedy when no group is empty, a group of several units fits
  the target, and the first unit of the next group would not have fitted.
\<close>

definition greedy_grouping :: "int \<Rightarrow> string list list \<Rightarrow> bool" where
  "greedy_grouping t gs \<longleftrightarrow>
     list_all (\<lambda>g. g \<noteq> [] \<and> (length g = 1 \<or> int (length (join blank_line g)) \<le> t)) gs \<and>
     successively (\<lambda>g h. t < int (length (join blank_line g)) + 2 + int (length (hd h))) gs"

lemma join_snoc: "g \<noteq> [] \<Longrightarrow> join sep (g @ [u]) = join sep g @ sep @ u"
  by (induction sep g rule: join.induct) auto

lemma join_nonempty: "g \<noteq> [] \<Longrightarrow> [] \<notin> set g \<Longrightarrow> join sep g \<noteq> []"
  by (induction sep g rule: join.induct) auto

lemma greedy_extend:
  assumes "greedy_grouping t (gs @ [g])"
    and "int (length (join blank_line g)) + 2 + int (length u) \<le> t"
  shows "greedy_grouping t (gs @ [g @ [u]])"
  using assms by (auto simp: greedy_grouping_def successively_append_iff join_snoc)

lemma greedy_open:
  assumes "greedy_grouping t (gs @ [g])"
    and "\<not> int (length (join blank_line g)) + 2 + int (length u) \<le> t"
  shows "greedy_grouping t (gs @ [g, [u]])"
  using assms by (auto simp: greedy_grouping_def successively_append_iff)

lemma merge_units_greedy:
  assumes "g \<noteq> []" and "[] \<notin> set g" and "[] \<notin> set us" and "greedy_grouping t (gs @ [g])"
  shows "\<exists>gs' g'. fold (merge_unit t) us (cs @ map (join blank_line) gs, join blank_line g)
           = (cs @ map (join blank_line) gs', join blank_line g') \<and> join blank_line g' \<noteq> [] \<and>
         greedy_grouping t (gs' @ [g']) \<and> concat (gs' @ [g']) = concat (gs @ [g]) @ us"
  using assms
proof (induction us arbitrary: gs g)
  case Nil
  then show ?case by (intro exI [of _ gs] exI [of _ g]) (simp add: join_nonempty)
next
  case (Cons u us)
  note ne = join_nonempty [OF Cons.prems(1,2), of blank_line]
  show ?case
  proof (cases "int (length (join blank_line g)) + 2 + int (length u) \<le> t")
    case True
    show ?thesis
      using Cons.IH [of "g @ [u]" gs] Cons.prems True ne
      by (simp add: merge_unit_def greedy_extend join_snoc)
  next
    case False
    show ?thesis
      using Cons.IH [of "[u]" "gs @ [g]"] Cons.prems False ne
      by (simp add: merge_unit_def greedy_open)
  qed
qed

lemma segment_section_step_greedy:
  assumes "[] \<notin> set (section_units sec)"
  shows "\<exists>gs. segment_section_step t sec cs = cs @ map (join blank_line) gs \<and>
           concat gs = section_units sec \<and> greedy_grouping t gs"
proof (cases "section_units sec")
  case Nil
  then show ?thesis
    by (intro exI [of _ "[]"]) (simp add: segment_section_step_def greedy_grouping_def)
next
  case (Cons u us)
  then have "u \<noteq> []" "[] \<notin> set us" using assms by auto
  then obtain gs g where
    "fold (merge_unit t) us (cs, u) = (cs @ map (join blank_line) gs, join blank_line g)"
    "join blank_line g \<noteq> []" "greedy_grouping t (gs @ [g])" "concat (gs @ [g]) = u # us"
    using merge_units_greedy [of "[u]" us t "[]" cs] by (auto simp: greedy_grouping_def)
  then show ?thesis
    by (intro exI [of _ "gs @ [g]"]) (simp add: segment_section_step_def Cons merge_unit_def)
qed

lemma segment_sections_greedy:
  assumes "list_all section_ok secs"
  shows "\<exists>gss. fold (segment_section_step t) secs cs = cs @ map (join blank_line) (concat gss) \<and>
           list_all2 (\<lambda>sec gs. concat gs = section_units sec \<and> greedy_grouping t gs) secs gss"
  using assms
proof (induction secs arbitrary: cs)
  case (Cons sec secs)
  obtain gs where gs: "segment_section_step t sec cs = cs @ map (join blank_line) gs"
    "concat gs = section_units sec" "greedy_grouping t gs"
    using segment_section_step_greedy [OF section_units_nonempty] Cons.prems by force
  obtain gss where "fold (segment_section_step t) secs (cs @ map (join blank_line) gs)
      = (cs @ map (join blank_line) gs) @ map (join blank_line) (concat gss)"
    "list_all2 (\<lambda>sec gs. concat gs = section_units sec \<and> greedy_grouping t gs) secs gss"
    using Cons.IH Cons.prems by fastforce
  with gs show ?case by (intro exI [of _ "gs # gss"]) simp
qed simp

lemma segment_ordinals: "map ordinal (segment body t) = [0..<length (segment body t)]"
  by (simp add: segment_def case_prod_unfold comp_def)

section \<open>Properties\<close>

text \<open>
  C36.  Segmentation loses no text, whatever the target: the words of the chunks, in the order of
  the chunks, are the words of the body, and the ordinals are \<open>0, 1, ...\<close>.
\<close>

theorem segment_lossless:
  "concat (map (\<lambda>c. words_of (chunk_text c)) (segment body t)) = words_of body \<and>
   map ordinal (segment body t) = [0..<length (segment body t)]"
  using segment_words [of body t] by (simp add: segment_ordinals comp_def)

text \<open>
  C37.  The chunks are, section by section, the greedy grouping of the section's units: a group
  never crosses a section, a chunk of several units is at most the target long (only a single unit
  makes a longer chunk), a chunk ends only where the next unit would not have fitted, and the
  sections' headings are the H2 and H3 lines outside the code fences.
\<close>

theorem segment_greedy:
  "(\<exists>gss. map chunk_text (segment body t) = map (join blank_line) (concat gss) \<and>
      list_all2 (\<lambda>sec gs. concat gs = section_units sec \<and> greedy_grouping t gs)
        (parse_sections body) gss) \<and>
   headings_of (parse_sections body) = map rstrip (heading_lines False (split_on newline body))"
  using segment_sections_greedy [OF parse_sections_ok [of body], where t = t and cs = "[]"]
  by (simp add: segment_texts parse_sections_headings)

end
