(* ===== verification/Frontmatter.thy ===== *)
theory Frontmatter
  imports Evidence
begin

text \<open>
  The frontmatter primitives of \<open>vaultfs/frontmatter.py\<close>, on character offsets as the code has them:
  the span of the YAML block, the span of one top-level field, the surgical replacement of a field,
  the jam repair and the assembly of a note.  \<open>yaml.safe_load\<close> is a parameter.  The lemmas read the
  offsets as lists of lines and show that the surgical edit changes its field and nothing else.
\<close>

section \<open>The code\<close>

abbreviation nl :: char where "nl \<equiv> CHR 0x0A"

definition FENCE :: string where "FENCE = ''---''"

definition text_slice :: "nat \<Rightarrow> nat \<Rightarrow> string \<Rightarrow> string" where
  "text_slice i j s = take (j - i) (drop i s)"

text \<open>\<open>text.find("\n", i, j)\<close>; \<open>None\<close> is the code's \<open>-1\<close>.\<close>

definition find_newline :: "string \<Rightarrow> nat \<Rightarrow> nat \<Rightarrow> nat option" where
  "find_newline s i j =
     (let line = takeWhile (\<lambda>c. c \<noteq> nl) (text_slice i j s)
      in if i + length line < min j (length s) then Some (i + length line) else None)"

datatype frontmatter_error = FrontmatterError string | FieldKeyError string

text \<open>The loop of \<open>_frontmatter_span\<close> over the lines after the opening fence.\<close>

function span_loop :: "string \<Rightarrow> nat \<Rightarrow> nat \<Rightarrow> (nat \<times> nat \<times> nat) option" where
  "span_loop s yaml_start idx =
     (if idx \<le> length s then
        (case find_newline s idx (length s) of
           None \<Rightarrow> if strip (drop idx s) = FENCE then Some (yaml_start, idx, length s) else None
         | Some line_end \<Rightarrow>
             if strip (text_slice idx line_end s) = FENCE then Some (yaml_start, idx, line_end + 1)
             else span_loop s yaml_start (line_end + 1))
      else None)"
  by pat_completeness auto
termination
  by (relation "measure (\<lambda>(s, y, idx). Suc (length s) - idx)")
    (auto simp: find_newline_def Let_def split: if_splits)

declare span_loop.simps [simp del]

definition frontmatter_span :: "string \<Rightarrow> (nat \<times> nat \<times> nat) option" where
  "frontmatter_span s =
     (if take (length FENCE) s \<noteq> FENCE then None
      else (case find_newline s 0 (length s) of
              None \<Rightarrow> None
            | Some first_nl \<Rightarrow>
                if strip (take first_nl s) \<noteq> FENCE then None
                else span_loop s (first_nl + 1) (first_nl + 1)))"

definition split_frontmatter :: "string \<Rightarrow> string \<times> string \<times> bool" where
  "split_frontmatter s =
     (case frontmatter_span s of
        None \<Rightarrow> ([], s, False)
      | Some (yaml_start, yaml_end, body_start) \<Rightarrow>
          (text_slice yaml_start yaml_end s, drop body_start s, True))"

text \<open>\<open>_FIELD_LINE_RE\<close>: \<open>^(?P<key>[A-Za-z0-9_-]+):\<close>, and the key it captures.\<close>

definition key_char :: "char \<Rightarrow> bool" where
  "key_char c \<longleftrightarrow> ascii_alnum c \<or> c = CHR ''_'' \<or> c = CHR ''-''"

definition field_key :: "string \<Rightarrow> string option" where
  "field_key line =
     (let key = takeWhile key_char line; rest = dropWhile key_char line
      in if key \<noteq> [] \<and> rest \<noteq> [] \<and> hd rest = CHR '':'' then Some key else None)"

definition line_end_in :: "string \<Rightarrow> nat \<Rightarrow> nat \<Rightarrow> nat" where
  "line_end_in s idx yaml_end = (case find_newline s idx yaml_end of Some e \<Rightarrow> e | None \<Rightarrow> yaml_end)"

text \<open>The first loop of \<open>_field_span\<close>: where the field starts, and the offset after its first line.\<close>

function find_field :: "string \<Rightarrow> string \<Rightarrow> nat \<Rightarrow> nat \<Rightarrow> (nat \<times> nat) option" where
  "find_field s field idx yaml_end =
     (if idx < yaml_end then
        (let line_end = line_end_in s idx yaml_end in
         if field_key (text_slice idx line_end s) = Some field
         then Some (idx, min (line_end + 1) yaml_end)
         else find_field s field (line_end + 1) yaml_end)
      else None)"
  by pat_completeness auto
termination
  by (relation "measure (\<lambda>(s, f, idx, e). e - idx)")
    (auto simp: line_end_in_def find_newline_def Let_def split: option.splits if_splits)

declare find_field.simps [simp del]

text \<open>The second loop: past the blank, indented and list lines that continue the field.\<close>

definition continuation_line :: "string \<Rightarrow> bool" where
  "continuation_line line \<longleftrightarrow>
     strip line = [] \<or> hd line \<in> {CHR '' '', CHR 0x09, CHR ''-''}"

function skip_continuation :: "string \<Rightarrow> nat \<Rightarrow> nat \<Rightarrow> nat" where
  "skip_continuation s idx yaml_end =
     (if idx < yaml_end then
        (let line_end = line_end_in s idx yaml_end in
         if continuation_line (text_slice idx line_end s)
         then skip_continuation s (min (line_end + 1) yaml_end) yaml_end
         else idx)
      else idx)"
  by pat_completeness auto
termination
  by (relation "measure (\<lambda>(s, idx, e). e - idx)")
    (auto simp: line_end_in_def find_newline_def Let_def split: option.splits if_splits)

declare skip_continuation.simps [simp del]

definition field_span :: "string \<Rightarrow> string \<Rightarrow> frontmatter_error + nat \<times> nat" where
  "field_span s field =
     (case frontmatter_span s of
        None \<Rightarrow> Inl (FrontmatterError ''note has no frontmatter fences'')
      | Some (yaml_start, yaml_end, _) \<Rightarrow>
          (case find_field s field yaml_start yaml_end of
             None \<Rightarrow> Inl (FieldKeyError field)
           | Some (start, idx) \<Rightarrow> Inr (start, skip_continuation s idx yaml_end)))"

definition extract_field_block :: "string \<Rightarrow> string \<Rightarrow> frontmatter_error + string" where
  "extract_field_block s field =
     rbind (field_span s field) (\<lambda>(i, j). Inr (text_slice i j s))"

definition with_newline :: "string \<Rightarrow> string" where
  "with_newline block = (if block \<noteq> [] \<and> last block = nl then block else block @ [nl])"

definition surgical_replace_field :: "string \<Rightarrow> string \<Rightarrow> string \<Rightarrow> frontmatter_error + string" where
  "surgical_replace_field s field new_block =
     rbind (field_span s field) (\<lambda>(i, j). Inr (take i s @ with_newline new_block @ drop j s))"

definition join_frontmatter :: "string \<Rightarrow> string \<Rightarrow> string" where
  "join_frontmatter yaml body =
     FENCE @ [nl] @ (if yaml = [] then [] else with_newline yaml) @ FENCE @ [nl] @ body"

text \<open>
  \<open>repair_yaml\<close>.  \<open>jam_parts\<close> is a match of \<open>_JAM_LINE_RE\<close>: indentation, key, and the value after
  \<open>:\<close> and one blank or tab; \<open>.\<close> matches every character of a line.
\<close>

definition jam_parts :: "string \<Rightarrow> (string \<times> string \<times> string) option" where
  "jam_parts line =
     (let indent = takeWhile is_space line; rest = dropWhile is_space line;
          key = takeWhile key_char rest
      in case dropWhile key_char rest of
           c # b # v # vs \<Rightarrow>
             if key \<noteq> [] \<and> c = CHR '':'' \<and> (b = CHR '' '' \<or> b = CHR 0x09)
             then Some (indent, key, v # vs) else None
         | _ \<Rightarrow> None)"

fun has_infix :: "string \<Rightarrow> string \<Rightarrow> bool" where
  "has_infix pat [] = (pat = [])"
| "has_infix pat (c # cs) = (take (length pat) (c # cs) = pat \<or> has_infix pat cs)"

definition dquote_char :: char where "dquote_char = CHR 0x22"

definition escape_value :: "string \<Rightarrow> string" where
  "escape_value v = concat (map (\<lambda>c. if c = backslash then [backslash, backslash]
     else if c = dquote_char then [backslash, dquote_char] else [c]) v)"

definition left_alone :: "string \<Rightarrow> bool" where
  "left_alone v \<longleftrightarrow> \<not> has_infix '': '' v \<or>
     hd v \<in> {dquote_char, CHR 0x27, CHR ''['', CHR ''{'', CHR ''|'', CHR ''>'', CHR ''&'', CHR ''*''} \<or>
     take 2 v = ''- '' \<or> take 1 v = ''#''"

definition repair_line :: "string \<Rightarrow> string" where
  "repair_line line =
     (case jam_parts line of
        None \<Rightarrow> line
      | Some (indent, key, v) \<Rightarrow>
          if left_alone (rstrip v) then line
          else indent @ key @ '': '' @ [dquote_char] @ escape_value (rstrip v) @ [dquote_char])"

definition repair_yaml :: "string \<Rightarrow> string" where
  "repair_yaml s = join [nl] (map repair_line (split_on nl s))"

datatype 'd yaml_value = YamlNone | YamlMapping 'd | YamlOther string

text \<open>\<open>parse_frontmatter\<close> with the loader of the YAML library; \<open>no_fields\<close> is the empty mapping.\<close>

definition parse_frontmatter ::
  "(string \<Rightarrow> string + 'd yaml_value) \<Rightarrow> 'd \<Rightarrow> string \<Rightarrow> frontmatter_error + 'd \<times> string" where
  "parse_frontmatter load no_fields s =
     (let (yaml, body, had) = split_frontmatter s in
      if \<not> had then Inl (FrontmatterError ''note has no frontmatter fences'')
      else rbind
        (case load yaml of
           Inr v \<Rightarrow> Inr v
         | Inl e \<Rightarrow>
             (let repaired = repair_yaml yaml in
              if repaired = yaml then Inl (FrontmatterError (''unparseable frontmatter: '' @ e))
              else (case load repaired of
                      Inr v \<Rightarrow> Inr v
                    | Inl e2 \<Rightarrow> Inl (FrontmatterError (''unparseable frontmatter after repair: '' @ e2)))))
        (\<lambda>v. case v of
           YamlNone \<Rightarrow> Inr (no_fields, body)
         | YamlMapping d \<Rightarrow> Inr (d, body)
         | YamlOther t \<Rightarrow> Inl (FrontmatterError (''frontmatter is '' @ t @ '', expected mapping''))))"

section \<open>Offsets as lines\<close>

definition unlines :: "string list \<Rightarrow> string" where
  "unlines ls = concat (map (\<lambda>l. l @ [nl]) ls)"

definition lines_ok :: "string list \<Rightarrow> bool" where
  "lines_ok ls \<longleftrightarrow> (\<forall>l \<in> set ls. nl \<notin> set l)"

lemma unlines_simps [simp]:
  "unlines [] = []" "unlines (l # ls) = l @ nl # unlines ls" "unlines (xs @ ys) = unlines xs @ unlines ys"
  by (simp_all add: unlines_def)

lemma lines_ok_simps [simp]:
  "lines_ok []" "lines_ok (l # ls) \<longleftrightarrow> nl \<notin> set l \<and> lines_ok ls"
  "lines_ok (xs @ ys) \<longleftrightarrow> lines_ok xs \<and> lines_ok ys"
  by (auto simp: lines_ok_def)

lemma take_to_newline: "nl \<notin> set l \<Longrightarrow> takeWhile (\<lambda>c. c \<noteq> nl) (l @ nl # r) = l"
  by (induction l) auto

lemma find_newline_here:
  assumes "nl \<notin> set l" and "length pre + length l < j" and "j \<le> length (pre @ l @ nl # post)"
  shows "find_newline (pre @ l @ nl # post) (length pre) j = Some (length pre + length l)"
proof -
  obtain k where k: "j - length pre = length l + Suc k" using assms(2) by (metis less_imp_Suc_add add_Suc_right diff_add_inverse add.assoc)
  then have "text_slice (length pre) j (pre @ l @ nl # post) = l @ nl # take k post"
    by (simp add: text_slice_def)
  with assms show ?thesis by (simp add: find_newline_def take_to_newline Let_def)
qed

lemma find_newline_none:
  assumes "nl \<notin> set l"
  shows "find_newline (pre @ l) (length pre) (length (pre @ l)) = None"
proof -
  have "takeWhile (\<lambda>c. c \<noteq> nl) l = l" using assms by (auto intro: takeWhile_eq_all_conv [THEN iffD2])
  then show ?thesis by (simp add: find_newline_def text_slice_def Let_def del: takeWhile_eq_all_conv)
qed

lemma slice_line: "text_slice (length pre) (length pre + length l) (pre @ l @ post) = l"
  by (simp add: text_slice_def)

text \<open>The text from an offset on, up to the next newline.\<close>

lemma line_cases:
  assumes "idx \<le> length s"
  obtains (last) l where "drop idx s = l" "nl \<notin> set l" "find_newline s idx (length s) = None"
  | (line) l r where "drop idx s = l @ nl # r" "nl \<notin> set l"
      "find_newline s idx (length s) = Some (idx + length l)" "text_slice idx (idx + length l) s = l"
proof -
  obtain pre where pre: "s = pre @ drop idx s" "length pre = idx"
    using assms by (metis append_take_drop_id length_take min.absorb2)
  obtain l r where lr: "drop idx s = l @ r" "list_all (\<lambda>c. c \<noteq> nl) l" "r = [] \<or> hd r = nl"
    using span_split [of "drop idx s" "\<lambda>c. c \<noteq> nl"] by auto
  have l: "nl \<notin> set l" using lr(2) by (auto simp: list_all_iff)
  show thesis
  proof (cases r)
    case Nil
    then show thesis using last [OF lr(1)] find_newline_none [OF l, of pre] pre lr(1) l by simp
  next
    case (Cons c r')
    then have d: "drop idx s = l @ nl # r'" using lr by simp
    then have s: "s = pre @ l @ nl # r'" using pre(1) by simp
    have "find_newline s idx (length s) = Some (idx + length l)"
      unfolding s using find_newline_here [OF l, of pre "length (pre @ l @ nl # r')" r'] pre(2) by simp
    moreover have "text_slice idx (idx + length l) s = l"
      using slice_line [of pre l "nl # r'"] by (simp add: s pre(2))
    ultimately show thesis using line [OF d l] by blast
  qed
qed

text \<open>A closing fence: the line that ends the YAML block, and what follows it.\<close>

definition closes :: "string \<Rightarrow> string \<Rightarrow> bool" where
  "closes fence rest \<longleftrightarrow> nl \<notin> set fence \<and> strip fence = FENCE \<and> (rest = [] \<or> hd rest = nl)"

definition yaml_lines :: "string list \<Rightarrow> bool" where
  "yaml_lines ls \<longleftrightarrow> lines_ok ls \<and> (\<forall>l \<in> set ls. strip l \<noteq> FENCE)"

lemma span_loop_lines:
  assumes "yaml_lines ls" and "closes fence rest"
  shows "span_loop (pre @ unlines ls @ fence @ rest) y (length pre) =
    Some (y, length pre + length (unlines ls), length pre + length (unlines ls) + length fence + min 1 (length rest))"
  using assms(1)
proof (induction ls arbitrary: pre)
  case Nil
  have f: "nl \<notin> set fence" "strip fence = FENCE" using assms(2) by (simp_all add: closes_def)
  show ?case
  proof (cases rest)
    case Nil
    then show ?thesis using f find_newline_none [OF f(1), of pre] by (simp add: span_loop.simps)
  next
    case (Cons c r)
    then have "rest = nl # r" using assms(2) by (simp add: closes_def)
    then show ?thesis
      using f find_newline_here [OF f(1), of pre "length (pre @ fence @ nl # r)" r] slice_line [of pre fence "nl # r"]
      by (simp add: span_loop.simps)
  qed
next
  case (Cons l ls)
  let ?post = "unlines ls @ fence @ rest"
  have l: "nl \<notin> set l" "strip l \<noteq> FENCE" "yaml_lines ls" using Cons.prems by (auto simp: yaml_lines_def)
  have "span_loop (pre @ l @ nl # ?post) y (length pre) = span_loop ((pre @ l @ [nl]) @ ?post) y (length (pre @ l @ [nl]))"
    using find_newline_here [OF l(1), of pre "length (pre @ l @ nl # ?post)" ?post] slice_line [of pre l "nl # ?post"] l(2)
    by (subst span_loop.simps) simp
  with Cons.IH [OF l(3), of "pre @ l @ [nl]"] show ?case by simp
qed

lemma span_loop_Some:
  assumes "span_loop s y idx = Some (a, b, c)"
  shows "a = y \<and> idx \<le> length s \<and> (\<exists>ls fence rest. drop idx s = unlines ls @ fence @ rest \<and> yaml_lines ls \<and> closes fence rest)"
  using assms
proof (induction s y idx rule: span_loop.induct)
  case (1 s y idx)
  then have idx: "idx \<le> length s" by (auto simp: span_loop.simps [of s y idx] split: if_splits)
  from idx show ?case
  proof (cases rule: line_cases)
    case (last l)
    then have "a = y" "strip l = FENCE"
      using 1(2) idx by (auto simp: span_loop.simps [of s y idx] split: if_splits)
    then show ?thesis using last idx
      by (intro conjI exI [of _ "[]"] exI [of _ l]) (auto simp: yaml_lines_def closes_def)
  next
    case (line l r)
    show ?thesis
    proof (cases "strip l = FENCE")
      case True
      then show ?thesis using line 1(2) idx
        by (intro conjI exI [of _ "[]"] exI [of _ l] exI [of _ "nl # r"])
          (auto simp: span_loop.simps [of s y idx] yaml_lines_def closes_def)
    next
      case False
      then have "span_loop s y (idx + length l + 1) = Some (a, b, c)"
        using line 1(2) idx by (simp add: span_loop.simps [of s y idx])
      with 1(1) [OF idx line(3)] False line(4) obtain ls fence rest
        where "a = y" "drop (idx + length l + 1) s = unlines ls @ fence @ rest" "yaml_lines ls" "closes fence rest"
        by auto
      moreover have "drop idx s = l @ nl # drop (idx + length l + 1) s"
      proof -
        have "drop (idx + length l + 1) s = drop (length l + 1) (drop idx s)" by (simp add: add.commute add.left_commute)
        then show ?thesis by (simp add: line(1))
      qed
      ultimately show ?thesis using idx line(2) False
        by (intro conjI exI [of _ "l # ls"] exI [of _ fence] exI [of _ rest]) (auto simp: yaml_lines_def)
    qed
  qed
qed

text \<open>
  A note in lines: the opening line, the lines of the YAML block, the closing fence and the rest.
\<close>

definition note_text :: "string \<Rightarrow> string list \<Rightarrow> string \<Rightarrow> string \<Rightarrow> string" where
  "note_text opening ls fence rest = opening @ nl # unlines ls @ fence @ rest"

definition note_ok :: "string \<Rightarrow> string list \<Rightarrow> string \<Rightarrow> string \<Rightarrow> bool" where
  "note_ok opening ls fence rest \<longleftrightarrow> nl \<notin> set opening \<and> strip opening = FENCE \<and>
     take 3 opening = FENCE \<and> yaml_lines ls \<and> closes fence rest"

lemma fence_length [simp]: "length FENCE = 3"
  by (simp add: FENCE_def)

lemma frontmatter_span_lines:
  assumes "note_ok opening ls fence rest"
  shows "frontmatter_span (note_text opening ls fence rest) =
    (let a = length opening + 1; b = a + length (unlines ls) in Some (a, b, b + length fence + min 1 (length rest)))"
proof -
  have o: "nl \<notin> set opening" "strip opening = FENCE" "take 3 opening = FENCE" "yaml_lines ls" "closes fence rest"
    using assms by (simp_all add: note_ok_def)
  have "length (take 3 opening) = 3" unfolding o(3) by (simp add: FENCE_def)
  then have len: "3 \<le> length opening" by simp
  have "find_newline (note_text opening ls fence rest) 0 (length (note_text opening ls fence rest)) = Some (length opening)"
    using find_newline_here [OF o(1), of "[]" _ "unlines ls @ fence @ rest"] by (simp add: note_text_def)
  moreover have "span_loop (note_text opening ls fence rest) (length opening + 1) (length opening + 1) =
      (let a = length opening + 1; b = a + length (unlines ls) in Some (a, b, b + length fence + min 1 (length rest)))"
    using span_loop_lines [OF o(4,5), of "opening @ [nl]"] by (simp add: note_text_def Let_def)
  ultimately show ?thesis
    using o len by (simp add: frontmatter_span_def note_text_def)
qed

lemma frontmatter_span_Some:
  assumes "frontmatter_span s = Some bounds"
  shows "\<exists>opening ls fence rest. s = note_text opening ls fence rest \<and> note_ok opening ls fence rest"
proof -
  obtain n where pre: "take 3 s = FENCE" and n: "find_newline s 0 (length s) = Some n" "strip (take n s) = FENCE"
    "span_loop s (n + 1) (n + 1) = Some bounds"
    using assms by (auto simp: frontmatter_span_def split: if_splits option.splits)
  have "(0::nat) \<le> length s" by simp
  then obtain l r where l: "drop 0 s = l @ nl # r" "nl \<notin> set l" "n = length l"
    by (cases rule: line_cases) (use n(1) in auto)
  then have s: "s = l @ nl # r" by simp
  obtain a b c where abc: "bounds = (a, b, c)" by (cases bounds) auto
  obtain ls fence rest where rest: "drop (n + 1) s = unlines ls @ fence @ rest" "yaml_lines ls" "closes fence rest"
    using span_loop_Some [OF n(3) [unfolded abc]] by auto
  have "strip l = FENCE" using n(2) s l(3) by simp
  have "3 \<le> length l"
  proof (rule ccontr)
    assume "\<not> 3 \<le> length l"
    then have "nl \<in> set (take 3 s)" unfolding s by (cases "3 - length l") auto
    then show False unfolding pre by (simp add: FENCE_def)
  qed
  then have "take 3 l = FENCE" using pre s by simp
  with l rest s \<open>strip l = FENCE\<close> show ?thesis
    by (intro exI [of _ l] exI [of _ ls] exI [of _ fence] exI [of _ rest]) (simp add: note_text_def note_ok_def)
qed

section \<open>Fields as lines\<close>

definition no_key :: "string \<Rightarrow> string \<Rightarrow> bool" where
  "no_key field l \<longleftrightarrow> field_key l \<noteq> Some field"

text \<open>The lines of a field, by their line list: its first line and the continuation lines after it.\<close>

definition field_lines :: "string \<Rightarrow> string list \<Rightarrow> string list option" where
  "field_lines field ls = (case dropWhile (no_key field) ls of
     [] \<Rightarrow> None | l # r \<Rightarrow> Some (l # takeWhile continuation_line r))"

lemma line_end_lines:
  assumes "nl \<notin> set l" and "e = length pre + length (unlines (l # ls))"
  shows "line_end_in (pre @ l @ nl # unlines ls @ post) (length pre) e = length pre + length l"
proof -
  have "find_newline (pre @ l @ nl # (unlines ls @ post)) (length pre) e = Some (length pre + length l)"
    using assms by (intro find_newline_here) simp_all
  then show ?thesis by (simp add: line_end_in_def)
qed

lemma find_field_lines:
  assumes "lines_ok ls" and "e = length pre + length (unlines ls)"
  shows "find_field (pre @ unlines ls @ post) field (length pre) e =
    (let before = takeWhile (no_key field) ls in
     case dropWhile (no_key field) ls of
       [] \<Rightarrow> None
     | l # r \<Rightarrow> Some (length pre + length (unlines before), length pre + length (unlines before) + length l + 1))"
  using assms
proof (induction ls arbitrary: pre)
  case Nil
  then show ?case by (simp add: find_field.simps)
next
  case (Cons l ls)
  have l: "nl \<notin> set l" "lines_ok ls" using Cons.prems(1) by simp_all
  note le = line_end_lines [OF l(1) Cons.prems(2), of post]
  have s: "pre @ unlines (l # ls) @ post = pre @ l @ nl # unlines ls @ post" by simp
  show ?case
  proof (cases "field_key l = Some field")
    case True
    then show ?thesis unfolding s using le slice_line [of pre l] Cons.prems(2)
      by (subst find_field.simps) (simp add: no_key_def Let_def)
  next
    case False
    have "find_field (pre @ unlines (l # ls) @ post) field (length pre) e
        = find_field ((pre @ l @ [nl]) @ unlines ls @ post) field (length (pre @ l @ [nl])) e"
      unfolding s using le slice_line [of pre l] Cons.prems(2) False
      by (subst find_field.simps) (simp add: Let_def)
    moreover note Cons.IH [OF l(2), of "pre @ l @ [nl]"]
    moreover have "no_key field l" using False by (simp add: no_key_def)
    ultimately show ?thesis
      using Cons.prems(2)
      by (cases "dropWhile (no_key field) ls") (simp_all add: Let_def del: dropWhile_eq_Nil_conv)
  qed
qed

lemma skip_continuation_lines:
  assumes "lines_ok ls" and "e = length pre + length (unlines ls)"
  shows "skip_continuation (pre @ unlines ls @ post) (length pre) e =
    length pre + length (unlines (takeWhile continuation_line ls))"
  using assms
proof (induction ls arbitrary: pre)
  case Nil
  then show ?case by (simp add: skip_continuation.simps)
next
  case (Cons l ls)
  have l: "nl \<notin> set l" "lines_ok ls" using Cons.prems(1) by simp_all
  note le = line_end_lines [OF l(1) Cons.prems(2), of post]
  have s: "pre @ unlines (l # ls) @ post = pre @ l @ nl # unlines ls @ post" by simp
  show ?case
  proof (cases "continuation_line l")
    case False
    then show ?thesis unfolding s using le slice_line [of pre l] Cons.prems(2)
      by (subst skip_continuation.simps) (simp add: Let_def)
  next
    case True
    have "skip_continuation (pre @ unlines (l # ls) @ post) (length pre) e
        = skip_continuation ((pre @ l @ [nl]) @ unlines ls @ post) (length (pre @ l @ [nl])) e"
      unfolding s using le slice_line [of pre l] Cons.prems(2) True
      by (subst skip_continuation.simps) (simp add: Let_def)
    also note Cons.IH [OF l(2), of "pre @ l @ [nl]"]
    finally show ?thesis using Cons.prems(2) True by simp
  qed
qed

lemma field_span_lines:
  assumes ok: "note_ok opening ls fence rest"
  shows "field_span (note_text opening ls fence rest) field =
    (let before = takeWhile (no_key field) ls; a = length opening + 1 + length (unlines before) in
     case field_lines field ls of
       None \<Rightarrow> Inl (FieldKeyError field)
     | Some block \<Rightarrow> Inr (a, a + length (unlines block)))"
proof -
  have ls: "lines_ok ls" using ok by (simp add: note_ok_def yaml_lines_def)
  let ?before = "takeWhile (no_key field) ls"
  have whole: "note_text opening ls fence rest = (opening @ [nl]) @ unlines ls @ (fence @ rest)"
    by (simp add: note_text_def)
  note find = find_field_lines [OF ls, of "length opening + 1 + length (unlines ls)" "opening @ [nl]" "fence @ rest" field]
  show ?thesis
  proof (cases "dropWhile (no_key field) ls")
    case Nil
    then show ?thesis
      unfolding field_span_def frontmatter_span_lines [OF ok] Let_def
      using find by (simp add: whole field_lines_def Let_def del: dropWhile_eq_Nil_conv)
  next
    case (Cons l r)
    have split: "ls = ?before @ l # r" using Cons takeWhile_dropWhile_id [of "no_key field" ls] by simp
    then have r: "lines_ok r" using ls by (metis lines_ok_simps(2,3))
    have "unlines ls = unlines ?before @ l @ nl # unlines r"
      using arg_cong [OF split, of unlines] by (simp only: unlines_simps)
    then have t: "note_text opening ls fence rest =
        (opening @ [nl] @ unlines ?before @ l @ [nl]) @ unlines r @ (fence @ rest)"
      and e: "length opening + 1 + length (unlines ls)
        = length (opening @ [nl] @ unlines ?before @ l @ [nl]) + length (unlines r)"
      by (simp_all add: note_text_def)
    let ?e = "length opening + 1 + length (unlines ls)"
    let ?i = "length opening + 1 + length (unlines ?before) + length l + 1"
    have i: "length (opening @ [nl] @ unlines ?before @ l @ [nl]) = ?i" by simp
    have skip: "skip_continuation (note_text opening ls fence rest) ?i ?e = ?i + length (unlines (takeWhile continuation_line r))"
      using skip_continuation_lines [OF r e, of "fence @ rest"] unfolding t [symmetric] i .
    have find: "find_field (note_text opening ls fence rest) field (length opening + 1) ?e
        = Some (length opening + 1 + length (unlines ?before), ?i)"
      using find Cons unfolding whole by (simp add: Let_def)
    show ?thesis
      unfolding field_span_def frontmatter_span_lines [OF ok] Let_def option.case prod.case find skip
      using Cons by (simp add: field_lines_def)
  qed
qed

section \<open>The operations as lines\<close>

definition after_field :: "string \<Rightarrow> string list \<Rightarrow> string list" where
  "after_field field ls = dropWhile continuation_line (tl (dropWhile (no_key field) ls))"

lemma field_lines_split:
  assumes "field_lines field ls = Some block"
  shows "ls = takeWhile (no_key field) ls @ block @ after_field field ls"
proof -
  obtain l r where lr: "dropWhile (no_key field) ls = l # r" "block = l # takeWhile continuation_line r"
    using assms by (auto simp: field_lines_def split: list.splits)
  have "l # r = block @ after_field field ls" by (simp add: lr after_field_def)
  then show ?thesis using takeWhile_dropWhile_id [of "no_key field" ls] lr(1) by simp
qed

lemma split_lines:
  assumes "note_ok opening ls fence rest"
  shows "split_frontmatter (note_text opening ls fence rest) = (unlines ls, drop 1 rest, True)"
proof -
  have "drop (min 1 (length rest)) rest = drop 1 rest" by (cases rest) simp_all
  then show ?thesis
    unfolding split_frontmatter_def frontmatter_span_lines [OF assms] Let_def
    by (simp add: note_text_def text_slice_def)
qed

lemma extract_lines:
  assumes "note_ok opening ls fence rest"
  shows "extract_field_block (note_text opening ls fence rest) field =
    (case field_lines field ls of None \<Rightarrow> Inl (FieldKeyError field) | Some block \<Rightarrow> Inr (unlines block))"
proof (cases "field_lines field ls")
  case None
  then show ?thesis by (simp add: extract_field_block_def field_span_lines [OF assms] Let_def)
next
  case (Some block)
  let ?pre = "opening @ [nl] @ unlines (takeWhile (no_key field) ls)"
  let ?post = "unlines (after_field field ls) @ fence @ rest"
  have t: "note_text opening ls fence rest = ?pre @ unlines block @ ?post"
    using arg_cong [OF field_lines_split [OF Some], of unlines] by (simp add: note_text_def)
  have n: "length opening + 1 + length (unlines (takeWhile (no_key field) ls)) = length ?pre" by simp
  show ?thesis
    unfolding extract_field_block_def field_span_lines [OF assms] Let_def Some option.case rbind_simps prod.case n
    unfolding t by (simp only: slice_line)
qed

lemma surgical_lines:
  assumes "note_ok opening ls fence rest" and "field_lines field ls = Some block"
    and "with_newline new = unlines nb"
  shows "surgical_replace_field (note_text opening ls fence rest) field new =
    Inr (note_text opening (takeWhile (no_key field) ls @ nb @ after_field field ls) fence rest)"
proof -
  let ?pre = "opening @ [nl] @ unlines (takeWhile (no_key field) ls)"
  let ?post = "unlines (after_field field ls) @ fence @ rest"
  have t: "note_text opening ls fence rest = ?pre @ unlines block @ ?post"
    using arg_cong [OF field_lines_split [OF assms(2)], of unlines] by (simp add: note_text_def)
  have n: "length opening + 1 + length (unlines (takeWhile (no_key field) ls)) = length ?pre" by simp
  have "surgical_replace_field (note_text opening ls fence rest) field new = Inr (?pre @ unlines nb @ ?post)"
    unfolding surgical_replace_field_def field_span_lines [OF assms(1)] Let_def assms(2,3) option.case rbind_simps
      prod.case n
    unfolding t by simp
  then show ?thesis by (simp add: note_text_def)
qed

text \<open>What a new block must be: the field's line, then only lines that continue it, and no fence.\<close>

definition block_ok :: "string \<Rightarrow> string list \<Rightarrow> bool" where
  "block_ok field block \<longleftrightarrow> block \<noteq> [] \<and> yaml_lines block \<and> field_key (hd block) = Some field \<and>
     list_all continuation_line (tl block)"

definition top_level :: "string \<Rightarrow> bool" where
  "top_level field \<longleftrightarrow> field \<noteq> [] \<and> hd field \<noteq> CHR ''-''"

lemma key_char_not_space: "key_char c \<Longrightarrow> \<not> is_space c"
  by (auto simp: key_char_def ascii_alnum_def is_space_def Let_def)

lemma field_key_Some: "field_key l = Some f \<Longrightarrow> l \<noteq> [] \<and> f \<noteq> [] \<and> hd l = hd f \<and> key_char (hd l)"
  by (cases l) (auto simp: field_key_def Let_def split: if_splits)

lemma strip_empty:
  assumes "strip l = []" and "l \<noteq> []" shows "is_space (hd l)"
proof (rule ccontr)
  assume "\<not> is_space (hd l)"
  then have "dropWhile is_space l = l" using assms(2) by (cases l) simp_all
  then have "dropWhile is_space (rev l) = []" using assms(1) by (simp add: strip_def del: dropWhile_eq_Nil_conv)
  with assms(2) \<open>\<not> is_space (hd l)\<close> show False by (auto simp: dropWhile_eq_Nil_conv)
qed

lemma continuation_no_key:
  assumes "continuation_line l" and "top_level g"
  shows "no_key g l"
proof (rule ccontr)
  assume "\<not> no_key g l"
  then have k: "field_key l = Some g" by (simp add: no_key_def)
  note f = field_key_Some [OF k]
  have "hd l \<noteq> CHR ''-''" using f assms(2) by (simp add: top_level_def)
  moreover have "\<not> is_space (hd l)" using f key_char_not_space by blast
  moreover have "strip l \<noteq> []" using f strip_empty \<open>\<not> is_space (hd l)\<close> by blast
  ultimately show False using assms(1) f by (auto simp: continuation_line_def key_char_def ascii_alnum_def)
qed

lemma no_key_other: "field_key l = Some f \<Longrightarrow> g \<noteq> f \<Longrightarrow> no_key g l"
  by (simp add: no_key_def)

lemma key_no_continuation: "field_key l = Some f \<Longrightarrow> top_level f \<Longrightarrow> \<not> continuation_line l"
  using continuation_no_key by (auto simp: no_key_def)

text \<open>A field's lines survive the replacement of another field's.\<close>

lemma field_lines_skip:
  assumes "block_ok f block" and "top_level g" and "g \<noteq> f"
  shows "field_lines g (block @ r) = field_lines g r"
proof -
  obtain l cont where b: "block = l # cont" using assms(1) by (cases block) (auto simp: block_ok_def)
  then have "no_key g l" and "list_all (no_key g) cont"
    using assms no_key_other continuation_no_key by (auto simp: block_ok_def list_all_iff)
  then have "dropWhile (no_key g) (block @ r) = dropWhile (no_key g) r"
    using b by (simp add: list_all_iff dropWhile_append)
  then show ?thesis by (simp add: field_lines_def)
qed

lemma continuation_stops: "\<not> continuation_line x \<Longrightarrow>
  takeWhile continuation_line (ys @ x # r) = takeWhile continuation_line ys"
  by (induction ys) simp_all

lemma field_lines_replace:
  assumes "block_ok f old" and "block_ok f new" and "top_level f" and "top_level g" and "g \<noteq> f"
  shows "field_lines g (before @ old @ r) = field_lines g (before @ new @ r)"
proof (induction before)
  case Nil
  then show ?case using assms field_lines_skip by simp
next
  case (Cons x before)
  obtain l cont l' cont' where b: "old = l # cont" "new = l' # cont'"
    using assms(1,2) by (cases old; cases new) (auto simp: block_ok_def)
  then have "\<not> continuation_line l" "\<not> continuation_line l'"
    using assms(1-3) key_no_continuation by (auto simp: block_ok_def)
  then have "takeWhile continuation_line (before @ old @ r) = takeWhile continuation_line (before @ new @ r)"
    using b by (simp add: continuation_stops)
  with Cons.IH show ?case by (cases "no_key g x") (simp_all add: field_lines_def)
qed

lemma field_lines_old:
  assumes "field_lines field ls = Some block" and "yaml_lines ls"
  shows "block_ok field block" and "list_all (no_key field) (takeWhile (no_key field) ls)"
proof -
  obtain l r where lr: "dropWhile (no_key field) ls = l # r" "block = l # takeWhile continuation_line r"
    using assms by (auto simp: field_lines_def split: list.splits)
  have "\<not> no_key field l" using lr(1) by (metis dropWhile_eq_Cons_conv)
  moreover have "set block \<subseteq> set ls"
    using lr set_takeWhileD [of _ continuation_line r] set_dropWhileD [of _ "no_key field" ls] by force
  ultimately show "block_ok field block"
    using assms(2) lr(2) by (auto simp: block_ok_def yaml_lines_def lines_ok_def no_key_def list_all_iff dest: set_takeWhileD)
  show "list_all (no_key field) (takeWhile (no_key field) ls)" by (auto simp: list_all_iff dest: set_takeWhileD)
qed

lemma field_lines_new:
  assumes "list_all (no_key f) before" and "block_ok f block" and "r = dropWhile continuation_line q"
  shows "field_lines f (before @ block @ r) = Some block"
proof -
  obtain l cont where b: "block = l # cont" "field_key l = Some f" "list_all continuation_line cont"
    using assms(2) by (cases block) (auto simp: block_ok_def)
  have "dropWhile (no_key f) (before @ block @ r) = l # cont @ r"
    using assms(1) b(1,2) by (simp add: list_all_iff dropWhile_append no_key_def)
  moreover have "takeWhile continuation_line (cont @ r) = cont"
  proof -
    have "takeWhile continuation_line r = []" unfolding assms(3) by (induction q) simp_all
    then show ?thesis using b(3) by (simp add: list_all_iff takeWhile_append)
  qed
  ultimately show ?thesis by (simp add: field_lines_def b(1))
qed

text \<open>
  C40. The surgical edit of a frontmatter field: when the field is there, replacing it with a
  well-formed block succeeds, the field then reads as that block, every other top-level field and
  the body read as before, and replacing a field with the block it already has gives back the note
  character for character.
\<close>

theorem surgical_edit:
  assumes "extract_field_block s field = Inr old" and "top_level field"
    and "block_ok field block" and "with_newline new = unlines block"
  shows "\<exists>s'. surgical_replace_field s field new = Inr s' \<and>
      extract_field_block s' field = Inr (unlines block) \<and>
      (\<forall>other. top_level other \<and> other \<noteq> field \<longrightarrow> extract_field_block s' other = extract_field_block s other) \<and>
      snd (split_frontmatter s') = snd (split_frontmatter s) \<and>
      surgical_replace_field s field old = Inr s"
proof -
  obtain bounds where "frontmatter_span s = Some bounds"
    using assms(1) by (cases "frontmatter_span s") (auto simp: extract_field_block_def field_span_def)
  then obtain start ls fence rest where s: "s = note_text start ls fence rest" and ok: "note_ok start ls fence rest"
    using frontmatter_span_Some by blast
  obtain oblock where ob: "field_lines field ls = Some oblock" "old = unlines oblock"
    using assms(1) unfolding s extract_lines [OF ok] by (auto split: option.splits)
  define before where "before = takeWhile (no_key field) ls"
  define r where "r = after_field field ls"
  have split: "ls = before @ oblock @ r" using field_lines_split [OF ob(1)] by (simp add: before_def r_def)
  have yl: "yaml_lines ls" using ok by (simp add: note_ok_def)
  note o = field_lines_old [OF ob(1) yl, folded before_def]
  let ?ls = "before @ block @ r"
  have ok': "note_ok start ?ls fence rest"
    using ok assms(3) split by (auto simp: note_ok_def block_ok_def yaml_lines_def)
  let ?s = "note_text start ?ls fence rest"
  have "surgical_replace_field s field new = Inr ?s"
    unfolding s surgical_lines [OF ok ob(1) assms(4)] by (simp add: before_def r_def)
  moreover have "extract_field_block ?s field = Inr (unlines block)"
    unfolding extract_lines [OF ok'] field_lines_new [OF o(2) assms(3) r_def [unfolded after_field_def]] by simp
  moreover have "extract_field_block ?s other = extract_field_block s other" if "top_level other" "other \<noteq> field" for other
    unfolding s extract_lines [OF ok] extract_lines [OF ok']
    unfolding field_lines_replace [OF o(1) assms(3,2) that, of before r, symmetric] split [symmetric] by simp
  moreover have "snd (split_frontmatter ?s) = snd (split_frontmatter s)"
    unfolding s split_lines [OF ok] split_lines [OF ok'] by simp
  moreover have "surgical_replace_field s field old = Inr s"
  proof -
    have "with_newline old = unlines oblock"
      using ob(2) o(1) by (cases oblock rule: rev_cases) (auto simp: with_newline_def block_ok_def)
    from surgical_lines [OF ok ob(1) this] show ?thesis
      unfolding s before_def [symmetric] r_def [symmetric] split [symmetric] .
  qed
  ultimately show ?thesis by blast
qed

definition sample_lines :: "string list" where
  "sample_lines = [''title: A'', ''tags:'', ''- x'', ''- y'', ''status: open'']"

definition sample_note :: string where
  "sample_note = note_text FENCE sample_lines FENCE (nl # ''the body'')"

lemma sample_note_ok: "note_ok FENCE sample_lines FENCE (nl # ''the body'')"
  by (simp add: note_ok_def yaml_lines_def closes_def sample_lines_def FENCE_def strip_def is_space_def lines_ok_def)

theorem surgical_edit_witness:
  "\<exists>s'. surgical_replace_field sample_note ''tags'' ''tags: [z]'' = Inr s' \<and>
     extract_field_block s' ''tags'' = Inr (''tags: [z]'' @ [nl]) \<and>
     extract_field_block s' ''title'' = extract_field_block sample_note ''title''"
proof -
  have "field_lines ''tags'' sample_lines = Some [''tags:'', ''- x'', ''- y'']"
    by (simp add: field_lines_def sample_lines_def no_key_def field_key_def key_char_def ascii_alnum_def
        continuation_line_def strip_def is_space_def)
  then have "extract_field_block sample_note ''tags'' = Inr (unlines [''tags:'', ''- x'', ''- y''])"
    by (simp add: sample_note_def extract_lines [OF sample_note_ok])
  moreover have "block_ok ''tags'' [''tags: [z]'']"
    by (simp add: block_ok_def yaml_lines_def FENCE_def strip_def is_space_def field_key_def key_char_def ascii_alnum_def)
  moreover have "with_newline ''tags: [z]'' = unlines [''tags: [z]'']" by (simp add: with_newline_def)
  ultimately have "\<exists>s'. surgical_replace_field sample_note ''tags'' ''tags: [z]'' = Inr s' \<and>
      extract_field_block s' ''tags'' = Inr (unlines [''tags: [z]'']) \<and>
      (\<forall>other. top_level other \<and> other \<noteq> ''tags'' \<longrightarrow> extract_field_block s' other = extract_field_block sample_note other) \<and>
      snd (split_frontmatter s') = snd (split_frontmatter sample_note) \<and>
      surgical_replace_field sample_note ''tags'' (unlines [''tags:'', ''- x'', ''- y'']) = Inr sample_note"
    by (intro surgical_edit) (simp_all add: top_level_def)
  then obtain s' where "surgical_replace_field sample_note ''tags'' ''tags: [z]'' = Inr s'"
    "extract_field_block s' ''tags'' = Inr (unlines [''tags: [z]''])"
    "\<And>other. top_level other \<and> other \<noteq> ''tags'' \<longrightarrow> extract_field_block s' other = extract_field_block sample_note other"
    by blast
  moreover have "top_level ''title'' \<and> ''title'' \<noteq> ''tags''" by (simp add: top_level_def)
  ultimately show ?thesis by auto
qed

text \<open>
  An indented \<open>---\<close> line, here inside a block scalar, ends the frontmatter: the comparison strips
  both ends of the line.
\<close>

lemma indented_fence_closes:
  "split_frontmatter (note_text FENCE [''note: |''] ''  ---'' (nl # ''  text'')) =
     (''note: |'' @ [nl], ''  text'', True)"
proof -
  have "note_ok FENCE [''note: |''] ''  ---'' (nl # ''  text'')"
    by (simp add: note_ok_def yaml_lines_def closes_def FENCE_def strip_def is_space_def)
  then show ?thesis by (simp add: split_lines)
qed

text \<open>The assembly and the split are inverse when no line of the block is a fence.\<close>

lemma split_join:
  assumes "yaml_lines ls" and "with_newline yaml = unlines ls"
  shows "split_frontmatter (join_frontmatter yaml body) =
    (if yaml = [] then [] else unlines ls, body, True)"
proof -
  have f: "nl \<notin> set FENCE" "strip FENCE = FENCE" "take 3 FENCE = FENCE"
    by (simp_all add: FENCE_def strip_def is_space_def)
  have ok: "note_ok FENCE ls' FENCE (nl # body)" if "yaml_lines ls'" for ls'
    using f that by (simp add: note_ok_def closes_def)
  show ?thesis
  proof (cases "yaml = []")
    case True
    then have "join_frontmatter yaml body = note_text FENCE [] FENCE (nl # body)"
      by (simp add: join_frontmatter_def note_text_def)
    then show ?thesis using True by (simp add: split_lines [OF ok] yaml_lines_def)
  next
    case False
    then have "join_frontmatter yaml body = note_text FENCE ls FENCE (nl # body)"
      using assms(2) by (simp add: join_frontmatter_def note_text_def)
    then show ?thesis using False by (simp add: split_lines [OF ok [OF assms(1)]])
  qed
qed

section \<open>The repair\<close>

lemma jam_parts_split:
  assumes "jam_parts line = Some (indent, key, v)"
  shows "\<exists>b. line = indent @ key @ CHR '':'' # b # v \<and> list_all is_space indent \<and> key \<noteq> [] \<and>
    list_all key_char key \<and> (b = CHR '' '' \<or> b = CHR 0x09)"
proof -
  define rest where "rest = dropWhile is_space line"
  obtain c b w ws where r: "dropWhile key_char rest = c # b # w # ws"
      "takeWhile key_char rest \<noteq> []" "c = CHR '':''" "b = CHR '' '' \<or> b = CHR 0x09"
      "indent = takeWhile is_space line" "key = takeWhile key_char rest" "v = w # ws"
    using assms by (auto simp: jam_parts_def rest_def Let_def split: list.splits if_splits)
  have "line = indent @ rest" using r(5) by (simp add: rest_def)
  moreover have "rest = key @ CHR '':'' # b # v" using takeWhile_dropWhile_id [of key_char rest] r(1,3,6,7) by metis
  ultimately have "line = indent @ key @ CHR '':'' # b # v" by simp
  moreover have "list_all is_space indent" "list_all key_char key" "key \<noteq> []"
    using r(2,5,6) by (auto simp: list_all_iff dest: set_takeWhileD)
  ultimately show ?thesis using r(4) by blast
qed

lemma jam_parts_make:
  assumes "list_all is_space indent" and "key \<noteq> []" and "list_all key_char key"
    and "b = CHR '' '' \<or> b = CHR 0x09" and "v \<noteq> []"
  shows "jam_parts (indent @ key @ CHR '':'' # b # v) = Some (indent, key, v)"
proof -
  obtain k ks where k: "key = k # ks" using assms(2) by (cases key) auto
  have nk: "\<not> key_char (CHR '':'')" by (simp add: key_char_def ascii_alnum_def)
  have "\<not> is_space k" using assms(3) k key_char_not_space by simp
  then have 1: "takeWhile is_space (indent @ key @ CHR '':'' # b # v) = indent"
    "dropWhile is_space (indent @ key @ CHR '':'' # b # v) = key @ CHR '':'' # b # v"
    using assms(1) k by (simp_all add: list_all_iff takeWhile_append dropWhile_append)
  have 2: "takeWhile key_char (key @ CHR '':'' # b # v) = key"
    "dropWhile key_char (key @ CHR '':'' # b # v) = CHR '':'' # b # v"
    using assms(3) nk by (simp_all add: list_all_iff takeWhile_append dropWhile_append)
  obtain w ws where v: "v = w # ws" using assms(5) by (cases v) auto
  have "jam_parts (indent @ key @ CHR '':'' # b # v) =
      (case CHR '':'' # b # v of
         c # b # v # vs \<Rightarrow>
           if key \<noteq> [] \<and> c = CHR '':'' \<and> (b = CHR '' '' \<or> b = CHR 0x09) then Some (indent, key, v # vs) else None
       | _ \<Rightarrow> None)"
    unfolding jam_parts_def Let_def 1 2 ..
  then show ?thesis using assms(2,4) by (simp add: v)
qed

lemma rstrip_keep: "\<not> is_space c \<Longrightarrow> rstrip (v @ [c]) = v @ [c]"
  by (simp add: rstrip_def)

lemma repair_line_once: "repair_line (repair_line line) = repair_line line"
proof (cases "jam_parts line")
  case None
  then show ?thesis by (simp add: repair_line_def)
next
  case (Some p)
  obtain indent key v where p: "p = (indent, key, v)" by (cases p)
  then obtain b where b: "list_all is_space indent" "key \<noteq> []" "list_all key_char key"
    using jam_parts_split Some by blast
  show ?thesis
  proof (cases "left_alone (rstrip v)")
    case True
    then show ?thesis using Some p by (simp add: repair_line_def)
  next
    case False
    let ?q = "dquote_char # escape_value (rstrip v) @ [dquote_char]"
    have q: "repair_line line = indent @ key @ CHR '':'' # CHR '' '' # ?q"
      using False Some p by (simp add: repair_line_def)
    have "jam_parts (indent @ key @ CHR '':'' # CHR '' '' # ?q) = Some (indent, key, ?q)"
      using jam_parts_make [OF b] by simp
    moreover have "rstrip ?q = ?q"
      using rstrip_keep [of dquote_char "dquote_char # escape_value (rstrip v)"]
      by (simp add: dquote_char_def is_space_def)
    moreover have "left_alone ?q" by (simp add: left_alone_def)
    ultimately show ?thesis unfolding q by (simp add: repair_line_def)
  qed
qed

lemma rstrip_chars: "set (rstrip v) \<subseteq> set v"
  by (auto simp: rstrip_def dest: set_dropWhileD)

lemma escape_value_chars: "set (escape_value v) \<subseteq> insert backslash (insert dquote_char (set v))"
  by (auto simp: escape_value_def)

lemma repair_line_newline:
  assumes "nl \<notin> set line" shows "nl \<notin> set (repair_line line)"
proof (cases "jam_parts line")
  case None
  then show ?thesis using assms by (simp add: repair_line_def)
next
  case (Some p)
  obtain indent key v where p: "p = (indent, key, v)" by (cases p)
  then obtain b where "line = indent @ key @ CHR '':'' # b # v" using jam_parts_split Some by blast
  with assms have "nl \<notin> set indent" "nl \<notin> set key" "nl \<notin> set (escape_value (rstrip v))"
    using rstrip_chars [of v] escape_value_chars [of "rstrip v"] by (auto simp: backslash_def dquote_char_def)
  then show ?thesis using assms Some p by (simp add: repair_line_def dquote_char_def)
qed

text \<open>
  C35. The jam repair is idempotent, as its comment promises: a repaired value is quoted, and a quoted
  value is left alone.
\<close>

theorem repair_yaml_idempotent: "repair_yaml (repair_yaml s) = repair_yaml s"
proof -
  let ?ls = "split_on nl s"
  have "split_on nl (join [nl] (map repair_line ?ls)) = map repair_line ?ls"
    using repair_line_newline split_on_join_parts split_on_nonempty by (intro split_on_join) auto
  then show ?thesis by (simp add: repair_yaml_def repair_line_once comp_def)
qed

end
