(* ===== verification/ParsedDocs.thy ===== *)
theory ParsedDocs
  imports Evidence
begin

text \<open>
  The parsed documents of \<open>document_intelligence/models.py\<close>: the page-text documents of schema
  version 1, the layout documents of schema version 2 (sections, blocks, tables of rows and cells)
  and their validators.  As in the other models, \<open>x_new\<close> is the construction of a class from fields
  that are already validated models, with the field and model validators in the order they run.
  The theory proves what an accepted table and an accepted section list look like.
\<close>

section \<open>Shared\<close>

definition is_positive :: "int \<Rightarrow> bool" where "is_positive n \<longleftrightarrow> 1 \<le> n"

datatype block_type = PageText | Title | Heading | Paragraph | ListItem | TableBlock | TableRow
  | Caption | Header | Footer | Image | Unknown

record parse_warning =
  pw_code :: string
  pw_message :: string
  pw_page_number :: "int option"

definition parse_warning_new :: "parse_warning \<Rightarrow> parse_warning result" where
  "parse_warning_new w = guards
     [(1 \<le> length (pw_code w), ValueError ''code''),
      (1 \<le> length (pw_message w), ValueError ''message''),
      (opt_all is_positive (pw_page_number w), ValueError ''page_number'')] w"

section \<open>Schema version 1\<close>

record document_block =
  bk_id :: string
  bk_type :: block_type
  bk_page_number :: int
  bk_reading_order :: int
  bk_text :: string

definition document_block_new :: "document_block \<Rightarrow> document_block result" where
  "document_block_new b = guards
     [(block_id_pattern (bk_id b), ValueError ''block_id''),
      (1 \<le> bk_page_number b, ValueError ''page_number''),
      (1 \<le> bk_reading_order b, ValueError ''reading_order''),
      (1 \<le> length (bk_text b) \<and> \<not> blank (bk_text b),
         ValueError ''block text must contain a non-whitespace character'')] b"

record parsed_page =
  pg_number :: int
  pg_blocks :: "document_block list"

text \<open>\<open>int(match.group("page"))\<close> of \<open>BLOCK_ID_RE\<close>.\<close>

definition encoded_page :: "string \<Rightarrow> int" where
  "encoded_page i = int (read_nat (take 4 (drop 5 i)))"

definition parsed_page_new :: "parsed_page \<Rightarrow> parsed_page result" where
  "parsed_page_new p = guards
     [(1 \<le> pg_number p, ValueError ''page_number''),
      (map bk_reading_order (pg_blocks p) = [1 .. int (length (pg_blocks p))],
         ValueError ''reading_order must be contiguous from one''),
      (list_all (\<lambda>b. bk_page_number b = pg_number p) (pg_blocks p),
         ValueError ''blocks carry another page number''),
      (list_all (\<lambda>b. block_id_pattern (bk_id b)) (pg_blocks p), ValueError ''invalid block id''),
      (list_all (\<lambda>b. encoded_page (bk_id b) = pg_number p) (pg_blocks p),
         ValueError ''block ids encode another page'')] p"

record parsed_document =
  pd_asset_sha256 :: string
  pd_parser :: string
  pd_parser_version :: string
  pd_parser_profile :: string
  pd_pages :: "parsed_page list"
  pd_warnings :: "parse_warning list"

definition document_blocks :: "parsed_document \<Rightarrow> document_block list" where
  "document_blocks d = concat (map pg_blocks (pd_pages d))"

definition parsed_document_new :: "parsed_document \<Rightarrow> parsed_document result" where
  "parsed_document_new d = guards
     [(sha256_pattern (pd_asset_sha256 d), ValueError ''asset_sha256''),
      (1 \<le> length (pd_parser d), ValueError ''parser''),
      (1 \<le> length (pd_parser_version d), ValueError ''parser_version''),
      (1 \<le> length (pd_parser_profile d), ValueError ''parser_profile''),
      (1 \<le> length (pd_pages d), ValueError ''pages''),
      (map pg_number (pd_pages d) = [1 .. int (length (pd_pages d))],
         ValueError ''page_number must be contiguous from one in physical order''),
      (distinct (map bk_id (document_blocks d)),
         ValueError ''block_id values must be unique within a parsed document'')] d"

definition page_text :: "parsed_page \<Rightarrow> string" where
  "page_text p = join [CHR 0x0A, CHR 0x0A] (map bk_text (pg_blocks p))"

definition flattened_text :: "parsed_document \<Rightarrow> string" where
  "flattened_text d = strip (join [CHR 0x0A, CHR 0x0A] (map page_text (pd_pages d)))"

definition prompt_block :: "document_block \<Rightarrow> parsed_page \<Rightarrow> string" where
  "prompt_block b p = ''[BLOCK '' @ bk_id b @ '' | PAGE '' @ show_int (pg_number p) @ '']'' @
     [CHR 0x0A] @ bk_text b"

definition prompt_text :: "parsed_document \<Rightarrow> string" where
  "prompt_text d = join [CHR 0x0A, CHR 0x0A]
     (concat (map (\<lambda>p. map (\<lambda>b. prompt_block b p) (pg_blocks p)) (pd_pages d)))"

text \<open>\<open>{block.block_id: block for page in self.pages for block in page.blocks}\<close>: the last one wins.\<close>

definition dict_by :: "('a \<Rightarrow> string) \<Rightarrow> 'a list \<Rightarrow> string \<Rightarrow> 'a option" where
  "dict_by key xs = map_of (rev (map (\<lambda>x. (key x, x)) xs))"

definition block_index :: "parsed_document \<Rightarrow> string \<Rightarrow> document_block option" where
  "block_index d = dict_by bk_id (document_blocks d)"

text \<open>A whole document from JSON: every nested model is validated, innermost first.\<close>

definition parsed_page_wf :: "parsed_page \<Rightarrow> bool" where
  "parsed_page_wf p \<longleftrightarrow> list_all (\<lambda>b. document_block_new b = Inr b) (pg_blocks p) \<and>
     parsed_page_new p = Inr p"

definition parsed_document_wf :: "parsed_document \<Rightarrow> bool" where
  "parsed_document_wf d \<longleftrightarrow> list_all parsed_page_wf (pd_pages d) \<and>
     list_all (\<lambda>w. parse_warning_new w = Inr w) (pd_warnings d) \<and> parsed_document_new d = Inr d"

section \<open>Schema version 2: sections, blocks and tables\<close>

record page_dimensions =
  dim_width_points :: rat
  dim_height_points :: rat

definition page_dimensions_new :: "py_env \<Rightarrow> page_dimensions \<Rightarrow> page_dimensions result" where
  "page_dimensions_new E d = guards
     [(0 < dim_width_points d \<and> py_round E (dim_width_points d) 3 = dim_width_points d,
         ValueError ''page dimensions must be quantized to three decimal places''),
      (0 < dim_height_points d \<and> py_round E (dim_height_points d) 3 = dim_height_points d,
         ValueError ''page dimensions must be quantized to three decimal places'')] d"

datatype furniture_kind = HeaderFurniture | FooterFurniture

record document_section =
  sc_id :: string
  sc_title :: string
  sc_level :: int
  sc_parent :: "string option"
  sc_reading_order :: int

definition document_section_new :: "document_section \<Rightarrow> document_section result" where
  "document_section_new s = guards
     [(numbered_id ''section-'' (sc_id s), ValueError ''section_id''),
      (1 \<le> length (sc_title s), ValueError ''title''),
      (1 \<le> sc_level s \<and> sc_level s \<le> 6, ValueError ''level''),
      (opt_all (numbered_id ''section-'') (sc_parent s), ValueError ''parent_section_id''),
      (1 \<le> sc_reading_order s, ValueError ''reading_order'')] s"

record document_block_v2 =
  b2_id :: string
  b2_type :: block_type
  b2_page_number :: int
  b2_reading_order :: int
  b2_text :: string
  b2_bbox :: normalized_bbox
  b2_section :: "string option"
  b2_furniture :: "furniture_kind option"
  b2_table :: "string option"

definition document_block_v2_new :: "document_block_v2 \<Rightarrow> document_block_v2 result" where
  "document_block_v2_new b = guards
     [(numbered_id ''block-'' (b2_id b), ValueError ''block_id''),
      (1 \<le> b2_page_number b, ValueError ''page_number''),
      (1 \<le> b2_reading_order b, ValueError ''reading_order''),
      (1 \<le> length (b2_text b) \<and> \<not> blank (b2_text b),
         ValueError ''block text must contain a non-whitespace character''),
      (opt_all (numbered_id ''section-'') (b2_section b), ValueError ''section_id''),
      (opt_all (numbered_id ''table-'') (b2_table b), ValueError ''table_id''),
      ((b2_type b = TableBlock) = (b2_table b \<noteq> None),
         ValueError ''only table blocks must carry table_id'')] b"

record table_cell =
  ce_id :: string
  ce_row_id :: string
  ce_row_index :: int
  ce_column_index :: int
  ce_row_span :: int
  ce_column_span :: int
  ce_text :: string
  ce_column_header :: bool
  ce_row_header :: bool
  ce_bbox :: "normalized_bbox option"

definition table_cell_new :: "table_cell \<Rightarrow> table_cell result" where
  "table_cell_new c = guards
     [(numbered_id ''cell-'' (ce_id c), ValueError ''cell_id''),
      (numbered_id ''row-'' (ce_row_id c), ValueError ''row_id''),
      (0 \<le> ce_row_index c, ValueError ''row_index''),
      (0 \<le> ce_column_index c, ValueError ''column_index''),
      (1 \<le> ce_row_span c, ValueError ''row_span''),
      (1 \<le> ce_column_span c, ValueError ''column_span''),
      (\<not> blank (ce_text c) \<longrightarrow> ce_bbox c \<noteq> None,
         ValueError ''non-empty table cells require a bbox'')] c"

record table_row =
  ro_id :: string
  ro_index :: int
  ro_cell_ids :: "string list"

definition table_row_new :: "table_row \<Rightarrow> table_row result" where
  "table_row_new r = guards
     [(numbered_id ''row-'' (ro_id r), ValueError ''row_id''),
      (0 \<le> ro_index r, ValueError ''row_index''),
      (distinct (ro_cell_ids r), ValueError ''row cell_ids must be unique''),
      (list_all (numbered_id ''cell-'') (ro_cell_ids r), ValueError ''row contains an invalid cell_id'')] r"

record document_table =
  tb_id :: string
  tb_block_id :: string
  tb_page_number :: int
  tb_bbox :: normalized_bbox
  tb_num_rows :: int
  tb_num_columns :: int
  tb_rows :: "table_row list"
  tb_cells :: "table_cell list"

text \<open>The slots a cell occupies, in loop order, and the loop that rejects the first repeated slot.\<close>

definition cell_slots :: "table_cell \<Rightarrow> (int \<times> int) list" where
  "cell_slots c =
     concat (map (\<lambda>r. map (\<lambda>k. (r, k)) [ce_column_index c .. ce_column_index c + ce_column_span c - 1])
       [ce_row_index c .. ce_row_index c + ce_row_span c - 1])"

fun occupy :: "(int \<times> int) list \<Rightarrow> (int \<times> int) set \<Rightarrow> (int \<times> int) set result" where
  "occupy [] occupied = Inr occupied"
| "occupy (slot # slots) occupied =
     (if slot \<in> occupied then Inl (ValueError ''table cells overlap in the normalized grid'')
      else occupy slots (insert slot occupied))"

definition expected_grid :: "document_table \<Rightarrow> (int \<times> int) set" where
  "expected_grid t = set (concat (map (\<lambda>r. map (\<lambda>k. (r, k)) [0 .. tb_num_columns t - 1])
     [0 .. tb_num_rows t - 1]))"

definition cell_coordinates :: "table_cell \<Rightarrow> int \<times> int" where
  "cell_coordinates c = (ce_row_index c, ce_column_index c)"

definition row_lookup :: "document_table \<Rightarrow> string \<Rightarrow> table_row option" where
  "row_lookup t = dict_by ro_id (tb_rows t)"

text \<open>\<open>_grid_consistency\<close>\<close>

definition grid_consistency :: "document_table \<Rightarrow> document_table result" where
  "grid_consistency t =
     rbind (guards
       [(int (length (tb_rows t)) = tb_num_rows t, ValueError ''table row count does not match num_rows''),
        (map ro_index (tb_rows t) = [0 .. tb_num_rows t - 1],
           ValueError ''table row_index values must be contiguous from zero''),
        (distinct (map ro_id (tb_rows t)) \<and> distinct (map ce_id (tb_cells t)),
           ValueError ''table row_id and cell_id values must be unique''),
        (list_all (\<lambda>c. ce_row_id c \<in> set (map ro_id (tb_rows t))) (tb_cells t),
           ValueError ''table cell references an unknown row_id''),
        (list_all (\<lambda>c. case row_lookup t (ce_row_id c) of
             Some r \<Rightarrow> ro_index r = ce_row_index c | None \<Rightarrow> True) (tb_cells t),
           ValueError ''table cell row_id and row_index name different rows''),
        (list_all (\<lambda>c. ce_row_index c < tb_num_rows t) (tb_cells t),
           ValueError ''table cell row_index is outside the grid''),
        (list_all (\<lambda>c. ce_column_index c + ce_column_span c \<le> tb_num_columns t) (tb_cells t),
           ValueError ''table cell column span is outside the grid''),
        (list_all (\<lambda>c. ce_row_index c + ce_row_span c \<le> tb_num_rows t) (tb_cells t),
           ValueError ''table cell row span is outside the grid''),
        (list_all (\<lambda>r. ro_cell_ids r = map ce_id (filter (\<lambda>c. ce_row_id c = ro_id r) (tb_cells t)))
           (tb_rows t), ValueError ''table row cell_ids do not match cells''),
        (sorted (map cell_coordinates (tb_cells t)),
           ValueError ''table cells must be in canonical row/column order'')] ()) (\<lambda>_.
     rbind (occupy (concat (map cell_slots (tb_cells t))) {}) (\<lambda>occupied.
     guards [(occupied = expected_grid t,
       ValueError ''table cells do not cover the declared normalized grid'')] t))"

definition document_table_new :: "document_table \<Rightarrow> document_table result" where
  "document_table_new t =
     rbind (guards
       [(numbered_id ''table-'' (tb_id t), ValueError ''table_id''),
        (numbered_id ''block-'' (tb_block_id t), ValueError ''block_id''),
        (1 \<le> tb_page_number t, ValueError ''page_number''),
        (1 \<le> tb_num_rows t, ValueError ''num_rows''),
        (1 \<le> tb_num_columns t, ValueError ''num_columns''),
        (1 \<le> length (tb_rows t), ValueError ''rows''),
        (1 \<le> length (tb_cells t), ValueError ''cells'')] ()) (\<lambda>_. grid_consistency t)"

section \<open>Schema version 2: the document\<close>

record parsed_page_v2 =
  p2_number :: int
  p2_dimensions :: page_dimensions
  p2_block_ids :: "string list"

definition parsed_page_v2_new :: "parsed_page_v2 \<Rightarrow> parsed_page_v2 result" where
  "parsed_page_v2_new p = guards
     [(1 \<le> p2_number p, ValueError ''page_number''),
      (distinct (p2_block_ids p), ValueError ''page block_ids must be unique''),
      (list_all (numbered_id ''block-'') (p2_block_ids p), ValueError ''page contains an invalid block_id'')] p"

datatype normalization_profile = CleanDigitalV1 | CleanDigitalV2

datatype table_profile = GridV1 | GridV2

text \<open>\<open>NormalizationIdentity\<close>; its four other fields are literals with one value.\<close>

record normalization_identity =
  ni_profile :: normalization_profile
  ni_table_profile :: table_profile

definition normalization_identity_new :: "normalization_identity \<Rightarrow> normalization_identity result" where
  "normalization_identity_new n = guards
     [(ni_table_profile n = (case ni_profile n of CleanDigitalV1 \<Rightarrow> GridV1 | CleanDigitalV2 \<Rightarrow> GridV2),
        ValueError ''normalization and table profile versions must match'')] n"

record resource_limits =
  rl_timeout_seconds :: rat
  rl_max_source_bytes :: int
  rl_max_pages :: int

definition resource_limits_new :: "resource_limits \<Rightarrow> resource_limits result" where
  "resource_limits_new r = guards
     [(0 < rl_timeout_seconds r, ValueError ''timeout_seconds''),
      (1 \<le> rl_max_source_bytes r, ValueError ''max_source_bytes''),
      (1 \<le> rl_max_pages r, ValueError ''max_pages''),
      (rl_timeout_seconds r = 120 \<and> rl_max_source_bytes r = 52428800 \<and> rl_max_pages r = 200,
         ValueError ''resource limits must match clean-digital-layout-table-v2'')] r"

record parsed_document_v2 =
  d2_asset_sha256 :: string
  d2_parser_version :: string
  d2_parser_core_version :: string
  d2_model_identity :: string
  d2_resource_limits :: resource_limits
  d2_normalization :: normalization_identity
  d2_pages :: "parsed_page_v2 list"
  d2_sections :: "document_section list"
  d2_blocks :: "document_block_v2 list"
  d2_tables :: "document_table list"
  d2_warnings :: "parse_warning list"

text \<open>\<open>[f"block-{idx:04d}" for idx in range(1, n + 1)]\<close>\<close>

definition numbered_ids :: "string \<Rightarrow> nat \<Rightarrow> string list" where
  "numbered_ids prefix n = map (\<lambda>i. prefix @ pad 4 i) [1 ..< n + 1]"

text \<open>
  The loop over the sections with \<open>section_stack\<close> (its top is the head of the list): the parent must
  be the top left after popping the sections that are not shallower, and the section must be owned
  by the heading block at its position.
\<close>

fun pop_sections :: "int \<Rightarrow> document_section list \<Rightarrow> document_section list" where
  "pop_sections level [] = []"
| "pop_sections level (s # stack) =
     (if level \<le> sc_level s then pop_sections level stack else s # stack)"

definition top_id :: "document_section list \<Rightarrow> string option" where
  "top_id stack = (case stack of [] \<Rightarrow> None | s # _ \<Rightarrow> Some (sc_id s))"

definition owning_heading :: "document_block_v2 list \<Rightarrow> document_section \<Rightarrow> bool" where
  "owning_heading blocks s \<longleftrightarrow>
     (case List.find (\<lambda>b. b2_reading_order b = sc_reading_order s) blocks of
        None \<Rightarrow> False
      | Some h \<Rightarrow> b2_type h = Heading \<and> b2_section h = Some (sc_id s) \<and> b2_text h = sc_title s)"

fun check_sections ::
  "document_block_v2 list \<Rightarrow> document_section list \<Rightarrow> document_section list \<Rightarrow> unit result" where
  "check_sections blocks stack [] = Inr ()"
| "check_sections blocks stack (s # ss) =
     (let popped = pop_sections (sc_level s) stack in
      rbind (guards
        [(sc_parent s = top_id popped,
            ValueError ''section parent must be the active nearest shallower section''),
         (owning_heading blocks s, ValueError ''section must be owned by its matching heading block'')] ())
        (\<lambda>_. check_sections blocks (s # popped) ss))"

text \<open>The loop over the blocks with \<open>active_sections\<close>; \<open>by_order\<close> is \<open>section_by_order.get\<close>.\<close>

definition section_by_order :: "document_section list \<Rightarrow> int \<Rightarrow> document_section option" where
  "section_by_order ss = map_of (rev (map (\<lambda>s. (sc_reading_order s, s)) ss))"

fun check_block_sections ::
  "(int \<Rightarrow> document_section option) \<Rightarrow> document_section list \<Rightarrow> document_block_v2 list \<Rightarrow> unit result"
where
  "check_block_sections by_order active [] = Inr ()"
| "check_block_sections by_order active (b # bs) =
     (let active' = (case by_order (b2_reading_order b) of
          None \<Rightarrow> active | Some s \<Rightarrow> s # pop_sections (sc_level s) active) in
      rbind (guards
        [(b2_section b = top_id active', ValueError ''block must belong to the active deepest section'')] ())
        (\<lambda>_. check_block_sections by_order active' bs))"

definition document_rows :: "parsed_document_v2 \<Rightarrow> table_row list" where
  "document_rows d = concat (map tb_rows (d2_tables d))"

definition document_cells :: "parsed_document_v2 \<Rightarrow> table_cell list" where
  "document_cells d = concat (map tb_cells (d2_tables d))"

definition block_v2_index :: "parsed_document_v2 \<Rightarrow> string \<Rightarrow> document_block_v2 option" where
  "block_v2_index d = dict_by b2_id (d2_blocks d)"

definition starts_by :: "parsed_document_v2 \<Rightarrow> document_block_v2 \<Rightarrow> bool" where
  "starts_by d b \<longleftrightarrow>
     (case b2_section b of
        None \<Rightarrow> True
      | Some i \<Rightarrow> (case dict_by sc_id (d2_sections d) i of
            None \<Rightarrow> False | Some s \<Rightarrow> sc_reading_order s \<le> b2_reading_order b))"

definition table_block_ok :: "parsed_document_v2 \<Rightarrow> document_table \<Rightarrow> bool" where
  "table_block_ok d t \<longleftrightarrow>
     (case block_v2_index d (tb_block_id t) of
        None \<Rightarrow> False
      | Some b \<Rightarrow> b2_table b = Some (tb_id t) \<and> b2_page_number b = tb_page_number t \<and>
          b2_bbox b = tb_bbox t)"

text \<open>\<open>_document_consistency\<close> of version 2\<close>

definition document_v2_consistency :: "parsed_document_v2 \<Rightarrow> parsed_document_v2 result" where
  "document_v2_consistency d =
     (let blocks = d2_blocks d; sections = d2_sections d; tables = d2_tables d in
      rbind (guards
        [(map p2_number (d2_pages d) = [1 .. int (length (d2_pages d))],
            ValueError ''page_number must be contiguous from one in physical order''),
         (map b2_reading_order blocks = [1 .. int (length blocks)],
            ValueError ''block reading_order must be contiguous from one''),
         (map b2_id blocks = numbered_ids ''block-'' (length blocks),
            ValueError ''block_id values must be canonical and contiguous''),
         (list_all (\<lambda>b. b2_page_number b \<in> set (map p2_number (d2_pages d))) blocks,
            ValueError ''block references an unknown page''),
         (list_all (\<lambda>p. p2_block_ids p = map b2_id (filter (\<lambda>b. b2_page_number b = p2_number p) blocks))
            (d2_pages d), ValueError ''page block_ids do not match document reading order''),
         (distinct (map sc_id sections), ValueError ''section_id values must be unique''),
         (map sc_id sections = numbered_ids ''section-'' (length sections),
            ValueError ''section_id values must be canonical and contiguous''),
         (sorted (map sc_reading_order sections), ValueError ''sections must be in document reading order'')]
        ()) (\<lambda>_.
      rbind (check_sections blocks [] sections) (\<lambda>_.
      rbind (guards
        [(list_all (\<lambda>b. opt_all (\<lambda>i. i \<in> set (map sc_id sections)) (b2_section b)) blocks,
            ValueError ''block references an unknown section''),
         (list_all (starts_by d) blocks, ValueError ''block cannot belong to a section that starts later'')]
        ()) (\<lambda>_.
      rbind (check_block_sections (section_by_order sections) [] blocks) (\<lambda>_.
      guards
        [(distinct (map tb_id tables), ValueError ''table_id values must be unique''),
         (map tb_id tables = numbered_ids ''table-'' (length tables),
            ValueError ''table_id values must be canonical and contiguous''),
         (distinct (map ro_id (document_rows d)) \<and> distinct (map ce_id (document_cells d)),
            ValueError ''row_id and cell_id values must be document-unique''),
         (map ro_id (document_rows d) = numbered_ids ''row-'' (length (document_rows d)) \<and>
          map ce_id (document_cells d) = numbered_ids ''cell-'' (length (document_cells d)),
            ValueError ''row_id and cell_id values must be canonical and contiguous''),
         (ni_profile (d2_normalization d) = CleanDigitalV1 \<longrightarrow>
          list_all (\<lambda>c. ce_bbox c \<noteq> None) (document_cells d),
            ValueError ''normalization v1 table cells must carry bounding boxes''),
         (list_all (table_block_ok d) tables,
            ValueError ''table identity/page/bbox must match its table block''),
         (set (List.map_filter b2_table blocks) = set (map tb_id tables),
            ValueError ''table blocks and tables must have a one-to-one identity'')] d)))))"

definition parsed_document_v2_new :: "parsed_document_v2 \<Rightarrow> parsed_document_v2 result" where
  "parsed_document_v2_new d =
     rbind (guards
       [(sha256_pattern (d2_asset_sha256 d), ValueError ''asset_sha256''),
        (1 \<le> length (d2_parser_version d), ValueError ''parser_version''),
        (1 \<le> length (d2_parser_core_version d), ValueError ''parser_core_version''),
        (1 \<le> length (d2_model_identity d), ValueError ''model_identity''),
        (1 \<le> length (d2_pages d), ValueError ''pages''),
        (1 \<le> length (d2_blocks d), ValueError ''blocks'')] ()) (\<lambda>_. document_v2_consistency d)"

definition cell_index :: "parsed_document_v2 \<Rightarrow> string \<Rightarrow> (document_table \<times> table_cell) option" where
  "cell_index d = dict_by (\<lambda>(t, c). ce_id c)
     (concat (map (\<lambda>t. map (\<lambda>c. (t, c)) (tb_cells t)) (d2_tables d)))"

definition flattened_text_v2 :: "parsed_document_v2 \<Rightarrow> string" where
  "flattened_text_v2 d = strip (join [CHR 0x0A, CHR 0x0A]
     (map b2_text (filter (\<lambda>b. b2_furniture b = None) (d2_blocks d))))"

text \<open>Deep validity, innermost models first.\<close>

definition bbox_wf :: "py_env \<Rightarrow> normalized_bbox \<Rightarrow> bool" where
  "bbox_wf E b \<longleftrightarrow> normalized_bbox_new E b = Inr b"

definition document_table_wf :: "py_env \<Rightarrow> document_table \<Rightarrow> bool" where
  "document_table_wf E t \<longleftrightarrow> bbox_wf E (tb_bbox t) \<and>
     list_all (\<lambda>r. table_row_new r = Inr r) (tb_rows t) \<and>
     list_all (\<lambda>c. opt_all (bbox_wf E) (ce_bbox c) \<and> table_cell_new c = Inr c) (tb_cells t) \<and>
     document_table_new t = Inr t"

definition parsed_document_v2_wf :: "py_env \<Rightarrow> parsed_document_v2 \<Rightarrow> bool" where
  "parsed_document_v2_wf E d \<longleftrightarrow>
     resource_limits_new (d2_resource_limits d) = Inr (d2_resource_limits d) \<and>
     normalization_identity_new (d2_normalization d) = Inr (d2_normalization d) \<and>
     list_all (\<lambda>p. page_dimensions_new E (p2_dimensions p) = Inr (p2_dimensions p) \<and>
       parsed_page_v2_new p = Inr p) (d2_pages d) \<and>
     list_all (\<lambda>s. document_section_new s = Inr s) (d2_sections d) \<and>
     list_all (\<lambda>b. bbox_wf E (b2_bbox b) \<and> document_block_v2_new b = Inr b) (d2_blocks d) \<and>
     list_all (document_table_wf E) (d2_tables d) \<and>
     list_all (\<lambda>w. parse_warning_new w = Inr w) (d2_warnings d) \<and>
     parsed_document_v2_new d = Inr d"

section \<open>References to source assets and parsed artefacts\<close>

text \<open>
  \<open>_workspace_relative\<close> on a POSIX host, where \<open>Path\<close> is \<open>PurePosixPath\<close> and has no drive.  Unlike
  \<open>_safe_relative_path\<close> it keeps the empty path, as \<open>.\<close>, and accepts a colon.
\<close>

definition posix_text :: "string list \<Rightarrow> string" where
  "posix_text parts = (if parts = [] then ''.'' else join ''/'' parts)"

definition workspace_relative :: "string \<Rightarrow> string result" where
  "workspace_relative value =
     (let raw = strip value;
          portable = map (\<lambda>c. if c = backslash then CHR ''/'' else c) raw;
          parts = posix_parts portable
      in guards
        [(raw \<noteq> [] \<and> CHR 0x00 \<notin> set raw \<and> \<not> posix_is_absolute portable \<and>
          \<not> posix_is_absolute raw \<and> ''..'' \<notin> set parts,
            ValueError ''must be a safe workspace-relative path'')]
        (posix_text parts))"

record source_asset_ref =
  sa_asset_sha256 :: string
  sa_stored_path :: string
  sa_original_filename :: string
  sa_size_bytes :: int

text \<open>\<open>PurePosixPath(value.replace("\\", "/")).name\<close>: the last component, empty when there is none.\<close>

definition portable_name :: "string \<Rightarrow> string" where
  "portable_name value =
     (let parts = posix_parts (map (\<lambda>c. if c = backslash then CHR ''/'' else c) value)
      in if parts = [] then [] else last parts)"

definition source_asset_ref_new :: "source_asset_ref \<Rightarrow> source_asset_ref result" where
  "source_asset_ref_new r =
     rbind (guards [(sha256_pattern (sa_asset_sha256 r), ValueError ''asset_sha256'')] ()) (\<lambda>_.
     rbind (workspace_relative (sa_stored_path r)) (\<lambda>stored_path.
     guards
       [(1 \<le> length (sa_original_filename r), ValueError ''original_filename''),
        (CHR 0x00 \<notin> set (sa_original_filename r) \<and>
         portable_name (sa_original_filename r) = sa_original_filename r \<and>
         sa_original_filename r \<notin> {''.'', ''..''},
           ValueError ''must be a plain filename without path components''),
        (1 \<le> sa_size_bytes r, ValueError ''size_bytes'')]
       (r\<lparr>sa_stored_path := stored_path\<rparr>)))"

record parsed_document_ref =
  pr_asset_sha256 :: string
  pr_parser :: string
  pr_parser_version :: string
  pr_parser_profile :: string
  pr_document_schema_version :: nat
  pr_normalization_profile :: string
  pr_parser_core_version :: "string option"
  pr_model_identity :: "string option"
  pr_resource_limits :: "resource_limits option"
  pr_artifact_path :: string
  pr_artifact_sha256 :: string

definition parsed_document_ref_new :: "parsed_document_ref \<Rightarrow> parsed_document_ref result" where
  "parsed_document_ref_new r =
     rbind (guards
       [(sha256_pattern (pr_asset_sha256 r), ValueError ''asset_sha256''),
        (1 \<le> length (pr_parser r), ValueError ''parser''),
        (1 \<le> length (pr_parser_version r), ValueError ''parser_version''),
        (1 \<le> length (pr_parser_profile r), ValueError ''parser_profile''),
        (pr_document_schema_version r \<in> {1, 2}, ValueError ''document_schema_version'')] ()) (\<lambda>_.
     rbind (workspace_relative (pr_artifact_path r)) (\<lambda>artifact_path.
     guards
       [(sha256_pattern (pr_artifact_sha256 r), ValueError ''artifact_sha256''),
        (pr_document_schema_version r = 1 \<longrightarrow>
           pr_normalization_profile r = pr_parser_profile r \<and> pr_parser_core_version r = None \<and>
           pr_model_identity r = None \<and> pr_resource_limits r = None,
           ValueError ''schema-v1 reference must carry only its parser profile identity''),
        (pr_document_schema_version r \<noteq> 1 \<longrightarrow>
           pr_parser r = ''docling'' \<and> pr_parser_profile r = ''clean-digital-layout-table-v2'' \<and>
           pr_normalization_profile r \<in> {''mv-clean-digital-v1'', ''mv-clean-digital-v2''} \<and>
           pr_parser_core_version r \<noteq> None \<and> pr_model_identity r \<noteq> None \<and>
           pr_resource_limits r \<noteq> None,
           ValueError ''schema-v2 reference requires the complete Docling identity'')]
       (r\<lparr>pr_artifact_path := artifact_path\<rparr>)))"

section \<open>The prompt text\<close>

definition prompt_cell :: "document_table \<Rightarrow> table_cell \<Rightarrow> string" where
  "prompt_cell t c = ''[CELL '' @ ce_id c @ '' | TABLE '' @ tb_id t @ '' | ROW '' @ show_int (ce_row_index c) @
     '' | COLUMN '' @ show_int (ce_column_index c) @ '']'' @ [CHR 0x0A] @ ce_text c"

text \<open>\<open>next(...)\<close> without a default raises when no table has the id; a consistent document has one.\<close>

definition prompt_parts :: "parsed_document_v2 \<Rightarrow> document_block_v2 \<Rightarrow> string list result" where
  "prompt_parts d b =
     (let head = ''[BLOCK '' @ b2_id b @ '' | PAGE '' @ show_int (b2_page_number b) @ '']'' @ [CHR 0x0A] @ b2_text b in
      case b2_table b of
        None \<Rightarrow> Inr [head]
      | Some i \<Rightarrow> (case List.find (\<lambda>t. tb_id t = i) (d2_tables d) of
            None \<Rightarrow> Inl (KeyError ''StopIteration'')
          | Some t \<Rightarrow> Inr (head # map (prompt_cell t) (tb_cells t))))"

definition prompt_text_v2 :: "parsed_document_v2 \<Rightarrow> string result" where
  "prompt_text_v2 d = rbind (rmap (prompt_parts d) (d2_blocks d)) (\<lambda>parts.
     Inr (join [CHR 0x0A, CHR 0x0A] (concat parts)))"

section \<open>The grid of an accepted table\<close>

definition covers :: "table_cell \<Rightarrow> int \<Rightarrow> int \<Rightarrow> bool" where
  "covers c r k \<longleftrightarrow> ce_row_index c \<le> r \<and> r < ce_row_index c + ce_row_span c \<and>
     ce_column_index c \<le> k \<and> k < ce_column_index c + ce_column_span c"

lemma occupy_Inr_iff:
  "occupy slots occupied = Inr res \<longleftrightarrow>
     distinct slots \<and> set slots \<inter> occupied = {} \<and> res = occupied \<union> set slots"
  by (induction slots occupied rule: occupy.induct) auto

lemma cell_slots_covers: "(r, k) \<in> set (cell_slots c) \<longleftrightarrow> covers c r k"
  by (auto simp: cell_slots_def covers_def image_iff Bex_def)

lemma length_cell_slots: "length (cell_slots c) = nat (ce_row_span c) * nat (ce_column_span c)"
  by (simp add: cell_slots_def length_concat comp_def sum_list_triv)

lemma expected_grid_mem: "(r, k) \<in> expected_grid t \<longleftrightarrow> 0 \<le> r \<and> r < tb_num_rows t \<and> 0 \<le> k \<and> k < tb_num_columns t"
  by (auto simp: expected_grid_def image_iff Bex_def)

lemma card_expected_grid: "card (expected_grid t) = nat (tb_num_rows t) * nat (tb_num_columns t)"
proof -
  have "expected_grid t = {0 .. tb_num_rows t - 1} \<times> {0 .. tb_num_columns t - 1}"
    by (auto simp: expected_grid_mem)
  then show ?thesis by (simp add: card_cartesian_product)
qed

lemma distinct_concat_index:
  "distinct (concat xss) \<Longrightarrow> i < length xss \<Longrightarrow> j < length xss \<Longrightarrow> x \<in> set (xss ! i) \<Longrightarrow>
   x \<in> set (xss ! j) \<Longrightarrow> i = j"
proof (induction xss arbitrary: i j)
  case (Cons xs xss)
  have "x \<notin> set xs" if "x \<in> set (xss ! n)" "n < length xss" for n
    using Cons.prems(1) that nth_mem [of n xss] by (fastforce simp: disjoint_iff)
  with Cons show ?case by (cases i; cases j) auto
qed simp

lemma grid_consistency_Inr:
  assumes "grid_consistency t = Inr t'"
  shows "t' = t" and "distinct (concat (map cell_slots (tb_cells t)))"
    and "set (concat (map cell_slots (tb_cells t))) = expected_grid t"
    and "list_all (\<lambda>r. ro_cell_ids r = map ce_id (filter (\<lambda>c. ce_row_id c = ro_id r) (tb_cells t))) (tb_rows t)"
    and "distinct (map ce_id (tb_cells t))"
    and "sorted (map cell_coordinates (tb_cells t))"
  using assms unfolding grid_consistency_def by (auto simp: rbind_Inr_iff occupy_Inr_iff)

lemma document_table_new_grid: "document_table_new t = Inr t' \<Longrightarrow> grid_consistency t = Inr t'"
  by (auto simp: document_table_new_def rbind_Inr_iff)

section \<open>The sections of an accepted document\<close>

definition last_option :: "'a list \<Rightarrow> 'a option" where
  "last_option xs = (if xs = [] then None else Some (last xs))"

lemma last_option_snoc [simp]: "last_option (xs @ [x]) = Some x"
  by (simp add: last_option_def)

lemma pop_pop: "l \<le> m \<Longrightarrow> pop_sections l (pop_sections m stack) = pop_sections l stack"
  by (induction m stack rule: pop_sections.induct) auto

text \<open>The stack after the sections \<open>pre\<close> answers every nearest-shallower question about them.\<close>

definition stack_inv :: "document_section list \<Rightarrow> document_section list \<Rightarrow> bool" where
  "stack_inv stack pre \<longleftrightarrow> (\<forall>l. top_id (pop_sections l stack) =
     map_option sc_id (last_option (filter (\<lambda>x. sc_level x < l) pre)))"

lemma stack_inv_push:
  "stack_inv stack pre \<Longrightarrow> stack_inv (s # pop_sections (sc_level s) stack) (pre @ [s])"
  by (auto simp: stack_inv_def pop_pop top_id_def [of "_ # _"])

definition parent_in :: "document_section list \<Rightarrow> document_section \<Rightarrow> string option" where
  "parent_in pre s = map_option sc_id (last_option (filter (\<lambda>x. sc_level x < sc_level s) pre))"

lemma check_sections_Inr:
  assumes "check_sections blocks stack ss = Inr ()" and "stack_inv stack pre" and "i < length ss"
  shows "sc_parent (ss ! i) = parent_in (pre @ take i ss) (ss ! i) \<and> owning_heading blocks (ss ! i)"
  using assms
proof (induction ss arbitrary: stack pre i)
  case (Cons s ss)
  let ?popped = "pop_sections (sc_level s) stack"
  have s: "sc_parent s = top_id ?popped" "owning_heading blocks s"
    and rest: "check_sections blocks (s # ?popped) ss = Inr ()"
    using Cons.prems(1) by (auto simp: Let_def rbind_Inr_iff)
  show ?case
  proof (cases i)
    case 0
    then show ?thesis using s Cons.prems(2) by (simp add: stack_inv_def parent_in_def)
  next
    case (Suc j)
    then show ?thesis
      using Cons.IH [OF rest stack_inv_push [OF Cons.prems(2)], of j] Cons.prems(3) by simp
  qed
qed simp

lemma owning_heading_find:
  assumes "owning_heading blocks s"
  shows "\<exists>h. List.find (\<lambda>b. b2_reading_order b = sc_reading_order s) blocks = Some h \<and>
    b2_section h = Some (sc_id s)"
  using assms by (auto simp: owning_heading_def split: option.splits)

lemma owned_orders_distinct:
  assumes "\<forall>s \<in> set ss. owning_heading blocks s" and "distinct (map sc_id ss)"
  shows "distinct (map sc_reading_order ss)"
proof -
  have "s = s'" if "s \<in> set ss" "s' \<in> set ss" "sc_reading_order s = sc_reading_order s'" for s s'
  proof -
    from assms(1) that obtain h h'
      where "List.find (\<lambda>b. b2_reading_order b = sc_reading_order s) blocks = Some h" "b2_section h = Some (sc_id s)"
        "List.find (\<lambda>b. b2_reading_order b = sc_reading_order s') blocks = Some h'" "b2_section h' = Some (sc_id s')"
      using owning_heading_find [of blocks s] owning_heading_find [of blocks s'] by auto
    then have "sc_id s = sc_id s'" using that(3) by simp
    with assms(2) that(1,2) show ?thesis by (auto simp: distinct_map dest: inj_onD)
  qed
  then show ?thesis using assms(2) by (auto simp: distinct_map inj_on_def)
qed

text \<open>The section in force at a position: the last one that starts at or before it.\<close>

definition section_at :: "document_section list \<Rightarrow> int \<Rightarrow> string option" where
  "section_at ss n = map_option sc_id (last_option (filter (\<lambda>s. sc_reading_order s \<le> n) ss))"

lemma section_by_order_Some:
  assumes "distinct (map sc_reading_order ss)"
  shows "section_by_order ss n = Some s \<longleftrightarrow> s \<in> set ss \<and> sc_reading_order s = n"
proof -
  have "distinct (map fst (rev (map (\<lambda>s. (sc_reading_order s, s)) ss)))"
    using assms by (simp add: rev_map [symmetric] comp_def)
  then show ?thesis by (auto simp: section_by_order_def)
qed

lemma section_at_step:
  assumes "sorted (map sc_reading_order ss)" and "distinct (map sc_reading_order ss)"
  shows "section_at ss n = (case section_by_order ss n of
    Some s \<Rightarrow> Some (sc_id s) | None \<Rightarrow> section_at ss (n - 1))"
proof (cases "section_by_order ss n")
  case None
  then have "filter (\<lambda>s. sc_reading_order s \<le> n) ss = filter (\<lambda>s. sc_reading_order s \<le> n - 1) ss"
    using section_by_order_Some [OF assms(2), of n] by (intro filter_cong) force+
  then show ?thesis using None by (simp add: section_at_def)
next
  case (Some s)
  then have s: "s \<in> set ss" "sc_reading_order s = n" using section_by_order_Some [OF assms(2)] by auto
  then obtain xs ys where ss: "ss = xs @ s # ys" by (auto simp: in_set_conv_decomp)
  have "\<forall>y \<in> set ys. n < sc_reading_order y"
    using assms s by (fastforce simp: ss sorted_append order_less_le)
  moreover have "\<forall>x \<in> set xs. sc_reading_order x \<le> n"
    using assms s by (auto simp: ss sorted_append)
  ultimately have "filter (\<lambda>s. sc_reading_order s \<le> n) ss = xs @ [s]"
    using s by (simp add: ss not_le)
  then show ?thesis using Some by (simp add: section_at_def)
qed

lemma check_block_sections_Inr:
  assumes "check_block_sections (section_by_order ss) active bs = Inr ()"
    and "sorted (map sc_reading_order ss)" and "distinct (map sc_reading_order ss)"
    and "map b2_reading_order bs = [n + 1 .. m]" and "top_id active = section_at ss n"
  shows "\<forall>b \<in> set bs. b2_section b = section_at ss (b2_reading_order b)"
  using assms(1,4,5)
proof (induction bs arbitrary: active n)
  case (Cons b bs)
  let ?active = "case section_by_order ss (b2_reading_order b) of
    None \<Rightarrow> active | Some s \<Rightarrow> s # pop_sections (sc_level s) active"
  have b: "b2_section b = top_id ?active"
    and rest: "check_block_sections (section_by_order ss) ?active bs = Inr ()"
    using Cons.prems(1) by (auto simp: Let_def rbind_Inr_iff)
  have nm: "n + 1 \<le> m" using Cons.prems(2) by (cases "n + 1 \<le> m") auto
  then have n: "b2_reading_order b = n + 1" "map b2_reading_order bs = [n + 1 + 1 .. m]"
    using Cons.prems(2) by (simp_all add: upto_rec1)
  have "top_id ?active = section_at ss (n + 1)"
    using section_at_step [OF assms(2,3), of "n + 1"] Cons.prems(3) n(1)
    by (auto simp: top_id_def split: option.splits)
  with Cons.IH [OF rest n(2)] b n(1) show ?case by simp
qed simp

lemma document_v2_consistency_Inr:
  assumes "document_v2_consistency d = Inr d'"
  shows "d' = d" and "map b2_reading_order (d2_blocks d) = [1 .. int (length (d2_blocks d))]"
    and "distinct (map sc_id (d2_sections d))" and "sorted (map sc_reading_order (d2_sections d))"
    and "check_sections (d2_blocks d) [] (d2_sections d) = Inr ()"
    and "check_block_sections (section_by_order (d2_sections d)) [] (d2_blocks d) = Inr ()"
    and "distinct (map ce_id (document_cells d))"
    and "list_all (table_block_ok d) (d2_tables d)"
    and "map b2_id (d2_blocks d) = numbered_ids ''block-'' (length (d2_blocks d))"
  using assms unfolding document_v2_consistency_def Let_def by (auto simp: rbind_Inr_iff)

section \<open>Properties\<close>

text \<open>
  C38.  A table that its constructor accepts is an exact tiling: every slot of the declared grid is
  covered by exactly one cell, no cell covers anything outside, the areas of the cells add up to the
  grid, and every row lists exactly the cells that start in it, in column order.
\<close>

theorem table_grid_exact:
  assumes "document_table_new t = Inr t'"
  shows "t' = t \<and>
    (\<forall>r k. 0 \<le> r \<and> r < tb_num_rows t \<and> 0 \<le> k \<and> k < tb_num_columns t \<longrightarrow>
       (\<exists>!i. i < length (tb_cells t) \<and> covers (tb_cells t ! i) r k)) \<and>
    (\<forall>c \<in> set (tb_cells t). \<forall>r k. covers c r k \<longrightarrow>
       0 \<le> r \<and> r < tb_num_rows t \<and> 0 \<le> k \<and> k < tb_num_columns t) \<and>
    (\<Sum>c \<leftarrow> tb_cells t. nat (ce_row_span c) * nat (ce_column_span c))
       = nat (tb_num_rows t) * nat (tb_num_columns t) \<and>
    (\<forall>r \<in> set (tb_rows t). ro_cell_ids r = map ce_id (filter (\<lambda>c. ce_row_id c = ro_id r) (tb_cells t)))"
proof (intro conjI allI impI ballI)
  let ?slots = "map cell_slots (tb_cells t)"
  note grid = grid_consistency_Inr [OF document_table_new_grid [OF assms]]
  show "t' = t" by (rule grid(1))
  fix r k
  assume "0 \<le> r \<and> r < tb_num_rows t \<and> 0 \<le> k \<and> k < tb_num_columns t"
  then have "(r, k) \<in> set (concat ?slots)" by (simp only: grid(3) expected_grid_mem)
  then obtain c where "c \<in> set (tb_cells t)" "(r, k) \<in> set (cell_slots c)" by auto
  then obtain i where i: "i < length (tb_cells t)" "(r, k) \<in> set (cell_slots (tb_cells t ! i))"
    by (metis in_set_conv_nth)
  have "j = i" if "j < length (tb_cells t)" "(r, k) \<in> set (cell_slots (tb_cells t ! j))" for j
    using distinct_concat_index [OF grid(2), of j i] that i by simp
  with i show "\<exists>!i. i < length (tb_cells t) \<and> covers (tb_cells t ! i) r k"
    unfolding cell_slots_covers by (intro ex1I [of _ i]) blast+
next
  note grid = grid_consistency_Inr [OF document_table_new_grid [OF assms]]
  fix c r k assume "c \<in> set (tb_cells t)" "covers c r k"
  then have "(r, k) \<in> expected_grid t" unfolding grid(3) [symmetric] by (auto simp: cell_slots_covers)
  then show "0 \<le> r" "r < tb_num_rows t" "0 \<le> k" "k < tb_num_columns t" by (simp_all add: expected_grid_mem)
next
  note grid = grid_consistency_Inr [OF document_table_new_grid [OF assms]]
  have "(\<Sum>c \<leftarrow> tb_cells t. nat (ce_row_span c) * nat (ce_column_span c))
      = length (concat (map cell_slots (tb_cells t)))"
    by (simp add: length_concat comp_def length_cell_slots)
  also have "\<dots> = card (set (concat (map cell_slots (tb_cells t))))"
    by (simp only: distinct_card [OF grid(2)])
  finally show "(\<Sum>c \<leftarrow> tb_cells t. nat (ce_row_span c) * nat (ce_column_span c))
      = nat (tb_num_rows t) * nat (tb_num_columns t)"
    by (simp only: grid(3) card_expected_grid)
next
  note grid = grid_consistency_Inr [OF document_table_new_grid [OF assms]]
  fix r assume "r \<in> set (tb_rows t)"
  with grid(4) show "ro_cell_ids r = map ce_id (filter (\<lambda>c. ce_row_id c = ro_id r) (tb_cells t))"
    by (simp add: list_all_iff)
qed

text \<open>
  C39.  The two stack loops of a schema-v2 document compute the section outline: in an accepted
  document the parent of every section is the last earlier section of a smaller level, and every
  block belongs to the last section that starts at or before it.
\<close>

theorem section_outline:
  assumes "parsed_document_v2_new d = Inr d'"
  shows "d' = d \<and>
    (\<forall>i < length (d2_sections d).
       sc_parent (d2_sections d ! i) = parent_in (take i (d2_sections d)) (d2_sections d ! i)) \<and>
    (\<forall>b \<in> set (d2_blocks d). b2_section b = section_at (d2_sections d) (b2_reading_order b))"
proof -
  have "document_v2_consistency d = Inr d'"
    using assms by (auto simp: parsed_document_v2_new_def rbind_Inr_iff)
  note doc = document_v2_consistency_Inr [OF this]
  have "stack_inv [] []" by (simp add: stack_inv_def top_id_def last_option_def)
  note sections = check_sections_Inr [OF doc(5) this]
  then have "\<forall>s \<in> set (d2_sections d). owning_heading (d2_blocks d) s"
    by (auto simp: in_set_conv_nth)
  note orders = owned_orders_distinct [OF this doc(3)]
  have pos: "\<forall>s \<in> set (d2_sections d). 1 \<le> sc_reading_order s"
  proof
    fix s assume "s \<in> set (d2_sections d)"
    then obtain h where "List.find (\<lambda>b. b2_reading_order b = sc_reading_order s) (d2_blocks d) = Some h"
      using \<open>\<forall>s \<in> set (d2_sections d). owning_heading (d2_blocks d) s\<close> owning_heading_find by blast
    then have "sc_reading_order s \<in> set (map b2_reading_order (d2_blocks d))"
      unfolding find_Some_iff set_map by (metis imageI nth_mem)
    then show "1 \<le> sc_reading_order s" unfolding doc(2) by simp
  qed
  then have "section_at (d2_sections d) 0 = None"
    by (auto simp: section_at_def last_option_def filter_empty_conv)
  then have "\<forall>b \<in> set (d2_blocks d). b2_section b = section_at (d2_sections d) (b2_reading_order b)"
    using doc(2) by (intro check_block_sections_Inr [OF doc(6,4) orders, of 0]) (simp_all add: top_id_def)
  then show ?thesis using doc(1) sections by simp
qed

end
