(* ===== verification/Grounding.thy ===== *)
theory Grounding
  imports ParsedDocs
begin

text \<open>
  The grounding of proposed quotes, \<open>document_intelligence/grounding.py\<close>: the whitespace-flexible
  quote pattern and its leftmost search, \<open>evidence_errors\<close>, \<open>resolve_evidence\<close> and
  \<open>validate_resolved_evidence\<close>, on documents of both schema versions.  An error message is a value
  of \<open>grounding_error\<close> that carries the candidate's number (counted from one) and its target.
\<close>

section \<open>The quote pattern\<close>

text \<open>
  \<open>re.compile(r"\s+".join(re.escape(token) for token in tokens))\<close> matched at one position, as the
  engine does it: a token must be literally there, \<open>\s+\<close> takes the longest run first and backtracks
  to shorter ones.  The value is the length of the match.
\<close>

fun first_some :: "(nat \<Rightarrow> 'a option) \<Rightarrow> nat list \<Rightarrow> 'a option" where
  "first_some f [] = None"
| "first_some f (k # ks) = (case f k of None \<Rightarrow> first_some f ks | Some x \<Rightarrow> Some x)"

definition space_run :: "string \<Rightarrow> nat" where
  "space_run s = length (takeWhile is_space s)"

function re_match :: "string list \<Rightarrow> string \<Rightarrow> nat option" where
  "re_match [] s = Some 0"
| "re_match [t] s = (if take (length t) s = t then Some (length t) else None)"
| "re_match (t # u # ts) s =
     (if take (length t) s = t then
        (let r = drop (length t) s in
         first_some (\<lambda>k. map_option (\<lambda>n. length t + k + n) (re_match (u # ts) (drop k r)))
           (rev [1 ..< Suc (space_run r)]))
      else None)"
  by pat_completeness auto
termination by (relation "measure (\<lambda>(ts, s). length ts)") auto

text \<open>\<open>pattern.search(text)\<close>: the first position that matches, with the span of the match.\<close>

fun re_search :: "string list \<Rightarrow> string \<Rightarrow> nat \<Rightarrow> (nat \<times> nat) option" where
  "re_search ts [] i = map_option (\<lambda>n. (i, i + n)) (re_match ts [])"
| "re_search ts (c # cs) i =
     (case re_match ts (c # cs) of Some n \<Rightarrow> Some (i, i + n) | None \<Rightarrow> re_search ts cs (Suc i))"

section \<open>Grounding\<close>

record evidence_candidate =
  cn_block_id :: "string option"
  cn_cell_id :: "string option"
  cn_quote :: string

datatype parsed_any = Document1 parsed_document | Document2 parsed_document_v2

datatype grounding_error =
    NoEvidence
  | BadTarget nat
  | DuplicateReference nat target_type
  | UnknownBlock nat string
  | UnknownCell nat string
  | NoBoundingBox nat string
  | EmptyQuote nat
  | QuoteAbsent nat target_type string
  | MixedTables

text \<open>\<open>_target\<close>; \<open>None\<close> is the error that not exactly one id was named.\<close>

definition stripped :: "string option \<Rightarrow> string" where
  "stripped x = strip (case x of None \<Rightarrow> [] | Some s \<Rightarrow> s)"

definition target_of :: "evidence_candidate \<Rightarrow> (target_type \<times> string) option" where
  "target_of c =
     (let block_id = stripped (cn_block_id c); cell_id = stripped (cn_cell_id c) in
      if (block_id \<noteq> []) = (cell_id \<noteq> []) then None
      else if block_id \<noteq> [] then Some (BlockTarget, block_id) else Some (CellTarget, cell_id))"

definition asset_of :: "parsed_any \<Rightarrow> string" where
  "asset_of doc = (case doc of Document1 d \<Rightarrow> pd_asset_sha256 d | Document2 d \<Rightarrow> d2_asset_sha256 d)"

definition block_text :: "parsed_any \<Rightarrow> string \<Rightarrow> string option" where
  "block_text doc i = (case doc of
     Document1 d \<Rightarrow> map_option bk_text (block_index d i)
   | Document2 d \<Rightarrow> map_option b2_text (block_v2_index d i))"

definition cells_of :: "parsed_any \<Rightarrow> string \<Rightarrow> (document_table \<times> table_cell) option" where
  "cells_of doc i = (case doc of Document1 d \<Rightarrow> None | Document2 d \<Rightarrow> cell_index d i)"

text \<open>\<open>" ".join(quote.split()).casefold()\<close>\<close>

definition quote_key :: "string \<Rightarrow> string" where
  "quote_key quote = casefold (join '' '' (words_of quote))"

record grounding_state =
  gs_errors :: "grounding_error list"
  gs_seen :: "(target_type \<times> string \<times> string) set"
  gs_tables :: "string set"

definition add_error :: "grounding_error \<Rightarrow> grounding_state \<Rightarrow> grounding_state" where
  "add_error e st = st\<lparr>gs_errors := gs_errors st @ [e]\<rparr>"

definition check_quote :: "nat \<Rightarrow> target_type \<Rightarrow> string \<Rightarrow> string \<Rightarrow> string \<Rightarrow> grounding_state \<Rightarrow> grounding_state" where
  "check_quote idx tt target_id quote body st =
     (if words_of quote = [] then add_error (EmptyQuote idx) st
      else if re_search (words_of quote) body 0 = None then add_error (QuoteAbsent idx tt target_id) st
      else st)"

text \<open>The body of the loop of \<open>evidence_errors\<close>.\<close>

definition check_candidate ::
  "parsed_any \<Rightarrow> nat \<Rightarrow> evidence_candidate \<Rightarrow> grounding_state \<Rightarrow> grounding_state" where
  "check_candidate doc idx c st =
     (case target_of c of
        None \<Rightarrow> add_error (BadTarget idx) st
      | Some (tt, target_id) \<Rightarrow>
          (let quote = strip (cn_quote c); key = (tt, target_id, quote_key quote) in
           if key \<in> gs_seen st then add_error (DuplicateReference idx tt) st
           else
             (let st' = st\<lparr>gs_seen := insert key (gs_seen st)\<rparr> in
              case tt of
                BlockTarget \<Rightarrow>
                  (case block_text doc target_id of
                     None \<Rightarrow> add_error (UnknownBlock idx target_id) st'
                   | Some body \<Rightarrow> check_quote idx tt target_id quote body st')
              | CellTarget \<Rightarrow>
                  (case cells_of doc target_id of
                     None \<Rightarrow> add_error (UnknownCell idx target_id) st'
                   | Some (table, cell) \<Rightarrow>
                       (let st'' = st'\<lparr>gs_tables := insert (tb_id table) (gs_tables st')\<rparr> in
                        if ce_bbox cell = None then add_error (NoBoundingBox idx target_id) st''
                        else check_quote idx tt target_id quote (ce_text cell) st'')))))"

fun check_candidates ::
  "parsed_any \<Rightarrow> nat \<Rightarrow> evidence_candidate list \<Rightarrow> grounding_state \<Rightarrow> grounding_state" where
  "check_candidates doc idx [] st = st"
| "check_candidates doc idx (c # cs) st = check_candidates doc (Suc idx) cs (check_candidate doc idx c st)"

definition grounding_start :: grounding_state where
  "grounding_start = \<lparr>gs_errors = [], gs_seen = {}, gs_tables = {}\<rparr>"

definition evidence_errors :: "parsed_any \<Rightarrow> evidence_candidate list \<Rightarrow> grounding_error list" where
  "evidence_errors doc cs =
     (if cs = [] then [NoEvidence]
      else
        (let st = check_candidates doc 1 cs grounding_start in
         gs_errors st @ (if card (gs_tables st) > 1 then [MixedTables] else [])))"

text \<open>What \<open>resolve_evidence\<close> may raise: grounding errors, a missing key, or a model's validator.\<close>

datatype grounding_exception =
    EvidenceGrounding "grounding_error list"
  | GroundingMessage string
  | GroundingKey string
  | GroundingInvalid py_error

definition lift_invalid :: "'a result \<Rightarrow> grounding_exception + 'a" where
  "lift_invalid r = (case r of Inl e \<Rightarrow> Inl (GroundingInvalid e) | Inr x \<Rightarrow> Inr x)"

definition lookup_or_key :: "'a option \<Rightarrow> string \<Rightarrow> grounding_exception + 'a" where
  "lookup_or_key x k = (case x of None \<Rightarrow> Inl (GroundingKey k) | Some y \<Rightarrow> Inr y)"

definition slice :: "nat \<Rightarrow> nat \<Rightarrow> string \<Rightarrow> string" where
  "slice i j s = take (j - i) (drop i s)"

text \<open>\<open>_quote_pattern(candidate.quote.strip()).search(text)\<close> with the two errors around it.\<close>

definition search_quote :: "evidence_candidate \<Rightarrow> string \<Rightarrow> grounding_exception + nat \<times> nat" where
  "search_quote c body =
     (let ts = words_of (strip (cn_quote c)) in
      if ts = [] then Inl (EvidenceGrounding [EmptyQuote 0])
      else (case re_search ts body 0 of
        None \<Rightarrow> Inl (GroundingMessage ''validated evidence unexpectedly stopped resolving'')
      | Some ij \<Rightarrow> Inr ij))"

definition resolve_candidate :: "parsed_any \<Rightarrow> evidence_candidate \<Rightarrow> grounding_exception + evidence" where
  "resolve_candidate doc c =
     (case target_of c of
        None \<Rightarrow> Inl (EvidenceGrounding [BadTarget 0])
      | Some (tt, target_id) \<Rightarrow>
          (case doc of
             Document1 d \<Rightarrow>
               rbind (lookup_or_key (block_index d target_id) target_id) (\<lambda>b.
               rbind (search_quote c (bk_text b)) (\<lambda>(i, j).
               rbind (lift_invalid (evidence_ref_new
                 \<lparr>ev_asset_sha256 = pd_asset_sha256 d, ev_page_number = bk_page_number b,
                  ev_block_id = bk_id b, ev_quote = slice i j (bk_text b),
                  ev_start_char = int i, ev_end_char = int j\<rparr>)) (\<lambda>r. Inr (PdfEvidence r))))
           | Document2 d \<Rightarrow>
               (case tt of
                  BlockTarget \<Rightarrow>
                    rbind (lookup_or_key (block_v2_index d target_id) target_id) (\<lambda>b.
                    rbind (search_quote c (b2_text b)) (\<lambda>(i, j).
                    rbind (lift_invalid (structural_evidence_ref_new
                      \<lparr>se_target_type = BlockTarget, se_asset_sha256 = d2_asset_sha256 d,
                       se_page_number = b2_page_number b, se_block_id = b2_id b, se_table_id = None,
                       se_row_id = None, se_cell_id = None, se_row_index = None, se_column_index = None,
                       se_bbox = b2_bbox b, se_quote = slice i j (b2_text b),
                       se_start_char = int i, se_end_char = int j\<rparr>)) (\<lambda>r. Inr (StructuralEvidence r))))
                | CellTarget \<Rightarrow>
                    rbind (lookup_or_key (cell_index d target_id) target_id) (\<lambda>(table, cell).
                    rbind (lookup_or_key (block_v2_index d (tb_block_id table)) (tb_block_id table)) (\<lambda>b.
                    rbind (search_quote c (ce_text cell)) (\<lambda>(i, j).
                    (case ce_bbox cell of
                       None \<Rightarrow> Inl (GroundingMessage ''cell evidence has no visual bounding box'')
                     | Some box \<Rightarrow>
                         rbind (lift_invalid (structural_evidence_ref_new
                           \<lparr>se_target_type = CellTarget, se_asset_sha256 = d2_asset_sha256 d,
                            se_page_number = tb_page_number table, se_block_id = b2_id b,
                            se_table_id = Some (tb_id table), se_row_id = Some (ce_row_id cell),
                            se_cell_id = Some (ce_id cell), se_row_index = Some (ce_row_index cell),
                            se_column_index = Some (ce_column_index cell), se_bbox = box,
                            se_quote = slice i j (ce_text cell),
                            se_start_char = int i, se_end_char = int j\<rparr>))
                           (\<lambda>r. Inr (StructuralEvidence r)))))))))"

definition resolve_evidence ::
  "parsed_any \<Rightarrow> evidence_candidate list \<Rightarrow> grounding_exception + evidence list" where
  "resolve_evidence doc cs =
     (let errors = evidence_errors doc cs in
      if errors \<noteq> [] then Inl (EvidenceGrounding errors) else rmap (resolve_candidate doc) cs)"

text \<open>
  \<open>validate_resolved_evidence\<close>: each persisted reference is resolved again; the first problem raises.
\<close>

type_synonym validation_state = "(target_type \<times> string \<times> string) set \<times> string set"

definition evidence_asset :: "evidence \<Rightarrow> string" where
  "evidence_asset r = (case r of PdfEvidence e \<Rightarrow> ev_asset_sha256 e | StructuralEvidence s \<Rightarrow> se_asset_sha256 s)"

definition evidence_span :: "evidence \<Rightarrow> int \<times> int" where
  "evidence_span r = (case r of PdfEvidence e \<Rightarrow> (ev_start_char e, ev_end_char e)
     | StructuralEvidence s \<Rightarrow> (se_start_char s, se_end_char s))"

definition or_empty :: "string option \<Rightarrow> string" where
  "or_empty x = (case x of None \<Rightarrow> [] | Some s \<Rightarrow> s)"

definition evidence_identity :: "evidence \<Rightarrow> target_type \<times> string \<times> string" where
  "evidence_identity r = (case r of
     PdfEvidence e \<Rightarrow> (BlockTarget, ev_block_id e, quote_key (ev_quote e))
   | StructuralEvidence s \<Rightarrow>
       (se_target_type s,
        (if or_empty (se_cell_id s) \<noteq> [] then or_empty (se_cell_id s) else se_block_id s),
        quote_key (se_quote s)))"

definition raise_grounding :: "string \<Rightarrow> grounding_exception + 'a" where
  "raise_grounding m = Inl (GroundingMessage m)"

definition require_grounding :: "bool \<Rightarrow> string \<Rightarrow> 'a \<Rightarrow> grounding_exception + 'a" where
  "require_grounding ok m x = guards [(ok, GroundingMessage m)] x"

text \<open>The text a reference points into, with the checks of its location, and the tables seen so far.\<close>

definition locate_evidence ::
  "parsed_any \<Rightarrow> evidence \<Rightarrow> string set \<Rightarrow> grounding_exception + string \<times> string set" where
  "locate_evidence doc r tables =
     (case r of
        PdfEvidence e \<Rightarrow>
          (case doc of
             Document2 d \<Rightarrow> raise_grounding ''schema-v1 evidence cannot address a schema-v2 document''
           | Document1 d \<Rightarrow>
               (case block_index d (ev_block_id e) of
                  None \<Rightarrow> raise_grounding ''unknown evidence block''
                | Some b \<Rightarrow> require_grounding (ev_page_number e = bk_page_number b)
                    ''evidence page does not match block page'' (bk_text b, tables)))
      | StructuralEvidence s \<Rightarrow>
          (case doc of
             Document1 d \<Rightarrow> raise_grounding ''schema-v2 evidence cannot address a schema-v1 document''
           | Document2 d \<Rightarrow>
               (case block_v2_index d (se_block_id s) of
                  None \<Rightarrow> raise_grounding ''structural evidence block/page does not resolve''
                | Some b \<Rightarrow>
                    if b2_page_number b \<noteq> se_page_number s
                    then raise_grounding ''structural evidence block/page does not resolve''
                    else (case se_target_type s of
                        BlockTarget \<Rightarrow> require_grounding (se_bbox s = b2_bbox b)
                          ''structural block evidence bbox is forged'' (b2_text b, tables)
                      | CellTarget \<Rightarrow>
                          (case cell_index d (or_empty (se_cell_id s)) of
                             None \<Rightarrow> raise_grounding ''unknown evidence cell''
                           | Some (table, cell) \<Rightarrow> require_grounding
                               (se_table_id s = Some (tb_id table) \<and> se_row_id s = Some (ce_row_id cell) \<and>
                                se_row_index s = Some (ce_row_index cell) \<and>
                                se_column_index s = Some (ce_column_index cell) \<and>
                                se_page_number s = tb_page_number table \<and>
                                se_block_id s = tb_block_id table \<and> Some (se_bbox s) = ce_bbox cell)
                               ''structural cell evidence contains forged location data''
                               (ce_text cell, insert (tb_id table) tables))))))"

text \<open>
  \<open>ref.end_char > len(text) or text[start:end] != ref.quote\<close>; the offsets of a reference are not
  negative (its constructor's fields), so the slice counts from the front.
\<close>

definition offsets_resolve :: "evidence \<Rightarrow> string \<Rightarrow> bool" where
  "offsets_resolve r body \<longleftrightarrow> (let (i, j) = evidence_span r in
     j \<le> int (length body) \<and> slice (nat i) (nat j) body = evidence_quote r)"

definition validate_reference ::
  "parsed_any \<Rightarrow> evidence \<Rightarrow> validation_state \<Rightarrow> grounding_exception + validation_state" where
  "validate_reference doc r st =
     (let (seen, tables) = st in
      rbind (require_grounding (evidence_identity r \<notin> seen) ''duplicate persisted evidence reference'' ()) (\<lambda>_.
      rbind (locate_evidence doc r tables) (\<lambda>(body, tables').
      require_grounding (offsets_resolve r body) ''evidence offsets/quote do not resolve''
        (insert (evidence_identity r) seen, tables'))))"

fun validate_references ::
  "parsed_any \<Rightarrow> evidence list \<Rightarrow> validation_state \<Rightarrow> grounding_exception + validation_state" where
  "validate_references doc [] st = Inr st"
| "validate_references doc (r # rs) st = rbind (validate_reference doc r st) (validate_references doc rs)"

definition validate_resolved_evidence :: "parsed_any \<Rightarrow> evidence list \<Rightarrow> grounding_exception + unit" where
  "validate_resolved_evidence doc rs =
     rbind (require_grounding (list_all (\<lambda>r. evidence_asset r = asset_of doc) rs)
       ''evidence points to a different source asset'' ()) (\<lambda>_.
     rbind (validate_references doc rs ({}, {})) (\<lambda>(seen, tables).
     require_grounding (card tables \<le> 1) ''cell evidence for one claim must not mix tables'' ()))"

section \<open>The search finds the leftmost occurrence\<close>

text \<open>The text of a match: the tokens with whitespace of any length between them.\<close>

fun spaced :: "string list \<Rightarrow> string \<Rightarrow> bool" where
  "spaced [] m \<longleftrightarrow> m = []"
| "spaced [t] m \<longleftrightarrow> m = t"
| "spaced (t # u # ts) m \<longleftrightarrow>
     (\<exists>w m'. m = t @ w @ m' \<and> w \<noteq> [] \<and> list_all is_space w \<and> spaced (u # ts) m')"

lemma first_some_last:
  assumes "\<And>k. k < n \<Longrightarrow> f k = None"
  shows "first_some f (rev [Suc 0 ..< Suc n]) = (if n = 0 then None else f n)"
proof -
  have "\<forall>k \<in> set ks. f k = None \<Longrightarrow> first_some f ks = None" for ks
    by (induction ks) auto
  then have "first_some f (rev [Suc 0 ..< n]) = None" using assms by simp
  then show ?thesis by (cases n) (auto split: option.splits)
qed

lemma re_match_prefix: "re_match (t # ts) s = Some n \<Longrightarrow> take (length t) s = t"
  by (cases ts) (auto split: if_splits)

lemma re_match_blank:
  assumes "word_ok t" and "s \<noteq> []" and "is_space (hd s)"
  shows "re_match (t # ts) s = None"
proof (rule ccontr)
  assume "re_match (t # ts) s \<noteq> None"
  then have "take (length t) s = t" using re_match_prefix by auto
  then have "hd t = hd s" using assms(1,2) by (metis hd_take length_greater_0_conv word_ok_def)
  then show False using assms(1,3) by (cases t) (auto simp: word_ok_def)
qed

text \<open>Backtracking never helps: only the whole run of whitespace can precede the next token.\<close>

lemma re_match_greedy:
  assumes "word_ok u"
  shows "re_match (t # u # ts) s =
    (if take (length t) s = t \<and> space_run (drop (length t) s) \<noteq> 0 then
       map_option (\<lambda>n. length t + space_run (drop (length t) s) + n)
         (re_match (u # ts) (drop (space_run (drop (length t) s)) (drop (length t) s)))
     else None)"
proof -
  let ?r = "drop (length t) s"
  have "re_match (u # ts) (drop k ?r) = None" if "k < space_run ?r" for k
  proof (rule re_match_blank [OF assms])
    have k: "k < length (takeWhile is_space ?r)" using that by (simp add: space_run_def)
    then have len: "k < length ?r" using length_takeWhile_le le_trans less_le_trans by blast
    then show "drop k ?r \<noteq> []" by simp
    have "hd (drop k ?r) = takeWhile is_space ?r ! k"
      using k len by (simp add: hd_drop_conv_nth takeWhile_nth del: drop_drop)
    then show "is_space (hd (drop k ?r))" using nth_mem [OF k] set_takeWhileD by metis
  qed
  then show ?thesis by (simp add: first_some_last Let_def del: upt_Suc)
qed

lemma spaced_nonempty: "list_all word_ok ts \<Longrightarrow> ts \<noteq> [] \<Longrightarrow> spaced ts m \<Longrightarrow>
  m \<noteq> [] \<and> \<not> is_space (hd m) \<and> \<not> is_space (last m)"
proof (induction ts m rule: spaced.induct)
  case (2 t m)
  then show ?case by (cases t) (auto simp: word_ok_def list_all_iff)
next
  case (3 t u ts m)
  then obtain w m' where m: "m = t @ w @ m'" "spaced (u # ts) m'" by auto
  with 3 have "m' \<noteq> [] \<and> \<not> is_space (last m')" by auto
  then show ?case using m(1) 3(2) by (cases t) (auto simp: word_ok_def)
qed simp

lemma spaced_words: "list_all word_ok ts \<Longrightarrow> spaced ts m \<Longrightarrow> words_of m = ts"
proof (induction ts m rule: spaced.induct)
  case (2 t m)
  then show ?case using words_of_word [of t "[]"] by simp
next
  case (3 t u ts m)
  then obtain w m' where m: "m = t @ w @ m'" "w \<noteq> []" "list_all is_space w" "spaced (u # ts) m'" by auto
  then have "words_of m = t # words_of (w @ m')"
    using 3(2) words_of_word [of t "w @ m'"] by (cases w) auto
  then show ?case using 3 m by (simp add: words_of_spaces)
qed simp

text \<open>Text that starts and ends with a word is its words with whitespace between them.\<close>

lemma words_spaced:
  assumes "m \<noteq> []" and "\<not> is_space (hd m)" and "\<not> is_space (last m)"
  shows "spaced (words_of m) m"
  using assms
proof (induction "length m" arbitrary: m rule: less_induct)
  case less
  obtain t r where m: "m = t @ r" "list_all (\<lambda>c. \<not> is_space c) t" "r = [] \<or> is_space (hd r)"
    using span_split [of m "\<lambda>c. \<not> is_space c"] by auto
  then have "t \<noteq> []" using less.prems(1,2) by auto
  then have t: "word_ok t" using m(2) by (simp add: word_ok_def)
  show ?case
  proof (cases "r = []")
    case True
    then show ?thesis using words_of_word [OF t, of "[]"] m(1) by simp
  next
    case False
    obtain w n where r: "r = w @ n" "list_all is_space w" "n = [] \<or> \<not> is_space (hd n)"
      using span_split [of r is_space] by auto
    have w: "w \<noteq> []" using r m(3) False by auto
    have "n \<noteq> []"
      using less.prems(3) m(1) r(1,2) False w by (auto simp: list_all_iff)
    then have n: "n \<noteq> []" "\<not> is_space (hd n)" "\<not> is_space (last n)"
      using r less.prems(3) m(1) by auto
    have IH: "spaced (words_of n) n"
      using \<open>t \<noteq> []\<close> n m(1) r(1) by (intro less.hyps) auto
    have "words_of m = t # words_of n"
      using words_of_word [OF t, of r] m(1,3) words_of_spaces [OF r(2), of n] by (simp add: r(1))
    moreover obtain u us where "words_of n = u # us" using n by (cases n) auto
    ultimately show ?thesis using IH w r m(1) by auto
  qed
qed

lemma space_run_append:
  assumes "list_all is_space w" and "m \<noteq> []" and "\<not> is_space (hd m)"
  shows "space_run (w @ m) = length w"
proof -
  have "takeWhile is_space (w @ m) = w"
    using assms by (cases m) (auto simp: list_all_iff takeWhile_append2)
  then show ?thesis by (simp add: space_run_def)
qed

lemma re_match_iff:
  assumes "list_all word_ok ts"
  shows "re_match ts s = Some n \<longleftrightarrow> (\<exists>m s'. s = m @ s' \<and> n = length m \<and> spaced ts m)"
  using assms
proof (induction ts arbitrary: s n)
  case (Cons t ts)
  show ?case
  proof (cases ts)
    case Nil
    then show ?thesis by (auto, metis append_take_drop_id)
  next
    case (Cons u us)
    let ?r = "drop (length t) s"
    let ?k = "space_run ?r"
    have u: "word_ok u" using Cons.prems Cons by simp
    have IH: "re_match (u # us) s' = Some n' \<longleftrightarrow> (\<exists>m s''. s' = m @ s'' \<and> n' = length m \<and> spaced (u # us) m)"
      for s' n' using Cons.IH Cons.prems Cons by simp
    show ?thesis unfolding Cons
    proof
      assume "re_match (t # u # us) s = Some n"
      then obtain n' where t: "take (length t) s = t" "?k \<noteq> 0" "n = length t + ?k + n'"
        and "re_match (u # us) (drop ?k ?r) = Some n'"
        unfolding re_match_greedy [OF u] by (auto split: if_splits)
      then obtain m s'' where m: "drop ?k ?r = m @ s''" "n' = length m" "spaced (u # us) m"
        unfolding IH by blast
      let ?w = "takeWhile is_space ?r"
      have k: "?k = length ?w" by (simp add: space_run_def)
      have "s = t @ ?r" using t(1) by (metis append_take_drop_id)
      also have "?r = ?w @ drop ?k ?r" unfolding k by (metis dropWhile_eq_drop takeWhile_dropWhile_id)
      finally have "s = (t @ ?w @ m) @ s''" using m(1) by simp
      moreover have "spaced (t # u # us) (t @ ?w @ m)"
        unfolding spaced.simps using m(3) t(2) k
        by (intro exI [of _ ?w] exI [of _ m]) (auto simp: list_all_iff dest: set_takeWhileD)
      moreover have "n = length (t @ ?w @ m)" using t(3) m(2) k by simp
      ultimately show "\<exists>m s'. s = m @ s' \<and> n = length m \<and> spaced (t # u # us) m" by blast
    next
      assume "\<exists>m s'. s = m @ s' \<and> n = length m \<and> spaced (t # u # us) m"
      then obtain w m s' where s: "s = t @ w @ m @ s'" and n: "n = length t + length w + length m"
        and w: "w \<noteq> []" "list_all is_space w" and m: "spaced (u # us) m" by auto
      have "m \<noteq> []" "\<not> is_space (hd m)"
        using spaced_nonempty [OF _ _ m] Cons.prems Cons by auto
      then have k: "?k = length w"
        using space_run_append [OF w(2), of "m @ s'"] by (simp add: s)
      have "re_match (u # us) (m @ s') = Some (length m)" unfolding IH using m by blast
      then show "re_match (t # u # us) s = Some n"
        unfolding re_match_greedy [OF u] k using w(1) by (simp add: s n)
    qed
  qed
qed simp

text \<open>
  The reference: the words \<open>ts\<close> occur in the text from \<open>i\<close> to \<open>j\<close>, with any whitespace between
  them and none at the ends.
\<close>

definition occurs :: "string list \<Rightarrow> string \<Rightarrow> nat \<Rightarrow> nat \<Rightarrow> bool" where
  "occurs ts body i j \<longleftrightarrow> i < j \<and> j \<le> length body \<and> words_of (slice i j body) = ts \<and>
     \<not> is_space (body ! i) \<and> \<not> is_space (body ! (j - 1))"

lemma spaced_iff:
  assumes "list_all word_ok ts" and "ts \<noteq> []"
  shows "spaced ts m \<longleftrightarrow> words_of m = ts \<and> m \<noteq> [] \<and> \<not> is_space (hd m) \<and> \<not> is_space (last m)"
  using spaced_words [OF assms(1)] spaced_nonempty [OF assms] words_spaced by blast

lemma slice_ends:
  assumes "i < j" and "j \<le> length body"
  shows "slice i j body \<noteq> []" "hd (slice i j body) = body ! i" "last (slice i j body) = body ! (j - 1)"
    "length (slice i j body) = j - i"
proof -
  show len: "length (slice i j body) = j - i" using assms by (simp add: slice_def)
  then show ne: "slice i j body \<noteq> []" using assms by auto
  show "hd (slice i j body) = body ! i" using assms by (simp add: slice_def hd_drop_conv_nth)
  show "last (slice i j body) = body ! (j - 1)"
    using assms unfolding last_conv_nth [OF ne] len by (simp add: slice_def)
qed

lemma match_occurs:
  assumes "list_all word_ok ts" and "ts \<noteq> []"
  shows "re_match ts (drop i body) = Some n \<longleftrightarrow> occurs ts body i (i + n)"
proof
  assume "re_match ts (drop i body) = Some n"
  then obtain m s' where m: "drop i body = m @ s'" "n = length m" "spaced ts m"
    using re_match_iff [OF assms(1)] by blast
  then have sl: "slice i (i + n) body = m" by (simp add: slice_def)
  have ne: "m \<noteq> []" using m(3) spaced_iff [OF assms] by simp
  have "length (drop i body) = n + length s'" using m(1,2) by simp
  then have len: "i < i + n" "i + n \<le> length body" using ne m(2) by (auto simp: neq_Nil_conv)
  show "occurs ts body i (i + n)"
    using m(3) slice_ends [OF len] len unfolding occurs_def sl spaced_iff [OF assms] by simp
next
  assume "occurs ts body i (i + n)"
  then have len: "i < i + n" "i + n \<le> length body" and "spaced ts (slice i (i + n) body)"
    unfolding spaced_iff [OF assms] using slice_ends [of i "i + n" body] by (auto simp: occurs_def)
  moreover have "drop i body = slice i (i + n) body @ drop n (drop i body)"
    by (simp add: slice_def del: drop_drop)
  moreover have "n = length (slice i (i + n) body)" using slice_ends(4) [OF len] by simp
  ultimately show "re_match ts (drop i body) = Some n"
    using re_match_iff [OF assms(1)] by blast
qed

lemma re_search_Some:
  "re_search ts s k = Some (i, j) \<longleftrightarrow>
     (\<exists>d n. d \<le> length s \<and> i = k + d \<and> j = k + d + n \<and> re_match ts (drop d s) = Some n \<and>
        (\<forall>d' < d. re_match ts (drop d' s) = None))"
proof (induction ts s k rule: re_search.induct)
  case (2 ts c cs k)
  show ?case
  proof (cases "re_match ts (c # cs)")
    case None
    have "(\<exists>d n. d \<le> length (c # cs) \<and> i = k + d \<and> j = k + d + n \<and> re_match ts (drop d (c # cs)) = Some n \<and>
        (\<forall>d' < d. re_match ts (drop d' (c # cs)) = None)) \<longleftrightarrow>
      (\<exists>d n. d \<le> length cs \<and> i = Suc k + d \<and> j = Suc k + d + n \<and> re_match ts (drop d cs) = Some n \<and>
        (\<forall>d' < d. re_match ts (drop d' cs) = None))" (is "?L \<longleftrightarrow> ?R")
    proof
      assume ?L
      then obtain d n where d: "d \<le> length (c # cs)" "i = k + d" "j = k + d + n"
        "re_match ts (drop d (c # cs)) = Some n" "\<forall>d' < d. re_match ts (drop d' (c # cs)) = None" by blast
      with None obtain e where "d = Suc e" by (cases d) auto
      with d show ?R by (intro exI [of _ e] exI [of _ n]) (auto dest: spec [of _ "Suc _"])
    next
      assume ?R
      then obtain d n where d: "d \<le> length cs" "i = Suc k + d" "j = Suc k + d + n"
        "re_match ts (drop d cs) = Some n" "\<forall>d' < d. re_match ts (drop d' cs) = None" by blast
      have "re_match ts (drop d' (c # cs)) = None" if "d' < Suc d" for d'
        using that None d(5) by (cases d') auto
      with d show ?L by (intro exI [of _ "Suc d"] exI [of _ n]) auto
    qed
    with 2 None show ?thesis by simp
  next
    case (Some m)
    have "d = 0" if "\<forall>d' < d. re_match ts (drop d' (c # cs)) = None" for d
      using that Some by (cases d) auto
    then have "(\<exists>d n. d \<le> length (c # cs) \<and> i = k + d \<and> j = k + d + n \<and>
        re_match ts (drop d (c # cs)) = Some n \<and> (\<forall>d' < d. re_match ts (drop d' (c # cs)) = None)) \<longleftrightarrow>
      i = k \<and> j = k + m"
      using Some by (metis add.right_neutral drop0 less_nat_zero_code option.inject zero_le)
    with Some show ?thesis by auto
  qed
qed auto

lemma re_search_exact:
  assumes "list_all word_ok ts" and "ts \<noteq> []"
  shows "re_search ts body 0 = Some (i, j) \<longleftrightarrow>
    occurs ts body i j \<and> (\<forall>i' < i. \<forall>j'. \<not> occurs ts body i' j')"
proof -
  note match = match_occurs [OF assms]
  have none: "re_match ts (drop d body) = None \<longleftrightarrow> (\<forall>j'. \<not> occurs ts body d j')" for d
  proof -
    have "(\<exists>n. re_match ts (drop d body) = Some n) \<longleftrightarrow> (\<exists>j'. occurs ts body d j')"
      unfolding match by (metis le_add_diff_inverse less_imp_le occurs_def)
    then show ?thesis by (metis not_None_eq)
  qed
  show ?thesis
    unfolding re_search_Some match none
    by (auto simp: occurs_def intro!: exI [of _ "j - i"])
qed

lemma re_search_None:
  assumes "list_all word_ok ts" and "ts \<noteq> []"
  shows "re_search ts body 0 = None \<longleftrightarrow> (\<forall>i j. \<not> occurs ts body i j)"
proof
  assume none: "re_search ts body 0 = None"
  show "\<forall>i j. \<not> occurs ts body i j"
  proof (intro allI notI)
    fix i j assume "occurs ts body i j"
    then have "\<exists>i j. occurs ts body i j" by blast
    then obtain j' where "occurs ts body (LEAST i. \<exists>j. occurs ts body i j) j'"
      using LeastI_ex [of "\<lambda>i. \<exists>j. occurs ts body i j"] by blast
    moreover have "\<forall>i' < (LEAST i. \<exists>j. occurs ts body i j). \<forall>j. \<not> occurs ts body i' j"
      using not_less_Least by blast
    ultimately show False using re_search_exact [OF assms] none by (metis option.distinct(1))
  qed
next
  assume "\<forall>i j. \<not> occurs ts body i j"
  then show "re_search ts body 0 = None" using re_search_exact [OF assms] by (metis not_Some_eq surj_pair)
qed

section \<open>When the candidates are grounded\<close>

text \<open>The text a target names; an empty table cell without a box cannot be named.\<close>

definition target_text :: "parsed_any \<Rightarrow> target_type \<Rightarrow> string \<Rightarrow> string option" where
  "target_text doc tt i = (case tt of
     BlockTarget \<Rightarrow> block_text doc i
   | CellTarget \<Rightarrow> (case cells_of doc i of
        None \<Rightarrow> None
      | Some (t, c) \<Rightarrow> if ce_bbox c = None then None else Some (ce_text c)))"

definition candidate_ok :: "parsed_any \<Rightarrow> evidence_candidate \<Rightarrow> bool" where
  "candidate_ok doc c \<longleftrightarrow> (\<exists>tt i body. target_of c = Some (tt, i) \<and> target_text doc tt i = Some body \<and>
     (\<exists>m n. occurs (words_of (cn_quote c)) body m n))"

definition candidate_key :: "evidence_candidate \<Rightarrow> target_type \<times> string \<times> string" where
  "candidate_key c = (case target_of c of
     None \<Rightarrow> (BlockTarget, [], [])
   | Some (tt, i) \<Rightarrow> (tt, i, quote_key (cn_quote c)))"

definition candidate_tables :: "parsed_any \<Rightarrow> evidence_candidate \<Rightarrow> string set" where
  "candidate_tables doc c = (case target_of c of
     Some (CellTarget, i) \<Rightarrow> (case cells_of doc i of None \<Rightarrow> {} | Some (t, cell) \<Rightarrow> {tb_id t})
   | _ \<Rightarrow> {})"

definition candidates_ok :: "parsed_any \<Rightarrow> evidence_candidate list \<Rightarrow> bool" where
  "candidates_ok doc cs \<longleftrightarrow> cs \<noteq> [] \<and> (\<forall>c \<in> set cs. candidate_ok doc c) \<and>
     distinct (map candidate_key cs) \<and> card (\<Union>c \<in> set cs. candidate_tables doc c) \<le> 1"

lemma quote_key_strip [simp]: "quote_key (strip s) = quote_key s"
  by (simp add: quote_key_def)

lemma occurs_nonempty: "occurs ts body i j \<Longrightarrow> ts \<noteq> []"
proof -
  assume o: "occurs ts body i j"
  then have "slice i j body \<noteq> []" "\<not> is_space (hd (slice i j body))"
    using slice_ends [of i j body] by (auto simp: occurs_def)
  then have "words_of (slice i j body) \<noteq> []" by (cases "slice i j body") auto
  then show "ts \<noteq> []" using o by (simp add: occurs_def)
qed

lemma check_quote_fields:
  "gs_errors (check_quote idx tt i q body st) = [] \<longleftrightarrow>
     gs_errors st = [] \<and> (\<exists>m n. occurs (words_of q) body m n)"
  "gs_seen (check_quote idx tt i q body st) = gs_seen st"
  "gs_tables (check_quote idx tt i q body st) = gs_tables st"
  using re_search_None [OF words_of_ok [of q], of body] occurs_nonempty [of "words_of q" body]
  by (auto simp: check_quote_def add_error_def)

lemma check_candidate_step:
  shows "gs_errors (check_candidate doc idx c st) = [] \<longleftrightarrow>
      gs_errors st = [] \<and> candidate_ok doc c \<and> candidate_key c \<notin> gs_seen st"
    and "gs_errors (check_candidate doc idx c st) = [] \<Longrightarrow>
      gs_seen (check_candidate doc idx c st) = insert (candidate_key c) (gs_seen st) \<and>
      gs_tables (check_candidate doc idx c st) = gs_tables st \<union> candidate_tables doc c"
proof -
  have "(gs_errors (check_candidate doc idx c st) = [] \<longleftrightarrow>
      gs_errors st = [] \<and> candidate_ok doc c \<and> candidate_key c \<notin> gs_seen st) \<and>
    (gs_errors (check_candidate doc idx c st) = [] \<longrightarrow>
      gs_seen (check_candidate doc idx c st) = insert (candidate_key c) (gs_seen st) \<and>
      gs_tables (check_candidate doc idx c st) = gs_tables st \<union> candidate_tables doc c)"
  proof (cases "target_of c")
    case None
    then show ?thesis by (simp add: check_candidate_def add_error_def candidate_ok_def)
  next
    case (Some ti)
    then obtain tt i where t: "target_of c = Some (tt, i)" by (cases ti) auto
    have key: "candidate_key c = (tt, i, quote_key (cn_quote c))" by (simp add: candidate_key_def t)
    have ok: "candidate_ok doc c \<longleftrightarrow> (\<exists>body. target_text doc tt i = Some body \<and>
        (\<exists>m n. occurs (words_of (cn_quote c)) body m n))"
      by (simp add: candidate_ok_def t)
    show ?thesis
    proof (cases "candidate_key c \<in> gs_seen st")
      case True
      then show ?thesis by (simp add: check_candidate_def t key Let_def add_error_def)
    next
      case False
      then show ?thesis
        by (cases tt)
          (auto simp: check_candidate_def t key ok Let_def add_error_def target_text_def
            candidate_tables_def check_quote_fields split: option.splits)
    qed
  qed
  then show "gs_errors (check_candidate doc idx c st) = [] \<longleftrightarrow>
      gs_errors st = [] \<and> candidate_ok doc c \<and> candidate_key c \<notin> gs_seen st"
    and "gs_errors (check_candidate doc idx c st) = [] \<Longrightarrow>
      gs_seen (check_candidate doc idx c st) = insert (candidate_key c) (gs_seen st) \<and>
      gs_tables (check_candidate doc idx c st) = gs_tables st \<union> candidate_tables doc c"
    by blast+
qed

lemma check_candidates_result:
  "(gs_errors (check_candidates doc idx cs st) = [] \<longleftrightarrow>
      gs_errors st = [] \<and> (\<forall>c \<in> set cs. candidate_ok doc c) \<and> distinct (map candidate_key cs) \<and>
      candidate_key ` set cs \<inter> gs_seen st = {}) \<and>
   (gs_errors (check_candidates doc idx cs st) = [] \<longrightarrow>
      gs_tables (check_candidates doc idx cs st) = gs_tables st \<union> (\<Union>c \<in> set cs. candidate_tables doc c))"
proof (induction cs arbitrary: idx st)
  case (Cons c cs)
  let ?st = "check_candidate doc idx c st"
  show ?case
  proof (cases "gs_errors ?st = []")
    case True
    note step = check_candidate_step(1) [THEN iffD1, OF True] check_candidate_step(2) [OF True]
    show ?thesis using Cons.IH [of "Suc idx" ?st] True step by auto
  next
    case False
    then have "gs_errors (check_candidates doc (Suc idx) cs ?st) \<noteq> []" using Cons.IH by simp
    moreover have "\<not> (gs_errors st = [] \<and> candidate_ok doc c \<and> candidate_key c \<notin> gs_seen st)"
      using False by (simp only: check_candidate_step(1) not_False_eq_True)
    ultimately show ?thesis by auto
  qed
qed simp

lemma evidence_errors_iff: "evidence_errors doc cs = [] \<longleftrightarrow> candidates_ok doc cs"
  using check_candidates_result [of doc 1 cs grounding_start]
  by (auto simp: evidence_errors_def candidates_ok_def Let_def grounding_start_def)

section \<open>What a resolved reference is\<close>

definition parsed_any_wf :: "py_env \<Rightarrow> parsed_any \<Rightarrow> bool" where
  "parsed_any_wf E doc = (case doc of
     Document1 d \<Rightarrow> parsed_document_wf d | Document2 d \<Rightarrow> parsed_document_v2_wf E d)"

text \<open>
  A reference grounds a candidate when it carries the leftmost occurrence of the candidate's words
  in the target's text, verbatim and with its offsets, and its location passes the re-validation.
\<close>

definition grounded :: "parsed_any \<Rightarrow> evidence_candidate \<Rightarrow> evidence \<Rightarrow> bool" where
  "grounded doc c r \<longleftrightarrow> (\<exists>tt k body i j.
     target_of c = Some (tt, k) \<and> target_text doc tt k = Some body \<and>
     occurs (words_of (cn_quote c)) body i j \<and>
     (\<forall>i' < i. \<forall>j'. \<not> occurs (words_of (cn_quote c)) body i' j') \<and>
     evidence_asset r = asset_of doc \<and> evidence_span r = (int i, int j) \<and>
     evidence_quote r = slice i j body \<and> evidence_identity r = candidate_key c \<and>
     (\<forall>T. locate_evidence doc r T = Inr (body, candidate_tables doc c \<union> T)))"

lemma dict_by_Some: "dict_by key xs k = Some x \<Longrightarrow> x \<in> set xs \<and> key x = k"
  by (auto simp: dict_by_def dest: map_of_SomeD)

lemma dict_by_mem:
  assumes "x \<in> set xs" and "distinct (map key xs)"
  shows "dict_by key xs (key x) = Some x"
  unfolding dict_by_def using assms by (intro map_of_is_SomeI) (auto simp: comp_def simp flip: rev_map)

lemma search_quote_ok:
  assumes "occurs (words_of (cn_quote c)) body m n"
  shows "\<exists>i j. search_quote c body = Inr (i, j) \<and> occurs (words_of (cn_quote c)) body i j \<and>
    (\<forall>i' < i. \<forall>j'. \<not> occurs (words_of (cn_quote c)) body i' j')"
proof -
  let ?ts = "words_of (cn_quote c)"
  note ne = occurs_nonempty [OF assms]
  have "re_search ?ts body 0 \<noteq> None" using re_search_None [OF words_of_ok ne] assms by auto
  then obtain i j where "re_search ?ts body 0 = Some (i, j)" by auto
  with ne show ?thesis
    using re_search_exact [OF words_of_ok ne, of body i j] by (simp add: search_quote_def Let_def)
qed

lemma not_blank_words: "words_of s \<noteq> [] \<Longrightarrow> \<not> blank s"
  using words_of_strip [of s] by (auto simp: blank_def simp del: words_of_strip)

text \<open>The facts about an occurrence that the constructors of the references ask for.\<close>

lemma occurs_quote:
  assumes "occurs (words_of q) body i j"
  shows "\<not> blank (slice i j body)" "Suc 0 \<le> length (slice i j body)" "i < j" "j \<le> length body"
    "quote_key (slice i j body) = quote_key q"
proof -
  show ij: "i < j" "j \<le> length body" using assms by (simp_all add: occurs_def)
  have w: "words_of (slice i j body) = words_of q" using assms by (simp add: occurs_def)
  then show "\<not> blank (slice i j body)"
    using occurs_nonempty [OF assms] not_blank_words by metis
  show "Suc 0 \<le> length (slice i j body)" using slice_ends(4) [OF ij] ij by simp
  show "quote_key (slice i j body) = quote_key q" by (simp add: quote_key_def w)
qed

lemma block_index_Some:
  assumes "parsed_document_wf d" and "block_index d k = Some b"
  shows "bk_id b = k" "block_id_pattern (bk_id b)" "1 \<le> bk_page_number b"
    "sha256_pattern (pd_asset_sha256 d)"
proof -
  have "b \<in> set (document_blocks d)" "bk_id b = k"
    using assms(2) dict_by_Some unfolding block_index_def by metis+
  then obtain p where "p \<in> set (pd_pages d)" "b \<in> set (pg_blocks p)" by (auto simp: document_blocks_def)
  with assms(1) have "document_block_new b = Inr b"
    by (auto simp: parsed_document_wf_def parsed_page_wf_def list_all_iff)
  then show "block_id_pattern (bk_id b)" "1 \<le> bk_page_number b" by (simp_all add: document_block_new_def)
  show "bk_id b = k" by fact
  show "sha256_pattern (pd_asset_sha256 d)"
    using assms(1) by (simp add: parsed_document_wf_def parsed_document_new_def)
qed

lemma resolve_v1:
  assumes wf: "parsed_document_wf d" and ok: "candidate_ok (Document1 d) c"
  shows "\<exists>r. resolve_candidate (Document1 d) c = Inr r \<and> grounded (Document1 d) c r"
proof -
  from ok obtain tt k body m n where t: "target_of c = Some (tt, k)"
    and body: "target_text (Document1 d) tt k = Some body"
    and o: "occurs (words_of (cn_quote c)) body m n" by (auto simp: candidate_ok_def)
  have tt: "tt = BlockTarget" using body by (cases tt) (auto simp: target_text_def cells_of_def)
  then obtain b where b: "block_index d k = Some b" "body = bk_text b"
    using body by (auto simp: target_text_def block_text_def)
  note blk = block_index_Some [OF wf b(1)]
  obtain i j where s: "search_quote c (bk_text b) = Inr (i, j)"
    and ij: "occurs (words_of (cn_quote c)) (bk_text b) i j"
    and least: "\<forall>i' < i. \<forall>j'. \<not> occurs (words_of (cn_quote c)) (bk_text b) i' j'"
    using search_quote_ok [OF o [unfolded b(2)]] by blast
  note q = occurs_quote [OF ij]
  let ?e = "\<lparr>ev_asset_sha256 = pd_asset_sha256 d, ev_page_number = bk_page_number b,
    ev_block_id = bk_id b, ev_quote = slice i j (bk_text b), ev_start_char = int i, ev_end_char = int j\<rparr>"
  have "evidence_ref_new ?e = Inr ?e" using blk q by (simp add: evidence_ref_new_def)
  then have "resolve_candidate (Document1 d) c = Inr (PdfEvidence ?e)"
    by (simp add: resolve_candidate_def t b lookup_or_key_def s lift_invalid_def)
  moreover have "grounded (Document1 d) c (PdfEvidence ?e)"
    unfolding grounded_def
    by (rule exI [of _ BlockTarget], rule exI [of _ k], rule exI [of _ "bk_text b"],
        rule exI [of _ i], rule exI [of _ j])
      (use t body b tt ij least blk q in \<open>simp add: evidence_asset_def asset_of_def evidence_span_def
        evidence_identity_def candidate_key_def locate_evidence_def require_grounding_def guards.simps
        candidate_tables_def\<close>)
  ultimately show ?thesis by blast
qed

lemma document_v2_wf_parts:
  assumes "parsed_document_v2_wf E d"
  shows "sha256_pattern (d2_asset_sha256 d)"
    and "b \<in> set (d2_blocks d) \<Longrightarrow> document_block_v2_new b = Inr b"
    and "t \<in> set (d2_tables d) \<Longrightarrow> document_table_wf E t \<and> table_block_ok d t"
proof -
  have new: "parsed_document_v2_new d = Inr d" and parts:
    "list_all (\<lambda>b. bbox_wf E (b2_bbox b) \<and> document_block_v2_new b = Inr b) (d2_blocks d)"
    "list_all (document_table_wf E) (d2_tables d)"
    using assms by (simp_all add: parsed_document_v2_wf_def)
  have "document_v2_consistency d = Inr d"
    using new by (auto simp: parsed_document_v2_new_def rbind_Inr_iff)
  note tables = document_v2_consistency_Inr(8) [OF this]
  show "sha256_pattern (d2_asset_sha256 d)"
    using new by (auto simp: parsed_document_v2_new_def rbind_Inr_iff)
  show "b \<in> set (d2_blocks d) \<Longrightarrow> document_block_v2_new b = Inr b"
    using parts(1) by (simp add: list_all_iff)
  show "t \<in> set (d2_tables d) \<Longrightarrow> document_table_wf E t \<and> table_block_ok d t"
    using parts(2) tables by (simp add: list_all_iff)
qed

lemma block_v2_index_Some:
  assumes "parsed_document_v2_wf E d" and "block_v2_index d k = Some b"
  shows "b2_id b = k" "numbered_id ''block-'' (b2_id b)" "1 \<le> b2_page_number b"
proof -
  have "b \<in> set (d2_blocks d)" "b2_id b = k"
    using assms(2) dict_by_Some unfolding block_v2_index_def by metis+
  then show "numbered_id ''block-'' (b2_id b)" "1 \<le> b2_page_number b"
    using document_v2_wf_parts(2) [OF assms(1)] by (auto simp: document_block_v2_new_def)
  show "b2_id b = k" by fact
qed

lemma cell_index_Some:
  assumes wf: "parsed_document_v2_wf E d" and k: "cell_index d k = Some (t, c)"
  shows "ce_id c = k" "table_cell_new c = Inr c" "numbered_id ''table-'' (tb_id t)" "1 \<le> tb_page_number t"
    "\<exists>b. block_v2_index d (tb_block_id t) = Some b \<and> b2_page_number b = tb_page_number t"
proof -
  have "(t, c) \<in> set (concat (map (\<lambda>t. map (\<lambda>c. (t, c)) (tb_cells t)) (d2_tables d)))" "ce_id c = k"
    using dict_by_Some [OF k [unfolded cell_index_def]] by auto
  then have t: "t \<in> set (d2_tables d)" "c \<in> set (tb_cells t)" by auto
  note table = document_v2_wf_parts(3) [OF wf t(1)]
  show "ce_id c = k" by fact
  show "table_cell_new c = Inr c" using table t(2) by (simp add: document_table_wf_def list_all_iff)
  show "numbered_id ''table-'' (tb_id t)" "1 \<le> tb_page_number t"
    using table by (auto simp: document_table_wf_def document_table_new_def rbind_Inr_iff)
  show "\<exists>b. block_v2_index d (tb_block_id t) = Some b \<and> b2_page_number b = tb_page_number t"
    using table by (auto simp: table_block_ok_def split: option.splits)
qed

lemma resolve_v2_block:
  assumes wf: "parsed_document_v2_wf E d" and t: "target_of c = Some (BlockTarget, k)"
    and body: "target_text (Document2 d) BlockTarget k = Some body"
    and o: "occurs (words_of (cn_quote c)) body m n"
  shows "\<exists>r. resolve_candidate (Document2 d) c = Inr r \<and> grounded (Document2 d) c r"
proof -
  obtain b where b: "block_v2_index d k = Some b" "body = b2_text b"
    using body by (auto simp: target_text_def block_text_def)
  note blk = block_v2_index_Some [OF wf b(1)] document_v2_wf_parts(1) [OF wf]
  obtain i j where s: "search_quote c (b2_text b) = Inr (i, j)"
    and ij: "occurs (words_of (cn_quote c)) (b2_text b) i j"
    and least: "\<forall>i' < i. \<forall>j'. \<not> occurs (words_of (cn_quote c)) (b2_text b) i' j'"
    using search_quote_ok [OF o [unfolded b(2)]] by blast
  note q = occurs_quote [OF ij]
  let ?e = "\<lparr>se_target_type = BlockTarget, se_asset_sha256 = d2_asset_sha256 d,
    se_page_number = b2_page_number b, se_block_id = b2_id b, se_table_id = None,
    se_row_id = None, se_cell_id = None, se_row_index = None, se_column_index = None,
    se_bbox = b2_bbox b, se_quote = slice i j (b2_text b), se_start_char = int i, se_end_char = int j\<rparr>"
  have "structural_evidence_ref_new ?e = Inr ?e"
    using blk q by (simp add: structural_evidence_ref_new_def opt_all_def cell_fields_none_def)
  then have "resolve_candidate (Document2 d) c = Inr (StructuralEvidence ?e)"
    by (simp add: resolve_candidate_def t b lookup_or_key_def s lift_invalid_def)
  moreover have "grounded (Document2 d) c (StructuralEvidence ?e)"
    unfolding grounded_def
    by (rule exI [of _ BlockTarget], rule exI [of _ k], rule exI [of _ "b2_text b"],
        rule exI [of _ i], rule exI [of _ j])
      (use t body b ij least blk q in \<open>simp add: evidence_asset_def asset_of_def evidence_span_def
        evidence_identity_def candidate_key_def locate_evidence_def require_grounding_def guards.simps
        candidate_tables_def or_empty_def\<close>)
  ultimately show ?thesis by blast
qed

lemma resolve_v2_cell:
  assumes wf: "parsed_document_v2_wf E d" and t: "target_of c = Some (CellTarget, k)"
    and body: "target_text (Document2 d) CellTarget k = Some body"
    and o: "occurs (words_of (cn_quote c)) body m n"
  shows "\<exists>r. resolve_candidate (Document2 d) c = Inr r \<and> grounded (Document2 d) c r"
proof -
  obtain tab cell box where cell: "cell_index d k = Some (tab, cell)" "ce_bbox cell = Some box"
    "body = ce_text cell"
    using body by (auto simp: target_text_def cells_of_def split: option.splits if_splits)
  note ce = cell_index_Some [OF wf cell(1)]
  obtain b where b: "block_v2_index d (tb_block_id tab) = Some b" "b2_page_number b = tb_page_number tab"
    using ce(5) by blast
  note blk = block_v2_index_Some [OF wf b(1)] document_v2_wf_parts(1) [OF wf]
  have pats: "numbered_id ''cell-'' (ce_id cell)" "numbered_id ''row-'' (ce_row_id cell)"
    "0 \<le> ce_row_index cell" "0 \<le> ce_column_index cell"
    using ce(2) by (simp_all add: table_cell_new_def)
  have ne: "ce_id cell \<noteq> []" using pats(1) by (auto simp: numbered_id_def)
  obtain i j where s: "search_quote c (ce_text cell) = Inr (i, j)"
    and ij: "occurs (words_of (cn_quote c)) (ce_text cell) i j"
    and least: "\<forall>i' < i. \<forall>j'. \<not> occurs (words_of (cn_quote c)) (ce_text cell) i' j'"
    using search_quote_ok [OF o [unfolded cell(3)]] by blast
  note q = occurs_quote [OF ij]
  let ?e = "\<lparr>se_target_type = CellTarget, se_asset_sha256 = d2_asset_sha256 d,
    se_page_number = tb_page_number tab, se_block_id = b2_id b, se_table_id = Some (tb_id tab),
    se_row_id = Some (ce_row_id cell), se_cell_id = Some (ce_id cell),
    se_row_index = Some (ce_row_index cell), se_column_index = Some (ce_column_index cell), se_bbox = box,
    se_quote = slice i j (ce_text cell), se_start_char = int i, se_end_char = int j\<rparr>"
  have "structural_evidence_ref_new ?e = Inr ?e"
    using blk q ce pats by (simp add: structural_evidence_ref_new_def opt_all_def cell_fields_some_def)
  then have "resolve_candidate (Document2 d) c = Inr (StructuralEvidence ?e)"
    using b cell by (simp add: resolve_candidate_def t lookup_or_key_def s lift_invalid_def)
  moreover have "grounded (Document2 d) c (StructuralEvidence ?e)"
    unfolding grounded_def
    by (rule exI [of _ CellTarget], rule exI [of _ k], rule exI [of _ "ce_text cell"],
        rule exI [of _ i], rule exI [of _ j])
      (use t body b cell ij least blk q ce ne in \<open>simp add: evidence_asset_def asset_of_def evidence_span_def
        evidence_identity_def candidate_key_def locate_evidence_def require_grounding_def guards.simps
        candidate_tables_def or_empty_def cells_of_def\<close>)
  ultimately show ?thesis by blast
qed

lemma resolve_candidate_ok:
  assumes "parsed_any_wf E doc" and "candidate_ok doc c"
  shows "\<exists>r. resolve_candidate doc c = Inr r \<and> grounded doc c r"
proof (cases doc)
  case (Document1 d)
  then show ?thesis using assms resolve_v1 by (simp add: parsed_any_wf_def)
next
  case (Document2 d)
  obtain tt k body m n where "target_of c = Some (tt, k)" "target_text (Document2 d) tt k = Some body"
    "occurs (words_of (cn_quote c)) body m n" using assms(2) Document2 by (auto simp: candidate_ok_def)
  then show ?thesis
    using assms(1) resolve_v2_block [of E d c k] resolve_v2_cell [of E d c k] Document2
    by (cases tt) (auto simp: parsed_any_wf_def)
qed

lemma resolve_candidates_ok:
  assumes "parsed_any_wf E doc" and "\<forall>c \<in> set cs. candidate_ok doc c"
  shows "\<exists>rs. rmap (resolve_candidate doc) cs = Inr rs \<and> list_all2 (grounded doc) cs rs"
  using assms(2)
proof (induction cs)
  case (Cons c cs)
  obtain r where "resolve_candidate doc c = Inr r" "grounded doc c r"
    using resolve_candidate_ok [OF assms(1), of c] Cons.prems by auto
  moreover obtain rs where "rmap (resolve_candidate doc) cs = Inr rs" "list_all2 (grounded doc) cs rs"
    using Cons by auto
  ultimately show ?case by auto
qed simp

section \<open>Resolved references validate\<close>

lemma grounded_validates:
  assumes g: "grounded doc c r" and new: "candidate_key c \<notin> seen"
  shows "validate_reference doc r (seen, T) =
    Inr (insert (candidate_key c) seen, candidate_tables doc c \<union> T)"
proof -
  obtain body i j where o: "occurs (words_of (cn_quote c)) body i j"
    and r: "evidence_span r = (int i, int j)" "evidence_quote r = slice i j body"
      "evidence_identity r = candidate_key c"
      "locate_evidence doc r T = Inr (body, candidate_tables doc c \<union> T)"
    using g unfolding grounded_def by blast
  have "offsets_resolve r body" using r o by (simp add: offsets_resolve_def occurs_def)
  then show ?thesis using r new by (simp add: validate_reference_def require_grounding_def guards.simps)
qed

lemma grounded_list_validates:
  assumes "list_all2 (grounded doc) cs rs" and "distinct (map candidate_key cs)"
    and "candidate_key ` set cs \<inter> seen = {}"
  shows "\<exists>seen'. validate_references doc rs (seen, T) =
    Inr (seen', (\<Union>c \<in> set cs. candidate_tables doc c) \<union> T)"
  using assms
proof (induction cs rs arbitrary: seen T rule: list_all2_induct)
  case (Cons c cs r rs)
  have "validate_reference doc r (seen, T) =
      Inr (insert (candidate_key c) seen, candidate_tables doc c \<union> T)"
    using Cons.prems Cons.hyps(1) by (intro grounded_validates) auto
  moreover obtain seen' where "validate_references doc rs
      (insert (candidate_key c) seen, candidate_tables doc c \<union> T) =
      Inr (seen', (\<Union>c \<in> set cs. candidate_tables doc c) \<union> (candidate_tables doc c \<union> T))"
    using Cons.IH [of "insert (candidate_key c) seen" "candidate_tables doc c \<union> T"] Cons.prems by auto
  ultimately show ?case by (auto simp: Un_ac)
qed simp

lemma resolve_evidence_ok:
  assumes "parsed_any_wf E doc" and "candidates_ok doc cs"
  shows "\<exists>rs. resolve_evidence doc cs = Inr rs \<and> list_all2 (grounded doc) cs rs \<and>
    validate_resolved_evidence doc rs = Inr ()"
proof -
  have errors: "evidence_errors doc cs = []" using assms(2) by (simp add: evidence_errors_iff)
  obtain rs where rs: "rmap (resolve_candidate doc) cs = Inr rs" "list_all2 (grounded doc) cs rs"
    using resolve_candidates_ok [OF assms(1)] assms(2) unfolding candidates_ok_def by blast
  have asset: "list_all (\<lambda>r. evidence_asset r = asset_of doc) rs"
    using rs(2) by (induction rule: list_all2_induct) (auto simp: grounded_def)
  obtain seen where seen: "validate_references doc rs ({}, {}) =
      Inr (seen, (\<Union>c \<in> set cs. candidate_tables doc c) \<union> {})"
    using grounded_list_validates [OF rs(2), of "{}" "{}"] assms(2) by (auto simp: candidates_ok_def)
  have "validate_resolved_evidence doc rs = Inr ()"
    using asset seen assms(2)
    by (simp add: validate_resolved_evidence_def require_grounding_def guards.simps candidates_ok_def)
  then show ?thesis using errors rs by (simp add: resolve_evidence_def)
qed

section \<open>Properties\<close>

text \<open>
  C23.  The backtracking search for the quote pattern agrees with the reference: for the words of a
  quote it returns exactly the leftmost place where these words occur in order, separated by
  whitespace of any length and delimited by non-blank characters, and nothing when there is none.
\<close>

theorem quote_search_exact:
  assumes "words_of quote \<noteq> []"
  shows "(\<forall>i j. re_search (words_of quote) body 0 = Some (i, j) \<longleftrightarrow>
      occurs (words_of quote) body i j \<and> (\<forall>i' < i. \<forall>j'. \<not> occurs (words_of quote) body i' j')) \<and>
    (re_search (words_of quote) body 0 = None \<longleftrightarrow> (\<forall>i j. \<not> occurs (words_of quote) body i j))"
  using re_search_exact [OF words_of_ok assms] re_search_None [OF words_of_ok assms] by blast

text \<open>
  C21.  Grounding is all or nothing: on an accepted document \<open>resolve_evidence\<close> returns references
  exactly when there is a candidate, every candidate names one existing target whose text contains
  its words, no target and quote are repeated and at most one table is cited; each reference then
  quotes the leftmost occurrence verbatim.  Otherwise it raises the errors of \<open>evidence_errors\<close>; the
  internal errors and missing keys of the second pass cannot occur.
\<close>

theorem resolve_evidence_exact:
  assumes "parsed_any_wf E doc"
  shows "if candidates_ok doc cs
    then \<exists>rs. resolve_evidence doc cs = Inr rs \<and> list_all2 (grounded doc) cs rs
    else resolve_evidence doc cs = Inl (EvidenceGrounding (evidence_errors doc cs)) \<and>
      evidence_errors doc cs \<noteq> []"
proof (cases "candidates_ok doc cs")
  case True
  then show ?thesis using resolve_evidence_ok [OF assms True] by auto
next
  case False
  then show ?thesis using evidence_errors_iff [of doc cs] by (simp add: resolve_evidence_def)
qed

text \<open>
  C22.  Evidence that was resolved on an accepted document validates again: whatever the proposed
  quotes, \<open>validate_resolved_evidence\<close> accepts every result of \<open>resolve_evidence\<close>.
\<close>

theorem resolved_evidence_validates:
  assumes "parsed_any_wf E doc" and "resolve_evidence doc cs = Inr rs"
  shows "validate_resolved_evidence doc rs = Inr ()"
proof -
  have "candidates_ok doc cs"
    using assms(2) evidence_errors_iff [of doc cs] by (auto simp: resolve_evidence_def Let_def split: if_splits)
  from resolve_evidence_ok [OF assms(1) this] show ?thesis using assms(2) by auto
qed

end
