(* ===== verification/DocumentWitnesses.thy ===== *)
theory DocumentWitnesses
  imports Grounding Samples
begin

text \<open>
  A small schema-v2 document (two nested sections, one table of two cells) and the witnesses of the
  properties of \<open>ParsedDocs\<close> and \<open>Grounding\<close> on it.
\<close>

definition meal_box :: normalized_bbox where
  "meal_box = \<lparr>bb_x0 = 1/10, bb_y0 = 1/10, bb_x1 = 9/10, bb_y1 = 2/10\<rparr>"

definition meal_cells :: "table_cell list" where
  "meal_cells =
     [\<lparr>ce_id = ''cell-0001'', ce_row_id = ''row-0001'', ce_row_index = 0, ce_column_index = 0,
       ce_row_span = 1, ce_column_span = 1, ce_text = ''Meals'', ce_column_header = False,
       ce_row_header = True, ce_bbox = Some meal_box\<rparr>,
      \<lparr>ce_id = ''cell-0002'', ce_row_id = ''row-0001'', ce_row_index = 0, ce_column_index = 1,
       ce_row_span = 1, ce_column_span = 1, ce_text = ''up to 40  EUR'', ce_column_header = False,
       ce_row_header = False, ce_bbox = Some meal_box\<rparr>]"

definition meal_table :: document_table where
  "meal_table = \<lparr>tb_id = ''table-0001'', tb_block_id = ''block-0003'', tb_page_number = 1,
     tb_bbox = meal_box, tb_num_rows = 1, tb_num_columns = 2,
     tb_rows = [\<lparr>ro_id = ''row-0001'', ro_index = 0, ro_cell_ids = [''cell-0001'', ''cell-0002'']\<rparr>],
     tb_cells = meal_cells\<rparr>"

definition meal_sections :: "document_section list" where
  "meal_sections =
     [\<lparr>sc_id = ''section-0001'', sc_title = ''Travel'', sc_level = 1, sc_parent = None, sc_reading_order = 1\<rparr>,
      \<lparr>sc_id = ''section-0002'', sc_title = ''Meals'', sc_level = 2, sc_parent = Some ''section-0001'',
       sc_reading_order = 2\<rparr>]"

definition meal_blocks :: "document_block_v2 list" where
  "meal_blocks =
     [\<lparr>b2_id = ''block-0001'', b2_type = Heading, b2_page_number = 1, b2_reading_order = 1, b2_text = ''Travel'',
       b2_bbox = meal_box, b2_section = Some ''section-0001'', b2_furniture = None, b2_table = None\<rparr>,
      \<lparr>b2_id = ''block-0002'', b2_type = Heading, b2_page_number = 1, b2_reading_order = 2, b2_text = ''Meals'',
       b2_bbox = meal_box, b2_section = Some ''section-0002'', b2_furniture = None, b2_table = None\<rparr>,
      \<lparr>b2_id = ''block-0003'', b2_type = TableBlock, b2_page_number = 1, b2_reading_order = 3,
       b2_text = ''Meals up to 40 EUR'', b2_bbox = meal_box, b2_section = Some ''section-0002'',
       b2_furniture = None, b2_table = Some ''table-0001''\<rparr>]"

definition meal_document :: parsed_document_v2 where
  "meal_document = \<lparr>d2_asset_sha256 = digest_text 77, d2_parser_version = ''2'', d2_parser_core_version = ''2'',
     d2_model_identity = ''layout'',
     d2_resource_limits = \<lparr>rl_timeout_seconds = 120, rl_max_source_bytes = 52428800, rl_max_pages = 200\<rparr>,
     d2_normalization = \<lparr>ni_profile = CleanDigitalV2, ni_table_profile = GridV2\<rparr>,
     d2_pages = [\<lparr>p2_number = 1, p2_dimensions = \<lparr>dim_width_points = 595, dim_height_points = 842\<rparr>,
       p2_block_ids = [''block-0001'', ''block-0002'', ''block-0003'']\<rparr>],
     d2_sections = meal_sections, d2_blocks = meal_blocks, d2_tables = [meal_table], d2_warnings = []\<rparr>"

definition cap_candidate :: evidence_candidate where
  "cap_candidate = \<lparr>cn_block_id = None, cn_cell_id = Some '' cell-0002 '', cn_quote = ''40 EUR''\<rparr>"

lemma meal_ids:
  "numbered_id ''section-'' ''section-0001''" "numbered_id ''section-'' ''section-0002''"
  "numbered_id ''block-'' ''block-0001''" "numbered_id ''block-'' ''block-0002''"
  "numbered_id ''block-'' ''block-0003''" "numbered_id ''table-'' ''table-0001''"
  "numbered_id ''row-'' ''row-0001''" "numbered_id ''cell-'' ''cell-0001''" "numbered_id ''cell-'' ''cell-0002''"
  by code_simp+

lemma meal_numbering:
  "numbered_ids ''block-'' (Suc (Suc (Suc 0))) = [''block-0001'', ''block-0002'', ''block-0003'']"
  "numbered_ids ''section-'' (Suc (Suc 0)) = [''section-0001'', ''section-0002'']"
  "numbered_ids ''table-'' (Suc 0) = [''table-0001'']" "numbered_ids ''row-'' (Suc 0) = [''row-0001'']"
  "numbered_ids ''cell-'' (Suc (Suc 0)) = [''cell-0001'', ''cell-0002'']" "[1 .. 3] = [1, 2, 3 :: int]"
  by code_simp+

lemma meal_texts:
  "\<not> blank ''Travel''" "\<not> blank ''Meals''" "\<not> blank ''Meals up to 40 EUR''" "\<not> blank ''up to 40  EUR''"
  by code_simp+

lemma meal_box_wf: "bbox_wf sample_env meal_box"
  by (simp add: bbox_wf_def normalized_bbox_new_def meal_box_def unit_coordinate_def sample_env_select)

lemma upto_01: "{0 .. (1::int)} = {0, 1}"
  by auto

lemma meal_table_new: "document_table_new meal_table = Inr meal_table"
  unfolding document_table_new_def grid_consistency_def
  by (simp add: meal_table_def meal_cells_def meal_ids rbind_Inr_iff occupy_Inr_iff row_lookup_def
      dict_by_def cell_coordinates_def cell_slots_def expected_grid_def insert_commute upto_01)

lemma meal_table_wf: "document_table_wf sample_env meal_table"
  unfolding document_table_wf_def using meal_table_new meal_box_wf
  by (simp add: meal_table_def meal_cells_def table_row_new_def table_cell_new_def meal_ids opt_all_def)

lemma meal_parts:
  "d2_blocks meal_document = meal_blocks" "d2_sections meal_document = meal_sections"
  "d2_tables meal_document = [meal_table]" "document_rows meal_document = tb_rows meal_table"
  "document_cells meal_document = meal_cells" "d2_asset_sha256 meal_document = digest_text 77"
  by (simp_all add: meal_document_def document_rows_def document_cells_def meal_table_def)

lemma meal_outline:
  "check_sections meal_blocks [] meal_sections = Inr ()"
  "check_block_sections (section_by_order meal_sections) [] meal_blocks = Inr ()"
  by (simp_all add: meal_sections_def meal_blocks_def top_id_def owning_heading_def section_by_order_def
      guards.simps)

lemma meal_block_ids: "map b2_id meal_blocks = [''block-0001'', ''block-0002'', ''block-0003'']"
  by (simp add: meal_blocks_def)

lemma meal_pages:
  "d2_pages meal_document = [\<lparr>p2_number = 1, p2_dimensions = \<lparr>dim_width_points = 595, dim_height_points = 842\<rparr>,
     p2_block_ids = map b2_id meal_blocks\<rparr>]" "ni_profile (d2_normalization meal_document) = CleanDigitalV2"
  by (simp_all add: meal_document_def meal_blocks_def)

lemma meal_consistent:
  "table_block_ok meal_document meal_table" "list_all (starts_by meal_document) meal_blocks"
  by (simp_all add: table_block_ok_def block_v2_index_def dict_by_def meal_parts meal_blocks_def
      meal_table_def starts_by_def meal_sections_def)

lemma meal_document_new: "parsed_document_v2_new meal_document = Inr meal_document"
proof -
  have "document_v2_consistency meal_document = Inr meal_document"
    unfolding document_v2_consistency_def Let_def meal_parts meal_pages
    by (simp add: rbind_Inr_iff meal_outline meal_consistent)
      (simp add: meal_blocks_def meal_sections_def meal_table_def meal_cells_def
        meal_numbering opt_all_def List.map_filter_def)
  then show ?thesis
    by (simp add: parsed_document_v2_new_def rbind_Inr_iff meal_parts digest_pattern)
      (simp add: meal_document_def meal_blocks_def)
qed

lemma meal_document_wf: "parsed_document_v2_wf sample_env meal_document"
  unfolding parsed_document_v2_wf_def meal_parts meal_pages
  using meal_document_new meal_table_wf meal_box_wf
  by simp
    (simp add: meal_document_def meal_blocks_def meal_sections_def resource_limits_new_def
      normalization_identity_new_def page_dimensions_new_def sample_env_select parsed_page_v2_new_def
      document_section_new_def document_block_v2_new_def opt_all_def meal_ids meal_texts)

lemma meal_wf: "parsed_any_wf sample_env (Document2 meal_document)"
  by (simp add: parsed_any_wf_def meal_document_wf)

lemma cap_words: "words_of ''40 EUR'' = [''40'', ''EUR'']" "words_of ''40  EUR'' = [''40'', ''EUR'']"
  by code_simp+

lemma cap_occurs: "occurs [''40'', ''EUR''] ''up to 40  EUR'' 6 13"
  by (simp add: occurs_def slice_def cap_words is_space_def)

lemma cap_target: "target_of cap_candidate = Some (CellTarget, ''cell-0002'')"
  by code_simp

lemma cap_cell: "cells_of (Document2 meal_document) ''cell-0002'' = Some (meal_table, meal_cells ! Suc 0)"
  by (simp add: cells_of_def cell_index_def meal_parts dict_by_def) (simp add: meal_table_def meal_cells_def)

lemma cap_cell_fields: "ce_bbox (meal_cells ! Suc 0) = Some meal_box" "ce_text (meal_cells ! Suc 0) = ''up to 40  EUR''"
  by (simp_all add: meal_cells_def)

lemma cap_quote: "words_of (cn_quote cap_candidate) = [''40'', ''EUR'']"
  by code_simp

lemma cap_candidate_ok: "candidates_ok (Document2 meal_document) [cap_candidate]"
proof -
  have "target_text (Document2 meal_document) CellTarget ''cell-0002'' = Some ''up to 40  EUR''"
    by (simp add: target_text_def cap_cell cap_cell_fields del: nth_Cons_numeral)
  then have "candidate_ok (Document2 meal_document) cap_candidate"
    using cap_occurs unfolding candidate_ok_def cap_target cap_quote by blast
  then show ?thesis by (simp add: candidates_ok_def candidate_tables_def cap_target cap_cell)
qed

section \<open>Witnesses\<close>

lemma table_grid_exact_witness: "\<exists>!i. i < 2 \<and> covers (meal_cells ! i) 0 1"
proof -
  have size: "tb_num_rows meal_table = 1" "tb_num_columns meal_table = 2" "tb_cells meal_table = meal_cells"
    "length meal_cells = 2" by (simp_all add: meal_table_def meal_cells_def)
  show ?thesis using table_grid_exact [OF meal_table_new] unfolding size by simp
qed

lemma section_outline_witness:
  "sc_parent (meal_sections ! 1) = Some ''section-0001'' \<and> section_at meal_sections 3 = Some ''section-0002''"
proof -
  have b: "meal_blocks ! 2 \<in> set meal_blocks" "b2_reading_order (meal_blocks ! 2) = 3"
    "b2_section (meal_blocks ! 2) = Some ''section-0002''" by (simp_all add: meal_blocks_def)
  have "length meal_sections = 2" by (simp add: meal_sections_def)
  moreover have "parent_in (take 1 meal_sections) (meal_sections ! 1) = Some ''section-0001''"
    by (simp add: parent_in_def meal_sections_def last_option_def)
  ultimately show ?thesis
    using section_outline [OF meal_document_new] b unfolding meal_parts by fastforce
qed

lemma quote_search_exact_witness:
  "\<exists>i j. re_search (words_of ''40 EUR'') ''up to 40  EUR'' 0 = Some (i, j)"
proof -
  have "words_of ''40 EUR'' \<noteq> []" unfolding cap_words by (rule list.distinct(2))
  from quote_search_exact [OF this, THEN conjunct2] cap_occurs
  have "re_search (words_of ''40 EUR'') ''up to 40  EUR'' 0 \<noteq> None" unfolding cap_words by blast
  then show ?thesis by auto
qed

lemma resolve_evidence_exact_witness:
  "\<exists>r. resolve_evidence (Document2 meal_document) [cap_candidate] = Inr [r] \<and>
     grounded (Document2 meal_document) cap_candidate r"
  using resolve_evidence_exact [OF meal_wf, of "[cap_candidate]"] cap_candidate_ok
  by (auto simp: list_all2_Cons1)

lemma resolved_evidence_validates_witness:
  "\<exists>rs. resolve_evidence (Document2 meal_document) [cap_candidate] = Inr rs \<and>
     validate_resolved_evidence (Document2 meal_document) rs = Inr ()"
  using resolve_evidence_ok [OF meal_wf cap_candidate_ok] resolved_evidence_validates [OF meal_wf] by blast

end
