(* ===== verification/DiscoveryCandidates.thy ===== *)
theory DiscoveryCandidates
  imports DiscoveryPaths Resolution Rows
begin

text \<open>
  The relationship candidates of \<open>change_control/discovery.py\<close>: the analysis binding, the candidate
  models with their validators and byte budgets, the validation of a snapshot and of the changed
  roots, and the exhaustive enumeration of the unassessed claim pairs.
\<close>

section \<open>Results and limits\<close>

type_synonym 'a discovery = "discovery_error + 'a"

definition raising :: "'a result \<Rightarrow> 'a discovery" where
  "raising r = (case r of Inl e \<Rightarrow> Inl (DiscoveryRaise e) | Inr x \<Rightarrow> Inr x)"

definition requires :: "(bool \<times> py_error) list \<Rightarrow> unit discovery" where
  "requires gs = raising (guards gs ())"

definition MAX_CHANGED_ROOTS_V1 :: int where "MAX_CHANGED_ROOTS_V1 = 64"
definition MAX_RELATIONSHIP_CANDIDATES_V1 :: int where "MAX_RELATIONSHIP_CANDIDATES_V1 = 20000"
definition MAX_RELATION_FACTS_V1 :: int where "MAX_RELATION_FACTS_V1 = 20000"
definition MAX_DEPENDENCY_FACTS_V1 :: int where "MAX_DEPENDENCY_FACTS_V1 = 20000"
definition MAX_SPANS_PER_DEPENDENCY_V1 :: int where "MAX_SPANS_PER_DEPENDENCY_V1 = 64"
definition MAX_SPAN_CANONICAL_BYTES_V1 :: int where "MAX_SPAN_CANONICAL_BYTES_V1 = 16384"
definition MAX_DEPENDENCY_PROJECTION_BYTES_V1 :: int where "MAX_DEPENDENCY_PROJECTION_BYTES_V1 = 131072"
definition MAX_TOTAL_UNIQUE_DEPENDENCY_PROJECTION_BYTES_V1 :: int where
  "MAX_TOTAL_UNIQUE_DEPENDENCY_PROJECTION_BYTES_V1 = 1048576"
definition MAX_RELATIONSHIP_CANDIDATE_BYTES_V1 :: int where "MAX_RELATIONSHIP_CANDIDATE_BYTES_V1 = 16384"
definition MAX_TOTAL_RELATIONSHIP_CANDIDATE_BYTES_V1 :: int where
  "MAX_TOTAL_RELATIONSHIP_CANDIDATE_BYTES_V1 = 2097152"
definition MAX_CANDIDATE_SET_PAYLOAD_BYTES_V1 :: int where "MAX_CANDIDATE_SET_PAYLOAD_BYTES_V1 = 2359296"

text \<open>\<open>_enforce_byte_limit\<close>, and every \<open>if observed > limit: raise DiscoveryLimitError\<close>.\<close>

definition enforce_limit :: "string \<Rightarrow> int \<Rightarrow> int \<Rightarrow> unit discovery" where
  "enforce_limit category limit observed =
     (if observed > limit then Inl (DiscoveryLimit category limit observed) else Inr ())"

definition byte_count :: "py_env \<Rightarrow> json \<Rightarrow> int" where
  "byte_count E payload = int (length (canonical_json_bytes E payload))"

definition projection_charge :: "py_env \<Rightarrow> json \<Rightarrow> int" where
  "projection_charge E payload = byte_count E (JObj
     [(''namespace'', JStr ''mastervault.discovery-projection-charge.v1''),
      (''projection'', payload)])"

section \<open>Temporal resolutions as data\<close>

definition temporal_state_value :: "temporal_state \<Rightarrow> string" where
  "temporal_state_value s = (case s of Current \<Rightarrow> ''current'' | Historical \<Rightarrow> ''historical''
     | Future \<Rightarrow> ''future'' | Expired \<Rightarrow> ''expired'' | Unresolved \<Rightarrow> ''unresolved'')"

definition resolution_json :: "resolution \<Rightarrow> json" where
  "resolution_json r = JObj
     [(''applied_constraint_ids'', JArr (map JStr (tr_applied r))),
      (''as_of'', date_json (tr_as_of r)),
      (''basis_relation_ids'', JArr (map JStr (tr_basis r))),
      (''conflicts'', JArr (map JStr (tr_conflicts r))),
      (''resolver_version'', JStr ''temporal-resolution-v1''),
      (''state'', JStr (temporal_state_value (tr_state r))),
      (''target'', temporal_target_json (tr_target r)),
      (''valid_from_inclusive'', date_json (tr_from r)),
      (''valid_to_exclusive'', opt_json date_json (tr_to r))]"

definition resolution_revalidate :: "py_env \<Rightarrow> resolution \<Rightarrow> resolution result" where
  "resolution_revalidate E r =
     rbind (temporal_target_new (tr_target r)) (\<lambda>t. resolution_new E (r\<lparr>tr_target := t\<rparr>))"

definition bound_to :: "target_kind \<Rightarrow> string \<Rightarrow> resolution \<Rightarrow> bool" where
  "bound_to kind i r \<longleftrightarrow> tt_kind (tr_target r) = kind \<and> tt_id (tr_target r) = i"

definition temporal_rank :: "temporal_state \<Rightarrow> int" where
  "temporal_rank s = (case s of Current \<Rightarrow> 0 | Future \<Rightarrow> 1 | Historical \<Rightarrow> 2 | Expired \<Rightarrow> 3 | Unresolved \<Rightarrow> 4)"

datatype temporal_overlap = OverlapTrue | OverlapFalse | OverlapUnknown

definition overlap_value :: "temporal_overlap \<Rightarrow> string" where
  "overlap_value v = (case v of OverlapTrue \<Rightarrow> ''true'' | OverlapFalse \<Rightarrow> ''false'' | OverlapUnknown \<Rightarrow> ''unknown'')"

definition overlap_rank :: "temporal_overlap \<Rightarrow> int" where
  "overlap_rank v = (case v of OverlapTrue \<Rightarrow> 0 | OverlapFalse \<Rightarrow> 1 | OverlapUnknown \<Rightarrow> 2)"

definition some_dates :: "date option list \<Rightarrow> date list" where
  "some_dates ds = concat (map (\<lambda>d. case d of None \<Rightarrow> [] | Some e \<Rightarrow> [e]) ds)"

definition intervals_overlap :: "resolution \<Rightarrow> resolution \<Rightarrow> temporal_overlap" where
  "intervals_overlap a b =
     (if tr_state a = Unresolved \<or> tr_state b = Unresolved then OverlapUnknown
      else
        let start = max (tr_from a) (tr_from b); ends = some_dates [tr_to a, tr_to b]
        in if (case ends of [] \<Rightarrow> True | e # es \<Rightarrow> start < fold min es e) then OverlapTrue else OverlapFalse)"

section \<open>The analysis binding\<close>

datatype analysis_algorithm = RelationshipCandidatesV1 | DocumentAttentionRankingV1

datatype analysis_mode = Live | Preview

definition algorithm_value :: "analysis_algorithm \<Rightarrow> string" where
  "algorithm_value a = (case a of RelationshipCandidatesV1 \<Rightarrow> ''relationship-candidates-v1''
     | DocumentAttentionRankingV1 \<Rightarrow> ''document-attention-ranking-v1'')"

definition mode_value :: "analysis_mode \<Rightarrow> string" where
  "mode_value m = (case m of Live \<Rightarrow> ''live'' | Preview \<Rightarrow> ''preview'')"

record analysis_binding =
  ab_algorithm :: analysis_algorithm
  ab_aggregate_id :: string
  ab_revision :: int
  ab_aggregate_sha256 :: string
  ab_as_of :: date
  ab_changed_ids :: "string list"
  ab_resolutions :: "resolution list"
  ab_mode :: analysis_mode
  ab_source_sha256 :: "string option"
  ab_input_sha256 :: string

definition binding_fields :: "analysis_binding \<Rightarrow> (string \<times> json) list" where
  "binding_fields b =
     [(''aggregate_id'', JStr (ab_aggregate_id b)),
      (''aggregate_sha256'', JStr (ab_aggregate_sha256 b)),
      (''algorithm_version'', JStr (algorithm_value (ab_algorithm b))),
      (''as_of'', date_json (ab_as_of b)),
      (''changed_claim_revision_ids'', JArr (map JStr (ab_changed_ids b))),
      (''changed_temporal_resolutions'', JArr (map resolution_json (ab_resolutions b))),
      (''mode'', JStr (mode_value (ab_mode b))),
      (''schema_version'', JInt 1),
      (''snapshot_revision'', JInt (ab_revision b)),
      (''source_candidate_set_sha256'', opt_json JStr (ab_source_sha256 b))]"

text \<open>\<open>_input_payload\<close> and \<open>model_dump\<close>.\<close>

definition binding_payload :: "analysis_binding \<Rightarrow> json" where
  "binding_payload b =
     JObj ((''namespace'', JStr ''mastervault.advisory-analysis-input.v1'') # binding_fields b)"

definition binding_json :: "analysis_binding \<Rightarrow> json" where
  "binding_json b = JObj ((''canonical_input_sha256'', JStr (ab_input_sha256 b)) # binding_fields b)"

definition mode_of :: "resolution list \<Rightarrow> analysis_mode" where
  "mode_of rs = (if list_ex (\<lambda>r. tr_state r = Future) rs then Preview else Live)"

text \<open>
  \<open>_canonical_changed_ids\<close>: the limit error is not a \<open>ValueError\<close>, so it leaves the constructor
  before any collected field error is reported.
\<close>

definition changed_ids_limit :: "string list \<Rightarrow> unit discovery" where
  "changed_ids_limit ids =
     (if ids = sorted_set ids then enforce_limit ''changed-roots'' MAX_CHANGED_ROOTS_V1 (int (length ids)) else Inr ())"

definition binding_new :: "py_env \<Rightarrow> analysis_binding \<Rightarrow> analysis_binding discovery" where
  "binding_new E b =
     rbind (changed_ids_limit (ab_changed_ids b)) (\<lambda>_.
     rbind (requires
       [(0 < ab_revision b, ValueError ''snapshot_revision''),
        (sha256_pattern (ab_aggregate_sha256 b), ValueError ''aggregate_sha256''),
        (ab_changed_ids b \<noteq> [], ValueError ''changed_claim_revision_ids''),
        (ab_changed_ids b = sorted_set (ab_changed_ids b),
           ValueError ''changed claim revision IDs must be sorted and unique''),
        (ab_resolutions b \<noteq> [], ValueError ''changed_temporal_resolutions''),
        ((case ab_source_sha256 b of None \<Rightarrow> True | Some s \<Rightarrow> sha256_pattern s),
           ValueError ''source_candidate_set_sha256''),
        (sha256_pattern (ab_input_sha256 b), ValueError ''canonical_input_sha256''),
        (length (ab_resolutions b) = length (ab_changed_ids b),
           ValueError ''changed temporal resolutions must align with changed claim IDs''),
        (list_all2 (\<lambda>i r. bound_to ClaimTarget i r \<and> tr_as_of r = ab_as_of b) (ab_changed_ids b) (ab_resolutions b),
           ValueError ''changed temporal resolution is bound to the wrong claim or date''),
        (list_all (\<lambda>r. tr_state r \<in> {Current, Future}) (ab_resolutions b),
           ValueError ''changed roots must be current or future''),
        (ab_mode b = mode_of (ab_resolutions b),
           ValueError ''analysis mode does not match changed-root temporality''),
        ((ab_algorithm b = RelationshipCandidatesV1) = (ab_source_sha256 b = None),
           ValueError ''only document-attention ranking binds a source candidate-set SHA''),
        (ab_input_sha256 b = sha256_json E (binding_payload b),
           ValueError ''canonical_input_sha256 does not match analysis inputs'')]) (\<lambda>_.
     Inr b))"

definition binding_create ::
  "py_env \<Rightarrow> analysis_algorithm \<Rightarrow> string \<Rightarrow> int \<Rightarrow> string \<Rightarrow> date \<Rightarrow> string list \<Rightarrow> resolution list \<Rightarrow>
     string option \<Rightarrow> analysis_binding discovery" where
  "binding_create E algorithm aggregate_id revision sha as_of changed_ids resolutions source =
     (let b = \<lparr>ab_algorithm = algorithm, ab_aggregate_id = aggregate_id, ab_revision = revision,
            ab_aggregate_sha256 = sha, ab_as_of = as_of, ab_changed_ids = changed_ids,
            ab_resolutions = resolutions, ab_mode = mode_of resolutions, ab_source_sha256 = source,
            ab_input_sha256 = []\<rparr>
      in binding_new E (b\<lparr>ab_input_sha256 := sha256_json E (binding_payload b)\<rparr>))"

definition binding_revalidate :: "py_env \<Rightarrow> analysis_binding \<Rightarrow> analysis_binding discovery" where
  "binding_revalidate E b =
     rbind (changed_ids_limit (ab_changed_ids b)) (\<lambda>_.
     rbind (raising (rmap (resolution_revalidate E) (ab_resolutions b))) (\<lambda>rs.
     binding_new E (b\<lparr>ab_resolutions := rs\<rparr>)))"

section \<open>Candidates\<close>

record candidate_score =
  sc_same_identity :: int
  sc_same_family :: int
  sc_shared_scopes :: int
  sc_overlap :: temporal_overlap
  sc_incumbent_rank :: int

record candidate =
  ca_pair_id :: string
  ca_first_id :: string
  ca_second_id :: string
  ca_changed_id :: string
  ca_incumbent_id :: string
  ca_changed_identity :: string
  ca_incumbent_identity :: string
  ca_changed_family :: string
  ca_incumbent_family :: string
  ca_shared_scopes :: "string list"
  ca_changed_resolution :: resolution
  ca_incumbent_resolution :: resolution
  ca_score :: candidate_score

definition score_new :: "candidate_score \<Rightarrow> candidate_score discovery" where
  "score_new s =
     rbind (requires
       [(0 \<le> sc_same_identity s \<and> sc_same_identity s \<le> 1, ValueError ''same_claim_identity''),
        (0 \<le> sc_same_family s \<and> sc_same_family s \<le> 1, ValueError ''same_document_family''),
        (0 \<le> sc_shared_scopes s, ValueError ''shared_scope_count''),
        (0 \<le> sc_incumbent_rank s \<and> sc_incumbent_rank s \<le> 4, ValueError ''incumbent_temporal_rank'')]) (\<lambda>_.
     Inr s)"

definition score_json :: "candidate_score \<Rightarrow> json" where
  "score_json s = JObj
     [(''incumbent_temporal_rank'', JInt (sc_incumbent_rank s)),
      (''same_claim_identity'', JInt (sc_same_identity s)),
      (''same_document_family'', JInt (sc_same_family s)),
      (''schema_version'', JInt 1),
      (''shared_scope_count'', JInt (sc_shared_scopes s)),
      (''temporal_overlap'', JStr (overlap_value (sc_overlap s)))]"

definition candidate_json :: "candidate \<Rightarrow> json" where
  "candidate_json c = JObj
     [(''changed_claim_identity_id'', JStr (ca_changed_identity c)),
      (''changed_claim_revision_id'', JStr (ca_changed_id c)),
      (''changed_document_family'', JStr (ca_changed_family c)),
      (''changed_temporal_resolution'', resolution_json (ca_changed_resolution c)),
      (''claim_revision_ids'', JArr [JStr (ca_first_id c), JStr (ca_second_id c)]),
      (''incumbent_claim_identity_id'', JStr (ca_incumbent_identity c)),
      (''incumbent_claim_revision_id'', JStr (ca_incumbent_id c)),
      (''incumbent_document_family'', JStr (ca_incumbent_family c)),
      (''incumbent_temporal_resolution'', resolution_json (ca_incumbent_resolution c)),
      (''pair_id'', JStr (ca_pair_id c)),
      (''score'', score_json (ca_score c)),
      (''shared_scopes'', JArr (map JStr (ca_shared_scopes c))),
      (''status'', JStr ''unassessed'')]"

definition of_bool_int :: "bool \<Rightarrow> int" where
  "of_bool_int b = (if b then 1 else 0)"

text \<open>The constructor of \<open>RelationshipCandidate\<close>: field patterns, then \<open>_pair_integrity\<close>.\<close>

definition candidate_new :: "py_env \<Rightarrow> candidate \<Rightarrow> candidate discovery" where
  "candidate_new E c =
     rbind (requires
       [(content_id_pattern ''pair'' (ca_pair_id c), ValueError ''pair_id''),
        (content_id_pattern ''claimrev'' (ca_changed_id c), ValueError ''changed_claim_revision_id''),
        (content_id_pattern ''claimrev'' (ca_incumbent_id c), ValueError ''incumbent_claim_revision_id''),
        (content_id_pattern ''claim'' (ca_changed_identity c), ValueError ''changed_claim_identity_id''),
        (content_id_pattern ''claim'' (ca_incumbent_identity c), ValueError ''incumbent_claim_identity_id''),
        (ca_first_id c < ca_second_id c,
           ValueError ''candidate pair endpoints must be two sorted unique IDs''),
        ({ca_first_id c, ca_second_id c} = {ca_changed_id c, ca_incumbent_id c},
           ValueError ''candidate roles must exactly cover pair endpoints''),
        (ca_pair_id c = stable_content_id E ''pair'' (pair_identity_payload (ca_first_id c) (ca_second_id c)),
           ValueError ''pair_id does not match candidate endpoints''),
        (ca_shared_scopes c = sorted_set (ca_shared_scopes c),
           ValueError ''shared scopes must be sorted and unique''),
        (sc_shared_scopes (ca_score c) = int (length (ca_shared_scopes c)),
           ValueError ''shared-scope score does not match candidate scopes''),
        (sc_same_identity (ca_score c) = of_bool_int (ca_changed_identity c = ca_incumbent_identity c),
           ValueError ''same-identity score does not match candidate identities''),
        (sc_same_family (ca_score c) = of_bool_int (ca_changed_family c = ca_incumbent_family c),
           ValueError ''same-family score does not match candidate families''),
        (bound_to ClaimTarget (ca_changed_id c) (ca_changed_resolution c) \<and>
         bound_to ClaimTarget (ca_incumbent_id c) (ca_incumbent_resolution c),
           ValueError ''candidate temporal resolution is bound to the wrong claim''),
        (tr_as_of (ca_changed_resolution c) = tr_as_of (ca_incumbent_resolution c),
           ValueError ''candidate temporal resolutions must use one analysis date''),
        (sc_overlap (ca_score c) = intervals_overlap (ca_changed_resolution c) (ca_incumbent_resolution c),
           ValueError ''temporal-overlap score does not match candidate resolutions''),
        (sc_incumbent_rank (ca_score c) = temporal_rank (tr_state (ca_incumbent_resolution c)),
           ValueError ''incumbent temporal rank does not match its resolution'')]) (\<lambda>_.
     rbind (enforce_limit ''relationship-candidate-bytes'' MAX_RELATIONSHIP_CANDIDATE_BYTES_V1
              (projection_charge E (candidate_json c))) (\<lambda>_.
     Inr c))"

definition candidate_revalidate :: "py_env \<Rightarrow> candidate \<Rightarrow> candidate discovery" where
  "candidate_revalidate E c =
     rbind (raising (resolution_revalidate E (ca_changed_resolution c))) (\<lambda>x.
     rbind (raising (resolution_revalidate E (ca_incumbent_resolution c))) (\<lambda>y.
     rbind (score_new (ca_score c)) (\<lambda>s.
     candidate_new E (c\<lparr>ca_changed_resolution := x, ca_incumbent_resolution := y, ca_score := s\<rparr>))))"

definition candidate_sort_key :: "candidate \<Rightarrow> int \<times> int \<times> int \<times> int \<times> int \<times> string" where
  "candidate_sort_key c =
     (- sc_same_identity (ca_score c), - sc_same_family (ca_score c), - sc_shared_scopes (ca_score c),
      overlap_rank (sc_overlap (ca_score c)), sc_incumbent_rank (ca_score c), ca_pair_id c)"

section \<open>The candidate set\<close>

record candidate_set =
  ks_binding :: analysis_binding
  ks_candidates :: "candidate list"
  ks_sha256 :: string

text \<open>
  \<open>_enforce_relationship_candidate_projection_budgets\<close>.  The \<open>before\<close> validator of the set
  runs the same limits on the raw data; on models and on their dumps the normalised projection of a
  candidate is its JSON dump.
\<close>

fun charge_candidates :: "py_env \<Rightarrow> int \<Rightarrow> candidate list \<Rightarrow> unit discovery" where
  "charge_candidates E cumulative [] = Inr ()"
| "charge_candidates E cumulative (c # cs) =
     (let bytes = projection_charge E (candidate_json c) in
      rbind (enforce_limit ''relationship-candidate-bytes'' MAX_RELATIONSHIP_CANDIDATE_BYTES_V1 bytes) (\<lambda>_.
      rbind (enforce_limit ''total-relationship-candidate-bytes'' MAX_TOTAL_RELATIONSHIP_CANDIDATE_BYTES_V1
               (cumulative + bytes)) (\<lambda>_.
      charge_candidates E (cumulative + bytes) cs)))"

definition candidate_budgets :: "py_env \<Rightarrow> candidate list \<Rightarrow> unit discovery" where
  "candidate_budgets E cs =
     rbind (enforce_limit ''relationship-candidates'' MAX_RELATIONSHIP_CANDIDATES_V1 (int (length cs))) (\<lambda>_.
     charge_candidates E 0 cs)"

definition candidate_set_payload :: "analysis_binding \<Rightarrow> candidate list \<Rightarrow> json" where
  "candidate_set_payload b cs = JObj
     [(''binding'', binding_json b),
      (''candidates'', JArr (map candidate_json cs)),
      (''namespace'', JStr ''mastervault.relationship-candidate-set.v1''),
      (''schema_version'', JInt 1)]"

definition set_payload_budget :: "py_env \<Rightarrow> json \<Rightarrow> unit discovery" where
  "set_payload_budget E payload =
     enforce_limit ''candidate-set-payload-bytes'' MAX_CANDIDATE_SET_PAYLOAD_BYTES_V1 (byte_count E payload)"

definition set_prefix_budgets :: "py_env \<Rightarrow> candidate_set \<Rightarrow> unit discovery" where
  "set_prefix_budgets E s =
     rbind (candidate_budgets E (ks_candidates s)) (\<lambda>_.
     set_payload_budget E (candidate_set_payload (ks_binding s) (ks_candidates s)))"

definition candidate_set_integrity :: "py_env \<Rightarrow> candidate_set \<Rightarrow> candidate_set discovery" where
  "candidate_set_integrity E s =
     (let b = ks_binding s; cs = ks_candidates s; changed = zip (ab_changed_ids b) (ab_resolutions b);
          payload = candidate_set_payload b cs in
      rbind (requires
        [(ab_algorithm b = RelationshipCandidatesV1,
           ValueError ''relationship candidate set has the wrong algorithm binding'')]) (\<lambda>_.
      rbind (candidate_budgets E cs) (\<lambda>_.
      rbind (requires
        [(distinct (map ca_pair_id cs), ValueError ''relationship candidate pair IDs must be unique''),
         (cs = sort_key candidate_sort_key cs, ValueError ''relationship candidates must use canonical score order''),
         (list_all (\<lambda>c. ca_changed_id c \<in> set (ab_changed_ids b)) cs,
           ValueError ''candidate changed endpoint is absent from its analysis binding''),
         (list_all (\<lambda>c. map_of (rev changed) (ca_changed_id c) = Some (ca_changed_resolution c) \<and>
              tr_as_of (ca_incumbent_resolution c) = ab_as_of b) cs,
           ValueError ''candidate temporal resolutions differ from their analysis binding'')]) (\<lambda>_.
      rbind (set_payload_budget E payload) (\<lambda>_.
      rbind (requires
        [(ks_sha256 s = sha256_json E payload,
           ValueError ''relationship candidate result SHA does not match its content'')]) (\<lambda>_.
      Inr s))))))"

definition candidate_set_new :: "py_env \<Rightarrow> candidate_set \<Rightarrow> candidate_set discovery" where
  "candidate_set_new E s =
     rbind (set_prefix_budgets E s) (\<lambda>_.
     rbind (requires [(sha256_pattern (ks_sha256 s), ValueError ''result_sha256'')]) (\<lambda>_.
     candidate_set_integrity E s))"

definition candidate_set_create :: "py_env \<Rightarrow> analysis_binding \<Rightarrow> candidate list \<Rightarrow> candidate_set discovery" where
  "candidate_set_create E b cs =
     rbind (candidate_budgets E cs) (\<lambda>_.
     let canonical_cs = sort_key candidate_sort_key cs; payload = candidate_set_payload b canonical_cs in
     rbind (set_payload_budget E payload) (\<lambda>_.
     candidate_set_new E \<lparr>ks_binding = b, ks_candidates = canonical_cs, ks_sha256 = sha256_json E payload\<rparr>))"

text \<open>\<open>RelationshipCandidateSet.model_validate(candidates.model_dump(mode="json"))\<close>\<close>

definition candidate_set_revalidate :: "py_env \<Rightarrow> candidate_set \<Rightarrow> candidate_set discovery" where
  "candidate_set_revalidate E s =
     rbind (set_prefix_budgets E s) (\<lambda>_.
     rbind (binding_revalidate E (ks_binding s)) (\<lambda>b.
     rbind (rmap (candidate_revalidate E) (ks_candidates s)) (\<lambda>cs.
     rbind (requires [(sha256_pattern (ks_sha256 s), ValueError ''result_sha256'')]) (\<lambda>_.
     candidate_set_integrity E (s\<lparr>ks_binding := b, ks_candidates := cs\<rparr>)))))"

section \<open>The snapshot and the changed roots\<close>

text \<open>\<open>_dependency_step_payload\<close>.\<close>

definition dependency_step_payload :: "dependency \<Rightarrow> json" where
  "dependency_step_payload d = JObj
     [(''dependency_id'', JStr (dp_id d)),
      (''dependency_kind'', JStr (dependency_kind_value (dp_kind d))),
      (''downstream_document_version_id'', JStr (dv_id (dp_downstream d))),
      (''downstream_spans'', JArr (map document_span_json (dp_spans d))),
      (''exposed_downstream_claim_revision_ids'', JArr (map (\<lambda>r. JStr (cr_revision_id r)) (dp_claims d))),
      (''upstream_claim_revision_id'', JStr (cr_revision_id (dp_upstream d)))]"

fun span_limits :: "py_env \<Rightarrow> document_span list \<Rightarrow> unit discovery" where
  "span_limits E [] = Inr ()"
| "span_limits E (s # ss) =
     rbind (enforce_limit ''span-canonical-bytes'' MAX_SPAN_CANONICAL_BYTES_V1
              (byte_count E (document_span_json s))) (\<lambda>_. span_limits E ss)"

fun dependency_budgets :: "py_env \<Rightarrow> int \<Rightarrow> dependency list \<Rightarrow> unit discovery" where
  "dependency_budgets E cumulative [] = Inr ()"
| "dependency_budgets E cumulative (d # ds) =
     (let bytes = projection_charge E (dependency_step_payload d) in
      rbind (enforce_limit ''spans-per-dependency'' MAX_SPANS_PER_DEPENDENCY_V1 (int (length (dp_spans d)))) (\<lambda>_.
      rbind (span_limits E (dp_spans d)) (\<lambda>_.
      rbind (enforce_limit ''dependency-projection-bytes'' MAX_DEPENDENCY_PROJECTION_BYTES_V1 bytes) (\<lambda>_.
      rbind (enforce_limit ''total-unique-dependency-projection-bytes''
               MAX_TOTAL_UNIQUE_DEPENDENCY_PROJECTION_BYTES_V1 (cumulative + bytes)) (\<lambda>_.
      dependency_budgets E (cumulative + bytes) ds)))))"

definition fact_limits :: "aggregate \<Rightarrow> unit discovery" where
  "fact_limits a =
     rbind (enforce_limit ''relation-facts'' MAX_RELATION_FACTS_V1 (int (length (ag_graph a)))) (\<lambda>_.
     enforce_limit ''dependency-facts'' MAX_DEPENDENCY_FACTS_V1 (int (length (ag_dependencies a))))"

definition validate_snapshot :: "py_env \<Rightarrow> snapshot \<Rightarrow> aggregate discovery" where
  "validate_snapshot E snap =
     rbind (requires [(1 \<le> ss_revision snap,
       ValueError ''change-control snapshot revision must be positive'')]) (\<lambda>_.
     rbind (fact_limits (ss_aggregate snap)) (\<lambda>_.
     rbind (dependency_budgets E 0 (ag_dependencies (ss_aggregate snap))) (\<lambda>_.
     rbind (raising (aggregate_revalidate E (ss_aggregate snap))) (\<lambda>a.
     rbind (raising (aggregate_sha256 E a)) (\<lambda>digest.
     rbind (requires [(ss_sha256 snap = digest,
       ValueError ''change-control snapshot aggregate SHA does not match its aggregate'')]) (\<lambda>_.
     rbind (fact_limits a) (\<lambda>_. Inr a)))))))"

text \<open>\<open>TemporalResolutionContext.from_aggregate\<close>, and the queries one after the other.\<close>

definition context_from_aggregate :: "py_env \<Rightarrow> aggregate \<Rightarrow> date \<Rightarrow> resolution_context result" where
  "context_from_aggregate E a as_of = context_new E
     \<lparr>vs_constraints = ag_constraints a, vs_graph = ag_graph a, vs_replacements = ag_replacements a\<rparr> as_of"

fun resolve_claims ::
  "py_env \<Rightarrow> claim_revision list \<Rightarrow> resolution_context \<Rightarrow> resolution list discovery \<times> resolution_context" where
  "resolve_claims E [] ctx = (Inr [], ctx)"
| "resolve_claims E (r # rs) ctx =
     (case context_resolve_claim E r ctx of
        (Inl e, ctx') \<Rightarrow> (Inl (DiscoveryRaise e), ctx')
      | (Inr x, ctx') \<Rightarrow>
          (case resolve_claims E rs ctx' of
             (Inl e, ctx'') \<Rightarrow> (Inl e, ctx'')
           | (Inr xs, ctx'') \<Rightarrow> (Inr (x # xs), ctx'')))"

definition changed_roots :: "aggregate \<Rightarrow> string list \<Rightarrow> claim_revision list discovery" where
  "changed_roots a ids =
     rbind (requires [(ids \<noteq> [], ValueError ''changed claim revision IDs must not be empty'')]) (\<lambda>_.
     rbind (enforce_limit ''changed-roots'' MAX_CHANGED_ROOTS_V1 (int (length ids))) (\<lambda>_.
     rbind (requires [(ids = sorted_set ids, ValueError ''changed claim revision IDs must be sorted and unique''),
       (list_all (\<lambda>i. dict_get cr_revision_id (ag_claims a) i \<noteq> None) ids,
          ValueError ''changed claim revision IDs are not exact aggregate roots'')]) (\<lambda>_.
     rmap (\<lambda>i. case dict_get cr_revision_id (ag_claims a) i of
         None \<Rightarrow> Inl (DiscoveryRaise (KeyError i)) | Some r \<Rightarrow> Inr r) ids)))"

definition validate_changed_roots ::
  "py_env \<Rightarrow> aggregate \<Rightarrow> string list \<Rightarrow> resolution_context \<Rightarrow>
     (claim_revision list \<times> resolution list) discovery \<times> resolution_context" where
  "validate_changed_roots E a ids ctx =
     (case changed_roots a ids of
        Inl e \<Rightarrow> (Inl e, ctx)
      | Inr roots \<Rightarrow>
          (case resolve_claims E roots ctx of
             (Inl e, ctx') \<Rightarrow> (Inl e, ctx')
           | (Inr rs, ctx') \<Rightarrow>
               (rbind (requires [(list_all (\<lambda>r. tr_state r \<in> {Current, Future}) rs,
                  ValueError ''changed roots must be current or future'')]) (\<lambda>_. Inr (roots, rs)), ctx')))"

section \<open>The enumeration\<close>

text \<open>
  The two nested loops over changed roots and incumbents visit the same pairs in the same order:
  \<open>cross_pairs\<close> lists them, without the incumbents that are changed themselves.
\<close>

definition cross_pairs :: "claim_revision list \<Rightarrow> claim_revision list \<Rightarrow> string list \<Rightarrow> (claim_revision \<times> claim_revision) list" where
  "cross_pairs roots revisions changed_ids =
     [(c, i). c \<leftarrow> roots, i \<leftarrow> revisions, cr_revision_id i \<notin> set changed_ids]"

fun count_emittable ::
  "py_env \<Rightarrow> string list \<Rightarrow> int \<Rightarrow> (claim_revision \<times> claim_revision) list \<Rightarrow> unit discovery" where
  "count_emittable E assessed n [] = Inr ()"
| "count_emittable E assessed n ((c, i) # ps) =
     rbind (raising (claim_pair_create E c i)) (\<lambda>p.
     if cp_id p \<in> set assessed then count_emittable E assessed n ps
     else rbind (enforce_limit ''relationship-candidates'' MAX_RELATIONSHIP_CANDIDATES_V1 (n + 1)) (\<lambda>_.
          count_emittable E assessed (n + 1) ps))"

definition resolution_at :: "(string \<times> resolution) list \<Rightarrow> string \<Rightarrow> resolution discovery" where
  "resolution_at d i = (case map_of (rev d) i of None \<Rightarrow> Inl (DiscoveryRaise (KeyError i)) | Some r \<Rightarrow> Inr r)"

definition candidate_for ::
  "py_env \<Rightarrow> (string \<times> resolution) list \<Rightarrow> (string \<times> resolution) list \<Rightarrow> claim_revision \<Rightarrow> claim_revision \<Rightarrow>
     claim_pair \<Rightarrow> candidate discovery" where
  "candidate_for E by_id changed_by_id c i p =
     rbind (resolution_at by_id (cr_revision_id c)) (\<lambda>changed_resolution.
     rbind (resolution_at by_id (cr_revision_id i)) (\<lambda>incumbent_resolution.
     rbind (score_new
       \<lparr>sc_same_identity = of_bool_int (cr_identity_id c = cr_identity_id i),
        sc_same_family = of_bool_int (dv_family (cr_document c) = dv_family (cr_document i)),
        sc_shared_scopes = int (length (cp_shared_scopes p)),
        sc_overlap = intervals_overlap changed_resolution incumbent_resolution,
        sc_incumbent_rank = temporal_rank (tr_state incumbent_resolution)\<rparr>) (\<lambda>score.
     rbind (resolution_at changed_by_id (cr_revision_id c)) (\<lambda>root_resolution.
     candidate_new E
       \<lparr>ca_pair_id = cp_id p, ca_first_id = cr_revision_id (cp_first p), ca_second_id = cr_revision_id (cp_second p),
        ca_changed_id = cr_revision_id c, ca_incumbent_id = cr_revision_id i,
        ca_changed_identity = cr_identity_id c, ca_incumbent_identity = cr_identity_id i,
        ca_changed_family = dv_family (cr_document c), ca_incumbent_family = dv_family (cr_document i),
        ca_shared_scopes = cp_shared_scopes p, ca_changed_resolution = root_resolution,
        ca_incumbent_resolution = incumbent_resolution, ca_score = score\<rparr>))))"

fun build_candidates ::
  "py_env \<Rightarrow> (string \<times> resolution) list \<Rightarrow> (string \<times> resolution) list \<Rightarrow> string list \<Rightarrow> int \<Rightarrow>
     (claim_revision \<times> claim_revision) list \<Rightarrow> candidate list discovery" where
  "build_candidates E by_id changed_by_id assessed cumulative [] = Inr []"
| "build_candidates E by_id changed_by_id assessed cumulative ((c, i) # ps) =
     rbind (raising (claim_pair_create E c i)) (\<lambda>p.
     if cp_id p \<in> set assessed then build_candidates E by_id changed_by_id assessed cumulative ps
     else
       rbind (candidate_for E by_id changed_by_id c i p) (\<lambda>k.
       let total = cumulative + projection_charge E (candidate_json k) in
       rbind (enforce_limit ''total-relationship-candidate-bytes'' MAX_TOTAL_RELATIONSHIP_CANDIDATE_BYTES_V1 total) (\<lambda>_.
       rbind (build_candidates E by_id changed_by_id assessed total ps) (\<lambda>ks. Inr (k # ks)))))"

definition generate_from ::
  "py_env \<Rightarrow> snapshot \<Rightarrow> aggregate \<Rightarrow> string list \<Rightarrow> resolution_context \<Rightarrow>
     candidate_set discovery \<times> resolution_context" where
  "generate_from E snap a ids ctx =
     (case validate_changed_roots E a ids ctx of
        (Inl e, ctx1) \<Rightarrow> (Inl e, ctx1)
      | (Inr (roots, root_resolutions), ctx1) \<Rightarrow>
          let assessed = map ra_pair_id (ag_graph a); ps = cross_pairs roots (ag_claims a) ids in
          (case rbind (binding_create E RelationshipCandidatesV1 (ag_id a) (ss_revision snap) (ss_sha256 snap)
                  (rc_as_of ctx1) ids root_resolutions None) (\<lambda>b.
                rbind (count_emittable E assessed 0 ps) (\<lambda>_. Inr b)) of
             Inl e \<Rightarrow> (Inl e, ctx1)
           | Inr b \<Rightarrow>
               (case resolve_claims E (ag_claims a) ctx1 of
                  (Inl e, ctx2) \<Rightarrow> (Inl e, ctx2)
                | (Inr all_resolutions, ctx2) \<Rightarrow>
                    (rbind (build_candidates E (zip (map cr_revision_id (ag_claims a)) all_resolutions)
                        (zip ids root_resolutions) assessed 0 ps) (\<lambda>ks.
                     candidate_set_create E b ks), ctx2))))"

definition generate_relationship_candidates ::
  "py_env \<Rightarrow> snapshot \<Rightarrow> string list \<Rightarrow> date \<Rightarrow> candidate_set discovery" where
  "generate_relationship_candidates E snap ids as_of =
     rbind (validate_snapshot E snap) (\<lambda>a.
     rbind (raising (context_from_aggregate E a as_of)) (\<lambda>ctx.
     fst (generate_from E snap a ids ctx)))"

section \<open>What the loops compute\<close>

lemma raising_Inr_iff [simp]: "raising r = Inr x \<longleftrightarrow> r = Inr x"
  by (cases r) (simp_all add: raising_def)

lemma raising_simps [simp]: "raising (Inr x) = Inr x" "raising (Inl e) = Inl (DiscoveryRaise e)"
  by (simp_all add: raising_def)

lemma requires_Inr_iff [simp]: "requires gs = Inr u \<longleftrightarrow> list_all fst gs"
  by (simp add: requires_def)

lemma enforce_limit_Inr_iff [simp]: "enforce_limit c l n = Inr u \<longleftrightarrow> n \<le> l"
  by (auto simp: enforce_limit_def)

lemma binding_new_Inr: "binding_new E b = Inr b' \<Longrightarrow> b' = b"
  by (auto simp: binding_new_def rbind_Inr_iff)

lemma score_new_Inr: "score_new s = Inr s' \<Longrightarrow> s' = s"
  by (auto simp: score_new_def rbind_Inr_iff)

lemma candidate_new_Inr: "candidate_new E c = Inr c' \<Longrightarrow> c' = c"
  by (auto simp: candidate_new_def rbind_Inr_iff)

lemma candidate_set_integrity_Inr: "candidate_set_integrity E s = Inr s' \<Longrightarrow> s' = s"
  by (auto simp: candidate_set_integrity_def rbind_Inr_iff Let_def)

text \<open>A resolution that was constructed validates again.\<close>

lemma resolution_new_Inr: "resolution_new E r = Inr r' \<Longrightarrow> r' = r"
  by (auto simp: resolution_new_def resolution_shape_def rbind_Inr_iff split: temporal_state.splits)

lemma resolve_temporality_ok:
  assumes "resolve_temporality E target from until cs as_of = Inr r" and "temporal_target_new target = Inr target"
  shows "resolution_revalidate E r = Inr r \<and> tr_target r = target \<and> tr_as_of r = as_of"
proof -
  obtain q where q: "resolution_new E q = Inr r" "tr_target q = target" "tr_as_of q = as_of"
    using assms(1) unfolding resolve_temporality_def Let_def by (auto split: if_splits)
  have upd: "q\<lparr>tr_target := target\<rparr> = q" using q(2) by (cases q) simp
  have r: "r = q" by (rule resolution_new_Inr [OF q(1)])
  have "resolution_revalidate E q = resolution_new E (q\<lparr>tr_target := target\<rparr>)"
    using assms(2) q(2) by (simp add: resolution_revalidate_def)
  then show ?thesis using q unfolding upd r by simp
qed

lemma claim_value_ok:
  assumes "claim_value E v as_of r = Inr x"
  shows "resolution_revalidate E x = Inr x \<and> bound_to ClaimTarget (cr_revision_id r) x \<and> tr_as_of x = as_of"
  using assms resolve_temporality_ok
  by (fastforce simp: claim_value_def rbind_Inr_iff Let_def bound_to_def dest: temporal_target_new_Inr)

lemma document_value_ok:
  assumes "document_value E v as_of d = Inr x"
  shows "resolution_revalidate E x = Inr x \<and> bound_to DocumentTarget (dv_id d) x \<and> tr_as_of x = as_of"
  using assms resolve_temporality_ok
  by (fastforce simp: document_value_def rbind_Inr_iff Let_def bound_to_def dest: temporal_target_new_Inr)

lemma resolve_claims_values:
  assumes "float_ok E" and "context_inv E v as_of ctx" and "resolve_claims E rs ctx = (res, ctx')"
  shows "context_inv E v as_of ctx' \<and>
    (\<forall>xs. res = Inr xs \<longrightarrow> list_all2 (\<lambda>r x. claim_value E v as_of r = Inr x) rs xs)"
  using assms(2,3)
proof (induction rs arbitrary: ctx res ctx')
  case (Cons r rs)
  note step = context_resolve_claim_inv [OF assms(1) Cons.prems(1), of r]
  obtain y ctx1 where one: "context_resolve_claim E r ctx = (y, ctx1)" by force
  obtain ys ctx2 where two: "resolve_claims E rs ctx1 = (ys, ctx2)" by force
  have inv1: "context_inv E v as_of ctx1" and y: "claim_value E v as_of r = y" using step one by simp_all
  show ?case
    using Cons.prems(2) inv1 y Cons.IH [OF inv1 two]
    by (cases y; cases ys) (auto simp: one two)
qed auto

definition pair_key :: "py_env \<Rightarrow> string \<Rightarrow> string \<Rightarrow> string" where
  "pair_key E x y = stable_content_id E ''pair'' (pair_identity_payload (min x y) (max x y))"

lemma pair_key_sym: "pair_key E x y = pair_key E y x"
  by (simp add: pair_key_def min.commute max.commute)

lemma claim_pair_create_id:
  assumes "claim_pair_create E c i = Inr p"
  shows "cp_id p = pair_key E (cr_revision_id c) (cr_revision_id i)"
proof -
  from claim_pair_create_Inr [OF assms] have p: "claim_pair_new E p = Inr p" "{cp_first p, cp_second p} = {c, i}"
    by simp_all
  from p(1) have lt: "cr_revision_id (cp_first p) < cr_revision_id (cp_second p)"
    and k: "cp_id p = stable_content_id E ''pair''
       (pair_identity_payload (cr_revision_id (cp_first p)) (cr_revision_id (cp_second p)))"
    by (simp_all add: claim_pair_new_Inr_iff)
  from p(2) consider "cp_first p = c \<and> cp_second p = i" | "cp_first p = i \<and> cp_second p = c"
    by (auto simp: doubleton_eq_iff)
  then show ?thesis using lt k by cases (auto simp: pair_key_def min_def max_def)
qed

definition unassessed :: "py_env \<Rightarrow> string list \<Rightarrow> claim_revision \<times> claim_revision \<Rightarrow> bool" where
  "unassessed E assessed ci \<longleftrightarrow> pair_key E (cr_revision_id (fst ci)) (cr_revision_id (snd ci)) \<notin> set assessed"

lemma build_candidates_Inr:
  assumes "build_candidates E by_id changed_by_id assessed n ps = Inr ks"
  shows "list_all2 (\<lambda>ci k. \<exists>p. claim_pair_create E (fst ci) (snd ci) = Inr p \<and>
    candidate_for E by_id changed_by_id (fst ci) (snd ci) p = Inr k) (filter (unassessed E assessed) ps) ks"
  using assms
proof (induction E by_id changed_by_id assessed n ps arbitrary: ks rule: build_candidates.induct)
  case (2 E by_id changed_by_id assessed cumulative c i ps)
  from 2(3) obtain p where p: "claim_pair_create E c i = Inr p" by (auto simp: rbind_Inr_iff)
  show ?case
  proof (cases "cp_id p \<in> set assessed")
    case True
    then have "\<not> unassessed E assessed (c, i)" using claim_pair_create_id [OF p] by (simp add: unassessed_def)
    moreover have "build_candidates E by_id changed_by_id assessed cumulative ps = Inr ks"
      using 2(3) p True by simp
    ultimately show ?thesis using 2(1) [of p] p True by simp
  next
    case False
    then obtain k ks' where k: "candidate_for E by_id changed_by_id c i p = Inr k" "ks = k # ks'"
        "build_candidates E by_id changed_by_id assessed (cumulative + projection_charge E (candidate_json k)) ps = Inr ks'"
      using 2(3) p by (auto simp: rbind_Inr_iff Let_def)
    have "unassessed E assessed (c, i)" using claim_pair_create_id [OF p] False by (simp add: unassessed_def)
    then show ?thesis using 2(2) [of p _ k] p False k by (auto simp: Let_def)
  qed
qed simp

section \<open>A successful run in parts\<close>

definition temporal_set :: "aggregate \<Rightarrow> validated_set" where
  "temporal_set a = \<lparr>vs_constraints = ag_constraints a, vs_graph = ag_graph a, vs_replacements = ag_replacements a\<rparr>"

text \<open>\<open>values_of E a as_of rs xs\<close>: the resolutions of the claims, one by one.\<close>

definition values_of :: "py_env \<Rightarrow> aggregate \<Rightarrow> date \<Rightarrow> claim_revision list \<Rightarrow> resolution list \<Rightarrow> bool" where
  "values_of E a as_of rs xs \<longleftrightarrow> (\<exists>v. validated_set_revalidate E (temporal_set a) = Inr v \<and>
     list_all2 (\<lambda>r x. claim_value E v as_of r = Inr x) rs xs)"

lemma aggregate_wf_claims: "aggregate_wf E a \<Longrightarrow> canonical cr_revision_id (ag_claims a)"
  by (auto simp: aggregate_wf_iff claim_registry_revalidate_wf claim_registry_new_Inr)

lemma dict_get_claim:
  assumes "canonical cr_revision_id cs"
  shows "dict_get cr_revision_id cs i = Some r \<longleftrightarrow> r \<in> set cs \<and> cr_revision_id r = i"
  by (rule dict_get_Some_iff) (rule canonical_key_inj [OF assms])

lemma changed_roots_Inr:
  assumes "canonical cr_revision_id (ag_claims a)" and "changed_roots a ids = Inr roots"
  shows "ids \<noteq> [] \<and> ids = sorted_set ids \<and> length ids \<le> 64 \<and>
    list_all2 (\<lambda>i r. r \<in> set (ag_claims a) \<and> cr_revision_id r = i) ids roots"
proof -
  have parts: "ids \<noteq> []" "int (length ids) \<le> MAX_CHANGED_ROOTS_V1" "ids = sorted_set ids"
    and "list_all2 (\<lambda>i r. (case dict_get cr_revision_id (ag_claims a) i of
         None \<Rightarrow> Inl (DiscoveryRaise (KeyError i)) | Some r \<Rightarrow> Inr r) = Inr r) ids roots"
    using assms(2) by (auto simp: changed_roots_def rbind_Inr_iff rmap_Inr_iff)
  then have "list_all2 (\<lambda>i r. dict_get cr_revision_id (ag_claims a) i = Some r) ids roots"
    by (auto elim!: list_all2_mono split: option.splits)
  then show ?thesis using parts by (simp add: dict_get_claim [OF assms(1)] MAX_CHANGED_ROOTS_V1_def)
qed

lemma validate_snapshot_wf:
  assumes "aggregate_wf E (ss_aggregate snap)" and "validate_snapshot E snap = Inr a"
  shows "a = ss_aggregate snap \<and> 1 \<le> ss_revision snap \<and> ss_sha256 snap = sha256_json E (aggregate_json a)"
  using assms by (auto simp: validate_snapshot_def rbind_Inr_iff aggregate_wf_def aggregate_sha256_def)

lemma validate_changed_roots_Inr:
  assumes "float_ok E" and "context_inv E v as_of ctx" and "canonical cr_revision_id (ag_claims a)"
    and "validate_changed_roots E a ids ctx = (Inr (roots, rs), ctx')"
  shows "changed_roots a ids = Inr roots \<and> list_all2 (\<lambda>r x. claim_value E v as_of r = Inr x) roots rs \<and>
    list_all (\<lambda>r. tr_state r \<in> {Current, Future}) rs \<and> context_inv E v as_of ctx'"
proof -
  obtain xs where roots: "changed_roots a ids = Inr roots" "resolve_claims E roots ctx = (Inr xs, ctx')" "xs = rs"
    "list_all (\<lambda>r. tr_state r \<in> {Current, Future}) rs"
    using assms(4) unfolding validate_changed_roots_def
    by (auto simp: rbind_Inr_iff split: sum.splits prod.splits)
  with resolve_claims_values [OF assms(1,2) roots(2)] show ?thesis by simp
qed

lemma generate_from_Inr:
  assumes E: "float_ok E" and inv: "context_inv E v as_of ctx" and can: "canonical cr_revision_id (ag_claims a)"
    and gen: "fst (generate_from E snap a ids ctx) = Inr ks"
  obtains roots rs all b kl where "changed_roots a ids = Inr roots"
    and "list_all2 (\<lambda>r x. claim_value E v as_of r = Inr x) roots rs"
    and "list_all2 (\<lambda>r x. claim_value E v as_of r = Inr x) (ag_claims a) all"
    and "binding_create E RelationshipCandidatesV1 (ag_id a) (ss_revision snap) (ss_sha256 snap) as_of ids rs None = Inr b"
    and "build_candidates E (zip (map cr_revision_id (ag_claims a)) all) (zip ids rs)
      (map ra_pair_id (ag_graph a)) 0 (cross_pairs roots (ag_claims a) ids) = Inr kl"
    and "candidate_set_create E b kl = Inr ks"
proof -
  obtain rr ctx1 where r: "validate_changed_roots E a ids ctx = (rr, ctx1)" by force
  then obtain roots rs where rr: "rr = Inr (roots, rs)"
    using gen by (cases rr) (auto simp: generate_from_def)
  note roots = validate_changed_roots_Inr [OF E inv can r [unfolded rr]]
  then have as_of: "rc_as_of ctx1 = as_of" by (simp add: context_inv_def)
  let ?ps = "cross_pairs roots (ag_claims a) ids"
  let ?pre = "rbind (binding_create E RelationshipCandidatesV1 (ag_id a) (ss_revision snap) (ss_sha256 snap)
      as_of ids rs None) (\<lambda>b. rbind (count_emittable E (map ra_pair_id (ag_graph a)) 0 ?ps) (\<lambda>_. Inr b))"
  obtain b where b: "?pre = Inr b"
    using gen by (cases ?pre) (auto simp: generate_from_def r rr as_of Let_def)
  obtain al ctx2 where al: "resolve_claims E (ag_claims a) ctx1 = (al, ctx2)" by force
  then obtain all where all: "al = Inr all"
    using gen b by (cases al) (auto simp: generate_from_def r rr as_of Let_def)
  have "list_all2 (\<lambda>r x. claim_value E v as_of r = Inr x) (ag_claims a) all"
    using resolve_claims_values [OF E _ al] roots all by blast
  moreover obtain kl where "build_candidates E (zip (map cr_revision_id (ag_claims a)) all) (zip ids rs)
      (map ra_pair_id (ag_graph a)) 0 ?ps = Inr kl" "candidate_set_create E b kl = Inr ks"
    using gen b al all by (auto simp: generate_from_def r rr as_of Let_def rbind_Inr_iff)
  moreover have "binding_create E RelationshipCandidatesV1 (ag_id a) (ss_revision snap) (ss_sha256 snap) as_of ids rs None = Inr b"
    using b by (auto simp: rbind_Inr_iff)
  ultimately show thesis using roots by (intro that) auto
qed

section \<open>The candidate of a pair\<close>

definition candidate_matches ::
  "py_env \<Rightarrow> aggregate \<Rightarrow> date \<Rightarrow> claim_revision \<Rightarrow> claim_revision \<Rightarrow> candidate \<Rightarrow> bool" where
  "candidate_matches E a as_of c i k \<longleftrightarrow>
     ca_changed_id k = cr_revision_id c \<and> ca_incumbent_id k = cr_revision_id i \<and>
     ca_changed_identity k = cr_identity_id c \<and> ca_incumbent_identity k = cr_identity_id i \<and>
     ca_changed_family k = dv_family (cr_document c) \<and> ca_incumbent_family k = dv_family (cr_document i) \<and>
     ca_shared_scopes k = scope_intersection c i \<and>
     resolve_claim_temporality E c (temporal_set a) as_of = Inr (ca_changed_resolution k) \<and>
     resolve_claim_temporality E i (temporal_set a) as_of = Inr (ca_incumbent_resolution k)"

lemma scope_intersection_sym: "scope_intersection a b = scope_intersection b a"
  unfolding scope_intersection_def by (rule sorted_set_cong) auto

lemma claim_pair_create_scopes:
  assumes "claim_pair_create E c i = Inr p"
  shows "cp_shared_scopes p = scope_intersection c i"
  using claim_pair_create_Inr [OF assms] scope_intersection_sym
  by (auto simp: claim_pair_new_Inr_iff doubleton_eq_iff)

lemma zip_value:
  assumes "list_all2 P xs ys" and "distinct (map f xs)" and "map_of (rev (zip (map f xs) ys)) (f x) = Some y"
    and "x \<in> set xs"
  shows "P x y"
proof -
  have "(f x, y) \<in> set (zip (map f xs) ys)" using map_of_SomeD [OF assms(3)] by simp
  then obtain n where n: "n < length xs" "f (xs ! n) = f x" "ys ! n = y"
    using list_all2_lengthD [OF assms(1)] by (auto simp: set_zip)
  moreover obtain m where "m < length xs" "xs ! m = x" using assms(4) by (auto simp: in_set_conv_nth)
  ultimately have "xs ! n = x" using assms(2) by (auto simp: distinct_conv_nth)
  then show ?thesis using n list_all2_nthD [OF assms(1), of n] by simp
qed

lemma claim_value_direct:
  assumes "validated_set_revalidate E (temporal_set a) = Inr v"
  shows "resolve_claim_temporality E r (temporal_set a) as_of = claim_value E v as_of r"
  using resolve_directly_value [OF assms, of as_of "QueryClaim r"] by simp

lemma candidate_for_matches:
  assumes pair: "claim_pair_create E c i = Inr p"
    and k: "candidate_for E (zip (map cr_revision_id cs) all) (zip (map cr_revision_id roots) rs) c i p = Inr k"
    and v: "validated_set_revalidate E (temporal_set a) = Inr v"
    and all: "list_all2 (\<lambda>r x. claim_value E v as_of r = Inr x) cs all"
    and rs: "list_all2 (\<lambda>r x. claim_value E v as_of r = Inr x) roots rs"
    and dist: "distinct (map cr_revision_id cs)" "distinct (map cr_revision_id roots)"
    and mem: "c \<in> set cs" "i \<in> set cs" "c \<in> set roots"
  shows "candidate_matches E a as_of c i k \<and> candidate_revalidate E k = Inr k \<and>
    ca_pair_id k = pair_key E (cr_revision_id c) (cr_revision_id i)"
proof -
  obtain x y z s0 s where parts: "map_of (rev (zip (map cr_revision_id cs) all)) (cr_revision_id c) = Some x"
      "map_of (rev (zip (map cr_revision_id cs) all)) (cr_revision_id i) = Some y"
      "map_of (rev (zip (map cr_revision_id roots) rs)) (cr_revision_id c) = Some z"
      "score_new s0 = Inr s"
    and new: "candidate_new E
       \<lparr>ca_pair_id = cp_id p, ca_first_id = cr_revision_id (cp_first p), ca_second_id = cr_revision_id (cp_second p),
        ca_changed_id = cr_revision_id c, ca_incumbent_id = cr_revision_id i,
        ca_changed_identity = cr_identity_id c, ca_incumbent_identity = cr_identity_id i,
        ca_changed_family = dv_family (cr_document c), ca_incumbent_family = dv_family (cr_document i),
        ca_shared_scopes = cp_shared_scopes p, ca_changed_resolution = z,
        ca_incumbent_resolution = y, ca_score = s\<rparr> = Inr k"
    using k unfolding candidate_for_def resolution_at_def rbind_Inr_iff
    by (auto split: option.splits)
  have s: "score_new s = Inr s" using parts(4) score_new_Inr [OF parts(4)] by simp
  have z: "claim_value E v as_of c = Inr z" and y: "claim_value E v as_of i = Inr y"
    using zip_value [OF rs dist(2) parts(3) mem(3)] zip_value [OF all dist(1) parts(2) mem(2)] by simp_all
  note k = candidate_new_Inr [OF new]
  have "candidate_matches E a as_of c i k"
    using y z claim_pair_create_scopes [OF pair]
    by (simp add: k candidate_matches_def claim_value_direct [OF v])
  moreover have "candidate_revalidate E k = Inr k"
    using claim_value_ok [OF y] claim_value_ok [OF z] s new
    by (simp add: candidate_revalidate_def k)
  ultimately show ?thesis using claim_pair_create_id [OF pair] by (simp add: k)
qed

section \<open>The set\<close>

lemma list_all2_weaken:
  "list_all2 P xs ys \<Longrightarrow> (\<And>x y. x \<in> set xs \<Longrightarrow> P x y \<Longrightarrow> Q x y) \<Longrightarrow> list_all2 Q xs ys"
  by (induction rule: list_all2_induct) auto

lemma list_all2_left: "list_all2 P xs ys \<Longrightarrow> x \<in> set xs \<Longrightarrow> \<exists>y \<in> set ys. P x y"
  by (induction rule: list_all2_induct) auto

lemma list_all2_right: "list_all2 P xs ys \<Longrightarrow> y \<in> set ys \<Longrightarrow> \<exists>x \<in> set xs. P x y"
  by (induction rule: list_all2_induct) auto

lemma sorted_distinct_wrt:
  "sorted (map key xs) \<Longrightarrow> distinct (map key xs) \<Longrightarrow> sorted_wrt (<) (map (key :: 'a \<Rightarrow> 'b :: linorder) xs)"
  by (simp add: strict_sorted_iff)

lemma candidate_set_create_Inr:
  assumes "candidate_set_create E b kl = Inr ks"
  shows "ks_binding ks = b \<and> ks_candidates ks = sort_key candidate_sort_key kl \<and>
    candidate_set_new E ks = Inr ks \<and> distinct (map ca_pair_id (ks_candidates ks)) \<and>
    sorted_wrt (<) (map candidate_sort_key (ks_candidates ks))"
proof -
  have new: "candidate_set_new E \<lparr>ks_binding = b, ks_candidates = sort_key candidate_sort_key kl,
      ks_sha256 = sha256_json E (candidate_set_payload b (sort_key candidate_sort_key kl))\<rparr> = Inr ks"
    using assms by (auto simp: candidate_set_create_def rbind_Inr_iff Let_def)
  then have ks: "ks = \<lparr>ks_binding = b, ks_candidates = sort_key candidate_sort_key kl,
      ks_sha256 = sha256_json E (candidate_set_payload b (sort_key candidate_sort_key kl))\<rparr>"
    by (auto simp: candidate_set_new_def rbind_Inr_iff dest: candidate_set_integrity_Inr)
  have dist: "distinct (map ca_pair_id (ks_candidates ks))"
    using new by (auto simp: candidate_set_new_def candidate_set_integrity_def rbind_Inr_iff Let_def ks)
  have "inj_on (snd \<circ> snd \<circ> snd \<circ> snd \<circ> snd) (candidate_sort_key ` set (ks_candidates ks))"
    using dist by (auto simp: inj_on_def candidate_sort_key_def distinct_map)
  have "map (snd \<circ> snd \<circ> snd \<circ> snd \<circ> snd) (map candidate_sort_key (ks_candidates ks)) = map ca_pair_id (ks_candidates ks)"
    by (simp add: candidate_sort_key_def)
  then have "distinct (map candidate_sort_key (ks_candidates ks))" using dist by (metis distinct_map)
  moreover have "sorted (map candidate_sort_key (ks_candidates ks))" by (simp add: ks)
  ultimately have "sorted_wrt (<) (map candidate_sort_key (ks_candidates ks))" by (rule sorted_distinct_wrt [rotated])
  then show ?thesis using new dist by (simp add: ks)
qed

lemma candidate_set_revalidate_ok:
  assumes "candidate_set_new E s = Inr s" and "binding_revalidate E (ks_binding s) = Inr (ks_binding s)"
    and "\<forall>k \<in> set (ks_candidates s). candidate_revalidate E k = Inr k"
  shows "candidate_set_revalidate E s = Inr s"
proof -
  have "rmap (candidate_revalidate E) (ks_candidates s) = Inr (ks_candidates s)"
    using assms(3) by (intro rmap_id) blast
  moreover have "s\<lparr>ks_binding := ks_binding s, ks_candidates := ks_candidates s\<rparr> = s" by simp
  ultimately show ?thesis
    using assms(1,2) unfolding candidate_set_revalidate_def candidate_set_new_def
    by (auto simp: rbind_Inr_iff)
qed

lemma binding_create_Inr:
  assumes "binding_create E alg i r sha as_of ids rs src = Inr b"
  shows "binding_new E b = Inr b \<and> ab_algorithm b = alg \<and> ab_aggregate_id b = i \<and> ab_revision b = r \<and>
    ab_aggregate_sha256 b = sha \<and> ab_as_of b = as_of \<and> ab_changed_ids b = ids \<and> ab_resolutions b = rs \<and>
    ab_source_sha256 b = src"
  using assms binding_new_Inr unfolding binding_create_def Let_def by fastforce

lemma binding_revalidate_ok:
  assumes "binding_new E b = Inr b" and "\<forall>r \<in> set (ab_resolutions b). resolution_revalidate E r = Inr r"
  shows "binding_revalidate E b = Inr b"
proof -
  have "rmap (resolution_revalidate E) (ab_resolutions b) = Inr (ab_resolutions b)"
    using assms(2) by (intro rmap_id) blast
  then show ?thesis
    using assms(1) by (simp add: binding_revalidate_def) (auto simp: binding_new_def rbind_Inr_iff)
qed

lemma cross_pairs_set:
  "set (cross_pairs roots revisions ids) =
     {(c, i). c \<in> set roots \<and> i \<in> set revisions \<and> cr_revision_id i \<notin> set ids}"
  by (auto simp: cross_pairs_def)

text \<open>The pair has an assessment; and a pair identity that collides with that of another, assessed pair.\<close>

definition pair_assessed :: "aggregate \<Rightarrow> string \<Rightarrow> string \<Rightarrow> bool" where
  "pair_assessed a x y \<longleftrightarrow> (\<exists>r \<in> set (ag_graph a).
     {cr_revision_id (cp_first (ra_pair r)), cr_revision_id (cp_second (ra_pair r))} = {x, y})"

definition pair_payload :: "string \<Rightarrow> string \<Rightarrow> json" where
  "pair_payload x y = pair_identity_payload (min x y) (max x y)"

definition pair_collision :: "py_env \<Rightarrow> aggregate \<Rightarrow> string \<Rightarrow> string \<Rightarrow> bool" where
  "pair_collision E a x y \<longleftrightarrow> (\<exists>r \<in> set (ag_graph a). hash_collision E (pair_payload x y)
     (pair_payload (cr_revision_id (cp_first (ra_pair r))) (cr_revision_id (cp_second (ra_pair r)))))"

lemma graph_pair_key:
  assumes "aggregate_wf E a" and "r \<in> set (ag_graph a)"
  shows "ra_pair_id r = pair_key E (cr_revision_id (cp_first (ra_pair r))) (cr_revision_id (cp_second (ra_pair r)))"
proof -
  have "claim_pair_new E (ra_pair r) = Inr (ra_pair r)"
    using assms by (auto simp: aggregate_wf_iff relation_graph_revalidate_wf relation_assessment_wf_iff claim_pair_wf_iff)
  then show ?thesis
    by (auto simp: claim_pair_new_Inr_iff ra_pair_id_def pair_key_def min_def max_def)
qed

lemma pair_key_inj:
  assumes "float_ok E" and "pair_key E x y = pair_key E u w"
  shows "{x, y} = {u, w} \<or> hash_collision E (pair_payload x y) (pair_payload u w)"
proof -
  have "pair_payload x y = pair_payload u w \<or> hash_collision E (pair_payload x y) (pair_payload u w)"
    using stable_content_id_inj [OF assms(1), of "''pair''" "pair_payload x y" "pair_payload u w"] assms(2)
      pair_identity_payload_sorted
    by (simp add: pair_key_def pair_payload_def json_sorted_def)
  moreover have "pair_payload x y = pair_payload u w \<Longrightarrow> {x, y} = {u, w}"
    by (auto simp: pair_payload_def min_def max_def split: if_splits)
  ultimately show ?thesis by blast
qed

lemma unassessed_iff:
  assumes "float_ok E" and "aggregate_wf E a"
  shows "unassessed E (map ra_pair_id (ag_graph a)) (c, i) \<Longrightarrow> \<not> pair_assessed a (cr_revision_id c) (cr_revision_id i)"
    and "\<not> unassessed E (map ra_pair_id (ag_graph a)) (c, i) \<Longrightarrow>
      pair_assessed a (cr_revision_id c) (cr_revision_id i) \<or> pair_collision E a (cr_revision_id c) (cr_revision_id i)"
proof -
  let ?x = "cr_revision_id c" and ?y = "cr_revision_id i"
  assume un: "unassessed E (map ra_pair_id (ag_graph a)) (c, i)"
  show "\<not> pair_assessed a ?x ?y"
  proof
    assume "pair_assessed a ?x ?y"
    then obtain r where r: "r \<in> set (ag_graph a)"
      "{cr_revision_id (cp_first (ra_pair r)), cr_revision_id (cp_second (ra_pair r))} = {?x, ?y}"
      by (auto simp: pair_assessed_def)
    then have "ra_pair_id r = pair_key E ?x ?y"
      using graph_pair_key [OF assms(2) r(1)] pair_key_sym by (auto simp: doubleton_eq_iff)
    moreover have "ra_pair_id r \<in> ra_pair_id ` set (ag_graph a)" using r(1) by (rule imageI)
    ultimately show False using un by (simp add: unassessed_def)
  qed
next
  let ?x = "cr_revision_id c" and ?y = "cr_revision_id i"
  assume "\<not> unassessed E (map ra_pair_id (ag_graph a)) (c, i)"
  then obtain r where r: "r \<in> set (ag_graph a)" "ra_pair_id r = pair_key E ?x ?y"
    by (auto simp: unassessed_def)
  then show "pair_assessed a ?x ?y \<or> pair_collision E a ?x ?y"
    using pair_key_inj [OF assms(1), of ?x ?y "cr_revision_id (cp_first (ra_pair r))" "cr_revision_id (cp_second (ra_pair r))"]
      graph_pair_key [OF assms(2) r(1)]
    by (auto simp: pair_assessed_def pair_collision_def)
qed

definition roles :: "candidate \<Rightarrow> string \<times> string" where
  "roles k = (ca_changed_id k, ca_incumbent_id k)"

lemma generate_parts:
  assumes "float_ok E" and "aggregate_wf E a" and "ss_aggregate snap = a"
    and "generate_relationship_candidates E snap ids as_of = Inr ks"
  obtains v ctx where "validated_set_revalidate E (temporal_set a) = Inr v" and "context_inv E v as_of ctx"
    and "fst (generate_from E snap a ids ctx) = Inr ks"
proof -
  obtain a' ctx where parts: "validate_snapshot E snap = Inr a'" "context_from_aggregate E a' as_of = Inr ctx"
    "fst (generate_from E snap a' ids ctx) = Inr ks"
    using assms(4) by (auto simp: generate_relationship_candidates_def rbind_Inr_iff)
  have a: "a' = a" using validate_snapshot_wf [OF _ parts(1)] assms(2,3) by simp
  obtain v where "validated_set_revalidate E (temporal_set a) = Inr v" "context_inv E v as_of ctx"
    using context_new_inv parts(2) unfolding a context_from_aggregate_def temporal_set_def by blast
  then show thesis using parts(3) unfolding a by (rule that)
qed

lemma generate_from_exact:
  assumes E: "float_ok E" and wf: "aggregate_wf E a"
    and v: "validated_set_revalidate E (temporal_set a) = Inr v" and inv: "context_inv E v as_of ctx"
    and gen: "fst (generate_from E snap a ids ctx) = Inr ks"
  shows "set ids \<subseteq> cr_revision_id ` set (ag_claims a) \<and>
    sorted_wrt (<) (map candidate_sort_key (ks_candidates ks)) \<and>
    (\<forall>k \<in> set (ks_candidates ks). \<exists>c \<in> set (ag_claims a). \<exists>i \<in> set (ag_claims a).
       cr_revision_id c \<in> set ids \<and> cr_revision_id i \<notin> set ids \<and> candidate_matches E a as_of c i k \<and>
       \<not> pair_assessed a (cr_revision_id c) (cr_revision_id i)) \<and>
    (\<forall>c \<in> set (ag_claims a). \<forall>i \<in> set (ag_claims a). cr_revision_id c \<in> set ids \<longrightarrow> cr_revision_id i \<notin> set ids \<longrightarrow>
       (\<exists>!k. k \<in> set (ks_candidates ks) \<and> roles k = (cr_revision_id c, cr_revision_id i)) \<or>
       pair_assessed a (cr_revision_id c) (cr_revision_id i) \<or>
       pair_collision E a (cr_revision_id c) (cr_revision_id i)) \<and>
    candidate_set_revalidate E ks = Inr ks"
proof -
  have can: "canonical cr_revision_id (ag_claims a)" by (rule aggregate_wf_claims [OF wf])
  from generate_from_Inr [OF E inv can gen] obtain roots rs all b kl
    where roots: "changed_roots a ids = Inr roots"
      and rs: "list_all2 (\<lambda>r x. claim_value E v as_of r = Inr x) roots rs"
      and all: "list_all2 (\<lambda>r x. claim_value E v as_of r = Inr x) (ag_claims a) all"
      and b: "binding_create E RelationshipCandidatesV1 (ag_id a) (ss_revision snap) (ss_sha256 snap) as_of ids rs None = Inr b"
      and kl: "build_candidates E (zip (map cr_revision_id (ag_claims a)) all) (zip ids rs)
        (map ra_pair_id (ag_graph a)) 0 (cross_pairs roots (ag_claims a) ids) = Inr kl"
      and ks: "candidate_set_create E b kl = Inr ks" by blast
  note R = changed_roots_Inr [OF can roots]
  then have RA: "list_all2 (\<lambda>i r. r \<in> set (ag_claims a) \<and> cr_revision_id r = i) ids roots" by blast
  then have roots_ids: "map cr_revision_id roots = ids" by (induction rule: list_all2_induct) auto
  have roots_mem: "set roots = {c \<in> set (ag_claims a). cr_revision_id c \<in> set ids}" (is "_ = ?R")
  proof
    show "set roots \<subseteq> ?R" using list_all2_right [OF RA] by blast
    show "?R \<subseteq> set roots"
    proof
      fix c assume "c \<in> ?R"
      then obtain c' where "c' \<in> set roots" "cr_revision_id c' = cr_revision_id c" "c \<in> set (ag_claims a)"
        unfolding roots_ids [symmetric] by auto
      with \<open>set roots \<subseteq> ?R\<close> show "c \<in> set roots"
        using canonical_key_inj [OF can] by (auto simp: key_inj_def)
    qed
  qed
  have ids: "distinct ids" using R sorted_set_id_iff [of ids] by blast
  then have dist: "distinct (map cr_revision_id (ag_claims a))" "distinct (map cr_revision_id roots)"
    using can unfolding roots_ids canonical_def by simp_all
  let ?un = "unassessed E (map ra_pair_id (ag_graph a))"
  let ?good = "\<lambda>ci k. candidate_matches E a as_of (fst ci) (snd ci) k \<and> candidate_revalidate E k = Inr k \<and>
    ca_pair_id k = pair_key E (cr_revision_id (fst ci)) (cr_revision_id (snd ci))"
  have good: "list_all2 ?good (filter ?un (cross_pairs roots (ag_claims a) ids)) kl"
  proof (rule list_all2_weaken [OF build_candidates_Inr [OF kl]])
    fix ci k assume ci: "ci \<in> set (filter ?un (cross_pairs roots (ag_claims a) ids))"
      and k: "\<exists>p. claim_pair_create E (fst ci) (snd ci) = Inr p \<and>
        candidate_for E (zip (map cr_revision_id (ag_claims a)) all) (zip ids rs) (fst ci) (snd ci) p = Inr k"
    from ci have "fst ci \<in> set roots" "snd ci \<in> set (ag_claims a)" "fst ci \<in> set (ag_claims a)"
      by (auto simp: cross_pairs_set roots_mem)
    with k show "?good ci k"
      using candidate_for_matches [OF _ _ v all rs dist] unfolding roots_ids by blast
  qed
  note set = candidate_set_create_Inr [OF ks]
  note bind = binding_create_Inr [OF b]
  have mem: "set (ks_candidates ks) = set kl" using set by simp
  show ?thesis
  proof (intro conjI ballI impI)
    show "set ids \<subseteq> cr_revision_id ` set (ag_claims a)"
      using roots_mem unfolding roots_ids [symmetric] by auto
    show "sorted_wrt (<) (map candidate_sort_key (ks_candidates ks))" using set by blast
  next
    fix k assume "k \<in> set (ks_candidates ks)"
    then obtain c i where ci: "(c, i) \<in> set (filter ?un (cross_pairs roots (ag_claims a) ids))" and k: "?good (c, i) k"
      using list_all2_right [OF good] unfolding mem by fastforce
    then show "\<exists>c \<in> set (ag_claims a). \<exists>i \<in> set (ag_claims a). cr_revision_id c \<in> set ids \<and>
        cr_revision_id i \<notin> set ids \<and> candidate_matches E a as_of c i k \<and>
        \<not> pair_assessed a (cr_revision_id c) (cr_revision_id i)"
      using unassessed_iff(1) [OF E wf, of c i] by (auto simp: cross_pairs_set roots_mem)
  next
    fix c i assume c: "c \<in> set (ag_claims a)" "cr_revision_id c \<in> set ids"
      and i: "i \<in> set (ag_claims a)" "cr_revision_id i \<notin> set ids"
    let ?x = "cr_revision_id c" and ?y = "cr_revision_id i"
    show "(\<exists>!k. k \<in> set (ks_candidates ks) \<and> roles k = (?x, ?y)) \<or> pair_assessed a ?x ?y \<or> pair_collision E a ?x ?y"
    proof (cases "?un (c, i)")
      case True
      then have "(c, i) \<in> set (filter ?un (cross_pairs roots (ag_claims a) ids))"
        using c i by (simp add: cross_pairs_set roots_mem)
      then obtain k where k: "k \<in> set kl" "?good (c, i) k" using list_all2_left [OF good] by blast
      have "k' = k" if k': "k' \<in> set kl" "roles k' = (?x, ?y)" for k'
      proof -
        obtain ci where "?good ci k'" using list_all2_right [OF good k'(1)] by blast
        with k'(2) k(2) have "ca_pair_id k' = ca_pair_id k" by (simp add: candidate_matches_def roles_def)
        then show ?thesis using set k'(1) k(1) unfolding mem [symmetric] by (auto simp: distinct_map inj_on_def)
      qed
      moreover have "roles k = (?x, ?y)" using k(2) by (simp add: candidate_matches_def roles_def)
      ultimately show ?thesis using k(1) unfolding mem by blast
    next
      case False
      then show ?thesis using unassessed_iff(2) [OF E wf] by blast
    qed
  next
    show "candidate_set_revalidate E ks = Inr ks"
    proof (rule candidate_set_revalidate_ok)
      show "candidate_set_new E ks = Inr ks" using set by blast
      have "\<forall>x \<in> set rs. resolution_revalidate E x = Inr x"
        using list_all2_right [OF rs] claim_value_ok by blast
      then show "binding_revalidate E (ks_binding ks) = Inr (ks_binding ks)"
        using set bind by (intro binding_revalidate_ok) simp_all
      show "\<forall>k \<in> set (ks_candidates ks). candidate_revalidate E k = Inr k"
        using list_all2_right [OF good] unfolding mem by blast
    qed
  qed
qed

section \<open>Properties\<close>

text \<open>
  C10.  The relationship candidates of a well-formed snapshot are exhaustive and exact.  Whatever
  \<open>generate_relationship_candidates\<close> returns pairs every changed root with every unchanged claim
  revision exactly once, except for the pairs that carry an assessment (or whose pair identity
  collides with that of an assessed pair, two texts with one SHA-256); each candidate has the identities, families and
  shared scopes of its two revisions and the resolutions the direct resolver gives; the candidates
  stand in strict score order; and the whole set passes its own validation from serialised form.
\<close>

theorem candidates_exact:
  assumes "float_ok E" and "aggregate_wf E a" and "ss_aggregate snap = a"
    and "generate_relationship_candidates E snap ids as_of = Inr ks"
  shows "set ids \<subseteq> cr_revision_id ` set (ag_claims a) \<and>
    sorted_wrt (<) (map candidate_sort_key (ks_candidates ks)) \<and>
    (\<forall>k \<in> set (ks_candidates ks). \<exists>c \<in> set (ag_claims a). \<exists>i \<in> set (ag_claims a).
       cr_revision_id c \<in> set ids \<and> cr_revision_id i \<notin> set ids \<and> candidate_matches E a as_of c i k \<and>
       \<not> pair_assessed a (cr_revision_id c) (cr_revision_id i)) \<and>
    (\<forall>c \<in> set (ag_claims a). \<forall>i \<in> set (ag_claims a). cr_revision_id c \<in> set ids \<longrightarrow> cr_revision_id i \<notin> set ids \<longrightarrow>
       (\<exists>!k. k \<in> set (ks_candidates ks) \<and> roles k = (cr_revision_id c, cr_revision_id i)) \<or>
       pair_assessed a (cr_revision_id c) (cr_revision_id i) \<or>
       pair_collision E a (cr_revision_id c) (cr_revision_id i)) \<and>
    candidate_set_revalidate E ks = Inr ks"
proof -
  obtain v ctx where "validated_set_revalidate E (temporal_set a) = Inr v" "context_inv E v as_of ctx"
    "fst (generate_from E snap a ids ctx) = Inr ks"
    by (rule generate_parts [OF assms])
  then show ?thesis by (rule generate_from_exact [OF assms(1,2)])
qed

end
