(* ===== verification/DiscoveryAttention.thy ===== *)
theory DiscoveryAttention
  imports DiscoveryCandidates
begin

text \<open>
  Document attention in \<open>change_control/discovery.py\<close>: dependency steps, anchors, the breadth-first
  search over exposed downstream claims, attention paths, and the ranking of documents with the
  byte and count limits of every stage.  A run that may search the relation graph has an optional
  result (\<open>None\<close>: it does not end), as \<open>_canonical_relation_paths\<close> has; the search over
  dependencies is a total function by a measure on its queue.
\<close>

section \<open>Limits\<close>

definition MAX_ANCHORS_V1 :: int where "MAX_ANCHORS_V1 = 20000"
definition MAX_DEPENDENCY_DEPTH_V1 :: nat where "MAX_DEPENDENCY_DEPTH_V1 = 8"
definition MAX_PATHS_PER_DOCUMENT_V1 :: int where "MAX_PATHS_PER_DOCUMENT_V1 = 128"
definition MAX_TOTAL_GENERATED_PATHS_V1 :: int where "MAX_TOTAL_GENERATED_PATHS_V1 = 4096"
definition MAX_ATTENTION_PATH_BYTES_V1 :: int where "MAX_ATTENTION_PATH_BYTES_V1 = 262144"
definition MAX_TOTAL_GENERATED_ATTENTION_PATH_BYTES_V1 :: int where
  "MAX_TOTAL_GENERATED_ATTENTION_PATH_BYTES_V1 = 1048576"
definition MAX_ATTENTION_TARGET_RECORD_BYTES_V1 :: int where "MAX_ATTENTION_TARGET_RECORD_BYTES_V1 = 393216"
definition MAX_TOTAL_ATTENTION_TARGET_RECORD_BYTES_V1 :: int where
  "MAX_TOTAL_ATTENTION_TARGET_RECORD_BYTES_V1 = 1179648"
definition MAX_ATTENTION_RANKING_PAYLOAD_BYTES_V1 :: int where "MAX_ATTENTION_RANKING_PAYLOAD_BYTES_V1 = 1310720"

section \<open>Dependency steps\<close>

record dependency_step =
  ds_id :: string
  ds_kind :: dependency_kind
  ds_upstream :: string
  ds_downstream :: string
  ds_spans :: "document_span list"
  ds_exposed :: "string list"

definition dependency_step_json :: "dependency_step \<Rightarrow> json" where
  "dependency_step_json s = JObj
     [(''dependency_id'', JStr (ds_id s)),
      (''dependency_kind'', JStr (dependency_kind_value (ds_kind s))),
      (''downstream_document_version_id'', JStr (ds_downstream s)),
      (''downstream_spans'', JArr (map document_span_json (ds_spans s))),
      (''exposed_downstream_claim_revision_ids'', JArr (map JStr (ds_exposed s))),
      (''upstream_claim_revision_id'', JStr (ds_upstream s))]"

definition dependency_step_new :: "py_env \<Rightarrow> dependency_step \<Rightarrow> dependency_step discovery" where
  "dependency_step_new E s =
     (let keys = map (span_key E) (ds_spans s) in
      rbind (requires
        [(content_id_pattern ''dep'' (ds_id s), ValueError ''dependency_id''),
         (content_id_pattern ''claimrev'' (ds_upstream s), ValueError ''upstream_claim_revision_id''),
         (content_id_pattern ''docv'' (ds_downstream s), ValueError ''downstream_document_version_id''),
         (ds_spans s \<noteq> [], ValueError ''downstream_spans''),
         (ds_exposed s = sorted_set (ds_exposed s), ValueError ''exposed downstream claim IDs must be sorted and unique''),
         (list_all (content_id_pattern ''claimrev'') (ds_exposed s),
            ValueError ''exposed downstream claim IDs must be claim-revision IDs'')]) (\<lambda>_.
      rbind (enforce_limit ''spans-per-dependency'' MAX_SPANS_PER_DEPENDENCY_V1 (int (length (ds_spans s)))) (\<lambda>_.
      rbind (span_limits E (ds_spans s)) (\<lambda>_.
      rbind (requires
        [(keys = sorted_set keys, ValueError ''downstream spans must be canonical, sorted, and unique''),
         (list_all (\<lambda>x. sp_document_version_id x = ds_downstream s) (ds_spans s),
            ValueError ''downstream spans must name the dependency document''),
         (ds_id s = stable_content_id E ''dep'' (dependency_identity_payload (ds_downstream s) (ds_upstream s) (ds_kind s)),
            ValueError ''dependency_id does not match canonical dependency semantics'')]) (\<lambda>_.
      rbind (enforce_limit ''dependency-projection-bytes'' MAX_DEPENDENCY_PROJECTION_BYTES_V1
               (projection_charge E (dependency_step_json s))) (\<lambda>_.
      Inr s))))))"

definition dependency_step_revalidate :: "py_env \<Rightarrow> dependency_step \<Rightarrow> dependency_step discovery" where
  "dependency_step_revalidate E s =
     rbind (raising (rmap (document_span_revalidate E) (ds_spans s))) (\<lambda>spans.
     dependency_step_new E (s\<lparr>ds_spans := spans\<rparr>))"

text \<open>\<open>DependencyPathStep.model_validate(_dependency_step_payload(dependency))\<close>\<close>

definition dependency_to_step :: "dependency \<Rightarrow> dependency_step" where
  "dependency_to_step d =
     \<lparr>ds_id = dp_id d, ds_kind = dp_kind d, ds_upstream = cr_revision_id (dp_upstream d),
      ds_downstream = dv_id (dp_downstream d), ds_spans = dp_spans d, ds_exposed = map cr_revision_id (dp_claims d)\<rparr>"

type_synonym dependency_adjacency = "(string \<times> dependency_step list) list"

definition reverse_dependencies :: "py_env \<Rightarrow> dependency list \<Rightarrow> dependency_adjacency discovery" where
  "reverse_dependencies E ds =
     rbind (rmap (\<lambda>d. dependency_step_revalidate E (dependency_to_step d)) ds) (\<lambda>steps.
     Inr (map (\<lambda>(u, ss). (u, sort_key ds_id ss)) (foldl (\<lambda>m s. append_at (ds_upstream s) s m) [] steps)))"

definition dependents_at :: "dependency_adjacency \<Rightarrow> string \<Rightarrow> dependency_step list" where
  "dependents_at deps u = (case map_of deps u of None \<Rightarrow> [] | Some ss \<Rightarrow> ss)"

section \<open>Attention paths\<close>

datatype anchor_kind = ChangedRoot | CanonicalRelation | UnassessedCandidate

definition anchor_kind_value :: "anchor_kind \<Rightarrow> string" where
  "anchor_kind_value k = (case k of ChangedRoot \<Rightarrow> ''changed-root'' | CanonicalRelation \<Rightarrow> ''canonical-relation''
     | UnassessedCandidate \<Rightarrow> ''unassessed-candidate'')"

definition anchor_kind_rank :: "anchor_kind \<Rightarrow> int" where
  "anchor_kind_rank k = (if k = UnassessedCandidate then 1 else 0)"

definition dependency_kind_bucket :: "dependency_kind \<Rightarrow> int" where
  "dependency_kind_bucket k = (case k of Quotes \<Rightarrow> 0 | Implements \<Rightarrow> 0 | Summarizes \<Rightarrow> 1 | HistoricalReference \<Rightarrow> 2)"

record attention_path =
  ap_id :: string
  ap_kind :: anchor_kind
  ap_rank :: int
  ap_changed :: string
  ap_anchor :: string
  ap_pair :: "string option"
  ap_relations :: "path_step list"
  ap_dependencies :: "dependency_step list"
  ap_target :: string
  ap_resolution :: resolution
  ap_eligible :: bool

definition path_step_json :: "path_step \<Rightarrow> json" where
  "path_step_json s = JObj
     [(''canonical_endpoint_ids'', JArr [JStr (fst (rs_endpoints s)), JStr (snd (rs_endpoints s))]),
      (''relation_id'', JStr (rs_relation_id s)),
      (''relation_type'', JStr (relation_type_value (rs_type s))),
      (''traversal_direction'', JStr (direction_value (rs_direction s))),
      (''traversed_from_claim_revision_id'', JStr (rs_from s)),
      (''traversed_to_claim_revision_id'', JStr (rs_to s))]"

text \<open>The fields before and after the member that tells the payload of the id from the dump.\<close>

definition path_fields_front :: "attention_path \<Rightarrow> (string \<times> json) list" where
  "path_fields_front p =
     [(''anchor_claim_revision_id'', JStr (ap_anchor p)),
      (''anchor_kind'', JStr (anchor_kind_value (ap_kind p))),
      (''anchor_pair_id'', opt_json JStr (ap_pair p)),
      (''anchor_rank'', JInt (ap_rank p)),
      (''changed_claim_revision_id'', JStr (ap_changed p)),
      (''dependency_steps'', JArr (map dependency_step_json (ap_dependencies p))),
      (''eligible_for_attention'', JBool (ap_eligible p))]"

definition path_fields_back :: "attention_path \<Rightarrow> (string \<times> json) list" where
  "path_fields_back p =
     [(''relation_steps'', JArr (map path_step_json (ap_relations p))),
      (''target_document_version_id'', JStr (ap_target p)),
      (''target_temporal_resolution'', resolution_json (ap_resolution p))]"

definition path_payload :: "attention_path \<Rightarrow> json" where
  "path_payload p = JObj (path_fields_front p @
     (''namespace'', JStr ''mastervault.attention-path.v1'') # path_fields_back p)"

definition attention_path_json :: "attention_path \<Rightarrow> json" where
  "attention_path_json p = JObj (path_fields_front p @ (''path_id'', JStr (ap_id p)) # path_fields_back p)"

text \<open>The two contiguity loops of \<open>_path_integrity\<close>, with the message of the \<open>ValueError\<close> they raise.\<close>

fun follow_relations :: "string \<Rightarrow> path_step list \<Rightarrow> string discovery" where
  "follow_relations u [] = Inr u"
| "follow_relations u (s # ss) =
     (if rs_from s \<noteq> u then Inl (DiscoveryRaise (ValueError ''relation path steps are not contiguous''))
      else follow_relations (rs_to s) ss)"

fun follow_dependencies :: "string \<Rightarrow> dependency_step list \<Rightarrow> unit discovery" where
  "follow_dependencies u [] = Inr ()"
| "follow_dependencies u (s # ss) =
     rbind (requires
       [(ds_upstream s = u, ValueError ''dependency path steps are not contiguous''),
        ((case ss of [] \<Rightarrow> True | t # _ \<Rightarrow> ds_upstream t \<in> set (ds_exposed s)),
           ValueError ''dependency path traversed a non-exposed downstream claim'')]) (\<lambda>_.
     follow_dependencies (case ss of [] \<Rightarrow> u | t # _ \<Rightarrow> ds_upstream t) ss)"

definition attention_path_new :: "py_env \<Rightarrow> attention_path \<Rightarrow> attention_path discovery" where
  "attention_path_new E p =
     rbind (requires
       [(sha256_pattern (ap_id p), ValueError ''path_id''),
        (0 \<le> ap_rank p, ValueError ''anchor_rank''),
        (content_id_pattern ''claimrev'' (ap_changed p), ValueError ''changed_claim_revision_id''),
        (content_id_pattern ''claimrev'' (ap_anchor p), ValueError ''anchor_claim_revision_id''),
        ((case ap_pair p of None \<Rightarrow> True | Some i \<Rightarrow> content_id_pattern ''pair'' i), ValueError ''anchor_pair_id''),
        (ap_dependencies p \<noteq> [], ValueError ''dependency_steps''),
        (content_id_pattern ''docv'' (ap_target p), ValueError ''target_document_version_id'')]) (\<lambda>_.
     rbind (enforce_limit ''relation-hops'' (int MAX_RELATION_HOPS_V1) (int (length (ap_relations p)))) (\<lambda>_.
     rbind (enforce_limit ''dependency-depth'' (int MAX_DEPENDENCY_DEPTH_V1) (int (length (ap_dependencies p)))) (\<lambda>_.
     rbind (requires
       [((ap_kind p = UnassessedCandidate) = (ap_pair p \<noteq> None),
           ValueError ''only an unassessed-candidate anchor carries a pair ID'')]) (\<lambda>_.
     rbind (follow_relations (ap_anchor p) (ap_relations p)) (\<lambda>u.
     rbind (follow_dependencies u (ap_dependencies p)) (\<lambda>_.
     rbind (requires
       [(ds_downstream (last (ap_dependencies p)) = ap_target p,
           ValueError ''attention target must equal the terminal downstream document''),
        (bound_to DocumentTarget (ap_target p) (ap_resolution p),
           ValueError ''attention target temporal resolution is bound to the wrong document''),
        (ap_eligible p = (ds_kind (last (ap_dependencies p)) \<noteq> HistoricalReference),
           ValueError ''attention eligibility must follow the terminal dependency kind'')]) (\<lambda>_.
     rbind (enforce_limit ''attention-path-bytes'' MAX_ATTENTION_PATH_BYTES_V1
              (projection_charge E (attention_path_json p))) (\<lambda>_.
     rbind (requires
       [(ap_id p = sha256_json E (path_payload p), ValueError ''path_id does not match the canonical attention path'')]) (\<lambda>_.
     Inr p)))))))))"

definition attention_path_revalidate :: "py_env \<Rightarrow> attention_path \<Rightarrow> attention_path discovery" where
  "attention_path_revalidate E p =
     rbind (raising (rmap (path_step_new E) (ap_relations p))) (\<lambda>rs.
     rbind (rmap (dependency_step_revalidate E) (ap_dependencies p)) (\<lambda>ds.
     rbind (raising (resolution_revalidate E (ap_resolution p))) (\<lambda>r.
     attention_path_new E (p\<lparr>ap_relations := rs, ap_dependencies := ds, ap_resolution := r\<rparr>))))"

section \<open>Anchors\<close>

type_synonym 'a run = "'a discovery option"

definition run_bind :: "'a run \<Rightarrow> ('a \<Rightarrow> 'b run) \<Rightarrow> 'b run" where
  "run_bind r f = (case r of None \<Rightarrow> None | Some (Inl e) \<Rightarrow> Some (Inl e) | Some (Inr x) \<Rightarrow> f x)"

record anchor =
  an_kind :: anchor_kind
  an_rank :: int
  an_changed :: string
  an_anchor :: string
  an_traversal :: string
  an_pair :: "string option"
  an_relations :: "path_step list"

text \<open>
  The sort keys of \<open>_anchors\<close>.  The two tuple shapes start with different kind ranks, so they
  compare like one shape: \<open>(0, hops, 0, changed, target, relations)\<close> for the changed roots and
  \<open>(1, candidate rank, hops, pair, target, relations)\<close> for the candidates.
\<close>

type_synonym anchor_key = "int \<times> int \<times> int \<times> string \<times> string \<times> string list"

definition root_anchor :: "string \<Rightarrow> string \<times> path_step list \<Rightarrow> anchor_key \<times> anchor" where
  "root_anchor changed_id tp =
     (let (target, steps) = tp; kind = (if steps = [] then ChangedRoot else CanonicalRelation) in
      ((anchor_kind_rank kind, int (length steps), 0, changed_id, target, map rs_relation_id steps),
       \<lparr>an_kind = kind, an_rank = 0, an_changed = changed_id, an_anchor = changed_id, an_traversal = target,
        an_pair = None, an_relations = steps\<rparr>))"

definition candidate_anchor :: "int \<Rightarrow> candidate \<Rightarrow> string \<times> path_step list \<Rightarrow> anchor_key \<times> anchor" where
  "candidate_anchor rank k tp =
     (let (target, steps) = tp in
      ((anchor_kind_rank UnassessedCandidate, rank, int (length steps), ca_pair_id k, target, map rs_relation_id steps),
       \<lparr>an_kind = UnassessedCandidate, an_rank = 0, an_changed = ca_changed_id k, an_anchor = ca_incumbent_id k,
        an_traversal = target, an_pair = Some (ca_pair_id k), an_relations = steps\<rparr>))"

definition candidate_is_anchor :: "candidate \<Rightarrow> bool" where
  "candidate_is_anchor k \<longleftrightarrow> sc_same_identity (ca_score k) \<noteq> 0 \<or> sc_same_family (ca_score k) \<noteq> 0 \<or>
     sc_shared_scopes (ca_score k) \<noteq> 0"

fun add_anchors :: "(anchor_key \<times> anchor) list \<Rightarrow> (anchor_key \<times> anchor) list \<Rightarrow> (anchor_key \<times> anchor) list discovery" where
  "add_anchors [] raw = Inr raw"
| "add_anchors (x # xs) raw =
     rbind (enforce_limit ''anchors'' MAX_ANCHORS_V1 (int (length raw) + 1)) (\<lambda>_. add_anchors xs (raw @ [x]))"

fun root_anchors ::
  "step_adjacency \<Rightarrow> string list \<Rightarrow> (anchor_key \<times> anchor) list \<Rightarrow> (anchor_key \<times> anchor) list run" where
  "root_anchors adj [] raw = Some (Inr raw)"
| "root_anchors adj (c # cs) raw =
     run_bind (canonical_relation_paths c adj) (\<lambda>paths.
     run_bind (Some (add_anchors (map (root_anchor c) paths) raw)) (root_anchors adj cs))"

fun candidate_anchors ::
  "step_adjacency \<Rightarrow> int \<Rightarrow> candidate list \<Rightarrow> (anchor_key \<times> anchor) list \<Rightarrow> (anchor_key \<times> anchor) list run" where
  "candidate_anchors adj rank [] raw = Some (Inr raw)"
| "candidate_anchors adj rank (k # ks) raw =
     (if \<not> candidate_is_anchor k then candidate_anchors adj (rank + 1) ks raw
      else
        run_bind (canonical_relation_paths (ca_incumbent_id k) adj) (\<lambda>paths.
        run_bind (Some (add_anchors (map (candidate_anchor rank k) paths) raw))
          (candidate_anchors adj (rank + 1) ks)))"

definition ranked :: "(anchor_key \<times> anchor) list \<Rightarrow> anchor list" where
  "ranked raw = map (\<lambda>(n, an). an\<lparr>an_rank := int n\<rparr>) (enumerate 0 (map snd (sort_key fst raw)))"

definition anchors_of :: "py_env \<Rightarrow> aggregate \<Rightarrow> candidate_set \<Rightarrow> anchor list run" where
  "anchors_of E a ks =
     run_bind (Some (raising (relation_adjacency E (ag_graph a)))) (\<lambda>adj.
     run_bind (root_anchors adj (ab_changed_ids (ks_binding ks)) []) (\<lambda>raw.
     run_bind (candidate_anchors adj 0 (ks_candidates ks) raw) (\<lambda>raw'.
     Some (Inr (ranked raw')))))"

section \<open>The search over dependencies\<close>

definition make_attention_path ::
  "py_env \<Rightarrow> anchor \<Rightarrow> dependency_step list \<Rightarrow> resolution \<Rightarrow> int \<Rightarrow> (attention_path \<times> int) discovery" where
  "make_attention_path E an steps target_resolution cumulative =
     (let p = \<lparr>ap_id = replicate 64 (CHR ''0''), ap_kind = an_kind an, ap_rank = an_rank an,
            ap_changed = an_changed an, ap_anchor = an_anchor an, ap_pair = an_pair an,
            ap_relations = an_relations an, ap_dependencies = steps, ap_target = ds_downstream (last steps),
            ap_resolution = target_resolution, ap_eligible = (ds_kind (last steps) \<noteq> HistoricalReference)\<rparr>;
          bytes = projection_charge E (attention_path_json p) in
      rbind (enforce_limit ''attention-path-bytes'' MAX_ATTENTION_PATH_BYTES_V1 bytes) (\<lambda>_.
      rbind (enforce_limit ''total-attention-path-bytes'' MAX_TOTAL_GENERATED_ATTENTION_PATH_BYTES_V1
               (cumulative + bytes)) (\<lambda>_.
      rbind (attention_path_new E (p\<lparr>ap_id := sha256_json E (path_payload p)\<rparr>)) (\<lambda>path.
      Inr (path, cumulative + bytes)))))"

record walk_state =
  wk_count :: int
  wk_bytes :: int
  wk_context :: resolution_context
  wk_resolutions :: "(string \<times> resolution) list"
  wk_paths :: "(string \<times> (string \<times> attention_path) list) list"

definition target_resolution ::
  "py_env \<Rightarrow> aggregate \<Rightarrow> string \<Rightarrow> walk_state \<Rightarrow> (resolution \<times> walk_state) discovery" where
  "target_resolution E a target st =
     (case map_of (wk_resolutions st) target of
        Some r \<Rightarrow> Inr (r, st)
      | None \<Rightarrow>
          (case dict_get dv_id (ag_documents a) target of
             None \<Rightarrow> Inl (DiscoveryRaise (KeyError target))
           | Some d \<Rightarrow>
               (case context_resolve_document E d (wk_context st) of
                  (Inl e, _) \<Rightarrow> Inl (DiscoveryRaise e)
                | (Inr r, ctx) \<Rightarrow>
                    Inr (r, st\<lparr>wk_context := ctx, wk_resolutions := (target, r) # wk_resolutions st\<rparr>))))"

text \<open>\<open>paths_by_document.setdefault(..)\<close> and the insertion of a path under a new id.\<close>

definition paths_at :: "(string \<times> (string \<times> attention_path) list) list \<Rightarrow> string \<Rightarrow> (string \<times> attention_path) list" where
  "paths_at m d = (case map_of m d of None \<Rightarrow> [] | Some ps \<Rightarrow> ps)"

definition keep_path :: "attention_path \<Rightarrow> walk_state \<Rightarrow> walk_state discovery" where
  "keep_path p st =
     (let ps = paths_at (wk_paths st) (ap_target p) in
      if ap_id p \<in> fst ` set ps then Inr st
      else
        rbind (enforce_limit ''paths-per-document'' MAX_PATHS_PER_DOCUMENT_V1 (int (length ps) + 1)) (\<lambda>_.
        Inr (st\<lparr>wk_paths := AList.update (ap_target p) (ps @ [(ap_id p, p)]) (wk_paths st)\<rparr>)))"

definition record_path ::
  "py_env \<Rightarrow> aggregate \<Rightarrow> anchor \<Rightarrow> dependency_step list \<Rightarrow> walk_state \<Rightarrow> walk_state discovery" where
  "record_path E a an steps st =
     rbind (enforce_limit ''dependency-depth'' (int MAX_DEPENDENCY_DEPTH_V1) (int (length steps))) (\<lambda>_.
     rbind (enforce_limit ''total-generated-paths'' MAX_TOTAL_GENERATED_PATHS_V1 (wk_count st + 1)) (\<lambda>_.
     rbind (target_resolution E a (ds_downstream (last steps)) (st\<lparr>wk_count := wk_count st + 1\<rparr>)) (\<lambda>(r, st1).
     rbind (make_attention_path E an steps r (wk_bytes st1)) (\<lambda>(p, bytes).
     keep_path p (st1\<lparr>wk_bytes := bytes\<rparr>)))))"

record frontier =
  fr_best :: "(string \<times> nat) list"
  fr_seen :: "(string \<times> string list) list"
  fr_queue :: "(string \<times> dependency_step list \<times> string list) list"

text \<open>One turn of the loop over the exposed claims of the last step of \<open>steps\<close>.\<close>

definition expose_one :: "dependency_step list \<Rightarrow> string list \<Rightarrow> string \<Rightarrow> frontier \<Rightarrow> frontier" where
  "expose_one steps visited x f =
     (let depth = length steps; previous = map_of (fr_best f) x; route = (x, map ds_id steps) in
      if x \<in> set visited then f
      else if (case previous of Some d \<Rightarrow> d < depth | None \<Rightarrow> False) then f
      else if route \<in> set (fr_seen f) then f
      else f\<lparr>fr_best := (if (case previous of Some d \<Rightarrow> depth < d | None \<Rightarrow> True)
                         then AList.update x depth (fr_best f) else fr_best f),
             fr_seen := route # fr_seen f,
             fr_queue := fr_queue f @ [(x, steps, x # visited)]\<rparr>)"

fun visit_steps ::
  "py_env \<Rightarrow> aggregate \<Rightarrow> anchor \<Rightarrow> dependency_step list \<Rightarrow> string list \<Rightarrow> dependency_step list \<Rightarrow>
     walk_state \<times> frontier \<Rightarrow> (walk_state \<times> frontier) discovery" where
  "visit_steps E a an previous visited [] sf = Inr sf"
| "visit_steps E a an previous visited (s # ss) (st, f) =
     rbind (record_path E a an (previous @ [s]) st) (\<lambda>st'.
     visit_steps E a an previous visited ss (st', fold (expose_one (previous @ [s]) visited) (ds_exposed s) f))"

text \<open>
  What bounds the search: a queued route of \<open>n\<close> steps weighs \<open>b ^ (9 - n)\<close>, where \<open>b\<close> exceeds the
  number of claims that all dependencies together expose.
\<close>

definition exposures :: "dependency_step list \<Rightarrow> nat" where
  "exposures ss = sum_list (map (\<lambda>s. length (ds_exposed s)) ss)"

definition all_exposures :: "dependency_adjacency \<Rightarrow> nat" where
  "all_exposures deps = sum_list (map (\<lambda>(u, ss). exposures ss) deps)"

definition queue_weight :: "nat \<Rightarrow> (string \<times> dependency_step list \<times> string list) list \<Rightarrow> nat" where
  "queue_weight b q = sum_list (map (\<lambda>(u, steps, visited). Suc b ^ (9 - length steps)) q)"

lemma exposures_at: "exposures (dependents_at deps u) \<le> all_exposures deps"
proof -
  have "map_of deps u = Some ss \<Longrightarrow> exposures ss \<le> all_exposures deps" for ss
    by (induction deps) (auto simp: all_exposures_def split: if_splits)
  then show ?thesis by (auto simp: dependents_at_def exposures_def split: option.splits)
qed

lemma expose_queue:
  "\<exists>new. fr_queue (fold (expose_one steps visited) xs f) = fr_queue f @ new \<and> length new \<le> length xs \<and>
     (\<forall>e \<in> set new. fst (snd e) = steps)"
proof (induction xs arbitrary: f)
  case (Cons x xs)
  have one: "\<exists>new. fr_queue (expose_one steps visited x f) = fr_queue f @ new \<and> length new \<le> 1 \<and>
      (\<forall>e \<in> set new. fst (snd e) = steps)"
    by (cases "x \<in> set visited \<or> (case map_of (fr_best f) x of Some d \<Rightarrow> d < length steps | None \<Rightarrow> False) \<or>
        (x, map ds_id steps) \<in> set (fr_seen f)")
      (auto simp: expose_one_def Let_def)
  then obtain new where "fr_queue (expose_one steps visited x f) = fr_queue f @ new" "length new \<le> 1"
    "\<forall>e \<in> set new. fst (snd e) = steps" by blast
  moreover obtain new' where "fr_queue (fold (expose_one steps visited) xs (expose_one steps visited x f)) =
      fr_queue (expose_one steps visited x f) @ new'" "length new' \<le> length xs" "\<forall>e \<in> set new'. fst (snd e) = steps"
    using Cons.IH by blast
  ultimately show ?case by (intro exI [of _ "new @ new'"]) auto
qed simp

lemma visit_steps_queue:
  assumes "visit_steps E a an previous visited ss (st, f) = Inr (st', f')"
  shows "\<exists>new. fr_queue f' = fr_queue f @ new \<and> length new \<le> exposures ss \<and>
    (\<forall>e \<in> set new. length (fst (snd e)) = Suc (length previous)) \<and> (ss \<noteq> [] \<longrightarrow> length previous < 8)"
  using assms
proof (induction ss arbitrary: st f)
  case Nil
  then show ?case by (simp add: exposures_def)
next
  case (Cons s ss)
  let ?f = "fold (expose_one (previous @ [s]) visited) (ds_exposed s) f"
  obtain st1 where st1: "record_path E a an (previous @ [s]) st = Inr st1"
    "visit_steps E a an previous visited ss (st1, ?f) = Inr (st', f')"
    using Cons.prems by (auto simp: rbind_Inr_iff)
  have deep: "length previous < 8"
    using st1(1) by (auto simp: record_path_def rbind_Inr_iff MAX_DEPENDENCY_DEPTH_V1_def)
  obtain new where "fr_queue ?f = fr_queue f @ new" "length new \<le> length (ds_exposed s)"
    "\<forall>e \<in> set new. fst (snd e) = previous @ [s]" using expose_queue by blast
  moreover obtain new' where "fr_queue f' = fr_queue ?f @ new'" "length new' \<le> exposures ss"
    "\<forall>e \<in> set new'. length (fst (snd e)) = Suc (length previous)"
    using Cons.IH [OF st1(2)] by blast
  ultimately show ?case using deep
    by (intro exI [of _ "new @ new'"]) (auto simp: exposures_def)
qed

lemma queue_weight_append [simp]: "queue_weight b (p @ q) = queue_weight b p + queue_weight b q"
  by (simp add: queue_weight_def)

lemma queue_weight_same:
  "(\<forall>e \<in> set q. length (fst (snd e)) = n) \<Longrightarrow> queue_weight b q = length q * Suc b ^ (9 - n)"
  by (induction q) (auto simp: queue_weight_def)

lemma visit_steps_weight:
  assumes "visit_steps E a an previous visited (dependents_at deps u) (st, f\<lparr>fr_queue := q\<rparr>) = Inr (st', f')"
  shows "queue_weight (all_exposures deps) (fr_queue f') < queue_weight (all_exposures deps) ((u, previous, visited) # q)"
proof -
  let ?b = "all_exposures deps"
  obtain new where new: "fr_queue f' = q @ new" "length new \<le> exposures (dependents_at deps u)"
      "\<forall>e \<in> set new. length (fst (snd e)) = Suc (length previous)"
      "dependents_at deps u \<noteq> [] \<longrightarrow> length previous < 8"
    using visit_steps_queue [OF assms] by auto
  have "queue_weight ?b new < Suc ?b ^ (9 - length previous)"
  proof (cases "new = []")
    case True
    then show ?thesis by (simp add: queue_weight_def)
  next
    case False
    then have "dependents_at deps u \<noteq> []" using new(2) by (cases "dependents_at deps u") (auto simp: exposures_def)
    then have d: "9 - length previous = Suc (9 - Suc (length previous))" using new(4) by simp
    have "queue_weight ?b new = length new * Suc ?b ^ (9 - Suc (length previous))"
      by (rule queue_weight_same [OF new(3)])
    also have "\<dots> < Suc ?b * Suc ?b ^ (9 - Suc (length previous))"
      using new(2) exposures_at [of deps u] by (intro mult_strict_right_mono) simp_all
    finally show ?thesis unfolding d by simp
  qed
  then show ?thesis by (simp add: new(1)) (simp add: queue_weight_def)
qed

text \<open>\<open>while queue: ...\<close>\<close>

function dependency_search ::
  "py_env \<Rightarrow> aggregate \<Rightarrow> anchor \<Rightarrow> dependency_adjacency \<Rightarrow> walk_state \<Rightarrow> frontier \<Rightarrow> walk_state discovery" where
  "dependency_search E a an deps st f =
     (case fr_queue f of
        [] \<Rightarrow> Inr st
      | (u, previous, visited) # q \<Rightarrow>
          (case visit_steps E a an previous visited (dependents_at deps u) (st, f\<lparr>fr_queue := q\<rparr>) of
             Inl e \<Rightarrow> Inl e
           | Inr (st', f') \<Rightarrow> dependency_search E a an deps st' f'))"
  by pat_completeness auto
termination
  by (relation "measure (\<lambda>(E, a, an, deps, st, f). queue_weight (all_exposures deps) (fr_queue f))")
    (auto dest: visit_steps_weight)

declare dependency_search.simps [simp del]

definition first_frontier :: "anchor \<Rightarrow> frontier" where
  "first_frontier an =
     \<lparr>fr_best = [(an_traversal an, 0)], fr_seen = [(an_traversal an, [])],
      fr_queue = [(an_traversal an, [], [an_traversal an])]\<rparr>"

fun search_anchors ::
  "py_env \<Rightarrow> aggregate \<Rightarrow> dependency_adjacency \<Rightarrow> anchor list \<Rightarrow> walk_state \<Rightarrow> walk_state discovery" where
  "search_anchors E a deps [] st = Inr st"
| "search_anchors E a deps (an # ans) st =
     rbind (dependency_search E a an deps st (first_frontier an)) (search_anchors E a deps ans)"

definition first_walk :: "resolution_context \<Rightarrow> walk_state" where
  "first_walk ctx = \<lparr>wk_count = 0, wk_bytes = 0, wk_context = ctx, wk_resolutions = [], wk_paths = []\<rparr>"

definition attention_paths ::
  "py_env \<Rightarrow> aggregate \<Rightarrow> candidate_set \<Rightarrow> resolution_context \<Rightarrow> (string \<times> attention_path list) list run" where
  "attention_paths E a ks ctx =
     run_bind (Some (reverse_dependencies E (ag_dependencies a))) (\<lambda>deps.
     run_bind (anchors_of E a ks) (\<lambda>ans.
     run_bind (Some (search_anchors E a deps ans (first_walk ctx))) (\<lambda>st.
     Some (Inr (map (\<lambda>(d, ps). (d, map snd (sort_key fst ps))) (wk_paths st))))))"

section \<open>Ranked and excluded documents\<close>

record attention_score =
  as_kind_rank :: int
  as_depth :: int
  as_hops :: int
  as_bucket :: int
  as_anchor_rank :: int
  as_support :: int

record attention_candidate =
  ac_version :: string
  ac_document :: string
  ac_resolution :: resolution
  ac_score :: attention_score
  ac_support :: "string list"
  ac_paths :: "attention_path list"

datatype exclusion_reason =
    ChangedDocument | ReasonFuture | ReasonHistorical | ReasonExpired | ReasonUnresolved
  | HistoricalReferenceOnly

record excluded_target =
  xt_version :: string
  xt_document :: string
  xt_resolution :: resolution
  xt_reasons :: "exclusion_reason list"
  xt_paths :: "attention_path list"

definition exclusion_value :: "exclusion_reason \<Rightarrow> string" where
  "exclusion_value r = (case r of ChangedDocument \<Rightarrow> ''changed-document'' | ReasonFuture \<Rightarrow> ''future''
     | ReasonHistorical \<Rightarrow> ''historical'' | ReasonExpired \<Rightarrow> ''expired'' | ReasonUnresolved \<Rightarrow> ''unresolved''
     | HistoricalReferenceOnly \<Rightarrow> ''historical-reference-only'')"

definition exclusion_order :: "exclusion_reason \<Rightarrow> int" where
  "exclusion_order r = (case r of ChangedDocument \<Rightarrow> 0 | ReasonFuture \<Rightarrow> 1 | ReasonHistorical \<Rightarrow> 2
     | ReasonExpired \<Rightarrow> 3 | ReasonUnresolved \<Rightarrow> 4 | HistoricalReferenceOnly \<Rightarrow> 5)"

text \<open>\<open>AttentionExclusionReason(state.value)\<close>, where the state is not \<open>CURRENT\<close>.\<close>

definition temporal_reason :: "temporal_state \<Rightarrow> exclusion_reason option" where
  "temporal_reason s = (case s of Current \<Rightarrow> None | Future \<Rightarrow> Some ReasonFuture | Historical \<Rightarrow> Some ReasonHistorical
     | Expired \<Rightarrow> Some ReasonExpired | Unresolved \<Rightarrow> Some ReasonUnresolved)"

type_synonym path_rank = "int \<times> int \<times> int \<times> int \<times> int \<times> string"

definition path_rank_key :: "attention_path \<Rightarrow> path_rank" where
  "path_rank_key p =
     (anchor_kind_rank (ap_kind p), int (length (ap_dependencies p)), int (length (ap_relations p)),
      dependency_kind_bucket (ds_kind (last (ap_dependencies p))), ap_rank p, ap_id p)"

text \<open>\<open>min(paths, key=...)\<close>: the first of the least paths.\<close>

definition best_path :: "attention_path list \<Rightarrow> attention_path option" where
  "best_path ps = (case sort_key path_rank_key ps of [] \<Rightarrow> None | p # _ \<Rightarrow> Some p)"

definition eligible_paths :: "attention_path list \<Rightarrow> attention_path list" where
  "eligible_paths ps = filter ap_eligible ps"

definition terminal_ids :: "attention_path list \<Rightarrow> string list" where
  "terminal_ids ps = sorted_set (map (\<lambda>p. ds_id (last (ap_dependencies p))) ps)"

definition score_of :: "attention_path \<Rightarrow> string list \<Rightarrow> attention_score" where
  "score_of best support =
     \<lparr>as_kind_rank = anchor_kind_rank (ap_kind best), as_depth = int (length (ap_dependencies best)),
      as_hops = int (length (ap_relations best)),
      as_bucket = dependency_kind_bucket (ds_kind (last (ap_dependencies best))),
      as_anchor_rank = ap_rank best, as_support = int (length support)\<rparr>"

definition attention_score_new :: "attention_score \<Rightarrow> attention_score discovery" where
  "attention_score_new s =
     rbind (requires
       [(0 \<le> as_kind_rank s \<and> as_kind_rank s \<le> 1, ValueError ''anchor_kind_rank''),
        (0 < as_depth s, ValueError ''dependency_depth''), (0 \<le> as_hops s, ValueError ''relation_hops''),
        (0 \<le> as_bucket s \<and> as_bucket s \<le> 1, ValueError ''dependency_kind_bucket''),
        (0 \<le> as_anchor_rank s, ValueError ''anchor_rank''),
        (0 < as_support s, ValueError ''supporting_dependency_count'')]) (\<lambda>_. Inr s)"

definition attention_score_json :: "attention_score \<Rightarrow> json" where
  "attention_score_json s = JObj
     [(''anchor_kind_rank'', JInt (as_kind_rank s)),
      (''anchor_rank'', JInt (as_anchor_rank s)),
      (''dependency_depth'', JInt (as_depth s)),
      (''dependency_kind_bucket'', JInt (as_bucket s)),
      (''relation_hops'', JInt (as_hops s)),
      (''schema_version'', JInt 1),
      (''supporting_dependency_count'', JInt (as_support s))]"

definition attention_candidate_json :: "attention_candidate \<Rightarrow> json" where
  "attention_candidate_json c = JObj
     [(''document_id'', JStr (ac_document c)),
      (''document_version_id'', JStr (ac_version c)),
      (''paths'', JArr (map attention_path_json (ac_paths c))),
      (''score'', attention_score_json (ac_score c)),
      (''supporting_dependency_ids'', JArr (map JStr (ac_support c))),
      (''temporal_resolution'', resolution_json (ac_resolution c))]"

definition excluded_target_json :: "excluded_target \<Rightarrow> json" where
  "excluded_target_json x = JObj
     [(''document_id'', JStr (xt_document x)),
      (''document_version_id'', JStr (xt_version x)),
      (''paths'', JArr (map attention_path_json (xt_paths x))),
      (''reasons'', JArr (map (\<lambda>r. JStr (exclusion_value r)) (xt_reasons x))),
      (''temporal_resolution'', resolution_json (xt_resolution x))]"

definition target_record_budget :: "py_env \<Rightarrow> json \<Rightarrow> int discovery" where
  "target_record_budget E payload =
     (let charge = projection_charge E payload in
      rbind (enforce_limit ''attention-target-record-bytes'' MAX_ATTENTION_TARGET_RECORD_BYTES_V1 charge) (\<lambda>_.
      Inr charge))"

text \<open>The checks that \<open>DocumentAttentionCandidate\<close> and \<open>ExcludedAttentionTarget\<close> share.\<close>

definition paths_canonical :: "attention_path list \<Rightarrow> bool" where
  "paths_canonical ps \<longleftrightarrow> ps = sort_key ap_id ps \<and> distinct (map ap_id ps)"

definition attention_candidate_new :: "py_env \<Rightarrow> attention_candidate \<Rightarrow> attention_candidate discovery" where
  "attention_candidate_new E c =
     (let eligible = eligible_paths (ac_paths c); expected = terminal_ids eligible in
      rbind (requires
        [(content_id_pattern ''docv'' (ac_version c), ValueError ''document_version_id''),
         (ac_support c \<noteq> [], ValueError ''supporting_dependency_ids''),
         (ac_paths c \<noteq> [], ValueError ''paths'')]) (\<lambda>_.
      rbind (enforce_limit ''paths-per-document'' MAX_PATHS_PER_DOCUMENT_V1 (int (length (ac_paths c)))) (\<lambda>_.
      rbind (requires
        [(ac_support c = sorted_set (ac_support c), ValueError ''supporting dependency IDs must be sorted and unique''),
         (as_support (ac_score c) = int (length (ac_support c)),
            ValueError ''support count does not match supporting dependency IDs''),
         (paths_canonical (ac_paths c), ValueError ''attention paths must use canonical path-ID order''),
         (list_all (\<lambda>p. ap_target p = ac_version c) (ac_paths c),
            ValueError ''all paths must terminate at the candidate document''),
         (eligible \<noteq> [], ValueError ''attention candidates require an eligible dependency path''),
         (tr_state (ac_resolution c) = Current \<and> bound_to DocumentTarget (ac_version c) (ac_resolution c),
            ValueError ''attention candidates require the current target resolution''),
         (list_all (\<lambda>p. ap_resolution p = ac_resolution c) (ac_paths c),
            ValueError ''attention paths must retain the exact target temporal resolution''),
         (ac_support c = expected, ValueError ''supporting dependency IDs do not match eligible paths'')]) (\<lambda>_.
      rbind (case best_path eligible of
          None \<Rightarrow> Inl (DiscoveryRaise (ValueError ''min() arg is an empty sequence''))
        | Some best \<Rightarrow> attention_score_new (score_of best expected)) (\<lambda>score.
      rbind (requires [(ac_score c = score, ValueError ''attention score does not match canonical eligible paths'')]) (\<lambda>_.
      rbind (target_record_budget E (attention_candidate_json c)) (\<lambda>_. Inr c)))))))"

definition temporal_reasons :: "exclusion_reason list \<Rightarrow> exclusion_reason set" where
  "temporal_reasons rs = set rs \<inter> {ReasonFuture, ReasonHistorical, ReasonExpired, ReasonUnresolved}"

definition excluded_target_new :: "py_env \<Rightarrow> excluded_target \<Rightarrow> excluded_target discovery" where
  "excluded_target_new E x =
     rbind (requires
       [(content_id_pattern ''docv'' (xt_version x), ValueError ''document_version_id''),
        (xt_reasons x \<noteq> [], ValueError ''reasons''), (xt_paths x \<noteq> [], ValueError ''paths'')]) (\<lambda>_.
     rbind (enforce_limit ''paths-per-document'' MAX_PATHS_PER_DOCUMENT_V1 (int (length (xt_paths x)))) (\<lambda>_.
     rbind (requires
       [(xt_reasons x = sort_key exclusion_order (remdups (xt_reasons x)),
           ValueError ''attention exclusion reasons must use canonical order''),
        (paths_canonical (xt_paths x), ValueError ''excluded attention paths must use canonical path-ID order''),
        (list_all (\<lambda>p. ap_target p = xt_version x) (xt_paths x),
           ValueError ''all exclusion paths must terminate at the excluded document''),
        (bound_to DocumentTarget (xt_version x) (xt_resolution x),
           ValueError ''excluded target resolution is bound to the wrong document''),
        (list_all (\<lambda>p. ap_resolution p = xt_resolution x) (xt_paths x),
           ValueError ''exclusion paths must retain the exact target temporal resolution''),
        (temporal_reasons (xt_reasons x) =
           (case temporal_reason (tr_state (xt_resolution x)) of None \<Rightarrow> {} | Some r \<Rightarrow> {r}),
           ValueError ''temporal exclusion reason does not match target resolution''),
        ((HistoricalReferenceOnly \<in> set (xt_reasons x)) = (\<not> list_ex ap_eligible (xt_paths x)),
           ValueError ''historical-reference exclusion does not match target paths'')]) (\<lambda>_.
     rbind (target_record_budget E (excluded_target_json x)) (\<lambda>_. Inr x))))"

section \<open>The ranking and its budgets\<close>

record ranking =
  rk_binding :: analysis_binding
  rk_attention :: "attention_candidate list"
  rk_excluded :: "excluded_target list"
  rk_sha256 :: string

definition target_paths :: "attention_candidate list \<Rightarrow> excluded_target list \<Rightarrow> attention_path list" where
  "target_paths cs xs = concat (map ac_paths cs) @ concat (map xt_paths xs)"

definition target_jsons :: "attention_candidate list \<Rightarrow> excluded_target list \<Rightarrow> json list" where
  "target_jsons cs xs = map attention_candidate_json cs @ map excluded_target_json xs"

definition retained_path_count :: "attention_candidate list \<Rightarrow> excluded_target list \<Rightarrow> unit discovery" where
  "retained_path_count cs xs =
     (let n = int (length (target_paths cs xs)) in
      if n > MAX_TOTAL_GENERATED_PATHS_V1
      then Inl (DiscoveryLimit ''total-retained-paths'' MAX_TOTAL_GENERATED_PATHS_V1 (MAX_TOTAL_GENERATED_PATHS_V1 + 1))
      else Inr ())"

fun target_budgets :: "py_env \<Rightarrow> int \<Rightarrow> json list \<Rightarrow> unit discovery" where
  "target_budgets E cumulative [] = Inr ()"
| "target_budgets E cumulative (j # js) =
     rbind (target_record_budget E j) (\<lambda>charge.
     rbind (enforce_limit ''total-attention-target-record-bytes'' MAX_TOTAL_ATTENTION_TARGET_RECORD_BYTES_V1
              (cumulative + charge)) (\<lambda>_.
     target_budgets E (cumulative + charge) js))"

text \<open>The inner loop of \<open>_enforce_attention_projection_budgets\<close>: a dependency is charged once.\<close>

fun charge_steps ::
  "py_env \<Rightarrow> dependency_step list \<Rightarrow> (string \<times> string) list \<times> int \<Rightarrow> ((string \<times> string) list \<times> int) discovery" where
  "charge_steps E [] kc = Inr kc"
| "charge_steps E (s # ss) (known, cumulative) =
     (let bytes = projection_charge E (dependency_step_json s);
          projection = canonical_json_bytes E (dependency_step_json s) in
      rbind (enforce_limit ''dependency-projection-bytes'' MAX_DEPENDENCY_PROJECTION_BYTES_V1 bytes) (\<lambda>_.
      case map_of known (ds_id s) of
        Some previous \<Rightarrow>
          if previous \<noteq> projection
          then Inl (DiscoveryRaise (ValueError ''one dependency ID has conflicting attention-path projections''))
          else charge_steps E ss (known, cumulative)
      | None \<Rightarrow>
          rbind (enforce_limit ''total-unique-dependency-projection-bytes''
                   MAX_TOTAL_UNIQUE_DEPENDENCY_PROJECTION_BYTES_V1 (cumulative + bytes)) (\<lambda>_.
          charge_steps E ss ((ds_id s, projection) # known, cumulative + bytes))))"

fun charge_paths ::
  "py_env \<Rightarrow> int \<Rightarrow> int \<Rightarrow> (string \<times> string) list \<times> int \<Rightarrow> attention_path list \<Rightarrow> unit discovery" where
  "charge_paths E count cumulative kc [] = Inr ()"
| "charge_paths E count cumulative kc (p # ps) =
     (let bytes = projection_charge E (attention_path_json p) in
      rbind (enforce_limit ''total-retained-paths'' MAX_TOTAL_GENERATED_PATHS_V1 (count + 1)) (\<lambda>_.
      rbind (enforce_limit ''attention-path-bytes'' MAX_ATTENTION_PATH_BYTES_V1 bytes) (\<lambda>_.
      rbind (enforce_limit ''total-attention-path-bytes'' MAX_TOTAL_GENERATED_ATTENTION_PATH_BYTES_V1
               (cumulative + bytes)) (\<lambda>_.
      rbind (charge_steps E (ap_dependencies p) kc) (\<lambda>kc'.
      charge_paths E (count + 1) (cumulative + bytes) kc' ps)))))"

definition projection_budgets :: "py_env \<Rightarrow> attention_candidate list \<Rightarrow> excluded_target list \<Rightarrow> unit discovery" where
  "projection_budgets E cs xs = charge_paths E 0 0 ([], 0) (target_paths cs xs)"

definition ranking_budgets :: "py_env \<Rightarrow> attention_candidate list \<Rightarrow> excluded_target list \<Rightarrow> unit discovery" where
  "ranking_budgets E cs xs =
     rbind (projection_budgets E cs xs) (\<lambda>_. target_budgets E 0 (target_jsons cs xs))"

definition ranking_payload :: "analysis_binding \<Rightarrow> attention_candidate list \<Rightarrow> excluded_target list \<Rightarrow> json" where
  "ranking_payload b cs xs = JObj
     [(''attention_candidates'', JArr (map attention_candidate_json cs)),
      (''binding'', binding_json b),
      (''excluded_targets'', JArr (map excluded_target_json xs)),
      (''namespace'', JStr ''mastervault.document-attention-ranking.v1''),
      (''schema_version'', JInt 1)]"

definition ranking_payload_budget :: "py_env \<Rightarrow> json \<Rightarrow> unit discovery" where
  "ranking_payload_budget E payload =
     enforce_limit ''attention-ranking-payload-bytes'' MAX_ATTENTION_RANKING_PAYLOAD_BYTES_V1 (byte_count E payload)"

definition attention_sort_key :: "attention_candidate \<Rightarrow> int \<times> int \<times> int \<times> int \<times> int \<times> int \<times> string" where
  "attention_sort_key c =
     (as_kind_rank (ac_score c), as_depth (ac_score c), as_hops (ac_score c), as_bucket (ac_score c),
      as_anchor_rank (ac_score c), - as_support (ac_score c), ac_version c)"

definition ranking_integrity :: "py_env \<Rightarrow> ranking \<Rightarrow> ranking discovery" where
  "ranking_integrity E r =
     (let cs = rk_attention r; xs = rk_excluded r; payload = ranking_payload (rk_binding r) cs xs in
      rbind (requires
        [(ab_algorithm (rk_binding r) = DocumentAttentionRankingV1,
            ValueError ''document-attention ranking has the wrong algorithm binding''),
         (cs = sort_key attention_sort_key cs, ValueError ''attention candidates must use canonical score order''),
         (distinct (map ac_version cs), ValueError ''attention candidates must have unique document-version IDs''),
         (map xt_version xs = sorted_set (map xt_version xs),
            ValueError ''excluded targets must use unique canonical document order''),
         (set (map ac_version cs) \<inter> set (map xt_version xs) = {},
            ValueError ''a document cannot be both ranked and excluded'')]) (\<lambda>_.
      rbind (ranking_budgets E cs xs) (\<lambda>_.
      rbind (ranking_payload_budget E payload) (\<lambda>_.
      rbind (requires [(rk_sha256 r = sha256_json E payload,
         ValueError ''document-attention result SHA does not match its content'')]) (\<lambda>_.
      Inr r)))))"

definition ranking_new :: "py_env \<Rightarrow> ranking \<Rightarrow> ranking discovery" where
  "ranking_new E r =
     rbind (ranking_budgets E (rk_attention r) (rk_excluded r)) (\<lambda>_.
     rbind (requires [(sha256_pattern (rk_sha256 r), ValueError ''result_sha256'')]) (\<lambda>_.
     ranking_integrity E r))"

definition ranking_create ::
  "py_env \<Rightarrow> analysis_binding \<Rightarrow> attention_candidate list \<Rightarrow> excluded_target list \<Rightarrow> ranking discovery" where
  "ranking_create E b attention excluded =
     rbind (retained_path_count attention excluded) (\<lambda>_.
     let cs = sort_key attention_sort_key attention; xs = sort_key xt_version excluded;
         payload = ranking_payload b cs xs in
     rbind (ranking_budgets E cs xs) (\<lambda>_.
     rbind (ranking_payload_budget E payload) (\<lambda>_.
     ranking_new E \<lparr>rk_binding = b, rk_attention = cs, rk_excluded = xs, rk_sha256 = sha256_json E payload\<rparr>)))"

definition attention_candidate_revalidate :: "py_env \<Rightarrow> attention_candidate \<Rightarrow> attention_candidate discovery" where
  "attention_candidate_revalidate E c =
     rbind (raising (resolution_revalidate E (ac_resolution c))) (\<lambda>r.
     rbind (attention_score_new (ac_score c)) (\<lambda>s.
     rbind (rmap (attention_path_revalidate E) (ac_paths c)) (\<lambda>ps.
     attention_candidate_new E (c\<lparr>ac_resolution := r, ac_score := s, ac_paths := ps\<rparr>))))"

definition excluded_target_revalidate :: "py_env \<Rightarrow> excluded_target \<Rightarrow> excluded_target discovery" where
  "excluded_target_revalidate E x =
     rbind (raising (resolution_revalidate E (xt_resolution x))) (\<lambda>r.
     rbind (rmap (attention_path_revalidate E) (xt_paths x)) (\<lambda>ps.
     excluded_target_new E (x\<lparr>xt_resolution := r, xt_paths := ps\<rparr>)))"

definition ranking_revalidate :: "py_env \<Rightarrow> ranking \<Rightarrow> ranking discovery" where
  "ranking_revalidate E r =
     rbind (ranking_budgets E (rk_attention r) (rk_excluded r)) (\<lambda>_.
     rbind (binding_revalidate E (rk_binding r)) (\<lambda>b.
     rbind (rmap (attention_candidate_revalidate E) (rk_attention r)) (\<lambda>cs.
     rbind (rmap (excluded_target_revalidate E) (rk_excluded r)) (\<lambda>xs.
     rbind (requires [(sha256_pattern (rk_sha256 r), ValueError ''result_sha256'')]) (\<lambda>_.
     ranking_integrity E (r\<lparr>rk_binding := b, rk_attention := cs, rk_excluded := xs\<rparr>))))))"

section \<open>Ranking the documents of a snapshot\<close>

datatype target = Ranked attention_candidate | Excluded excluded_target

definition exclusion_reasons :: "bool \<Rightarrow> resolution \<Rightarrow> attention_path list \<Rightarrow> exclusion_reason list" where
  "exclusion_reasons changed resolution paths =
     (if changed then [ChangedDocument] else []) @
     (case temporal_reason (tr_state resolution) of None \<Rightarrow> [] | Some r \<Rightarrow> [r]) @
     (if eligible_paths paths = [] then [HistoricalReferenceOnly] else [])"

text \<open>The body of the loop over \<open>_attention_paths(..).items()\<close>, up to the budget of the record.\<close>

definition target_for ::
  "py_env \<Rightarrow> aggregate \<Rightarrow> string list \<Rightarrow> string \<times> attention_path list \<Rightarrow> target discovery" where
  "target_for E a changed_documents dp =
     (let (version, paths) = dp in
      case (dict_get dv_id (ag_documents a) version, paths) of
        (None, _) \<Rightarrow> Inl (DiscoveryRaise (KeyError version))
      | (_, []) \<Rightarrow> Inl (DiscoveryRaise (KeyError ''tuple index out of range''))
      | (Some d, p # _) \<Rightarrow>
          (let resolution = ap_resolution p; eligible = eligible_paths paths;
               reasons = exclusion_reasons (version \<in> set changed_documents) resolution paths in
           if reasons \<noteq> [] then
             rbind (excluded_target_new E
               \<lparr>xt_version = version, xt_document = dv_document_id d, xt_resolution = resolution,
                xt_reasons = sort_key exclusion_order (remdups reasons), xt_paths = paths\<rparr>) (\<lambda>x. Inr (Excluded x))
           else
             (case best_path eligible of
                None \<Rightarrow> Inl (DiscoveryRaise (ValueError ''min() arg is an empty sequence''))
              | Some best \<Rightarrow>
                  (let support = terminal_ids eligible in
                   rbind (attention_score_new (score_of best support)) (\<lambda>score.
                   rbind (attention_candidate_new E
                     \<lparr>ac_version = version, ac_document = dv_document_id d, ac_resolution = resolution,
                      ac_score = score, ac_support = support, ac_paths = paths\<rparr>) (\<lambda>c. Inr (Ranked c)))))))"

definition target_json :: "target \<Rightarrow> json" where
  "target_json t = (case t of Ranked c \<Rightarrow> attention_candidate_json c | Excluded x \<Rightarrow> excluded_target_json x)"

fun targets_for ::
  "py_env \<Rightarrow> aggregate \<Rightarrow> string list \<Rightarrow> int \<Rightarrow> (string \<times> attention_path list) list \<Rightarrow> target list discovery" where
  "targets_for E a changed_documents cumulative [] = Inr []"
| "targets_for E a changed_documents cumulative (dp # dps) =
     rbind (target_for E a changed_documents dp) (\<lambda>t.
     rbind (target_record_budget E (target_json t)) (\<lambda>bytes.
     rbind (enforce_limit ''total-attention-target-record-bytes'' MAX_TOTAL_ATTENTION_TARGET_RECORD_BYTES_V1
              (cumulative + bytes)) (\<lambda>_.
     rbind (targets_for E a changed_documents (cumulative + bytes) dps) (\<lambda>ts. Inr (t # ts)))))"

definition ranked_targets :: "target list \<Rightarrow> attention_candidate list" where
  "ranked_targets ts = concat (map (\<lambda>t. case t of Ranked c \<Rightarrow> [c] | Excluded _ \<Rightarrow> []) ts)"

definition excluded_targets :: "target list \<Rightarrow> excluded_target list" where
  "excluded_targets ts = concat (map (\<lambda>t. case t of Ranked _ \<Rightarrow> [] | Excluded x \<Rightarrow> [x]) ts)"

definition claim_document_id :: "aggregate \<Rightarrow> string \<Rightarrow> string discovery" where
  "claim_document_id a i = rbind (raising (claim_registry_get (ag_claims a) i)) (\<lambda>r. Inr (dv_id (cr_document r)))"

text \<open>\<open>rank_document_attention\<close> after the candidate set has been revalidated.\<close>

definition rank_validated ::
  "py_env \<Rightarrow> snapshot \<Rightarrow> aggregate \<Rightarrow> candidate_set \<Rightarrow> resolution_context \<Rightarrow> ranking run" where
  "rank_validated E snap a ks ctx =
     (let kb = ks_binding ks in
      case validate_changed_roots E a (ab_changed_ids kb) ctx of
        (Inl e, _) \<Rightarrow> Some (Inl e)
      | (Inr (_, resolutions), ctx1) \<Rightarrow>
          if resolutions \<noteq> ab_resolutions kb
          then Some (Inl (DiscoveryRaise (ValueError ''relationship candidate changed-root temporality is stale'')))
          else
            (case generate_from E snap a (ab_changed_ids kb) ctx1 of
               (Inl e, _) \<Rightarrow> Some (Inl e)
             | (Inr expected, ctx2) \<Rightarrow>
                 run_bind (Some (rbind (requires [(ks = expected,
                     ValueError ''relationship candidates are not the complete deterministic set for this snapshot'')]) (\<lambda>_.
                   rbind (binding_create E DocumentAttentionRankingV1 (ag_id a) (ss_revision snap) (ss_sha256 snap)
                     (ab_as_of kb) (ab_changed_ids kb) resolutions (Some (ks_sha256 ks))) (\<lambda>b.
                   rbind (rmap (claim_document_id a) (ab_changed_ids kb)) (\<lambda>docs. Inr (b, docs)))))) (\<lambda>(b, docs).
                 run_bind (attention_paths E a ks ctx2) (\<lambda>by_document.
                 Some (rbind (targets_for E a docs 0 by_document) (\<lambda>ts.
                   ranking_create E b (ranked_targets ts) (excluded_targets ts)))))))"

definition rank_document_attention :: "py_env \<Rightarrow> snapshot \<Rightarrow> candidate_set \<Rightarrow> ranking run" where
  "rank_document_attention E snap candidates =
     run_bind (Some (rbind (validate_snapshot E snap) (\<lambda>a.
       rbind (candidate_budgets E (ks_candidates candidates)) (\<lambda>_.
       rbind (set_payload_budget E (candidate_set_payload (ks_binding candidates) (ks_candidates candidates))) (\<lambda>_.
       rbind (candidate_set_revalidate E candidates) (\<lambda>ks.
       rbind (requires
         [(ab_aggregate_id (ks_binding ks) = ag_id a \<and> ab_revision (ks_binding ks) = ss_revision snap \<and>
           ab_aggregate_sha256 (ks_binding ks) = ss_sha256 snap,
           ValueError ''relationship candidates are stale for this change-control snapshot'')]) (\<lambda>_.
       rbind (raising (context_from_aggregate E a (ab_as_of (ks_binding ks)))) (\<lambda>ctx.
       Inr (a, ks, ctx))))))))) (\<lambda>(a, ks, ctx).
     rank_validated E snap a ks ctx)"

definition validate_document_attention_ranking ::
  "py_env \<Rightarrow> snapshot \<Rightarrow> candidate_set \<Rightarrow> ranking \<Rightarrow> ranking run" where
  "validate_document_attention_ranking E snap candidates r =
     run_bind (Some (rbind (ranking_budgets E (rk_attention r) (rk_excluded r)) (\<lambda>_.
       rbind (ranking_payload_budget E (ranking_payload (rk_binding r) (rk_attention r) (rk_excluded r))) (\<lambda>_.
       ranking_revalidate E r)))) (\<lambda>validated.
     run_bind (rank_document_attention E snap candidates) (\<lambda>expected.
     Some (rbind (requires [(validated = expected,
       ValueError ''document-attention ranking is not the deterministic result for this snapshot'')]) (\<lambda>_.
     Inr validated))))"

section \<open>Runs\<close>

lemma run_bind_simps [simp]:
  "run_bind (Some (Inr x)) f = f x" "run_bind (Some (Inl e)) f = Some (Inl e)"
  by (simp_all add: run_bind_def)

lemma run_bind_Inr_iff: "run_bind r f = Some (Inr y) \<longleftrightarrow> (\<exists>x. r = Some (Inr x) \<and> f x = Some (Inr y))"
  by (auto simp: run_bind_def split: option.splits sum.splits)

text \<open>A run that ends, with a value or with an exception.\<close>

definition returns :: "'a run \<Rightarrow> bool" where
  "returns r \<longleftrightarrow> (\<exists>x. r = Some x)"

lemma returns_Some [simp]: "returns (Some x)"
  by (simp add: returns_def)

lemma returns_bind: "returns r \<Longrightarrow> (\<And>x. returns (f x)) \<Longrightarrow> returns (run_bind r f)"
  by (auto simp: returns_def run_bind_def split: sum.splits)

lemma returns_paths: "returns (canonical_relation_paths c adj)"
  using canonical_relation_paths_total by (fastforce simp: returns_def)

lemma root_anchors_return: "returns (root_anchors adj cs raw)"
  by (induction cs arbitrary: raw) (simp_all add: returns_bind returns_paths del: run_bind_simps)

lemma candidate_anchors_return: "returns (candidate_anchors adj rank ks raw)"
  by (induction ks arbitrary: rank raw) (simp_all add: returns_bind returns_paths del: run_bind_simps)

lemma attention_paths_return: "returns (attention_paths E a ks ctx)"
  unfolding attention_paths_def anchors_of_def
  by (simp add: returns_bind root_anchors_return candidate_anchors_return del: run_bind_simps)

lemma rank_validated_return: "returns (rank_validated E snap a ks ctx)"
proof -
  have "returns (case x of (b, docs) \<Rightarrow> run_bind (attention_paths E a ks ctx2) (\<lambda>by_document.
      Some (rbind (targets_for E a docs 0 by_document) (\<lambda>ts.
        ranking_create E b (ranked_targets ts) (excluded_targets ts)))))" for x ctx2
    by (cases x) (simp add: returns_bind attention_paths_return del: run_bind_simps)
  then have bound: "returns (run_bind (Some r) (\<lambda>(b, docs). run_bind (attention_paths E a ks ctx2) (\<lambda>by_document.
      Some (rbind (targets_for E a docs 0 by_document) (\<lambda>ts.
        ranking_create E b (ranked_targets ts) (excluded_targets ts))))))" for r ctx2
    by (intro returns_bind returns_Some)
  show ?thesis
    unfolding rank_validated_def Let_def
    by (simp add: bound split: sum.split prod.split del: run_bind_simps)
qed

lemma rank_returns: "returns (rank_document_attention E snap ks)"
proof -
  have "returns (case x of (a, ks, ctx) \<Rightarrow> rank_validated E snap a ks ctx)" for x
    by (cases x) (simp add: rank_validated_return)
  then show ?thesis unfolding rank_document_attention_def by (intro returns_bind returns_Some)
qed

section \<open>Dependencies as an adjacency\<close>

lemma dependency_step_of_wf:
  assumes "dependency_wf E d" and "dependency_step_revalidate E (dependency_to_step d) = Inr s"
  shows "s = dependency_to_step d \<and> dependency_step_new E s = Inr s"
proof -
  have "rmap (document_span_revalidate E) (dp_spans d) = Inr (dp_spans d)"
    using assms(1) by (auto simp: dependency_wf_iff document_span_wf_def intro!: rmap_id)
  then have "dependency_step_new E (dependency_to_step d) = Inr s"
    using assms(2) by (simp add: dependency_step_revalidate_def dependency_to_step_def)
  moreover from this have "s = dependency_to_step d"
    by (auto simp: dependency_step_new_def rbind_Inr_iff Let_def)
  ultimately show ?thesis by simp
qed

lemma append_at_fold:
  "(case map_of (foldl (\<lambda>m s. append_at (key s) s m) m ss) u of None \<Rightarrow> [] | Some xs \<Rightarrow> xs) =
   (case map_of m u of None \<Rightarrow> [] | Some xs \<Rightarrow> xs) @ filter (\<lambda>s. key s = u) ss"
  by (induction ss arbitrary: m) (auto simp: map_of_append_at split: option.splits)

lemma reverse_dependencies_at:
  assumes "\<forall>d \<in> set ds. dependency_wf E d" and "reverse_dependencies E ds = Inr deps"
  shows "set (dependents_at deps u) = dependency_to_step ` {d \<in> set ds. cr_revision_id (dp_upstream d) = u} \<and>
    (\<forall>s \<in> set (dependents_at deps u). dependency_step_new E s = Inr s)"
proof -
  obtain steps where steps: "rmap (\<lambda>d. dependency_step_revalidate E (dependency_to_step d)) ds = Inr steps"
    and deps: "deps = map (\<lambda>(u, ss). (u, sort_key ds_id ss)) (foldl (\<lambda>m s. append_at (ds_upstream s) s m) [] steps)"
    using assms(2) by (auto simp: reverse_dependencies_def rbind_Inr_iff)
  have mem: "s \<in> set steps \<longleftrightarrow> (\<exists>d \<in> set ds. dependency_step_revalidate E (dependency_to_step d) = Inr s)" for s
    by (rule rmap_Inr_mem [OF steps])
  have all: "\<forall>d \<in> set ds. \<exists>s. dependency_step_revalidate E (dependency_to_step d) = Inr s"
    by (rule iffD1 [OF rmap_ex_iff exI, OF steps])
  have set: "set steps = dependency_to_step ` set ds"
  proof (intro set_eqI iffI)
    fix s assume "s \<in> dependency_to_step ` set ds"
    then obtain d where d: "d \<in> set ds" "s = dependency_to_step d" by blast
    then obtain s' where "dependency_step_revalidate E (dependency_to_step d) = Inr s'" using all by blast
    then show "s \<in> set steps" using dependency_step_of_wf assms(1) d mem by blast
  next
    fix s assume "s \<in> set steps"
    then show "s \<in> dependency_to_step ` set ds" using dependency_step_of_wf assms(1) mem by blast
  qed
  have "map_of deps u = map_option (sort_key ds_id) (map_of (foldl (\<lambda>m s. append_at (ds_upstream s) s m) [] steps) u)"
  proof -
    have "map_of (map (\<lambda>(u, ss). (u, sort_key ds_id ss)) m) u = map_option (sort_key ds_id) (map_of m u)" for m
      by (induction m) auto
    then show ?thesis unfolding deps .
  qed
  then have "dependents_at deps u = sort_key ds_id (filter (\<lambda>s. ds_upstream s = u) steps)"
    using append_at_fold [where key = ds_upstream and ss = steps and m = "[]" and u = u]
    by (simp add: dependents_at_def split: option.splits)
  then have "set (dependents_at deps u) = set (filter (\<lambda>s. ds_upstream s = u) steps)" by simp
  moreover have "\<forall>s \<in> set steps. dependency_step_new E s = Inr s"
    using dependency_step_of_wf assms(1) mem by blast
  ultimately show ?thesis by (auto simp: set dependency_to_step_def)
qed

section \<open>Where the anchors lie\<close>

lemma add_anchors_Inr: "add_anchors xs raw = Inr raw' \<Longrightarrow> raw' = raw @ xs"
proof (induction xs arbitrary: raw)
  case (Cons x xs)
  then have "add_anchors xs (raw @ [x]) = Inr raw'" by (auto simp: rbind_Inr_iff)
  from Cons.IH [OF this] show ?case by simp
qed simp

text \<open>The labels of the relation search have distinct keys.\<close>

lemma relax_steps_distinct:
  assumes "relax_steps p ss (paths, queue) = Inr (paths', queue')" and "distinct (map fst paths)"
  shows "distinct (map fst paths')"
  using assms
proof (induction ss arbitrary: paths queue)
  case (Cons s ss)
  obtain ps q where one: "relax_step p s (paths, queue) = Inr (ps, q)" "relax_steps p ss (ps, q) = Inr (paths', queue')"
    using Cons.prems(1) by (auto simp: rbind_Inr_iff)
  then have "distinct (map fst ps)"
    using Cons.prems(2) by (auto simp: relax_step_def Let_def distinct_update split: if_splits)
  with one(2) show ?case by (rule Cons.IH)
qed simp

lemma path_loop_distinct:
  assumes "path_loop adj paths queue = Some r"
  shows "distinct (map fst paths) \<longrightarrow> (\<forall>ps. r = Inr ps \<longrightarrow> distinct (map fst ps))"
proof (rule path_loop.raw_induct [OF _ assms, where P = "\<lambda>adj paths queue r.
    distinct (map fst paths) \<longrightarrow> (\<forall>ps. r = Inr ps \<longrightarrow> distinct (map fst ps))"])
  fix loop adj paths queue r
  assume IH: "\<And>adj paths queue r. loop adj paths queue = Some r \<Longrightarrow>
      distinct (map fst paths) \<longrightarrow> (\<forall>ps. r = Inr ps \<longrightarrow> distinct (map fst ps))"
    and r: "(case queue of [] \<Rightarrow> Some (Inr paths)
      | current # rest \<Rightarrow> (case map_of paths current of
          None \<Rightarrow> Some (Inl (DiscoveryRaise (KeyError current)))
        | Some p \<Rightarrow> (case relax_steps p (steps_at adj current) (paths, rest) of
            Inl e \<Rightarrow> Some (Inl e) | Inr (paths', queue') \<Rightarrow> loop adj paths' queue'))) = Some r"
  show "distinct (map fst paths) \<longrightarrow> (\<forall>ps. r = Inr ps \<longrightarrow> distinct (map fst ps))"
  proof (intro impI)
    assume dist: "distinct (map fst paths)"
    show "\<forall>ps. r = Inr ps \<longrightarrow> distinct (map fst ps)"
    proof (cases queue)
      case (Cons c rest)
      show ?thesis
      proof (cases "map_of paths c")
        case (Some p)
        show ?thesis
        proof (cases "relax_steps p (steps_at adj c) (paths, rest)")
          case (Inr st)
          obtain paths' queue' where st: "st = (paths', queue')" by force
          have "distinct (map fst paths')" using relax_steps_distinct Inr st dist by blast
          then show ?thesis using IH [of adj paths' queue' r] r Cons Some Inr st by simp
        qed (use r Cons Some in auto)
      qed (use r Cons in auto)
    qed (use r dist in auto)
  qed
qed

lemma paths_labels:
  assumes "canonical_relation_paths c adj = Some (Inr paths)"
  shows "t \<in> fst ` set paths \<longleftrightarrow> (\<exists>w. walk adj c w t)"
    and "(t, p) \<in> set paths \<Longrightarrow> walk adj c p t \<and> length p \<le> 16"
proof -
  have dist: "distinct (map fst paths)"
    using path_loop_distinct [of adj "[(c, [])]" "[c]" "Inr paths"] assms by (simp add: canonical_relation_paths_def)
  have "paths_exact adj c paths" using canonical_relation_paths_total [of c adj] assms by auto
  then have ex: "case map_of paths t of None \<Rightarrow> (\<nexists>w. walk adj c w t)
      | Some p \<Rightarrow> walk adj c p t \<and> length p \<le> 16 \<and> (\<forall>w. walk adj c w t \<longrightarrow> path_key p \<le> path_key w)" for t
    by (auto simp: paths_exact_def)
  show "t \<in> fst ` set paths \<longleftrightarrow> (\<exists>w. walk adj c w t)"
  proof (cases "map_of paths t")
    case None
    then have "t \<notin> fst ` set paths" by (simp add: map_of_eq_None_iff)
    then show ?thesis using ex [of t] unfolding None option.case by blast
  next
    case (Some p)
    then have "t \<in> fst ` set paths" by (metis domI dom_map_of_conv_image_fst)
    then show ?thesis using ex [of t] Some by auto
  qed
  show "(t, p) \<in> set paths \<Longrightarrow> walk adj c p t \<and> length p \<le> 16" using ex [of t] dist by simp
qed

text \<open>
  An anchor walks the relation graph from a changed root, or from the incumbent of a candidate that
  shares an identity, a family or a scope.
\<close>

definition root_anchored :: "string list \<Rightarrow> anchor \<Rightarrow> bool" where
  "root_anchored ids an \<longleftrightarrow> an_kind an \<noteq> UnassessedCandidate \<and> an_pair an = None \<and>
     an_changed an \<in> set ids \<and> an_anchor an = an_changed an"

definition candidate_anchored :: "candidate list \<Rightarrow> anchor \<Rightarrow> bool" where
  "candidate_anchored ks an \<longleftrightarrow> an_kind an = UnassessedCandidate \<and>
     (\<exists>k \<in> set ks. candidate_is_anchor k \<and> an_pair an = Some (ca_pair_id k) \<and>
        an_changed an = ca_changed_id k \<and> an_anchor an = ca_incumbent_id k)"

definition anchor_walks :: "step_adjacency \<Rightarrow> anchor \<Rightarrow> bool" where
  "anchor_walks adj an \<longleftrightarrow> walk adj (an_anchor an) (an_relations an) (an_traversal an) \<and> length (an_relations an) \<le> 16"

definition walked_from :: "step_adjacency \<Rightarrow> string set \<Rightarrow> string set" where
  "walked_from adj starts = {t. \<exists>c \<in> starts. \<exists>w. walk adj c w t}"

lemma walked_from_insert: "walked_from adj (insert c S) = {t. \<exists>w. walk adj c w t} \<union> walked_from adj S"
  by (auto simp: walked_from_def)

lemma join_new:
  assumes "raw' = raw1 @ n2" and "raw1 = raw @ n1"
    and "\<forall>(key, an) \<in> set n1. P an" and "\<forall>(key, an) \<in> set n2. P an"
    and "T ` set n1 = A" and "T ` set n2 = B"
  shows "\<exists>new. raw' = raw @ new \<and> (\<forall>(key, an) \<in> set new. P an) \<and> T ` set new = A \<union> B"
proof (intro exI conjI)
  show "raw' = raw @ (n1 @ n2)" using assms by simp
  show "\<forall>(key, an) \<in> set (n1 @ n2). P an" using assms(3,4) by (simp add: ball_Un)
  show "T ` set (n1 @ n2) = A \<union> B" by (simp only: set_append image_Un assms(5,6))
qed

lemma root_anchors_Inr:
  assumes "root_anchors adj cs raw = Some (Inr raw')"
  shows "\<exists>new. raw' = raw @ new \<and> (\<forall>(key, an) \<in> set new. root_anchored cs an \<and> anchor_walks adj an) \<and>
    (an_traversal \<circ> snd) ` set new = walked_from adj (set cs)"
  using assms
proof (induction cs arbitrary: raw)
  case Nil
  then show ?case by (simp add: walked_from_def)
next
  case (Cons c cs)
  obtain paths raw1 where paths: "canonical_relation_paths c adj = Some (Inr paths)"
    and raw1: "add_anchors (map (root_anchor c) paths) raw = Inr raw1" "root_anchors adj cs raw1 = Some (Inr raw')"
    using Cons.prems by (auto simp: run_bind_Inr_iff)
  note lab = paths_labels [OF paths]
  obtain new where new: "raw' = raw1 @ new" "\<forall>(key, an) \<in> set new. root_anchored cs an \<and> anchor_walks adj an"
    "(an_traversal \<circ> snd) ` set new = walked_from adj (set cs)"
    using Cons.IH [OF raw1(2)] by blast
  let ?first = "map (root_anchor c) paths"
  have f1: "\<forall>(key, an) \<in> set ?first. root_anchored (c # cs) an \<and> anchor_walks adj an"
    using lab(2) by (auto simp: root_anchor_def root_anchored_def anchor_walks_def Let_def split: if_splits)
  have f2: "\<forall>(key, an) \<in> set new. root_anchored (c # cs) an \<and> anchor_walks adj an"
    using new(2) by (auto simp: root_anchored_def)
  have f3: "(an_traversal \<circ> snd) ` set ?first = {t. \<exists>w. walk adj c w t}"
  proof -
    have "(an_traversal \<circ> snd) \<circ> root_anchor c = fst" by (auto simp: fun_eq_iff root_anchor_def Let_def)
    then show ?thesis unfolding set_map image_comp using lab(1) by (simp only:) blast
  qed
  show ?case unfolding list.set walked_from_insert
    by (rule join_new [OF new(1) add_anchors_Inr [OF raw1(1)] f1 f2 f3 new(3)])
qed

definition anchor_incumbents :: "candidate list \<Rightarrow> string set" where
  "anchor_incumbents ks = ca_incumbent_id ` {k \<in> set ks. candidate_is_anchor k}"

lemma candidate_anchors_Inr:
  assumes "candidate_anchors adj rank ks raw = Some (Inr raw')"
  shows "\<exists>new. raw' = raw @ new \<and> (\<forall>(key, an) \<in> set new. candidate_anchored ks an \<and> anchor_walks adj an) \<and>
    (an_traversal \<circ> snd) ` set new = walked_from adj (anchor_incumbents ks)"
  using assms
proof (induction ks arbitrary: rank raw)
  case Nil
  then show ?case by (simp add: walked_from_def anchor_incumbents_def)
next
  case (Cons k ks)
  show ?case
  proof (cases "candidate_is_anchor k")
    case False
    then have "anchor_incumbents (k # ks) = anchor_incumbents ks" by (auto simp: anchor_incumbents_def)
    moreover have step: "candidate_anchored ks an \<Longrightarrow> candidate_anchored (k # ks) an" for an
      by (auto simp: candidate_anchored_def)
    moreover have "candidate_anchors adj (rank + 1) ks raw = Some (Inr raw')" using Cons.prems False by simp
    note Cons.IH [OF this]
    ultimately show ?thesis by (auto 0 3)
  next
    case True
    then obtain paths raw1 where paths: "canonical_relation_paths (ca_incumbent_id k) adj = Some (Inr paths)"
      and raw1: "add_anchors (map (candidate_anchor rank k) paths) raw = Inr raw1"
        "candidate_anchors adj (rank + 1) ks raw1 = Some (Inr raw')"
      using Cons.prems by (auto simp: run_bind_Inr_iff)
    note lab = paths_labels [OF paths]
    obtain new where new: "raw' = raw1 @ new" "\<forall>(key, an) \<in> set new. candidate_anchored ks an \<and> anchor_walks adj an"
      "(an_traversal \<circ> snd) ` set new = walked_from adj (anchor_incumbents ks)"
      using Cons.IH [OF raw1(2)] by blast
    let ?first = "map (candidate_anchor rank k) paths"
    have f1: "\<forall>(key, an) \<in> set ?first. candidate_anchored (k # ks) an \<and> anchor_walks adj an"
      using lab(2) True by (auto simp: candidate_anchor_def candidate_anchored_def anchor_walks_def Let_def)
    have f2: "\<forall>(key, an) \<in> set new. candidate_anchored (k # ks) an \<and> anchor_walks adj an"
      using new(2) by (auto simp: candidate_anchored_def)
    have f3: "(an_traversal \<circ> snd) ` set ?first = {t. \<exists>w. walk adj (ca_incumbent_id k) w t}"
    proof -
      have "(an_traversal \<circ> snd) \<circ> candidate_anchor rank k = fst"
        by (auto simp: fun_eq_iff candidate_anchor_def Let_def)
      then show ?thesis unfolding set_map image_comp using lab(1) by (simp only:) blast
    qed
    have inc: "anchor_incumbents (k # ks) = insert (ca_incumbent_id k) (anchor_incumbents ks)"
      using True by (auto simp: anchor_incumbents_def)
    show ?thesis unfolding inc walked_from_insert
      by (rule join_new [OF new(1) add_anchors_Inr [OF raw1(1)] f1 f2 f3 new(3)])
  qed
qed

definition search_starts :: "candidate_set \<Rightarrow> string set" where
  "search_starts ks = set (ab_changed_ids (ks_binding ks)) \<union> anchor_incumbents (ks_candidates ks)"

lemma ranked_props:
  assumes "\<forall>(key, an) \<in> set raw. P an" and "\<And>an n. P an \<Longrightarrow> P (an\<lparr>an_rank := int n\<rparr>)"
  shows "\<forall>an \<in> set (ranked raw). P an \<and> 0 \<le> an_rank an"
    and "an_traversal ` set (ranked raw) = (an_traversal \<circ> snd) ` set raw"
proof -
  let ?as = "map snd (sort_key fst raw)"
  have mem: "an \<in> set (ranked raw) \<Longrightarrow> \<exists>a0 \<in> set ?as. \<exists>n. an = a0\<lparr>an_rank := int n\<rparr>" for an
    unfolding ranked_def enumerate_eq_zip by (fastforce dest!: set_zip_rightD)
  show "\<forall>an \<in> set (ranked raw). P an \<and> 0 \<le> an_rank an"
    using mem assms by fastforce
  have "map an_traversal (ranked raw) = map an_traversal ?as"
    unfolding ranked_def by (rule nth_equalityI) (auto simp: nth_enumerate_eq)
  then have "an_traversal ` set (ranked raw) = an_traversal ` set ?as" by (metis set_map)
  then show "an_traversal ` set (ranked raw) = (an_traversal \<circ> snd) ` set raw" by (auto simp: image_iff)
qed

lemma anchors_of_Inr:
  assumes "anchors_of E a ks = Some (Inr ans)"
  shows "\<exists>adj. relation_adjacency E (ag_graph a) = Inr adj \<and>
    (\<forall>an \<in> set ans. (root_anchored (ab_changed_ids (ks_binding ks)) an \<or> candidate_anchored (ks_candidates ks) an) \<and>
       anchor_walks adj an \<and> 0 \<le> an_rank an) \<and>
    an_traversal ` set ans = walked_from adj (search_starts ks)"
proof -
  obtain adj raw raw' where adj: "relation_adjacency E (ag_graph a) = Inr adj"
    and raw: "root_anchors adj (ab_changed_ids (ks_binding ks)) [] = Some (Inr raw)"
    and raw': "candidate_anchors adj 0 (ks_candidates ks) raw = Some (Inr raw')" and ans: "ans = ranked raw'"
    using assms by (auto simp: anchors_of_def run_bind_Inr_iff)
  let ?P = "\<lambda>an. (root_anchored (ab_changed_ids (ks_binding ks)) an \<or> candidate_anchored (ks_candidates ks) an) \<and>
       anchor_walks adj an"
  have r: "\<forall>(key, an) \<in> set raw. root_anchored (ab_changed_ids (ks_binding ks)) an \<and> anchor_walks adj an"
    "(an_traversal \<circ> snd) ` set raw = walked_from adj (set (ab_changed_ids (ks_binding ks)))"
    using root_anchors_Inr [OF raw] by simp_all
  obtain new where n: "raw' = raw @ new"
    "\<forall>(key, an) \<in> set new. candidate_anchored (ks_candidates ks) an \<and> anchor_walks adj an"
    "(an_traversal \<circ> snd) ` set new = walked_from adj (anchor_incumbents (ks_candidates ks))"
    using candidate_anchors_Inr [OF raw'] by blast
  have new1: "\<forall>(key, an) \<in> set raw'. ?P an" using r(1) n(2) unfolding n(1) by auto
  have new2: "(an_traversal \<circ> snd) ` set raw' = walked_from adj (search_starts ks)"
    unfolding n(1) set_append image_Un r(2) n(3) by (auto simp: walked_from_def search_starts_def)
  have upd: "?P an \<Longrightarrow> ?P (an\<lparr>an_rank := int n\<rparr>)" for an n
    by (auto simp: root_anchored_def candidate_anchored_def anchor_walks_def)
  note props = ranked_props [where P = ?P, OF new1 upd]
  have "\<forall>an \<in> set ans. ?P an \<and> 0 \<le> an_rank an" using props(1) unfolding ans by simp
  moreover have "an_traversal ` set ans = walked_from adj (search_starts ks)" using props(2) new2 unfolding ans by simp
  ultimately show ?thesis using adj by simp
qed

section \<open>A path id determines its path\<close>

lemma value_inj [simp]:
  "anchor_kind_value k = anchor_kind_value k' \<longleftrightarrow> k = k'"
  "direction_value d = direction_value d' \<longleftrightarrow> d = d'"
  "temporal_state_value t = temporal_state_value t' \<longleftrightarrow> t = t'"
  by ((cases k; cases k'; simp add: anchor_kind_value_def), (cases d; cases d'; simp add: direction_value_def),
    (cases t; cases t'; simp add: temporal_state_value_def))

lemma resolution_json_inj [simp]: "resolution_json a = resolution_json b \<longleftrightarrow> a = b"
  by (auto simp: resolution_json_def)

lemma resolution_json_sorted [simp]: "json_sorted (resolution_json r)"
  unfolding resolution_json_def by (rule json_sorted_obj) (simp_all, code_simp?)

lemma path_step_json_inj [simp]: "path_step_json a = path_step_json b \<longleftrightarrow> a = b"
  by (auto simp: path_step_json_def prod_eq_iff)

lemma path_step_json_sorted [simp]: "json_sorted (path_step_json s)"
  unfolding path_step_json_def by (rule json_sorted_obj) (simp_all, code_simp?)

lemma dependency_step_json_inj [simp]: "dependency_step_json a = dependency_step_json b \<longleftrightarrow> a = b"
  by (auto simp: dependency_step_json_def)

lemma dependency_step_json_sorted [simp]: "json_sorted (dependency_step_json s)"
  unfolding dependency_step_json_def by (rule json_sorted_obj) (simp_all, code_simp?)

lemma path_payload_inj: "path_payload p = path_payload q \<Longrightarrow> ap_id p = ap_id q \<Longrightarrow> p = q"
  by (auto simp: path_payload_def path_fields_front_def path_fields_back_def map_inj_eq)

lemma path_payload_sorted [simp]: "json_sorted (path_payload p)"
  unfolding path_payload_def path_fields_front_def path_fields_back_def
  by (rule json_sorted_obj) (simp_all add: list_all_iff, code_simp?)

lemma attention_path_new_Inr: "attention_path_new E p = Inr p' \<Longrightarrow> p' = p \<and> ap_id p = sha256_json E (path_payload p)"
  by (auto simp: attention_path_new_def rbind_Inr_iff)

lemma path_id_binds:
  assumes "float_ok E" and "attention_path_new E p = Inr p" and "attention_path_new E q = Inr q" and "ap_id p = ap_id q"
  shows "p = q \<or> hash_collision E (path_payload p) (path_payload q)"
proof -
  have "sha256_json E (path_payload p) = sha256_json E (path_payload q)"
    using attention_path_new_Inr assms(2-4) by metis
  then have "sort_members (path_payload p) = sort_members (path_payload q) \<or>
      hash_collision E (path_payload p) (path_payload q)"
    by (rule sha256_json_inj [OF assms(1)])
  then show ?thesis
    using path_payload_inj assms(4) path_payload_sorted by (auto simp: json_sorted_def)
qed

section \<open>The state of the walk\<close>

text \<open>The claims a search from a start reaches through exposed downstream claims.\<close>

inductive exposed_reach :: "dependency_adjacency \<Rightarrow> string \<Rightarrow> string \<Rightarrow> bool" for deps start where
  exposed_start: "exposed_reach deps start start"
| exposed_step: "exposed_reach deps start x \<Longrightarrow> s \<in> set (dependents_at deps x) \<Longrightarrow> y \<in> set (ds_exposed s) \<Longrightarrow>
    exposed_reach deps start y"

definition path_of_anchor :: "attention_path \<Rightarrow> anchor \<Rightarrow> bool" where
  "path_of_anchor p an \<longleftrightarrow> ap_kind p = an_kind an \<and> ap_rank p = an_rank an \<and> ap_changed p = an_changed an \<and>
     ap_anchor p = an_anchor an \<and> ap_pair p = an_pair an \<and> ap_relations p = an_relations an"

definition document_resolves :: "py_env \<Rightarrow> aggregate \<Rightarrow> validated_set \<Rightarrow> date \<Rightarrow> string \<Rightarrow> resolution \<Rightarrow> bool" where
  "document_resolves E a v as_of t r \<longleftrightarrow>
     (\<exists>d \<in> set (ag_documents a). dv_id d = t \<and> document_value E v as_of d = Inr r)"

definition good_path ::
  "py_env \<Rightarrow> aggregate \<Rightarrow> validated_set \<Rightarrow> date \<Rightarrow> dependency_adjacency \<Rightarrow> anchor list \<Rightarrow> attention_path \<Rightarrow> bool" where
  "good_path E a v as_of deps ans p \<longleftrightarrow> attention_path_new E p = Inr p \<and>
     (\<exists>an \<in> set ans. path_of_anchor p an \<and> (\<exists>u. exposed_reach deps (an_traversal an) u \<and>
        last (ap_dependencies p) \<in> set (dependents_at deps u))) \<and>
     document_resolves E a v as_of (ap_target p) (ap_resolution p)"

definition kept :: "walk_state \<Rightarrow> attention_path set" where
  "kept st = (\<Union>(d, ps) \<in> set (wk_paths st). snd ` set ps)"

definition walk_inv ::
  "py_env \<Rightarrow> aggregate \<Rightarrow> validated_set \<Rightarrow> date \<Rightarrow> dependency_adjacency \<Rightarrow> anchor list \<Rightarrow> walk_state \<Rightarrow> bool" where
  "walk_inv E a v as_of deps ans st \<longleftrightarrow>
     context_inv E v as_of (wk_context st) \<and>
     (\<forall>t r. map_of (wk_resolutions st) t = Some r \<longrightarrow> document_resolves E a v as_of t r) \<and>
     distinct (map fst (wk_paths st)) \<and>
     (\<forall>(d, ps) \<in> set (wk_paths st). ps \<noteq> [] \<and> distinct (map fst ps) \<and>
        (\<forall>(i, p) \<in> set ps. i = ap_id p \<and> ap_target p = d \<and> good_path E a v as_of deps ans p))"

text \<open>A step is covered: its path is kept, or the id of its path is that of another kept path.\<close>

definition covered :: "py_env \<Rightarrow> attention_path set \<Rightarrow> dependency_step \<Rightarrow> bool" where
  "covered E K s \<longleftrightarrow> (\<exists>p \<in> K. \<exists>q. last (ap_dependencies q) = s \<and> attention_path_new E q = Inr q \<and>
     ap_target p = ds_downstream s \<and> (p = q \<or> hash_collision E (path_payload p) (path_payload q)))"

lemma covered_mono: "covered E K s \<Longrightarrow> K \<subseteq> K' \<Longrightarrow> covered E K' s"
  by (auto simp: covered_def)

lemma target_resolution_inv:
  assumes E: "float_ok E" and can: "canonical rp_id (vs_replacements v)" "canonical dv_id (ag_documents a)"
    and inv: "walk_inv E a v as_of deps ans st" and res: "target_resolution E a t st = Inr (r, st')"
  shows "walk_inv E a v as_of deps ans st' \<and> document_resolves E a v as_of t r \<and>
    wk_paths st' = wk_paths st \<and> wk_bytes st' = wk_bytes st"
proof (cases "map_of (wk_resolutions st) t")
  case (Some r')
  then show ?thesis using res inv by (auto simp: target_resolution_def walk_inv_def)
next
  case None
  then obtain d ctx where d: "dict_get dv_id (ag_documents a) t = Some d"
    and c: "context_resolve_document E d (wk_context st) = (Inr r, ctx)"
    and st': "st' = st\<lparr>wk_context := ctx, wk_resolutions := (t, r) # wk_resolutions st\<rparr>"
    using res by (auto simp: target_resolution_def split: option.splits prod.splits sum.splits)
  have ci: "context_inv E v as_of (wk_context st)" using inv by (simp add: walk_inv_def)
  from context_resolve_document_inv [OF E ci can(1), of d] c
  have r: "document_value E v as_of d = Inr r" and ctx: "context_inv E v as_of ctx" by simp_all
  have "d \<in> set (ag_documents a) \<and> dv_id d = t"
    using d dict_get_Some_iff [OF canonical_key_inj [OF can(2)]] by simp
  then have dr: "document_resolves E a v as_of t r" using r by (auto simp: document_resolves_def)
  then show ?thesis using inv ctx by (auto simp: walk_inv_def st' split: if_splits)
qed

lemma make_attention_path_Inr:
  assumes "make_attention_path E an steps r bytes = Inr (p, bytes')"
  shows "attention_path_new E p = Inr p \<and> path_of_anchor p an \<and> ap_dependencies p = steps \<and>
    ap_target p = ds_downstream (last steps) \<and> ap_resolution p = r"
proof -
  let ?p = "\<lparr>ap_id = replicate 64 (CHR ''0''), ap_kind = an_kind an, ap_rank = an_rank an,
            ap_changed = an_changed an, ap_anchor = an_anchor an, ap_pair = an_pair an,
            ap_relations = an_relations an, ap_dependencies = steps, ap_target = ds_downstream (last steps),
            ap_resolution = r, ap_eligible = (ds_kind (last steps) \<noteq> HistoricalReference)\<rparr>"
  have "attention_path_new E (?p\<lparr>ap_id := sha256_json E (path_payload ?p)\<rparr>) = Inr p"
    using assms unfolding make_attention_path_def Let_def by (auto simp: rbind_Inr_iff)
  moreover from attention_path_new_Inr [OF this] have "p = ?p\<lparr>ap_id := sha256_json E (path_payload ?p)\<rparr>" by blast
  ultimately show ?thesis by (simp add: path_of_anchor_def)
qed

lemma paths_at_mem: "ps = paths_at m d \<Longrightarrow> ps \<noteq> [] \<Longrightarrow> (d, ps) \<in> set m"
  by (auto simp: paths_at_def split: option.splits dest: map_of_SomeD)

lemma paths_at_map_of: "distinct (map fst m) \<Longrightarrow> (d, ps) \<in> set m \<Longrightarrow> paths_at m d = ps"
  by (simp add: paths_at_def)

lemma kept_update:
  "(\<Union>(d, ps) \<in> set (AList.update k (paths_at m k @ [(i, p)]) m). snd ` set ps) =
    insert p (\<Union>(d, ps) \<in> set m. snd ` set ps)"
proof (induction m)
  case Nil
  then show ?case by (simp add: paths_at_def)
next
  case (Cons e m)
  obtain k' qs where e: "e = (k', qs)" by (cases e)
  show ?case
  proof (cases "k' = k")
    case True
    then show ?thesis by (simp add: e paths_at_def image_Un)
  next
    case False
    then have "paths_at (e # m) k = paths_at m k" by (simp add: e paths_at_def)
    then show ?thesis using False Cons by (simp add: e insert_commute)
  qed
qed

lemma update_mem: "e \<in> set (AList.update k x m) \<Longrightarrow> e = (k, x) \<or> e \<in> set m"
  by (induction m) (auto split: if_splits)

lemma walk_inv_entry:
  assumes "walk_inv E a v as_of deps ans st" "(d, ps) \<in> set (wk_paths st)" "(i, p) \<in> set ps"
  shows "ap_id p = i \<and> ap_target p = d \<and> good_path E a v as_of deps ans p"
proof -
  have "\<forall>(i, p) \<in> set ps. i = ap_id p \<and> ap_target p = d \<and> good_path E a v as_of deps ans p"
    using assms(1,2) unfolding walk_inv_def by blast
  with assms(3) show ?thesis by auto
qed

lemma keep_path_inv:
  assumes E: "float_ok E" and inv: "walk_inv E a v as_of deps ans st" and good: "good_path E a v as_of deps ans p"
    and keep: "keep_path p st = Inr st'" and s: "last (ap_dependencies p) = s" "ap_target p = ds_downstream s"
  shows "walk_inv E a v as_of deps ans st' \<and> kept st \<subseteq> kept st' \<and> covered E (kept st') s"
proof -
  have new: "attention_path_new E p = Inr p" using good by (simp add: good_path_def)
  let ?ps = "paths_at (wk_paths st) (ap_target p)"
  show ?thesis
  proof (cases "ap_id p \<in> fst ` set ?ps")
    case True
    then have st': "st' = st" using keep by (simp add: keep_path_def Let_def)
    from True obtain q where q: "(ap_id p, q) \<in> set ?ps" by auto
    then have mem: "(ap_target p, ?ps) \<in> set (wk_paths st)" by (intro paths_at_mem) auto
    from walk_inv_entry [OF inv mem q] have eq: "ap_id q = ap_id p" "ap_target q = ap_target p" and
      q_new: "attention_path_new E q = Inr q" by (simp_all add: good_path_def)
    have "q \<in> kept st" using mem q by (force simp: kept_def)
    with path_id_binds [OF E q_new new eq(1)] have "covered E (kept st) s"
      unfolding covered_def using new s eq(2) by metis
    then show ?thesis using inv st' by simp
  next
    case False
    then have st': "st' = st\<lparr>wk_paths := AList.update (ap_target p) (?ps @ [(ap_id p, p)]) (wk_paths st)\<rparr>"
      using keep by (auto simp: keep_path_def Let_def rbind_Inr_iff)
    have kept: "kept st' = insert p (kept st)"
      unfolding st' kept_def using kept_update [of "ap_target p" "wk_paths st" "ap_id p" p] by simp
    have old: "?ps \<noteq> [] \<Longrightarrow> (ap_target p, ?ps) \<in> set (wk_paths st)" by (rule paths_at_mem) simp_all
    have "distinct (map fst (?ps @ [(ap_id p, p)]))"
      using False old inv by (cases "?ps = []") (auto simp: walk_inv_def)
    moreover have "\<forall>(i, q) \<in> set (?ps @ [(ap_id p, p)]). i = ap_id q \<and> ap_target q = ap_target p \<and>
        good_path E a v as_of deps ans q"
      using old inv good by (cases "?ps = []") (auto simp: walk_inv_def)
    ultimately have "walk_inv E a v as_of deps ans st'"
      using inv unfolding walk_inv_def st' by (auto simp: distinct_update dest!: update_mem)
    moreover have "covered E (kept st') s" using new s by (auto simp: covered_def kept)
    ultimately show ?thesis by (auto simp: kept)
  qed
qed

lemma record_path_inv:
  assumes E: "float_ok E" and can: "canonical rp_id (vs_replacements v)" "canonical dv_id (ag_documents a)"
    and inv: "walk_inv E a v as_of deps ans st" and rec: "record_path E a an steps st = Inr st'"
    and an: "an \<in> set ans" and u: "exposed_reach deps (an_traversal an) u" "last steps \<in> set (dependents_at deps u)"
  shows "walk_inv E a v as_of deps ans st' \<and> kept st \<subseteq> kept st' \<and> covered E (kept st') (last steps)"
proof -
  obtain r st1 p bytes where r: "target_resolution E a (ds_downstream (last steps)) (st\<lparr>wk_count := wk_count st + 1\<rparr>) = Inr (r, st1)"
    and p: "make_attention_path E an steps r (wk_bytes st1) = Inr (p, bytes)"
    and keep: "keep_path p (st1\<lparr>wk_bytes := bytes\<rparr>) = Inr st'"
    using rec by (auto simp: record_path_def rbind_Inr_iff)
  have inv0: "walk_inv E a v as_of deps ans (st\<lparr>wk_count := wk_count st + 1\<rparr>)"
    using inv by (simp add: walk_inv_def)
  note one = target_resolution_inv [OF E can inv0 r]
  have inv1: "walk_inv E a v as_of deps ans (st1\<lparr>wk_bytes := bytes\<rparr>)"
    using one [THEN conjunct1] unfolding walk_inv_def by simp
  note mk = make_attention_path_Inr [OF p]
  have good: "good_path E a v as_of deps ans p"
    using mk one an u by (auto simp: good_path_def)
  have "kept (st1\<lparr>wk_bytes := bytes\<rparr>) = kept st" using one by (simp add: kept_def)
  then show ?thesis
    using keep_path_inv [OF E inv1 good keep, of "last steps"] mk by simp
qed

section \<open>The claims a search has met\<close>

definition met :: "frontier \<Rightarrow> string set" where
  "met f = fst ` set (fr_best f)"

definition queued :: "frontier \<Rightarrow> string set" where
  "queued f = fst ` set (fr_queue f)"

definition frontier_ok :: "frontier \<Rightarrow> bool" where
  "frontier_ok f \<longleftrightarrow> (\<forall>(u, steps, visited) \<in> set (fr_queue f). u \<in> met f \<and> set visited \<subseteq> met f) \<and>
     fst ` set (fr_seen f) \<subseteq> met f"

lemma met_some: "map_of (fr_best f) x = Some d \<Longrightarrow> x \<in> met f"
  by (force simp: met_def dest: map_of_SomeD)

lemma expose_one_frontier:
  assumes ok: "frontier_ok f" and vis: "set visited \<subseteq> met f"
  shows "frontier_ok (expose_one steps visited x f) \<and> met (expose_one steps visited x f) = insert x (met f) \<and>
    queued f \<subseteq> queued (expose_one steps visited x f) \<and> (x \<in> met f \<or> x \<in> queued (expose_one steps visited x f))"
proof -
  let ?f = "expose_one steps visited x f"
  have seen: "(x, r) \<in> set (fr_seen f) \<Longrightarrow> x \<in> met f" for r
    using ok by (force simp: frontier_ok_def)
  show ?thesis
  proof (cases "?f = f")
    case True
    then have "x \<in> met f"
      using vis seen met_some by (cases f) (force simp: expose_one_def Let_def split: if_splits option.splits)
    then show ?thesis using True ok by (simp add: insert_absorb)
  next
    case False
    then have f: "?f = f\<lparr>fr_best := (if (case map_of (fr_best f) x of Some d \<Rightarrow> length steps < d | None \<Rightarrow> True)
                         then AList.update x (length steps) (fr_best f) else fr_best f),
             fr_seen := (x, map ds_id steps) # fr_seen f,
             fr_queue := fr_queue f @ [(x, steps, x # visited)]\<rparr>"
      unfolding expose_one_def Let_def by presburger
    have met: "met ?f = insert x (met f)"
      using met_some [of f x] unfolding f met_def
      by (auto simp: dom_update split: option.splits if_splits)
    have "frontier_ok ?f"
      using ok vis unfolding frontier_ok_def met by (auto simp: f)
    moreover have "queued ?f = insert x (queued f)" by (simp add: f queued_def)
    ultimately show ?thesis using met by blast
  qed
qed

lemma expose_frontier:
  assumes "frontier_ok f" and "set visited \<subseteq> met f"
  shows "frontier_ok (fold (expose_one steps visited) xs f) \<and>
    met (fold (expose_one steps visited) xs f) = met f \<union> set xs \<and>
    queued f \<subseteq> queued (fold (expose_one steps visited) xs f) \<and>
    set xs \<subseteq> met f \<union> queued (fold (expose_one steps visited) xs f)"
  using assms
proof (induction xs arbitrary: f)
  case (Cons x xs)
  note one = expose_one_frontier [OF Cons.prems, of steps x]
  then have "set visited \<subseteq> met (expose_one steps visited x f)" using Cons.prems(2) by blast
  from Cons.IH [OF _ this] one show ?case by (simp only: fold.simps comp_apply list.set) blast
qed simp

text \<open>
  The loop invariant: a claim the search has met is still queued, or every dependency on it is covered
  and has exposed its claims.
\<close>

definition expanded :: "py_env \<Rightarrow> dependency_adjacency \<Rightarrow> walk_state \<Rightarrow> string set \<Rightarrow> string \<Rightarrow> bool" where
  "expanded E deps st C x \<longleftrightarrow> (\<forall>s \<in> set (dependents_at deps x). covered E (kept st) s \<and> set (ds_exposed s) \<subseteq> C)"

definition search_inv :: "py_env \<Rightarrow> dependency_adjacency \<Rightarrow> string \<Rightarrow> walk_state \<Rightarrow> frontier \<Rightarrow> bool" where
  "search_inv E deps start st f \<longleftrightarrow> frontier_ok f \<and> start \<in> met f \<and> (\<forall>x \<in> met f. exposed_reach deps start x) \<and>
     (\<forall>x \<in> met f. x \<in> queued f \<or> expanded E deps st (met f) x)"

lemma expanded_mono:
  "expanded E deps st C x \<Longrightarrow> kept st \<subseteq> kept st' \<Longrightarrow> C \<subseteq> C' \<Longrightarrow> expanded E deps st' C' x"
  unfolding expanded_def using covered_mono by blast

lemma expanded_reach:
  assumes "start \<in> C" and "\<forall>x \<in> C. expanded E deps st C x" and "exposed_reach deps start u"
  shows "u \<in> C"
  using assms(3)
proof induction
  case (exposed_step x s y)
  then have "expanded E deps st C x" using assms(2) by blast
  with exposed_step.hyps(2,3) show ?case unfolding expanded_def by blast
qed (rule assms(1))

lemma visit_steps_inv:
  assumes E: "float_ok E" and can: "canonical rp_id (vs_replacements v)" "canonical dv_id (ag_documents a)"
    and an: "an \<in> set ans" and u: "exposed_reach deps (an_traversal an) u"
    and run: "visit_steps E a an previous visited ss (st, f) = Inr (st', f')"
    and ss: "set ss \<subseteq> set (dependents_at deps u)"
    and inv: "walk_inv E a v as_of deps ans st" and ok: "frontier_ok f" and vis: "set visited \<subseteq> met f"
  shows "walk_inv E a v as_of deps ans st' \<and> kept st \<subseteq> kept st' \<and> (\<forall>s \<in> set ss. covered E (kept st') s) \<and>
    frontier_ok f' \<and> met f' = met f \<union> (\<Union>s \<in> set ss. set (ds_exposed s)) \<and>
    queued f \<subseteq> queued f' \<and> met f' \<subseteq> met f \<union> queued f'"
  using run ss inv ok vis
proof (induction ss arbitrary: st f)
  case (Cons s ss)
  let ?f = "fold (expose_one (previous @ [s]) visited) (ds_exposed s) f"
  obtain st1 where st1: "record_path E a an (previous @ [s]) st = Inr st1"
    "visit_steps E a an previous visited ss (st1, ?f) = Inr (st', f')"
    using Cons.prems(1) by (auto simp: rbind_Inr_iff)
  have "last (previous @ [s]) \<in> set (dependents_at deps u)" using Cons.prems(2) by simp
  note one = record_path_inv [OF E can Cons.prems(3) st1(1) an u this]
  note exp = expose_frontier [OF Cons.prems(4,5), of "previous @ [s]" "ds_exposed s"]
  have "set ss \<subseteq> set (dependents_at deps u)" "set visited \<subseteq> met ?f"
    using Cons.prems(2,5) exp by (simp, blast)
  note rest = Cons.IH [OF st1(2) this(1) one [THEN conjunct1] exp [THEN conjunct1] this(2)]
  have "covered E (kept st') s" using one rest covered_mono [of E "kept st1" s "kept st'"] by auto
  with rest one exp show ?case by (simp only: list.set UN_insert ball_simps) blast
qed simp

lemma dependency_search_inv:
  assumes E: "float_ok E" and can: "canonical rp_id (vs_replacements v)" "canonical dv_id (ag_documents a)"
    and an: "an \<in> set ans" and run: "dependency_search E a an deps st f = Inr st'"
    and inv: "walk_inv E a v as_of deps ans st" and search: "search_inv E deps (an_traversal an) st f"
  shows "walk_inv E a v as_of deps ans st' \<and> kept st \<subseteq> kept st' \<and>
    (\<forall>u s. exposed_reach deps (an_traversal an) u \<longrightarrow> s \<in> set (dependents_at deps u) \<longrightarrow> covered E (kept st') s)"
  using E an run inv search can(2)
proof (induction E a an deps st f rule: dependency_search.induct)
  case (1 E a an deps st f)
  show ?case
  proof (cases "fr_queue f")
    case Nil
    then have st': "st' = st" using 1(4) by (simp add: dependency_search.simps [of E a an deps st f])
    have "covered E (kept st) s" if "exposed_reach deps (an_traversal an) u" "s \<in> set (dependents_at deps u)" for u s
    proof -
      have ex: "\<forall>x \<in> met f. expanded E deps st (met f) x" and start: "an_traversal an \<in> met f"
        using 1(6) Nil by (auto simp: search_inv_def queued_def)
      from expanded_reach [OF start ex that(1)] ex that(2) show ?thesis unfolding expanded_def by blast
    qed
    then show ?thesis using 1(5) st' by blast
  next
    case (Cons e q)
    obtain u previous visited where e: "e = (u, previous, visited)" by (cases e)
    obtain st1 f1 where visit: "visit_steps E a an previous visited (dependents_at deps u) (st, f\<lparr>fr_queue := q\<rparr>) = Inr (st1, f1)"
      and rest: "dependency_search E a an deps st1 f1 = Inr st'"
      using 1(4) Cons e by (auto simp: dependency_search.simps [of E a an deps st f] split: sum.splits)
    have u: "u \<in> met f" and vis: "set visited \<subseteq> met f" and ok: "frontier_ok (f\<lparr>fr_queue := q\<rparr>)"
      using 1(6) Cons e by (auto simp: search_inv_def frontier_ok_def met_def)
    have reach: "exposed_reach deps (an_traversal an) u" using 1(6) u by (simp add: search_inv_def)
    have same: "met (f\<lparr>fr_queue := q\<rparr>) = met f" "queued f = insert u (queued (f\<lparr>fr_queue := q\<rparr>))"
      by (simp_all add: met_def queued_def Cons e)
    note v = visit_steps_inv [OF 1(2) can(1) 1(7) 1(3) reach visit subset_refl 1(5) ok, unfolded same, OF vis]
    have this_one: "expanded E deps st1 (met f1) u" using v unfolding expanded_def by blast
    have more: "met f \<subseteq> met f1" using v by blast
    have all: "x \<in> queued f1 \<or> expanded E deps st1 (met f1) x" if x: "x \<in> met f1" for x
    proof (cases "x \<in> met f \<and> x \<notin> queued f")
      case True
      then have "expanded E deps st (met f) x" using 1(6) unfolding search_inv_def by blast
      from expanded_mono [OF this _ more] v show ?thesis by blast
    next
      case False
      then show ?thesis using x v this_one unfolding same(2) by blast
    qed
    have "exposed_reach deps (an_traversal an) x" if x: "x \<in> met f1" for x
    proof (cases "x \<in> met f")
      case True
      then show ?thesis using 1(6) by (simp add: search_inv_def)
    next
      case False
      then obtain s where "s \<in> set (dependents_at deps u)" "x \<in> set (ds_exposed s)" using v x by blast
      then show ?thesis by (rule exposed_step [OF reach])
    qed
    moreover have "an_traversal an \<in> met f1" using 1(6) more by (auto simp: search_inv_def)
    ultimately have "search_inv E deps (an_traversal an) st1 f1"
      using all v unfolding search_inv_def by simp
    from 1(1) [OF Cons e [symmetric] refl visit refl 1(2,3) rest _ this 1(7)] v
    show ?thesis by blast
  qed
qed

lemma first_frontier_inv: "search_inv E deps (an_traversal an) st (first_frontier an)"
  by (auto simp: search_inv_def frontier_ok_def first_frontier_def met_def queued_def intro: exposed_start)

definition all_covered :: "py_env \<Rightarrow> dependency_adjacency \<Rightarrow> anchor list \<Rightarrow> attention_path set \<Rightarrow> bool" where
  "all_covered E deps ans K \<longleftrightarrow> (\<forall>an \<in> set ans. \<forall>u s. exposed_reach deps (an_traversal an) u \<longrightarrow>
     s \<in> set (dependents_at deps u) \<longrightarrow> covered E K s)"

lemma search_anchors_inv:
  assumes E: "float_ok E" and can: "canonical rp_id (vs_replacements v)" "canonical dv_id (ag_documents a)"
    and sub: "set as \<subseteq> set ans" and run: "search_anchors E a deps as st = Inr st'"
    and inv: "walk_inv E a v as_of deps ans st"
  shows "walk_inv E a v as_of deps ans st' \<and> kept st \<subseteq> kept st' \<and> all_covered E deps as (kept st')"
  using sub run inv
proof (induction as arbitrary: st)
  case Nil
  then show ?case by (simp add: all_covered_def)
next
  case (Cons an as)
  then obtain st1 where st1: "dependency_search E a an deps st (first_frontier an) = Inr st1"
    "search_anchors E a deps as st1 = Inr st'" by (auto simp: rbind_Inr_iff)
  have an: "an \<in> set ans" "set as \<subseteq> set ans" using Cons.prems(1) by simp_all
  note one = dependency_search_inv [OF E can an(1) st1(1) Cons.prems(3) first_frontier_inv]
  note rest = Cons.IH [OF an(2) st1(2) one [THEN conjunct1]]
  have "kept st \<subseteq> kept st'" using one rest by blast
  moreover have "all_covered E deps (an # as) (kept st')"
    using one rest covered_mono [of E "kept st1" _ "kept st'"] unfolding all_covered_def list.set by blast
  ultimately show ?case using rest by blast
qed

text \<open>What the map of paths by document holds.\<close>

definition paths_inv ::
  "py_env \<Rightarrow> aggregate \<Rightarrow> validated_set \<Rightarrow> date \<Rightarrow> dependency_adjacency \<Rightarrow> anchor list \<Rightarrow>
     (string \<times> attention_path list) list \<Rightarrow> bool" where
  "paths_inv E a v as_of deps ans bd \<longleftrightarrow> distinct (map fst bd) \<and>
     (\<forall>(d, ps) \<in> set bd. ps \<noteq> [] \<and> (\<forall>p \<in> set ps. ap_target p = d \<and> good_path E a v as_of deps ans p)) \<and>
     all_covered E deps ans (\<Union>(d, ps) \<in> set bd. set ps)"

lemma attention_paths_Inr:
  assumes E: "float_ok E" and can: "canonical rp_id (vs_replacements v)" "canonical dv_id (ag_documents a)"
    and inv: "context_inv E v as_of ctx" and run: "attention_paths E a ks ctx = Some (Inr bd)"
  obtains deps ans where "reverse_dependencies E (ag_dependencies a) = Inr deps"
    and "anchors_of E a ks = Some (Inr ans)" and "paths_inv E a v as_of deps ans bd"
proof -
  obtain deps ans st where deps: "reverse_dependencies E (ag_dependencies a) = Inr deps"
    and ans: "anchors_of E a ks = Some (Inr ans)"
    and st: "search_anchors E a deps ans (first_walk ctx) = Inr st"
    and bd: "bd = map (\<lambda>(d, ps). (d, map snd (sort_key fst ps))) (wk_paths st)"
    using run by (auto simp: attention_paths_def run_bind_Inr_iff)
  have "walk_inv E a v as_of deps ans (first_walk ctx)" using inv by (simp add: walk_inv_def first_walk_def)
  note walk = search_anchors_inv [OF E can subset_refl st this]
  have keys: "map fst bd = map fst (wk_paths st)" by (simp add: bd case_prod_unfold)
  have "(\<Union>(d, ps) \<in> set bd. set ps) = kept st" by (simp add: bd kept_def case_prod_unfold)
  moreover have "ps \<noteq> [] \<and> (\<forall>p \<in> set ps. ap_target p = d \<and> good_path E a v as_of deps ans p)"
    if mem: "(d, ps) \<in> set bd" for d ps
  proof -
    obtain qs where qs: "(d, qs) \<in> set (wk_paths st)" "ps = map snd (sort_key fst qs)"
      using mem by (auto simp: bd)
    have "qs \<noteq> []" using walk qs(1) unfolding walk_inv_def by blast
    moreover have "ap_target p = d \<and> good_path E a v as_of deps ans p" if p: "p \<in> set ps" for p
    proof -
      have "p \<in> snd ` set qs" using p unfolding qs(2) by simp
      then obtain e where "e \<in> set qs" "snd e = p" by blast
      then have "(fst e, p) \<in> set qs" by auto
      with walk_inv_entry [OF walk [THEN conjunct1] qs(1)] show ?thesis by blast
    qed
    moreover have "length ps = length qs" by (simp add: qs(2))
    ultimately show ?thesis by auto
  qed
  moreover have "distinct (map fst bd)" using walk unfolding keys walk_inv_def by blast
  ultimately have "paths_inv E a v as_of deps ans bd" using walk unfolding paths_inv_def by auto
  with deps ans show thesis by (rule that)
qed

end
