(* ===== verification/DiscoveryRanking.thy ===== *)
theory DiscoveryRanking
  imports DiscoveryAttention
begin

text \<open>
  What the attention ranking of \<open>change_control/discovery.py\<close> promises, stated over the aggregate: the
  claims that a change reaches over relations and then over exposed downstream claims, the documents
  that depend on one of them, and the lemmas that \<open>rank_document_attention\<close> ranks or excludes
  exactly these documents.
\<close>

section \<open>The specification\<close>

text \<open>
  A claim is reached from the starts over the edges of the relation graph, and from a reached claim
  over the downstream claims that a dependency on it exposes.  Relations are walked first only.
\<close>

inductive impact_reach :: "aggregate \<Rightarrow> string set \<Rightarrow> string \<Rightarrow> bool" for a S where
  impact_related: "c \<in> S \<Longrightarrow> graph_walk (ag_graph a) c w x \<Longrightarrow> impact_reach a S x"
| impact_exposed: "impact_reach a S (cr_revision_id (dp_upstream d)) \<Longrightarrow> d \<in> set (ag_dependencies a) \<Longrightarrow>
    r \<in> set (dp_claims d) \<Longrightarrow> impact_reach a S (cr_revision_id r)"

definition reaching :: "aggregate \<Rightarrow> string set \<Rightarrow> string \<Rightarrow> dependency set" where
  "reaching a S version = {d \<in> set (ag_dependencies a). dv_id (dp_downstream d) = version \<and>
     impact_reach a S (cr_revision_id (dp_upstream d))}"

definition impacted_documents :: "aggregate \<Rightarrow> string set \<Rightarrow> string set" where
  "impacted_documents a S = {version. reaching a S version \<noteq> {}}"

section \<open>The search computes the specification\<close>

lemma reach_iff:
  assumes deps: "\<And>u. set (dependents_at deps u) =
      dependency_to_step ` {d \<in> set (ag_dependencies a). cr_revision_id (dp_upstream d) = u}"
    and edges: "\<And>u i v. (\<exists>s \<in> set (steps_at adj u). hop s = (i, v)) \<longleftrightarrow> graph_edge (ag_graph a) u i v"
    and trav: "an_traversal ` set ans = walked_from adj S"
  shows "impact_reach a S x \<longleftrightarrow> (\<exists>an \<in> set ans. exposed_reach deps (an_traversal an) x)"
proof
  assume "impact_reach a S x"
  then show "\<exists>an \<in> set ans. exposed_reach deps (an_traversal an) x"
  proof induction
    case (impact_related c w x)
    then have "x \<in> an_traversal ` set ans"
      unfolding trav walked_from_def graph_walk_iff [OF edges] by blast
    then show ?case using exposed_start by blast
  next
    case (impact_exposed d r)
    have "dependency_to_step d \<in> set (dependents_at deps (cr_revision_id (dp_upstream d)))"
      using impact_exposed.hyps(2) unfolding deps by blast
    moreover have "cr_revision_id r \<in> set (ds_exposed (dependency_to_step d))"
      using impact_exposed.hyps(3) by (simp add: dependency_to_step_def)
    ultimately show ?case using impact_exposed.IH exposed_step by blast
  qed
next
  assume "\<exists>an \<in> set ans. exposed_reach deps (an_traversal an) x"
  then obtain an where an: "an \<in> set ans" and x: "exposed_reach deps (an_traversal an) x" by blast
  from x show "impact_reach a S x"
  proof induction
    case exposed_start
    from an have "an_traversal an \<in> walked_from adj S" unfolding trav [symmetric] by (rule imageI)
    then show ?case
      using graph_walk_iff [OF edges] impact_related unfolding walked_from_def by blast
  next
    case (exposed_step x s y)
    then obtain d where d: "d \<in> set (ag_dependencies a)" "cr_revision_id (dp_upstream d) = x" "s = dependency_to_step d"
      unfolding deps by blast
    with exposed_step.hyps(3) obtain r where "r \<in> set (dp_claims d)" "y = cr_revision_id r"
      by (auto simp: dependency_to_step_def)
    with d exposed_step.IH show ?case using impact_exposed by blast
  qed
qed

text \<open>The paths of a document and the dependencies that reach it.\<close>

definition paths_reach :: "py_env \<Rightarrow> aggregate \<Rightarrow> date \<Rightarrow> string set \<Rightarrow> string \<Rightarrow> attention_path list \<Rightarrow> bool" where
  "paths_reach E a as_of S version ps \<longleftrightarrow>
     (\<forall>p \<in> set ps. attention_path_new E p = Inr p \<and> ap_target p = version \<and>
        (\<exists>d \<in> reaching a S version. last (ap_dependencies p) = dependency_to_step d) \<and>
        (\<exists>d \<in> set (ag_documents a). dv_id d = version \<and>
           resolve_document_temporality E d (temporal_set a) as_of = Inr (ap_resolution p))) \<and>
     (\<forall>d \<in> reaching a S version. (\<exists>p \<in> set ps. last (ap_dependencies p) = dependency_to_step d) \<or>
        (\<exists>p \<in> set ps. \<exists>q. last (ap_dependencies q) = dependency_to_step d \<and> attention_path_new E q = Inr q \<and>
           hash_collision E (path_payload p) (path_payload q)))"

lemma attention_path_new_target: "attention_path_new E p = Inr p' \<Longrightarrow>
    ds_downstream (last (ap_dependencies p)) = ap_target p \<and>
    ap_eligible p = (ds_kind (last (ap_dependencies p)) \<noteq> HistoricalReference)"
  by (auto simp: attention_path_new_def rbind_Inr_iff)

lemma document_value_direct:
  assumes "validated_set_revalidate E (temporal_set a) = Inr v"
  shows "resolve_document_temporality E d (temporal_set a) as_of = document_value E v as_of d"
  using resolve_directly_value [OF assms, of as_of "QueryDocument d"] by simp

lemma step_downstream [simp]: "ds_downstream (dependency_to_step d) = dv_id (dp_downstream d)"
  "ds_kind (dependency_to_step d) = dp_kind d" "ds_id (dependency_to_step d) = dp_id d"
  by (simp_all add: dependency_to_step_def)

lemma paths_inv_reach:
  assumes deps: "\<And>u. set (dependents_at deps u) =
      dependency_to_step ` {d \<in> set (ag_dependencies a). cr_revision_id (dp_upstream d) = u}"
    and reach: "\<And>x. impact_reach a S x \<longleftrightarrow> (\<exists>an \<in> set ans. exposed_reach deps (an_traversal an) x)"
    and v: "validated_set_revalidate E (temporal_set a) = Inr v"
    and inv: "paths_inv E a v as_of deps ans bd"
  shows "fst ` set bd = impacted_documents a S \<and> (\<forall>(version, ps) \<in> set bd. paths_reach E a as_of S version ps)"
proof -
  have keys: "distinct (map fst bd)"
    and entry: "\<And>d ps. (d, ps) \<in> set bd \<Longrightarrow> ps \<noteq> [] \<and> (\<forall>p \<in> set ps. ap_target p = d \<and> good_path E a v as_of deps ans p)"
    and all: "all_covered E deps ans (\<Union>(d, ps) \<in> set bd. set ps)"
    using inv unfolding paths_inv_def by blast+
  have good: "\<exists>d \<in> reaching a S (ap_target p). last (ap_dependencies p) = dependency_to_step d"
    if p: "good_path E a v as_of deps ans p" for p
  proof -
    obtain an u where "an \<in> set ans" "exposed_reach deps (an_traversal an) u"
      "last (ap_dependencies p) \<in> set (dependents_at deps u)" using p unfolding good_path_def by blast
    then obtain d where d: "d \<in> set (ag_dependencies a)" "impact_reach a S (cr_revision_id (dp_upstream d))"
      "last (ap_dependencies p) = dependency_to_step d" unfolding deps using reach by blast
    have "ds_downstream (last (ap_dependencies p)) = ap_target p"
      using p attention_path_new_target unfolding good_path_def by blast
    with d show ?thesis by (auto simp: reaching_def)
  qed
  have cov: "\<exists>p ps. (version, ps) \<in> set bd \<and> p \<in> set ps \<and> (last (ap_dependencies p) = dependency_to_step d \<or>
      (\<exists>q. last (ap_dependencies q) = dependency_to_step d \<and> attention_path_new E q = Inr q \<and>
         hash_collision E (path_payload p) (path_payload q)))"
    if d: "d \<in> reaching a S version" for d version
  proof -
    obtain an where an: "an \<in> set ans" "exposed_reach deps (an_traversal an) (cr_revision_id (dp_upstream d))"
      using d reach by (auto simp: reaching_def)
    have "dependency_to_step d \<in> set (dependents_at deps (cr_revision_id (dp_upstream d)))"
      using d unfolding deps reaching_def by blast
    with all an have "covered E (\<Union>(d, ps) \<in> set bd. set ps) (dependency_to_step d)" unfolding all_covered_def by blast
    then obtain p q t ps where pq: "(t, ps) \<in> set bd" "p \<in> set ps" "last (ap_dependencies q) = dependency_to_step d"
      "attention_path_new E q = Inr q" "ap_target p = ds_downstream (dependency_to_step d)"
      "p = q \<or> hash_collision E (path_payload p) (path_payload q)" unfolding covered_def by blast
    have "t = version" using entry [OF pq(1)] pq(2,5) d by (auto simp: reaching_def)
    with pq show ?thesis by blast
  qed
  have "fst ` set bd = impacted_documents a S"
  proof
    show "fst ` set bd \<subseteq> impacted_documents a S"
    proof
      fix t assume "t \<in> fst ` set bd"
      then obtain ps where ps: "(t, ps) \<in> set bd" by auto
      then have "hd ps \<in> set ps" using entry [OF ps] by simp
      then have "ap_target (hd ps) = t" "good_path E a v as_of deps ans (hd ps)" using entry [OF ps] by blast+
      with good [of "hd ps"] show "t \<in> impacted_documents a S" by (auto simp: impacted_documents_def)
    qed
    show "impacted_documents a S \<subseteq> fst ` set bd"
      using cov unfolding impacted_documents_def by force
  qed
  moreover have "paths_reach E a as_of S version ps" if vp: "(version, ps) \<in> set bd" for version ps
    unfolding paths_reach_def
  proof (intro conjI ballI)
    fix p assume p: "p \<in> set ps"
    then have e: "ap_target p = version" "good_path E a v as_of deps ans p" using entry [OF vp] by blast+
    show "attention_path_new E p = Inr p" "ap_target p = version" using e by (simp_all add: good_path_def)
    show "\<exists>d \<in> reaching a S version. last (ap_dependencies p) = dependency_to_step d" using good [OF e(2)] e(1) by simp
    show "\<exists>d \<in> set (ag_documents a). dv_id d = version \<and>
        resolve_document_temporality E d (temporal_set a) as_of = Inr (ap_resolution p)"
      using e unfolding good_path_def document_resolves_def document_value_direct [OF v] by blast
  next
    fix d assume "d \<in> reaching a S version"
    from cov [OF this] obtain p qs where pq: "(version, qs) \<in> set bd" "p \<in> set qs"
      "last (ap_dependencies p) = dependency_to_step d \<or> (\<exists>q. last (ap_dependencies q) = dependency_to_step d \<and>
         attention_path_new E q = Inr q \<and> hash_collision E (path_payload p) (path_payload q))" by blast
    have "qs = ps" using eq_key_imp_eq_value [OF keys pq(1) vp] .
    with pq show "(\<exists>p \<in> set ps. last (ap_dependencies p) = dependency_to_step d) \<or>
        (\<exists>p \<in> set ps. \<exists>q. last (ap_dependencies q) = dependency_to_step d \<and> attention_path_new E q = Inr q \<and>
           hash_collision E (path_payload p) (path_payload q))" by blast
  qed
  ultimately show ?thesis by blast
qed

section \<open>The targets\<close>

lemma excluded_target_new_Inr:
  assumes "excluded_target_new E x = Inr x'"
  shows "x' = x \<and> xt_reasons x \<noteq> [] \<and> list_all (\<lambda>p. ap_resolution p = xt_resolution x) (xt_paths x) \<and>
    temporal_reasons (xt_reasons x) = (case temporal_reason (tr_state (xt_resolution x)) of None \<Rightarrow> {} | Some r \<Rightarrow> {r}) \<and>
    (HistoricalReferenceOnly \<in> set (xt_reasons x)) = (\<not> list_ex ap_eligible (xt_paths x))"
  using assms unfolding excluded_target_new_def rbind_Inr_iff requires_Inr_iff by (simp, blast)

lemma attention_candidate_new_Inr:
  assumes "attention_candidate_new E c = Inr c'"
  shows "c' = c \<and> list_all (\<lambda>p. ap_resolution p = ac_resolution c) (ac_paths c) \<and>
    tr_state (ac_resolution c) = Current \<and> eligible_paths (ac_paths c) \<noteq> [] \<and>
    ac_support c = terminal_ids (eligible_paths (ac_paths c))"
  using assms unfolding attention_candidate_new_def Let_def rbind_Inr_iff requires_Inr_iff by (simp, blast)

definition target_holds :: "aggregate \<Rightarrow> string list \<Rightarrow> string \<times> attention_path list \<Rightarrow> target \<Rightarrow> bool" where
  "target_holds a docs dp t \<longleftrightarrow> (case t of
     Ranked c \<Rightarrow> ac_version c = fst dp \<and> ac_paths c = snd dp \<and> fst dp \<notin> set docs \<and>
       (\<forall>p \<in> set (snd dp). ap_resolution p = ac_resolution c) \<and> tr_state (ac_resolution c) = Current \<and>
       eligible_paths (snd dp) \<noteq> [] \<and> ac_support c = terminal_ids (eligible_paths (snd dp)) \<and>
       (\<exists>d \<in> set (ag_documents a). dv_id d = fst dp \<and> dv_document_id d = ac_document c)
   | Excluded x \<Rightarrow> xt_version x = fst dp \<and> xt_paths x = snd dp \<and> xt_reasons x \<noteq> [] \<and>
       (\<forall>p \<in> set (snd dp). ap_resolution p = xt_resolution x) \<and>
       (ChangedDocument \<in> set (xt_reasons x) \<longleftrightarrow> fst dp \<in> set docs) \<and>
       temporal_reasons (xt_reasons x) = (case temporal_reason (tr_state (xt_resolution x)) of None \<Rightarrow> {} | Some r \<Rightarrow> {r}) \<and>
       (HistoricalReferenceOnly \<in> set (xt_reasons x) \<longleftrightarrow> \<not> list_ex ap_eligible (snd dp)) \<and>
       (\<exists>d \<in> set (ag_documents a). dv_id d = fst dp \<and> dv_document_id d = xt_document x))"

lemma target_for_holds:
  assumes can: "canonical dv_id (ag_documents a)" and t: "target_for E a docs (version, paths) = Inr t"
  shows "target_holds a docs (version, paths) t"
proof -
  obtain d p ps where d: "dict_get dv_id (ag_documents a) version = Some d" and paths: "paths = p # ps"
    using t unfolding target_for_def by (auto split: option.splits list.splits)
  have doc: "d \<in> set (ag_documents a)" "dv_id d = version"
    using d dict_get_Some_iff [OF canonical_key_inj [OF can]] by simp_all
  let ?reasons = "exclusion_reasons (version \<in> set docs) (ap_resolution p) paths"
  show ?thesis
  proof (cases "?reasons = []")
    case False
    let ?x = "\<lparr>xt_version = version, xt_document = dv_document_id d, xt_resolution = ap_resolution p,
                xt_reasons = sort_key exclusion_order (remdups ?reasons), xt_paths = paths\<rparr>"
    obtain x where x: "excluded_target_new E ?x = Inr x" "t = Excluded x"
      using t d False unfolding target_for_def paths by (auto simp: rbind_Inr_iff Let_def)
    note facts = excluded_target_new_Inr [OF x(1)]
    have "x = ?x" using facts by blast
    then have fields: "xt_version x = version" "xt_document x = dv_document_id d" "xt_paths x = paths"
      "set (xt_reasons x) = set ?reasons" "xt_resolution ?x = xt_resolution x" "xt_paths ?x = xt_paths x"
      "xt_reasons ?x = xt_reasons x" by simp_all
    have "ChangedDocument \<in> set ?reasons \<longleftrightarrow> version \<in> set docs"
      by (auto simp: exclusion_reasons_def temporal_reason_def split: option.splits temporal_state.splits)
    then show ?thesis
      using facts [THEN conjunct2, unfolded fields(5-7)] doc
      unfolding x(2) target_holds_def target.case fst_conv snd_conv list_all_iff fields(1-4) by blast
  next
    case True
    have changed: "version \<notin> set docs" using True by (auto simp: exclusion_reasons_def)
    let ?c = "\<lambda>score. \<lparr>ac_version = version, ac_document = dv_document_id d, ac_resolution = ap_resolution p,
         ac_score = score, ac_support = terminal_ids (eligible_paths paths), ac_paths = paths\<rparr>"
    obtain score c where c: "t = Ranked c" "attention_candidate_new E (?c score) = Inr c"
      using t d True unfolding target_for_def paths by (auto simp: rbind_Inr_iff Let_def split: option.splits)
    note facts = attention_candidate_new_Inr [OF c(2)]
    have "c = ?c score" using facts by blast
    then have fields: "ac_version c = version" "ac_document c = dv_document_id d" "ac_paths c = paths"
      "ac_support c = terminal_ids (eligible_paths paths)" "ac_resolution (?c score) = ac_resolution c"
      "ac_paths (?c score) = paths" by simp_all
    show ?thesis
      using facts [THEN conjunct2, unfolded fields(5-6)] doc changed
      unfolding c(1) target_holds_def target.case fst_conv snd_conv list_all_iff fields(1-4) by blast
  qed
qed

lemma targets_for_Inr:
  "targets_for E a docs n bd = Inr ts \<Longrightarrow> list_all2 (\<lambda>dp t. target_for E a docs dp = Inr t) bd ts"
  by (induction bd arbitrary: n ts) (auto simp: rbind_Inr_iff)

lemma targets_hold:
  assumes "canonical dv_id (ag_documents a)" and "targets_for E a docs n bd = Inr ts"
  shows "list_all2 (target_holds a docs) bd ts"
  using targets_for_Inr [OF assms(2)] target_for_holds [OF assms(1)]
  by (auto elim: list_all2_mono)

definition target_version :: "target \<Rightarrow> string" where
  "target_version t = (case t of Ranked c \<Rightarrow> ac_version c | Excluded x \<Rightarrow> xt_version x)"

lemma target_versions:
  "list_all2 (target_holds a docs) bd ts \<Longrightarrow> map target_version ts = map fst bd"
  by (induction rule: list_all2_induct) (auto simp: target_holds_def target_version_def split: target.splits)

lemma ranked_targets_mem: "c \<in> set (ranked_targets ts) \<longleftrightarrow> Ranked c \<in> set ts"
  by (force simp: ranked_targets_def split: target.splits)

lemma excluded_targets_mem: "x \<in> set (excluded_targets ts) \<longleftrightarrow> Excluded x \<in> set ts"
  by (force simp: excluded_targets_def split: target.splits)

lemma target_versions_split:
  "target_version ` set ts = ac_version ` set (ranked_targets ts) \<union> xt_version ` set (excluded_targets ts)"
proof (induction ts)
  case (Cons t ts)
  then show ?case
    by (cases t) (auto simp: target_version_def ranked_targets_def excluded_targets_def)
qed (simp add: ranked_targets_def excluded_targets_def)

lemma ranking_create_Inr:
  assumes "ranking_create E b cs xs = Inr rk"
  shows "rk_binding rk = b \<and> set (rk_attention rk) = set cs \<and> set (rk_excluded rk) = set xs \<and>
    rk_attention rk = sort_key attention_sort_key cs \<and> distinct (map ac_version (rk_attention rk)) \<and>
    map xt_version (rk_excluded rk) = sorted_set (map xt_version (rk_excluded rk)) \<and>
    ac_version ` set (rk_attention rk) \<inter> xt_version ` set (rk_excluded rk) = {}"
proof -
  let ?cs = "sort_key attention_sort_key cs" and ?xs = "sort_key xt_version xs"
  let ?r = "\<lparr>rk_binding = b, rk_attention = ?cs, rk_excluded = ?xs, rk_sha256 = sha256_json E (ranking_payload b ?cs ?xs)\<rparr>"
  have i: "ranking_integrity E ?r = Inr rk"
    using assms by (auto simp: ranking_create_def ranking_new_def rbind_Inr_iff Let_def)
  then have "rk = ?r" by (auto simp: ranking_integrity_def rbind_Inr_iff Let_def)
  moreover have "distinct (map ac_version ?cs) \<and> map xt_version ?xs = sorted_set (map xt_version ?xs) \<and>
      set (map ac_version ?cs) \<inter> set (map xt_version ?xs) = {}"
    using i unfolding ranking_integrity_def Let_def rbind_Inr_iff requires_Inr_iff by simp
  ultimately show ?thesis by simp
qed

section \<open>A successful ranking in parts\<close>

lemma resolution_revalidate_Inr: "resolution_revalidate E r = Inr r' \<Longrightarrow> r' = r"
proof -
  assume "resolution_revalidate E r = Inr r'"
  then obtain t where t: "temporal_target_new (tr_target r) = Inr t" "resolution_new E (r\<lparr>tr_target := t\<rparr>) = Inr r'"
    by (auto simp: resolution_revalidate_def rbind_Inr_iff)
  have "r\<lparr>tr_target := t\<rparr> = r" using temporal_target_new_Inr [OF t(1)] by (cases r) simp
  with resolution_new_Inr [OF t(2)] show "r' = r" by simp
qed

lemma rmap_same: "rmap f xs = Inr ys \<Longrightarrow> (\<And>x y. f x = Inr y \<Longrightarrow> y = x) \<Longrightarrow> ys = xs"
  by (induction xs arbitrary: ys) (auto simp: rbind_Inr_iff)

lemma binding_revalidate_Inr: "binding_revalidate E b = Inr b' \<Longrightarrow> b' = b"
proof -
  assume "binding_revalidate E b = Inr b'"
  then obtain rs where rs: "rmap (resolution_revalidate E) (ab_resolutions b) = Inr rs"
    "binding_new E (b\<lparr>ab_resolutions := rs\<rparr>) = Inr b'"
    unfolding binding_revalidate_def rbind_Inr_iff raising_Inr_iff by blast
  have "b\<lparr>ab_resolutions := rs\<rparr> = b" using rmap_same [OF rs(1) resolution_revalidate_Inr] by (cases b) simp
  with binding_new_Inr [OF rs(2)] show "b' = b" by simp
qed

lemma candidate_revalidate_Inr: "candidate_revalidate E c = Inr c' \<Longrightarrow> c' = c"
proof -
  assume "candidate_revalidate E c = Inr c'"
  then obtain x y s where p: "resolution_revalidate E (ca_changed_resolution c) = Inr x"
    "resolution_revalidate E (ca_incumbent_resolution c) = Inr y" "score_new (ca_score c) = Inr s"
    "candidate_new E (c\<lparr>ca_changed_resolution := x, ca_incumbent_resolution := y, ca_score := s\<rparr>) = Inr c'"
    unfolding candidate_revalidate_def rbind_Inr_iff raising_Inr_iff by blast
  have "c\<lparr>ca_changed_resolution := x, ca_incumbent_resolution := y, ca_score := s\<rparr> = c"
    using resolution_revalidate_Inr [OF p(1)] resolution_revalidate_Inr [OF p(2)] score_new_Inr [OF p(3)]
    by (cases c) simp
  with candidate_new_Inr [OF p(4)] show "c' = c" by simp
qed

lemma candidate_set_revalidate_Inr: "candidate_set_revalidate E s = Inr s' \<Longrightarrow> s' = s"
proof -
  assume "candidate_set_revalidate E s = Inr s'"
  then obtain b cs where p: "binding_revalidate E (ks_binding s) = Inr b"
    "rmap (candidate_revalidate E) (ks_candidates s) = Inr cs"
    "candidate_set_integrity E (s\<lparr>ks_binding := b, ks_candidates := cs\<rparr>) = Inr s'"
    unfolding candidate_set_revalidate_def rbind_Inr_iff by blast
  have "s\<lparr>ks_binding := b, ks_candidates := cs\<rparr> = s"
    using binding_revalidate_Inr [OF p(1)] rmap_same [OF p(2) candidate_revalidate_Inr] by (cases s) simp
  with candidate_set_integrity_Inr [OF p(3)] show "s' = s" by simp
qed

lemma generate_from_context:
  assumes E: "float_ok E" and inv: "context_inv E v as_of ctx" and can: "canonical cr_revision_id (ag_claims a)"
    and gen: "generate_from E snap a ids ctx = (Inr ks, ctx')"
  shows "context_inv E v as_of ctx'"
proof -
  obtain rr ctx1 where r: "validate_changed_roots E a ids ctx = (rr, ctx1)" by force
  then obtain roots rs where rr: "rr = Inr (roots, rs)"
    using gen by (cases rr) (auto simp: generate_from_def)
  have inv1: "context_inv E v as_of ctx1" using validate_changed_roots_Inr [OF E inv can r [unfolded rr]] by blast
  obtain al ctx2 where al: "resolve_claims E (ag_claims a) ctx1 = (al, ctx2)" by force
  have "ctx' = ctx2"
    using gen unfolding generate_from_def r rr by (auto simp: al Let_def split: sum.splits)
  with resolve_claims_values [OF E inv1 al] show ?thesis by blast
qed

lemma rank_parts:
  assumes E: "float_ok E" and wf: "aggregate_wf E a" and snap: "ss_aggregate snap = a"
    and rank: "rank_document_attention E snap ks = Some (Inr rk)"
  obtains v ctx gctx b docs bd ts where "validated_set_revalidate E (temporal_set a) = Inr v"
    and "context_inv E v (ab_as_of (ks_binding ks)) gctx"
    and "fst (generate_from E snap a (ab_changed_ids (ks_binding ks)) gctx) = Inr ks"
    and "context_inv E v (ab_as_of (ks_binding ks)) ctx"
    and "binding_create E DocumentAttentionRankingV1 (ag_id a) (ss_revision snap) (ss_sha256 snap)
      (ab_as_of (ks_binding ks)) (ab_changed_ids (ks_binding ks)) (ab_resolutions (ks_binding ks)) (Some (ks_sha256 ks)) = Inr b"
    and "rmap (claim_document_id a) (ab_changed_ids (ks_binding ks)) = Inr docs"
    and "attention_paths E a ks ctx = Some (Inr bd)" and "targets_for E a docs 0 bd = Inr ts"
    and "ranking_create E b (ranked_targets ts) (excluded_targets ts) = Inr rk"
proof -
  obtain a' ks' ctx0 where val: "validate_snapshot E snap = Inr a'"
    and ks': "candidate_set_revalidate E ks = Inr ks'"
    and ctx0: "context_from_aggregate E a' (ab_as_of (ks_binding ks')) = Inr ctx0"
    and run: "rank_validated E snap a' ks' ctx0 = Some (Inr rk)"
    using rank unfolding rank_document_attention_def run_bind_Inr_iff
    by (auto simp: rbind_Inr_iff raising_Inr_iff)
  have a: "a' = a" using validate_snapshot_wf [OF _ val] wf snap by simp
  have ks: "ks' = ks" by (rule candidate_set_revalidate_Inr [OF ks'])
  have can: "canonical cr_revision_id (ag_claims a)" by (rule aggregate_wf_claims [OF wf])
  obtain v where v: "validated_set_revalidate E (temporal_set a) = Inr v"
    and inv0: "context_inv E v (ab_as_of (ks_binding ks)) ctx0"
    using context_new_inv ctx0 unfolding a ks context_from_aggregate_def temporal_set_def by blast
  note run = run [unfolded a ks rank_validated_def Let_def]
  obtain rr ctx1 where r: "validate_changed_roots E a (ab_changed_ids (ks_binding ks)) ctx0 = (rr, ctx1)" by force
  obtain roots rs where rr: "rr = Inr (roots, rs)" using run r by (cases rr) auto
  have rs: "rs = ab_resolutions (ks_binding ks)" using run unfolding r rr by (auto split: if_splits)
  have inv1: "context_inv E v (ab_as_of (ks_binding ks)) ctx1"
    using validate_changed_roots_Inr [OF E inv0 can r [unfolded rr]] by blast
  obtain ge ctx2 where ge: "generate_from E snap a (ab_changed_ids (ks_binding ks)) ctx1 = (ge, ctx2)" by force
  obtain expected where expected: "ge = Inr expected"
    using run unfolding r rr rs by (cases ge) (auto simp: ge)
  note ge = ge [unfolded expected]
  have run': "run_bind (Some (rbind (requires [(ks = expected,
         ValueError ''relationship candidates are not the complete deterministic set for this snapshot'')]) (\<lambda>_.
       rbind (binding_create E DocumentAttentionRankingV1 (ag_id a) (ss_revision snap) (ss_sha256 snap)
         (ab_as_of (ks_binding ks)) (ab_changed_ids (ks_binding ks)) (ab_resolutions (ks_binding ks)) (Some (ks_sha256 ks))) (\<lambda>b.
       rbind (rmap (claim_document_id a) (ab_changed_ids (ks_binding ks))) (\<lambda>docs. Inr (b, docs)))))) (\<lambda>(b, docs).
     run_bind (attention_paths E a ks ctx2) (\<lambda>by_document.
     Some (rbind (targets_for E a docs 0 by_document) (\<lambda>ts.
       ranking_create E b (ranked_targets ts) (excluded_targets ts))))) = Some (Inr rk)"
    using run unfolding r rr rs by (simp add: ge)
  then obtain b docs bd ts where parts: "ks = expected"
    "binding_create E DocumentAttentionRankingV1 (ag_id a) (ss_revision snap) (ss_sha256 snap)
      (ab_as_of (ks_binding ks)) (ab_changed_ids (ks_binding ks)) (ab_resolutions (ks_binding ks)) (Some (ks_sha256 ks)) = Inr b"
    "rmap (claim_document_id a) (ab_changed_ids (ks_binding ks)) = Inr docs"
    "attention_paths E a ks ctx2 = Some (Inr bd)" "targets_for E a docs 0 bd = Inr ts"
    "ranking_create E b (ranked_targets ts) (excluded_targets ts) = Inr rk"
    unfolding run_bind_Inr_iff by (auto simp: rbind_Inr_iff run_bind_Inr_iff)
  have gen: "generate_from E snap a (ab_changed_ids (ks_binding ks)) ctx1 = (Inr ks, ctx2)"
    using ge unfolding parts(1) [symmetric] .
  show thesis
    by (rule that [OF v inv1 _ generate_from_context [OF E inv1 can gen] parts(2-6)]) (simp add: gen)
qed

section \<open>Ranked and excluded documents\<close>

definition changed_documents :: "aggregate \<Rightarrow> string list \<Rightarrow> string set" where
  "changed_documents a ids = {dv_id (cr_document r) |r. r \<in> set (ag_claims a) \<and> cr_revision_id r \<in> set ids}"

text \<open>A path to the dependency was dropped because its identity is that of a kept, different path.\<close>

definition path_collision :: "py_env \<Rightarrow> attention_path list \<Rightarrow> dependency \<Rightarrow> bool" where
  "path_collision E ps d \<longleftrightarrow> (\<exists>p \<in> set ps. \<exists>q. last (ap_dependencies q) = dependency_to_step d \<and>
     attention_path_new E q = Inr q \<and> hash_collision E (path_payload p) (path_payload q))"

definition document_resolution :: "py_env \<Rightarrow> aggregate \<Rightarrow> date \<Rightarrow> string \<Rightarrow> resolution \<Rightarrow> bool" where
  "document_resolution E a as_of version r \<longleftrightarrow> (\<exists>d \<in> set (ag_documents a). dv_id d = version \<and>
     resolve_document_temporality E d (temporal_set a) as_of = Inr r)"

definition ranked_correct :: "py_env \<Rightarrow> aggregate \<Rightarrow> date \<Rightarrow> string list \<Rightarrow> string set \<Rightarrow> attention_candidate \<Rightarrow> bool" where
  "ranked_correct E a as_of ids S c \<longleftrightarrow>
     document_resolution E a as_of (ac_version c) (ac_resolution c) \<and> tr_state (ac_resolution c) = Current \<and>
     ac_version c \<notin> changed_documents a ids \<and> ac_support c \<noteq> [] \<and>
     (\<forall>i \<in> set (ac_support c). \<exists>d \<in> reaching a S (ac_version c). dp_id d = i \<and> dp_kind d \<noteq> HistoricalReference) \<and>
     (\<forall>d \<in> reaching a S (ac_version c). dp_kind d \<noteq> HistoricalReference \<longrightarrow>
        dp_id d \<in> set (ac_support c) \<or> path_collision E (ac_paths c) d)"

definition excluded_correct :: "py_env \<Rightarrow> aggregate \<Rightarrow> date \<Rightarrow> string list \<Rightarrow> string set \<Rightarrow> excluded_target \<Rightarrow> bool" where
  "excluded_correct E a as_of ids S x \<longleftrightarrow>
     document_resolution E a as_of (xt_version x) (xt_resolution x) \<and> xt_reasons x \<noteq> [] \<and>
     (ChangedDocument \<in> set (xt_reasons x) \<longleftrightarrow> xt_version x \<in> changed_documents a ids) \<and>
     temporal_reasons (xt_reasons x) = (case temporal_reason (tr_state (xt_resolution x)) of None \<Rightarrow> {} | Some r \<Rightarrow> {r}) \<and>
     ((\<forall>d \<in> reaching a S (xt_version x). dp_kind d = HistoricalReference) \<longrightarrow>
        HistoricalReferenceOnly \<in> set (xt_reasons x)) \<and>
     (HistoricalReferenceOnly \<in> set (xt_reasons x) \<longrightarrow> (\<forall>d \<in> reaching a S (xt_version x).
        dp_kind d = HistoricalReference \<or> path_collision E (xt_paths x) d))"

lemma claim_documents:
  assumes can: "canonical cr_revision_id (ag_claims a)" and docs: "rmap (claim_document_id a) ids = Inr docs"
  shows "set docs = changed_documents a ids"
proof -
  have one: "claim_document_id a i = Inr d \<longleftrightarrow> (\<exists>r \<in> set (ag_claims a). cr_revision_id r = i \<and> dv_id (cr_document r) = d)" for i d
    by (auto simp: claim_document_id_def rbind_Inr_iff raising_Inr_iff claim_registry_get_def registry_get_Inr
        lookup_key_Some_iff [OF canonical_key_inj [OF can]])
  show ?thesis using rmap_Inr_mem [OF docs] one by (auto simp: changed_documents_def)
qed

lemma paths_eligible:
  assumes "paths_reach E a as_of S version ps"
  shows "\<forall>p \<in> set ps. \<exists>d \<in> reaching a S version. ds_id (last (ap_dependencies p)) = dp_id d \<and>
      (ap_eligible p \<longleftrightarrow> dp_kind d \<noteq> HistoricalReference)"
    and "\<forall>d \<in> reaching a S version. (\<exists>p \<in> set ps. ds_id (last (ap_dependencies p)) = dp_id d \<and>
        (ap_eligible p \<longleftrightarrow> dp_kind d \<noteq> HistoricalReference)) \<or> path_collision E ps d"
proof -
  have new: "\<forall>p \<in> set ps. ap_eligible p \<longleftrightarrow> ds_kind (last (ap_dependencies p)) \<noteq> HistoricalReference"
    using assms attention_path_new_target unfolding paths_reach_def by blast
  have down: "\<forall>p \<in> set ps. \<exists>d \<in> reaching a S version. last (ap_dependencies p) = dependency_to_step d"
    and up: "\<forall>d \<in> reaching a S version. (\<exists>p \<in> set ps. last (ap_dependencies p) = dependency_to_step d) \<or> path_collision E ps d"
    using assms unfolding paths_reach_def path_collision_def by blast+
  show "\<forall>p \<in> set ps. \<exists>d \<in> reaching a S version. ds_id (last (ap_dependencies p)) = dp_id d \<and>
      (ap_eligible p \<longleftrightarrow> dp_kind d \<noteq> HistoricalReference)" using new down by fastforce
  show "\<forall>d \<in> reaching a S version. (\<exists>p \<in> set ps. ds_id (last (ap_dependencies p)) = dp_id d \<and>
      (ap_eligible p \<longleftrightarrow> dp_kind d \<noteq> HistoricalReference)) \<or> path_collision E ps d" using new up by (metis step_downstream(2,3))
qed

lemma paths_resolution:
  assumes "paths_reach E a as_of S version ps" and "ps \<noteq> []" and "\<forall>p \<in> set ps. ap_resolution p = r"
  shows "document_resolution E a as_of version r"
proof -
  have p: "hd ps \<in> set ps" using assms(2) by simp
  then have "document_resolution E a as_of version (ap_resolution (hd ps))"
    using assms(1) unfolding paths_reach_def document_resolution_def by blast
  moreover have "ap_resolution (hd ps) = r" using assms(3) p by blast
  ultimately show ?thesis by simp
qed

lemma ranked_correctI:
  assumes reach: "paths_reach E a as_of S version ps" and ps: "ps \<noteq> []"
    and t: "target_holds a docs (version, ps) (Ranked c)" and docs: "set docs = changed_documents a ids"
  shows "ranked_correct E a as_of ids S c"
proof -
  note t = t [unfolded target_holds_def target.case fst_conv snd_conv docs]
  have v: "ac_version c = version" "ac_paths c = ps" using t by blast+
  have el: "set (eligible_paths ps) = {p \<in> set ps. ap_eligible p}" by (auto simp: eligible_paths_def)
  have sup: "set (ac_support c) = (\<lambda>p. ds_id (last (ap_dependencies p))) ` set (eligible_paths ps)"
    using t by (simp add: terminal_ids_def)
  note e = paths_eligible [OF reach]
  have "\<exists>d \<in> reaching a S version. dp_id d = i \<and> dp_kind d \<noteq> HistoricalReference" if i: "i \<in> set (ac_support c)" for i
  proof -
    obtain p where "p \<in> set ps" "ap_eligible p" "i = ds_id (last (ap_dependencies p))" using i unfolding sup el by blast
    with e(1) show ?thesis by metis
  qed
  moreover have "dp_id d \<in> set (ac_support c) \<or> path_collision E ps d"
    if "d \<in> reaching a S version" "dp_kind d \<noteq> HistoricalReference" for d
    using e(2) that unfolding sup el by force
  moreover have "ac_support c \<noteq> []"
  proof -
    have "set (eligible_paths ps) \<noteq> {}" using t by simp
    then have "set (ac_support c) \<noteq> {}" unfolding sup by blast
    then show ?thesis by auto
  qed
  moreover have "document_resolution E a as_of version (ac_resolution c)"
    using paths_resolution [OF reach ps] t by blast
  ultimately show ?thesis using t unfolding ranked_correct_def v by blast
qed

lemma excluded_correctI:
  assumes reach: "paths_reach E a as_of S version ps" and ps: "ps \<noteq> []"
    and t: "target_holds a docs (version, ps) (Excluded x)" and docs: "set docs = changed_documents a ids"
  shows "excluded_correct E a as_of ids S x"
proof -
  note t = t [unfolded target_holds_def target.case fst_conv snd_conv docs]
  have v: "xt_version x = version" "xt_paths x = ps" using t by blast+
  note e = paths_eligible [OF reach]
  have h: "HistoricalReferenceOnly \<in> set (xt_reasons x) \<longleftrightarrow> (\<forall>p \<in> set ps. \<not> ap_eligible p)"
    using t by (simp add: list_ex_iff)
  have "HistoricalReferenceOnly \<in> set (xt_reasons x)" if "\<forall>d \<in> reaching a S version. dp_kind d = HistoricalReference"
    using e(1) that unfolding h by blast
  moreover have "dp_kind d = HistoricalReference \<or> path_collision E ps d"
    if "HistoricalReferenceOnly \<in> set (xt_reasons x)" "d \<in> reaching a S version" for d
    using e(2) that unfolding h by blast
  moreover have "document_resolution E a as_of version (xt_resolution x)"
    using paths_resolution [OF reach ps] t by blast
  ultimately show ?thesis using t unfolding excluded_correct_def v by blast
qed

section \<open>The whole ranking\<close>

lemma dependency_adjacency_of:
  assumes "aggregate_wf E a" and "reverse_dependencies E (ag_dependencies a) = Inr deps"
  shows "set (dependents_at deps u) =
    dependency_to_step ` {d \<in> set (ag_dependencies a). cr_revision_id (dp_upstream d) = u}"
proof -
  have "\<forall>d \<in> set (ag_dependencies a). dependency_wf E d"
    using assms(1) by (simp add: aggregate_wf_iff dependency_registry_revalidate_wf)
  from reverse_dependencies_at [OF this assms(2)] show ?thesis by blast
qed

lemma relation_adjacency_of:
  assumes "aggregate_wf E a" and "relation_adjacency E (ag_graph a) = Inr adj"
  shows "(\<exists>s \<in> set (steps_at adj u). hop s = (i, w)) \<longleftrightarrow> graph_edge (ag_graph a) u i w"
proof -
  have "\<forall>r \<in> set (ag_graph a). relation_assessment_wf E r"
    using assms(1) by (simp add: aggregate_wf_iff relation_graph_revalidate_wf)
  from relation_adjacency_ok [OF this] assms(2) show ?thesis by auto
qed

lemma attention_paths_reach:
  assumes E: "float_ok E" and wf: "aggregate_wf E a"
    and v: "validated_set_revalidate E (temporal_set a) = Inr v" and ctx: "context_inv E v as_of ctx"
    and run: "attention_paths E a ks ctx = Some (Inr bd)"
  shows "fst ` set bd = impacted_documents a (search_starts ks) \<and>
    (\<forall>(version, ps) \<in> set bd. ps \<noteq> [] \<and> paths_reach E a as_of (search_starts ks) version ps)"
proof -
  have can: "canonical rp_id (vs_replacements v)" "canonical dv_id (ag_documents a)"
    using validated_set_revalidate_canonical [OF v] wf
    by (auto simp: aggregate_wf_iff revalidate_wf document_registry_new_Inr)
  obtain deps ans where deps: "reverse_dependencies E (ag_dependencies a) = Inr deps"
    and ans: "anchors_of E a ks = Some (Inr ans)" and inv: "paths_inv E a v as_of deps ans bd"
    by (rule attention_paths_Inr [OF E can ctx run])
  obtain adj where adj: "relation_adjacency E (ag_graph a) = Inr adj"
    and trav: "an_traversal ` set ans = walked_from adj (search_starts ks)"
    using anchors_of_Inr [OF ans] by blast
  note reach = reach_iff [OF dependency_adjacency_of [OF wf deps] relation_adjacency_of [OF wf adj] trav]
  have "\<forall>(version, ps) \<in> set bd. ps \<noteq> []" using inv unfolding paths_inv_def by blast
  with paths_inv_reach [OF dependency_adjacency_of [OF wf deps] reach v inv] show ?thesis by blast
qed

lemma attention_key_strict:
  assumes "rs = sort_key attention_sort_key cs" and "distinct (map ac_version rs)"
  shows "sorted_wrt (<) (map attention_sort_key rs)"
proof (rule sorted_distinct_wrt)
  show "sorted (map attention_sort_key rs)" by (simp add: assms(1))
  have "inj_on attention_sort_key (set rs)"
  proof (rule inj_onI)
    fix x y assume "x \<in> set rs" "y \<in> set rs" "attention_sort_key x = attention_sort_key y"
    then have "x \<in> set rs" "y \<in> set rs" "ac_version x = ac_version y" by (simp_all add: attention_sort_key_def)
    with assms(2) show "x = y" unfolding distinct_map inj_on_def by blast
  qed
  then show "distinct (map attention_sort_key rs)" using assms(2) by (simp add: distinct_map)
qed

lemma ranking_members:
  assumes holds: "list_all2 (target_holds a docs) bd ts"
    and paths: "\<forall>(version, ps) \<in> set bd. ps \<noteq> [] \<and> paths_reach E a as_of S version ps"
    and docs: "set docs = changed_documents a ids"
  shows "(\<forall>c \<in> set (ranked_targets ts). ranked_correct E a as_of ids S c) \<and>
    (\<forall>x \<in> set (excluded_targets ts). excluded_correct E a as_of ids S x)"
proof -
  have from_bd: "\<exists>version ps. ps \<noteq> [] \<and> paths_reach E a as_of S version ps \<and> target_holds a docs (version, ps) t"
    if "t \<in> set ts" for t
    using list_all2_right [OF holds that] paths by fastforce
  show ?thesis
  proof (intro conjI ballI)
    fix c assume "c \<in> set (ranked_targets ts)"
    from from_bd [OF this [unfolded ranked_targets_mem]] show "ranked_correct E a as_of ids S c"
      using ranked_correctI [OF _ _ _ docs] by blast
  next
    fix x assume "x \<in> set (excluded_targets ts)"
    from from_bd [OF this [unfolded excluded_targets_mem]] show "excluded_correct E a as_of ids S x"
      using excluded_correctI [OF _ _ _ docs] by blast
  qed
qed

section \<open>Properties\<close>

text \<open>
  C11.  \<open>rank_document_attention\<close> returns on every snapshot and every candidate set, with a ranking or an
  exception: the relation walks and the dependency search come to an end on cyclic graphs too.
\<close>

theorem attention_returns: "\<exists>r. rank_document_attention E snap ks = Some r"
  using rank_returns [of E snap ks] by (simp add: returns_def)

text \<open>
  C9.  What \<open>rank_document_attention\<close> returns for a well-formed snapshot is complete and exact.  The
  ranked and the excluded documents together are exactly the documents with a dependency on a claim
  that the change reaches: from the changed roots and the anchor candidates' incumbents over
  relations, then over exposed downstream claims; no document is both.  A ranked document is current,
  holds no changed claim and is supported by exactly the dependencies that reach it and are not mere
  historical references; an excluded document carries exactly the reasons that apply.  (Two different
  paths with one SHA-256 are named as the only way to lose a dependency.)  The ranked documents stand
  in strict score order, the excluded ones in the order of their version ids.
\<close>

theorem attention_exact:
  assumes "float_ok E" and "aggregate_wf E a" and "ss_aggregate snap = a"
    and "rank_document_attention E snap ks = Some (Inr rk)"
  shows "ac_version ` set (rk_attention rk) \<union> xt_version ` set (rk_excluded rk) =
      impacted_documents a (search_starts ks) \<and>
    ac_version ` set (rk_attention rk) \<inter> xt_version ` set (rk_excluded rk) = {} \<and>
    (\<forall>c \<in> set (rk_attention rk).
       ranked_correct E a (ab_as_of (ks_binding ks)) (ab_changed_ids (ks_binding ks)) (search_starts ks) c) \<and>
    (\<forall>x \<in> set (rk_excluded rk).
       excluded_correct E a (ab_as_of (ks_binding ks)) (ab_changed_ids (ks_binding ks)) (search_starts ks) x) \<and>
    sorted_wrt (<) (map attention_sort_key (rk_attention rk)) \<and>
    sorted_wrt (<) (map xt_version (rk_excluded rk))"
proof -
  obtain v ctx gctx b docs bd ts where v: "validated_set_revalidate E (temporal_set a) = Inr v"
    and ctx: "context_inv E v (ab_as_of (ks_binding ks)) ctx"
    and docs: "rmap (claim_document_id a) (ab_changed_ids (ks_binding ks)) = Inr docs"
    and bd: "attention_paths E a ks ctx = Some (Inr bd)" and ts: "targets_for E a docs 0 bd = Inr ts"
    and rk: "ranking_create E b (ranked_targets ts) (excluded_targets ts) = Inr rk"
    by (rule rank_parts [OF assms])
  have can: "canonical dv_id (ag_documents a)"
    using assms(2) by (auto simp: aggregate_wf_iff revalidate_wf document_registry_new_Inr)
  note paths = attention_paths_reach [OF assms(1,2) v ctx bd]
  note holds = targets_hold [OF can ts]
  note rank = ranking_create_Inr [OF rk]
  have "ac_version ` set (ranked_targets ts) \<union> xt_version ` set (excluded_targets ts) = fst ` set bd"
    unfolding target_versions_split [symmetric] using target_versions [OF holds] by (metis set_map)
  moreover note ranking_members [OF holds paths [THEN conjunct2] claim_documents [OF aggregate_wf_claims [OF assms(2)] docs]]
  moreover have "sorted_wrt (<) (map attention_sort_key (rk_attention rk))"
    using attention_key_strict rank by blast
  moreover have "sorted_wrt (<) (map xt_version (rk_excluded rk))"
    using rank sorted_set_id_iff strict_sorted_iff by blast
  ultimately show ?thesis using paths [THEN conjunct1] rank by metis
qed

end
