(* ===== verification/DiscoveryWitnesses.thy ===== *)
theory DiscoveryWitnesses
  imports DiscoveryRanking Samples
begin

text \<open>
  The discovery pipeline on a concrete snapshot: the travel policy with two claims whose pair nobody
  has assessed yet and a FAQ that quotes the older claim.  The newer claim changes; the older one
  becomes an unassessed candidate, and the FAQ is ranked through it.
\<close>

declare One_nat_def [simp del]

section \<open>A bound for the byte counts\<close>

fun json_bound :: "json \<Rightarrow> nat" where
  "json_bound JNull = 4"
| "json_bound (JBool b) = 5"
| "json_bound (JInt i) = 2 * length (show_int i)"
| "json_bound (JFloat q) = 2 * length (float_text q)"
| "json_bound (JStr s) = 2 + 6 * length s"
| "json_bound (JArr vs) = 2 + sum_list (map (\<lambda>v. json_bound v + 1) vs)"
| "json_bound (JObj kvs) = 2 + sum_list (map (\<lambda>kv. 6 * length (fst kv) + 4 + json_bound (snd kv)) kvs)"

lemma utf8_append: "utf8_encode (s @ t) = utf8_encode s @ utf8_encode t"
  by (induction s) simp_all

lemma utf8_length: "length (utf8_encode s) \<le> 2 * length s"
proof (induction s)
  case (Cons c s)
  then show ?case by (simp add: utf8_char_def Let_def)
qed simp

lemma utf8_ascii: "list_all (\<lambda>c. (of_char c :: nat) < 128) s \<Longrightarrow> utf8_encode s = s"
  by (induction s) (simp_all add: utf8_char_def)

lemma hex_digit_ascii: "n < 16 \<Longrightarrow> (of_char (hex_digit n) :: nat) < 128"
  by (simp add: hex_digit_def)

lemma escape_char_bound: "length (utf8_encode (escape_char c)) \<le> 6"
proof -
  have "(of_char c :: nat) < 32 \<Longrightarrow> of_char c div 16 < (16 :: nat)" "of_char c mod 16 < (16 :: nat)" by simp_all
  moreover have "(of_char backslash :: nat) < 128" by (simp add: backslash_def)
  ultimately show ?thesis
    using hex_digit_ascii by (auto simp: escape_char_def Let_def utf8_char_def)
qed

lemma escape_bound: "length (utf8_encode (escape s)) \<le> 6 * length s"
proof (induction s)
  case (Cons c s)
  then show ?case using escape_char_bound [of c] by (simp add: utf8_append)
qed simp

lemma encode_string_bound: "length (utf8_encode (encode_string s)) \<le> 2 + 6 * length s"
  using escape_bound [of s] by (simp add: encode_string_def utf8_append utf8_char_def quote_char_def)

lemma emit_elements_bound:
  "length (utf8_encode (emit_elements E vs)) \<le> sum_list (map (\<lambda>v. length (utf8_encode (emit E v)) + 1) vs)"
proof (induction vs rule: induct_list012)
  case (3 v w vs)
  then show ?case by (simp add: utf8_append utf8_char_def)
qed simp_all

lemma emit_members_bound:
  "length (utf8_encode (emit_members E kvs)) \<le>
     sum_list (map (\<lambda>kv. 6 * length (fst kv) + 4 + length (utf8_encode (emit E (snd kv)))) kvs)"
proof (induction kvs rule: induct_list012)
  case (2 kv)
  then show ?case using encode_string_bound [of "fst kv"] by (cases kv) (simp add: utf8_append utf8_char_def)
next
  case (3 kv w kvs)
  then show ?case using encode_string_bound [of "fst kv"] by (cases kv) (simp add: utf8_append utf8_char_def)
qed simp

lemma sum_list_sorted: "sum_list (map f (sort_key k xs)) = (sum_list (map f xs) :: nat)"
proof -
  have ins: "sum_list (map f (insort_key k x ys)) = f x + sum_list (map f ys)" for x ys
    by (induction ys) simp_all
  show ?thesis by (induction xs) (simp_all add: ins)
qed

lemma emit_bound: "length (utf8_encode (emit sample_env (sort_members j))) \<le> json_bound j"
proof (induction j rule: json_bound.induct)
  case (6 vs)
  have "sum_list (map (\<lambda>v. length (utf8_encode (emit sample_env v)) + 1) (map sort_members vs)) \<le>
      sum_list (map (\<lambda>v. json_bound v + 1) vs)"
    unfolding map_map by (rule sum_list_mono) (simp add: 6)
  with emit_elements_bound [of sample_env "map sort_members vs"] show ?case
    by (simp add: utf8_append utf8_char_def del: map_map)
next
  case (7 kvs)
  let ?f = "\<lambda>kv. 6 * length (fst kv) + 4 + length (utf8_encode (emit sample_env (snd kv)))"
  let ?m = "map (\<lambda>kv. (fst kv, sort_members (snd kv))) kvs"
  have "sum_list (map ?f ?m) \<le> sum_list (map (\<lambda>kv. 6 * length (fst kv) + 4 + json_bound (snd kv)) kvs)"
    unfolding map_map by (rule sum_list_mono) (auto simp: 7)
  with emit_members_bound [of sample_env "sort_key fst ?m"] show ?case
    by (simp add: utf8_append utf8_char_def sum_list_sorted del: map_map)
next
  case (3 i)
  show ?case using utf8_length [of "show_int i"] by simp
next
  case (4 q)
  show ?case using utf8_length [of "float_text q"] by simp
next
  case (5 s)
  show ?case using encode_string_bound [of s] by simp
qed (simp_all add: utf8_char_def)

lemma byte_count_le: "byte_count sample_env j \<le> int (json_bound j)"
  using emit_bound [of j] by (simp add: byte_count_def canonical_json_bytes_def)

lemma projection_charge_le: "projection_charge sample_env j \<le> 700 + int (json_bound j)"
  unfolding projection_charge_def by (rule order_trans [OF byte_count_le]) simp

lemma within: "byte_count sample_env j \<le> n" if "int (json_bound j) \<le> n"
  using byte_count_le [of j] that by linarith

lemma charge_within: "projection_charge sample_env j \<le> n" if "700 + int (json_bound j) \<le> n"
  using projection_charge_le [of j] that by linarith

section \<open>The snapshot\<close>

definition unassessed_travel :: aggregate where
  "unassessed_travel = travel\<lparr>ag_graph := [], ag_replacements := [], ag_constraints := []\<rparr>"

definition travel_snapshot :: snapshot where
  "travel_snapshot = \<lparr>ss_aggregate = unassessed_travel, ss_revision = 1,
     ss_sha256 = sha256_json sample_env (aggregate_json unassessed_travel)\<rparr>"

lemma unassessed_select:
  "ag_id unassessed_travel = ''travel''" "ag_documents unassessed_travel = [policy_v1, faq, policy_v2]"
  "ag_claims unassessed_travel = [claim_v1, claim_v2]" "ag_graph unassessed_travel = []"
  "ag_dependencies unassessed_travel = [faq_dependency]" "ag_replacements unassessed_travel = []"
  "ag_constraints unassessed_travel = []"
  by (simp_all add: unassessed_travel_def travel_def)

lemma unassessed_wf: "aggregate_wf sample_env unassessed_travel"
proof -
  have "document_registry_revalidate sample_env (ag_documents travel) = Inr (ag_documents travel)"
    "claim_registry_revalidate sample_env (ag_claims travel) = Inr (ag_claims travel)"
    "dependency_registry_revalidate sample_env (ag_dependencies travel) = Inr (ag_dependencies travel)"
    and new: "aggregate_new sample_env travel = Inr travel" and closed: "closed_binding_graph travel = Inr travel"
    using travel_wf by (auto simp: aggregate_wf_iff aggregate_new_Inr_iff)
  moreover have empty: "relation_graph_revalidate sample_env [] = Inr []" "replacement_set_revalidate sample_env [] = Inr []"
    "constraint_set_revalidate sample_env [] = Inr []"
    unfolding revalidate_wf
    by (simp_all add: relation_graph_new_Inr_iff replacement_set_new_Inr_iff constraint_set_new_Inr_iff canonical_def
        key_inj_def persisted_relation_ids_def List.map_filter_def replacement_documents_def replacement_edges_def
        assessment_revisions_def acyclic_def)
  moreover have "aggregate_new sample_env unassessed_travel = Inr unassessed_travel"
  proof -
    have "closed_binding_graph unassessed_travel = Inr unassessed_travel"
      using closed unfolding closed_binding_graph_Inr_iff require_dependency_Inr require_document_Inr require_claim_Inr
        require_span_Inr require_target_Inr
      by (simp add: unassessed_select travel_select validated_temporal_constraints_def validated_set_new_Inr_iff
          assessment_revisions_def replacement_documents_def key_inj_def)
    with new show ?thesis unfolding aggregate_new_Inr_iff by (simp add: unassessed_select travel_select)
  qed
  ultimately show ?thesis unfolding aggregate_wf_iff by (simp add: unassessed_select travel_select)
qed

lemma unassessed_set: "validated_set_revalidate sample_env (temporal_set unassessed_travel) =
    Inr (temporal_set unassessed_travel)"
proof -
  have "constraint_set_revalidate sample_env [] = Inr []" "relation_graph_revalidate sample_env [] = Inr []"
    "replacement_set_revalidate sample_env [] = Inr []"
    using unassessed_wf by (simp_all add: aggregate_wf_iff unassessed_select)
  then show ?thesis
    by (simp add: validated_set_revalidate_def temporal_set_def unassessed_select validated_set_new_Inr_iff
        key_inj_def assessment_revisions_def replacement_documents_def)
qed

definition open_resolution :: "target_kind \<Rightarrow> string \<Rightarrow> date \<Rightarrow> resolution" where
  "open_resolution kind i since = \<lparr>tr_target = \<lparr>tt_kind = kind, tt_id = i\<rparr>, tr_as_of = day 7 1, tr_state = Current,
     tr_from = since, tr_to = None, tr_applied = [], tr_basis = [], tr_conflicts = []\<rparr>"

lemma resolve_open:
  "since \<le> day 7 1 \<Longrightarrow> resolve_temporality sample_env \<lparr>tt_kind = kind, tt_id = i\<rparr> since None [] (day 7 1) =
     Inr (open_resolution kind i since)"
  by (simp add: resolve_temporality_def temporal_conflicts_def inferred_bound_def resolution_new_def resolution_shape_def
      open_resolution_def sorted_set_def closes_after_def guards.simps)

lemma unassessed_values:
  "claim_value sample_env (temporal_set unassessed_travel) (day 7 1) claim_v1 =
     Inr (open_resolution ClaimTarget (cr_revision_id claim_v1) (day 1 1))"
  "claim_value sample_env (temporal_set unassessed_travel) (day 7 1) claim_v2 =
     Inr (open_resolution ClaimTarget (cr_revision_id claim_v2) (day 6 1))"
  "document_value sample_env (temporal_set unassessed_travel) (day 7 1) faq =
     Inr (open_resolution DocumentTarget (dv_id faq) (day 2 1))"
proof -
  have dates: "cr_from claim_v1 = day 1 1" "cr_from claim_v2 = day 6 1" "cr_to claim_v1 = None" "cr_to claim_v2 = None"
    by (simp_all add: claim_v1_def claim_v2_def)
  have ids: "content_id_pattern ''claimrev'' (cr_revision_id claim_v1)" "content_id_pattern ''claimrev'' (cr_revision_id claim_v2)"
    "content_id_pattern ''docv'' (dv_id faq)" by (simp_all add: claim_v1_def claim_v2_def faq_def id_patterns)
  show "claim_value sample_env (temporal_set unassessed_travel) (day 7 1) claim_v1 =
     Inr (open_resolution ClaimTarget (cr_revision_id claim_v1) (day 1 1))"
  "claim_value sample_env (temporal_set unassessed_travel) (day 7 1) claim_v2 =
     Inr (open_resolution ClaimTarget (cr_revision_id claim_v2) (day 6 1))"
  "document_value sample_env (temporal_set unassessed_travel) (day 7 1) faq =
     Inr (open_resolution DocumentTarget (dv_id faq) (day 2 1))"
    by (simp_all add: claim_value_def document_value_def temporal_target_new_def ids dates resolve_open accepted_for_def
        bases_of_def temporal_set_def unassessed_select guards.simps del: One_nat_def)
qed

section \<open>The candidate\<close>

abbreviation v1_id :: string where "v1_id \<equiv> cr_revision_id claim_v1"
abbreviation v2_id :: string where "v2_id \<equiv> cr_revision_id claim_v2"

abbreviation v1_open :: resolution where "v1_open \<equiv> open_resolution ClaimTarget v1_id (day 1 1)"
abbreviation v2_open :: resolution where "v2_open \<equiv> open_resolution ClaimTarget v2_id (day 6 1)"

lemma sample_sha: "sha256_pattern (sha256_json sample_env p)"
  using sample_hash_ok by (simp add: hash_ok_def sha256_json_def)

lemma sample_ids: "content_id_pattern ''claimrev'' v1_id" "content_id_pattern ''claimrev'' v2_id"
  "content_id_pattern ''claim'' (cr_identity_id claim_v1)" "content_id_pattern ''claim'' (cr_identity_id claim_v2)"
  "content_id_pattern ''docv'' (dv_id faq)" "content_id_pattern ''pair'' (cp_id meal_pair)"
  "content_id_pattern ''dep'' (dp_id faq_dependency)"
  by (simp_all add: claim_v1_def claim_v2_def faq_def meal_pair_def faq_dependency_def id_patterns)

definition travel_binding :: "analysis_algorithm \<Rightarrow> string option \<Rightarrow> analysis_binding" where
  "travel_binding alg src =
     (let b = \<lparr>ab_algorithm = alg, ab_aggregate_id = ''travel'', ab_revision = 1,
        ab_aggregate_sha256 = ss_sha256 travel_snapshot, ab_as_of = day 7 1, ab_changed_ids = [v2_id],
        ab_resolutions = [v2_open], ab_mode = Live, ab_source_sha256 = src, ab_input_sha256 = []\<rparr>
      in b\<lparr>ab_input_sha256 := sha256_json sample_env (binding_payload b)\<rparr>)"

lemma travel_binding_fields:
  "ab_algorithm (travel_binding alg src) = alg" "ab_changed_ids (travel_binding alg src) = [v2_id]"
  "ab_resolutions (travel_binding alg src) = [v2_open]" "ab_as_of (travel_binding alg src) = day 7 1"
  "ab_aggregate_id (travel_binding alg src) = ''travel''" "ab_revision (travel_binding alg src) = 1"
  "ab_aggregate_sha256 (travel_binding alg src) = ss_sha256 travel_snapshot"
  "ab_source_sha256 (travel_binding alg src) = src" "ab_mode (travel_binding alg src) = Live"
  by (simp_all add: travel_binding_def Let_def)

lemma travel_mode: "mode_of [v2_open] = Live"
  by (simp add: mode_of_def open_resolution_def)

lemma snapshot_sha: "sha256_pattern (ss_sha256 travel_snapshot)"
  by (simp add: travel_snapshot_def sample_sha)

lemma travel_binding_new:
  assumes "(alg = RelationshipCandidatesV1) = (src = None)" "\<forall>s. src = Some s \<longrightarrow> sha256_pattern s"
  shows "binding_new sample_env (travel_binding alg src) = Inr (travel_binding alg src)"
proof -
  have "ab_input_sha256 (travel_binding alg src) = sha256_json sample_env (binding_payload (travel_binding alg src))"
    by (simp add: travel_binding_def Let_def binding_payload_def binding_fields_def)
  moreover have "case src of None \<Rightarrow> True | Some s \<Rightarrow> sha256_pattern s" using assms(2) by (cases src) simp_all
  ultimately show ?thesis
    using assms(1) snapshot_sha
    by (simp add: binding_new_def rbind_Inr_iff travel_binding_fields changed_ids_limit_def MAX_CHANGED_ROOTS_V1_def
        sorted_set_def travel_mode sample_sha) (simp add: bound_to_def open_resolution_def)
qed

lemma travel_binding_create:
  assumes "(alg = RelationshipCandidatesV1) = (src = None)" "\<forall>s. src = Some s \<longrightarrow> sha256_pattern s"
  shows "binding_create sample_env alg ''travel'' 1 (ss_sha256 travel_snapshot) (day 7 1) [v2_id] [v2_open] src =
    Inr (travel_binding alg src)"
proof -
  have "binding_create sample_env alg ''travel'' 1 (ss_sha256 travel_snapshot) (day 7 1) [v2_id] [v2_open] src =
    binding_new sample_env (travel_binding alg src)"
    by (simp add: binding_create_def travel_binding_def Let_def travel_mode)
  with travel_binding_new [OF assms] show ?thesis by simp
qed

lemma travel_pair: "claim_pair_create sample_env claim_v2 claim_v1 = Inr meal_pair"
proof -
  have new: "claim_pair_new sample_env meal_pair = Inr meal_pair" using pair_wf by (simp add: claim_pair_wf_iff)
  then have "meal_pair = \<lparr>cp_id = stable_content_id sample_env ''pair'' (pair_identity_payload v1_id v2_id),
      cp_first = claim_v1, cp_second = claim_v2, cp_shared_scopes = scope_intersection claim_v1 claim_v2\<rparr>"
    by (simp add: claim_pair_new_Inr_iff meal_pair_def)
  with new revision_order show ?thesis by (simp add: claim_pair_create_def guards.simps)
qed

definition travel_score :: candidate_score where
  "travel_score = \<lparr>sc_same_identity = 0, sc_same_family = 1, sc_shared_scopes = 1, sc_overlap = OverlapTrue,
     sc_incumbent_rank = 0\<rparr>"

definition travel_candidate :: candidate where
  "travel_candidate =
     \<lparr>ca_pair_id = cp_id meal_pair, ca_first_id = v1_id, ca_second_id = v2_id, ca_changed_id = v2_id,
      ca_incumbent_id = v1_id, ca_changed_identity = cr_identity_id claim_v2,
      ca_incumbent_identity = cr_identity_id claim_v1, ca_changed_family = ''travel'', ca_incumbent_family = ''travel'',
      ca_shared_scopes = [''meals''], ca_changed_resolution = v2_open, ca_incumbent_resolution = v1_open,
      ca_score = travel_score\<rparr>"

lemma id_lengths:
  "length (digest_text n) = 64" "length v1_id = 73" "length v2_id = 73" "length (cr_identity_id claim_v1) = 70"
  "length (cr_identity_id claim_v2) = 70" "length (cp_id meal_pair) = 69" "length (dv_id faq) = 69"
  "length (dp_id faq_dependency) = 68"
  by (simp_all add: digest_text_def claim_v1_def claim_v2_def meal_pair_def faq_def faq_dependency_def)

lemma isoformat_lengths:
  "length (isoformat (day 7 1)) = 10" "length (isoformat (day 1 1)) = 10" "length (isoformat (day 6 1)) = 10"
  "length (isoformat (day 2 1)) = 10"
  by (simp_all add: isoformat_def day_def pad_def show_nat.simps)

lemma open_resolution_bound:
  "length (isoformat since) = 10 \<Longrightarrow>
     json_bound (resolution_json (open_resolution kind i since)) \<le> 1500 + 6 * length i"
  by (cases kind) (simp_all add: resolution_json_def open_resolution_def opt_json_def date_json_def isoformat_lengths
      temporal_state_value_def temporal_target_json_def target_kind_value_def)

lemma candidate_bound: "700 + int (json_bound (candidate_json travel_candidate)) \<le> 16384"
proof -
  have "length (isoformat (day 1 1)) = 10" "length (isoformat (day 6 1)) = 10" by (simp_all add: isoformat_lengths)
  note bounds = open_resolution_bound [OF this(1), of ClaimTarget v1_id] open_resolution_bound [OF this(2), of ClaimTarget v2_id]
  have "length (show_int 0) = 1" "length (show_int 1) = 1" by (simp_all add: show_int_def show_nat.simps)
  then show ?thesis
    using bounds
    by (simp add: candidate_json_def travel_candidate_def score_json_def travel_score_def overlap_value_def id_lengths)
qed

lemma travel_score_new: "score_new travel_score = Inr travel_score"
  by (simp add: score_new_def travel_score_def rbind_Inr_iff)

lemma travel_candidate_new: "candidate_new sample_env travel_candidate = Inr travel_candidate"
proof -
  have pair: "stable_content_id sample_env ''pair'' (pair_identity_payload v1_id v2_id) = cp_id meal_pair"
    by (rule edge_ids(1))
  have id: "cr_identity_id claim_v2 \<noteq> cr_identity_id claim_v1" by (simp add: claim_v1_def claim_v2_def env_simps)
  have overlap: "intervals_overlap v2_open v1_open = OverlapTrue"
    by (simp add: intervals_overlap_def open_resolution_def some_dates_def)
  have rank: "temporal_rank (tr_state v1_open) = 0" by (simp add: temporal_rank_def open_resolution_def)
  have bound: "bound_to ClaimTarget i (open_resolution ClaimTarget i s)" "tr_as_of (open_resolution k i s) = day 7 1" for k i s
    by (simp_all add: bound_to_def open_resolution_def)
  show ?thesis
    using pair id revision_order charge_within [OF candidate_bound]
    by (simp add: candidate_new_def rbind_Inr_iff travel_candidate_def sample_ids travel_score_def overlap rank bound
        sorted_set_def insert_commute of_bool_int_def MAX_RELATIONSHIP_CANDIDATE_BYTES_V1_def)
qed

section \<open>The candidate set\<close>

definition travel_candidates :: candidate_set where
  "travel_candidates = \<lparr>ks_binding = travel_binding RelationshipCandidatesV1 None, ks_candidates = [travel_candidate],
     ks_sha256 = sha256_json sample_env
       (candidate_set_payload (travel_binding RelationshipCandidatesV1 None) [travel_candidate])\<rparr>"

lemma sha_length: "length (sha256_json sample_env p) = 64"
  by (simp add: sha256_json_def id_lengths)

lemma show_int_lengths: "length (show_int 0) = 1" "length (show_int 1) = 1" "length (show_int 2) = 1"
  by (simp_all add: show_int_def show_nat.simps)

lemma travel_binding_bound: "src = None \<or> src = Some (sha256_json sample_env p) \<Longrightarrow>
    json_bound (binding_json (travel_binding alg src)) \<le> 8000"
proof -
  assume src: "src = None \<or> src = Some (sha256_json sample_env p)"
  have "length (isoformat (day 6 1)) = 10" by (simp add: isoformat_lengths)
  note open_resolution_bound [OF this, of ClaimTarget v2_id]
  then show ?thesis
    using src
    by (cases alg) (auto simp: binding_json_def binding_fields_def travel_binding_def Let_def algorithm_value_def
        mode_value_def date_json_def opt_json_def isoformat_lengths show_int_lengths id_lengths sha_length
        travel_snapshot_def)
qed

lemma travel_set_bound:
  "int (json_bound (candidate_set_payload (travel_binding RelationshipCandidatesV1 None) [travel_candidate])) \<le> 2359296"
  using candidate_bound travel_binding_bound [of None "JNull" RelationshipCandidatesV1]
  by (simp add: candidate_set_payload_def show_int_lengths)

lemma travel_budgets:
  "candidate_budgets sample_env [travel_candidate] = Inr ()"
  "set_payload_budget sample_env (candidate_set_payload (travel_binding RelationshipCandidatesV1 None) [travel_candidate]) = Inr ()"
proof -
  note charge = charge_within [OF candidate_bound]
  show "candidate_budgets sample_env [travel_candidate] = Inr ()"
    using charge by (simp add: candidate_budgets_def rbind_Inr_iff Let_def MAX_RELATIONSHIP_CANDIDATES_V1_def
        MAX_RELATIONSHIP_CANDIDATE_BYTES_V1_def MAX_TOTAL_RELATIONSHIP_CANDIDATE_BYTES_V1_def)
  show "set_payload_budget sample_env (candidate_set_payload (travel_binding RelationshipCandidatesV1 None) [travel_candidate]) = Inr ()"
    using within [OF travel_set_bound] by (simp add: set_payload_budget_def MAX_CANDIDATE_SET_PAYLOAD_BYTES_V1_def)
qed

lemma travel_integrity: "candidate_set_integrity sample_env travel_candidates = Inr travel_candidates"
  by (simp add: candidate_set_integrity_def travel_candidates_def travel_binding_fields rbind_Inr_iff travel_budgets Let_def)
    (simp add: travel_candidate_def open_resolution_def)

lemma travel_candidates_new: "candidate_set_new sample_env travel_candidates = Inr travel_candidates"
  using travel_integrity
  by (simp add: candidate_set_new_def set_prefix_budgets_def rbind_Inr_iff travel_candidates_def travel_budgets sample_sha)

lemma travel_candidates_create:
  "candidate_set_create sample_env (travel_binding RelationshipCandidatesV1 None) [travel_candidate] = Inr travel_candidates"
  using travel_candidates_new
  by (simp add: candidate_set_create_def travel_budgets travel_candidates_def Let_def)

section \<open>The generation\<close>

lemma resolve_claims_of:
  assumes "float_ok E" and "list_all2 (\<lambda>r x. claim_value E v as_of r = Inr x) rs xs" and "context_inv E v as_of ctx"
  shows "\<exists>ctx'. resolve_claims E rs ctx = (Inr xs, ctx') \<and> context_inv E v as_of ctx'"
  using assms(2,3)
proof (induction arbitrary: ctx rule: list_all2_induct)
  case (Cons r rs x xs)
  obtain y ctx1 where one: "context_resolve_claim E r ctx = (y, ctx1)" by force
  then have "y = Inr x" "context_inv E v as_of ctx1"
    using context_resolve_claim_inv [OF assms(1) Cons.prems, of r] Cons.hyps(1) by simp_all
  with one Cons.IH [of ctx1] show ?case by force
qed simp

abbreviation travel_context :: "resolution_context \<Rightarrow> bool" where
  "travel_context \<equiv> context_inv sample_env (temporal_set unassessed_travel) (day 7 1)"

lemma travel_changed_roots: "changed_roots unassessed_travel [v2_id] = Inr [claim_v2]"
  using revision_order
  by (simp add: changed_roots_def rbind_Inr_iff MAX_CHANGED_ROOTS_V1_def sorted_set_def unassessed_select dict_get_def
      lookup_key_def)

lemma travel_validate_roots:
  assumes "travel_context ctx"
  shows "\<exists>ctx'. validate_changed_roots sample_env unassessed_travel [v2_id] ctx = (Inr ([claim_v2], [v2_open]), ctx') \<and>
    travel_context ctx'"
proof -
  have "list_all2 (\<lambda>r x. claim_value sample_env (temporal_set unassessed_travel) (day 7 1) r = Inr x) [claim_v2] [v2_open]"
    by (simp add: unassessed_values)
  from resolve_claims_of [OF sample_float_ok this assms] obtain ctx' where
    "resolve_claims sample_env [claim_v2] ctx = (Inr [v2_open], ctx')" "travel_context ctx'" by blast
  then show ?thesis
    by (auto simp: validate_changed_roots_def travel_changed_roots rbind_Inr_iff simp del: resolve_claims.simps)
      (simp_all add: open_resolution_def)
qed

lemma travel_cross: "cross_pairs [claim_v2] [claim_v1, claim_v2] [v2_id] = [(claim_v2, claim_v1)]"
  using revision_order by (auto simp: cross_pairs_def)

lemma travel_candidate_for:
  "candidate_for sample_env [(v1_id, v1_open), (v2_id, v2_open)] [(v2_id, v2_open)] claim_v2 claim_v1 meal_pair =
    Inr travel_candidate"
proof -
  have id: "cr_identity_id claim_v2 \<noteq> cr_identity_id claim_v1" by (simp add: claim_v1_def claim_v2_def env_simps)
  have score: "\<lparr>sc_same_identity = of_bool_int (cr_identity_id claim_v2 = cr_identity_id claim_v1),
      sc_same_family = of_bool_int (dv_family (cr_document claim_v2) = dv_family (cr_document claim_v1)),
      sc_shared_scopes = int (length (cp_shared_scopes meal_pair)), sc_overlap = intervals_overlap v2_open v1_open,
      sc_incumbent_rank = temporal_rank (tr_state v1_open)\<rparr> = travel_score"
    using id by (simp add: travel_score_def of_bool_int_def travel_bindings policy_v1_def policy_v2_def meal_pair_def
        intervals_overlap_def open_resolution_def some_dates_def temporal_rank_def)
  have at: "resolution_at [(v1_id, v1_open), (v2_id, v2_open)] v2_id = Inr v2_open"
    "resolution_at [(v1_id, v1_open), (v2_id, v2_open)] v1_id = Inr v1_open"
    "resolution_at [(v2_id, v2_open)] v2_id = Inr v2_open"
    using revision_order by (auto simp: resolution_at_def)
  have fields: "cp_shared_scopes meal_pair = [''meals'']" "dv_family (cr_document claim_v1) = ''travel''"
    "dv_family (cr_document claim_v2) = ''travel''"
    by (simp_all add: meal_pair_def travel_bindings policy_v1_def policy_v2_def)
  show ?thesis
    unfolding candidate_for_def at rbind_simps unfolding score travel_score_new rbind_simps
    unfolding fields travel_bindings(4,5) using travel_candidate_new by (simp add: travel_candidate_def)
qed

lemma travel_generate:
  assumes "travel_context ctx"
  shows "\<exists>ctx'. generate_from sample_env travel_snapshot unassessed_travel [v2_id] ctx = (Inr travel_candidates, ctx') \<and>
    travel_context ctx'"
proof -
  obtain ctx1 where r: "validate_changed_roots sample_env unassessed_travel [v2_id] ctx = (Inr ([claim_v2], [v2_open]), ctx1)"
    and inv1: "travel_context ctx1" using travel_validate_roots [OF assms] by blast
  have "list_all2 (\<lambda>r x. claim_value sample_env (temporal_set unassessed_travel) (day 7 1) r = Inr x)
      [claim_v1, claim_v2] [v1_open, v2_open]" by (simp add: unassessed_values)
  from resolve_claims_of [OF sample_float_ok this inv1] obtain ctx2 where
    all: "resolve_claims sample_env [claim_v1, claim_v2] ctx1 = (Inr [v1_open, v2_open], ctx2)" "travel_context ctx2" by blast
  have as_of: "rc_as_of ctx1 = day 7 1" using inv1 by (simp add: context_inv_def)
  have snap: "ss_revision travel_snapshot = 1" by (simp add: travel_snapshot_def)
  have charge: "projection_charge sample_env (candidate_json travel_candidate) \<le> 2097152"
    using charge_within [OF candidate_bound] by simp
  have "build_candidates sample_env [(v1_id, v1_open), (v2_id, v2_open)] [(v2_id, v2_open)] [] 0
      [(claim_v2, claim_v1)] = Inr [travel_candidate]"
    using charge by (simp add: travel_pair travel_candidate_for Let_def rbind_Inr_iff
        MAX_TOTAL_RELATIONSHIP_CANDIDATE_BYTES_V1_def)
  moreover have "count_emittable sample_env [] 0 [(claim_v2, claim_v1)] = Inr ()"
    by (simp add: travel_pair rbind_Inr_iff MAX_RELATIONSHIP_CANDIDATES_V1_def)
  moreover have "binding_create sample_env RelationshipCandidatesV1 ''travel'' 1 (ss_sha256 travel_snapshot) (day 7 1)
      [v2_id] [v2_open] None = Inr (travel_binding RelationshipCandidatesV1 None)"
    by (rule travel_binding_create) simp_all
  ultimately show ?thesis
    using all travel_candidates_create
    by (simp add: generate_from_def r as_of snap unassessed_select travel_cross Let_def
        del: resolve_claims.simps build_candidates.simps count_emittable.simps)
qed

lemma faq_bounds:
  "int (json_bound (document_span_json faq_span)) \<le> 16384"
  "700 + int (json_bound (dependency_step_payload faq_dependency)) \<le> 131072"
proof -
  have "length (show_int 10) = 2" "length (show_int 16) = 2" by (simp_all add: show_int_def show_nat.simps)
  then show span: "int (json_bound (document_span_json faq_span)) \<le> 16384"
    by (simp add: document_span_json_def faq_span_def id_lengths)
  then show "700 + int (json_bound (dependency_step_payload faq_dependency)) \<le> 131072"
    by (simp add: dependency_step_payload_def travel_bindings id_lengths)
      (simp add: faq_dependency_def dependency_kind_value_def)
qed

lemma travel_validate_snapshot: "validate_snapshot sample_env travel_snapshot = Inr unassessed_travel"
proof -
  have spans: "span_limits sample_env [faq_span] = Inr ()"
    using within [OF faq_bounds(1)] by (simp add: rbind_Inr_iff MAX_SPAN_CANONICAL_BYTES_V1_def)
  have "dependency_budgets sample_env 0 [faq_dependency] = Inr ()"
    using charge_within [OF faq_bounds(2)] spans
    by (simp add: rbind_Inr_iff Let_def travel_bindings MAX_SPANS_PER_DEPENDENCY_V1_def MAX_DEPENDENCY_PROJECTION_BYTES_V1_def
        MAX_TOTAL_UNIQUE_DEPENDENCY_PROJECTION_BYTES_V1_def del: span_limits.simps)
  moreover have "aggregate_revalidate sample_env unassessed_travel = Inr unassessed_travel"
    using unassessed_wf by (simp add: aggregate_wf_def)
  moreover have "fact_limits unassessed_travel = Inr ()"
    by (simp add: fact_limits_def unassessed_select rbind_Inr_iff MAX_RELATION_FACTS_V1_def MAX_DEPENDENCY_FACTS_V1_def)
  ultimately show ?thesis
    by (simp add: validate_snapshot_def travel_snapshot_def unassessed_select aggregate_sha256_def rbind_Inr_iff
        del: dependency_budgets.simps)
qed

lemma travel_context_new: "\<exists>ctx. context_from_aggregate sample_env unassessed_travel (day 7 1) = Inr ctx \<and> travel_context ctx"
proof -
  obtain ctx where ctx: "context_new sample_env (temporal_set unassessed_travel) (day 7 1) = Inr ctx"
    using unassessed_set by (simp add: context_new_def)
  from context_new_inv [OF this] unassessed_set have "travel_context ctx" by auto
  with ctx show ?thesis by (simp add: context_from_aggregate_def temporal_set_def)
qed

lemma travel_generated:
  "generate_relationship_candidates sample_env travel_snapshot [v2_id] (day 7 1) = Inr travel_candidates"
proof -
  obtain ctx where "context_from_aggregate sample_env unassessed_travel (day 7 1) = Inr ctx" "travel_context ctx"
    using travel_context_new by blast
  with travel_generate [of ctx] show ?thesis
    by (auto simp: generate_relationship_candidates_def travel_validate_snapshot)
qed

lemma candidates_exact_witness:
  "generate_relationship_candidates sample_env travel_snapshot [v2_id] (day 7 1) = Inr travel_candidates \<and>
   (\<exists>!k. k \<in> set (ks_candidates travel_candidates) \<and> roles k = (v2_id, v1_id)) \<and>
   candidate_set_revalidate sample_env travel_candidates = Inr travel_candidates"
proof -
  have snap: "ss_aggregate travel_snapshot = unassessed_travel" by (simp add: travel_snapshot_def)
  have none: "\<not> pair_assessed unassessed_travel v2_id v1_id" "\<not> pair_collision sample_env unassessed_travel v2_id v1_id"
    by (simp_all add: pair_assessed_def pair_collision_def unassessed_select)
  have mem: "claim_v2 \<in> set (ag_claims unassessed_travel)" "claim_v1 \<in> set (ag_claims unassessed_travel)"
    "v2_id \<in> set [v2_id]" "v1_id \<notin> set [v2_id]"
    using revision_order by (auto simp: unassessed_select)
  note exact = candidates_exact [OF sample_float_ok unassessed_wf snap travel_generated]
  from exact mem none have "\<exists>!k. k \<in> set (ks_candidates travel_candidates) \<and> roles k = (v2_id, v1_id)" by blast
  with exact travel_generated show ?thesis by blast
qed

section \<open>The path to the FAQ\<close>

abbreviation faq_open :: resolution where "faq_open \<equiv> open_resolution DocumentTarget (dv_id faq) (day 2 1)"

abbreviation faq_step :: dependency_step where "faq_step \<equiv> dependency_to_step faq_dependency"

definition travel_path :: attention_path where
  "travel_path =
     (let p = \<lparr>ap_id = replicate 64 (CHR ''0''), ap_kind = UnassessedCandidate, ap_rank = 1, ap_changed = v2_id,
        ap_anchor = v1_id, ap_pair = Some (cp_id meal_pair), ap_relations = [], ap_dependencies = [faq_step],
        ap_target = dv_id faq, ap_resolution = faq_open, ap_eligible = True\<rparr>
      in p\<lparr>ap_id := sha256_json sample_env (path_payload p)\<rparr>)"

lemma travel_path_fields:
  "ap_kind travel_path = UnassessedCandidate" "ap_rank travel_path = 1" "ap_changed travel_path = v2_id"
  "ap_anchor travel_path = v1_id" "ap_pair travel_path = Some (cp_id meal_pair)" "ap_relations travel_path = []"
  "ap_dependencies travel_path = [faq_step]" "ap_target travel_path = dv_id faq" "ap_resolution travel_path = faq_open"
  "ap_eligible travel_path"
  by (simp_all add: travel_path_def Let_def)

lemma travel_path_id: "ap_id travel_path = sha256_json sample_env (path_payload travel_path)"
  by (simp add: travel_path_def Let_def path_payload_def path_fields_front_def path_fields_back_def)

lemma faq_step_fields:
  "ds_id faq_step = dp_id faq_dependency" "ds_kind faq_step = Quotes" "ds_upstream faq_step = v1_id"
  "ds_downstream faq_step = dv_id faq" "ds_spans faq_step = [faq_span]" "ds_exposed faq_step = []"
  by (simp_all add: dependency_to_step_def travel_bindings) (simp add: faq_dependency_def)

lemma faq_step_json: "dependency_step_json faq_step = dependency_step_payload faq_dependency"
  by (simp add: dependency_step_json_def dependency_step_payload_def dependency_to_step_def)

lemma faq_step_new: "dependency_step_new sample_env faq_step = Inr faq_step"
proof -
  have spans: "span_limits sample_env [faq_span] = Inr ()"
    using within [OF faq_bounds(1)] by (simp add: rbind_Inr_iff MAX_SPAN_CANONICAL_BYTES_V1_def)
  show ?thesis
    unfolding dependency_step_new_def Let_def faq_step_fields faq_step_json
    using charge_within [OF faq_bounds(2)] spans edge_ids(4)
    by (simp add: rbind_Inr_iff sample_ids MAX_SPANS_PER_DEPENDENCY_V1_def MAX_DEPENDENCY_PROJECTION_BYTES_V1_def
        sorted_set_def travel_bindings del: span_limits.simps)
qed

lemma faq_step_revalidate: "dependency_step_revalidate sample_env faq_step = Inr faq_step"
proof -
  have "document_span_revalidate sample_env faq_span = Inr faq_span" using span_wf by (simp add: document_span_wf_def)
  then have "rmap (document_span_revalidate sample_env) (ds_spans faq_step) = Inr (ds_spans faq_step)"
    by (simp add: faq_step_fields)
  then show ?thesis using faq_step_new by (simp add: dependency_step_revalidate_def)
qed

lemma path_bound: "length (ap_id p) = 64 \<Longrightarrow> ap_kind p = UnassessedCandidate \<Longrightarrow> ap_rank p = 1 \<Longrightarrow> ap_changed p = v2_id \<Longrightarrow>
    ap_anchor p = v1_id \<Longrightarrow> ap_pair p = Some (cp_id meal_pair) \<Longrightarrow> ap_relations p = [] \<Longrightarrow>
    ap_dependencies p = [faq_step] \<Longrightarrow> ap_target p = dv_id faq \<Longrightarrow> ap_resolution p = faq_open \<Longrightarrow>
    700 + json_bound (attention_path_json p) \<le> 150000"
proof -
  assume p: "length (ap_id p) = 64" "ap_kind p = UnassessedCandidate" "ap_rank p = 1" "ap_changed p = v2_id"
    "ap_anchor p = v1_id" "ap_pair p = Some (cp_id meal_pair)" "ap_relations p = []" "ap_dependencies p = [faq_step]"
    "ap_target p = dv_id faq" "ap_resolution p = faq_open"
  have "length (isoformat (day 2 1)) = 10" by (simp add: isoformat_lengths)
  note open_resolution_bound [OF this, of DocumentTarget "dv_id faq"]
  then show ?thesis
    using faq_bounds(2)
    by (simp add: attention_path_json_def path_fields_front_def path_fields_back_def p faq_step_json opt_json_def
        anchor_kind_value_def id_lengths show_int_lengths)
qed

lemma travel_path_bound: "700 + int (json_bound (attention_path_json travel_path)) \<le> 150000"
  using path_bound [of travel_path] by (simp add: travel_path_fields travel_path_id sha_length)

lemma faq_kind: "dp_kind faq_dependency = Quotes"
  by (simp add: faq_dependency_def)

lemma travel_path_new: "attention_path_new sample_env travel_path = Inr travel_path"
proof -
  have kind: "bound_to DocumentTarget (dv_id faq) faq_open" by (simp add: bound_to_def open_resolution_def)
  have "projection_charge sample_env (attention_path_json travel_path) \<le> 262144"
    using charge_within [OF travel_path_bound] by simp
  then show ?thesis
    unfolding attention_path_new_def travel_path_fields
    by (simp add: rbind_Inr_iff sample_ids MAX_RELATION_HOPS_V1_def MAX_DEPENDENCY_DEPTH_V1_def
        MAX_ATTENTION_PATH_BYTES_V1_def faq_step_fields kind travel_path_id
        sample_sha travel_bindings faq_kind travel_path_fields(10))
qed

section \<open>The search\<close>

definition root_start :: anchor where
  "root_start = \<lparr>an_kind = ChangedRoot, an_rank = 0, an_changed = v2_id, an_anchor = v2_id, an_traversal = v2_id,
     an_pair = None, an_relations = []\<rparr>"

definition candidate_start :: anchor where
  "candidate_start = \<lparr>an_kind = UnassessedCandidate, an_rank = 1, an_changed = v2_id, an_anchor = v1_id,
     an_traversal = v1_id, an_pair = Some (cp_id meal_pair), an_relations = []\<rparr>"

lemma no_relations: "canonical_relation_paths start [] = Some (Inr [(start, [])])"
  by (simp add: canonical_relation_paths_def path_loop.simps [of "[]" _ "[start]"] path_loop.simps [of "[]" _ "[]"]
      steps_at_def)

lemma travel_anchors: "anchors_of sample_env unassessed_travel travel_candidates = Some (Inr [root_start, candidate_start])"
proof -
  have adj: "relation_adjacency sample_env [] = Inr []" by (simp add: relation_adjacency_def)
  have anchor: "candidate_is_anchor travel_candidate" by (simp add: candidate_is_anchor_def travel_candidate_def travel_score_def)
  have root: "root_anchors [] [v2_id] [] = Some (Inr [root_anchor v2_id (v2_id, [])])"
    by (simp add: no_relations MAX_ANCHORS_V1_def enforce_limit_def)
  have cand: "candidate_anchors [] 0 [travel_candidate] raw =
      Some (Inr (raw @ [candidate_anchor 0 travel_candidate (v1_id, [])]))" if "length raw = 1" for raw
    using that anchor by (simp add: no_relations MAX_ANCHORS_V1_def enforce_limit_def) (simp add: travel_candidate_def no_relations)
  have "ranked ([root_anchor v2_id (v2_id, [])] @ [candidate_anchor 0 travel_candidate (v1_id, [])]) = [root_start, candidate_start]"
    by (simp add: ranked_def root_anchor_def candidate_anchor_def anchor_kind_rank_def root_start_def candidate_start_def
        travel_candidate_def enumerate_eq_zip)
  then show ?thesis
    using cand [of "[root_anchor v2_id (v2_id, [])]"]
    by (simp add: anchors_of_def unassessed_select adj travel_candidates_def travel_binding_fields root
        del: root_anchors.simps candidate_anchors.simps)
qed

lemma travel_dependencies: "reverse_dependencies sample_env [faq_dependency] = Inr [(v1_id, [faq_step])]"
  by (simp add: reverse_dependencies_def faq_step_revalidate faq_step_fields)

lemma travel_make_path:
  "make_attention_path sample_env candidate_start [faq_step] faq_open 0 =
     Inr (travel_path, projection_charge sample_env (attention_path_json (travel_path\<lparr>ap_id := replicate 64 (CHR ''0'')\<rparr>)))"
proof -
  let ?p = "\<lparr>ap_id = replicate 64 (CHR ''0''), ap_kind = UnassessedCandidate, ap_rank = 1, ap_changed = v2_id,
        ap_anchor = v1_id, ap_pair = Some (cp_id meal_pair), ap_relations = [], ap_dependencies = [faq_step],
        ap_target = dv_id faq, ap_resolution = faq_open, ap_eligible = True\<rparr>"
  have p: "travel_path\<lparr>ap_id := replicate 64 (CHR ''0'')\<rparr> = ?p" by (simp add: travel_path_def Let_def)
  have "700 + int (json_bound (attention_path_json ?p)) \<le> 150000" using path_bound [of ?p] by simp
  then have charge: "projection_charge sample_env (attention_path_json ?p) \<le> 262144"
    using charge_within [of "attention_path_json ?p" 262144] by simp
  have "travel_path = ?p\<lparr>ap_id := sha256_json sample_env (path_payload ?p)\<rparr>" by (simp add: travel_path_def Let_def)
  with charge travel_path_new show ?thesis
    unfolding p make_attention_path_def candidate_start_def
    by (simp add: rbind_Inr_iff Let_def faq_step_fields MAX_ATTENTION_PATH_BYTES_V1_def
        MAX_TOTAL_GENERATED_ATTENTION_PATH_BYTES_V1_def travel_bindings faq_kind)
qed

abbreviation travel_deps :: dependency_adjacency where "travel_deps \<equiv> [(v1_id, [faq_step])]"

lemma travel_record:
  assumes "travel_context ctx"
  shows "\<exists>st. record_path sample_env unassessed_travel candidate_start [faq_step] (first_walk ctx) = Inr st \<and>
    wk_paths st = [(dv_id faq, [(ap_id travel_path, travel_path)])]"
proof -
  have can: "canonical rp_id (vs_replacements (temporal_set unassessed_travel))"
    using validated_set_revalidate_canonical [OF unassessed_set] by simp
  obtain r ctx1 where c: "context_resolve_document sample_env faq ctx = (r, ctx1)" by force
  have r: "r = Inr faq_open"
    using context_resolve_document_inv [OF sample_float_ok assms can, of faq] c unassessed_values(3) by simp
  have doc: "dict_get dv_id [policy_v1, faq, policy_v2] (dv_id faq) = Some faq"
    using faq_ids by (simp add: dict_get_def lookup_key_def)
  obtain st1 where st1: "target_resolution sample_env unassessed_travel (dv_id faq) (first_walk ctx\<lparr>wk_count := 1\<rparr>) =
      Inr (faq_open, st1)" "wk_bytes st1 = 0" "wk_paths st1 = []"
    by (simp add: target_resolution_def first_walk_def unassessed_select doc c r)
  have keep: "keep_path travel_path st = Inr (st\<lparr>wk_paths := [(dv_id faq, [(ap_id travel_path, travel_path)])]\<rparr>)"
    if "wk_paths st = []" for st
    using that by (simp add: keep_path_def paths_at_def travel_path_fields MAX_PATHS_PER_DOCUMENT_V1_def enforce_limit_def)
  have "wk_count (first_walk ctx) = 0" by (simp add: first_walk_def)
  then show ?thesis
    using st1 keep
    by (simp add: record_path_def rbind_Inr_iff faq_step_fields MAX_DEPENDENCY_DEPTH_V1_def
        MAX_TOTAL_GENERATED_PATHS_V1_def travel_make_path enforce_limit_def travel_bindings)
qed

lemma travel_search:
  assumes "travel_context ctx"
  shows "\<exists>st. search_anchors sample_env unassessed_travel travel_deps [root_start, candidate_start] (first_walk ctx) = Inr st \<and>
    wk_paths st = [(dv_id faq, [(ap_id travel_path, travel_path)])]"
proof -
  obtain st where st: "record_path sample_env unassessed_travel candidate_start [faq_step] (first_walk ctx) = Inr st"
    "wk_paths st = [(dv_id faq, [(ap_id travel_path, travel_path)])]" using travel_record [OF assms] by blast
  have none: "dependents_at travel_deps v2_id = []" and one: "dependents_at travel_deps v1_id = [faq_step]"
    using revision_order by (auto simp: dependents_at_def)
  have stop: "fr_queue f = [] \<Longrightarrow> dependency_search E a an deps st f = Inr st" for E a an deps st f
    by (simp add: dependency_search.simps)
  have "dependency_search sample_env unassessed_travel root_start travel_deps (first_walk ctx) (first_frontier root_start) =
      Inr (first_walk ctx)"
    by (subst dependency_search.simps) (simp add: first_frontier_def root_start_def none stop)
  moreover have "dependency_search sample_env unassessed_travel candidate_start travel_deps (first_walk ctx)
      (first_frontier candidate_start) = Inr st"
  proof -
    have t: "an_traversal candidate_start = v1_id" by (simp add: candidate_start_def)
    show ?thesis
      by (subst dependency_search.simps) (simp add: first_frontier_def t one st faq_step_fields stop)
  qed
  ultimately show ?thesis using st(2) by simp
qed

lemma travel_attention_paths:
  assumes "travel_context ctx"
  shows "attention_paths sample_env unassessed_travel travel_candidates ctx = Some (Inr [(dv_id faq, [travel_path])])"
proof -
  obtain st where "search_anchors sample_env unassessed_travel travel_deps [root_start, candidate_start] (first_walk ctx) = Inr st"
    "wk_paths st = [(dv_id faq, [(ap_id travel_path, travel_path)])]" using travel_search [OF assms] by blast
  then show ?thesis
    by (simp add: attention_paths_def unassessed_select travel_dependencies travel_anchors del: search_anchors.simps)
qed

section \<open>The ranking\<close>

definition travel_target :: attention_candidate where
  "travel_target = \<lparr>ac_version = dv_id faq, ac_document = ''faq'', ac_resolution = faq_open,
     ac_score = score_of travel_path [dp_id faq_dependency], ac_support = [dp_id faq_dependency], ac_paths = [travel_path]\<rparr>"

lemma travel_score_of: "score_of travel_path [dp_id faq_dependency] =
    \<lparr>as_kind_rank = 1, as_depth = 1, as_hops = 0, as_bucket = 0, as_anchor_rank = 1, as_support = 1\<rparr>"
  by (simp add: score_of_def travel_path_fields anchor_kind_rank_def dependency_kind_bucket_def faq_kind One_nat_def)

lemma travel_target_bound: "700 + int (json_bound (attention_candidate_json travel_target)) \<le> 200000"
proof -
  have "length (isoformat (day 2 1)) = 10" by (simp add: isoformat_lengths)
  note open_resolution_bound [OF this, of DocumentTarget "dv_id faq"]
  then show ?thesis
    using travel_path_bound
    by (simp add: attention_candidate_json_def travel_target_def attention_score_json_def travel_score_of id_lengths
        show_int_lengths)
qed

lemma travel_eligible: "eligible_paths [travel_path] = [travel_path]" "terminal_ids [travel_path] = [dp_id faq_dependency]"
  "best_path [travel_path] = Some travel_path"
  by (simp_all add: eligible_paths_def terminal_ids_def travel_path_fields sorted_set_def best_path_def)

lemma travel_attention_score: "attention_score_new (score_of travel_path [dp_id faq_dependency]) =
    Inr (score_of travel_path [dp_id faq_dependency])"
  by (simp add: attention_score_new_def travel_score_of rbind_Inr_iff)

lemma travel_record_budget:
  "target_record_budget sample_env (attention_candidate_json travel_target) =
     Inr (projection_charge sample_env (attention_candidate_json travel_target))"
  using charge_within [OF travel_target_bound]
  by (simp add: target_record_budget_def MAX_ATTENTION_TARGET_RECORD_BYTES_V1_def enforce_limit_def Let_def)

lemma travel_target_new: "attention_candidate_new sample_env travel_target = Inr travel_target"
proof -
  have fields: "ac_version travel_target = dv_id faq" "ac_resolution travel_target = faq_open"
    "ac_score travel_target = score_of travel_path [dp_id faq_dependency]" "ac_support travel_target = [dp_id faq_dependency]"
    "ac_paths travel_target = [travel_path]" by (simp_all add: travel_target_def)
  have current: "tr_state faq_open = Current \<and> bound_to DocumentTarget (dv_id faq) faq_open"
    by (simp add: open_resolution_def bound_to_def)
  show ?thesis
    unfolding attention_candidate_new_def Let_def fields travel_eligible option.case
    by (simp add: rbind_Inr_iff sample_ids MAX_PATHS_PER_DOCUMENT_V1_def sorted_set_def paths_canonical_def
        travel_path_fields current travel_attention_score travel_record_budget)
      (simp add: score_of_def)
qed

lemma travel_target_for:
  "target_for sample_env unassessed_travel [dv_id policy_v2] (dv_id faq, [travel_path]) = Inr (Ranked travel_target)"
proof -
  have doc: "dict_get dv_id [policy_v1, faq, policy_v2] (dv_id faq) = Some faq"
    using faq_ids by (simp add: dict_get_def lookup_key_def)
  have state: "tr_state faq_open = Current" by (simp add: open_resolution_def)
  have id: "dv_document_id faq = ''faq''" by (simp add: faq_def)
  show ?thesis
    using faq_ids travel_target_new
    by (simp add: target_for_def unassessed_select doc exclusion_reasons_def travel_path_fields state
        temporal_reason_def travel_eligible travel_attention_score id Let_def) (simp add: travel_target_def)
qed

abbreviation ranking_binding :: analysis_binding where
  "ranking_binding \<equiv> travel_binding DocumentAttentionRankingV1 (Some (ks_sha256 travel_candidates))"

definition travel_ranking :: ranking where
  "travel_ranking = \<lparr>rk_binding = ranking_binding, rk_attention = [travel_target], rk_excluded = [],
     rk_sha256 = sha256_json sample_env (ranking_payload ranking_binding [travel_target] [])\<rparr>"

lemma candidates_sha: "ks_sha256 travel_candidates = sha256_json sample_env
    (candidate_set_payload (travel_binding RelationshipCandidatesV1 None) [travel_candidate])"
  by (simp add: travel_candidates_def)

lemma ranking_bound: "int (json_bound (ranking_payload ranking_binding [travel_target] [])) \<le> 1310720"
  using travel_target_bound travel_binding_bound [of "Some (ks_sha256 travel_candidates)"
      "candidate_set_payload (travel_binding RelationshipCandidatesV1 None) [travel_candidate]" DocumentAttentionRankingV1]
  by (simp add: ranking_payload_def show_int_lengths candidates_sha)

lemma ranking_step_bound: "projection_charge sample_env (dependency_step_json faq_step) \<le> 131072"
  using charge_within [OF faq_bounds(2)] by (simp add: faq_step_json)

lemma travel_ranking_budgets:
  "ranking_budgets sample_env [travel_target] [] = Inr ()"
  "ranking_payload_budget sample_env (ranking_payload ranking_binding [travel_target] []) = Inr ()"
proof -
  have paths: "target_paths [travel_target] [] = [travel_path]" by (simp add: target_paths_def travel_target_def)
  have path: "projection_charge sample_env (attention_path_json travel_path) \<le> 262144"
    using charge_within [OF travel_path_bound] by simp
  have target: "projection_charge sample_env (attention_candidate_json travel_target) \<le> 1179648"
    using charge_within [OF travel_target_bound] by simp
  have "charge_steps sample_env [faq_step] ([], 0) = Inr ([(dp_id faq_dependency, canonical_json_bytes sample_env (dependency_step_json faq_step))],
      projection_charge sample_env (dependency_step_json faq_step))"
    using ranking_step_bound
    by (simp add: Let_def enforce_limit_def MAX_DEPENDENCY_PROJECTION_BYTES_V1_def
        MAX_TOTAL_UNIQUE_DEPENDENCY_PROJECTION_BYTES_V1_def faq_step_fields)
  then have "projection_budgets sample_env [travel_target] [] = Inr ()"
    using path
    by (simp add: projection_budgets_def paths Let_def enforce_limit_def MAX_ATTENTION_PATH_BYTES_V1_def
        MAX_TOTAL_GENERATED_PATHS_V1_def MAX_TOTAL_GENERATED_ATTENTION_PATH_BYTES_V1_def travel_path_fields
        del: charge_steps.simps)
  then show "ranking_budgets sample_env [travel_target] [] = Inr ()"
    using target
    by (simp add: ranking_budgets_def target_jsons_def travel_record_budget enforce_limit_def
        MAX_TOTAL_ATTENTION_TARGET_RECORD_BYTES_V1_def)
  show "ranking_payload_budget sample_env (ranking_payload ranking_binding [travel_target] []) = Inr ()"
    using within [OF ranking_bound] by (simp add: ranking_payload_budget_def MAX_ATTENTION_RANKING_PAYLOAD_BYTES_V1_def)
qed

lemma travel_ranking_create:
  "ranking_create sample_env ranking_binding [travel_target] [] = Inr travel_ranking"
proof -
  have "ranking_integrity sample_env travel_ranking = Inr travel_ranking"
    by (simp add: ranking_integrity_def travel_ranking_def travel_binding_fields rbind_Inr_iff travel_ranking_budgets
        Let_def sorted_set_def)
  then have "ranking_new sample_env travel_ranking = Inr travel_ranking"
    by (simp add: ranking_new_def travel_ranking_def travel_ranking_budgets sample_sha rbind_Inr_iff)
  moreover have "retained_path_count [travel_target] [] = Inr ()"
    by (simp add: retained_path_count_def target_paths_def travel_target_def MAX_TOTAL_GENERATED_PATHS_V1_def One_nat_def)
  ultimately show ?thesis
    by (simp add: ranking_create_def travel_ranking_budgets travel_ranking_def Let_def)
qed

lemma travel_targets:
  "targets_for sample_env unassessed_travel [dv_id policy_v2] 0 [(dv_id faq, [travel_path])] = Inr [Ranked travel_target]"
  using travel_target_for charge_within [OF travel_target_bound]
  by (simp add: target_json_def travel_record_budget enforce_limit_def MAX_TOTAL_ATTENTION_TARGET_RECORD_BYTES_V1_def)

lemma travel_ranked: "rank_document_attention sample_env travel_snapshot travel_candidates = Some (Inr travel_ranking)"
proof -
  obtain ctx0 where ctx0: "context_from_aggregate sample_env unassessed_travel (day 7 1) = Inr ctx0" "travel_context ctx0"
    using travel_context_new by blast
  obtain ctx1 where ctx1: "validate_changed_roots sample_env unassessed_travel [v2_id] ctx0 = (Inr ([claim_v2], [v2_open]), ctx1)"
    "travel_context ctx1" using travel_validate_roots [OF ctx0(2)] by blast
  obtain ctx2 where ctx2: "generate_from sample_env travel_snapshot unassessed_travel [v2_id] ctx1 = (Inr travel_candidates, ctx2)"
    "travel_context ctx2" using travel_generate [OF ctx1(2)] by blast
  have binding: "ks_binding travel_candidates = travel_binding RelationshipCandidatesV1 None"
    "ks_candidates travel_candidates = [travel_candidate]" by (simp_all add: travel_candidates_def)
  have snap: "ss_revision travel_snapshot = 1" by (simp add: travel_snapshot_def)
  have "resolution_revalidate sample_env v2_open = Inr v2_open" "resolution_revalidate sample_env v1_open = Inr v1_open"
    using claim_value_ok [OF unassessed_values(1)] claim_value_ok [OF unassessed_values(2)] by simp_all
  then have "candidate_set_revalidate sample_env travel_candidates = Inr travel_candidates"
    using travel_candidates_new travel_binding_new [of RelationshipCandidatesV1 None] travel_candidate_new travel_score_new
    by (intro candidate_set_revalidate_ok binding_revalidate_ok)
      (simp_all add: binding travel_binding_fields candidate_revalidate_def travel_candidate_def)
  moreover have "binding_create sample_env DocumentAttentionRankingV1 ''travel'' 1 (ss_sha256 travel_snapshot) (day 7 1)
      [v2_id] [v2_open] (Some (ks_sha256 travel_candidates)) = Inr ranking_binding"
    by (rule travel_binding_create) (simp_all add: candidates_sha sample_sha)
  moreover have "claim_document_id unassessed_travel v2_id = Inr (dv_id policy_v2)"
    using less_imp_neq [OF revision_order]
    by (simp add: claim_document_id_def claim_registry_get_def registry_get_def lookup_key_def unassessed_select travel_bindings)
  moreover have "ranked_targets [Ranked travel_target] = [travel_target]" "excluded_targets [Ranked travel_target] = []"
    by (simp_all add: ranked_targets_def excluded_targets_def)
  ultimately show ?thesis
    using ctx0 ctx1(1) ctx2 travel_attention_paths [OF ctx2(2)] travel_targets travel_ranking_create
    by (simp add: rank_document_attention_def travel_validate_snapshot travel_budgets binding travel_binding_fields
        snap unassessed_select rank_validated_def Let_def requires_def guards.simps del: targets_for.simps)
qed

lemma attention_exact_witness:
  "rank_document_attention sample_env travel_snapshot travel_candidates = Some (Inr travel_ranking) \<and>
   impacted_documents unassessed_travel (search_starts travel_candidates) = {dv_id faq} \<and>
   ranked_correct sample_env unassessed_travel (day 7 1) [v2_id] (search_starts travel_candidates) travel_target"
proof -
  have snap: "ss_aggregate travel_snapshot = unassessed_travel" by (simp add: travel_snapshot_def)
  note exact = attention_exact [OF sample_float_ok unassessed_wf snap travel_ranked]
  have "ac_version ` set (rk_attention travel_ranking) \<union> xt_version ` set (rk_excluded travel_ranking) = {dv_id faq}"
    by (simp add: travel_ranking_def travel_target_def)
  with exact have "impacted_documents unassessed_travel (search_starts travel_candidates) = {dv_id faq}" by simp
  moreover have "ranked_correct sample_env unassessed_travel (day 7 1) [v2_id] (search_starts travel_candidates) travel_target"
    using exact by (simp add: travel_ranking_def travel_candidates_def travel_binding_fields)
  ultimately show ?thesis using travel_ranked by blast
qed

end
