(* ===== verification/UnifiedDiff.thy ===== *)
theory UnifiedDiff
  imports Frontmatter
begin

text \<open>
  The unified-diff patcher of \<open>review/apply.py\<close>: \<open>_HUNK_RE\<close> and \<open>apply_unified_diff\<close>.  The code is one
  pass over the lines of the diff with a position in the original, an output list and the two counters
  of the open hunk.  The specification is an edit script: hunks of kept, dropped and added lines, each
  after a gap of untouched lines.  The main theorem says that the pass succeeds exactly when the diff
  reads as a script whose old side is the original, and that it returns the new side.
\<close>

section \<open>The exceptions of the review package\<close>

text \<open>
  The exceptions that leave \<open>queue.py\<close>, \<open>apply.py\<close> and \<open>paths.py\<close>.  A message keeps its fixed text;
  the values that an f-string quotes with \<open>!r\<close> are left out.  \<open>InvalidItem\<close> is the \<open>ValidationError\<close> of
  Pydantic, \<open>NoteError\<close> an exception of the frontmatter functions, \<open>OsError\<close> any \<open>OSError\<close>.
\<close>

datatype review_error =
    UsageError string
  | PatchError string
  | PathBoundaryError string
  | OsError string
  | PyUnicodeError
  | NoteError frontmatter_error
  | InvalidItem
  | PyTypeError

section \<open>The code\<close>

text \<open>The groups of \<open>_HUNK_RE\<close>: digits, an optional comma and count, and the fixed parts between.\<close>

definition drop_prefix :: "string \<Rightarrow> string \<Rightarrow> string option" where
  "drop_prefix p s = (if take (length p) s = p then Some (drop (length p) s) else None)"

definition digits_at :: "string \<Rightarrow> (nat \<times> string) option" where
  "digits_at s =
     (let ds = takeWhile digit_char s
      in if ds = [] then None else Some (read_nat ds, dropWhile digit_char s))"

text \<open>\<open>(?:,(?P<count>\d+))?\<close> followed by \<open>or "1"\<close>: a comma without digits matches nothing.\<close>

definition count_at :: "string \<Rightarrow> nat \<times> string" where
  "count_at s = (case drop_prefix '','' s of
     None \<Rightarrow> (1, s)
   | Some r \<Rightarrow> (case digits_at r of None \<Rightarrow> (1, s) | Some (n, r') \<Rightarrow> (n, r')))"

text \<open>The start and the two counts that the function uses; the start of the new side is matched and ignored.\<close>

definition hunk_header :: "string \<Rightarrow> (nat \<times> nat \<times> nat) option" where
  "hunk_header raw =
     (case drop_prefix ''@@ -'' raw of None \<Rightarrow> None | Some r1 \<Rightarrow>
      (case digits_at r1 of None \<Rightarrow> None | Some (old_start, r2) \<Rightarrow>
       (case count_at r2 of (old_count, r3) \<Rightarrow>
        (case drop_prefix '' +'' r3 of None \<Rightarrow> None | Some r4 \<Rightarrow>
         (case digits_at r4 of None \<Rightarrow> None | Some (_, r5) \<Rightarrow>
          (case count_at r5 of (new_count, r6) \<Rightarrow>
           (case drop_prefix '' @@'' r6 of None \<Rightarrow> None
            | Some _ \<Rightarrow> Some (old_start, old_count, new_count))))))))"

record patch_state =
  pt_pos :: nat
  pt_out :: "string list"
  pt_old :: int
  pt_new :: int

definition consume :: "string list \<Rightarrow> string \<Rightarrow> patch_state \<Rightarrow> review_error + patch_state" where
  "consume orig expected s =
     (if pt_pos s \<ge> length orig \<or> orig ! pt_pos s \<noteq> expected
      then Inl (PatchError ''hunk mismatch'')
      else Inr (s\<lparr>pt_pos := pt_pos s + 1\<rparr>))"

text \<open>The part of the loop body inside a hunk.\<close>

definition hunk_line :: "string list \<Rightarrow> string \<Rightarrow> patch_state \<Rightarrow> review_error + patch_state" where
  "hunk_line orig raw s =
     rbind
       (if take 1 raw = ''+'' then Inr (s\<lparr>pt_out := pt_out s @ [drop 1 raw], pt_new := pt_new s - 1\<rparr>)
        else if take 1 raw = ''-'' then
          rbind (consume orig (drop 1 raw) s) (\<lambda>s. Inr (s\<lparr>pt_old := pt_old s - 1\<rparr>))
        else if take 1 raw = '' '' \<or> raw = [] then
          (let expected = drop 1 raw
           in rbind (consume orig expected s)
             (\<lambda>s. Inr (s\<lparr>pt_out := pt_out s @ [expected], pt_old := pt_old s - 1, pt_new := pt_new s - 1\<rparr>)))
        else Inl (PatchError ''unexpected line inside hunk''))
       (\<lambda>s. if pt_old s < 0 \<or> pt_new s < 0
            then Inl (PatchError ''hunk contains more lines than its header declares'') else Inr s)"

definition patch_line :: "string list \<Rightarrow> string \<Rightarrow> patch_state \<Rightarrow> review_error + patch_state" where
  "patch_line orig raw s =
     (case hunk_header raw of
        Some (old_start, old_count, new_count) \<Rightarrow>
          if pt_old s \<noteq> 0 \<or> pt_new s \<noteq> 0
          then Inl (PatchError ''new hunk begins before the previous one is complete'')
          else
            (let start = (if old_count = 0 then int old_start else int old_start - 1)
             in if start < int (pt_pos s) \<or> start > int (length orig)
                then Inl (PatchError ''hunk out of order or beyond EOF'')
                else Inr \<lparr>pt_pos = nat start,
                       pt_out = pt_out s @ take (nat start - pt_pos s) (drop (pt_pos s) orig),
                       pt_old = int old_count, pt_new = int new_count\<rparr>)
      | None \<Rightarrow>
          if pt_old s = 0 \<and> pt_new s = 0 then Inr s
          else if take 1 raw = [backslash] then Inr s
          else hunk_line orig raw s)"

fun patch_lines :: "string list \<Rightarrow> string list \<Rightarrow> patch_state \<Rightarrow> review_error + patch_state" where
  "patch_lines orig [] s = Inr s"
| "patch_lines orig (raw # ls) s = rbind (patch_line orig raw s) (patch_lines orig ls)"

definition apply_unified_diff :: "string \<Rightarrow> string \<Rightarrow> review_error + string" where
  "apply_unified_diff original diff_text =
     (let orig = split_on nl original
      in rbind (patch_lines orig (split_on nl diff_text) \<lparr>pt_pos = 0, pt_out = [], pt_old = 0, pt_new = 0\<rparr>)
        (\<lambda>s. if pt_old s \<noteq> 0 \<or> pt_new s \<noteq> 0
             then Inl (PatchError ''diff ended mid-hunk: fewer lines than the hunk header declares'')
             else Inr (join [nl] (pt_out s @ drop (pt_pos s) orig))))"

section \<open>Edit scripts\<close>

datatype edit = Keep string | Drop string | Add string

fun old_lines :: "edit list \<Rightarrow> string list" where
  "old_lines [] = []"
| "old_lines (Keep l # es) = l # old_lines es"
| "old_lines (Drop l # es) = l # old_lines es"
| "old_lines (Add l # es) = old_lines es"

fun new_lines :: "edit list \<Rightarrow> string list" where
  "new_lines [] = []"
| "new_lines (Keep l # es) = l # new_lines es"
| "new_lines (Drop l # es) = new_lines es"
| "new_lines (Add l # es) = l # new_lines es"

type_synonym script = "(string list \<times> edit list) list"

definition old_side :: "script \<Rightarrow> string list" where
  "old_side s = concat (map (\<lambda>(gap, es). gap @ old_lines es) s)"

definition new_side :: "script \<Rightarrow> string list" where
  "new_side s = concat (map (\<lambda>(gap, es). gap @ new_lines es) s)"

lemma side_simps [simp]:
  "old_side [] = []" "new_side [] = []"
  "old_side ((gap, es) # s) = gap @ old_lines es @ old_side s"
  "new_side ((gap, es) # s) = gap @ new_lines es @ new_side s"
  by (simp_all add: old_side_def new_side_def)

text \<open>The line of a diff that stands for an edit.\<close>

definition read_edit :: "string \<Rightarrow> edit option" where
  "read_edit raw =
     (if take 1 raw = ''+'' then Some (Add (drop 1 raw))
      else if take 1 raw = ''-'' then Some (Drop (drop 1 raw))
      else if take 1 raw = '' '' \<or> raw = [] then Some (Keep (drop 1 raw))
      else None)"

definition no_newline_mark :: "string \<Rightarrow> bool" where
  "no_newline_mark raw \<longleftrightarrow> take 1 raw = [backslash]"

definition body_reads :: "string list \<Rightarrow> edit list \<Rightarrow> bool" where
  "body_reads body es \<longleftrightarrow> map read_edit (filter (\<lambda>l. \<not> no_newline_mark l) body) = map Some es"

text \<open>
  \<open>diff_reads pos ls s\<close>: the lines of a diff read as the script \<open>s\<close> from line \<open>pos\<close> of the original on.
  Lines between hunks that are no hunk header are noise.
\<close>

inductive diff_reads :: "nat \<Rightarrow> string list \<Rightarrow> script \<Rightarrow> bool" where
  reads_end: "diff_reads pos [] []"
| reads_noise: "hunk_header l = None \<Longrightarrow> diff_reads pos ls s \<Longrightarrow> diff_reads pos (l # ls) s"
| reads_hunk: "hunk_header l = Some (start, length (old_lines es), length (new_lines es)) \<Longrightarrow>
    pos + length gap + (if old_lines es = [] then 0 else 1) = start \<Longrightarrow> body_reads body es \<Longrightarrow>
    diff_reads (pos + length gap + length (old_lines es)) ls s \<Longrightarrow>
    diff_reads pos (l # body @ ls) ((gap, es) # s)"

section \<open>The pass reads a script\<close>

lemma header_no_edit: "hunk_header raw = Some h \<Longrightarrow> read_edit raw = None \<and> \<not> no_newline_mark raw"
  by (cases raw)
    (auto simp: hunk_header_def drop_prefix_def read_edit_def no_newline_mark_def backslash_def
      split: option.splits if_splits)

lemma edit_no_header: "read_edit raw = Some e \<Longrightarrow> hunk_header raw = None"
  using header_no_edit [of raw] by (cases "hunk_header raw") auto

lemma mark_no_header: "no_newline_mark raw \<Longrightarrow> hunk_header raw = None"
  using header_no_edit [of raw] by (cases "hunk_header raw") auto

definition between :: "nat \<Rightarrow> string list \<Rightarrow> patch_state" where
  "between pos out = \<lparr>pt_pos = pos, pt_out = out, pt_old = 0, pt_new = 0\<rparr>"

text \<open>A line of a hunk moves the state along its edit.\<close>

definition after_edit :: "edit \<Rightarrow> patch_state \<Rightarrow> patch_state" where
  "after_edit e s = s\<lparr>pt_pos := pt_pos s + length (old_lines [e]), pt_out := pt_out s @ new_lines [e],
     pt_old := pt_old s - int (length (old_lines [e])), pt_new := pt_new s - int (length (new_lines [e]))\<rparr>"

lemma hunk_line_Inr:
  assumes "pt_old s \<ge> 0" and "pt_new s \<ge> 0"
  shows "hunk_line orig raw s = Inr s' \<longleftrightarrow>
    (\<exists>e rest. read_edit raw = Some e \<and> s' = after_edit e s \<and> drop (pt_pos s) orig = old_lines [e] @ rest \<and>
      int (length (old_lines [e])) \<le> pt_old s \<and> int (length (new_lines [e])) \<le> pt_new s)"
proof -
  have at: "(pt_pos s < length orig \<and> orig ! pt_pos s = x) \<longleftrightarrow> (\<exists>rest. drop (pt_pos s) orig = x # rest)" for x
    by (metis Cons_nth_drop_Suc drop_all leI list.distinct(1) list.inject)
  have c: "consume orig x s = Inr t \<longleftrightarrow> (\<exists>rest. drop (pt_pos s) orig = x # rest) \<and> t = s\<lparr>pt_pos := pt_pos s + 1\<rparr>" for x t
    unfolding at [symmetric] by (auto simp: consume_def)
  consider "take 1 raw = ''+''" | "take 1 raw = ''-''" | "take 1 raw = '' '' \<or> raw = []"
    | "take 1 raw \<noteq> ''+''" "take 1 raw \<noteq> ''-''" "take 1 raw \<noteq> '' ''" "raw \<noteq> []" by blast
  then show ?thesis
  proof cases
    case 1
    then show ?thesis using assms by (auto simp: hunk_line_def read_edit_def after_edit_def)
  next
    case 2
    then show ?thesis using assms
      by (auto simp: hunk_line_def read_edit_def after_edit_def rbind_Inr_iff c)
  next
    case 3
    then show ?thesis using assms
      by (auto simp: hunk_line_def read_edit_def after_edit_def rbind_Inr_iff c Let_def)
  next
    case 4
    then show ?thesis by (simp add: hunk_line_def read_edit_def)
  qed
qed

text \<open>A run that ends with no open hunk.\<close>

definition completes :: "string list \<Rightarrow> string list \<Rightarrow> patch_state \<Rightarrow> patch_state \<Rightarrow> bool" where
  "completes orig ls s s' \<longleftrightarrow> patch_lines orig ls s = Inr s' \<and> pt_old s' = 0 \<and> pt_new s' = 0"

lemma completes_Cons:
  "completes orig (raw # ls) s s' \<longleftrightarrow> (\<exists>t. patch_line orig raw s = Inr t \<and> completes orig ls t s')"
  by (auto simp: completes_def rbind_Inr_iff)

lemma side_Cons:
  "old_lines (e # es) = old_lines [e] @ old_lines es" "new_lines (e # es) = new_lines [e] @ new_lines es"
  by (cases e; simp)+

lemma between_iff: "s = between pos out \<longleftrightarrow> pt_pos s = pos \<and> pt_out s = out \<and> pt_old s = 0 \<and> pt_new s = 0"
  by (cases s) (auto simp: between_def)

lemma between_sel [simp]:
  "pt_pos (between pos out) = pos" "pt_out (between pos out) = out"
  "pt_old (between pos out) = 0" "pt_new (between pos out) = 0"
  by (simp_all add: between_def)

lemma body_reads_Nil [simp]: "body_reads [] es \<longleftrightarrow> es = []"
  by (auto simp: body_reads_def)

lemma body_reads_mark: "no_newline_mark raw \<Longrightarrow> body_reads (raw # body) es \<longleftrightarrow> body_reads body es"
  by (simp add: body_reads_def)

lemma body_reads_Cons:
  "\<not> no_newline_mark raw \<Longrightarrow> body_reads (raw # body) (e # es) \<longleftrightarrow> read_edit raw = Some e \<and> body_reads body es"
  by (simp add: body_reads_def)

lemma body_reads_edit:
  "\<not> no_newline_mark raw \<Longrightarrow> body_reads (raw # body) es \<Longrightarrow>
     \<exists>e es'. es = e # es' \<and> read_edit raw = Some e \<and> body_reads body es'"
  by (cases es) (auto simp: body_reads_def)

lemma mark_stays: "no_newline_mark raw \<Longrightarrow> patch_line orig raw s = Inr s"
  using mark_no_header [of raw] by (simp add: patch_line_def no_newline_mark_def)

definition hunk_of :: "string list \<Rightarrow> patch_state \<Rightarrow> string list \<Rightarrow> edit list \<Rightarrow> bool" where
  "hunk_of orig s body es \<longleftrightarrow> body_reads body es \<and>
     int (length (old_lines es)) = pt_old s \<and> int (length (new_lines es)) = pt_new s \<and>
     (\<exists>tail. drop (pt_pos s) orig = old_lines es @ tail)"

definition hunk_end :: "patch_state \<Rightarrow> edit list \<Rightarrow> patch_state" where
  "hunk_end s es = between (pt_pos s + length (old_lines es)) (pt_out s @ new_lines es)"

lemma hunk_end_Nil: "pt_old s = 0 \<Longrightarrow> pt_new s = 0 \<Longrightarrow> hunk_end s [] = s"
  by (simp add: hunk_end_def between_def)

lemma edit_no_mark: "read_edit raw = Some e \<Longrightarrow> \<not> no_newline_mark raw"
  by (cases raw) (auto simp: read_edit_def no_newline_mark_def backslash_def split: if_splits)

lemma hunk_of_after_edit:
  assumes "drop (pt_pos s) orig = old_lines [e] @ rest" and "read_edit raw = Some e"
  shows "hunk_of orig (after_edit e s) body es \<longleftrightarrow> hunk_of orig s (raw # body) (e # es)"
proof -
  have 1: "drop (pt_pos s + length (old_lines [e])) orig = rest"
    using assms(1) by (metis add.commute append_eq_conv_conj drop_drop)
  have 2: "(\<exists>tail. rest = old_lines es @ tail) \<longleftrightarrow> (\<exists>tail. old_lines [e] @ rest = old_lines (e # es) @ tail)"
    by (simp add: side_Cons(1) [of e es])
  have 3: "length (old_lines (e # es)) = length (old_lines [e]) + length (old_lines es)"
    "length (new_lines (e # es)) = length (new_lines [e]) + length (new_lines es)"
    by (simp_all add: side_Cons [of e es])
  have 4: "body_reads (raw # body) (e # es) \<longleftrightarrow> body_reads body es"
    using assms(2) by (simp add: body_reads_Cons edit_no_mark)
  show ?thesis
    unfolding hunk_of_def 4 3 assms(1) 2 [symmetric]
    by (auto simp: after_edit_def 1)
qed

lemma hunk_end_after_edit: "hunk_end (after_edit e s) es = hunk_end s (e # es)"
  by (simp add: hunk_end_def after_edit_def side_Cons [of e es])

lemma hunk_of_mark: "no_newline_mark raw \<Longrightarrow> hunk_of orig s (raw # body) es \<longleftrightarrow> hunk_of orig s body es"
  by (simp add: hunk_of_def body_reads_mark)

lemma after_edit_nonneg:
  "int (length (old_lines [e])) \<le> pt_old s \<Longrightarrow> int (length (new_lines [e])) \<le> pt_new s \<Longrightarrow>
   pt_old (after_edit e s) \<ge> 0 \<and> pt_new (after_edit e s) \<ge> 0"
  by (simp add: after_edit_def)

text \<open>A run from inside a hunk reads the rest of the hunk and goes on between hunks.\<close>

lemma hunk_run_reads:
  assumes "completes orig ls s s'" and "pt_old s \<ge> 0" and "pt_new s \<ge> 0"
  shows "\<exists>body es rest. ls = body @ rest \<and> hunk_of orig s body es \<and> completes orig rest (hunk_end s es) s'"
  using assms
proof (induction ls arbitrary: s)
  case Nil
  then show ?case
    by (intro exI [of _ "[]"]) (auto simp: completes_def hunk_of_def hunk_end_Nil)
next
  case (Cons raw ls)
  show ?case
  proof (cases "pt_old s = 0 \<and> pt_new s = 0")
    case True
    then have "hunk_of orig s [] []" and "completes orig (raw # ls) (hunk_end s []) s'"
      using Cons.prems(1) by (auto simp: hunk_of_def hunk_end_Nil)
    then show ?thesis using append_Nil [of "raw # ls"] by blast
  next
    case False
    obtain t where t: "patch_line orig raw s = Inr t" "completes orig ls t s'"
      using Cons.prems(1) by (auto simp: completes_Cons)
    have h: "hunk_header raw = None" using t(1) False by (auto simp: patch_line_def split: option.splits if_splits)
    show ?thesis
    proof (cases "no_newline_mark raw")
      case True
      then have "t = s" using t(1) mark_stays by simp
      then obtain body es rest where "ls = body @ rest" "hunk_of orig s body es"
          "completes orig rest (hunk_end s es) s'"
        using Cons.IH [OF t(2)] Cons.prems(2,3) by blast
      then show ?thesis using True by (intro exI [of _ "raw # body"]) (auto simp: hunk_of_mark)
    next
      case nm: False
      have "hunk_line orig raw s = Inr t"
        using t(1) h False nm by (auto simp: patch_line_def no_newline_mark_def split: if_splits)
      then obtain e tl where e: "read_edit raw = Some e" "t = after_edit e s"
          "drop (pt_pos s) orig = old_lines [e] @ tl"
          "int (length (old_lines [e])) \<le> pt_old s" "int (length (new_lines [e])) \<le> pt_new s"
        using Cons.prems(2,3) hunk_line_Inr by blast
      then obtain body es rest where "ls = body @ rest" "hunk_of orig t body es"
          "completes orig rest (hunk_end t es) s'"
        using Cons.IH [OF t(2)] after_edit_nonneg by blast
      then have "raw # ls = (raw # body) @ rest" "hunk_of orig s (raw # body) (e # es)"
          "completes orig rest (hunk_end s (e # es)) s'"
        using e hunk_of_after_edit [OF e(3,1)] by (simp_all add: hunk_end_after_edit)
      then show ?thesis by blast
    qed
  qed
qed

lemma hunk_run_runs:
  assumes "hunk_of orig s body es" and "completes orig rest (hunk_end s es) s'"
  shows "completes orig (body @ rest) s s'"
  using assms
proof (induction body arbitrary: s es)
  case Nil
  then show ?case by (auto simp: hunk_of_def hunk_end_Nil)
next
  case (Cons raw body)
  show ?case
  proof (cases "no_newline_mark raw")
    case True
    then show ?thesis using Cons by (simp add: completes_Cons mark_stays hunk_of_mark)
  next
    case False
    then obtain e es' where e: "es = e # es'" "read_edit raw = Some e"
      using Cons.prems(1) body_reads_edit by (force simp: hunk_of_def)
    obtain tl where tl: "drop (pt_pos s) orig = old_lines [e] @ tl"
      and len: "int (length (old_lines [e])) \<le> pt_old s" "int (length (new_lines [e])) \<le> pt_new s"
      using Cons.prems(1) by (auto simp: hunk_of_def e(1) side_Cons [of e es'])
    have "pt_old s \<ge> 0 \<and> pt_new s \<ge> 0" using len by linarith
    then have hl: "hunk_line orig raw s = Inr (after_edit e s)"
      using hunk_line_Inr e(2) tl len by blast
    have "\<not> (pt_old s = 0 \<and> pt_new s = 0)" using len by (cases e) auto
    then have "patch_line orig raw s = Inr (after_edit e s)"
      using hl edit_no_header [OF e(2)] False by (auto simp: patch_line_def no_newline_mark_def)
    moreover have "completes orig (body @ rest) (after_edit e s) s'"
      using Cons.IH [of "after_edit e s" es'] Cons.prems hunk_of_after_edit [OF tl e(2)]
      by (simp add: e(1) hunk_end_after_edit)
    ultimately show ?thesis by (simp add: completes_Cons)
  qed
qed

section \<open>The whole pass\<close>

lemma header_between:
  assumes "hunk_header raw = Some (start, o_n, n_n)" and "pos \<le> length orig"
  shows "patch_line orig raw (between pos out) = Inr t \<longleftrightarrow>
    (\<exists>gap rest. drop pos orig = gap @ rest \<and> pos + length gap + (if o_n = 0 then 0 else 1) = start \<and>
      t = \<lparr>pt_pos = pos + length gap, pt_out = out @ gap, pt_old = int o_n, pt_new = int n_n\<rparr>)"
proof -
  define st where "st = (if o_n = 0 then int start else int start - 1)"
  have run: "patch_line orig raw (between pos out) =
      (if st < int pos \<or> st > int (length orig) then Inl (PatchError ''hunk out of order or beyond EOF'')
       else Inr \<lparr>pt_pos = nat st, pt_out = out @ take (nat st - pos) (drop pos orig),
              pt_old = int o_n, pt_new = int n_n\<rparr>)"
    using assms(1) by (simp add: patch_line_def st_def Let_def)
  show ?thesis
  proof
    assume "patch_line orig raw (between pos out) = Inr t"
    then have st: "int pos \<le> st" "st \<le> int (length orig)"
      and t: "t = \<lparr>pt_pos = nat st, pt_out = out @ take (nat st - pos) (drop pos orig), pt_old = int o_n, pt_new = int n_n\<rparr>"
      by (auto simp: run split: if_splits)
    let ?gap = "take (nat st - pos) (drop pos orig)"
    have "length ?gap = nat st - pos" using st by simp
    moreover have "pos + (nat st - pos) = nat st" using st by simp
    moreover have "nat st + (if o_n = 0 then 0 else 1) = start" using st unfolding st_def by (auto split: if_splits)
    moreover have "drop pos orig = ?gap @ drop (nat st - pos) (drop pos orig)"
      by (rule append_take_drop_id [symmetric])
    ultimately show "\<exists>gap rest. drop pos orig = gap @ rest \<and> pos + length gap + (if o_n = 0 then 0 else 1) = start \<and>
      t = \<lparr>pt_pos = pos + length gap, pt_out = out @ gap, pt_old = int o_n, pt_new = int n_n\<rparr>"
      using t by metis
  next
    assume "\<exists>gap rest. drop pos orig = gap @ rest \<and> pos + length gap + (if o_n = 0 then 0 else 1) = start \<and>
      t = \<lparr>pt_pos = pos + length gap, pt_out = out @ gap, pt_old = int o_n, pt_new = int n_n\<rparr>"
    then obtain gap rest where g: "drop pos orig = gap @ rest" "pos + length gap + (if o_n = 0 then 0 else 1) = start"
      and t: "t = \<lparr>pt_pos = pos + length gap, pt_out = out @ gap, pt_old = int o_n, pt_new = int n_n\<rparr>" by blast
    have "st = int (pos + length gap)" using g(2) by (auto simp: st_def)
    moreover have "pos + length gap \<le> length orig" using arg_cong [OF g(1), of length] assms(2) by simp
    ultimately show "patch_line orig raw (between pos out) = Inr t" by (simp add: run t g(1))
  qed
qed

lemma drop_more: "drop pos xs = a @ b \<Longrightarrow> drop (pos + length a) xs = b"
  by (metis add.commute append_eq_conv_conj drop_drop)

lemma between_run_reads:
  assumes "completes orig ls (between pos out) s'" and "pos \<le> length orig"
  shows "\<exists>s tail. diff_reads pos ls s \<and> drop pos orig = old_side s @ tail \<and>
    s' = between (pos + length (old_side s)) (out @ new_side s)"
  using assms
proof (induction "length ls" arbitrary: ls pos out rule: less_induct)
  case less
  show ?case
  proof (cases ls)
    case Nil
    then have "s' = between pos out" using less.prems(1) by (simp add: completes_def)
    then show ?thesis using Nil reads_end by (intro exI [of _ "[]"] exI [of _ "drop pos orig"]) auto
  next
    case (Cons raw ls')
    obtain t where t: "patch_line orig raw (between pos out) = Inr t" "completes orig ls' t s'"
      using less.prems(1) by (auto simp: Cons completes_Cons)
    show ?thesis
    proof (cases "hunk_header raw")
      case None
      then have "t = between pos out" using t(1) by (simp add: patch_line_def)
      then show ?thesis using less.hyps [of ls' pos out] t(2) less.prems(2) Cons None reads_noise by force
    next
      case (Some h)
      obtain start o_n n_n where h: "hunk_header raw = Some (start, o_n, n_n)" using Some by (cases h) auto
      obtain gap rest where g: "drop pos orig = gap @ rest" "pos + length gap + (if o_n = 0 then 0 else 1) = start"
        and tt: "t = \<lparr>pt_pos = pos + length gap, pt_out = out @ gap, pt_old = int o_n, pt_new = int n_n\<rparr>"
        using t(1) header_between [OF h less.prems(2)] by blast
      obtain body es ls2 where b: "ls' = body @ ls2" "hunk_of orig t body es" "completes orig ls2 (hunk_end t es) s'"
        using hunk_run_reads [OF t(2)] tt by auto
      have es: "o_n = length (old_lines es)" "n_n = length (new_lines es)" "body_reads body es"
        using b(2) by (auto simp: hunk_of_def tt)
      obtain tl where tl: "rest = old_lines es @ tl"
        using b(2) drop_more [OF g(1)] by (auto simp: hunk_of_def tt)
      let ?pos = "pos + length gap + length (old_lines es)"
      have e: "hunk_end t es = between ?pos (out @ gap @ new_lines es)"
        by (simp add: hunk_end_def tt)
      have d: "drop ?pos orig = tl" using drop_more [of pos orig "gap @ old_lines es" tl] g(1) tl
        by (simp add: add.assoc)
      have "?pos \<le> length orig" using arg_cong [OF g(1), of length] less.prems(2) tl by simp
      then obtain s tail where s: "diff_reads ?pos ls2 s" "drop ?pos orig = old_side s @ tail"
          "s' = between (?pos + length (old_side s)) ((out @ gap @ new_lines es) @ new_side s)"
        using less.hyps [of ls2 ?pos "out @ gap @ new_lines es"] b(1,3) Cons e by auto
      have "diff_reads pos ls ((gap, es) # s)"
        unfolding Cons b(1) using h g(2) es s(1) by (intro reads_hunk) auto
      moreover have "drop pos orig = old_side ((gap, es) # s) @ tail" using g(1) tl s(2) d by simp
      ultimately show ?thesis using s(3) by (intro exI [of _ "(gap, es) # s"] exI [of _ tail]) (simp add: add.assoc)
    qed
  qed
qed

lemma between_run_runs:
  assumes "diff_reads pos ls s" and "drop pos orig = old_side s @ tail" and "pos \<le> length orig"
  shows "completes orig ls (between pos out) (between (pos + length (old_side s)) (out @ new_side s))"
  using assms
proof (induction pos ls s arbitrary: out rule: diff_reads.induct)
  case (reads_end pos)
  then show ?case by (simp add: completes_def)
next
  case (reads_noise l pos ls s)
  then show ?case by (simp add: completes_Cons patch_line_def)
next
  case (reads_hunk l start es pos gap body ls s)
  let ?t = "\<lparr>pt_pos = pos + length gap, pt_out = out @ gap, pt_old = int (length (old_lines es)),
     pt_new = int (length (new_lines es))\<rparr>"
  let ?pos = "pos + length gap + length (old_lines es)"
  have dr: "drop pos orig = gap @ old_lines es @ old_side s @ tail" using reads_hunk.prems(1) by simp
  have p: "patch_line orig l (between pos out) = Inr ?t"
    unfolding header_between [OF reads_hunk.hyps(1) reads_hunk.prems(2)]
    using dr reads_hunk.hyps(2) by auto
  have len: "?pos \<le> length orig" using arg_cong [OF dr, of length] reads_hunk.prems(2) by simp
  have d: "drop ?pos orig = old_side s @ tail"
    using drop_more [of pos orig "gap @ old_lines es" "old_side s @ tail"] dr by (simp add: add.assoc)
  have "hunk_of orig ?t body es" using reads_hunk.hyps(3) drop_more [OF dr] by (auto simp: hunk_of_def)
  moreover have "completes orig ls (hunk_end ?t es)
      (between (?pos + length (old_side s)) ((out @ gap @ new_lines es) @ new_side s))"
    using reads_hunk.IH [OF d len, of "out @ gap @ new_lines es"] by (simp add: hunk_end_def)
  ultimately have "completes orig (body @ ls) ?t
      (between (?pos + length (old_side s)) ((out @ gap @ new_lines es) @ new_side s))"
    by (rule hunk_run_runs)
  then show ?case using p by (auto simp: completes_Cons add.assoc)
qed

text \<open>
  C16. Strict patching.  \<open>apply_unified_diff\<close> returns a text exactly when the diff reads as an edit
  script whose hunks sit where their headers say and whose kept and dropped lines are the lines of the
  original there, with only headers and preamble between the hunks; the text then is the new side of
  the script followed by the rest of the original.  In every other case it raises.
\<close>

theorem apply_diff_exact:
  "apply_unified_diff original diff_text = Inr result \<longleftrightarrow>
   (\<exists>s tail. diff_reads 0 (split_on nl diff_text) s \<and> split_on nl original = old_side s @ tail \<and>
      result = join [nl] (new_side s @ tail))"
proof -
  let ?orig = "split_on nl original" and ?ls = "split_on nl diff_text"
  have "apply_unified_diff original diff_text = Inr result \<longleftrightarrow>
      (\<exists>s'. completes ?orig ?ls (between 0 []) s' \<and> result = join [nl] (pt_out s' @ drop (pt_pos s') ?orig))"
    by (auto simp: apply_unified_diff_def completes_def between_def Let_def rbind_Inr_iff)
  also have "\<dots> \<longleftrightarrow> (\<exists>s tail. diff_reads 0 ?ls s \<and> ?orig = old_side s @ tail \<and>
      result = join [nl] (new_side s @ tail))" (is "?run \<longleftrightarrow> ?reads")
  proof
    assume ?run
    then obtain s' where s': "completes ?orig ?ls (between 0 []) s'"
      "result = join [nl] (pt_out s' @ drop (pt_pos s') ?orig)" by blast
    then obtain s tail where "diff_reads 0 ?ls s" "?orig = old_side s @ tail"
        "s' = between (length (old_side s)) (new_side s)"
      using between_run_reads [OF s'(1)] by auto
    then show ?reads using s'(2) by auto
  next
    assume ?reads
    then obtain s tail where "diff_reads 0 ?ls s" "?orig = old_side s @ tail" "result = join [nl] (new_side s @ tail)"
      by blast
    then show ?run using between_run_runs [of 0 ?ls s ?orig tail "[]"]
      by (intro exI [of _ "between (length (old_side s)) (new_side s)"]) auto
  qed
  finally show ?thesis .
qed

section \<open>The diff of a script\<close>

text \<open>The unified diff that \<open>difflib\<close> writes for a script: a count of one is left out of a range.\<close>

fun edit_line :: "edit \<Rightarrow> string" where
  "edit_line (Keep l) = CHR '' '' # l"
| "edit_line (Drop l) = CHR ''-'' # l"
| "edit_line (Add l) = CHR ''+'' # l"

definition show_range :: "nat \<Rightarrow> nat \<Rightarrow> string" where
  "show_range i n = show_nat (if n = 0 then i else i + 1) @ (if n = 1 then [] else '','' @ show_nat n)"

definition show_header :: "nat \<Rightarrow> nat \<Rightarrow> edit list \<Rightarrow> string" where
  "show_header i j es =
     ''@@ -'' @ show_range i (length (old_lines es)) @ '' +'' @ show_range j (length (new_lines es)) @ '' @@''"

fun show_diff :: "nat \<Rightarrow> nat \<Rightarrow> script \<Rightarrow> string list" where
  "show_diff pos new_pos [] = []"
| "show_diff pos new_pos ((gap, es) # s) =
     (let i = pos + length gap; j = new_pos + length gap
      in show_header i j es # map edit_line es @
         show_diff (i + length (old_lines es)) (j + length (new_lines es)) s)"

lemma digits_at_show:
  assumes "r = [] \<or> \<not> digit_char (hd r)"
  shows "digits_at (show_nat n @ r) = Some (n, r)"
proof -
  have d: "list_all digit_char (show_nat n)" "show_nat n \<noteq> []" using show_nat_digits by auto
  then have "takeWhile digit_char (show_nat n @ r) = show_nat n" "dropWhile digit_char (show_nat n @ r) = r"
    using assms by (cases r; simp add: list_all_iff takeWhile_append dropWhile_append)+
  then show ?thesis using d(2) by (simp add: digits_at_def)
qed

lemma count_at_show:
  assumes "r \<noteq> []" and "hd r = CHR '' ''"
  shows "count_at ((if n = 1 then [] else '','' @ show_nat n) @ r) = (n, r)"
proof -
  have "r = CHR '' '' # tl r" using assms by (cases r) auto
  then have "take (Suc 0) r \<noteq> '',''" by (cases r) auto
  moreover have "digits_at (show_nat n @ r) = Some (n, r)"
    using assms by (intro digits_at_show) (simp add: digit_char_def)
  ultimately show ?thesis by (simp add: count_at_def drop_prefix_def)
qed

lemma hunk_header_show:
  "hunk_header (show_header i j es) =
     Some (if old_lines es = [] then i else i + 1, length (old_lines es), length (new_lines es))"
proof -
  have pre: "drop_prefix p (p @ r) = Some r" for p r by (simp add: drop_prefix_def)
  have dig: "digits_at (show_range a n @ CHR '' '' # r) =
      Some (if n = 0 then a else a + 1, (if n = 1 then [] else '','' @ show_nat n) @ CHR '' '' # r)" for a n r
    unfolding show_range_def append_assoc by (rule digits_at_show) (simp add: digit_char_def)
  have cnt: "count_at ((if n = 1 then [] else '','' @ show_nat n) @ CHR '' '' # r) = (n, CHR '' '' # r)" for n r
    by (rule count_at_show) simp_all
  have "show_header i j es = ''@@ -'' @ show_range i (length (old_lines es)) @ CHR '' '' #
      ''+'' @ show_range j (length (new_lines es)) @ CHR '' '' # ''@@''"
    by (simp add: show_header_def)
  moreover have "drop_prefix '' +'' (CHR '' '' # ''+'' @ r) = Some r" for r by (simp add: drop_prefix_def)
  moreover have "drop_prefix '' @@'' (CHR '' '' # ''@@'') = Some []" by (simp add: drop_prefix_def)
  ultimately show ?thesis by (simp only: hunk_header_def pre dig cnt option.case prod.case) simp
qed

lemma read_edit_line: "read_edit (edit_line e) = Some e" "\<not> no_newline_mark (edit_line e)"
  by (cases e; simp add: read_edit_def no_newline_mark_def backslash_def)+

lemma body_reads_lines: "body_reads (map edit_line es) es"
  by (simp add: body_reads_def filter_map o_def read_edit_line)

lemma show_diff_reads: "diff_reads pos (show_diff pos new_pos s) s"
proof (induction pos new_pos s rule: show_diff.induct)
  case (1 pos new_pos)
  then show ?case by (simp add: reads_end)
next
  case (2 pos new_pos gap es s)
  show ?case
    unfolding show_diff.simps Let_def
    by (rule reads_hunk [OF hunk_header_show _ body_reads_lines 2 [OF refl refl, unfolded add.assoc [symmetric]]]) auto
qed

lemma preamble_reads: "\<forall>l \<in> set pre. hunk_header l = None \<Longrightarrow> diff_reads pos ls s \<Longrightarrow> diff_reads pos (pre @ ls) s"
  by (induction pre) (auto intro: diff_reads.intros)

text \<open>
  The unified diff of an edit script, written after any preamble without hunk headers
  (the file names), turns the old side of the script into its new side, wherever the lines of the
  texts contain no newline.
\<close>

theorem unified_diff_roundtrip:
  assumes "old_side s @ tail \<noteq> []" and "\<forall>l \<in> set (old_side s @ tail). nl \<notin> set l"
    and "pre @ show_diff 0 0 s \<noteq> []" and "\<forall>l \<in> set (pre @ show_diff 0 0 s). nl \<notin> set l"
    and "\<forall>l \<in> set pre. hunk_header l = None"
  shows "apply_unified_diff (join [nl] (old_side s @ tail)) (join [nl] (pre @ show_diff 0 0 s)) =
    Inr (join [nl] (new_side s @ tail))"
proof -
  have "completes (old_side s @ tail) (pre @ show_diff 0 0 s) (between 0 [])
      (between (length (old_side s)) (new_side s))"
    using between_run_runs [of 0 "pre @ show_diff 0 0 s" s "old_side s @ tail" tail "[]"]
      preamble_reads [OF assms(5) show_diff_reads] by simp
  then show ?thesis
    using assms(1-4) by (simp add: apply_unified_diff_def split_on_join completes_def between_def Let_def)
qed

definition sample_script :: script where
  "sample_script = [([''# Returns''], [Keep ''window'', Drop ''30 days'', Add ''14 days'']), ([''a'', ''b''], [Add ''c''])]"

theorem unified_diff_roundtrip_witness:
  "apply_unified_diff
     (join [nl] [''# Returns'', ''window'', ''30 days'', ''a'', ''b'', ''end''])
     (join [nl] [''--- a/note.md'', ''+++ b/note.md'', ''@@ -2,2 +2,2 @@'', '' window'', ''-30 days'', ''+14 days'', ''@@ -5,0 +6 @@'', ''+c'']) =
   Inr (join [nl] [''# Returns'', ''window'', ''14 days'', ''a'', ''b'', ''c'', ''end''])"
proof -
  have sides: "old_side sample_script @ [''end''] = [''# Returns'', ''window'', ''30 days'', ''a'', ''b'', ''end'']"
    "new_side sample_script @ [''end''] = [''# Returns'', ''window'', ''14 days'', ''a'', ''b'', ''c'', ''end'']"
    by (simp_all add: sample_script_def)
  have diff: "[''--- a/note.md'', ''+++ b/note.md''] @ show_diff 0 0 sample_script =
      [''--- a/note.md'', ''+++ b/note.md'', ''@@ -2,2 +2,2 @@'', '' window'', ''-30 days'', ''+14 days'', ''@@ -5,0 +6 @@'', ''+c'']"
    by code_simp
  have pre: "\<forall>l \<in> set [''--- a/note.md'', ''+++ b/note.md'']. hunk_header l = None" by code_simp
  show ?thesis
    using unified_diff_roundtrip [of sample_script "[''end'']" "[''--- a/note.md'', ''+++ b/note.md'']", OF _ _ _ _ pre]
    unfolding sides diff by simp
qed

end
