(* ===== verification/ReviewQueue.thy ===== *)
theory ReviewQueue
  imports UnifiedDiff "HOL-Library.AList"
begin

text \<open>
  The file-backed review queue: \<open>core/paths.py\<close>, the model \<open>ReviewItem\<close> of \<open>models.py\<close> and
  \<open>review/queue.py\<close>.  A queue is two directories of text files, pending and archive, as lists of
  names and contents; every operation is a function on them, of the disk's failures too.  The YAML library, the date reader of
  Pydantic and SHA-256 are fields of \<open>queue_env\<close>.
\<close>

section \<open>Files and paths\<close>

type_synonym files = "(string \<times> string) list"

definition cr :: char where "cr = CHR 0x0D"

text \<open>The newline translation of text mode when a file is read.\<close>

fun universal_newlines :: "string \<Rightarrow> string" where
  "universal_newlines [] = []"
| "universal_newlines [c] = [if c = cr then nl else c]"
| "universal_newlines (c # d # cs) =
     (if c = cr \<and> d = nl then nl # universal_newlines cs
      else (if c = cr then nl else c) # universal_newlines (d # cs))"

definition portable :: "string \<Rightarrow> string" where
  "portable s = map (\<lambda>c. if c = backslash then CHR ''/'' else c) s"

text \<open>The checks of \<open>resolve_within\<close> on the string; the value is the components below the root.\<close>

definition relative_parts :: "string \<Rightarrow> review_error + string list" where
  "relative_parts raw =
     guards
       [(strip raw \<noteq> [], PathBoundaryError ''empty path''),
        (CHR 0x00 \<notin> set raw, PathBoundaryError ''path contains a NUL byte''),
        (\<not> posix_is_absolute (portable raw), PathBoundaryError ''path must be relative to the workspace''),
        (''..'' \<notin> set (posix_parts (portable raw)), PathBoundaryError ''path must not contain parent segments'')]
       (posix_parts (portable raw))"

text \<open>\<open>resolve_within\<close>, over absolute paths as lists of components; \<open>realpath\<close> is \<open>os.path.realpath\<close>.\<close>

definition resolve_within ::
  "(string list \<Rightarrow> string list) \<Rightarrow> string list \<Rightarrow> string \<Rightarrow> review_error + string list" where
  "resolve_within realpath base relative =
     rbind (relative_parts relative) (\<lambda>parts.
       let root_real = realpath base; target_real = realpath (base @ parts)
       in guards
         [(take (length root_real) target_real = root_real,
            PathBoundaryError ''path escapes the workspace through a symlink'')] target_real)"

section \<open>Review items\<close>

datatype review_status = StatusPending | StatusApplied | StatusRejected | StatusDeferred | StatusConflict

definition review_status_value :: "review_status \<Rightarrow> string" where
  "review_status_value s = (case s of StatusPending \<Rightarrow> ''pending'' | StatusApplied \<Rightarrow> ''applied''
     | StatusRejected \<Rightarrow> ''rejected'' | StatusDeferred \<Rightarrow> ''deferred'' | StatusConflict \<Rightarrow> ''conflict'')"

definition read_status :: "string \<Rightarrow> review_status option" where
  "read_status v = find (\<lambda>s. review_status_value s = v)
     [StatusPending, StatusApplied, StatusRejected, StatusDeferred, StatusConflict]"

datatype change_type = NewWikiPage | EditWikiBody | AddCrossRef | AddAlias | AddOpenContradiction | DecisionMemo

definition change_type_value :: "change_type \<Rightarrow> string" where
  "change_type_value c = (case c of NewWikiPage \<Rightarrow> ''new-wiki-page'' | EditWikiBody \<Rightarrow> ''edit-wiki-body''
     | AddCrossRef \<Rightarrow> ''add-cross-ref'' | AddAlias \<Rightarrow> ''add-alias''
     | AddOpenContradiction \<Rightarrow> ''add-open-contradiction'' | DecisionMemo \<Rightarrow> ''decision-memo'')"

definition read_change_type :: "string \<Rightarrow> change_type option" where
  "read_change_type v = find (\<lambda>c. change_type_value c = v)
     [NewWikiPage, EditWikiBody, AddCrossRef, AddAlias, AddOpenContradiction, DecisionMemo]"

text \<open>A \<open>datetime\<close> with or without a time zone; Python refuses to compare the two kinds.\<close>

datatype moment = Naive int | Aware int

fun moment_time :: "moment \<Rightarrow> int" where
  "moment_time (Naive t) = t"
| "moment_time (Aware t) = t"

fun is_aware :: "moment \<Rightarrow> bool" where
  "is_aware (Naive t) = False"
| "is_aware (Aware t) = True"

record review_item =
  ri_id :: string
  ri_created :: moment
  ri_producer :: string
  ri_run_id :: string
  ri_tier :: int
  ri_target :: string
  ri_change_type :: change_type
  ri_pattern_key :: string
  ri_importance :: string
  ri_rationale :: string
  ri_base_hash :: string
  ri_status :: review_status
  ri_payload :: "(string \<times> json) list"
  ri_resolved :: "moment option"
  ri_outcome :: "string option"

type_synonym fields = "(string \<times> json) list"

text \<open>
  The libraries: the hash, \<open>yaml.safe_load\<close> and \<open>yaml.safe_dump\<close> on mappings, and how Pydantic reads
  and writes a date and reads an integer.
\<close>

record queue_env =
  q_sha256 :: "string \<Rightarrow> string"
  q_load :: "string \<Rightarrow> string + fields yaml_value"
  q_dump :: "fields \<Rightarrow> string"
  q_moment :: "json \<Rightarrow> moment option"
  q_moment_text :: "moment \<Rightarrow> string"
  q_int :: "json \<Rightarrow> int option"

text \<open>\<open>_no_path_traversal\<close>\<close>

definition no_path_traversal :: "string \<Rightarrow> bool" where
  "no_path_traversal value \<longleftrightarrow>
     (let stripped = strip value; normalized = portable stripped
      in stripped \<noteq> [] \<and> take 1 normalized \<noteq> ''/'' \<and> ''..'' \<notin> set (posix_parts normalized) \<and>
         CHR 0x00 \<notin> set value)"

definition str_of :: "json option \<Rightarrow> string option" where
  "str_of v = (case v of Some (JStr s) \<Rightarrow> Some s | _ \<Rightarrow> None)"

definition absent :: "json option \<Rightarrow> bool" where
  "absent v \<longleftrightarrow> v = None \<or> v = Some JNull"

text \<open>\<open>ReviewItem.model_validate\<close> on a mapping: a field is read, defaulted or refused.\<close>

definition item_checks :: "queue_env \<Rightarrow> fields \<Rightarrow> bool" where
  "item_checks E d \<longleftrightarrow>
     (\<forall>k \<in> set [''id'', ''producer'', ''run_id'', ''target'', ''pattern_key'', ''rationale'', ''base_hash''].
        str_of (map_of d k) \<noteq> None) \<and>
     Option.bind (map_of d ''created'') (q_moment E) \<noteq> None \<and>
     (case Option.bind (map_of d ''tier'') (q_int E) of None \<Rightarrow> False | Some t \<Rightarrow> 2 \<le> t \<and> t \<le> 3) \<and>
     Option.bind (str_of (map_of d ''change_type'')) read_change_type \<noteq> None \<and>
     str_of (map_of d ''pattern_key'') \<noteq> Some [] \<and>
     (map_of d ''importance'' = None \<or> str_of (map_of d ''importance'') \<noteq> None) \<and>
     (map_of d ''status'' = None \<or> Option.bind (str_of (map_of d ''status'')) read_status \<noteq> None) \<and>
     (case map_of d ''payload'' of None \<Rightarrow> True | Some (JObj _) \<Rightarrow> True | _ \<Rightarrow> False) \<and>
     (absent (map_of d ''resolved'') \<or> Option.bind (map_of d ''resolved'') (q_moment E) \<noteq> None) \<and>
     (absent (map_of d ''outcome'') \<or> str_of (map_of d ''outcome'') \<noteq> None) \<and>
     no_path_traversal (the (str_of (map_of d ''id''))) \<and> no_path_traversal (the (str_of (map_of d ''target'')))"

definition item_of :: "queue_env \<Rightarrow> fields \<Rightarrow> review_item" where
  "item_of E d =
     (let text = \<lambda>k. the (str_of (map_of d k))
      in \<lparr>ri_id = text ''id'', ri_created = the (q_moment E (the (map_of d ''created''))),
          ri_producer = text ''producer'', ri_run_id = text ''run_id'',
          ri_tier = the (q_int E (the (map_of d ''tier''))), ri_target = text ''target'',
          ri_change_type = the (read_change_type (text ''change_type'')), ri_pattern_key = text ''pattern_key'',
          ri_importance = (if map_of d ''importance'' = None then ''normal'' else text ''importance''),
          ri_rationale = text ''rationale'', ri_base_hash = text ''base_hash'',
          ri_status = (if map_of d ''status'' = None then StatusPending else the (read_status (text ''status''))),
          ri_payload = (case map_of d ''payload'' of Some (JObj p) \<Rightarrow> p | _ \<Rightarrow> []),
          ri_resolved = (if absent (map_of d ''resolved'') then None else q_moment E (the (map_of d ''resolved''))),
          ri_outcome = (if absent (map_of d ''outcome'') then None else Some (text ''outcome''))\<rparr>)"

definition item_validate :: "queue_env \<Rightarrow> fields \<Rightarrow> review_error + review_item" where
  "item_validate E d = (if item_checks E d then Inr (item_of E d) else Inl InvalidItem)"

text \<open>\<open>item.model_dump(mode="json", exclude_none=True)\<close>\<close>

definition item_fields :: "queue_env \<Rightarrow> review_item \<Rightarrow> fields" where
  "item_fields E i =
     [(''id'', JStr (ri_id i)), (''created'', JStr (q_moment_text E (ri_created i))),
      (''producer'', JStr (ri_producer i)), (''run_id'', JStr (ri_run_id i)), (''tier'', JInt (ri_tier i)),
      (''target'', JStr (ri_target i)), (''change_type'', JStr (change_type_value (ri_change_type i))),
      (''pattern_key'', JStr (ri_pattern_key i)), (''importance'', JStr (ri_importance i)),
      (''rationale'', JStr (ri_rationale i)), (''base_hash'', JStr (ri_base_hash i)),
      (''status'', JStr (review_status_value (ri_status i))), (''payload'', JObj (ri_payload i))] @
     (case ri_resolved i of None \<Rightarrow> [] | Some m \<Rightarrow> [(''resolved'', JStr (q_moment_text E m))]) @
     (case ri_outcome i of None \<Rightarrow> [] | Some s \<Rightarrow> [(''outcome'', JStr s)])"

section \<open>Item files\<close>

definition dedupe_key :: "queue_env \<Rightarrow> string \<Rightarrow> string \<Rightarrow> string \<Rightarrow> string \<Rightarrow> string" where
  "dedupe_key E producer target change proposal =
     take 16 (q_sha256 E (utf8_encode (producer @ ''|'' @ target @ ''|'' @ change @ ''|'' @ proposal)))"

abbreviation backtick :: char where "backtick \<equiv> CHR 0x60"

definition strip_of :: "char \<Rightarrow> string \<Rightarrow> string" where
  "strip_of c s = rev (dropWhile (\<lambda>x. x = c) (rev (dropWhile (\<lambda>x. x = c) s)))"

text \<open>\<open>_FENCE_LINE_RE\<close> on the stripped line: the number of backticks that open it, at least three.\<close>

definition fence_len :: "string \<Rightarrow> nat option" where
  "fence_len line =
     (let n = length (takeWhile (\<lambda>c. c = backtick) (strip line)) in if n \<ge> 3 then Some n else None)"

record section_scan =
  sc_sections :: "string \<Rightarrow> string option"
  sc_current :: "string option"
  sc_buf :: "string list"
  sc_open :: nat

definition scan_flush :: "section_scan \<Rightarrow> section_scan" where
  "scan_flush s = (case sc_current s of
     None \<Rightarrow> s
   | Some name \<Rightarrow> s\<lparr>sc_sections := (sc_sections s)(name := Some (strip_of nl (join [nl] (sc_buf s))))\<rparr>)"

definition scan_keep :: "string \<Rightarrow> section_scan \<Rightarrow> section_scan" where
  "scan_keep line s = (if sc_current s \<noteq> None then s\<lparr>sc_buf := sc_buf s @ [line]\<rparr> else s)"

definition next_fence :: "nat \<Rightarrow> string \<Rightarrow> nat \<Rightarrow> nat" where
  "next_fence n line fence =
     (if fence = 0 then n
      else if n \<ge> fence \<and> strip_of backtick (strip line) = [] then 0 else fence)"

definition heading_line :: "string \<Rightarrow> bool" where
  "heading_line line \<longleftrightarrow> take 3 line = ''## ''"

definition scan_line :: "string \<Rightarrow> section_scan \<Rightarrow> section_scan" where
  "scan_line line s =
     (case fence_len line of
        Some n \<Rightarrow> scan_keep line (s\<lparr>sc_open := next_fence n line (sc_open s)\<rparr>)
      | None \<Rightarrow>
          if sc_open s = 0 \<and> heading_line line
          then (scan_flush s)\<lparr>sc_current := Some (strip (drop 3 line)), sc_buf := []\<rparr>
          else scan_keep line s)"

definition split_sections :: "string \<Rightarrow> string \<Rightarrow> string option" where
  "split_sections body =
     sc_sections (scan_flush (fold scan_line (split_on nl body)
       \<lparr>sc_sections = (\<lambda>_. None), sc_current = None, sc_buf = [], sc_open = 0\<rparr>))"

definition render_body :: "string \<Rightarrow> string \<Rightarrow> string \<Rightarrow> string \<Rightarrow> string" where
  "render_body rationale proposal kind resolution =
     [nl] @ ''## Rationale'' @ [nl, nl] @ strip rationale @ [nl, nl] @ ''## Proposal'' @ [nl, nl] @
     replicate 4 backtick @ kind @ [nl] @ proposal @ [nl] @ replicate 4 backtick @ [nl, nl] @
     ''## Resolution'' @ [nl] @
     (if strip resolution \<noteq> [] then [nl] @ strip resolution @ [nl] else [])"

definition render_item :: "queue_env \<Rightarrow> review_item \<Rightarrow> string \<Rightarrow> string \<Rightarrow> string \<Rightarrow> string \<Rightarrow> string" where
  "render_item E item rationale proposal kind resolution =
     join_frontmatter (q_dump E (item_fields E item)) (render_body rationale proposal kind resolution)"

text \<open>
  \<open>_PROPOSAL_FENCE_RE\<close>.  A match at one position takes the whole run of backticks, as the kind that
  must follow contains none; \<open>content\<close> is lazy, so it ends at the first newline followed by the fence.
\<close>

fun before_infix :: "string \<Rightarrow> string \<Rightarrow> string option" where
  "before_infix pat [] = (if pat = [] then Some [] else None)"
| "before_infix pat (c # cs) =
     (if take (length pat) (c # cs) = pat then Some [] else map_option ((#) c) (before_infix pat cs))"

definition kind_at :: "string \<Rightarrow> (string \<times> string) option" where
  "kind_at s =
     (case drop_prefix (''replace'' @ [nl]) s of
        Some r \<Rightarrow> Some (''replace'', r)
      | None \<Rightarrow> map_option (\<lambda>r. (''diff'', r)) (drop_prefix (''diff'' @ [nl]) s))"

definition proposal_at :: "string \<Rightarrow> (string \<times> string) option" where
  "proposal_at s =
     (let fence = takeWhile (\<lambda>c. c = backtick) s
      in if length fence < 3 then None
         else (case kind_at (dropWhile (\<lambda>c. c = backtick) s) of
                 None \<Rightarrow> None
               | Some (kind, r) \<Rightarrow> map_option (\<lambda>content. (kind, content)) (before_infix (nl # fence) r)))"

fun proposal_search :: "string \<Rightarrow> (string \<times> string) option" where
  "proposal_search [] = None"
| "proposal_search (c # cs) =
     (case proposal_at (c # cs) of Some m \<Rightarrow> Some m | None \<Rightarrow> proposal_search cs)"

record loaded_review =
  lr_item :: review_item
  lr_rationale :: string
  lr_proposal :: string
  lr_kind :: string
  lr_resolution :: string

definition note_of :: "queue_env \<Rightarrow> string \<Rightarrow> review_error + fields \<times> string" where
  "note_of E content =
     (case parse_frontmatter (q_load E) [] (universal_newlines content) of
        Inl e \<Rightarrow> Inl (NoteError e) | Inr v \<Rightarrow> Inr v)"

definition parse_item :: "queue_env \<Rightarrow> string \<Rightarrow> review_error + loaded_review" where
  "parse_item E content =
     rbind (note_of E content) (\<lambda>(data, body).
     rbind (case item_validate E data of
              Inl e \<Rightarrow> Inl (UsageError ''invalid review item'') | Inr i \<Rightarrow> Inr i) (\<lambda>item.
     let sections = split_sections body;
         text = \<lambda>name. (case sections name of Some t \<Rightarrow> t | None \<Rightarrow> [])
     in case proposal_search (text ''Proposal'') of
          None \<Rightarrow> Inl (UsageError ''the Proposal section has no fenced replace or diff block'')
        | Some (kind, content) \<Rightarrow>
            Inr \<lparr>lr_item = item, lr_rationale = text ''Rationale'', lr_proposal = content,
                 lr_kind = kind, lr_resolution = text ''Resolution''\<rparr>))"

section \<open>The queue\<close>

record queue =
  q_pending :: files
  q_archive :: files

text \<open>
  \<open>list_items\<close>: the loop over \<open>sorted(pending_dir.glob("*.md"))\<close>, the filters and the stable sort by
  creation time.  Python compares the times only when there are two of them.
\<close>

definition is_markdown :: "string \<Rightarrow> bool" where
  "is_markdown name \<longleftrightarrow> drop (length name - 3) name = ''.md''"

definition read_listed :: "queue_env \<Rightarrow> string \<times> string \<Rightarrow> review_error + string \<times> review_item" where
  "read_listed E f =
     rbind (note_of E (snd f)) (\<lambda>(data, _). rbind (item_validate E data) (\<lambda>item. Inr (fst f, item)))"

definition sort_created :: "(string \<times> review_item) list \<Rightarrow> review_error + (string \<times> review_item) list" where
  "sort_created xs =
     (let aware = map (\<lambda>x. is_aware (ri_created (snd x))) xs
      in if True \<in> set aware \<and> False \<in> set aware then Inl PyTypeError
         else Inr (sort_key (\<lambda>x. moment_time (ri_created (snd x))) xs))"

definition list_items ::
  "queue_env \<Rightarrow> review_status option \<Rightarrow> string option \<Rightarrow> queue \<Rightarrow> review_error + (string \<times> review_item) list" where
  "list_items E status pattern Q =
     rbind (rmap (read_listed E) (sort_key fst (filter (\<lambda>f. is_markdown (fst f)) (q_pending Q)))) (\<lambda>items.
       sort_created (filter (\<lambda>(_, i). (status = None \<or> Some (ri_status i) = status) \<and>
         (pattern = None \<or> Some (ri_pattern_key i) = pattern)) items))"

text \<open>The name tried at each attempt, and where it lands; a name with a slash points into a directory that is not there.\<close>

definition queue_filename :: "string \<Rightarrow> string \<Rightarrow> nat \<Rightarrow> string" where
  "queue_filename ident key attempt =
     (if attempt = 0 then ident @ ''.md''
      else if attempt = 1 then ident @ ''--'' @ take 8 key @ ''.md''
      else ident @ ''--'' @ take 8 key @ ''-'' @ show_nat attempt @ ''.md'')"

definition archived_name :: "files \<Rightarrow> string \<Rightarrow> bool" where
  "archived_name archived filename \<longleftrightarrow> (\<exists>n \<in> fst ` set archived. posix_parts filename = [n])"

definition name_taken :: "queue \<Rightarrow> string \<Rightarrow> string \<Rightarrow> nat \<Rightarrow> bool" where
  "name_taken Q ident key attempt \<longleftrightarrow>
     archived_name (q_archive Q) (queue_filename ident key attempt) \<or>
     (\<exists>n \<in> fst ` set (q_pending Q). relative_parts (queue_filename ident key attempt) = Inr [n])"

lemma posix_parts_suffix:
  assumes "posix_parts (pre @ w) = [n]" and "CHR ''/'' \<notin> set w" and "length w > 2"
  shows "\<exists>a. n = a @ w"
proof -
  have "\<exists>vs v. split_on (CHR ''/'') (pre @ w) = vs @ [v @ w]"
    using assms(2)
  proof (induction pre)
    case Nil
    then have "split_on (CHR ''/'') w = [w]" by (rule split_on_no_sep)
    then have "split_on (CHR ''/'') ([] @ w) = [] @ [[] @ w]" by simp
    then show ?case by blast
  next
    case (Cons c pre)
    then obtain vs v where v: "split_on (CHR ''/'') (pre @ w) = vs @ [v @ w]" by blast
    show ?case
    proof (cases "c = CHR ''/''")
      case True
      then have "split_on (CHR ''/'') ((c # pre) @ w) = ([] # vs) @ [v @ w]" using v by simp
      then show ?thesis by blast
    next
      case False
      then show ?thesis
      proof (cases vs)
        case Nil
        then have "split_on (CHR ''/'') ((c # pre) @ w) = [] @ [(c # v) @ w]" using v False by simp
        then show ?thesis by blast
      next
        case (Cons x xs)
        then have "split_on (CHR ''/'') ((c # pre) @ w) = ((c # x) # xs) @ [v @ w]" using v False by simp
        then show ?thesis by blast
      qed
    qed
  qed
  then obtain vs v where v: "split_on (CHR ''/'') (pre @ w) = vs @ [v @ w]" by blast
  have "2 < length (v @ w)" using assms(3) by simp
  then have "v @ w \<noteq> []" "v @ w \<noteq> ''.''" by (auto dest: arg_cong [of _ _ length])
  then have "posix_parts (pre @ w) = posix_parts (join ''/'' vs) @ [v @ w] \<or> (\<exists>us. posix_parts (pre @ w) = us @ [v @ w])"
    by (auto simp: posix_parts_def v)
  then show ?thesis using assms(1) by (metis append_Nil butlast_snoc last_snoc last.simps)
qed

lemma numbered_suffix_inj:
  assumes "a @ ''-'' @ show_nat m @ ''.md'' = b @ ''-'' @ show_nat n @ ''.md''"
  shows "m = n"
proof -
  have "takeWhile digit_char (rev (show_nat m) @ CHR ''-'' # rev a) = rev (show_nat m)" for m a
    using show_nat_digits [of m] by (subst takeWhile_append2) (auto simp: minus_not_digit list_all_iff)
  moreover have "rev (show_nat m) @ CHR ''-'' # rev a = rev (show_nat n) @ CHR ''-'' # rev b"
    using arg_cong [OF assms, of rev] by simp
  ultimately have "rev (show_nat m) = rev (show_nat n)" by metis
  then show ?thesis by (simp add: show_nat_inj)
qed

lemma taken_bounded: "\<exists>k. \<forall>m \<ge> k. \<not> name_taken Q ident key m"
proof -
  let ?S = "fst ` set (q_archive Q) \<union> fst ` set (q_pending Q)"
  let ?w = "\<lambda>m. ''-'' @ show_nat m @ ''.md''"
  have sfx: "\<exists>a. n = a @ ?w m" if "name_taken Q ident key m" "m \<ge> 2"
    "n \<in> ?S" "posix_parts (queue_filename ident key m) = [n] \<or> relative_parts (queue_filename ident key m) = Inr [n]" for n m
  proof -
    have f: "queue_filename ident key m = (ident @ ''--'' @ take 8 key) @ ?w m"
      using that(2) by (simp add: queue_filename_def)
    have d: "CHR ''/'' \<notin> set (?w m)" "backslash \<notin> set (?w m)"
      using show_nat_digits [of m] by (auto simp: list_all_iff digit_char_def backslash_def)
    have p: "portable (pre @ ?w m) = portable pre @ ?w m" for pre
      using d(2) by (auto simp: portable_def intro!: map_idI)
    have "posix_parts (queue_filename ident key m) = [n] \<or> posix_parts (portable (queue_filename ident key m)) = [n]"
      using that(4) by (auto simp: relative_parts_def)
    then have "posix_parts ((ident @ ''--'' @ take 8 key) @ ?w m) = [n] \<or>
        posix_parts (portable (ident @ ''--'' @ take 8 key) @ ?w m) = [n]"
      unfolding f p .
    moreover have "length (?w m) > 2" by simp
    ultimately show ?thesis using posix_parts_suffix d(1) by blast
  qed
  define name where "name m = (SOME n. n \<in> ?S \<and> (\<exists>a. n = a @ ?w m))" for m
  have nm: "name m \<in> ?S \<and> (\<exists>a. name m = a @ ?w m)" if "name_taken Q ident key m" "m \<ge> 2" for m
  proof -
    have "\<exists>n. n \<in> ?S \<and> (\<exists>a. n = a @ ?w m)"
      using that sfx [OF that] unfolding name_taken_def archived_name_def by blast
    then show ?thesis unfolding name_def by (rule someI_ex)
  qed
  let ?T = "{m. name_taken Q ident key m \<and> m \<ge> 2}"
  have "inj_on name ?T"
    using nm numbered_suffix_inj by (intro inj_onI) (smt (verit) mem_Collect_eq)
  moreover have "name ` ?T \<subseteq> ?S" using nm by blast
  ultimately have "finite ?T" using finite_subset [OF _ finite_imageD] by (meson finite_Un finite_imageD finite_imageI finite_set finite_subset)
  then obtain b where "\<forall>m \<in> ?T. m < b" using finite_nat_set_iff_bounded by blast
  then show ?thesis by (intro exI [of _ "max b 2"]) (force simp: not_less)
qed

text \<open>The \<open>while True\<close> of \<open>enqueue\<close>: the first name that neither directory holds.\<close>

function allocate :: "queue \<Rightarrow> string \<Rightarrow> string \<Rightarrow> nat \<Rightarrow> review_error + string" where
  "allocate Q ident key attempt =
     (case relative_parts (queue_filename ident key attempt) of
        Inl e \<Rightarrow> Inl e
      | Inr parts \<Rightarrow>
          if archived_name (q_archive Q) (queue_filename ident key attempt) then allocate Q ident key (attempt + 1)
          else if length parts \<noteq> 1 then Inl (OsError ''no such directory'')
          else if hd parts \<in> fst ` set (q_pending Q) then allocate Q ident key (attempt + 1)
          else Inr (hd parts))"
  by pat_completeness auto
termination
proof (relation "measure (\<lambda>(Q, ident, key, n). card {m. n \<le> m \<and> name_taken Q ident key m})")
  have fewer: "card {m. n + 1 \<le> m \<and> name_taken Q ident key m} < card {m. n \<le> m \<and> name_taken Q ident key m}"
    if "name_taken Q ident key n" for Q ident key n
  proof (rule psubset_card_mono)
    obtain k where "\<forall>m \<ge> k. \<not> name_taken Q ident key m" using taken_bounded by blast
    then have "{m. n \<le> m \<and> name_taken Q ident key m} \<subseteq> {..<k}" by (auto simp: not_le [symmetric])
    then show "finite {m. n \<le> m \<and> name_taken Q ident key m}" by (rule finite_subset) simp
    show "{m. n + 1 \<le> m \<and> name_taken Q ident key m} \<subset> {m. n \<le> m \<and> name_taken Q ident key m}"
      using that by (auto simp: psubset_eq set_eq_iff intro!: exI [of _ n])
  qed
  show "((Q, ident, key, attempt + 1), (Q, ident, key, attempt))
      \<in> measure (\<lambda>(Q, ident, key, n). card {m. n \<le> m \<and> name_taken Q ident key m})"
    if "archived_name (q_archive Q) (queue_filename ident key attempt)" for Q ident key attempt
  proof -
    have "name_taken Q ident key attempt" using that by (simp add: name_taken_def)
    from fewer [OF this] show ?thesis by simp
  qed
  show "((Q, ident, key, attempt + 1), (Q, ident, key, attempt))
      \<in> measure (\<lambda>(Q, ident, key, n). card {m. n \<le> m \<and> name_taken Q ident key m})"
    if "relative_parts (queue_filename ident key attempt) = Inr parts" "\<not> length parts \<noteq> 1"
      "hd parts \<in> fst ` set (q_pending Q)" for Q ident key attempt parts
  proof -
    have "parts = [hd parts]" using that(2) by (cases parts) auto
    then have "relative_parts (queue_filename ident key attempt) = Inr [hd parts]" using that(1) by simp
    then have "name_taken Q ident key attempt" using that(3) unfolding name_taken_def by blast
    from fewer [OF this] show ?thesis by simp
  qed
qed simp

declare allocate.simps [simp del]

text \<open>
  What the disk does in one call: whether the directory can be made, how a write goes (it fails before the file
  is opened, or leaves some text behind), whether the removal of the pending file fails, and whether the
  removal in the exception handler does.  Every operation returns its result and the queue
  afterwards, because an operation that raises may have changed files.
\<close>

datatype disk_write = WriteOk | OpenFails | Torn string

record disk =
  dk_mkdir_fails :: bool
  dk_write :: disk_write
  dk_unlink_fails :: bool
  dk_clean_fails :: bool

definition calm :: disk where
  "calm = \<lparr>dk_mkdir_fails = False, dk_write = WriteOk, dk_unlink_fails = False, dk_clean_fails = False\<rparr>"

type_synonym 'a queue_result = "(review_error + 'a) \<times> queue"

definition add_pending :: "string \<Rightarrow> string \<Rightarrow> queue \<Rightarrow> queue" where
  "add_pending name content Q = Q\<lparr>q_pending := q_pending Q @ [(name, content)]\<rparr>"

definition enqueue ::
  "queue_env \<Rightarrow> disk \<Rightarrow> review_item \<Rightarrow> string \<Rightarrow> string \<Rightarrow> queue \<Rightarrow> string option queue_result" where
  "enqueue E d item proposal kind Q =
     (case guards
       [(kind \<in> {''replace'', ''diff''}, UsageError ''proposal kind must be replace or diff''),
        (strip (ri_pattern_key item) \<noteq> [], UsageError ''review item has an empty pattern_key'')] () of
        Inl e \<Rightarrow> (Inl e, Q)
      | Inr _ \<Rightarrow>
     let key = dedupe_key E (ri_producer item) (ri_target item) (change_type_value (ri_change_type item)) proposal
     in case list_items E (Some StatusPending) None Q of
        Inl e \<Rightarrow> (Inl e, Q)
      | Inr existing \<Rightarrow>
     if \<exists>x \<in> set existing. map_of (ri_payload (snd x)) ''dedupe_key'' = Some (JStr key) then (Inr None, Q)
     else
       (let item = item\<lparr>ri_status := StatusPending,
              ri_payload := AList.update ''dedupe_key'' (JStr key) (ri_payload item)\<rparr>
        in if dk_mkdir_fails d then (Inl (OsError ''mkdir''), Q)
           else
             (let rendered = render_item E item (ri_rationale item) proposal kind []
              in case allocate Q (ri_id item) key 0 of
                   Inl e \<Rightarrow> (Inl e, Q)
                 | Inr name \<Rightarrow>
                     (case dk_write d of
                        WriteOk \<Rightarrow> (Inr (Some name), add_pending name rendered Q)
                      | OpenFails \<Rightarrow> (Inl (OsError ''open''), Q)
                      | Torn left \<Rightarrow> (Inl (OsError ''write''), add_pending name left Q)))))"

definition load_review :: "queue_env \<Rightarrow> queue \<Rightarrow> string \<Rightarrow> review_error + loaded_review" where
  "load_review E Q name =
     (case map_of (q_pending Q) name of None \<Rightarrow> Inl (OsError ''no such file'') | Some t \<Rightarrow> parse_item E t)"

text \<open>
  \<open>archive\<close>: the copy is written first and the pending file removed after it.  When either fails, the handler
  removes the copy, and if that fails too the copy, whole or torn, stays behind.
\<close>

definition add_copy :: "string \<Rightarrow> string \<Rightarrow> queue \<Rightarrow> queue" where
  "add_copy name content Q = Q\<lparr>q_archive := q_archive Q @ [(name, content)]\<rparr>"

definition drop_copy :: "disk \<Rightarrow> string \<Rightarrow> queue \<Rightarrow> queue" where
  "drop_copy d name Q = (if dk_clean_fails d then Q else Q\<lparr>q_archive := AList.delete name (q_archive Q)\<rparr>)"

definition archive_item ::
  "queue_env \<Rightarrow> moment \<Rightarrow> disk \<Rightarrow> string \<Rightarrow> string \<Rightarrow> string \<Rightarrow> queue \<Rightarrow> unit queue_result" where
  "archive_item E now d name outcome note Q =
     (case read_status outcome of
        None \<Rightarrow> (Inl (UsageError ''outcome must be a resolved status''), Q)
      | Some status \<Rightarrow>
     if status = StatusPending then (Inl (UsageError ''outcome is not a resolved status''), Q)
     else (case load_review E Q name of
        Inl e \<Rightarrow> (Inl e, Q)
      | Inr loaded \<Rightarrow>
     let item = (lr_item loaded)\<lparr>ri_status := status, ri_resolved := Some now, ri_outcome := Some outcome\<rparr>
     in if dk_mkdir_fails d then (Inl (OsError ''mkdir''), Q)
        else if name \<in> fst ` set (q_archive Q) then (Inl (UsageError ''archive destination already exists''), Q)
        else
          (let copy = render_item E item (lr_rationale loaded) (lr_proposal loaded) (lr_kind loaded) note
           in case dk_write d of
                OpenFails \<Rightarrow> (Inl (OsError ''open''), drop_copy d name Q)
              | Torn left \<Rightarrow> (Inl (OsError ''write''), drop_copy d name (add_copy name left Q))
              | WriteOk \<Rightarrow>
                  if dk_unlink_fails d then (Inl (OsError ''unlink''), drop_copy d name (add_copy name copy Q))
                  else (Inr (), (add_copy name copy Q)\<lparr>q_pending := AList.delete name (q_pending Q)\<rparr>))))"

definition set_pending :: "string \<Rightarrow> string \<Rightarrow> queue \<Rightarrow> queue" where
  "set_pending name content Q = Q\<lparr>q_pending := AList.update name content (q_pending Q)\<rparr>"

text \<open>\<open>mark_conflict\<close> opens the pending file for writing, which empties it: a failing write leaves a torn text.\<close>

definition mark_conflict ::
  "queue_env \<Rightarrow> disk_write \<Rightarrow> string \<Rightarrow> string \<Rightarrow> queue \<Rightarrow> unit queue_result" where
  "mark_conflict E dw name reason Q =
     (case load_review E Q name of
        Inl e \<Rightarrow> (Inl e, Q)
      | Inr loaded \<Rightarrow>
     let item = (lr_item loaded)\<lparr>ri_status := StatusConflict\<rparr>;
         content = render_item E item (lr_rationale loaded) (lr_proposal loaded) (lr_kind loaded) reason
     in case dw of
          WriteOk \<Rightarrow> (Inr (), set_pending name content Q)
        | OpenFails \<Rightarrow> (Inl (OsError ''open''), Q)
        | Torn left \<Rightarrow> (Inl (OsError ''write''), set_pending name left Q))"

section \<open>Reading a rendered item\<close>

lemma universal_newlines_id: "cr \<notin> set s \<Longrightarrow> universal_newlines s = s"
  by (induction s rule: universal_newlines.induct) auto

lemma before_infix_here:
  assumes "\<forall>l \<in> set (tl (split_on nl p)). take (length fence) l \<noteq> fence" and "nl \<notin> set fence"
  shows "before_infix (nl # fence) (p @ nl # fence @ r) = Some p"
  using assms(1)
proof (induction p)
  case Nil
  then show ?case by simp
next
  case (Cons c cs)
  obtain w ws where w: "split_on nl cs = w # ws" using split_on_nonempty by (cases "split_on nl cs") auto
  show ?case
  proof (cases "c = nl")
    case False
    then have "before_infix (nl # fence) (cs @ nl # fence @ r) = Some cs"
      using Cons w by simp
    then show ?thesis using False by simp
  next
    case True
    have lines: "\<forall>l \<in> set (w # ws). take (length fence) l \<noteq> fence" using Cons.prems True w by simp
    have cs: "cs = join [nl] (w # ws)" using w join_newline_split by metis
    obtain z where z: "cs @ nl # fence @ r = w @ nl # z" by (cases ws) (auto simp: cs)
    have "take (length fence) (w @ nl # z) \<noteq> fence"
    proof
      assume f: "take (length fence) (w @ nl # z) = fence"
      show False
      proof (cases "length fence \<le> length w")
        case True
        then show ?thesis using f lines by simp
      next
        case False
        then have "nl \<in> set (take (length fence) (w @ nl # z))" by (simp add: take_Cons')
        then have "nl \<in> set fence" unfolding f .
        then show ?thesis using assms(2) by simp
      qed
    qed
    then have "take (length (nl # fence)) (c # cs @ nl # fence @ r) \<noteq> nl # fence" by (simp add: z)
    moreover have "before_infix (nl # fence) (cs @ nl # fence @ r) = Some cs"
      using Cons.IH lines w by simp
    ultimately show ?thesis by simp
  qed
qed

text \<open>The fence state after lines without a section heading, \<open>None\<close> when one of them is a heading outside fences.\<close>

fun quiet_from :: "nat \<Rightarrow> string list \<Rightarrow> nat option" where
  "quiet_from k [] = Some k"
| "quiet_from k (l # ls) =
     (case fence_len l of
        Some n \<Rightarrow> quiet_from (next_fence n l k) ls
      | None \<Rightarrow> if k = 0 \<and> heading_line l then None else quiet_from k ls)"

lemma scan_quiet:
  assumes "quiet_from k ls = Some k'"
  shows "fold scan_line ls \<lparr>sc_sections = f, sc_current = Some name, sc_buf = b, sc_open = k\<rparr> =
    \<lparr>sc_sections = f, sc_current = Some name, sc_buf = b @ ls, sc_open = k'\<rparr>"
  using assms
proof (induction ls arbitrary: k b)
  case (Cons l ls)
  then show ?case by (cases "fence_len l") (auto simp: scan_line_def scan_keep_def split: if_splits)
qed simp

lemma quiet_append: "quiet_from k (xs @ ys) = Option.bind (quiet_from k xs) (\<lambda>k. quiet_from k ys)"
  by (induction k xs rule: quiet_from.induct) (auto split: option.splits)

lemma scan_heading:
  assumes "fence_len l = None" and "heading_line l"
  shows "fold scan_line (l # ls) \<lparr>sc_sections = f, sc_current = Some name, sc_buf = b, sc_open = 0\<rparr> =
    fold scan_line ls \<lparr>sc_sections = f(name := Some (strip_of nl (join [nl] b))),
      sc_current = Some (strip (drop 3 l)), sc_buf = [], sc_open = 0\<rparr>"
  using assms by (simp add: scan_line_def scan_flush_def)

definition proposal_contained :: "string \<Rightarrow> bool" where
  "proposal_contained p \<longleftrightarrow> quiet_from 4 (split_on nl p) = Some 4 \<and>
     (\<forall>l \<in> set (tl (split_on nl p)). take 4 l \<noteq> replicate 4 backtick)"

definition rationale_contained :: "string \<Rightarrow> bool" where
  "rationale_contained r \<longleftrightarrow> quiet_from 0 (split_on nl (strip r)) = Some 0"

definition resolution_contained :: "string \<Rightarrow> bool" where
  "resolution_contained r \<longleftrightarrow> quiet_from 0 (split_on nl (strip r)) \<noteq> None"

lemma split_on_join_lines:
  "split_on nl (join [nl] (concat (map (split_on nl) ws))) = concat (map (split_on nl) ws)" if "ws \<noteq> []"
  using that split_on_nonempty split_on_join_parts
  by (intro split_on_join) (auto simp: neq_Nil_conv)

lemma split_on_mid: "split_on c (a @ c # b) = split_on c a @ split_on c b"
proof (induction a)
  case (Cons d a)
  then show ?case by (cases "split_on c a") (use split_on_nonempty [of c a] in auto)
qed simp

definition body_lines :: "string \<Rightarrow> string \<Rightarrow> string \<Rightarrow> string \<Rightarrow> string list" where
  "body_lines rationale proposal kind resolution =
     [[], ''## Rationale'', []] @ split_on nl (strip rationale) @ [[], ''## Proposal'', [], replicate 4 backtick @ kind] @
     split_on nl proposal @ [replicate 4 backtick, [], ''## Resolution''] @
     (if strip resolution \<noteq> [] then [[]] @ split_on nl (strip resolution) @ [[]] else [[]])"

lemma body_split:
  assumes "nl \<notin> set kind"
  shows "split_on nl (render_body rationale proposal kind resolution) = body_lines rationale proposal kind resolution"
proof -
  let ?r = "if strip resolution \<noteq> [] then [nl] @ strip resolution @ [nl] else []"
  have "render_body rationale proposal kind resolution =
      [] @ nl # ''## Rationale'' @ nl # [] @ nl # strip rationale @ nl # [] @ nl # ''## Proposal'' @ nl # [] @ nl #
      (replicate 4 backtick @ kind) @ nl # proposal @ nl # replicate 4 backtick @ nl # [] @ nl #
      ''## Resolution'' @ nl # ?r"
    by (simp add: render_body_def)
  moreover have "split_on nl ?r = (if strip resolution \<noteq> [] then [[]] @ split_on nl (strip resolution) @ [[]] else [[]])"
    using split_on_mid [of nl "strip resolution" "[]"] by simp
  moreover have "split_on nl (replicate 4 backtick @ kind) = [replicate 4 backtick @ kind]"
    using assms by (intro split_on_no_sep) simp
  moreover have "split_on nl (replicate 4 backtick) = [replicate 4 backtick]"
    by (intro split_on_no_sep) simp
  moreover have "split_on nl ''## Rationale'' = [''## Rationale'']" "split_on nl ''## Proposal'' = [''## Proposal'']"
    "split_on nl ''## Resolution'' = [''## Resolution'']"
    by simp_all
  ultimately show ?thesis by (simp only: split_on_mid body_lines_def) simp
qed

lemma join_append: "xs \<noteq> [] \<Longrightarrow> ys \<noteq> [] \<Longrightarrow> join sep (xs @ ys) = join sep xs @ sep @ join sep ys"
proof (induction sep xs rule: join.induct)
  case (2 sep w)
  then show ?case by (cases ys) auto
qed auto

lemma dropWhile_edge: "x = [] \<or> hd x \<noteq> c \<Longrightarrow> dropWhile (\<lambda>y. y = c) x = x"
  by (cases x) auto

lemma strip_of_pad:
  assumes "x = [] \<or> hd x \<noteq> c \<and> last x \<noteq> c"
  shows "strip_of c (c # x @ [c]) = x"
proof (cases "x = []")
  case True
  then show ?thesis by (simp add: strip_of_def)
next
  case False
  then have "dropWhile (\<lambda>y. y = c) (c # x @ [c]) = x @ [c]"
    using assms dropWhile_edge [of "x @ [c]" c] by (cases x) auto
  moreover have "dropWhile (\<lambda>y. y = c) (rev x) = rev x"
    using assms False by (intro dropWhile_edge) (simp add: hd_rev)
  ultimately show ?thesis by (simp add: strip_of_def)
qed

lemma strip_edges: "strip s = [] \<or> \<not> is_space (hd (strip s)) \<and> \<not> is_space (last (strip s))"
proof (cases "strip s = []")
  case False
  let ?t = "dropWhile is_space s"
  have s: "strip s = rev (dropWhile is_space (rev ?t))" by (simp add: strip_def)
  have l: "\<not> is_space (last (strip s))"
    using False hd_dropWhile [of is_space "rev ?t"] by (simp add: s last_rev)
  obtain b where b: "?t = strip s @ b"
    using s by (metis rev_append rev_rev_ident takeWhile_dropWhile_id)
  then have "hd (strip s) = hd ?t" "?t \<noteq> []" using False by auto
  then show ?thesis using l hd_dropWhile [of is_space s] by auto
qed simp

lemma strip_no_newline: "strip s = [] \<or> hd (strip s) \<noteq> nl \<and> last (strip s) \<noteq> nl"
proof -
  have "is_space nl" by (simp add: is_space_def)
  then show ?thesis using strip_edges [of s] by auto
qed

lemma fence_line_facts:
  assumes "kind \<in> {''replace'', ''diff''}"
  shows "fence_len (replicate 4 backtick @ kind) = Some 4" "nl \<notin> set kind" "kind \<noteq> []" "hd kind \<noteq> backtick"
proof -
  have "kind = ''replace'' \<or> kind = ''diff''" using assms by simp
  then show "fence_len (replicate 4 backtick @ kind) = Some 4" "nl \<notin> set kind" "kind \<noteq> []" "hd kind \<noteq> backtick"
    by (elim disjE; hypsubst; code_simp)+
qed

lemma fence_facts:
  "fence_len (replicate 4 backtick) = Some 4" "next_fence 4 (replicate 4 backtick) 4 = 0" "fence_len [] = None"
  "heading_line [] = False" "next_fence n l 0 = n"
  "fence_len ''## Rationale'' = None" "heading_line ''## Rationale''"
  "fence_len ''## Proposal'' = None" "heading_line ''## Proposal''"
  "fence_len ''## Resolution'' = None" "heading_line ''## Resolution''"
  "strip (drop 3 ''## Rationale'') = ''Rationale''" "strip (drop 3 ''## Proposal'') = ''Proposal''"
  "strip (drop 3 ''## Resolution'') = ''Resolution''"
  by (code_simp | simp add: next_fence_def)+

definition fenced_proposal :: "string \<Rightarrow> string \<Rightarrow> string" where
  "fenced_proposal kind p = replicate 4 backtick @ kind @ [nl] @ p @ [nl] @ replicate 4 backtick"

definition sections_from :: "section_scan \<Rightarrow> string list \<Rightarrow> string \<Rightarrow> string option" where
  "sections_from s ls = sc_sections (scan_flush (fold scan_line ls s))"

lemma sections_heading:
  assumes "quiet_from k ls = Some 0" and "fence_len h = None" and "heading_line h"
  shows "sections_from \<lparr>sc_sections = f, sc_current = Some name, sc_buf = [], sc_open = k\<rparr> (ls @ h # rest) =
    sections_from \<lparr>sc_sections = f(name := Some (strip_of nl (join [nl] ls))),
      sc_current = Some (strip (drop 3 h)), sc_buf = [], sc_open = 0\<rparr> rest"
  using scan_heading [OF assms(2,3), of rest f name ls]
  by (simp add: sections_from_def scan_quiet [OF assms(1)])

lemma sections_last:
  assumes "quiet_from k ls = Some k'"
  shows "sections_from \<lparr>sc_sections = f, sc_current = Some name, sc_buf = [], sc_open = k\<rparr> ls =
    f(name := Some (strip_of nl (join [nl] ls)))"
  by (simp add: sections_from_def scan_quiet [OF assms] scan_flush_def)

lemma sections_rendered:
  assumes "kind \<in> {''replace'', ''diff''}" and "proposal_contained p" and "rationale_contained r" and "resolution_contained res"
  shows "split_sections (render_body r p kind res) =
    [''Rationale'' \<mapsto> strip r, ''Proposal'' \<mapsto> fenced_proposal kind p, ''Resolution'' \<mapsto> strip res]"
proof -
  let ?pad = "\<lambda>x. [[]] @ split_on nl x @ [[]]"
  have pad: "strip_of nl (join [nl] (?pad x)) = x" if "x = [] \<or> hd x \<noteq> nl \<and> last x \<noteq> nl" for x
  proof -
    have "join [nl] (?pad x) = nl # x @ [nl]"
      using join_append [of "split_on nl x" "[[]]" "[nl]"] join_append [of "[[]]" "split_on nl x @ [[]]" "[nl]"]
      by (simp add: split_on_nonempty join_newline_split)
    then show ?thesis using that by (simp only: strip_of_pad)
  qed
  let ?middle = "[[], replicate 4 backtick @ kind] @ split_on nl p @ [replicate 4 backtick, []]"
  have joined: "join [nl] ?middle = nl # fenced_proposal kind p @ [nl]"
    using join_append [of "split_on nl p" "[replicate 4 backtick, []]" "[nl]"]
      join_append [of "[[], replicate 4 backtick @ kind]" "split_on nl p @ [replicate 4 backtick, []]" "[nl]"]
    by (simp add: split_on_nonempty join_newline_split fenced_proposal_def)
  have "fenced_proposal kind p \<noteq> []" "hd (fenced_proposal kind p) \<noteq> nl" "last (fenced_proposal kind p) \<noteq> nl"
    by (simp_all add: fenced_proposal_def numeral_eq_Suc)
  then have sprop: "strip_of nl (join [nl] ?middle) = fenced_proposal kind p"
    unfolding joined by (intro strip_of_pad) simp
  have q1: "quiet_from 0 (?pad (strip r)) = Some 0"
    using assms(3) by (simp add: rationale_contained_def quiet_append fence_facts)
  have q2: "quiet_from 0 ?middle = Some 0"
    using assms(2) by (simp add: proposal_contained_def quiet_append fence_facts fence_line_facts [OF assms(1)])
  let ?last = "if strip res \<noteq> [] then ?pad (strip res) else [[]]"
  obtain j where "quiet_from 0 (split_on nl (strip res)) = Some j"
    using assms(4) by (auto simp: resolution_contained_def)
  then obtain k where q3: "quiet_from 0 ?last = Some k"
    by (cases "strip res = []") (simp_all add: quiet_append fence_facts)
  have slast: "strip_of nl (join [nl] ?last) = strip res"
  proof (cases "strip res = []")
    case True
    then show ?thesis by (simp add: strip_of_def)
  next
    case False
    then show ?thesis using pad [OF strip_no_newline, of res] by simp
  qed
  have lines: "body_lines r p kind res =
      [[], ''## Rationale''] @ ?pad (strip r) @ ''## Proposal'' # ?middle @ ''## Resolution'' # ?last"
    by (simp add: body_lines_def)
  let ?init = "\<lparr>sc_sections = (\<lambda>_. None), sc_current = None, sc_buf = [], sc_open = 0\<rparr>"
  have first: "scan_line ''## Rationale'' (scan_line [] ?init) =
      \<lparr>sc_sections = (\<lambda>_. None), sc_current = Some ''Rationale'', sc_buf = [], sc_open = 0\<rparr>"
  proof -
    have "strip ''Rationale'' = ''Rationale''" by code_simp
    then show ?thesis by (simp add: scan_line_def scan_keep_def scan_flush_def fence_facts)
  qed
  have start: "split_sections (render_body r p kind res) =
      sections_from \<lparr>sc_sections = (\<lambda>_. None), sc_current = Some ''Rationale'', sc_buf = [], sc_open = 0\<rparr>
        (?pad (strip r) @ ''## Proposal'' # ?middle @ ''## Resolution'' # ?last)"
    unfolding split_sections_def body_split [OF fence_line_facts(2) [OF assms(1)]] lines sections_from_def
      append.simps fold_simps first ..
  show ?thesis
    unfolding start sections_heading [OF q1 fence_facts(8,9)] sections_heading [OF q2 fence_facts(10,11)]
      sections_last [OF q3] fence_facts pad [OF strip_no_newline] sprop slast ..
qed

lemma proposal_found:
  assumes "kind \<in> {''replace'', ''diff''}" and "proposal_contained p"
  shows "proposal_search (fenced_proposal kind p) = Some (kind, p)"
proof -
  have "before_infix (nl # replicate 4 backtick) (p @ nl # replicate 4 backtick @ []) = Some p"
    using assms(2) by (intro before_infix_here) (simp_all add: proposal_contained_def)
  moreover have "kind_at (kind @ [nl] @ x) = Some (kind, x)" for x
    using assms(1) by (auto simp: kind_at_def drop_prefix_def)
  moreover obtain k ks where k: "kind = k # ks" "k \<noteq> backtick"
    using fence_line_facts(3,4) [OF assms(1)] by (cases kind) auto
  ultimately have "proposal_at (fenced_proposal kind p) = Some (kind, p)"
    by (simp add: proposal_at_def fenced_proposal_def numeral_eq_Suc)
  then show ?thesis by (simp add: fenced_proposal_def numeral_eq_Suc)
qed

text \<open>What a constructed item satisfies, and what the code relies on in the YAML library for its mapping.\<close>

definition item_valid :: "queue_env \<Rightarrow> review_item \<Rightarrow> bool" where
  "item_valid E i \<longleftrightarrow> no_path_traversal (ri_id i) \<and> no_path_traversal (ri_target i) \<and>
     2 \<le> ri_tier i \<and> ri_tier i \<le> 3 \<and> ri_pattern_key i \<noteq> []"

definition codec_ok :: "queue_env \<Rightarrow> bool" where
  "codec_ok E \<longleftrightarrow> (\<forall>m. q_moment E (JStr (q_moment_text E m)) = Some m) \<and> (\<forall>n. q_int E (JInt n) = Some n) \<and>
     (\<forall>b. sha256_pattern (q_sha256 E b))"

definition note_safe :: "queue_env \<Rightarrow> review_item \<Rightarrow> bool" where
  "note_safe E i \<longleftrightarrow>
     (let y = q_dump E (item_fields E i)
      in q_load E y = Inr (YamlMapping (item_fields E i)) \<and> y \<noteq> [] \<and> last y = nl \<and> cr \<notin> set y \<and>
         (\<forall>l \<in> set (split_on nl (butlast y)). strip l \<noteq> FENCE))"

lemma read_values [simp]:
  "read_status (review_status_value s) = Some s" "read_change_type (change_type_value c) = Some c"
  by (cases s; simp add: read_status_def review_status_value_def)
    (cases c; simp add: read_change_type_def change_type_value_def)

lemma str_of_simps [simp]: "str_of (Some (JStr s)) = Some s" "\<not> absent (Some (JStr s))" "absent None"
  by (simp_all add: str_of_def absent_def)

lemma item_fields_map:
  "map_of (item_fields E i) ''id'' = Some (JStr (ri_id i))"
  "map_of (item_fields E i) ''created'' = Some (JStr (q_moment_text E (ri_created i)))"
  "map_of (item_fields E i) ''producer'' = Some (JStr (ri_producer i))"
  "map_of (item_fields E i) ''run_id'' = Some (JStr (ri_run_id i))"
  "map_of (item_fields E i) ''tier'' = Some (JInt (ri_tier i))"
  "map_of (item_fields E i) ''target'' = Some (JStr (ri_target i))"
  "map_of (item_fields E i) ''change_type'' = Some (JStr (change_type_value (ri_change_type i)))"
  "map_of (item_fields E i) ''pattern_key'' = Some (JStr (ri_pattern_key i))"
  "map_of (item_fields E i) ''importance'' = Some (JStr (ri_importance i))"
  "map_of (item_fields E i) ''rationale'' = Some (JStr (ri_rationale i))"
  "map_of (item_fields E i) ''base_hash'' = Some (JStr (ri_base_hash i))"
  "map_of (item_fields E i) ''status'' = Some (JStr (review_status_value (ri_status i)))"
  "map_of (item_fields E i) ''payload'' = Some (JObj (ri_payload i))"
  "map_of (item_fields E i) ''resolved'' = map_option (\<lambda>m. JStr (q_moment_text E m)) (ri_resolved i)"
  "map_of (item_fields E i) ''outcome'' = map_option JStr (ri_outcome i)"
  by (simp_all add: item_fields_def split: option.splits)

lemma fields_validate:
  assumes "item_valid E i" and "codec_ok E"
  shows "item_validate E (item_fields E i) = Inr i"
proof -
  have c: "q_moment E (JStr (q_moment_text E m)) = Some m" "q_int E (JInt n) = Some n" for m n
    using assms(2) by (simp_all add: codec_ok_def)
  have "item_checks E (item_fields E i)"
    using assms(1) unfolding item_checks_def item_fields_map item_valid_def
    by (cases "ri_resolved i"; cases "ri_outcome i") (simp_all add: item_fields_map c)
  moreover have "item_of E (item_fields E i) = i"
    unfolding item_of_def item_fields_map Let_def
    by (cases "ri_resolved i"; cases "ri_outcome i") (simp_all add: c)
  ultimately show ?thesis by (simp add: item_validate_def)
qed

definition writable :: "queue_env \<Rightarrow> review_item \<Rightarrow> string \<Rightarrow> string \<Rightarrow> string \<Rightarrow> string \<Rightarrow> bool" where
  "writable E i rationale proposal kind resolution \<longleftrightarrow>
     item_valid E i \<and> codec_ok E \<and> note_safe E i \<and> kind \<in> {''replace'', ''diff''} \<and>
     proposal_contained proposal \<and> rationale_contained rationale \<and> resolution_contained resolution \<and>
     cr \<notin> set proposal \<union> set rationale \<union> set resolution"

lemma set_strip: "set (strip s) \<subseteq> set s"
  unfolding strip_def by (auto dest!: set_dropWhileD)

lemma note_render:
  assumes "note_safe E i" and "cr \<notin> set body"
  shows "note_of E (join_frontmatter (q_dump E (item_fields E i)) body) = Inr (item_fields E i, body)"
proof -
  let ?y = "q_dump E (item_fields E i)" and ?f = "item_fields E i"
  have y: "q_load E ?y = Inr (YamlMapping ?f)" "?y \<noteq> []" "last ?y = nl" "cr \<notin> set ?y"
    "\<forall>l \<in> set (split_on nl (butlast ?y)). strip l \<noteq> FENCE"
    using assms(1) by (simp_all add: note_safe_def Let_def)
  have un: "unlines ls = join [nl] ls @ [nl]" if "ls \<noteq> []" for ls :: "string list"
    using that by (induction "[nl]" ls rule: join.induct) auto
  let ?ls = "split_on nl (butlast ?y)"
  have lines: "unlines ?ls = ?y"
    using y(2,3) append_butlast_last_id [of ?y] by (simp add: un split_on_nonempty join_newline_split)
  have "yaml_lines ?ls" using y(5) split_on_join_parts by (force simp: yaml_lines_def lines_ok_def)
  moreover have "with_newline ?y = unlines ?ls" using y(2,3) by (simp add: lines with_newline_def)
  ultimately have split: "split_frontmatter (join_frontmatter ?y body) = (?y, body, True)"
    using split_join [of ?ls ?y body] y(2) by (simp add: lines)
  have "set FENCE \<subseteq> {CHR ''-''}" by (simp add: FENCE_def)
  then have "cr \<notin> set (join_frontmatter ?y body)"
    using y(3,4) assms(2) by (auto simp: join_frontmatter_def with_newline_def cr_def)
  then have "universal_newlines (join_frontmatter ?y body) = join_frontmatter ?y body"
    by (rule universal_newlines_id)
  then show ?thesis by (simp add: note_of_def parse_frontmatter_def split y(1))
qed

lemma render_body_no_cr:
  assumes "cr \<notin> set proposal \<union> set rationale \<union> set resolution" and "kind \<in> {''replace'', ''diff''}"
  shows "cr \<notin> set (render_body rationale proposal kind resolution)"
proof -
  have "cr \<notin> set (strip rationale)" "cr \<notin> set (strip resolution)" using assms(1) set_strip by blast+
  then show ?thesis using assms by (auto simp: render_body_def cr_def)
qed

lemma parse_render:
  assumes "writable E i rationale proposal kind resolution"
  shows "parse_item E (render_item E i rationale proposal kind resolution) =
    Inr \<lparr>lr_item = i, lr_rationale = strip rationale, lr_proposal = proposal, lr_kind = kind,
      lr_resolution = strip resolution\<rparr>"
proof -
  have w: "item_valid E i" "codec_ok E" "note_safe E i" "kind \<in> {''replace'', ''diff''}" "proposal_contained proposal"
    "rationale_contained rationale" "resolution_contained resolution" "cr \<notin> set proposal \<union> set rationale \<union> set resolution"
    using assms by (simp_all add: writable_def)
  show ?thesis
    unfolding parse_item_def render_item_def note_render [OF w(3) render_body_no_cr [OF w(8,4)]]
    using fields_validate [OF w(1,2)] sections_rendered [OF w(4-7)] proposal_found [OF w(4,5)]
    by (simp add: Let_def)
qed

end
