(* ===== verification/ReviewQueueProps.thy ===== *)
theory ReviewQueueProps
  imports ReviewQueue
begin

text \<open>
  Properties of the review queue: an enqueued item loads back, a new file never lands on a name in use,
  enqueueing is idempotent, and resolving an item moves exactly its file.
\<close>

section \<open>Names\<close>

lemma hex_no: "list_all hex_char s \<Longrightarrow> CHR ''/'' \<notin> set s \<and> backslash \<notin> set s \<and> CHR 0x00 \<notin> set s"
  by (auto simp: list_all_iff hex_char_def backslash_def)

lemma key_hex: "codec_ok E \<Longrightarrow> list_all hex_char (dedupe_key E a b c d)"
  by (auto simp: codec_ok_def sha256_pattern_def dedupe_key_def list_all_iff dest: in_set_takeD)

lemma digits_no: "CHR ''/'' \<notin> set (show_nat m) \<and> backslash \<notin> set (show_nat m) \<and> CHR 0x00 \<notin> set (show_nat m)"
  using show_nat_digits [of m] by (auto simp: list_all_iff digit_char_def backslash_def)

lemma filename_chars:
  assumes "c \<notin> set ident" and "list_all hex_char key" and "c \<in> {CHR ''/'', backslash, CHR 0x00}"
  shows "c \<notin> set (queue_filename ident key n)"
  using assms hex_no [OF assms(2)] digits_no [of n]
  by (auto simp: queue_filename_def backslash_def dest!: in_set_takeD)

lemma portable_id: "backslash \<notin> set s \<Longrightarrow> portable s = s"
  by (auto simp: portable_def intro: map_idI)

lemma allocate_fresh:
  assumes "allocate Q ident key n = Inr name" and "backslash \<notin> set ident" and "list_all hex_char key"
  shows "name \<notin> fst ` set (q_pending Q) \<and> name \<notin> fst ` set (q_archive Q) \<and>
    (\<exists>m. posix_parts (queue_filename ident key m) = [name])"
  using assms
proof (induction Q ident key n rule: allocate.induct)
  case (1 Q ident key n)
  let ?f = "queue_filename ident key n"
  have p: "portable ?f = ?f" by (intro portable_id filename_chars) (use 1 in auto)
  obtain parts where parts: "relative_parts ?f = Inr parts" "parts = posix_parts ?f"
    using "1.prems"(1) by (subst (asm) allocate.simps) (auto simp: relative_parts_def p split: sum.splits)
  have run: "allocate Q ident key n = (if archived_name (q_archive Q) ?f then allocate Q ident key (n + 1)
      else if length parts \<noteq> 1 then Inl (OsError ''no such directory'')
      else if hd parts \<in> fst ` set (q_pending Q) then allocate Q ident key (n + 1) else Inr (hd parts))"
    using allocate.simps [of Q ident key n] parts(1) by simp
  show ?case
  proof (cases "archived_name (q_archive Q) ?f")
    case True
    then have "allocate Q ident key (n + 1) = Inr name" using "1.prems"(1) run by simp
    then show ?thesis using "1.IH"(1) [OF parts(1) True] "1.prems"(2,3) by blast
  next
    case False
    then have single: "\<not> length parts \<noteq> 1" using "1.prems"(1) run by (auto split: if_splits)
    then have hd: "parts = [hd parts]" by (cases parts) auto
    show ?thesis
    proof (cases "hd parts \<in> fst ` set (q_pending Q)")
      case True
      then have "allocate Q ident key (n + 1) = Inr name" using "1.prems"(1) run False single by simp
      then show ?thesis using "1.IH"(2) [OF parts(1) False single True] "1.prems"(2,3) by blast
    next
      case new: False
      then have "name = hd parts" using "1.prems"(1) run False single by simp
      moreover have "posix_parts ?f = [hd parts]" using hd parts(2) by simp
      ultimately show ?thesis using new False by (auto simp: archived_name_def)
    qed
  qed
qed

text \<open>An id that is one file name.\<close>

definition plain_id :: "string \<Rightarrow> bool" where
  "plain_id ident \<longleftrightarrow> CHR ''/'' \<notin> set ident \<and> backslash \<notin> set ident \<and> CHR 0x00 \<notin> set ident"

lemma filename_end: "\<exists>a. queue_filename ident key n = a @ ''.md''"
proof -
  have "queue_filename ident key n = (ident @ (if n = 0 then [] else ''--'' @ take 8 key @
      (if n = 1 then [] else ''-'' @ show_nat n))) @ ''.md''"
    by (simp add: queue_filename_def)
  then show ?thesis by blast
qed

lemma filename_parts:
  assumes "plain_id ident" and "list_all hex_char key"
  shows "relative_parts (queue_filename ident key n) = Inr [queue_filename ident key n]"
proof -
  let ?f = "queue_filename ident key n"
  have no: "CHR ''/'' \<notin> set ?f" "backslash \<notin> set ?f" "CHR 0x00 \<notin> set ?f"
    using assms(1) filename_chars [OF _ assms(2)] by (simp_all add: plain_id_def)
  obtain a where a: "?f = a @ ''.md''" using filename_end by blast
  have ne: "?f \<noteq> []" "?f \<noteq> ''.''" "?f \<noteq> ''..''" 
    by (auto simp: a append_eq_Cons_conv)
  have "words_of ?f \<noteq> []"
  proof -
    have "CHR ''m'' \<in> set ?f" "\<not> is_space (CHR ''m'')" by (simp_all add: a is_space_def)
    then show ?thesis using dropWhile_eq_Nil_conv [of is_space ?f] words_of_blank_front [of ?f]
      by (cases "dropWhile is_space ?f") (use hd_dropWhile [of is_space ?f] in \<open>auto simp: words_of.simps\<close>)
  qed
  then have "strip ?f \<noteq> []" using words_of_strip [of ?f] by (auto simp del: words_of_strip)
  moreover have "posix_parts ?f = [?f]" using ne split_on_no_sep [OF no(1)] by (simp add: posix_parts_def)
  moreover have "\<not> posix_is_absolute ?f" using no(1) ne(1) by (cases ?f) (auto simp: posix_is_absolute_def)
  ultimately show ?thesis
    using no ne by (simp add: relative_parts_def portable_id)
qed

lemma allocate_returns:
  assumes "plain_id ident" and "list_all hex_char key"
  shows "\<exists>m. allocate Q ident key n = Inr (queue_filename ident key m)"
  using assms
proof (induction Q ident key n rule: allocate.induct)
  case (1 Q ident key n)
  let ?f = "queue_filename ident key n"
  have parts: "relative_parts ?f = Inr [?f]" using filename_parts 1 by blast
  have run: "allocate Q ident key n = (if archived_name (q_archive Q) ?f \<or> ?f \<in> fst ` set (q_pending Q)
      then allocate Q ident key (n + 1) else Inr ?f)"
    using allocate.simps [of Q ident key n] parts by simp
  show ?case
  proof (cases "archived_name (q_archive Q) ?f \<or> ?f \<in> fst ` set (q_pending Q)")
    case True
    have "\<exists>m. allocate Q ident key (n + 1) = Inr (queue_filename ident key m)"
    proof (cases "archived_name (q_archive Q) ?f")
      case True
      then show ?thesis using "1.IH"(1) [OF parts True] "1.prems" by blast
    next
      case False
      then show ?thesis using "1.IH"(2) [OF parts False] True "1.prems" by auto
    qed
    then show ?thesis using run True by simp
  next
    case False
    then show ?thesis using run by auto
  qed
qed

section \<open>Enqueueing\<close>

definition review_key :: "queue_env \<Rightarrow> review_item \<Rightarrow> string \<Rightarrow> string" where
  "review_key E item proposal =
     dedupe_key E (ri_producer item) (ri_target item) (change_type_value (ri_change_type item)) proposal"

definition queued_item :: "queue_env \<Rightarrow> review_item \<Rightarrow> string \<Rightarrow> review_item" where
  "queued_item E item proposal = item\<lparr>ri_status := StatusPending,
     ri_payload := AList.update ''dedupe_key'' (JStr (review_key E item proposal)) (ri_payload item)\<rparr>"

definition queued_text :: "queue_env \<Rightarrow> review_item \<Rightarrow> string \<Rightarrow> string \<Rightarrow> string" where
  "queued_text E item proposal kind =
     render_item E (queued_item E item proposal) (ri_rationale item) proposal kind []"

definition has_twin :: "string \<Rightarrow> (string \<times> review_item) list \<Rightarrow> bool" where
  "has_twin key xs \<longleftrightarrow> (\<exists>x \<in> set xs. map_of (ri_payload (snd x)) ''dedupe_key'' = Some (JStr key))"

definition enqueue_new :: "queue_env \<Rightarrow> disk \<Rightarrow> review_item \<Rightarrow> string \<Rightarrow> string \<Rightarrow> queue \<Rightarrow> string option queue_result" where
  "enqueue_new E d item proposal kind Q =
     (if dk_mkdir_fails d then (Inl (OsError ''mkdir''), Q)
      else (case allocate Q (ri_id item) (review_key E item proposal) 0 of
          Inl e \<Rightarrow> (Inl e, Q)
        | Inr name \<Rightarrow> (case dk_write d of
              WriteOk \<Rightarrow> (Inr (Some name), add_pending name (queued_text E item proposal kind) Q)
            | OpenFails \<Rightarrow> (Inl (OsError ''open''), Q)
            | Torn left \<Rightarrow> (Inl (OsError ''write''), add_pending name left Q))))"

lemma enqueue_unfold:
  "enqueue E d item proposal kind Q =
     (case guards [(kind \<in> {''replace'', ''diff''}, UsageError ''proposal kind must be replace or diff''),
        (strip (ri_pattern_key item) \<noteq> [], UsageError ''review item has an empty pattern_key'')] () of
        Inl e \<Rightarrow> (Inl e, Q)
      | Inr _ \<Rightarrow> (case list_items E (Some StatusPending) None Q of
            Inl e \<Rightarrow> (Inl e, Q)
          | Inr xs \<Rightarrow>
              if has_twin (review_key E item proposal) xs then (Inr None, Q)
              else enqueue_new E d item proposal kind Q))"
proof -
  have sel: "ri_id (item\<lparr>ri_status := s, ri_payload := p\<rparr>) = ri_id item"
    "ri_rationale (item\<lparr>ri_status := s, ri_payload := p\<rparr>) = ri_rationale item" for s p
    by simp_all
  show ?thesis
    unfolding enqueue_def enqueue_new_def review_key_def queued_item_def queued_text_def has_twin_def Let_def sel ..
qed

lemma enqueue_new_cases:
  assumes "enqueue_new E d item proposal kind Q = (r, Q')"
  obtains (refused) e where "r = Inl e" "Q' = Q"
  | (torn) e name left where "r = Inl e" "Q' = add_pending name left Q"
      "allocate Q (ri_id item) (review_key E item proposal) 0 = Inr name"
  | (new) name where "r = Inr (Some name)" "Q' = add_pending name (queued_text E item proposal kind) Q"
      "allocate Q (ri_id item) (review_key E item proposal) 0 = Inr name"
  using assms unfolding enqueue_new_def by (auto split: if_splits sum.splits disk_write.splits)

lemma enqueue_ends:
  assumes "enqueue E d item proposal kind Q = (r, Q')"
  obtains (same) "Q' = Q" "\<forall>name. r \<noteq> Inr (Some name)"
  | (ran) xs where "list_items E (Some StatusPending) None Q = Inr xs" "\<not> has_twin (review_key E item proposal) xs"
      "enqueue_new E d item proposal kind Q = (r, Q')"
  using assms unfolding enqueue_unfold by (auto split: sum.splits if_splits)

lemma enqueue_cases:
  assumes "enqueue E d item proposal kind Q = (Inr (Some name), Q')"
  shows "allocate Q (ri_id item) (review_key E item proposal) 0 = Inr name \<and>
    Q' = add_pending name (queued_text E item proposal kind) Q"
  using assms
proof (cases rule: enqueue_ends)
  case (ran xs)
  from ran(3) show ?thesis by (cases rule: enqueue_new_cases) auto
qed auto

text \<open>Whatever happens, the archive is left alone and at most one file is added to the pending directory.\<close>

lemma enqueue_outcome:
  assumes "enqueue E d item proposal kind Q = (r, Q')"
  shows "Q' = Q \<or> (\<exists>name t. allocate Q (ri_id item) (review_key E item proposal) 0 = Inr name \<and> Q' = add_pending name t Q)"
  using assms
proof (cases rule: enqueue_ends)
  case (ran xs)
  from ran(3) show ?thesis by (cases rule: enqueue_new_cases) auto
qed simp

lemma map_of_snoc: "n \<notin> fst ` set xs \<Longrightarrow> map_of (xs @ [(n, t)]) n = Some t"
  by (simp add: map_add_def map_of_eq_None_iff [THEN iffD2] split: option.splits)

text \<open>
  Whatever the disk does, an enqueue leaves the archive alone and adds at most one file to the
  pending directory, under a name that neither directory holds, so no pending item and no archived
  decision is ever overwritten.
\<close>

theorem enqueue_never_overwrites:
  assumes "enqueue E d item proposal kind Q = (r, Q')" and "codec_ok E" and "backslash \<notin> set (ri_id item)"
  shows "Q' = Q \<or> (\<exists>name t. name \<notin> fst ` set (q_pending Q) \<and> name \<notin> fst ` set (q_archive Q) \<and> Q' = add_pending name t Q)"
proof -
  have "list_all hex_char (review_key E item proposal)" using key_hex [OF assms(2)] by (simp add: review_key_def)
  then show ?thesis using enqueue_outcome [OF assms(1)] allocate_fresh [OF _ assms(3)] by blast
qed


section \<open>Listing\<close>

lemma sort_created_set: "sort_created xs = Inr ys \<Longrightarrow> set ys = set xs"
  by (auto simp: sort_created_def Let_def split: if_splits)

lemma sort_created_aware:
  assumes "\<forall>x \<in> set xs. is_aware (ri_created (snd x))"
  shows "\<exists>ys. sort_created xs = Inr ys \<and> set ys = set xs"
proof -
  have "False \<notin> set (map (\<lambda>x. is_aware (ri_created (snd x))) xs)" using assms by auto
  then show ?thesis by (auto simp: sort_created_def Let_def)
qed

definition listed :: "queue_env \<Rightarrow> queue \<Rightarrow> string \<Rightarrow> review_item \<Rightarrow> bool" where
  "listed E Q name i \<longleftrightarrow> (\<exists>t. (name, t) \<in> set (q_pending Q) \<and> is_markdown name \<and> read_listed E (name, t) = Inr (name, i))"

lemma read_listed_name: "read_listed E f = Inr x \<Longrightarrow> fst x = fst f"
  by (auto simp: read_listed_def rbind_Inr_iff)

lemma list_items_pending:
  assumes "list_items E (Some StatusPending) None Q = Inr xs"
  shows "(name, i) \<in> set xs \<longleftrightarrow> listed E Q name i \<and> ri_status i = StatusPending"
proof -
  obtain items where items: "rmap (read_listed E) (sort_key fst (filter (\<lambda>f. is_markdown (fst f)) (q_pending Q))) = Inr items"
      "sort_created (filter (\<lambda>(_, i). ri_status i = StatusPending) items) = Inr xs"
    using assms by (auto simp: list_items_def rbind_Inr_iff)
  have "(name, i) \<in> set items \<longleftrightarrow> listed E Q name i"
    unfolding rmap_Inr_mem [OF items(1)] listed_def using read_listed_name by fastforce
  then show ?thesis using sort_created_set [OF items(2)] by auto
qed

lemma readable_listed:
  assumes "\<forall>f \<in> set (q_pending Q). is_markdown (fst f) \<longrightarrow> (\<exists>x. read_listed E f = Inr x)"
    and "\<forall>name i. listed E Q name i \<longrightarrow> ri_status i = StatusPending \<longrightarrow> is_aware (ri_created i)"
  shows "\<exists>xs. list_items E (Some StatusPending) None Q = Inr xs"
proof -
  let ?files = "sort_key fst (filter (\<lambda>f. is_markdown (fst f)) (q_pending Q))"
  have "\<exists>items. rmap (read_listed E) ?files = Inr items"
    using assms(1) by (intro rmap_total) auto
  then obtain items where items: "rmap (read_listed E) ?files = Inr items" ..
  have "listed E Q name i" if "(name, i) \<in> set items" for name i
    using that read_listed_name unfolding rmap_Inr_mem [OF items] listed_def by fastforce
  then have "\<forall>x \<in> set (filter (\<lambda>(_, i). ri_status i = StatusPending) items). is_aware (ri_created (snd x))"
    using assms(2) by auto
  then obtain ys where "sort_created (filter (\<lambda>(_, i). ri_status i = StatusPending) items) = Inr ys"
    using sort_created_aware by blast
  then show ?thesis using items by (simp add: list_items_def)
qed

lemma list_items_readable:
  assumes "list_items E (Some StatusPending) None Q = Inr xs" and "f \<in> set (q_pending Q)" and "is_markdown (fst f)"
  shows "\<exists>x. read_listed E f = Inr x"
proof -
  obtain items where "rmap (read_listed E) (sort_key fst (filter (\<lambda>f. is_markdown (fst f)) (q_pending Q))) = Inr items"
    using assms(1) by (auto simp: list_items_def rbind_Inr_iff)
  then have "\<forall>f \<in> set (sort_key fst (filter (\<lambda>f. is_markdown (fst f)) (q_pending Q))). \<exists>x. read_listed E f = Inr x"
    unfolding rmap_ex_iff [symmetric] by (rule exI)
  moreover have "f \<in> set (sort_key fst (filter (\<lambda>f. is_markdown (fst f)) (q_pending Q)))" using assms(2,3) by simp
  ultimately show ?thesis by (rule bspec)
qed

lemma queued_listed:
  assumes "writable E (queued_item E item proposal) (ri_rationale item) proposal kind []"
  shows "read_listed E (name, queued_text E item proposal kind) = Inr (name, queued_item E item proposal)"
proof -
  have w: "item_valid E (queued_item E item proposal)" "codec_ok E" "note_safe E (queued_item E item proposal)"
    "cr \<notin> set proposal \<union> set (ri_rationale item) \<union> set []" "kind \<in> {''replace'', ''diff''}"
    using assms by (simp_all add: writable_def)
  show ?thesis
    using note_render [OF w(3) render_body_no_cr [OF w(4,5)]] fields_validate [OF w(1,2)]
    by (simp add: read_listed_def queued_text_def render_item_def)
qed

lemma queued_fields [simp]:
  "map_of (ri_payload (queued_item E item proposal)) ''dedupe_key'' = Some (JStr (review_key E item proposal))"
  "ri_status (queued_item E item proposal) = StatusPending"
  "ri_created (queued_item E item proposal) = ri_created item" "ri_id (queued_item E item proposal) = ri_id item"
  by (simp_all add: queued_item_def update_conv')

text \<open>
  C18. Enqueueing is live and idempotent.  The conditions: the listing of the pending items returns and they carry
  aware times, as does the item; the id is one file name (no slash, backslash or NUL); the pattern key is not
  blank; the item, its dumped mapping, its rationale and its proposal satisfy the conditions of the round trip
  above; the first call's disk works.  Then the call returns: nothing when a pending item has
  the same dedupe key and a new file otherwise; and enqueueing the same proposal again, on any disk, returns nothing
  and changes nothing.
\<close>

theorem enqueue_once:
  assumes "list_items E (Some StatusPending) None Q = Inr xs" and "\<forall>x \<in> set xs. is_aware (ri_created (snd x))"
    and "is_aware (ri_created item)" and "plain_id (ri_id item)" and "strip (ri_pattern_key item) \<noteq> []"
    and "writable E (queued_item E item proposal) (ri_rationale item) proposal kind []"
    and "\<not> dk_mkdir_fails d" and "dk_write d = WriteOk"
  shows "\<exists>r Q'. enqueue E d item proposal kind Q = (Inr r, Q') \<and> (r = None \<longleftrightarrow> has_twin (review_key E item proposal) xs) \<and>
    (\<forall>d'. enqueue E d' item proposal kind Q' = (Inr None, Q'))"
proof -
  let ?key = "review_key E item proposal" and ?text = "queued_text E item proposal kind"
  have kind: "kind \<in> {''replace'', ''diff''}" and c: "codec_ok E" using assms(6) by (simp_all add: writable_def)
  have run: "enqueue E d item proposal kind R = (case list_items E (Some StatusPending) None R of
         Inl e \<Rightarrow> (Inl e, R)
       | Inr xs \<Rightarrow> if has_twin ?key xs then (Inr None, R) else enqueue_new E d item proposal kind R)" for d R
    unfolding enqueue_unfold using kind assms(5) by (simp add: guards.simps)
  show ?thesis
  proof (cases "has_twin ?key xs")
    case True
    then show ?thesis using assms(1) by (simp add: run)
  next
    case False
    have hex: "list_all hex_char ?key" using key_hex [OF c] by (simp add: review_key_def)
    obtain m where alloc: "allocate Q (ri_id item) ?key 0 = Inr (queue_filename (ri_id item) ?key m)"
      using allocate_returns [OF assms(4) hex] by blast
    define name where "name = queue_filename (ri_id item) ?key m"
    let ?Q = "add_pending name ?text Q"
    have first: "enqueue E d item proposal kind Q = (Inr (Some name), ?Q)"
      using assms(1,7,8) False alloc by (simp add: run enqueue_new_def name_def)
    have md: "is_markdown name" using filename_end [of "ri_id item" ?key m] by (auto simp: is_markdown_def name_def)
    have new: "read_listed E (name, ?text) = Inr (name, queued_item E item proposal)"
      by (rule queued_listed [OF assms(6)])
    have listed: "listed E ?Q n i \<longleftrightarrow> listed E Q n i \<or> (n = name \<and> i = queued_item E item proposal)" for n i
      using md new by (auto simp: listed_def add_pending_def)
    have "\<exists>ys. list_items E (Some StatusPending) None ?Q = Inr ys"
    proof (rule readable_listed)
      show "\<forall>f \<in> set (q_pending ?Q). is_markdown (fst f) \<longrightarrow> (\<exists>x. read_listed E f = Inr x)"
        using list_items_readable [OF assms(1)] new by (auto simp: add_pending_def)
      show "\<forall>n i. listed E ?Q n i \<longrightarrow> ri_status i = StatusPending \<longrightarrow> is_aware (ri_created i)"
        unfolding listed using list_items_pending [OF assms(1)] assms(2,3) by fastforce
    qed
    then obtain ys where ys: "list_items E (Some StatusPending) None ?Q = Inr ys" ..
    have "(name, queued_item E item proposal) \<in> set ys"
      unfolding list_items_pending [OF ys] listed by simp
    then have "has_twin ?key ys" unfolding has_twin_def by (intro bexI) simp_all
    then have "enqueue E d' item proposal kind ?Q = (Inr None, ?Q)" for d' using ys by (simp add: run)
    then show ?thesis using first False by blast
  qed
qed

section \<open>Resolving\<close>

lemma load_review_pending: "load_review E Q name = Inr loaded \<Longrightarrow> name \<in> fst ` set (q_pending Q)"
  by (cases "map_of (q_pending Q) name") (auto simp: load_review_def dest: map_of_SomeD intro: rev_image_eqI)

text \<open>
  \<open>archive\<close> succeeds exactly for a resolved status, a loadable pending item and a free archive name while
  the disk does not fail; it moves the file and touches nothing else.
\<close>

lemma archive_item_Inr:
  "archive_item E now d name outcome note Q = (Inr u, Q') \<longleftrightarrow>
   (\<exists>status loaded. read_status outcome = Some status \<and> status \<noteq> StatusPending \<and>
      load_review E Q name = Inr loaded \<and> name \<notin> fst ` set (q_archive Q) \<and>
      \<not> dk_mkdir_fails d \<and> dk_write d = WriteOk \<and> \<not> dk_unlink_fails d \<and>
      Q' = Q\<lparr>q_archive := q_archive Q @ [(name, render_item E
          ((lr_item loaded)\<lparr>ri_status := status, ri_resolved := Some now, ri_outcome := Some outcome\<rparr>)
          (lr_rationale loaded) (lr_proposal loaded) (lr_kind loaded) note)],
        q_pending := AList.delete name (q_pending Q)\<rparr>)"
  by (auto simp: archive_item_def Let_def add_copy_def split: option.splits sum.splits if_splits disk_write.splits)

text \<open>An \<open>archive\<close> that raises leaves the queue as it was, unless the clean-up fails too: then a copy stays behind.\<close>

definition left_copy :: "string \<Rightarrow> queue \<Rightarrow> queue \<Rightarrow> bool" where
  "left_copy name Q Q' \<longleftrightarrow> name \<in> fst ` set (q_pending Q) \<and> name \<notin> fst ` set (q_archive Q) \<and>
     (\<exists>t. Q' = add_copy name t Q)"

lemma delete_snoc: "n \<notin> fst ` set xs \<Longrightarrow> AList.delete n (xs @ [(n, t)]) = xs"
  by (induction xs) (auto simp: AList.delete_eq)

lemma drop_copy_added: "name \<notin> fst ` set (q_archive Q) \<Longrightarrow>
  drop_copy d name (add_copy name t Q) = (if dk_clean_fails d then add_copy name t Q else Q)"
  by (simp add: drop_copy_def add_copy_def delete_snoc)

lemma drop_copy_none: "name \<notin> fst ` set (q_archive Q) \<Longrightarrow> drop_copy d name Q = Q"
  by (simp add: drop_copy_def delete_id)

lemma archive_item_Inl:
  assumes "archive_item E now d name outcome note Q = (Inl e, Q')"
  shows "Q' = Q \<or> dk_clean_fails d \<and> left_copy name Q Q'"
proof (cases "load_review E Q name")
  case (Inl x)
  then show ?thesis using assms by (auto simp: archive_item_def split: option.splits if_splits)
next
  case (Inr loaded)
  note pending = load_review_pending [OF Inr]
  show ?thesis
  proof (cases "name \<in> fst ` set (q_archive Q)")
    case True
    then show ?thesis using assms Inr by (auto simp: archive_item_def Let_def split: option.splits if_splits)
  next
    case False
    note drop = drop_copy_added [OF False] drop_copy_none [OF False]
    show ?thesis using assms Inr pending False
      by (auto simp: archive_item_def Let_def drop left_copy_def
          split: option.splits if_splits disk_write.splits)
  qed
qed

lemma mark_conflict_Inr:
  "mark_conflict E dw name reason Q = (Inr u, Q') \<longleftrightarrow>
   dw = WriteOk \<and> (\<exists>loaded. load_review E Q name = Inr loaded \<and>
      Q' = Q\<lparr>q_pending := AList.update name (render_item E ((lr_item loaded)\<lparr>ri_status := StatusConflict\<rparr>)
        (lr_rationale loaded) (lr_proposal loaded) (lr_kind loaded) reason) (q_pending Q)\<rparr>)"
  by (auto simp: mark_conflict_def Let_def set_pending_def split: sum.splits disk_write.splits)

lemma mark_conflict_outcome:
  assumes "mark_conflict E dw name reason Q = (r, Q')"
  shows "Q' = Q \<or> name \<in> fst ` set (q_pending Q) \<and> (\<exists>t. Q' = set_pending name t Q)"
  using assms load_review_pending [of E Q name]
  by (auto simp: mark_conflict_def Let_def split: sum.splits disk_write.splits)

text \<open>
  A conflict mark keeps the proposal: the item loads again with the status conflict, the reason as its
  resolution, and the proposal and kind it had.
\<close>

lemma mark_conflict_loads:
  assumes "load_review E Q name = Inr loaded" and "mark_conflict E dw name reason Q = (Inr u, Q')"
    and "writable E ((lr_item loaded)\<lparr>ri_status := StatusConflict\<rparr>) (lr_rationale loaded) (lr_proposal loaded)
      (lr_kind loaded) reason"
  shows "load_review E Q' name = Inr \<lparr>lr_item = (lr_item loaded)\<lparr>ri_status := StatusConflict\<rparr>,
    lr_rationale = strip (lr_rationale loaded), lr_proposal = lr_proposal loaded, lr_kind = lr_kind loaded,
    lr_resolution = strip reason\<rparr>"
proof -
  have "map_of (q_pending Q') name = Some (render_item E ((lr_item loaded)\<lparr>ri_status := StatusConflict\<rparr>)
      (lr_rationale loaded) (lr_proposal loaded) (lr_kind loaded) reason)"
    using assms(1,2) by (auto simp: mark_conflict_Inr update_conv')
  then show ?thesis using parse_render [OF assms(3)] by (simp add: load_review_def)
qed

text \<open>
  One pending file that does not read, say a hand-edited one, makes every listing raise, whatever it
  asks for, and with it every enqueue: \<open>list_items\<close> does not wrap the exception as \<open>_parse_item\<close> does.
\<close>

lemma unreadable_file_blocks:
  assumes "f \<in> set (q_pending Q)" and "is_markdown (fst f)" and "read_listed E f = Inl e"
  shows "\<exists>e. list_items E status pattern Q = Inl e" and "\<exists>e. enqueue E d item proposal kind Q = (Inl e, Q)"
proof -
  let ?files = "sort_key fst (filter (\<lambda>f. is_markdown (fst f)) (q_pending Q))"
  have mem: "f \<in> set ?files" using assms(1,2) by simp
  have "rmap (read_listed E) ?files \<noteq> Inr ys" for ys
  proof
    assume "rmap (read_listed E) ?files = Inr ys"
    then have "\<forall>f \<in> set ?files. \<exists>x. read_listed E f = Inr x" unfolding rmap_ex_iff [symmetric] by (rule exI)
    then have "\<exists>x. read_listed E f = Inr x" using mem by (rule bspec)
    then show False using assms(3) by simp
  qed
  then obtain e' where r: "rmap (read_listed E) ?files = Inl e'" by (cases "rmap (read_listed E) ?files") auto
  then have l: "list_items E s p Q = Inl e'" for s p by (simp add: list_items_def)
  then show "\<exists>e. list_items E status pattern Q = Inl e" by blast
  show "\<exists>e. enqueue E d item proposal kind Q = (Inl e, Q)"
    unfolding enqueue_unfold l by (auto simp: guards.simps)
qed

end
