(* ===== verification/ReviewApply.thy ===== *)
theory ReviewApply
  imports ReviewQueueProps
begin

text \<open>
  Applying an approved item, \<open>review/apply.py\<close>: the replace modes, the guarded write, the
  rollback and \<open>apply\<close>.  The world is the queue and the vault, a partial function from
  paths to nodes: regular files with their identity, symbolic links, directories.  Whatever else may touch the vault
  is a parameter: other writers act at every pause between two looks at the vault, system calls may fail, and
  \<open>ae_hook\<close> is the callback that rebuilds the index, numbered by the call.
\<close>

section \<open>Replace modes\<close>

definition rstrip_of :: "char \<Rightarrow> string \<Rightarrow> string" where
  "rstrip_of c s = rev (dropWhile (\<lambda>x. x = c) (rev s))"

text \<open>
  \<open>_section_block_re\<close>: the header line, then lazily up to the next line that starts with \<open>## \<close>, or the end.
  The searches carry whether the position is at the start of a line.
\<close>

fun after_section :: "bool \<Rightarrow> string \<Rightarrow> string" where
  "after_section bol [] = []"
| "after_section bol (c # cs) =
     (if bol \<and> take 3 (c # cs) = ''## '' then c # cs else after_section (c = nl) cs)"

definition section_match :: "string \<Rightarrow> string \<Rightarrow> string option" where
  "section_match header s =
     (case drop_prefix header s of
        None \<Rightarrow> None
      | Some r \<Rightarrow>
          (case dropWhile (\<lambda>c. c = CHR '' '' \<or> c = CHR 0x09) r of
             [] \<Rightarrow> None
           | d # ds \<Rightarrow> if d = nl then Some (after_section True ds) else None))"

text \<open>The texts before and after the first match.\<close>

fun section_search :: "string \<Rightarrow> bool \<Rightarrow> string \<Rightarrow> (string \<times> string) option" where
  "section_search header bol [] = None"
| "section_search header bol (c # cs) =
     (case (if bol then section_match header (c # cs) else None) of
        Some post \<Rightarrow> Some ([], post)
      | None \<Rightarrow> map_option (\<lambda>(pre, post). (c # pre, post)) (section_search header (c = nl) cs))"

definition truthy :: "json \<Rightarrow> bool" where
  "truthy v = (case v of JNull \<Rightarrow> False | JBool b \<Rightarrow> b | JInt i \<Rightarrow> i \<noteq> 0 | JFloat r \<Rightarrow> r \<noteq> 0
     | JStr s \<Rightarrow> s \<noteq> [] | JArr xs \<Rightarrow> xs \<noteq> [] | JObj m \<Rightarrow> m \<noteq> [])"

definition replace_section :: "string \<Rightarrow> json option \<Rightarrow> string \<Rightarrow> review_error + string" where
  "replace_section body wanted block =
     (case wanted of
        None \<Rightarrow> Inl (UsageError ''replace_section payload needs a section key'')
      | Some v \<Rightarrow>
          if \<not> truthy v then Inl (UsageError ''replace_section payload needs a section key'')
          else (case v of
            JStr header \<Rightarrow>
              (case section_search header True body of
                 None \<Rightarrow> Inl (PatchError ''section not found in target'')
               | Some (pre, post) \<Rightarrow> Inr (rstrip_of nl (pre @ block @ [nl, nl] @ post) @ [nl]))
          | _ \<Rightarrow> Inl PyTypeError))"

definition apply_replace :: "string \<Rightarrow> json \<Rightarrow> json option \<Rightarrow> string \<Rightarrow> review_error + string" where
  "apply_replace current mode wanted proposal =
     (case split_frontmatter current of (yaml, body, had) \<Rightarrow>
      let block = strip_of nl proposal in
      if mode = JStr ''full_file'' then
        (let new_body = (if block \<noteq> [] then [nl] @ block @ [nl] else [])
         in Inr (if had then join_frontmatter yaml new_body else block @ [nl]))
      else if mode = JStr ''append_section'' then
        (let stem = rstrip_of nl body;
             new_body = (if stem \<noteq> [] then stem @ [nl, nl] @ block @ [nl] else [nl] @ block @ [nl])
         in Inr (if had then join_frontmatter yaml new_body else dropWhile (\<lambda>c. c = nl) new_body))
      else if mode = JStr ''replace_section'' then
        rbind (replace_section body wanted block) (\<lambda>new_body.
          Inr (if had then join_frontmatter yaml new_body else new_body))
      else Inl (UsageError ''unknown replace mode''))"

section \<open>The vault\<close>

text \<open>
  A regular file has an identity (the pair \<open>st_dev\<close>, \<open>st_ino\<close>), permission bits and a text, \<open>None\<close> when its
  bytes are not UTF-8.  Paths are lists of components; a link carries the path it points to.
\<close>

datatype node =
    Regular nat nat "string option"
  | SymLink "string list"
  | Directory
  | Special

type_synonym vault = "string list \<Rightarrow> node option"

text \<open>Following links as the kernel does, up to 40 of them.\<close>

fun follow :: "nat \<Rightarrow> vault \<Rightarrow> string list \<Rightarrow> node option" where
  "follow 0 v p = (case v p of Some (SymLink q) \<Rightarrow> None | x \<Rightarrow> x)"
| "follow (Suc n) v p = (case v p of Some (SymLink q) \<Rightarrow> follow n v q | x \<Rightarrow> x)"

definition stat :: "vault \<Rightarrow> string list \<Rightarrow> node option" where
  "stat v p = follow 40 v p"

definition is_file :: "vault \<Rightarrow> string list \<Rightarrow> bool" where
  "is_file v p = (case stat v p of Some (Regular _ _ _) \<Rightarrow> True | _ \<Rightarrow> False)"

text \<open>\<open>path.read_text(encoding="utf-8")\<close>\<close>

definition node_text :: "node option \<Rightarrow> review_error + string" where
  "node_text x = (case x of
     None \<Rightarrow> Inl (OsError ''no such file'')
   | Some (Regular _ _ (Some t)) \<Rightarrow> Inr (universal_newlines t)
   | Some (Regular _ _ None) \<Rightarrow> Inl PyUnicodeError
   | Some _ \<Rightarrow> Inl (OsError ''not a regular file''))"

definition read_text :: "vault \<Rightarrow> string list \<Rightarrow> review_error + string" where
  "read_text v p = node_text (stat v p)"

section \<open>The world\<close>

text \<open>
  The points of a run at which other writers may change the vault.  The guarded write runs at most twice, once forward
  and once in the rollback, which the number tells apart; between two consecutive looks at the
  vault one point is enough, as the changes of a point are arbitrary.
\<close>

datatype pause =
    BeforeIsFile | BeforeRead
  | BeforeLstat nat | Preparing nat | BeforeRelstat nat | BeforeReplace nat
  | BeforeArchive | BeforeInspect | BeforeReread

datatype io_call = Mkstemp | Fchmod | OpenLive | ReplaceCall | UnlinkTemp

record apply_env =
  ae_realpath :: "string list \<Rightarrow> string list"
  ae_base :: "string list"
  ae_other :: "pause \<Rightarrow> vault \<Rightarrow> vault"
  ae_token :: "nat \<Rightarrow> string list \<Rightarrow> vault \<Rightarrow> string \<times> nat"
  ae_fails :: "nat \<Rightarrow> io_call \<Rightarrow> string option"
  ae_temp_write :: "nat \<Rightarrow> disk_write"
  ae_hook :: "(nat \<Rightarrow> string list \<Rightarrow> vault \<Rightarrow> vault \<times> string option) option"
  ae_archive_disk :: disk
  ae_mark_write :: disk_write
  ae_today :: string
  ae_now :: moment

record world =
  w_queue :: queue
  w_vault :: vault

datatype apply_result = AppliedResult "string list" string | ConflictResult "string list" string

type_synonym 'a vault_result = "(review_error + 'a) \<times> vault"

type_synonym 'a run = "(review_error + 'a) \<times> world"

definition content_hash :: "queue_env \<Rightarrow> string \<Rightarrow> string" where
  "content_hash E s = take 16 (q_sha256 E (utf8_encode s))"

section \<open>The guarded write\<close>

definition file_name :: "string list \<Rightarrow> string" where
  "file_name p = (if p = [] then [] else last p)"

definition temp_path :: "apply_env \<Rightarrow> nat \<Rightarrow> string list \<Rightarrow> vault \<Rightarrow> string list" where
  "temp_path A k target v =
     butlast target @ [''.'' @ file_name target @ ''.'' @ fst (ae_token A k target v) @ ''.tmp'']"

text \<open>The check on \<open>path.lstat()\<close>: identity and permission bits of a regular file, which a link is not.\<close>

definition lstat_regular :: "vault \<Rightarrow> string list \<Rightarrow> string \<Rightarrow> review_error + nat \<times> nat" where
  "lstat_regular v target when =
     (case v target of
        None \<Rightarrow> Inl (OsError ''no such file'')
      | Some (SymLink _) \<Rightarrow> Inl (PathBoundaryError (''target became a symlink before '' @ when))
      | Some (Regular ino mode _) \<Rightarrow> Inr (ino, mode)
      | Some _ \<Rightarrow> Inl (OsError ''canonical target is not a regular file''))"

text \<open>\<open>tempfile.mkstemp\<close> creates a file that was not there, in the directory of the target.\<close>

definition make_temp :: "apply_env \<Rightarrow> nat \<Rightarrow> string list \<Rightarrow> vault \<Rightarrow> (string list \<times> nat) vault_result" where
  "make_temp A k target v =
     (let temp = temp_path A k target v; ino = snd (ae_token A k target v)
      in case ae_fails A k Mkstemp of
           Some e \<Rightarrow> (Inl (OsError e), v)
         | None \<Rightarrow>
             if v temp \<noteq> None then (Inl (OsError ''file exists''), v)
             else (Inr (temp, ino), v(temp := Some (Regular ino 384 (Some [])))))"

definition fill_temp ::
  "apply_env \<Rightarrow> nat \<Rightarrow> string list \<Rightarrow> nat \<Rightarrow> nat \<Rightarrow> string \<Rightarrow> vault \<Rightarrow> unit vault_result" where
  "fill_temp A k temp ino mode content v =
     (case ae_fails A k Fchmod of
        Some e \<Rightarrow> (Inl (OsError e), v)
      | None \<Rightarrow>
          (case ae_temp_write A k of
             WriteOk \<Rightarrow> (Inr (), v(temp := Some (Regular ino mode (Some content))))
           | OpenFails \<Rightarrow> (Inl (OsError ''write''), v(temp := Some (Regular ino mode (Some []))))
           | Torn left \<Rightarrow> (Inl (OsError ''write''), v(temp := Some (Regular ino mode (Some left))))))"

text \<open>\<open>_read_live_no_follow\<close>: open without following a link, read, and compare the path with what was opened.\<close>

definition read_live_no_follow :: "apply_env \<Rightarrow> nat \<Rightarrow> string list \<Rightarrow> vault \<Rightarrow> string vault_result" where
  "read_live_no_follow A k target v =
     (case ae_fails A k OpenLive of
        Some e \<Rightarrow> (Inl (OsError e), v)
      | None \<Rightarrow>
          (case v target of
             None \<Rightarrow> (Inl (OsError ''no such file''), v)
           | Some (SymLink _) \<Rightarrow> (Inl (PathBoundaryError ''target became a symlink before replacement''), v)
           | Some (Regular ino _ None) \<Rightarrow> (Inl (OsError ''canonical target is not valid UTF-8''), v)
           | Some (Regular ino _ (Some t)) \<Rightarrow>
               (let v' = ae_other A (BeforeRelstat k) v
                in case lstat_regular v' target ''replacement'' of
                     Inl e \<Rightarrow> (Inl e, v')
                   | Inr (live_ino, _) \<Rightarrow>
                       if live_ino \<noteq> ino
                       then (Inl (OsError ''canonical target changed during verification''), v')
                       else (Inr (universal_newlines t), v'))
           | Some _ \<Rightarrow> (Inl (OsError ''canonical target is not a regular file''), v)))"

text \<open>\<open>os.replace\<close> moves whatever is at the temporary path; a directory at either end is refused.\<close>

definition replace_file :: "apply_env \<Rightarrow> nat \<Rightarrow> string list \<Rightarrow> string list \<Rightarrow> vault \<Rightarrow> unit vault_result" where
  "replace_file A k temp target v =
     (case ae_fails A k ReplaceCall of
        Some e \<Rightarrow> (Inl (OsError e), v)
      | None \<Rightarrow>
          (case v temp of
             None \<Rightarrow> (Inl (OsError ''no such file''), v)
           | Some moved \<Rightarrow>
               if moved = Directory \<or> v target = Some Directory then (Inl (OsError ''is a directory''), v)
               else (Inr (), v(target := Some moved, temp := None))))"

definition discard_temp :: "apply_env \<Rightarrow> nat \<Rightarrow> string list \<Rightarrow> vault \<Rightarrow> vault" where
  "discard_temp A k temp v =
     (if ae_fails A k UnlinkTemp \<noteq> None \<or> v temp = Some Directory then v else v(temp := None))"

text \<open>
  \<open>_write_no_follow\<close>.  The handler of the source removes the temporary file on every error after its creation.
\<close>

definition write_no_follow ::
  "queue_env \<Rightarrow> apply_env \<Rightarrow> nat \<Rightarrow> string list \<Rightarrow> string \<Rightarrow> string \<Rightarrow> vault \<Rightarrow> unit vault_result" where
  "write_no_follow E A k target content expected v =
     (let v = ae_other A (BeforeLstat k) v
      in case lstat_regular v target ''the write'' of
        Inl e \<Rightarrow> (Inl e, v)
      | Inr (_, mode) \<Rightarrow>
     (case make_temp A k target v of
        (Inl e, v) \<Rightarrow> (Inl e, v)
      | (Inr (temp, ino), v) \<Rightarrow>
     (case fill_temp A k temp ino mode content v of
        (Inl e, v) \<Rightarrow> (Inl e, discard_temp A k temp v)
      | (Inr _, v) \<Rightarrow>
     (case read_live_no_follow A k target (ae_other A (Preparing k) v) of
        (Inl e, v) \<Rightarrow> (Inl e, discard_temp A k temp v)
      | (Inr live, v) \<Rightarrow>
     if content_hash E live \<noteq> expected
     then (Inl (OsError ''canonical target drifted during atomic write preparation''), discard_temp A k temp v)
     else
     (case replace_file A k temp target (ae_other A (BeforeReplace k) v) of
        (Inl e, v) \<Rightarrow> (Inl e, discard_temp A k temp v)
      | (Inr _, v) \<Rightarrow> (Inr (), v))))))"

section \<open>The run\<close>

definition stamp :: "string \<Rightarrow> string \<Rightarrow> string" where
  "stamp today s = (case surgical_replace_field s ''updated'' (''updated: '' @ today) of Inr t \<Rightarrow> t | Inl _ \<Rightarrow> s)"

definition patched :: "loaded_review \<Rightarrow> string \<Rightarrow> review_error + string" where
  "patched loaded current =
     (if lr_kind loaded = ''diff'' then apply_unified_diff current (lr_proposal loaded)
      else (let payload = map_of (ri_payload (lr_item loaded));
                mode = (case payload ''mode'' of Some m \<Rightarrow> m | None \<Rightarrow> JStr ''full_file'')
            in apply_replace current mode (payload ''section'') (lr_proposal loaded)))"

definition error_text :: "review_error \<Rightarrow> string" where
  "error_text e = (case e of
     UsageError m \<Rightarrow> ''UsageError: '' @ m | PatchError m \<Rightarrow> ''PatchError: '' @ m
   | PathBoundaryError m \<Rightarrow> ''PathBoundaryError: '' @ m | OsError m \<Rightarrow> ''OSError: '' @ m
   | PyUnicodeError \<Rightarrow> ''UnicodeDecodeError: '' | NoteError _ \<Rightarrow> ''FrontmatterError: ''
   | InvalidItem \<Rightarrow> ''ValidationError: '' | PyTypeError \<Rightarrow> ''TypeError: '')"

definition conflict ::
  "queue_env \<Rightarrow> apply_env \<Rightarrow> string \<Rightarrow> string list \<Rightarrow> string \<Rightarrow> world \<Rightarrow> apply_result run" where
  "conflict E A name target reason w =
     (case mark_conflict E (ae_mark_write A) name reason (w_queue w) of
        (Inl e, Q) \<Rightarrow> (Inl e, w\<lparr>w_queue := Q\<rparr>)
      | (Inr _, Q) \<Rightarrow> (Inr (ConflictResult target reason), w\<lparr>w_queue := Q\<rparr>))"

text \<open>
  The inner function \<open>rollback\<close>: the live text if it could be read, then what was restored, the recovery messages and
  the vault.
\<close>

definition inspect :: "apply_env \<Rightarrow> string list \<Rightarrow> vault \<Rightarrow> string option \<times> string list \<times> vault" where
  "inspect A target v =
     (let v = ae_other A BeforeInspect v
      in if is_file v target
         then (let v = ae_other A BeforeReread v
               in case read_text v target of
                    Inl e \<Rightarrow> (None, [''could not inspect live canonical file: '' @ error_text e], v)
                  | Inr live \<Rightarrow> (Some live, [], v))
         else (None, [], v))"

definition restore ::
  "queue_env \<Rightarrow> apply_env \<Rightarrow> string list \<Rightarrow> string \<Rightarrow> string \<Rightarrow> string option \<Rightarrow> vault \<Rightarrow>
   bool \<times> string list \<times> vault" where
  "restore E A target current applied live v =
     (if (case live of None \<Rightarrow> False | Some t \<Rightarrow> content_hash E t = applied) then
        (case write_no_follow E A 1 target current applied v of
           (Inr _, v') \<Rightarrow> (True, [], v')
         | (Inl e, v') \<Rightarrow> (False, [''canonical rollback failed: '' @ error_text e], v'))
      else (False, [''concurrent canonical change preserved; proposal rollback did not overwrite it''], v))"

definition reindex_again :: "apply_env \<Rightarrow> string list \<Rightarrow> bool \<Rightarrow> vault \<Rightarrow> string list \<times> vault" where
  "reindex_again A target restored v =
     (case ae_hook A of
        None \<Rightarrow> ([], v)
      | Some hook \<Rightarrow>
          (case hook 1 target v of
             (v', None) \<Rightarrow> ([], v')
           | (v', Some e) \<Rightarrow>
               ([(if restored then ''index rollback'' else ''live-content reindex'') @ '' failed: '' @ e], v')))"

definition rollback ::
  "queue_env \<Rightarrow> apply_env \<Rightarrow> string \<Rightarrow> string list \<Rightarrow> string \<Rightarrow> string \<Rightarrow> string \<Rightarrow> world \<Rightarrow> apply_result run" where
  "rollback E A name target current applied reason w =
     (case inspect A target (w_vault w) of (live, seen, v) \<Rightarrow>
      case restore E A target current applied live v of (restored, told, v') \<Rightarrow>
      case reindex_again A target restored v' of (more_told, v'') \<Rightarrow>
      let recovery = seen @ told @ more_told @
            (if restored then [''canonical content and derived index restored to the pre-apply state'']
             else if live = None then [''inspect the canonical path before retrying'']
             else []);
          detail = reason @ (if recovery \<noteq> [] then ''; '' @ join ''; '' recovery else []) @
            (if \<exists>part \<in> set recovery. has_infix ''failed:'' part
             then ''; run `mvault sync --full` before retrying'' else []);
          w' = w\<lparr>w_vault := v''\<rparr>
      in if name \<in> fst ` set (q_pending (w_queue w)) then conflict E A name target detail w'
         else (Inr (ConflictResult target detail), w'))"

definition finish ::
  "queue_env \<Rightarrow> apply_env \<Rightarrow> string \<Rightarrow> loaded_review \<Rightarrow> string list \<Rightarrow> string \<Rightarrow> string \<Rightarrow> world \<Rightarrow>
   apply_result run" where
  "finish E A name loaded target current applied w =
     (let w = w\<lparr>w_vault := ae_other A BeforeArchive (w_vault w)\<rparr>;
          note = ''applied to '' @ ri_target (lr_item loaded) @ '' ('' @ lr_kind loaded @ '')'' @
            (if ae_hook A \<noteq> None then ''; derived index synchronized'' else [])
      in case archive_item E (ae_now A) (ae_archive_disk A) name ''applied'' note (w_queue w) of
           (Inl e, Q) \<Rightarrow>
             rollback E A name target current applied (''review archive failed after reindex: '' @ error_text e)
               (w\<lparr>w_queue := Q\<rparr>)
         | (Inr _, Q) \<Rightarrow> (Inr (AppliedResult target name), w\<lparr>w_queue := Q\<rparr>))"

text \<open>The part of \<open>apply\<close> after the canonical file is written.\<close>

definition settle ::
  "queue_env \<Rightarrow> apply_env \<Rightarrow> string \<Rightarrow> loaded_review \<Rightarrow> string list \<Rightarrow> string \<Rightarrow> string \<Rightarrow> world \<Rightarrow>
   apply_result run" where
  "settle E A name loaded target current applied w =
     (case ae_hook A of
        None \<Rightarrow> finish E A name loaded target current applied w
      | Some hook \<Rightarrow>
          (case hook 0 target (w_vault w) of
             (v, Some e) \<Rightarrow>
               rollback E A name target current applied (''reindex failed after applying the proposal: '' @ e)
                 (w\<lparr>w_vault := v\<rparr>)
           | (v, None) \<Rightarrow>
               (case read_text v target of
                  Inl e \<Rightarrow> rollback E A name target current applied
                    (''could not verify canonical content after reindex: '' @ error_text e) (w\<lparr>w_vault := v\<rparr>)
                | Inr live \<Rightarrow>
                    if content_hash E live \<noteq> applied
                    then rollback E A name target current applied
                      ''canonical target drifted while reindexing; refusing to archive or report success''
                      (w\<lparr>w_vault := v\<rparr>)
                    else finish E A name loaded target current applied (w\<lparr>w_vault := v\<rparr>))))"

definition apply_review :: "queue_env \<Rightarrow> apply_env \<Rightarrow> string \<Rightarrow> world \<Rightarrow> apply_result run" where
  "apply_review E A name w =
     (case load_review E (w_queue w) name of
        Inl (UsageError m) \<Rightarrow> (Inr (ConflictResult (ae_base A) m), w)
      | Inl e \<Rightarrow> (Inl e, w)
      | Inr loaded \<Rightarrow>
     (case resolve_within (ae_realpath A) (ae_base A) (ri_target (lr_item loaded)) of
        Inl (PathBoundaryError m) \<Rightarrow> conflict E A name (ae_base A) (''unsafe target path: '' @ m) w
      | Inl e \<Rightarrow> (Inl e, w)
      | Inr target \<Rightarrow>
     let w = w\<lparr>w_vault := ae_other A BeforeIsFile (w_vault w)\<rparr>
     in if \<not> is_file (w_vault w) target
     then conflict E A name target (''target file missing: '' @ ri_target (lr_item loaded)) w
     else
     let w = w\<lparr>w_vault := ae_other A BeforeRead (w_vault w)\<rparr>
     in case read_text (w_vault w) target of
        Inl e \<Rightarrow> (Inl e, w)
      | Inr current \<Rightarrow>
     if content_hash E current \<noteq> ri_base_hash (lr_item loaded)
     then conflict E A name target ''base_hash drift: target changed since proposal'' w
     else
     (case patched loaded current of
        Inl (PatchError m) \<Rightarrow> conflict E A name target m w
      | Inl e \<Rightarrow> (Inl e, w)
      | Inr new_text \<Rightarrow>
     let new_text = stamp (ae_today A) new_text
     in (case write_no_follow E A 0 target new_text (ri_base_hash (lr_item loaded)) (w_vault w) of
           (Inl e, v) \<Rightarrow>
             conflict E A name target (''canonical write failed before apply: '' @ error_text e) (w\<lparr>w_vault := v\<rparr>)
         | (Inr _, v) \<Rightarrow>
             settle E A name loaded target current (content_hash E new_text) (w\<lparr>w_vault := v\<rparr>)))))"

end
