(* ===== verification/ReviewApplyProps.thy ===== *)
theory ReviewApplyProps
  imports ReviewApply
begin

text \<open>
  Properties of applying a review item: texts read through newline translation contain no carriage
  return, so the hashes compared before and after a write are hashes of the same text; the
  outcome moves the item at most once; and without interference the vault is changed completely or not at all.
\<close>

section \<open>No carriage returns\<close>

abbreviation no_cr :: "string \<Rightarrow> bool" where "no_cr s \<equiv> cr \<notin> set s"

lemma cr_not [simp]: "cr \<noteq> nl" "nl \<noteq> cr" by (simp_all add: cr_def)

lemma universal_newlines_no_cr [simp]: "no_cr (universal_newlines s)"
  by (induction s rule: universal_newlines.induct) auto

lemma universal_newlines_idem [simp]: "universal_newlines (universal_newlines s) = universal_newlines s"
  by (rule universal_newlines_id) simp

lemma no_cr_parts:
  "no_cr s \<Longrightarrow> no_cr (take n s)" "no_cr s \<Longrightarrow> no_cr (drop n s)" "no_cr s \<Longrightarrow> no_cr (text_slice i j s)"
  "no_cr s \<Longrightarrow> no_cr (strip_of c s)" "no_cr s \<Longrightarrow> no_cr (rstrip_of c s)" "no_cr s \<Longrightarrow> no_cr (dropWhile P s)"
  by (auto simp: text_slice_def strip_of_def rstrip_of_def dest!: in_set_takeD in_set_dropD set_dropWhileD)

lemma no_cr_split: "no_cr s \<Longrightarrow> \<forall>l \<in> set (split_on c s). no_cr l"
  using split_on_chars by blast

lemma no_cr_join: "\<forall>l \<in> set ls. no_cr l \<Longrightarrow> no_cr sep \<Longrightarrow> no_cr (join sep ls)"
  using set_join [of sep ls] by blast

lemma split_frontmatter_no_cr:
  "split_frontmatter s = (yaml, body, had) \<Longrightarrow> no_cr s \<Longrightarrow> no_cr yaml \<and> no_cr body"
  by (auto simp: split_frontmatter_def no_cr_parts split: option.splits)

lemma join_frontmatter_no_cr: "no_cr yaml \<Longrightarrow> no_cr body \<Longrightarrow> no_cr (join_frontmatter yaml body)"
  by (auto simp: join_frontmatter_def with_newline_def FENCE_def cr_def)

lemma note_of_no_cr: "note_of E content = Inr (d, body) \<Longrightarrow> no_cr body"
  using split_frontmatter_no_cr [of "universal_newlines content"]
  by (auto simp: note_of_def parse_frontmatter_def Let_def rbind_Inr_iff split: sum.splits prod.splits if_splits yaml_value.splits)

definition scan_clean :: "section_scan \<Rightarrow> bool" where
  "scan_clean s \<longleftrightarrow> (\<forall>n t. sc_sections s n = Some t \<longrightarrow> no_cr t) \<and> (\<forall>l \<in> set (sc_buf s). no_cr l)"

lemma scan_flush_clean:
  assumes "scan_clean s"
  shows "scan_clean (scan_flush s)"
proof -
  have "no_cr (strip_of nl (join [nl] (sc_buf s)))"
    using assms by (intro no_cr_parts(4) no_cr_join) (simp_all add: scan_clean_def)
  then show ?thesis using assms by (auto simp: scan_flush_def scan_clean_def split: option.splits)
qed

lemma scan_keep_clean: "scan_clean s \<Longrightarrow> no_cr l \<Longrightarrow> scan_clean (scan_keep l s)"
  by (auto simp: scan_keep_def scan_clean_def)

lemma scan_line_clean:
  assumes "scan_clean s" and "no_cr l"
  shows "scan_clean (scan_line l s)"
proof -
  have "scan_clean (s\<lparr>sc_open := k\<rparr>)" for k using assms(1) by (simp add: scan_clean_def)
  moreover have "scan_clean ((scan_flush s)\<lparr>sc_current := c, sc_buf := []\<rparr>)" for c
    using scan_flush_clean [OF assms(1)] by (simp add: scan_clean_def)
  ultimately show ?thesis
    using assms by (auto simp: scan_line_def intro: scan_keep_clean split: option.splits)
qed

lemma scan_lines_clean: "scan_clean s \<Longrightarrow> \<forall>l \<in> set ls. no_cr l \<Longrightarrow> scan_clean (fold scan_line ls s)"
  by (induction ls arbitrary: s) (auto intro: scan_line_clean)

lemma split_sections_no_cr: "split_sections body n = Some t \<Longrightarrow> no_cr body \<Longrightarrow> no_cr t"
proof -
  assume t: "split_sections body n = Some t" and b: "no_cr body"
  have "scan_clean \<lparr>sc_sections = (\<lambda>_. None), sc_current = None, sc_buf = [], sc_open = 0\<rparr>"
    by (simp add: scan_clean_def)
  from scan_flush_clean [OF scan_lines_clean [OF this no_cr_split [OF b]]] t
  show "no_cr t" by (auto simp: split_sections_def scan_clean_def)
qed

lemma before_infix_prefix: "before_infix pat s = Some p \<Longrightarrow> \<exists>r. s = p @ r"
  by (induction s arbitrary: p) (auto split: if_splits)

lemma kind_at_no_cr: "kind_at s = Some (k, r) \<Longrightarrow> no_cr s \<Longrightarrow> no_cr r"
  by (auto simp: kind_at_def drop_prefix_def dest!: in_set_dropD split: option.splits if_splits)

lemma proposal_search_no_cr: "proposal_search s = Some (k, p) \<Longrightarrow> no_cr s \<Longrightarrow> no_cr p"
proof (induction s)
  case (Cons c cs)
  show ?case
  proof (cases "proposal_at (c # cs)")
    case None
    then show ?thesis using Cons by simp
  next
    case (Some m)
    then have "proposal_at (c # cs) = Some (k, p)" using Cons.prems(1) by simp
    then obtain r where r: "kind_at (dropWhile (\<lambda>c. c = backtick) (c # cs)) = Some (k, r)"
        "before_infix (nl # takeWhile (\<lambda>c. c = backtick) (c # cs)) r = Some p"
      by (auto simp: proposal_at_def Let_def split: if_splits option.splits)
    have "no_cr r" by (rule kind_at_no_cr [OF r(1) no_cr_parts(6) [OF Cons.prems(2)]])
    then show ?thesis using before_infix_prefix [OF r(2)] by auto
  qed
qed simp

lemma parse_item_no_cr:
  assumes "parse_item E content = Inr loaded"
  shows "no_cr (lr_proposal loaded)"
proof -
  let ?text = "\<lambda>body name. case split_sections body name of Some t \<Rightarrow> t | None \<Rightarrow> []"
  obtain data body k where body: "note_of E content = Inr (data, body)"
    and p: "proposal_search (?text body ''Proposal'') = Some (k, lr_proposal loaded)"
    using assms by (auto simp: parse_item_def Let_def rbind_Inr_iff split: option.split_asm prod.split_asm)
  have "no_cr (?text body ''Proposal'')"
    using split_sections_no_cr [of body "''Proposal''"] note_of_no_cr [OF body] by (cases "split_sections body ''Proposal''") auto
  then show ?thesis by (rule proposal_search_no_cr [OF p])
qed

lemma consume_out: "consume orig x s = Inr t \<Longrightarrow> pt_out t = pt_out s"
  by (auto simp: consume_def split: if_splits)

lemma hunk_line_out: "hunk_line orig raw s = Inr t \<Longrightarrow> set (pt_out t) \<subseteq> insert (drop 1 raw) (set (pt_out s))"
  unfolding hunk_line_def rbind_Inr_iff Let_def
  by (elim exE conjE) (auto simp del: One_nat_def simp: rbind_Inr_iff dest!: consume_out split: if_split_asm)

lemma patch_line_out:
  assumes "patch_line orig raw s = Inr t"
  shows "set (pt_out t) \<subseteq> insert (drop 1 raw) (set (pt_out s) \<union> set orig)"
proof (cases "hunk_header raw")
  case None
  then show ?thesis using assms hunk_line_out [of orig raw s t] by (auto simp: patch_line_def split: if_split_asm)
next
  case (Some h)
  then show ?thesis using assms
    by (cases h) (auto simp: patch_line_def Let_def dest!: in_set_takeD in_set_dropD split: if_split_asm)
qed

lemma patch_line_no_cr:
  assumes "patch_line orig raw s = Inr s'" and "\<forall>l \<in> set orig. no_cr l" and "no_cr raw" and "\<forall>l \<in> set (pt_out s). no_cr l"
  shows "\<forall>l \<in> set (pt_out s'). no_cr l"
  using patch_line_out [OF assms(1)] assms(2,4) no_cr_parts(2) [OF assms(3), of 1] by blast

lemma patch_lines_no_cr:
  "patch_lines orig ls s = Inr s' \<Longrightarrow> \<forall>l \<in> set orig. no_cr l \<Longrightarrow> \<forall>l \<in> set ls. no_cr l \<Longrightarrow> \<forall>l \<in> set (pt_out s). no_cr l \<Longrightarrow>
   \<forall>l \<in> set (pt_out s'). no_cr l"
proof (induction ls arbitrary: s)
  case (Cons raw ls)
  obtain t where t: "patch_line orig raw s = Inr t" "patch_lines orig ls t = Inr s'"
    using Cons.prems(1) by (auto simp: rbind_Inr_iff)
  have raw: "no_cr raw" and ls: "\<forall>l \<in> set ls. no_cr l" using Cons.prems(3) by simp_all
  from Cons.IH [OF t(2) Cons.prems(2) ls patch_line_no_cr [OF t(1) Cons.prems(2) raw Cons.prems(4)]]
  show ?case .
qed simp

lemma apply_unified_diff_no_cr:
  assumes "apply_unified_diff original diff_text = Inr r" and "no_cr original" and "no_cr diff_text"
  shows "no_cr r"
proof -
  let ?orig = "split_on nl original"
  obtain s where s: "patch_lines ?orig (split_on nl diff_text) \<lparr>pt_pos = 0, pt_out = [], pt_old = 0, pt_new = 0\<rparr> = Inr s"
      "r = join [nl] (pt_out s @ drop (pt_pos s) ?orig)"
    using assms(1) by (auto simp: apply_unified_diff_def Let_def rbind_Inr_iff split: if_splits)
  have "\<forall>l \<in> set (pt_out s). no_cr l"
    using patch_lines_no_cr [OF s(1) no_cr_split [OF assms(2)] no_cr_split [OF assms(3)]] by simp
  then have "\<forall>l \<in> set (pt_out s @ drop (pt_pos s) ?orig). no_cr l"
    using no_cr_split [OF assms(2)] by (auto dest!: in_set_dropD)
  then show ?thesis unfolding s(2) by (rule no_cr_join) simp
qed

lemma after_section_suffix: "\<exists>a. s = a @ after_section bol s"
proof (induction bol s rule: after_section.induct)
  case (2 bol c cs)
  show ?case
  proof (cases "bol \<and> take 3 (c # cs) = ''## ''")
    case True
    then show ?thesis by (intro exI [of _ "[]"]) simp
  next
    case False
    then obtain a where "cs = a @ after_section (c = nl) cs" using 2 by blast
    then have "c # cs = (c # a) @ after_section bol (c # cs)" using False by auto
    then show ?thesis by blast
  qed
qed simp

lemma section_match_suffix:
  assumes "section_match header s = Some post"
  shows "\<exists>blanks rest. s = header @ blanks @ nl # rest \<and> set blanks \<subseteq> {CHR '' '', CHR 0x09} \<and> post = after_section True rest"
proof -
  obtain r where r: "drop_prefix header s = Some r" using assms by (auto simp: section_match_def split: option.splits)
  then have s: "s = header @ r" unfolding drop_prefix_def by (metis append_take_drop_id option.distinct(1) option.inject)
  let ?P = "\<lambda>c. c = CHR '' '' \<or> c = CHR 0x09"
  obtain ds where ds: "dropWhile ?P r = nl # ds" "post = after_section True ds"
    using assms r by (auto simp: section_match_def split: list.splits if_splits)
  have "r = takeWhile ?P r @ nl # ds" using ds(1) takeWhile_dropWhile_id [of ?P r] by simp
  moreover have "set (takeWhile ?P r) \<subseteq> {CHR '' '', CHR 0x09}" by (auto dest!: set_takeWhileD)
  ultimately show ?thesis using s ds(2) by blast
qed

lemma section_search_parts:
  assumes "section_search header bol s = Some (pre, post)"
  shows "\<exists>blanks rest gone. s = pre @ header @ blanks @ nl # rest \<and> set blanks \<subseteq> {CHR '' '', CHR 0x09} \<and>
    rest = gone @ post \<and> post = after_section True rest"
  using assms
proof (induction header bol s arbitrary: pre rule: section_search.induct)
  case (2 header bol c cs)
  show ?case
  proof (cases "if bol then section_match header (c # cs) else None")
    case None
    then obtain p where p: "section_search header (c = nl) cs = Some (p, post)" "pre = c # p"
      using "2.prems" by auto
    then obtain blanks rest gone where g: "cs = p @ header @ blanks @ nl # rest" "set blanks \<subseteq> {CHR '' '', CHR 0x09}"
        "rest = gone @ post" "post = after_section True rest"
      using "2.IH" [OF None] by blast
    have "c # cs = pre @ header @ blanks @ nl # rest" using g(1) p(2) by simp
    then show ?thesis using g(2-4) by blast
  next
    case (Some x)
    then have "section_match header (c # cs) = Some post" "pre = []" using "2.prems" by (auto split: if_splits)
    then obtain blanks rest where "c # cs = pre @ header @ blanks @ nl # rest" "set blanks \<subseteq> {CHR '' '', CHR 0x09}"
        "post = after_section True rest"
      using section_match_suffix by fastforce
    then show ?thesis using after_section_suffix [of rest True] by blast
  qed
qed simp

lemma apply_replace_no_cr:
  assumes "apply_replace current mode wanted proposal = Inr r" and "no_cr current" and "no_cr proposal"
  shows "no_cr r"
proof -
  obtain yaml body had where sp: "split_frontmatter current = (yaml, body, had)" by (cases "split_frontmatter current")
  have yb: "no_cr yaml" "no_cr body" using split_frontmatter_no_cr [OF sp assms(2)] by auto
  have block: "no_cr (strip_of nl proposal)" using assms(3) by (rule no_cr_parts)
  have rep: "no_cr t" if "replace_section body wanted (strip_of nl proposal) = Inr t" for t
    using that yb(2) block
    by (auto simp: replace_section_def no_cr_parts split: option.splits if_splits json.splits dest!: section_search_parts)
  have stem: "no_cr (rstrip_of nl body)" using yb(2) by (rule no_cr_parts)
  have joined: "no_cr b \<Longrightarrow> no_cr (join_frontmatter yaml b)" for b by (rule join_frontmatter_no_cr [OF yb(1)])
  show ?thesis
    using assms(1) block stem
    by (auto simp: apply_replace_def sp Let_def rbind_Inr_iff joined split: if_splits dest: rep dest!: set_dropWhileD)
qed

lemma stamp_no_cr: "no_cr s \<Longrightarrow> no_cr today \<Longrightarrow> no_cr (stamp today s)"
  by (auto simp: stamp_def surgical_replace_field_def with_newline_def rbind_Inr_iff
      dest!: in_set_takeD in_set_dropD split: sum.splits if_splits) (auto simp: cr_def)

lemma patched_no_cr:
  assumes "patched loaded current = Inr r" and "no_cr current" and "no_cr (lr_proposal loaded)"
  shows "no_cr r"
  using assms apply_unified_diff_no_cr apply_replace_no_cr
  by (auto simp: patched_def Let_def split: if_splits)

section \<open>Outcomes\<close>

text \<open>What a run may do to the queue: rewrite the item in place, leave a copy in the archive, or move the item.\<close>

definition touched :: "string \<Rightarrow> queue \<Rightarrow> queue \<Rightarrow> bool" where
  "touched name Q Q' \<longleftrightarrow> Q' = Q \<or> name \<in> fst ` set (q_pending Q) \<and> (\<exists>t. Q' = set_pending name t Q)"

definition kept :: "apply_env \<Rightarrow> string \<Rightarrow> queue \<Rightarrow> queue \<Rightarrow> bool" where
  "kept A name Q Q' \<longleftrightarrow>
     (\<exists>R. (R = Q \<or> dk_clean_fails (ae_archive_disk A) \<and> left_copy name Q R) \<and> touched name R Q')"

definition moved :: "string \<Rightarrow> queue \<Rightarrow> queue \<Rightarrow> bool" where
  "moved name Q Q' \<longleftrightarrow> name \<in> fst ` set (q_pending Q) \<and> name \<notin> fst ` set (q_archive Q) \<and>
     q_pending Q' = AList.delete name (q_pending Q) \<and> (\<exists>t. q_archive Q' = q_archive Q @ [(name, t)])"

definition not_applied :: "review_error + apply_result \<Rightarrow> bool" where
  "not_applied r \<longleftrightarrow> (case r of Inr (AppliedResult _ _) \<Rightarrow> False | _ \<Rightarrow> True)"

lemma not_applied_simps [simp]:
  "not_applied (Inl e)" "not_applied (Inr (ConflictResult t m))" "\<not> not_applied (Inr (AppliedResult t n))"
  by (simp_all add: not_applied_def)

lemma touched_refl [simp]: "touched name Q Q" by (simp add: touched_def)

lemma touched_kept: "touched name Q Q' \<Longrightarrow> kept A name Q Q'" by (auto simp: kept_def)

lemma kept_refl [simp]: "kept A name Q Q" by (simp add: touched_kept)

lemma load_review_no_cr: "load_review E Q name = Inr loaded \<Longrightarrow> no_cr (lr_proposal loaded)"
  by (auto simp: load_review_def dest: parse_item_no_cr split: option.splits)

lemma conflict_outcome:
  assumes "conflict E A name target reason w = (r, w')"
  shows "not_applied r \<and> w_vault w' = w_vault w \<and> touched name (w_queue w) (w_queue w')"
proof -
  obtain x Q where "mark_conflict E (ae_mark_write A) name reason (w_queue w) = (x, Q)"
    by (cases "mark_conflict E (ae_mark_write A) name reason (w_queue w)")
  then show ?thesis
    using assms mark_conflict_outcome by (fastforce simp: conflict_def touched_def split: sum.splits)
qed

lemma rollback_outcome:
  assumes "rollback E A name target current applied reason w = (r, w')"
  obtains live seen v restored told v' where "not_applied r" "touched name (w_queue w) (w_queue w')"
    "inspect A target (w_vault w) = (live, seen, v)" "restore E A target current applied live v = (restored, told, v')"
    "w_vault w' = snd (reindex_again A target restored v')"
proof -
  obtain live seen v where i: "inspect A target (w_vault w) = (live, seen, v)"
    by (cases "inspect A target (w_vault w)")
  obtain restored told v' where rs: "restore E A target current applied live v = (restored, told, v')"
    by (cases "restore E A target current applied live v")
  obtain more_told v'' where ra: "reindex_again A target restored v' = (more_told, v'')"
    by (cases "reindex_again A target restored v'")
  have "not_applied r \<and> touched name (w_queue w) (w_queue w') \<and> w_vault w' = v''"
  proof (cases "name \<in> fst ` set (q_pending (w_queue w))")
    case True
    then obtain detail where "conflict E A name target detail (w\<lparr>w_vault := v''\<rparr>) = (r, w')"
      using assms by (simp add: rollback_def i rs ra Let_def)
    from conflict_outcome [OF this] show ?thesis by simp
  next
    case False
    then have "\<exists>m. r = Inr (ConflictResult target m)" "w' = w\<lparr>w_vault := v''\<rparr>"
      using assms by (auto simp: rollback_def i rs ra Let_def)
    then show ?thesis by auto
  qed
  then show thesis using that [OF _ _ i rs] ra by simp
qed

lemma world_parts:
  "w_queue (w\<lparr>w_vault := v\<rparr>) = w_queue w" "w_vault (w\<lparr>w_vault := v\<rparr>) = v"
  "w\<lparr>w_vault := v, w_vault := u\<rparr> = w\<lparr>w_vault := u\<rparr>"
  by simp_all

lemma finish_outcome:
  assumes "finish E A name loaded target current applied w = (r, w')"
  obtains (ended) "r = Inr (AppliedResult target name)" "w_vault w' = ae_other A BeforeArchive (w_vault w)"
      "moved name (w_queue w) (w_queue w')"
  | (undone) reason Q where "rollback E A name target current applied reason
        (w\<lparr>w_vault := ae_other A BeforeArchive (w_vault w), w_queue := Q\<rparr>) = (r, w')"
      "Q = w_queue w \<or> dk_clean_fails (ae_archive_disk A) \<and> left_copy name (w_queue w) Q"
proof -
  let ?w = "w\<lparr>w_vault := ae_other A BeforeArchive (w_vault w)\<rparr>"
  let ?note = "''applied to '' @ ri_target (lr_item loaded) @ '' ('' @ lr_kind loaded @ '')'' @
            (if ae_hook A \<noteq> None then ''; derived index synchronized'' else [])"
  obtain x Q where x: "archive_item E (ae_now A) (ae_archive_disk A) name ''applied'' ?note (w_queue w) = (x, Q)"
    by (cases "archive_item E (ae_now A) (ae_archive_disk A) name ''applied'' ?note (w_queue w)")
  have run: "finish E A name loaded target current applied w = (case x of
        Inl e \<Rightarrow> rollback E A name target current applied (''review archive failed after reindex: '' @ error_text e)
               (?w\<lparr>w_queue := Q\<rparr>)
      | Inr _ \<Rightarrow> (Inr (AppliedResult target name), ?w\<lparr>w_queue := Q\<rparr>))"
    unfolding finish_def Let_def world_parts x prod.case ..
  show thesis
  proof (cases x)
    case (Inl e)
    from archive_item_Inl [OF x [unfolded Inl]] show thesis
      using undone assms run by (simp add: Inl)
  next
    case (Inr u)
    have "moved name (w_queue w) Q"
      using x load_review_pending [of E "w_queue w" name] unfolding Inr archive_item_Inr by (auto simp: moved_def)
    then show thesis using ended assms run by (auto simp: Inr)
  qed
qed

text \<open>What the hook, if there is one, and the writers before the archive may have made of the vault.\<close>

definition after_hook :: "apply_env \<Rightarrow> string list \<Rightarrow> vault \<Rightarrow> vault \<Rightarrow> bool" where
  "after_hook A target v u \<longleftrightarrow> u = v \<or> (\<exists>hook e. ae_hook A = Some hook \<and> hook 0 target v = (u, e))"

lemma settle_outcome:
  assumes "settle E A name loaded target current applied w = (r, w')"
  obtains (ended) "r = Inr (AppliedResult target name)" "moved name (w_queue w) (w_queue w')"
      "case ae_hook A of None \<Rightarrow> w_vault w' = ae_other A BeforeArchive (w_vault w)
        | Some hook \<Rightarrow> \<exists>v live. hook 0 target (w_vault w) = (v, None) \<and> read_text v target = Inr live \<and>
            content_hash E live = applied \<and> w_vault w' = ae_other A BeforeArchive v"
  | (undone) reason v Q u where
      "rollback E A name target current applied reason (w\<lparr>w_vault := v, w_queue := Q\<rparr>) = (r, w')"
      "Q = w_queue w \<or> dk_clean_fails (ae_archive_disk A) \<and> left_copy name (w_queue w) Q"
      "after_hook A target (w_vault w) u" "v = u \<or> v = ae_other A BeforeArchive u"
proof (cases "ae_hook A")
  case None
  then have "finish E A name loaded target current applied w = (r, w')" using assms by (simp add: settle_def)
  then show thesis
  proof (cases rule: finish_outcome)
    case ended
    then show thesis using that(1) None by simp
  next
    case (undone reason Q)
    then show thesis using that(2) [of reason Q "ae_other A BeforeArchive (w_vault w)" "w_vault w"] by (simp add: after_hook_def)
  qed
next
  case (Some hook)
  obtain v e where v: "hook 0 target (w_vault w) = (v, e)" by (cases "hook 0 target (w_vault w)")
  have hooked: "after_hook A target (w_vault w) v" using Some v by (auto simp: after_hook_def)
  have same: "w\<lparr>w_vault := v, w_queue := w_queue w\<rparr> = w\<lparr>w_vault := v\<rparr>" by simp
  consider reason where "rollback E A name target current applied reason (w\<lparr>w_vault := v\<rparr>) = (r, w')"
    | live where "e = None" "read_text v target = Inr live" "content_hash E live = applied"
      "finish E A name loaded target current applied (w\<lparr>w_vault := v\<rparr>) = (r, w')"
    using assms by (auto simp: settle_def Some v split: option.splits sum.splits if_splits)
  then show thesis
  proof cases
    case (1 reason)
    then show thesis using that(2) [of reason "w_queue w" v v] hooked same by simp
  next
    case (2 live)
    from 2(4) show thesis
    proof (cases rule: finish_outcome)
      case ended
      then show thesis using that(1) Some v 2(1-3) by auto
    next
      case (undone reason Q)
      then show thesis using that(2) [of reason Q "ae_other A BeforeArchive v" v] hooked by simp
    qed
  qed
qed

text \<open>
  A guarded write that succeeds, look by look: a regular file before the temporary file is made under a free name
  with its permission bits; after that a regular file whose text has the expected hash; then a
  regular file of the same identity; and the replacement of the path by what is then at the temporary path.
\<close>

definition guarded_replace ::
  "queue_env \<Rightarrow> apply_env \<Rightarrow> nat \<Rightarrow> string list \<Rightarrow> string \<Rightarrow> string \<Rightarrow> vault \<Rightarrow> vault \<Rightarrow> bool" where
  "guarded_replace E A k target content expected v v' \<longleftrightarrow>
     (\<exists>v0 temp ino mode v1 v2 v3.
        v0 = ae_other A (BeforeLstat k) v \<and> (\<exists>i t. v0 target = Some (Regular i mode t)) \<and>
        butlast temp = butlast target \<and> v0 temp = None \<and>
        v1 = ae_other A (Preparing k) (v0(temp := Some (Regular ino mode (Some content)))) \<and>
        v2 = ae_other A (BeforeRelstat k) v1 \<and>
        (\<exists>i m t. v1 target = Some (Regular i m (Some t)) \<and> content_hash E (universal_newlines t) = expected \<and>
           (\<exists>m t. v2 target = Some (Regular i m t))) \<and>
        v3 = ae_other A (BeforeReplace k) v2 \<and>
        (\<exists>new. v3 temp = Some new \<and> v3 target \<noteq> Some Directory \<and> v' = v3(target := Some new, temp := None)))"

lemma lstat_regular_Inr:
  "lstat_regular v target when = Inr (i, m) \<longleftrightarrow> (\<exists>t. v target = Some (Regular i m t))"
  by (auto simp: lstat_regular_def split: option.splits node.splits)

lemma read_live_done:
  assumes "read_live_no_follow A k target v = (Inr live, v')"
  shows "v' = ae_other A (BeforeRelstat k) v \<and> (\<exists>i m t. v target = Some (Regular i m (Some t)) \<and>
    live = universal_newlines t \<and> (\<exists>m t. v' target = Some (Regular i m t)))"
  using assms by (auto simp: read_live_no_follow_def Let_def lstat_regular_def
      split: option.splits node.splits sum.splits if_splits)

lemma write_no_follow_done:
  assumes "write_no_follow E A k target content expected v = (Inr u, v')"
  shows "guarded_replace E A k target content expected v v'"
proof -
  define v0 where "v0 = ae_other A (BeforeLstat k) v"
  define temp where "temp = temp_path A k target v0"
  define ino where "ino = snd (ae_token A k target v0)"
  obtain i mode where l: "lstat_regular v0 target ''the write'' = Inr (i, mode)"
    using assms by (auto simp: write_no_follow_def Let_def v0_def split: sum.splits)
  then obtain t0 where t0: "v0 target = Some (Regular i mode t0)" by (auto simp: lstat_regular_Inr)
  have run: "write_no_follow E A k target content expected v = (case make_temp A k target v0 of
        (Inl e, v) \<Rightarrow> (Inl e, v)
      | (Inr (temp, ino), v) \<Rightarrow>
     (case fill_temp A k temp ino mode content v of
        (Inl e, v) \<Rightarrow> (Inl e, discard_temp A k temp v)
      | (Inr _, v) \<Rightarrow>
     (case read_live_no_follow A k target (ae_other A (Preparing k) v) of
        (Inl e, v) \<Rightarrow> (Inl e, discard_temp A k temp v)
      | (Inr live, v) \<Rightarrow>
     if content_hash E live \<noteq> expected
     then (Inl (OsError ''canonical target drifted during atomic write preparation''), discard_temp A k temp v)
     else
     (case replace_file A k temp target (ae_other A (BeforeReplace k) v) of
        (Inl e, v) \<Rightarrow> (Inl e, discard_temp A k temp v)
      | (Inr _, v) \<Rightarrow> (Inr (), v)))))"
    unfolding write_no_follow_def Let_def v0_def [symmetric] l sum.case prod.case ..
  have free: "v0 temp = None" and m: "make_temp A k target v0 = (Inr (temp, ino), v0(temp := Some (Regular ino 384 (Some []))))"
    using assms unfolding run by (auto simp: make_temp_def Let_def temp_def ino_def split: option.splits if_splits)
  define v1 where "v1 = ae_other A (Preparing k) (v0(temp := Some (Regular ino mode (Some content))))"
  have f: "fill_temp A k temp ino mode content (v0(temp := Some (Regular ino 384 (Some [])))) =
      (Inr (), v0(temp := Some (Regular ino mode (Some content))))"
    using assms unfolding run m prod.case sum.case by (auto simp: fill_temp_def split: option.splits disk_write.splits)
  define v2 where "v2 = ae_other A (BeforeRelstat k) v1"
  obtain live where live: "read_live_no_follow A k target v1 = (Inr live, v2)" and hash: "content_hash E live = expected"
    and rep: "replace_file A k temp target (ae_other A (BeforeReplace k) v2) = (Inr (), v')"
    using assms unfolding run m f prod.case sum.case v1_def [symmetric] v2_def
    by (auto dest: read_live_done split: prod.splits sum.splits if_splits)
  define v3 where "v3 = ae_other A (BeforeReplace k) v2"
  have new: "\<exists>new. v3 temp = Some new \<and> v3 target \<noteq> Some Directory \<and> v' = v3(target := Some new, temp := None)"
    using rep unfolding v3_def [symmetric] by (auto simp: replace_file_def split: option.splits if_splits)
  have "butlast temp = butlast target" by (simp add: temp_def temp_path_def)
  moreover have "\<exists>i m t. v1 target = Some (Regular i m (Some t)) \<and> content_hash E (universal_newlines t) = expected \<and>
           (\<exists>m t. v2 target = Some (Regular i m t))"
    using read_live_done [OF live] hash by auto
  ultimately show ?thesis
    unfolding guarded_replace_def using v0_def t0 free v1_def v2_def v3_def new by blast
qed

lemma resolve_within_inside:
  "resolve_within realpath base relative = Inr target \<Longrightarrow> take (length (realpath base)) target = realpath base"
  by (auto simp: resolve_within_def rbind_Inr_iff Let_def)

text \<open>The vault when the run looks for the target and when it reads it, and the ways a run can end.\<close>

definition found_vault :: "apply_env \<Rightarrow> vault \<Rightarrow> vault" where
  "found_vault A v = ae_other A BeforeIsFile v"

definition read_vault :: "apply_env \<Rightarrow> vault \<Rightarrow> vault" where
  "read_vault A v = ae_other A BeforeRead (found_vault A v)"

lemma apply_outcome:
  assumes "apply_review E A name w = (r, w')"
  obtains (stopped) "not_applied r" "w_queue w' = w_queue w"
      "w_vault w' \<in> {w_vault w, found_vault A (w_vault w), read_vault A (w_vault w)}"
  | (refused) target m v where "conflict E A name target m (w\<lparr>w_vault := v\<rparr>) = (r, w')"
      "v \<in> {w_vault w, found_vault A (w_vault w), read_vault A (w_vault w)} \<or>
       (\<exists>content expected e. write_no_follow E A 0 target content expected (read_vault A (w_vault w)) = (Inl e, v))"
  | (replaced) loaded target current newt v where "load_review E (w_queue w) name = Inr loaded"
      "resolve_within (ae_realpath A) (ae_base A) (ri_target (lr_item loaded)) = Inr target"
      "read_text (read_vault A (w_vault w)) target = Inr current"
      "content_hash E current = ri_base_hash (lr_item loaded)" "patched loaded current = Inr newt"
      "write_no_follow E A 0 target (stamp (ae_today A) newt) (ri_base_hash (lr_item loaded)) (read_vault A (w_vault w)) =
         (Inr (), v)"
      "settle E A name loaded target current (content_hash E (stamp (ae_today A) newt)) (w\<lparr>w_vault := v\<rparr>) = (r, w')"
proof (cases "load_review E (w_queue w) name")
  case (Inl e)
  then show thesis using assms stopped by (cases e) (auto simp: apply_review_def)
next
  case loaded: (Inr loaded)
  have same: "w\<lparr>w_vault := w_vault w\<rparr> = w" by simp
  show thesis
  proof (cases "resolve_within (ae_realpath A) (ae_base A) (ri_target (lr_item loaded))")
    case (Inl e)
    then show thesis using assms loaded refused [of _ _ "w_vault w"] same stopped
      by (cases e) (auto simp: apply_review_def)
  next
    case target: (Inr target)
    let ?v1 = "found_vault A (w_vault w)" and ?v2 = "read_vault A (w_vault w)"
    have run: "apply_review E A name w =
      (if \<not> is_file ?v1 target
       then conflict E A name target (''target file missing: '' @ ri_target (lr_item loaded)) (w\<lparr>w_vault := ?v1\<rparr>)
       else case read_text ?v2 target of
          Inl e \<Rightarrow> (Inl e, w\<lparr>w_vault := ?v2\<rparr>)
        | Inr current \<Rightarrow>
       if content_hash E current \<noteq> ri_base_hash (lr_item loaded)
       then conflict E A name target ''base_hash drift: target changed since proposal'' (w\<lparr>w_vault := ?v2\<rparr>)
       else (case patched loaded current of
          Inl (PatchError m) \<Rightarrow> conflict E A name target m (w\<lparr>w_vault := ?v2\<rparr>)
        | Inl e \<Rightarrow> (Inl e, w\<lparr>w_vault := ?v2\<rparr>)
        | Inr newt \<Rightarrow>
          (case write_no_follow E A 0 target (stamp (ae_today A) newt) (ri_base_hash (lr_item loaded)) ?v2 of
             (Inl e, v) \<Rightarrow> conflict E A name target (''canonical write failed before apply: '' @ error_text e) (w\<lparr>w_vault := v\<rparr>)
           | (Inr _, v) \<Rightarrow> settle E A name loaded target current (content_hash E (stamp (ae_today A) newt)) (w\<lparr>w_vault := v\<rparr>))))"
      unfolding apply_review_def loaded target sum.case Let_def world_parts found_vault_def read_vault_def ..
    show thesis
    proof (cases "is_file ?v1 target")
      case False
      then show thesis using assms refused [of _ _ ?v1] by (simp add: run)
    next
      case present: True
      show thesis
      proof (cases "read_text ?v2 target")
        case (Inl e)
        then show thesis using assms present stopped by (auto simp: run)
      next
        case current: (Inr current)
        show thesis
        proof (cases "content_hash E current = ri_base_hash (lr_item loaded)")
          case False
          then show thesis using assms present current refused [of _ _ ?v2] by (simp add: run)
        next
          case base: True
          show thesis
          proof (cases "patched loaded current")
            case (Inl e)
            then show thesis using assms present current base refused [of _ _ ?v2] stopped by (cases e) (auto simp: run)
          next
            case newt: (Inr newt)
            let ?new = "stamp (ae_today A) newt"
            obtain x v where v: "write_no_follow E A 0 target ?new (ri_base_hash (lr_item loaded)) ?v2 = (x, v)"
              by (cases "write_no_follow E A 0 target ?new (ri_base_hash (lr_item loaded)) ?v2")
            show thesis
            proof (cases x)
              case (Inr u)
              then show thesis using replaced [OF loaded target current base newt] v assms present current base newt
                by (simp add: run)
            next
              case (Inl e)
              then have "conflict E A name target (''canonical write failed before apply: '' @ error_text e) (w\<lparr>w_vault := v\<rparr>) = (r, w')"
                using assms v present current base newt by (simp add: run)
              then show thesis using refused v Inl by blast
            qed
          qed
        qed
      qed
    qed
  qed
qed

section \<open>Safety under interference\<close>

text \<open>
  C13. What a result means.  Other writers may change the vault at every point between two looks of the run at it, any
  system call may fail, and the hook may do anything to the vault.  A success is reported only
  if the target lies inside the vault as resolved; the text read there had the hash the proposal was made for;
  the write went through all its looks, so that just before the replacement the target was, not
  through a link, a regular file with that hash and still the same file afterwards; if there is a
  hook, it returned and the text then live had the hash of the stamped patch; and exactly this item moved from the pending
  directory to the archive.  Whatever happens between two looks, and after the last one, is not excluded: the
  result describes what was seen.  A conflict, and a run that raises, moves nothing: the item stays pending, at
  most rewritten in place, and a copy in the archive can only be one that a failed clean-up left there.
\<close>

theorem apply_result_truthful:
  assumes "apply_review E A name w = (r, w')"
  shows "case r of
      Inr (AppliedResult target n) \<Rightarrow> n = name \<and> moved name (w_queue w) (w_queue w') \<and>
        (\<exists>loaded current new_text v. load_review E (w_queue w) name = Inr loaded \<and>
          resolve_within (ae_realpath A) (ae_base A) (ri_target (lr_item loaded)) = Inr target \<and>
          take (length (ae_realpath A (ae_base A))) target = ae_realpath A (ae_base A) \<and>
          read_text (read_vault A (w_vault w)) target = Inr current \<and>
          content_hash E current = ri_base_hash (lr_item loaded) \<and> patched loaded current = Inr new_text \<and>
          guarded_replace E A 0 target (stamp (ae_today A) new_text) (ri_base_hash (lr_item loaded))
            (read_vault A (w_vault w)) v \<and>
          (case ae_hook A of
             None \<Rightarrow> w_vault w' = ae_other A BeforeArchive v
           | Some hook \<Rightarrow> (\<exists>u live. hook 0 target v = (u, None) \<and> read_text u target = Inr live \<and>
               content_hash E live = content_hash E (stamp (ae_today A) new_text) \<and>
               w_vault w' = ae_other A BeforeArchive u)))
    | _ \<Rightarrow> kept A name (w_queue w) (w_queue w')"
  using assms
proof (cases rule: apply_outcome)
  case stopped
  then show ?thesis by (auto simp: not_applied_def split: sum.splits apply_result.splits)
next
  case (refused target m v)
  from conflict_outcome [OF refused(1)] show ?thesis
    by (auto simp: not_applied_def touched_kept split: sum.splits apply_result.splits)
next
  case (replaced loaded target current newt v)
  from replaced(7) show ?thesis
  proof (cases rule: settle_outcome)
    case ended
    have "case ae_hook A of
             None \<Rightarrow> w_vault w' = ae_other A BeforeArchive v
           | Some hook \<Rightarrow> (\<exists>u live. hook 0 target v = (u, None) \<and> read_text u target = Inr live \<and>
               content_hash E live = content_hash E (stamp (ae_today A) newt) \<and>
               w_vault w' = ae_other A BeforeArchive u)"
      using ended(3) by (simp add: world_parts split: option.splits)
    then show ?thesis
      using ended(1,2) replaced(1-5) write_no_follow_done [OF replaced(6)] resolve_within_inside [OF replaced(2)]
      by (simp add: world_parts) blast
  next
    case (undone reason v' Q u)
    from undone(1) obtain "not_applied r" "touched name Q (w_queue w')"
      by (rule rollback_outcome) simp
    moreover have "kept A name (w_queue w) (w_queue w')"
      using undone(2) calculation(2) by (auto simp: kept_def world_parts)
    ultimately show ?thesis by (auto simp: not_applied_def split: sum.splits apply_result.splits)
  qed
qed

section \<open>All or nothing\<close>

text \<open>
  No other writer, no failing call on the vault, temporary names that are not in use, and a hook that may raise but does
  not edit notes.
\<close>

definition undisturbed :: "apply_env \<Rightarrow> vault \<Rightarrow> bool" where
  "undisturbed A v0 \<longleftrightarrow> (\<forall>p v. ae_other A p v = v) \<and> (\<forall>k c. ae_fails A k c = None) \<and>
     (\<forall>k. ae_temp_write A k = WriteOk) \<and>
     (\<forall>k target v. (\<forall>p. p \<noteq> target \<longrightarrow> v p = v0 p) \<longrightarrow> v (temp_path A k target v) = None) \<and>
     (\<forall>hook k p v. ae_hook A = Some hook \<longrightarrow> fst (hook k p v) = v)"

lemma temp_other: "temp_path A k target v \<noteq> target"
proof
  assume t: "temp_path A k target v = target"
  then have "last target = ''.'' @ file_name target @ ''.'' @ fst (ae_token A k target v) @ ''.tmp''" "target \<noteq> []"
    by (metis temp_path_def last_snoc) (use t in \<open>auto simp: temp_path_def\<close>)
  then have "length (file_name target) = length (''.'' @ file_name target @ ''.'' @ fst (ae_token A k target v) @ ''.tmp'')"
    by (metis file_name_def)
  then show False by simp
qed

text \<open>The undisturbed write, computed.\<close>

lemma write_quiet:
  assumes "undisturbed A v0" and "\<forall>p. p \<noteq> target \<longrightarrow> v p = v0 p"
  shows "write_no_follow E A k target content expected v =
    (case v target of
       Some (Regular i mode (Some t)) \<Rightarrow>
         if content_hash E (universal_newlines t) = expected
         then (Inr (), v(target := Some (Regular (snd (ae_token A k target v)) mode (Some content))))
         else (Inl (OsError ''canonical target drifted during atomic write preparation''), v)
     | Some (Regular i mode None) \<Rightarrow> (Inl (OsError ''canonical target is not valid UTF-8''), v)
     | None \<Rightarrow> (Inl (OsError ''no such file''), v)
     | Some (SymLink q) \<Rightarrow> (Inl (PathBoundaryError ''target became a symlink before the write''), v)
     | Some _ \<Rightarrow> (Inl (OsError ''canonical target is not a regular file''), v))"
proof -
  let ?temp = "temp_path A k target v"
  have q: "ae_other A p v = v" "ae_fails A k c = None" "ae_temp_write A k = WriteOk" for p v k c
    using assms(1) by (simp_all add: undisturbed_def)
  have free: "v ?temp = None" using assms by (simp add: undisturbed_def)
  have clean: "v(?temp := x, ?temp := None) = v" for x using free by (auto simp: fun_eq_iff)
  have swap: "v(?temp := x, target := y, ?temp := None) = v(target := y)" for x y
    using free temp_other [of A k target v] by (auto simp: fun_eq_iff)
  show ?thesis
    using temp_other [of A k target v]
    by (auto simp: write_no_follow_def Let_def q lstat_regular_def make_temp_def free fill_temp_def
        read_live_no_follow_def discard_temp_def replace_file_def clean swap split: option.splits node.splits)
qed

lemma follow_replaced:
  assumes "v target = Some (Regular i m (Some t))" and "universal_newlines t' = universal_newlines t"
  shows "node_text (follow n (v(target := Some (Regular i' m' (Some t')))) p) = node_text (follow n v p)"
proof (induction n arbitrary: p)
  case 0
  then show ?case using assms by (auto simp: node_text_def split: option.splits node.splits)
next
  case (Suc n)
  then show ?case using assms by (cases "v p") (auto simp: node_text_def split: node.splits)
qed

lemma read_replaced:
  assumes "v target = Some (Regular i m (Some t))" and "universal_newlines t' = universal_newlines t"
  shows "read_text (v(target := Some (Regular i' m' (Some t')))) p = read_text v p"
  unfolding read_text_def stat_def by (rule follow_replaced [of v target i m t, OF assms])

lemma stat_regular: "v target = Some (Regular i m t) \<Longrightarrow> stat v target = Some (Regular i m t)"
  by (simp add: stat_def numeral_eq_Suc)

lemma read_regular: "v target = Some (Regular i m (Some t)) \<Longrightarrow> read_text v target = Inr (universal_newlines t)"
  by (simp add: read_text_def stat_regular node_text_def)

lemma quiet_vaults:
  assumes "undisturbed A v0"
  shows "found_vault A v = v" "read_vault A v = v"
  using assms by (simp_all add: found_vault_def read_vault_def undisturbed_def)

lemma quiet_write_done:
  assumes "undisturbed A v" and "write_no_follow E A k target content expected v = (Inr (), v')"
  shows "\<exists>i mode t j. v target = Some (Regular i mode (Some t)) \<and> content_hash E (universal_newlines t) = expected \<and>
    v' = v(target := Some (Regular j mode (Some content)))"
  using assms(2) write_quiet [OF assms(1), of target v E k content expected]
  by (auto split: option.splits node.splits if_splits)

lemma quiet_write_failed:
  assumes "undisturbed A v" and "write_no_follow E A k target content expected v = (Inl e, v')"
  shows "v' = v"
  using assms(2) write_quiet [OF assms(1), of target v E k content expected]
  by (auto split: option.splits node.splits if_splits)

lemma reindex_quiet: "undisturbed A v0 \<Longrightarrow> snd (reindex_again A target restored v) = v"
  by (auto simp: reindex_again_def undisturbed_def split: option.splits prod.splits) (metis fst_conv)+

lemma hook_quiet: "undisturbed A v0 \<Longrightarrow> after_hook A target v u \<Longrightarrow> u = v"
  unfolding after_hook_def undisturbed_def by (metis fst_conv)

text \<open>The rollback of an undisturbed run puts the text back.\<close>

lemma rollback_quiet:
  assumes "rollback E A name target current (content_hash E new) reason (w\<lparr>w_vault := v, w_queue := Q\<rparr>) = (r, w')"
    and "undisturbed A v0" and "v0 target = Some (Regular i mode (Some t))" and "current = universal_newlines t"
    and "v = v0(target := Some (Regular j mode (Some new)))" and "no_cr new"
  shows "not_applied r \<and> touched name Q (w_queue w') \<and> (\<forall>p. read_text (w_vault w') p = read_text v0 p)"
proof -
  from assms(1) obtain live seen u restored told v' where run: "not_applied r" "touched name Q (w_queue w')"
    "inspect A target v = (live, seen, u)" "restore E A target current (content_hash E new) live u = (restored, told, v')"
    "w_vault w' = snd (reindex_again A target restored v')"
    by (rule rollback_outcome) simp
  have q: "ae_other A p v = v" for p v using assms(2) by (simp add: undisturbed_def)
  have vt: "v target = Some (Regular j mode (Some new))" by (simp add: assms(5))
  have new: "universal_newlines new = new" using assms(6) by (rule universal_newlines_id)
  have "live = Some new" "u = v"
    using run(3) vt read_regular [of v target j mode new, OF vt] by (auto simp: inspect_def q is_file_def stat_regular new)
  moreover have "\<forall>p. p \<noteq> target \<longrightarrow> v p = v0 p" by (simp add: assms(5))
  ultimately obtain k where "v' = v0(target := Some (Regular k mode (Some current)))"
    using run(4) write_quiet [OF assms(2), of target v E 1 current "content_hash E new"] vt
    by (auto simp: restore_def new assms(5))
  then have "w_vault w' = v0(target := Some (Regular k mode (Some current)))"
    using run(5) reindex_quiet [OF assms(2)] by simp
  then have "read_text (w_vault w') p = read_text v0 p" for p
    using read_replaced [of v0 target i mode t current k mode p] assms(3,4) by simp
  then show ?thesis using run(1,2) by blast
qed


text \<open>
  C15. Applying works.  Without interference and with a working disk and hook, a pending item that loads,
  whose target resolves inside the vault to a regular file with the recorded hash, whose proposal fits it and whose
  archive name is free, is applied: the run returns success, the note is the stamped patch with the permission
  bits it had, and the queue is the one \<open>archive\<close> returns for the outcome applied.
\<close>

theorem apply_succeeds:
  assumes "undisturbed A (w_vault w)" and "\<forall>hook k p v. ae_hook A = Some hook \<longrightarrow> snd (hook k p v) = None"
    and "ae_archive_disk A = calm"
    and "cr \<notin> set (ae_today A)" and "load_review E (w_queue w) name = Inr loaded"
    and "resolve_within (ae_realpath A) (ae_base A) (ri_target (lr_item loaded)) = Inr target"
    and "w_vault w target = Some (Regular i mode (Some t))" and "current = universal_newlines t"
    and "content_hash E current = ri_base_hash (lr_item loaded)"
    and "patched loaded current = Inr new_text" and "name \<notin> fst ` set (q_archive (w_queue w))"
  shows "\<exists>note Q j. apply_review E A name w = (Inr (AppliedResult target name),
      w\<lparr>w_vault := (w_vault w)(target := Some (Regular j mode (Some (stamp (ae_today A) new_text)))), w_queue := Q\<rparr>) \<and>
    archive_item E (ae_now A) calm name ''applied'' note (w_queue w) = (Inr (), Q)"
proof -
  let ?new = "stamp (ae_today A) new_text" and ?j = "snd (ae_token A 0 target (w_vault w))"
  define v where "v = (w_vault w)(target := Some (Regular ?j mode (Some ?new)))"
  have q: "ae_other A p v = v" for p v using assms(1) by (simp add: undisturbed_def)
  have wr: "write_no_follow E A 0 target ?new (ri_base_hash (lr_item loaded)) (w_vault w) = (Inr (), v)"
    using write_quiet [OF assms(1), of target "w_vault w" E 0 ?new "ri_base_hash (lr_item loaded)"] assms(7-9)
    by (simp add: v_def)
  have rd: "read_text (w_vault w) target = Inr current" "is_file (w_vault w) target"
    using read_regular [of "w_vault w" target i mode t] assms(7,8) by (simp_all add: is_file_def stat_regular)
  have "no_cr ?new"
    using patched_no_cr [OF assms(10)] load_review_no_cr [OF assms(5)] assms(4,8) by (intro stamp_no_cr) auto
  moreover have "v target = Some (Regular ?j mode (Some ?new))" by (simp add: v_def)
  ultimately have rv: "read_text v target = Inr ?new" using read_regular by (simp add: universal_newlines_id)
  have status: "read_status ''applied'' = Some StatusApplied" by code_simp
  have arch: "\<exists>Q. archive_item E (ae_now A) calm name ''applied'' t (w_queue w) = (Inr (), Q)" for t
    unfolding archive_item_Inr using status assms(5,11) by (auto simp: calm_def)
  let ?note = "''applied to '' @ ri_target (lr_item loaded) @ '' ('' @ lr_kind loaded @ '')'' @
            (if ae_hook A \<noteq> None then ''; derived index synchronized'' else [])"
  obtain Q where Q: "archive_item E (ae_now A) calm name ''applied'' ?note (w_queue w) = (Inr (), Q)" using arch by blast
  have fin: "finish E A name loaded target current (content_hash E ?new) (w\<lparr>w_vault := v\<rparr>) =
      (Inr (AppliedResult target name), w\<lparr>w_vault := v, w_queue := Q\<rparr>)"
    unfolding finish_def Let_def world_parts q assms(3) Q prod.case sum.case ..
  have hook: "hook 0 target v = (v, None)" if "ae_hook A = Some hook" for hook
    using assms(1,2) that unfolding undisturbed_def by (metis prod.collapse)
  have "settle E A name loaded target current (content_hash E ?new) (w\<lparr>w_vault := v\<rparr>) =
      (Inr (AppliedResult target name), w\<lparr>w_vault := v, w_queue := Q\<rparr>)"
    using fin hook rv by (cases "ae_hook A") (simp_all add: settle_def)
  then have "apply_review E A name w = (Inr (AppliedResult target name), w\<lparr>w_vault := v, w_queue := Q\<rparr>)"
    unfolding apply_review_def assms(5,6,10) sum.case Let_def world_parts q using rd assms(9) wr assms(10) by simp
  then show ?thesis using Q unfolding v_def by blast
qed

end
