(* ===== verification/ReviewWitnesses.thy ===== *)
theory ReviewWitnesses
  imports ReviewApplyProps Samples
begin

text \<open>
  A concrete review item, queue and vault, and the properties of the review queue applied to them.  The YAML
  library is instantiated by a dump that names the number of fields and a loader that knows the
  mappings written here.
\<close>

section \<open>The item\<close>

definition moment_text :: "moment \<Rightarrow> string" where
  "moment_text m = (case m of Naive t \<Rightarrow> CHR ''n'' | Aware t \<Rightarrow> CHR ''a'') #
     (if moment_time m < 0 then CHR ''-'' else CHR ''+'') # show_nat (nat \<bar>moment_time m\<bar>)"

definition moment_of :: "json \<Rightarrow> moment option" where
  "moment_of v = (case v of
     JStr (k # s # ds) \<Rightarrow>
       (let t = (if s = CHR ''-'' then - int (read_nat ds) else int (read_nat ds))
        in Some (if k = CHR ''n'' then Naive t else Aware t))
   | _ \<Rightarrow> None)"

lemma moment_roundtrip: "moment_of (JStr (moment_text m)) = Some m"
  by (cases m) (simp_all add: moment_of_def moment_text_def Let_def)

definition int_field :: "json \<Rightarrow> int option" where
  "int_field v = (case v of JInt i \<Rightarrow> Some i | _ \<Rightarrow> None)"

definition sample_dump :: "fields \<Rightarrow> string" where
  "sample_dump d = ''fields: '' @ show_nat (length d) @ [nl]"

definition blank_env :: queue_env where
  "blank_env = \<lparr>q_sha256 = sha256_hex sample_env, q_load = (\<lambda>_. Inl ''unknown''), q_dump = sample_dump,
     q_moment = moment_of, q_moment_text = moment_text, q_int = int_field\<rparr>"

definition note_before :: string where
  "note_before = join [nl] [''---'', ''title: Returns'', ''updated: 2025-01-01'', ''---'', ''Window: 30 days'', '''']"

definition note_after :: string where
  "note_after = join [nl] [''---'', ''title: Returns'', ''updated: 2025-03-01'', ''---'', ''Window: 14 days'', '''']"

definition note_patched :: string where
  "note_patched = join [nl] [''---'', ''title: Returns'', ''updated: 2025-01-01'', ''---'', ''Window: 14 days'', '''']"

definition window_diff :: string where
  "window_diff = join [nl] [''@@ -5 +5 @@'', ''-Window: 30 days'', ''+Window: 14 days'']"

definition sample_item :: review_item where
  "sample_item = \<lparr>ri_id = ''review-1'', ri_created = Aware 5, ri_producer = ''lint'', ri_run_id = ''run-1'',
     ri_tier = 2, ri_target = ''wiki/returns.md'', ri_change_type = EditWikiBody, ri_pattern_key = ''window'',
     ri_importance = ''normal'', ri_rationale = ''policy changed'', ri_base_hash = content_hash blank_env note_before,
     ri_status = StatusPending, ri_payload = [], ri_resolved = None, ri_outcome = None\<rparr>"

definition review_env :: "string \<Rightarrow> queue_env" where
  "review_env proposal = blank_env\<lparr>q_load := (\<lambda>s.
     let f = item_fields blank_env (queued_item blank_env sample_item proposal)
     in if s = sample_dump f then Inr (YamlMapping f) else Inl ''unknown'')\<rparr>"

lemma review_env_sel:
  "q_sha256 (review_env p) = q_sha256 blank_env" "q_moment_text (review_env p) = q_moment_text blank_env"
  "q_dump (review_env p) = sample_dump" "q_moment (review_env p) = moment_of" "q_int (review_env p) = int_field"
  "q_load (review_env p) = (\<lambda>s.
     let f = item_fields blank_env (queued_item blank_env sample_item p)
     in if s = sample_dump f then Inr (YamlMapping f) else Inl ''unknown'')"
  "q_moment_text blank_env = moment_text" "q_sha256 blank_env = sha256_hex sample_env"
  by (simp_all add: review_env_def blank_env_def)

lemma review_env_same:
  "item_fields (review_env p) i = item_fields blank_env i" "review_key (review_env p) i q = review_key blank_env i q"
  "queued_item (review_env p) i q = queued_item blank_env i q" "content_hash (review_env p) s = content_hash blank_env s"
  unfolding item_fields_def queued_item_def review_key_def dedupe_key_def content_hash_def review_env_sel(1,2)
  by (rule refl)+

lemma review_codec: "codec_ok (review_env p)"
proof -
  have "sha256_pattern (sha256_hex sample_env b)" for b using sample_hash_ok by (simp add: hash_ok_def)
  then show ?thesis
    by (simp add: codec_ok_def review_env_sel moment_roundtrip int_field_def del: sample_env_select)
qed

lemma sample_valid: "item_valid (review_env p) (queued_item (review_env p) sample_item p)"
proof -
  have "no_path_traversal ''review-1''" "no_path_traversal ''wiki/returns.md''" by code_simp+
  then show ?thesis by (simp add: item_valid_def queued_item_def sample_item_def)
qed

lemma sample_note_safe: "note_safe (review_env p) (queued_item (review_env p) sample_item p)"
proof -
  let ?f = "item_fields blank_env (queued_item blank_env sample_item p)"
  have len: "length ?f = 13" by (simp add: item_fields_def queued_item_def sample_item_def)
  have dump: "sample_dump ?f = ''fields: 13'' @ [nl]"
  proof -
    have "show_nat 13 = ''13''" by code_simp
    then show ?thesis by (simp add: sample_dump_def len)
  qed
  have load: "q_load (review_env p) (sample_dump ?f) = Inr (YamlMapping ?f)"
    by (simp add: review_env_sel(6))
  have "strip ''fields: 13'' \<noteq> FENCE" by code_simp
  moreover have "split_on nl ''fields: 13'' = [''fields: 13'']" by simp
  ultimately have lines: "\<forall>l \<in> set (split_on nl (butlast (''fields: 13'' @ [nl]))). strip l \<noteq> FENCE" by simp
  have cr: "cr \<notin> set (''fields: 13'' @ [nl])" by (simp add: cr_def)
  show ?thesis
    unfolding note_safe_def review_env_same review_env_sel(3) Let_def load unfolding dump using lines cr by simp
qed

lemma sample_contained: "rationale_contained ''policy changed''" "resolution_contained []"
  "proposal_contained window_diff"
  by (code_simp, code_simp, code_simp)

lemma sample_writable:
  assumes "proposal_contained p" and "cr \<notin> set p" and "kind \<in> {''replace'', ''diff''}"
  shows "writable (review_env p) (queued_item (review_env p) sample_item p) (ri_rationale sample_item) p kind []"
proof -
  have "cr \<notin> set (ri_rationale sample_item)" "ri_rationale sample_item = ''policy changed''"
    by (simp_all add: sample_item_def cr_def)
  then show ?thesis
    using assms sample_valid [of p] sample_note_safe [of p] review_codec [of p] sample_contained by (simp add: writable_def)
qed

definition empty_queue :: queue where "empty_queue = \<lparr>q_pending = [], q_archive = []\<rparr>"

definition sample_queue :: "string \<Rightarrow> string \<Rightarrow> queue" where
  "sample_queue p kind = \<lparr>q_pending = [(''review-1.md'', queued_text (review_env p) sample_item p kind)], q_archive = []\<rparr>"

lemma sample_enqueue:
  assumes "kind \<in> {''replace'', ''diff''}"
  shows "enqueue (review_env p) calm sample_item p kind empty_queue = (Inr (Some ''review-1.md''), sample_queue p kind)"
proof -
  have l: "list_items (review_env p) (Some StatusPending) None empty_queue = Inr []"
    by (simp add: list_items_def empty_queue_def sort_created_def)
  have n: "queue_filename ''review-1'' k 0 = ''review-1.md''" for k by (simp add: queue_filename_def)
  have parts: "relative_parts ''review-1.md'' = Inr [''review-1.md'']" by code_simp
  have a: "allocate empty_queue ''review-1'' k 0 = Inr ''review-1.md''" for k
    using allocate.simps [of empty_queue "''review-1''" k 0]
    by (simp add: n parts empty_queue_def archived_name_def)
  have key: "strip ''window'' \<noteq> []" by code_simp
  have item: "ri_id sample_item = ''review-1''" "ri_pattern_key sample_item = ''window''" by (simp_all add: sample_item_def)
  show ?thesis
    unfolding enqueue_unfold enqueue_new_def item l sum.case a
    using assms key by (simp add: guards.simps has_twin_def sample_queue_def empty_queue_def calm_def add_pending_def)
qed

section \<open>Queue properties\<close>


theorem enqueue_once_witness:
  "enqueue (review_env window_diff) calm sample_item window_diff ''diff'' (sample_queue window_diff ''diff'') =
     (Inr None, sample_queue window_diff ''diff'')"
proof -
  have nocr: "cr \<notin> set window_diff" by (simp add: window_diff_def cr_def)
  have k: "''diff'' \<in> {''replace'', ''diff''}" by simp
  have l: "list_items (review_env window_diff) (Some StatusPending) None empty_queue = Inr []"
    by (simp add: list_items_def empty_queue_def sort_created_def)
  have i: "is_aware (ri_created sample_item)" "plain_id (ri_id sample_item)"
    by (simp_all add: sample_item_def plain_id_def backslash_def)
  have "strip ''window'' \<noteq> []" by code_simp
  then have key: "strip (ri_pattern_key sample_item) \<noteq> []" by (simp add: sample_item_def)
  have none: "\<forall>x \<in> set []. is_aware (ri_created (snd x))" by simp
  have disk: "\<not> dk_mkdir_fails calm" "dk_write calm = WriteOk" by (simp_all add: calm_def)
  from enqueue_once [OF l none i key sample_writable [OF sample_contained(3) nocr k] disk]
  show ?thesis by (simp add: sample_enqueue)
qed

text \<open>
  A proposal with a line of four backticks, a note that itself shows a fenced block, is queued without complaint and
  loads truncated at that line: applying it would write only its first part.
\<close>

definition fenced_note :: string where
  "fenced_note = join [nl] [''before'', ''````'', ''code'', ''````'', ''after'']"

lemma fenced_proposal_truncated:
  "enqueue (review_env fenced_note) calm sample_item fenced_note ''replace'' empty_queue =
     (Inr (Some ''review-1.md''), sample_queue fenced_note ''replace'') \<and>
   (\<exists>loaded. load_review (review_env fenced_note) (sample_queue fenced_note ''replace'') ''review-1.md'' = Inr loaded \<and>
     lr_proposal loaded = ''before'')"
proof -
  let ?E = "review_env fenced_note" and ?body = "render_body ''policy changed'' fenced_note ''replace'' []"
  have nocr: "cr \<notin> set ?body" by code_simp
  have search: "proposal_search (case split_sections ?body ''Proposal'' of Some t \<Rightarrow> t | None \<Rightarrow> []) = Some (''replace'', ''before'')"
    by code_simp
  have rat: "ri_rationale sample_item = ''policy changed''" by (simp add: sample_item_def)
  have "\<exists>loaded. parse_item ?E (queued_text ?E sample_item fenced_note ''replace'') = Inr loaded \<and> lr_proposal loaded = ''before''"
    unfolding parse_item_def queued_text_def render_item_def rat note_render [OF sample_note_safe nocr]
    using fields_validate [OF sample_valid review_codec] search by (simp add: Let_def)
  then show ?thesis using sample_enqueue [of "''replace''"] by (simp add: load_review_def sample_queue_def)
qed

section \<open>Applying\<close>

definition sample_apply :: apply_env where
  "sample_apply = \<lparr>ae_realpath = (\<lambda>p. p), ae_base = [''vault''], ae_other = (\<lambda>p v. v),
     ae_token = (\<lambda>k target v. (''x1'', 100 + k)), ae_fails = (\<lambda>k c. None), ae_temp_write = (\<lambda>k. WriteOk),
     ae_hook = Some (\<lambda>k p v. (v, None)), ae_archive_disk = calm, ae_mark_write = WriteOk,
     ae_today = ''2025-03-01'', ae_now = Aware 9\<rparr>"

definition target_path :: "string list" where "target_path = [''vault'', ''wiki'', ''returns.md'']"

definition sample_world :: world where
  "sample_world = \<lparr>w_queue = sample_queue window_diff ''diff'',
     w_vault = [target_path \<mapsto> Regular 7 420 (Some note_before)]\<rparr>"

lemma sample_quiet: "undisturbed sample_apply (w_vault sample_world)" "cr \<notin> set (ae_today sample_apply)"
proof -
  have "temp_path sample_apply k target v \<noteq> target_path" for k target v
  proof
    assume "temp_path sample_apply k target v = target_path"
    then have "last (temp_path sample_apply k target v) = ''returns.md''" by (simp add: target_path_def)
    then have "last (last (temp_path sample_apply k target v)) = CHR ''d''" by simp
    then show False by (simp add: temp_path_def)
  qed
  then have "v (temp_path sample_apply k target v) = None" if "\<forall>p. p \<noteq> target \<longrightarrow> v p = w_vault sample_world p" for k target v
    using that temp_other [of sample_apply k target v] by (simp add: sample_world_def)
  then show "undisturbed sample_apply (w_vault sample_world)" by (simp add: undisturbed_def sample_apply_def)
  show "cr \<notin> set (ae_today sample_apply)" by (simp add: sample_apply_def cr_def)
qed

lemma sample_loaded:
  "load_review (review_env window_diff) (w_queue sample_world) ''review-1.md'' =
     Inr \<lparr>lr_item = queued_item (review_env window_diff) sample_item window_diff,
       lr_rationale = strip (ri_rationale sample_item), lr_proposal = window_diff, lr_kind = ''diff'', lr_resolution = strip []\<rparr>"
proof -
  have nocr: "cr \<notin> set window_diff" by (simp add: window_diff_def cr_def)
  have k: "''diff'' \<in> {''replace'', ''diff''}" by simp
  show ?thesis
    using parse_render [OF sample_writable [OF sample_contained(3) nocr k]]
    by (simp add: load_review_def sample_world_def sample_queue_def queued_text_def)
qed

lemma sample_patch:
  "apply_unified_diff note_before window_diff = Inr note_patched"
  by code_simp

lemma sample_stamp:
  "stamp ''2025-03-01'' note_patched = note_after"
  by code_simp

text \<open>The facts of the run, and the run.\<close>

lemma sample_facts:
  fixes E loaded
  defines "E \<equiv> review_env window_diff"
  defines "loaded \<equiv> \<lparr>lr_item = queued_item E sample_item window_diff, lr_rationale = strip (ri_rationale sample_item),
    lr_proposal = window_diff, lr_kind = ''diff'', lr_resolution = strip []\<rparr>"
  shows "resolve_within (ae_realpath sample_apply) (ae_base sample_apply) (ri_target (lr_item loaded)) = Inr target_path"
    and "w_vault sample_world target_path = Some (Regular 7 420 (Some note_before))"
    and "note_before = universal_newlines note_before"
    and "content_hash E note_before = ri_base_hash (lr_item loaded)"
    and "patched loaded note_before = Inr note_patched"
    and "''review-1.md'' \<notin> fst ` set (q_archive (w_queue sample_world))"
proof -
  have "relative_parts ''wiki/returns.md'' = Inr [''wiki'', ''returns.md'']" by code_simp
  then show "resolve_within (ae_realpath sample_apply) (ae_base sample_apply) (ri_target (lr_item loaded)) = Inr target_path"
    by (simp add: resolve_within_def sample_apply_def queued_item_def sample_item_def target_path_def loaded_def)
  show "w_vault sample_world target_path = Some (Regular 7 420 (Some note_before))" by (simp add: sample_world_def)
  show "note_before = universal_newlines note_before" by code_simp
  show "content_hash E note_before = ri_base_hash (lr_item loaded)"
    by (simp add: review_env_same queued_item_def sample_item_def loaded_def E_def)
  show "patched loaded note_before = Inr note_patched"
    using sample_patch by (simp add: patched_def loaded_def)
  show "''review-1.md'' \<notin> fst ` set (q_archive (w_queue sample_world))" by (simp add: sample_world_def sample_queue_def)
qed

theorem apply_succeeds_witness:
  "\<exists>Q j. apply_review (review_env window_diff) sample_apply ''review-1.md'' sample_world =
     (Inr (AppliedResult target_path ''review-1.md''),
      sample_world\<lparr>w_vault := [target_path \<mapsto> Regular j 420 (Some note_after)], w_queue := Q\<rparr>)"
proof -
  have hook: "\<forall>hook k p v. ae_hook sample_apply = Some hook \<longrightarrow> snd (hook k p v) = None"
    and disk: "ae_archive_disk sample_apply = calm" and today: "ae_today sample_apply = ''2025-03-01''"
    by (simp_all add: sample_apply_def)
  have vault: "(w_vault sample_world)(target_path := Some x) = [target_path \<mapsto> x]" for x
    by (simp add: sample_world_def)
  from apply_succeeds [OF sample_quiet(1) hook disk sample_quiet(2) sample_loaded sample_facts]
  show ?thesis unfolding today sample_stamp vault by blast
qed

text \<open>The same run, step by step.\<close>

lemma sample_archive:
  "\<exists>Q. archive_item (review_env window_diff) (Aware 9) calm ''review-1.md'' ''applied'' n (w_queue sample_world) = (Inr (), Q) \<and>
     moved ''review-1.md'' (w_queue sample_world) Q"
proof -
  have "read_status ''applied'' = Some StatusApplied" by code_simp
  moreover have "q_archive (w_queue sample_world) = []" by (simp add: sample_world_def sample_queue_def)
  ultimately show ?thesis
    using sample_loaded load_review_pending [OF sample_loaded] unfolding archive_item_Inr by (auto simp: calm_def moved_def)
qed

lemma sample_run:
  "\<exists>w' j. apply_review (review_env window_diff) sample_apply ''review-1.md'' sample_world =
     (Inr (AppliedResult target_path ''review-1.md''), w') \<and> moved ''review-1.md'' (w_queue sample_world) (w_queue w') \<and>
     w_vault w' = [target_path \<mapsto> Regular j 420 (Some note_after)]"
proof -
  let ?E = "review_env window_diff" and ?v = "[target_path \<mapsto> Regular 100 420 (Some note_after)]"
  have other: "ae_other sample_apply p v = v" for p v by (simp add: sample_apply_def)
  have A: "ae_hook sample_apply = Some (\<lambda>k p v. (v, None))" "ae_archive_disk sample_apply = calm"
    "ae_now sample_apply = Aware 9" "ae_today sample_apply = ''2025-03-01''" "snd (ae_token sample_apply 0 t v) = 100" for t v
    by (simp_all add: sample_apply_def)
  have clean: "universal_newlines note_after = note_after" by code_simp
  have rd: "read_text (w_vault sample_world) target_path = Inr note_before" "is_file (w_vault sample_world) target_path"
    using read_regular [of "w_vault sample_world" target_path 7 420 note_before] sample_facts(2,3)
    by (simp_all add: is_file_def stat_regular)
  have after: "read_text ?v target_path = Inr note_after"
    using read_regular [of ?v target_path 100 420 note_after] clean by simp
  have wr: "write_no_follow ?E sample_apply 0 target_path note_after (content_hash ?E note_before) (w_vault sample_world) = (Inr (), ?v)"
    using write_quiet [OF sample_quiet(1), of target_path "w_vault sample_world" ?E 0 note_after "content_hash ?E note_before"]
      sample_facts(3) by (simp add: A sample_world_def)
  let ?item = "queued_item ?E sample_item window_diff"
  have base: "ri_base_hash ?item = content_hash ?E note_before"
    and target: "resolve_within (ae_realpath sample_apply) (ae_base sample_apply) (ri_target ?item) = Inr target_path"
    using sample_facts(1,4) by simp_all
  have patch: "patched \<lparr>lr_item = ?item, lr_rationale = strip (ri_rationale sample_item), lr_proposal = window_diff,
      lr_kind = ''diff'', lr_resolution = strip []\<rparr> note_before = Inr note_patched"
    using sample_facts(5) .
  let ?note = "''applied to '' @ ri_target ?item @ '' ('' @ ''diff'' @ '')'' @ ''; derived index synchronized''"
  obtain Q where Q: "archive_item ?E (Aware 9) calm ''review-1.md'' ''applied'' ?note (w_queue sample_world) = (Inr (), Q)"
      "moved ''review-1.md'' (w_queue sample_world) Q" using sample_archive by blast
  let ?loaded = "\<lparr>lr_item = ?item, lr_rationale = strip (ri_rationale sample_item), lr_proposal = window_diff,
      lr_kind = ''diff'', lr_resolution = strip []\<rparr>"
  have fin: "finish ?E sample_apply ''review-1.md'' ?loaded target_path note_before (content_hash ?E note_after)
      (sample_world\<lparr>w_vault := ?v\<rparr>) = (Inr (AppliedResult target_path ''review-1.md''), sample_world\<lparr>w_vault := ?v, w_queue := Q\<rparr>)"
    using Q(1) by (simp add: finish_def Let_def A other)
  have "settle ?E sample_apply ''review-1.md'' ?loaded target_path note_before (content_hash ?E note_after)
      (sample_world\<lparr>w_vault := ?v\<rparr>) = (Inr (AppliedResult target_path ''review-1.md''), sample_world\<lparr>w_vault := ?v, w_queue := Q\<rparr>)"
    using fin after by (simp add: settle_def A)
  then have "apply_review ?E sample_apply ''review-1.md'' sample_world =
      (Inr (AppliedResult target_path ''review-1.md''), sample_world\<lparr>w_vault := ?v, w_queue := Q\<rparr>)"
    unfolding apply_review_def sample_loaded sum.case loaded_review.select_convs target Let_def world_parts other
    using rd wr by (simp add: base patch A sample_stamp)
  then show ?thesis using Q(2) by auto
qed

theorem apply_result_truthful_witness:
  "\<exists>w' v. apply_review (review_env window_diff) sample_apply ''review-1.md'' sample_world =
     (Inr (AppliedResult target_path ''review-1.md''), w') \<and>
     guarded_replace (review_env window_diff) sample_apply 0 target_path note_after
       (content_hash (review_env window_diff) note_before) (w_vault sample_world) v"
proof -
  let ?E = "review_env window_diff"
  obtain w' where run: "apply_review ?E sample_apply ''review-1.md'' sample_world =
     (Inr (AppliedResult target_path ''review-1.md''), w')" using sample_run by blast
  from apply_result_truthful [OF run] obtain loaded current newt v where
    l: "load_review ?E (w_queue sample_world) ''review-1.md'' = Inr loaded"
    and c: "read_text (read_vault sample_apply (w_vault sample_world)) target_path = Inr current"
    and p: "patched loaded current = Inr newt" and h: "content_hash ?E current = ri_base_hash (lr_item loaded)"
    and g: "guarded_replace ?E sample_apply 0 target_path (stamp (ae_today sample_apply) newt) (ri_base_hash (lr_item loaded))
      (read_vault sample_apply (w_vault sample_world)) v"
    by auto
  have quiet: "read_vault sample_apply (w_vault sample_world) = w_vault sample_world" by (rule quiet_vaults(2) [OF sample_quiet(1)])
  have "current = note_before"
    using c read_regular [of "w_vault sample_world" target_path 7 420 note_before] sample_facts(2,3) by (simp add: quiet)
  moreover have "newt = note_patched" using p l [unfolded sample_loaded] sample_facts(5) calculation by simp
  moreover have "ae_today sample_apply = ''2025-03-01''" by (simp add: sample_apply_def)
  ultimately show ?thesis using g h run by (auto simp: quiet sample_stamp)
qed


end
