(* ===== verification/ReviewHistory.thy ===== *)
theory ReviewHistory
  imports ReviewWitnesses Histories
begin

text \<open>
  Histories of the review queue: any sequence of enqueueing, resolving, marking and applying items, failed calls
  and failing disks included, on one workspace.
\<close>

datatype queue_event =
    EnqueueItem disk review_item string string
  | ResolveItem moment disk string string string
  | MarkItem disk_write string string
  | ApplyItem apply_env string

text \<open>The world after a call, whether it returned or raised.\<close>

fun queue_app :: "queue_env \<Rightarrow> queue_event \<Rightarrow> world \<Rightarrow> world" where
  "queue_app E (EnqueueItem d item proposal kind) w =
     w\<lparr>w_queue := snd (enqueue E d item proposal kind (w_queue w))\<rparr>"
| "queue_app E (ResolveItem now d name outcome remark) w =
     w\<lparr>w_queue := snd (archive_item E now d name outcome remark (w_queue w))\<rparr>"
| "queue_app E (MarkItem dw name reason) w = w\<lparr>w_queue := snd (mark_conflict E dw name reason (w_queue w))\<rparr>"
| "queue_app E (ApplyItem A name) w = snd (apply_review E A name w)"

text \<open>
  Ids of enqueued items contain no backslash; everything else may be called with any arguments.  In a tidy
  history the removal of the copy in the handler of \<open>archive\<close> does not fail.
\<close>

fun queue_event_ok :: "bool \<Rightarrow> queue_event \<Rightarrow> world \<Rightarrow> bool" where
  "queue_event_ok tidy (EnqueueItem d item proposal kind) w \<longleftrightarrow> backslash \<notin> set (ri_id item)"
| "queue_event_ok tidy (ResolveItem now d name outcome remark) w \<longleftrightarrow> (tidy \<longrightarrow> \<not> dk_clean_fails d)"
| "queue_event_ok tidy (MarkItem dw name reason) w \<longleftrightarrow> True"
| "queue_event_ok tidy (ApplyItem A name) w \<longleftrightarrow> (tidy \<longrightarrow> \<not> dk_clean_fails (ae_archive_disk A))"

definition pending_names :: "queue \<Rightarrow> string list" where "pending_names Q = map fst (q_pending Q)"

definition archive_names :: "queue \<Rightarrow> string list" where "archive_names Q = map fst (q_archive Q)"

definition names_distinct :: "queue \<Rightarrow> bool" where
  "names_distinct Q \<longleftrightarrow> distinct (pending_names Q) \<and> distinct (archive_names Q)"

definition names_disjoint :: "queue \<Rightarrow> bool" where
  "names_disjoint Q \<longleftrightarrow> set (pending_names Q) \<inter> set (archive_names Q) = {}"

text \<open>The step relation of the histories: what every call keeps, and what every tidy call keeps.\<close>

definition queue_grows :: "bool \<Rightarrow> queue \<Rightarrow> queue \<Rightarrow> bool" where
  "queue_grows tidy Q Q' \<longleftrightarrow> (\<exists>new. q_archive Q' = q_archive Q @ new) \<and>
     set (pending_names Q) \<union> set (archive_names Q) \<subseteq> set (pending_names Q') \<union> set (archive_names Q') \<and>
     (tidy \<longrightarrow> names_disjoint Q \<longrightarrow> names_disjoint Q')"

lemma queue_grows_refl [simp]: "queue_grows tidy Q Q" by (simp add: queue_grows_def)

lemma queue_grows_trans: "queue_grows tidy Q R \<Longrightarrow> queue_grows tidy R S \<Longrightarrow> queue_grows tidy Q S"
  by (auto simp: queue_grows_def)

lemma set_pending_names: "name \<in> fst ` set (q_pending Q) \<Longrightarrow> pending_names (set_pending name t Q) = pending_names Q"
  unfolding pending_names_def set_pending_def set_map [symmetric] by (simp add: update_keys del: set_map)

lemma touched_names:
  assumes "touched name Q Q'"
  shows "pending_names Q' = pending_names Q \<and> q_archive Q' = q_archive Q"
  using assms set_pending_names by (auto simp: touched_def set_pending_def)

lemma touched_grows:
  assumes "touched name Q Q'" and "names_distinct Q"
  shows "names_distinct Q' \<and> queue_grows tidy Q Q'"
  using touched_names [OF assms(1)] assms(2)
  by (simp add: names_distinct_def queue_grows_def names_disjoint_def archive_names_def)

lemma left_copy_grows:
  assumes "left_copy name Q Q'" and "names_distinct Q" and "\<not> tidy"
  shows "names_distinct Q' \<and> queue_grows tidy Q Q'"
  using assms
  by (auto simp: left_copy_def add_copy_def names_distinct_def queue_grows_def pending_names_def archive_names_def)

lemma kept_grows:
  assumes "kept A name Q Q'" and "names_distinct Q" and "tidy \<longrightarrow> \<not> dk_clean_fails (ae_archive_disk A)"
  shows "names_distinct Q' \<and> queue_grows tidy Q Q'"
proof -
  obtain R where R: "R = Q \<or> dk_clean_fails (ae_archive_disk A) \<and> left_copy name Q R" "touched name R Q'"
    using assms(1) by (auto simp: kept_def)
  have "names_distinct R \<and> queue_grows tidy Q R"
    using R(1) left_copy_grows assms(2,3) by (cases "R = Q") auto
  then show ?thesis using touched_grows [OF R(2)] queue_grows_trans by blast
qed

lemma moved_grows:
  assumes "moved name Q Q'" and "names_distinct Q"
  shows "names_distinct Q' \<and> queue_grows tidy Q Q'"
proof -
  obtain t where t: "q_archive Q' = q_archive Q @ [(name, t)]" using assms(1) by (auto simp: moved_def)
  have p: "pending_names Q' = removeAll name (pending_names Q)"
    using assms(1) by (simp add: moved_def pending_names_def delete_keys)
  have a: "archive_names Q' = archive_names Q @ [name]" by (simp add: archive_names_def t)
  have "name \<notin> set (archive_names Q)" using assms(1) by (simp add: moved_def archive_names_def)
  then show ?thesis
    using assms(2) t by (auto simp: names_distinct_def queue_grows_def names_disjoint_def p a distinct_removeAll)
qed

lemma enqueue_grows:
  assumes "codec_ok E" and "backslash \<notin> set (ri_id item)" and "names_distinct Q"
  shows "names_distinct (snd (enqueue E d item proposal kind Q)) \<and>
    queue_grows tidy Q (snd (enqueue E d item proposal kind Q))"
proof -
  obtain r Q' where run: "enqueue E d item proposal kind Q = (r, Q')" by (cases "enqueue E d item proposal kind Q")
  have "list_all hex_char (review_key E item proposal)" using key_hex [OF assms(1)] by (simp add: review_key_def)
  then have "Q' = Q \<or> (\<exists>name t. name \<notin> set (pending_names Q) \<and> name \<notin> set (archive_names Q) \<and> Q' = add_pending name t Q)"
    using enqueue_outcome [OF run] allocate_fresh [OF _ assms(2)] by (fastforce simp: pending_names_def archive_names_def)
  moreover have "pending_names (add_pending name t Q) = pending_names Q @ [name]"
    "archive_names (add_pending name t Q) = archive_names Q" "q_archive (add_pending name t Q) = q_archive Q" for name t
    by (simp_all add: add_pending_def pending_names_def archive_names_def)
  ultimately show ?thesis
    using assms(3) run by (auto simp: names_distinct_def queue_grows_def names_disjoint_def)
qed

lemma archive_item_grows:
  assumes "names_distinct Q" and "tidy \<longrightarrow> \<not> dk_clean_fails d"
  shows "names_distinct (snd (archive_item E now d name outcome remark Q)) \<and>
    queue_grows tidy Q (snd (archive_item E now d name outcome remark Q))"
proof (cases "archive_item E now d name outcome remark Q")
  case (Pair r Q')
  show ?thesis
  proof (cases r)
    case (Inl e)
    from archive_item_Inl [OF Pair [unfolded Inl]] show ?thesis
      using Pair assms left_copy_grows by auto
  next
    case (Inr u)
    have "moved name Q Q'"
      using Pair load_review_pending [of E Q name] unfolding Inr archive_item_Inr by (auto simp: moved_def)
    then show ?thesis using Pair moved_grows assms(1) by simp
  qed
qed

lemma apply_queue_outcome:
  assumes "apply_review E A name w = (r, w')"
  shows "kept A name (w_queue w) (w_queue w') \<or> moved name (w_queue w) (w_queue w')"
  using assms
proof (cases rule: apply_outcome)
  case stopped
  then show ?thesis by simp
next
  case (refused target m v)
  from conflict_outcome [OF refused(1)] show ?thesis by (simp add: touched_kept)
next
  case (replaced loaded target current newt v)
  from replaced(7) show ?thesis
  proof (cases rule: settle_outcome)
    case ended
    then show ?thesis by simp
  next
    case (undone reason v' Q u)
    from undone(1) have "touched name Q (w_queue w')" by (rule rollback_outcome) simp
    then show ?thesis using undone(2) by (auto simp: kept_def)
  qed
qed

lemma queue_app_grows:
  assumes "codec_ok E" and "names_distinct (w_queue w)" and "queue_event_ok tidy e w"
  shows "names_distinct (w_queue (queue_app E e w)) \<and> queue_grows tidy (w_queue w) (w_queue (queue_app E e w))"
proof (cases e)
  case (EnqueueItem d item proposal kind)
  then show ?thesis using enqueue_grows assms by simp
next
  case (ResolveItem now d name outcome remark)
  then show ?thesis using archive_item_grows assms by simp
next
  case (MarkItem dw name reason)
  obtain r Q where run: "mark_conflict E dw name reason (w_queue w) = (r, Q)"
    by (cases "mark_conflict E dw name reason (w_queue w)")
  have "touched name (w_queue w) Q" using mark_conflict_outcome [OF run] by (auto simp: touched_def)
  then show ?thesis using touched_grows assms(2) MarkItem run by simp
next
  case (ApplyItem A name)
  obtain r w' where run: "apply_review E A name w = (r, w')" by (cases "apply_review E A name w")
  from apply_queue_outcome [OF run] show ?thesis
  proof
    assume "kept A name (w_queue w) (w_queue w')"
    from kept_grows [OF this assms(2), of tidy] show ?thesis using assms(3) ApplyItem run by simp
  next
    assume "moved name (w_queue w) (w_queue w')"
    from moved_grows [OF this assms(2)] show ?thesis using ApplyItem run by simp
  qed
qed

interpretation queue_history: monotone_history "queue_event_ok tidy" "queue_app E"
  "\<lambda>w. codec_ok E \<and> names_distinct (w_queue w)" "\<lambda>w w'. queue_grows tidy (w_queue w) (w_queue w')" for tidy E
proof unfold_locales
  show "codec_ok E \<and> names_distinct (w_queue (queue_app E e s))" "queue_grows tidy (w_queue s) (w_queue (queue_app E e s))"
    if "codec_ok E \<and> names_distinct (w_queue s)" "queue_event_ok tidy e s" for s e
    using queue_app_grows [of E s tidy e] that by blast+
  show "queue_grows tidy (w_queue s) (w_queue s)" for s by simp
  show "queue_grows tidy (w_queue s) (w_queue u)"
    if "queue_grows tidy (w_queue s) (w_queue t)" "queue_grows tidy (w_queue t) (w_queue u)" for s t u
    using that by (rule queue_grows_trans)
qed

text \<open>
  C14. The archive is history.  Along every sequence of enqueue, archive, mark and apply calls, whether they
  return, raise or meet a failing disk half-way, with ids without backslashes and while nobody else touches the two
  directories: archived files are never removed, reordered or rewritten, every item that was queued is still
  pending or archived, and no directory holds a name twice; if besides the clean-up of a failing archive
  always succeeds, no name is both pending and archived.
\<close>

theorem archive_immutable:
  assumes "reaches (queue_event_ok tidy) (queue_app E) w w'" and "codec_ok E" and "names_distinct (w_queue w)"
  shows "(\<exists>new. q_archive (w_queue w') = q_archive (w_queue w) @ new) \<and>
    set (pending_names (w_queue w)) \<union> set (archive_names (w_queue w)) \<subseteq>
      set (pending_names (w_queue w')) \<union> set (archive_names (w_queue w')) \<and>
    names_distinct (w_queue w') \<and>
    (tidy \<longrightarrow> names_disjoint (w_queue w) \<longrightarrow> names_disjoint (w_queue w'))"
  using queue_history.rel_reaches [OF assms(1)] queue_history.inv_reaches [OF assms(1)] assms(2,3)
  by (simp add: queue_grows_def)

theorem archive_immutable_witness:
  "\<exists>w'. reaches (queue_event_ok True) (queue_app (review_env window_diff)) sample_world w' \<and>
     ''review-1.md'' \<in> set (archive_names (w_queue w')) \<and> ''review-1.md'' \<notin> set (pending_names (w_queue w'))"
proof -
  let ?e = "ApplyItem sample_apply ''review-1.md''"
  obtain w' where run: "apply_review (review_env window_diff) sample_apply ''review-1.md'' sample_world =
      (Inr (AppliedResult target_path ''review-1.md''), w')" "moved ''review-1.md'' (w_queue sample_world) (w_queue w')"
    using sample_run by blast
  have "reaches (queue_event_ok True) (queue_app (review_env window_diff)) sample_world
      (queue_app (review_env window_diff) ?e sample_world)"
    by (intro reaches.intros) (simp add: sample_apply_def calm_def)
  then have r: "reaches (queue_event_ok True) (queue_app (review_env window_diff)) sample_world w'"
    using run(1) by simp
  have start: "names_distinct (w_queue sample_world)" "names_disjoint (w_queue sample_world)"
    by (simp_all add: sample_world_def sample_queue_def names_distinct_def names_disjoint_def pending_names_def archive_names_def)
  have "''review-1.md'' \<in> set (archive_names (w_queue w'))" using run(2) by (auto simp: moved_def archive_names_def)
  moreover have "names_disjoint (w_queue w')" using archive_immutable [OF r review_codec start(1)] start(2) by simp
  ultimately show ?thesis using r unfolding names_disjoint_def by blast
qed

text \<open>
  Why ids without backslashes.  The name of a pending file is resolved after backslashes became slashes, the
  archive is searched under the raw name: the id \<open>.\x\<close> is accepted and lands on a name that the archive holds.
\<close>

lemma backslash_id_reuses_name:
  "no_path_traversal (CHR ''.'' # backslash # ''x'') \<and>
   allocate \<lparr>q_pending = [], q_archive = [(''x.md'', t)]\<rparr> (CHR ''.'' # backslash # ''x'') key 0 = Inr ''x.md''"
proof
  show "no_path_traversal (CHR ''.'' # backslash # ''x'')" by code_simp
  have n: "queue_filename (CHR ''.'' # backslash # ''x'') key 0 = CHR ''.'' # backslash # ''x.md''"
    by (simp add: queue_filename_def)
  have parts: "relative_parts (CHR ''.'' # backslash # ''x.md'') = Inr [''x.md'']"
    "posix_parts (CHR ''.'' # backslash # ''x.md'') = [CHR ''.'' # backslash # ''x.md'']" by code_simp+
  show "allocate \<lparr>q_pending = [], q_archive = [(''x.md'', t)]\<rparr> (CHR ''.'' # backslash # ''x'') key 0 = Inr ''x.md''"
    by (subst allocate.simps) (simp add: n parts archived_name_def)
qed

text \<open>
  A slash in an id passes the validation of the item, and then the file cannot be opened: its directory is never made.
\<close>

lemma slash_id_cannot_open:
  "no_path_traversal ''a/b'' \<and> allocate \<lparr>q_pending = [], q_archive = []\<rparr> ''a/b'' key 0 = Inl (OsError ''no such directory'')"
proof
  show "no_path_traversal ''a/b''" by code_simp
  have n: "queue_filename ''a/b'' key 0 = ''a/b.md''" by (simp add: queue_filename_def)
  have parts: "relative_parts ''a/b.md'' = Inr [''a'', ''b.md'']" by code_simp
  show "allocate \<lparr>q_pending = [], q_archive = []\<rparr> ''a/b'' key 0 = Inl (OsError ''no such directory'')"
    by (subst allocate.simps) (simp add: n parts archived_name_def)
qed

text \<open>
  A rationale that leaves a fence open swallows the heading of the proposal: the file that was written has no
  \<open>Proposal\<close> section and does not load.
\<close>

lemma open_fence_hides_proposal:
  "split_sections (render_body (join [nl] [''see'', replicate 3 backtick]) ''new text'' ''replace'' []) ''Proposal'' = None"
  by code_simp

end
