(* ===== verification/Spec2Isabelle.thy ===== *)
theory Spec2Isabelle
  imports Witnesses StoreUnstable Segmenter Frontmatter DocumentWitnesses DiscoveryWitnesses ReviewHistory
begin

text \<open>
  A verification library for the change-control core of MasterVault
  (\<open>src/src/mastervault/change_control\<close>).

  The program.  Change control keeps, per workspace, one aggregate: versioned documents, the claims
  extracted from them, an assessed relation graph over claims, assessed dependencies of documents on
  claims, assessed document replacements and temporal constraints.  All of these are frozen Pydantic
  models whose validators refuse every value that is not canonical and closed.  A SQLite store
  normalises an aggregate into tables, commits new revisions by compare-and-swap with idempotent
  operation receipts, and runs the human review of proposed replacements and constraints.  Claims cite
  quotes of parsed PDF documents, which \<open>document_intelligence\<close> grounds in blocks and table cells;
  discovery pairs changed claims with the claims nobody has compared them with, walks the relation
  graph and the dependencies from them, and ranks the documents to look at; note bodies are cut into chunks for search.
  Changes to notes that a machine proposes wait as Markdown files in a review queue until a human
  applies or rejects them (\<open>src/src/mastervault/review\<close>).

  Theories and the code they model.
  \<^item> \<open>Prelude\<close>: results of fallible code (a sum with \<open>py_error\<close>), loops over lists, the
    dictionary and sorting idioms, the interpreter environment \<open>py_env\<close>, the locale of keyed registries.
  \<^item> \<open>PyText\<close>, \<open>CanonJson\<close>, \<open>Dates\<close>: \<open>models.py\<close> text normalisation, paths, patterns, canonical JSON
    bytes and content identities; \<open>datetime.date\<close>.
  \<^item> \<open>Evidence\<close>, \<open>ParsedDocs\<close>: the evidence references of \<open>document_intelligence/models.py\<close> that change
    control embeds, and the parsed documents of both schema versions with their validators.
  \<^item> \<open>Grounding\<close>: \<open>document_intelligence/grounding.py\<close>, the whitespace-flexible search of a quote, the
    error list, the resolution of candidates to references and their re-validation.
  \<^item> \<open>Documents\<close>, \<open>Claims\<close>, \<open>Relations\<close> (with \<open>Digraph\<close> for the depth-first cycle check),
    \<open>Dependencies\<close>, \<open>Temporal\<close>, \<open>Resolution\<close>, \<open>Aggregate\<close>: the models of \<open>models.py\<close>, one theory per registry.
    A class is a record, \<open>x_new\<close> is its construction with all validators, \<open>x_create\<close> its class method
    \<open>create\<close>, \<open>x_json\<close> its \<open>model_dump\<close>, and \<open>x_wf\<close> says that validation returns the value unchanged.
  \<^item> \<open>Review\<close>: \<open>review.py\<close>, the records of human review and \<open>apply_human_review_decision\<close>.
  \<^item> \<open>Rows\<close>: the fourteen aggregate tables of \<open>migrations/sqlite/001_change_control_aggregate.sql\<close>, the
    row writers and \<open>_hydrate_snapshot\<close> of \<open>store.py\<close>; \<open>Hydration\<close> proves the round trip and \<open>Schema\<close>
    that written rows satisfy every constraint of the schema.
  \<^item> \<open>DiscoveryPaths\<close>: \<open>RelationPathStep\<close>, \<open>_relation_adjacency\<close> and \<open>_canonical_relation_paths\<close> of
    \<open>discovery.py\<close>, the work-list search over the relation graph.
  \<^item> \<open>DiscoveryCandidates\<close>: \<open>AnalysisBinding\<close>, \<open>RelationshipCandidate\<close>, \<open>RelationshipCandidateSet\<close>,
    \<open>_validate_snapshot\<close>, \<open>_validate_changed_roots\<close>, \<open>generate_relationship_candidates\<close> and the byte
    budgets of \<open>discovery.py\<close>; \<open>DiscoveryAttention\<close>: anchors, attention paths, the breadth-first search
    over dependencies, \<open>rank_document_attention\<close> and \<open>validate_document_attention_ranking\<close>;
    \<open>DiscoveryRanking\<close>: the specification of the ranking over the aggregate (\<open>impact_reach\<close>,
    \<open>impacted_documents\<close>) and the proof that the code computes it.
  \<^item> \<open>Segmenter\<close>: \<open>vaultfs/segmenter.py\<close>, from the line loop to the greedy merge.
  \<^item> \<open>Frontmatter\<close>: \<open>vaultfs/frontmatter.py\<close>, spans as character offsets, the surgical edit, the repair.
  \<^item> \<open>UnifiedDiff\<close>: \<open>apply_unified_diff\<close> of \<open>review/apply.py\<close>; \<open>ReviewQueue\<close>: \<open>core/paths.py\<close>, \<open>ReviewItem\<close>
    and \<open>review/queue.py\<close>, the two directories as lists of files, each operation on a disk whose calls may fail;
    \<open>ReviewApply\<close>: the rest of \<open>review/apply.py\<close> over the queue and the vault, a map from paths to files (with
    inode, permission bits and text), links and directories.  Every look of the guarded write at the vault is a
    step, with a pause before it at which other writers may change the vault.
  \<^item> \<open>Store\<close>: the public operations of \<open>SqliteChangeControlStore\<close>, each one transaction on a record of
    tables, and the audits \<open>_validate_receipts\<close>, \<open>_validate_reviews\<close> and
    \<open>_validate_global_operation_ownership\<close> that every operation runs first.  The inserts into the review tables
    run the CHECK, UNIQUE and foreign key constraints of \<open>002_authoritative_human_review.sql\<close>.

  Groups of lemmas over the store.
  \<^item> \<open>StoreInv\<close>, \<open>StoreAudit\<close>: the invariant; on a consistent store every audit succeeds and every
    row reads back as what was written.
  \<^item> \<open>StoreSteps\<close>, \<open>StoreOps\<close>: the inductive step relation \<open>store_step\<close>, that steps preserve the
    invariant, and that every operation is a step (or changes nothing).
  \<^item> \<open>Histories\<close>: reachable states, the locales \<open>history\<close> and \<open>monotone_history\<close> with their invariant and
    monotonicity rules; \<open>StoreHistory\<close>: their interpretations on the store and the abstract state \<open>committed\<close>.
  \<^item> \<open>StoreProps\<close>, \<open>StoreReview\<close>, \<open>StoreLifecycle\<close>, \<open>StoreRequests\<close>, \<open>StoreLog\<close>: the
    properties of histories: no corruption, refinement of a map, idempotence, immutability and
    accountability of reviewed subjects, finality and liveness of reviews, numbering of revisions.
  \<^item> \<open>StoreUnstable\<close>: a committed aggregate that cannot be loaded (a flaw of \<open>_safe_relative_path\<close>).
  \<^item> \<open>Samples\<close>, \<open>Witnesses\<close>, \<open>StoreWitnesses\<close>, \<open>DocumentWitnesses\<close>, \<open>DiscoveryWitnesses\<close>: a concrete environment, aggregate,
    history and document, and the properties applied to them.

  Groups of lemmas beside the store.
  \<^item> \<open>DiscoveryPaths\<close>: the level invariant of the search (every settled revision is relaxed, the queue is
    sorted by hops), a potential that every new label lowers, and from both that the loop returns
    minimal walks or the hop limit.
  \<^item> \<open>DiscoveryCandidates\<close>: the cached resolutions are the direct ones, the loops list every pair that has
    no assessment, and the set validates again.  \<open>DiscoveryAttention\<close>: the state of the walk holds only
    sound paths, and a claim the search has met is queued or expanded, so at the end every dependency
    on a reached claim is covered by a kept path or lost to a collision of path identities.
  \<^item> \<open>ParsedDocs\<close>: an accepted table is an exact tiling, and the section stacks compute the outline.
  \<^item> \<open>Grounding\<close>: backtracking of the pattern never helps, so the search is the leftmost occurrence of the
    words; the error list is empty exactly for grounded candidates; resolution then succeeds and
    re-validates.
  \<^item> \<open>UnifiedDiff\<close>: the one pass over a diff succeeds exactly on the scripts \<open>diff_reads\<close> relates to it, and the
    diff of every script applies.  \<open>ReviewQueue\<close>: the section scanner on rendered files, so that a rendered item
    parses; termination of the search for a free name.  \<open>ReviewQueueProps\<close>: fresh names, idempotent
    enqueueing, archiving.  \<open>ReviewApplyProps\<close>: the ways a run of \<open>apply\<close> can end, what a result means under
    interference between two looks, all or nothing without it; \<open>ReviewWitnesses\<close>: a concrete run and a proposal that
    loads truncated; \<open>ReviewHistory\<close>: the archive along every sequence of calls, failing ones with what they leave
    behind, and why the ids in it have no backslash.
  \<^item> \<open>Segmenter\<close>: no word is lost, headings are the heading lines outside fences, the merge is greedy.
  \<^item> \<open>Frontmatter\<close>: the offset loops read as lists of lines, from which the frame of the surgical edit follows.

  Bounds and recursion.  Integers are unbounded as in Python; binding a span offset that does not fit the 64
  bits of a SQLite column raises (\<open>rows_bindable\<close>), and revisions, which grow by one per write, are taken to stay
  below that bound.  No definition but \<open>follow\<close>, which reads at most 40 links as the kernel does, has fuel: loops are
  structural, the depth-first search terminates by a measure on the vertices not yet visited, and the
  work-list loop of \<open>DiscoveryPaths\<close> is a partial function whose termination is a theorem.  The search
  over dependencies terminates because a queued route of \<open>n\<close> steps weighs more than all routes that
  extend it (\<open>queue_weight\<close>) and the depth limit raises at nine.  The search for a free queue name
  terminates because its numbered names are distinct and the directories are finite.  A run that uses the work-list loop
  is an option, \<open>None\<close> for a run that does not end, which no run is.

  Parameters.  SHA-256, NFKC, the text of a float and \<open>round\<close> are fields of \<open>py_env\<close>; what the code
  relies on is stated as \<open>hash_ok\<close> (a digest has 64 hexadecimal digits) and \<open>float_ok\<close> (the text of a
  float determines it).  No theorem assumes that SHA-256 is injective: identities are bound up to an
  explicit collision of two named payloads.  Floats (confidences, coordinates) are rationals, so the negative
  zero is not a value of the model: the program accepts it as a confidence, and SQLite stores it as zero, which
  breaks the digest.  The properties of the store are about aggregates without it.  Strings range over the code
  points 0 to 255.

  In the review queue the YAML library, the date reader, \<open>realpath\<close>, the reindex hook, the names of temporary files,
  what other writers do to the vault between two looks at it and which system calls fail are parameters
  (\<open>queue_env\<close>, \<open>apply_env\<close>, \<open>disk\<close>); \<open>codec_ok\<close>, \<open>note_safe\<close> and \<open>writable\<close> state what is relied on.  Exceptions keep the
  fixed part of their message.  Outside the model are: other writers in the two queue directories and queue files that are
  not UTF-8 or cannot be read, a parent directory of the target that is swapped for another, writes through a second hard link while the
  target is being read, and read errors other than a missing or unsuitable file.

  Conventions of the store model.  The clock is an argument and yields one value per call.  A column
  that holds the canonical JSON text of a validated value holds the value itself; the codecs of enumerations,
  dates and tables are modelled.  Tables of the other write authorities (managed reviews,
  generations, bootstrap, admissions) appear as one list of owned operation ids, which the events
  \<open>Foreign\<close> extend.  A caller of \<open>compare_and_swap\<close> is assumed to hand in an aggregate that is stable
  under revalidation with valid dates, functional claim identities and span offsets below 2^63 (\<open>storable\<close>);
  \<open>StoreUnstable\<close> shows what happens otherwise.  The abstract compare-and-swap (\<open>spec_swap\<close>) speaks of sets of
  subjects (\<open>reviewed_of\<close>, \<open>subjects_of\<close>, \<open>under_review\<close>), not of the guards of the code.

  Not modelled.  Opening and securing the database file, migrations, schema fingerprints, locking and
  busy handling of SQLite (one transaction at a time is assumed, as BEGIN IMMEDIATE grants); the other
  write authorities and the application service of change control; in discovery, raw dictionaries that
  are not dumps of the models (\<open>_json_compatible_raw_projection\<close>); the PDF parsers and renderers; storage
  backends, retrieval, ingest pipelines and the commands that drive the review queue, providers, evaluation and the command line.
\<close>

end
